(* ===== verification/WFM_Prelude.thy ===== *)
theory WFM_Prelude
  imports Complex_Main "HOL-Library.Multiset" "HOL-Library.Char_ord"
begin

text \<open>
  Shared vocabulary of the development: the types that stand for the platform's scalar values,
  the relational tables the services read and write through TypeORM, the effect type of an
  asynchronous service method, and the stable comparator sort of JavaScript arrays.

  A table is the list of its rows. \<open>find_where\<close> is \<open>findOne\<close>, \<open>filter\<close> is \<open>find\<close>,
  \<open>update_where\<close> is an \<open>UPDATE ... WHERE\<close> (its affected rows are the rows that satisfied the
  predicate before it) and \<open>delete_where\<close> a \<open>DELETE ... WHERE\<close>. A service method is a function
  from the state it runs in to an outcome and the state it leaves, so that the effects committed
  before a \<open>throw\<close> stay visible after it.
\<close>

section \<open>Scalars\<close>

type_synonym uuid = string
type_synonym millis = int \<comment> \<open>\<open>Date.getTime()\<close>: milliseconds since the epoch\<close>

definition truthy_str :: "string option \<Rightarrow> bool" where
  \<comment> \<open>JavaScript truthiness of a \<open>string | null | undefined\<close>\<close>
  "truthy_str v = (case v of None \<Rightarrow> False | Some s \<Rightarrow> s \<noteq> [])"

definition nullish_or :: "'a option \<Rightarrow> 'a option \<Rightarrow> 'a option" where
  \<comment> \<open>the operator \<open>a ?? b\<close>\<close>
  "nullish_or a b = (case a of None \<Rightarrow> b | Some x \<Rightarrow> Some x)"

definition the_default :: "'a option \<Rightarrow> 'a \<Rightarrow> 'a" where
  \<comment> \<open>\<open>a ?? b\<close> with a default that is never null\<close>
  "the_default a b = (case a of None \<Rightarrow> b | Some x \<Rightarrow> x)"

lemma the_default_simps [simp]: "the_default None b = b" "the_default (Some x) b = x"
  by (simp_all add: the_default_def)

lemma truthy_str_simps [simp]:
  "\<not> truthy_str None" "truthy_str (Some s) \<longleftrightarrow> s \<noteq> []"
  by (simp_all add: truthy_str_def)

lemma nullish_or_simps [simp]:
  "nullish_or None b = b" "nullish_or (Some x) b = Some x"
  by (simp_all add: nullish_or_def)

section \<open>Strings\<close>

definition lower_char :: "char \<Rightarrow> char" where
  "lower_char c = (if CHR ''A'' \<le> c \<and> c \<le> CHR ''Z'' then char_of (of_char c + 32 :: nat) else c)"

definition toLowerCase :: "string \<Rightarrow> string" where
  \<comment> \<open>on the characters a mail address, a login name or an identifier has\<close>
  "toLowerCase s = map lower_char s"

definition starts_with :: "string \<Rightarrow> string \<Rightarrow> bool" where
  "starts_with p s \<longleftrightarrow> take (length p) s = p"

section \<open>Insertion-ordered sets\<close>

text \<open>A JavaScript \<open>Set\<close> is the list of its elements in the order they were first added.\<close>

definition js_add :: "'a list \<Rightarrow> 'a \<Rightarrow> 'a list" where
  "js_add xs x = (if x \<in> set xs then xs else xs @ [x])"

definition js_set :: "'a list \<Rightarrow> 'a list" where
  "js_set xs = foldl js_add [] xs"

lemma set_js_add [simp]: "set (js_add xs x) = insert x (set xs)"
  by (auto simp: js_add_def)

lemma distinct_js_add [simp]: "distinct (js_add xs x) \<longleftrightarrow> distinct xs"
  by (auto simp: js_add_def)

lemma foldl_js_add: "set (foldl js_add acc xs) = set acc \<union> set xs \<and> (distinct acc \<longrightarrow> distinct (foldl js_add acc xs))"
  by (induction xs arbitrary: acc) auto

lemma set_js_set [simp]: "set (js_set xs) = set xs"
  by (simp add: js_set_def foldl_js_add)

lemma distinct_js_set [simp]: "distinct (js_set xs)"
  using foldl_js_add[of "[]" xs] by (simp add: js_set_def)

lemma js_set_id: "distinct xs \<Longrightarrow> js_set xs = xs"
proof -
  have "distinct (acc @ xs) \<Longrightarrow> foldl js_add acc xs = acc @ xs" for acc
    by (induction xs arbitrary: acc) (auto simp: js_add_def)
  from this[of "[]"] show "distinct xs \<Longrightarrow> js_set xs = xs" by (simp add: js_set_def)
qed

section \<open>Tables\<close>

named_theorems table_simps \<open>how the table operations compose\<close>

definition find_where :: "('a \<Rightarrow> bool) \<Rightarrow> 'a list \<Rightarrow> 'a option" where
  "find_where P rows = List.find P rows"

definition update_where :: "('a \<Rightarrow> bool) \<Rightarrow> ('a \<Rightarrow> 'a) \<Rightarrow> 'a list \<Rightarrow> 'a list" where
  "update_where P f rows = map (\<lambda>r. if P r then f r else r) rows"

definition delete_where :: "('a \<Rightarrow> bool) \<Rightarrow> 'a list \<Rightarrow> 'a list" where
  "delete_where P rows = filter (\<lambda>r. \<not> P r) rows"

lemma find_where_Nil [simp]: "find_where P [] = None"
  by (simp add: find_where_def)

lemma find_where_Cons [simp]: "find_where P (r # rs) = (if P r then Some r else find_where P rs)"
  by (simp add: find_where_def)

lemma find_where_SomeD: "find_where P rows = Some r \<Longrightarrow> r \<in> set rows \<and> P r"
  by (induction rows) (auto split: if_splits)

lemma find_where_None [table_simps]: "find_where P rows = None \<longleftrightarrow> (\<forall>r\<in>set rows. \<not> P r)"
  by (induction rows) auto

lemma find_where_append [table_simps]:
  "find_where P (xs @ ys) = (case find_where P xs of None \<Rightarrow> find_where P ys | Some r \<Rightarrow> Some r)"
  by (induction xs) auto

lemma find_where_filter: "(\<And>x. x \<in> set xs \<Longrightarrow> P x \<Longrightarrow> Q x) \<Longrightarrow> find_where P (filter Q xs) = find_where P xs"
  by (induction xs) auto

text \<open>A lookup by a key column is determined by any row that carries the key.\<close>

lemma find_where_unique:
  assumes "distinct (map k rows)" "r \<in> set rows" "P r"
    and "\<And>x. x \<in> set rows \<Longrightarrow> P x \<Longrightarrow> k x = k r"
  shows "find_where P rows = Some r"
  using assms
proof (induction rows)
  case (Cons x rows)
  show ?case
  proof (cases "P x")
    case True
    then have "k x = k r" by (intro Cons.prems(4)) simp_all
    with Cons.prems(1,2) have "x = r" by (auto simp: image_iff)
    with True show ?thesis by simp
  next
    case False
    have "find_where P rows = Some r"
    proof (rule Cons.IH)
      show "distinct (map k rows)" using Cons.prems(1) by simp
      show "r \<in> set rows" using Cons.prems(2,3) False by auto
      show "P r" by (rule Cons.prems(3))
    qed (use Cons.prems(4) in simp)
    with False show ?thesis by simp
  qed
qed simp

lemma update_where_Nil [simp]: "update_where P f [] = []"
  by (simp add: update_where_def)

lemma update_where_Cons [simp]:
  "update_where P f (r # rs) = (if P r then f r else r) # update_where P f rs"
  by (simp add: update_where_def)

lemma find_where_update_where:
  "(\<And>x. P (f x) = P x) \<Longrightarrow> find_where P (update_where Q f xs) = map_option (\<lambda>x. if Q x then f x else x) (find_where P xs)"
  by (induction xs) auto

lemma update_where_append [table_simps]:
  "update_where P f (xs @ ys) = update_where P f xs @ update_where P f ys"
  by (simp add: update_where_def)

lemma set_update_where [table_simps]:
  "set (update_where P f rows) = {f r |r. r \<in> set rows \<and> P r} \<union> {r \<in> set rows. \<not> P r}"
  by (induction rows) auto

lemma update_where_mem: "r \<in> set rows \<Longrightarrow> (if P r then f r else r) \<in> set (update_where P f rows)"
  by (auto simp: set_update_where)

lemma map_update_where:
  "(\<And>r. P r \<Longrightarrow> k (f r) = k r) \<Longrightarrow> map k (update_where P f rows) = map k rows"
  by (induction rows) auto

lemma map_eq_setD: "map v xs = map v ys \<Longrightarrow> x \<in> set xs \<Longrightarrow> \<exists>y\<in>set ys. v y = v x"
  by (metis (no_types, lifting) image_iff list.set_map)

lemma update_where_id: "(\<And>r. r \<in> set rows \<Longrightarrow> \<not> P r) \<Longrightarrow> update_where P f rows = rows"
  by (induction rows) auto

lemma length_update_where [simp]: "length (update_where P f rows) = length rows"
  by (simp add: update_where_def)

lemma find_where_update_same:
  "(\<And>r. P r \<Longrightarrow> P (f r)) \<Longrightarrow>
   find_where P (update_where P f rows) = map_option f (find_where P rows)"
  by (induction rows) auto

lemma find_where_update_other:
  "(\<And>r. Q r \<Longrightarrow> \<not> P r \<and> \<not> P (f r)) \<Longrightarrow>
   find_where P (update_where Q f rows) = find_where P rows"
  by (induction rows) auto

lemma filter_update_where_same:
  "(\<And>r. r \<in> set rows \<Longrightarrow> Q r \<Longrightarrow> P (f r) = P r) \<Longrightarrow>
   length (filter P (update_where Q f rows)) = length (filter P rows)"
  by (induction rows) auto

lemma filter_update_where_le:
  "(\<And>r. r \<in> set rows \<Longrightarrow> Q r \<Longrightarrow> P (f r) \<Longrightarrow> P r) \<Longrightarrow>
   length (filter P (update_where Q f rows)) \<le> length (filter P rows)"
  by (induction rows) auto

lemma set_delete_where [table_simps]: "set (delete_where P rows) = {r \<in> set rows. \<not> P r}"
  by (auto simp: delete_where_def)

lemma delete_where_append [table_simps]:
  "delete_where P (xs @ ys) = delete_where P xs @ delete_where P ys"
  by (simp add: delete_where_def)

lemma delete_where_id: "(\<And>r. r \<in> set rows \<Longrightarrow> \<not> P r) \<Longrightarrow> delete_where P rows = rows"
  by (simp add: delete_where_def)

lemma filter_empty_length [simp]: "length (filter P xs) = 0 \<longleftrightarrow> (\<forall>x\<in>set xs. \<not> P x)"
  by (induction xs) auto

lemma length_filter_mono:
  "(\<And>x. x \<in> set xs \<Longrightarrow> P x \<Longrightarrow> Q x) \<Longrightarrow> length (filter P xs) \<le> length (filter Q xs)"
  by (induction xs) (auto intro: le_SucI)

lemma filter_length_le_1D:
  "length (filter P xs) \<le> 1 \<Longrightarrow> x \<in> set xs \<Longrightarrow> y \<in> set xs \<Longrightarrow> P x \<Longrightarrow> P y \<Longrightarrow> x = y"
  by (induction xs) (auto split: if_splits simp: filter_empty_conv)

section \<open>Service methods\<close>

text \<open>
  \<open>('s, 'e, 'a) svc\<close> is a method that runs in state \<open>'s\<close>, may throw an \<open>'e\<close> and otherwise
  resolves to an \<open>'a\<close>. A transaction body of type \<open>'s \<Rightarrow> 'e + 'a \<times> 's\<close> is rolled back when it
  throws.
\<close>

type_synonym ('s, 'e, 'a) svc = "'s \<Rightarrow> ('e + 'a) \<times> 's"
type_synonym ('s, 'e, 'a) txn = "'s \<Rightarrow> 'e + 'a \<times> 's"

definition run_txn :: "('s, 'e, 'a) txn \<Rightarrow> ('s, 'e, 'a) svc" where
  "run_txn body s = (case body s of Inl e \<Rightarrow> (Inl e, s) | Inr (a, s') \<Rightarrow> (Inr a, s'))"

lemma run_txn_Inl [simp]: "body s = Inl e \<Longrightarrow> run_txn body s = (Inl e, s)"
  by (simp add: run_txn_def)

lemma run_txn_Inr [simp]: "body s = Inr (a, s') \<Longrightarrow> run_txn body s = (Inr a, s')"
  by (simp add: run_txn_def)

section \<open>Array.prototype.sort\<close>

text \<open>
  \<open>sort\<close> is stable (ECMAScript 2019): an element stays in front of a later one exactly when the
  comparator does not place it strictly after. \<open>le a b\<close> stands for \<open>compare(a, b) <= 0\<close>.
\<close>

fun insort_by :: "('a \<Rightarrow> 'a \<Rightarrow> bool) \<Rightarrow> 'a \<Rightarrow> 'a list \<Rightarrow> 'a list" where
  "insort_by le x [] = [x]"
| "insort_by le x (y # ys) = (if le x y then x # y # ys else y # insort_by le x ys)"

fun js_sort :: "('a \<Rightarrow> 'a \<Rightarrow> bool) \<Rightarrow> 'a list \<Rightarrow> 'a list" where
  "js_sort le [] = []"
| "js_sort le (x # xs) = insort_by le x (js_sort le xs)"

lemma mset_insort_by [simp]: "mset (insort_by le x xs) = add_mset x (mset xs)"
  by (induction xs) auto

lemma mset_js_sort [simp]: "mset (js_sort le xs) = mset xs"
  by (induction xs) auto

lemma set_js_sort [simp]: "set (js_sort le xs) = set xs"
  by (rule mset_eq_setD) simp

lemma length_js_sort [simp]: "length (js_sort le xs) = length xs"
  by (rule mset_eq_length) simp

lemma insort_by_neq_Nil [simp]: "insort_by le x xs \<noteq> []"
  by (cases xs) auto

lemma js_sort_eq_Nil [simp]: "js_sort le xs = [] \<longleftrightarrow> xs = []"
  by (cases xs) auto

text \<open>The contract of a comparator, and what sorting by one gives.\<close>

locale js_comparator =
  fixes le :: "'a \<Rightarrow> 'a \<Rightarrow> bool"
  assumes le_total: "le x y \<or> le y x"
    and le_trans: "le x y \<Longrightarrow> le y z \<Longrightarrow> le x z"
begin

lemma le_refl: "le x x"
  using le_total by blast

lemma set_insort_by: "set (insort_by le x xs) = insert x (set xs)"
  by (induction xs) auto

lemma sorted_insort_by: "sorted_wrt le xs \<Longrightarrow> sorted_wrt le (insort_by le x xs)"
proof (induction xs)
  case (Cons y ys)
  then show ?case
    using le_total[of x y] by (auto simp: set_insort_by intro: le_trans)
qed simp

lemma js_sort_sorted: "sorted_wrt le (js_sort le xs)"
  by (induction xs) (simp_all add: sorted_insort_by)

lemma js_sort_head_least: "x \<in> set xs \<Longrightarrow> le (hd (js_sort le xs)) x"
proof -
  assume "x \<in> set xs"
  then have "x \<in> set (js_sort le xs)" by simp
  with js_sort_sorted[of xs] show ?thesis
    by (cases "js_sort le xs") (auto intro: le_refl)
qed

lemma filter_insort_by_sorted:
  "sorted_wrt le xs \<Longrightarrow> filter P (insort_by le x xs) = (if P x then insort_by le x (filter P xs) else filter P xs)"
proof (induction xs)
  case (Cons y ys)
  then have sorted: "\<forall>z\<in>set ys. le y z" by simp
  have "insort_by le x (filter P ys) = x # filter P ys" if "le x y"
  proof (cases "filter P ys")
    case (Cons z zs)
    then have "z \<in> set ys" using filter_is_subset[of P ys] by auto
    then have "le x z" using le_trans[OF that] sorted by simp
    with Cons show ?thesis by simp
  qed simp
  with Cons show ?case by simp
qed simp

text \<open>Selecting rows and ordering them may be done in either order.\<close>

lemma filter_js_sort: "filter P (js_sort le xs) = js_sort le (filter P xs)"
  by (induction xs) (simp_all add: filter_insort_by_sorted js_sort_sorted)

lemma filter_insort_by:
  assumes "\<And>a b. P a \<Longrightarrow> P b \<Longrightarrow> le a b"
  shows "filter P (insort_by le x xs) = (if P x then x # filter P xs else filter P xs)"
  using assms by (induction xs) auto

text \<open>Elements the comparator treats as equal keep their original order.\<close>

lemma js_sort_stable:
  assumes "\<And>a b. P a \<Longrightarrow> P b \<Longrightarrow> le a b"
  shows "filter P (js_sort le xs) = filter P xs"
  using assms by (induction xs) (simp_all add: filter_insort_by)

end

end
