(* ===== verification/Leased_Outbox.thy ===== *)
theory Leased_Outbox
  imports WFM_Prelude
begin

text \<open>
  The transactional outbox and its lease. Four repositories of the platform hand out work with
  the same statement, \<open>UPDATE t SET claimed_at = now() WHERE id IN (SELECT id ... ORDER BY
  created_at LIMIT n FOR UPDATE SKIP LOCKED) RETURNING *\<close>: a row is handed to one poller and stays
  with it until a lease has passed. The locale \<open>leased_queue\<close> is what pollers rely on; each
  repository interprets it on its own operations. \<open>RETURNING\<close> promises no order, so the rows of
  a batch come in table order and nothing below depends on it.
\<close>

section \<open>Rows\<close>

record 'p outbox_event =
  ob_id :: uuid
  ob_tenantId :: uuid
  ob_subject :: string
  ob_payload :: 'p
  ob_createdAt :: millis
  ob_publishedAt :: "millis option"
  ob_claimedAt :: "millis option"
  ob_attempts :: nat
  ob_lastError :: "string option"

text \<open>A message handed to the bus: the event itself or its dead letter.\<close>

datatype 'p bus_payload =
    Original 'p
  | DeadLetter (dl_originalSubject: string) (dl_payload: 'p) (dl_error: string)

record 'p bus_message =
  msg_subject :: string
  msg_payload :: "'p bus_payload"
  msg_id :: string

text \<open>
  The bus is not part of the repository: \<open>publish m\<close> is \<open>None\<close> when it acknowledges the message
  and \<open>Some\<close> error text when the call throws.
\<close>

type_synonym 'p bus = "'p bus_message \<Rightarrow> string option"

section \<open>The claim statement\<close>

definition lease_free :: "('r \<Rightarrow> millis option) \<Rightarrow> int \<Rightarrow> millis \<Rightarrow> 'r \<Rightarrow> bool" where
  "lease_free clm lease now r = (case clm r of None \<Rightarrow> True | Some c \<Rightarrow> c < now - lease * 1000)"

definition sql_claim_batch ::
  "('r \<Rightarrow> uuid) \<Rightarrow> ('r \<Rightarrow> bool) \<Rightarrow> ('r \<Rightarrow> millis option) \<Rightarrow> ('r \<Rightarrow> millis) \<Rightarrow> (millis \<Rightarrow> 'r \<Rightarrow> 'r) \<Rightarrow>
   int \<Rightarrow> nat \<Rightarrow> millis \<Rightarrow> 'r list \<Rightarrow> 'r list \<times> 'r list" where
  "sql_claim_batch rid pend clm created setc lease limit now rows =
     (let eligible = filter (\<lambda>r. pend r \<and> lease_free clm lease now r) rows;
          ids = map rid (take limit (js_sort (\<lambda>a b. created a \<le> created b) eligible));
          rows' = update_where (\<lambda>r. rid r \<in> set ids) (setc now) rows
      in (filter (\<lambda>r. rid r \<in> set ids) rows', rows'))"

section \<open>The interface\<close>

locale leased_queue =
  fixes rid :: "'r \<Rightarrow> uuid"
    and pend :: "'r \<Rightarrow> bool"
    and clm :: "'r \<Rightarrow> millis option"
    and lease :: int
    and batch :: "nat \<Rightarrow> millis \<Rightarrow> 'r list \<Rightarrow> 'r list \<times> 'r list"
    and finish :: "millis \<Rightarrow> uuid \<Rightarrow> 'r list \<Rightarrow> 'r list"
    and fail :: "string \<Rightarrow> uuid \<Rightarrow> 'r list \<Rightarrow> 'r list"
  assumes batch_ids: "map rid (snd (batch n now rows)) = map rid rows"
    and batch_rows: "r \<in> set (fst (batch n now rows)) \<Longrightarrow>
          r \<in> set (snd (batch n now rows)) \<and> clm r = Some now"
    and batch_eligible: "distinct (map rid rows) \<Longrightarrow> r \<in> set rows \<Longrightarrow>
          rid r \<in> rid ` set (fst (batch n now rows)) \<Longrightarrow> pend r \<and> lease_free clm lease now r"
    and batch_rest: "r \<in> set rows \<Longrightarrow> rid r \<notin> rid ` set (fst (batch n now rows)) \<Longrightarrow>
          r \<in> set (snd (batch n now rows))"
    and batch_limit: "distinct (map rid rows) \<Longrightarrow> length (fst (batch n now rows)) \<le> n"
    and batch_progress: "r \<in> set rows \<Longrightarrow> pend r \<Longrightarrow> lease_free clm lease now r \<Longrightarrow> 0 < n \<Longrightarrow>
          fst (batch n now rows) \<noteq> []"
    and finish_ids: "map rid (finish t i rows) = map rid rows"
    and finish_this: "r \<in> set (finish t i rows) \<Longrightarrow> rid r = i \<Longrightarrow> \<not> pend r"
    and finish_other: "rid r \<noteq> i \<Longrightarrow> r \<in> set (finish t i rows) \<longleftrightarrow> r \<in> set rows"
    and finish_clm: "r \<in> set (finish t i rows) \<Longrightarrow> \<exists>q\<in>set rows. rid q = rid r \<and> clm q = clm r"
    and fail_ids: "map rid (fail e i rows) = map rid rows"
    and fail_clm: "r \<in> set (fail e i rows) \<Longrightarrow>
          \<exists>q\<in>set rows. rid q = rid r \<and> clm q = clm r \<and> pend q = pend r"
begin

text \<open>What a poller may do between two claims: finish rows and record failures.\<close>

inductive settles :: "'r list \<Rightarrow> 'r list \<Rightarrow> bool" where
  settles_refl: "settles rows rows"
| settles_finish: "settles rows rows' \<Longrightarrow> settles rows (finish t i rows')"
| settles_fail: "settles rows rows' \<Longrightarrow> settles rows (fail e i rows')"

lemma settles_ids: "settles rows rows' \<Longrightarrow> map rid rows' = map rid rows"
  by (induction rule: settles.induct) (simp_all add: finish_ids fail_ids)

lemma settles_clm: "settles rows rows' \<Longrightarrow> r \<in> set rows' \<Longrightarrow> \<exists>q\<in>set rows. rid q = rid r \<and> clm q = clm r"
proof (induction arbitrary: r rule: settles.induct)
  case (settles_finish rows rows' t i)
  then show ?case using finish_clm[OF settles_finish.prems] by fastforce
next
  case (settles_fail rows rows' e i)
  then show ?case using fail_clm[OF settles_fail.prems] by fastforce
qed blast

text \<open>
  A row handed to one poller is not handed to another before its lease has passed, whatever the
  pollers settle in the meantime.
\<close>

lemma batches_disjoint:
  assumes dist: "distinct (map rid rows)"
    and settled: "settles (snd (batch n now rows)) rows'"
    and early: "now' \<le> now + lease * 1000"
  shows "rid ` set (fst (batch n now rows)) \<inter> rid ` set (fst (batch m now' rows')) = {}"
proof (rule ccontr)
  assume "\<not> ?thesis"
  then obtain a b where a: "a \<in> set (fst (batch n now rows))" and b: "b \<in> set (fst (batch m now' rows'))"
    and same: "rid a = rid b" by auto
  have ids: "map rid rows' = map rid rows" using settles_ids[OF settled] batch_ids by simp
  then have dist': "distinct (map rid rows')" using dist by simp
  have distb: "distinct (map rid (snd (batch n now rows)))" using dist batch_ids by simp
  have "rid b \<in> rid ` set (snd (batch m now' rows'))" using batch_rows[OF b] by blast
  then have "rid b \<in> rid ` set rows'" using batch_ids[of m now' rows'] by (metis list.set_map)
  then obtain r where r: "r \<in> set rows'" "rid r = rid b" by auto
  from settles_clm[OF settled r(1)] obtain q
    where q: "q \<in> set (snd (batch n now rows))" "rid q = rid r" "clm q = clm r" by blast
  have "q = a"
    using distb q batch_rows[OF a] r(2) same by (metis (no_types, lifting) distinct_map inj_on_def)
  then have "clm r = Some now" using batch_rows[OF a] q by simp
  moreover have "lease_free clm lease now' r"
    using batch_eligible[OF dist' r(1)] b r(2) by force
  ultimately show False using early by (simp add: lease_free_def)
qed

end

section \<open>The claim statement meets the interface\<close>

lemma sql_claim_batch_ids:
  assumes "\<And>r. rid (setc now r) = rid r"
  shows "map rid (snd (sql_claim_batch rid pend clm created setc lease n now rows)) = map rid rows"
  by (simp add: sql_claim_batch_def Let_def map_update_where assms)

lemma ids_of_claimed:
  assumes "\<And>r. rid (f r) = rid r"
  shows "rid ` set (filter (\<lambda>r. rid r \<in> I) (update_where (\<lambda>r. rid r \<in> I) f rows)) = rid ` set rows \<inter> I"
  by (induction rows) (auto simp: assms)

lemma sql_claim_batch_fst_ids:
  assumes "\<And>r. rid (setc now r) = rid r"
  shows "rid ` set (fst (sql_claim_batch rid pend clm created setc lease n now rows)) =
         rid ` set (take n (js_sort (\<lambda>a b. created a \<le> created b)
                     (filter (\<lambda>r. pend r \<and> lease_free clm lease now r) rows)))" (is "?L = rid ` set ?T")
proof -
  have "set ?T \<subseteq> set rows" by (auto dest: in_set_takeD)
  then have "rid ` set ?T \<subseteq> rid ` set rows" by blast
  then show ?thesis
    using ids_of_claimed[of rid "setc now" "rid ` set ?T" rows] assms
    by (simp add: sql_claim_batch_def Let_def Int_absorb1)
qed

lemma sql_claim_batch_rows:
  assumes "\<And>r. rid (setc now r) = rid r" "\<And>r. clm (setc now r) = Some now"
    and "r \<in> set (fst (sql_claim_batch rid pend clm created setc lease n now rows))"
  shows "r \<in> set (snd (sql_claim_batch rid pend clm created setc lease n now rows)) \<and> clm r = Some now"
  using assms(3) by (auto simp: sql_claim_batch_def Let_def set_update_where assms(1,2))

lemma sql_claim_batch_eligible:
  assumes "\<And>r. rid (setc now r) = rid r" "distinct (map rid rows)" "r \<in> set rows"
    and "rid r \<in> rid ` set (fst (sql_claim_batch rid pend clm created setc lease n now rows))"
  shows "pend r \<and> lease_free clm lease now r"
proof -
  obtain q where "q \<in> set rows" "pend q \<and> lease_free clm lease now q" "rid q = rid r"
    using assms(4) by (auto simp: sql_claim_batch_fst_ids assms(1) dest!: in_set_takeD)
  with assms(2,3) show ?thesis by (metis (no_types, lifting) distinct_map inj_on_def)
qed

lemma sql_claim_batch_rest:
  assumes "\<And>r. rid (setc now r) = rid r" "r \<in> set rows"
    and "rid r \<notin> rid ` set (fst (sql_claim_batch rid pend clm created setc lease n now rows))"
  shows "r \<in> set (snd (sql_claim_batch rid pend clm created setc lease n now rows))"
proof -
  have "rid r \<notin> rid ` set (take n (js_sort (\<lambda>a b. created a \<le> created b)
          (filter (\<lambda>r. pend r \<and> lease_free clm lease now r) rows)))"
    using assms(3) by (simp add: sql_claim_batch_fst_ids assms(1))
  then show ?thesis using assms(2) by (simp add: sql_claim_batch_def Let_def set_update_where)
qed

lemma sql_claim_batch_limit:
  assumes "\<And>r. rid (setc now r) = rid r" "distinct (map rid rows)"
  shows "length (fst (sql_claim_batch rid pend clm created setc lease n now rows)) \<le> n"
proof -
  let ?b = "fst (sql_claim_batch rid pend clm created setc lease n now rows)"
  let ?T = "take n (js_sort (\<lambda>a b. created a \<le> created b) (filter (\<lambda>r. pend r \<and> lease_free clm lease now r) rows))"
  have "distinct (map rid (snd (sql_claim_batch rid pend clm created setc lease n now rows)))"
    using assms by (simp add: sql_claim_batch_ids)
  then have "distinct (map rid ?b)"
    by (simp add: sql_claim_batch_def Let_def distinct_map_filter)
  then have "length ?b = card (rid ` set ?b)" by (metis distinct_card length_map list.set_map)
  also have "\<dots> = card (rid ` set ?T)" by (simp add: sql_claim_batch_fst_ids assms(1))
  also have "\<dots> \<le> card (set ?T)" by (rule card_image_le) simp
  also have "\<dots> \<le> length ?T" by (rule card_length)
  also have "\<dots> \<le> n" by simp
  finally show ?thesis .
qed

lemma sql_claim_batch_progress:
  assumes "\<And>r. rid (setc now r) = rid r" "r \<in> set rows" "pend r" "lease_free clm lease now r" "0 < n"
  shows "fst (sql_claim_batch rid pend clm created setc lease n now rows) \<noteq> []"
proof -
  let ?T = "take n (js_sort (\<lambda>a b. created a \<le> created b) (filter (\<lambda>r. pend r \<and> lease_free clm lease now r) rows))"
  have "filter (\<lambda>r. pend r \<and> lease_free clm lease now r) rows \<noteq> []"
    using assms by (auto simp: filter_empty_conv)
  then have "rid ` set ?T \<noteq> {}" using assms(5) by simp
  then show ?thesis
    using sql_claim_batch_fst_ids[of rid setc now pend clm created lease n rows] assms(1) by auto
qed

lemmas sql_claim_batch_laws =
  sql_claim_batch_ids sql_claim_batch_rows sql_claim_batch_eligible sql_claim_batch_rest
  sql_claim_batch_limit sql_claim_batch_progress

text \<open>
  Updates of the bookkeeping columns of single rows, which all four repositories issue by primary
  key.
\<close>

lemma update_by_id_other:
  "(\<And>r. rid (f r) = rid r) \<Longrightarrow> rid r \<noteq> i \<Longrightarrow>
   r \<in> set (update_where (\<lambda>r. rid r = i) f rows) \<longleftrightarrow> r \<in> set rows"
  by (auto simp: set_update_where)

text \<open>Any repository built from these statements is a leased queue.\<close>

lemma sql_leased_queue:
  assumes setc: "\<And>now r. rid (setc now r) = rid r" "\<And>now r. clm (setc now r) = Some now"
    and fin: "\<And>t r. rid (fin t r) = rid r" "\<And>t r. clm (fin t r) = clm r" "\<And>t r. \<not> pend (fin t r)"
    and fl: "\<And>e r. rid (fl e r) = rid r" "\<And>e r. clm (fl e r) = clm r" "\<And>e r. pend (fl e r) = pend r"
  shows "leased_queue rid pend clm lease (sql_claim_batch rid pend clm created setc lease)
           (\<lambda>t i. update_where (\<lambda>r. rid r = i) (fin t)) (\<lambda>e i. update_where (\<lambda>r. rid r = i) (fl e))"
proof (unfold_locales, goal_cases)
  case (2 r n now rows)
  then show ?case by (rule sql_claim_batch_rows[where rid = rid and setc = setc and clm = clm, OF setc])
next
  case (3 rows r n now)
  then show ?case by (rule sql_claim_batch_eligible[where rid = rid and setc = setc, OF setc(1)])
next
  case (4 r rows n now)
  then show ?case by (rule sql_claim_batch_rest[where rid = rid and setc = setc, OF setc(1)])
next
  case (6 r rows now n)
  then show ?case by (rule sql_claim_batch_progress[where rid = rid and setc = setc, OF setc(1)])
next
  case (9 r i t rows)
  then show ?case by (rule update_by_id_other[where rid = rid, OF fin(1)])
next
  case (10 r t i rows)
  then show ?case using fin by (auto simp: set_update_where)
next
  case (12 r e i rows)
  then show ?case using fl by (auto simp: set_update_where)
qed (auto simp: setc fin fl set_update_where sql_claim_batch_ids sql_claim_batch_limit map_update_where)

section \<open>Draining a batch\<close>

text \<open>
  A drain loop settles the rows of its batch one by one, by primary key. Over a batch taken from
  the table its effect is that of settling each row on its own.
\<close>

lemma foldl_update_by_id:
  assumes "\<And>ev r. rid (upd ev r) = rid r" "distinct (map rid rows)" "distinct (map rid evs)"
    and "set evs \<subseteq> set rows"
  shows "foldl (\<lambda>rows ev. update_where (\<lambda>r. rid r = rid ev) (upd ev) rows) rows evs =
         map (\<lambda>r. if rid r \<in> rid ` set evs then upd r r else r) rows"
  using assms(3,4)
proof (induction evs rule: rev_induct)
  case (snoc ev evs)
  have ev: "ev \<in> set rows" using snoc.prems by simp
  have inj: "r = ev" if "r \<in> set rows" "rid r = rid ev" for r
    using assms(2) ev that by (auto simp: distinct_map inj_on_def)
  have "foldl (\<lambda>rows ev. update_where (\<lambda>r. rid r = rid ev) (upd ev) rows) rows evs =
        map (\<lambda>r. if rid r \<in> rid ` set evs then upd r r else r) rows"
    using snoc by simp
  then show ?case
    using snoc.prems(1) by (auto simp: update_where_def assms(1) dest: inj)
qed simp

end
