(* ===== verification/Marketplace_Model.thy ===== *)
theory Marketplace_Model
  imports Leased_Outbox
begin

text \<open>
  The data of the shift marketplace (\<open>shift-marketplace-service\<close>): the enumerations and rows of
  \<open>src/marketplace/entities\<close>, the errors its services throw, and the state they share, which is
  the \<open>marketplace\<close> schema of Postgres, the Redis contention locks, the GraphQL subscription
  pushes and the claim-attempt counter of the metrics registry.
\<close>

section \<open>Enumerations\<close>

datatype post_type = OPEN_SHIFT | SWAP | BID

datatype post_status = OPEN | CLAIMED | EXPIRED | CANCELLED

datatype claim_status = PENDING_VALIDATION | PENDING_APPROVAL | APPROVED | REJECTED | SUPERSEDED

datatype claim_source = SRC_OPEN_SHIFT_CLAIM | SRC_BID

datatype swap_status =
  SW_PENDING | SW_PENDING_APPROVAL | SW_ACCEPTED | SW_REJECTED | SW_CANCELLED | SW_SUPERSEDED

datatype ranking_method = SENIORITY | PREFERENCE_SCORE | FIRST_COME

datatype engagement_type = CLAIM_APPROVED | SWAP_EXECUTED

section \<open>Rows\<close>

record violation =
  category :: string
  detail :: string

text \<open>The JSON stored in \<open>validation_result\<close>: each literal object the services write.\<close>

datatype validation_result =
    VR_Reason bool string            \<comment> \<open>\<open>{ eligible, reason }\<close>, optionally with no violations\<close>
  | VR_Violations bool "violation list"
  | VR_Swap bool "violation list" "violation list"

record post =
  post_id :: uuid
  post_tenantId :: uuid
  post_postType :: post_type
  post_shiftAssignmentId :: uuid
  post_orgUnitId :: uuid
  post_postedBy :: "uuid option"
  post_status :: post_status
  post_expiresAt :: millis
  post_createdAt :: millis

record claim =
  claim_id :: uuid
  claim_tenantId :: uuid
  claim_marketplacePostId :: uuid
  claim_claimantEmployeeId :: uuid
  claim_status :: claim_status
  claim_source :: claim_source
  claim_validationResult :: "validation_result option"
  claim_claimedAt :: millis
  claim_decisionReason :: "string option"

record swap =
  swap_id :: uuid
  swap_tenantId :: uuid
  swap_initiatorEmployeeId :: uuid
  swap_initiatorShiftId :: uuid
  swap_initiatorOrgUnitId :: uuid
  swap_targetEmployeeId :: "uuid option"
  swap_targetShiftId :: "uuid option"
  swap_targetOrgUnitId :: "uuid option"
  swap_status :: swap_status
  swap_requiresSupervisorApproval :: bool
  swap_validationResult :: "validation_result option"
  swap_createdAt :: millis
  swap_decisionReason :: "string option"

record opportunity =
  opp_id :: uuid
  opp_tenantId :: uuid
  opp_marketplacePostId :: uuid
  opp_biddingWindowStart :: millis
  opp_biddingWindowEnd :: millis
  opp_rankingMethod :: ranking_method

text \<open>
  \<open>rankExplanation\<close> has one shape per ranking method; timestamps are kept as milliseconds where
  the source prints them with \<open>toISOString\<close>.
\<close>

datatype rank_explanation =
    ExplainFirstCome (yourSubmittedAt: millis) (cutoffSubmittedAt: "millis option")
      (fcPosition: nat) (fcTotal: nat)
  | ExplainScore (yourScore: "rat option") (cutoffScore: "rat option") (psPosition: nat) (psTotal: nat)
  | ExplainSeniority (yourValue: "string option") (cutoffValue: "string option")
      (snPosition: nat) (snTotal: nat)

record bid =
  bid_id :: uuid
  bid_tenantId :: uuid
  bid_bidOpportunityId :: uuid
  bid_employeeId :: uuid
  bid_rankScore :: "rat option"
  bid_rankPosition :: "nat option"
  bid_rankExplanation :: "rank_explanation option"
  bid_submittedAt :: millis

record score =
  score_employeeId :: uuid
  score_tenantId :: uuid
  score_points :: int
  score_streakDays :: int
  score_badges :: "string list"
  score_claimAttemptCountWindow :: "int option"
  score_claimAttemptWindowStart :: "millis option"
  score_lastEngagementDate :: "int option" \<comment> \<open>UTC calendar day, as days since the epoch\<close>

record engagement_event =
  ev_id :: uuid
  ev_tenantId :: uuid
  ev_employeeId :: uuid
  ev_eventType :: engagement_type
  ev_referenceId :: uuid
  ev_pointsDelta :: int
  ev_streakDaysAfter :: int
  ev_badgesAwarded :: "string list"
  ev_createdAt :: millis

datatype mp_payload =
    ClaimApprovedEvent (ca_claimId: uuid) (ca_postId: uuid) (ca_shiftAssignmentId: uuid)
      (ca_claimant: uuid) (ca_approvedBy: "uuid option") (ca_source: claim_source) (ca_at: millis)
  | SwapExecutedEvent (se_swapId: uuid) (se_initiator: uuid) (se_initiatorShift: uuid)
      (se_target: uuid) (se_targetShift: uuid) (se_approvedBy: "uuid option") (se_at: millis)

section \<open>Errors\<close>

datatype mp_error =
    MarketplacePostNotFound uuid
  | PostNotOpen uuid post_status
  | PostAlreadyBeingClaimed uuid
  | MarketplaceUnavailable
  | ClaimAttemptRateLimitExceeded int
  | GuardrailValidationUnavailable
  | BidOpportunityNotFound uuid
  | BiddingWindowNotOpen uuid string
  | PreferenceScoreRequired uuid
  | BidderNotEligible uuid
  | AlreadyBid uuid
  | BidOpportunityAlreadyClosed uuid
  | SwapRequestNotFound uuid
  | SwapRequestNotPending uuid swap_status
  | NotYourSwapToRespondTo uuid
  | SwapOfferedShiftRequired uuid
  | SwapAlreadyBeingRespondedTo uuid
  | MarketplaceClaimNotFound uuid
  | ClaimNotPendingApproval uuid claim_status  \<comment> \<open>\<open>ActionNotPendingApprovalError\<close> on a claim\<close>
  | SwapNotPendingApproval uuid swap_status    \<comment> \<open>\<open>ActionNotPendingApprovalError\<close> on a swap\<close>
  | ApproveMarketplaceActionInputInvalid
  | EntityNotFound                              \<comment> \<open>\<open>findOneOrFail\<close> found no row\<close>
  | InfraError string                           \<comment> \<open>any other error of the driver or a client\<close>

section \<open>State\<close>

record mp_state =
  posts :: "post list"
  claims :: "claim list"
  swaps :: "swap list"
  opportunities :: "opportunity list"
  bids :: "bid list"
  scores :: "score list"
  engagementEvents :: "engagement_event list"
  outbox :: "mp_payload outbox_event list"
  locks :: "(string \<times> string \<times> millis) list" \<comment> \<open>Redis: key, token, expiry\<close>
  pushes :: "post list"                      \<comment> \<open>\<open>marketplacePostUpdated\<close> publications\<close>
  claimAttempts :: "string list"             \<comment> \<open>labels of \<open>claimAttemptsTotal\<close>, newest last\<close>

definition empty_state :: mp_state where
  "empty_state = \<lparr>posts = [], claims = [], swaps = [], opportunities = [], bids = [], scores = [],
     engagementEvents = [], outbox = [], locks = [], pushes = [], claimAttempts = []\<rparr>"

definition withTenantConnection :: "uuid \<Rightarrow> (uuid \<Rightarrow> (mp_state, mp_error, 'a) txn) \<Rightarrow> (mp_state, mp_error, 'a) svc" where
  "withTenantConnection tenantId work = run_txn (work tenantId)"

section \<open>Row lookups\<close>

definition is_post :: "uuid \<Rightarrow> uuid \<Rightarrow> post \<Rightarrow> bool" where
  "is_post tenantId pid p \<longleftrightarrow> post_id p = pid \<and> post_tenantId p = tenantId"

definition is_claim :: "uuid \<Rightarrow> uuid \<Rightarrow> claim \<Rightarrow> bool" where
  "is_claim tenantId cid c \<longleftrightarrow> claim_id c = cid \<and> claim_tenantId c = tenantId"

definition is_swap :: "uuid \<Rightarrow> uuid \<Rightarrow> swap \<Rightarrow> bool" where
  "is_swap tenantId sid w \<longleftrightarrow> swap_id w = sid \<and> swap_tenantId w = tenantId"

definition is_opp :: "uuid \<Rightarrow> uuid \<Rightarrow> opportunity \<Rightarrow> bool" where
  "is_opp tenantId oid w \<longleftrightarrow> opp_id w = oid \<and> opp_tenantId w = tenantId"

definition live_claim :: "claim \<Rightarrow> bool" where
  \<comment> \<open>the predicate of the partial unique index \<open>uq_marketplace_claim_one_live_per_post\<close>\<close>
  "live_claim c \<longleftrightarrow> claim_status c \<in> {PENDING_VALIDATION, PENDING_APPROVAL, APPROVED}"

definition insert_claim :: "claim \<Rightarrow> mp_state \<Rightarrow> mp_state option" where
  \<comment> \<open>\<open>INSERT\<close> under that index: \<open>None\<close> is the unique violation 23505\<close>
  "insert_claim c s =
     (if live_claim c \<and> (\<exists>d\<in>set (claims s). live_claim d \<and> claim_marketplacePostId d = claim_marketplacePostId c)
      then None else Some (s\<lparr>claims := claims s @ [c]\<rparr>))"

lemma insert_claim_SomeD:
  "insert_claim c s = Some s' \<Longrightarrow> s' = s\<lparr>claims := claims s @ [c]\<rparr>"
  by (auto simp: insert_claim_def split: if_splits)

lemma insert_claim_NoneD:
  "insert_claim c s = None \<Longrightarrow>
   \<exists>d\<in>set (claims s). live_claim d \<and> claim_marketplacePostId d = claim_marketplacePostId c"
  by (auto simp: insert_claim_def split: if_splits)

end
