(* ===== verification/Bid_Ranking.thy ===== *)
theory Bid_Ranking
  imports Marketplace_Model
begin

text \<open>
  \<open>bid-ranking.ts\<close>: the pure ranking of the bids of one opportunity. Scores and years of service
  are exact rationals (the \<open>numeric(10,4)\<close> column and a quotient of milliseconds); a missing score
  is the source's \<open>-Infinity\<close>, for which \<open>scoreOf(b) - scoreOf(a)\<close> is \<open>NaN\<close> between two missing scores
  and \<open>sort\<close> then keeps their order.
\<close>

section \<open>Number formatting\<close>

fun decimal_digits :: "nat \<Rightarrow> string" where
  "decimal_digits n =
     (if n < 10 then [char_of (n + 48)] else decimal_digits (n div 10) @ [char_of (n mod 10 + 48)])"

declare decimal_digits.simps [simp del]

definition fixed_units :: "nat \<Rightarrow> rat \<Rightarrow> int" where
  \<comment> \<open>the integer \<open>n\<close> of \<open>Number.prototype.toFixed\<close>: \<open>n / 10 ^ f\<close> nearest to \<open>x\<close>, ties upwards\<close>
  "fixed_units f x = \<lfloor>x * 10 ^ f + 1 / 2\<rfloor>"

definition round_fixed :: "nat \<Rightarrow> rat \<Rightarrow> rat" where
  "round_fixed f x =
     (if x < 0 then - (of_int (fixed_units f (- x)) / 10 ^ f) else of_int (fixed_units f x) / 10 ^ f)"

definition pad_zeros :: "nat \<Rightarrow> string \<Rightarrow> string" where
  "pad_zeros k s = replicate (k - length s) (CHR ''0'') @ s"

definition unsigned_fixed :: "nat \<Rightarrow> rat \<Rightarrow> string" where
  "unsigned_fixed f x =
     (let m = pad_zeros (f + 1) (decimal_digits (nat (fixed_units f x))); k = length m - f
      in if f = 0 then m else take k m @ ''.'' @ drop k m)"

definition to_fixed :: "nat \<Rightarrow> rat \<Rightarrow> string" where
  "to_fixed f x = (if x < 0 then ''-'' @ unsigned_fixed f (- x) else unsigned_fixed f x)"

section \<open>Rankings\<close>

record rankable_bid =
  rb_id :: uuid
  rb_employeeId :: uuid
  rb_submittedAt :: millis
  rb_rankScore :: "rat option"

record ranked_bid =
  rk_id :: uuid
  rk_rankScore :: "rat option"
  rk_rankPosition :: nat
  rk_rankExplanation :: rank_explanation

definition first_come_le :: "rankable_bid \<Rightarrow> rankable_bid \<Rightarrow> bool" where
  "first_come_le a b \<longleftrightarrow> rb_submittedAt a - rb_submittedAt b \<le> 0"

definition rankByFirstCome :: "rankable_bid list \<Rightarrow> ranked_bid list" where
  "rankByFirstCome bs =
     (let sorted = js_sort first_come_le bs;
          cutoff = (case sorted of [] \<Rightarrow> None | b # _ \<Rightarrow> Some (rb_submittedAt b))
      in map (\<lambda>(index, bid). \<lparr>rk_id = rb_id bid, rk_rankScore = None, rk_rankPosition = index + 1,
                rk_rankExplanation = ExplainFirstCome (rb_submittedAt bid) cutoff (index + 1) (length sorted)\<rparr>)
           (enumerate 0 sorted))"

definition score_le :: "rankable_bid \<Rightarrow> rankable_bid \<Rightarrow> bool" where
  "score_le a b =
     (case (rb_rankScore a, rb_rankScore b) of
        (None, None) \<Rightarrow> True
      | (Some _, None) \<Rightarrow> True
      | (None, Some _) \<Rightarrow> False
      | (Some x, Some y) \<Rightarrow> y - x \<le> 0)"

definition rankByPreferenceScore :: "rankable_bid list \<Rightarrow> ranked_bid list" where
  "rankByPreferenceScore bs =
     (let sorted = js_sort score_le bs;
          cutoff = (case sorted of [] \<Rightarrow> None | b # _ \<Rightarrow> rb_rankScore b)
      in map (\<lambda>(index, bid). \<lparr>rk_id = rb_id bid, rk_rankScore = rb_rankScore bid, rk_rankPosition = index + 1,
                rk_rankExplanation = ExplainScore (rb_rankScore bid) cutoff (index + 1) (length sorted)\<rparr>)
           (enumerate 0 sorted))"

definition MS_PER_YEAR :: rat where
  "MS_PER_YEAR = 36525 / 100 * 24 * 3600 * 1000"

definition formatYears :: "rat option \<Rightarrow> string option" where
  "formatYears years = map_option (\<lambda>y. to_fixed 1 y @ '' years'') years"

definition years_of_service :: "(uuid \<times> millis) list \<Rightarrow> millis \<Rightarrow> rankable_bid \<Rightarrow> rat option" where
  \<comment> \<open>a JavaScript \<open>Map\<close> built from pairs keeps the last value of a key\<close>
  "years_of_service hireDateByEmployeeId asOf bid =
     map_option (\<lambda>h. of_int (asOf - h) / MS_PER_YEAR) (map_of (rev hireDateByEmployeeId) (rb_employeeId bid))"

definition seniority_le :: "rankable_bid \<times> rat option \<Rightarrow> rankable_bid \<times> rat option \<Rightarrow> bool" where
  "seniority_le a b =
     (case (snd a, snd b) of
        (None, None) \<Rightarrow> rb_submittedAt (fst a) - rb_submittedAt (fst b) \<le> 0
      | (None, Some _) \<Rightarrow> False
      | (Some _, None) \<Rightarrow> True
      | (Some x, Some y) \<Rightarrow> y - x \<le> 0)"

definition rankBySeniority :: "rankable_bid list \<Rightarrow> (uuid \<times> millis) list \<Rightarrow> millis \<Rightarrow> ranked_bid list" where
  "rankBySeniority bs hireDateByEmployeeId asOf =
     (let withYears = map (\<lambda>bid. (bid, years_of_service hireDateByEmployeeId asOf bid)) bs;
          sorted = js_sort seniority_le withYears;
          cutoff = (case sorted of [] \<Rightarrow> None | b # _ \<Rightarrow> formatYears (snd b))
      in map (\<lambda>(index, bid, years).
                \<lparr>rk_id = rb_id bid, rk_rankScore = map_option (round_fixed 4) years,
                 rk_rankPosition = index + 1,
                 rk_rankExplanation = ExplainSeniority (formatYears years) cutoff (index + 1) (length sorted)\<rparr>)
           (enumerate 0 sorted))"

definition computeRankings ::
  "ranking_method \<Rightarrow> rankable_bid list \<Rightarrow> millis \<Rightarrow> (uuid \<times> millis) list option \<Rightarrow> ranked_bid list" where
  "computeRankings method bs asOf hireDateByEmployeeId =
     (case method of
        FIRST_COME \<Rightarrow> rankByFirstCome bs
      | PREFERENCE_SCORE \<Rightarrow> rankByPreferenceScore bs
      | SENIORITY \<Rightarrow> rankBySeniority bs (the_default hireDateByEmployeeId []) asOf)"

section \<open>The comparators are comparators\<close>

interpretation first_come: js_comparator first_come_le
  by unfold_locales (auto simp: first_come_le_def)

interpretation pref_score: js_comparator score_le
  by unfold_locales (auto simp: score_le_def split: option.splits)

interpretation seniority: js_comparator seniority_le
  by unfold_locales (auto simp: seniority_le_def split: option.splits prod.splits)

section \<open>Every bidder is ranked\<close>

text \<open>
  The method decides the order of the bs; positions, totals and the cutoff are read off that
  order.
\<close>

definition ranking_order ::
  "ranking_method \<Rightarrow> rankable_bid list \<Rightarrow> millis \<Rightarrow> (uuid \<times> millis) list option \<Rightarrow> rankable_bid list" where
  "ranking_order method bs asOf hires =
     (case method of
        FIRST_COME \<Rightarrow> js_sort first_come_le bs
      | PREFERENCE_SCORE \<Rightarrow> js_sort score_le bs
      | SENIORITY \<Rightarrow> map fst (js_sort seniority_le
          (map (\<lambda>bid. (bid, years_of_service (the_default hires []) asOf bid)) bs)))"

lemma length_ranking_order [simp]: "length (ranking_order m bs asOf hires) = length bs"
  by (cases m) (simp_all add: ranking_order_def)

lemma mset_ranking_order [simp]: "mset (ranking_order m bs asOf hires) = mset bs"
  by (cases m) (simp_all add: ranking_order_def image_mset.compositionality comp_def)

lemmas ranking_defs = computeRankings_def ranking_order_def rankByFirstCome_def
  rankByPreferenceScore_def rankBySeniority_def Let_def

lemma length_computeRankings [simp]: "length (computeRankings m bs asOf hires) = length bs"
  by (cases m) (simp_all add: ranking_defs)

lemma computeRankings_nth:
  assumes "i < length bs"
  shows "rk_id (computeRankings m bs asOf hires ! i) = rb_id (ranking_order m bs asOf hires ! i)"
    and "rk_rankPosition (computeRankings m bs asOf hires ! i) = i + 1"
  using assms by (cases m; simp add: ranking_defs nth_enumerate_eq case_prod_beta')+

lemma rankings_ids: "map rk_id (computeRankings m bs asOf hires) = map rb_id (ranking_order m bs asOf hires)"
  by (rule nth_equalityI) (simp_all add: computeRankings_nth)

lemma rankings_positions: "map rk_rankPosition (computeRankings m bs asOf hires) = [1..<length bs + 1]"
  by (rule nth_equalityI) (simp_all add: computeRankings_nth del: upt_Suc)

lemma mset_rankings_ids: "mset (map rk_id (computeRankings m bs asOf hires)) = mset (map rb_id bs)"
proof -
  have "mset (map rb_id (ranking_order m bs asOf hires)) = image_mset rb_id (mset (ranking_order m bs asOf hires))"
    by (rule mset_map)
  then show ?thesis by (simp add: rankings_ids)
qed

section \<open>What the ranking promises\<close>

definition ranks_before ::
  "ranking_method \<Rightarrow> millis \<Rightarrow> (uuid \<times> millis) list option \<Rightarrow> rankable_bid \<Rightarrow> rankable_bid \<Rightarrow> bool" where
  \<comment> \<open>the order each method stands for: earliest first; highest score first, unscored last; longest
      serving first, employees without a hire date last and among themselves earliest first\<close>
  "ranks_before method asOf hires a b =
     (case method of
        FIRST_COME \<Rightarrow> rb_submittedAt a \<le> rb_submittedAt b
      | PREFERENCE_SCORE \<Rightarrow> (case (rb_rankScore a, rb_rankScore b) of
            (_, None) \<Rightarrow> True | (None, Some _) \<Rightarrow> False | (Some x, Some y) \<Rightarrow> y \<le> x)
      | SENIORITY \<Rightarrow> (case (years_of_service (the_default hires []) asOf a, years_of_service (the_default hires []) asOf b) of
            (None, None) \<Rightarrow> rb_submittedAt a \<le> rb_submittedAt b
          | (_, None) \<Rightarrow> True | (None, Some _) \<Rightarrow> False | (Some x, Some y) \<Rightarrow> y \<le> x))"

lemma sorted_ranking_order: "sorted_wrt (ranks_before m asOf hires) (ranking_order m bs asOf hires)"
proof (cases m)
  case SENIORITY
  let ?y = "years_of_service (the_default hires []) asOf"
  have "sorted_wrt seniority_le (js_sort seniority_le (map (\<lambda>b. (b, ?y b)) bs))" by (rule seniority.js_sort_sorted)
  then have "sorted_wrt (\<lambda>p q. ranks_before m asOf hires (fst p) (fst q)) (js_sort seniority_le (map (\<lambda>b. (b, ?y b)) bs))"
    by (rule sorted_wrt_mono_rel[rotated]) (auto simp: SENIORITY ranks_before_def seniority_le_def split: option.splits)
  then show ?thesis by (simp add: SENIORITY ranking_order_def sorted_wrt_map)
next
  case PREFERENCE_SCORE
  then show ?thesis
    using sorted_wrt_mono_rel[OF _ pref_score.js_sort_sorted, of bs "ranks_before m asOf hires"]
    by (auto simp: ranking_order_def ranks_before_def score_le_def split: option.splits)
next
  case FIRST_COME
  then show ?thesis
    using sorted_wrt_mono_rel[OF _ first_come.js_sort_sorted, of bs "ranks_before m asOf hires"]
    by (auto simp: ranking_order_def ranks_before_def first_come_le_def)
qed

lemma seniority_le_ranks:
  "seniority_le (a, years_of_service (the_default hires []) asOf a) (b, years_of_service (the_default hires []) asOf b) =
   ranks_before SENIORITY asOf hires a b"
  by (auto simp: ranks_before_def seniority_le_def split: option.splits)

lemma stable_ranking_order:
  assumes "\<And>a b. P a \<Longrightarrow> P b \<Longrightarrow> ranks_before m asOf hires a b"
  shows "filter P (ranking_order m bs asOf hires) = filter P bs"
proof (cases m)
  case SENIORITY
  let ?y = "years_of_service (the_default hires []) asOf"
  let ?d = "\<lambda>b. (b, ?y b)"
  have "filter (\<lambda>p. P (fst p) \<and> snd p = ?y (fst p)) (js_sort seniority_le (map ?d bs)) =
        filter (\<lambda>p. P (fst p) \<and> snd p = ?y (fst p)) (map ?d bs)"
  proof (rule seniority.js_sort_stable)
    fix p q
    assume "P (fst p) \<and> snd p = ?y (fst p)" "P (fst q) \<and> snd q = ?y (fst q)"
    with assms[of "fst p" "fst q"] seniority_le_ranks[of "fst p" hires asOf "fst q"] SENIORITY
    show "seniority_le p q" by (metis prod.collapse)
  qed
  moreover have "filter (\<lambda>p. P (fst p) \<and> snd p = ?y (fst p)) (js_sort seniority_le (map ?d bs)) =
        filter (\<lambda>p. P (fst p)) (js_sort seniority_le (map ?d bs))"
    by (rule filter_cong) auto
  ultimately show ?thesis
    by (simp add: SENIORITY ranking_order_def filter_map comp_def)
next
  case PREFERENCE_SCORE
  then show ?thesis
    using assms pref_score.js_sort_stable[of P bs]
    by (fastforce simp: ranking_order_def ranks_before_def score_le_def split: option.splits)
next
  case FIRST_COME
  then show ?thesis
    using assms first_come.js_sort_stable[of P bs] by (fastforce simp: ranking_order_def ranks_before_def first_come_le_def)
qed

text \<open>
  A ranking gives every bid exactly one position: the ranked ids are the bids' ids, the positions
  are 1 to n in list order, and the list is sorted by the order the method stands for, bids that
  tie keeping the order in which they were read.
\<close>

theorem computeRankings_spec:
  "\<exists>order. mset order = mset bs \<and>
     map rk_id (computeRankings m bs asOf hires) = map rb_id order \<and>
     map rk_rankPosition (computeRankings m bs asOf hires) = [1..<length bs + 1] \<and>
     sorted_wrt (ranks_before m asOf hires) order \<and>
     (\<forall>P. (\<forall>a b. P a \<longrightarrow> P b \<longrightarrow> ranks_before m asOf hires a b) \<longrightarrow> filter P order = filter P bs)"
  by (rule exI[of _ "ranking_order m bs asOf hires"])
    (auto simp: rankings_ids rankings_positions sorted_ranking_order stable_ranking_order simp del: upt_Suc)

theorem computeRankings_spec_witness:
  "\<exists>order. mset order = mset [\<lparr>rb_id = ''b1'', rb_employeeId = ''e1'', rb_submittedAt = 20, rb_rankScore = None\<rparr>,
       \<lparr>rb_id = ''b2'', rb_employeeId = ''e2'', rb_submittedAt = 10, rb_rankScore = None\<rparr>] \<and>
     sorted_wrt (ranks_before FIRST_COME 0 None) order \<and>
     filter (\<lambda>b. rb_submittedAt b = 10) order = [\<lparr>rb_id = ''b2'', rb_employeeId = ''e2'', rb_submittedAt = 10, rb_rankScore = None\<rparr>]"
proof -
  let ?bs = "[\<lparr>rb_id = ''b1'', rb_employeeId = ''e1'', rb_submittedAt = 20, rb_rankScore = None\<rparr>,
       \<lparr>rb_id = ''b2'', rb_employeeId = ''e2'', rb_submittedAt = 10, rb_rankScore = None\<rparr>]"
  obtain order where o': "mset order = mset ?bs" "sorted_wrt (ranks_before FIRST_COME 0 None) order"
    and st: "\<forall>P. (\<forall>a b. P a \<longrightarrow> P b \<longrightarrow> ranks_before FIRST_COME 0 None a b) \<longrightarrow> filter P order = filter P ?bs"
    using computeRankings_spec[of ?bs FIRST_COME 0 None] by blast
  have "filter (\<lambda>b. rb_submittedAt b = 10) order = filter (\<lambda>b. rb_submittedAt b = 10) ?bs"
    using st by (auto simp: ranks_before_def)
  with o' show ?thesis by auto
qed

lemma js_sort_first: "0 < length xs \<Longrightarrow> (case js_sort le xs of [] \<Rightarrow> None | b # _ \<Rightarrow> f b) = f (js_sort le xs ! 0)"
  using js_sort_eq_Nil[of le xs] by (cases "js_sort le xs") auto

text \<open>
  The cutoff every bidder is shown is the winner's own value, and each explanation carries the
  bidder's position and the number of bids.
\<close>

definition explained :: "nat \<Rightarrow> nat \<Rightarrow> ranked_bid \<Rightarrow> bool" where
  "explained i n r \<longleftrightarrow> (case rk_rankExplanation r of
     ExplainFirstCome _ _ p k \<Rightarrow> p = i + 1 \<and> k = n
   | ExplainScore _ _ p k \<Rightarrow> p = i + 1 \<and> k = n
   | ExplainSeniority _ _ p k \<Rightarrow> p = i + 1 \<and> k = n)"

definition same_cutoff :: "rank_explanation \<Rightarrow> rank_explanation \<Rightarrow> bool" where
  \<comment> \<open>\<open>w\<close>: the winner's explanation\<close>
  "same_cutoff w x = (case (w, x) of
     (ExplainFirstCome v _ _ _, ExplainFirstCome _ c _ _) \<Rightarrow> c = Some v
   | (ExplainScore v _ _ _, ExplainScore _ c _ _) \<Rightarrow> c = v
   | (ExplainSeniority v _ _ _, ExplainSeniority _ c _ _) \<Rightarrow> c = v
   | _ \<Rightarrow> False)"

theorem computeRankings_explained:
  assumes "i < length bs"
  shows "explained i (length bs) (computeRankings m bs asOf hires ! i) \<and>
         same_cutoff (rk_rankExplanation (computeRankings m bs asOf hires ! 0))
           (rk_rankExplanation (computeRankings m bs asOf hires ! i))"
proof -
  have "0 < length bs" using assms by auto
  with assms show ?thesis
    by (cases m)
      (simp_all add: ranking_defs nth_enumerate_eq js_sort_first explained_def same_cutoff_def case_prod_beta')
qed

theorem computeRankings_explained_witness:
  "explained 0 1 (computeRankings FIRST_COME [\<lparr>rb_id = ''b1'', rb_employeeId = ''e1'', rb_submittedAt = 20, rb_rankScore = None\<rparr>] 0 None ! 0)"
  using computeRankings_explained[of 0 "[\<lparr>rb_id = ''b1'', rb_employeeId = ''e1'', rb_submittedAt = 20, rb_rankScore = None\<rparr>]"
      FIRST_COME 0 None] by simp

end
