(* ===== verification/Guardrail_Validation.thy ===== *)
theory Guardrail_Validation
  imports Marketplace_Model
begin

text \<open>
  The guardrail check of a proposed assignment: \<open>guardrail-validation.service.ts\<close> over
  \<open>scheduling-eligibility-grpc-client.service.ts\<close>. The remote \<open>SchedulingEligibilityService\<close> is the
  parameter \<open>rpc\<close>; every way the call can fail (transport, timeout, malformed answer) is an \<open>Inl\<close>.
\<close>

record eligibility_request =
  rq_tenantId :: uuid
  rq_candidateEmployeeId :: uuid
  rq_shiftAssignmentId :: uuid
  rq_orgUnitId :: uuid
  rq_excludeShiftAssignmentId :: string  \<comment> \<open>empty string: none\<close>

record eligibility_outcome =
  shiftAssignmentFound :: bool
  eligible :: bool
  violations :: "violation list"

type_synonym eligibility_rpc = "eligibility_request \<Rightarrow> string + eligibility_outcome"

datatype grpc_error = GrpcGuardrailValidationUnavailable string

definition checkAssignmentEligibility :: "eligibility_rpc \<Rightarrow> eligibility_request \<Rightarrow> grpc_error + eligibility_outcome" where
  "checkAssignmentEligibility rpc request =
     (case rpc request of
        Inl cause \<Rightarrow> Inl (GrpcGuardrailValidationUnavailable cause)
      | Inr response \<Rightarrow> Inr response)"

definition checkEligibility ::
  "eligibility_rpc \<Rightarrow> uuid \<Rightarrow> uuid \<Rightarrow> uuid \<Rightarrow> uuid \<Rightarrow> uuid option \<Rightarrow> mp_error + eligibility_outcome" where
  "checkEligibility rpc tenantId candidateEmployeeId shiftAssignmentId orgUnitId excludeShiftAssignmentId =
     (case checkAssignmentEligibility rpc
             \<lparr>rq_tenantId = tenantId, rq_candidateEmployeeId = candidateEmployeeId,
              rq_shiftAssignmentId = shiftAssignmentId, rq_orgUnitId = orgUnitId,
              rq_excludeShiftAssignmentId = the_default excludeShiftAssignmentId []\<rparr> of
        Inl (GrpcGuardrailValidationUnavailable _) \<Rightarrow> Inl GuardrailValidationUnavailable
      | Inr response \<Rightarrow>
          Inr \<lparr>shiftAssignmentFound = shiftAssignmentFound response, eligible = eligible response,
               violations = violations response\<rparr>)"

lemma checkEligibility_Inl:
  "checkEligibility rpc t e sh o' x = Inl err \<Longrightarrow> err = GuardrailValidationUnavailable"
  by (auto simp: checkEligibility_def split: sum.splits grpc_error.splits)

definition isAutoApprovalEnabled :: "uuid list \<Rightarrow> uuid \<Rightarrow> bool" where
  "isAutoApprovalEnabled autoApprovalTenantIds tenantId \<longleftrightarrow> tenantId \<in> set autoApprovalTenantIds"

end
