(* ===== verification/Marketplace_Lock.thy ===== *)
theory Marketplace_Lock
  imports Marketplace_Model
begin

text \<open>
  The Redis contention lock of \<open>src/redis/redis.service.ts\<close>: \<open>SET key token EX ttl NX\<close> to take
  it and a compare-and-delete script to give it back. The locale \<open>contention_lock\<close> states what
  its clients rely on; the interpretation discharges it for the Redis commands modelled here.
\<close>

section \<open>The interface\<close>

locale contention_lock =
  fixes holder :: "'s \<Rightarrow> 'k \<Rightarrow> millis \<Rightarrow> string option"
    and acquire :: "'s \<Rightarrow> 'k \<Rightarrow> int \<Rightarrow> string \<Rightarrow> millis \<Rightarrow> string option \<times> 's"
    and release :: "'s \<Rightarrow> 'k \<Rightarrow> string \<Rightarrow> millis \<Rightarrow> 's"
  assumes acquire_free: "holder s k now = None \<Longrightarrow> fst (acquire s k ttl tok now) = Some tok"
    and acquire_holds: "holder s k now = None \<Longrightarrow> now \<le> t \<Longrightarrow> t < now + ttl * 1000 \<Longrightarrow>
          holder (snd (acquire s k ttl tok now)) k t = Some tok"
    and acquire_lapses: "holder s k now = None \<Longrightarrow> now + ttl * 1000 \<le> t \<Longrightarrow>
          holder (snd (acquire s k ttl tok now)) k t = None"
    and acquire_busy: "holder s k now = Some x \<Longrightarrow> acquire s k ttl tok now = (None, s)"
    and release_own: "holder s k now = Some tok \<Longrightarrow> holder (release s k tok now) k t = None"
    and release_other: "holder s k now \<noteq> Some tok \<Longrightarrow> release s k tok now = s"
    and acquire_frame: "k' \<noteq> k \<Longrightarrow> holder (snd (acquire s k ttl tok now)) k' t = holder s k' t"
    and release_frame: "k' \<noteq> k \<Longrightarrow> holder (release s k tok now) k' t = holder s k' t"
begin

text \<open>Within the time to live of a granted lock nobody else is granted it.\<close>

lemma acquire_exclusive:
  assumes "fst (acquire s k ttl tok now) = Some tok" "now \<le> t" "t < now + ttl * 1000"
  shows "acquire (snd (acquire s k ttl tok now)) k ttl' tok' t = (None, snd (acquire s k ttl tok now))"
proof -
  have "holder s k now = None"
    using assms(1) acquire_busy[of s k now _ ttl tok] by (cases "holder s k now") auto
  then have "holder (snd (acquire s k ttl tok now)) k t = Some tok"
    using assms by (intro acquire_holds)
  then show ?thesis by (rule acquire_busy)
qed

text \<open>A holder whose lock has lapsed cannot give back the lock of the next holder.\<close>

lemma late_release_harmless:
  assumes "holder s k t = Some tok'" "tok' \<noteq> tok"
  shows "release s k tok t = s"
  using assms by (intro release_other) simp

text \<open>After a release the lock can be taken at once.\<close>

lemma release_then_acquire:
  assumes "holder s k now = Some tok"
  shows "fst (acquire (release s k tok now) k ttl tok' t) = Some tok'"
  using assms by (intro acquire_free release_own)

end

section \<open>Redis\<close>

type_synonym lock_table = "(string \<times> string \<times> millis) list"

definition claimLockKey :: "uuid \<Rightarrow> uuid \<Rightarrow> string" where
  "claimLockKey tenantId marketplacePostId =
     ''tenant:'' @ tenantId @ '':marketplace:claim-lock:'' @ marketplacePostId"

definition redis_get :: "lock_table \<Rightarrow> string \<Rightarrow> millis \<Rightarrow> string option" where
  "redis_get ls key now =
     map_option (\<lambda>e. fst (snd e)) (find_where (\<lambda>e. fst e = key \<and> now < snd (snd e)) ls)"

definition redis_del :: "lock_table \<Rightarrow> string \<Rightarrow> lock_table" where
  "redis_del ls key = delete_where (\<lambda>e. fst e = key) ls"

definition redis_set_nx :: "lock_table \<Rightarrow> string \<Rightarrow> int \<Rightarrow> string \<Rightarrow> millis \<Rightarrow> string option \<times> lock_table" where
  \<comment> \<open>\<open>SET key token EX ttl NX\<close>; the value is the token on \<open>OK\<close> and \<open>null\<close> otherwise\<close>
  "redis_set_nx ls key ttlSeconds token now =
     (case redis_get ls key now of
        Some _ \<Rightarrow> (None, ls)
      | None \<Rightarrow> (Some token, (key, token, now + ttlSeconds * 1000) # redis_del ls key))"

definition redis_release_script :: "lock_table \<Rightarrow> string \<Rightarrow> string \<Rightarrow> millis \<Rightarrow> lock_table" where
  "redis_release_script ls key token now =
     (if redis_get ls key now = Some token then redis_del ls key else ls)"

datatype redis_error = MarketplaceRedisUnavailable

definition acquireClaimLock ::
  "bool \<Rightarrow> string \<Rightarrow> millis \<Rightarrow> uuid \<Rightarrow> uuid \<Rightarrow> int \<Rightarrow> (mp_state, redis_error, string option) svc" where
  \<comment> \<open>\<open>up\<close>: Redis answers; \<open>token\<close>: the \<open>randomUUID()\<close> of this attempt\<close>
  "acquireClaimLock up token now tenantId marketplacePostId ttlSeconds s =
     (if \<not> up then (Inl MarketplaceRedisUnavailable, s)
      else (case redis_set_nx (locks s) (claimLockKey tenantId marketplacePostId) ttlSeconds token now of
              (r, ls) \<Rightarrow> (Inr r, s\<lparr>locks := ls\<rparr>)))"

definition releaseClaimLock :: "bool \<Rightarrow> millis \<Rightarrow> uuid \<Rightarrow> uuid \<Rightarrow> string \<Rightarrow> mp_state \<Rightarrow> mp_state" where
  \<comment> \<open>best effort: an unreachable Redis is logged and swallowed\<close>
  "releaseClaimLock up now tenantId marketplacePostId token s =
     (if up then s\<lparr>locks := redis_release_script (locks s) (claimLockKey tenantId marketplacePostId) token now\<rparr>
      else s)"

definition CONTENTION_LOCK_TTL_SECONDS :: int where
  "CONTENTION_LOCK_TTL_SECONDS = 5"

section \<open>The Redis commands implement the interface\<close>

lemma redis_get_Cons [simp]:
  "redis_get ((k, tok, ex) # ls) key now =
     (if k = key \<and> now < ex then Some tok else redis_get ls key now)"
  by (simp add: redis_get_def)

lemma redis_get_del_same [simp]: "redis_get (redis_del ls key) key t = None"
  by (simp add: redis_get_def redis_del_def find_where_None set_delete_where)

lemma redis_get_del_other [simp]: "k \<noteq> key \<Longrightarrow> redis_get (redis_del ls key) k t = redis_get ls k t"
  by (induction ls) (auto simp: redis_get_def redis_del_def delete_where_def)

interpretation redis_lock: contention_lock redis_get redis_set_nx redis_release_script
  by unfold_locales (auto simp: redis_set_nx_def redis_release_script_def split: option.splits)

lemma acquireClaimLock_frame:
  "acquireClaimLock up tok now t p ttl s = (r, s') \<Longrightarrow> s' = s\<lparr>locks := locks s'\<rparr>"
  by (auto simp: acquireClaimLock_def split: if_splits prod.splits)

lemma releaseClaimLock_frame:
  "releaseClaimLock up now t p tok s = s\<lparr>locks := locks (releaseClaimLock up now t p tok s)\<rparr>"
  by (simp add: releaseClaimLock_def)

section \<open>Guarantees\<close>

text \<open>
  The contention lock is exclusive and survives a stale holder: once a request has been granted the
  lock nobody else is before its time to live has passed, and when a slow holder gives its lapsed
  lock back after the next request was granted it, the next request keeps it.
\<close>

theorem contention_lock_exclusive:
  assumes "acquireClaimLock True a now t p ttl s = (Inr (Some a), s1)"
  shows "(\<forall>u b ttl'. now \<le> u \<longrightarrow> u < now + ttl * 1000 \<longrightarrow> acquireClaimLock True b u t p ttl' s1 = (Inr None, s1)) \<and>
         (\<forall>u b ttl' s2. acquireClaimLock True b u t p ttl' s1 = (Inr (Some b), s2) \<longrightarrow> b \<noteq> a \<longrightarrow>
            (\<forall>v. u \<le> v \<longrightarrow> v < u + ttl' * 1000 \<longrightarrow> releaseClaimLock True v t p a s2 = s2))"
proof -
  let ?k = "claimLockKey t p"
  have acq: "redis_set_nx (locks s) ?k ttl a now = (Some a, locks s1)" and s1: "s1 = s\<lparr>locks := locks s1\<rparr>"
    using assms by (auto simp: acquireClaimLock_def split: prod.splits)
  have excl: "acquireClaimLock True b u t p ttl' s1 = (Inr None, s1)" if "now \<le> u" "u < now + ttl * 1000" for u b ttl'
    using redis_lock.acquire_exclusive[of "locks s" ?k ttl a now u ttl' b] acq that by (simp add: acquireClaimLock_def)
  moreover have "releaseClaimLock True v t p a s2 = s2"
    if "acquireClaimLock True b u t p ttl' s1 = (Inr (Some b), s2)" "b \<noteq> a" "u \<le> v" "v < u + ttl' * 1000" for u b ttl' s2 v
  proof -
    have nx: "redis_set_nx (locks s1) ?k ttl' b u = (Some b, locks s2)" and s2: "s2 = s1\<lparr>locks := locks s2\<rparr>"
      using that(1) by (auto simp: acquireClaimLock_def split: prod.splits)
    have "redis_get (locks s1) ?k u = None" using nx by (auto simp: redis_set_nx_def split: option.splits)
    then have "redis_get (locks s2) ?k v = Some b" using redis_lock.acquire_holds[of "locks s1" ?k u v ttl' b] nx that by simp
    then have "redis_release_script (locks s2) ?k a v = locks s2" using that(2) by (rule redis_lock.late_release_harmless)
    then show ?thesis by (simp add: releaseClaimLock_def)
  qed
  ultimately show ?thesis by blast
qed

theorem contention_lock_exclusive_witness:
  "acquireClaimLock True ''b'' 4999 ''t1'' ''p1'' 5 (snd (acquireClaimLock True ''a'' 1000 ''t1'' ''p1'' 5 empty_state)) =
   (Inr None, snd (acquireClaimLock True ''a'' 1000 ''t1'' ''p1'' 5 empty_state))"
  using contention_lock_exclusive[of "''a''" 1000 "''t1''" "''p1''" 5 empty_state
      "snd (acquireClaimLock True ''a'' 1000 ''t1'' ''p1'' 5 empty_state)"]
  by (simp add: acquireClaimLock_def redis_set_nx_def redis_get_def empty_state_def)

end
