(* ===== verification/Claim_Rate_Limiter.thy ===== *)
theory Claim_Rate_Limiter
  imports Marketplace_Model
begin

text \<open>
  \<open>claim-attempt-rate-limiter.service.ts\<close>: the sliding window of failed claim attempts kept on
  the employee's engagement row. \<open>assertNotRateLimited\<close> only reads, \<open>recordFailedAttempt\<close> is the
  single upsert. Elapsed seconds are compared exactly, in milliseconds.
\<close>

record limit_override =
  ov_limit :: "int option"
  ov_windowSeconds :: "int option"

record limiter_config =
  defaultLimit :: int
  defaultWindowSeconds :: int
  overridesByTenantId :: "(uuid \<times> limit_override) list"

definition limitsFor :: "limiter_config \<Rightarrow> uuid \<Rightarrow> int \<times> int" where
  "limitsFor cfg tenantId =
     (case map_of (overridesByTenantId cfg) tenantId of
        None \<Rightarrow> (defaultLimit cfg, defaultWindowSeconds cfg)
      | Some ov \<Rightarrow> (the_default (ov_limit ov) (defaultLimit cfg),
                    the_default (ov_windowSeconds ov) (defaultWindowSeconds cfg)))"

definition is_score :: "uuid \<Rightarrow> uuid \<Rightarrow> score \<Rightarrow> bool" where
  "is_score tenantId employeeId r \<longleftrightarrow> score_employeeId r = employeeId \<and> score_tenantId r = tenantId"

definition ceil_seconds :: "int \<Rightarrow> int" where
  \<comment> \<open>\<open>Math.ceil(ms / 1000)\<close>\<close>
  "ceil_seconds ms = - ((- ms) div 1000)"

definition assertNotRateLimited ::
  "limiter_config \<Rightarrow> millis \<Rightarrow> uuid \<Rightarrow> uuid \<Rightarrow> (mp_state, mp_error, unit) svc" where
  "assertNotRateLimited cfg now tenantId employeeId s =
     (let (limit, windowSeconds) = limitsFor cfg tenantId in
      case find_where (is_score tenantId employeeId) (scores s) of
        None \<Rightarrow> (Inr (), s)
      | Some row \<Rightarrow>
          (case score_claimAttemptWindowStart row of
             None \<Rightarrow> (Inr (), s)
           | Some start \<Rightarrow>
               (if now - start > windowSeconds * 1000 then (Inr (), s)
                else if the_default (score_claimAttemptCountWindow row) 0 \<ge> limit
                then (Inl (ClaimAttemptRateLimitExceeded (ceil_seconds (windowSeconds * 1000 - (now - start)))), s)
                else (Inr (), s))))"

definition window_lapsed :: "int \<Rightarrow> millis \<Rightarrow> score \<Rightarrow> bool" where
  "window_lapsed windowSeconds now row =
     (case score_claimAttemptWindowStart row of
        None \<Rightarrow> True
      | Some start \<Rightarrow> now - start > windowSeconds * 1000)"

definition bump_window :: "int \<Rightarrow> millis \<Rightarrow> score \<Rightarrow> score" where
  \<comment> \<open>the \<open>ON CONFLICT ... DO UPDATE\<close> branch; \<open>NULL + 1\<close> is \<open>NULL\<close>\<close>
  "bump_window windowSeconds now row =
     (if window_lapsed windowSeconds now row
      then row\<lparr>score_claimAttemptCountWindow := Some 1, score_claimAttemptWindowStart := Some now\<rparr>
      else row\<lparr>score_claimAttemptCountWindow := map_option (\<lambda>n. n + 1) (score_claimAttemptCountWindow row)\<rparr>)"

definition recordFailedAttempt :: "limiter_config \<Rightarrow> millis \<Rightarrow> uuid \<Rightarrow> uuid \<Rightarrow> mp_state \<Rightarrow> mp_state" where
  "recordFailedAttempt cfg now tenantId employeeId s =
     (let (_, windowSeconds) = limitsFor cfg tenantId in
      case find_where (is_score tenantId employeeId) (scores s) of
        None \<Rightarrow> s\<lparr>scores := scores s @
          [\<lparr>score_employeeId = employeeId, score_tenantId = tenantId, score_points = 0,
            score_streakDays = 0, score_badges = [], score_claimAttemptCountWindow = Some 1,
            score_claimAttemptWindowStart = Some now, score_lastEngagementDate = None\<rparr>]\<rparr>
      | Some _ \<Rightarrow> s\<lparr>scores := update_where (is_score tenantId employeeId) (bump_window windowSeconds now) (scores s)\<rparr>)"

text \<open>The failures of one caller, in the order they happen.\<close>

fun recordFailures :: "limiter_config \<Rightarrow> uuid \<Rightarrow> uuid \<Rightarrow> millis list \<Rightarrow> mp_state \<Rightarrow> mp_state" where
  "recordFailures cfg t e [] s = s"
| "recordFailures cfg t e (now # ts) s = recordFailures cfg t e ts (recordFailedAttempt cfg now t e s)"

section \<open>The window as seen by the limiter\<close>

definition attempt_window :: "uuid \<Rightarrow> uuid \<Rightarrow> mp_state \<Rightarrow> (int \<times> millis) option" where
  \<comment> \<open>abstraction: the count and the start of the caller's current window\<close>
  "attempt_window t e s =
     (case find_where (is_score t e) (scores s) of
        None \<Rightarrow> None
      | Some row \<Rightarrow> (case (score_claimAttemptCountWindow row, score_claimAttemptWindowStart row) of
                       (Some n, Some start) \<Rightarrow> Some (n, start) | _ \<Rightarrow> None))"

definition wf_window :: "score \<Rightarrow> bool" where
  "wf_window row \<longleftrightarrow> (score_claimAttemptCountWindow row = None \<longleftrightarrow> score_claimAttemptWindowStart row = None)"

definition wf_windows :: "mp_state \<Rightarrow> bool" where
  "wf_windows s \<longleftrightarrow> (\<forall>r\<in>set (scores s). wf_window r)"

definition spec_record :: "int \<Rightarrow> millis \<Rightarrow> (int \<times> millis) option \<Rightarrow> (int \<times> millis) option" where
  \<comment> \<open>the contract: a failure extends the running window or opens a new one\<close>
  "spec_record w now a =
     (case a of None \<Rightarrow> Some (1, now)
      | Some (n, start) \<Rightarrow> if now - start > w * 1000 then Some (1, now) else Some (n + 1, start))"

lemma is_score_bump [simp]: "is_score t e (bump_window w now r) = is_score t e r"
  by (simp add: is_score_def bump_window_def)

lemma wf_window_bump: "wf_window r \<Longrightarrow> wf_window (bump_window w now r)"
  by (auto simp: wf_window_def bump_window_def window_lapsed_def split: option.splits)

lemma recordFailedAttempt_wf: "wf_windows s \<Longrightarrow> wf_windows (recordFailedAttempt cfg now t e s)"
  by (auto simp: wf_windows_def recordFailedAttempt_def set_update_where wf_window_bump
      split: option.splits prod.splits) (simp add: wf_window_def)

lemma wf_windowsD: "wf_windows s \<Longrightarrow> find_where (is_score t e) (scores s) = Some r \<Longrightarrow> wf_window r"
  by (auto simp: wf_windows_def dest: find_where_SomeD)

text \<open>The SQL upsert refines the contract.\<close>

lemma recordFailedAttempt_refines:
  assumes "wf_windows s"
  shows "attempt_window t e (recordFailedAttempt cfg now t e s) =
         spec_record (snd (limitsFor cfg t)) now (attempt_window t e s)"
proof (cases "find_where (is_score t e) (scores s)")
  case None
  then show ?thesis
    by (auto simp: attempt_window_def recordFailedAttempt_def spec_record_def find_where_append
        is_score_def split: prod.splits)
next
  case (Some r)
  let ?w = "snd (limitsFor cfg t)"
  have "find_where (is_score t e) (scores (recordFailedAttempt cfg now t e s)) = Some (bump_window ?w now r)"
    using Some by (simp add: recordFailedAttempt_def find_where_update_same split: prod.splits)
  moreover have "wf_window r" using assms Some by (rule wf_windowsD)
  ultimately show ?thesis
    using Some by (auto simp: attempt_window_def spec_record_def bump_window_def window_lapsed_def
        wf_window_def split: option.splits)
qed

lemma assertNotRateLimited_iff:
  assumes "wf_windows s"
  shows "(\<exists>r. assertNotRateLimited cfg now t e s = (Inl (ClaimAttemptRateLimitExceeded r), s)) \<longleftrightarrow>
         (\<exists>n start. attempt_window t e s = Some (n, start) \<and>
            now - start \<le> snd (limitsFor cfg t) * 1000 \<and> fst (limitsFor cfg t) \<le> n)"
proof (cases "find_where (is_score t e) (scores s)")
  case None
  then show ?thesis
    by (simp add: attempt_window_def assertNotRateLimited_def split: prod.splits)
next
  case (Some r)
  have "wf_window r" using assms Some by (rule wf_windowsD)
  with Some show ?thesis
    by (auto simp: attempt_window_def assertNotRateLimited_def wf_window_def
        split: prod.splits option.splits)
qed

lemma recordFailures_wf: "wf_windows s \<Longrightarrow> wf_windows (recordFailures cfg t e ts s)"
  by (induction ts arbitrary: s) (simp_all add: recordFailedAttempt_wf)

text \<open>Failures inside one window accumulate; the window keeps its start.\<close>

lemma recordFailures_accumulate:
  assumes "wf_windows s" "attempt_window t e s = Some (n, start)"
    and "\<And>x. x \<in> set ts \<Longrightarrow> x - start \<le> snd (limitsFor cfg t) * 1000"
  shows "attempt_window t e (recordFailures cfg t e ts s) = Some (n + int (length ts), start)"
  using assms
proof (induction ts arbitrary: s n)
  case (Cons x ts)
  have "x - start \<le> snd (limitsFor cfg t) * 1000" by (rule Cons.prems(3)) simp
  then have "attempt_window t e (recordFailedAttempt cfg x t e s) = Some (n + 1, start)"
    using Cons.prems(1,2) by (simp add: recordFailedAttempt_refines spec_record_def)
  then have "attempt_window t e (recordFailures cfg t e ts (recordFailedAttempt cfg x t e s)) =
      Some (n + 1 + int (length ts), start)"
    using Cons.prems by (intro Cons.IH) (auto intro: recordFailedAttempt_wf)
  then show ?case by (simp add: add.assoc)
qed simp

section \<open>Guarantees\<close>

definition demo_limits :: limiter_config where
  "demo_limits = \<lparr>defaultLimit = 2, defaultWindowSeconds = 60, overridesByTenantId = []\<rparr>"

text \<open>
  Starting from a caller without a running window, a first failure at \<open>t0\<close> and further failures
  inside its window block the caller exactly when the number of failures has reached the tenant's
  limit and the window counted from \<open>t0\<close> has not passed.
\<close>

theorem rate_limit_exact:
  assumes "wf_windows s" "attempt_window t e s = None"
    and "\<And>x. x \<in> set ts \<Longrightarrow> x - t0 \<le> snd (limitsFor cfg t) * 1000"
  shows "(\<exists>r. fst (assertNotRateLimited cfg now t e (recordFailures cfg t e (t0 # ts) s)) =
            Inl (ClaimAttemptRateLimitExceeded r)) \<longleftrightarrow>
         now - t0 \<le> snd (limitsFor cfg t) * 1000 \<and> fst (limitsFor cfg t) \<le> int (length ts) + 1"
proof -
  let ?s1 = "recordFailedAttempt cfg t0 t e s" and ?s = "recordFailures cfg t e (t0 # ts) s"
  have "attempt_window t e ?s1 = Some (1, t0)"
    using assms by (simp add: recordFailedAttempt_refines spec_record_def)
  then have "attempt_window t e ?s = Some (1 + int (length ts), t0)"
    using recordFailures_accumulate[OF recordFailedAttempt_wf[OF assms(1)] _ assms(3)] by simp
  moreover have "wf_windows ?s" using assms(1) by (rule recordFailures_wf)
  moreover have "snd (assertNotRateLimited cfg now t e ?s) = ?s"
    by (simp add: assertNotRateLimited_def split: prod.splits option.splits)
  ultimately show ?thesis
    using assertNotRateLimited_iff[of ?s cfg now t e]
    by (auto simp: add.commute) (metis prod.collapse)+
qed

theorem rate_limit_exact_witness:
  "\<exists>r. fst (assertNotRateLimited demo_limits 40000 ''t1'' ''e1'' (recordFailures demo_limits ''t1'' ''e1'' [1000, 2000] empty_state)) =
     Inl (ClaimAttemptRateLimitExceeded r)"
  using rate_limit_exact[of empty_state "''t1''" "''e1''" "[2000]" 1000 demo_limits 40000]
  by (simp add: wf_windows_def attempt_window_def empty_state_def demo_limits_def limitsFor_def)

text \<open>
  The retry hint of a refusal is sound: with a window that started no later than now it is
  between 0 and the length of the window, and the caller is not refused at any time after it
  unless another failure was recorded.
\<close>

theorem retry_hint_sound:
  assumes "assertNotRateLimited cfg now t e s = (Inl (ClaimAttemptRateLimitExceeded r), s')"
    and "\<And>row start. row \<in> set (scores s) \<Longrightarrow> score_claimAttemptWindowStart row = Some start \<Longrightarrow> start \<le> now"
  shows "s' = s \<and> 0 \<le> r \<and> r \<le> snd (limitsFor cfg t) \<and>
         (\<forall>u > now + r * 1000. assertNotRateLimited cfg u t e s = (Inr (), s))"
proof -
  define w where "w = snd (limitsFor cfg t)"
  obtain row start where row: "find_where (is_score t e) (scores s) = Some row"
    and st: "score_claimAttemptWindowStart row = Some start" and early: "now - start \<le> w * 1000"
    and r: "r = ceil_seconds (w * 1000 - (now - start))" and s': "s' = s"
    using assms(1) by (auto simp: assertNotRateLimited_def w_def split: prod.splits option.splits if_splits)
  have "start \<le> now" using assms(2) find_where_SomeD[OF row] st by blast
  then have "0 \<le> r" "r \<le> w" "w * 1000 - (now - start) \<le> r * 1000"
    using early by (auto simp: r ceil_seconds_def)
  moreover have "assertNotRateLimited cfg u t e s = (Inr (), s)" if "u > now + r * 1000" for u
    using row st that calculation(3) by (auto simp: assertNotRateLimited_def w_def split: prod.splits)
  ultimately show ?thesis using s' by (simp add: w_def)
qed

theorem retry_hint_sound_witness:
  "let s = recordFailures demo_limits ''t1'' ''e1'' [1000, 2000] empty_state in
   assertNotRateLimited demo_limits 40500 ''t1'' ''e1'' s = (Inl (ClaimAttemptRateLimitExceeded 21), s) \<and>
   assertNotRateLimited demo_limits 61501 ''t1'' ''e1'' s = (Inr (), s)"
proof -
  let ?s = "recordFailures demo_limits ''t1'' ''e1'' [1000, 2000] empty_state"
  have now: "assertNotRateLimited demo_limits 40500 ''t1'' ''e1'' ?s = (Inl (ClaimAttemptRateLimitExceeded 21), ?s)"
    by code_simp
  have "\<And>row start. row \<in> set (scores ?s) \<Longrightarrow> score_claimAttemptWindowStart row = Some start \<Longrightarrow> start \<le> 40500"
    by (auto simp: recordFailedAttempt_def empty_state_def demo_limits_def limitsFor_def is_score_def bump_window_def window_lapsed_def)
  from retry_hint_sound[OF now this] now show ?thesis by (simp add: Let_def)
qed

end
