(* ===== verification/Marketplace_Engagement.thy ===== *)
theory Marketplace_Engagement
  imports Claim_Rate_Limiter
begin

text \<open>
  \<open>marketplace-engagement.service.ts\<close>: points, streaks and badges of an employee, kept as running
  totals on the engagement row and as an append-only ledger, both written by the same
  transaction. Calendar days are day numbers (\<open>Date.parse\<close> of a UTC date is a multiple of a day,
  so the source's \<open>diffDays\<close> is their difference).
\<close>

section \<open>Operations\<close>

record engagement_config =
  points_claim_approved :: int
  points_swap_executed :: int

definition pointsByEventType :: "engagement_config \<Rightarrow> engagement_type \<Rightarrow> int" where
  "pointsByEventType cfg ty =
     (case ty of CLAIM_APPROVED \<Rightarrow> points_claim_approved cfg | SWAP_EXECUTED \<Rightarrow> points_swap_executed cfg)"

definition STREAK_BADGE_THRESHOLDS :: "(int \<times> string) list" where
  "STREAK_BADGE_THRESHOLDS = [(7, ''week_streak''), (30, ''month_streak'')]"

definition POINTS_BADGE_THRESHOLDS :: "(int \<times> string) list" where
  "POINTS_BADGE_THRESHOLDS = [(100, ''century_club''), (500, ''marketplace_champion'')]"

definition FIRST_EVENT_BADGE :: "engagement_type \<Rightarrow> string" where
  "FIRST_EVENT_BADGE ty = (case ty of CLAIM_APPROVED \<Rightarrow> ''first_fill'' | SWAP_EXECUTED \<Rightarrow> ''team_player'')"

definition nextStreak :: "int option \<Rightarrow> int \<Rightarrow> int \<Rightarrow> int" where
  "nextStreak lastEngagementDate today currentStreak =
     (case lastEngagementDate of
        None \<Rightarrow> 1
      | Some d \<Rightarrow>
          if d = today then (if currentStreak = 0 then 1 else currentStreak)
          else if today - d = 1 then currentStreak + 1 else 1)"

definition maybeAward :: "string list \<times> string list \<Rightarrow> string \<Rightarrow> string list \<times> string list" where
  "maybeAward st badge =
     (case st of (bs, newly) \<Rightarrow> if badge \<in> set bs then (bs, newly) else (bs @ [badge], newly @ [badge]))"

definition earnedBadges :: "engagement_type \<Rightarrow> int \<Rightarrow> int \<Rightarrow> string list" where
  \<comment> \<open>the badges \<open>maybeAward\<close> is called with, in the order of the calls\<close>
  "earnedBadges ty points streakDays =
     FIRST_EVENT_BADGE ty #
     map snd (filter (\<lambda>(days, _). streakDays \<ge> days) STREAK_BADGE_THRESHOLDS) @
     map snd (filter (\<lambda>(threshold, _). points \<ge> threshold) POINTS_BADGE_THRESHOLDS)"

definition awardBadges :: "string list \<Rightarrow> engagement_type \<Rightarrow> int \<Rightarrow> int \<Rightarrow> string list \<times> string list" where
  "awardBadges existing ty points streakDays =
     foldl maybeAward (js_set existing, []) (earnedBadges ty points streakDays)"

definition day_of :: "millis \<Rightarrow> int" where
  \<comment> \<open>\<open>new Date().toISOString().slice(0, 10)\<close>\<close>
  "day_of now = now div 86400000"

record engagement_input =
  in_tenantId :: uuid
  in_employeeId :: uuid
  in_eventType :: engagement_type
  in_referenceId :: uuid

definition ensure_score :: "uuid \<Rightarrow> uuid \<Rightarrow> score list \<Rightarrow> score list" where
  \<comment> \<open>\<open>INSERT ... ON CONFLICT (employee_id, tenant_id) DO NOTHING\<close>\<close>
  "ensure_score tenantId employeeId rows =
     (case find_where (is_score tenantId employeeId) rows of
        Some _ \<Rightarrow> rows
      | None \<Rightarrow> rows @
          [\<lparr>score_employeeId = employeeId, score_tenantId = tenantId, score_points = 0,
            score_streakDays = 0, score_badges = [], score_claimAttemptCountWindow = None,
            score_claimAttemptWindowStart = None, score_lastEngagementDate = None\<rparr>])"

definition applyEvent ::
  "engagement_config \<Rightarrow> millis \<Rightarrow> uuid \<Rightarrow> engagement_input \<Rightarrow> mp_state \<Rightarrow> mp_state" where
  "applyEvent cfg now newId inp s =
     (let tenantId = in_tenantId inp; employeeId = in_employeeId inp; ty = in_eventType inp;
          rows = ensure_score tenantId employeeId (scores s) in
      case find_where (is_score tenantId employeeId) rows of
        None \<Rightarrow> s
      | Some row \<Rightarrow>
          (let today = day_of now;
               pointsDelta = pointsByEventType cfg ty;
               newPoints = score_points row + pointsDelta;
               newStreak = nextStreak (score_lastEngagementDate row) today (score_streakDays row);
               (newBadges, newlyAwarded) = awardBadges (score_badges row) ty newPoints newStreak
           in s\<lparr>scores := update_where (is_score tenantId employeeId)
                  (\<lambda>r. r\<lparr>score_points := newPoints, score_streakDays := newStreak,
                         score_badges := newBadges, score_lastEngagementDate := Some today\<rparr>) rows,
                engagementEvents := engagementEvents s @
                  [\<lparr>ev_id = newId, ev_tenantId = tenantId, ev_employeeId = employeeId,
                    ev_eventType = ty, ev_referenceId = in_referenceId inp,
                    ev_pointsDelta = pointsDelta, ev_streakDaysAfter = newStreak,
                    ev_badgesAwarded = newlyAwarded, ev_createdAt = now\<rparr>]\<rparr>))"

definition recordEvent ::
  "engagement_config \<Rightarrow> millis \<Rightarrow> uuid \<Rightarrow> engagement_input \<Rightarrow> mp_state \<Rightarrow> mp_state" where
  "recordEvent cfg now newId inp s =
     snd (withTenantConnection (in_tenantId inp) (\<lambda>_ s. Inr ((), applyEvent cfg now newId inp s)) s)"

section \<open>Ledger invariant\<close>

text \<open>What the ledger says about one employee.\<close>

definition ledger_of :: "uuid \<Rightarrow> uuid \<Rightarrow> mp_state \<Rightarrow> engagement_event list" where
  "ledger_of t e s = filter (\<lambda>v. ev_tenantId v = t \<and> ev_employeeId v = e) (engagementEvents s)"

definition row_agrees :: "mp_state \<Rightarrow> score \<Rightarrow> bool" where
  "row_agrees s r \<longleftrightarrow>
     (let l = ledger_of (score_tenantId r) (score_employeeId r) s in
      score_points r = sum_list (map ev_pointsDelta l) \<and>
      score_badges r = concat (map ev_badgesAwarded l) \<and>
      distinct (score_badges r) \<and>
      score_streakDays r = (if l = [] then 0 else ev_streakDaysAfter (last l)) \<and>
      score_lastEngagementDate r = (if l = [] then None else Some (day_of (ev_createdAt (last l)))))"

definition score_key :: "score \<Rightarrow> uuid \<times> uuid" where
  "score_key r = (score_tenantId r, score_employeeId r)"

definition ledger_inv :: "mp_state \<Rightarrow> bool" where
  \<comment> \<open>every running total is what the ledger adds up to, and no ledger entry lacks its row\<close>
  "ledger_inv s \<longleftrightarrow>
     distinct (map score_key (scores s)) \<and>
     (\<forall>r\<in>set (scores s). row_agrees s r) \<and>
     (\<forall>v\<in>set (engagementEvents s). \<exists>r\<in>set (scores s). is_score (ev_tenantId v) (ev_employeeId v) r)"

lemma foldl_maybeAward:
  assumes "distinct bs"
  shows "\<exists>more. foldl maybeAward (bs, newly) xs = (bs @ more, newly @ more) \<and> distinct (bs @ more)"
  using assms
proof (induction xs arbitrary: bs newly)
  case (Cons x xs)
  show ?case
  proof (cases "x \<in> set bs")
    case True
    with Cons show ?thesis by (simp add: maybeAward_def)
  next
    case False
    with Cons.prems have "distinct (bs @ [x])" by simp
    from Cons.IH[OF this, of "newly @ [x]"] False show ?thesis
      by (fastforce simp: maybeAward_def)
  qed
qed simp

lemma foldl_maybeAward_set: "set (fst (foldl maybeAward (bs, newly) xs)) = set bs \<union> set xs"
proof (induction xs arbitrary: bs newly)
  case (Cons x xs)
  then show ?case by (cases "x \<in> set bs") (auto simp: maybeAward_def)
qed simp

lemma awardBadges_extends:
  assumes "distinct existing"
  obtains more where "awardBadges existing ty p d = (existing @ more, more)" "distinct (existing @ more)"
  using foldl_maybeAward[OF assms, of "[]"] assms by (auto simp: awardBadges_def js_set_id)

lemma awardBadges_set:
  "set (fst (awardBadges existing ty p d)) = set existing \<union> set (earnedBadges ty p d)"
  by (simp add: awardBadges_def foldl_maybeAward_set)

lemma ensure_score_find: "\<exists>r. find_where (is_score t e) (ensure_score t e rows) = Some r"
  by (auto simp: ensure_score_def find_where_append is_score_def split: option.splits)

lemma is_score_iff_key: "is_score t e r \<longleftrightarrow> score_key r = (t, e)"
  by (auto simp: is_score_def score_key_def)

lemma covered_keys:
  "map score_key rows = map score_key rows' \<Longrightarrow> \<exists>r\<in>set rows. is_score t e r \<Longrightarrow>
   \<exists>r\<in>set rows'. is_score t e r"
  by (metis is_score_iff_key map_eq_setD)

lemma ensure_score_inv:
  assumes "ledger_inv s"
  shows "ledger_inv (s\<lparr>scores := ensure_score t e (scores s)\<rparr>)"
proof (cases "find_where (is_score t e) (scores s)")
  case (Some r)
  then have "ensure_score t e (scores s) = scores s" by (simp add: ensure_score_def)
  then show ?thesis using assms by simp
next
  case None
  then have no: "\<forall>r\<in>set (scores s). \<not> is_score t e r" by (simp add: find_where_None)
  then have "ledger_of t e s = []"
    using assms by (fastforce simp: ledger_inv_def ledger_of_def filter_empty_conv is_score_def)
  then show ?thesis
    using assms None no
    by (auto simp: ledger_inv_def ensure_score_def row_agrees_def ledger_of_def is_score_def
        score_key_def Let_def)
qed

text \<open>
  One event of an employee whose row exists: that row moves with its ledger, every other row and
  its ledger stay as they are.
\<close>

lemma applyEvent_unfold:
  obtains row more where
    "find_where (is_score (in_tenantId inp) (in_employeeId inp))
       (ensure_score (in_tenantId inp) (in_employeeId inp) (scores s)) = Some row"
    "ledger_inv s \<longrightarrow>
       awardBadges (score_badges row) (in_eventType inp)
         (score_points row + pointsByEventType cfg (in_eventType inp))
         (nextStreak (score_lastEngagementDate row) (day_of now) (score_streakDays row)) =
       (score_badges row @ more, more) \<and> distinct (score_badges row @ more)"
proof -
  let ?t = "in_tenantId inp" and ?e = "in_employeeId inp"
  obtain row where row: "find_where (is_score ?t ?e) (ensure_score ?t ?e (scores s)) = Some row"
    using ensure_score_find by blast
  have "distinct (score_badges row)" if "ledger_inv s"
    using ensure_score_inv[OF that, of ?t ?e] find_where_SomeD[OF row]
    by (auto simp: ledger_inv_def row_agrees_def Let_def)
  then show thesis
    by (cases "ledger_inv s") (auto intro: that[OF row] elim: awardBadges_extends)
qed

lemma applyEvent_ledger_inv:
  assumes inv: "ledger_inv s"
  shows "ledger_inv (applyEvent cfg now newId inp s)"
proof -
  define t e where "t = in_tenantId inp" and "e = in_employeeId inp"
  define rows where "rows = ensure_score t e (scores s)"
  let ?s0 = "s\<lparr>scores := rows\<rparr>"
  obtain row more where row: "find_where (is_score t e) rows = Some row"
    and aw: "awardBadges (score_badges row) (in_eventType inp)
         (score_points row + pointsByEventType cfg (in_eventType inp))
         (nextStreak (score_lastEngagementDate row) (day_of now) (score_streakDays row)) =
       (score_badges row @ more, more)" and dist: "distinct (score_badges row @ more)"
    using applyEvent_unfold[of inp s cfg now] inv unfolding t_def e_def rows_def by metis
  have inv0: "ledger_inv ?s0" unfolding rows_def by (rule ensure_score_inv[OF inv])
  have only: "r = row" if "r \<in> set rows" "is_score t e r" for r
    using inv0 that find_where_SomeD[OF row]
    by (auto simp: ledger_inv_def is_score_iff_key distinct_map inj_on_def)
  define s' where "s' = applyEvent cfg now newId inp s"
  let ?f = "\<lambda>r. r\<lparr>score_points := score_points row + pointsByEventType cfg (in_eventType inp),
      score_streakDays := nextStreak (score_lastEngagementDate row) (day_of now) (score_streakDays row),
      score_badges := score_badges row @ more, score_lastEngagementDate := Some (day_of now)\<rparr>"
  have sc: "scores s' = update_where (is_score t e) ?f rows"
    and ev: "engagementEvents s' = engagementEvents s @
        [\<lparr>ev_id = newId, ev_tenantId = t, ev_employeeId = e, ev_eventType = in_eventType inp,
          ev_referenceId = in_referenceId inp, ev_pointsDelta = pointsByEventType cfg (in_eventType inp),
          ev_streakDaysAfter = nextStreak (score_lastEngagementDate row) (day_of now) (score_streakDays row),
          ev_badgesAwarded = more, ev_createdAt = now\<rparr>]"
    using row aw unfolding s'_def applyEvent_def
    by (simp_all add: Let_def rows_def flip: t_def e_def)
  have agrees: "row_agrees s' r" if "r \<in> set (scores s')" for r
  proof (cases "is_score t e r")
    case True
    then have r: "r = ?f row"
      using that only find_where_SomeD[OF row] by (auto simp: sc set_update_where is_score_def)
    show ?thesis
      using inv0 find_where_SomeD[OF row] dist
      by (auto simp: r row_agrees_def ledger_of_def ev ledger_inv_def is_score_def Let_def)
  next
    case False
    then have "r \<in> set rows" using that by (auto simp: sc set_update_where is_score_def)
    then show ?thesis
      using inv0 False by (auto simp: ledger_inv_def row_agrees_def ledger_of_def ev is_score_def Let_def)
  qed
  have keys: "map score_key (scores s') = map score_key rows"
    unfolding sc by (rule map_update_where) (simp add: score_key_def)
  have "\<exists>r\<in>set (scores s'). is_score (ev_tenantId v) (ev_employeeId v) r"
    if v: "v \<in> set (engagementEvents s')" for v
    by (rule covered_keys[OF keys[symmetric]])
      (use v inv0 find_where_SomeD[OF row] in \<open>auto simp: ev ledger_inv_def\<close>)
  then show ?thesis
    using agrees inv0 keys by (simp add: ledger_inv_def flip: s'_def)
qed

lemma recordEvent_eq [simp]: "recordEvent cfg now newId inp s = applyEvent cfg now newId inp s"
  by (simp add: recordEvent_def withTenantConnection_def run_txn_def)

text \<open>Columns the ledger does not speak about may change freely.\<close>

definition score_view :: "score \<Rightarrow> uuid \<times> uuid \<times> int \<times> string list \<times> int \<times> int option" where
  "score_view r = (score_tenantId r, score_employeeId r, score_points r, score_badges r,
     score_streakDays r, score_lastEngagementDate r)"

lemma ledger_inv_view:
  assumes "ledger_inv s" "map score_view (scores s') = map score_view (scores s)"
    and ev: "engagementEvents s' = engagementEvents s"
  shows "ledger_inv s'"
proof -
  have "map (\<lambda>w. (fst w, fst (snd w))) (map score_view (scores s')) =
        map (\<lambda>w. (fst w, fst (snd w))) (map score_view (scores s))"
    using assms(2) by simp
  then have keys: "map score_key (scores s') = map score_key (scores s)"
    by (simp add: comp_def score_view_def score_key_def[abs_def])
  have "row_agrees s' r" if r: "r \<in> set (scores s')" for r
  proof -
    obtain q where q: "q \<in> set (scores s)" and same: "score_view q = score_view r"
      using map_eq_setD[OF assms(2) r] by blast
    have "row_agrees s q" using assms(1) q by (simp add: ledger_inv_def)
    with same show ?thesis by (simp add: row_agrees_def ledger_of_def ev score_view_def)
  qed
  moreover have "\<exists>r\<in>set (scores s'). is_score (ev_tenantId v) (ev_employeeId v) r"
    if v: "v \<in> set (engagementEvents s')" for v
    by (rule covered_keys[OF keys[symmetric]]) (use v assms(1) in \<open>auto simp: ledger_inv_def ev\<close>)
  ultimately show ?thesis using assms(1) keys by (simp add: ledger_inv_def)
qed

lemma recordFailedAttempt_ledger_inv:
  assumes "ledger_inv s"
  shows "ledger_inv (recordFailedAttempt cfg now t e s)"
proof (cases "find_where (is_score t e) (scores s)")
  case None
  then have "ledger_inv (s\<lparr>scores := ensure_score t e (scores s)\<rparr>)"
    using assms by (intro ensure_score_inv)
  then show ?thesis
    by (rule ledger_inv_view)
      (use None in \<open>auto simp: recordFailedAttempt_def ensure_score_def score_view_def split: prod.splits\<close>)
next
  case (Some r)
  then have "map score_view (scores (recordFailedAttempt cfg now t e s)) = map score_view (scores s)"
    by (auto simp: recordFailedAttempt_def bump_window_def score_view_def intro: map_update_where
        split: prod.splits)
  then show ?thesis
    using assms Some by (intro ledger_inv_view[OF assms])
      (auto simp: recordFailedAttempt_def split: prod.splits)
qed

section \<open>Guarantees\<close>

text \<open>The operations that write engagement rows, in the order they commit.\<close>

datatype score_op = Engage millis uuid engagement_input | FailedAttempt millis uuid uuid

fun run_score_ops :: "engagement_config \<Rightarrow> limiter_config \<Rightarrow> score_op list \<Rightarrow> mp_state \<Rightarrow> mp_state" where
  "run_score_ops ec lc [] s = s"
| "run_score_ops ec lc (Engage now i inp # ops) s = run_score_ops ec lc ops (recordEvent ec now i inp s)"
| "run_score_ops ec lc (FailedAttempt now t e # ops) s = run_score_ops ec lc ops (recordFailedAttempt lc now t e s)"

lemma run_score_ops_inv: "ledger_inv s \<Longrightarrow> ledger_inv (run_score_ops ec lc ops s)"
  by (induction ec lc ops s rule: run_score_ops.induct) (simp_all add: applyEvent_ledger_inv recordFailedAttempt_ledger_inv)

text \<open>
  Whatever events and failed attempts are recorded, in whatever order, every employee has one
  engagement row, its points are the sum of the employee's ledger, its badges are the badges the
  ledger awarded, each once, and every ledger entry has its row.
\<close>

theorem engagement_matches_ledger:
  "distinct (map score_key (scores (run_score_ops ec lc ops empty_state))) \<and>
   (\<forall>r\<in>set (scores (run_score_ops ec lc ops empty_state)).
      row_agrees (run_score_ops ec lc ops empty_state) r) \<and>
   (\<forall>v\<in>set (engagementEvents (run_score_ops ec lc ops empty_state)).
      \<exists>r\<in>set (scores (run_score_ops ec lc ops empty_state)). is_score (ev_tenantId v) (ev_employeeId v) r)"
  using run_score_ops_inv[of empty_state ec lc ops] by (simp add: ledger_inv_def empty_state_def)

definition demo_scores :: mp_state where
  "demo_scores = run_score_ops \<lparr>points_claim_approved = 10, points_swap_executed = 15\<rparr>
     \<lparr>defaultLimit = 5, defaultWindowSeconds = 60, overridesByTenantId = []\<rparr>
     [Engage 5 ''l1'' \<lparr>in_tenantId = ''t1'', in_employeeId = ''e1'', in_eventType = CLAIM_APPROVED, in_referenceId = ''c1''\<rparr>]
     empty_state"

theorem engagement_matches_ledger_witness:
  "length (scores demo_scores) = 1 \<and> row_agrees demo_scores (scores demo_scores ! 0)"
proof -
  have one: "length (scores demo_scores) = 1" by code_simp
  then have "scores demo_scores ! 0 \<in> set (scores demo_scores)" by (intro nth_mem) simp
  with one engagement_matches_ledger show ?thesis unfolding demo_scores_def by blast
qed

text \<open>The streak column after the events of the given days.\<close>

definition streak_after :: "int list \<Rightarrow> int option \<times> int" where
  "streak_after days = foldl (\<lambda>(last, n) d. (Some d, nextStreak last d n)) (None, 0) days"

lemma streak_after_snoc [simp]:
  "streak_after (ds @ [d]) = (Some d, nextStreak (fst (streak_after ds)) d (snd (streak_after ds)))"
  by (simp add: streak_after_def case_prod_beta')

text \<open>
  For events in chronological order the streak is the number of consecutive days up to the last
  event on which there was an event: each of those days has one and the day before them has none.
\<close>

theorem streak_counts_consecutive_days:
  assumes "sorted days" "days \<noteq> []"
  shows "snd (streak_after days) \<ge> 1 \<and> {last days - snd (streak_after days) + 1..last days} \<subseteq> set days \<and>
         last days - snd (streak_after days) \<notin> set days"
proof -
  have "sorted days \<Longrightarrow> days \<noteq> [] \<Longrightarrow> fst (streak_after days) = Some (last days) \<and> snd (streak_after days) \<ge> 1 \<and>
      {last days - snd (streak_after days) + 1..last days} \<subseteq> set days \<and> last days - snd (streak_after days) \<notin> set days"
  proof (induction days rule: rev_induct)
    case (snoc d ds)
    show ?case
    proof (cases "ds = []")
      case True
      then show ?thesis by (simp add: streak_after_def nextStreak_def)
    next
      case False
      let ?n = "snd (streak_after ds)" and ?l = "last ds"
      have sorted: "sorted ds" and le: "\<forall>x\<in>set ds. x \<le> d" using snoc.prems by (auto simp: sorted_append)
      have lm: "\<forall>x\<in>set ds. x \<le> ?l"
        using sorted False sorted_append[of "butlast ds" "[?l]"] by (metis append_butlast_last_id in_set_conv_decomp
            empty_iff empty_set insert_iff list.set(2) order_refl set_append UnE)
      note ih = snoc.IH[OF sorted False]
      have "?l \<le> d" using le False by simp
      then consider "d = ?l" | "d = ?l + 1" | "d > ?l + 1" by linarith
      then show ?thesis
      proof cases
        case 1
        then show ?thesis using ih by (auto simp: nextStreak_def)
      next
        case 2
        then have n: "snd (streak_after (ds @ [d])) = ?n + 1" using ih by (simp add: nextStreak_def)
        have "{d - (?n + 1) + 1..d} \<subseteq> insert d {?l - ?n + 1..?l}" using 2 by auto
        then show ?thesis using ih 2 n by auto
      next
        case 3
        then have n: "snd (streak_after (ds @ [d])) = 1" using ih by (simp add: nextStreak_def)
        show ?thesis using 3 n lm by auto
      qed
    qed
  qed simp
  then show ?thesis using assms by blast
qed

theorem streak_counts_consecutive_days_witness:
  "snd (streak_after [3, 5, 6, 6, 7]) = 3 \<and> {5..7} \<subseteq> set [3, 5, 6, 6, 7::int]"
  using streak_counts_consecutive_days[of "[3, 5, 6, 6, 7]"] by (simp add: streak_after_def nextStreak_def)

end
