(* ===== verification/Marketplace_Outbox.thy ===== *)
theory Marketplace_Outbox
  imports Marketplace_Model
begin

text \<open>
  The marketplace outbox: \<open>marketplace-event-publisher.service.ts\<close> builds the two events inside the
  caller's transaction, \<open>marketplace-outbox-events.repository.ts\<close> keeps them and
  \<open>marketplace-outbox-publisher.service.ts\<close> drains them to the bus. Failed publications stay in the
  outbox (there is no dead-letter subject in this module).
\<close>

section \<open>Recording\<close>

definition SUBJECT_CLAIM_APPROVED :: string where
  "SUBJECT_CLAIM_APPROVED = ''agno.marketplace.claim.approved.v1''"

definition SUBJECT_SWAP_EXECUTED :: string where
  "SUBJECT_SWAP_EXECUTED = ''agno.marketplace.swap.executed.v1''"

definition mp_insertWithinTransaction :: "uuid \<Rightarrow> millis \<Rightarrow> uuid \<Rightarrow> string \<Rightarrow> mp_payload \<Rightarrow> mp_state \<Rightarrow> mp_state" where
  "mp_insertWithinTransaction newId now tenantId subject payload s =
     s\<lparr>outbox := outbox s @
       [\<lparr>ob_id = newId, ob_tenantId = tenantId, ob_subject = subject, ob_payload = payload,
         ob_createdAt = now, ob_publishedAt = None, ob_claimedAt = None, ob_attempts = 0,
         ob_lastError = None\<rparr>]\<rparr>"

definition recordClaimApproved ::
  "uuid \<Rightarrow> millis \<Rightarrow> uuid \<Rightarrow> uuid \<Rightarrow> uuid \<Rightarrow> uuid \<Rightarrow> uuid \<Rightarrow> uuid option \<Rightarrow> claim_source \<Rightarrow> mp_state \<Rightarrow> mp_state" where
  "recordClaimApproved newId now tenantId claimId postId shiftId claimant approvedBy source =
     mp_insertWithinTransaction newId now tenantId SUBJECT_CLAIM_APPROVED
       (ClaimApprovedEvent claimId postId shiftId claimant approvedBy source now)"

definition recordSwapExecuted ::
  "uuid \<Rightarrow> millis \<Rightarrow> uuid \<Rightarrow> uuid \<Rightarrow> uuid \<Rightarrow> uuid \<Rightarrow> uuid \<Rightarrow> uuid \<Rightarrow> uuid option \<Rightarrow> mp_state \<Rightarrow> mp_state" where
  "recordSwapExecuted newId now tenantId swapId initiator initiatorShift target targetShift approvedBy =
     mp_insertWithinTransaction newId now tenantId SUBJECT_SWAP_EXECUTED
       (SwapExecutedEvent swapId initiator initiatorShift target targetShift approvedBy now)"

section \<open>Repository\<close>

definition mp_OUTBOX_CLAIM_LEASE_SECONDS :: int where
  "mp_OUTBOX_CLAIM_LEASE_SECONDS = 60"

definition mp_findUnpublishedBatch ::
  "nat \<Rightarrow> millis \<Rightarrow> mp_payload outbox_event list \<Rightarrow> mp_payload outbox_event list \<times> mp_payload outbox_event list" where
  "mp_findUnpublishedBatch =
     sql_claim_batch ob_id (\<lambda>r. ob_publishedAt r = None) ob_claimedAt ob_createdAt
       (\<lambda>now r. r\<lparr>ob_claimedAt := Some now\<rparr>) mp_OUTBOX_CLAIM_LEASE_SECONDS"

definition mp_markPublished :: "millis \<Rightarrow> uuid \<Rightarrow> mp_payload outbox_event list \<Rightarrow> mp_payload outbox_event list" where
  "mp_markPublished now i = update_where (\<lambda>r. ob_id r = i) (\<lambda>r. r\<lparr>ob_publishedAt := Some now\<rparr>)"

definition mp_recordFailure :: "string \<Rightarrow> uuid \<Rightarrow> mp_payload outbox_event list \<Rightarrow> mp_payload outbox_event list" where
  "mp_recordFailure error i =
     update_where (\<lambda>r. ob_id r = i) (\<lambda>r. r\<lparr>ob_attempts := ob_attempts r + 1, ob_lastError := Some error\<rparr>)"

section \<open>Publisher\<close>

definition mp_BATCH_SIZE :: nat where
  "mp_BATCH_SIZE = 100"

definition mp_message :: "mp_payload outbox_event \<Rightarrow> mp_payload bus_message" where
  \<comment> \<open>the event's own id is the deduplication id of the bus\<close>
  "mp_message ev = \<lparr>msg_subject = ob_subject ev, msg_payload = Original (ob_payload ev), msg_id = ob_id ev\<rparr>"

fun mp_drain_loop ::
  "mp_payload bus \<Rightarrow> millis \<Rightarrow> mp_payload outbox_event list \<Rightarrow>
   mp_payload outbox_event list \<times> mp_payload bus_message list \<Rightarrow>
   mp_payload outbox_event list \<times> mp_payload bus_message list" where
  "mp_drain_loop publish now [] st = st"
| "mp_drain_loop publish now (event # batch) (rows, sent) =
     mp_drain_loop publish now batch
       (case publish (mp_message event) of
          None \<Rightarrow> (mp_markPublished now (ob_id event) rows, sent @ [mp_message event])
        | Some message \<Rightarrow> (mp_recordFailure message (ob_id event) rows, sent))"

definition mp_drain ::
  "mp_payload bus \<Rightarrow> millis \<Rightarrow> mp_payload outbox_event list \<times> mp_payload bus_message list \<Rightarrow>
   mp_payload outbox_event list \<times> mp_payload bus_message list" where
  "mp_drain publish now st =
     (case st of (rows, sent) \<Rightarrow>
        case mp_findUnpublishedBatch mp_BATCH_SIZE now rows of
          (batch, rows') \<Rightarrow> mp_drain_loop publish now batch (rows', sent))"

definition mp_tick ::
  "mp_payload bus \<Rightarrow> millis \<Rightarrow> bool \<Rightarrow> mp_payload outbox_event list \<times> mp_payload bus_message list \<Rightarrow>
   bool \<times> (mp_payload outbox_event list \<times> mp_payload bus_message list)" where
  \<comment> \<open>the re-entrancy flag is cleared by the \<open>finally\<close>\<close>
  "mp_tick publish now ticking st = (if ticking then (ticking, st) else (False, mp_drain publish now st))"

section \<open>The lease\<close>

interpretation mp_outbox: leased_queue
  ob_id "\<lambda>r. ob_publishedAt r = None" ob_claimedAt mp_OUTBOX_CLAIM_LEASE_SECONDS
  mp_findUnpublishedBatch mp_markPublished mp_recordFailure
  unfolding mp_findUnpublishedBatch_def mp_markPublished_def[abs_def] mp_recordFailure_def[abs_def]
  by (rule sql_leased_queue) auto

section \<open>What a drain does to a row\<close>

definition mp_settle :: "mp_payload bus \<Rightarrow> millis \<Rightarrow> mp_payload outbox_event \<Rightarrow> mp_payload outbox_event" where
  "mp_settle publish now r =
     (case publish (mp_message r) of
        None \<Rightarrow> r\<lparr>ob_publishedAt := Some now\<rparr>
      | Some message \<Rightarrow> r\<lparr>ob_attempts := ob_attempts r + 1, ob_lastError := Some message\<rparr>)"

lemma mp_drain_loop_eq:
  "mp_drain_loop publish now evs (rows, sent) =
     (foldl (\<lambda>rows ev. update_where (\<lambda>r. ob_id r = ob_id ev)
        (\<lambda>r. case publish (mp_message ev) of
               None \<Rightarrow> r\<lparr>ob_publishedAt := Some now\<rparr>
             | Some message \<Rightarrow> r\<lparr>ob_attempts := ob_attempts r + 1, ob_lastError := Some message\<rparr>) rows) rows evs,
      sent @ map mp_message (filter (\<lambda>ev. publish (mp_message ev) = None) evs))"
  by (induction evs arbitrary: rows sent)
     (auto simp: mp_markPublished_def mp_recordFailure_def split: option.splits)

lemma mp_drain_settles:
  assumes "distinct (map ob_id rows)"
    and "mp_findUnpublishedBatch mp_BATCH_SIZE now rows = (batch, claimed)"
  shows "mp_drain publish now (rows, sent) =
     (map (\<lambda>r. if ob_id r \<in> ob_id ` set batch then mp_settle publish now r else r) claimed,
      sent @ map mp_message (filter (\<lambda>ev. publish (mp_message ev) = None) batch))"
proof -
  have ids: "map ob_id claimed = map ob_id rows"
    using mp_outbox.batch_ids[of mp_BATCH_SIZE now rows] assms(2) by simp
  have sub: "set batch \<subseteq> set claimed"
    using mp_outbox.batch_rows[of _ mp_BATCH_SIZE now rows] assms(2) by auto
  have "distinct (map ob_id batch)"
    using assms ids by (auto simp: mp_findUnpublishedBatch_def sql_claim_batch_def Let_def distinct_map_filter)
  with assms ids sub show ?thesis
    by (simp add: mp_drain_def mp_drain_loop_eq mp_settle_def
        foldl_update_by_id[where rid = ob_id and upd = "\<lambda>ev r. case publish (mp_message ev) of
               None \<Rightarrow> r\<lparr>ob_publishedAt := Some now\<rparr>
             | Some message \<Rightarrow> r\<lparr>ob_attempts := ob_attempts r + 1, ob_lastError := Some message\<rparr>"]
        split: option.splits)
qed

section \<open>Guarantees\<close>

definition demo_event :: "uuid \<Rightarrow> mp_payload outbox_event" where
  "demo_event i = \<lparr>ob_id = i, ob_tenantId = ''t1'', ob_subject = SUBJECT_CLAIM_APPROVED,
     ob_payload = ClaimApprovedEvent ''c1'' ''p1'' ''sa1'' ''e1'' None SRC_BID 1, ob_createdAt = 1, ob_publishedAt = None,
     ob_claimedAt = None, ob_attempts = 0, ob_lastError = None\<rparr>"

text \<open>
  Two publisher replicas that poll the marketplace outbox within one lease never hold the same
  event, whatever either of them has marked published or failed in between.
\<close>

theorem mp_batches_disjoint:
  assumes "distinct (map ob_id rows)" "mp_findUnpublishedBatch n now rows = (b1, rows1)"
    and "mp_outbox.settles rows1 rows2" "now' \<le> now + mp_OUTBOX_CLAIM_LEASE_SECONDS * 1000"
    and "mp_findUnpublishedBatch m now' rows2 = (b2, rows3)"
  shows "ob_id ` set b1 \<inter> ob_id ` set b2 = {}"
  using mp_outbox.batches_disjoint[OF assms(1), of n now rows2 now' m] assms(2-5) by simp

theorem mp_batches_disjoint_witness:
  "ob_id ` set (fst (mp_findUnpublishedBatch 1 5 [demo_event ''a'', demo_event ''b''])) \<inter>
   ob_id ` set (fst (mp_findUnpublishedBatch 1 6 (snd (mp_findUnpublishedBatch 1 5 [demo_event ''a'', demo_event ''b''])))) = {}"
proof (rule mp_batches_disjoint[OF _ prod.collapse[symmetric] mp_outbox.settles.settles_refl _ prod.collapse[symmetric]])
  show "distinct (map ob_id [demo_event ''a'', demo_event ''b''])" by (simp add: demo_event_def)
  show "6 \<le> 5 + mp_OUTBOX_CLAIM_LEASE_SECONDS * 1000" by (simp add: mp_OUTBOX_CLAIM_LEASE_SECONDS_def)
qed

text \<open>
  One drain sends each event of its batch at most once and loses none: a message is on the bus
  exactly when its row is now marked published, a refused event stays unpublished with one more
  attempt and the bus's error, and every row outside the batch is as it was.
\<close>

theorem mp_drain_sends_once:
  assumes "distinct (map ob_id rows)" "mp_drain publish now (rows, []) = (rows', sent)"
    and "mp_findUnpublishedBatch mp_BATCH_SIZE now rows = (batch, claimed)"
  shows "distinct (map msg_id sent) \<and>
     (\<forall>ev\<in>set batch. if publish (mp_message ev) = None
        then mp_message ev \<in> set sent \<and> ev\<lparr>ob_publishedAt := Some now\<rparr> \<in> set rows'
        else ob_id ev \<notin> msg_id ` set sent \<and>
             ev\<lparr>ob_attempts := ob_attempts ev + 1, ob_lastError := publish (mp_message ev)\<rparr> \<in> set rows') \<and>
     (\<forall>r\<in>set rows. ob_id r \<notin> ob_id ` set batch \<longrightarrow> r \<in> set rows')"
proof -
  note eq = mp_drain_settles[OF assms(1,3), of publish "[]"]
  have rows': "rows' = map (\<lambda>r. if ob_id r \<in> ob_id ` set batch then mp_settle publish now r else r) claimed"
    and sent: "sent = map mp_message (filter (\<lambda>ev. publish (mp_message ev) = None) batch)"
    using eq assms(2) by auto
  have ids: "distinct (map ob_id claimed)"
    using mp_outbox.batch_ids[of mp_BATCH_SIZE now rows] assms(1,3) by simp
  have sub: "ev \<in> set claimed" if "ev \<in> set batch" for ev
    using mp_outbox.batch_rows[of ev mp_BATCH_SIZE now rows] that assms(3) by simp
  have distb: "distinct (map ob_id batch)"
    using assms(3) ids by (auto simp: mp_findUnpublishedBatch_def sql_claim_batch_def Let_def distinct_map_filter)
  have same: "ev = ev'" if "ev \<in> set batch" "ev' \<in> set batch" "ob_id ev = ob_id ev'" for ev ev'
    using distb that by (auto simp: distinct_map inj_on_def)
  have "distinct (map msg_id sent)"
    using distb unfolding sent by (simp add: comp_def mp_message_def distinct_map_filter)
  moreover have "mp_settle publish now ev \<in> set rows'" if "ev \<in> set batch" for ev
    using sub[OF that] that unfolding rows' by force
  moreover have "r \<in> set rows'" if "r \<in> set rows" "ob_id r \<notin> ob_id ` set batch" for r
    using mp_outbox.batch_rest[OF that(1), of mp_BATCH_SIZE now] that assms(3) unfolding rows' by force
  moreover have "ob_id ev \<notin> msg_id ` set sent" if "ev \<in> set batch" "publish (mp_message ev) \<noteq> None" for ev
    using same[OF that(1)] that(2) unfolding sent by (auto simp: mp_message_def)
  ultimately show ?thesis by (fastforce simp: sent mp_settle_def split: option.splits)
qed

theorem mp_drain_sends_once_witness:
  "demo_event ''a''\<lparr>ob_claimedAt := Some 5, ob_publishedAt := Some 5\<rparr> \<in>
     set (fst (mp_drain (\<lambda>_. None) 5 ([demo_event ''a''], [])))"
proof -
  have batch: "mp_findUnpublishedBatch mp_BATCH_SIZE 5 [demo_event ''a''] =
      ([demo_event ''a''\<lparr>ob_claimedAt := Some 5\<rparr>], [demo_event ''a''\<lparr>ob_claimedAt := Some 5\<rparr>])"
    by code_simp
  from mp_drain_sends_once[OF _ _ batch, of "\<lambda>_. None" "fst (mp_drain (\<lambda>_. None) 5 ([demo_event ''a''], []))"
      "snd (mp_drain (\<lambda>_. None) 5 ([demo_event ''a''], []))"]
  show ?thesis by (simp add: demo_event_def)
qed

end
