(* ===== verification/Claim_Open_Shift.thy ===== *)
theory Claim_Open_Shift
  imports Guardrail_Validation Marketplace_Lock Marketplace_Engagement Marketplace_Outbox
begin

text \<open>
  \<open>claim-open-shift.service.ts\<close>: the open-shift claim. \<open>processClaim\<close> is three database transactions
  around the guardrail call; each is a definition of its own here, because other requests may run
  between them. \<open>claim\<close> is the whole request: rate limit, contention lock, \<open>processClaim\<close>, accounting
  of the outcome and the release of the lock.
\<close>

section \<open>What a request brings with it\<close>

text \<open>
  The clock readings, random identifiers and remote answers of one request. \<open>env_clock n\<close> is the
  \<open>n\<close>-th reading of the clock, \<open>env_redis n\<close> tells whether Redis answers the \<open>n\<close>-th command.
\<close>

record request_env =
  env_clock :: "nat \<Rightarrow> millis"
  env_redis :: "nat \<Rightarrow> bool"
  env_lockToken :: string
  env_claimId :: uuid
  env_outboxId :: uuid
  env_ledgerId :: uuid
  env_ledgerId2 :: uuid
  env_rpc :: eligibility_rpc

record mp_config =
  cfg_limiter :: limiter_config
  cfg_engagement :: engagement_config
  cfg_autoApprovalTenantIds :: "uuid list"

section \<open>The transactions of processClaim\<close>

definition claim_read_post :: "uuid \<Rightarrow> uuid \<Rightarrow> mp_state \<Rightarrow> mp_error + post" where
  "claim_read_post tenantId marketplacePostId s =
     (case find_where (is_post tenantId marketplacePostId) (posts s) of
        None \<Rightarrow> Inl (MarketplacePostNotFound marketplacePostId)
      | Some post \<Rightarrow>
          if post_status post \<noteq> OPEN then Inl (PostNotOpen marketplacePostId (post_status post))
          else Inr post)"

definition claim_insert_pending ::
  "uuid \<Rightarrow> millis \<Rightarrow> uuid \<Rightarrow> uuid \<Rightarrow> uuid \<Rightarrow> mp_state \<Rightarrow> mp_error + claim \<times> mp_state" where
  "claim_insert_pending newId now tenantId marketplacePostId claimantEmployeeId s =
     (let claim = \<lparr>claim_id = newId, claim_tenantId = tenantId,
                   claim_marketplacePostId = marketplacePostId,
                   claim_claimantEmployeeId = claimantEmployeeId,
                   claim_status = PENDING_VALIDATION, claim_source = SRC_OPEN_SHIFT_CLAIM,
                   claim_validationResult = None, claim_claimedAt = now,
                   claim_decisionReason = None\<rparr>
      in case insert_claim claim s of
           None \<Rightarrow> Inl (PostAlreadyBeingClaimed marketplacePostId)
         | Some s' \<Rightarrow> Inr (claim, s'))"

definition claim_begin_txn ::
  "uuid \<Rightarrow> millis \<Rightarrow> uuid \<Rightarrow> uuid \<Rightarrow> uuid \<Rightarrow> (mp_state, mp_error, post \<times> claim) txn" where
  "claim_begin_txn newId now marketplacePostId claimantEmployeeId tenantId s =
     (case claim_read_post tenantId marketplacePostId s of
        Inl e \<Rightarrow> Inl e
      | Inr post \<Rightarrow>
          (case claim_insert_pending newId now tenantId marketplacePostId claimantEmployeeId s of
             Inl e \<Rightarrow> Inl e
           | Inr (claim, s') \<Rightarrow> Inr ((post, claim), s')))"

definition set_claim ::
  "uuid \<Rightarrow> uuid \<Rightarrow> claim_status \<Rightarrow> validation_result \<Rightarrow> mp_state \<Rightarrow> mp_state" where
  \<comment> \<open>\<open>manager.save(claim)\<close> after its status and validation result were assigned\<close>
  "set_claim tenantId cid st vr s =
     s\<lparr>claims := update_where (is_claim tenantId cid)
        (\<lambda>c. c\<lparr>claim_status := st, claim_validationResult := Some vr\<rparr>) (claims s)\<rparr>"

definition set_post_status :: "uuid \<Rightarrow> uuid \<Rightarrow> post_status \<Rightarrow> mp_state \<Rightarrow> mp_state" where
  "set_post_status tenantId pid st s =
     s\<lparr>posts := update_where (is_post tenantId pid) (\<lambda>p. p\<lparr>post_status := st\<rparr>) (posts s)\<rparr>"

definition claim_fail_txn :: "uuid \<Rightarrow> uuid \<Rightarrow> (mp_state, mp_error, unit) txn" where
  \<comment> \<open>the guardrail call failed: the claim is rejected with a transient reason\<close>
  "claim_fail_txn cid tenantId s =
     (case find_where (is_claim tenantId cid) (claims s) of
        None \<Rightarrow> Inl EntityNotFound
      | Some _ \<Rightarrow> Inr ((), set_claim tenantId cid REJECTED
                           (VR_Reason False ''guardrail_validation_unavailable'') s))"

definition claim_post_if_open :: "uuid \<Rightarrow> uuid \<Rightarrow> mp_state \<Rightarrow> post list \<times> mp_state" where
  \<comment> \<open>\<open>UPDATE marketplace_post SET status = 'claimed' WHERE id, tenant_id AND status = 'open' RETURNING id\<close>\<close>
  "claim_post_if_open tenantId pid s =
     (let hit = (\<lambda>p. is_post tenantId pid p \<and> post_status p = OPEN)
      in (filter hit (posts s), s\<lparr>posts := update_where hit (\<lambda>p. p\<lparr>post_status := CLAIMED\<rparr>) (posts s)\<rparr>))"

definition claim_finalize_txn ::
  "bool \<Rightarrow> uuid \<Rightarrow> millis \<Rightarrow> eligibility_outcome \<Rightarrow> uuid \<Rightarrow> uuid \<Rightarrow> uuid \<Rightarrow>
   (mp_state, mp_error, post \<times> claim) txn" where
  "claim_finalize_txn autoApproved outboxId now validation pid cid tenantId s =
     (case find_where (is_claim tenantId cid) (claims s) of
        None \<Rightarrow> Inl EntityNotFound
      | Some finalClaim \<Rightarrow>
     (case find_where (is_post tenantId pid) (posts s) of
        None \<Rightarrow> Inl EntityNotFound
      | Some finalPost \<Rightarrow>
     (if \<not> shiftAssignmentFound validation then
        (let vr = VR_Reason False ''stale_post'' in
         Inr ((finalPost\<lparr>post_status := EXPIRED\<rparr>,
               finalClaim\<lparr>claim_status := REJECTED, claim_validationResult := Some vr\<rparr>),
              set_post_status tenantId pid EXPIRED (set_claim tenantId cid REJECTED vr s)))
      else if \<not> eligible validation then
        (let vr = VR_Violations False (violations validation) in
         Inr ((finalPost, finalClaim\<lparr>claim_status := REJECTED, claim_validationResult := Some vr\<rparr>),
              set_claim tenantId cid REJECTED vr s))
      else
        (case claim_post_if_open tenantId pid s of (claimedRows, s1) \<Rightarrow>
           if claimedRows = [] then
             (let vr = VR_Reason False ''post_no_longer_open'' in
              Inr ((finalPost, finalClaim\<lparr>claim_status := REJECTED, claim_validationResult := Some vr\<rparr>),
                   set_claim tenantId cid REJECTED vr s1))
           else
             (let st = (if autoApproved then APPROVED else PENDING_APPROVAL);
                  vr = VR_Violations True [];
                  s2 = set_claim tenantId cid st vr s1;
                  s3 = (if st = APPROVED
                        then recordClaimApproved outboxId now tenantId (claim_id finalClaim) (post_id finalPost)
                               (post_shiftAssignmentId finalPost) (claim_claimantEmployeeId finalClaim)
                               None SRC_OPEN_SHIFT_CLAIM s2
                        else s2)
              in Inr ((finalPost\<lparr>post_status := CLAIMED\<rparr>,
                       finalClaim\<lparr>claim_status := st, claim_validationResult := Some vr\<rparr>), s3))))))"

section \<open>The request\<close>

definition publishPostUpdated :: "post \<Rightarrow> mp_state \<Rightarrow> mp_state" where
  "publishPostUpdated p s = s\<lparr>pushes := pushes s @ [p]\<rparr>"

definition claim_aftermath :: "mp_config \<Rightarrow> request_env \<Rightarrow> uuid \<Rightarrow> post \<Rightarrow> claim \<Rightarrow> mp_state \<Rightarrow> mp_state" where
  "claim_aftermath cfg env tenantId finalPost finalClaim s =
     (let s1 = (if post_status finalPost \<noteq> OPEN then publishPostUpdated finalPost s else s)
      in if claim_status finalClaim = APPROVED
         then recordEvent (cfg_engagement cfg) (env_clock env 4) (env_ledgerId env)
                \<lparr>in_tenantId = tenantId, in_employeeId = claim_claimantEmployeeId finalClaim,
                 in_eventType = CLAIM_APPROVED, in_referenceId = claim_id finalClaim\<rparr> s1
         else s1)"

definition processClaim ::
  "mp_config \<Rightarrow> request_env \<Rightarrow> uuid \<Rightarrow> uuid \<Rightarrow> uuid \<Rightarrow> (mp_state, mp_error, post \<times> claim) svc" where
  "processClaim cfg env tenantId marketplacePostId claimantEmployeeId s =
     (case withTenantConnection tenantId
             (claim_begin_txn (env_claimId env) (env_clock env 2) marketplacePostId claimantEmployeeId) s of
        (Inl e, s1) \<Rightarrow> (Inl e, s1)
      | (Inr (post, claim), s1) \<Rightarrow>
     (case checkEligibility (env_rpc env) tenantId claimantEmployeeId
             (post_shiftAssignmentId post) (post_orgUnitId post) None of
        Inl err \<Rightarrow>
          (case withTenantConnection tenantId (claim_fail_txn (claim_id claim)) s1 of
             (Inl e, s2) \<Rightarrow> (Inl e, s2)
           | (Inr _, s2) \<Rightarrow> (Inl err, s2))
      | Inr validation \<Rightarrow>
          (case withTenantConnection tenantId
                  (claim_finalize_txn (isAutoApprovalEnabled (cfg_autoApprovalTenantIds cfg) tenantId)
                     (env_outboxId env) (env_clock env 3) validation marketplacePostId (claim_id claim)) s1 of
             (Inl e, s2) \<Rightarrow> (Inl e, s2)
           | (Inr (finalPost, finalClaim), s2) \<Rightarrow>
               (Inr (finalPost, finalClaim), claim_aftermath cfg env tenantId finalPost finalClaim s2))))"

definition claim_status_label :: "claim_status \<Rightarrow> string" where
  "claim_status_label st =
     (case st of PENDING_VALIDATION \<Rightarrow> ''pending_validation'' | PENDING_APPROVAL \<Rightarrow> ''pending_approval''
      | APPROVED \<Rightarrow> ''approved'' | REJECTED \<Rightarrow> ''rejected'' | SUPERSEDED \<Rightarrow> ''superseded'')"

definition count_attempt :: "string \<Rightarrow> mp_state \<Rightarrow> mp_state" where
  "count_attempt label s = s\<lparr>claimAttempts := claimAttempts s @ [label]\<rparr>"

definition claim_account_error ::
  "mp_config \<Rightarrow> request_env \<Rightarrow> uuid \<Rightarrow> uuid \<Rightarrow> mp_error \<Rightarrow> mp_state \<Rightarrow> mp_state" where
  \<comment> \<open>the \<open>catch\<close> of \<open>claim\<close>: outcomes the caller is answerable for count against the rate limit\<close>
  "claim_account_error cfg env tenantId employeeId err s =
     (case err of
        MarketplacePostNotFound _ \<Rightarrow>
          count_attempt ''post_not_found'' (recordFailedAttempt (cfg_limiter cfg) (env_clock env 5) tenantId employeeId s)
      | PostNotOpen _ _ \<Rightarrow>
          count_attempt ''post_not_open'' (recordFailedAttempt (cfg_limiter cfg) (env_clock env 5) tenantId employeeId s)
      | PostAlreadyBeingClaimed _ \<Rightarrow>
          count_attempt ''lock_lost'' (recordFailedAttempt (cfg_limiter cfg) (env_clock env 5) tenantId employeeId s)
      | _ \<Rightarrow> count_attempt ''infra_unavailable'' s)"

definition claim_under_lock ::
  "mp_config \<Rightarrow> request_env \<Rightarrow> uuid \<Rightarrow> uuid \<Rightarrow> uuid \<Rightarrow> (mp_state, mp_error, post \<times> claim) svc" where
  \<comment> \<open>the \<open>try ... catch ... finally\<close> that runs once the lock is held\<close>
  "claim_under_lock cfg env tenantId marketplacePostId claimantEmployeeId s =
     (case processClaim cfg env tenantId marketplacePostId claimantEmployeeId s of
        (Inl err, s1) \<Rightarrow> (Inl err, claim_account_error cfg env tenantId claimantEmployeeId err s1)
      | (Inr (post, claim), s1) \<Rightarrow>
          (Inr (post, claim),
           if claim_status claim = REJECTED
           then count_attempt ''rejected''
                  (recordFailedAttempt (cfg_limiter cfg) (env_clock env 5) tenantId claimantEmployeeId s1)
           else count_attempt (claim_status_label (claim_status claim)) s1))"

definition claim ::
  "mp_config \<Rightarrow> request_env \<Rightarrow> uuid \<Rightarrow> uuid \<Rightarrow> uuid \<Rightarrow> (mp_state, mp_error, post \<times> claim) svc" where
  "claim cfg env tenantId marketplacePostId claimantEmployeeId s =
     (case assertNotRateLimited (cfg_limiter cfg) (env_clock env 0) tenantId claimantEmployeeId s of
        (Inl err, s1) \<Rightarrow> (Inl err, count_attempt ''rate_limited'' s1)
      | (Inr _, s1) \<Rightarrow>
     (case acquireClaimLock (env_redis env 0) (env_lockToken env) (env_clock env 1) tenantId marketplacePostId
             CONTENTION_LOCK_TTL_SECONDS s1 of
        (Inl _, s2) \<Rightarrow> (Inl MarketplaceUnavailable, count_attempt ''infra_unavailable'' s2)
      | (Inr None, s2) \<Rightarrow>
          (Inl (PostAlreadyBeingClaimed marketplacePostId),
           count_attempt ''lock_lost''
             (recordFailedAttempt (cfg_limiter cfg) (env_clock env 2) tenantId claimantEmployeeId s2))
      | (Inr (Some lockToken), s2) \<Rightarrow>
          (case claim_under_lock cfg env tenantId marketplacePostId claimantEmployeeId s2 of
             (r, s3) \<Rightarrow> (r, releaseClaimLock (env_redis env 1) (env_clock env 6) tenantId marketplacePostId lockToken s3))))"

end
