(* ===== verification/Bid_Service.thy ===== *)
theory Bid_Service
  imports Bid_Ranking Claim_Open_Shift
begin

text \<open>
  \<open>bid.service.ts\<close>, \<open>bid-opportunity.service.ts\<close> and \<open>bid-close-sweep.service.ts\<close>: bids are collected
  while the window is open, ranked once when it has closed, and the winner is turned into a claim
  on the post under the same lock and the same unique index as an open-shift claim.
\<close>

section \<open>Opportunities\<close>

definition openBidOpportunity ::
  "uuid \<Rightarrow> uuid \<Rightarrow> uuid \<Rightarrow> millis \<Rightarrow> millis \<Rightarrow> ranking_method \<Rightarrow> (mp_state, mp_error, opportunity) svc" where
  \<comment> \<open>the table checks \<open>bidding_window_end > bidding_window_start\<close>\<close>
  "openBidOpportunity newId tenantId marketplacePostId windowStart windowEnd method =
     withTenantConnection tenantId (\<lambda>t s.
       let opportunity = \<lparr>opp_id = newId, opp_tenantId = t, opp_marketplacePostId = marketplacePostId,
             opp_biddingWindowStart = windowStart, opp_biddingWindowEnd = windowEnd,
             opp_rankingMethod = method\<rparr>
       in if windowEnd > windowStart
          then Inr (opportunity, s\<lparr>opportunities := opportunities s @ [opportunity]\<rparr>)
          else Inl (InfraError ''check_violation''))"

section \<open>Submitting a bid\<close>

definition numeric_10_4 :: "rat \<Rightarrow> rat option" where
  \<comment> \<open>what a \<open>numeric(10,4)\<close> column stores; \<open>None\<close> is a field overflow\<close>
  "numeric_10_4 x = (let v = round_fixed 4 x in if \<bar>v\<bar> < 1000000 then Some v else None)"

definition submit_read :: "uuid \<Rightarrow> uuid \<Rightarrow> mp_state \<Rightarrow> mp_error + opportunity \<times> post" where
  "submit_read tenantId bidOpportunityId s =
     (case find_where (is_opp tenantId bidOpportunityId) (opportunities s) of
        None \<Rightarrow> Inl (BidOpportunityNotFound bidOpportunityId)
      | Some opportunity \<Rightarrow>
          (case find_where (is_post tenantId (opp_marketplacePostId opportunity)) (posts s) of
             None \<Rightarrow> Inl EntityNotFound
           | Some post \<Rightarrow> Inr (opportunity, post)))"

definition submit_window :: "millis \<Rightarrow> opportunity \<Rightarrow> rat option \<Rightarrow> mp_error option" where
  "submit_window now opportunity preferenceScore =
     (if now < opp_biddingWindowStart opportunity
      then Some (BiddingWindowNotOpen (opp_id opportunity) ''not_yet_open'')
      else if now > opp_biddingWindowEnd opportunity
      then Some (BiddingWindowNotOpen (opp_id opportunity) ''closed'')
      else if opp_rankingMethod opportunity = PREFERENCE_SCORE \<and> preferenceScore = None
      then Some (PreferenceScoreRequired (opp_id opportunity))
      else None)"

definition submit_insert_txn ::
  "uuid \<Rightarrow> millis \<Rightarrow> opportunity \<Rightarrow> uuid \<Rightarrow> rat option \<Rightarrow> uuid \<Rightarrow> (mp_state, mp_error, bid) txn" where
  "submit_insert_txn newId now opportunity employeeId preferenceScore tenantId s =
     (let stored = (case (opp_rankingMethod opportunity, preferenceScore) of
                      (PREFERENCE_SCORE, Some x) \<Rightarrow> (case numeric_10_4 x of None \<Rightarrow> None | Some v \<Rightarrow> Some (Some v))
                    | _ \<Rightarrow> Some None)
      in case stored of
           None \<Rightarrow> Inl (InfraError ''numeric_value_out_of_range'')
         | Some score \<Rightarrow>
             (if \<exists>b\<in>set (bids s). bid_bidOpportunityId b = opp_id opportunity \<and> bid_employeeId b = employeeId
              then Inl (AlreadyBid (opp_id opportunity))
              else let bid = \<lparr>bid_id = newId, bid_tenantId = tenantId,
                              bid_bidOpportunityId = opp_id opportunity, bid_employeeId = employeeId,
                              bid_rankScore = score, bid_rankPosition = None,
                              bid_rankExplanation = None, bid_submittedAt = now\<rparr>
                   in Inr (bid, s\<lparr>bids := bids s @ [bid]\<rparr>)))"

definition submitBid ::
  "eligibility_rpc \<Rightarrow> (nat \<Rightarrow> millis) \<Rightarrow> uuid \<Rightarrow> uuid \<Rightarrow> uuid \<Rightarrow> uuid \<Rightarrow> rat option \<Rightarrow> (mp_state, mp_error, bid) svc" where
  "submitBid rpc clock newId tenantId bidOpportunityId employeeId preferenceScore s =
     (case submit_read tenantId bidOpportunityId s of
        Inl e \<Rightarrow> (Inl e, s)
      | Inr (opportunity, post) \<Rightarrow>
     (case submit_window (clock 0) opportunity preferenceScore of
        Some e \<Rightarrow> (Inl e, s)
      | None \<Rightarrow>
     (case checkEligibility rpc tenantId employeeId (post_shiftAssignmentId post) (post_orgUnitId post) None of
        Inl e \<Rightarrow> (Inl e, s)
      | Inr eligibility \<Rightarrow>
          if \<not> shiftAssignmentFound eligibility \<or> \<not> eligible eligibility
          then (Inl (BidderNotEligible bidOpportunityId), s)
          else withTenantConnection tenantId
                 (submit_insert_txn newId (clock 1) opportunity employeeId preferenceScore) s)))"

section \<open>Turning the winner into a claim\<close>

definition bid_claim_row :: "uuid \<Rightarrow> millis \<Rightarrow> uuid \<Rightarrow> uuid \<Rightarrow> uuid \<Rightarrow> bool \<Rightarrow> claim" where
  "bid_claim_row newId now tenantId pid employeeId autoApproved =
     \<lparr>claim_id = newId, claim_tenantId = tenantId, claim_marketplacePostId = pid,
      claim_claimantEmployeeId = employeeId,
      claim_status = (if autoApproved then APPROVED else PENDING_APPROVAL),
      claim_source = SRC_BID, claim_validationResult = Some (VR_Violations True []),
      claim_claimedAt = now, claim_decisionReason = None\<rparr>"

definition convert_txn ::
  "bool \<Rightarrow> uuid \<Rightarrow> uuid \<Rightarrow> millis \<Rightarrow> post \<Rightarrow> uuid \<Rightarrow> uuid \<Rightarrow> (mp_state, mp_error, claim option) txn" where
  "convert_txn autoApproved newId outboxId now post employeeId tenantId s =
     (let c = bid_claim_row newId now tenantId (post_id post) employeeId autoApproved
      in case insert_claim c s of
           None \<Rightarrow> Inr (None, s)
         | Some s1 \<Rightarrow>
             (case claim_post_if_open tenantId (post_id post) s1 of (claimedRows, s2) \<Rightarrow>
                if claimedRows = []
                then Inr (None, s2\<lparr>claims := delete_where (\<lambda>d. claim_id d = newId) (claims s2)\<rparr>)
                else Inr (Some c,
                       if claim_status c = APPROVED
                       then recordClaimApproved outboxId now tenantId (claim_id c) (post_id post)
                              (post_shiftAssignmentId post) (claim_claimantEmployeeId c) None SRC_BID s2
                       else s2)))"

definition convert_under_lock :: "mp_config \<Rightarrow> request_env \<Rightarrow> uuid \<Rightarrow> opportunity \<Rightarrow> bid \<Rightarrow> mp_state \<Rightarrow> mp_state" where
  "convert_under_lock cfg env tenantId opportunity winner s =
     (case find_where (is_post tenantId (opp_marketplacePostId opportunity)) (posts s) of
        None \<Rightarrow> s
      | Some post \<Rightarrow>
          if post_status post \<noteq> OPEN then s
          else (case checkEligibility (env_rpc env) tenantId (bid_employeeId winner)
                       (post_shiftAssignmentId post) (post_orgUnitId post) None of
                  Inl _ \<Rightarrow> s
                | Inr validation \<Rightarrow>
                    if \<not> shiftAssignmentFound validation \<or> \<not> eligible validation then s
                    else (case withTenantConnection tenantId
                                 (convert_txn (isAutoApprovalEnabled (cfg_autoApprovalTenantIds cfg) tenantId)
                                    (env_claimId env) (env_outboxId env) (env_clock env 3) post
                                    (bid_employeeId winner)) s of
                            (Inr (Some c), s1) \<Rightarrow>
                              (let s2 = publishPostUpdated (post\<lparr>post_status := CLAIMED\<rparr>) s1
                               in if claim_status c = APPROVED
                                  then recordEvent (cfg_engagement cfg) (env_clock env 4) (env_ledgerId env)
                                         \<lparr>in_tenantId = tenantId, in_employeeId = claim_claimantEmployeeId c,
                                          in_eventType = CLAIM_APPROVED, in_referenceId = claim_id c\<rparr> s2
                                  else s2)
                          | (_, s1) \<Rightarrow> s1)))"

definition convertWinningBidToClaim :: "mp_config \<Rightarrow> request_env \<Rightarrow> uuid \<Rightarrow> opportunity \<Rightarrow> bid \<Rightarrow> mp_state \<Rightarrow> mp_state" where
  "convertWinningBidToClaim cfg env tenantId opportunity winner s =
     (case acquireClaimLock (env_redis env 0) (env_lockToken env) (env_clock env 1) tenantId
             (opp_marketplacePostId opportunity) CONTENTION_LOCK_TTL_SECONDS s of
        (Inl _, s1) \<Rightarrow> s1
      | (Inr None, s1) \<Rightarrow> s1
      | (Inr (Some lockToken), s1) \<Rightarrow>
          releaseClaimLock (env_redis env 1) (env_clock env 6) tenantId (opp_marketplacePostId opportunity)
            lockToken (convert_under_lock cfg env tenantId opportunity winner s1))"

section \<open>Closing an opportunity\<close>

definition rankable :: "bid \<Rightarrow> rankable_bid" where
  "rankable b = \<lparr>rb_id = bid_id b, rb_employeeId = bid_employeeId b,
                 rb_submittedAt = bid_submittedAt b, rb_rankScore = bid_rankScore b\<rparr>"

definition bids_of :: "uuid \<Rightarrow> uuid \<Rightarrow> mp_state \<Rightarrow> bid list" where
  "bids_of tenantId oid s = filter (\<lambda>b. bid_bidOpportunityId b = oid \<and> bid_tenantId b = tenantId) (bids s)"

definition apply_rankings :: "ranked_bid list \<Rightarrow> bid list \<Rightarrow> bid list" where
  \<comment> \<open>the loop over the bids with the \<open>rankedById\<close> map; an unranked bid is skipped\<close>
  "apply_rankings ranked bs =
     concat (map (\<lambda>b. case map_of (rev (map (\<lambda>r. (rk_id r, r)) ranked)) (bid_id b) of
                        None \<Rightarrow> []
                      | Some r \<Rightarrow> [b\<lparr>bid_rankScore := rk_rankScore r, bid_rankPosition := Some (rk_rankPosition r),
                                     bid_rankExplanation := Some (rk_rankExplanation r)\<rparr>]) bs)"

definition save_bids :: "bid list \<Rightarrow> mp_state \<Rightarrow> mp_state" where
  "save_bids saved s =
     s\<lparr>bids := map (\<lambda>row. case find_where (\<lambda>b. bid_id b = bid_id row) saved of None \<Rightarrow> row | Some b \<Rightarrow> b) (bids s)\<rparr>"

definition close_hire_dates ::
  "(uuid \<Rightarrow> uuid \<Rightarrow> mp_error + (uuid \<times> millis) list) \<Rightarrow> uuid \<Rightarrow> opportunity \<Rightarrow> mp_state \<Rightarrow>
   mp_error + (uuid \<times> millis) list option" where
  \<comment> \<open>\<open>roster\<close>: the remote \<open>getSchedulableRoster\<close>, as (employee, hire date) pairs\<close>
  "close_hire_dates roster tenantId opportunity s =
     (if opp_rankingMethod opportunity = SENIORITY then
        (case find_where (is_post tenantId (opp_marketplacePostId opportunity)) (posts s) of
           None \<Rightarrow> Inl EntityNotFound
         | Some post \<Rightarrow> (case roster tenantId (post_orgUnitId post) of
                           Inl e \<Rightarrow> Inl e
                         | Inr pairs \<Rightarrow> Inr (Some pairs)))
      else Inr None)"

definition closeBidOpportunity ::
  "mp_config \<Rightarrow> request_env \<Rightarrow> (uuid \<Rightarrow> uuid \<Rightarrow> mp_error + (uuid \<times> millis) list) \<Rightarrow> uuid \<Rightarrow> uuid \<Rightarrow>
   (mp_state, mp_error, bid list) svc" where
  "closeBidOpportunity cfg env roster tenantId bidOpportunityId s =
     (case find_where (is_opp tenantId bidOpportunityId) (opportunities s) of
        None \<Rightarrow> (Inl (BidOpportunityNotFound bidOpportunityId), s)
      | Some opportunity \<Rightarrow>
     (let bs = bids_of tenantId bidOpportunityId s in
      if \<exists>b\<in>set bs. bid_rankPosition b \<noteq> None then (Inl (BidOpportunityAlreadyClosed bidOpportunityId), s)
      else if bs = [] then (Inr [], s)
      else (case close_hire_dates roster tenantId opportunity s of
              Inl e \<Rightarrow> (Inl e, s)
            | Inr hires \<Rightarrow>
                (let ranked = computeRankings (opp_rankingMethod opportunity) (map rankable bs) (env_clock env 0) hires;
                     saved = apply_rankings ranked bs;
                     s1 = save_bids saved s
                 in (Inr saved,
                     case find_where (\<lambda>b. bid_rankPosition b = Some 1) saved of
                       None \<Rightarrow> s1
                     | Some winner \<Rightarrow> convertWinningBidToClaim cfg env tenantId opportunity winner s1)))))"

section \<open>The sweep\<close>

definition sweep_candidates :: "millis \<Rightarrow> mp_state \<Rightarrow> (uuid \<times> uuid) list" where
  "sweep_candidates now s =
     remdups (map (\<lambda>bo. (opp_tenantId bo, opp_id bo))
       (filter (\<lambda>bo. opp_biddingWindowEnd bo < now \<and>
                  (\<exists>b\<in>set (bids s). bid_bidOpportunityId b = opp_id bo \<and> bid_rankPosition b = None))
          (opportunities s)))"

fun sweep_close ::
  "mp_config \<Rightarrow> (nat \<Rightarrow> request_env) \<Rightarrow> (uuid \<Rightarrow> uuid \<Rightarrow> mp_error + (uuid \<times> millis) list) \<Rightarrow> nat \<Rightarrow>
   (uuid \<times> uuid) list \<Rightarrow> mp_state \<Rightarrow> bool list \<times> mp_state" where
  \<comment> \<open>one flag per candidate: closed or failed\<close>
  "sweep_close cfg env roster n [] s = ([], s)"
| "sweep_close cfg env roster n ((tenantId, oid) # rest) s =
     (case closeBidOpportunity cfg (env n) roster tenantId oid s of
        (r, s1) \<Rightarrow> (case sweep_close cfg env roster (n + 1) rest s1 of
                      (flags, s2) \<Rightarrow> ((case r of Inr _ \<Rightarrow> True | Inl _ \<Rightarrow> False) # flags, s2)))"

definition sweepTick ::
  "mp_config \<Rightarrow> (nat \<Rightarrow> request_env) \<Rightarrow> (uuid \<Rightarrow> uuid \<Rightarrow> mp_error + (uuid \<times> millis) list) \<Rightarrow> bool \<Rightarrow> millis \<Rightarrow>
   mp_state \<Rightarrow> bool list \<times> mp_state" where
  "sweepTick cfg env roster queryOk now s =
     (if queryOk then sweep_close cfg env roster 0 (sweep_candidates now s) s else ([], s))"

end
