(* ===== verification/Swap_Request.thy ===== *)
theory Swap_Request
  imports Claim_Open_Shift
begin

text \<open>
  \<open>swap-request.service.ts\<close>: the peer-to-peer swap. Accepting is three steps that other requests may
  interleave with: the target is resolved by a guarded update, both directions of the trade are
  checked, and the decision is written by an update guarded with \<open>status = 'pending'\<close>.
\<close>

section \<open>Proposing\<close>

record propose_input =
  ps_tenantId :: uuid
  ps_initiatorEmployeeId :: uuid
  ps_initiatorShiftId :: uuid
  ps_initiatorOrgUnitId :: uuid
  ps_targetEmployeeId :: "uuid option"
  ps_targetShiftId :: "uuid option"
  ps_targetOrgUnitId :: "uuid option"

definition proposeSwap :: "uuid \<Rightarrow> millis \<Rightarrow> propose_input \<Rightarrow> (mp_state, mp_error, swap) svc" where
  \<comment> \<open>the table checks that target employee and target shift are null together\<close>
  "proposeSwap newId now inp =
     withTenantConnection (ps_tenantId inp) (\<lambda>tenantId s.
       let swap = \<lparr>swap_id = newId, swap_tenantId = tenantId,
                   swap_initiatorEmployeeId = ps_initiatorEmployeeId inp,
                   swap_initiatorShiftId = ps_initiatorShiftId inp,
                   swap_initiatorOrgUnitId = ps_initiatorOrgUnitId inp,
                   swap_targetEmployeeId = ps_targetEmployeeId inp,
                   swap_targetShiftId = ps_targetShiftId inp,
                   swap_targetOrgUnitId = ps_targetOrgUnitId inp,
                   swap_status = SW_PENDING, swap_requiresSupervisorApproval = True,
                   swap_validationResult = None, swap_createdAt = now, swap_decisionReason = None\<rparr>
       in if (ps_targetEmployeeId inp = None) = (ps_targetShiftId inp = None)
          then Inr (swap, s\<lparr>swaps := swaps s @ [swap]\<rparr>)
          else Inl (InfraError ''check_violation''))"

section \<open>Responding\<close>

record respond_input =
  rs_tenantId :: uuid
  rs_swapRequestId :: uuid
  rs_respondingEmployeeId :: uuid
  rs_accept :: bool
  rs_offeredShiftId :: "uuid option"
  rs_offeredOrgUnitId :: "uuid option"

definition set_swap_status :: "uuid \<Rightarrow> uuid \<Rightarrow> swap_status \<Rightarrow> mp_state \<Rightarrow> mp_state" where
  "set_swap_status tenantId sid st s =
     s\<lparr>swaps := update_where (is_swap tenantId sid) (\<lambda>w. w\<lparr>swap_status := st\<rparr>) (swaps s)\<rparr>"

definition reject_txn :: "uuid \<Rightarrow> uuid \<Rightarrow> uuid \<Rightarrow> (mp_state, mp_error, swap) txn" where
  "reject_txn swapRequestId respondingEmployeeId tenantId s =
     (case find_where (is_swap tenantId swapRequestId) (swaps s) of
        None \<Rightarrow> Inl (SwapRequestNotFound swapRequestId)
      | Some swap \<Rightarrow>
          if swap_status swap \<noteq> SW_PENDING then Inl (SwapRequestNotPending swapRequestId (swap_status swap))
          else if swap_targetEmployeeId swap = None \<or> swap_targetEmployeeId swap \<noteq> Some respondingEmployeeId
          then Inl (NotYourSwapToRespondTo swapRequestId)
          else Inr (swap\<lparr>swap_status := SW_REJECTED\<rparr>, set_swap_status tenantId swapRequestId SW_REJECTED s))"

definition resolve_txn :: "respond_input \<Rightarrow> uuid \<Rightarrow> (mp_state, mp_error, swap) txn" where
  "resolve_txn inp tenantId s =
     (let sid = rs_swapRequestId inp; responder = rs_respondingEmployeeId inp in
      case find_where (is_swap tenantId sid) (swaps s) of
        None \<Rightarrow> Inl (SwapRequestNotFound sid)
      | Some swap \<Rightarrow>
          if swap_status swap \<noteq> SW_PENDING then Inl (SwapRequestNotPending sid (swap_status swap))
          else if swap_targetEmployeeId swap \<noteq> None \<and> swap_targetEmployeeId swap \<noteq> Some responder
          then Inl (NotYourSwapToRespondTo sid)
          else
            (let targetShiftId = nullish_or (swap_targetShiftId swap) (rs_offeredShiftId inp);
                 targetOrgUnitId = nullish_or (swap_targetOrgUnitId swap) (rs_offeredOrgUnitId inp);
                 hit = (\<lambda>w. is_swap tenantId sid w \<and> swap_status w = SW_PENDING \<and>
                            (swap_targetEmployeeId w = None \<or> swap_targetEmployeeId w = Some responder));
                 upd = (\<lambda>w. w\<lparr>swap_targetEmployeeId := Some responder, swap_targetShiftId := targetShiftId,
                              swap_targetOrgUnitId := targetOrgUnitId\<rparr>)
             in if \<not> truthy_str targetShiftId \<or> \<not> truthy_str targetOrgUnitId
                then Inl (SwapOfferedShiftRequired sid)
                else if filter hit (swaps s) = [] then Inl (SwapAlreadyBeingRespondedTo sid)
                else Inr (upd swap, s\<lparr>swaps := update_where hit upd (swaps s)\<rparr>)))"

definition swap_fail_txn :: "uuid \<Rightarrow> uuid \<Rightarrow> (mp_state, mp_error, unit) txn" where
  \<comment> \<open>a guardrail call failed: the row is rejected whatever its status is by now\<close>
  "swap_fail_txn sid tenantId s =
     (case find_where (is_swap tenantId sid) (swaps s) of
        None \<Rightarrow> Inl EntityNotFound
      | Some _ \<Rightarrow>
          Inr ((), s\<lparr>swaps := update_where (is_swap tenantId sid)
             (\<lambda>w. w\<lparr>swap_status := SW_REJECTED,
                    swap_validationResult := Some (VR_Reason False ''guardrail_validation_unavailable'')\<rparr>) (swaps s)\<rparr>))"

definition stale_shift :: "string \<Rightarrow> violation list" where
  "stale_shift d = [\<lparr>category = ''stale_shift'', detail = d\<rparr>]"

definition swap_verdict :: "eligibility_outcome \<Rightarrow> eligibility_outcome \<Rightarrow> bool" where
  "swap_verdict initiatorSide responderSide \<longleftrightarrow>
     shiftAssignmentFound initiatorSide \<and> eligible initiatorSide \<and>
     shiftAssignmentFound responderSide \<and> eligible responderSide"

definition decide_txn ::
  "bool \<Rightarrow> uuid \<Rightarrow> millis \<Rightarrow> eligibility_outcome \<Rightarrow> eligibility_outcome \<Rightarrow> uuid \<Rightarrow> uuid \<Rightarrow>
   (mp_state, mp_error, swap) txn" where
  "decide_txn autoPolicy outboxId now initiatorSide responderSide sid tenantId s =
     (case find_where (is_swap tenantId sid) (swaps s) of
        None \<Rightarrow> Inl EntityNotFound
      | Some finalSwap \<Rightarrow>
          (let ok = swap_verdict initiatorSide responderSide;
               autoApproved = (ok \<and> (autoPolicy \<or> \<not> swap_requiresSupervisorApproval finalSwap));
               nextStatus = (if \<not> ok then SW_REJECTED else if autoApproved then SW_ACCEPTED else SW_PENDING_APPROVAL);
               vr = VR_Swap ok
                 (if shiftAssignmentFound initiatorSide then violations initiatorSide
                  else stale_shift ''the target shift no longer resolves'')
                 (if shiftAssignmentFound responderSide then violations responderSide
                  else stale_shift ''the initiator shift no longer resolves'');
               hit = (\<lambda>w. is_swap tenantId sid w \<and> swap_status w = SW_PENDING);
               upd = (\<lambda>w. w\<lparr>swap_status := nextStatus, swap_validationResult := Some vr\<rparr>);
               s1 = s\<lparr>swaps := update_where hit upd (swaps s)\<rparr>
           in if filter hit (swaps s) = [] then Inl (SwapAlreadyBeingRespondedTo sid)
              else Inr (upd finalSwap,
                     if nextStatus = SW_ACCEPTED
                     then recordSwapExecuted outboxId now tenantId (swap_id finalSwap)
                            (swap_initiatorEmployeeId finalSwap) (swap_initiatorShiftId finalSwap)
                            (the_default (swap_targetEmployeeId finalSwap) [])
                            (the_default (swap_targetShiftId finalSwap) []) None s1
                     else s1)))"

definition swap_engagement :: "mp_config \<Rightarrow> request_env \<Rightarrow> uuid \<Rightarrow> swap \<Rightarrow> mp_state \<Rightarrow> mp_state" where
  \<comment> \<open>both participants earn points for an executed swap\<close>
  "swap_engagement cfg env tenantId w s =
     recordEvent (cfg_engagement cfg) (env_clock env 4) (env_ledgerId2 env)
       \<lparr>in_tenantId = tenantId, in_employeeId = the_default (swap_targetEmployeeId w) [],
        in_eventType = SWAP_EXECUTED, in_referenceId = swap_id w\<rparr>
       (recordEvent (cfg_engagement cfg) (env_clock env 4) (env_ledgerId env)
          \<lparr>in_tenantId = tenantId, in_employeeId = swap_initiatorEmployeeId w,
           in_eventType = SWAP_EXECUTED, in_referenceId = swap_id w\<rparr> s)"

definition check_both_sides ::
  "eligibility_rpc \<Rightarrow> uuid \<Rightarrow> uuid \<Rightarrow> swap \<Rightarrow> mp_error + eligibility_outcome \<times> eligibility_outcome" where
  \<comment> \<open>\<open>Promise.all\<close>: the first rejection is the error\<close>
  "check_both_sides rpc tenantId responder w =
     (case checkEligibility rpc tenantId (swap_initiatorEmployeeId w) (the_default (swap_targetShiftId w) [])
             (the_default (swap_targetOrgUnitId w) []) (Some (swap_initiatorShiftId w)) of
        Inl e \<Rightarrow> Inl e
      | Inr initiatorSide \<Rightarrow>
          (case checkEligibility rpc tenantId responder (swap_initiatorShiftId w)
                  (swap_initiatorOrgUnitId w) (swap_targetShiftId w) of
             Inl e \<Rightarrow> Inl e
           | Inr responderSide \<Rightarrow> Inr (initiatorSide, responderSide)))"

definition processAccept :: "mp_config \<Rightarrow> request_env \<Rightarrow> respond_input \<Rightarrow> (mp_state, mp_error, swap) svc" where
  "processAccept cfg env inp s =
     (let tenantId = rs_tenantId inp; sid = rs_swapRequestId inp in
      case withTenantConnection tenantId (resolve_txn inp) s of
        (Inl e, s1) \<Rightarrow> (Inl e, s1)
      | (Inr pending, s1) \<Rightarrow>
     (case check_both_sides (env_rpc env) tenantId (rs_respondingEmployeeId inp) pending of
        Inl err \<Rightarrow>
          (case withTenantConnection tenantId (swap_fail_txn sid) s1 of
             (Inl e, s2) \<Rightarrow> (Inl e, s2)
           | (Inr _, s2) \<Rightarrow> (Inl err, s2))
      | Inr (initiatorSide, responderSide) \<Rightarrow>
          (case withTenantConnection tenantId
                  (decide_txn (isAutoApprovalEnabled (cfg_autoApprovalTenantIds cfg) tenantId)
                     (env_outboxId env) (env_clock env 3) initiatorSide responderSide sid) s1 of
             (Inl e, s2) \<Rightarrow> (Inl e, s2)
           | (Inr finalSwap, s2) \<Rightarrow>
               (Inr finalSwap,
                if swap_status finalSwap = SW_ACCEPTED then swap_engagement cfg env tenantId finalSwap s2
                else s2))))"

definition respondToSwap :: "mp_config \<Rightarrow> request_env \<Rightarrow> respond_input \<Rightarrow> (mp_state, mp_error, swap) svc" where
  "respondToSwap cfg env inp s =
     (if \<not> rs_accept inp
      then withTenantConnection (rs_tenantId inp) (reject_txn (rs_swapRequestId inp) (rs_respondingEmployeeId inp)) s
      else (case acquireClaimLock (env_redis env 0) (env_lockToken env) (env_clock env 1) (rs_tenantId inp)
                   (rs_swapRequestId inp) CONTENTION_LOCK_TTL_SECONDS s of
              (Inl _, s1) \<Rightarrow> (Inl MarketplaceUnavailable, s1)
            | (Inr None, s1) \<Rightarrow> (Inl (SwapAlreadyBeingRespondedTo (rs_swapRequestId inp)), s1)
            | (Inr (Some lockToken), s1) \<Rightarrow>
                (case processAccept cfg env inp s1 of
                   (r, s2) \<Rightarrow> (r, releaseClaimLock (env_redis env 1) (env_clock env 6) (rs_tenantId inp)
                                   (rs_swapRequestId inp) lockToken s2))))"

end
