(* ===== verification/Approve_Action.thy ===== *)
theory Approve_Action
  imports Swap_Request
begin

text \<open>
  \<open>approve-marketplace-action.service.ts\<close> and its resolver: the supervisor's decision on a claim or a
  swap. Each transaction reads the row, checks that it is pending approval and then saves it
  without a guard on the status it read; the two halves are separate definitions so that what
  happens between them can be stated.
\<close>

section \<open>Claims\<close>

definition approve_claim_read :: "uuid \<Rightarrow> uuid \<Rightarrow> mp_state \<Rightarrow> mp_error + claim" where
  "approve_claim_read tenantId claimId s =
     (case find_where (is_claim tenantId claimId) (claims s) of
        None \<Rightarrow> Inl (MarketplaceClaimNotFound claimId)
      | Some c \<Rightarrow>
          if claim_status c \<noteq> PENDING_APPROVAL then Inl (ClaimNotPendingApproval claimId (claim_status c))
          else Inr c)"

definition approve_claim_write ::
  "uuid \<Rightarrow> millis \<Rightarrow> uuid \<Rightarrow> uuid \<Rightarrow> claim \<Rightarrow> mp_state \<Rightarrow> mp_error + claim \<times> mp_state" where
  "approve_claim_write outboxId now approverId tenantId c s =
     (let s1 = s\<lparr>claims := update_where (is_claim tenantId (claim_id c)) (\<lambda>r. r\<lparr>claim_status := APPROVED\<rparr>) (claims s)\<rparr>
      in case find_where (is_post tenantId (claim_marketplacePostId c)) (posts s1) of
           None \<Rightarrow> Inl EntityNotFound
         | Some post \<Rightarrow>
             Inr (c\<lparr>claim_status := APPROVED\<rparr>,
                  recordClaimApproved outboxId now tenantId (claim_id c) (post_id post)
                    (post_shiftAssignmentId post) (claim_claimantEmployeeId c) (Some approverId)
                    (claim_source c) s1))"

definition approve_claim_txn :: "uuid \<Rightarrow> millis \<Rightarrow> uuid \<Rightarrow> uuid \<Rightarrow> uuid \<Rightarrow> (mp_state, mp_error, claim) txn" where
  "approve_claim_txn outboxId now claimId approverId tenantId s =
     (case approve_claim_read tenantId claimId s of
        Inl e \<Rightarrow> Inl e
      | Inr c \<Rightarrow> approve_claim_write outboxId now approverId tenantId c s)"

definition approveClaim :: "mp_config \<Rightarrow> request_env \<Rightarrow> uuid \<Rightarrow> uuid \<Rightarrow> uuid \<Rightarrow> (mp_state, mp_error, claim) svc" where
  "approveClaim cfg env tenantId claimId approverId s =
     (case withTenantConnection tenantId
             (approve_claim_txn (env_outboxId env) (env_clock env 0) claimId approverId) s of
        (Inl e, s1) \<Rightarrow> (Inl e, s1)
      | (Inr c, s1) \<Rightarrow>
          (Inr c, recordEvent (cfg_engagement cfg) (env_clock env 4) (env_ledgerId env)
                    \<lparr>in_tenantId = tenantId, in_employeeId = claim_claimantEmployeeId c,
                     in_eventType = CLAIM_APPROVED, in_referenceId = claim_id c\<rparr> s1))"

definition reject_claim_write :: "string \<Rightarrow> uuid \<Rightarrow> claim \<Rightarrow> mp_state \<Rightarrow> claim \<times> mp_state" where
  "reject_claim_write reason tenantId c s =
     (c\<lparr>claim_status := REJECTED, claim_decisionReason := Some reason\<rparr>,
      s\<lparr>claims := update_where (is_claim tenantId (claim_id c))
         (\<lambda>r. r\<lparr>claim_status := REJECTED, claim_decisionReason := Some reason\<rparr>) (claims s)\<rparr>)"

definition reject_claim_txn :: "uuid \<Rightarrow> string \<Rightarrow> uuid \<Rightarrow> (mp_state, mp_error, claim) txn" where
  "reject_claim_txn claimId reason tenantId s =
     (case approve_claim_read tenantId claimId s of
        Inl e \<Rightarrow> Inl e
      | Inr c \<Rightarrow> Inr (reject_claim_write reason tenantId c s))"

definition rejectClaim :: "uuid \<Rightarrow> uuid \<Rightarrow> string \<Rightarrow> (mp_state, mp_error, claim) svc" where
  "rejectClaim tenantId claimId reason = withTenantConnection tenantId (reject_claim_txn claimId reason)"

section \<open>Swaps\<close>

definition approve_swap_txn :: "uuid \<Rightarrow> millis \<Rightarrow> uuid \<Rightarrow> uuid \<Rightarrow> uuid \<Rightarrow> (mp_state, mp_error, swap) txn" where
  "approve_swap_txn outboxId now swapRequestId approverId tenantId s =
     (case find_where (is_swap tenantId swapRequestId) (swaps s) of
        None \<Rightarrow> Inl (SwapRequestNotFound swapRequestId)
      | Some w \<Rightarrow>
          if swap_status w \<noteq> SW_PENDING_APPROVAL then Inl (SwapNotPendingApproval swapRequestId (swap_status w))
          else Inr (w\<lparr>swap_status := SW_ACCEPTED\<rparr>,
                    recordSwapExecuted outboxId now tenantId (swap_id w) (swap_initiatorEmployeeId w)
                      (swap_initiatorShiftId w) (the_default (swap_targetEmployeeId w) [])
                      (the_default (swap_targetShiftId w) []) (Some approverId)
                      (set_swap_status tenantId swapRequestId SW_ACCEPTED s)))"

definition approveSwap :: "mp_config \<Rightarrow> request_env \<Rightarrow> uuid \<Rightarrow> uuid \<Rightarrow> uuid \<Rightarrow> (mp_state, mp_error, swap) svc" where
  "approveSwap cfg env tenantId swapRequestId approverId s =
     (case withTenantConnection tenantId
             (approve_swap_txn (env_outboxId env) (env_clock env 0) swapRequestId approverId) s of
        (Inl e, s1) \<Rightarrow> (Inl e, s1)
      | (Inr w, s1) \<Rightarrow> (Inr w, swap_engagement cfg env tenantId w s1))"

definition reject_swap_txn :: "uuid \<Rightarrow> string \<Rightarrow> uuid \<Rightarrow> (mp_state, mp_error, swap) txn" where
  "reject_swap_txn swapRequestId reason tenantId s =
     (case find_where (is_swap tenantId swapRequestId) (swaps s) of
        None \<Rightarrow> Inl (SwapRequestNotFound swapRequestId)
      | Some w \<Rightarrow>
          if swap_status w \<noteq> SW_PENDING_APPROVAL then Inl (SwapNotPendingApproval swapRequestId (swap_status w))
          else Inr (w\<lparr>swap_status := SW_REJECTED, swap_decisionReason := Some reason\<rparr>,
                    s\<lparr>swaps := update_where (is_swap tenantId swapRequestId)
                       (\<lambda>r. r\<lparr>swap_status := SW_REJECTED, swap_decisionReason := Some reason\<rparr>) (swaps s)\<rparr>))"

definition rejectSwap :: "uuid \<Rightarrow> uuid \<Rightarrow> string \<Rightarrow> (mp_state, mp_error, swap) svc" where
  "rejectSwap tenantId swapRequestId reason = withTenantConnection tenantId (reject_swap_txn swapRequestId reason)"

section \<open>The mutations\<close>

definition approveMarketplaceAction ::
  "mp_config \<Rightarrow> request_env \<Rightarrow> uuid \<Rightarrow> uuid \<Rightarrow> uuid option \<Rightarrow> uuid option \<Rightarrow>
   (mp_state, mp_error, claim option \<times> swap option) svc" where
  "approveMarketplaceAction cfg env tenantId approverId claimId swapRequestId s =
     (if truthy_str claimId \<and> \<not> truthy_str swapRequestId
      then (case approveClaim cfg env tenantId (the claimId) approverId s of
              (Inl e, s1) \<Rightarrow> (Inl e, s1) | (Inr c, s1) \<Rightarrow> (Inr (Some c, None), s1))
      else if truthy_str swapRequestId \<and> \<not> truthy_str claimId
      then (case approveSwap cfg env tenantId (the swapRequestId) approverId s of
              (Inl e, s1) \<Rightarrow> (Inl e, s1) | (Inr w, s1) \<Rightarrow> (Inr (None, Some w), s1))
      else (Inl ApproveMarketplaceActionInputInvalid, s))"

definition rejectMarketplaceAction ::
  "uuid \<Rightarrow> string \<Rightarrow> uuid option \<Rightarrow> uuid option \<Rightarrow> (mp_state, mp_error, claim option \<times> swap option) svc" where
  "rejectMarketplaceAction tenantId reason claimId swapRequestId s =
     (if truthy_str claimId \<and> \<not> truthy_str swapRequestId
      then (case rejectClaim tenantId (the claimId) reason s of
              (Inl e, s1) \<Rightarrow> (Inl e, s1) | (Inr c, s1) \<Rightarrow> (Inr (Some c, None), s1))
      else if truthy_str swapRequestId \<and> \<not> truthy_str claimId
      then (case rejectSwap tenantId (the swapRequestId) reason s of
              (Inl e, s1) \<Rightarrow> (Inl e, s1) | (Inr w, s1) \<Rightarrow> (Inr (None, Some w), s1))
      else (Inl ApproveMarketplaceActionInputInvalid, s))"

end
