(* ===== verification/Marketplace_System.thy ===== *)
theory Marketplace_System
  imports Bid_Service Approve_Action
begin

text \<open>
  Concurrent requests against one marketplace database. A request is in flight between its
  transactions, and any other request may commit meanwhile; the contention lock is deliberately
  absent from the step relation, so what is proved here holds even when the lock is skipped,
  expires early or is lost to a partition. Reads that a transaction checks before an unguarded
  write are steps of their own, so a stale read is possible wherever Postgres' default isolation
  allows one; guarded updates and inserts under a unique index are evaluated when they commit.
  Supervisor decisions are single steps here (the race between two of them is treated in the
  root theory).
\<close>

section \<open>Invariant of the database\<close>

definition claim_events :: "mp_state \<Rightarrow> mp_payload list" where
  "claim_events s = filter is_ClaimApprovedEvent (map ob_payload (outbox s))"

definition swap_events :: "mp_state \<Rightarrow> mp_payload list" where
  "swap_events s = filter (\<lambda>e. \<not> is_ClaimApprovedEvent e) (map ob_payload (outbox s))"

definition live_on :: "uuid \<Rightarrow> claim list \<Rightarrow> claim list" where
  "live_on p cs = filter (\<lambda>c. live_claim c \<and> claim_marketplacePostId c = p) cs"

definition ids_ok :: "mp_state \<Rightarrow> bool" where
  "ids_ok s \<longleftrightarrow> distinct (map post_id (posts s)) \<and> distinct (map claim_id (claims s))"

definition one_live :: "mp_state \<Rightarrow> bool" where
  "one_live s \<longleftrightarrow> (\<forall>p. length (live_on p (claims s)) \<le> 1)"

definition events_of :: "uuid \<Rightarrow> mp_state \<Rightarrow> mp_payload list" where
  "events_of cid s = filter (\<lambda>e. ca_claimId e = cid) (claim_events s)"

definition describes :: "mp_payload \<Rightarrow> claim \<Rightarrow> bool" where
  "describes e c \<longleftrightarrow> ca_claimId e = claim_id c \<and> ca_postId e = claim_marketplacePostId c \<and>
     ca_claimant e = claim_claimantEmployeeId c"

definition events_ok :: "mp_state \<Rightarrow> bool" where
  "events_ok s \<longleftrightarrow>
     (\<forall>c\<in>set (claims s). length (events_of (claim_id c) s) = (if claim_status c = APPROVED then 1 else 0)) \<and>
     (\<forall>e\<in>set (claim_events s). \<exists>c\<in>set (claims s). describes e c)"

definition granted :: "claim \<Rightarrow> bool" where
  "granted c \<longleftrightarrow> claim_status c \<in> {PENDING_APPROVAL, APPROVED}"

definition slot_taken :: "mp_state \<Rightarrow> claim \<Rightarrow> bool" where
  "slot_taken s c \<longleftrightarrow> (\<exists>p\<in>set (posts s). post_id p = claim_marketplacePostId c \<and> post_status p = CLAIMED)"

definition slots_ok :: "mp_state \<Rightarrow> bool" where
  "slots_ok s \<longleftrightarrow> (\<forall>c\<in>set (claims s). granted c \<longrightarrow> slot_taken s c)"

definition db_inv :: "mp_state \<Rightarrow> bool" where
  "db_inv s \<longleftrightarrow> ids_ok s \<and> one_live s \<and> events_ok s \<and> slots_ok s"

lemmas db_inv_defs = db_inv_def ids_ok_def one_live_def events_ok_def slots_ok_def

lemma db_invD:
  assumes "db_inv s"
  shows "ids_ok s" "one_live s" "events_ok s" "slots_ok s"
  using assms by (simp_all add: db_inv_def)

lemma granted_live: "granted c \<Longrightarrow> live_claim c"
  by (auto simp: granted_def live_claim_def)

lemma one_liveD:
  "one_live s \<Longrightarrow> c \<in> set (claims s) \<Longrightarrow> d \<in> set (claims s) \<Longrightarrow> live_claim c \<Longrightarrow> live_claim d \<Longrightarrow>
   claim_marketplacePostId c = claim_marketplacePostId d \<Longrightarrow> c = d"
  unfolding one_live_def live_on_def
  by (rule filter_length_le_1D[of "\<lambda>x. live_claim x \<and> claim_marketplacePostId x = claim_marketplacePostId d" "claims s"])
     auto

lemma claim_by_id: "ids_ok s \<Longrightarrow> c \<in> set (claims s) \<Longrightarrow> d \<in> set (claims s) \<Longrightarrow> claim_id c = claim_id d \<Longrightarrow> c = d"
  by (auto simp: ids_ok_def distinct_map inj_on_def)

lemma post_by_id: "ids_ok s \<Longrightarrow> p \<in> set (posts s) \<Longrightarrow> q \<in> set (posts s) \<Longrightarrow> post_id p = post_id q \<Longrightarrow> p = q"
  by (auto simp: ids_ok_def distinct_map inj_on_def)

section \<open>Building blocks of preservation\<close>

text \<open>Only posts, claims and the claim events matter to the invariant.\<close>

lemma db_inv_cong:
  assumes "posts s' = posts s" "claims s' = claims s" "claim_events s' = claim_events s"
  shows "db_inv s' = db_inv s"
  using assms by (simp add: db_inv_defs events_of_def slot_taken_def)

text \<open>A change of post statuses that never reopens a post some granted claim holds.\<close>

lemma db_inv_posts:
  assumes "db_inv s" "posts s' = update_where R h (posts s)" "claims s' = claims s"
    and "claim_events s' = claim_events s"
    and "\<And>p. post_id (h p) = post_id p"
    and keep: "\<And>p c. p \<in> set (posts s) \<Longrightarrow> R p \<Longrightarrow> post_status (h p) \<noteq> CLAIMED \<Longrightarrow>
             c \<in> set (claims s) \<Longrightarrow> granted c \<Longrightarrow> claim_marketplacePostId c \<noteq> post_id p"
  shows "db_inv s'"
proof -
  have "slot_taken s' c" if c: "c \<in> set (claims s)" "granted c" for c
  proof -
    obtain p where p: "p \<in> set (posts s)" "post_id p = claim_marketplacePostId c" "post_status p = CLAIMED"
      using assms(1) c by (auto simp: db_inv_def slots_ok_def slot_taken_def)
    have "(if R p then h p else p) \<in> set (posts s')"
      unfolding assms(2) using p(1) by (rule update_where_mem)
    moreover have "post_status (if R p then h p else p) = CLAIMED"
      using keep[OF p(1) _ _ c] p by auto
    ultimately show ?thesis
      unfolding slot_taken_def using p(2) assms(5) by (intro bexI[of _ "if R p then h p else p"]) simp_all
  qed
  moreover have "map post_id (posts s') = map post_id (posts s)"
    by (simp add: assms(2,5) map_update_where)
  ultimately show ?thesis
    using assms(1,3,4) by (simp add: db_inv_defs events_of_def)
qed

text \<open>A claim that was not approved leaves the competition.\<close>

lemma one_live_update:
  assumes "one_live s" "\<And>c. claim_marketplacePostId (f c) = claim_marketplacePostId c"
    and "\<And>c. c \<in> set (claims s) \<Longrightarrow> Q c \<Longrightarrow> live_claim (f c) \<Longrightarrow> live_claim c"
  shows "one_live (s\<lparr>claims := update_where Q f (claims s)\<rparr>)"
  unfolding one_live_def live_on_def
proof
  fix p
  have "length (filter (\<lambda>c. live_claim c \<and> claim_marketplacePostId c = p) (update_where Q f (claims s))) \<le>
        length (filter (\<lambda>c. live_claim c \<and> claim_marketplacePostId c = p) (claims s))"
    by (rule filter_update_where_le) (simp add: assms)
  also have "\<dots> \<le> 1" using assms(1) by (simp add: one_live_def live_on_def)
  finally show "length (filter (\<lambda>c. live_claim c \<and> claim_marketplacePostId c = p)
      (claims (s\<lparr>claims := update_where Q f (claims s)\<rparr>))) \<le> 1" by simp
qed

definition relabel :: "(claim \<Rightarrow> claim) \<Rightarrow> claim_status \<Rightarrow> bool" where
  \<comment> \<open>\<open>f\<close> sets the status and touches none of the identifying columns\<close>
  "relabel f st \<longleftrightarrow> (\<forall>c. claim_status (f c) = st \<and> claim_id (f c) = claim_id c \<and>
     claim_tenantId (f c) = claim_tenantId c \<and>
     claim_marketplacePostId (f c) = claim_marketplacePostId c \<and>
     claim_claimantEmployeeId (f c) = claim_claimantEmployeeId c)"

lemma relabelD:
  assumes "relabel f st"
  shows "claim_status (f c) = st" "claim_id (f c) = claim_id c" "claim_tenantId (f c) = claim_tenantId c"
    "claim_marketplacePostId (f c) = claim_marketplacePostId c"
    "claim_claimantEmployeeId (f c) = claim_claimantEmployeeId c"
  using assms by (auto simp: relabel_def)

lemma describes_relabel: "relabel f st \<Longrightarrow> describes e (f c) = describes e c"
  by (simp add: describes_def relabelD)

lemma ids_ok_relabel:
  "relabel f st \<Longrightarrow> ids_ok s \<Longrightarrow> ids_ok (s\<lparr>claims := update_where Q f (claims s)\<rparr>)"
  by (simp add: ids_ok_def map_update_where relabelD)

lemma describes_update:
  assumes "relabel f st" "\<exists>c\<in>set cs. describes e c"
  shows "\<exists>c\<in>set (update_where Q f cs). describes e c"
proof -
  obtain c where "c \<in> set cs" "describes e c" using assms(2) by blast
  then show ?thesis
    using update_where_mem[of c cs Q f] describes_relabel[OF assms(1)]
    by (intro bexI[of _ "if Q c then f c else c"]) simp_all
qed

lemma db_inv_relabel:
  assumes "db_inv s" "relabel f st" "st \<noteq> APPROVED"
    and "\<And>c. c \<in> set (claims s) \<Longrightarrow> Q c \<Longrightarrow> claim_status c \<noteq> APPROVED"
    and "\<And>c. c \<in> set (claims s) \<Longrightarrow> Q c \<Longrightarrow> st \<in> {PENDING_VALIDATION, PENDING_APPROVAL} \<Longrightarrow> live_claim c"
    and "\<And>c. c \<in> set (claims s) \<Longrightarrow> Q c \<Longrightarrow> st = PENDING_APPROVAL \<Longrightarrow> slot_taken s c"
  shows "db_inv (s\<lparr>claims := update_where Q f (claims s)\<rparr>)" (is "db_inv ?s")
proof -
  have ev: "claim_events ?s = claim_events s" by (simp add: claim_events_def)
  have "one_live ?s"
    by (rule one_live_update)
      (use assms in \<open>auto simp: db_inv_def relabelD live_claim_def[of "f _"]\<close>)
  moreover have "events_ok ?s"
    using assms describes_update[OF assms(2)]
    by (auto simp: db_inv_def events_ok_def ev events_of_def set_update_where relabelD)
  moreover have "slots_ok ?s"
    using assms by (auto simp: db_inv_def slots_ok_def slot_taken_def set_update_where granted_def relabelD)
  ultimately show ?thesis
    using assms(1,2) by (simp add: db_inv_def ids_ok_relabel)
qed

text \<open>A claim that competes, or is pending approval, becomes approved with its event.\<close>

lemma db_inv_approve:
  assumes "db_inv s" "relabel f APPROVED" "c \<in> set (claims s)" "live_claim c" "claim_status c \<noteq> APPROVED"
    and Q: "\<And>d. d \<in> set (claims s) \<Longrightarrow> Q d \<longleftrightarrow> d = c"
    and "slot_taken s c" "describes e c" "is_ClaimApprovedEvent e"
    and s': "posts s' = posts s" "claims s' = update_where Q f (claims s)" "claim_events s' = claim_events s @ [e]"
  shows "db_inv s'"
proof -
  let ?s = "s\<lparr>claims := update_where Q f (claims s)\<rparr>"
  have idc: "d = c" if "d \<in> set (claims s)" "claim_id d = claim_id c" for d
    using claim_by_id[OF db_invD(1)[OF assms(1)] that(1) assms(3) that(2)] .
  have "one_live ?s"
    by (rule one_live_update) (use assms in \<open>auto simp: db_inv_def relabelD\<close>)
  then have "one_live s'" by (simp add: one_live_def s')
  moreover have "ids_ok s'"
    using assms(1,2) ids_ok_relabel[of f APPROVED s Q] by (simp add: db_inv_def ids_ok_def s')
  moreover have "events_ok s'"
  proof -
    have eid: "ca_claimId e = claim_id c" using assms(8) by (simp add: describes_def)
    have 1: "length (events_of (claim_id x) s') = (if claim_status x = APPROVED then 1 else 0)"
      if x: "x \<in> set (claims s')" for x
    proof -
      obtain d where d: "d \<in> set (claims s)" "x = (if Q d then f d else d)"
        using x by (auto simp: s' update_where_def)
      have n: "length (events_of (claim_id d) s) = (if claim_status d = APPROVED then 1 else 0)"
        using assms(1) d(1) by (simp add: db_inv_def events_ok_def)
      show ?thesis
      proof (cases "d = c")
        case True
        then show ?thesis using n assms(5) eid Q[OF d(1)] d(2) assms(2)
          by (simp add: events_of_def s' relabelD)
      next
        case False
        then have "claim_id d \<noteq> claim_id c" using idc d(1) by blast
        then show ?thesis using n eid Q[OF d(1)] d(2) False by (simp add: events_of_def s')
      qed
    qed
    have "\<exists>c\<in>set (claims s'). describes g c" if "g \<in> set (claim_events s')" for g
      unfolding s' by (rule describes_update[OF assms(2)])
        (use that assms in \<open>auto simp: s' db_inv_def events_ok_def\<close>)
    with 1 show ?thesis by (simp add: events_ok_def)
  qed
  moreover have "slots_ok s'"
    unfolding slots_ok_def
  proof (intro ballI impI)
    fix x assume x: "x \<in> set (claims s')" and g: "granted x"
    obtain d where d: "d \<in> set (claims s)" "x = (if Q d then f d else d)"
      using x by (auto simp: s' update_where_def)
    have "slot_taken s d"
      using assms(1,7) d g Q[OF d(1)] by (cases "d = c") (auto simp: db_inv_def slots_ok_def)
    then show "slot_taken s' x" using d(2) assms(2) by (simp add: slot_taken_def s' relabelD)
  qed
  ultimately show ?thesis by (simp add: db_inv_def)
qed

text \<open>A new claim, admitted by the unique index.\<close>

lemma db_inv_insert:
  assumes "db_inv s" "claim_id c \<notin> claim_id ` set (claims s)"
    and free: "\<And>d. d \<in> set (claims s) \<Longrightarrow> live_claim d \<Longrightarrow> claim_marketplacePostId d \<noteq> claim_marketplacePostId c"
    and "claim_status c \<noteq> APPROVED" "granted c \<Longrightarrow> slot_taken s c"
  shows "db_inv (s\<lparr>claims := claims s @ [c]\<rparr>)" (is "db_inv ?s")
proof -
  have noev: "events_of (claim_id c) s = []"
  proof -
    have "ca_claimId e \<noteq> claim_id c" if e: "e \<in> set (claim_events s)" for e
    proof -
      obtain d where "d \<in> set (claims s)" "describes e d"
        using assms(1) e by (auto simp: db_inv_def events_ok_def)
      then show ?thesis using assms(2) by (metis describes_def imageI)
    qed
    then show ?thesis by (simp add: events_of_def filter_empty_conv)
  qed
  have ev: "claim_events ?s = claim_events s" by (simp add: claim_events_def)
  have "one_live ?s"
  proof (unfold one_live_def, rule)
    fix p
    have "live_on p (claims s) = []" if "live_claim c" "claim_marketplacePostId c = p"
      using free that by (auto simp: live_on_def filter_empty_conv)
    moreover have "length (live_on p (claims s)) \<le> 1" using assms(1) by (simp add: db_inv_def one_live_def)
    ultimately show "length (live_on p (claims ?s)) \<le> 1" by (auto simp: live_on_def)
  qed
  moreover have "events_ok ?s"
    using assms noev by (auto simp: db_inv_def events_ok_def ev events_of_def)
  ultimately show ?thesis
    using assms by (auto simp: db_inv_def ids_ok_def slots_ok_def slot_taken_def)
qed

section \<open>Every transaction preserves the invariant\<close>

definition pending_claim :: "mp_state \<Rightarrow> uuid \<Rightarrow> uuid \<Rightarrow> uuid \<Rightarrow> bool" where
  "pending_claim s t pid cid \<longleftrightarrow>
     (\<exists>c\<in>set (claims s). claim_id c = cid \<and> claim_tenantId c = t \<and> claim_marketplacePostId c = pid \<and>
        claim_status c = PENDING_VALIDATION)"

lemma claim_events_record [simp]:
  "claim_events (recordClaimApproved o' now t cid pid sh e ap src s) =
     claim_events s @ [ClaimApprovedEvent cid pid sh e ap src now]"
  "claim_events (recordSwapExecuted o' now t sid i ish tg tsh ap s) = claim_events s"
  by (simp_all add: claim_events_def recordClaimApproved_def recordSwapExecuted_def mp_insertWithinTransaction_def)

lemma swap_events_record [simp]:
  "swap_events (recordClaimApproved o' now t cid pid sh e ap src s) = swap_events s"
  "swap_events (recordSwapExecuted o' now t sid i ish tg tsh ap s) =
     swap_events s @ [SwapExecutedEvent sid i ish tg tsh ap now]"
  by (simp_all add: swap_events_def recordClaimApproved_def recordSwapExecuted_def mp_insertWithinTransaction_def)

lemma record_frame [simp]:
  "posts (recordClaimApproved o' now t cid pid sh e ap src s) = posts s"
  "claims (recordClaimApproved o' now t cid pid sh e ap src s) = claims s"
  "swaps (recordClaimApproved o' now t cid pid sh e ap src s) = swaps s"
  "posts (recordSwapExecuted o' now t sid i ish tg tsh ap s) = posts s"
  "claims (recordSwapExecuted o' now t sid i ish tg tsh ap s) = claims s"
  "swaps (recordSwapExecuted o' now t sid i ish tg tsh ap s) = swaps s"
  by (simp_all add: recordClaimApproved_def recordSwapExecuted_def mp_insertWithinTransaction_def)

lemma claim_events_frame [simp]:
  "claim_events (s\<lparr>posts := a\<rparr>) = claim_events s" "claim_events (s\<lparr>claims := b\<rparr>) = claim_events s"
  "claim_events (s\<lparr>swaps := d\<rparr>) = claim_events s"
  by (simp_all add: claim_events_def)

lemma swap_events_frame [simp]:
  "swap_events (s\<lparr>posts := a\<rparr>) = swap_events s" "swap_events (s\<lparr>claims := b\<rparr>) = swap_events s"
  "swap_events (s\<lparr>swaps := d\<rparr>) = swap_events s"
  by (simp_all add: swap_events_def)

lemma relabel_statuses [simp]:
  "relabel (\<lambda>c. c\<lparr>claim_status := st, claim_validationResult := v\<rparr>) st"
  "relabel (\<lambda>c. c\<lparr>claim_status := st\<rparr>) st"
  "relabel (\<lambda>c. c\<lparr>claim_status := st, claim_decisionReason := d\<rparr>) st"
  by (simp_all add: relabel_def)

lemma claim_insert_pending_inv:
  assumes "db_inv s" "newId \<notin> claim_id ` set (claims s)"
    and "claim_insert_pending newId now t pid e s = Inr (c, s')"
  shows "db_inv s'" "pending_claim s' t pid newId"
proof -
  have s': "s' = s\<lparr>claims := claims s @ [c]\<rparr>"
    and c: "claim_id c = newId" "claim_tenantId c = t" "claim_marketplacePostId c = pid"
      "claim_status c = PENDING_VALIDATION"
    and free: "\<forall>d\<in>set (claims s). live_claim d \<longrightarrow> claim_marketplacePostId d \<noteq> pid"
    using assms(3)
    by (auto simp: claim_insert_pending_def insert_claim_def live_claim_def Let_def split: option.splits if_splits)
  show "db_inv s'"
    unfolding s' by (rule db_inv_insert) (use assms c free in \<open>auto simp: granted_def\<close>)
  show "pending_claim s' t pid newId" unfolding s' pending_claim_def using c by simp
qed

lemma pending_claimD:
  assumes "db_inv s" "pending_claim s t pid cid" "c \<in> set (claims s)" "is_claim t cid c"
  shows "claim_status c = PENDING_VALIDATION" "claim_marketplacePostId c = pid"
proof -
  obtain d where d: "d \<in> set (claims s)" "claim_id d = cid" "claim_marketplacePostId d = pid"
    "claim_status d = PENDING_VALIDATION" using assms(2) by (auto simp: pending_claim_def)
  have "c = d" using claim_by_id[OF db_invD(1)[OF assms(1)] assms(3) d(1)] assms(4) d(2) by (simp add: is_claim_def)
  with d show "claim_status c = PENDING_VALIDATION" "claim_marketplacePostId c = pid" by simp_all
qed

lemma set_claim_rejected_inv:
  assumes "db_inv s" "pending_claim s t pid cid"
  shows "db_inv (set_claim t cid REJECTED vr s)"
  unfolding set_claim_def
  by (rule db_inv_relabel[OF assms(1) relabel_statuses(1)]) (use pending_claimD[OF assms] in auto)

lemma claim_fail_txn_inv:
  assumes "db_inv s" "pending_claim s t pid cid" "claim_fail_txn cid t s = Inr (u, s')"
  shows "db_inv s'"
  using assms by (auto simp: claim_fail_txn_def split: option.splits intro: set_claim_rejected_inv)

lemma claim_post_if_open_inv:
  assumes "db_inv s" "claim_post_if_open t pid s = (rows, s1)"
  shows "db_inv s1" "claims s1 = claims s" "claim_events s1 = claim_events s" "rows = [] \<Longrightarrow> s1 = s"
    "rows \<noteq> [] \<Longrightarrow> claim_marketplacePostId c = pid \<Longrightarrow> slot_taken s1 c"
proof -
  let ?hit = "\<lambda>p. is_post t pid p \<and> post_status p = OPEN"
  have s1: "s1 = s\<lparr>posts := update_where ?hit (\<lambda>p. p\<lparr>post_status := CLAIMED\<rparr>) (posts s)\<rparr>"
    and rows: "rows = filter ?hit (posts s)"
    using assms(2) by (auto simp: claim_post_if_open_def Let_def)
  show "db_inv s1"
    by (rule db_inv_posts[OF assms(1), where R = ?hit and h = "\<lambda>p. p\<lparr>post_status := CLAIMED\<rparr>"])
      (simp_all add: s1)
  show "claims s1 = claims s" "claim_events s1 = claim_events s" by (simp_all add: s1)
  show "s1 = s" if "rows = []"
    using that by (simp add: s1 rows filter_empty_conv update_where_id)
  show "slot_taken s1 c" if ne: "rows \<noteq> []" and cp: "claim_marketplacePostId c = pid"
  proof -
    obtain p where p: "p \<in> set (posts s)" "?hit p" using ne by (auto simp: rows filter_empty_conv)
    with update_where_mem[OF p(1), of ?hit "\<lambda>p. p\<lparr>post_status := CLAIMED\<rparr>"] cp show ?thesis
      unfolding slot_taken_def s1
      by (intro bexI[of _ "p\<lparr>post_status := CLAIMED\<rparr>"]) (simp_all add: is_post_def)
  qed
qed

lemma claim_finalize_stale_inv:
  assumes "db_inv s" "pending_claim s t pid cid"
  shows "db_inv (set_post_status t pid EXPIRED (set_claim t cid REJECTED vr s))"
proof -
  obtain c where c: "c \<in> set (claims s)" "is_claim t cid c" "claim_marketplacePostId c = pid"
    "claim_status c = PENDING_VALIDATION"
    using assms(2) by (auto simp: pending_claim_def is_claim_def)
  have none: "\<not> granted d" if d: "d \<in> set (claims (set_claim t cid REJECTED vr s))" "claim_marketplacePostId d = pid" for d
  proof
    assume g: "granted d"
    then have "d \<in> set (claims s)" using d(1) by (auto simp: set_claim_def set_update_where granted_def)
    then have "d = c"
      using one_liveD[OF db_invD(2)[OF assms(1)] _ c(1)] granted_live[OF g] c d(2) by (simp add: live_claim_def)
    then show False using g c(4) by (simp add: granted_def)
  qed
  show ?thesis
    by (rule db_inv_posts[OF set_claim_rejected_inv[OF assms, of vr],
          where R = "is_post t pid" and h = "\<lambda>p. p\<lparr>post_status := EXPIRED\<rparr>"])
      (use none in \<open>auto simp: set_post_status_def is_post_def\<close>)
qed

lemma claim_finalize_grant_inv:
  assumes inv: "db_inv s" and pend: "pending_claim s t pid cid"
    and open': "claim_post_if_open t pid s = (rows, s1)" "rows \<noteq> []"
    and fc: "find_where (is_claim t cid) (claims s) = Some fc"
    and s2: "s2 = set_claim t cid (if auto then APPROVED else PENDING_APPROVAL) vr s1"
  shows "db_inv (if auto then recordClaimApproved o' now t (claim_id fc) pid sh (claim_claimantEmployeeId fc) ap src s2
                 else s2)"
proof -
  note op = claim_post_if_open_inv[OF inv open'(1)]
  have pend1: "pending_claim s1 t pid cid" using pend by (simp add: pending_claim_def op(2))
  have fc': "fc \<in> set (claims s1)" "is_claim t cid fc" using find_where_SomeD[OF fc] op(2) by simp_all
  note st = pending_claimD[OF op(1) pend1]
  have slot: "slot_taken s1 c" if "c \<in> set (claims s1)" "is_claim t cid c" for c
    using op(5)[OF open'(2)] st(2)[OF that] by simp
  show ?thesis
  proof (cases auto)
    case False
    then show ?thesis
      unfolding s2 set_claim_def
      by simp (rule db_inv_relabel[OF op(1) relabel_statuses(1)], use st slot in \<open>auto simp: live_claim_def\<close>)
  next
    case True
    let ?f = "\<lambda>c. c\<lparr>claim_status := APPROVED, claim_validationResult := Some vr\<rparr>"
    let ?e = "ClaimApprovedEvent (claim_id fc) pid sh (claim_claimantEmployeeId fc) ap src now"
    have only: "is_claim t cid d \<longleftrightarrow> d = fc" if "d \<in> set (claims s1)" for d
      using claim_by_id[OF db_invD(1)[OF op(1)] that fc'(1)] fc'(2) by (auto simp: is_claim_def)
    have "db_inv (recordClaimApproved o' now t (claim_id fc) pid sh (claim_claimantEmployeeId fc) ap src s2)"
      by (rule db_inv_approve[OF op(1), where f = ?f and c = fc and Q = "is_claim t cid" and e = ?e])
        (use fc' st slot only True in \<open>simp_all add: s2 set_claim_def describes_def live_claim_def\<close>)
    with True show ?thesis by simp
  qed
qed

lemma claim_finalize_txn_inv:
  assumes "db_inv s" "pending_claim s t pid cid"
    and "claim_finalize_txn auto o' now v pid cid t s = Inr (r, s')"
  shows "db_inv s'"
proof -
  obtain fc fp where fc: "find_where (is_claim t cid) (claims s) = Some fc"
    and fp: "find_where (is_post t pid) (posts s) = Some fp"
    using assms(3) by (auto simp: claim_finalize_txn_def split: option.splits)
  obtain rows s1 where op: "claim_post_if_open t pid s = (rows, s1)" by fastforce
  have pid: "post_id fp = pid" using find_where_SomeD[OF fp] by (simp add: is_post_def)
  consider "\<not> shiftAssignmentFound v" | "shiftAssignmentFound v" "\<not> eligible v"
    | "shiftAssignmentFound v" "eligible v" "rows = []" | "shiftAssignmentFound v" "eligible v" "rows \<noteq> []"
    by blast
  then show ?thesis
  proof cases
    case 1
    then show ?thesis
      using assms(3) fc fp claim_finalize_stale_inv[OF assms(1,2)] by (auto simp: claim_finalize_txn_def Let_def)
  next
    case 2
    then show ?thesis
      using assms(3) fc fp set_claim_rejected_inv[OF assms(1,2)] by (auto simp: claim_finalize_txn_def Let_def)
  next
    case 3
    then have "s1 = s" using claim_post_if_open_inv(4)[OF assms(1) op] by simp
    with 3 show ?thesis
      using assms(3) fc fp op set_claim_rejected_inv[OF assms(1,2)] by (auto simp: claim_finalize_txn_def Let_def)
  next
    case 4
    then show ?thesis
      using assms(3) fc fp op pid claim_finalize_grant_inv[OF assms(1,2) op 4(3) fc refl, of auto]
      by (cases auto) (auto simp: claim_finalize_txn_def Let_def)
  qed
qed

lemma convert_txn_inv:
  assumes inv: "db_inv s" and fresh: "newId \<notin> claim_id ` set (claims s)"
    and run: "convert_txn auto newId o' now post e t s = Inr (r, s')"
  shows "db_inv s'"
proof -
  let ?c = "bid_claim_row newId now t (post_id post) e auto"
  let ?p = "bid_claim_row newId now t (post_id post) e False"
  show ?thesis
  proof (cases "insert_claim ?c s")
    case None
    then show ?thesis using run inv by (auto simp: convert_txn_def Let_def)
  next
    case (Some s1)
    have free: "claim_marketplacePostId d \<noteq> post_id post" if "d \<in> set (claims s)" "live_claim d" for d
      using Some that by (auto simp: insert_claim_def bid_claim_row_def live_claim_def split: if_splits)
    have s1: "s1 = s\<lparr>claims := claims s @ [?c]\<rparr>" using Some by (rule insert_claim_SomeD)
    obtain rows u where op: "claim_post_if_open t (post_id post) s = (rows, u)" by fastforce
    note opi = claim_post_if_open_inv[OF inv op]
    have op1: "claim_post_if_open t (post_id post) s1 = (rows, u\<lparr>claims := claims s @ [?c]\<rparr>)"
      using op by (auto simp: claim_post_if_open_def Let_def s1)
    show ?thesis
    proof (cases "rows = []")
      case True
      have "filter (\<lambda>r. claim_id r \<noteq> newId) (claims s) = claims s"
        using fresh by (auto simp: filter_id_conv)
      then have "s' = s"
        using run Some op1 True opi(4)[OF True]
        by (auto simp: convert_txn_def Let_def delete_where_def bid_claim_row_def)
      then show ?thesis using inv by simp
    next
      case False
      have insP: "db_inv (u\<lparr>claims := claims u @ [?p]\<rparr>)"
        by (rule db_inv_insert[OF opi(1)])
          (use fresh free opi(2) opi(5)[OF False] in \<open>auto simp: bid_claim_row_def granted_def\<close>)
      show ?thesis
      proof (cases auto)
        case False
        with insP run Some op1 \<open>rows \<noteq> []\<close> opi(2) show ?thesis
          by (auto simp: convert_txn_def Let_def bid_claim_row_def)
      next
        case True
        let ?u = "u\<lparr>claims := claims u @ [?p]\<rparr>"
        let ?ev = "ClaimApprovedEvent newId (post_id post) (post_shiftAssignmentId post) e None SRC_BID now"
        have s': "s' = recordClaimApproved o' now t newId (post_id post) (post_shiftAssignmentId post) e None SRC_BID
            (u\<lparr>claims := claims s @ [?c]\<rparr>)"
          using run Some op1 False True by (auto simp: convert_txn_def Let_def bid_claim_row_def)
        have upd: "update_where (\<lambda>d. claim_id d = newId) (\<lambda>d. d\<lparr>claim_status := APPROVED\<rparr>) (claims s @ [?p]) = claims s @ [?c]"
          using fresh True by (auto simp: update_where_append bid_claim_row_def intro!: update_where_id)
        show ?thesis
          by (rule db_inv_approve[OF insP, where f = "\<lambda>d. d\<lparr>claim_status := APPROVED\<rparr>" and c = ?p
                and Q = "\<lambda>d. claim_id d = newId" and e = ?ev])
            (use fresh upd opi(2) opi(5)[OF False, of ?p] in
              \<open>auto simp: s' live_claim_def describes_def bid_claim_row_def slot_taken_def\<close>)
      qed
    qed
  qed
qed

lemma approve_claim_readD:
  assumes "approve_claim_read t cid s = Inr c"
  shows "c \<in> set (claims s)" "is_claim t cid c" "claim_status c = PENDING_APPROVAL"
  using assms by (auto simp: approve_claim_read_def dest: find_where_SomeD split: option.splits if_splits)

lemma claim_named:
  assumes "ids_ok s" "c \<in> set (claims s)" "is_claim t cid c" "d \<in> set (claims s)"
  shows "is_claim t (claim_id c) d \<longleftrightarrow> d = c"
  using claim_by_id[OF assms(1,4,2)] assms(3) by (auto simp: is_claim_def)

lemma approve_claim_txn_inv:
  assumes inv: "db_inv s" and run: "approve_claim_txn o' now cid ap t s = Inr (r, s')"
  shows "db_inv s'"
proof -
  obtain c where rd: "approve_claim_read t cid s = Inr c"
    and wr: "approve_claim_write o' now ap t c s = Inr (r, s')"
    using run by (auto simp: approve_claim_txn_def split: sum.splits)
  note c = approve_claim_readD[OF rd]
  obtain post where post: "find_where (is_post t (claim_marketplacePostId c)) (posts s) = Some post"
    and s': "s' = recordClaimApproved o' now t (claim_id c) (post_id post) (post_shiftAssignmentId post)
        (claim_claimantEmployeeId c) (Some ap) (claim_source c)
        (s\<lparr>claims := update_where (is_claim t (claim_id c)) (\<lambda>r. r\<lparr>claim_status := APPROVED\<rparr>) (claims s)\<rparr>)"
    using wr by (auto simp: approve_claim_write_def Let_def split: option.splits)
  have "slot_taken s c" using db_invD(4)[OF inv] c by (simp add: slots_ok_def granted_def)
  moreover have "post_id post = claim_marketplacePostId c" using find_where_SomeD[OF post] by (simp add: is_post_def)
  ultimately show ?thesis
    by (intro db_inv_approve[OF inv, where f = "\<lambda>d. d\<lparr>claim_status := APPROVED\<rparr>" and c = c
          and Q = "is_claim t (claim_id c)" and e = "ClaimApprovedEvent (claim_id c) (post_id post)
            (post_shiftAssignmentId post) (claim_claimantEmployeeId c) (Some ap) (claim_source c) now"])
      (use c claim_named[OF db_invD(1)[OF inv] c(1,2)] in \<open>simp_all add: s' live_claim_def describes_def\<close>)
qed

lemma reject_claim_txn_inv:
  assumes inv: "db_inv s" and run: "reject_claim_txn cid reason t s = Inr (r, s')"
  shows "db_inv s'"
proof -
  obtain c where rd: "approve_claim_read t cid s = Inr c" and s': "s' = snd (reject_claim_write reason t c s)"
    using run by (auto simp: reject_claim_txn_def split: sum.splits)
  note c = approve_claim_readD[OF rd]
  show ?thesis
    unfolding s' reject_claim_write_def snd_conv
    by (rule db_inv_relabel[OF inv relabel_statuses(3)])
      (use c claim_named[OF db_invD(1)[OF inv] c(1,2)] in auto)
qed

section \<open>Interleaved requests\<close>

datatype inflight =
    ClaimRead uuid post uuid       \<comment> \<open>tenant, the post as it was read, claimant\<close>
  | ClaimPending uuid uuid uuid    \<comment> \<open>tenant, post id, id of the claim awaiting its verdict\<close>
  | BidChecked uuid post uuid      \<comment> \<open>tenant, the post as it was read, winning bidder\<close>

record mp_sys =
  sys_db :: mp_state
  sys_flight :: "inflight list"

definition fresh_claim_id :: "mp_sys \<Rightarrow> uuid \<Rightarrow> bool" where
  "fresh_claim_id g i \<longleftrightarrow> i \<notin> claim_id ` set (claims (sys_db g)) \<and>
     (\<forall>t p. ClaimPending t p i \<notin> set (sys_flight g))"

inductive mp_step :: "mp_sys \<Rightarrow> mp_sys \<Rightarrow> bool" where
  post_created: "post_id p \<notin> post_id ` set (posts (sys_db g)) \<Longrightarrow> post_status p = OPEN \<Longrightarrow>
     mp_step g (g\<lparr>sys_db := (sys_db g)\<lparr>posts := posts (sys_db g) @ [p]\<rparr>\<rparr>)"
| post_withdrawn: "st \<in> {EXPIRED, CANCELLED} \<Longrightarrow>
     mp_step g (g\<lparr>sys_db := (sys_db g)\<lparr>posts :=
       update_where (\<lambda>p. is_post t pid p \<and> post_status p = OPEN) (\<lambda>p. p\<lparr>post_status := st\<rparr>) (posts (sys_db g))\<rparr>\<rparr>)"
| claim_read: "claim_read_post t pid (sys_db g) = Inr post \<Longrightarrow>
     mp_step g (g\<lparr>sys_flight := ClaimRead t post e # sys_flight g\<rparr>)"
| claim_insert: "ClaimRead t post e \<in> set (sys_flight g) \<Longrightarrow> fresh_claim_id g newId \<Longrightarrow>
     claim_insert_pending newId now t (post_id post) e (sys_db g) = Inr (c, s') \<Longrightarrow>
     mp_step g (g\<lparr>sys_db := s',
       sys_flight := ClaimPending t (post_id post) newId # remove1 (ClaimRead t post e) (sys_flight g)\<rparr>)"
| claim_unavailable: "ClaimPending t pid cid \<in> set (sys_flight g) \<Longrightarrow>
     claim_fail_txn cid t (sys_db g) = Inr (u, s') \<Longrightarrow>
     mp_step g (g\<lparr>sys_db := s', sys_flight := removeAll (ClaimPending t pid cid) (sys_flight g)\<rparr>)"
| claim_decide: "ClaimPending t pid cid \<in> set (sys_flight g) \<Longrightarrow>
     claim_finalize_txn auto o' now v pid cid t (sys_db g) = Inr (r, s') \<Longrightarrow>
     mp_step g (g\<lparr>sys_db := s', sys_flight := removeAll (ClaimPending t pid cid) (sys_flight g)\<rparr>)"
| bid_checked: "find_where (is_post t pid) (posts (sys_db g)) = Some post \<Longrightarrow> post_status post = OPEN \<Longrightarrow>
     mp_step g (g\<lparr>sys_flight := BidChecked t post e # sys_flight g\<rparr>)"
| bid_convert: "BidChecked t post e \<in> set (sys_flight g) \<Longrightarrow> fresh_claim_id g newId \<Longrightarrow>
     convert_txn auto newId o' now post e t (sys_db g) = Inr (r, s') \<Longrightarrow>
     mp_step g (g\<lparr>sys_db := s', sys_flight := remove1 (BidChecked t post e) (sys_flight g)\<rparr>)"
| approve: "approve_claim_txn o' now cid ap t (sys_db g) = Inr (r, s') \<Longrightarrow> mp_step g (g\<lparr>sys_db := s'\<rparr>)"
| reject: "reject_claim_txn cid reason t (sys_db g) = Inr (r, s') \<Longrightarrow> mp_step g (g\<lparr>sys_db := s'\<rparr>)"
| crash: "f \<in> set (sys_flight g) \<Longrightarrow> mp_step g (g\<lparr>sys_flight := removeAll f (sys_flight g)\<rparr>)"
| unrelated: "posts s' = posts (sys_db g) \<Longrightarrow> claims s' = claims (sys_db g) \<Longrightarrow>
     claim_events s' = claim_events (sys_db g) \<Longrightarrow> mp_step g (g\<lparr>sys_db := s'\<rparr>)"

inductive_cases mp_stepE: "mp_step g g'"

inductive mp_reachable :: "mp_sys \<Rightarrow> bool" where
  mp_start: "mp_reachable \<lparr>sys_db = empty_state, sys_flight = []\<rparr>"
| mp_more: "mp_reachable g \<Longrightarrow> mp_step g g' \<Longrightarrow> mp_reachable g'"

definition sys_inv :: "mp_sys \<Rightarrow> bool" where
  "sys_inv g \<longleftrightarrow> db_inv (sys_db g) \<and>
     (\<forall>t pid cid. ClaimPending t pid cid \<in> set (sys_flight g) \<longrightarrow> pending_claim (sys_db g) t pid cid)"

lemma db_inv_empty: "db_inv empty_state"
  by (simp add: db_inv_defs empty_state_def live_on_def claim_events_def)

text \<open>What a transaction of one request leaves of the claims other requests wait for.\<close>

lemma claim_finalize_claims:
  "claim_finalize_txn auto o' now v pid cid t s = Inr (r, s') \<Longrightarrow>
   \<exists>f. claims s' = update_where (is_claim t cid) f (claims s)"
  by (auto simp: claim_finalize_txn_def set_claim_def set_post_status_def claim_post_if_open_def Let_def
      split: option.splits if_splits)

lemma claim_fail_claims:
  "claim_fail_txn cid t s = Inr (u, s') \<Longrightarrow> \<exists>f. claims s' = update_where (is_claim t cid) f (claims s)"
  by (auto simp: claim_fail_txn_def set_claim_def split: option.splits)

lemma convert_claims:
  assumes "convert_txn auto newId o' now post e t s = Inr (r, s')" "newId \<notin> claim_id ` set (claims s)"
  shows "set (claims s) \<subseteq> set (claims s')"
  using assms
  by (force simp: convert_txn_def claim_post_if_open_def insert_claim_def delete_where_def Let_def
      split: option.splits if_splits prod.splits)

lemma pending_mono: "pending_claim s t p c \<Longrightarrow> set (claims s) \<subseteq> set (claims s') \<Longrightarrow> pending_claim s' t p c"
  by (auto simp: pending_claim_def)

lemma pending_update:
  assumes "pending_claim s t p cid" "claims s' = update_where Q f (claims s)"
    and "\<And>c. c \<in> set (claims s) \<Longrightarrow> Q c \<Longrightarrow> claim_id c = cid \<Longrightarrow> claim_status c \<noteq> PENDING_VALIDATION"
  shows "pending_claim s' t p cid"
  using assms by (auto simp: pending_claim_def set_update_where)

lemma pending_other:
  assumes "db_inv s" "pending_claim s t p cid" "pending_claim s t' p' cid'" "(t', p', cid') \<noteq> (t, p, cid)"
  shows "cid' \<noteq> cid"
proof
  assume "cid' = cid"
  then obtain c d where "c \<in> set (claims s)" "d \<in> set (claims s)" "claim_id c = cid" "claim_id d = cid"
    "claim_tenantId c = t" "claim_tenantId d = t'" "claim_marketplacePostId c = p" "claim_marketplacePostId d = p'"
    using assms(2,3) by (auto simp: pending_claim_def)
  with claim_by_id[OF db_invD(1)[OF assms(1)]] have "t = t'" "p = p'" by metis+
  with assms(4) \<open>cid' = cid\<close> show False by simp
qed

lemma settle_flight:
  assumes inv: "sys_inv g" and mine: "ClaimPending t pid cid \<in> set (sys_flight g)"
    and cl: "\<exists>f. claims s' = update_where (is_claim t cid) f (claims (sys_db g))" and "db_inv s'"
  shows "sys_inv (g\<lparr>sys_db := s', sys_flight := removeAll (ClaimPending t pid cid) (sys_flight g)\<rparr>)"
proof -
  obtain f where f: "claims s' = update_where (is_claim t cid) f (claims (sys_db g))" using cl by blast
  have "pending_claim s' t' p' c'" if other: "ClaimPending t' p' c' \<in> set (removeAll (ClaimPending t pid cid) (sys_flight g))" for t' p' c'
  proof (rule pending_update[OF _ f])
    show "pending_claim (sys_db g) t' p' c'" using inv other by (simp add: sys_inv_def)
    then have "c' \<noteq> cid"
      using inv mine other pending_other[of "sys_db g" t pid cid t' p' c'] by (auto simp: sys_inv_def)
    then show "claim_status c \<noteq> PENDING_VALIDATION" if "is_claim t cid c" "claim_id c = c'" for c
      using that by (simp add: is_claim_def)
  qed
  with assms(4) show ?thesis by (simp add: sys_inv_def)
qed

lemma decision_flight:
  assumes inv: "sys_inv g" and rd: "approve_claim_read t cid (sys_db g) = Inr c"
    and cl: "claims s' = update_where (is_claim t (claim_id c)) f (claims (sys_db g))" and "db_inv s'"
  shows "sys_inv (g\<lparr>sys_db := s'\<rparr>)"
proof -
  note c = approve_claim_readD[OF rd]
  have "pending_claim s' t' p' c'" if "ClaimPending t' p' c' \<in> set (sys_flight g)" for t' p' c'
    by (rule pending_update[OF _ cl])
      (use inv that c claim_named[OF db_invD(1) c(1,2)] in \<open>auto simp: sys_inv_def\<close>)
  with assms(4) show ?thesis by (simp add: sys_inv_def)
qed

lemma mp_step_inv:
  assumes "mp_step g g'" "sys_inv g"
  shows "sys_inv g'"
  using assms
proof (induction rule: mp_step.induct)
  case (post_created p g)
  then show ?case
    by (auto simp: sys_inv_def db_inv_defs events_of_def slot_taken_def pending_claim_def)
next
  case (post_withdrawn st g t pid)
  have inv: "db_inv (sys_db g)" using post_withdrawn by (simp add: sys_inv_def)
  have "db_inv ((sys_db g)\<lparr>posts := update_where (\<lambda>p. is_post t pid p \<and> post_status p = OPEN)
      (\<lambda>p. p\<lparr>post_status := st\<rparr>) (posts (sys_db g))\<rparr>)"
  proof (rule db_inv_posts[OF inv, where R = "\<lambda>p. is_post t pid p \<and> post_status p = OPEN"
        and h = "\<lambda>p. p\<lparr>post_status := st\<rparr>"])
    fix p c
    assume p: "p \<in> set (posts (sys_db g))" "is_post t pid p \<and> post_status p = OPEN"
      and c: "c \<in> set (claims (sys_db g))" "granted c"
    then obtain q where "q \<in> set (posts (sys_db g))" "post_id q = claim_marketplacePostId c" "post_status q = CLAIMED"
      using db_invD(4)[OF inv] by (auto simp: slots_ok_def slot_taken_def)
    with p post_by_id[OF db_invD(1)[OF inv]] show "claim_marketplacePostId c \<noteq> post_id p" by force
  qed simp_all
  then show ?case using post_withdrawn by (simp add: sys_inv_def pending_claim_def)
next
  case (claim_insert t post e g newId now c s')
  note r = claim_insert_pending_inv[OF _ _ claim_insert(3)]
  have sub: "set (claims (sys_db g)) \<subseteq> set (claims s')"
    using claim_insert(3) by (auto simp: claim_insert_pending_def insert_claim_def Let_def split: option.splits if_splits)
  show ?case
    using r claim_insert(2,4) pending_mono[OF _ sub]
    by (auto simp: sys_inv_def fresh_claim_id_def dest: notin_set_remove1[rotated] set_mp[OF set_remove1_subset])
next
  case (claim_unavailable t pid cid g u s')
  have "db_inv s'"
    by (rule claim_fail_txn_inv[of "sys_db g" t pid cid]) (use claim_unavailable in \<open>auto simp: sys_inv_def\<close>)
  then show ?case
    using claim_unavailable(3,1) claim_fail_claims[OF claim_unavailable(2)] by (rule settle_flight[rotated 3])
next
  case (claim_decide t pid cid g auto o' now v r s')
  have "db_inv s'"
    by (rule claim_finalize_txn_inv[of "sys_db g" t pid cid]) (use claim_decide in \<open>auto simp: sys_inv_def\<close>)
  then show ?case
    using claim_decide(3,1) claim_finalize_claims[OF claim_decide(2)] by (rule settle_flight[rotated 3])
next
  case (bid_convert t post e g newId auto o' now r s')
  have fr: "newId \<notin> claim_id ` set (claims (sys_db g))" using bid_convert(2) by (simp add: fresh_claim_id_def)
  have "db_inv (sys_db g)" using bid_convert(4) by (simp add: sys_inv_def)
  then have "db_inv s'" by (rule convert_txn_inv[OF _ fr bid_convert(3)])
  moreover have "pending_claim s' t' p' c'" if "ClaimPending t' p' c' \<in> set (sys_flight g)" for t' p' c'
    using convert_claims[OF bid_convert(3) fr] bid_convert(4) that pending_mono[of "sys_db g" t' p' c' s']
    by (simp add: sys_inv_def)
  ultimately show ?case by (auto simp: sys_inv_def dest: set_mp[OF set_remove1_subset])
next
  case (approve o' now cid ap t g r s')
  obtain c where rd: "approve_claim_read t cid (sys_db g) = Inr c"
    and wr: "approve_claim_write o' now ap t c (sys_db g) = Inr (r, s')"
    using approve(1) by (auto simp: approve_claim_txn_def split: sum.splits)
  have "claims s' = update_where (is_claim t (claim_id c)) (\<lambda>r. r\<lparr>claim_status := APPROVED\<rparr>) (claims (sys_db g))"
    using wr by (auto simp: approve_claim_write_def Let_def split: option.splits)
  moreover have "db_inv s'" by (rule approve_claim_txn_inv[OF _ approve(1)]) (use approve(2) in \<open>simp add: sys_inv_def\<close>)
  ultimately show ?case by (rule decision_flight[OF approve(2) rd])
next
  case (reject cid reason t g r s')
  obtain c where rd: "approve_claim_read t cid (sys_db g) = Inr c" and s': "s' = snd (reject_claim_write reason t c (sys_db g))"
    using reject(1) by (auto simp: reject_claim_txn_def split: sum.splits)
  moreover have "db_inv s'" by (rule reject_claim_txn_inv[OF _ reject(1)]) (use reject(2) in \<open>simp add: sys_inv_def\<close>)
  ultimately show ?case using decision_flight[OF reject(2) rd] by (simp add: reject_claim_write_def)
next
  case (unrelated s' g)
  then show ?case using db_inv_cong[of s' "sys_db g"] by (simp add: sys_inv_def pending_claim_def)
qed (auto simp: sys_inv_def)

lemma mp_reachable_inv: "mp_reachable g \<Longrightarrow> sys_inv g"
proof (induction rule: mp_reachable.induct)
  case mp_start
  then show ?case by (simp add: sys_inv_def db_inv_empty)
next
  case (mp_more g g')
  then show ?case using mp_step_inv by blast
qed

end
