(* ===== verification/Swap_System.thy ===== *)
theory Swap_System
  imports Marketplace_System
begin

text \<open>
  Concurrent responses to swap requests. A response that has resolved its target is in flight until
  its guardrail verdict is written; any number of responders, declines and supervisor decisions may
  commit in between. A decline is checked by a read and then saved without a guard, so its write is
  a step that may come at any time.
\<close>

section \<open>Steps\<close>

type_synonym swap_sys = "mp_state \<times> (uuid \<times> uuid \<times> uuid) list" \<comment> \<open>in flight: tenant, swap, responder\<close>

inductive swap_step :: "swap_sys \<Rightarrow> swap_sys \<Rightarrow> bool" where
  sw_propose: "newId \<notin> swap_id ` set (swaps s) \<Longrightarrow>
     proposeSwap newId now inp s = (Inr w, s') \<Longrightarrow> swap_step (s, fl) (s', fl)"
| sw_decline: "reject_txn sid e t s = Inr (w, s') \<Longrightarrow> swap_step (s, fl) (s', fl)"
| sw_decline_late: "swap_step (s, fl) (set_swap_status t sid SW_REJECTED s, fl)"
| sw_resolve: "resolve_txn inp t s = Inr (w, s') \<Longrightarrow>
     swap_step (s, fl) (s', (t, rs_swapRequestId inp, rs_respondingEmployeeId inp) # fl)"
| sw_unavailable: "(t, sid, e) \<in> set fl \<Longrightarrow> swap_fail_txn sid t s = Inr (u, s') \<Longrightarrow>
     swap_step (s, fl) (s', remove1 (t, sid, e) fl)"
| sw_decide: "(t, sid, e) \<in> set fl \<Longrightarrow> decide_txn auto o' now a b sid t s = Inr (w, s') \<Longrightarrow>
     swap_step (s, fl) (s', remove1 (t, sid, e) fl)"
| sw_lost: "swap_step (s, fl) (s, remove1 f fl)"
| sw_approve: "approve_swap_txn o' now sid ap t s = Inr (w, s') \<Longrightarrow> swap_step (s, fl) (s', fl)"
| sw_reject: "reject_swap_txn sid reason t s = Inr (w, s') \<Longrightarrow> swap_step (s, fl) (s', fl)"
| sw_unrelated: "swaps s' = swaps s \<Longrightarrow> swap_events s' = swap_events s \<Longrightarrow> swap_step (s, fl) (s', fl)"

inductive swap_reachable :: "swap_sys \<Rightarrow> bool" where
  sw_start: "swap_reachable (empty_state, [])"
| sw_more: "swap_reachable g \<Longrightarrow> swap_step g g' \<Longrightarrow> swap_reachable g'"

section \<open>Invariant\<close>

definition executions :: "uuid \<Rightarrow> mp_state \<Rightarrow> mp_payload list" where
  "executions sid s = filter (\<lambda>e. se_swapId e = sid) (swap_events s)"

definition executes :: "mp_payload \<Rightarrow> swap \<Rightarrow> bool" where
  "executes e w \<longleftrightarrow> se_swapId e = swap_id w \<and> se_initiator e = swap_initiatorEmployeeId w \<and>
     se_initiatorShift e = swap_initiatorShiftId w \<and> swap_targetEmployeeId w = Some (se_target e) \<and>
     swap_targetShiftId w = Some (se_targetShift e)"

definition undecided :: "swap \<Rightarrow> bool" where
  "undecided w \<longleftrightarrow> swap_status w \<in> {SW_PENDING, SW_PENDING_APPROVAL}"

definition resolved :: "swap \<Rightarrow> bool" where
  "resolved w \<longleftrightarrow> swap_targetEmployeeId w \<noteq> None \<and> swap_targetShiftId w \<noteq> None"

definition row_ok :: "mp_payload list \<Rightarrow> swap \<Rightarrow> bool" where
  "row_ok evs w \<longleftrightarrow> (swap_status w \<in> {SW_PENDING_APPROVAL, SW_ACCEPTED} \<longrightarrow> resolved w) \<and>
     (let n = length (filter (\<lambda>e. se_swapId e = swap_id w) evs)
      in n \<le> 1 \<and> (undecided w \<longrightarrow> n = 0) \<and> (swap_status w = SW_ACCEPTED \<longrightarrow> n = 1))"

definition swap_inv :: "mp_state \<Rightarrow> bool" where
  "swap_inv s \<longleftrightarrow> distinct (map swap_id (swaps s)) \<and>
     (\<forall>w\<in>set (swaps s). row_ok (swap_events s) w) \<and>
     (\<forall>e\<in>set (swap_events s). \<exists>w\<in>set (swaps s). executes e w)"

definition flights_ok :: "swap_sys \<Rightarrow> bool" where
  "flights_ok g \<longleftrightarrow> (\<forall>(t, sid, e)\<in>set (snd g). \<exists>w\<in>set (swaps (fst g)).
     is_swap t sid w \<and> swap_targetEmployeeId w = Some e \<and> resolved w)"

lemma swap_by_id: "swap_inv s \<Longrightarrow> w \<in> set (swaps s) \<Longrightarrow> v \<in> set (swaps s) \<Longrightarrow> swap_id w = swap_id v \<Longrightarrow> w = v"
  by (auto simp: swap_inv_def distinct_map inj_on_def)

lemma undecided_unexecuted:
  "row_ok evs w \<Longrightarrow> undecided w \<Longrightarrow> e \<in> set evs \<Longrightarrow> se_swapId e \<noteq> swap_id w"
  by (auto simp: row_ok_def Let_def filter_empty_conv)

text \<open>An update that executes nothing: it may decide or resolve a row, never revive or accept one.\<close>

lemma swap_inv_silent:
  assumes inv: "swap_inv s" and sw: "swaps s' = update_where Q f (swaps s)" and ev: "swap_events s' = swap_events s"
    and id: "\<And>w. swap_id (f w) = swap_id w \<and> swap_initiatorEmployeeId (f w) = swap_initiatorEmployeeId w \<and>
               swap_initiatorShiftId (f w) = swap_initiatorShiftId w"
    and st: "\<And>w. w \<in> set (swaps s) \<Longrightarrow> Q w \<Longrightarrow> swap_status (f w) \<noteq> SW_ACCEPTED \<and>
               (undecided (f w) \<longrightarrow> undecided w) \<and>
               (swap_status (f w) = SW_PENDING_APPROVAL \<longrightarrow> resolved w)"
    and tg: "\<And>w. w \<in> set (swaps s) \<Longrightarrow> Q w \<Longrightarrow> swap_status w = SW_PENDING \<or>
               swap_targetEmployeeId (f w) = swap_targetEmployeeId w \<and> swap_targetShiftId (f w) = swap_targetShiftId w"
    and keep: "\<And>w. resolved w \<Longrightarrow> resolved (f w)"
  shows "swap_inv s'"
proof -
  have rows: "row_ok (swap_events s) w" if "w \<in> set (swaps s)" for w using inv that by (simp add: swap_inv_def)
  have "row_ok (swap_events s) (f w)" if "w \<in> set (swaps s)" "Q w" for w
    using rows[OF that(1)] st[OF that] keep[of w] id[of w] by (auto simp: row_ok_def Let_def)
  moreover have "\<exists>v\<in>set (swaps s'). executes e v" if e: "e \<in> set (swap_events s)" for e
  proof -
    obtain w where w: "w \<in> set (swaps s)" "executes e w" using inv e by (auto simp: swap_inv_def)
    have "\<not> undecided w" using undecided_unexecuted[OF rows[OF w(1)]] e w(2) by (auto simp: executes_def)
    then have "Q w \<Longrightarrow> executes e (f w)" using w tg[OF w(1)] id[of w] by (auto simp: executes_def undecided_def)
    then show ?thesis
      using w update_where_mem[OF w(1), of Q f] unfolding sw by (cases "Q w") auto
  qed
  moreover have "distinct (map swap_id (swaps s'))"
    using inv id unfolding sw by (simp add: swap_inv_def map_update_where)
  ultimately show ?thesis
    using rows unfolding swap_inv_def ev by (auto simp: sw set_update_where)
qed

text \<open>The one update that executes a swap: an undecided, resolved row is accepted.\<close>

lemma swap_inv_execute:
  assumes inv: "swap_inv s" and sw: "swaps s' = update_where Q f (swaps s)" and ev: "swap_events s' = swap_events s @ [e]"
    and w: "w \<in> set (swaps s)" "undecided w" "\<And>v. v \<in> set (swaps s) \<Longrightarrow> Q v \<longleftrightarrow> v = w"
    and f: "\<And>w. swap_id (f w) = swap_id w" and acc: "swap_status (f w) = SW_ACCEPTED" "executes e (f w)"
  shows "swap_inv s'"
proof -
  have rows: "row_ok (swap_events s) v" if "v \<in> set (swaps s)" for v using inv that by (simp add: swap_inv_def)
  have eid: "se_swapId e = swap_id w" using acc(2) f[of w] by (simp add: executes_def)
  have "row_ok (swap_events s @ [e]) (f w)"
    using rows[OF w(1)] w(2) acc f[of w] eid by (auto simp: row_ok_def Let_def undecided_def resolved_def executes_def)
  moreover have "row_ok (swap_events s @ [e]) v" if "v \<in> set (swaps s)" "v \<noteq> w" for v
    using rows[OF that(1)] swap_by_id[OF inv that(1) w(1)] that(2) eid by (auto simp: row_ok_def Let_def)
  moreover have "\<exists>v\<in>set (swaps s'). executes e' v" if e': "e' \<in> set (swap_events s)" for e'
  proof -
    obtain v where v: "v \<in> set (swaps s)" "executes e' v" using inv e' by (auto simp: swap_inv_def)
    have "v \<noteq> w"
      using undecided_unexecuted[OF rows[OF w(1)] w(2) e'] v(2) by (auto simp: executes_def)
    then show ?thesis using v w(3)[OF v(1)] update_where_mem[OF v(1), of Q f] unfolding sw by auto
  qed
  moreover have "\<exists>v\<in>set (swaps s'). executes e v"
    using acc(2) w(1) w(3)[OF w(1)] update_where_mem[OF w(1), of Q f] unfolding sw by auto
  moreover have "distinct (map swap_id (swaps s'))"
    using inv f unfolding sw by (simp add: swap_inv_def map_update_where)
  moreover have "row_ok (swap_events s') v" if "v \<in> set (swaps s')" for v
    using that calculation(1,2) w(3) unfolding sw ev by (auto simp: set_update_where)
  ultimately show ?thesis unfolding swap_inv_def ev by auto
qed

section \<open>Every step keeps it\<close>

lemma flights_ok_update:
  assumes "flights_ok (s, fl)" "swaps s' = update_where Q f (swaps s)" "set fl' \<subseteq> set fl"
    and "\<And>w. swap_id (f w) = swap_id w \<and> swap_tenantId (f w) = swap_tenantId w"
    and "\<And>w. w \<in> set (swaps s) \<Longrightarrow> Q w \<Longrightarrow> resolved w \<Longrightarrow>
           resolved (f w) \<and> swap_targetEmployeeId (f w) = swap_targetEmployeeId w"
  shows "flights_ok (s', fl')"
  unfolding flights_ok_def
proof (clarsimp, goal_cases)
  case (1 t sid e)
  then obtain w where w: "w \<in> set (swaps s)" "is_swap t sid w" "swap_targetEmployeeId w = Some e" "resolved w"
    using assms(1,3) by (fastforce simp: flights_ok_def)
  then show ?case
    using assms(4)[of w] assms(5)[of w] update_where_mem[OF w(1), of Q f] unfolding assms(2)
    by (intro bexI[of _ "if Q w then f w else w"]) (auto simp: is_swap_def)
qed

lemma find_swapD:
  "find_where (is_swap t sid) (swaps s) = Some w \<Longrightarrow>
   w \<in> set (swaps s) \<and> swap_id w = sid \<and> swap_tenantId w = t"
  by (auto simp: is_swap_def dest: find_where_SomeD)

lemma swap_inv_rejected:
  assumes "swap_inv s" "swaps s' = update_where Q f (swaps s)" "swap_events s' = swap_events s"
    and "\<And>w. swap_status (f w) = SW_REJECTED"
    and "\<And>w. swap_id (f w) = swap_id w \<and> swap_initiatorEmployeeId (f w) = swap_initiatorEmployeeId w \<and>
               swap_initiatorShiftId (f w) = swap_initiatorShiftId w"
    and "\<And>w. swap_targetEmployeeId (f w) = swap_targetEmployeeId w \<and> swap_targetShiftId (f w) = swap_targetShiftId w"
  shows "swap_inv s'"
  using assms(1-3,5) by (rule swap_inv_silent) (simp_all add: assms(4,6) undecided_def resolved_def)

lemma resolve_step:
  assumes inv: "swap_inv s" "flights_ok (s, fl)" and run: "resolve_txn inp t s = Inr (w', s')"
  shows "swap_inv s'" "flights_ok (s', (t, rs_swapRequestId inp, rs_respondingEmployeeId inp) # fl)"
proof -
  let ?sid = "rs_swapRequestId inp" and ?e = "rs_respondingEmployeeId inp"
  obtain w where w: "find_where (is_swap t ?sid) (swaps s) = Some w" "swap_status w = SW_PENDING"
      "swap_targetEmployeeId w = None \<or> swap_targetEmployeeId w = Some ?e"
    using run by (auto simp: resolve_txn_def Let_def split: option.splits if_splits)
  define ts where "ts = nullish_or (swap_targetShiftId w) (rs_offeredShiftId inp)"
  define ou where "ou = nullish_or (swap_targetOrgUnitId w) (rs_offeredOrgUnitId inp)"
  define hit where "hit v \<longleftrightarrow> is_swap t ?sid v \<and> swap_status v = SW_PENDING \<and>
      (swap_targetEmployeeId v = None \<or> swap_targetEmployeeId v = Some ?e)" for v
  define upd where "upd v = v\<lparr>swap_targetEmployeeId := Some ?e, swap_targetShiftId := ts, swap_targetOrgUnitId := ou\<rparr>" for v :: swap
  have s': "s' = s\<lparr>swaps := update_where hit upd (swaps s)\<rparr>" and "truthy_str ts"
    using run w by (auto simp: resolve_txn_def Let_def hit_def[abs_def] upd_def[abs_def] ts_def ou_def split: if_splits)
  then have ts: "ts \<noteq> None" by (cases ts) auto
  show "swap_inv s'"
    by (rule swap_inv_silent[OF inv(1), where Q = hit and f = upd])
      (use ts in \<open>auto simp: s' upd_def hit_def undecided_def resolved_def\<close>)
  have "flights_ok (s', fl)"
    by (rule flights_ok_update[OF inv(2), where Q = hit and f = upd])
      (use ts in \<open>auto simp: s' upd_def hit_def resolved_def\<close>)
  moreover have "upd w \<in> set (swaps s')"
    using find_swapD[OF w(1)] w update_where_mem[of w "swaps s" hit upd] by (simp add: s' hit_def is_swap_def)
  ultimately show "flights_ok (s', (t, ?sid, ?e) # fl)"
    using find_swapD[OF w(1)] ts by (auto simp: flights_ok_def is_swap_def upd_def resolved_def intro!: bexI[of _ "upd w"])
qed

lemma decide_txnE:
  assumes run: "decide_txn auto o' now a b sid t s = Inr (w', s')"
  obtains w st vr where
    "find_where (is_swap t sid) (swaps s) = Some w"
    "\<exists>v\<in>set (swaps s). is_swap t sid v \<and> swap_status v = SW_PENDING"
    "st \<in> {SW_REJECTED, SW_ACCEPTED, SW_PENDING_APPROVAL}"
    "swaps s' = update_where (\<lambda>v. is_swap t sid v \<and> swap_status v = SW_PENDING)
       (\<lambda>v. v\<lparr>swap_status := st, swap_validationResult := vr\<rparr>) (swaps s)"
    "swap_events s' = swap_events s @ (if st = SW_ACCEPTED then
        [SwapExecutedEvent (swap_id w) (swap_initiatorEmployeeId w) (swap_initiatorShiftId w)
           (the_default (swap_targetEmployeeId w) []) (the_default (swap_targetShiftId w) []) None now] else [])"
proof -
  obtain w where w: "find_where (is_swap t sid) (swaps s) = Some w"
    using run by (auto simp: decide_txn_def split: option.splits)
  define hit where "hit v \<longleftrightarrow> is_swap t sid v \<and> swap_status v = SW_PENDING" for v
  define st where "st = (if \<not> swap_verdict a b then SW_REJECTED
      else if auto \<or> \<not> swap_requiresSupervisorApproval w then SW_ACCEPTED else SW_PENDING_APPROVAL)"
  define vr where "vr = Some (VR_Swap (swap_verdict a b)
      (if shiftAssignmentFound a then violations a else stale_shift ''the target shift no longer resolves'')
      (if shiftAssignmentFound b then violations b else stale_shift ''the initiator shift no longer resolves''))"
  define s1 where "s1 = s\<lparr>swaps := update_where hit (\<lambda>v. v\<lparr>swap_status := st, swap_validationResult := vr\<rparr>) (swaps s)\<rparr>"
  define s2 where "s2 = (if st = SW_ACCEPTED then recordSwapExecuted o' now t (swap_id w) (swap_initiatorEmployeeId w)
          (swap_initiatorShiftId w) (the_default (swap_targetEmployeeId w) []) (the_default (swap_targetShiftId w) []) None s1
        else s1)"
  have "decide_txn auto o' now a b sid t s =
     (if filter hit (swaps s) = [] then Inl (SwapAlreadyBeingRespondedTo sid)
      else Inr (w\<lparr>swap_status := st, swap_validationResult := vr\<rparr>, s2))"
    by (simp add: decide_txn_def w Let_def hit_def[abs_def] st_def vr_def s1_def s2_def)
  then have ne: "filter hit (swaps s) \<noteq> []" and s': "s' = s2"
    using run by (auto split: if_splits)
  show thesis
    by (rule that[of w st vr])
      (use w ne in \<open>auto simp: s' s2_def s1_def st_def hit_def[abs_def] filter_empty_conv\<close>)
qed

lemma decide_step:
  assumes inv: "swap_inv s" "flights_ok (s, fl)" and mine: "(t, sid, e) \<in> set fl"
    and run: "decide_txn auto o' now a b sid t s = Inr (w', s')"
  shows "swap_inv s'" "flights_ok (s', fl)"
proof -
  let ?hit = "\<lambda>v. is_swap t sid v \<and> swap_status v = SW_PENDING"
  obtain w st vr where fw: "find_where (is_swap t sid) (swaps s) = Some w"
    and ne: "\<exists>v\<in>set (swaps s). is_swap t sid v \<and> swap_status v = SW_PENDING"
    and st: "st \<in> {SW_REJECTED, SW_ACCEPTED, SW_PENDING_APPROVAL}"
    and sw: "swaps s' = update_where ?hit (\<lambda>v. v\<lparr>swap_status := st, swap_validationResult := vr\<rparr>) (swaps s)"
    and ev: "swap_events s' = swap_events s @ (if st = SW_ACCEPTED then
        [SwapExecutedEvent (swap_id w) (swap_initiatorEmployeeId w) (swap_initiatorShiftId w)
           (the_default (swap_targetEmployeeId w) []) (the_default (swap_targetShiftId w) []) None now] else [])"
    using run by (rule decide_txnE)
  have w: "w \<in> set (swaps s)" "swap_id w = sid" "swap_tenantId w = t" using find_swapD[OF fw] by simp_all
  have same: "v = w" if "v \<in> set (swaps s)" "is_swap t sid v" for v
    using swap_by_id[OF inv(1) that(1) w(1)] that(2) w(2) by (simp add: is_swap_def)
  have res: "resolved w"
    using inv(2) mine same unfolding flights_ok_def by fastforce
  have pend: "swap_status w = SW_PENDING" using ne same by blast
  have hit: "?hit v \<longleftrightarrow> v = w" if "v \<in> set (swaps s)" for v
    using same[OF that] pend w by (auto simp: is_swap_def)
  show "flights_ok (s', fl)"
    by (rule flights_ok_update[OF inv(2) sw]) (simp_all add: resolved_def)
  show "swap_inv s'"
  proof (cases "st = SW_ACCEPTED")
    case True
    with ev have ev': "swap_events s' = swap_events s @ [SwapExecutedEvent (swap_id w) (swap_initiatorEmployeeId w)
        (swap_initiatorShiftId w) (the_default (swap_targetEmployeeId w) []) (the_default (swap_targetShiftId w) []) None now]"
      by simp
    show ?thesis
      by (rule swap_inv_execute[OF inv(1) sw ev' w(1) _ hit])
        (use pend True res in \<open>auto simp: undecided_def executes_def resolved_def\<close>)
  next
    case False
    with ev have ev': "swap_events s' = swap_events s" by simp
    show ?thesis
      by (rule swap_inv_silent[OF inv(1) sw ev']) (use False st hit pend res in \<open>auto simp: undecided_def resolved_def\<close>)
  qed
qed

lemma approve_swap_step:
  assumes inv: "swap_inv s" "flights_ok (s, fl)" and run: "approve_swap_txn o' now sid ap t s = Inr (w', s')"
  shows "swap_inv s'" "flights_ok (s', fl)"
proof -
  obtain w where fw: "find_where (is_swap t sid) (swaps s) = Some w" and st: "swap_status w = SW_PENDING_APPROVAL"
    and s': "s' = recordSwapExecuted o' now t (swap_id w) (swap_initiatorEmployeeId w) (swap_initiatorShiftId w)
       (the_default (swap_targetEmployeeId w) []) (the_default (swap_targetShiftId w) []) (Some ap)
       (set_swap_status t sid SW_ACCEPTED s)"
    using run by (auto simp: approve_swap_txn_def split: option.splits if_splits)
  have w: "w \<in> set (swaps s)" "swap_id w = sid" "swap_tenantId w = t" using find_swapD[OF fw] by simp_all
  have res: "resolved w" using inv(1) w(1) st by (simp add: swap_inv_def row_ok_def)
  have sw: "swaps s' = update_where (is_swap t sid) (\<lambda>w. w\<lparr>swap_status := SW_ACCEPTED\<rparr>) (swaps s)"
    by (simp add: s' set_swap_status_def)
  have hit: "is_swap t sid v \<longleftrightarrow> v = w" if "v \<in> set (swaps s)" for v
    using swap_by_id[OF inv(1) that w(1)] w by (auto simp: is_swap_def)
  show "swap_inv s'"
    by (rule swap_inv_execute[OF inv(1) sw _ w(1) _ hit])
      (use st res in \<open>auto simp: s' set_swap_status_def undecided_def executes_def resolved_def\<close>)
  show "flights_ok (s', fl)"
    by (rule flights_ok_update[OF inv(2) sw]) (simp_all add: resolved_def)
qed

lemma rejected_step:
  assumes "swap_inv s" "flights_ok (s, fl)" "set fl' \<subseteq> set fl"
    and "s' = s\<lparr>swaps := update_where (is_swap t sid) f (swaps s)\<rparr>"
    and "\<And>w. swap_status (f w) = SW_REJECTED"
    and "\<And>w. swap_id (f w) = swap_id w \<and> swap_tenantId (f w) = swap_tenantId w \<and>
           swap_initiatorEmployeeId (f w) = swap_initiatorEmployeeId w \<and> swap_initiatorShiftId (f w) = swap_initiatorShiftId w"
    and "\<And>w. swap_targetEmployeeId (f w) = swap_targetEmployeeId w \<and> swap_targetShiftId (f w) = swap_targetShiftId w"
  shows "swap_inv s' \<and> flights_ok (s', fl')"
  using swap_inv_rejected[OF assms(1), of s' "is_swap t sid" f] flights_ok_update[OF assms(2) _ assms(3), of s' "is_swap t sid" f]
    assms(4-7) by (simp add: resolved_def)

lemma propose_step:
  assumes inv: "swap_inv s" "flights_ok (s, fl)" and fresh: "newId \<notin> swap_id ` set (swaps s)"
    and run: "proposeSwap newId now inp s = (Inr w, s')"
  shows "swap_inv s' \<and> flights_ok (s', fl)"
proof -
  have s': "s' = s\<lparr>swaps := swaps s @ [w]\<rparr>" and w: "swap_id w = newId" "swap_status w = SW_PENDING"
    using run by (auto simp: proposeSwap_def withTenantConnection_def run_txn_def Let_def split: if_splits)
  have "filter (\<lambda>e. se_swapId e = newId) (swap_events s) = []"
    using inv(1) fresh by (auto simp: swap_inv_def executes_def filter_empty_conv)
  then have "row_ok (swap_events s) w" using w by (simp add: row_ok_def)
  with inv fresh w show ?thesis by (fastforce simp: s' swap_inv_def flights_ok_def)
qed

lemma swap_step_inv:
  assumes "swap_step g g'" "swap_inv (fst g) \<and> flights_ok g"
  shows "swap_inv (fst g') \<and> flights_ok g'"
  using assms
proof (induction rule: swap_step.induct)
  case (sw_propose newId s now inp w s' fl)
  then show ?case using propose_step[of s fl newId now inp w s'] by simp
next
  case (sw_decline sid e t s w s' fl)
  then show ?case
    using rejected_step[of s fl fl s' t sid "\<lambda>w. w\<lparr>swap_status := SW_REJECTED\<rparr>"]
    by (auto simp: reject_txn_def set_swap_status_def split: option.splits if_splits)
next
  case (sw_decline_late s fl t sid)
  then show ?case
    using rejected_step[of s fl fl "set_swap_status t sid SW_REJECTED s" t sid "\<lambda>w. w\<lparr>swap_status := SW_REJECTED\<rparr>"]
    by (simp add: set_swap_status_def)
next
  case (sw_resolve inp t s w s' fl)
  then show ?case using resolve_step[of s fl inp t w s'] by simp
next
  case (sw_unavailable t sid e fl s u s')
  then show ?case
    using rejected_step[of s fl "remove1 (t, sid, e) fl" s' t sid
        "\<lambda>w. w\<lparr>swap_status := SW_REJECTED, swap_validationResult := Some (VR_Reason False ''guardrail_validation_unavailable'')\<rparr>"]
    by (auto simp: swap_fail_txn_def set_remove1_subset split: option.splits)
next
  case (sw_decide t sid e fl auto o' now a b s w s')
  then have "swap_inv s'" "flights_ok (s', fl)" using decide_step[of s fl t sid e auto o' now a b w s'] by simp_all
  then show ?case by (auto simp: flights_ok_def dest: set_mp[OF set_remove1_subset])
next
  case sw_lost
  then show ?case by (auto simp: flights_ok_def dest: set_mp[OF set_remove1_subset])
next
  case (sw_approve o' now sid ap t s w s' fl)
  then show ?case using approve_swap_step[of s fl o' now sid ap t w s'] by simp
next
  case (sw_reject sid reason t s w s' fl)
  then show ?case
    using rejected_step[of s fl fl s' t sid "\<lambda>w. w\<lparr>swap_status := SW_REJECTED, swap_decisionReason := Some reason\<rparr>"]
    by (auto simp: reject_swap_txn_def split: option.splits if_splits)
next
  case sw_unrelated
  then show ?case by (simp add: swap_inv_def flights_ok_def)
qed

lemma swap_reachable_inv: "swap_reachable g \<Longrightarrow> swap_inv (fst g) \<and> flights_ok g"
proof (induction rule: swap_reachable.induct)
  case sw_start
  then show ?case by (simp add: swap_inv_def flights_ok_def empty_state_def swap_events_def)
next
  case (sw_more g g')
  then show ?case using swap_step_inv by blast
qed

end
