(* ===== verification/Claim_Guarantees.thy ===== *)
theory Claim_Guarantees
  imports Claim_Open_Shift
begin

text \<open>
  What one open-shift claim request guarantees on every path: which parts of the state it can touch,
  that an unreachable guardrail service grants nothing, that the contention lock is given back, and
  that each attempt is counted once and charged to the caller only when the caller is answerable.
\<close>

section \<open>A marketplace with one open shift\<close>

definition demo_post :: post where
  "demo_post = \<lparr>post_id = ''p1'', post_tenantId = ''t1'', post_postType = OPEN_SHIFT,
     post_shiftAssignmentId = ''sa1'', post_orgUnitId = ''ou1'', post_postedBy = None,
     post_status = OPEN, post_expiresAt = 9000000, post_createdAt = 0\<rparr>"

definition demo_state :: mp_state where
  "demo_state = empty_state\<lparr>posts := [demo_post]\<rparr>"

definition demo_cfg :: mp_config where
  "demo_cfg = \<lparr>cfg_limiter = \<lparr>defaultLimit = 5, defaultWindowSeconds = 60, overridesByTenantId = []\<rparr>,
     cfg_engagement = \<lparr>points_claim_approved = 10, points_swap_executed = 15\<rparr>, cfg_autoApprovalTenantIds = [''t1'']\<rparr>"

definition demo_env :: request_env where
  "demo_env = \<lparr>env_clock = (\<lambda>n. 1000000 + int n), env_redis = (\<lambda>_. True), env_lockToken = ''tok1'',
     env_claimId = ''c1'', env_outboxId = ''o1'', env_ledgerId = ''l1'', env_ledgerId2 = ''l2'',
     env_rpc = (\<lambda>_. Inr \<lparr>shiftAssignmentFound = True, eligible = True, violations = []\<rparr>)\<rparr>"

section \<open>What a request leaves untouched\<close>

lemma claim_begin_frame:
  "claim_begin_txn i now pid e t s = Inr (x, s') \<Longrightarrow>
   \<exists>c. s' = s\<lparr>claims := claims s @ [c]\<rparr> \<and> snd x = c \<and> claim_id c = i \<and> claim_tenantId c = t"
  by (auto simp: claim_begin_txn_def claim_insert_pending_def Let_def dest!: insert_claim_SomeD
      split: sum.splits option.splits)

lemma claim_fail_frame:
  "claim_fail_txn cid t s = Inr (x, s') \<Longrightarrow>
   s' = set_claim t cid REJECTED (VR_Reason False ''guardrail_validation_unavailable'') s"
  by (auto simp: claim_fail_txn_def split: option.splits)

lemma claim_finalize_frame:
  "claim_finalize_txn auto o' now v pid cid t s = Inr (x, s') \<Longrightarrow>
   locks s' = locks s \<and> claimAttempts s' = claimAttempts s \<and> scores s' = scores s"
  by (auto simp: claim_finalize_txn_def set_claim_def set_post_status_def claim_post_if_open_def Let_def
      recordClaimApproved_def mp_insertWithinTransaction_def split: option.splits if_splits)

lemma recordFailedAttempt_frame:
  "recordFailedAttempt cfg now t e s = s\<lparr>scores := scores (recordFailedAttempt cfg now t e s)\<rparr>"
  by (simp add: recordFailedAttempt_def split: option.splits prod.splits)

lemma applyEvent_frame:
  "applyEvent cfg now i inp s =
     s\<lparr>scores := scores (applyEvent cfg now i inp s), engagementEvents := engagementEvents (applyEvent cfg now i inp s)\<rparr>"
  by (simp add: applyEvent_def Let_def split: option.splits prod.splits)

lemma frame_fields [simp]:
  "locks (recordFailedAttempt lc now t e s) = locks s"
  "claimAttempts (recordFailedAttempt lc now t e s) = claimAttempts s"
  "posts (recordFailedAttempt lc now t e s) = posts s"
  "claims (recordFailedAttempt lc now t e s) = claims s"
  "outbox (recordFailedAttempt lc now t e s) = outbox s"
  "pushes (recordFailedAttempt lc now t e s) = pushes s"
  "engagementEvents (recordFailedAttempt lc now t e s) = engagementEvents s"
  "locks (applyEvent ec now i inp s) = locks s"
  "claimAttempts (applyEvent ec now i inp s) = claimAttempts s"
  by (subst recordFailedAttempt_frame applyEvent_frame, simp)+

lemma claim_aftermath_frame [simp]:
  "locks (claim_aftermath cfg env t p c s) = locks s"
  "claimAttempts (claim_aftermath cfg env t p c s) = claimAttempts s"
  by (simp_all add: claim_aftermath_def publishPostUpdated_def Let_def)

lemma processClaim_frame:
  assumes "processClaim cfg env t pid e s = (r, s')"
  shows "locks s' = locks s" "claimAttempts s' = claimAttempts s"
  using assms
  by (auto simp: processClaim_def withTenantConnection_def run_txn_def set_claim_def
      dest!: claim_begin_frame claim_fail_frame claim_finalize_frame
      split: sum.splits prod.splits)

lemma processClaim_error_scores:
  assumes "processClaim cfg env t pid e s = (Inl err, s')"
  shows "scores s' = scores s"
  using assms
  by (auto simp: processClaim_def withTenantConnection_def run_txn_def set_claim_def
      dest!: claim_begin_frame claim_fail_frame claim_finalize_frame
      split: sum.splits prod.splits)

lemma claim_under_lock_frame:
  assumes "claim_under_lock cfg env t pid e s = (r, s')"
  shows "locks s' = locks s"
  using assms
  by (auto simp: claim_under_lock_def claim_account_error_def count_attempt_def dest!: processClaim_frame(1)
      split: prod.splits sum.splits mp_error.splits if_splits)

section \<open>Guarantees of a claim request\<close>

lemma redis_get_lapsed: "redis_get ls k now = None \<Longrightarrow> now \<le> u \<Longrightarrow> redis_get ls k u = None"
  by (fastforce simp: redis_get_def find_where_None)

lemma recordFailedAttempt_scores:
  "scores s = scores s' \<Longrightarrow>
   scores (recordFailedAttempt cfg now t e s) = scores (recordFailedAttempt cfg now t e s')"
  by (simp add: recordFailedAttempt_def split: option.splits prod.splits)

lemma checkEligibility_down:
  assumes "\<And>rq. isl (rpc rq)"
  shows "checkEligibility rpc t e sh ou ex = Inl GuardrailValidationUnavailable"
proof -
  obtain cause where "rpc \<lparr>rq_tenantId = t, rq_candidateEmployeeId = e, rq_shiftAssignmentId = sh,
      rq_orgUnitId = ou, rq_excludeShiftAssignmentId = the_default ex []\<rparr> = Inl cause"
    using assms by (auto simp: isl_def)
  then show ?thesis by (simp add: checkEligibility_def checkAssignmentEligibility_def)
qed

lemma claim_fail_closed_process:
  assumes down: "\<And>rq. isl (env_rpc env rq)" and fresh: "env_claimId env \<notin> claim_id ` set (claims s)"
    and run: "processClaim cfg env t pid e s = (r, s')"
  shows "isl r \<and> (s' = s \<or> (\<exists>c. s' = s\<lparr>claims := claims s @ [c]\<rparr> \<and> claim_status c = REJECTED \<and>
           claim_validationResult c = Some (VR_Reason False ''guardrail_validation_unavailable'')))"
proof (cases "claim_begin_txn (env_claimId env) (env_clock env 2) pid e t s")
  case (Inl err)
  then show ?thesis using run by (auto simp: processClaim_def withTenantConnection_def)
next
  case (Inr y)
  obtain post c s1 where y: "y = ((post, c), s1)" by (cases y) auto
  have s1: "s1 = s\<lparr>claims := claims s @ [c]\<rparr>" and c: "claim_id c = env_claimId env" "claim_tenantId c = t"
    using claim_begin_frame[OF Inr[unfolded y]] by auto
  have g: "checkEligibility (env_rpc env) t e (post_shiftAssignmentId post) (post_orgUnitId post) None =
      Inl GuardrailValidationUnavailable" by (rule checkEligibility_down[OF down])
  have old: "\<And>d. d \<in> set (claims s) \<Longrightarrow> \<not> is_claim t (claim_id c) d"
    using fresh c by (force simp: is_claim_def)
  have "claim_fail_txn (claim_id c) t s1 = Inr ((), s\<lparr>claims := claims s @
      [c\<lparr>claim_status := REJECTED, claim_validationResult := Some (VR_Reason False ''guardrail_validation_unavailable'')\<rparr>]\<rparr>)"
    using old c by (auto simp: claim_fail_txn_def s1 set_claim_def find_where_append update_where_append update_where_id
        is_claim_def split: option.splits dest: find_where_SomeD)
  then show ?thesis
    using run Inr g by (auto simp: processClaim_def withTenantConnection_def y)
qed

lemma claimE:
  assumes "claim cfg env t pid e s = (r, s')"
  obtains (limited) err where "assertNotRateLimited (cfg_limiter cfg) (env_clock env 0) t e s = (Inl err, s)"
      "r = Inl err" "s' = count_attempt ''rate_limited'' s"
  | (redis_down) "\<not> env_redis env 0" "r = Inl MarketplaceUnavailable" "s' = count_attempt ''infra_unavailable'' s"
  | (busy) x where "env_redis env 0" "redis_get (locks s) (claimLockKey t pid) (env_clock env 1) = Some x"
      "r = Inl (PostAlreadyBeingClaimed pid)"
      "s' = count_attempt ''lock_lost'' (recordFailedAttempt (cfg_limiter cfg) (env_clock env 2) t e s)"
  | (locked) ls s3 where "env_redis env 0" "redis_get (locks s) (claimLockKey t pid) (env_clock env 1) = None"
      "redis_set_nx (locks s) (claimLockKey t pid) CONTENTION_LOCK_TTL_SECONDS (env_lockToken env) (env_clock env 1) =
         (Some (env_lockToken env), ls)"
      "claim_under_lock cfg env t pid e (s\<lparr>locks := ls\<rparr>) = (r, s3)"
      "s' = releaseClaimLock (env_redis env 1) (env_clock env 6) t pid (env_lockToken env) s3"
proof -
  have lim: "snd (assertNotRateLimited (cfg_limiter cfg) (env_clock env 0) t e s) = s"
    by (simp add: assertNotRateLimited_def split: prod.splits option.splits)
  show thesis
  proof (cases "fst (assertNotRateLimited (cfg_limiter cfg) (env_clock env 0) t e s)")
    case (Inl err)
    then have "assertNotRateLimited (cfg_limiter cfg) (env_clock env 0) t e s = (Inl err, s)" using lim by (metis prod.collapse)
    then show thesis using assms limited by (simp add: claim_def)
  next
    case (Inr u)
    then have "assertNotRateLimited (cfg_limiter cfg) (env_clock env 0) t e s = (Inr (), s)" using lim by (metis old.unit.exhaust prod.collapse)
    then show thesis
      using assms redis_down busy locked
      by (auto simp: claim_def acquireClaimLock_def redis_set_nx_def split: if_splits option.splits prod.splits)
  qed
qed

lemma count_attempt_fields [simp]:
  "posts (count_attempt l s) = posts s" "claims (count_attempt l s) = claims s" "outbox (count_attempt l s) = outbox s"
  "pushes (count_attempt l s) = pushes s" "scores (count_attempt l s) = scores s" "locks (count_attempt l s) = locks s"
  "engagementEvents (count_attempt l s) = engagementEvents s" "claimAttempts (count_attempt l s) = claimAttempts s @ [l]"
  by (simp_all add: count_attempt_def)

lemma claim_account_error_fields [simp]:
  "posts (claim_account_error cfg env t e err s) = posts s" "claims (claim_account_error cfg env t e err s) = claims s"
  "outbox (claim_account_error cfg env t e err s) = outbox s" "pushes (claim_account_error cfg env t e err s) = pushes s"
  "engagementEvents (claim_account_error cfg env t e err s) = engagementEvents s"
  "locks (claim_account_error cfg env t e err s) = locks s"
  by (simp_all add: claim_account_error_def split: mp_error.splits)

lemma claim_account_error_counts: "\<exists>l. claimAttempts (claim_account_error cfg env t e err s) = claimAttempts s @ [l]"
  by (simp add: claim_account_error_def split: mp_error.splits)

lemma releaseClaimLock_fields [simp]:
  "posts (releaseClaimLock up now t p tok s) = posts s" "claims (releaseClaimLock up now t p tok s) = claims s"
  "outbox (releaseClaimLock up now t p tok s) = outbox s" "pushes (releaseClaimLock up now t p tok s) = pushes s"
  "scores (releaseClaimLock up now t p tok s) = scores s"
  "engagementEvents (releaseClaimLock up now t p tok s) = engagementEvents s"
  "claimAttempts (releaseClaimLock up now t p tok s) = claimAttempts s"
  by (simp_all add: releaseClaimLock_def)

text \<open>
  Property C24. When the guardrail service cannot be reached a claim request fails closed: it ends in an
  error, no post changes status, no event is recorded, nothing is pushed or awarded, and the only
  trace in the claim table is at most one new claim, rejected for the transient reason.
\<close>

theorem claim_fails_closed:
  assumes "\<And>rq. isl (env_rpc env rq)" "env_claimId env \<notin> claim_id ` set (claims s)"
    and "claim cfg env t pid e s = (r, s')"
  shows "isl r \<and> posts s' = posts s \<and> outbox s' = outbox s \<and> pushes s' = pushes s \<and>
     engagementEvents s' = engagementEvents s \<and>
     (claims s' = claims s \<or> (\<exists>c. claims s' = claims s @ [c] \<and> claim_status c = REJECTED \<and>
        claim_validationResult c = Some (VR_Reason False ''guardrail_validation_unavailable'')))"
  using assms(3)
proof (cases rule: claimE)
  case (locked ls s3)
  let ?s = "s\<lparr>locks := ls\<rparr>"
  obtain q s2 where q: "processClaim cfg env t pid e ?s = (q, s2)" by fastforce
  note p = claim_fail_closed_process[OF assms(1) _ q]
  from p assms(2) obtain err where "q = Inl err" by (cases q) auto
  with q locked p assms(2) show ?thesis by (auto simp: claim_under_lock_def)
qed auto

theorem claim_fails_closed_witness:
  "let down = demo_env\<lparr>env_rpc := (\<lambda>_. Inl ''UNAVAILABLE'')\<rparr> in
   isl (fst (claim demo_cfg down ''t1'' ''p1'' ''e1'' demo_state)) \<and>
   posts (snd (claim demo_cfg down ''t1'' ''p1'' ''e1'' demo_state)) = [demo_post]"
  using claim_fails_closed[of "demo_env\<lparr>env_rpc := (\<lambda>_. Inl ''UNAVAILABLE'')\<rparr>" demo_state demo_cfg "''t1''" "''p1''" "''e1''"
      "fst (claim demo_cfg (demo_env\<lparr>env_rpc := (\<lambda>_. Inl ''UNAVAILABLE'')\<rparr>) ''t1'' ''p1'' ''e1'' demo_state)"
      "snd (claim demo_cfg (demo_env\<lparr>env_rpc := (\<lambda>_. Inl ''UNAVAILABLE'')\<rparr>) ''t1'' ''p1'' ''e1'' demo_state)"]
  by (simp add: demo_state_def empty_state_def)

text \<open>
  A request gives the contention lock back: if the lock was free when the request asked for
  it and Redis answers the release within the lock's time to live, the lock is free again
  afterwards, whatever the outcome of the request; a request that finds the lock taken leaves it
  to its holder.
\<close>

theorem claim_releases_lock:
  assumes "claim cfg env t pid e s = (r, s')" "env_redis env 1"
    and "env_clock env 1 \<le> env_clock env 6" "env_clock env 6 < env_clock env 1 + CONTENTION_LOCK_TTL_SECONDS * 1000"
    and "env_clock env 1 \<le> u"
  shows "(redis_get (locks s) (claimLockKey t pid) (env_clock env 1) = None \<longrightarrow>
            redis_get (locks s') (claimLockKey t pid) u = None) \<and>
         (redis_get (locks s) (claimLockKey t pid) (env_clock env 1) \<noteq> None \<longrightarrow> locks s' = locks s)"
  using assms(1)
proof (cases rule: claimE)
  case (locked ls s3)
  have "redis_get ls (claimLockKey t pid) (env_clock env 6) = Some (env_lockToken env)"
    using redis_lock.acquire_holds[OF locked(2) assms(3,4), of "env_lockToken env"] locked(3) by simp
  moreover have "locks s3 = ls" using claim_under_lock_frame[OF locked(4)] by simp
  ultimately have "redis_get (locks s') (claimLockKey t pid) u = None"
    using redis_lock.release_own[of ls "claimLockKey t pid" "env_clock env 6" "env_lockToken env" u] locked(5) assms(2)
    by (simp add: releaseClaimLock_def)
  then show ?thesis using locked(2) by simp
qed (use assms(5) in \<open>auto intro: redis_get_lapsed\<close>)

theorem claim_releases_lock_witness:
  "redis_get (locks (snd (claim demo_cfg demo_env ''t1'' ''p1'' ''e1'' demo_state)))
     (claimLockKey ''t1'' ''p1'') 1000006 = None"
  using claim_releases_lock[of demo_cfg demo_env "''t1''" "''p1''" "''e1''" demo_state
      "fst (claim demo_cfg demo_env ''t1'' ''p1'' ''e1'' demo_state)"
      "snd (claim demo_cfg demo_env ''t1'' ''p1'' ''e1'' demo_state)" 1000006]
  by (simp add: demo_env_def demo_state_def empty_state_def redis_get_def CONTENTION_LOCK_TTL_SECONDS_def)

definition answerable :: "mp_error \<Rightarrow> bool" where
  "answerable err \<longleftrightarrow> (case err of MarketplacePostNotFound _ \<Rightarrow> True | PostNotOpen _ _ \<Rightarrow> True
     | PostAlreadyBeingClaimed _ \<Rightarrow> True | _ \<Rightarrow> False)"

text \<open>
  Every claim request adds exactly one label to the attempt counter, and a request that ends in
  an error the caller is not answerable for (rate limit, Redis, guardrail service, database)
  leaves every failed-attempt window as it was, while an error the caller is answerable for is
  recorded as one failed attempt.
\<close>

theorem claim_accounting:
  assumes "claim cfg env t pid e s = (r, s')"
  shows "(\<exists>label. claimAttempts s' = claimAttempts s @ [label]) \<and>
         (\<forall>err. r = Inl err \<longrightarrow> \<not> answerable err \<longrightarrow> scores s' = scores s) \<and>
         (\<forall>err. r = Inl err \<longrightarrow> answerable err \<longrightarrow>
            (\<exists>now. scores s' = scores (recordFailedAttempt (cfg_limiter cfg) now t e s)))"
  using assms
proof (cases rule: claimE)
  case (locked ls s3)
  let ?s = "s\<lparr>locks := ls\<rparr>"
  obtain q s2 where q: "processClaim cfg env t pid e ?s = (q, s2)" by fastforce
  show ?thesis
  proof (cases q)
    case (Inl err)
    then show ?thesis
      using q locked processClaim_frame(2)[OF q] processClaim_error_scores[of cfg env t pid e ?s err s2]
        claim_account_error_counts[of cfg env t e err s2] recordFailedAttempt_scores[of s2 s "cfg_limiter cfg" "env_clock env 5" t e]
      by (auto simp: claim_under_lock_def claim_account_error_def answerable_def split: mp_error.splits)
  next
    case (Inr y)
    then show ?thesis
      using q locked processClaim_frame(2)[OF q] by (cases y) (auto simp: claim_under_lock_def)
  qed
qed (auto simp: answerable_def assertNotRateLimited_def split: prod.splits option.splits if_splits)

theorem claim_accounting_witness:
  "\<exists>label. claimAttempts (snd (claim demo_cfg demo_env ''t1'' ''p1'' ''e1'' demo_state)) = [label]"
  using claim_accounting[of demo_cfg demo_env "''t1''" "''p1''" "''e1''" demo_state
      "fst (claim demo_cfg demo_env ''t1'' ''p1'' ''e1'' demo_state)"
      "snd (claim demo_cfg demo_env ''t1'' ''p1'' ''e1'' demo_state)"]
  by (simp add: demo_state_def empty_state_def)

end
