(* ===== verification/Bid_Guarantees.thy ===== *)
theory Bid_Guarantees
  imports Bid_Service Claim_Guarantees
begin

text \<open>
  What closing a bid opportunity guarantees: every bid is ranked, the ranking is final, and what
  happens to a bid that arrives while the opportunity is being closed.
\<close>

section \<open>Writing the ranking back\<close>

definition rank_of :: "ranked_bid list \<Rightarrow> bid \<Rightarrow> ranked_bid" where
  "rank_of ranked b = the (map_of (rev (map (\<lambda>r. (rk_id r, r)) ranked)) (bid_id b))"

definition ranked_as :: "ranked_bid list \<Rightarrow> bid \<Rightarrow> bid" where
  "ranked_as ranked b = b\<lparr>bid_rankScore := rk_rankScore (rank_of ranked b),
     bid_rankPosition := Some (rk_rankPosition (rank_of ranked b)),
     bid_rankExplanation := Some (rk_rankExplanation (rank_of ranked b))\<rparr>"

lemma ranked_as_fields [simp]:
  "bid_id (ranked_as ranked b) = bid_id b" "bid_tenantId (ranked_as ranked b) = bid_tenantId b"
  "bid_bidOpportunityId (ranked_as ranked b) = bid_bidOpportunityId b"
  "bid_employeeId (ranked_as ranked b) = bid_employeeId b"
  "bid_rankPosition (ranked_as ranked b) = Some (rk_rankPosition (rank_of ranked b))"
  by (simp_all add: ranked_as_def)

lemma rank_of_lookup:
  assumes "mset (map rk_id ranked) = mset (map bid_id bs)" "distinct (map bid_id bs)" "b \<in> set bs"
  shows "map_of (rev (map (\<lambda>r. (rk_id r, r)) ranked)) (bid_id b) = Some (rank_of ranked b)"
    and "rank_of ranked b \<in> set ranked" and "rk_id (rank_of ranked b) = bid_id b"
proof -
  have "bid_id b \<in> set (map rk_id ranked)" using assms(1,3) by (metis mset_eq_setD image_eqI list.set_map)
  then obtain r where r: "r \<in> set ranked" "rk_id r = bid_id b" by auto
  have "distinct (map rk_id ranked)" using assms(1,2) by (metis mset_eq_imp_distinct_iff)
  then have "map_of (rev (map (\<lambda>r. (rk_id r, r)) ranked)) (bid_id b) = Some r"
    using r by (intro map_of_is_SomeI) (force simp: comp_def simp flip: rev_map)+
  with r show "map_of (rev (map (\<lambda>r. (rk_id r, r)) ranked)) (bid_id b) = Some (rank_of ranked b)"
    "rank_of ranked b \<in> set ranked" "rk_id (rank_of ranked b) = bid_id b" by (simp_all add: rank_of_def)
qed

lemma apply_rankings_eq:
  assumes "mset (map rk_id ranked) = mset (map bid_id bs)" "distinct (map bid_id bs)"
  shows "apply_rankings ranked bs = map (ranked_as ranked) bs"
proof -
  have "map (\<lambda>b. case map_of (rev (map (\<lambda>r. (rk_id r, r)) ranked)) (bid_id b) of None \<Rightarrow> []
     | Some r \<Rightarrow> [b\<lparr>bid_rankScore := rk_rankScore r, bid_rankPosition := Some (rk_rankPosition r),
                   bid_rankExplanation := Some (rk_rankExplanation r)\<rparr>]) bs = map (\<lambda>b. [ranked_as ranked b]) bs"
    by (rule map_cong[OF refl]) (simp add: rank_of_lookup(1)[OF assms] ranked_as_def)
  then show ?thesis unfolding apply_rankings_def by (simp only:) (induction bs; simp)
qed

lemma rank_of_perm:
  assumes "mset (map rk_id ranked) = mset (map bid_id bs)" "distinct (map bid_id bs)"
  shows "mset (map (rank_of ranked) bs) = mset ranked"
proof -
  note look = rank_of_lookup[OF assms]
  have dr: "distinct (map rk_id ranked)" using assms by (metis mset_eq_imp_distinct_iff)
  have ids: "map rk_id (map (rank_of ranked) bs) = map bid_id bs" using look(3) by simp
  then have "distinct (map (rank_of ranked) bs)" using assms(2) by (metis distinct_map)
  moreover have "distinct ranked" using dr by (simp add: distinct_map)
  moreover have "set (map (rank_of ranked) bs) = set ranked"
  proof
    show "set (map (rank_of ranked) bs) \<subseteq> set ranked" using look(2) by auto
    show "set ranked \<subseteq> set (map (rank_of ranked) bs)"
    proof
      fix r assume r: "r \<in> set ranked"
      then have "rk_id r \<in> set (map bid_id bs)" using assms(1) by (metis mset_eq_setD image_eqI list.set_map)
      then obtain b where "b \<in> set bs" "bid_id b = rk_id r" by auto
      with look(2,3)[of b] dr r have "r = rank_of ranked b" by (auto simp: distinct_map inj_on_def)
      with \<open>b \<in> set bs\<close> show "r \<in> set (map (rank_of ranked) bs)" by simp
    qed
  qed
  ultimately show ?thesis using set_eq_iff_mset_eq_distinct by blast
qed

lemma filter_map_if:
  "(\<And>x. P (f x) = P x) \<Longrightarrow> filter P (map (\<lambda>x. if P x then f x else x) xs) = map f (filter P xs)"
  by (induction xs) auto

lemma bids_of_saved:
  assumes "distinct (map bid_id (bids s))" "\<And>b. bid_id (f b) = bid_id b \<and> bid_tenantId (f b) = bid_tenantId b \<and>
      bid_bidOpportunityId (f b) = bid_bidOpportunityId b"
  shows "bids_of t oid (save_bids (map f (bids_of t oid s)) s) = map f (bids_of t oid s)"
proof -
  let ?P = "\<lambda>b. bid_bidOpportunityId b = oid \<and> bid_tenantId b = t"
  let ?g = "\<lambda>row. case find_where (\<lambda>b. bid_id b = bid_id row) (map f (bids_of t oid s)) of None \<Rightarrow> row | Some b \<Rightarrow> b"
  have g: "?g row = (if ?P row then f row else row)" if row: "row \<in> set (bids s)" for row
  proof (cases "?P row")
    case True
    have "find_where (\<lambda>b. bid_id b = bid_id row) (map f (bids_of t oid s)) = Some (f row)"
    proof (rule find_where_unique[where k = bid_id])
      have "map bid_id (map f (bids_of t oid s)) = map bid_id (bids_of t oid s)" using assms(2) by simp
      then show "distinct (map bid_id (map f (bids_of t oid s)))"
        using assms(1) by (simp only: bids_of_def distinct_map_filter)
    qed (use True row assms(2) in \<open>auto simp: bids_of_def\<close>)
    with True show ?thesis by simp
  next
    case False
    have "find_where (\<lambda>b. bid_id b = bid_id row) (map f (bids_of t oid s)) = None"
      using False row assms(2) inj_onD[of bid_id "set (bids s)" _ row] assms(1)
      by (auto simp: find_where_None bids_of_def distinct_map)
    with False show ?thesis by auto
  qed
  have "bids (save_bids (map f (bids_of t oid s)) s) = map (\<lambda>row. if ?P row then f row else row) (bids s)"
    unfolding save_bids_def using g by simp
  then show ?thesis
    using assms(2) unfolding bids_of_def by (simp add: filter_map_if)
qed

section \<open>The conversion touches no bid\<close>

lemma convert_txn_frame:
  "convert_txn auto i o' now post e t s = Inr (r, s') \<Longrightarrow> bids s' = bids s \<and> opportunities s' = opportunities s"
  by (auto simp: convert_txn_def insert_claim_def claim_post_if_open_def recordClaimApproved_def
      mp_insertWithinTransaction_def Let_def split: option.splits if_splits prod.splits)

lemma applyEvent_bids [simp]:
  "bids (applyEvent ec now i inp s) = bids s" "opportunities (applyEvent ec now i inp s) = opportunities s"
  by (subst applyEvent_frame, simp)+

lemma convert_under_lock_frame:
  "bids (convert_under_lock cfg env t opp w s) = bids s \<and>
   opportunities (convert_under_lock cfg env t opp w s) = opportunities s"
  by (auto simp: convert_under_lock_def withTenantConnection_def run_txn_def publishPostUpdated_def Let_def
      dest!: convert_txn_frame split: option.splits sum.splits)

lemma convertWinningBidToClaim_frame [simp]:
  "bids (convertWinningBidToClaim cfg env t opp w s) = bids s"
  "opportunities (convertWinningBidToClaim cfg env t opp w s) = opportunities s"
  using convert_under_lock_frame[of cfg env t opp w]
  by (auto simp: convertWinningBidToClaim_def acquireClaimLock_def releaseClaimLock_def
      split: prod.splits sum.splits option.splits)

lemma save_bids_opportunities [simp]: "opportunities (save_bids saved s) = opportunities s"
  by (simp add: save_bids_def)

section \<open>Guarantees\<close>

definition demo_bid :: "uuid \<Rightarrow> uuid \<Rightarrow> millis \<Rightarrow> bid" where
  "demo_bid i e ms = \<lparr>bid_id = i, bid_tenantId = ''t1'', bid_bidOpportunityId = ''bo1'', bid_employeeId = e,
     bid_rankScore = None, bid_rankPosition = None, bid_rankExplanation = None, bid_submittedAt = ms\<rparr>"

definition demo_auction :: mp_state where
  "demo_auction = demo_state\<lparr>opportunities := [\<lparr>opp_id = ''bo1'', opp_tenantId = ''t1'', opp_marketplacePostId = ''p1'',
       opp_biddingWindowStart = 0, opp_biddingWindowEnd = 900000, opp_rankingMethod = FIRST_COME\<rparr>],
     bids := [demo_bid ''b1'' ''e1'' 20, demo_bid ''b2'' ''e2'' 10]\<rparr>"

lemma closeBidOpportunity_saved:
  assumes dist: "distinct (map bid_id (bids s))"
    and run: "closeBidOpportunity cfg env roster t oid s = (Inr saved, s')" and ne: "saved \<noteq> []"
  obtains opp hires ranked where "find_where (is_opp t oid) (opportunities s) = Some opp"
    "ranked = computeRankings (opp_rankingMethod opp) (map rankable (bids_of t oid s)) (env_clock env 0) hires"
    "saved = map (ranked_as ranked) (bids_of t oid s)"
    "bids s' = bids (save_bids saved s)" "opportunities s' = opportunities s"
    "mset (map (rank_of ranked) (bids_of t oid s)) = mset ranked"
proof -
  obtain opp hires where opp: "find_where (is_opp t oid) (opportunities s) = Some opp"
    and sv: "saved = apply_rankings (computeRankings (opp_rankingMethod opp) (map rankable (bids_of t oid s))
               (env_clock env 0) hires) (bids_of t oid s)"
    and s': "bids s' = bids (save_bids saved s)" "opportunities s' = opportunities s"
    using run ne by (auto simp: closeBidOpportunity_def Let_def split: option.splits if_splits sum.splits)
  define ranked where "ranked = computeRankings (opp_rankingMethod opp) (map rankable (bids_of t oid s)) (env_clock env 0) hires"
  have perm: "mset (map rk_id ranked) = mset (map bid_id (bids_of t oid s))"
    unfolding ranked_def mset_rankings_ids by (simp add: rankable_def comp_def)
  have d: "distinct (map bid_id (bids_of t oid s))" using dist by (simp add: bids_of_def distinct_map_filter)
  show thesis
    by (rule that[OF opp ranked_def _ s' rank_of_perm[OF perm d]])
      (use sv apply_rankings_eq[OF perm d] in \<open>simp add: ranked_def\<close>)
qed

text \<open>
  Closing an opportunity ranks every bid of it: the bids it returns are the opportunity's bids as
  they are stored afterwards, their positions are 1 to n, and a second close is refused and
  changes nothing.
\<close>

theorem close_ranks_every_bid:
  assumes "distinct (map bid_id (bids s))"
    and "closeBidOpportunity cfg env roster t oid s = (Inr saved, s')" "saved \<noteq> []"
  shows "bids_of t oid s' = saved \<and> map bid_id saved = map bid_id (bids_of t oid s) \<and>
         mset (map bid_rankPosition saved) = mset (map Some [1..<length (bids_of t oid s) + 1]) \<and>
         closeBidOpportunity cfg' env' roster' t oid s' = (Inl (BidOpportunityAlreadyClosed oid), s')"
proof -
  obtain opp hires ranked where opp: "find_where (is_opp t oid) (opportunities s) = Some opp"
    and ranked: "ranked = computeRankings (opp_rankingMethod opp) (map rankable (bids_of t oid s)) (env_clock env 0) hires"
    and saved: "saved = map (ranked_as ranked) (bids_of t oid s)"
    and s': "bids s' = bids (save_bids saved s)" "opportunities s' = opportunities s"
    and perm: "mset (map (rank_of ranked) (bids_of t oid s)) = mset ranked"
    using assms by (rule closeBidOpportunity_saved)
  have "bids_of t oid s' = bids_of t oid (save_bids saved s)" using s'(1) by (simp add: bids_of_def)
  also have "\<dots> = saved" unfolding saved by (rule bids_of_saved[OF assms(1)]) simp
  finally have st: "bids_of t oid s' = saved" .
  have "map bid_rankPosition saved = map (\<lambda>r. Some (rk_rankPosition r)) (map (rank_of ranked) (bids_of t oid s))"
    by (simp add: saved)
  then have "mset (map bid_rankPosition saved) = mset (map (\<lambda>r. Some (rk_rankPosition r)) ranked)"
    using perm by (metis mset_map)
  also have "map (\<lambda>r. Some (rk_rankPosition r)) ranked = map Some (map rk_rankPosition ranked)" by simp
  also have "map rk_rankPosition ranked = [1..<length (bids_of t oid s) + 1]"
    unfolding ranked rankings_positions by simp
  finally have pos: "mset (map bid_rankPosition saved) = mset (map Some [1..<length (bids_of t oid s) + 1])" .
  have "\<exists>b\<in>set saved. bid_rankPosition b \<noteq> None" using assms(3) by (cases "bids_of t oid s") (auto simp: saved)
  then have "closeBidOpportunity cfg' env' roster' t oid s' = (Inl (BidOpportunityAlreadyClosed oid), s')"
    using opp s'(2) st by (auto simp: closeBidOpportunity_def Let_def)
  with st pos show ?thesis by (simp add: saved del: upt_Suc)
qed

theorem close_ranks_every_bid_witness:
  "mset (map bid_rankPosition (bids_of ''t1'' ''bo1'' (snd (closeBidOpportunity demo_cfg demo_env (\<lambda>_ _. Inr []) ''t1'' ''bo1'' demo_auction)))) =
   mset [Some 1, Some 2]"
proof -
  obtain saved s' where c: "closeBidOpportunity demo_cfg demo_env (\<lambda>_ _. Inr []) ''t1'' ''bo1'' demo_auction = (Inr saved, s')"
      and ne: "saved \<noteq> []"
    by (auto simp: closeBidOpportunity_def demo_auction_def demo_bid_def demo_state_def bids_of_def is_opp_def close_hire_dates_def
        computeRankings_def rankByFirstCome_def rankable_def first_come_le_def apply_rankings_def Let_def)
  have "distinct (map bid_id (bids demo_auction))" by (simp add: demo_auction_def demo_bid_def)
  moreover have "length (bids_of ''t1'' ''bo1'' demo_auction) = 2"
    by (simp add: bids_of_def demo_auction_def demo_bid_def)
  moreover have "[1..<2 + 1] = [1, 2::nat]" by (simp add: upt_rec)
  ultimately show ?thesis using close_ranks_every_bid[OF _ c ne] by (simp add: c)
qed

text \<open>
  A bid that was admitted while the window was open but stored after the opportunity was closed is
  never ranked: the opportunity stays a candidate of every later sweep, and every attempt to close
  it fails without changing anything.
\<close>

theorem late_bid_stays_unranked:
  assumes "find_where (is_opp t oid) (opportunities s) = Some opp" "opp_biddingWindowEnd opp < now"
    and "b \<in> set (bids_of t oid s)" "bid_rankPosition b = None"
    and "b' \<in> set (bids_of t oid s)" "bid_rankPosition b' \<noteq> None"
  shows "(t, oid) \<in> set (sweep_candidates now s) \<and>
         closeBidOpportunity cfg env roster t oid s = (Inl (BidOpportunityAlreadyClosed oid), s)"
proof -
  have opp: "opp \<in> set (opportunities s)" "opp_id opp = oid" "opp_tenantId opp = t"
    using find_where_SomeD[OF assms(1)] by (auto simp: is_opp_def)
  moreover have "\<exists>b\<in>set (bids s). bid_bidOpportunityId b = oid \<and> bid_rankPosition b = None"
    using assms(3,4) by (auto simp: bids_of_def)
  ultimately have "(t, oid) \<in> set (sweep_candidates now s)"
    using assms(2) by (force simp: sweep_candidates_def)
  then show ?thesis using assms by (auto simp: closeBidOpportunity_def Let_def)
qed

theorem late_bid_stays_unranked_witness:
  "let s = demo_auction\<lparr>bids := [demo_bid ''b1'' ''e1'' 20\<lparr>bid_rankPosition := Some 1\<rparr>, demo_bid ''b2'' ''e2'' 10]\<rparr>
   in closeBidOpportunity demo_cfg demo_env (\<lambda>_ _. Inr []) ''t1'' ''bo1'' s = (Inl (BidOpportunityAlreadyClosed ''bo1''), s)"
proof -
  let ?s = "demo_auction\<lparr>bids := [demo_bid ''b1'' ''e1'' 20\<lparr>bid_rankPosition := Some 1\<rparr>, demo_bid ''b2'' ''e2'' 10]\<rparr>"
  have "find_where (is_opp ''t1'' ''bo1'') (opportunities ?s) = Some \<lparr>opp_id = ''bo1'', opp_tenantId = ''t1'',
      opp_marketplacePostId = ''p1'', opp_biddingWindowStart = 0, opp_biddingWindowEnd = 900000, opp_rankingMethod = FIRST_COME\<rparr>"
    by (simp add: demo_auction_def is_opp_def)
  from late_bid_stays_unranked[OF this, of 1000000 "demo_bid ''b2'' ''e2'' 10" "demo_bid ''b1'' ''e1'' 20\<lparr>bid_rankPosition := Some 1\<rparr>"]
  show ?thesis by (simp add: bids_of_def demo_bid_def Let_def)
qed

end
