(* ===== verification/Platform_Outbox.thy ===== *)
theory Platform_Outbox
  imports Leased_Outbox
begin

text \<open>
  The outbox of the organisation module (\<open>src/src/modules/eventing\<close>): the repository over
  \<open>org.outbox_events\<close> and the publisher that drains it to the bus, with a dead-letter subject for
  events that keep failing. The payload type and the bus are parameters; the database calls of a
  tick are taken to succeed.
\<close>

section \<open>Repository\<close>

type_synonym 'p events_state = "'p outbox_event list \<times> 'p bus_message list"

definition org_OUTBOX_CLAIM_LEASE_SECONDS :: int where
  "org_OUTBOX_CLAIM_LEASE_SECONDS = 60"

definition org_insertWithinTransaction ::
  "uuid \<Rightarrow> millis \<Rightarrow> uuid \<Rightarrow> string \<Rightarrow> 'p \<Rightarrow> 'p outbox_event list \<Rightarrow> 'p outbox_event list" where
  "org_insertWithinTransaction newId now tenantId subject payload rows =
     rows @ [\<lparr>ob_id = newId, ob_tenantId = tenantId, ob_subject = subject, ob_payload = payload,
       ob_createdAt = now, ob_publishedAt = None, ob_claimedAt = None, ob_attempts = 0, ob_lastError = None\<rparr>]"

definition org_record :: "uuid \<Rightarrow> millis \<Rightarrow> uuid \<Rightarrow> string \<Rightarrow> 'p \<Rightarrow> 'p outbox_event list \<Rightarrow> 'p outbox_event list" where
  "org_record newId now tenantId subject payload =
     (\<lambda>rows. snd (run_txn (\<lambda>rs. (Inr ((), org_insertWithinTransaction newId now tenantId subject payload rs) :: unit + _)) rows))"

definition org_findUnpublishedBatch ::
  "nat \<Rightarrow> millis \<Rightarrow> 'p outbox_event list \<Rightarrow> 'p outbox_event list \<times> 'p outbox_event list" where
  "org_findUnpublishedBatch =
     sql_claim_batch ob_id (\<lambda>r. ob_publishedAt r = None) ob_claimedAt ob_createdAt
       (\<lambda>now r. r\<lparr>ob_claimedAt := Some now\<rparr>) org_OUTBOX_CLAIM_LEASE_SECONDS"

definition org_markPublished :: "millis \<Rightarrow> uuid \<Rightarrow> 'p outbox_event list \<Rightarrow> 'p outbox_event list" where
  "org_markPublished now i = update_where (\<lambda>r. ob_id r = i) (\<lambda>r. r\<lparr>ob_publishedAt := Some now\<rparr>)"

definition org_recordFailure :: "string \<Rightarrow> uuid \<Rightarrow> 'p outbox_event list \<Rightarrow> 'p outbox_event list" where
  "org_recordFailure error i =
     update_where (\<lambda>r. ob_id r = i) (\<lambda>r. r\<lparr>ob_attempts := ob_attempts r + 1, ob_lastError := Some error\<rparr>)"

interpretation org_outbox: leased_queue
  ob_id "\<lambda>r. ob_publishedAt r = None" ob_claimedAt org_OUTBOX_CLAIM_LEASE_SECONDS
  org_findUnpublishedBatch org_markPublished org_recordFailure
  unfolding org_findUnpublishedBatch_def org_markPublished_def[abs_def] org_recordFailure_def[abs_def]
  by (rule sql_leased_queue) auto

section \<open>Publisher\<close>

definition org_BATCH_SIZE :: nat where
  "org_BATCH_SIZE = 100"

definition MAX_ATTEMPTS_BEFORE_DLQ :: nat where
  "MAX_ATTEMPTS_BEFORE_DLQ = 5"

definition org_SUBJECTS_DLQ :: string where
  "org_SUBJECTS_DLQ = ''agno.org.dlq.v1''"

definition original_message :: "'p outbox_event \<Rightarrow> 'p bus_message" where
  "original_message ev = \<lparr>msg_subject = ob_subject ev, msg_payload = Original (ob_payload ev), msg_id = ob_id ev\<rparr>"

definition dlq_message :: "string \<Rightarrow> 'p outbox_event \<Rightarrow> string \<Rightarrow> 'p bus_message" where
  "dlq_message dlq ev error = \<lparr>msg_subject = dlq, msg_payload = DeadLetter (ob_subject ev) (ob_payload ev) error,
     msg_id = ob_id ev @ '':dlq''\<rparr>"

definition routeToDlq ::
  "'p bus \<Rightarrow> string \<Rightarrow> millis \<Rightarrow> 'p outbox_event \<Rightarrow> string \<Rightarrow> 'p events_state \<Rightarrow> 'p events_state" where
  "routeToDlq publish dlq now event error st =
     (case st of (rows, sent) \<Rightarrow>
        case publish (dlq_message dlq event error) of
          None \<Rightarrow> (org_markPublished now (ob_id event) rows, sent @ [dlq_message dlq event error])
        | Some dlqErr \<Rightarrow> (org_recordFailure (''DLQ publish also failed: '' @ dlqErr) (ob_id event) rows, sent))"

definition org_attempt :: "'p bus \<Rightarrow> string \<Rightarrow> millis \<Rightarrow> 'p outbox_event \<Rightarrow> 'p events_state \<Rightarrow> 'p events_state" where
  \<comment> \<open>the body of the loop of \<open>drain\<close>\<close>
  "org_attempt publish dlq now event st =
     (case st of (rows, sent) \<Rightarrow>
        case publish (original_message event) of
          None \<Rightarrow> (org_markPublished now (ob_id event) rows, sent @ [original_message event])
        | Some message \<Rightarrow>
            if ob_attempts event + 1 \<ge> MAX_ATTEMPTS_BEFORE_DLQ
            then routeToDlq publish dlq now event message (rows, sent)
            else (org_recordFailure message (ob_id event) rows, sent))"

fun org_drain_loop :: "'p bus \<Rightarrow> millis \<Rightarrow> 'p outbox_event list \<Rightarrow> 'p events_state \<Rightarrow> 'p events_state" where
  "org_drain_loop publish now [] st = st"
| "org_drain_loop publish now (event # batch) st =
     org_drain_loop publish now batch (org_attempt publish org_SUBJECTS_DLQ now event st)"

definition org_drain :: "'p bus \<Rightarrow> millis \<Rightarrow> 'p events_state \<Rightarrow> 'p events_state" where
  "org_drain publish now st =
     (case st of (rows, sent) \<Rightarrow>
        case org_findUnpublishedBatch org_BATCH_SIZE now rows of
          (batch, rows') \<Rightarrow> org_drain_loop publish now batch (rows', sent))"

definition org_tick :: "'p bus \<Rightarrow> millis \<Rightarrow> bool \<Rightarrow> 'p events_state \<Rightarrow> bool \<times> 'p events_state" where
  "org_tick publish now ticking st = (if ticking then (ticking, st) else (False, org_drain publish now st))"

section \<open>What a drain does to a row\<close>

definition dlq_settle :: "'p bus \<Rightarrow> string \<Rightarrow> millis \<Rightarrow> 'p outbox_event \<Rightarrow> 'p outbox_event \<Rightarrow> 'p outbox_event" where
  \<comment> \<open>the row \<open>r\<close> after the attempt to publish \<open>ev\<close>\<close>
  "dlq_settle publish dlq now ev r =
     (case publish (original_message ev) of
        None \<Rightarrow> r\<lparr>ob_publishedAt := Some now\<rparr>
      | Some message \<Rightarrow>
          if ob_attempts ev + 1 \<ge> MAX_ATTEMPTS_BEFORE_DLQ
          then (case publish (dlq_message dlq ev message) of
                  None \<Rightarrow> r\<lparr>ob_publishedAt := Some now\<rparr>
                | Some dlqErr \<Rightarrow> r\<lparr>ob_attempts := ob_attempts r + 1,
                                     ob_lastError := Some (''DLQ publish also failed: '' @ dlqErr)\<rparr>)
          else r\<lparr>ob_attempts := ob_attempts r + 1, ob_lastError := Some message\<rparr>)"

definition dlq_accepted :: "'p bus \<Rightarrow> string \<Rightarrow> 'p outbox_event \<Rightarrow> 'p bus_message list" where
  \<comment> \<open>what the bus has taken over after that attempt\<close>
  "dlq_accepted publish dlq ev =
     (case publish (original_message ev) of
        None \<Rightarrow> [original_message ev]
      | Some message \<Rightarrow>
          if ob_attempts ev + 1 \<ge> MAX_ATTEMPTS_BEFORE_DLQ \<and> publish (dlq_message dlq ev message) = None
          then [dlq_message dlq ev message] else [])"

lemma org_attempt_eq:
  "org_attempt publish dlq now ev (rows, sent) =
     (update_where (\<lambda>r. ob_id r = ob_id ev) (dlq_settle publish dlq now ev) rows, sent @ dlq_accepted publish dlq ev)"
  by (simp add: org_attempt_def routeToDlq_def dlq_settle_def[abs_def] dlq_accepted_def org_markPublished_def
      org_recordFailure_def split: option.splits)

lemma org_drain_loop_eq:
  "org_drain_loop publish now evs (rows, sent) =
     (foldl (\<lambda>rows ev. update_where (\<lambda>r. ob_id r = ob_id ev) (dlq_settle publish org_SUBJECTS_DLQ now ev) rows) rows evs,
      sent @ concat (map (dlq_accepted publish org_SUBJECTS_DLQ) evs))"
  by (induction evs arbitrary: rows sent) (simp_all add: org_attempt_eq)

lemma dlq_settle_id [simp]: "ob_id (dlq_settle publish dlq now ev r) = ob_id r"
  by (simp add: dlq_settle_def split: option.splits)

lemma org_batch_distinct:
  assumes "distinct (map ob_id rows)" "org_findUnpublishedBatch n now rows = (batch, claimed)"
  shows "distinct (map ob_id claimed)" "set batch \<subseteq> set claimed" "distinct (map ob_id batch)"
proof -
  show ids: "distinct (map ob_id claimed)" using org_outbox.batch_ids[of n now rows] assms by simp
  show "set batch \<subseteq> set claimed" using org_outbox.batch_rows[of _ n now rows] assms(2) by auto
  show "distinct (map ob_id batch)"
    using ids assms(2) by (auto simp: org_findUnpublishedBatch_def sql_claim_batch_def Let_def distinct_map_filter)
qed

lemma org_batch_pending:
  assumes "distinct (map ob_id rows)" "org_findUnpublishedBatch n now rows = (batch, claimed)" "ev \<in> set batch"
  shows "ob_publishedAt ev = None"
proof -
  obtain q where q: "q \<in> set rows" "ob_id q = ob_id ev" "ob_publishedAt q = ob_publishedAt ev"
    using assms(2,3) by (auto simp: org_findUnpublishedBatch_def sql_claim_batch_def Let_def set_update_where split: if_splits)
  have "ob_id q \<in> ob_id ` set (fst (org_findUnpublishedBatch n now rows))" using q(2) assms(2,3) by auto
  from org_outbox.batch_eligible[OF assms(1) q(1) this] q(3) show ?thesis by simp
qed

lemma org_drain_settles:
  assumes "distinct (map ob_id rows)" "org_findUnpublishedBatch org_BATCH_SIZE now rows = (batch, claimed)"
  shows "org_drain publish now (rows, sent) =
     (map (\<lambda>r. if ob_id r \<in> ob_id ` set batch then dlq_settle publish org_SUBJECTS_DLQ now r r else r) claimed,
      sent @ concat (map (dlq_accepted publish org_SUBJECTS_DLQ) batch))"
  using org_batch_distinct[OF assms] assms(2)
  by (simp add: org_drain_def org_drain_loop_eq foldl_update_by_id[where rid = ob_id])

section \<open>Guarantees\<close>

definition demo_org_event :: "string outbox_event" where
  "demo_org_event = \<lparr>ob_id = ''o1'', ob_tenantId = ''t1'', ob_subject = ''agno.org.employee.changed.v1'', ob_payload = ''x'',
     ob_createdAt = 1, ob_publishedAt = None, ob_claimedAt = None, ob_attempts = 0, ob_lastError = None\<rparr>"

text \<open>
  A drain accounts for every event of its batch: afterwards the event is marked published exactly
  when the bus has taken over the event itself or, after the last allowed attempt, its dead
  letter; otherwise it stays unpublished with one more attempt and an error. No more messages
  are sent than the batch has events.
\<close>

theorem org_drain_accounts:
  assumes "distinct (map ob_id rows)" "org_findUnpublishedBatch org_BATCH_SIZE now rows = (batch, claimed)"
    and "org_drain publish now (rows, []) = (rows', sent)" "ev \<in> set batch"
  shows "\<exists>r\<in>set rows'. ob_id r = ob_id ev \<and> length sent \<le> length batch \<and>
     (if ob_publishedAt r \<noteq> None
      then (\<exists>m\<in>set sent. m = original_message ev \<or>
              (ob_attempts ev + 1 \<ge> MAX_ATTEMPTS_BEFORE_DLQ \<and>
               (\<exists>err. publish (original_message ev) = Some err \<and> m = dlq_message org_SUBJECTS_DLQ ev err)))
      else publish (original_message ev) \<noteq> None \<and> ob_attempts r = ob_attempts ev + 1 \<and> ob_lastError r \<noteq> None)"
proof -
  let ?dlq = org_SUBJECTS_DLQ
  note d = org_drain_settles[OF assms(1,2), of publish "[]"]
  have rows': "rows' = map (\<lambda>r. if ob_id r \<in> ob_id ` set batch then dlq_settle publish ?dlq now r r else r) claimed"
    and sent: "sent = concat (map (dlq_accepted publish ?dlq) batch)" using d assms(3) by auto
  note pend = org_batch_pending[OF assms(1,2,4)]
  have "ev \<in> set claimed" using org_batch_distinct(2)[OF assms(1,2)] assms(4) by blast
  then have mem: "dlq_settle publish ?dlq now ev ev \<in> set rows'" using assms(4) by (force simp: rows')
  have sub: "set (dlq_accepted publish ?dlq ev) \<subseteq> set sent" using assms(4) by (auto simp: sent)
  have one: "length (dlq_accepted publish ?dlq x) \<le> 1" for x by (simp add: dlq_accepted_def split: option.splits)
  have "length (concat (map (dlq_accepted publish ?dlq) xs)) \<le> length xs" for xs
  proof (induction xs)
    case (Cons x xs)
    then show ?case using one[of x] by simp
  qed simp
  then have "length sent \<le> length batch" by (simp add: sent)
  moreover have "if ob_publishedAt (dlq_settle publish ?dlq now ev ev) \<noteq> None
      then (\<exists>m\<in>set (dlq_accepted publish ?dlq ev). m = original_message ev \<or>
              (ob_attempts ev + 1 \<ge> MAX_ATTEMPTS_BEFORE_DLQ \<and>
               (\<exists>err. publish (original_message ev) = Some err \<and> m = dlq_message ?dlq ev err)))
      else publish (original_message ev) \<noteq> None \<and> ob_attempts (dlq_settle publish ?dlq now ev ev) = ob_attempts ev + 1 \<and>
        ob_lastError (dlq_settle publish ?dlq now ev ev) \<noteq> None"
    using pend by (auto simp: dlq_settle_def dlq_accepted_def split: option.splits)
  ultimately show ?thesis
    using sub by (intro bexI[OF _ mem]) (auto split: if_splits)
qed

theorem org_drain_accounts_witness:
  "\<exists>r\<in>set (fst (org_drain (\<lambda>_. Some ''refused'') 5 ([demo_org_event], []))). ob_id r = ''o1''"
proof -
  have b: "org_findUnpublishedBatch org_BATCH_SIZE 5 [demo_org_event] =
      ([demo_org_event\<lparr>ob_claimedAt := Some 5\<rparr>], [demo_org_event\<lparr>ob_claimedAt := Some 5\<rparr>])" by code_simp
  from org_drain_accounts[OF _ b, of "\<lambda>_. Some ''refused''" "fst (org_drain (\<lambda>_. Some ''refused'') 5 ([demo_org_event], []))"
      "snd (org_drain (\<lambda>_. Some ''refused'') 5 ([demo_org_event], []))" "demo_org_event\<lparr>ob_claimedAt := Some 5\<rparr>"]
  show ?thesis by (auto simp: demo_org_event_def)
qed

text \<open>
  An event whose publication failed is left alone until its lease has passed: a drain that starts
  no later than the lease after the failing one neither touches its row nor sends anything for it.
\<close>

theorem org_failed_event_waits:
  assumes "distinct (map ob_id rows)" "org_findUnpublishedBatch org_BATCH_SIZE now rows = (batch, claimed)"
    and "org_drain publish now (rows, []) = (rows', sent)" "r \<in> set rows'" "ob_id r \<in> ob_id ` set batch"
    and "now' \<le> now + org_OUTBOX_CLAIM_LEASE_SECONDS * 1000"
    and "org_findUnpublishedBatch org_BATCH_SIZE now' rows' = (batch', claimed')"
  shows "ob_id r \<notin> ob_id ` set batch' \<and> r \<in> set (fst (org_drain publish' now' (rows', [])))"
proof -
  let ?s = "\<lambda>q. if ob_id q \<in> ob_id ` set batch then dlq_settle publish org_SUBJECTS_DLQ now q q else q"
  have rows': "rows' = map ?s claimed" using org_drain_settles[OF assms(1,2), of publish "[]"] assms(3) by auto
  then have ids: "map ob_id rows' = map ob_id claimed" by simp
  then have dist: "distinct (map ob_id rows')" using org_batch_distinct(1)[OF assms(1,2)] by simp
  obtain q where q: "q \<in> set claimed" "r = ?s q" using assms(4) rows' by auto
  then have "ob_id q \<in> ob_id ` set batch" using assms(5) by (cases "ob_id q \<in> ob_id ` set batch") simp_all
  then obtain ev where ev: "ev \<in> set batch" "ob_id ev = ob_id q" by auto
  have "ev = q"
    using org_batch_distinct(1,2)[OF assms(1,2)] ev q(1) by (auto simp: distinct_map inj_on_def)
  then have "ob_claimedAt q = Some now" using org_outbox.batch_rows[of ev org_BATCH_SIZE now rows] ev assms(2) by simp
  then have "ob_claimedAt r = Some now" using q by (simp add: dlq_settle_def split: option.splits)
  then have "\<not> lease_free ob_claimedAt org_OUTBOX_CLAIM_LEASE_SECONDS now' r"
    using assms(6) by (simp add: lease_free_def)
  then have no: "ob_id r \<notin> ob_id ` set batch'"
    using org_outbox.batch_eligible[OF dist assms(4), of org_BATCH_SIZE now'] assms(7) by auto
  then have "r \<in> set claimed'" using org_outbox.batch_rest[OF assms(4), of org_BATCH_SIZE now'] assms(7) by simp
  with no show ?thesis using org_drain_settles[OF dist assms(7), of publish' "[]"] by force
qed

theorem org_failed_event_waits_witness:
  "fst (org_drain (\<lambda>_. Some ''refused'') 5 ([demo_org_event], [])) \<noteq> [] \<and>
   hd (fst (org_drain (\<lambda>_. Some ''refused'') 5 ([demo_org_event], []))) \<in>
     set (fst (org_drain (\<lambda>_. None) 50005 (fst (org_drain (\<lambda>_. Some ''refused'') 5 ([demo_org_event], [])), [])))"
proof -
  let ?r = "demo_org_event\<lparr>ob_claimedAt := Some 5, ob_attempts := 1, ob_lastError := Some ''refused''\<rparr>"
  have b: "org_findUnpublishedBatch org_BATCH_SIZE 5 [demo_org_event] =
      ([demo_org_event\<lparr>ob_claimedAt := Some 5\<rparr>], [demo_org_event\<lparr>ob_claimedAt := Some 5\<rparr>])" by code_simp
  have d: "org_drain (\<lambda>_. Some ''refused'') 5 ([demo_org_event], []) = ([?r], [])"
    unfolding org_drain_def prod.case b
    by (simp add: org_attempt_def MAX_ATTEMPTS_BEFORE_DLQ_def org_recordFailure_def demo_org_event_def)
  have b': "org_findUnpublishedBatch org_BATCH_SIZE 50005 [?r] = ([], [?r])" by code_simp
  have "?r \<in> set (fst (org_drain (\<lambda>_. None) 50005 ([?r], [])))"
    by (rule org_failed_event_waits[OF _ b d _ _ _ b', THEN conjunct2])
      (simp_all add: demo_org_event_def org_OUTBOX_CLAIM_LEASE_SECONDS_def)
  then show ?thesis by (simp only: d fst_conv list.sel list.distinct simp_thms)
qed

text \<open>A table of one event, drained at the given times.\<close>

fun org_drains :: "'p bus \<Rightarrow> millis list \<Rightarrow> 'p events_state \<Rightarrow> 'p events_state" where
  "org_drains publish [] st = st"
| "org_drains publish (t # ts) st = org_drains publish ts (org_drain publish t st)"

fun spaced :: "millis option \<Rightarrow> millis list \<Rightarrow> bool" where
  \<comment> \<open>each drain starts after the lease of the one before has passed\<close>
  "spaced c [] = True"
| "spaced c (t # ts) = ((case c of None \<Rightarrow> True | Some x \<Rightarrow> x + org_OUTBOX_CLAIM_LEASE_SECONDS * 1000 < t) \<and> spaced (Some t) ts)"

lemma org_drain_single:
  assumes "ob_publishedAt r = None" "spaced (ob_claimedAt r) [t]"
  shows "org_drain publish t ([r], sent) =
     ([dlq_settle publish org_SUBJECTS_DLQ t (r\<lparr>ob_claimedAt := Some t\<rparr>) (r\<lparr>ob_claimedAt := Some t\<rparr>)],
      sent @ dlq_accepted publish org_SUBJECTS_DLQ (r\<lparr>ob_claimedAt := Some t\<rparr>))"
proof -
  have "lease_free ob_claimedAt org_OUTBOX_CLAIM_LEASE_SECONDS t r"
    using assms(2) by (auto simp: lease_free_def split: option.splits)
  then have "org_findUnpublishedBatch org_BATCH_SIZE t [r] = ([r\<lparr>ob_claimedAt := Some t\<rparr>], [r\<lparr>ob_claimedAt := Some t\<rparr>])"
    using assms(1) by (simp add: org_findUnpublishedBatch_def sql_claim_batch_def org_BATCH_SIZE_def)
  from org_drain_settles[OF _ this, of publish sent] show ?thesis by simp
qed

lemma org_drains_refused:
  assumes "ob_publishedAt r = None" "spaced (ob_claimedAt r) ts" "ob_attempts r + length ts < MAX_ATTEMPTS_BEFORE_DLQ"
    and "\<And>m. msg_subject m = ob_subject r \<Longrightarrow> publish m = Some err"
  shows "\<exists>r'. org_drains publish ts ([r], sent) = ([r'], sent) \<and> ob_attempts r' = ob_attempts r + length ts \<and>
     ob_publishedAt r' = None \<and> ob_claimedAt r' = (if ts = [] then ob_claimedAt r else Some (last ts)) \<and>
     ob_id r' = ob_id r \<and> ob_subject r' = ob_subject r \<and> ob_payload r' = ob_payload r"
  using assms(1-3,4)
proof (induction ts arbitrary: r sent)
  case (Cons t ts)
  let ?r = "r\<lparr>ob_claimedAt := Some t, ob_attempts := ob_attempts r + 1, ob_lastError := Some err\<rparr>"
  have "org_drain publish t ([r], sent) = ([?r], sent)"
    using org_drain_single[of r t publish sent] Cons.prems
    by (simp add: dlq_settle_def dlq_accepted_def original_message_def)
  moreover have "\<exists>r'. org_drains publish ts ([?r], sent) = ([r'], sent) \<and> ob_attempts r' = ob_attempts ?r + length ts \<and>
     ob_publishedAt r' = None \<and> ob_claimedAt r' = (if ts = [] then ob_claimedAt ?r else Some (last ts)) \<and>
     ob_id r' = ob_id ?r \<and> ob_subject r' = ob_subject ?r \<and> ob_payload r' = ob_payload ?r"
    by (rule Cons.IH) (use Cons.prems in auto)
  ultimately show ?case by (auto split: if_splits)
qed simp

text \<open>
  A poison event leaves the queue: when the bus keeps refusing an event's subject but takes dead
  letters, four spaced drains leave the new event waiting with four attempts and nothing sent, and
  the fifth sends exactly its dead letter and marks it published.
\<close>

theorem poison_event_dead_lettered:
  assumes "ob_publishedAt r = None" "ob_attempts r = 0" "length ts = 4" "spaced (ob_claimedAt r) (ts @ [t])"
    and "\<And>m. msg_subject m = ob_subject r \<Longrightarrow> publish m = Some err"
    and "\<And>m. msg_subject m = org_SUBJECTS_DLQ \<Longrightarrow> publish m = None"
  shows "\<exists>r'. org_drains publish ts ([r], []) = ([r'], []) \<and> ob_attempts r' = 4 \<and> ob_publishedAt r' = None \<and>
     (\<exists>r''. org_drain publish t ([r'], []) = ([r''], [dlq_message org_SUBJECTS_DLQ r'' err]) \<and> ob_publishedAt r'' = Some t)"
proof -
  have sp: "spaced c (xs @ [t]) \<Longrightarrow> spaced c xs \<and> spaced (if xs = [] then c else Some (last xs)) [t]" for c xs
    by (induction c xs rule: spaced.induct) (auto split: if_splits)
  have ne: "ts \<noteq> []" using assms(3) by auto
  obtain r' where r': "org_drains publish ts ([r], []) = ([r'], [])" "ob_attempts r' = 4" "ob_publishedAt r' = None"
      "ob_claimedAt r' = Some (last ts)" "ob_id r' = ob_id r" "ob_subject r' = ob_subject r" "ob_payload r' = ob_payload r"
    using org_drains_refused[of r ts publish err "[]"] assms sp[OF assms(4)] ne
    by (auto simp: MAX_ATTEMPTS_BEFORE_DLQ_def)
  have "spaced (ob_claimedAt r') [t]" using sp[OF assms(4)] r'(4) ne by auto
  moreover have "publish (original_message (r'\<lparr>ob_claimedAt := Some t\<rparr>)) = Some err"
    using assms(5) r'(6) by (simp add: original_message_def)
  ultimately have "org_drain publish t ([r'], []) = ([r'\<lparr>ob_claimedAt := Some t, ob_publishedAt := Some t\<rparr>],
      [dlq_message org_SUBJECTS_DLQ (r'\<lparr>ob_claimedAt := Some t, ob_publishedAt := Some t\<rparr>) err])"
    using org_drain_single[OF r'(3), of t publish "[]"] r'(2) assms(6)
    by (simp add: dlq_settle_def dlq_accepted_def MAX_ATTEMPTS_BEFORE_DLQ_def dlq_message_def)
  then show ?thesis using r' by (auto intro!: exI[of _ r'])
qed

theorem poison_event_dead_lettered_witness:
  "\<exists>r'. org_drains (\<lambda>m. if msg_subject m = org_SUBJECTS_DLQ then None else Some ''no'')
     [0, 100000, 200000, 300000] ([demo_org_event], []) = ([r'], []) \<and> ob_attempts r' = 4"
  using poison_event_dead_lettered[of demo_org_event "[0, 100000, 200000, 300000]" 400000
      "\<lambda>m. if msg_subject m = org_SUBJECTS_DLQ then None else Some ''no''" "''no''"]
  by (force simp: demo_org_event_def org_OUTBOX_CLAIM_LEASE_SECONDS_def org_SUBJECTS_DLQ_def)

end
