(* ===== verification/Webhook_Delivery.thy ===== *)
theory Webhook_Delivery
  imports Platform_Outbox
begin

text \<open>
  The core module's event pipeline: its outbox (\<open>src/src/modules/core-eventing\<close>), the fan-out of
  published events to tenant webhooks and the dispatcher that posts them
  (\<open>src/src/modules/webhook\<close>). The bus, the HTTP endpoint, the HMAC and JSON serialisation are
  parameters; the core publisher shares the dead-letter routing of the organisation module's.
\<close>

section \<open>Rows\<close>

datatype webhook_delivery_status = WD_PENDING | WD_DELIVERED | WD_DEAD_LETTERED

record 'p webhook_delivery =
  wd_id :: uuid
  wd_tenantId :: uuid
  wd_subscriptionId :: uuid
  wd_subject :: string
  wd_payload :: 'p
  wd_status :: webhook_delivery_status
  wd_attempts :: nat
  wd_lastError :: "string option"
  wd_createdAt :: millis
  wd_deliveredAt :: "millis option"
  wd_claimedAt :: "millis option"

record webhook_subscription =
  ws_id :: uuid
  ws_tenantId :: uuid
  ws_url :: string
  ws_secret :: string
  ws_subscribedSubjects :: "string list"
  ws_isActive :: bool

section \<open>Delivery repository\<close>

definition wh_OUTBOX_CLAIM_LEASE_SECONDS :: int where
  "wh_OUTBOX_CLAIM_LEASE_SECONDS = 60"

definition wh_enqueue :: "uuid \<Rightarrow> millis \<Rightarrow> uuid \<Rightarrow> uuid \<Rightarrow> string \<Rightarrow> 'p \<Rightarrow> 'p webhook_delivery list \<Rightarrow> 'p webhook_delivery list" where
  "wh_enqueue newId now tenantId subscriptionId subject payload rows =
     rows @ [\<lparr>wd_id = newId, wd_tenantId = tenantId, wd_subscriptionId = subscriptionId, wd_subject = subject,
       wd_payload = payload, wd_status = WD_PENDING, wd_attempts = 0, wd_lastError = None, wd_createdAt = now,
       wd_deliveredAt = None, wd_claimedAt = None\<rparr>]"

definition wh_findPendingBatch ::
  "nat \<Rightarrow> millis \<Rightarrow> 'p webhook_delivery list \<Rightarrow> 'p webhook_delivery list \<times> 'p webhook_delivery list" where
  "wh_findPendingBatch =
     sql_claim_batch wd_id (\<lambda>r. wd_status r = WD_PENDING) wd_claimedAt wd_createdAt
       (\<lambda>now r. r\<lparr>wd_claimedAt := Some now\<rparr>) wh_OUTBOX_CLAIM_LEASE_SECONDS"

definition wh_markDelivered :: "millis \<Rightarrow> uuid \<Rightarrow> 'p webhook_delivery list \<Rightarrow> 'p webhook_delivery list" where
  "wh_markDelivered now i =
     update_where (\<lambda>r. wd_id r = i) (\<lambda>r. r\<lparr>wd_status := WD_DELIVERED, wd_deliveredAt := Some now\<rparr>)"

definition wh_markDeadLettered :: "string \<Rightarrow> uuid \<Rightarrow> 'p webhook_delivery list \<Rightarrow> 'p webhook_delivery list" where
  "wh_markDeadLettered error i =
     update_where (\<lambda>r. wd_id r = i) (\<lambda>r. r\<lparr>wd_status := WD_DEAD_LETTERED, wd_lastError := Some error\<rparr>)"

definition wh_recordFailure :: "string \<Rightarrow> uuid \<Rightarrow> 'p webhook_delivery list \<Rightarrow> 'p webhook_delivery list" where
  "wh_recordFailure error i =
     update_where (\<lambda>r. wd_id r = i) (\<lambda>r. r\<lparr>wd_attempts := wd_attempts r + 1, wd_lastError := Some error\<rparr>)"

interpretation webhooks: leased_queue
  wd_id "\<lambda>r. wd_status r = WD_PENDING" wd_claimedAt wh_OUTBOX_CLAIM_LEASE_SECONDS
  wh_findPendingBatch wh_markDelivered wh_recordFailure
  unfolding wh_findPendingBatch_def wh_markDelivered_def[abs_def] wh_recordFailure_def[abs_def]
  by (rule sql_leased_queue) auto

section \<open>Core outbox\<close>

definition core_OUTBOX_CLAIM_LEASE_SECONDS :: int where
  "core_OUTBOX_CLAIM_LEASE_SECONDS = 60"

definition core_insertWithinTransaction ::
  "uuid \<Rightarrow> millis \<Rightarrow> uuid \<Rightarrow> string \<Rightarrow> 'p \<Rightarrow> 'p outbox_event list \<Rightarrow> 'p outbox_event list" where
  "core_insertWithinTransaction newId now tenantId subject payload rows =
     rows @ [\<lparr>ob_id = newId, ob_tenantId = tenantId, ob_subject = subject, ob_payload = payload,
       ob_createdAt = now, ob_publishedAt = None, ob_claimedAt = None, ob_attempts = 0, ob_lastError = None\<rparr>]"

definition core_findUnpublishedBatch ::
  "nat \<Rightarrow> millis \<Rightarrow> 'p outbox_event list \<Rightarrow> 'p outbox_event list \<times> 'p outbox_event list" where
  "core_findUnpublishedBatch =
     sql_claim_batch ob_id (\<lambda>r. ob_publishedAt r = None) ob_claimedAt ob_createdAt
       (\<lambda>now r. r\<lparr>ob_claimedAt := Some now\<rparr>) core_OUTBOX_CLAIM_LEASE_SECONDS"

definition core_countUnpublished :: "'p outbox_event list \<Rightarrow> nat" where
  "core_countUnpublished rows = length (filter (\<lambda>r. ob_publishedAt r = None) rows)"

definition core_markPublished :: "millis \<Rightarrow> uuid \<Rightarrow> 'p outbox_event list \<Rightarrow> 'p outbox_event list" where
  "core_markPublished now i = update_where (\<lambda>r. ob_id r = i) (\<lambda>r. r\<lparr>ob_publishedAt := Some now\<rparr>)"

definition core_recordFailure :: "string \<Rightarrow> uuid \<Rightarrow> 'p outbox_event list \<Rightarrow> 'p outbox_event list" where
  "core_recordFailure error i =
     update_where (\<lambda>r. ob_id r = i) (\<lambda>r. r\<lparr>ob_attempts := ob_attempts r + 1, ob_lastError := Some error\<rparr>)"

interpretation core_outbox: leased_queue
  ob_id "\<lambda>r. ob_publishedAt r = None" ob_claimedAt core_OUTBOX_CLAIM_LEASE_SECONDS
  core_findUnpublishedBatch core_markPublished core_recordFailure
  unfolding core_findUnpublishedBatch_def core_markPublished_def[abs_def] core_recordFailure_def[abs_def]
  by (rule sql_leased_queue) auto

section \<open>Fan-out and core publisher\<close>

record 'p core_state =
  core_rows :: "'p outbox_event list"
  core_sent :: "'p bus_message list"
  core_deliveries :: "'p webhook_delivery list"
  core_subscriptions :: "webhook_subscription list"

definition findActiveForTenant :: "uuid \<Rightarrow> webhook_subscription list \<Rightarrow> webhook_subscription list" where
  "findActiveForTenant tenantId subs = filter (\<lambda>w. ws_tenantId w = tenantId \<and> ws_isActive w) subs"

definition matching_subscriptions :: "uuid \<Rightarrow> string \<Rightarrow> webhook_subscription list \<Rightarrow> webhook_subscription list" where
  "matching_subscriptions tenantId subject subs =
     filter (\<lambda>w. subject \<in> set (ws_subscribedSubjects w)) (findActiveForTenant tenantId subs)"

fun enqueue_all :: "(nat \<Rightarrow> uuid) \<Rightarrow> millis \<Rightarrow> uuid \<Rightarrow> string \<Rightarrow> 'p \<Rightarrow> webhook_subscription list \<Rightarrow>
    'p webhook_delivery list \<Rightarrow> 'p webhook_delivery list" where
  "enqueue_all newId now tenantId subject payload [] rows = rows"
| "enqueue_all newId now tenantId subject payload (w # ws) rows =
     enqueue_all newId now tenantId subject payload ws
       (wh_enqueue (newId (length rows)) now tenantId (ws_id w) subject payload rows)"

definition fanOut :: "(nat \<Rightarrow> uuid) \<Rightarrow> millis \<Rightarrow> uuid \<Rightarrow> string \<Rightarrow> 'p \<Rightarrow> 'p core_state \<Rightarrow> 'p core_state" where
  "fanOut newId now tenantId subject payload s =
     s\<lparr>core_deliveries := enqueue_all newId now tenantId subject payload
         (matching_subscriptions tenantId subject (core_subscriptions s)) (core_deliveries s)\<rparr>"

definition core_BATCH_SIZE :: nat where
  "core_BATCH_SIZE = 100"

definition core_SUBJECTS_DLQ :: string where
  "core_SUBJECTS_DLQ = ''agno.core.dlq.v1''"

definition core_routeToDlq :: "'p bus \<Rightarrow> millis \<Rightarrow> 'p outbox_event \<Rightarrow> string \<Rightarrow> 'p core_state \<Rightarrow> 'p core_state" where
  "core_routeToDlq publish now event error s =
     (let m = dlq_message core_SUBJECTS_DLQ event error in
      case publish m of
        None \<Rightarrow> s\<lparr>core_rows := core_markPublished now (ob_id event) (core_rows s), core_sent := core_sent s @ [m]\<rparr>
      | Some dlqErr \<Rightarrow>
          s\<lparr>core_rows := core_recordFailure (''DLQ publish also failed: '' @ dlqErr) (ob_id event) (core_rows s)\<rparr>)"

definition core_attempt :: "'p bus \<Rightarrow> (nat \<Rightarrow> uuid) \<Rightarrow> millis \<Rightarrow> 'p outbox_event \<Rightarrow> 'p core_state \<Rightarrow> 'p core_state" where
  "core_attempt publish newId now event s =
     (case publish (original_message event) of
        None \<Rightarrow> fanOut newId now (ob_tenantId event) (ob_subject event) (ob_payload event)
                  (s\<lparr>core_rows := core_markPublished now (ob_id event) (core_rows s),
                     core_sent := core_sent s @ [original_message event]\<rparr>)
      | Some message \<Rightarrow>
          if ob_attempts event + 1 \<ge> MAX_ATTEMPTS_BEFORE_DLQ then core_routeToDlq publish now event message s
          else s\<lparr>core_rows := core_recordFailure message (ob_id event) (core_rows s)\<rparr>)"

fun core_drain_loop :: "'p bus \<Rightarrow> (nat \<Rightarrow> uuid) \<Rightarrow> millis \<Rightarrow> 'p outbox_event list \<Rightarrow> 'p core_state \<Rightarrow> 'p core_state" where
  "core_drain_loop publish newId now [] s = s"
| "core_drain_loop publish newId now (event # batch) s =
     core_drain_loop publish newId now batch (core_attempt publish newId now event s)"

definition core_drain :: "'p bus \<Rightarrow> (nat \<Rightarrow> uuid) \<Rightarrow> millis \<Rightarrow> 'p core_state \<Rightarrow> 'p core_state" where
  "core_drain publish newId now s =
     (case core_findUnpublishedBatch core_BATCH_SIZE now (core_rows s) of
        (batch, rows) \<Rightarrow> core_drain_loop publish newId now batch (s\<lparr>core_rows := rows\<rparr>))"

definition core_tick :: "'p bus \<Rightarrow> (nat \<Rightarrow> uuid) \<Rightarrow> millis \<Rightarrow> bool \<Rightarrow> 'p core_state \<Rightarrow> bool \<times> 'p core_state" where
  "core_tick publish newId now ticking s = (if ticking then (ticking, s) else (False, core_drain publish newId now s))"

section \<open>Dispatcher\<close>

record webhook_request =
  wr_url :: string
  wr_webhookId :: uuid
  wr_webhookSubject :: string
  wr_signature :: string
  wr_body :: string

datatype http_result = HttpResponse int | HttpError string \<comment> \<open>a status, or the call throws\<close>

record 'p http_env =
  he_stringify :: "'p \<Rightarrow> string"
  he_hmac_sha256_hex :: "string \<Rightarrow> string \<Rightarrow> string" \<comment> \<open>secret, text\<close>
  he_show :: "int \<Rightarrow> string" \<comment> \<open>decimal text of an integer\<close>
  he_post :: "webhook_request \<Rightarrow> http_result"

definition wh_BATCH_SIZE :: nat where
  "wh_BATCH_SIZE = 50"

definition MAX_ATTEMPTS_BEFORE_DEAD_LETTER :: nat where
  "MAX_ATTEMPTS_BEFORE_DEAD_LETTER = 5"

type_synonym 'p dispatch_state = "'p webhook_delivery list \<times> webhook_request list" \<comment> \<open>rows, requests made\<close>

definition signed_request :: "'p http_env \<Rightarrow> millis \<Rightarrow> webhook_subscription \<Rightarrow> 'p webhook_delivery \<Rightarrow> webhook_request" where
  "signed_request env timestamp sub delivery =
     (let body = he_stringify env (wd_payload delivery);
          signature = he_hmac_sha256_hex env (ws_secret sub) (he_show env timestamp @ ''.'' @ body)
      in \<lparr>wr_url = ws_url sub, wr_webhookId = wd_id delivery, wr_webhookSubject = wd_subject delivery,
          wr_signature = ''t='' @ he_show env timestamp @ '',v1='' @ signature, wr_body = body\<rparr>)"

definition handleFailure :: "'p webhook_delivery \<Rightarrow> string \<Rightarrow> 'p webhook_delivery list \<Rightarrow> 'p webhook_delivery list" where
  "handleFailure delivery error rows =
     (if wd_attempts delivery + 1 \<ge> MAX_ATTEMPTS_BEFORE_DEAD_LETTER
      then wh_markDeadLettered error (wd_id delivery) rows
      else wh_recordFailure error (wd_id delivery) rows)"

definition attemptDelivery ::
  "'p http_env \<Rightarrow> webhook_subscription list \<Rightarrow> millis \<Rightarrow> 'p webhook_delivery \<Rightarrow> 'p dispatch_state \<Rightarrow> 'p dispatch_state" where
  "attemptDelivery env subs now delivery st =
     (case st of (rows, posted) \<Rightarrow>
        case find_where (\<lambda>w. ws_id w = wd_subscriptionId delivery \<and> ws_tenantId w = wd_tenantId delivery) subs of
          None \<Rightarrow> (wh_markDeadLettered ''subscription deleted or deactivated since enqueue'' (wd_id delivery) rows, posted)
        | Some subscription \<Rightarrow>
            if \<not> ws_isActive subscription
            then (wh_markDeadLettered ''subscription deleted or deactivated since enqueue'' (wd_id delivery) rows, posted)
            else
              (let request = signed_request env now subscription delivery
               in (case he_post env request of
                     HttpResponse status \<Rightarrow>
                       if 200 \<le> status \<and> status < 300 then wh_markDelivered now (wd_id delivery) rows
                       else handleFailure delivery (''HTTP '' @ he_show env status) rows
                   | HttpError message \<Rightarrow> handleFailure delivery message rows,
                   posted @ [request])))"

fun wh_drain_loop ::
  "'p http_env \<Rightarrow> webhook_subscription list \<Rightarrow> millis \<Rightarrow> 'p webhook_delivery list \<Rightarrow> 'p dispatch_state \<Rightarrow> 'p dispatch_state" where
  "wh_drain_loop env subs now [] st = st"
| "wh_drain_loop env subs now (delivery # batch) st =
     wh_drain_loop env subs now batch (attemptDelivery env subs now delivery st)"

definition wh_drain :: "'p http_env \<Rightarrow> webhook_subscription list \<Rightarrow> millis \<Rightarrow> 'p dispatch_state \<Rightarrow> 'p dispatch_state" where
  "wh_drain env subs now st =
     (case st of (rows, posted) \<Rightarrow>
        case wh_findPendingBatch wh_BATCH_SIZE now rows of
          (batch, rows') \<Rightarrow> wh_drain_loop env subs now batch (rows', posted))"

definition wh_tick ::
  "'p http_env \<Rightarrow> webhook_subscription list \<Rightarrow> millis \<Rightarrow> bool \<Rightarrow> 'p dispatch_state \<Rightarrow> bool \<times> 'p dispatch_state" where
  "wh_tick env subs now ticking st = (if ticking then (ticking, st) else (False, wh_drain env subs now st))"

section \<open>What an attempt does to a row\<close>

definition reachable_sub :: "webhook_subscription list \<Rightarrow> 'p webhook_delivery \<Rightarrow> webhook_subscription option" where
  "reachable_sub subs d =
     (case find_where (\<lambda>w. ws_id w = wd_subscriptionId d \<and> ws_tenantId w = wd_tenantId d) subs of
        None \<Rightarrow> None | Some w \<Rightarrow> if ws_isActive w then Some w else None)"

definition http_failure :: "'p http_env \<Rightarrow> webhook_request \<Rightarrow> string option" where
  "http_failure env rq =
     (case he_post env rq of
        HttpResponse status \<Rightarrow> if 200 \<le> status \<and> status < 300 then None else Some (''HTTP '' @ he_show env status)
      | HttpError message \<Rightarrow> Some message)"

definition wh_settle ::
  "'p http_env \<Rightarrow> webhook_subscription list \<Rightarrow> millis \<Rightarrow> 'p webhook_delivery \<Rightarrow> 'p webhook_delivery \<Rightarrow> 'p webhook_delivery" where
  "wh_settle env subs now d r =
     (case reachable_sub subs d of
        None \<Rightarrow> r\<lparr>wd_status := WD_DEAD_LETTERED, wd_lastError := Some ''subscription deleted or deactivated since enqueue''\<rparr>
      | Some w \<Rightarrow> (case http_failure env (signed_request env now w d) of
            None \<Rightarrow> r\<lparr>wd_status := WD_DELIVERED, wd_deliveredAt := Some now\<rparr>
          | Some error \<Rightarrow>
              if wd_attempts d + 1 \<ge> MAX_ATTEMPTS_BEFORE_DEAD_LETTER
              then r\<lparr>wd_status := WD_DEAD_LETTERED, wd_lastError := Some error\<rparr>
              else r\<lparr>wd_attempts := wd_attempts r + 1, wd_lastError := Some error\<rparr>))"

definition wh_posts :: "'p http_env \<Rightarrow> webhook_subscription list \<Rightarrow> millis \<Rightarrow> 'p webhook_delivery \<Rightarrow> webhook_request list" where
  "wh_posts env subs now d = (case reachable_sub subs d of None \<Rightarrow> [] | Some w \<Rightarrow> [signed_request env now w d])"

lemma attemptDelivery_eq:
  "attemptDelivery env subs now d (rows, posted) =
     (update_where (\<lambda>r. wd_id r = wd_id d) (wh_settle env subs now d) rows, posted @ wh_posts env subs now d)"
  by (auto simp: attemptDelivery_def reachable_sub_def wh_settle_def[abs_def] wh_posts_def http_failure_def handleFailure_def
      wh_markDelivered_def wh_markDeadLettered_def wh_recordFailure_def Let_def split: option.splits http_result.splits)

lemma wh_drain_loop_eq:
  "wh_drain_loop env subs now ds (rows, posted) =
     (foldl (\<lambda>rows d. update_where (\<lambda>r. wd_id r = wd_id d) (wh_settle env subs now d) rows) rows ds,
      posted @ concat (map (wh_posts env subs now) ds))"
  by (induction ds arbitrary: rows posted) (simp_all add: attemptDelivery_eq)

lemma wh_settle_id [simp]: "wd_id (wh_settle env subs now d r) = wd_id r"
  by (simp add: wh_settle_def split: option.splits)

lemma wh_batch_distinct:
  assumes "distinct (map wd_id rows)" "wh_findPendingBatch n now rows = (batch, claimed)"
  shows "distinct (map wd_id claimed)" "set batch \<subseteq> set claimed" "distinct (map wd_id batch)"
proof -
  show ids: "distinct (map wd_id claimed)" using webhooks.batch_ids[of n now rows] assms by simp
  show "set batch \<subseteq> set claimed" using webhooks.batch_rows[of _ n now rows] assms(2) by auto
  show "distinct (map wd_id batch)"
    using ids assms(2) by (auto simp: wh_findPendingBatch_def sql_claim_batch_def Let_def distinct_map_filter)
qed

lemma wh_drain_settles:
  assumes "distinct (map wd_id rows)" "wh_findPendingBatch wh_BATCH_SIZE now rows = (batch, claimed)"
  shows "wh_drain env subs now (rows, posted) =
     (map (\<lambda>r. if wd_id r \<in> wd_id ` set batch then wh_settle env subs now r r else r) claimed,
      posted @ concat (map (wh_posts env subs now) batch))"
  using wh_batch_distinct[OF assms] assms(2)
  by (simp add: wh_drain_def wh_drain_loop_eq foldl_update_by_id[where rid = wd_id])

section \<open>A bound on the requests of one delivery\<close>

lemma filter_concat_by_id:
  assumes "distinct (map rid ds)" "\<And>d q. q \<in> set (f d) \<Longrightarrow> key q = rid d"
  shows "filter (\<lambda>q. key q = i) (concat (map f ds)) =
     (case find_where (\<lambda>d. rid d = i) ds of None \<Rightarrow> [] | Some d \<Rightarrow> f d)"
  using assms(1)
proof (induction ds)
  case (Cons d ds)
  have own: "filter (\<lambda>q. key q = i) (f d) = (if rid d = i then f d else [])"
    using assms(2)[of _ d] by (auto simp: filter_empty_conv filter_id_conv)
  show ?case
  proof (cases "rid d = i")
    case True
    then have "find_where (\<lambda>d. rid d = i) ds = None" using Cons.prems unfolding find_where_None by (auto simp: image_iff)
    with True Cons own show ?thesis by simp
  next
    case False
    with Cons own show ?thesis by simp
  qed
qed simp

definition posts_of :: "uuid \<Rightarrow> webhook_request list \<Rightarrow> nat" where
  "posts_of i posted = length (filter (\<lambda>q. wr_webhookId q = i) posted)"

definition within_budget :: "webhook_request list \<Rightarrow> 'p webhook_delivery \<Rightarrow> bool" where
  "within_budget posted r \<longleftrightarrow> wd_attempts r < MAX_ATTEMPTS_BEFORE_DEAD_LETTER \<and>
     posts_of (wd_id r) posted \<le> wd_attempts r + (if wd_status r = WD_PENDING then 0 else 1)"

definition budget_inv :: "'p dispatch_state \<Rightarrow> bool" where
  "budget_inv st \<longleftrightarrow> distinct (map wd_id (fst st)) \<and> (\<forall>r\<in>set (fst st). within_budget (snd st) r)"

fun wh_run :: "('p http_env \<times> webhook_subscription list \<times> millis) list \<Rightarrow> 'p dispatch_state \<Rightarrow> 'p dispatch_state" where
  \<comment> \<open>successive drains; endpoints and subscriptions may change between them\<close>
  "wh_run [] st = st"
| "wh_run ((env, subs, now) # ticks) st = wh_run ticks (wh_drain env subs now st)"

lemma wh_claimed_row:
  assumes "wh_findPendingBatch n now rows = (batch, claimed)" "r \<in> set claimed"
  shows "\<exists>q\<in>set rows. wd_id q = wd_id r \<and> wd_attempts q = wd_attempts r \<and> wd_status q = wd_status r"
proof -
  obtain I where "claimed = update_where (\<lambda>r. wd_id r \<in> I) (\<lambda>r. r\<lparr>wd_claimedAt := Some now\<rparr>) rows"
    using assms(1) by (auto simp: wh_findPendingBatch_def sql_claim_batch_def Let_def)
  with assms(2) show ?thesis by (force simp: set_update_where)
qed

lemma wh_batch_pending:
  assumes "distinct (map wd_id rows)" "wh_findPendingBatch n now rows = (batch, claimed)" "d \<in> set batch"
  shows "wd_status d = WD_PENDING"
proof -
  obtain q where q: "q \<in> set rows" "wd_id q = wd_id d" "wd_status q = wd_status d"
    using wh_claimed_row[OF assms(2)] wh_batch_distinct(2)[OF assms(1,2)] assms(3) by blast
  have "wd_id q \<in> wd_id ` set (fst (wh_findPendingBatch n now rows))" using q(2) assms(2,3) by auto
  from webhooks.batch_eligible[OF assms(1) q(1) this] q(3) show ?thesis by simp
qed

lemma wh_settle_budget:
  assumes "within_budget posted d" "wd_status d = WD_PENDING"
    and "posts_of (wd_id d) posted' = posts_of (wd_id d) posted + length (wh_posts env subs now d)"
  shows "within_budget posted' (wh_settle env subs now d d)"
  using assms by (auto simp: within_budget_def wh_settle_def wh_posts_def split: option.splits)

lemma wh_drain_budget:
  assumes "budget_inv (rows, posted)"
  shows "budget_inv (wh_drain env subs now (rows, posted))"
proof -
  obtain batch claimed where b: "wh_findPendingBatch wh_BATCH_SIZE now rows = (batch, claimed)" by fastforce
  have dist: "distinct (map wd_id rows)" using assms by (simp add: budget_inv_def)
  note d = wh_batch_distinct[OF dist b]
  let ?posted' = "posted @ concat (map (wh_posts env subs now) batch)"
  have key: "wr_webhookId q = wd_id x" if "q \<in> set (wh_posts env subs now x)" for q x
    using that by (auto simp: wh_posts_def signed_request_def Let_def split: option.splits)
  have cnt: "posts_of i ?posted' = posts_of i posted +
      (case find_where (\<lambda>d. wd_id d = i) batch of None \<Rightarrow> 0 | Some d \<Rightarrow> length (wh_posts env subs now d))" for i
    using filter_concat_by_id[OF d(3), of "wh_posts env subs now" wr_webhookId i, OF key] by (simp add: posts_of_def split: option.splits)
  have bud: "within_budget posted r" if "r \<in> set claimed" for r
    using wh_claimed_row[OF b that] assms by (auto simp: budget_inv_def within_budget_def)
  define g where "g r = (if wd_id r \<in> wd_id ` set batch then wh_settle env subs now r r else r)" for r
  have wb: "within_budget ?posted' (g r)" if r: "r \<in> set claimed" for r
  proof (cases "wd_id r \<in> wd_id ` set batch")
    case True
    then have rb: "r \<in> set batch" using d(1,2) r by (auto simp: distinct_map inj_on_def)
    have "find_where (\<lambda>d. wd_id d = wd_id r) batch = Some r"
      by (rule find_where_unique[where k = wd_id]) (use d(3) rb in auto)
    then show ?thesis
      using wh_settle_budget[OF bud[OF r] wh_batch_pending[OF dist b rb]] cnt[of "wd_id r"] True by (simp add: g_def)
  next
    case False
    then have "find_where (\<lambda>d. wd_id d = wd_id r) batch = None"
      unfolding find_where_None by (metis image_eqI)
    then show ?thesis using bud[OF r] cnt[of "wd_id r"] False by (simp add: within_budget_def g_def)
  qed
  have "map wd_id (map g claimed) = map wd_id claimed" by (simp add: g_def)
  with d(1) wb have "budget_inv (map g claimed, ?posted')" by (simp add: budget_inv_def del: map_map)
  then show ?thesis by (simp add: wh_drain_settles[OF dist b] g_def[abs_def])
qed

text \<open>
  However many dispatcher ticks run, and however endpoints answer and subscriptions change in
  between, a delivery is posted at most five times, and at most once per recorded failure plus the
  final attempt.
\<close>

theorem webhook_posts_bounded:
  assumes "distinct (map wd_id rows)" "\<And>r. r \<in> set rows \<Longrightarrow> wd_status r = WD_PENDING \<and> wd_attempts r = 0"
    and "wh_run ticks (rows, []) = (rows', posted)" "r \<in> set rows'"
  shows "posts_of (wd_id r) posted \<le> MAX_ATTEMPTS_BEFORE_DEAD_LETTER \<and>
         posts_of (wd_id r) posted \<le> wd_attempts r + (if wd_status r = WD_PENDING then 0 else 1)"
proof -
  have run: "budget_inv st \<Longrightarrow> budget_inv (wh_run ticks st)" for st
    by (induction ticks st rule: wh_run.induct) (auto simp: wh_drain_budget)
  have "budget_inv (rows, [])"
    using assms(1,2) by (auto simp: budget_inv_def within_budget_def posts_of_def MAX_ATTEMPTS_BEFORE_DEAD_LETTER_def)
  from run[OF this] assms(3,4) have "within_budget posted r" by (simp add: budget_inv_def)
  then show ?thesis by (auto simp: within_budget_def split: if_splits)
qed

definition demo_delivery :: "string webhook_delivery" where
  "demo_delivery = \<lparr>wd_id = ''d1'', wd_tenantId = ''t1'', wd_subscriptionId = ''w1'', wd_subject = ''s'', wd_payload = ''x'',
     wd_status = WD_PENDING, wd_attempts = 0, wd_lastError = None, wd_createdAt = 0, wd_deliveredAt = None, wd_claimedAt = None\<rparr>"

definition demo_http :: "string http_env" where
  "demo_http = \<lparr>he_stringify = (\<lambda>x. x), he_hmac_sha256_hex = (\<lambda>k x. k @ x), he_show = (\<lambda>_. ''1''), he_post = (\<lambda>_. HttpResponse 500)\<rparr>"

definition demo_subscription :: webhook_subscription where
  "demo_subscription = \<lparr>ws_id = ''w1'', ws_tenantId = ''t1'', ws_url = ''u'', ws_secret = ''k'', ws_subscribedSubjects = [''s''], ws_isActive = True\<rparr>"

theorem webhook_posts_bounded_witness:
  "posts_of ''d1'' (snd (wh_run [(demo_http, [demo_subscription], 0)] ([demo_delivery], []))) = 1 \<and>
   posts_of ''d1'' (snd (wh_run [(demo_http, [demo_subscription], 0)] ([demo_delivery], []))) \<le> MAX_ATTEMPTS_BEFORE_DEAD_LETTER"
proof -
  have run: "wh_run [(demo_http, [demo_subscription], 0)] ([demo_delivery], []) =
      ([demo_delivery\<lparr>wd_claimedAt := Some 0, wd_attempts := 1, wd_lastError := Some ''HTTP 1''\<rparr>],
       [signed_request demo_http 0 demo_subscription demo_delivery])" by code_simp
  have "posts_of (wd_id (demo_delivery\<lparr>wd_claimedAt := Some 0, wd_attempts := 1, wd_lastError := Some ''HTTP 1''\<rparr>))
      [signed_request demo_http 0 demo_subscription demo_delivery] \<le> MAX_ATTEMPTS_BEFORE_DEAD_LETTER"
    by (rule webhook_posts_bounded[OF _ _ run, THEN conjunct1]) (simp_all add: demo_delivery_def)
  then show ?thesis unfolding run by (simp add: posts_of_def signed_request_def demo_delivery_def Let_def)
qed

section \<open>Fan-out\<close>

definition delivery_key :: "'p webhook_delivery \<Rightarrow> uuid \<times> uuid \<times> string \<times> 'p" where
  "delivery_key d = (wd_tenantId d, wd_subscriptionId d, wd_subject d, wd_payload d)"

definition expected_keys :: "webhook_subscription list \<Rightarrow> 'p outbox_event \<Rightarrow> (uuid \<times> uuid \<times> string \<times> 'p) list" where
  "expected_keys subs ev = map (\<lambda>w. (ob_tenantId ev, ws_id w, ob_subject ev, ob_payload ev))
     (filter (\<lambda>w. ws_tenantId w = ob_tenantId ev \<and> ws_isActive w \<and> ob_subject ev \<in> set (ws_subscribedSubjects w)) subs)"

lemma enqueue_all_keys:
  "map delivery_key (enqueue_all newId now t sj pl ws rows) = map delivery_key rows @ map (\<lambda>w. (t, ws_id w, sj, pl)) ws"
  by (induction ws arbitrary: rows) (simp_all add: wh_enqueue_def delivery_key_def)

lemma core_attempt_keys:
  "map delivery_key (core_deliveries (core_attempt publish newId now ev s)) =
     map delivery_key (core_deliveries s) @
     (if publish (original_message ev) = None then expected_keys (core_subscriptions s) ev else [])"
  "core_subscriptions (core_attempt publish newId now ev s) = core_subscriptions s"
  by (auto simp: core_attempt_def core_routeToDlq_def fanOut_def enqueue_all_keys expected_keys_def matching_subscriptions_def
      findActiveForTenant_def Let_def conj_ac split: option.splits)

lemma core_drain_loop_keys:
  "map delivery_key (core_deliveries (core_drain_loop publish newId now batch s)) =
     map delivery_key (core_deliveries s) @
     concat (map (expected_keys (core_subscriptions s)) (filter (\<lambda>ev. publish (original_message ev) = None) batch))"
  by (induction batch arbitrary: s) (simp_all add: core_attempt_keys)

text \<open>
  The core publisher hands an event to webhooks exactly when the bus has taken it: a drain enqueues
  one delivery for every active subscription of the event's tenant to its subject, for every event
  of the batch the bus accepted, in order, and none for refused or dead-lettered events.
\<close>

theorem core_drain_fans_out:
  assumes "core_findUnpublishedBatch core_BATCH_SIZE now (core_rows s) = (batch, claimed)"
  shows "map delivery_key (core_deliveries (core_drain publish newId now s)) =
     map delivery_key (core_deliveries s) @
     concat (map (expected_keys (core_subscriptions s)) (filter (\<lambda>ev. publish (original_message ev) = None) batch))"
  using assms core_drain_loop_keys[of publish newId now batch "s\<lparr>core_rows := claimed\<rparr>"] by (simp add: core_drain_def)

theorem core_drain_fans_out_witness:
  "map delivery_key (core_deliveries (core_drain (\<lambda>_. None) (\<lambda>_. ''n'') 5
     \<lparr>core_rows = [demo_org_event\<lparr>ob_subject := ''s''\<rparr>], core_sent = [], core_deliveries = [], core_subscriptions = [demo_subscription]\<rparr>)) =
   [(''t1'', ''w1'', ''s'', ''x'')]"
proof -
  let ?s = "\<lparr>core_rows = [demo_org_event\<lparr>ob_subject := ''s''\<rparr>], core_sent = [], core_deliveries = [], core_subscriptions = [demo_subscription]\<rparr>"
  have b: "core_findUnpublishedBatch core_BATCH_SIZE 5 (core_rows ?s) =
      ([demo_org_event\<lparr>ob_subject := ''s'', ob_claimedAt := Some 5\<rparr>], [demo_org_event\<lparr>ob_subject := ''s'', ob_claimedAt := Some 5\<rparr>])"
    by code_simp
  show ?thesis unfolding core_drain_fans_out[OF b]
    by (simp add: expected_keys_def demo_subscription_def demo_org_event_def)
qed

end
