(* ===== verification/Refresh_Token.thy ===== *)
theory Refresh_Token
  imports WFM_Prelude
begin

text \<open>
  Refresh token rotation of the auth module: \<open>refresh-token.service.ts\<close> over
  \<open>refresh-tokens.repository.ts\<close>, with the Redis fast path of \<open>common/redis/redis.service.ts\<close>. The
  SHA-256 digest is the parameter \<open>hash\<close>; random tokens and identifiers are arguments. Every Redis
  call fails open: \<open>up n\<close> tells whether Redis answers the \<open>n\<close>-th call of an operation, and a cached
  entry may be stale.
\<close>

section \<open>Rows and state\<close>

datatype rt_status = RT_ACTIVE | RT_ROTATED | RT_REVOKED

record refresh_token =
  rt_id :: uuid
  rt_tenantId :: uuid
  rt_familyId :: uuid
  rt_generation :: nat
  rt_userId :: uuid
  rt_clientId :: uuid
  rt_tokenHash :: string
  rt_status :: rt_status
  rt_amr :: "string list"
  rt_authTime :: millis
  rt_scope :: string
  rt_replacedById :: "uuid option"
  rt_revokedAt :: "millis option"
  rt_revokedReason :: "string option"
  rt_expiresAt :: millis
  rt_createdAt :: millis

record rt_state =
  tokens :: "refresh_token list"
  rt_cache :: "(string \<times> refresh_token \<times> millis) list" \<comment> \<open>Redis: token hash, record, expiry of the entry\<close>

datatype rt_error = InvalidGrant string | RefreshTokenReused | TenantMismatch

record issue_input =
  ii_tenantId :: uuid
  ii_userId :: uuid
  ii_clientId :: uuid
  ii_amr :: "string list"
  ii_authTime :: millis
  ii_scope :: string

section \<open>Redis\<close>

definition rt_redis_get :: "bool \<Rightarrow> string \<Rightarrow> millis \<Rightarrow> rt_state \<Rightarrow> refresh_token option" where
  "rt_redis_get up h now s =
     (if up then map_option (\<lambda>e. fst (snd e)) (find_where (\<lambda>e. fst e = h \<and> now < snd (snd e)) (rt_cache s)) else None)"

definition rt_redis_set :: "bool \<Rightarrow> string \<Rightarrow> refresh_token \<Rightarrow> int \<Rightarrow> millis \<Rightarrow> rt_state \<Rightarrow> rt_state" where
  "rt_redis_set up h rec ttlSeconds now s =
     (if up then s\<lparr>rt_cache := (h, rec, now + ttlSeconds * 1000) # delete_where (\<lambda>e. fst e = h) (rt_cache s)\<rparr> else s)"

definition rt_redis_del :: "bool \<Rightarrow> string \<Rightarrow> rt_state \<Rightarrow> rt_state" where
  "rt_redis_del up h s = (if up then s\<lparr>rt_cache := delete_where (\<lambda>e. fst e = h) (rt_cache s)\<rparr> else s)"

section \<open>Repository\<close>

text \<open>\<open>tenantId\<close> is the tenant bound to the request; a bound tenant restricts every statement.\<close>

definition findByTokenHash :: "uuid \<Rightarrow> string \<Rightarrow> rt_state \<Rightarrow> refresh_token option" where
  "findByTokenHash tenantId h s = find_where (\<lambda>r. rt_tokenHash r = h \<and> rt_tenantId r = tenantId) (tokens s)"

definition createFamily :: "uuid \<Rightarrow> refresh_token \<Rightarrow> rt_state \<Rightarrow> rt_error + refresh_token \<times> rt_state" where
  "createFamily tenantId row s =
     (if rt_tenantId row \<noteq> [] \<and> rt_tenantId row \<noteq> tenantId then Inl TenantMismatch
      else let r = row\<lparr>rt_tenantId := tenantId, rt_status := RT_ACTIVE, rt_replacedById := None,
                       rt_revokedAt := None, rt_revokedReason := None\<rparr>
           in Inr (r, s\<lparr>tokens := tokens s @ [r]\<rparr>))"

definition repo_rotate :: "uuid \<Rightarrow> uuid \<Rightarrow> refresh_token \<Rightarrow> rt_state \<Rightarrow> refresh_token option \<times> rt_state" where
  \<comment> \<open>one transaction: the next generation is inserted first, then the presented row is swapped\<close>
  "repo_rotate tenantId presentedTokenId next s =
     (let ins = next\<lparr>rt_status := RT_ACTIVE, rt_replacedById := None, rt_revokedAt := None, rt_revokedReason := None\<rparr>;
          hit = (\<lambda>r. rt_id r = presentedTokenId \<and> rt_tenantId r = tenantId \<and> rt_status r = RT_ACTIVE);
          rows = tokens s @ [ins];
          s' = s\<lparr>tokens := update_where hit (\<lambda>r. r\<lparr>rt_status := RT_ROTATED, rt_replacedById := Some (rt_id ins)\<rparr>) rows\<rparr>
      in if filter hit rows = [] then (None, s') else (Some ins, s'))"

definition revokeFamily :: "uuid \<Rightarrow> millis \<Rightarrow> uuid \<Rightarrow> string \<Rightarrow> rt_state \<Rightarrow> rt_state" where
  "revokeFamily tenantId now familyId reason s =
     s\<lparr>tokens := update_where (\<lambda>r. rt_tenantId r = tenantId \<and> rt_familyId r = familyId \<and> rt_status r \<noteq> RT_REVOKED)
        (\<lambda>r. r\<lparr>rt_status := RT_REVOKED, rt_revokedAt := Some now, rt_revokedReason := Some reason\<rparr>) (tokens s)\<rparr>"

definition revokeAllForUser :: "uuid \<Rightarrow> millis \<Rightarrow> uuid \<Rightarrow> string \<Rightarrow> rt_state \<Rightarrow> string list \<times> rt_state" where
  "revokeAllForUser tenantId now userId reason s =
     (let hit = (\<lambda>r. rt_tenantId r = tenantId \<and> rt_userId r = userId \<and> rt_status r \<noteq> RT_REVOKED)
      in (map rt_tokenHash (filter hit (tokens s)),
          s\<lparr>tokens := update_where hit
             (\<lambda>r. r\<lparr>rt_status := RT_REVOKED, rt_revokedAt := Some now, rt_revokedReason := Some reason\<rparr>) (tokens s)\<rparr>))"

section \<open>Service\<close>

definition REFRESH_TOKEN_TTL_DAYS :: int where
  "REFRESH_TOKEN_TTL_DAYS = 30"

definition expiryFromNow :: "millis \<Rightarrow> millis" where
  "expiryFromNow now = now + REFRESH_TOKEN_TTL_DAYS * 24 * 60 * 60 * 1000"

definition rt_lookup :: "bool \<Rightarrow> uuid \<Rightarrow> string \<Rightarrow> millis \<Rightarrow> rt_state \<Rightarrow> refresh_token option" where
  "rt_lookup up tenantId h now s =
     (case rt_redis_get up h now s of Some r \<Rightarrow> Some r | None \<Rightarrow> findByTokenHash tenantId h s)"

definition rt_cache_put :: "bool \<Rightarrow> refresh_token \<Rightarrow> string \<Rightarrow> millis \<Rightarrow> rt_state \<Rightarrow> rt_state" where
  "rt_cache_put up rec h now s = rt_redis_set up h rec (max 1 (- ((now - rt_expiresAt rec) div 1000))) now s"

definition issue ::
  "(string \<Rightarrow> string) \<Rightarrow> bool \<Rightarrow> millis \<Rightarrow> uuid \<Rightarrow> string \<Rightarrow> uuid \<Rightarrow> uuid \<Rightarrow> issue_input \<Rightarrow> rt_state \<Rightarrow>
   (rt_error + string \<times> refresh_token) \<times> rt_state" where
  "issue hash up now tenantId rawToken newId newFamilyId inp s =
     (case createFamily tenantId
             \<lparr>rt_id = newId, rt_tenantId = ii_tenantId inp, rt_familyId = newFamilyId, rt_generation = 1,
              rt_userId = ii_userId inp, rt_clientId = ii_clientId inp, rt_tokenHash = hash rawToken,
              rt_status = RT_ACTIVE, rt_amr = ii_amr inp, rt_authTime = ii_authTime inp, rt_scope = ii_scope inp,
              rt_replacedById = None, rt_revokedAt = None, rt_revokedReason = None,
              rt_expiresAt = expiryFromNow now, rt_createdAt = now\<rparr> s of
        Inl e \<Rightarrow> (Inl e, s)
      | Inr (rec, s1) \<Rightarrow> (Inr (rawToken, rec), rt_cache_put up rec (hash rawToken) now s1))"

definition next_generation :: "uuid \<Rightarrow> string \<Rightarrow> millis \<Rightarrow> refresh_token \<Rightarrow> refresh_token" where
  "next_generation newId h now current =
     current\<lparr>rt_id := newId, rt_generation := rt_generation current + 1, rt_tokenHash := h,
       rt_expiresAt := expiryFromNow now, rt_createdAt := now\<rparr>"

definition rotate ::
  "(string \<Rightarrow> string) \<Rightarrow> (nat \<Rightarrow> bool) \<Rightarrow> millis \<Rightarrow> uuid \<Rightarrow> string \<Rightarrow> uuid \<Rightarrow> string \<Rightarrow> rt_state \<Rightarrow>
   (rt_error + string \<times> refresh_token) \<times> rt_state" where
  "rotate hash up now tenantId newRawToken newId presentedRawToken s =
     (let tokenHash = hash presentedRawToken in
      case rt_lookup (up 0) tenantId tokenHash now s of
        None \<Rightarrow> (Inl (InvalidGrant ''Refresh token is invalid.''), s)
      | Some current \<Rightarrow>
          if rt_tenantId current \<noteq> tenantId then (Inl (InvalidGrant ''Refresh token is invalid.''), s)
          else if rt_expiresAt current < now then (Inl (InvalidGrant ''Refresh token has expired.''), s)
          else if rt_status current \<noteq> RT_ACTIVE
          then (Inl RefreshTokenReused,
                rt_redis_del (up 1) tokenHash (revokeFamily tenantId now (rt_familyId current) ''reuse_detected'' s))
          else
            (case repo_rotate tenantId (rt_id current) (next_generation newId (hash newRawToken) now current) s of
               (rotated, s1) \<Rightarrow>
                 (let s2 = rt_redis_del (up 1) tokenHash s1 in
                  case rotated of
                    None \<Rightarrow> (Inl RefreshTokenReused,
                             revokeFamily tenantId now (rt_familyId current) ''concurrent_rotation_conflict'' s2)
                  | Some rec \<Rightarrow> (Inr (newRawToken, rec), rt_cache_put (up 2) rec (hash newRawToken) now s2))))"

definition peekActive :: "(string \<Rightarrow> string) \<Rightarrow> bool \<Rightarrow> millis \<Rightarrow> uuid \<Rightarrow> string \<Rightarrow> rt_state \<Rightarrow> refresh_token option" where
  "peekActive hash up now tenantId rawToken s =
     (case rt_lookup up tenantId (hash rawToken) now s of
        None \<Rightarrow> None
      | Some current \<Rightarrow>
          if rt_tenantId current \<noteq> tenantId then None
          else if rt_status current \<noteq> RT_ACTIVE \<or> rt_expiresAt current < now then None
          else Some current)"

definition revokeByRawToken ::
  "(string \<Rightarrow> string) \<Rightarrow> (nat \<Rightarrow> bool) \<Rightarrow> millis \<Rightarrow> uuid \<Rightarrow> string \<Rightarrow> string \<Rightarrow> rt_state \<Rightarrow> rt_state" where
  "revokeByRawToken hash up now tenantId rawToken reason s =
     (case rt_lookup (up 0) tenantId (hash rawToken) now s of
        None \<Rightarrow> s
      | Some current \<Rightarrow>
          rt_redis_del (up 1) (hash rawToken) (revokeFamily tenantId now (rt_familyId current) reason s))"

definition revokeAllSessionsForUser ::
  "(nat \<Rightarrow> bool) \<Rightarrow> millis \<Rightarrow> uuid \<Rightarrow> uuid \<Rightarrow> string \<Rightarrow> rt_state \<Rightarrow> rt_state" where
  "revokeAllSessionsForUser up now tenantId userId reason s =
     (case revokeAllForUser tenantId now userId reason s of
        (hashes, s1) \<Rightarrow> foldl (\<lambda>s (i, h). rt_redis_del (up i) h s) s1 (enumerate 0 hashes))"

section \<open>Invariant\<close>

definition same_token :: "refresh_token \<Rightarrow> refresh_token \<Rightarrow> bool" where
  \<comment> \<open>the columns that never change after the insert\<close>
  "same_token a b \<longleftrightarrow> rt_id a = rt_id b \<and> rt_tenantId a = rt_tenantId b \<and> rt_familyId a = rt_familyId b \<and>
     rt_generation a = rt_generation b \<and> rt_tokenHash a = rt_tokenHash b \<and> rt_expiresAt a = rt_expiresAt b"

definition same_family :: "refresh_token \<Rightarrow> refresh_token \<Rightarrow> bool" where
  "same_family a b \<longleftrightarrow> rt_tenantId a = rt_tenantId b \<and> rt_familyId a = rt_familyId b"

definition keys_ok :: "refresh_token list \<Rightarrow> bool" where
  "keys_ok rows \<longleftrightarrow> distinct (map rt_id rows) \<and> distinct (map rt_tokenHash rows)"

definition families_ok :: "refresh_token list \<Rightarrow> bool" where
  \<comment> \<open>an active token is the newest of its family\<close>
  "families_ok rows \<longleftrightarrow> (\<forall>r\<in>set rows. \<forall>q\<in>set rows. rt_status r = RT_ACTIVE \<longrightarrow> same_family r q \<longrightarrow> q \<noteq> r \<longrightarrow>
     rt_generation q < rt_generation r)"

definition cache_ok :: "rt_state \<Rightarrow> bool" where
  \<comment> \<open>a cached record describes a row of the table, though its status may be out of date\<close>
  "cache_ok s \<longleftrightarrow> (\<forall>(h, rec, ex)\<in>set (rt_cache s). rt_tokenHash rec = h \<and> (\<exists>row\<in>set (tokens s). same_token row rec))"

definition rt_inv :: "rt_state \<Rightarrow> bool" where
  "rt_inv s \<longleftrightarrow> keys_ok (tokens s) \<and> families_ok (tokens s) \<and> cache_ok s"

lemma token_by_id: "keys_ok rows \<Longrightarrow> a \<in> set rows \<Longrightarrow> b \<in> set rows \<Longrightarrow> rt_id a = rt_id b \<Longrightarrow> a = b"
  by (auto simp: keys_ok_def distinct_map inj_on_def)

lemma token_by_hash: "keys_ok rows \<Longrightarrow> a \<in> set rows \<Longrightarrow> b \<in> set rows \<Longrightarrow> rt_tokenHash a = rt_tokenHash b \<Longrightarrow> a = b"
  by (auto simp: keys_ok_def distinct_map inj_on_def)

lemma keys_ok_update:
  "(\<And>r. rt_id (f r) = rt_id r \<and> rt_tokenHash (f r) = rt_tokenHash r) \<Longrightarrow> keys_ok (update_where P f rows) = keys_ok rows"
  by (simp add: keys_ok_def map_update_where)

lemma families_ok_retire:
  assumes "families_ok rows"
    and "\<And>r. rt_status (f r) \<noteq> RT_ACTIVE \<and> rt_tenantId (f r) = rt_tenantId r \<and> rt_familyId (f r) = rt_familyId r \<and>
           rt_generation (f r) = rt_generation r"
  shows "families_ok (update_where P f rows)"
  using assms unfolding families_ok_def by (auto simp: set_update_where same_family_def) metis

lemma cache_ok_rows:
  assumes "cache_ok s" "rt_cache s' = rt_cache s" "tokens s' = update_where P f (tokens s) @ extra" "\<And>r. same_token (f r) r"
  shows "cache_ok s'"
  unfolding cache_ok_def
proof (clarsimp, goal_cases)
  case (1 h rec ex)
  then obtain row where row: "row \<in> set (tokens s)" "same_token row rec" "rt_tokenHash rec = h"
    using assms(1,2) by (fastforce simp: cache_ok_def)
  have "(if P row then f row else row) \<in> set (tokens s')"
    using update_where_mem[OF row(1), of P f] assms(3) by simp
  moreover have "same_token (if P row then f row else row) rec"
    using row(2) assms(4)[of row] by (auto simp: same_token_def)
  ultimately show ?case using row(3) by blast
qed

lemma cache_ok_put:
  assumes "cache_ok s" "rec \<in> set (tokens s)" "rt_tokenHash rec = h"
  shows "cache_ok (rt_cache_put up rec h now s)"
  using assms by (auto simp: cache_ok_def rt_cache_put_def rt_redis_set_def set_delete_where same_token_def)

lemma cache_ok_del: "cache_ok s \<Longrightarrow> cache_ok (rt_redis_del up h s)"
  by (auto simp: cache_ok_def rt_redis_del_def set_delete_where)

lemma tokens_cache [simp]:
  "tokens (rt_cache_put up rec h now s) = tokens s" "tokens (rt_redis_del up h s) = tokens s"
  by (simp_all add: rt_cache_put_def rt_redis_set_def rt_redis_del_def)

lemma rt_inv_del: "rt_inv s \<Longrightarrow> rt_inv (rt_redis_del up h s)"
  by (simp add: rt_inv_def cache_ok_del)

lemma revokeFamily_cache_ok: "cache_ok s \<Longrightarrow> cache_ok (revokeFamily t now fam reason s)"
  by (rule cache_ok_rows[where extra = "[]" and P = "\<lambda>r. rt_tenantId r = t \<and> rt_familyId r = fam \<and> rt_status r \<noteq> RT_REVOKED"
        and f = "\<lambda>r. r\<lparr>rt_status := RT_REVOKED, rt_revokedAt := Some now, rt_revokedReason := Some reason\<rparr>"])
    (simp_all add: revokeFamily_def same_token_def)

lemma revokeFamily_all:
  assumes "q \<in> set (tokens (revokeFamily t now fam reason s))" "rt_tenantId q = t" "rt_familyId q = fam"
  shows "rt_status q = RT_REVOKED"
proof -
  let ?P = "\<lambda>r. rt_tenantId r = t \<and> rt_familyId r = fam \<and> rt_status r \<noteq> RT_REVOKED"
  have "q \<in> set (update_where ?P (\<lambda>r. r\<lparr>rt_status := RT_REVOKED, rt_revokedAt := Some now, rt_revokedReason := Some reason\<rparr>) (tokens s))"
    using assms(1) unfolding revokeFamily_def by simp
  then consider r where "q = r\<lparr>rt_status := RT_REVOKED, rt_revokedAt := Some now, rt_revokedReason := Some reason\<rparr>" | "\<not> ?P q"
    unfolding set_update_where by blast
  then have "rt_status q = RT_REVOKED \<or> \<not> ?P q" by cases simp_all
  then show ?thesis using assms(2,3) by blast
qed

lemma revokeFamily_inv: "rt_inv s \<Longrightarrow> rt_inv (revokeFamily t now fam reason s)"
  by (auto simp: rt_inv_def revokeFamily_cache_ok) (auto simp: revokeFamily_def keys_ok_update intro!: families_ok_retire)

lemma rt_lookupD:
  assumes "rt_inv s" "rt_lookup up t h now s = Some cur"
  obtains row where "row \<in> set (tokens s)" "same_token row cur" "rt_tokenHash row = h"
proof (cases "rt_redis_get up h now s")
  case None
  then have "findByTokenHash t h s = Some cur" using assms(2) by (simp add: rt_lookup_def)
  then show thesis using that[of cur] by (auto simp: findByTokenHash_def same_token_def dest: find_where_SomeD)
next
  case (Some c)
  then obtain ex where "(h, cur, ex) \<in> set (rt_cache s)"
    using assms(2) by (auto simp: rt_lookup_def rt_redis_get_def split: if_splits dest!: find_where_SomeD)
  then obtain row where "row \<in> set (tokens s)" "same_token row cur" "rt_tokenHash cur = h"
    using assms(1) by (fastforce simp: rt_inv_def cache_ok_def)
  then show thesis using that by (auto simp: same_token_def)
qed

section \<open>Every operation keeps it\<close>

definition fresh_token :: "rt_state \<Rightarrow> uuid \<Rightarrow> string \<Rightarrow> bool" where
  "fresh_token s i h \<longleftrightarrow> i \<notin> rt_id ` set (tokens s) \<and> h \<notin> rt_tokenHash ` set (tokens s)"

lemma next_generation_fields [simp]:
  "rt_id (next_generation i h now c) = i" "rt_tokenHash (next_generation i h now c) = h"
  "rt_tenantId (next_generation i h now c) = rt_tenantId c" "rt_familyId (next_generation i h now c) = rt_familyId c"
  "rt_generation (next_generation i h now c) = rt_generation c + 1"
  "rt_expiresAt (next_generation i h now c) = expiryFromNow now"
  by (simp_all add: next_generation_def)

definition inserted :: "uuid \<Rightarrow> string \<Rightarrow> millis \<Rightarrow> refresh_token \<Rightarrow> refresh_token" where
  "inserted i h now c = (next_generation i h now c)\<lparr>rt_status := RT_ACTIVE, rt_replacedById := None, rt_revokedAt := None, rt_revokedReason := None\<rparr>"

lemma inserted_fields [simp]:
  "rt_id (inserted i h now c) = i" "rt_tokenHash (inserted i h now c) = h"
  "rt_tenantId (inserted i h now c) = rt_tenantId c" "rt_familyId (inserted i h now c) = rt_familyId c"
  "rt_generation (inserted i h now c) = rt_generation c + 1" "rt_expiresAt (inserted i h now c) = expiryFromNow now"
  "rt_status (inserted i h now c) = RT_ACTIVE"
  by (simp_all add: inserted_def)

lemma repo_rotate_eq:
  assumes "keys_ok (tokens s)" "row \<in> set (tokens s)" "same_token row cur" "rt_tenantId cur = t" "fresh_token s i h"
  shows "repo_rotate t (rt_id cur) (next_generation i h now cur) s =
    (if rt_status row = RT_ACTIVE then Some (inserted i h now cur) else None,
     s\<lparr>tokens := update_where (\<lambda>r. rt_id r = rt_id cur \<and> rt_tenantId r = t \<and> rt_status r = RT_ACTIVE)
         (\<lambda>r. r\<lparr>rt_status := RT_ROTATED, rt_replacedById := Some i\<rparr>) (tokens s) @ [inserted i h now cur]\<rparr>)"
proof -
  let ?hit = "\<lambda>r. rt_id r = rt_id cur \<and> rt_tenantId r = t \<and> rt_status r = RT_ACTIVE"
  have ne: "i \<noteq> rt_id cur" using assms(2,3,5) by (metis fresh_token_def image_eqI same_token_def)
  have same: "rt_id row = rt_id cur" "rt_tenantId row = t" using assms(3,4) by (simp_all add: same_token_def)
  have "filter ?hit (tokens s) = [] \<longleftrightarrow> rt_status row \<noteq> RT_ACTIVE"
    unfolding filter_empty_conv using token_by_id[OF assms(1) _ assms(2)] same assms(2) by metis
  with ne show ?thesis
    by (simp add: repo_rotate_def Let_def update_where_append inserted_def)
qed

lemma families_ok_rotate:
  assumes ok: "families_ok rows" "keys_ok rows" and row: "row \<in> set rows" "rt_status row = RT_ACTIVE"
    and ins: "same_family row ins" "rt_generation ins = rt_generation row + 1"
    and f: "\<And>r. rt_status (f r) \<noteq> RT_ACTIVE \<and> rt_tenantId (f r) = rt_tenantId r \<and> rt_familyId (f r) = rt_familyId r \<and>
           rt_generation (f r) = rt_generation r"
    and P: "\<And>r. r \<in> set rows \<Longrightarrow> P r \<longleftrightarrow> r = row"
  shows "families_ok (update_where P f rows @ [ins])"
proof -
  have old: "families_ok (update_where P f rows)" by (rule families_ok_retire[OF ok(1) f])
  have le: "rt_generation q \<le> rt_generation row \<and> (rt_status q = RT_ACTIVE \<longrightarrow> q = row)"
    if "q \<in> set rows" "same_family row q" for q
    using ok(1) row that unfolding families_ok_def by (metis less_imp_le_nat less_not_sym order_refl same_family_def)
  have new: "rt_generation q < rt_generation ins \<and> rt_status q \<noteq> RT_ACTIVE"
    if q: "q \<in> set (update_where P f rows)" "same_family ins q" for q
  proof -
    obtain r where r: "r \<in> set rows" "q = (if P r then f r else r)" using q(1) by (auto simp: set_update_where)
    have "same_family row r" using q(2) ins(1) f[of r] r(2) by (auto simp: same_family_def split: if_splits)
    from le[OF r(1) this] show ?thesis using r f[of r] P[OF r(1)] ins(2) by (auto split: if_splits)
  qed
  have sym: "same_family a b = same_family b a" for a b by (auto simp: same_family_def)
  show ?thesis
    unfolding families_ok_def
  proof (intro ballI impI)
    fix r q
    assume a: "r \<in> set (update_where P f rows @ [ins])" "q \<in> set (update_where P f rows @ [ins])"
      "rt_status r = RT_ACTIVE" "same_family r q" "q \<noteq> r"
    show "rt_generation q < rt_generation r"
    proof (cases "r \<in> set (update_where P f rows)")
      case True
      then have "q \<in> set (update_where P f rows)" using a new[of r] sym[of r ins] by auto
      with True a old show ?thesis by (simp add: families_ok_def)
    next
      case False
      with a new[of q] show ?thesis by auto
    qed
  qed
qed

lemma families_ok_conflict:
  assumes "families_ok rows" "rt_tenantId ins = t" "rt_familyId ins = fam"
    and "\<And>r. rt_status (f r) = RT_REVOKED \<and> rt_tenantId (f r) = rt_tenantId r \<and> rt_familyId (f r) = rt_familyId r \<and>
           rt_generation (f r) = rt_generation r"
  shows "families_ok (update_where (\<lambda>r. rt_tenantId r = t \<and> rt_familyId r = fam \<and> rt_status r \<noteq> RT_REVOKED) f (rows @ [ins]))"
    (is "families_ok (update_where ?P f (rows @ [ins]))")
proof -
  have in_fam: "rt_status r \<noteq> RT_ACTIVE" if "r \<in> set (update_where ?P f (rows @ [ins]))" "same_family r ins" for r
    using that assms(2-4) by (auto simp: set_update_where same_family_def split: if_splits)
  have rest: "families_ok (update_where ?P f rows)" by (rule families_ok_retire[OF assms(1)]) (use assms(4) in auto)
  let ?i = "if ?P ins then f ins else ins"
  have ins: "same_family q ?i \<longleftrightarrow> same_family q ins" "rt_status ?i \<noteq> RT_ACTIVE" for q
    using assms(2-4) by (auto simp: same_family_def)
  show ?thesis
    using rest in_fam ins unfolding families_ok_def update_where_append by (auto split: if_splits)
qed

lemma rotate_inv:
  assumes inv: "rt_inv s" and fr: "fresh_token s newId (hash newRaw)"
  shows "rt_inv (snd (rotate hash up now t newRaw newId raw s))"
proof (cases "rt_lookup (up 0) t (hash raw) now s")
  case None
  then show ?thesis using inv by (simp add: rotate_def)
next
  case (Some cur)
  obtain row where row: "row \<in> set (tokens s)" "same_token row cur" "rt_tokenHash row = hash raw"
    using rt_lookupD[OF inv Some] .
  have keys: "keys_ok (tokens s)" and fam: "families_ok (tokens s)" and co: "cache_ok s" using inv by (simp_all add: rt_inv_def)
  let ?ins = "inserted newId (hash newRaw) now cur"
  let ?P = "\<lambda>r. rt_id r = rt_id cur \<and> rt_tenantId r = t \<and> rt_status r = RT_ACTIVE"
  let ?f = "\<lambda>r. r\<lparr>rt_status := RT_ROTATED, rt_replacedById := Some newId\<rparr>"
  let ?s1 = "s\<lparr>tokens := update_where ?P ?f (tokens s) @ [?ins]\<rparr>"
  have k1: "keys_ok (tokens ?s1)"
    using keys fr by (simp add: keys_ok_def fresh_token_def map_update_where)
  have c1: "cache_ok ?s1" by (rule cache_ok_rows[OF co, of ?s1 ?P ?f "[?ins]"]) (simp_all add: same_token_def)
  show ?thesis
  proof (cases "rt_tenantId cur \<noteq> t \<or> rt_expiresAt cur < now \<or> rt_status cur \<noteq> RT_ACTIVE")
    case True
    then show ?thesis using inv Some by (auto simp: rotate_def Let_def rt_inv_del revokeFamily_inv)
  next
    case live: False
    note eq = repo_rotate_eq[OF keys row(1,2) _ fr, of t now]
    show ?thesis
    proof (cases "rt_status row = RT_ACTIVE")
      case True
      have hit: "?P r \<longleftrightarrow> r = row" if "r \<in> set (tokens s)" for r
        using row(2) live True token_by_id[OF keys that row(1)] by (auto simp: same_token_def)
      have "families_ok (update_where ?P ?f (tokens s) @ [?ins])"
        by (rule families_ok_rotate[OF fam keys row(1) True])
          (use row(2) hit in \<open>simp_all add: same_family_def same_token_def\<close>)
      then have "families_ok (tokens ?s1)" by simp
      with k1 c1 live Some True eq show ?thesis
        by (simp add: rotate_def Let_def rt_inv_def cache_ok_put cache_ok_del)
    next
      case False
      have s1: "?s1 = s\<lparr>tokens := tokens s @ [?ins]\<rparr>"
        using False row(2) token_by_id[OF keys _ row(1)] by (subst update_where_id) (auto simp: same_token_def)
      have "rt_inv (revokeFamily t now (rt_familyId cur) reason (rt_redis_del (up 1) (hash raw) ?s1))" for reason
        unfolding rt_inv_def
      proof (intro conjI)
        show "keys_ok (tokens (revokeFamily t now (rt_familyId cur) reason (rt_redis_del (up 1) (hash raw) ?s1)))"
          using k1 by (simp add: revokeFamily_def keys_ok_update)
        show "families_ok (tokens (revokeFamily t now (rt_familyId cur) reason (rt_redis_del (up 1) (hash raw) ?s1)))"
          unfolding revokeFamily_def s1 using live by (simp add: families_ok_conflict[OF fam])
        show "cache_ok (revokeFamily t now (rt_familyId cur) reason (rt_redis_del (up 1) (hash raw) ?s1))"
          by (rule revokeFamily_cache_ok[OF cache_ok_del[OF c1]])
      qed
      then show ?thesis using live Some False eq by (simp add: rotate_def Let_def)
    qed
  qed
qed

lemma createFamily_ok:
  "rt_tenantId row = [] \<or> rt_tenantId row = t \<Longrightarrow>
   createFamily t row s =
     (let r = row\<lparr>rt_tenantId := t, rt_status := RT_ACTIVE, rt_replacedById := None, rt_revokedAt := None, rt_revokedReason := None\<rparr>
      in Inr (r, s\<lparr>tokens := tokens s @ [r]\<rparr>))"
  by (auto simp: createFamily_def)

lemma issue_inv:
  assumes "rt_inv s" "fresh_token s newId (hash raw)" "fam \<notin> rt_familyId ` set (tokens s)"
  shows "rt_inv (snd (issue hash up now t raw newId fam inp s))"
proof (cases "ii_tenantId inp \<noteq> [] \<and> ii_tenantId inp \<noteq> t")
  case True
  then show ?thesis using assms(1) by (simp add: issue_def createFamily_def)
next
  case False
  define r where "r = \<lparr>rt_id = newId, rt_tenantId = t, rt_familyId = fam, rt_generation = 1,
              rt_userId = ii_userId inp, rt_clientId = ii_clientId inp, rt_tokenHash = hash raw,
              rt_status = RT_ACTIVE, rt_amr = ii_amr inp, rt_authTime = ii_authTime inp, rt_scope = ii_scope inp,
              rt_replacedById = None, rt_revokedAt = None, rt_revokedReason = None,
              rt_expiresAt = expiryFromNow now, rt_createdAt = now\<rparr>"
  have f: "rt_id r = newId" "rt_tokenHash r = hash raw" "rt_familyId r = fam" by (simp_all add: r_def)
  have eq: "issue hash up now t raw newId fam inp s =
      (Inr (raw, r), rt_cache_put up r (hash raw) now (s\<lparr>tokens := tokens s @ [r]\<rparr>))"
    unfolding issue_def r_def by (subst createFamily_ok) (use False in \<open>auto simp: Let_def\<close>)
  have "keys_ok (tokens s @ [r])" using assms(1,2) f by (auto simp: rt_inv_def keys_ok_def fresh_token_def)
  moreover have "families_ok (tokens s @ [r])"
  proof -
    have new: "\<not> same_family q r \<and> \<not> same_family r q" if "q \<in> set (tokens s)" for q
      using that assms(3) f(3) unfolding same_family_def by (metis image_eqI)
    then show ?thesis using assms(1) unfolding rt_inv_def families_ok_def by auto
  qed
  moreover have "cache_ok (s\<lparr>tokens := tokens s @ [r]\<rparr>)"
    using assms(1) by (fastforce simp: rt_inv_def cache_ok_def)
  ultimately show ?thesis using f(2) by (simp add: eq rt_inv_def cache_ok_put)
qed

lemma revokeAll_inv:
  assumes "rt_inv s"
  shows "rt_inv (revokeAllSessionsForUser up now t u reason s)"
proof -
  let ?hit = "\<lambda>r. rt_tenantId r = t \<and> rt_userId r = u \<and> rt_status r \<noteq> RT_REVOKED"
  let ?f = "\<lambda>r. r\<lparr>rt_status := RT_REVOKED, rt_revokedAt := Some now, rt_revokedReason := Some reason\<rparr>"
  let ?s1 = "s\<lparr>tokens := update_where ?hit ?f (tokens s)\<rparr>"
  have del: "rt_inv s0 \<Longrightarrow> rt_inv (foldl (\<lambda>s (i, h). rt_redis_del (up i) h s) s0 xs)" for s0 xs
    by (induction xs arbitrary: s0) (auto simp: rt_inv_del)
  have "cache_ok ?s1"
    by (rule cache_ok_rows[of s _ ?hit ?f "[]"]) (use assms in \<open>simp_all add: rt_inv_def same_token_def\<close>)
  then have "rt_inv ?s1"
    using assms by (auto simp: rt_inv_def keys_ok_update intro!: families_ok_retire)
  then show ?thesis by (simp add: revokeAllSessionsForUser_def revokeAllForUser_def Let_def del)
qed

lemma revokeByRawToken_inv: "rt_inv s \<Longrightarrow> rt_inv (revokeByRawToken hash up now t raw reason s)"
  by (auto simp: revokeByRawToken_def rt_inv_del revokeFamily_inv split: option.splits)

text \<open>The service at work; entries of the cache may disappear at any time.\<close>

inductive rt_reachable :: "(string \<Rightarrow> string) \<Rightarrow> rt_state \<Rightarrow> bool" for hash where
  rt_start: "rt_reachable hash \<lparr>tokens = [], rt_cache = []\<rparr>"
| rt_issue: "rt_reachable hash s \<Longrightarrow> fresh_token s newId (hash raw) \<Longrightarrow> fam \<notin> rt_familyId ` set (tokens s) \<Longrightarrow>
     rt_reachable hash (snd (issue hash up now t raw newId fam inp s))"
| rt_rotate: "rt_reachable hash s \<Longrightarrow> fresh_token s newId (hash newRaw) \<Longrightarrow>
     rt_reachable hash (snd (rotate hash ups now t newRaw newId raw s))"
| rt_revoke: "rt_reachable hash s \<Longrightarrow> rt_reachable hash (revokeByRawToken hash ups now t raw reason s)"
| rt_revoke_all: "rt_reachable hash s \<Longrightarrow> rt_reachable hash (revokeAllSessionsForUser ups now t u reason s)"
| rt_evict: "rt_reachable hash s \<Longrightarrow> rt_reachable hash (s\<lparr>rt_cache := filter keep (rt_cache s)\<rparr>)"

lemma rt_reachable_inv: "rt_reachable hash s \<Longrightarrow> rt_inv s"
proof (induction rule: rt_reachable.induct)
  case rt_start
  then show ?case by (simp add: rt_inv_def keys_ok_def families_ok_def cache_ok_def)
next
  case (rt_evict s keep)
  then show ?case by (auto simp: rt_inv_def cache_ok_def)
qed (simp_all add: issue_inv rotate_inv revokeByRawToken_inv revokeAll_inv)

section \<open>Guarantees\<close>

text \<open>A session of one user: a token issued at time 0 and rotated at time 1000.\<close>

definition demo_hash :: "string \<Rightarrow> string" where
  "demo_hash x = ''h'' @ x"

definition demo_login :: issue_input where
  "demo_login = \<lparr>ii_tenantId = ''t1'', ii_userId = ''u1'', ii_clientId = ''web'', ii_amr = [''pwd''], ii_authTime = 0, ii_scope = []\<rparr>"

definition demo_session :: rt_state where
  "demo_session = snd (rotate demo_hash (\<lambda>_. True) 1000 ''t1'' ''raw2'' ''i2'' ''raw1''
     (snd (issue demo_hash True 0 ''t1'' ''raw1'' ''i1'' ''f1'' demo_login \<lparr>tokens = [], rt_cache = []\<rparr>)))"

lemma demo_session_reachable: "rt_reachable demo_hash demo_session"
proof -
  let ?s1 = "snd (issue demo_hash True 0 ''t1'' ''raw1'' ''i1'' ''f1'' demo_login \<lparr>tokens = [], rt_cache = []\<rparr>)"
  have "rt_reachable demo_hash ?s1"
    by (rule rt_issue[OF rt_start]) (simp_all add: fresh_token_def)
  moreover have "fresh_token ?s1 ''i2'' (demo_hash ''raw2'')" by code_simp
  ultimately show ?thesis unfolding demo_session_def by (rule rt_rotate)
qed



text \<open>
  A successful rotation was paid for with the token the database holds: the presented token's row
  was active, of the caller's tenant and unexpired, it is rotated afterwards and names its
  successor, which has the next generation of the same family and lives thirty days. A stale cache
  entry cannot bring this about.
\<close>

theorem rotate_success:
  assumes "rt_reachable hash s" "fresh_token s newId (hash newRaw)"
    and "rotate hash up now t newRaw newId raw s = (Inr (raw', rec), s')"
  shows "\<exists>row\<in>set (tokens s). rt_tokenHash row = hash raw \<and> rt_tenantId row = t \<and> rt_status row = RT_ACTIVE \<and>
     now \<le> rt_expiresAt row \<and> row\<lparr>rt_status := RT_ROTATED, rt_replacedById := Some newId\<rparr> \<in> set (tokens s') \<and>
     rec \<in> set (tokens s') \<and> rt_id rec = newId \<and> same_family row rec \<and> rt_generation rec = rt_generation row + 1 \<and>
     rt_status rec = RT_ACTIVE \<and> rt_expiresAt rec = now + 30 * 86400000"
proof -
  have inv: "rt_inv s" by (rule rt_reachable_inv[OF assms(1)])
  then have keys: "keys_ok (tokens s)" by (simp add: rt_inv_def)
  obtain cur where cur: "rt_lookup (up 0) t (hash raw) now s = Some cur" "rt_tenantId cur = t" "\<not> rt_expiresAt cur < now"
      "rt_status cur = RT_ACTIVE"
    using assms(3) by (auto simp: rotate_def Let_def split: option.splits if_splits)
  obtain row where row: "row \<in> set (tokens s)" "same_token row cur" "rt_tokenHash row = hash raw" using rt_lookupD[OF inv cur(1)] .
  note eq = repo_rotate_eq[OF keys row(1,2) cur(2) assms(2), of now]
  have act: "rt_status row = RT_ACTIVE" and rec: "rec = inserted newId (hash newRaw) now cur"
    and s': "tokens s' = update_where (\<lambda>r. rt_id r = rt_id cur \<and> rt_tenantId r = t \<and> rt_status r = RT_ACTIVE)
         (\<lambda>r. r\<lparr>rt_status := RT_ROTATED, rt_replacedById := Some newId\<rparr>) (tokens s) @ [rec]"
    using assms(3) cur eq by (auto simp: rotate_def Let_def split: option.splits if_splits)
  have "row\<lparr>rt_status := RT_ROTATED, rt_replacedById := Some newId\<rparr> \<in> set (tokens s')"
    using update_where_mem[OF row(1), of "\<lambda>r. rt_id r = rt_id cur \<and> rt_tenantId r = t \<and> rt_status r = RT_ACTIVE"
        "\<lambda>r. r\<lparr>rt_status := RT_ROTATED, rt_replacedById := Some newId\<rparr>"] row(2) cur(2) act
    by (simp add: s' same_token_def)
  with row cur act show ?thesis
    by (intro bexI[OF _ row(1)]) (auto simp: s' rec same_token_def same_family_def expiryFromNow_def REFRESH_TOKEN_TTL_DAYS_def)
qed

definition demo_rotation :: "(rt_error + string \<times> refresh_token) \<times> rt_state" where
  "demo_rotation = rotate demo_hash (\<lambda>_. False) 2000 ''t1'' ''raw3'' ''i3'' ''raw2'' demo_session"

theorem rotate_success_witness:
  "\<exists>rec. fst demo_rotation = Inr (''raw3'', rec) \<and> rt_generation rec = 3 \<and> rt_expiresAt rec = 2000 + 30 * 86400000"
proof -
  have fr: "fresh_token demo_session ''i3'' (demo_hash ''raw3'')" by code_simp
  have "map_sum (\<lambda>_. ()) fst (fst demo_rotation) = Inr ''raw3''" by code_simp
  then obtain rec where rec: "fst demo_rotation = Inr (''raw3'', rec)" by (cases "fst demo_rotation") auto
  from rec have rot: "rotate demo_hash (\<lambda>_. False) 2000 ''t1'' ''raw3'' ''i3'' ''raw2'' demo_session = (Inr (''raw3'', rec), snd demo_rotation)"
    by (simp add: prod_eq_iff demo_rotation_def)
  have gens: "map (\<lambda>r. (rt_tokenHash r, rt_generation r)) (tokens demo_session) = [(''hraw1'', 1), (''hraw2'', 2)]" by code_simp
  obtain row where row: "row \<in> set (tokens demo_session)" "rt_tokenHash row = demo_hash ''raw2''"
      "rt_generation rec = rt_generation row + 1" "rt_expiresAt rec = 2000 + 30 * 86400000"
    using rotate_success[OF demo_session_reachable fr rot] by blast
  have "(rt_tokenHash row, rt_generation row) \<in> set (map (\<lambda>r. (rt_tokenHash r, rt_generation r)) (tokens demo_session))"
    using row(1) by auto
  then have "rt_generation row = 2" using row(2) unfolding gens by (auto simp: demo_hash_def)
  with rec row(3,4) show ?thesis by auto
qed

text \<open>
  Property C4. Presenting a token that was already rotated or revoked ends its whole family, whether or not the
  cache still calls the token active: the caller gets the reuse error and afterwards every token
  of the family is revoked.
\<close>

theorem replay_revokes_family:
  assumes "rt_reachable hash s" "fresh_token s newId (hash newRaw)"
    and "row \<in> set (tokens s)" "rt_tokenHash row = hash raw" "rt_tenantId row = t" "rt_status row \<noteq> RT_ACTIVE"
    and "now \<le> rt_expiresAt row" "rotate hash up now t newRaw newId raw s = (r, s')"
  shows "r = Inl RefreshTokenReused \<and> (\<forall>q\<in>set (tokens s'). same_family row q \<longrightarrow> rt_status q = RT_REVOKED)"
proof -
  have inv: "rt_inv s" by (rule rt_reachable_inv[OF assms(1)])
  then have keys: "keys_ok (tokens s)" by (simp add: rt_inv_def)
  have "findByTokenHash t (hash raw) s \<noteq> None"
    unfolding findByTokenHash_def find_where_None using assms(3-5) by blast
  then have "rt_lookup (up 0) t (hash raw) now s \<noteq> None" by (simp add: rt_lookup_def split: option.split)
  then obtain cur where cur: "rt_lookup (up 0) t (hash raw) now s = Some cur" by blast
  obtain row' where row': "row' \<in> set (tokens s)" "same_token row' cur" "rt_tokenHash row' = hash raw" using rt_lookupD[OF inv cur] .
  then have same: "same_token row cur" using token_by_hash[OF keys row'(1) assms(3)] assms(4) by simp
  then have f: "rt_tenantId cur = t" "rt_familyId cur = rt_familyId row" "\<not> rt_expiresAt cur < now"
    using assms(5,7) by (simp_all add: same_token_def)
  have "fst (repo_rotate t (rt_id cur) (next_generation newId (hash newRaw) now cur) s) = None"
    using repo_rotate_eq[OF keys assms(3) same f(1) assms(2), of now] assms(6) by simp
  then obtain s1 where lost: "repo_rotate t (rt_id cur) (next_generation newId (hash newRaw) now cur) s = (None, s1)"
    by (cases "repo_rotate t (rt_id cur) (next_generation newId (hash newRaw) now cur) s") auto
  obtain reason s0 where r: "r = Inl RefreshTokenReused" and s': "tokens s' = tokens (revokeFamily t now (rt_familyId row) reason s0)"
  proof (cases "rt_status cur = RT_ACTIVE")
    case True
    then show thesis using that[of "''concurrent_rotation_conflict''" "rt_redis_del (up 1) (hash raw) s1"] assms(8) cur f lost
      by (auto simp: rotate_def Let_def)
  next
    case False
    then show thesis using that[of "''reuse_detected''" s] assms(8) cur f by (auto simp: rotate_def Let_def)
  qed
  show ?thesis
    unfolding s' same_family_def assms(5) using r by (blast intro: revokeFamily_all sym)
qed

theorem replay_revokes_family_witness:
  "fst (rotate demo_hash (\<lambda>_. True) 2000 ''t1'' ''raw3'' ''i3'' ''raw1'' demo_session) = Inl RefreshTokenReused"
proof -
  have fr: "fresh_token demo_session ''i3'' (demo_hash ''raw3'')" by code_simp
  have len: "length (tokens demo_session) = 2" by code_simp
  have h: "rt_tokenHash (tokens demo_session ! 0) = demo_hash ''raw1''" by code_simp
  have t: "rt_tenantId (tokens demo_session ! 0) = ''t1''" by code_simp
  have st: "rt_status (tokens demo_session ! 0) \<noteq> RT_ACTIVE" by code_simp
  have ex: "2000 \<le> rt_expiresAt (tokens demo_session ! 0)" by code_simp
  have "tokens demo_session ! 0 \<in> set (tokens demo_session)" using len by simp
  from replay_revokes_family[OF demo_session_reachable fr this h t st ex prod.collapse[symmetric], of "\<lambda>_. True"]
  show ?thesis by simp
qed

text \<open>
  Introspection does not notice the revocation: after a replay of the first token has revoked the
  whole family, the cache entry of the second token is still there and introspection reports the
  revoked token as active.
\<close>

theorem introspection_after_replay:
  "let s = snd (rotate demo_hash (\<lambda>_. True) 2000 ''t1'' ''raw3'' ''i3'' ''raw1'' demo_session)
   in map rt_status (tokens s) = [RT_REVOKED, RT_REVOKED] \<and>
      map_option rt_id (peekActive demo_hash True 3000 ''t1'' ''raw2'' s) = Some ''i2''"
  by code_simp

end
