(* ===== verification/Iso_Calendar.thy ===== *)
theory Iso_Calendar
  imports WFM_Prelude "HOL-Library.Product_Lexorder"
begin

text \<open>
  Calendar dates. A \<open>YYYY-MM-DD\<close> string is the triple of its parts; two such strings compare with
  \<open><\<close> the way the triples compare lexicographically. \<open>date_utc\<close> is JavaScript's \<open>Date.UTC\<close> at
  midnight, and \<open>next_day\<close> and \<open>add_months\<close> are \<open>date + 1\<close> and \<open>date + interval 'n months'\<close> of
  Postgres. The main lemma is that comparing the strings agrees with counting the days.
\<close>

section \<open>Definitions\<close>

type_synonym iso_date = "int \<times> int \<times> int"

definition leap :: "int \<Rightarrow> bool" where
  "leap y \<longleftrightarrow> 4 dvd y \<and> (\<not> 100 dvd y \<or> 400 dvd y)"

definition month_days :: "int \<Rightarrow> int \<Rightarrow> int" where
  "month_days y m = (if m = 2 then (if leap y then 29 else 28) else if m \<in> {4, 6, 9, 11} then 30 else 31)"

definition valid_date :: "iso_date \<Rightarrow> bool" where
  "valid_date x = (case x of (y, m, d) \<Rightarrow> 1 \<le> m \<and> m \<le> 12 \<and> 1 \<le> d \<and> d \<le> month_days y m)"

definition days_before_year :: "int \<Rightarrow> int" where
  "days_before_year y = 365 * (y - 1) + (y - 1) div 4 - (y - 1) div 100 + (y - 1) div 400"

definition days_before_month :: "int \<Rightarrow> int \<Rightarrow> int" where
  "days_before_month y m =
     [0, 31, 59, 90, 120, 151, 181, 212, 243, 273, 304, 334] ! nat (m - 1) + (if 2 < m \<and> leap y then 1 else 0)"

definition dayno :: "iso_date \<Rightarrow> int" where
  "dayno x = (case x of (y, m, d) \<Rightarrow> days_before_year y + days_before_month y m + d)"

definition date_utc :: "iso_date \<Rightarrow> millis" where
  \<comment> \<open>719163 is the number of 1970-01-01\<close>
  "date_utc x = (dayno x - 719163) * 86400000"

definition next_day :: "iso_date \<Rightarrow> iso_date" where
  "next_day x = (case x of (y, m, d) \<Rightarrow>
     if d < month_days y m then (y, m, d + 1) else if m < 12 then (y, m + 1, 1) else (y + 1, 1, 1))"

definition add_months :: "iso_date \<Rightarrow> int \<Rightarrow> iso_date" where
  "add_months x k = (case x of (y, m, d) \<Rightarrow>
     let t = y * 12 + (m - 1) + k; y' = t div 12; m' = t mod 12 + 1 in (y', m', min d (month_days y' m')))"

section \<open>Counting days\<close>

lemma month_cases: "1 \<le> (m::int) \<Longrightarrow> m \<le> 12 \<Longrightarrow>
   m = 1 \<or> m = 2 \<or> m = 3 \<or> m = 4 \<or> m = 5 \<or> m = 6 \<or> m = 7 \<or> m = 8 \<or> m = 9 \<or> m = 10 \<or> m = 11 \<or> m = 12"
  by presburger

lemma days_before_month_step:
  assumes "1 \<le> m" "m < 12"
  shows "days_before_month y (m + 1) = days_before_month y m + month_days y m"
proof -
  have "m = 1 \<or> m = 2 \<or> m = 3 \<or> m = 4 \<or> m = 5 \<or> m = 6 \<or> m = 7 \<or> m = 8 \<or> m = 9 \<or> m = 10 \<or> m = 11"
    using month_cases[of m] assms by simp
  then show ?thesis
    by (elim disjE) (simp_all add: days_before_month_def month_days_def numeral_nat)
qed

lemma days_before_month_1: "days_before_month y 1 = 0"
  by (simp add: days_before_month_def)

lemma days_before_month_12: "days_before_month y 12 + month_days y 12 = (if leap y then 366 else 365)"
  by (simp add: days_before_month_def month_days_def numeral_nat)

lemma month_days_pos: "1 \<le> month_days y m"
  by (simp add: month_days_def)

lemma div_step:
  assumes "0 < (n::int)"
  shows "y div n = (y - 1) div n + (if n dvd y then 1 else 0)"
proof (cases "n dvd y")
  case True
  then obtain k where "y = n * k" by blast
  moreover have "(n * k - 1) div n = k - 1"
    by (rule int_div_pos_eq[of _ _ _ "n - 1"]) (use assms in \<open>simp_all add: algebra_simps\<close>)
  ultimately show ?thesis using assms by simp
next
  case False
  then have "y mod n \<noteq> 0" by (simp add: dvd_eq_mod_eq_0)
  then have "0 < y mod n" using pos_mod_sign[OF assms, of y] by simp
  then have "(y - 1) div n = y div n"
    by (intro int_div_pos_eq[of _ _ _ "y mod n - 1"]) (use assms pos_mod_bound[OF assms, of y] in \<open>simp_all add: minus_mod_eq_mult_div [symmetric]\<close>)
  with False show ?thesis by simp
qed

lemma leap_dvd: "(400::int) dvd y \<Longrightarrow> 100 dvd y" "(100::int) dvd y \<Longrightarrow> 4 dvd y"
  using dvd_trans[of 100 400 y] dvd_trans[of 4 100 y] by simp_all

lemma days_before_year_step: "days_before_year (y + 1) = days_before_year y + (if leap y then 366 else 365)"
proof -
  define a b c where abc: "a = (y - 1) div 4" "b = (y - 1) div 100" "c = (y - 1) div 400"
  have d: "y div 4 = a + (if 4 dvd y then 1 else 0)" "y div 100 = b + (if 100 dvd y then 1 else 0)"
      "y div 400 = c + (if 400 dvd y then 1 else 0)"
    unfolding abc by (rule div_step; simp)+
  have "days_before_year (y + 1) = days_before_year y + 365 +
      (if 4 dvd y then 1 else 0) - (if 100 dvd y then 1 else 0) + (if 400 dvd y then 1 else 0)"
    unfolding days_before_year_def add_diff_cancel_right' d abc[symmetric] by (simp only: algebra_simps)
  then show ?thesis
    unfolding leap_def using leap_dvd[of y] by (cases "4 dvd y"; cases "100 dvd y"; cases "400 dvd y") simp_all
qed

lemma days_before_year_mono: "y \<le> y' \<Longrightarrow> days_before_year y \<le> days_before_year y'"
proof (induction y' rule: int_ge_induct)
  case (step i)
  then show ?case using days_before_year_step[of i] by (simp split: if_splits)
qed simp

lemma days_before_month_mono:
  assumes "1 \<le> m" "m < m'" "m' \<le> 12"
  shows "days_before_month y m + month_days y m \<le> days_before_month y m'"
proof -
  have "m + 1 \<le> m'" using assms(2) by simp
  then show ?thesis using assms(3)
  proof (induction m' rule: int_ge_induct)
    case base
    then show ?case using days_before_month_step[of m y] assms(1) by simp
  next
    case (step i)
    then show ?case using days_before_month_step[of i y] month_days_pos[of y i] assms(1) by simp
  qed
qed

lemma dayno_within_year:
  assumes "valid_date (y, m, d)"
  shows "days_before_year y < dayno (y, m, d) \<and> dayno (y, m, d) \<le> days_before_year (y + 1)"
proof -
  have "0 \<le> days_before_month y m \<and> days_before_month y m + month_days y m \<le> (if leap y then 366 else 365)"
  proof (intro conjI)
    show "0 \<le> days_before_month y m"
      using days_before_month_mono[of 1 m y] days_before_month_1[of y] month_days_pos[of y 1] assms
      by (cases "m = 1") (auto simp: valid_date_def)
    show "days_before_month y m + month_days y m \<le> (if leap y then 366 else 365)"
      using days_before_month_mono[of m 12 y] days_before_month_12[of y] month_days_pos[of y 12] assms
      by (cases "m = 12") (auto simp: valid_date_def)
  qed
  then show ?thesis using assms days_before_year_step[of y] by (auto simp: valid_date_def dayno_def)
qed

lemma dayno_strict_mono:
  assumes "valid_date a" "valid_date b" "a < b"
  shows "dayno a < dayno b"
proof -
  obtain y m d y' m' d' where ab: "a = (y, m, d)" "b = (y', m', d')" by (metis prod_cases3)
  consider "y < y'" | "y = y'" "m < m'" | "y = y'" "m = m'" "d < d'" using assms(3) ab by (auto simp: less_prod_def' order_le_less)
  then show ?thesis
  proof cases
    case 1
    then have "days_before_year (y + 1) \<le> days_before_year y'" by (intro days_before_year_mono) simp
    then show ?thesis using dayno_within_year[of y m d] dayno_within_year[of y' m' d'] assms(1,2) ab by simp
  next
    case 2
    then show ?thesis
      using days_before_month_mono[of m m' y] assms(1,2) ab by (auto simp: dayno_def valid_date_def)
  qed (use ab in \<open>simp add: dayno_def\<close>)
qed

lemma dayno_mono: "valid_date a \<Longrightarrow> valid_date b \<Longrightarrow> a \<le> b \<Longrightarrow> dayno a \<le> dayno b"
  using dayno_strict_mono[of a b] by (metis order_le_less)

lemma dayno_less_iff: "valid_date a \<Longrightarrow> valid_date b \<Longrightarrow> dayno a < dayno b \<longleftrightarrow> a < b"
  using dayno_strict_mono[of a b] dayno_mono[of b a] by (meson not_less)

lemma dayno_next_day: "valid_date x \<Longrightarrow> dayno (next_day x) = dayno x + 1"
  using days_before_month_step[of "fst (snd x)" "fst x"] days_before_month_12[of "fst x"]
    days_before_year_step[of "fst x"] days_before_month_1
  by (cases x) (auto simp: next_day_def dayno_def valid_date_def split: if_splits)

lemma valid_next_day: "valid_date x \<Longrightarrow> valid_date (next_day x)"
  using month_days_pos by (cases x) (auto simp: next_day_def valid_date_def)

lemma next_day_greater: "x < next_day x"
  by (cases x) (simp add: next_day_def)

end
