(* ===== verification/Leave_Model.thy ===== *)
theory Leave_Model
  imports Iso_Calendar
begin

text \<open>
  The data of the leave half of \<open>attendance-leave-service\<close>: the rows of \<open>src/leave/entities\<close>, the
  constraints its migrations put on them, and the state its services share, which is the
  \<open>attendance_leave\<close> schema, the BullMQ reminder queue, the events published on NATS, the audit
  events recorded at the core service and the metrics counted.

  A \<open>numeric(6,2)\<close> column is an integer number of hundredths of a day, at most 999999. Requests
  book whole days, so \<open>Number(accruedDays) - Number(usedDays) - Number(pendingDays)\<close> compares with
  a whole number of days the way the exact hundredths do.
\<close>

section \<open>Rows\<close>

datatype leave_status = LR_PENDING | LR_APPROVED | LR_REJECTED | LR_CANCELLED

record conflict_flags =
  cf_hasConflict :: bool
  cf_conflictingShiftIds :: "uuid list"

record leave_request =
  lr_id :: uuid
  lr_tenantId :: uuid
  lr_employeeId :: uuid
  lr_leaveTypeId :: uuid
  lr_dateRangeStart :: iso_date
  lr_dateRangeEnd :: iso_date
  lr_status :: leave_status
  lr_approvalChainId :: "uuid option"
  lr_requestedAt :: millis
  lr_decidedAt :: "millis option"
  lr_decidedBy :: "uuid option"
  lr_conflictFlags :: conflict_flags
  lr_isBackdated :: bool
  lr_backdatedReason :: "string option"
  lr_backdatedApprovedBy :: "uuid option"
  lr_decisionReason :: "string option"

record leave_balance =
  lb_employeeId :: uuid
  lb_leaveTypeId :: uuid
  lb_periodStart :: iso_date
  lb_periodEnd :: iso_date
  lb_tenantId :: uuid
  lb_accruedDays :: int
  lb_usedDays :: int
  lb_pendingDays :: int
  lb_carryoverDaysIn :: int
  lb_carryoverExpiryDate :: "iso_date option"
  lb_carryoverApplied :: bool
  lb_lastAccruedAt :: "iso_date option"

text \<open>
  \<open>carryoverRules\<close> is free-form JSON; the rollover reads two keys and treats anything that is not
  a plain non-negative number as missing.
\<close>

record leave_type =
  lt_id :: uuid
  lt_tenantId :: uuid
  lt_name :: string
  lt_accrualPolicyId :: uuid
  lt_requiresApproval :: bool
  lt_requiresDocumentation :: bool
  lt_maxConsecutiveDays :: "nat option"
  lt_maxCarryoverDays :: "nat option" \<comment> \<open>hundredths\<close>
  lt_carryoverExpiryMonths :: "nat option"

datatype accrual_frequency = WEEKLY | BIWEEKLY | MONTHLY | ANNUALLY

record accrual_policy =
  ap_id :: uuid
  ap_tenantId :: uuid
  ap_name :: string
  ap_accrualRatePerPeriod :: nat \<comment> \<open>hundredths; the table checks that it is not negative\<close>
  ap_accrualFrequency :: accrual_frequency
  ap_maxBalanceCap :: "int option"
  ap_active :: bool

record reminder_job =
  rj_leaveRequestId :: uuid \<comment> \<open>also the job id\<close>
  rj_tenantId :: uuid
  rj_approvalChainId :: uuid
  rj_dueAt :: millis

record audit_event =
  au_actorId :: uuid
  au_action :: string
  au_resourceId :: uuid
  au_requestedDays :: int
  au_status :: leave_status
  au_payrollResyncRequired :: bool

record leave_state =
  balances :: "leave_balance list"
  requests :: "leave_request list"
  leave_types :: "leave_type list"
  accrual_policies :: "accrual_policy list"
  reminders :: "reminder_job list"
  approvals_published :: "leave_request list" \<comment> \<open>payloads of \<open>agno.leave.request.approved.v1\<close>\<close>
  audit_log :: "audit_event list"
  leave_metrics :: "(string \<times> string) list"

datatype leave_error =
    InvalidLeaveRequest
  | BackdatedLeaveNotSupported
  | NotActuallyBackdated
  | UpstreamUnavailable
  | LeaveBalanceNotFound
  | InsufficientLeaveBalance int int \<comment> \<open>requested days, available hundredths\<close>
  | LeaveRequestOverlap
  | LeaveRequestNotFound
  | LeaveRequestAlreadyDecided leave_status
  | InsufficientPermission
  | LeaveTypeNotFound
  | LeaveBalanceAlreadyExists
  | LeaveDbError string \<comment> \<open>any other database error the driver raises\<close>

section \<open>Constraints\<close>

definition balance_pk :: "leave_balance \<Rightarrow> uuid \<times> uuid \<times> iso_date \<times> iso_date" where
  "balance_pk b = (lb_employeeId b, lb_leaveTypeId b, lb_periodStart b, lb_periodEnd b)"

definition numeric_6_2 :: "int \<Rightarrow> bool" where
  "numeric_6_2 n \<longleftrightarrow> \<bar>n\<bar> \<le> 999999"

definition balance_row_ok :: "leave_balance \<Rightarrow> bool" where
  "balance_row_ok b \<longleftrightarrow> lb_periodStart b \<le> lb_periodEnd b \<and>
     0 \<le> lb_accruedDays b \<and> 0 \<le> lb_usedDays b \<and> 0 \<le> lb_pendingDays b \<and> 0 \<le> lb_carryoverDaysIn b \<and>
     numeric_6_2 (lb_accruedDays b) \<and> numeric_6_2 (lb_usedDays b) \<and> numeric_6_2 (lb_pendingDays b) \<and>
     numeric_6_2 (lb_carryoverDaysIn b)"

definition update_balances ::
  "(leave_balance \<Rightarrow> bool) \<Rightarrow> (leave_balance \<Rightarrow> leave_balance) \<Rightarrow> leave_state \<Rightarrow> leave_error + leave_state" where
  \<comment> \<open>an \<open>UPDATE\<close> is refused as a whole when one of the rows it writes breaks a constraint\<close>
  "update_balances P f s =
     (if list_all (\<lambda>b. P b \<longrightarrow> balance_row_ok (f b)) (balances s)
      then Inr (s\<lparr>balances := update_where P f (balances s)\<rparr>)
      else Inl (LeaveDbError ''leave_balance_non_negative_check''))"

definition active_request :: "leave_request \<Rightarrow> bool" where
  "active_request r \<longleftrightarrow> lr_status r = LR_PENDING \<or> lr_status r = LR_APPROVED"

definition ranges_overlap :: "leave_request \<Rightarrow> leave_request \<Rightarrow> bool" where
  \<comment> \<open>\<open>daterange(start, end, '[]') && daterange(start, end, '[]')\<close>\<close>
  "ranges_overlap a b \<longleftrightarrow> lr_dateRangeStart a \<le> lr_dateRangeEnd b \<and> lr_dateRangeStart b \<le> lr_dateRangeEnd a"

definition excluded_pair :: "leave_request \<Rightarrow> leave_request \<Rightarrow> bool" where
  "excluded_pair a b \<longleftrightarrow> active_request a \<and> active_request b \<and> lr_tenantId a = lr_tenantId b \<and>
     lr_employeeId a = lr_employeeId b \<and> ranges_overlap a b"

definition insert_leave_request :: "leave_request \<Rightarrow> leave_state \<Rightarrow> leave_error + leave_state" where
  "insert_leave_request row s =
     (if lr_dateRangeEnd row < lr_dateRangeStart row then Inl (LeaveDbError ''leave_request_date_range_check'')
      else if lr_isBackdated row \<and> lr_backdatedReason row = None
      then Inl (LeaveDbError ''leave_request_backdated_reason_required_check'')
      else if lr_id row \<in> lr_id ` set (requests s) then Inl (LeaveDbError ''leave_request_pkey'')
      else if list_ex (excluded_pair row) (requests s) then Inl (LeaveDbError ''23P01'')
      else Inr (s\<lparr>requests := requests s @ [row]\<rparr>))"

section \<open>Queries\<close>

definition balance_covers :: "uuid \<Rightarrow> uuid \<Rightarrow> uuid \<Rightarrow> iso_date \<Rightarrow> iso_date \<Rightarrow> leave_balance \<Rightarrow> bool" where
  "balance_covers tenantId employeeId leaveTypeId start end b \<longleftrightarrow>
     lb_tenantId b = tenantId \<and> lb_employeeId b = employeeId \<and> lb_leaveTypeId b = leaveTypeId \<and>
     lb_periodStart b \<le> start \<and> end \<le> lb_periodEnd b"

definition pick_row :: "nat \<Rightarrow> 'a list \<Rightarrow> 'a option" where
  \<comment> \<open>\<open>getOne\<close> without an order: any of the matching rows\<close>
  "pick_row n rows = (if rows = [] then None else Some (rows ! (n mod length rows)))"

lemma pick_row_SomeD: "pick_row n rows = Some r \<Longrightarrow> r \<in> set rows"
  by (auto simp: pick_row_def split: if_splits intro!: nth_mem mod_less_divisor)

lemma pick_row_None [simp]: "pick_row n rows = None \<longleftrightarrow> rows = []"
  by (simp add: pick_row_def)

lemma pick_row_filterD: "pick_row n (filter P rows) = Some r \<Longrightarrow> r \<in> set rows \<and> P r"
  by (auto dest!: pick_row_SomeD)

lemma update_balances_InrD:
  assumes "update_balances P f s = Inr s'"
  shows "s' = s\<lparr>balances := update_where P f (balances s)\<rparr> \<and> (\<forall>b\<in>set (balances s). P b \<longrightarrow> balance_row_ok (f b))"
  using assms by (auto simp: update_balances_def list_all_iff split: if_splits)

lemma insert_leave_request_InrD:
  assumes "insert_leave_request row s = Inr s'"
  shows "s' = s\<lparr>requests := requests s @ [row]\<rparr> \<and> lr_dateRangeStart row \<le> lr_dateRangeEnd row \<and>
     lr_id row \<notin> lr_id ` set (requests s) \<and> (\<forall>r\<in>set (requests s). \<not> excluded_pair row r)"
  using assms by (auto simp: insert_leave_request_def list_ex_iff split: if_splits)

end
