(* ===== verification/Leave_Request.thy ===== *)
theory Leave_Request
  imports Leave_Model
begin

text \<open>
  Submitting leave: \<open>leave-request.service.ts\<close> over \<open>leave-conflict-check.service.ts\<close> and
  \<open>leave-approval-queue.service.ts\<close>, and provisioning a balance
  (\<open>provision-leave-balance.service.ts\<close>). The scheduling service is the parameter \<open>schedule\<close>, which
  answers with the employee's shifts or, when the call fails, not at all. The clock reading and its
  UTC date, fresh identifiers, which of several covering balances the unordered query returns
  (\<open>pick\<close>), and whether the queue answers (\<open>queueUp\<close>) are arguments.
\<close>

section \<open>Day count\<close>

definition inclusiveDayCount :: "iso_date \<Rightarrow> iso_date \<Rightarrow> int" where
  \<comment> \<open>both instants are midnights, so the quotient that is rounded is whole\<close>
  "inclusiveDayCount dateRangeStart dateRangeEnd =
     (date_utc dateRangeEnd - date_utc dateRangeStart) div 86400000 + 1"

lemma inclusiveDayCount_dayno: "inclusiveDayCount a b = dayno b - dayno a + 1"
proof -
  have "date_utc b - date_utc a = (dayno b - dayno a) * 86400000" by (simp add: date_utc_def algebra_simps)
  then show ?thesis by (simp add: inclusiveDayCount_def)
qed

lemma inclusiveDayCount_pos: "valid_date a \<Longrightarrow> valid_date b \<Longrightarrow> a \<le> b \<Longrightarrow> 1 \<le> inclusiveDayCount a b"
  using dayno_mono[of a b] by (simp add: inclusiveDayCount_dayno)

section \<open>Conflict check\<close>

record shift_assignment =
  sa_id :: uuid
  sa_shiftStart :: millis
  sa_shiftEnd :: millis

type_synonym schedule_client = "uuid \<Rightarrow> uuid \<Rightarrow> millis \<Rightarrow> millis \<Rightarrow> shift_assignment list option"

definition conflict_check ::
  "schedule_client \<Rightarrow> uuid \<Rightarrow> uuid \<Rightarrow> iso_date \<Rightarrow> iso_date \<Rightarrow> leave_error + conflict_flags" where
  "conflict_check schedule tenantId employeeId dateRangeStart dateRangeEnd =
     (let windowStart = date_utc dateRangeStart; windowEnd = date_utc dateRangeEnd + 86399999 in
      case schedule tenantId employeeId windowStart windowEnd of
        None \<Rightarrow> Inl UpstreamUnavailable
      | Some assignments \<Rightarrow>
          (let conflicting = filter (\<lambda>a. sa_shiftStart a < windowEnd \<and> windowStart < sa_shiftEnd a) assignments
           in Inr \<lparr>cf_hasConflict = conflicting \<noteq> [], cf_conflictingShiftIds = map sa_id conflicting\<rparr>))"

section \<open>Reminder queue\<close>

definition scheduleReminder :: "bool \<Rightarrow> reminder_job \<Rightarrow> leave_state \<Rightarrow> leave_state" where
  \<comment> \<open>a job whose id is already queued is not added again\<close>
  "scheduleReminder queueUp job s =
     (if queueUp \<and> rj_leaveRequestId job \<notin> rj_leaveRequestId ` set (reminders s)
      then s\<lparr>reminders := reminders s @ [job]\<rparr> else s)"

definition cancelReminder :: "bool \<Rightarrow> uuid \<Rightarrow> leave_state \<Rightarrow> leave_state" where
  "cancelReminder queueUp leaveRequestId s =
     (if queueUp then s\<lparr>reminders := delete_where (\<lambda>j. rj_leaveRequestId j = leaveRequestId) (reminders s)\<rparr> else s)"

definition process_reminder :: "reminder_job \<Rightarrow> leave_state \<Rightarrow> leave_state" where
  "process_reminder job s =
     (case find_where (\<lambda>r. lr_id r = rj_leaveRequestId job \<and> lr_tenantId r = rj_tenantId job \<and> lr_status r = LR_PENDING)
             (requests s) of
        None \<Rightarrow> s
      | Some _ \<Rightarrow> s\<lparr>leave_metrics := leave_metrics s @ [(''leave_approval_reminder'', ''fired'')]\<rparr>)"

section \<open>Reservation\<close>

record leave_dto =
  ld_employeeId :: uuid
  ld_leaveTypeId :: uuid
  ld_dateRangeStart :: iso_date
  ld_dateRangeEnd :: iso_date

record reserve_options =
  ro_forcePending :: bool
  ro_isBackdated :: bool
  ro_backdatedReason :: "string option"

type_synonym reservation = "leave_request \<times> bool \<times> uuid option"

definition insertLeaveRequestOrThrowOverlap :: "leave_request \<Rightarrow> leave_state \<Rightarrow> leave_error + leave_state" where
  "insertLeaveRequestOrThrowOverlap row s =
     (case insert_leave_request row s of
        Inl e \<Rightarrow> Inl (if e = LeaveDbError ''23P01'' then LeaveRequestOverlap else e)
      | Inr s' \<Rightarrow> Inr s')"

definition is_balance :: "uuid \<Rightarrow> leave_balance \<Rightarrow> leave_balance \<Rightarrow> bool" where
  \<comment> \<open>the row of the tenant with the primary key of \<open>balance\<close>\<close>
  "is_balance tenantId balance b \<longleftrightarrow> lb_tenantId b = tenantId \<and> balance_pk b = balance_pk balance"

definition new_leave_request ::
  "uuid \<Rightarrow> uuid \<Rightarrow> leave_dto \<Rightarrow> leave_status \<Rightarrow> uuid option \<Rightarrow> millis \<Rightarrow> millis option \<Rightarrow> conflict_flags \<Rightarrow>
   reserve_options \<Rightarrow> leave_request" where
  "new_leave_request newId tenantId dto status approvalChainId requestedAt decidedAt conflictFlags options =
     \<lparr>lr_id = newId, lr_tenantId = tenantId, lr_employeeId = ld_employeeId dto, lr_leaveTypeId = ld_leaveTypeId dto,
      lr_dateRangeStart = ld_dateRangeStart dto, lr_dateRangeEnd = ld_dateRangeEnd dto, lr_status = status,
      lr_approvalChainId = approvalChainId, lr_requestedAt = requestedAt, lr_decidedAt = decidedAt,
      lr_decidedBy = None, lr_conflictFlags = conflictFlags, lr_isBackdated = ro_isBackdated options,
      lr_backdatedReason = ro_backdatedReason options, lr_backdatedApprovedBy = None, lr_decisionReason = None\<rparr>"

definition reserveAndSubmit ::
  "nat \<Rightarrow> uuid \<Rightarrow> uuid \<Rightarrow> uuid \<Rightarrow> leave_dto \<Rightarrow> millis \<Rightarrow> int \<Rightarrow> conflict_flags \<Rightarrow> reserve_options \<Rightarrow>
   (leave_state, leave_error, reservation) txn" where
  "reserveAndSubmit pick newId newChainId tenantId dto requestedAt requestedDays conflictFlags options s =
     (case pick_row pick (filter (balance_covers tenantId (ld_employeeId dto) (ld_leaveTypeId dto)
                                    (ld_dateRangeStart dto) (ld_dateRangeEnd dto)) (balances s)) of
        None \<Rightarrow> Inl LeaveBalanceNotFound
      | Some balance \<Rightarrow>
          (let availableDays = lb_accruedDays balance - lb_usedDays balance - lb_pendingDays balance in
           if availableDays < 100 * requestedDays then Inl (InsufficientLeaveBalance requestedDays availableDays)
           else case find_where (\<lambda>lt. lt_id lt = lb_leaveTypeId balance \<and> lt_tenantId lt = tenantId) (leave_types s) of
             None \<Rightarrow> Inl (LeaveDbError ''EntityNotFoundError'')
           | Some leaveType \<Rightarrow>
               if lt_requiresApproval leaveType \<or> ro_forcePending options
               then (case update_balances (is_balance tenantId balance)
                            (\<lambda>b. b\<lparr>lb_pendingDays := lb_pendingDays b + 100 * requestedDays\<rparr>) s of
                       Inl e \<Rightarrow> Inl e
                     | Inr s1 \<Rightarrow>
                         (let row = new_leave_request newId tenantId dto LR_PENDING (Some newChainId) requestedAt None
                                      conflictFlags options in
                          case insertLeaveRequestOrThrowOverlap row s1 of
                            Inl e \<Rightarrow> Inl e
                          | Inr s2 \<Rightarrow> Inr ((row, True, Some newChainId), s2)))
               else (case update_balances (is_balance tenantId balance)
                            (\<lambda>b. b\<lparr>lb_usedDays := lb_usedDays b + 100 * requestedDays\<rparr>) s of
                       Inl e \<Rightarrow> Inl e
                     | Inr s1 \<Rightarrow>
                         (let row = new_leave_request newId tenantId dto LR_APPROVED None requestedAt (Some requestedAt)
                                      conflictFlags options in
                          case insertLeaveRequestOrThrowOverlap row s1 of
                            Inl e \<Rightarrow> Inl e
                          | Inr s2 \<Rightarrow> Inr ((row, False, None), s2)))))"

section \<open>Handlers\<close>

definition count_metric :: "string \<Rightarrow> string \<Rightarrow> leave_state \<Rightarrow> leave_state" where
  "count_metric m l s = s\<lparr>leave_metrics := leave_metrics s @ [(m, l)]\<rparr>"

definition submission_label :: "leave_error \<Rightarrow> string" where
  "submission_label e =
     (case e of InsufficientLeaveBalance _ _ \<Rightarrow> ''rejected'' | LeaveBalanceNotFound \<Rightarrow> ''rejected'' | _ \<Rightarrow> ''error'')"

record leave_env =
  le_requestedAt :: millis
  le_todayUtc :: iso_date
  le_pick :: nat
  le_newId :: uuid
  le_newChainId :: uuid
  le_queueUp :: bool
  le_reminderDelayMs :: int

definition requestLeave ::
  "schedule_client \<Rightarrow> leave_env \<Rightarrow> uuid \<Rightarrow> leave_dto \<Rightarrow> (leave_state, leave_error, leave_request) svc" where
  "requestLeave schedule env tenantId dto s =
     (if ld_dateRangeEnd dto < ld_dateRangeStart dto then (Inl InvalidLeaveRequest, s)
      else if ld_dateRangeStart dto < le_todayUtc env then (Inl BackdatedLeaveNotSupported, s)
      else case conflict_check schedule tenantId (ld_employeeId dto) (ld_dateRangeStart dto) (ld_dateRangeEnd dto) of
        Inl e \<Rightarrow> (Inl e, s)
      | Inr conflictFlags \<Rightarrow>
          (let requestedDays = inclusiveDayCount (ld_dateRangeStart dto) (ld_dateRangeEnd dto) in
           case run_txn (reserveAndSubmit (le_pick env) (le_newId env) (le_newChainId env) tenantId dto
                           (le_requestedAt env) requestedDays conflictFlags
                           \<lparr>ro_forcePending = False, ro_isBackdated = False, ro_backdatedReason = None\<rparr>) s of
             (Inl e, s1) \<Rightarrow> (Inl e, count_metric ''leave_request_submission'' (submission_label e) s1)
           | (Inr (leaveRequest, requiresApproval, approvalChainId), s1) \<Rightarrow>
               (let s2 = count_metric ''leave_request_submission'' ''accepted'' s1 in
                (Inr leaveRequest,
                 case approvalChainId of
                   None \<Rightarrow> s2
                 | Some chain \<Rightarrow>
                     if requiresApproval
                     then scheduleReminder (le_queueUp env)
                            \<lparr>rj_leaveRequestId = lr_id leaveRequest, rj_tenantId = tenantId, rj_approvalChainId = chain,
                             rj_dueAt = le_requestedAt env + le_reminderDelayMs env\<rparr> s2
                     else s2))))"

definition submitBackdatedLeave ::
  "schedule_client \<Rightarrow> leave_env \<Rightarrow> uuid \<Rightarrow> leave_dto \<Rightarrow> string \<Rightarrow> (leave_state, leave_error, leave_request) svc" where
  "submitBackdatedLeave schedule env tenantId dto backdatedReason s =
     (if ld_dateRangeEnd dto < ld_dateRangeStart dto then (Inl InvalidLeaveRequest, s)
      else if le_todayUtc env \<le> ld_dateRangeStart dto then (Inl NotActuallyBackdated, s)
      else case conflict_check schedule tenantId (ld_employeeId dto) (ld_dateRangeStart dto) (ld_dateRangeEnd dto) of
        Inl e \<Rightarrow> (Inl e, s)
      | Inr conflictFlags \<Rightarrow>
          (let requestedDays = inclusiveDayCount (ld_dateRangeStart dto) (ld_dateRangeEnd dto) in
           case run_txn (reserveAndSubmit (le_pick env) (le_newId env) (le_newChainId env) tenantId dto
                           (le_requestedAt env) requestedDays conflictFlags
                           \<lparr>ro_forcePending = True, ro_isBackdated = True, ro_backdatedReason = Some backdatedReason\<rparr>) s of
             (Inl e, s1) \<Rightarrow> (Inl e, count_metric ''backdated_leave_submission'' (submission_label e) s1)
           | (Inr (leaveRequest, requiresApproval, approvalChainId), s1) \<Rightarrow>
               (Inr leaveRequest,
                scheduleReminder (le_queueUp env)
                  \<lparr>rj_leaveRequestId = lr_id leaveRequest, rj_tenantId = tenantId,
                   rj_approvalChainId = the_default approvalChainId [],
                   rj_dueAt = le_requestedAt env + le_reminderDelayMs env\<rparr>
                  (count_metric ''backdated_leave_submission'' ''accepted'' s1))))"

section \<open>Provisioning\<close>

record provision_dto =
  pd_leaveTypeId :: uuid
  pd_periodStart :: iso_date
  pd_periodEnd :: iso_date
  pd_accruedDays :: int
  pd_carryoverDaysIn :: "int option"
  pd_carryoverExpiryDate :: "iso_date option"

definition provisioned :: "uuid \<Rightarrow> uuid \<Rightarrow> provision_dto \<Rightarrow> leave_balance" where
  "provisioned tenantId employeeId dto =
     \<lparr>lb_employeeId = employeeId, lb_leaveTypeId = pd_leaveTypeId dto, lb_periodStart = pd_periodStart dto,
      lb_periodEnd = pd_periodEnd dto, lb_tenantId = tenantId, lb_accruedDays = pd_accruedDays dto,
      lb_usedDays = 0, lb_pendingDays = 0, lb_carryoverDaysIn = the_default (pd_carryoverDaysIn dto) 0,
      lb_carryoverExpiryDate = pd_carryoverExpiryDate dto, lb_carryoverApplied = False, lb_lastAccruedAt = None\<rparr>"

definition provision :: "uuid \<Rightarrow> uuid \<Rightarrow> provision_dto \<Rightarrow> (leave_state, leave_error, leave_balance) txn" where
  "provision tenantId employeeId dto s =
     (case find_where (\<lambda>lt. lt_id lt = pd_leaveTypeId dto \<and> lt_tenantId lt = tenantId) (leave_types s) of
        None \<Rightarrow> Inl LeaveTypeNotFound
      | Some _ \<Rightarrow>
          (let row = provisioned tenantId employeeId dto in
           if \<not> balance_row_ok row then Inl (LeaveDbError ''leave_balance_check'')
           else if balance_pk row \<in> balance_pk ` set (balances s) then Inl LeaveBalanceAlreadyExists
           else Inr (row, s\<lparr>balances := balances s @ [row]\<rparr>)))"

end
