(* ===== verification/Leave_Decision.thy ===== *)
theory Leave_Decision
  imports Leave_Request
begin

text \<open>
  Deciding leave (\<open>decide-leave-request.service.ts\<close>) and the two daily jobs that change balances
  (\<open>leave-carryover-job.service.ts\<close>, \<open>leave-accrual-job.service.ts\<close>). The queue, NATS and the audit
  service are best effort: whether each answers is an argument. A job is one SQL statement: every row
  it writes is computed from the table as the statement found it, and when one row breaks a
  constraint nothing is written.
\<close>

section \<open>Deciding\<close>

datatype leave_decision = DECIDE_APPROVED | DECIDE_REJECTED

definition decision_status :: "leave_decision \<Rightarrow> leave_status" where
  "decision_status d = (case d of DECIDE_APPROVED \<Rightarrow> LR_APPROVED | DECIDE_REJECTED \<Rightarrow> LR_REJECTED)"

record decide_dto =
  dd_decision :: leave_decision
  dd_decidedBy :: uuid
  dd_actorPermissions :: "string list option"
  dd_reason :: "string option"

definition BACKDATED_LEAVE_APPROVE_PERMISSION :: string where
  "BACKDATED_LEAVE_APPROVE_PERMISSION = ''backdated_leave_entry:approve''"

definition decided_request :: "millis \<Rightarrow> decide_dto \<Rightarrow> leave_request \<Rightarrow> leave_request" where
  "decided_request now dto r =
     r\<lparr>lr_status := decision_status (dd_decision dto), lr_decidedAt := Some now, lr_decidedBy := Some (dd_decidedBy dto),
       lr_decisionReason := nullish_or (dd_reason dto) (lr_decisionReason r),
       lr_backdatedApprovedBy :=
         (if lr_isBackdated r \<and> dd_decision dto = DECIDE_APPROVED then Some (dd_decidedBy dto) else None)\<rparr>"

definition applyDecision ::
  "nat \<Rightarrow> millis \<Rightarrow> uuid \<Rightarrow> uuid \<Rightarrow> decide_dto \<Rightarrow> (leave_state, leave_error, leave_request) txn" where
  "applyDecision pick now tenantId leaveRequestId dto s =
     (case find_where (\<lambda>r. lr_id r = leaveRequestId \<and> lr_tenantId r = tenantId) (requests s) of
        None \<Rightarrow> Inl LeaveRequestNotFound
      | Some request \<Rightarrow>
          if lr_status request \<noteq> LR_PENDING then Inl (LeaveRequestAlreadyDecided (lr_status request))
          else if lr_isBackdated request \<and> dd_decision dto = DECIDE_APPROVED \<and>
                  BACKDATED_LEAVE_APPROVE_PERMISSION \<notin> set (the_default (dd_actorPermissions dto) [])
          then Inl InsufficientPermission
          else case pick_row pick (filter (balance_covers tenantId (lr_employeeId request) (lr_leaveTypeId request)
                                             (lr_dateRangeStart request) (lr_dateRangeEnd request)) (balances s)) of
            None \<Rightarrow> Inl LeaveBalanceNotFound
          | Some balance \<Rightarrow>
              (let requestedDays = inclusiveDayCount (lr_dateRangeStart request) (lr_dateRangeEnd request) in
               case update_balances (is_balance tenantId balance)
                      (\<lambda>b. b\<lparr>lb_pendingDays := lb_pendingDays b - 100 * requestedDays\<rparr>) s of
                 Inl e \<Rightarrow> Inl e
               | Inr s1 \<Rightarrow>
                   (case (if dd_decision dto = DECIDE_APPROVED
                          then update_balances (is_balance tenantId balance)
                                 (\<lambda>b. b\<lparr>lb_usedDays := lb_usedDays b + 100 * requestedDays\<rparr>) s1
                          else Inr s1) of
                      Inl e \<Rightarrow> Inl e
                    | Inr s2 \<Rightarrow>
                        Inr (decided_request now dto request,
                             s2\<lparr>requests := update_where (\<lambda>r. lr_id r = leaveRequestId \<and> lr_tenantId r = tenantId)
                                             (decided_request now dto) (requests s2)\<rparr>))))"

definition publishApproval :: "bool \<Rightarrow> leave_request \<Rightarrow> leave_state \<Rightarrow> leave_state" where
  "publishApproval natsUp request s =
     (if natsUp then count_metric ''leave_approval_propagation'' ''observed''
                       (s\<lparr>approvals_published := approvals_published s @ [request]\<rparr>)
      else s)"

definition auditBackdatedDecision :: "bool \<Rightarrow> leave_request \<Rightarrow> decide_dto \<Rightarrow> leave_state \<Rightarrow> leave_state" where
  "auditBackdatedDecision auditUp request dto s =
     (let approved = (dd_decision dto = DECIDE_APPROVED) in
      if auditUp
      then count_metric ''backdated_audit_event'' ''published''
             (s\<lparr>audit_log := audit_log s @
                [\<lparr>au_actorId = dd_decidedBy dto,
                  au_action = (if approved then ''approve_backdated_leave_request'' else ''reject_backdated_leave_request''),
                  au_resourceId = lr_id request,
                  au_requestedDays = inclusiveDayCount (lr_dateRangeStart request) (lr_dateRangeEnd request),
                  au_status = lr_status request, au_payrollResyncRequired = approved\<rparr>]\<rparr>)
      else count_metric ''backdated_audit_event'' ''failed'' s)"

definition decide_label :: "leave_error \<Rightarrow> string" where
  "decide_label e =
     (case e of LeaveRequestNotFound \<Rightarrow> ''rejected'' | LeaveRequestAlreadyDecided _ \<Rightarrow> ''rejected'' | _ \<Rightarrow> ''error'')"

record decide_env =
  de_now :: millis
  de_pick :: nat
  de_queueUp :: bool
  de_natsUp :: bool
  de_auditUp :: bool

definition decide ::
  "decide_env \<Rightarrow> uuid \<Rightarrow> uuid \<Rightarrow> decide_dto \<Rightarrow> (leave_state, leave_error, leave_request) svc" where
  "decide env tenantId leaveRequestId dto s =
     (case run_txn (applyDecision (de_pick env) (de_now env) tenantId leaveRequestId dto) s of
        (Inl e, s1) \<Rightarrow>
          (Inl e,
           count_metric ''leave_request_decision'' (decide_label e)
             (if e = InsufficientPermission then count_metric ''backdated_permission_denial'' ''denied'' s1 else s1))
      | (Inr result, s1) \<Rightarrow>
          (let s2 = count_metric ''leave_request_decision''
                      (if dd_decision dto = DECIDE_APPROVED then ''approved'' else ''rejected'') s1;
               s3 = cancelReminder (de_queueUp env) leaveRequestId s2;
               s4 = (if dd_decision dto = DECIDE_APPROVED then publishApproval (de_natsUp env) result s3 else s3);
               s5 = (if lr_isBackdated result then auditBackdatedDecision (de_auditUp env) result dto s4 else s4)
           in (Inr result, s5)))"

section \<open>Jobs\<close>

definition run_balance_job :: "string \<Rightarrow> (leave_balance \<Rightarrow> leave_balance) \<Rightarrow> leave_state \<Rightarrow> leave_state" where
  \<comment> \<open>one statement over the whole table and the outcome the job counts\<close>
  "run_balance_job m f s =
     (if list_all (\<lambda>b. f b = b \<or> balance_row_ok (f b)) (balances s)
      then count_metric m ''success'' (s\<lparr>balances := map f (balances s)\<rparr>)
      else count_metric m ''error'' s)"

definition leftover :: "leave_balance \<Rightarrow> int" where
  "leftover b = lb_accruedDays b - lb_usedDays b - lb_pendingDays b"

definition carryover_amount :: "leave_balance \<Rightarrow> leave_type \<Rightarrow> int" where
  "carryover_amount predecessor lt =
     max (min (leftover predecessor) (case lt_maxCarryoverDays lt of None \<Rightarrow> 0 | Some n \<Rightarrow> int n)) 0"

definition rollover_sources ::
  "iso_date \<Rightarrow> leave_state \<Rightarrow> leave_balance \<Rightarrow> (leave_balance \<times> leave_type) list" where
  "rollover_sources today s successor =
     [(p, lt). p \<leftarrow> balances s, lt \<leftarrow> leave_types s,
        lt_id lt = lb_leaveTypeId p \<and> lb_tenantId successor = lb_tenantId p \<and>
        lb_employeeId successor = lb_employeeId p \<and> lb_leaveTypeId successor = lb_leaveTypeId p \<and>
        lb_periodStart successor = next_day (lb_periodEnd p) \<and> lb_periodEnd p < today]"

definition rollover_row :: "(leave_balance \<Rightarrow> nat) \<Rightarrow> iso_date \<Rightarrow> leave_state \<Rightarrow> leave_balance \<Rightarrow> leave_balance" where
  "rollover_row pick today s successor =
     (if lb_carryoverApplied successor then successor
      else case pick_row (pick successor) (rollover_sources today s successor) of
        None \<Rightarrow> successor
      | Some (p, lt) \<Rightarrow>
          successor\<lparr>lb_accruedDays := lb_accruedDays successor + carryover_amount p lt,
            lb_carryoverDaysIn := carryover_amount p lt,
            lb_carryoverExpiryDate :=
              map_option (\<lambda>months. add_months (next_day (lb_periodEnd p)) (int months)) (lt_carryoverExpiryMonths lt),
            lb_carryoverApplied := True\<rparr>)"

definition carryover_expired :: "iso_date \<Rightarrow> leave_balance \<Rightarrow> bool" where
  "carryover_expired today b \<longleftrightarrow> 0 < lb_carryoverDaysIn b \<and>
     (case lb_carryoverExpiryDate b of None \<Rightarrow> False | Some d \<Rightarrow> d < today)"

definition clawback :: "leave_balance \<Rightarrow> int" where
  "clawback b = min (lb_carryoverDaysIn b) (max (leftover b) 0)"

definition expiry_row :: "iso_date \<Rightarrow> leave_state \<Rightarrow> leave_balance \<Rightarrow> leave_balance" where
  "expiry_row today s b =
     (if carryover_expired today b
      then b\<lparr>lb_accruedDays := lb_accruedDays b - clawback b, lb_carryoverDaysIn := 0, lb_carryoverExpiryDate := None\<rparr>
      else b)"

definition rolloverTick :: "(leave_balance \<Rightarrow> nat) \<Rightarrow> iso_date \<Rightarrow> leave_state \<Rightarrow> leave_state" where
  "rolloverTick pick today s = run_balance_job ''carryover_rollover_run'' (rollover_row pick today s) s"

definition expiryTick :: "iso_date \<Rightarrow> leave_state \<Rightarrow> leave_state" where
  "expiryTick today s = run_balance_job ''carryover_expiry_run'' (expiry_row today s) s"

definition carryover_tick :: "(leave_balance \<Rightarrow> nat) \<Rightarrow> bool \<Rightarrow> iso_date \<Rightarrow> leave_state \<Rightarrow> leave_state" where
  "carryover_tick pick ticking today s = (if ticking then s else expiryTick today (rolloverTick pick today s))"

definition accrual_due :: "iso_date \<Rightarrow> accrual_policy \<Rightarrow> leave_balance \<Rightarrow> bool" where
  "accrual_due today ap b =
     (case lb_lastAccruedAt b of
        None \<Rightarrow> True
      | Some prev \<Rightarrow>
          (case ap_accrualFrequency ap of
             WEEKLY \<Rightarrow> dayno prev \<le> dayno today - 7
           | BIWEEKLY \<Rightarrow> dayno prev \<le> dayno today - 14
           | MONTHLY \<Rightarrow> (fst prev, fst (snd prev)) < (fst today, fst (snd today))
           | ANNUALLY \<Rightarrow> fst prev < fst today))"

definition below_cap :: "accrual_policy \<Rightarrow> leave_balance \<Rightarrow> bool" where
  "below_cap ap b = (case ap_maxBalanceCap ap of None \<Rightarrow> True | Some cap \<Rightarrow> lb_accruedDays b < cap)"

definition accrual_sources :: "leave_state \<Rightarrow> iso_date \<Rightarrow> leave_balance \<Rightarrow> accrual_policy list" where
  "accrual_sources s today b =
     [ap. lt \<leftarrow> leave_types s, ap \<leftarrow> accrual_policies s,
        ap_id ap = lt_accrualPolicyId lt \<and> ap_tenantId ap = lt_tenantId lt \<and> ap_active ap \<and>
        lb_leaveTypeId b = lt_id lt \<and> lb_tenantId b = lt_tenantId lt \<and>
        lb_periodStart b \<le> today \<and> today \<le> lb_periodEnd b \<and> below_cap ap b \<and> accrual_due today ap b]"

definition accrued_after :: "accrual_policy \<Rightarrow> leave_balance \<Rightarrow> int" where
  "accrued_after ap b =
     (let grown = lb_accruedDays b + int (ap_accrualRatePerPeriod ap) in min grown (the_default (ap_maxBalanceCap ap) grown))"

definition accrual_row :: "(leave_balance \<Rightarrow> nat) \<Rightarrow> iso_date \<Rightarrow> leave_state \<Rightarrow> leave_balance \<Rightarrow> leave_balance" where
  "accrual_row pick today s b =
     (case pick_row (pick b) (accrual_sources s today b) of
        None \<Rightarrow> b
      | Some ap \<Rightarrow> b\<lparr>lb_accruedDays := accrued_after ap b, lb_lastAccruedAt := Some today\<rparr>)"

definition accrual_tick :: "(leave_balance \<Rightarrow> nat) \<Rightarrow> bool \<Rightarrow> iso_date \<Rightarrow> leave_state \<Rightarrow> leave_state" where
  "accrual_tick pick ticking today s =
     (if ticking then s else run_balance_job ''leave_accrual_run'' (accrual_row pick today s) s)"

end
