(* ===== verification/Leave_Ledger.thy ===== *)
theory Leave_Ledger
  imports Leave_Decision
begin

text \<open>
  The books of the leave service: what a balance row says is used and pending is exactly what the
  leave requests of its period book. \<open>leave_inv\<close> states it together with the table constraints,
  \<open>leave_step\<close> is any interleaving of requests, decisions, provisioning and jobs, and the locale
  \<open>balance_job\<close> is the contract under which a daily job may rewrite balances.
\<close>

section \<open>Invariant\<close>

definition request_days :: "leave_request \<Rightarrow> int" where
  "request_days r = 100 * inclusiveDayCount (lr_dateRangeStart r) (lr_dateRangeEnd r)"

definition covers :: "leave_balance \<Rightarrow> leave_request \<Rightarrow> bool" where
  "covers b r = balance_covers (lr_tenantId r) (lr_employeeId r) (lr_leaveTypeId r) (lr_dateRangeStart r) (lr_dateRangeEnd r) b"

definition booked :: "leave_status \<Rightarrow> leave_balance \<Rightarrow> leave_request list \<Rightarrow> int" where
  "booked st b rs = sum_list (map (\<lambda>r. if lr_status r = st \<and> covers b r then request_days r else 0) rs)"

definition balance_books :: "leave_request list \<Rightarrow> leave_balance \<Rightarrow> bool" where
  "balance_books rs b \<longleftrightarrow> balance_row_ok b \<and> lb_usedDays b = booked LR_APPROVED b rs \<and>
     lb_pendingDays b = booked LR_PENDING b rs \<and> lb_usedDays b + lb_pendingDays b \<le> lb_accruedDays b"

definition periods_apart :: "leave_balance \<Rightarrow> leave_balance \<Rightarrow> bool" where
  "periods_apart a b \<longleftrightarrow> (lb_tenantId a, lb_employeeId a, lb_leaveTypeId a) \<noteq> (lb_tenantId b, lb_employeeId b, lb_leaveTypeId b) \<or>
     lb_periodEnd a < lb_periodStart b \<or> lb_periodEnd b < lb_periodStart a"

definition periods_ok :: "leave_balance list \<Rightarrow> bool" where
  "periods_ok bs \<longleftrightarrow> distinct (map balance_pk bs) \<and>
     (\<forall>a\<in>set bs. \<forall>b\<in>set bs. balance_pk a \<noteq> balance_pk b \<longrightarrow> periods_apart a b)"

definition request_ok :: "leave_balance list \<Rightarrow> leave_request \<Rightarrow> bool" where
  "request_ok bs r \<longleftrightarrow> lr_dateRangeStart r \<le> lr_dateRangeEnd r \<and> valid_date (lr_dateRangeStart r) \<and>
     valid_date (lr_dateRangeEnd r) \<and> (active_request r \<longrightarrow> (\<exists>b\<in>set bs. covers b r))"

definition requests_apart :: "leave_request list \<Rightarrow> bool" where
  "requests_apart rs \<longleftrightarrow> distinct (map lr_id rs) \<and>
     (\<forall>a\<in>set rs. \<forall>b\<in>set rs. lr_id a \<noteq> lr_id b \<longrightarrow> \<not> excluded_pair a b)"

definition leave_inv :: "leave_state \<Rightarrow> bool" where
  "leave_inv s \<longleftrightarrow> periods_ok (balances s) \<and> (\<forall>b\<in>set (balances s). balance_books (requests s) b) \<and>
     (\<forall>r\<in>set (requests s). request_ok (balances s) r) \<and> requests_apart (requests s)"

lemma leave_invD:
  assumes "leave_inv s"
  shows "periods_ok (balances s)" "b \<in> set (balances s) \<Longrightarrow> balance_books (requests s) b"
    "r \<in> set (requests s) \<Longrightarrow> request_ok (balances s) r" "requests_apart (requests s)"
  using assms by (simp_all add: leave_inv_def)

text \<open>The invariant only looks at the two tables.\<close>

lemma leave_inv_tables: "balances s' = balances s \<Longrightarrow> requests s' = requests s \<Longrightarrow> leave_inv s' = leave_inv s"
  by (simp add: leave_inv_def)

definition same_period :: "leave_balance \<Rightarrow> leave_balance \<Rightarrow> bool" where
  "same_period a b \<longleftrightarrow> balance_pk a = balance_pk b \<and> lb_tenantId a = lb_tenantId b"

lemma same_period_covers: "same_period a b \<Longrightarrow> covers a r = covers b r"
  by (simp add: same_period_def covers_def balance_covers_def balance_pk_def)

lemma same_period_apart: "same_period a a' \<Longrightarrow> same_period b b' \<Longrightarrow> periods_apart a b = periods_apart a' b'"
  by (simp add: same_period_def periods_apart_def balance_pk_def)

lemma same_period_booked: "same_period a b \<Longrightarrow> booked st a rs = booked st b rs"
  by (simp add: booked_def same_period_covers)

lemma covers_upd [simp]:
  "covers (b\<lparr>lb_usedDays := x\<rparr>) r = covers b r" "covers (b\<lparr>lb_pendingDays := x\<rparr>) r = covers b r"
  by (simp_all add: covers_def balance_covers_def)

lemma booked_upd [simp]:
  "booked st (b\<lparr>lb_usedDays := x\<rparr>) rs = booked st b rs" "booked st (b\<lparr>lb_pendingDays := x\<rparr>) rs = booked st b rs"
  by (simp_all add: booked_def)

lemma periods_ok_map:
  assumes "periods_ok bs" "\<And>b. b \<in> set bs \<Longrightarrow> same_period (f b) b"
  shows "periods_ok (map f bs)"
proof -
  have "map balance_pk (map f bs) = map balance_pk bs" using assms(2) by (simp add: same_period_def)
  then have "distinct (map balance_pk (map f bs))" using assms(1) by (simp only: periods_ok_def)
  moreover have "periods_apart (f a) (f b)" if "a \<in> set bs" "b \<in> set bs" "balance_pk (f a) \<noteq> balance_pk (f b)" for a b
    using assms that same_period_apart[of "f a" a "f b" b] by (auto simp: periods_ok_def same_period_def)
  ultimately show ?thesis by (auto simp: periods_ok_def)
qed

lemma covering_balance_unique:
  assumes "periods_ok bs" "a \<in> set bs" "b \<in> set bs" "covers a r" "covers b r" "lr_dateRangeStart r \<le> lr_dateRangeEnd r"
  shows "a = b"
proof -
  have "\<not> periods_apart a b" using assms(4-6) by (auto simp: covers_def balance_covers_def periods_apart_def)
  then have "balance_pk a = balance_pk b" using assms(1-3) by (auto simp: periods_ok_def)
  then show ?thesis using assms(1-3) by (auto simp: periods_ok_def distinct_map inj_on_def)
qed

lemma is_balance_iff:
  assumes "periods_ok bs" "a \<in> set bs" "b \<in> set bs" "lb_tenantId a = t"
  shows "is_balance t a b \<longleftrightarrow> b = a"
  using assms by (auto simp: is_balance_def periods_ok_def distinct_map inj_on_def)

lemma booked_append: "booked st b (rs @ [r]) = booked st b rs + (if lr_status r = st \<and> covers b r then request_days r else 0)"
  by (simp add: booked_def)

lemma sum_list_update_key:
  assumes "distinct (map k rs)" "r \<in> set rs" "\<And>x. x \<in> set rs \<Longrightarrow> P x \<longleftrightarrow> k x = k r"
  shows "sum_list (map g (update_where P f rs)) = sum_list (map g rs) - g r + (g (f r) :: int)"
  using assms
proof (induction rs)
  case (Cons x rs)
  show ?case
  proof (cases "x = r")
    case True
    then have "update_where P f rs = rs" using Cons.prems(1,3) by (intro update_where_id) (auto simp: rev_image_eqI)
    then show ?thesis using True Cons.prems(3) by simp
  next
    case False
    then have r: "r \<in> set rs" using Cons.prems(2) by simp
    then have "\<not> P x" using Cons.prems(1,3) by (auto simp: rev_image_eqI)
    moreover have "sum_list (map g (update_where P f rs)) = sum_list (map g rs) - g r + g (f r)"
      using Cons.prems r by (intro Cons.IH) auto
    ultimately show ?thesis by simp
  qed
qed simp

lemma booked_update:
  assumes "distinct (map lr_id rs)" "r \<in> set rs" "\<And>x. x \<in> set rs \<Longrightarrow> P x \<longleftrightarrow> lr_id x = lr_id r"
    and "covers b (f r) = covers b r" "request_days (f r) = request_days r"
  shows "booked st b (update_where P f rs) =
    booked st b rs + (if covers b r then request_days r else 0) *
      ((if lr_status (f r) = st then 1 else 0) - (if lr_status r = st then 1 else 0))"
  unfolding booked_def using assms(4,5) by (subst sum_list_update_key[OF assms(1-3)]) simp_all

section \<open>Submitting\<close>

definition valid_dto :: "leave_dto \<Rightarrow> bool" where
  "valid_dto dto \<longleftrightarrow> valid_date (ld_dateRangeStart dto) \<and> valid_date (ld_dateRangeEnd dto)"

lemma leave_inv_book:
  assumes inv: "leave_inv s" and a: "a \<in> set (balances s)" "covers a row" "request_ok (balances s) row"
    and fits: "request_days row \<le> leftover a" and act: "active_request row"
    and upd: "update_balances (is_balance t a) f s = Inr s1" and t: "lb_tenantId a = t"
    and f: "\<And>b. f b = b\<lparr>lb_pendingDays := lb_pendingDays b + (if lr_status row = LR_PENDING then request_days row else 0),
                lb_usedDays := lb_usedDays b + (if lr_status row = LR_APPROVED then request_days row else 0)\<rparr>"
    and ins: "insert_leave_request row s1 = Inr s2"
  shows "leave_inv s2"
proof -
  note p = leave_invD(1)[OF inv]
  have s1: "s1 = s\<lparr>balances := update_where (is_balance t a) f (balances s)\<rparr>" and ok: "is_balance t a b \<Longrightarrow> b \<in> set (balances s) \<Longrightarrow> balance_row_ok (f b)" for b
    using update_balances_InrD[OF upd] by auto
  have s2: "s2 = s1\<lparr>requests := requests s @ [row]\<rparr>" and new: "lr_id row \<notin> lr_id ` set (requests s)"
      "\<And>r. r \<in> set (requests s) \<Longrightarrow> \<not> excluded_pair row r"
    using insert_leave_request_InrD[OF ins] s1 by auto
  define g where "g b = (if b = a then f b else b)" for b
  have bs: "balances s2 = map g (balances s)"
    unfolding s2 s1 update_where_def using is_balance_iff[OF p a(1) _ t] by (auto simp: g_def)
  have per: "same_period (g b) b" for b by (simp add: g_def f same_period_def balance_pk_def)
  have cov: "covers b row \<longleftrightarrow> b = a" if "b \<in> set (balances s)" for b
    using covering_balance_unique[OF p that a(1) _ a(2)] a(2,3) by (auto simp: request_ok_def)
  have "balance_books (requests s @ [row]) (g b)" if b: "b \<in> set (balances s)" for b
  proof -
    have "balance_books (requests s) b" by (rule leave_invD(2)[OF inv b])
    then show ?thesis
      using cov[OF b] ok[of a] a(1) t fits act
      by (auto simp: balance_books_def booked_append g_def f leftover_def active_request_def is_balance_def)
  qed
  moreover have "request_ok (map g (balances s)) r" if "request_ok (balances s) r" for r
    using that by (auto simp: request_ok_def same_period_covers[OF per])
  moreover have "requests_apart (requests s @ [row])"
    using leave_invD(4)[OF inv] new by (auto simp: requests_apart_def excluded_pair_def ranges_overlap_def)
  ultimately show ?thesis
    using periods_ok_map[OF p per] leave_invD(3)[OF inv] a(3) unfolding leave_inv_def bs by (auto simp: s2)
qed

lemma insert_or_overlap_InrD: "insertLeaveRequestOrThrowOverlap row s = Inr s' \<Longrightarrow> insert_leave_request row s = Inr s'"
  by (simp add: insertLeaveRequestOrThrowOverlap_def split: sum.splits)

lemma reserveAndSubmit_inv:
  assumes inv: "leave_inv s" and dto: "valid_dto dto"
    and days: "requestedDays = inclusiveDayCount (ld_dateRangeStart dto) (ld_dateRangeEnd dto)"
    and res: "reserveAndSubmit pick newId chain t dto now requestedDays flags opts s = Inr (r, s2)"
  shows "leave_inv s2"
proof -
  obtain a where pick: "pick_row pick (filter (balance_covers t (ld_employeeId dto) (ld_leaveTypeId dto)
      (ld_dateRangeStart dto) (ld_dateRangeEnd dto)) (balances s)) = Some a"
    and fits: "100 * requestedDays \<le> leftover a"
    using res by (auto simp: reserveAndSubmit_def leftover_def Let_def split: option.splits if_splits)
  have a: "a \<in> set (balances s)" "balance_covers t (ld_employeeId dto) (ld_leaveTypeId dto) (ld_dateRangeStart dto) (ld_dateRangeEnd dto) a"
    using pick_row_filterD[OF pick] by auto
  then have t: "lb_tenantId a = t" by (simp add: balance_covers_def)
  let ?new = "\<lambda>st ch dec. new_leave_request newId t dto st ch now dec flags opts"
  have row: "covers a (?new st ch dec)" "request_days (?new st ch dec) = 100 * requestedDays" for st ch dec
    using a(2) days by (simp_all add: covers_def new_leave_request_def request_days_def)
  from res consider
      s1 where "update_balances (is_balance t a) (\<lambda>b. b\<lparr>lb_pendingDays := lb_pendingDays b + 100 * requestedDays\<rparr>) s = Inr s1"
        "insert_leave_request (?new LR_PENDING (Some chain) None) s1 = Inr s2"
    | s1 where "update_balances (is_balance t a) (\<lambda>b. b\<lparr>lb_usedDays := lb_usedDays b + 100 * requestedDays\<rparr>) s = Inr s1"
        "insert_leave_request (?new LR_APPROVED None (Some now)) s1 = Inr s2"
    using pick by (auto simp: reserveAndSubmit_def Let_def dest!: insert_or_overlap_InrD split: option.splits if_splits sum.splits)
  then show ?thesis
  proof cases
    case 1
    have "request_ok (balances s) (?new LR_PENDING (Some chain) None)"
      using insert_leave_request_InrD[OF 1(2)] dto a(1) row(1) by (auto simp: request_ok_def new_leave_request_def valid_dto_def)
    from leave_inv_book[OF inv a(1) row(1) this _ _ 1(1) t _ 1(2)] show ?thesis
      using fits row(2) by (simp add: active_request_def new_leave_request_def request_days_def days)
  next
    case 2
    have "request_ok (balances s) (?new LR_APPROVED None (Some now))"
      using insert_leave_request_InrD[OF 2(2)] dto a(1) row(1) by (auto simp: request_ok_def new_leave_request_def valid_dto_def)
    from leave_inv_book[OF inv a(1) row(1) this _ _ 2(1) t _ 2(2)] show ?thesis
      using fits row(2) by (simp add: active_request_def new_leave_request_def request_days_def days)
  qed
qed

lemma tables_unchanged [simp]:
  "balances (count_metric m l s) = balances s" "requests (count_metric m l s) = requests s"
  "balances (scheduleReminder u j s) = balances s" "requests (scheduleReminder u j s) = requests s"
  "balances (cancelReminder u i s) = balances s" "requests (cancelReminder u i s) = requests s"
  "balances (publishApproval u r s) = balances s" "requests (publishApproval u r s) = requests s"
  "balances (auditBackdatedDecision u r d s) = balances s" "requests (auditBackdatedDecision u r d s) = requests s"
  "balances (process_reminder j s) = balances s" "requests (process_reminder j s) = requests s"
  by (simp_all add: count_metric_def scheduleReminder_def cancelReminder_def publishApproval_def
      auditBackdatedDecision_def process_reminder_def Let_def split: option.split)

lemma leave_inv_effects [simp]:
  "leave_inv (count_metric m l s) = leave_inv s" "leave_inv (scheduleReminder u j s) = leave_inv s"
  "leave_inv (cancelReminder u i s) = leave_inv s" "leave_inv (publishApproval u r s) = leave_inv s"
  "leave_inv (auditBackdatedDecision u r d s) = leave_inv s" "leave_inv (process_reminder j s) = leave_inv s"
  by (auto intro!: leave_inv_tables)

lemma requestLeave_inv: "leave_inv s \<Longrightarrow> valid_dto dto \<Longrightarrow> leave_inv (snd (requestLeave schedule env t dto s))"
  by (auto simp: requestLeave_def run_txn_def Let_def dest: reserveAndSubmit_inv[OF _ _ refl] split: sum.split option.split)

lemma submitBackdatedLeave_inv:
  "leave_inv s \<Longrightarrow> valid_dto dto \<Longrightarrow> leave_inv (snd (submitBackdatedLeave schedule env t dto reason s))"
  by (auto simp: submitBackdatedLeave_def run_txn_def Let_def dest: reserveAndSubmit_inv[OF _ _ refl] split: sum.split)

section \<open>Deciding\<close>

text \<open>A decision moves the days of the request out of the pending column of the one balance that covers it.\<close>

definition settle_balance :: "decide_dto \<Rightarrow> leave_request \<Rightarrow> leave_balance \<Rightarrow> leave_balance" where
  "settle_balance dto r b =
     (if covers b r
      then b\<lparr>lb_pendingDays := lb_pendingDays b - request_days r,
             lb_usedDays := lb_usedDays b + (if dd_decision dto = DECIDE_APPROVED then request_days r else 0)\<rparr>
      else b)"

definition may_decide :: "decide_dto \<Rightarrow> leave_request \<Rightarrow> bool" where
  "may_decide dto r \<longleftrightarrow> (lr_isBackdated r \<longrightarrow> dd_decision dto = DECIDE_APPROVED \<longrightarrow>
     BACKDATED_LEAVE_APPROVE_PERMISSION \<in> set (the_default (dd_actorPermissions dto) []))"

lemma request_days_pos: "request_ok bs r \<Longrightarrow> 100 \<le> request_days r"
  using inclusiveDayCount_pos by (fastforce simp: request_ok_def request_days_def)

lemma booked_ge:
  assumes "\<And>r. r \<in> set rs \<Longrightarrow> 0 \<le> request_days r" "r \<in> set rs" "lr_status r = st" "covers b r"
  shows "request_days r \<le> booked st b rs"
proof -
  let ?g = "\<lambda>r. if lr_status r = st \<and> covers b r then request_days r else 0"
  have "?g r \<le> sum_list (map ?g rs)"
    by (rule member_le_sum_list) (use assms(1,2) in auto)
  then show ?thesis using assms(3,4) by (simp add: booked_def)
qed

lemma applyDecision_pending:
  assumes inv: "leave_inv s" and r: "r \<in> set (requests s)" "lr_tenantId r = t" "lr_status r = LR_PENDING" and may: "may_decide dto r"
  shows "applyDecision pick now t (lr_id r) dto s =
    Inr (decided_request now dto r,
         s\<lparr>balances := map (settle_balance dto r) (balances s),
           requests := update_where (\<lambda>q. lr_id q = lr_id r \<and> lr_tenantId q = t) (decided_request now dto) (requests s)\<rparr>)"
proof -
  have find: "find_where (\<lambda>q. lr_id q = lr_id r \<and> lr_tenantId q = t) (requests s) = Some r"
    using leave_invD(4)[OF inv] r by (intro find_where_unique[where k = lr_id]) (auto simp: requests_apart_def)
  have rok: "request_ok (balances s) r" by (rule leave_invD(3)[OF inv r(1)])
  then obtain a where a: "a \<in> set (balances s)" "covers a r" using r(3) by (auto simp: request_ok_def active_request_def)
  have cov: "covers b r \<longleftrightarrow> b = a" if "b \<in> set (balances s)" for b
    using covering_balance_unique[OF leave_invD(1)[OF inv] that a(1) _ a(2)] a(2) rok by (auto simp: request_ok_def)
  have t: "lb_tenantId a = t" using a(2) r(2) by (simp add: covers_def balance_covers_def)
  let ?Q = "balance_covers t (lr_employeeId r) (lr_leaveTypeId r) (lr_dateRangeStart r) (lr_dateRangeEnd r)"
  have Q: "?Q b \<longleftrightarrow> covers b r" for b using r(2) by (simp add: covers_def)
  obtain a' where a': "pick_row pick (filter ?Q (balances s)) = Some a'"
    using a Q by (cases "pick_row pick (filter ?Q (balances s))") (auto simp: filter_empty_conv)
  then have "a' = a" using pick_row_filterD[OF a'] cov Q by auto
  with a' have pick: "pick_row pick (filter ?Q (balances s)) = Some a" by simp
  have books: "balance_books (requests s) a" by (rule leave_invD(2)[OF inv a(1)])
  have le: "request_days r \<le> lb_pendingDays a"
    using books booked_ge[of "requests s" r LR_PENDING a] request_days_pos leave_invD(3)[OF inv] r a(2)
    by (fastforce simp: balance_books_def)
  have isb: "is_balance t a b \<longleftrightarrow> b = a" if "b \<in> set (balances s)" for b
    by (rule is_balance_iff[OF leave_invD(1)[OF inv] a(1) that t])
  let ?f = "\<lambda>b. b\<lparr>lb_pendingDays := lb_pendingDays b - request_days r\<rparr>"
  let ?s1 = "s\<lparr>balances := update_where (is_balance t a) ?f (balances s)\<rparr>"
  have pos: "100 \<le> request_days r" by (rule request_days_pos[OF rok])
  have u1: "update_balances (is_balance t a) ?f s = Inr ?s1"
    using isb books le pos by (auto simp: update_balances_def list_all_iff balance_books_def balance_row_ok_def numeric_6_2_def)
  let ?g = "\<lambda>b. b\<lparr>lb_usedDays := lb_usedDays b + request_days r\<rparr>"
  have isf: "is_balance t a (?f b) = is_balance t a b" for b by (simp add: is_balance_def balance_pk_def)
  have u2: "update_balances (is_balance t a) ?g ?s1 = Inr (s\<lparr>balances := update_where (is_balance t a) ?g (balances ?s1)\<rparr>)"
    using isb books le pos isf
    by (auto simp: update_balances_def list_all_iff set_update_where balance_books_def balance_row_ok_def numeric_6_2_def)
  have m1: "update_where (is_balance t a) ?f (balances s) = map (settle_balance dto r) (balances s)" if "dd_decision dto \<noteq> DECIDE_APPROVED"
    using that isb cov by (auto simp: update_where_def settle_balance_def)
  have m2: "update_where (is_balance t a) ?g (balances ?s1) = map (settle_balance dto r) (balances s)" if "dd_decision dto = DECIDE_APPROVED"
    using that isb cov isf by (auto simp: update_where_def settle_balance_def)
  show ?thesis
    using may r u1 u2 m1 m2 pick unfolding applyDecision_def find may_decide_def
    by (auto simp: Let_def request_days_def)
qed

lemma applyDecision_InrD:
  assumes "applyDecision pick now t i dto s = Inr (res, s')"
  obtains r where "r \<in> set (requests s)" "lr_id r = i" "lr_tenantId r = t" "lr_status r = LR_PENDING" "may_decide dto r"
  using assms that
  by (auto simp: applyDecision_def may_decide_def split: option.splits if_splits dest!: find_where_SomeD)

lemma decided_request_fields [simp]:
  "lr_id (decided_request now dto r) = lr_id r" "lr_tenantId (decided_request now dto r) = lr_tenantId r"
  "covers b (decided_request now dto r) = covers b r" "request_days (decided_request now dto r) = request_days r"
  "lr_status (decided_request now dto r) = decision_status (dd_decision dto)"
  "lr_isBackdated (decided_request now dto r) = lr_isBackdated r"
  "lr_dateRangeStart (decided_request now dto r) = lr_dateRangeStart r"
  "lr_dateRangeEnd (decided_request now dto r) = lr_dateRangeEnd r"
  by (simp_all add: decided_request_def covers_def request_days_def)

lemma excluded_pair_decided:
  "lr_status r = LR_PENDING \<Longrightarrow> excluded_pair (decided_request now dto r) q \<Longrightarrow> excluded_pair r q"
  "lr_status r = LR_PENDING \<Longrightarrow> excluded_pair q (decided_request now dto r) \<Longrightarrow> excluded_pair q r"
  by (auto simp: excluded_pair_def active_request_def decided_request_def ranges_overlap_def)

lemma settle_inv:
  assumes inv: "leave_inv s" and r: "r \<in> set (requests s)" "lr_tenantId r = t" "lr_status r = LR_PENDING"
    and s': "balances s' = map (settle_balance dto r) (balances s)"
      "requests s' = update_where (\<lambda>q. lr_id q = lr_id r \<and> lr_tenantId q = t) (decided_request now dto) (requests s)"
  shows "leave_inv s'"
proof -
  have ids: "distinct (map lr_id (requests s))" using leave_invD(4)[OF inv] by (simp add: requests_apart_def)
  have P: "lr_id x = lr_id r \<and> lr_tenantId x = t \<longleftrightarrow> lr_id x = lr_id r" if "x \<in> set (requests s)" for x
    using ids that r(1,2) by (auto simp: distinct_map inj_on_def)
  have hit: "x = r" if "x \<in> set (requests s)" "lr_id x = lr_id r" for x
    using ids that r(1) by (auto simp: distinct_map inj_on_def)
  have per: "same_period (settle_balance dto r b) b" for b by (simp add: settle_balance_def same_period_def balance_pk_def)
  have pos: "0 \<le> request_days q" if "q \<in> set (requests s)" for q
    using request_days_pos[OF leave_invD(3)[OF inv that]] by simp
  have books: "balance_books (requests s') (settle_balance dto r b)" if b: "b \<in> set (balances s)" for b
  proof -
    note bk = leave_invD(2)[OF inv b]
    have "covers b r \<Longrightarrow> request_days r \<le> lb_pendingDays b"
      using booked_ge[OF pos r(1) r(3)] bk by (simp add: balance_books_def)
    moreover have "booked st (settle_balance dto r b) (requests s') = booked st b (requests s) + (if covers b r then request_days r else 0) *
        ((if decision_status (dd_decision dto) = st then 1 else 0) - (if LR_PENDING = st then 1 else 0))" for st
      unfolding s'(2) same_period_booked[OF per] using booked_update[OF ids r(1) P, of b "decided_request now dto" st] r(3) by simp
    ultimately show ?thesis
      using bk pos[OF r(1)]
      by (cases "dd_decision dto"; cases "covers b r")
        (auto simp: balance_books_def settle_balance_def decision_status_def balance_row_ok_def numeric_6_2_def)
  qed
  have orig: "\<exists>z\<in>set (requests s). lr_id z = lr_id x \<and> (x = z \<or> x = decided_request now dto z \<and> z = r)"
    if "x \<in> set (requests s')" for x
    using that hit unfolding s'(2) set_update_where by force
  have "request_ok (balances s') q" if q: "q \<in> set (requests s')" for q
  proof -
    obtain q0 where q0: "q0 \<in> set (requests s)" "q = q0 \<or> (q = decided_request now dto q0 \<and> q0 = r)"
      using orig[OF q] by blast
    from leave_invD(3)[OF inv q0(1)] q0(2) r(3) show ?thesis
      by (auto simp: request_ok_def s'(1) same_period_covers[OF per] active_request_def)
  qed
  moreover have "requests_apart (requests s')"
  proof -
    have "map lr_id (requests s') = map lr_id (requests s)" unfolding s'(2) by (rule map_update_where) simp
    moreover have "\<not> excluded_pair x y" if xy: "x \<in> set (requests s')" "y \<in> set (requests s')" "lr_id x \<noteq> lr_id y" for x y
    proof -
      from orig[OF xy(1)] orig[OF xy(2)] obtain x0 y0 where o: "x0 \<in> set (requests s)" "y0 \<in> set (requests s)"
        "lr_id x0 = lr_id x" "lr_id y0 = lr_id y" "x = x0 \<or> x = decided_request now dto x0 \<and> x0 = r"
        "y = y0 \<or> y = decided_request now dto y0 \<and> y0 = r" by blast
      then have "\<not> excluded_pair x0 y0" using leave_invD(4)[OF inv] xy(3) by (auto simp: requests_apart_def)
      then show ?thesis using o(5,6) r(3) excluded_pair_decided by metis
    qed
    ultimately show ?thesis using ids by (simp add: requests_apart_def)
  qed
  ultimately show ?thesis
    using books periods_ok_map[OF leave_invD(1)[OF inv] per] by (auto simp: leave_inv_def s'(1))
qed

lemma decide_inv: "leave_inv s \<Longrightarrow> leave_inv (snd (decide env t i dto s))"
proof -
  assume inv: "leave_inv s"
  show ?thesis
  proof (cases "applyDecision (de_pick env) (de_now env) t i dto s")
    case (Inl e)
    then show ?thesis using inv by (simp add: decide_def)
  next
    case (Inr x)
    obtain res s' where x: "x = (res, s')" by (cases x)
    obtain r where r: "r \<in> set (requests s)" "lr_id r = i" "lr_tenantId r = t" "lr_status r = LR_PENDING" "may_decide dto r"
      using applyDecision_InrD[OF Inr[unfolded x]] .
    have "s' = s\<lparr>balances := map (settle_balance dto r) (balances s),
           requests := update_where (\<lambda>q. lr_id q = lr_id r \<and> lr_tenantId q = t) (decided_request (de_now env) dto) (requests s)\<rparr>"
      using applyDecision_pending[OF inv r(1,3,4,5), of "de_pick env" "de_now env"] Inr x r(2) by simp
    then have "leave_inv s'" by (intro settle_inv[OF inv r(1,3,4), of s' dto "de_now env"]) simp_all
    then show ?thesis using Inr x by (simp add: decide_def Let_def)
  qed
qed

section \<open>Provisioning\<close>

definition apart_from_all :: "leave_state \<Rightarrow> leave_balance \<Rightarrow> bool" where
  "apart_from_all s row \<longleftrightarrow> (\<forall>b\<in>set (balances s). periods_apart b row)"

lemma provision_inv:
  assumes inv: "leave_inv s" and p: "provision t e dto s = Inr (row, s')" and apart: "apart_from_all s (provisioned t e dto)"
  shows "leave_inv s'"
proof -
  have row: "row = provisioned t e dto" "balance_row_ok row" "balance_pk row \<notin> balance_pk ` set (balances s)"
      "s' = s\<lparr>balances := balances s @ [row]\<rparr>"
    using p by (auto simp: provision_def Let_def split: option.splits if_splits)
  have not_cov: "\<not> (active_request r \<and> covers row r)" if r: "r \<in> set (requests s)" for r
  proof
    assume a: "active_request r \<and> covers row r"
    then obtain b where "b \<in> set (balances s)" "covers b r" using leave_invD(3)[OF inv r] by (auto simp: request_ok_def)
    then show False using a apart row(1) leave_invD(3)[OF inv r]
      by (auto simp: apart_from_all_def periods_apart_def covers_def balance_covers_def request_ok_def)
  qed
  have "booked st row (requests s) = 0" if st: "st = LR_PENDING \<or> st = LR_APPROVED" for st
  proof -
    have "map (\<lambda>r. if lr_status r = st \<and> covers row r then request_days r else 0) (requests s) = map (\<lambda>_. 0) (requests s)"
      using not_cov st by (auto simp: active_request_def)
    then show ?thesis unfolding booked_def by (simp only: sum_list_0)
  qed
  then have "balance_books (requests s) row"
    using row(1,2) by (auto simp: balance_books_def provisioned_def balance_row_ok_def)
  moreover have "periods_ok (balances s @ [row])"
    using leave_invD(1)[OF inv] row(1,3) apart by (auto simp: periods_ok_def apart_from_all_def periods_apart_def)
  ultimately show ?thesis using inv row(4) by (auto simp: leave_inv_def request_ok_def)
qed

section \<open>Daily jobs\<close>

text \<open>
  What a job may do to a balance: leave its period, its used and its pending days alone and not take
  away days that are already booked.
\<close>

locale balance_job =
  fixes row_step :: "iso_date \<Rightarrow> leave_state \<Rightarrow> leave_balance \<Rightarrow> leave_balance"
  assumes keeps_period: "same_period (row_step today s b) b"
    and keeps_bookings: "lb_usedDays (row_step today s b) = lb_usedDays b \<and> lb_pendingDays (row_step today s b) = lb_pendingDays b"
    and keeps_covered: "lb_usedDays b + lb_pendingDays b \<le> lb_accruedDays b \<Longrightarrow>
          lb_usedDays b + lb_pendingDays b \<le> lb_accruedDays (row_step today s b)"
begin

lemma job_keeps_books:
  assumes "balance_books rs b" "row_step today s b = b \<or> balance_row_ok (row_step today s b)"
  shows "balance_books rs (row_step today s b)"
  using assms keeps_bookings[of today s b] keeps_covered[of b today s]
  by (auto simp: balance_books_def same_period_booked[OF keeps_period])

lemma job_inv: "leave_inv s \<Longrightarrow> leave_inv (run_balance_job m (row_step today s) s)"
  using periods_ok_map[OF leave_invD(1) keeps_period] job_keeps_books
  by (auto simp: run_balance_job_def leave_inv_def list_all_iff request_ok_def same_period_covers[OF keeps_period])

end

interpretation rollover: balance_job "rollover_row pick"
  by unfold_locales
    (auto simp: rollover_row_def same_period_def balance_pk_def carryover_amount_def split: option.split prod.split)

interpretation expiry: balance_job expiry_row
  by unfold_locales (auto simp: expiry_row_def same_period_def balance_pk_def clawback_def leftover_def)

lemma accrued_after_ge: "below_cap ap b \<Longrightarrow> lb_accruedDays b \<le> accrued_after ap b"
  by (auto simp: accrued_after_def below_cap_def Let_def split: option.splits)

lemma accrual_sourcesD: "ap \<in> set (accrual_sources s today b) \<Longrightarrow>
    ap \<in> set (accrual_policies s) \<and> below_cap ap b \<and> accrual_due today ap b \<and> lb_periodStart b \<le> today \<and> today \<le> lb_periodEnd b"
  by (auto simp: accrual_sources_def split: if_splits)

interpretation accrual: balance_job "accrual_row pick"
proof (unfold_locales, goal_cases)
  case (3 b today s)
  then show ?case
    using accrual_sourcesD[of _ s today b] accrued_after_ge[of _ b]
    by (fastforce simp: accrual_row_def split: option.split dest: pick_row_SomeD)
qed (auto simp: accrual_row_def same_period_def balance_pk_def split: option.split)

end
