(* ===== verification/Leave_Guarantees.thy ===== *)
theory Leave_Guarantees
  imports Leave_Ledger
begin

text \<open>
  What the leave service guarantees over any sequence of its operations: the step relation, the
  reachable states, and the properties of requests, decisions and jobs. Balances are provisioned
  for periods that do not overlap an existing one of the same employee and leave type; the last
  property shows why that is needed.
\<close>

section \<open>Reachable states\<close>

inductive leave_step :: "leave_state \<Rightarrow> leave_state \<Rightarrow> bool" where
  request: "valid_dto dto \<Longrightarrow> leave_step s (snd (requestLeave schedule env t dto s))"
| backdated: "valid_dto dto \<Longrightarrow> leave_step s (snd (submitBackdatedLeave schedule env t dto reason s))"
| decision: "leave_step s (snd (decide denv t i ddto s))"
| provisioning: "provision t e pdto s = Inr (row, s') \<Longrightarrow> apart_from_all s (provisioned t e pdto) \<Longrightarrow> leave_step s s'"
| carryover: "leave_step s (carryover_tick pick ticking today s)"
| accrual: "leave_step s (accrual_tick pick ticking today s)"
| reminder: "leave_step s (process_reminder job s)"
| configure: "leave_step s (s\<lparr>leave_types := lts, accrual_policies := aps\<rparr>)"

definition empty_leave :: leave_state where
  "empty_leave = \<lparr>balances = [], requests = [], leave_types = [], accrual_policies = [], reminders = [],
     approvals_published = [], audit_log = [], leave_metrics = []\<rparr>"

inductive leave_reachable :: "leave_state \<Rightarrow> bool" where
  empty: "leave_reachable empty_leave"
| step: "leave_reachable s \<Longrightarrow> leave_step s s' \<Longrightarrow> leave_reachable s'"

lemma leave_step_inv: "leave_step s s' \<Longrightarrow> leave_inv s \<Longrightarrow> leave_inv s'"
proof (induction rule: leave_step.induct)
  case (carryover s pick ticking today)
  then show ?case
    by (simp add: carryover_tick_def expiryTick_def rolloverTick_def expiry.job_inv rollover.job_inv)
next
  case (accrual s pick ticking today)
  then show ?case by (simp add: accrual_tick_def accrual.job_inv)
next
  case (configure s lts aps)
  then show ?case by (simp add: leave_inv_def)
qed (simp_all add: requestLeave_inv submitBackdatedLeave_inv decide_inv provision_inv)

lemma leave_reachable_inv: "leave_reachable s \<Longrightarrow> leave_inv s"
proof (induction rule: leave_reachable.induct)
  case empty
  show ?case by (simp add: leave_inv_def empty_leave_def periods_ok_def requests_apart_def)
qed (rule leave_step_inv)

section \<open>A small tenant\<close>

definition demo_type :: leave_type where
  "demo_type = \<lparr>lt_id = ''annual'', lt_tenantId = ''t1'', lt_name = ''Annual'', lt_accrualPolicyId = ''p1'',
     lt_requiresApproval = True, lt_requiresDocumentation = False, lt_maxConsecutiveDays = None,
     lt_maxCarryoverDays = Some 500, lt_carryoverExpiryMonths = Some 3\<rparr>"

definition demo_policy :: accrual_policy where
  "demo_policy = \<lparr>ap_id = ''p1'', ap_tenantId = ''t1'', ap_name = ''std'', ap_accrualRatePerPeriod = 150,
     ap_accrualFrequency = MONTHLY, ap_maxBalanceCap = Some 2600, ap_active = True\<rparr>"

definition demo_period :: "int \<Rightarrow> provision_dto" where
  "demo_period y = \<lparr>pd_leaveTypeId = ''annual'', pd_periodStart = (y, 1, 1), pd_periodEnd = (y, 12, 31),
     pd_accruedDays = 2500, pd_carryoverDaysIn = None, pd_carryoverExpiryDate = None\<rparr>"

definition demo_no_shifts :: schedule_client where
  "demo_no_shifts = (\<lambda>t e a b. Some [])"

definition demo_leave_env :: "uuid \<Rightarrow> leave_env" where
  "demo_leave_env i = \<lparr>le_requestedAt = 1000, le_todayUtc = (2026, 5, 4), le_pick = 0, le_newId = i,
     le_newChainId = ''c'', le_queueUp = True, le_reminderDelayMs = 600000\<rparr>"

definition demo_dto :: "iso_date \<Rightarrow> iso_date \<Rightarrow> leave_dto" where
  "demo_dto a b = \<lparr>ld_employeeId = ''e1'', ld_leaveTypeId = ''annual'', ld_dateRangeStart = a, ld_dateRangeEnd = b\<rparr>"

definition demo_configured :: leave_state where
  "demo_configured = empty_leave\<lparr>leave_types := [demo_type], accrual_policies := [demo_policy]\<rparr>"

definition demo_provisioned :: leave_state where
  "demo_provisioned = (case provision ''t1'' ''e1'' (demo_period 2026) demo_configured of Inr (_, s) \<Rightarrow> s | Inl _ \<Rightarrow> demo_configured)"

definition demo_requested :: leave_state where
  "demo_requested = snd (requestLeave demo_no_shifts (demo_leave_env ''r1'') ''t1'' (demo_dto (2026, 6, 1) (2026, 6, 5)) demo_provisioned)"

definition demo_leave :: leave_state where
  "demo_leave = snd (submitBackdatedLeave demo_no_shifts (demo_leave_env ''r2'') ''t1'' (demo_dto (2026, 4, 30) (2026, 5, 1)) ''sick'' demo_requested)"

lemma demo_provisioned_reachable: "leave_reachable demo_provisioned"
proof -
  have c: "leave_reachable demo_configured"
    unfolding demo_configured_def by (rule leave_reachable.step[OF leave_reachable.empty leave_step.configure])
  have "provision ''t1'' ''e1'' (demo_period 2026) demo_configured = Inr (provisioned ''t1'' ''e1'' (demo_period 2026), demo_provisioned)"
    by code_simp
  moreover have "apart_from_all demo_configured (provisioned ''t1'' ''e1'' (demo_period 2026))" by code_simp
  ultimately show ?thesis using leave_reachable.step[OF c leave_step.provisioning] by blast
qed

lemma demo_requested_reachable: "leave_reachable demo_requested"
  unfolding demo_requested_def
  by (rule leave_reachable.step[OF demo_provisioned_reachable leave_step.request]) code_simp

lemma demo_leave_reachable: "leave_reachable demo_leave"
  unfolding demo_leave_def
  by (rule leave_reachable.step[OF demo_requested_reachable leave_step.backdated]) code_simp

section \<open>The books\<close>



text \<open>
  An employee never holds two live leave requests over a common day: two pending or approved requests of
  one employee have disjoint date ranges.
\<close>

theorem leave_never_double_booked:
  assumes "leave_reachable s" "a \<in> set (requests s)" "b \<in> set (requests s)" "lr_id a \<noteq> lr_id b"
    and "active_request a" "active_request b" "lr_tenantId a = lr_tenantId b" "lr_employeeId a = lr_employeeId b"
    and "valid_date day"
  shows "\<not> (lr_dateRangeStart a \<le> day \<and> day \<le> lr_dateRangeEnd a \<and> lr_dateRangeStart b \<le> day \<and> day \<le> lr_dateRangeEnd b)"
proof -
  have "\<not> ranges_overlap a b"
    using leave_invD(4)[OF leave_reachable_inv[OF assms(1)]] assms(2-8) by (auto simp: requests_apart_def excluded_pair_def)
  then show ?thesis by (auto simp: ranges_overlap_def)
qed

theorem leave_never_double_booked_witness:
  "\<not> (lr_dateRangeStart (requests demo_leave ! 0) \<le> (2026, 5, 1) \<and> (2026, 5, 1) \<le> lr_dateRangeEnd (requests demo_leave ! 0) \<and>
      lr_dateRangeStart (requests demo_leave ! 1) \<le> (2026, 5, 1) \<and> (2026, 5, 1) \<le> lr_dateRangeEnd (requests demo_leave ! 1))"
proof (rule leave_never_double_booked[OF demo_leave_reachable])
  have l: "length (requests demo_leave) = 2" by code_simp
  then show "requests demo_leave ! 0 \<in> set (requests demo_leave)" "requests demo_leave ! 1 \<in> set (requests demo_leave)" by simp_all
qed (code_simp+)

section \<open>Decisions\<close>


definition demo_decide_env :: decide_env where
  "demo_decide_env = \<lparr>de_now = 2000, de_pick = 0, de_queueUp = True, de_natsUp = True, de_auditUp = True\<rparr>"

definition demo_decision :: "leave_decision \<Rightarrow> decide_dto" where
  "demo_decision d = \<lparr>dd_decision = d, dd_decidedBy = ''m1'', dd_actorPermissions = None, dd_reason = None\<rparr>"


text \<open>
  A decision is final: after a decision was applied, deciding the same request again, whoever asks
  and whatever the decision, reports it as already decided and changes neither balances nor requests.
\<close>

theorem leave_decision_final:
  assumes "leave_reachable s" "decide env t i dto s = (Inr res, s1)"
  shows "\<exists>s2. decide env' t i dto' s1 = (Inl (LeaveRequestAlreadyDecided (decision_status (dd_decision dto))), s2) \<and>
     balances s2 = balances s1 \<and> requests s2 = requests s1"
proof -
  note inv = leave_reachable_inv[OF assms(1)]
  obtain a where app: "applyDecision (de_pick env) (de_now env) t i dto s = Inr a"
    using assms(2) by (cases "applyDecision (de_pick env) (de_now env) t i dto s") (auto simp: decide_def)
  obtain r where r: "r \<in> set (requests s)" "lr_id r = i" "lr_tenantId r = t" "lr_status r = LR_PENDING" "may_decide dto r"
    using applyDecision_InrD app by (metis surj_pair)
  let ?P = "\<lambda>q. lr_id q = i \<and> lr_tenantId q = t"
  have req: "requests s1 = update_where ?P (decided_request (de_now env) dto) (requests s)"
    using assms(2) applyDecision_pending[OF inv r(1,3,4,5), of "de_pick env" "de_now env"] r(2)
    by (auto simp: decide_def Let_def)
  have "find_where ?P (requests s) = Some r"
    using leave_invD(4)[OF inv] r by (intro find_where_unique[where k = lr_id]) (auto simp: requests_apart_def)
  then have "find_where ?P (requests s1) = Some (decided_request (de_now env) dto r)"
    unfolding req by (subst find_where_update_same) simp_all
  then have "applyDecision (de_pick env') (de_now env') t i dto' s1 = Inl (LeaveRequestAlreadyDecided (decision_status (dd_decision dto)))"
    by (cases "dd_decision dto") (simp_all add: applyDecision_def decision_status_def)
  then show ?thesis by (simp add: decide_def)
qed

theorem leave_decision_final_witness:
  "\<exists>s2. decide demo_decide_env ''t1'' ''r1'' (demo_decision DECIDE_APPROVED)
          (snd (decide demo_decide_env ''t1'' ''r1'' (demo_decision DECIDE_REJECTED) demo_leave)) =
        (Inl (LeaveRequestAlreadyDecided LR_REJECTED), s2)"
proof -
  have "isl (fst (decide demo_decide_env ''t1'' ''r1'' (demo_decision DECIDE_REJECTED) demo_leave)) = False" by code_simp
  then obtain res where "decide demo_decide_env ''t1'' ''r1'' (demo_decision DECIDE_REJECTED) demo_leave =
      (Inr res, snd (decide demo_decide_env ''t1'' ''r1'' (demo_decision DECIDE_REJECTED) demo_leave))"
    by (cases "fst (decide demo_decide_env ''t1'' ''r1'' (demo_decision DECIDE_REJECTED) demo_leave)") (auto simp: prod_eq_iff)
  from leave_decision_final[OF demo_leave_reachable this, of demo_decide_env "demo_decision DECIDE_APPROVED"]
  show ?thesis by (auto simp: demo_decision_def decision_status_def)
qed

section \<open>Backdated leave and the conflict check\<close>

lemma backdated_row:
  assumes "submitBackdatedLeave schedule env t dto reason s = (Inr r, s1)"
  shows "r \<in> set (requests s1) \<and> lr_status r = LR_PENDING \<and> lr_isBackdated r \<and> lr_backdatedReason r = Some reason \<and>
     lr_tenantId r = t \<and> lr_id r \<notin> lr_id ` set (requests s) \<and> requests s1 = requests s @ [r]"
  using assms
  by (auto simp: submitBackdatedLeave_def run_txn_def reserveAndSubmit_def Let_def insertLeaveRequestOrThrowOverlap_def
      dest!: insert_leave_request_InrD update_balances_InrD simp: new_leave_request_def split: if_splits option.splits sum.splits)

text \<open>
  Backdated leave needs a second, authorised person: submitting it always leaves a pending request,
  also for leave types that are approved automatically, and approving that request without the
  dedicated permission is refused and leaves balances, requests, reminders and events as they were.
\<close>

theorem backdated_leave_needs_permission:
  assumes "submitBackdatedLeave schedule env t dto reason s = (Inr r, s1)" "dd_decision ddto = DECIDE_APPROVED"
    and "BACKDATED_LEAVE_APPROVE_PERMISSION \<notin> set (the_default (dd_actorPermissions ddto) [])"
  shows "lr_status r = LR_PENDING \<and> r \<in> set (requests s1) \<and>
     (\<exists>s2. decide denv t (lr_id r) ddto s1 = (Inl InsufficientPermission, s2) \<and> balances s2 = balances s1 \<and>
        requests s2 = requests s1 \<and> reminders s2 = reminders s1 \<and> approvals_published s2 = approvals_published s1)"
proof -
  note row = backdated_row[OF assms(1)]
  then have "find_where (\<lambda>q. lr_id q = lr_id r \<and> lr_tenantId q = t) (requests s) = None"
    unfolding find_where_None by (metis image_eqI)
  then have "find_where (\<lambda>q. lr_id q = lr_id r \<and> lr_tenantId q = t) (requests s1) = Some r"
    using row by (simp add: find_where_append)
  then have "applyDecision (de_pick denv) (de_now denv) t (lr_id r) ddto s1 = Inl InsufficientPermission"
    using row assms(2,3) by (simp add: applyDecision_def)
  with row show ?thesis by (simp add: decide_def count_metric_def)
qed

theorem backdated_leave_needs_permission_witness:
  "\<exists>r s2. fst (submitBackdatedLeave demo_no_shifts (demo_leave_env ''r2'') ''t1'' (demo_dto (2026, 4, 30) (2026, 5, 1)) ''sick'' demo_requested) = Inr r \<and>
     decide demo_decide_env ''t1'' (lr_id r) (demo_decision DECIDE_APPROVED) demo_leave = (Inl InsufficientPermission, s2)"
proof -
  let ?call = "submitBackdatedLeave demo_no_shifts (demo_leave_env ''r2'') ''t1'' (demo_dto (2026, 4, 30) (2026, 5, 1)) ''sick'' demo_requested"
  have "isl (fst ?call) = False" by code_simp
  then obtain r where r: "fst ?call = Inr r" by (cases "fst ?call") auto
  then have c: "?call = (Inr r, demo_leave)" by (simp add: prod_eq_iff demo_leave_def)
  have d: "dd_decision (demo_decision DECIDE_APPROVED) = DECIDE_APPROVED" by code_simp
  have n: "BACKDATED_LEAVE_APPROVE_PERMISSION \<notin> set (the_default (dd_actorPermissions (demo_decision DECIDE_APPROVED)) [])" by code_simp
  from backdated_leave_needs_permission[OF c d n, of demo_decide_env] r show ?thesis by blast
qed

text \<open>
  When the scheduling service does not answer, no leave is booked: both kinds of submission fail
  and leave the state as it was.
\<close>

theorem leave_conflict_check_fails_closed:
  assumes "\<And>t e a b. schedule t e a b = None"
  shows "(\<exists>e. requestLeave schedule env t dto s = (Inl e, s)) \<and> (\<exists>e. submitBackdatedLeave schedule env t dto reason s = (Inl e, s))"
  using assms by (simp add: requestLeave_def submitBackdatedLeave_def conflict_check_def Let_def)

theorem leave_conflict_check_fails_closed_witness:
  "\<exists>e. requestLeave (\<lambda>t e a b. None) (demo_leave_env ''r1'') ''t1'' (demo_dto (2026, 6, 1) (2026, 6, 5)) demo_provisioned = (Inl e, demo_provisioned)"
  using leave_conflict_check_fails_closed[of "\<lambda>t e a b. None"] by blast

section \<open>Jobs\<close>

lemma run_balance_job_id: "(\<And>b. b \<in> set (balances s) \<Longrightarrow> f b = b) \<Longrightarrow> balances (run_balance_job m f s) = balances s"
  by (simp add: run_balance_job_def map_idI)

lemma run_balance_job_success:
  "list_all (\<lambda>b. f b = b \<or> balance_row_ok (f b)) (balances s) \<Longrightarrow> balances (run_balance_job m f s) = map f (balances s)"
  by (simp add: run_balance_job_def)

lemma rollover_sources_cong:
  assumes "map (\<lambda>b. (lb_tenantId b, balance_pk b)) (balances s') = map (\<lambda>b. (lb_tenantId b, balance_pk b)) (balances s)"
    and "leave_types s' = leave_types s" "same_period b b'"
  shows "rollover_sources today s' b = [] \<longleftrightarrow> rollover_sources today s b' = []"
proof -
  have src: "rollover_sources today s0 b = [] \<longleftrightarrow> (\<forall>(t, e, lt, ps, pe)\<in>(\<lambda>b. (lb_tenantId b, balance_pk b)) ` set (balances s0).
      \<not> ((\<exists>l\<in>set (leave_types s0). lt_id l = lt) \<and> lb_tenantId b = t \<and> lb_employeeId b = e \<and> lb_leaveTypeId b = lt \<and>
        lb_periodStart b = next_day pe \<and> pe < today))" for s0 b
    by (auto simp: rollover_sources_def balance_pk_def)
  have img: "(\<lambda>b. (lb_tenantId b, balance_pk b)) ` set (balances s') = (\<lambda>b. (lb_tenantId b, balance_pk b)) ` set (balances s)"
    using arg_cong[OF assms(1), of set] by simp
  have f: "lb_tenantId b = lb_tenantId b'" "lb_employeeId b = lb_employeeId b'" "lb_leaveTypeId b = lb_leaveTypeId b'"
      "lb_periodStart b = lb_periodStart b'"
    using assms(3) by (simp_all add: same_period_def balance_pk_def)
  show ?thesis unfolding src img assms(2) f ..
qed

lemma rollover_row_settled: "lb_carryoverApplied (rollover_row pick today s b) \<or> (rollover_row pick today s b = b \<and> rollover_sources today s b = [])"
  by (auto simp: rollover_row_def split: option.splits)

lemma rollover_row_id: "lb_carryoverApplied b \<or> rollover_sources today s b = [] \<Longrightarrow> rollover_row pick today s b = b"
  by (auto simp: rollover_row_def pick_row_def)

lemma expiry_row_ok: "balance_row_ok b \<Longrightarrow> balance_row_ok (expiry_row today s b)"
  by (auto simp: expiry_row_def balance_row_ok_def clawback_def leftover_def numeric_6_2_def)

lemma expiry_row_idem: "expiry_row today s' (expiry_row today s b) = expiry_row today s b"
  by (simp add: expiry_row_def carryover_expired_def)

text \<open>
  The carryover job can run any number of times a day: when its rollover stays within the numeric
  range of the columns, a second run on the same day changes no balance, so no carryover is granted
  or clawed back twice.
\<close>

theorem carryover_runs_once:
  assumes "leave_reachable s"
    and "list_all (\<lambda>b. numeric_6_2 (lb_accruedDays (rollover_row pick today s b)) \<and> numeric_6_2 (lb_carryoverDaysIn (rollover_row pick today s b))) (balances s)"
  shows "balances (carryover_tick pick False today (carryover_tick pick False today s)) = balances (carryover_tick pick False today s)"
proof -
  note inv = leave_reachable_inv[OF assms(1)]
  let ?ro = "rollover_row pick today s" and ?s1 = "rolloverTick pick today s"
  have ok: "balance_row_ok b" if "b \<in> set (balances s)" for b using leave_invD(2)[OF inv that] by (simp add: balance_books_def)
  have rok: "balance_row_ok (?ro b)" if "b \<in> set (balances s)" for b
    using ok[OF that] assms(2) that by (auto simp: list_all_iff rollover_row_def balance_row_ok_def carryover_amount_def split: option.splits)
  then have b1: "balances ?s1 = map ?ro (balances s)"
    unfolding rolloverTick_def by (intro run_balance_job_success) (simp add: list_all_iff)
  let ?s2 = "expiryTick today ?s1"
  have b2: "balances ?s2 = map (\<lambda>b. expiry_row today ?s1 (?ro b)) (balances s)"
    unfolding expiryTick_def using b1 rok by (subst run_balance_job_success) (simp_all add: list_all_iff expiry_row_ok)
  have types: "leave_types ?s2 = leave_types s"
    by (simp add: expiryTick_def rolloverTick_def run_balance_job_def count_metric_def)
  have per: "same_period (expiry_row today ?s1 (?ro b)) b" for b
    using expiry.keeps_period rollover.keeps_period by (simp add: same_period_def)
  have keys: "map (\<lambda>b. (lb_tenantId b, balance_pk b)) (balances ?s2) = map (\<lambda>b. (lb_tenantId b, balance_pk b)) (balances s)"
    unfolding b2 using per by (simp add: same_period_def)
  have "rollover_row pick today ?s2 c = c" if "c \<in> set (balances ?s2)" for c
  proof -
    obtain b where b: "c = expiry_row today ?s1 (?ro b)" using \<open>c \<in> set (balances ?s2)\<close> b2 by auto
    have "lb_carryoverApplied c = lb_carryoverApplied (?ro b)" by (simp add: b expiry_row_def)
    then show ?thesis
      using rollover_row_settled[of pick today s b] rollover_sources_cong[OF keys types, of c b today] per[of b] b
      by (intro rollover_row_id) auto
  qed
  then have b3: "balances (rolloverTick pick today ?s2) = balances ?s2"
    unfolding rolloverTick_def by (rule run_balance_job_id)
  then have "balances (expiryTick today (rolloverTick pick today ?s2)) = balances ?s2"
    unfolding expiryTick_def by (subst run_balance_job_id) (auto simp: b2[unfolded expiryTick_def] expiry_row_idem)
  then show ?thesis by (simp add: carryover_tick_def)
qed

definition demo_two_periods :: leave_state where
  "demo_two_periods = (case provision ''t1'' ''e1'' (demo_period 2025) demo_provisioned of Inr (_, s) \<Rightarrow> s | Inl _ \<Rightarrow> demo_provisioned)"

lemma demo_two_periods_reachable: "leave_reachable demo_two_periods"
proof -
  have "provision ''t1'' ''e1'' (demo_period 2025) demo_provisioned = Inr (provisioned ''t1'' ''e1'' (demo_period 2025), demo_two_periods)"
    by code_simp
  moreover have "apart_from_all demo_provisioned (provisioned ''t1'' ''e1'' (demo_period 2025))" by code_simp
  ultimately show ?thesis using leave_reachable.step[OF demo_provisioned_reachable leave_step.provisioning] by blast
qed

theorem carryover_runs_once_witness:
  "map lb_accruedDays (balances (carryover_tick (\<lambda>_. 0) False (2026, 1, 2) demo_two_periods)) = [3000, 2500] \<and>
   balances (carryover_tick (\<lambda>_. 0) False (2026, 1, 2) (carryover_tick (\<lambda>_. 0) False (2026, 1, 2) demo_two_periods)) =
   balances (carryover_tick (\<lambda>_. 0) False (2026, 1, 2) demo_two_periods)"
proof (intro conjI)
  show "map lb_accruedDays (balances (carryover_tick (\<lambda>_. 0) False (2026, 1, 2) demo_two_periods)) = [3000, 2500]" by code_simp
  have "list_all (\<lambda>b. numeric_6_2 (lb_accruedDays (rollover_row (\<lambda>_. 0) (2026, 1, 2) demo_two_periods b)) \<and>
      numeric_6_2 (lb_carryoverDaysIn (rollover_row (\<lambda>_. 0) (2026, 1, 2) demo_two_periods b))) (balances demo_two_periods)" by code_simp
  then show "balances (carryover_tick (\<lambda>_. 0) False (2026, 1, 2) (carryover_tick (\<lambda>_. 0) False (2026, 1, 2) demo_two_periods)) =
   balances (carryover_tick (\<lambda>_. 0) False (2026, 1, 2) demo_two_periods)"
    by (rule carryover_runs_once[OF demo_two_periods_reachable])
qed

lemma accrual_sources_cong:
  "leave_types s' = leave_types s \<Longrightarrow> accrual_policies s' = accrual_policies s \<Longrightarrow> accrual_sources s' today b = accrual_sources s today b"
  by (simp add: accrual_sources_def)

lemma accrual_row_settled: "accrual_sources s today (accrual_row pick today s b) = []"
proof (cases "accrual_sources s today b = []")
  case False
  then have "lb_lastAccruedAt (accrual_row pick today s b) = Some today"
    by (auto simp: accrual_row_def pick_row_def)
  then have "\<not> accrual_due today ap (accrual_row pick today s b)" for ap
    by (cases "ap_accrualFrequency ap") (simp_all add: accrual_due_def)
  then show ?thesis by (auto simp: accrual_sources_def)
qed (simp add: accrual_row_def pick_row_def)

text \<open>
  The accrual job credits a balance at most once per day and never lifts it over the policy's cap: a
  second run on the same day changes no balance, and a balance the job credits ends at or below the
  cap of the policy it was credited under.
\<close>

theorem accrual_once_and_capped:
  "balances (accrual_tick pick False today (accrual_tick pick False today s)) = balances (accrual_tick pick False today s) \<and>
   (\<forall>b. accrual_row pick today s b = b \<or>
      (\<exists>ap\<in>set (accrual_policies s). lb_accruedDays (accrual_row pick today s b) = accrued_after ap b \<and>
         (case ap_maxBalanceCap ap of None \<Rightarrow> True | Some cap \<Rightarrow> lb_accruedDays b < cap \<and> accrued_after ap b \<le> cap)))"
proof
  let ?f = "accrual_row pick today s" and ?s1 = "accrual_tick pick False today s"
  have conf: "leave_types ?s1 = leave_types s" "accrual_policies ?s1 = accrual_policies s"
    by (simp_all add: accrual_tick_def run_balance_job_def count_metric_def)
  have row: "accrual_row pick today ?s1 b = accrual_row pick today s b" for b
    by (simp add: accrual_row_def accrual_sources_cong[OF conf])
  show "balances (accrual_tick pick False today ?s1) = balances ?s1"
  proof (cases "list_all (\<lambda>b. ?f b = b \<or> balance_row_ok (?f b)) (balances s)")
    case True
    then have "balances ?s1 = map ?f (balances s)" by (simp add: accrual_tick_def run_balance_job_success)
    moreover have "?f (?f b) = ?f b" for b by (simp add: accrual_row_def[of pick today s "?f b"] accrual_row_settled pick_row_def)
    ultimately have "\<And>c. c \<in> set (balances ?s1) \<Longrightarrow> accrual_row pick today ?s1 c = c" by (auto simp: row)
    then show ?thesis by (subst accrual_tick_def) (simp add: run_balance_job_id)
  next
    case False
    then have "balances ?s1 = balances s" by (simp add: accrual_tick_def run_balance_job_def)
    then show ?thesis using False row by (subst accrual_tick_def) (simp add: run_balance_job_def)
  qed
  show "\<forall>b. ?f b = b \<or> (\<exists>ap\<in>set (accrual_policies s). lb_accruedDays (?f b) = accrued_after ap b \<and>
         (case ap_maxBalanceCap ap of None \<Rightarrow> True | Some cap \<Rightarrow> lb_accruedDays b < cap \<and> accrued_after ap b \<le> cap))"
  proof
    fix b
    show "?f b = b \<or> (\<exists>ap\<in>set (accrual_policies s). lb_accruedDays (?f b) = accrued_after ap b \<and>
         (case ap_maxBalanceCap ap of None \<Rightarrow> True | Some cap \<Rightarrow> lb_accruedDays b < cap \<and> accrued_after ap b \<le> cap))"
    proof (cases "pick_row (pick b) (accrual_sources s today b)")
      case (Some ap)
      then have "ap \<in> set (accrual_policies s) \<and> below_cap ap b" using accrual_sourcesD pick_row_SomeD by metis
      then show ?thesis
        by (intro disjI2 bexI[of _ ap])
          (auto simp: accrual_row_def Some below_cap_def accrued_after_def Let_def split: option.splits)
    qed (simp add: accrual_row_def pick_row_def)
  qed
qed

text \<open>
  An accrual that would overshoot the cap is not skipped but cut: a balance below the cap is credited
  up to exactly the cap.
\<close>

theorem accrual_tops_up_to_cap:
  assumes "accrual_sources s today b = [ap]" "ap_maxBalanceCap ap = Some cap"
    and "cap < lb_accruedDays b + int (ap_accrualRatePerPeriod ap)"
  shows "lb_accruedDays (accrual_row pick today s b) = cap"
  using assms by (simp add: accrual_row_def pick_row_def accrued_after_def)

theorem accrual_tops_up_to_cap_witness:
  "map (\<lambda>b. (lb_accruedDays b, lb_accruedDays (accrual_row (\<lambda>_. 0) (2026, 5, 4) demo_leave b))) (balances demo_leave) = [(2500, 2600)]"
proof -
  have l: "map lb_accruedDays (balances demo_leave) = [2500]" by code_simp
  then obtain b where b: "balances demo_leave = [b]" "lb_accruedDays b = 2500" by auto
  have "map (accrual_sources demo_leave (2026, 5, 4)) (balances demo_leave) = [[demo_policy]]" by code_simp
  then have "accrual_sources demo_leave (2026, 5, 4) b = [demo_policy]" using b by simp
  from accrual_tops_up_to_cap[OF this, of 2600] b show ?thesis by (simp add: demo_policy_def)
qed

section \<open>Overlapping periods\<close>

definition demo_quarter :: provision_dto where
  "demo_quarter = \<lparr>pd_leaveTypeId = ''annual'', pd_periodStart = (2026, 4, 1), pd_periodEnd = (2026, 6, 30),
     pd_accruedDays = 500, pd_carryoverDaysIn = None, pd_carryoverExpiryDate = None\<rparr>"

text \<open>
  Nothing stops an administrator from provisioning a second balance whose period overlaps the first,
  and then a request can be reserved on one balance and settled on the other: here the reservation
  is taken from the annual balance, the approval finds the quarterly one, and the decision fails on
  the non-negative check, so the request stays pending with its days reserved.
\<close>

theorem overlapping_periods_misbook:
  "let s1 = snd (run_txn (provision ''t1'' ''e1'' demo_quarter) demo_provisioned);
       s2 = snd (requestLeave demo_no_shifts (demo_leave_env ''r1'') ''t1'' (demo_dto (2026, 6, 1) (2026, 6, 5)) s1)
   in map (\<lambda>b. (lb_accruedDays b, lb_pendingDays b)) (balances s2) = [(2500, 500), (500, 0)] \<and>
      fst (decide (demo_decide_env\<lparr>de_pick := 1\<rparr>) ''t1'' ''r1'' (demo_decision DECIDE_APPROVED) s2) =
        Inl (LeaveDbError ''leave_balance_non_negative_check'') \<and>
      map lr_status (requests (snd (decide (demo_decide_env\<lparr>de_pick := 1\<rparr>) ''t1'' ''r1'' (demo_decision DECIDE_APPROVED) s2))) = [LR_PENDING]"
  by code_simp

end
