(* ===== verification/Csta_Frame.thy ===== *)
theory Csta_Frame
  imports WFM_Prelude "HOL-Library.Word" "HOL-Library.Sublist"
begin

unbundle bit_operations_syntax

text \<open>
  The wire format of the on-premise collector (\<open>acd-onprem-collector/src/csta-xml-frame.ts\<close>): frames
  of CSTA-XML over TCP, the generator of invoke identifiers and the incremental reader. A buffer is a
  list of bytes and a JavaScript string a list of 16-bit code units, so that the encodings \<open>'ascii'\<close>
  (low byte when writing, low seven bits when reading) are what Node does. The loop of the reader need
  not end, so it is a \<open>partial_function\<close> in the option type, where \<open>None\<close> means that it never returns.
\<close>

section \<open>Encoding\<close>

type_synonym byte = "8 word"
type_synonym js_string = "16 word list"

definition FRAME_PREFIX_LENGTH :: nat where
  "FRAME_PREFIX_LENGTH = 4"

definition INVOKE_ID_LENGTH :: nat where
  "INVOKE_ID_LENGTH = 4"

definition ascii_write :: "js_string \<Rightarrow> byte list" where
  "ascii_write s = map ucast s"

definition ascii_read :: "byte list \<Rightarrow> js_string" where
  "ascii_read bs = map (\<lambda>b. ucast (b AND 127)) bs"

definition readUInt16BE :: "byte list \<Rightarrow> nat \<Rightarrow> nat" where
  "readUInt16BE bs i = unat (bs ! i) * 256 + unat (bs ! (i + 1))"

datatype frame_error = InvalidInvokeId | ERR_OUT_OF_RANGE

definition writeUInt16BE :: "nat \<Rightarrow> frame_error + byte list" where
  "writeUInt16BE n = (if n \<le> 65535 then Inr [word_of_nat (n div 256), word_of_nat n] else Inl ERR_OUT_OF_RANGE)"

definition encodeCstaFrame :: "js_string \<Rightarrow> js_string \<Rightarrow> frame_error + byte list" where
  "encodeCstaFrame invokeId xmlBody =
     (if length invokeId \<noteq> INVOKE_ID_LENGTH then Inl InvalidInvokeId
      else let invokeBuf = ascii_write invokeId; xmlBuf = ascii_write xmlBody;
               totalLength = FRAME_PREFIX_LENGTH + length invokeBuf + length xmlBuf
           in case writeUInt16BE totalLength of
                Inl e \<Rightarrow> Inl e
              | Inr lengthBuf \<Rightarrow> Inr ([0, 0] @ lengthBuf @ invokeBuf @ xmlBuf))"

section \<open>Invoke identifiers\<close>

fun decimal :: "nat \<Rightarrow> js_string" where
  \<comment> \<open>\<open>String(n)\<close>\<close>
  "decimal n = (if n < 10 then [word_of_nat (48 + n)] else decimal (n div 10) @ [word_of_nat (48 + n mod 10)])"

declare decimal.simps [simp del]

definition padStart0 :: "nat \<Rightarrow> js_string \<Rightarrow> js_string" where
  "padStart0 n s = replicate (n - length s) 48 @ s"

definition generate_invoke_id :: "nat \<Rightarrow> js_string \<times> nat" where
  "generate_invoke_id next = (padStart0 INVOKE_ID_LENGTH (decimal next), if next \<ge> 9998 then 1 else next + 1)"

definition CSTA_EVENT_INVOKE_ID :: js_string where
  "CSTA_EVENT_INVOKE_ID = [57, 57, 57, 57]"

section \<open>Reader\<close>

type_synonym csta_frame = "js_string \<times> js_string" \<comment> \<open>\<open>invokeId\<close>, \<open>xml\<close>\<close>

definition frames_at :: "byte list \<Rightarrow> nat \<Rightarrow> csta_frame list" where
  \<comment> \<open>what one round of the loop pushes; \<open>subarray\<close> clamps to the buffer\<close>
  "frames_at buf totalLength =
     (if buf ! 0 = 0 \<and> buf ! 1 = 0
      then [(ascii_read (take INVOKE_ID_LENGTH (drop FRAME_PREFIX_LENGTH buf)),
             ascii_read (take (totalLength - (FRAME_PREFIX_LENGTH + INVOKE_ID_LENGTH))
                              (drop (FRAME_PREFIX_LENGTH + INVOKE_ID_LENGTH) buf)))]
      else [])"

partial_function (option) read_loop :: "byte list \<Rightarrow> csta_frame list \<Rightarrow> (csta_frame list \<times> byte list) option" where
  "read_loop buf frames =
     (if length buf < FRAME_PREFIX_LENGTH then Some (frames, buf)
      else if length buf < readUInt16BE buf 2 then Some (frames, buf)
      else read_loop (drop (readUInt16BE buf 2) buf) (frames @ frames_at buf (readUInt16BE buf 2)))"

definition push :: "byte list \<Rightarrow> byte list \<Rightarrow> (csta_frame list \<times> byte list) option" where
  "push buffer chunk = read_loop (buffer @ chunk) []"

fun push_all :: "byte list \<Rightarrow> byte list list \<Rightarrow> (csta_frame list \<times> byte list) option" where
  \<comment> \<open>the data events of one connection\<close>
  "push_all buffer [] = Some ([], buffer)"
| "push_all buffer (c # cs) =
     (case push buffer c of
        None \<Rightarrow> None
      | Some (fs, buffer') \<Rightarrow> map_option (\<lambda>(gs, b). (fs @ gs, b)) (push_all buffer' cs))"

section \<open>Round trip\<close>

definition ascii_string :: "js_string \<Rightarrow> bool" where
  "ascii_string s \<longleftrightarrow> (\<forall>c\<in>set s. unat c < 128)"

definition encodable :: "csta_frame \<Rightarrow> bool" where
  "encodable f \<longleftrightarrow> length (fst f) = INVOKE_ID_LENGTH \<and> ascii_string (fst f) \<and> ascii_string (snd f) \<and>
     length (snd f) \<le> 65535 - 8"

definition wire :: "csta_frame \<Rightarrow> byte list" where
  "wire f = (case encodeCstaFrame (fst f) (snd f) of Inr bs \<Rightarrow> bs | Inl _ \<Rightarrow> [])"

lemma ascii_char: "unat (c :: 16 word) < 128 \<Longrightarrow> ucast ((ucast c :: 8 word) AND 127) = c"
proof -
  assume a: "unat c < 128"
  then have c: "c = word_of_nat (unat c)" "unat c < 2 ^ 7" by simp_all
  have "(ucast c :: 8 word) AND 127 = take_bit 7 (ucast c)" by (simp add: take_bit_eq_mask mask_numeral)
  moreover have "unat (take_bit 7 (ucast c :: 8 word)) = unat c"
    using a by (simp add: unsigned_take_bit_eq unsigned_ucast_eq take_bit_nat_eq_self)
  ultimately show ?thesis using a by (simp add: word_unat_eq_iff unsigned_ucast_eq take_bit_nat_eq_self)
qed

lemma ascii_roundtrip: "ascii_string s \<Longrightarrow> ascii_read (ascii_write s) = s"
  by (simp add: ascii_read_def ascii_write_def ascii_string_def comp_def ascii_char map_idI)

lemma encode_encodable:
  assumes "encodable f"
  obtains hi lo where "encodeCstaFrame (fst f) (snd f) = Inr ([0, 0, hi, lo] @ ascii_write (fst f) @ ascii_write (snd f))"
    "unat hi * 256 + unat lo = 8 + length (snd f)"
proof -
  let ?n = "8 + length (snd f)"
  have n: "?n \<le> 65535" using assms by (simp add: encodable_def)
  have un: "unat (word_of_nat m :: byte) = m mod 256" for m by (simp add: unat_of_nat)
  have "unat (word_of_nat (?n div 256) :: byte) = ?n div 256" unfolding un using n by simp
  moreover have "unat (word_of_nat ?n :: byte) = ?n mod 256" by (rule un)
  ultimately have "unat (word_of_nat (?n div 256) :: byte) * 256 + unat (word_of_nat ?n :: byte) = ?n" by simp
  moreover have "encodeCstaFrame (fst f) (snd f) =
      Inr ([0, 0, word_of_nat (?n div 256), word_of_nat ?n] @ ascii_write (fst f) @ ascii_write (snd f))"
    using assms n by (simp add: encodeCstaFrame_def encodable_def Let_def writeUInt16BE_def ascii_write_def
        FRAME_PREFIX_LENGTH_def INVOKE_ID_LENGTH_def)
  ultimately show thesis using that by blast
qed

lemma wire_form:
  assumes "encodable f"
  obtains hi lo where "wire f = [0, 0, hi, lo] @ ascii_write (fst f) @ ascii_write (snd f)"
    "unat hi * 256 + unat lo = 8 + length (snd f)"
  using encode_encodable[OF assms] by (metis (no_types, lifting) old.sum.simps(6) wire_def)

lemma wire_read:
  assumes "encodable f"
  shows "length (wire f) = 8 + length (snd f)" "readUInt16BE (wire f @ rest) 2 = length (wire f)"
    "frames_at (wire f @ rest) (length (wire f)) = [f]"
proof -
  obtain hi lo where w: "wire f = [0, 0, hi, lo] @ ascii_write (fst f) @ ascii_write (snd f)"
    "unat hi * 256 + unat lo = 8 + length (snd f)" using wire_form[OF assms] .
  have l: "length (ascii_write (fst f)) = 4" "length (ascii_write (snd f)) = length (snd f)"
    using assms by (simp_all add: encodable_def ascii_write_def INVOKE_ID_LENGTH_def)
  show len: "length (wire f) = 8 + length (snd f)" using w(1) l by simp
  show "readUInt16BE (wire f @ rest) 2 = length (wire f)" using w l by (simp add: readUInt16BE_def)
  show "frames_at (wire f @ rest) (length (wire f)) = [f]"
    using assms unfolding frames_at_def len FRAME_PREFIX_LENGTH_def INVOKE_ID_LENGTH_def
    by (simp add: w(1) l drop_append[of 4 "ascii_write (fst f)"] ascii_roundtrip encodable_def prod_eq_iff)
qed

lemma read_loop_frame:
  assumes "encodable f"
  shows "read_loop (wire f @ rest) acc = read_loop rest (acc @ [f])"
proof -
  have "\<not> length (wire f @ rest) < FRAME_PREFIX_LENGTH" "\<not> length (wire f @ rest) < readUInt16BE (wire f @ rest) 2"
    using wire_read(1,2)[OF assms] by (simp_all add: FRAME_PREFIX_LENGTH_def)
  then show ?thesis using wire_read(2,3)[OF assms] by (subst read_loop.simps) simp
qed

lemma read_loop_partial:
  assumes "encodable f" "strict_prefix p (wire f)"
  shows "read_loop p acc = Some (acc, p)"
proof (cases "length p < FRAME_PREFIX_LENGTH")
  case True
  then show ?thesis by (subst read_loop.simps) simp
next
  case False
  obtain rest where r: "wire f = p @ rest" "rest \<noteq> []" using assms(2) by (auto simp: strict_prefix_def prefix_def)
  have "readUInt16BE p 2 = readUInt16BE (wire f @ []) 2"
    using False r by (simp add: readUInt16BE_def FRAME_PREFIX_LENGTH_def nth_append)
  then have "length p < readUInt16BE p 2" using wire_read(2)[OF assms(1), of "[]"] r by simp
  with False show ?thesis by (subst read_loop.simps) simp
qed

lemma read_loop_acc_partial:
  assumes "\<And>f. f \<in> set fs \<Longrightarrow> encodable f" "prefix p (concat (map wire fs))"
  shows "\<exists>k r. k \<le> length fs \<and> p = concat (map wire (take k fs)) @ r \<and>
           (\<forall>acc. read_loop p acc = Some (acc @ take k fs, r)) \<and> (\<forall>acc. read_loop r acc = Some (acc, r))"
  using assms
proof (induction fs arbitrary: p)
  case Nil
  then have "p = []" by simp
  moreover have "read_loop [] acc = Some (acc, [])" for acc by (subst read_loop.simps) (simp add: FRAME_PREFIX_LENGTH_def)
  ultimately show ?case by simp
next
  case (Cons f fs)
  have f: "encodable f" by (rule Cons.prems(1)) simp
  show ?case
  proof (cases "prefix (wire f) p")
    case True
    then obtain q where q: "p = wire f @ q" by (auto simp: prefix_def)
    then have "prefix q (concat (map wire fs))" using Cons.prems(2) by simp
    from Cons.IH[OF Cons.prems(1) this] obtain k r where kr: "k \<le> length fs" "q = concat (map wire (take k fs)) @ r"
      "\<And>acc. read_loop q acc = Some (acc @ take k fs, r)" "\<And>acc. read_loop r acc = Some (acc, r)" by auto
    show ?thesis
      by (rule exI[of _ "Suc k"], rule exI[of _ r]) (use q kr read_loop_frame[OF f] in simp)
  next
    case False
    then have "strict_prefix p (wire f)"
      using Cons.prems(2) by (auto simp: strict_prefix_def prefix_append)
    then show ?thesis using read_loop_partial[OF f] by (intro exI[of _ 0] exI[of _ p]) simp
  qed
qed

lemma push_all_stream:
  assumes "\<And>f. f \<in> set fs \<Longrightarrow> encodable f" "buffer @ concat chunks = concat (map wire fs)" "\<And>acc. read_loop buffer acc = Some (acc, buffer)"
  shows "push_all buffer chunks = Some (fs, [])"
  using assms
proof (induction chunks arbitrary: fs buffer)
  case Nil
  show ?case
  proof (cases fs)
    case (Cons f gs)
    then have "read_loop buffer [] = read_loop (concat (map wire gs)) [f]"
      using Nil.prems(1,2) read_loop_frame[of f "concat (map wire gs)" "[]"] by simp
    moreover have "buffer = wire f @ concat (map wire gs)" using Nil.prems(2) Cons by simp
    moreover obtain k r where "read_loop (concat (map wire gs)) [f] = Some ([f] @ take k gs, r)"
      using read_loop_acc_partial[of gs "concat (map wire gs)"] Nil.prems(1) Cons by auto
    ultimately show ?thesis using Nil.prems(3)[of "[]"] by simp
  qed (use Nil in simp)
next
  case (Cons c cs)
  have "prefix (buffer @ c) (concat (map wire fs))" using Cons.prems(2) by (simp add: prefix_def) (metis append.assoc)
  from read_loop_acc_partial[OF Cons.prems(1) this] obtain k r where kr: "k \<le> length fs"
    "buffer @ c = concat (map wire (take k fs)) @ r" "\<And>acc. read_loop (buffer @ c) acc = Some (acc @ take k fs, r)"
    "\<And>acc. read_loop r acc = Some (acc, r)" by auto
  have "concat (map wire fs) = concat (map wire (take k fs)) @ concat (map wire (drop k fs))"
    by (metis append_take_drop_id concat_append map_append)
  then have "r @ concat cs = concat (map wire (drop k fs))"
    using Cons.prems(2) kr(2) by (metis append.assoc concat.simps(2) same_append_eq)
  then have "push_all r cs = Some (drop k fs, [])"
    using Cons.prems(1) kr(4) by (intro Cons.IH) (auto dest: in_set_dropD)
  then show ?case using kr(3)[of "[]"] by (simp add: push_def)
qed

text \<open>
  Property C22. Frames survive the network: however TCP cuts the bytes of a sequence of encoded frames into chunks,
  the reader returns after every chunk, hands out exactly those frames in order, and ends with an
  empty buffer. It holds for frames of ASCII text that fit the 16-bit length field.
\<close>

theorem csta_stream_roundtrip:
  assumes "\<And>f. f \<in> set fs \<Longrightarrow> encodable f" "concat chunks = concat (map wire fs)"
  shows "push_all [] chunks = Some (fs, [])"
proof (rule push_all_stream[OF assms(1)])
  show "[] @ concat chunks = concat (map wire fs)" using assms(2) by simp
  show "read_loop [] acc = Some (acc, [])" for acc by (subst read_loop.simps) (simp add: FRAME_PREFIX_LENGTH_def)
qed

definition demo_frame :: csta_frame where
  "demo_frame = ([57, 57, 57, 57], [60, 97, 47, 62])"

theorem csta_stream_roundtrip_witness:
  "push_all [] [[0, 0, 0], [12, 57, 57, 57, 57, 60, 97, 47, 62, 0], [0, 0, 12, 57, 57, 57, 57, 60, 97, 47, 62]] = Some ([demo_frame, demo_frame], [])"
proof (rule csta_stream_roundtrip)
  show "encodable f" if "f \<in> set [demo_frame, demo_frame]" for f
    using that by (simp add: encodable_def demo_frame_def INVOKE_ID_LENGTH_def ascii_string_def)
  show "concat [[0, 0, 0], [12, 57, 57, 57, 57, 60, 97, 47, 62, 0], [0, 0, 12, 57, 57, 57, 57, 60, 97, 47, 62]] = concat (map wire [demo_frame, demo_frame])"
    by (simp add: wire_def demo_frame_def encodeCstaFrame_def INVOKE_ID_LENGTH_def FRAME_PREFIX_LENGTH_def Let_def writeUInt16BE_def ascii_write_def)
qed

section \<open>Invoke identifiers do not collide\<close>

fun invoke_ids :: "nat \<Rightarrow> nat \<Rightarrow> js_string list" where
  \<comment> \<open>the identifiers of the next \<open>n\<close> requests of a generator\<close>
  "invoke_ids next 0 = []"
| "invoke_ids next (Suc n) = fst (generate_invoke_id next) # invoke_ids (snd (generate_invoke_id next)) n"

definition undecimal :: "js_string \<Rightarrow> nat" where
  "undecimal s = foldl (\<lambda>a c. a * 10 + (unat c - 48)) 0 s"

lemma undecimal_digit: "d < 10 \<Longrightarrow> unat (word_of_nat (48 + d) :: 16 word) - 48 = d"
  by (simp only: unat_of_nat) simp

lemma undecimal_decimal: "undecimal (decimal n) = n"
proof (induction n rule: decimal.induct)
  case (1 n)
  then show ?case
    using undecimal_digit[of n] undecimal_digit[of "n mod 10"]
    by (cases "n < 10") (simp_all add: decimal.simps[of n] undecimal_def)
qed

lemma undecimal_padStart0: "undecimal (padStart0 k s) = undecimal s"
proof -
  have "foldl (\<lambda>a c. a * 10 + (unat c - 48)) 0 (replicate m (48 :: 16 word)) = 0" for m by (induction m) simp_all
  then show ?thesis by (simp add: undecimal_def padStart0_def)
qed

lemma length_decimal: "n < 10 ^ Suc k \<Longrightarrow> length (decimal n) \<le> Suc k"
  by (induction k arbitrary: n) (simp_all add: decimal.simps)

lemma generate_invoke_id_step:
  assumes "1 \<le> next" "next \<le> 9998"
  shows "undecimal (fst (generate_invoke_id next)) = next" "length (fst (generate_invoke_id next)) = INVOKE_ID_LENGTH"
    "1 \<le> snd (generate_invoke_id next)" "snd (generate_invoke_id next) \<le> 9998"
    "snd (generate_invoke_id next) - 1 = (next - 1 + 1) mod 9998"
proof -
  show "undecimal (fst (generate_invoke_id next)) = next"
    by (simp add: generate_invoke_id_def undecimal_padStart0 undecimal_decimal)
  show "length (fst (generate_invoke_id next)) = INVOKE_ID_LENGTH"
    using assms length_decimal[of "next" 3] by (simp add: generate_invoke_id_def padStart0_def INVOKE_ID_LENGTH_def)
qed (use assms in \<open>auto simp: generate_invoke_id_def\<close>)

lemma invoke_ids_values:
  assumes "1 \<le> next" "next \<le> 9998"
  shows "map undecimal (invoke_ids next n) = map (\<lambda>i. (next - 1 + i) mod 9998 + 1) [0..<n]"
    and "\<forall>s\<in>set (invoke_ids next n). length s = INVOKE_ID_LENGTH"
proof -
  have "map undecimal (invoke_ids next n) = map (\<lambda>i. (next - 1 + i) mod 9998 + 1) [0..<n] \<and>
        (\<forall>s\<in>set (invoke_ids next n). length s = INVOKE_ID_LENGTH)"
    using assms
  proof (induction n arbitrary: "next")
    case (Suc n)
    note step = generate_invoke_id_step[OF Suc.prems]
    have "(next - 1 + Suc i) mod 9998 = (snd (generate_invoke_id next) - 1 + i) mod 9998" for i
      unfolding step(5) by (simp add: mod_simps)
    moreover have "next = (next - 1 + 0) mod 9998 + 1" using Suc.prems by simp
    ultimately show ?case
      using Suc.IH[OF step(3,4)] step(1,2) by (simp add: map_upt_Suc del: upt_Suc)
  qed simp
  then show "map undecimal (invoke_ids next n) = map (\<lambda>i. (next - 1 + i) mod 9998 + 1) [0..<n]"
    "\<forall>s\<in>set (invoke_ids next n). length s = INVOKE_ID_LENGTH" by blast+
qed

text \<open>
  A fresh generator hands out four-character identifiers, never the one reserved for events, and the
  identifiers of 9998 successive requests are pairwise different: the response of one request cannot be
  taken for that of another unless 9998 requests lie between them.
\<close>

theorem invoke_ids_distinct:
  assumes "n \<le> 9998"
  shows "distinct (invoke_ids 1 n)" "CSTA_EVENT_INVOKE_ID \<notin> set (invoke_ids 1 m)"
    "\<forall>s\<in>set (invoke_ids 1 m). length s = INVOKE_ID_LENGTH"
proof -
  have "inj_on (\<lambda>i. i mod 9998 + 1) {0..<n}" using assms by (auto simp: inj_on_def)
  then have "distinct (map undecimal (invoke_ids 1 n))" using invoke_ids_values(1)[of 1 n] by (simp add: distinct_map)
  then show "distinct (invoke_ids 1 n)" by (simp add: distinct_map)
  have "undecimal s \<le> 9998" if "s \<in> set (invoke_ids 1 m)" for s
  proof -
    have "undecimal s \<in> set (map undecimal (invoke_ids 1 m))" using that by simp
    then have "undecimal s \<in> set (map (\<lambda>i. (1 - 1 + i) mod 9998 + 1) [0..<m])"
      by (subst (asm) invoke_ids_values(1)) simp_all
    then show ?thesis by (auto simp: Suc_le_eq)
  qed
  moreover have "undecimal CSTA_EVENT_INVOKE_ID = 9999" by (simp add: undecimal_def CSTA_EVENT_INVOKE_ID_def)
  ultimately show "CSTA_EVENT_INVOKE_ID \<notin> set (invoke_ids 1 m)" by force
  show "\<forall>s\<in>set (invoke_ids 1 m). length s = INVOKE_ID_LENGTH" using invoke_ids_values(2)[of 1 m] by simp
qed

section \<open>When the reader returns\<close>

function advancing :: "byte list \<Rightarrow> bool" where
  \<comment> \<open>no complete frame that the reader reaches in the buffer has a length field of zero\<close>
  "advancing buf =
     (if length buf < FRAME_PREFIX_LENGTH \<or> length buf < readUInt16BE buf 2 then True
      else if readUInt16BE buf 2 = 0 then False
      else advancing (drop (readUInt16BE buf 2) buf))"
  by auto

termination
  by (relation "measure length") (auto simp: FRAME_PREFIX_LENGTH_def)

declare advancing.simps [simp del]

lemma advancing_returns: "advancing buf \<Longrightarrow> \<exists>res. read_loop buf acc = Some res"
proof (induction buf arbitrary: acc rule: advancing.induct)
  case (1 buf)
  show ?case
  proof (cases "length buf < FRAME_PREFIX_LENGTH \<or> length buf < readUInt16BE buf 2")
    case True
    then show ?thesis by (subst read_loop.simps) auto
  next
    case False
    with "1.prems" have "advancing (drop (readUInt16BE buf 2) buf)" "readUInt16BE buf 2 \<noteq> 0"
      by (simp_all add: advancing.simps[of buf] split: if_splits)
    with "1.IH" False show ?thesis by (subst read_loop.simps) auto
  qed
qed

lemma returns_advancing: "read_loop buf acc = Some res \<Longrightarrow> advancing buf"
proof (induction rule: read_loop.raw_induct[rotated, consumes 1, case_names round])
  case (round loop buf acc res)
  show ?case
  proof (cases "length buf < FRAME_PREFIX_LENGTH \<or> length buf < readUInt16BE buf 2")
    case True
    then show ?thesis by (simp add: advancing.simps)
  next
    case False
    then have "loop (drop (readUInt16BE buf 2) buf) (acc @ frames_at buf (readUInt16BE buf 2)) = Some res"
      using round(2) by simp
    then have next_round: "advancing (drop (readUInt16BE buf 2) buf)" by (rule round(1))
    show ?thesis
    proof (cases "readUInt16BE buf 2 = 0")
      case True
      with next_round show ?thesis by simp
    next
      case pos: False
      with False next_round show ?thesis by (subst advancing.simps) simp
    qed
  qed
qed

text \<open>
  When the reader returns. A chunk is processed in finitely many rounds exactly if no
  complete frame it reaches carries a length field of zero; a zero length field, which no encoder of
  this module writes but a peer can send, is never consumed, so the reader loops on it forever and the
  data handler of the connection never returns.
\<close>

theorem csta_reader_returns_iff:
  "(\<exists>res. push buffer chunk = Some res) = advancing (buffer @ chunk) \<and>
   push [0, 0] (0 # 0 # rest) = None"
proof -
  have returns: "(\<exists>res. push b c = Some res) = advancing (b @ c)" for b c
    using advancing_returns returns_advancing unfolding push_def by blast
  have "\<not> advancing ([0, 0] @ 0 # 0 # rest)"
    by (subst advancing.simps) (simp add: FRAME_PREFIX_LENGTH_def readUInt16BE_def)
  then have "push [0, 0] (0 # 0 # rest) = None" using returns by (metis option.exhaust)
  with returns show ?thesis by blast
qed

end
