(* ===== verification/Backpressure_Queue.thy ===== *)
theory Backpressure_Queue
  imports WFM_Prelude
begin

text \<open>
  The bounded forwarding queue of the collector (\<open>acd-onprem-collector/src/backpressure-queue.ts\<close>). The
  drain loop is cut at its two awaits: \<open>Processing item n\<close> is the await of \<open>options.process(item)\<close> with
  \<open>degradedAttempt = n\<close>, \<open>Sleeping item n\<close> the await of the back-off timer, and \<open>Parked\<close> means that no
  loop is running. \<open>settle\<close> and \<open>wake\<close> are what the loop does when the awaited promise settles. The
  calls the queue makes and the results it returns are kept in order in \<open>bq_log\<close>.
\<close>

section \<open>State and operations\<close>

datatype drop_reason = Queue_full | Sustained_degradation

datatype process_outcome = Process_ok | Item_failure | Upstream_degraded

datatype 'a bq_event =
    Enqueue_returned 'a bool
  | Process_called 'a nat
  | Settled 'a process_outcome
  | On_dropped 'a drop_reason
  | On_degraded nat nat

datatype 'a drain_phase = Parked | Processing 'a nat | Sleeping 'a nat

record 'a bq =
  bq_items :: "'a list"
  bq_draining :: bool
  bq_stopped :: bool
  bq_phase :: "'a drain_phase"
  bq_log :: "'a bq_event list"

record bq_options =
  bq_capacity :: nat
  bq_backoffMs :: "nat \<Rightarrow> nat"
  bq_maxDegradedRetries :: nat

definition DEFAULT_MAX_DEGRADED_RETRIES :: nat where
  "DEFAULT_MAX_DEGRADED_RETRIES = 5"

definition defaultBackoffMs :: "nat \<Rightarrow> nat" where
  "defaultBackoffMs attempt = min 30000 (500 * 2 ^ attempt)"

definition bq_new :: "'a bq" where
  "bq_new = \<lparr>bq_items = [], bq_draining = False, bq_stopped = False, bq_phase = Parked, bq_log = []\<rparr>"

definition bq_emit :: "'a bq_event \<Rightarrow> 'a bq \<Rightarrow> 'a bq" where
  "bq_emit e q = q\<lparr>bq_log := bq_log q @ [e]\<rparr>"

definition loop_head :: "'a bq \<Rightarrow> 'a bq" where
  \<comment> \<open>the test of the outer \<open>while\<close>, up to the next await\<close>
  "loop_head q =
     (if \<not> bq_stopped q \<and> bq_items q \<noteq> []
      then bq_emit (Process_called (hd (bq_items q)) 0) (q\<lparr>bq_phase := Processing (hd (bq_items q)) 0\<rparr>)
      else q\<lparr>bq_draining := False, bq_phase := Parked\<rparr>)"

definition kick :: "'a bq \<Rightarrow> 'a bq" where
  "kick q = (if bq_draining q then q else loop_head (q\<lparr>bq_draining := True\<rparr>))"

definition enqueue :: "bq_options \<Rightarrow> 'a \<Rightarrow> 'a bq \<Rightarrow> bool \<times> 'a bq" where
  "enqueue opts item q =
     (if bq_stopped q then (False, bq_emit (Enqueue_returned item False) q)
      else if length (bq_items q) \<ge> bq_capacity opts
      then (False, bq_emit (Enqueue_returned item False) (bq_emit (On_dropped item Queue_full) q))
      else (True, bq_emit (Enqueue_returned item True) (kick (q\<lparr>bq_items := bq_items q @ [item]\<rparr>))))"

definition bq_stop :: "'a bq \<Rightarrow> 'a bq" where
  "bq_stop q = q\<lparr>bq_stopped := True\<rparr>"

definition shift :: "'a bq \<Rightarrow> 'a bq" where
  "shift q = q\<lparr>bq_items := tl (bq_items q)\<rparr>"

fun settle :: "bq_options \<Rightarrow> process_outcome \<Rightarrow> 'a bq \<Rightarrow> 'a bq" where
  "settle opts outcome q =
     (case bq_phase q of
        Processing item degradedAttempt \<Rightarrow>
          let q1 = bq_emit (Settled item outcome) q
          in (case outcome of
                Process_ok \<Rightarrow> loop_head (shift q1)
              | Item_failure \<Rightarrow> loop_head (shift q1)
              | Upstream_degraded \<Rightarrow>
                  if degradedAttempt \<ge> bq_maxDegradedRetries opts
                  then loop_head (bq_emit (On_dropped item Sustained_degradation) (shift q1))
                  else (bq_emit (On_degraded degradedAttempt (bq_backoffMs opts degradedAttempt)) q1)
                         \<lparr>bq_phase := Sleeping item (Suc degradedAttempt)\<rparr>)
      | _ \<Rightarrow> q)"

declare settle.simps [simp del]

definition wake :: "'a bq \<Rightarrow> 'a bq" where
  "wake q =
     (case bq_phase q of
        Sleeping item degradedAttempt \<Rightarrow>
          if bq_stopped q then q\<lparr>bq_phase := Parked\<rparr>
          else bq_emit (Process_called item degradedAttempt) (q\<lparr>bq_phase := Processing item degradedAttempt\<rparr>)
      | _ \<Rightarrow> q)"

section \<open>Runs\<close>

datatype 'a bq_action = Enqueue 'a | Stop | Settle process_outcome | Wake

fun bq_do :: "bq_options \<Rightarrow> 'a bq_action \<Rightarrow> 'a bq \<Rightarrow> 'a bq" where
  "bq_do opts (Enqueue x) q = snd (enqueue opts x q)"
| "bq_do opts Stop q = bq_stop q"
| "bq_do opts (Settle r) q = settle opts r q"
| "bq_do opts Wake q = wake q"

definition bq_run :: "bq_options \<Rightarrow> 'a bq_action list \<Rightarrow> 'a bq" where
  \<comment> \<open>any interleaving of callers and of the loop's awaits\<close>
  "bq_run opts acts = fold (bq_do opts) acts bq_new"

definition accepted :: "'a bq_event list \<Rightarrow> 'a list" where
  "accepted es = List.map_filter (\<lambda>e. case e of Enqueue_returned x True \<Rightarrow> Some x | _ \<Rightarrow> None) es"

definition started :: "'a bq_event list \<Rightarrow> 'a list" where
  \<comment> \<open>the items in the order of their first attempt\<close>
  "started es = List.map_filter (\<lambda>e. case e of Process_called x 0 \<Rightarrow> Some x | _ \<Rightarrow> None) es"

definition finished :: "'a bq_event list \<Rightarrow> 'a list" where
  \<comment> \<open>the items that left the queue, in order: processed, failed on their own, or given up\<close>
  "finished es = List.map_filter (\<lambda>e. case e of
       Settled x r \<Rightarrow> if r = Upstream_degraded then None else Some x
     | On_dropped x Sustained_degradation \<Rightarrow> Some x
     | _ \<Rightarrow> None) es"

definition busy :: "'a bq \<Rightarrow> bool" where
  "busy q \<longleftrightarrow> bq_phase q \<noteq> Parked"

section \<open>Invariant\<close>

named_theorems bq_simps \<open>the log functions on the operations\<close>

lemma log_fun_append [bq_simps]:
  "accepted (es @ es') = accepted es @ accepted es'"
  "started (es @ es') = started es @ started es'"
  "finished (es @ es') = finished es @ finished es'"
  by (simp_all add: accepted_def started_def finished_def map_filter_def)

lemma log_fun_Cons [bq_simps]:
  "accepted (e # es) = (case e of Enqueue_returned x True \<Rightarrow> [x] | _ \<Rightarrow> []) @ accepted es"
  "started (e # es) = (case e of Process_called x 0 \<Rightarrow> [x] | _ \<Rightarrow> []) @ started es"
  "finished (e # es) = (case e of
     Settled x r \<Rightarrow> if r = Upstream_degraded then [] else [x] | On_dropped x Sustained_degradation \<Rightarrow> [x] | _ \<Rightarrow> []) @ finished es"
  by (auto simp: accepted_def started_def finished_def map_filter_def split: bq_event.splits bool.splits nat.splits drop_reason.splits)

lemma log_fun_Nil [simp]: "accepted [] = []" "started [] = []" "finished [] = []"
  by (simp_all add: accepted_def started_def finished_def map_filter_def)

fun phase_ok :: "bq_options \<Rightarrow> 'a bq \<Rightarrow> bool" where
  "phase_ok opts q =
     (case bq_phase q of
        Parked \<Rightarrow> bq_stopped q \<or> bq_items q = [] \<and> \<not> bq_draining q
      | Processing x n \<Rightarrow> bq_draining q \<and> bq_items q \<noteq> [] \<and> hd (bq_items q) = x \<and> n \<le> bq_maxDegradedRetries opts
      | Sleeping x n \<Rightarrow> 0 < n \<and> bq_draining q \<and> bq_items q \<noteq> [] \<and> hd (bq_items q) = x \<and> n \<le> bq_maxDegradedRetries opts)"

definition bq_inv :: "bq_options \<Rightarrow> 'a bq \<Rightarrow> bool" where
  "bq_inv opts q \<longleftrightarrow>
     length (bq_items q) \<le> bq_capacity opts \<and> phase_ok opts q \<and>
     accepted (bq_log q) = finished (bq_log q) @ bq_items q \<and>
     (started (bq_log q) = finished (bq_log q) @ [hd (bq_items q)] \<and> bq_items q \<noteq> [] \<or>
      \<not> busy q \<and> started (bq_log q) = finished (bq_log q)) \<and>
     (\<forall>x n. Process_called x n \<in> set (bq_log q) \<longrightarrow> n \<le> bq_maxDegradedRetries opts)"

lemma bq_inv_new: "bq_inv opts bq_new"
  by (simp add: bq_inv_def bq_new_def busy_def)

lemma bq_inv_enqueue:
  assumes "bq_inv opts q"
  shows "bq_inv opts (snd (enqueue opts x q))"
proof (cases "bq_phase q")
  case Parked
  then show ?thesis
    using assms
    by (auto simp: bq_inv_def enqueue_def bq_emit_def kick_def loop_head_def busy_def bq_simps)
next
  case Processing
  then show ?thesis
    using assms by (auto simp: bq_inv_def enqueue_def bq_emit_def kick_def busy_def bq_simps)
next
  case Sleeping
  then show ?thesis
    using assms by (auto simp: bq_inv_def enqueue_def bq_emit_def kick_def busy_def bq_simps)
qed

lemma bq_inv_stop: "bq_inv opts q \<Longrightarrow> bq_inv opts (bq_stop q)"
  by (auto simp: bq_inv_def bq_stop_def busy_def split: drain_phase.splits)

lemma bq_inv_settle:
  assumes "bq_inv opts q"
  shows "bq_inv opts (settle opts r q)"
proof (cases "bq_phase q")
  case (Processing x n)
  then obtain rest where rest: "bq_items q = x # rest" "bq_draining q" "n \<le> bq_maxDegradedRetries opts"
    using assms by (cases "bq_items q") (auto simp: bq_inv_def)
  then show ?thesis
    using assms Processing
    by (cases r) (auto simp: bq_inv_def settle.simps Let_def bq_emit_def shift_def loop_head_def busy_def bq_simps)
qed (use assms in \<open>simp_all add: settle.simps\<close>)

lemma bq_inv_wake: "bq_inv opts q \<Longrightarrow> bq_inv opts (wake q)"
  by (auto simp: bq_inv_def wake_def bq_emit_def busy_def bq_simps split: drain_phase.splits nat.splits)

lemma bq_inv_do: "bq_inv opts q \<Longrightarrow> bq_inv opts (bq_do opts a q)"
  by (cases a) (simp_all add: bq_inv_enqueue bq_inv_stop bq_inv_settle bq_inv_wake)

lemma bq_inv_fold: "bq_inv opts q \<Longrightarrow> bq_inv opts (fold (bq_do opts) acts q)"
  by (induction acts arbitrary: q) (simp_all add: bq_inv_do)

lemma bq_inv_run: "bq_inv opts (bq_run opts acts)"
  unfolding bq_run_def by (intro bq_inv_fold bq_inv_new)

text \<open>
  The queue is bounded, first in first out, and loses nothing silently. After any
  interleaving of callers, settling promises and timers it holds at most \<open>capacity\<close> items; the items
  whose \<open>enqueue\<close> returned true are those that left the queue (processed, failed on their own, or given
  up after sustained degradation, in the order of arrival) followed by those still in it; they were
  started in the order of arrival, one at a time, and none was attempted more than
  \<open>maxDegradedRetries + 1\<close> times.
\<close>

theorem backpressure_fifo_bounded:
  fixes opts acts defines "q \<equiv> bq_run opts acts"
  shows "length (bq_items q) \<le> bq_capacity opts \<and>
    accepted (bq_log q) = finished (bq_log q) @ bq_items q \<and>
    (\<exists>k\<le>1. started (bq_log q) = finished (bq_log q) @ take k (bq_items q)) \<and>
    (\<forall>x n. Process_called x n \<in> set (bq_log q) \<longrightarrow> n \<le> bq_maxDegradedRetries opts)"
proof -
  have inv: "bq_inv opts q" unfolding q_def by (rule bq_inv_run)
  have "\<exists>k\<le>1. started (bq_log q) = finished (bq_log q) @ take k (bq_items q)"
  proof (cases "started (bq_log q) = finished (bq_log q)")
    case True
    then show ?thesis by (intro exI[of _ 0]) simp
  next
    case False
    then have "started (bq_log q) = finished (bq_log q) @ [hd (bq_items q)]" "bq_items q \<noteq> []"
      using inv by (auto simp: bq_inv_def)
    then show ?thesis by (intro exI[of _ 1]) (cases "bq_items q"; simp)
  qed
  with inv show ?thesis by (simp add: bq_inv_def)
qed

theorem backpressure_fifo_bounded_witness:
  fixes opts :: bq_options and acts :: "nat bq_action list"
  defines "opts \<equiv> \<lparr>bq_capacity = 2, bq_backoffMs = defaultBackoffMs, bq_maxDegradedRetries = 1\<rparr>"
    and "acts \<equiv> [Enqueue 1, Enqueue 2, Enqueue 3, Settle Upstream_degraded, Wake, Settle Upstream_degraded]"
  shows "Process_called 1 1 \<in> set (bq_log (bq_run opts acts)) \<and> finished (bq_log (bq_run opts acts)) = [1] \<and>
    bq_items (bq_run opts acts) = [2] \<and> 1 \<le> bq_maxDegradedRetries opts"
proof -
  have run: "bq_log (bq_run opts acts) =
      [Process_called 1 0, Enqueue_returned 1 True, Enqueue_returned 2 True, On_dropped 3 Queue_full,
       Enqueue_returned 3 False, Settled 1 Upstream_degraded, On_degraded 0 500, Process_called 1 1,
       Settled 1 Upstream_degraded, On_dropped 1 Sustained_degradation, Process_called 2 0]"
    "bq_items (bq_run opts acts) = [2]"
    by (simp_all add: opts_def acts_def bq_run_def bq_new_def enqueue_def bq_emit_def kick_def loop_head_def
        settle.simps wake_def shift_def defaultBackoffMs_def)
  then have "Process_called 1 1 \<in> set (bq_log (bq_run opts acts))" by simp
  with backpressure_fifo_bounded[of opts acts] run show ?thesis by (auto simp: log_fun_Cons)
qed

section \<open>The queue drains\<close>

definition loop_turn :: "bq_options \<Rightarrow> ('a bq \<Rightarrow> process_outcome) \<Rightarrow> 'a bq \<Rightarrow> 'a bq" where
  \<comment> \<open>the loop's next await settles; what \<open>process\<close> answers is any function of the history\<close>
  "loop_turn opts answer q =
     (case bq_phase q of Processing _ _ \<Rightarrow> settle opts (answer q) q | Sleeping _ _ \<Rightarrow> wake q | Parked \<Rightarrow> q)"

fun work_left :: "bq_options \<Rightarrow> 'a bq \<Rightarrow> nat" where
  "work_left opts q =
     (let m = bq_maxDegradedRetries opts; rest = (length (bq_items q) - 1) * (2 * m + 1)
      in case bq_phase q of
           Parked \<Rightarrow> 0
         | Processing x n \<Rightarrow> 2 * (m - n) + 1 + rest
         | Sleeping x n \<Rightarrow> 2 * (m - n) + 2 + rest)"

declare work_left.simps [simp del]

lemma work_left_loop_head:
  "bq_items q = rest \<Longrightarrow> work_left opts (loop_head q) \<le> length rest * (2 * bq_maxDegradedRetries opts + 1)"
  by (cases rest) (auto simp: work_left.simps loop_head_def bq_emit_def Let_def)

lemma loop_head_frame [simp]:
  "bq_stopped (loop_head q) = bq_stopped q" "accepted (bq_log (loop_head q)) = accepted (bq_log q)"
  by (simp_all add: loop_head_def bq_emit_def bq_simps)

lemma loop_turn_decreases:
  assumes "bq_inv opts q" "busy q" "\<not> bq_stopped q"
  shows "work_left opts (loop_turn opts answer q) < work_left opts q"
    and "\<not> bq_stopped (loop_turn opts answer q)"
    and "accepted (bq_log (loop_turn opts answer q)) = accepted (bq_log q)"
    and "bq_inv opts (loop_turn opts answer q)"
proof -
  have m: "work_left opts (loop_turn opts answer q) < work_left opts q \<and> \<not> bq_stopped (loop_turn opts answer q) \<and>
      accepted (bq_log (loop_turn opts answer q)) = accepted (bq_log q)"
  proof (cases "bq_phase q")
    case (Processing x n)
    then obtain rest where rest: "bq_items q = x # rest" "n \<le> bq_maxDegradedRetries opts"
      using assms by (cases "bq_items q") (auto simp: bq_inv_def)
    show ?thesis
    proof (cases "answer q = Upstream_degraded \<and> n < bq_maxDegradedRetries opts")
      case True
      then show ?thesis
        using Processing rest assms(3)
        by (auto simp: loop_turn_def settle.simps bq_emit_def bq_simps work_left.simps Let_def)
    next
      case False
      then have "\<exists>q'. loop_turn opts answer q = loop_head q' \<and> bq_items q' = rest \<and> \<not> bq_stopped q' \<and>
          accepted (bq_log q') = accepted (bq_log q)"
        using Processing rest assms(3)
        by (cases "answer q") (auto simp: loop_turn_def settle.simps Let_def shift_def bq_emit_def bq_simps
            intro!: exI[of _ "_ :: 'a bq"])
      then obtain q' where q': "loop_turn opts answer q = loop_head q'" "bq_items q' = rest" "\<not> bq_stopped q'"
        "accepted (bq_log q') = accepted (bq_log q)" by blast
      have "work_left opts (loop_head q') < work_left opts q"
        using work_left_loop_head[OF q'(2), of opts] rest Processing by (simp add: work_left.simps Let_def)
      with q' show ?thesis by simp
    qed
  next
    case Sleeping
    then show ?thesis
      using assms(3) by (simp add: loop_turn_def wake_def bq_emit_def work_left.simps Let_def bq_simps)
  qed (use assms(2) in \<open>simp add: busy_def\<close>)
  then show "work_left opts (loop_turn opts answer q) < work_left opts q"
    "\<not> bq_stopped (loop_turn opts answer q)" "accepted (bq_log (loop_turn opts answer q)) = accepted (bq_log q)" by blast+
  show "bq_inv opts (loop_turn opts answer q)"
    using assms(1) by (auto simp: loop_turn_def bq_inv_settle bq_inv_wake split: drain_phase.split)
qed

lemma loop_turn_parked: "\<not> busy q \<Longrightarrow> (loop_turn opts answer ^^ k) q = q"
  by (induction k) (simp_all add: busy_def loop_turn_def)

lemma loop_turns_drain:
  assumes "bq_inv opts q" "\<not> bq_stopped q" "work_left opts q \<le> k"
  shows "bq_items ((loop_turn opts answer ^^ k) q) = [] \<and> bq_phase ((loop_turn opts answer ^^ k) q) = Parked \<and>
    finished (bq_log ((loop_turn opts answer ^^ k) q)) = accepted (bq_log q)"
  using assms
proof (induction k arbitrary: q)
  case (Suc k)
  show ?case
  proof (cases "busy q")
    case True
    note turn = loop_turn_decreases[OF Suc.prems(1) True Suc.prems(2), of answer]
    have "work_left opts (loop_turn opts answer q) \<le> k" using turn(1) Suc.prems(3) by simp
    from Suc.IH[OF turn(4,2) this] show ?thesis by (simp add: funpow_Suc_right turn(3) del: funpow.simps)
  next
    case False
    have "bq_items q = []" using False Suc.prems(1,2) by (auto simp: bq_inv_def busy_def)
    with False Suc.prems(1) show ?thesis by (simp add: loop_turn_parked busy_def bq_inv_def del: funpow.simps)
  qed
next
  case 0
  then have "\<not> busy q" by (auto simp: work_left.simps busy_def Let_def split: drain_phase.splits)
  with 0 show ?case by (auto simp: bq_inv_def busy_def)
qed

lemma work_left_bound: "bq_inv opts q \<Longrightarrow> work_left opts q \<le> length (bq_items q) * (2 * bq_maxDegradedRetries opts + 1)"
  by (cases "bq_items q") (auto simp: bq_inv_def work_left.simps Let_def split: drain_phase.splits)

text \<open>
  One stuck item cannot block the queue: from any reachable state that has not been
  stopped, whatever the upstream answers, the loop empties the queue in at most
  \<open>2 * maxDegradedRetries + 1\<close> settled awaits per waiting item, and every accepted item has then been
  processed, failed on its own or been given up.
\<close>

theorem backpressure_drains:
  fixes opts acts answer defines "q \<equiv> bq_run opts acts"
  assumes "\<not> bq_stopped q"
  shows "\<exists>k \<le> length (bq_items q) * (2 * bq_maxDegradedRetries opts + 1).
    bq_items ((loop_turn opts answer ^^ k) q) = [] \<and> bq_phase ((loop_turn opts answer ^^ k) q) = Parked \<and>
    finished (bq_log ((loop_turn opts answer ^^ k) q)) = accepted (bq_log q)"
  using loop_turns_drain[OF _ assms(2) order_refl] work_left_bound bq_inv_run unfolding q_def by blast

theorem backpressure_drains_witness:
  fixes opts :: bq_options and acts :: "nat bq_action list"
  defines "opts \<equiv> \<lparr>bq_capacity = 2, bq_backoffMs = defaultBackoffMs, bq_maxDegradedRetries = 1\<rparr>"
    and "acts \<equiv> [Enqueue 1, Enqueue 2]"
  shows "bq_items (bq_run opts acts) = [1, 2] \<and>
    (\<exists>k \<le> 6. finished (bq_log ((loop_turn opts (\<lambda>_. Upstream_degraded) ^^ k) (bq_run opts acts))) = [1, 2])"
proof -
  have run: "bq_log (bq_run opts acts) = [Process_called 1 0, Enqueue_returned 1 True, Enqueue_returned 2 True]"
    "bq_items (bq_run opts acts) = [1, 2]" "\<not> bq_stopped (bq_run opts acts)"
    by (simp_all add: opts_def acts_def bq_run_def bq_new_def enqueue_def bq_emit_def kick_def loop_head_def)
  have "bq_maxDegradedRetries opts = 1" by (simp add: opts_def)
  with backpressure_drains[OF run(3), of "\<lambda>_. Upstream_degraded"] run(1,2) show ?thesis
    by (auto simp: log_fun_Cons)
qed

lemma default_backoff_bounds:
  "500 \<le> defaultBackoffMs n" "defaultBackoffMs n \<le> 30000"
  by (simp_all add: defaultBackoffMs_def)

end
