(* ===== verification/Activity_Ingestion.thy ===== *)
theory Activity_Ingestion
  imports WFM_Prelude
begin

text \<open>
  The path of an activity event from a collector into the platform: the forwarder of the collector
  (\<open>acd-onprem-collector/src/activity-event-forwarder.ts\<close>), and on the side of \<open>intraday-service\<close> the
  ingestion credentials, the signature guard, the idempotency lock in Redis and the ingestion service
  (\<open>src/ingestion\<close>, \<open>src/ingestion-credentials\<close>, \<open>src/redis\<close>). HMAC-SHA256, \<open>JSON.stringify\<close> and the
  decoding and validation of a request body are parameters. Times are in milliseconds.
\<close>

section \<open>Data\<close>

record activity_event =
  ae_sourceEventId :: string
  ae_employeeId :: string
  ae_currentActivity :: string
  ae_activityStartedAt :: string
  ae_siteId :: "string option"
  ae_queueId :: "string option"

record agent_state_changed =
  asc_tenantId :: string
  asc_employeeId :: string
  asc_sourceEventId :: string
  asc_currentActivity :: string
  asc_activityStartedAt :: string
  asc_siteId :: "string option"
  asc_queueId :: "string option"
  asc_receivedAt :: nat

datatype credential_status = Credential_active | Credential_revoked

record ingestion_credential =
  ic_id :: string
  ic_tenantId :: string
  ic_secretReference :: string
  ic_label :: "string option"
  ic_status :: credential_status
  ic_createdAt :: nat
  ic_revokedAt :: "nat option"

datatype ingestion_error =
    Vault_unavailable
  | Credential_not_found
  | Invalid_signature
  | Upstream_redis
  | Upstream_nats

datatype ingestion_outcome = Accepted | Duplicate

datatype nats_result = Stored | Stored_ack_lost | Not_stored

record ingestion_state =
  is_credentials :: "ingestion_credential list"
  is_vault :: "string \<rightharpoonup> string"
  is_locks :: "string \<rightharpoonup> nat" \<comment> \<open>key and time at which Redis expires it\<close>
  is_stream :: "(string \<times> agent_state_changed) list" \<comment> \<open>messages of the JetStream stream with their subjects\<close>

record ingestion_env =
  ie_now :: nat
  ie_ttlSeconds :: nat
  ie_toleranceSeconds :: nat
  ie_vault_up :: bool
  ie_redis_set_up :: bool
  ie_redis_del_up :: bool
  ie_nats :: nats_result

section \<open>Credentials\<close>

definition secretVaultPath :: "string \<Rightarrow> string \<Rightarrow> string" where
  "secretVaultPath tenantId credentialId =
     ''intraday/'' @ tenantId @ ''/ingestion-credential/'' @ credentialId @ ''/secret''"

definition create_credential ::
  "ingestion_env \<Rightarrow> string \<Rightarrow> string \<Rightarrow> string \<Rightarrow> string option \<Rightarrow> ingestion_state \<Rightarrow>
   (ingestion_error + ingestion_credential \<times> string) \<times> ingestion_state" where
  \<comment> \<open>\<open>credId\<close> and \<open>secret\<close> are the drawn values of \<open>randomUUID\<close> and \<open>randomBytes\<close>\<close>
  "create_credential env credId secret tenantId label st =
     (if \<not> ie_vault_up env then (Inl Vault_unavailable, st)
      else let ref = secretVaultPath tenantId credId;
               cred = \<lparr>ic_id = credId, ic_tenantId = tenantId, ic_secretReference = ref, ic_label = label,
                       ic_status = Credential_active, ic_createdAt = ie_now env, ic_revokedAt = None\<rparr>
           in (Inr (cred, secret),
               st\<lparr>is_vault := (is_vault st)(ref \<mapsto> secret), is_credentials := is_credentials st @ [cred]\<rparr>))"

definition revoke_credential ::
  "ingestion_env \<Rightarrow> string \<Rightarrow> string \<Rightarrow> ingestion_state \<Rightarrow> (ingestion_error + ingestion_credential) \<times> ingestion_state" where
  "revoke_credential env tenantId credId st =
     (case find_where (\<lambda>c. ic_tenantId c = tenantId \<and> ic_id c = credId) (is_credentials st) of
        None \<Rightarrow> (Inl Credential_not_found, st)
      | Some c \<Rightarrow>
          if ic_status c = Credential_active
          then let c' = c\<lparr>ic_status := Credential_revoked, ic_revokedAt := Some (ie_now env)\<rparr>
               in (Inr c', st\<lparr>is_credentials := update_where (\<lambda>r. ic_id r = ic_id c) (\<lambda>_. c') (is_credentials st)\<rparr>)
          else (Inr c, st))"

definition listActiveSecrets :: "ingestion_env \<Rightarrow> string \<Rightarrow> ingestion_state \<Rightarrow> string list" where
  "listActiveSecrets env tenantId st =
     (if \<not> ie_vault_up env then []
      else List.map_filter (\<lambda>c. is_vault st (ic_secretReference c))
             (filter (\<lambda>c. ic_tenantId c = tenantId \<and> ic_status c = Credential_active) (is_credentials st)))"

section \<open>Signature\<close>

fun dec_str :: "nat \<Rightarrow> string" where
  \<comment> \<open>decimal digits of a number, as a template literal prints it\<close>
  "dec_str n = (if n < 10 then [char_of (48 + n)] else dec_str (n div 10) @ [char_of (48 + n mod 10)])"

declare dec_str.simps [simp del]

definition is_dec_digit :: "char \<Rightarrow> bool" where
  "is_dec_digit c \<longleftrightarrow> 48 \<le> (of_char c :: nat) \<and> (of_char c :: nat) \<le> 57"

definition is_hex_digit :: "char \<Rightarrow> bool" where
  "is_hex_digit c \<longleftrightarrow> is_dec_digit c \<or> 97 \<le> (of_char c :: nat) \<and> (of_char c :: nat) \<le> 102"

definition dec_val :: "string \<Rightarrow> nat" where
  "dec_val s = foldl (\<lambda>a c. a * 10 + (of_char c - 48)) 0 s"

definition parse_signature :: "string \<Rightarrow> (string \<times> string) option" where
  \<comment> \<open>\<open>SIGNATURE_PATTERN = /^t=(\d+),v1=([0-9a-f]+)$/\<close>\<close>
  "parse_signature h =
     (if take 2 h \<noteq> ''t='' then None
      else let t = takeWhile is_dec_digit (drop 2 h); rest = dropWhile is_dec_digit (drop 2 h)
           in if t = [] \<or> take 4 rest \<noteq> '',v1='' then None
              else let sig = drop 4 rest
                   in if sig = [] \<or> \<not> list_all is_hex_digit sig then None else Some (t, sig))"

definition hmac_guard ::
  "(string \<Rightarrow> string \<Rightarrow> string) \<Rightarrow> ingestion_env \<Rightarrow> string \<Rightarrow> string list \<Rightarrow> string \<Rightarrow> ingestion_state \<Rightarrow> ingestion_error + unit" where
  \<comment> \<open>\<open>headers\<close> holds the values of the signature header of the request\<close>
  "hmac_guard hmac env tenantId headers rawBody st =
     (case headers of
        [h] \<Rightarrow>
          (case parse_signature h of
             None \<Rightarrow> Inl Invalid_signature
           | Some (timestampRaw, provided) \<Rightarrow>
               if nat \<bar>int (ie_now env) - int (dec_val timestampRaw)\<bar> > ie_toleranceSeconds env * 1000
               then Inl Invalid_signature
               else let secrets = listActiveSecrets env tenantId st
                    in if secrets = [] then Inl Invalid_signature
                       else if list_ex (\<lambda>secret. hmac secret (timestampRaw @ ''.'' @ rawBody) = provided) secrets
                       then Inr () else Inl Invalid_signature)
      | _ \<Rightarrow> Inl Invalid_signature)"

section \<open>Ingestion\<close>

definition ingestionIdempotencyKey :: "string \<Rightarrow> string \<Rightarrow> string" where
  "ingestionIdempotencyKey tenantId sourceEventId = ''tenant:'' @ tenantId @ '':intraday:ingested-event:'' @ sourceEventId"

definition agentStateChangedSubject :: "string \<Rightarrow> string" where
  "agentStateChangedSubject employeeId = ''agno.intraday.agent.state_changed.v1.'' @ employeeId"

definition lock_live :: "nat \<Rightarrow> string \<Rightarrow> ingestion_state \<Rightarrow> bool" where
  "lock_live now key st \<longleftrightarrow> (case is_locks st key of None \<Rightarrow> False | Some expiry \<Rightarrow> now < expiry)"

definition acquireIngestionIdempotencyLock ::
  "ingestion_env \<Rightarrow> string \<Rightarrow> string \<Rightarrow> ingestion_state \<Rightarrow> (ingestion_error + bool) \<times> ingestion_state" where
  \<comment> \<open>\<open>SET key 1 EX ttl NX\<close>\<close>
  "acquireIngestionIdempotencyLock env tenantId sourceEventId st =
     (let key = ingestionIdempotencyKey tenantId sourceEventId
      in if \<not> ie_redis_set_up env then (Inl Upstream_redis, st)
         else if lock_live (ie_now env) key st then (Inr False, st)
         else (Inr True, st\<lparr>is_locks := (is_locks st)(key \<mapsto> ie_now env + ie_ttlSeconds env * 1000)\<rparr>))"

definition releaseIngestionIdempotencyLock :: "ingestion_env \<Rightarrow> string \<Rightarrow> string \<Rightarrow> ingestion_state \<Rightarrow> ingestion_state" where
  "releaseIngestionIdempotencyLock env tenantId sourceEventId st =
     (if ie_redis_del_up env
      then st\<lparr>is_locks := (is_locks st)(ingestionIdempotencyKey tenantId sourceEventId := None)\<rparr>
      else st)"

definition to_payload :: "ingestion_env \<Rightarrow> string \<Rightarrow> activity_event \<Rightarrow> agent_state_changed" where
  "to_payload env tenantId event =
     \<lparr>asc_tenantId = tenantId, asc_employeeId = ae_employeeId event, asc_sourceEventId = ae_sourceEventId event,
      asc_currentActivity = ae_currentActivity event, asc_activityStartedAt = ae_activityStartedAt event,
      asc_siteId = ae_siteId event, asc_queueId = ae_queueId event, asc_receivedAt = ie_now env\<rparr>"

definition publish_event ::
  "ingestion_env \<Rightarrow> string \<Rightarrow> activity_event \<Rightarrow> ingestion_state \<Rightarrow> (ingestion_error + unit) \<times> ingestion_state" where
  "publish_event env tenantId event st =
     (let msg = (agentStateChangedSubject (ae_employeeId event), to_payload env tenantId event);
          stored = st\<lparr>is_stream := is_stream st @ [msg]\<rparr>
      in case ie_nats env of
           Stored \<Rightarrow> (Inr (), stored)
         | Stored_ack_lost \<Rightarrow> (Inl Upstream_nats, stored)
         | Not_stored \<Rightarrow> (Inl Upstream_nats, st))"

definition ingest ::
  "ingestion_env \<Rightarrow> string \<Rightarrow> activity_event \<Rightarrow> ingestion_state \<Rightarrow> (ingestion_error + ingestion_outcome) \<times> ingestion_state" where
  "ingest env tenantId event st =
     (case acquireIngestionIdempotencyLock env tenantId (ae_sourceEventId event) st of
        (Inl e, st1) \<Rightarrow> (Inl e, st1)
      | (Inr False, st1) \<Rightarrow> (Inr Duplicate, st1)
      | (Inr True, st1) \<Rightarrow>
          (case publish_event env tenantId event st1 of
             (Inl e, st2) \<Rightarrow> (Inl e, releaseIngestionIdempotencyLock env tenantId (ae_sourceEventId event) st2)
           | (Inr _, st2) \<Rightarrow> (Inr Accepted, st2)))"

section \<open>The endpoint and the forwarder\<close>

record http_request =
  rq_tenantId :: string
  rq_signatures :: "string list"
  rq_body :: string

definition status_of_error :: "ingestion_error \<Rightarrow> nat" where
  \<comment> \<open>\<open>STATUS_BY_CODE\<close>\<close>
  "status_of_error e =
     (case e of Invalid_signature \<Rightarrow> 401 | Credential_not_found \<Rightarrow> 404 | Vault_unavailable \<Rightarrow> 503
      | Upstream_redis \<Rightarrow> 503 | Upstream_nats \<Rightarrow> 503)"

definition activity_events_endpoint ::
  "(string \<Rightarrow> string \<Rightarrow> string) \<Rightarrow> (string \<Rightarrow> string \<Rightarrow> activity_event option) \<Rightarrow> ingestion_env \<Rightarrow> http_request \<Rightarrow>
   ingestion_state \<Rightarrow> nat \<times> ingestion_state" where
  \<comment> \<open>guard, then the pipes that parse and validate tenant and body, then the handler\<close>
  "activity_events_endpoint hmac decode env rq st =
     (case hmac_guard hmac env (rq_tenantId rq) (rq_signatures rq) (rq_body rq) st of
        Inl e \<Rightarrow> (status_of_error e, st)
      | Inr _ \<Rightarrow>
          (case decode (rq_tenantId rq) (rq_body rq) of
             None \<Rightarrow> (400, st)
           | Some event \<Rightarrow>
               (case ingest env (rq_tenantId rq) event st of
                  (Inl e, st') \<Rightarrow> (status_of_error e, st')
                | (Inr Accepted, st') \<Rightarrow> (202, st')
                | (Inr Duplicate, st') \<Rightarrow> (200, st'))))"

definition sign_request ::
  "(string \<Rightarrow> string \<Rightarrow> string) \<Rightarrow> (activity_event \<Rightarrow> string) \<Rightarrow> nat \<Rightarrow> string \<Rightarrow> string \<Rightarrow> activity_event \<Rightarrow> http_request" where
  "sign_request hmac stringify now tenantId secret event =
     (let body = stringify event; signature = hmac secret (dec_str now @ ''.'' @ body)
      in \<lparr>rq_tenantId = tenantId, rq_signatures = [''t='' @ dec_str now @ '',v1='' @ signature], rq_body = body\<rparr>)"

definition forward_outcome :: "nat option \<Rightarrow> nat option + ingestion_outcome" where
  \<comment> \<open>the response status, \<open>None\<close> when \<open>fetch\<close> threw; \<open>Inl\<close> is the status of the \<open>ActivityEventForwardError\<close>\<close>
  "forward_outcome status =
     (case status of
        None \<Rightarrow> Inl None
      | Some s \<Rightarrow> if s = 202 then Inr Accepted else if s = 200 then Inr Duplicate else Inl (Some s))"

section \<open>Every event is published once\<close>

type_synonym ingestion_call = "ingestion_env \<times> string \<times> activity_event"

fun ingest_all :: "ingestion_call list \<Rightarrow> ingestion_state \<Rightarrow> (ingestion_error + ingestion_outcome) list \<times> ingestion_state" where
  \<comment> \<open>the calls of \<open>ingest\<close> in the order in which they take their locks\<close>
  "ingest_all [] st = ([], st)"
| "ingest_all ((env, tenantId, event) # calls) st =
     (let (r, st1) = ingest env tenantId event st; (rs, st2) = ingest_all calls st1 in (r # rs, st2))"

definition msg_key :: "string \<times> agent_state_changed \<Rightarrow> string" where
  "msg_key m = ingestionIdempotencyKey (asc_tenantId (snd m)) (asc_sourceEventId (snd m))"

definition call_key :: "ingestion_call \<Rightarrow> string" where
  "call_key c = ingestionIdempotencyKey (fst (snd c)) (ae_sourceEventId (snd (snd c)))"

definition call_in_window :: "nat \<Rightarrow> nat \<Rightarrow> ingestion_call \<Rightarrow> bool" where
  \<comment> \<open>the call falls into a window no longer than the life of a lock\<close>
  "call_in_window t0 t1 c \<longleftrightarrow> t0 \<le> ie_now (fst c) \<and> ie_now (fst c) < t1 \<and> t1 \<le> t0 + ie_ttlSeconds (fst c) * 1000"

definition window_inv :: "nat \<Rightarrow> nat \<Rightarrow> (string \<times> agent_state_changed) list \<Rightarrow> (string \<times> agent_state_changed) list \<Rightarrow> ingestion_state \<Rightarrow> bool" where
  "window_inv t0 t1 base new st \<longleftrightarrow>
     is_stream st = base @ new \<and> distinct (map msg_key new) \<and>
     (\<forall>k\<in>msg_key ` set new. \<exists>expiry\<ge>t1. is_locks st k = Some expiry) \<and>
     (\<forall>k expiry. is_locks st k = Some expiry \<longrightarrow> k \<notin> msg_key ` set new \<longrightarrow> expiry \<le> t0)"

lemma ingest_window_step:
  assumes inv: "window_inv t0 t1 base new st" and win: "call_in_window t0 t1 (env, tenantId, event)"
    and up: "ie_redis_del_up env" "ie_nats env \<noteq> Stored_ack_lost"
    and run: "ingest env tenantId event st = (r, st')"
  defines "k \<equiv> call_key (env, tenantId, event)"
  shows "r = Inr Accepted \<and> (\<exists>m. msg_key m = k \<and> window_inv t0 t1 base (new @ [m]) st') \<or>
         r = Inr Duplicate \<and> k \<in> msg_key ` set new \<and> window_inv t0 t1 base new st' \<or>
         (\<exists>e. r = Inl e) \<and> window_inv t0 t1 base new st'"
proof -
  let ?key = "ingestionIdempotencyKey tenantId (ae_sourceEventId event)"
  let ?m = "(agentStateChangedSubject (ae_employeeId event), to_payload env tenantId event)"
  have k: "k = ?key" by (simp add: k_def call_key_def)
  have mk: "msg_key ?m = ?key" by (simp add: msg_key_def to_payload_def)
  have win': "t0 \<le> ie_now env" "ie_now env < t1" "t1 \<le> ie_now env + ie_ttlSeconds env * 1000"
    using win by (simp_all add: call_in_window_def)
  have live: "lock_live (ie_now env) ?key st \<longleftrightarrow> ?key \<in> msg_key ` set new"
  proof
    show "?key \<in> msg_key ` set new" if "lock_live (ie_now env) ?key st"
      using that inv win'(1) by (force simp: window_inv_def lock_live_def split: option.splits)
    show "lock_live (ie_now env) ?key st" if "?key \<in> msg_key ` set new"
      using that inv win'(2) by (force simp: window_inv_def lock_live_def)
  qed
  show ?thesis
  proof (cases "ie_redis_set_up env \<and> \<not> lock_live (ie_now env) ?key st")
    case False
    then consider "\<not> ie_redis_set_up env" | "ie_redis_set_up env" "lock_live (ie_now env) ?key st" by blast
    then show ?thesis
    proof cases
      case 1
      then have "(\<exists>e. r = Inl e) \<and> st' = st"
        using run by (auto simp: ingest_def acquireIngestionIdempotencyLock_def Let_def)
      with inv show ?thesis by blast
    next
      case 2
      then have "r = Inr Duplicate" "st' = st"
        using run by (simp_all add: ingest_def acquireIngestionIdempotencyLock_def Let_def)
      with 2 inv live show ?thesis by (simp add: k)
    qed
  next
    case True
    with live have fresh: "?key \<notin> msg_key ` set new" by simp
    show ?thesis
    proof (cases "ie_nats env")
      case Stored
      have "st' = st\<lparr>is_locks := (is_locks st)(?key \<mapsto> ie_now env + ie_ttlSeconds env * 1000), is_stream := is_stream st @ [?m]\<rparr>"
        "r = Inr Accepted"
        using True Stored run by (simp_all add: ingest_def acquireIngestionIdempotencyLock_def publish_event_def Let_def)
      moreover have "window_inv t0 t1 base (new @ [?m]) st'"
        using inv fresh win' unfolding window_inv_def calculation(1) by (auto simp: mk split: option.splits if_splits)
      ultimately show ?thesis using mk k by blast
    next
      case Not_stored
      have "st' = st\<lparr>is_locks := (is_locks st)(?key := None)\<rparr>" "\<exists>e. r = Inl e"
        using True Not_stored run up
        by (auto simp: ingest_def acquireIngestionIdempotencyLock_def publish_event_def Let_def releaseIngestionIdempotencyLock_def)
      moreover have "window_inv t0 t1 base new st'"
        using inv fresh unfolding window_inv_def calculation(1) by (auto, metis imageI)
      ultimately show ?thesis by blast
    qed (use up in simp)
  qed
qed

lemma ingest_window_run:
  assumes "window_inv t0 t1 base new st" "\<And>c. c \<in> set calls \<Longrightarrow> call_in_window t0 t1 c"
    "\<And>c. c \<in> set calls \<Longrightarrow> ie_redis_del_up (fst c) \<and> ie_nats (fst c) \<noteq> Stored_ack_lost"
    "ingest_all calls st = (rs, st')"
  shows "\<exists>new'. window_inv t0 t1 base (new @ new') st' \<and> length rs = length calls \<and>
    length new' = length (filter ((=) (Inr Accepted)) rs) \<and>
    (\<forall>i<length calls. (\<exists>ok. rs ! i = Inr ok) \<longrightarrow> call_key (calls ! i) \<in> msg_key ` set (new @ new'))"
  using assms
proof (induction calls arbitrary: new st rs)
  case Nil
  then show ?case by (auto intro: exI[of _ "[]"])
next
  case (Cons c calls)
  obtain env tenantId event where c: "c = (env, tenantId, event)" by (cases c)
  obtain r st1 where one: "ingest env tenantId event st = (r, st1)" by force
  obtain rs' where rest: "ingest_all calls st1 = (rs', st')" "rs = r # rs'"
    using Cons.prems(4) one c by (auto simp: Let_def split: prod.splits)
  have up: "ie_redis_del_up env" "ie_nats env \<noteq> Stored_ack_lost" "call_in_window t0 t1 (env, tenantId, event)"
    using Cons.prems(2,3)[of c] c by auto
  note step = ingest_window_step[OF Cons.prems(1) up(3,1,2) one]
  from step consider
      (acc) m where "r = Inr Accepted" "msg_key m = call_key c" "window_inv t0 t1 base (new @ [m]) st1"
    | (dup) "r = Inr Duplicate" "call_key c \<in> msg_key ` set new" "window_inv t0 t1 base new st1"
    | (err) e where "r = Inl e" "window_inv t0 t1 base new st1"
    unfolding c by blast
  then show ?case
  proof cases
    case acc
    from Cons.IH[OF acc(3) _ _ rest(1)] Cons.prems(2,3) obtain new' where
      n: "window_inv t0 t1 base ((new @ [m]) @ new') st'" "length rs' = length calls"
        "length new' = length (filter ((=) (Inr Accepted)) rs')"
        "\<forall>i<length calls. (\<exists>ok. rs' ! i = Inr ok) \<longrightarrow> call_key (calls ! i) \<in> msg_key ` set ((new @ [m]) @ new')"
      by auto
    have "call_key c \<in> msg_key ` set (new @ m # new')" using acc(2) by (metis imageI in_set_conv_decomp)
    with n acc(1) rest(2) show ?thesis by (intro exI[of _ "m # new'"]) (auto simp: nth_Cons split: nat.splits)
  next
    case dup
    from Cons.IH[OF dup(3) _ _ rest(1)] Cons.prems(2,3) obtain new' where
      n: "window_inv t0 t1 base (new @ new') st'" "length rs' = length calls"
        "length new' = length (filter ((=) (Inr Accepted)) rs')"
        "\<forall>i<length calls. (\<exists>ok. rs' ! i = Inr ok) \<longrightarrow> call_key (calls ! i) \<in> msg_key ` set (new @ new')"
      by auto
    with dup(1,2) rest(2) show ?thesis by (intro exI[of _ new']) (auto simp: nth_Cons split: nat.splits)
  next
    case err
    from Cons.IH[OF err(2) _ _ rest(1)] Cons.prems(2,3) obtain new' where
      n: "window_inv t0 t1 base (new @ new') st'" "length rs' = length calls"
        "length new' = length (filter ((=) (Inr Accepted)) rs')"
        "\<forall>i<length calls. (\<exists>ok. rs' ! i = Inr ok) \<longrightarrow> call_key (calls ! i) \<in> msg_key ` set (new @ new')"
      by auto
    with err(1) rest(2) show ?thesis by (intro exI[of _ new']) (auto simp: nth_Cons split: nat.splits)
  qed
qed


definition demo_activity_event :: activity_event where
  "demo_activity_event = \<lparr>ae_sourceEventId = ''e1'', ae_employeeId = ''emp'', ae_currentActivity = ''ready'',
     ae_activityStartedAt = ''2026-01-01T00:00:00.000Z'', ae_siteId = None, ae_queueId = None\<rparr>"

definition demo_ingestion_env :: "nat \<Rightarrow> nats_result \<Rightarrow> ingestion_env" where
  "demo_ingestion_env now r = \<lparr>ie_now = now, ie_ttlSeconds = 86400, ie_toleranceSeconds = 300, ie_vault_up = True,
     ie_redis_set_up = True, ie_redis_del_up = True, ie_nats = r\<rparr>"

definition demo_ingestion_state :: ingestion_state where
  "demo_ingestion_state = \<lparr>is_credentials = [], is_vault = Map.empty, is_locks = Map.empty, is_stream = []\<rparr>"

lemmas ingestion_eval =
  ingest_def acquireIngestionIdempotencyLock_def publish_event_def releaseIngestionIdempotencyLock_def Let_def
  lock_live_def demo_activity_event_def demo_ingestion_env_def demo_ingestion_state_def to_payload_def


text \<open>
  The proviso on the release is needed: when NATS refuses a message and the release of the lock is lost
  as well, the retry is answered \<open>duplicate\<close>, the collector takes that for success, and the event is
  never published.
\<close>

theorem lost_release_swallows_event:
  "fst (ingest_all [((demo_ingestion_env 1000 Not_stored)\<lparr>ie_redis_del_up := False\<rparr>, ''t'', demo_activity_event),
                    (demo_ingestion_env 2000 Stored, ''t'', demo_activity_event)] demo_ingestion_state) = [Inl Upstream_nats, Inr Duplicate] \<and>
   is_stream (snd (ingest_all [((demo_ingestion_env 1000 Not_stored)\<lparr>ie_redis_del_up := False\<rparr>, ''t'', demo_activity_event),
                    (demo_ingestion_env 2000 Stored, ''t'', demo_activity_event)] demo_ingestion_state)) = []"
  by (simp add: ingestion_eval)

section \<open>A signed request is recognised\<close>

lemma dec_str_digits: "c \<in> set (dec_str n) \<Longrightarrow> is_dec_digit c"
proof (induction n rule: dec_str.induct)
  case (1 n)
  then show ?case
    by (cases "n < 10") (auto simp: dec_str.simps[of n] is_dec_digit_def)
qed

lemma dec_str_neq_Nil [simp]: "dec_str n \<noteq> []"
  by (simp add: dec_str.simps)

lemma dec_val_dec_str: "dec_val (dec_str n) = n"
proof (induction n rule: dec_str.induct)
  case (1 n)
  then show ?case by (cases "n < 10") (simp_all add: dec_str.simps[of n] dec_val_def)
qed

lemma parse_signature_sign:
  assumes "sig \<noteq> []" "list_all is_hex_digit sig"
  shows "parse_signature (''t='' @ dec_str n @ '',v1='' @ sig) = Some (dec_str n, sig)"
proof -
  have nd: "\<not> is_dec_digit (CHR '','')" by (simp add: is_dec_digit_def)
  have "takeWhile is_dec_digit (dec_str n @ '',v1='' @ sig) = dec_str n"
    "dropWhile is_dec_digit (dec_str n @ '',v1='' @ sig) = '',v1='' @ sig"
    using nd by (simp_all add: takeWhile_append2 dropWhile_append2 dec_str_digits)
  with assms show ?thesis by (simp add: parse_signature_def Let_def)
qed

lemma sign_request_fields:
  "rq_body (sign_request hmac stringify now tenantId secret event) = stringify event"
  "rq_tenantId (sign_request hmac stringify now tenantId secret event) = tenantId"
  by (simp_all add: sign_request_def Let_def)

lemma guard_sign_request:
  assumes hex: "\<And>k m. hmac k m \<noteq> [] \<and> list_all is_hex_digit (hmac k m)"
    and fresh: "nat \<bar>int (ie_now env) - int sent\<bar> \<le> ie_toleranceSeconds env * 1000"
  shows "hmac_guard hmac env tenantId (rq_signatures (sign_request hmac stringify sent tenantId secret event)) (stringify event) st = Inr () \<longleftrightarrow>
    (\<exists>s\<in>set (listActiveSecrets env tenantId st).
       hmac s (dec_str sent @ ''.'' @ stringify event) = hmac secret (dec_str sent @ ''.'' @ stringify event))"
  using fresh parse_signature_sign[of "hmac secret (dec_str sent @ ''.'' @ stringify event)" sent] hex
  by (simp add: sign_request_def hmac_guard_def Let_def dec_val_dec_str list_ex_iff)

lemma set_listActiveSecrets:
  "ie_vault_up env \<Longrightarrow> set (listActiveSecrets env tenantId st) =
     {s. \<exists>c\<in>set (is_credentials st). ic_tenantId c = tenantId \<and> ic_status c = Credential_active \<and> is_vault st (ic_secretReference c) = Some s}"
  by (force simp: listActiveSecrets_def map_filter_def image_iff)

text \<open>
  The life of a collector's credential. The secret that \<open>create\<close> returns authenticates at
  once: the guard accepts every request the forwarder signs with it that arrives within the tolerated
  clock difference. After \<open>revoke\<close> the guard refuses it, unless another active credential of the tenant
  happens to give the same HMAC.
\<close>

theorem credential_lifecycle:
  fixes sent :: nat
  assumes hex: "\<And>k m. hmac k m \<noteq> [] \<and> list_all is_hex_digit (hmac k m)"
    and up: "ie_vault_up env" and fresh_id: "credId \<notin> ic_id ` set (is_credentials st)"
    and fresh: "nat \<bar>int (ie_now env) - int sent\<bar> \<le> ie_toleranceSeconds env * 1000"
    and created: "create_credential env credId secret tenantId label st = (Inr (cred, secret), st1)"
    and revoked: "revoke_credential env tenantId credId st1 = (r, st2)"
    and other: "\<And>s. s \<in> set (listActiveSecrets env tenantId st2) \<Longrightarrow>
       hmac s (dec_str sent @ ''.'' @ stringify event) \<noteq> hmac secret (dec_str sent @ ''.'' @ stringify event)"
  shows "hmac_guard hmac env tenantId (rq_signatures (sign_request hmac stringify sent tenantId secret event)) (stringify event) st1 = Inr () \<and>
    hmac_guard hmac env tenantId (rq_signatures (sign_request hmac stringify sent tenantId secret event)) (stringify event) st2 \<noteq> Inr () \<and>
    set (listActiveSecrets env tenantId st2) \<subseteq> set (listActiveSecrets env tenantId st1)"
proof -
  have st1: "is_credentials st1 = is_credentials st @ [cred]" "is_vault st1 = (is_vault st)(ic_secretReference cred \<mapsto> secret)"
    "ic_tenantId cred = tenantId" "ic_id cred = credId" "ic_status cred = Credential_active"
    using created up by (auto simp: create_credential_def Let_def)
  have "secret \<in> set (listActiveSecrets env tenantId st1)" using st1 by (auto simp: set_listActiveSecrets[OF up])
  moreover have "set (listActiveSecrets env tenantId st2) \<subseteq> set (listActiveSecrets env tenantId st1)"
  proof -
    have "find_where (\<lambda>c. ic_tenantId c = tenantId \<and> ic_id c = credId) (is_credentials st1) = Some cred"
    proof -
      have "find_where (\<lambda>c. ic_tenantId c = tenantId \<and> ic_id c = credId) (is_credentials st) = None"
        using fresh_id by (auto simp: find_where_None)
      then show ?thesis by (simp add: st1 find_where_append)
    qed
    then have "is_vault st2 = is_vault st1"
      "is_credentials st2 = update_where (\<lambda>r. ic_id r = credId)
         (\<lambda>_. cred\<lparr>ic_status := Credential_revoked, ic_revokedAt := Some (ie_now env)\<rparr>) (is_credentials st1)"
      using revoked st1(4,5) by (auto simp: revoke_credential_def Let_def)
    then show ?thesis using st1(1) by (auto simp: set_listActiveSecrets[OF up] set_update_where split: if_splits)
  qed
  ultimately show ?thesis
    using guard_sign_request[where hmac = hmac, OF hex fresh, of tenantId stringify secret event] other by blast
qed

definition demo_hmac :: "string \<Rightarrow> string \<Rightarrow> string" where
  "demo_hmac k m = (if k = ''s1'' then ''1a'' else ''2b'')"

theorem credential_lifecycle_witness:
  defines "env \<equiv> demo_ingestion_env 7000 Stored"
    and "created \<equiv> create_credential (demo_ingestion_env 7000 Stored) ''c1'' ''s1'' ''t'' None demo_ingestion_state"
  shows "hmac_guard demo_hmac env ''t'' (rq_signatures (sign_request demo_hmac ae_sourceEventId 5000 ''t'' ''s1'' demo_activity_event)) ''e1'' (snd created) = Inr () \<and>
    hmac_guard demo_hmac env ''t'' (rq_signatures (sign_request demo_hmac ae_sourceEventId 5000 ''t'' ''s1'' demo_activity_event)) ''e1''
      (snd (revoke_credential env ''t'' ''c1'' (snd created))) \<noteq> Inr ()"
proof -
  obtain cred where c: "created = (Inr (cred, ''s1''), snd created)"
    by (simp add: created_def create_credential_def demo_ingestion_env_def Let_def)
  have none: "listActiveSecrets env ''t'' (snd (revoke_credential env ''t'' ''c1'' (snd created))) = []"
    by (simp add: listActiveSecrets_def env_def created_def create_credential_def revoke_credential_def demo_ingestion_env_def
        demo_ingestion_state_def Let_def map_filter_def)
  have e1: "ae_sourceEventId demo_activity_event = ''e1''" by (simp add: demo_activity_event_def)
  have "hmac_guard demo_hmac env ''t'' (rq_signatures (sign_request demo_hmac ae_sourceEventId 5000 ''t'' ''s1'' demo_activity_event)) (ae_sourceEventId demo_activity_event) (snd created) = Inr () \<and>
    hmac_guard demo_hmac env ''t'' (rq_signatures (sign_request demo_hmac ae_sourceEventId 5000 ''t'' ''s1'' demo_activity_event)) (ae_sourceEventId demo_activity_event)
      (snd (revoke_credential env ''t'' ''c1'' (snd created))) \<noteq> Inr () \<and>
    set (listActiveSecrets env ''t'' (snd (revoke_credential env ''t'' ''c1'' (snd created)))) \<subseteq> set (listActiveSecrets env ''t'' (snd created))"
  proof (rule credential_lifecycle[where st = demo_ingestion_state])
    show "demo_hmac k m \<noteq> [] \<and> list_all is_hex_digit (demo_hmac k m)" for k m
      by (simp add: demo_hmac_def is_hex_digit_def is_dec_digit_def)
    show "create_credential env ''c1'' ''s1'' ''t'' None demo_ingestion_state = (Inr (cred, ''s1''), snd created)"
      using c by (simp add: created_def env_def)
    show "revoke_credential env ''t'' ''c1'' (snd created) =
        (fst (revoke_credential env ''t'' ''c1'' (snd created)), snd (revoke_credential env ''t'' ''c1'' (snd created)))" by simp
  qed (use none in \<open>simp_all add: env_def demo_ingestion_env_def demo_ingestion_state_def\<close>)
  then show ?thesis by (simp add: e1)
qed

end
