(* ===== verification/Acd_Collector.thy ===== *)
theory Acd_Collector
  imports Csta_Frame Backpressure_Queue Activity_Ingestion
begin

text \<open>
  The Avaya collector (\<open>acd-onprem-collector/src/avaya-aura-collector.ts\<close>, \<open>csta-event-mapper.ts\<close>): what it
  does with the bytes of the AES connection during the bootstrap and afterwards, how it turns a CSTA
  event into an activity event and queues it, and how it reads the answer of the ingestion endpoint.
  The XML parser is a parameter; it returns the tags of the document with the two fields the mapper
  reads, or \<open>None\<close> when it throws.
\<close>

section \<open>From CSTA events to activity events\<close>

record agent_event_body =
  aeb_deviceIdentifier :: "string option" \<comment> \<open>\<open>agentDevice?.deviceIdentifier\<close>\<close>
  aeb_agentID :: "string option"

type_synonym xml_parser = "js_string \<Rightarrow> (string \<times> agent_event_body) list option"

definition AGENT_EVENT_ACTIVITY :: "string \<Rightarrow> string option" where
  "AGENT_EVENT_ACTIVITY = map_of
     [(''AgentReadyEvent'', ''ready''), (''AgentNotReadyEvent'', ''notReady''), (''AgentBusyEvent'', ''busy''),
      (''AgentWorkingAfterCallEvent'', ''workingAfterCall''), (''AgentLoggedOnEvent'', ''loggedOn''),
      (''AgentLoggedOffEvent'', ''loggedOff'')]"

definition source_event_id :: "string \<Rightarrow> string \<Rightarrow> string \<Rightarrow> nat \<Rightarrow> string" where
  "source_event_id tenantId employeeId activity sequence =
     tenantId @ '':'' @ employeeId @ '':'' @ activity @ '':'' @ dec_str sequence"

definition mapCstaEventXmlToActivityEvent ::
  "xml_parser \<Rightarrow> string \<Rightarrow> js_string \<Rightarrow> nat \<Rightarrow> string \<Rightarrow> activity_event option" where
  "mapCstaEventXmlToActivityEvent parse nowIso xml sequence tenantId =
     (case parse xml of
        None \<Rightarrow> None
      | Some [] \<Rightarrow> None
      | Some ((rootTag, body) # _) \<Rightarrow>
          (case AGENT_EVENT_ACTIVITY rootTag of
             None \<Rightarrow> None
           | Some activity \<Rightarrow>
               if \<not> truthy_str (aeb_deviceIdentifier body) then None
               else let agentDeviceId = the (aeb_deviceIdentifier body);
                        employeeId = the_default (aeb_agentID body) agentDeviceId
                    in Some \<lparr>ae_sourceEventId = source_event_id tenantId employeeId activity sequence,
                             ae_employeeId = employeeId, ae_currentActivity = activity,
                             ae_activityStartedAt = nowIso, ae_siteId = None, ae_queueId = None\<rparr>))"

section \<open>The connection\<close>

record collector =
  co_buffer :: "byte list"
  co_eventSequence :: nat
  co_queue :: "activity_event bq"

record collector_config =
  cc_tenantId :: string
  cc_queue :: bq_options

definition FORWARD_QUEUE_CAPACITY :: nat where
  "FORWARD_QUEUE_CAPACITY = 1000"

definition collector_queue_options :: bq_options where
  "collector_queue_options = \<lparr>bq_capacity = FORWARD_QUEUE_CAPACITY, bq_backoffMs = defaultBackoffMs,
     bq_maxDegradedRetries = DEFAULT_MAX_DEGRADED_RETRIES\<rparr>"

definition collector_start :: "byte list \<Rightarrow> collector" where
  \<comment> \<open>a fresh process, with what the bootstrap left in the reader\<close>
  "collector_start rest = \<lparr>co_buffer = rest, co_eventSequence = 0, co_queue = bq_new\<rparr>"

definition handle_frame :: "xml_parser \<Rightarrow> string \<Rightarrow> collector_config \<Rightarrow> csta_frame \<Rightarrow> collector \<Rightarrow> collector" where
  "handle_frame parse nowIso cfg frame c =
     (if fst frame = CSTA_EVENT_INVOKE_ID
      then let seq = co_eventSequence c + 1; c1 = c\<lparr>co_eventSequence := seq\<rparr>
           in (case mapCstaEventXmlToActivityEvent parse nowIso (snd frame) seq (cc_tenantId cfg) of
                 None \<Rightarrow> c1
               | Some event \<Rightarrow> c1\<lparr>co_queue := snd (enqueue (cc_queue cfg) event (co_queue c1))\<rparr>)
      else c)"

definition on_data :: "xml_parser \<Rightarrow> string \<Rightarrow> collector_config \<Rightarrow> byte list \<Rightarrow> collector \<Rightarrow> collector option" where
  \<comment> \<open>the data handler of \<open>attachHandlers\<close>; \<open>None\<close> when the reader does not return\<close>
  "on_data parse nowIso cfg chunk c =
     (case push (co_buffer c) chunk of
        None \<Rightarrow> None
      | Some (frames, rest) \<Rightarrow> Some (fold (handle_frame parse nowIso cfg) frames (c\<lparr>co_buffer := rest\<rparr>)))"

definition reconnect_delay :: "nat \<Rightarrow> nat" where
  "reconnect_delay attempt = min 30000 (1000 * 2 ^ attempt)"

section \<open>Bootstrap\<close>

datatype bootstrap = Awaiting "js_string list" | Booted | Boot_failed

definition CSTAErrorCode :: js_string where
  "CSTAErrorCode = [67, 83, 84, 65, 69, 114, 114, 111, 114, 67, 111, 100, 101]"

fun send_request_frames :: "js_string list \<Rightarrow> csta_frame list \<Rightarrow> bootstrap" where
  \<comment> \<open>\<open>onData\<close> of \<open>sendRequest\<close> on the frames of one chunk, with the invoke identifiers of the requests still
     to be answered; a match ends the loop and the rest of the chunk's frames is not looked at\<close>
  "send_request_frames [] frames = Booted"
| "send_request_frames (invokeId # later) [] = Awaiting (invokeId # later)"
| "send_request_frames (invokeId # later) (frame # frames) =
     (if fst frame \<noteq> invokeId then send_request_frames (invokeId # later) frames
      else if sublist CSTAErrorCode (snd frame) then Boot_failed
      else if later = [] then Booted else Awaiting later)"

fun boot_chunk :: "byte list \<Rightarrow> byte list \<Rightarrow> bootstrap \<Rightarrow> (bootstrap \<times> byte list) option" where
  "boot_chunk buffer chunk (Awaiting ids) =
     (case push buffer chunk of None \<Rightarrow> None | Some (frames, rest) \<Rightarrow> Some (send_request_frames ids frames, rest))"
| "boot_chunk buffer chunk b = Some (b, buffer)"

section \<open>Forwarding\<close>

datatype network = Delivered | Request_lost | Response_lost

definition classify_forward :: "nat option + ingestion_outcome \<Rightarrow> process_outcome" where
  \<comment> \<open>the \<open>process\<close> callback: a permanent failure is logged and swallowed\<close>
  "classify_forward r =
     (case r of
        Inr _ \<Rightarrow> Process_ok
      | Inl None \<Rightarrow> Upstream_degraded
      | Inl (Some s) \<Rightarrow> if s \<ge> 500 then Upstream_degraded else Process_ok)"

definition process_event ::
  "(string \<Rightarrow> string \<Rightarrow> string) \<Rightarrow> (activity_event \<Rightarrow> string) \<Rightarrow> (string \<Rightarrow> string \<Rightarrow> activity_event option) \<Rightarrow>
   ingestion_env \<Rightarrow> nat \<Rightarrow> network \<Rightarrow> string \<Rightarrow> string \<Rightarrow> activity_event \<Rightarrow> ingestion_state \<Rightarrow> process_outcome \<times> ingestion_state" where
  \<comment> \<open>one attempt to forward an event, across the network\<close>
  "process_event hmac stringify decode env sent net tenantId secret event st =
     (let (status, st') = activity_events_endpoint hmac decode env (sign_request hmac stringify sent tenantId secret event) st
      in case net of
           Request_lost \<Rightarrow> (classify_forward (forward_outcome None), st)
         | Response_lost \<Rightarrow> (classify_forward (forward_outcome None), st')
         | Delivered \<Rightarrow> (classify_forward (forward_outcome (Some status)), st'))"

section \<open>The collector sees every event once\<close>

fun collect :: "xml_parser \<Rightarrow> collector_config \<Rightarrow> (string \<times> byte list) list \<Rightarrow> collector \<Rightarrow> collector option" where
  \<comment> \<open>the data events of a connection, each with the wall clock of its handler\<close>
  "collect parse cfg [] c = Some c"
| "collect parse cfg ((nowIso, chunk) # chunks) c =
     (case on_data parse nowIso cfg chunk c of None \<Rightarrow> None | Some c' \<Rightarrow> collect parse cfg chunks c')"

definition offered :: "'a bq_event list \<Rightarrow> 'a list" where
  \<comment> \<open>the items the queue was offered, whether it took them or dropped them as full\<close>
  "offered es = List.map_filter (\<lambda>e. case e of Enqueue_returned x _ \<Rightarrow> Some x | _ \<Rightarrow> None) es"

definition untimed :: "activity_event \<Rightarrow> activity_event" where
  "untimed e = e\<lparr>ae_activityStartedAt := []\<rparr>"

fun csta_events_of :: "xml_parser \<Rightarrow> string \<Rightarrow> nat \<Rightarrow> csta_frame list \<Rightarrow> activity_event list" where
  \<comment> \<open>reference: the activity events of a sequence of frames, numbered by their event frames\<close>
  "csta_events_of parse tenantId n [] = []"
| "csta_events_of parse tenantId n (f # fs) =
     (if fst f = CSTA_EVENT_INVOKE_ID
      then (case mapCstaEventXmlToActivityEvent parse [] (snd f) (n + 1) tenantId of None \<Rightarrow> [] | Some e \<Rightarrow> [e]) @
           csta_events_of parse tenantId (n + 1) fs
      else csta_events_of parse tenantId n fs)"

definition event_count :: "csta_frame list \<Rightarrow> nat" where
  "event_count fs = length (filter (\<lambda>f. fst f = CSTA_EVENT_INVOKE_ID) fs)"

lemma offered_append: "offered (es @ es') = offered es @ offered es'"
  by (simp add: offered_def map_filter_def)

lemma offered_enqueue: "offered (bq_log (snd (enqueue opts x q))) = offered (bq_log q) @ [x]"
  by (simp add: enqueue_def bq_emit_def kick_def loop_head_def offered_append) (simp add: offered_def map_filter_def)

lemma map_untimed:
  "map_option untimed (mapCstaEventXmlToActivityEvent parse nowIso xml n tenantId) =
   mapCstaEventXmlToActivityEvent parse [] xml n tenantId"
  by (auto simp: mapCstaEventXmlToActivityEvent_def untimed_def Let_def split: option.splits list.splits)

lemma handle_frame_events:
  "map untimed (offered (bq_log (co_queue (handle_frame parse nowIso cfg f c)))) =
     map untimed (offered (bq_log (co_queue c))) @ csta_events_of parse (cc_tenantId cfg) (co_eventSequence c) [f]"
  "co_eventSequence (handle_frame parse nowIso cfg f c) = co_eventSequence c + event_count [f]"
  "co_buffer (handle_frame parse nowIso cfg f c) = co_buffer c"
  using map_untimed[of parse nowIso "snd f" "co_eventSequence c + 1" "cc_tenantId cfg", symmetric]
  by (auto simp: handle_frame_def Let_def offered_enqueue event_count_def split: option.splits)

lemma events_of_append:
  "csta_events_of parse t n (fs @ gs) = csta_events_of parse t n fs @ csta_events_of parse t (n + event_count fs) gs"
  by (induction fs arbitrary: n) (simp_all add: event_count_def)

lemma handle_frames_events:
  "map untimed (offered (bq_log (co_queue (fold (handle_frame parse nowIso cfg) fs c)))) =
     map untimed (offered (bq_log (co_queue c))) @ csta_events_of parse (cc_tenantId cfg) (co_eventSequence c) fs \<and>
   co_eventSequence (fold (handle_frame parse nowIso cfg) fs c) = co_eventSequence c + event_count fs \<and>
   co_buffer (fold (handle_frame parse nowIso cfg) fs c) = co_buffer c"
proof (induction fs arbitrary: c)
  case (Cons f fs)
  show ?case
    using Cons[of "handle_frame parse nowIso cfg f c"] events_of_append[of parse "cc_tenantId cfg" "co_eventSequence c" "[f]" fs]
    by (simp add: handle_frame_events event_count_def)
qed (simp add: event_count_def)

lemma collect_events:
  assumes "push_all (co_buffer c) (map snd chunks) = Some (fs, rest)"
  shows "\<exists>c'. collect parse cfg chunks c = Some c' \<and> co_buffer c' = rest \<and>
    map untimed (offered (bq_log (co_queue c'))) =
      map untimed (offered (bq_log (co_queue c))) @ csta_events_of parse (cc_tenantId cfg) (co_eventSequence c) fs"
  using assms
proof (induction chunks arbitrary: c fs)
  case (Cons ch chunks)
  obtain nowIso chunk where ch: "ch = (nowIso, chunk)" by (cases ch)
  from Cons.prems ch obtain fs1 b fs2 where split: "push (co_buffer c) chunk = Some (fs1, b)"
    "push_all b (map snd chunks) = Some (fs2, rest)" "fs = fs1 @ fs2"
    by (auto split: option.splits)
  let ?c1 = "fold (handle_frame parse nowIso cfg) fs1 (c\<lparr>co_buffer := b\<rparr>)"
  have c1: "co_buffer ?c1 = b" "co_eventSequence ?c1 = co_eventSequence c + event_count fs1"
    "map untimed (offered (bq_log (co_queue ?c1))) =
       map untimed (offered (bq_log (co_queue c))) @ csta_events_of parse (cc_tenantId cfg) (co_eventSequence c) fs1"
    using handle_frames_events[of parse nowIso cfg fs1 "c\<lparr>co_buffer := b\<rparr>"] by simp_all
  obtain c' where "collect parse cfg chunks ?c1 = Some c'" "co_buffer c' = rest"
    "map untimed (offered (bq_log (co_queue c'))) = map untimed (offered (bq_log (co_queue ?c1))) @
       csta_events_of parse (cc_tenantId cfg) (co_eventSequence ?c1) fs2"
    using Cons.IH[of ?c1 fs2] split(2) c1(1) by auto
  then show ?case using ch split(1,3) c1(2,3) by (simp add: on_data_def events_of_append)
qed simp

lemma dec_str_no_colon: "CHR '':'' \<notin> set (dec_str n)"
  using dec_str_digits[of "CHR '':''" n] by (auto simp: is_dec_digit_def)

lemma last_segment:
  assumes "c \<notin> set y" "c \<notin> set y'" "x @ c # y = x' @ c # y'"
  shows "y = y'"
proof -
  have "takeWhile (\<lambda>d. d \<noteq> c) (rev (x @ c # y)) = rev y" "takeWhile (\<lambda>d. d \<noteq> c) (rev (x' @ c # y')) = rev y'"
    using assms(1,2) by (auto simp: takeWhile_append2 takeWhile_tail)
  with assms(3) show ?thesis by (metis rev_is_rev_conv)
qed

lemma source_event_id_inj: "source_event_id t e a n = source_event_id t' e' a' m \<Longrightarrow> n = m"
proof -
  assume eq: "source_event_id t e a n = source_event_id t' e' a' m"
  have "dec_str n = dec_str m"
  proof (rule last_segment[OF dec_str_no_colon dec_str_no_colon])
    show "(t @ '':'' @ e @ '':'' @ a) @ CHR '':'' # dec_str n = (t' @ '':'' @ e' @ '':'' @ a') @ CHR '':'' # dec_str m"
      using eq by (simp add: source_event_id_def)
  qed
  then show "n = m" by (metis dec_val_dec_str)
qed

lemma map_csta_id:
  "mapCstaEventXmlToActivityEvent parse nowIso xml n t = Some e \<Longrightarrow> \<exists>emp a. ae_sourceEventId e = source_event_id t emp a n"
  by (auto simp: mapCstaEventXmlToActivityEvent_def Let_def split: option.splits list.splits if_splits) blast

lemma events_of_ids:
  "\<exists>ns. sorted_wrt (<) ns \<and> (\<forall>m\<in>set ns. n < m) \<and>
     list_all2 (\<lambda>e m. \<exists>emp a. ae_sourceEventId e = source_event_id t emp a m) (csta_events_of parse t n fs) ns"
proof (induction fs arbitrary: n)
  case (Cons f fs)
  show ?case
  proof (cases "fst f = CSTA_EVENT_INVOKE_ID")
    case True
    obtain ns where ns: "sorted_wrt (<) ns" "\<forall>m\<in>set ns. n + 1 < m"
      "list_all2 (\<lambda>e m. \<exists>emp a. ae_sourceEventId e = source_event_id t emp a m) (csta_events_of parse t (n + 1) fs) ns"
      using Cons[of "n + 1"] by blast
    show ?thesis
    proof (cases "mapCstaEventXmlToActivityEvent parse [] (snd f) (n + 1) t")
      case None
      with ns True show ?thesis by (intro exI[of _ ns]) auto
    next
      case (Some e)
      with ns True map_csta_id[OF Some] show ?thesis by (intro exI[of _ "(n + 1) # ns"]) auto
    qed
  next
    case False
    with Cons show ?thesis by simp
  qed
qed (intro exI[of _ "[]"], simp)

lemma events_of_distinct: "distinct (map ae_sourceEventId (csta_events_of parse t n fs))"
proof -
  obtain ns where ns: "sorted_wrt (<) ns"
    "list_all2 (\<lambda>e m. \<exists>emp a. ae_sourceEventId e = source_event_id t emp a m) (csta_events_of parse t n fs) ns"
    using events_of_ids[of n t parse fs] by blast
  let ?es = "csta_events_of parse t n fs"
  have "ae_sourceEventId (?es ! i) \<noteq> ae_sourceEventId (?es ! j)" if "i < j" "j < length ?es" for i j
  proof -
    have "ns ! i \<noteq> ns ! j" using that ns sorted_wrt_nth_less[OF ns(1), of i j] by (simp add: list_all2_lengthD)
    then show ?thesis using that list_all2_nthD[OF ns(2), of i] list_all2_nthD[OF ns(2), of j] source_event_id_inj by fastforce
  qed
  then show ?thesis by (simp add: distinct_conv_nth) (metis linorder_neqE_nat)
qed

text \<open>
  What the collector makes of a connection. However the network cuts the bytes of a
  sequence of frames into chunks, the data handler returns after each of them, and the queue is offered
  exactly the activity events of the CSTA event frames, once each and in order, numbered by the position
  of their frame; no two of them carry the same source event identifier, so ingestion never takes one
  for a repetition of another.
\<close>

theorem collector_offers_every_event:
  assumes "\<And>f. f \<in> set fs \<Longrightarrow> encodable f" "concat (map snd chunks) = concat (map wire fs)"
  shows "\<exists>c. collect parse cfg chunks (collector_start []) = Some c \<and> co_buffer c = [] \<and>
    map untimed (offered (bq_log (co_queue c))) = csta_events_of parse (cc_tenantId cfg) 0 fs \<and>
    distinct (map ae_sourceEventId (offered (bq_log (co_queue c))))"
proof -
  have "push_all [] (map snd chunks) = Some (fs, [])"
  proof (rule push_all_stream[OF assms(1)])
    show "read_loop [] acc = Some (acc, [])" for acc by (subst read_loop.simps) (simp add: FRAME_PREFIX_LENGTH_def)
    show "[] @ concat (map snd chunks) = concat (map wire fs)" unfolding append_Nil by (rule assms(2))
  qed
  with collect_events[of "collector_start []" chunks fs "[]" parse cfg] obtain c where
    c: "collect parse cfg chunks (collector_start []) = Some c" "co_buffer c = []"
      "map untimed (offered (bq_log (co_queue c))) = csta_events_of parse (cc_tenantId cfg) 0 fs"
    by (auto simp: collector_start_def bq_new_def offered_def map_filter_def)
  have "map ae_sourceEventId (offered (bq_log (co_queue c))) = map ae_sourceEventId (csta_events_of parse (cc_tenantId cfg) 0 fs)"
    by (simp add: c(3)[symmetric] untimed_def comp_def)
  with c events_of_distinct show ?thesis by metis
qed

definition demo_parser :: xml_parser where
  "demo_parser xml = (if xml = [60, 97, 47, 62]
     then Some [(''AgentReadyEvent'', \<lparr>aeb_deviceIdentifier = Some ''d7'', aeb_agentID = None\<rparr>)] else None)"

definition demo_collector_config :: collector_config where
  "demo_collector_config = \<lparr>cc_tenantId = ''t'', cc_queue = collector_queue_options\<rparr>"

lemmas collector_eval =
  mapCstaEventXmlToActivityEvent_def demo_parser_def demo_collector_config_def AGENT_EVENT_ACTIVITY_def Let_def
  source_event_id_def demo_frame_def CSTA_EVENT_INVOKE_ID_def

theorem collector_offers_every_event_witness:
  "\<exists>c. collect demo_parser demo_collector_config
         [(''12:00'', [0, 0, 0]), (''12:01'', [12, 57, 57, 57, 57, 60, 97, 47, 62, 0]), (''12:02'', [0, 0, 12, 57, 57, 57, 57, 60, 97, 47, 62])]
         (collector_start []) = Some c \<and>
       map ae_sourceEventId (map untimed (offered (bq_log (co_queue c)))) = [''t:d7:ready:1'', ''t:d7:ready:2'']"
proof -
  let ?chunks = "[(''12:00'', [0, 0, 0]), (''12:01'', [12, 57, 57, 57, 57, 60, 97, 47, 62, 0]),
                  (''12:02'', [0, 0, 12, 57, 57, 57, 57, 60, 97, 47, 62])] :: (string \<times> byte list) list"
  let ?fs = "[demo_frame, demo_frame]"
  have enc: "encodable f" if "f \<in> set ?fs" for f
    using that by (simp add: encodable_def demo_frame_def INVOKE_ID_LENGTH_def ascii_string_def)
  have bytes: "concat (map snd ?chunks) = concat (map wire ?fs)"
    by (simp add: wire_def demo_frame_def encodeCstaFrame_def INVOKE_ID_LENGTH_def FRAME_PREFIX_LENGTH_def Let_def writeUInt16BE_def ascii_write_def)
  have "map ae_sourceEventId (csta_events_of demo_parser (cc_tenantId demo_collector_config) 0 ?fs) = [''t:d7:ready:1'', ''t:d7:ready:2'']"
    by (simp add: collector_eval dec_str.simps) (simp add: char_of_def bit_iff_odd)
  then show ?thesis
    using collector_offers_every_event[OF enc bytes, of demo_parser demo_collector_config] by auto
qed

section \<open>Failures on the way\<close>

lemma endpoint_signed:
  assumes hex: "\<And>k m. hmac k m \<noteq> [] \<and> list_all is_hex_digit (hmac k m)"
    and fresh: "nat \<bar>int (ie_now env) - int sent\<bar> \<le> ie_toleranceSeconds env * 1000"
    and secret: "secret \<in> set (listActiveSecrets env tenantId st)"
    and valid: "decode tenantId (stringify event) = Some event"
  shows "activity_events_endpoint hmac decode env (sign_request hmac stringify sent tenantId secret event) st =
    (case ingest env tenantId event st of
       (Inl e, st') \<Rightarrow> (status_of_error e, st') | (Inr Accepted, st') \<Rightarrow> (202, st') | (Inr Duplicate, st') \<Rightarrow> (200, st'))"
proof -
  have "hmac_guard hmac env tenantId (rq_signatures (sign_request hmac stringify sent tenantId secret event)) (stringify event) st = Inr ()"
    using guard_sign_request[where hmac = hmac, OF hex fresh] secret by blast
  then show ?thesis using valid by (simp add: activity_events_endpoint_def sign_request_fields)
qed

lemma ingest_errors: "ingest env tenantId event st = (Inl e, st') \<Longrightarrow> e = Upstream_redis \<or> e = Upstream_nats"
  by (auto simp: ingest_def acquireIngestionIdempotencyLock_def publish_event_def Let_def split: if_splits nats_result.splits prod.splits sum.splits bool.splits)

text \<open>
  Outages are ridden out, not mistaken for bad events. For a valid event signed with an
  active secret, a refusal by Redis or NATS, a lost request and a lost response all reach the queue as
  degradation, so the event is tried again; the attempt counts as done exactly when the answer arrived
  and ingestion had the event accepted or recognised as a repetition.
\<close>

theorem transient_failures_are_retried:
  assumes "\<And>k m. hmac k m \<noteq> [] \<and> list_all is_hex_digit (hmac k m)"
    and "nat \<bar>int (ie_now env) - int sent\<bar> \<le> ie_toleranceSeconds env * 1000"
    and "secret \<in> set (listActiveSecrets env tenantId st)"
    and "decode tenantId (stringify event) = Some event"
    and "process_event hmac stringify decode env sent net tenantId secret event st = (outcome, st')"
  shows "outcome = (if net = Delivered \<and> (\<exists>ok. fst (ingest env tenantId event st) = Inr ok) then Process_ok else Upstream_degraded) \<and>
    st' = (if net = Request_lost then st else snd (ingest env tenantId event st))"
proof -
  note ep = endpoint_signed[where hmac = hmac and decode = decode and stringify = stringify, OF assms(1-4)]
  obtain r st1 where ing: "ingest env tenantId event st = (r, st1)" by force
  show ?thesis
  proof (cases r)
    case (Inl e)
    then have "e = Upstream_redis \<or> e = Upstream_nats" using ing ingest_errors by blast
    then have "status_of_error e = 503" by (auto simp: status_of_error_def)
    with Inl ing assms(5) ep show ?thesis
      by (cases net) (auto simp: process_event_def forward_outcome_def classify_forward_def)
  next
    case (Inr ok)
    with ing assms(5) ep show ?thesis
      by (cases net; cases ok) (auto simp: process_event_def forward_outcome_def classify_forward_def)
  qed
qed

definition demo_signed_state :: ingestion_state where
  "demo_signed_state = snd (create_credential (demo_ingestion_env 7000 Stored) ''c1'' ''s1'' ''t'' None demo_ingestion_state)"

lemma demo_signed_secrets: "listActiveSecrets (demo_ingestion_env now r) ''t'' demo_signed_state = [''s1'']"
  by (simp add: listActiveSecrets_def demo_signed_state_def create_credential_def demo_ingestion_env_def
      demo_ingestion_state_def Let_def map_filter_def)

lemma demo_hmac_hex: "demo_hmac k m \<noteq> [] \<and> list_all is_hex_digit (demo_hmac k m)"
  by (simp add: demo_hmac_def is_hex_digit_def is_dec_digit_def)

theorem transient_failures_are_retried_witness:
  "fst (process_event demo_hmac ae_sourceEventId (\<lambda>_ _. Some demo_activity_event) (demo_ingestion_env 8000 Not_stored) 7500 Delivered ''t'' ''s1'' demo_activity_event
     demo_signed_state) = Upstream_degraded"
proof -
  let ?res = "process_event demo_hmac ae_sourceEventId (\<lambda>_ _. Some demo_activity_event) (demo_ingestion_env 8000 Not_stored) 7500 Delivered ''t'' ''s1'' demo_activity_event
     demo_signed_state"
  have "fst (ingest (demo_ingestion_env 8000 Not_stored) ''t'' demo_activity_event demo_signed_state) = Inl Upstream_nats"
    by (simp add: ingestion_eval demo_signed_state_def create_credential_def)
  then show ?thesis
    using transient_failures_are_retried[of demo_hmac "demo_ingestion_env 8000 Not_stored" 7500 "''s1''" "''t''" demo_signed_state
        "\<lambda>_ _. Some demo_activity_event" ae_sourceEventId demo_activity_event Delivered "fst ?res" "snd ?res"] demo_hmac_hex demo_signed_secrets
    by (simp add: demo_ingestion_env_def)
qed

text \<open>
  An outage of Vault is the exception: the guard then finds no secret and answers 401 like
  to a forged request, which the collector takes for a permanent failure. The attempt counts as done,
  the queue moves on, and the event is in no stream.
\<close>

theorem vault_outage_discards_events:
  assumes "\<not> ie_vault_up env"
  shows "process_event hmac stringify decode env sent Delivered tenantId secret event st = (Process_ok, st)"
proof -
  have "listActiveSecrets env tenantId st = []" using assms by (simp add: listActiveSecrets_def)
  then have "hmac_guard hmac env tenantId headers body st = Inl Invalid_signature" for headers body
    by (auto simp: hmac_guard_def Let_def split: list.split option.split)
  then show ?thesis
    by (simp add: process_event_def activity_events_endpoint_def sign_request_fields status_of_error_def forward_outcome_def classify_forward_def)
qed

theorem vault_outage_discards_events_witness:
  "process_event demo_hmac ae_sourceEventId (\<lambda>_ _. Some demo_activity_event) ((demo_ingestion_env 8000 Stored)\<lparr>ie_vault_up := False\<rparr>) 7500 Delivered
     ''t'' ''s1'' demo_activity_event demo_signed_state = (Process_ok, demo_signed_state)"
  by (rule vault_outage_discards_events) simp

text \<open>
  Event numbers start again with the process. When a restarted collector maps a CSTA event
  of the same agent and kind at the same position of its new connection, it gives the event the
  identifier of the old one whatever the time; while the lock of the old event lives, ingestion answers
  \<open>duplicate\<close> and the new event is not published.
\<close>

theorem restart_reuses_event_ids:
  assumes "mapCstaEventXmlToActivityEvent parse nowIso xml n tenantId = Some old"
    and "mapCstaEventXmlToActivityEvent parse nowIso' xml' n tenantId = Some new"
    and "ae_employeeId new = ae_employeeId old" "ae_currentActivity new = ae_currentActivity old"
    and "ingest env tenantId old st = (Inr Accepted, st1)"
    and "ie_redis_set_up env'" "ie_now env' < ie_now env + ie_ttlSeconds env * 1000"
  shows "ingest env' tenantId new st1 = (Inr Duplicate, st1)"
proof -
  have "ae_sourceEventId new = ae_sourceEventId old"
    using assms(1-4) by (auto simp: mapCstaEventXmlToActivityEvent_def Let_def split: option.splits list.splits if_splits)
  moreover have "is_locks st1 (ingestionIdempotencyKey tenantId (ae_sourceEventId old)) = Some (ie_now env + ie_ttlSeconds env * 1000)"
    using assms(5) by (auto simp: ingest_def acquireIngestionIdempotencyLock_def publish_event_def Let_def split: if_splits nats_result.splits)
  ultimately show ?thesis
    using assms(6,7) by (simp add: ingest_def acquireIngestionIdempotencyLock_def lock_live_def Let_def)
qed

theorem restart_reuses_event_ids_witness:
  defines "old \<equiv> the (mapCstaEventXmlToActivityEvent demo_parser ''09:00'' [60, 97, 47, 62] 1 ''t'')"
    and "new \<equiv> the (mapCstaEventXmlToActivityEvent demo_parser ''17:30'' [60, 97, 47, 62] 1 ''t'')"
    and "st1 \<equiv> snd (ingest (demo_ingestion_env 1000 Stored) ''t'' (the (mapCstaEventXmlToActivityEvent demo_parser ''09:00'' [60, 97, 47, 62] 1 ''t'')) demo_ingestion_state)"
  shows "ae_activityStartedAt new \<noteq> ae_activityStartedAt old \<and>
    ingest (demo_ingestion_env 30601000 Stored) ''t'' new st1 = (Inr Duplicate, st1)"
proof -
  have o: "mapCstaEventXmlToActivityEvent demo_parser ''09:00'' [60, 97, 47, 62] 1 ''t'' = Some old"
    "mapCstaEventXmlToActivityEvent demo_parser ''17:30'' [60, 97, 47, 62] 1 ''t'' = Some new"
    "ae_employeeId new = ae_employeeId old" "ae_currentActivity new = ae_currentActivity old"
    "ae_activityStartedAt new \<noteq> ae_activityStartedAt old"
    by (simp_all add: old_def new_def collector_eval)
  have "ingest (demo_ingestion_env 1000 Stored) ''t'' old demo_ingestion_state = (Inr Accepted, st1)"
    by (simp add: st1_def old_def ingestion_eval)
  from restart_reuses_event_ids[OF o(1-4) this] o(5) show ?thesis by (simp add: demo_ingestion_env_def)
qed

section \<open>The bootstrap\<close>

text \<open>
  While the collector waits for the answer to a request, the event frames it receives are read and
  skipped: an agent event of a device whose monitor was already started is in no queue afterwards.
\<close>

theorem bootstrap_skips_events:
  assumes "CSTA_EVENT_INVOKE_ID \<notin> set ids" "ids \<noteq> []"
  shows "send_request_frames ids (filter (\<lambda>f. fst f \<noteq> CSTA_EVENT_INVOKE_ID) frames) = send_request_frames ids frames"
  using assms by (induction ids frames rule: send_request_frames.induct) auto

end
