(* ===== verification/Intraday_Live_State.thy ===== *)
theory Intraday_Live_State
  imports Activity_Ingestion "HOL-Library.AList"
begin

text \<open>
  The live state of agents in Redis (\<open>intraday-service/src/redis/redis.service.ts\<close>, \<open>keys.ts\<close>), its two
  independent writers (\<open>consumers/agent-state-changed.consumer.ts\<close> and
  \<open>schedule/scheduled-activity.service.ts\<close>) and the execution of a reallocation
  (\<open>reallocation/reallocation-execution.service.ts\<close>), together with the reverse index from queues to
  agents that they keep. A Redis hash is an association list from field names to strings and a Redis set a list
  without repetitions; every command may fail, and a pipeline may fail between its commands.
\<close>

section \<open>Redis\<close>

type_synonym redis_hash = "(string \<times> string) list"

record live_redis =
  lr_hashes :: "string \<Rightarrow> redis_hash"
  lr_sets :: "string \<Rightarrow> string list"

definition agentLiveStateKey :: "string \<Rightarrow> string \<Rightarrow> string" where
  "agentLiveStateKey tenantId employeeId = ''tenant:'' @ tenantId @ '':agent:'' @ employeeId"

definition queueAgentsKey :: "string \<Rightarrow> string \<Rightarrow> string" where
  "queueAgentsKey tenantId queueId = ''tenant:'' @ tenantId @ '':intraday:queue-agents:'' @ queueId"

datatype pipeline_fault = Pipeline_ok | Nothing_written | Hset_only

definition hset :: "(string \<times> string option) list \<Rightarrow> redis_hash \<Rightarrow> redis_hash" where
  "hset fs h = foldl (\<lambda>h (f, v). case v of Some x \<Rightarrow> AList.update f x h | None \<Rightarrow> h) h fs"

definition hdel :: "(string \<times> string option) list \<Rightarrow> redis_hash \<Rightarrow> redis_hash" where
  "hdel fs h = foldl (\<lambda>h (f, v). case v of Some x \<Rightarrow> h | None \<Rightarrow> AList.delete f h) h fs"

definition writeHash :: "pipeline_fault \<Rightarrow> string \<Rightarrow> (string \<times> string option) list \<Rightarrow> live_redis \<Rightarrow> bool \<times> live_redis" where
  "writeHash fault key fs st =
     (let put = (\<lambda>h. st\<lparr>lr_hashes := (lr_hashes st)(key := h)\<rparr>); h = lr_hashes st key
      in case fault of
           Pipeline_ok \<Rightarrow> (True, put (hdel fs (hset fs h)))
         | Nothing_written \<Rightarrow> (False, st)
         | Hset_only \<Rightarrow> (False, put (hset fs h)))"

record agent_live_state =
  al_currentActivity :: "string option"
  al_activityStartedAt :: "string option"
  al_scheduledActivity :: "string option"
  al_adherenceStatus :: "string option"
  al_siteId :: "string option"
  al_queueId :: "string option"
  al_lastUpdatedAt :: "string option"

definition readAgentLiveState :: "string \<Rightarrow> string \<Rightarrow> live_redis \<Rightarrow> agent_live_state option" where
  "readAgentLiveState tenantId employeeId st =
     (let raw = lr_hashes st (agentLiveStateKey tenantId employeeId)
      in if raw = [] then None
         else Some \<lparr>al_currentActivity = map_of raw ''currentActivity'', al_activityStartedAt = map_of raw ''activityStartedAt'',
                    al_scheduledActivity = map_of raw ''scheduledActivity'', al_adherenceStatus = map_of raw ''adherenceStatus'',
                    al_siteId = map_of raw ''siteId'', al_queueId = map_of raw ''queueId'', al_lastUpdatedAt = map_of raw ''lastUpdatedAt''\<rparr>)"

definition writeAgentLiveState ::
  "pipeline_fault \<Rightarrow> string \<Rightarrow> string \<Rightarrow> string \<Rightarrow> (string \<times> string option) list \<Rightarrow> live_redis \<Rightarrow> bool \<times> live_redis" where
  "writeAgentLiveState fault nowIso tenantId employeeId fs st =
     writeHash fault (agentLiveStateKey tenantId employeeId) (fs @ [(''lastUpdatedAt'', Some nowIso)]) st"

definition srem :: "string \<Rightarrow> string \<Rightarrow> live_redis \<Rightarrow> live_redis" where
  "srem key member st = st\<lparr>lr_sets := (lr_sets st)(key := filter (\<lambda>m. m \<noteq> member) (lr_sets st key))\<rparr>"

definition sadd :: "string \<Rightarrow> string \<Rightarrow> live_redis \<Rightarrow> live_redis" where
  "sadd key member st = st\<lparr>lr_sets := (lr_sets st)(key := js_add (lr_sets st key) member)\<rparr>"

definition updateQueueMembership ::
  "bool \<Rightarrow> string \<Rightarrow> string \<Rightarrow> string option \<Rightarrow> string option \<Rightarrow> live_redis \<Rightarrow> bool \<times> live_redis" where
  "updateQueueMembership up tenantId employeeId previousQueueId newQueueId st =
     (if previousQueueId = newQueueId then (True, st)
      else if \<not> up then (False, st)
      else let st1 = (if truthy_str previousQueueId then srem (queueAgentsKey tenantId (the previousQueueId)) employeeId st else st)
           in (True, if truthy_str newQueueId then sadd (queueAgentsKey tenantId (the newQueueId)) employeeId st1 else st1))"

definition listQueueMembers :: "string \<Rightarrow> string \<Rightarrow> live_redis \<Rightarrow> string list" where
  "listQueueMembers tenantId queueId st = lr_sets st (queueAgentsKey tenantId queueId)"

section \<open>The writers\<close>

record consumer_faults =
  cf_read_up :: bool
  cf_write :: pipeline_fault
  cf_members_up :: bool

definition readPreviousQueueId :: "bool \<Rightarrow> string \<Rightarrow> string \<Rightarrow> live_redis \<Rightarrow> string option" where
  "readPreviousQueueId up tenantId employeeId st =
     (if up then Option.bind (readAgentLiveState tenantId employeeId st) al_queueId else None)"

definition state_fields :: "agent_state_changed \<Rightarrow> (string \<times> string option) list" where
  "state_fields p = [(''currentActivity'', Some (asc_currentActivity p)), (''activityStartedAt'', Some (asc_activityStartedAt p)),
     (''siteId'', asc_siteId p), (''queueId'', asc_queueId p)]"

definition handle_state_changed ::
  "consumer_faults \<Rightarrow> string \<Rightarrow> agent_state_changed \<Rightarrow> live_redis \<Rightarrow> bool \<times> live_redis" where
  \<comment> \<open>\<open>handlePayload\<close> with the acknowledgement of the message: false is a \<open>nak\<close>\<close>
  "handle_state_changed f nowIso p st =
     (let previousQueueId = readPreviousQueueId (cf_read_up f) (asc_tenantId p) (asc_employeeId p) st
      in case writeAgentLiveState (cf_write f) nowIso (asc_tenantId p) (asc_employeeId p) (state_fields p) st of
           (False, st1) \<Rightarrow> (False, st1)
         | (True, st1) \<Rightarrow>
             (True, snd (updateQueueMembership (cf_members_up f) (asc_tenantId p) (asc_employeeId p) previousQueueId (asc_queueId p) st1)))"

definition ON_SHIFT_ACTIVITY :: string where
  "ON_SHIFT_ACTIVITY = ''on_shift''"

definition refresh_scheduled_activity ::
  "pipeline_fault \<Rightarrow> string \<Rightarrow> string \<Rightarrow> string \<Rightarrow> nat \<Rightarrow> live_redis \<Rightarrow> bool \<times> live_redis" where
  \<comment> \<open>\<open>ScheduledActivityService.refresh\<close>, with the number of published assignments covering this instant\<close>
  "refresh_scheduled_activity fault nowIso tenantId employeeId assignments st =
     writeAgentLiveState fault nowIso tenantId employeeId
       [(''scheduledActivity'', if assignments > 0 then Some ON_SHIFT_ACTIVITY else None)] st"

fun applyReallocation ::
  "(string \<Rightarrow> consumer_faults) \<Rightarrow> string \<Rightarrow> string \<Rightarrow> string \<Rightarrow> string \<Rightarrow> string list \<Rightarrow> live_redis \<Rightarrow> bool \<times> live_redis" where
  \<comment> \<open>the first command that fails throws and ends the loop\<close>
  "applyReallocation faults nowIso tenantId fromQueueId toQueueId [] st = (True, st)"
| "applyReallocation faults nowIso tenantId fromQueueId toQueueId (employeeId # es) st =
     (case writeAgentLiveState (cf_write (faults employeeId)) nowIso tenantId employeeId [(''queueId'', Some toQueueId)] st of
        (False, st1) \<Rightarrow> (False, st1)
      | (True, st1) \<Rightarrow>
          (case updateQueueMembership (cf_members_up (faults employeeId)) tenantId employeeId (Some fromQueueId) (Some toQueueId) st1 of
             (False, st2) \<Rightarrow> (False, st2)
           | (True, st2) \<Rightarrow> applyReallocation faults nowIso tenantId fromQueueId toQueueId es st2))"

section \<open>Fields\<close>

definition field_of :: "string \<Rightarrow> string \<Rightarrow> string \<Rightarrow> live_redis \<Rightarrow> string option" where
  "field_of tenantId employeeId f st = map_of (lr_hashes st (agentLiveStateKey tenantId employeeId)) f"

definition no_faults :: consumer_faults where
  "no_faults = \<lparr>cf_read_up = True, cf_write = Pipeline_ok, cf_members_up = True\<rparr>"

named_theorems live_simps \<open>effect of the writers on fields and sets\<close>

lemma map_of_hset:
  "distinct (map fst fs) \<Longrightarrow> map_of (hset fs h) g = (case map_of fs g of Some (Some x) \<Rightarrow> Some x | _ \<Rightarrow> map_of h g)"
proof (induction fs arbitrary: h)
  case (Cons a fs)
  obtain k v where a: "a = (k, v)" by (cases a)
  have "map_of fs k = None" using Cons.prems a by (simp add: map_of_eq_None_iff)
  moreover have "hset (a # fs) h = hset fs (case v of Some x \<Rightarrow> AList.update k x h | None \<Rightarrow> h)" by (simp add: hset_def a)
  ultimately show ?case using Cons a by (auto simp: update_conv' split: option.split)
qed (simp add: hset_def)

lemma map_of_hdel: "map_of (hdel fs h) g = (if (g, None) \<in> set fs then None else map_of h g)"
proof (induction fs arbitrary: h)
  case (Cons a fs)
  obtain k v where a: "a = (k, v)" by (cases a)
  have "hdel (a # fs) h = hdel fs (case v of Some x \<Rightarrow> h | None \<Rightarrow> AList.delete k h)" by (simp add: hdel_def a)
  then show ?case using Cons a by (auto simp: delete_conv' split: option.split)
qed (simp add: hdel_def)

lemma map_of_write:
  assumes "distinct (map fst fs)"
  shows "map_of (hdel fs (hset fs h)) g = (case map_of fs g of None \<Rightarrow> map_of h g | Some v \<Rightarrow> v)"
  using assms by (auto simp: map_of_hdel map_of_hset map_of_eq_Some_iff map_of_eq_None_iff image_iff split: option.splits)

lemma agentLiveStateKey_inj: "length t = length t' \<Longrightarrow> agentLiveStateKey t e = agentLiveStateKey t' e' \<longleftrightarrow> t = t' \<and> e = e'"
  by (auto simp: agentLiveStateKey_def)

lemma queueAgentsKey_inj: "length t = length t' \<Longrightarrow> queueAgentsKey t q = queueAgentsKey t' q' \<longleftrightarrow> t = t' \<and> q = q'"
  by (auto simp: queueAgentsKey_def)

lemma field_of_write [live_simps]:
  assumes "distinct (map fst (fs @ [(''lastUpdatedAt'', Some nowIso)]))" "length t = length tenantId"
  shows "field_of t e f (snd (writeAgentLiveState Pipeline_ok nowIso tenantId employeeId fs st)) =
    (if t = tenantId \<and> e = employeeId
     then (case map_of (fs @ [(''lastUpdatedAt'', Some nowIso)]) f of None \<Rightarrow> field_of t e f st | Some v \<Rightarrow> v)
     else field_of t e f st)"
proof (cases "t = tenantId \<and> e = employeeId")
  case True
  then have te: "t = tenantId" "e = employeeId" by simp_all
  show ?thesis
    using map_of_write[OF assms(1), of "lr_hashes st (agentLiveStateKey tenantId employeeId)" f]
    unfolding te field_of_def writeAgentLiveState_def writeHash_def by (simp add: Let_def)
next
  case False
  then have "agentLiveStateKey t e \<noteq> agentLiveStateKey tenantId employeeId" using agentLiveStateKey_inj[OF assms(2)] by simp
  with False show ?thesis by (auto simp: field_of_def writeAgentLiveState_def writeHash_def Let_def)
qed

lemma sets_write [live_simps]: "lr_sets (snd (writeAgentLiveState fault nowIso t e fs st)) = lr_sets st"
  by (simp add: writeAgentLiveState_def writeHash_def Let_def split: pipeline_fault.split)

lemma field_of_membership [live_simps]: "field_of t e f (snd (updateQueueMembership up t' e' p n st)) = field_of t e f st"
  by (simp add: updateQueueMembership_def field_of_def srem_def sadd_def Let_def)

lemma write_ok [simp]: "fst (writeAgentLiveState Pipeline_ok nowIso t e fs st)"
  by (simp add: writeAgentLiveState_def writeHash_def Let_def)

lemma members_write [live_simps]: "listQueueMembers t q (snd (writeAgentLiveState fault nowIso t' e fs st)) = listQueueMembers t q st"
  by (simp add: listQueueMembers_def sets_write)

lemma members_srem:
  "length t = length t' \<Longrightarrow> set (listQueueMembers t q (srem (queueAgentsKey t' q') e st)) =
     (if t = t' \<and> q = q' then set (listQueueMembers t q st) - {e} else set (listQueueMembers t q st))"
  using queueAgentsKey_inj[of t t' q q'] by (auto simp: listQueueMembers_def srem_def)

lemma members_sadd:
  "length t = length t' \<Longrightarrow> set (listQueueMembers t q (sadd (queueAgentsKey t' q') e st)) =
     (if t = t' \<and> q = q' then insert e (set (listQueueMembers t q st)) else set (listQueueMembers t q st))"
  using queueAgentsKey_inj[of t t' q q'] by (auto simp: listQueueMembers_def sadd_def)

lemma members_update [live_simps]:
  assumes "length t = length tenantId"
  shows "set (listQueueMembers t q (snd (updateQueueMembership True tenantId e prev new st))) =
    (if t = tenantId \<and> prev \<noteq> new \<and> truthy_str new \<and> new = Some q then insert e (set (listQueueMembers t q st))
     else if t = tenantId \<and> prev \<noteq> new \<and> truthy_str prev \<and> prev = Some q then set (listQueueMembers t q st) - {e}
     else set (listQueueMembers t q st))"
proof (cases "prev = new")
  case False
  then show ?thesis
    using assms by (cases prev; cases new) (simp_all add: updateQueueMembership_def Let_def members_srem members_sadd)
qed (simp add: updateQueueMembership_def)

lemma previous_queue: "readPreviousQueueId True t e st = field_of t e ''queueId'' st"
  by (simp add: readPreviousQueueId_def readAgentLiveState_def field_of_def Let_def)

lemma handle_ok:
  "handle_state_changed no_faults nowIso p st =
     (True, snd (updateQueueMembership True (asc_tenantId p) (asc_employeeId p) (field_of (asc_tenantId p) (asc_employeeId p) ''queueId'' st) (asc_queueId p)
        (snd (writeAgentLiveState Pipeline_ok nowIso (asc_tenantId p) (asc_employeeId p) (state_fields p) st))))"
  by (cases "writeAgentLiveState Pipeline_ok nowIso (asc_tenantId p) (asc_employeeId p) (state_fields p) st")
    (use write_ok[of nowIso "asc_tenantId p" "asc_employeeId p" "state_fields p" st] in
      \<open>auto simp: handle_state_changed_def no_faults_def previous_queue Let_def\<close>)

section \<open>The reverse index\<close>

definition index_ok :: "nat \<Rightarrow> live_redis \<Rightarrow> bool" where
  \<comment> \<open>for tenant identifiers of length \<open>n\<close> (UUIDs): an agent is listed under a queue iff its live state names that queue\<close>
  "index_ok n st \<longleftrightarrow> (\<forall>t e q. length t = n \<longrightarrow> q \<noteq> [] \<longrightarrow>
     (e \<in> set (listQueueMembers t q st) \<longleftrightarrow> field_of t e ''queueId'' st = Some q))"

lemma state_fields_distinct: "distinct (map fst (state_fields p @ [(''lastUpdatedAt'', Some nowIso)]))"
  by (simp add: state_fields_def)

lemma handle_field:
  assumes "length t = length (asc_tenantId p)"
  shows "field_of t e f (snd (handle_state_changed no_faults nowIso p st)) =
    (if t = asc_tenantId p \<and> e = asc_employeeId p
     then (case map_of (state_fields p @ [(''lastUpdatedAt'', Some nowIso)]) f of None \<Rightarrow> field_of t e f st | Some v \<Rightarrow> v)
     else field_of t e f st)"
  unfolding handle_ok by (simp add: field_of_membership field_of_write[OF state_fields_distinct assms])

lemma handle_members:
  assumes "length t = length (asc_tenantId p)"
  shows "set (listQueueMembers t q (snd (handle_state_changed no_faults nowIso p st))) =
    (let prev = field_of (asc_tenantId p) (asc_employeeId p) ''queueId'' st; new = asc_queueId p
     in if t = asc_tenantId p \<and> prev \<noteq> new \<and> truthy_str new \<and> new = Some q then insert (asc_employeeId p) (set (listQueueMembers t q st))
        else if t = asc_tenantId p \<and> prev \<noteq> new \<and> truthy_str prev \<and> prev = Some q then set (listQueueMembers t q st) - {asc_employeeId p}
        else set (listQueueMembers t q st))"
  unfolding handle_ok Let_def snd_conv members_update[OF assms] members_write by (rule refl)

lemma index_ok_handle:
  assumes "index_ok n st" "length (asc_tenantId p) = n"
  shows "index_ok n (snd (handle_state_changed no_faults nowIso p st))"
  unfolding index_ok_def
proof (intro allI impI)
  fix t e q :: string
  assume t: "length t = n" "q \<noteq> []"
  then have len: "length t = length (asc_tenantId p)" using assms(2) by simp
  have old: "e \<in> set (listQueueMembers t q st) \<longleftrightarrow> field_of t e ''queueId'' st = Some q"
    using assms(1) t by (simp add: index_ok_def)
  show "e \<in> set (listQueueMembers t q (snd (handle_state_changed no_faults nowIso p st))) \<longleftrightarrow>
        field_of t e ''queueId'' (snd (handle_state_changed no_faults nowIso p st)) = Some q"
  proof (cases "t = asc_tenantId p \<and> e = asc_employeeId p")
    case True
    then have te: "t = asc_tenantId p" "e = asc_employeeId p" by simp_all
    have "field_of t e ''queueId'' (snd (handle_state_changed no_faults nowIso p st)) = asc_queueId p"
      unfolding handle_field[OF len] using True by (simp add: state_fields_def)
    moreover have "e \<in> set (listQueueMembers t q (snd (handle_state_changed no_faults nowIso p st))) \<longleftrightarrow> asc_queueId p = Some q"
      using old t(2) unfolding te handle_members[OF refl] Let_def
      by (cases "asc_queueId p = Some q"; cases "field_of (asc_tenantId p) (asc_employeeId p) ''queueId'' st = Some q") simp_all
    ultimately show ?thesis by simp
  next
    case False
    then show ?thesis unfolding handle_members[OF len] handle_field[OF len] Let_def using old by auto
  qed
qed

lemma refresh_field:
  assumes "length t = length tenantId"
  shows "field_of t e f (snd (refresh_scheduled_activity Pipeline_ok nowIso tenantId employeeId k st)) =
    (if t = tenantId \<and> e = employeeId \<and> f = ''scheduledActivity'' then (if k > 0 then Some ON_SHIFT_ACTIVITY else None)
     else if t = tenantId \<and> e = employeeId \<and> f = ''lastUpdatedAt'' then Some nowIso else field_of t e f st)"
  unfolding refresh_scheduled_activity_def using field_of_write[of "[(''scheduledActivity'', if k > 0 then Some ON_SHIFT_ACTIVITY else None)]"] assms
  by simp

lemma index_ok_refresh:
  assumes "index_ok n st" "length tenantId = n"
  shows "index_ok n (snd (refresh_scheduled_activity Pipeline_ok nowIso tenantId employeeId k st))"
  unfolding index_ok_def
proof (intro allI impI)
  fix t e q :: string
  assume "length t = n" "q \<noteq> []"
  moreover from this have "field_of t e ''queueId'' (snd (refresh_scheduled_activity Pipeline_ok nowIso tenantId employeeId k st)) = field_of t e ''queueId'' st"
    using assms(2) by (simp add: refresh_field)
  moreover have "listQueueMembers t q (snd (refresh_scheduled_activity Pipeline_ok nowIso tenantId employeeId k st)) = listQueueMembers t q st"
    by (simp add: refresh_scheduled_activity_def members_write)
  ultimately show "e \<in> set (listQueueMembers t q (snd (refresh_scheduled_activity Pipeline_ok nowIso tenantId employeeId k st))) \<longleftrightarrow>
      field_of t e ''queueId'' (snd (refresh_scheduled_activity Pipeline_ok nowIso tenantId employeeId k st)) = Some q"
    using assms(1) by (simp add: index_ok_def)
qed

definition move_agent :: "string \<Rightarrow> string \<Rightarrow> string \<Rightarrow> string \<Rightarrow> string \<Rightarrow> live_redis \<Rightarrow> live_redis" where
  "move_agent nowIso tenantId fromQueueId toQueueId employeeId st =
     snd (updateQueueMembership True tenantId employeeId (Some fromQueueId) (Some toQueueId)
       (snd (writeAgentLiveState Pipeline_ok nowIso tenantId employeeId [(''queueId'', Some toQueueId)] st)))"

lemma applyReallocation_ok:
  "applyReallocation (\<lambda>_. no_faults) nowIso tenantId fromQ toQ es st = (True, fold (move_agent nowIso tenantId fromQ toQ) es st)"
proof (induction es arbitrary: st)
  case (Cons e es)
  obtain st1 where w: "writeAgentLiveState Pipeline_ok nowIso tenantId e [(''queueId'', Some toQ)] st = (True, st1)"
    by (metis (full_types) prod.collapse write_ok)
  have "fst (updateQueueMembership True tenantId e (Some fromQ) (Some toQ) st1)"
    by (simp add: updateQueueMembership_def Let_def)
  then obtain st2 where u: "updateQueueMembership True tenantId e (Some fromQ) (Some toQ) st1 = (True, st2)"
    by (metis (full_types) prod.collapse)
  show ?case using Cons w u by (simp add: no_faults_def move_agent_def)
qed simp

lemma move_field:
  assumes "length t = length tenantId"
  shows "field_of t e ''queueId'' (move_agent nowIso tenantId fromQ toQ employeeId st) =
    (if t = tenantId \<and> e = employeeId then Some toQ else field_of t e ''queueId'' st)"
  unfolding move_agent_def using field_of_write[of "[(''queueId'', Some toQ)]"] assms by (simp add: field_of_membership)

lemma move_members:
  assumes "length t = length tenantId" "toQ \<noteq> []" "fromQ \<noteq> []"
  shows "set (listQueueMembers t q (move_agent nowIso tenantId fromQ toQ employeeId st)) =
    (if t = tenantId \<and> fromQ \<noteq> toQ \<and> q = toQ then insert employeeId (set (listQueueMembers t q st))
     else if t = tenantId \<and> fromQ \<noteq> toQ \<and> q = fromQ then set (listQueueMembers t q st) - {employeeId}
     else set (listQueueMembers t q st))"
  unfolding move_agent_def members_update[OF assms(1)] members_write using assms(2,3) by auto

lemma index_ok_move:
  assumes "index_ok n st" "length tenantId = n" "fromQ \<noteq> []" "toQ \<noteq> []"
    and "field_of tenantId employeeId ''queueId'' st \<in> {Some fromQ, Some toQ}"
  shows "index_ok n (move_agent nowIso tenantId fromQ toQ employeeId st)"
  unfolding index_ok_def
proof (intro allI impI)
  fix t e q :: string
  assume t: "length t = n" "q \<noteq> []"
  then have len: "length t = length tenantId" using assms(2) by simp
  have old: "e \<in> set (listQueueMembers t q st) \<longleftrightarrow> field_of t e ''queueId'' st = Some q"
    using assms(1) t by (simp add: index_ok_def)
  show "e \<in> set (listQueueMembers t q (move_agent nowIso tenantId fromQ toQ employeeId st)) \<longleftrightarrow>
        field_of t e ''queueId'' (move_agent nowIso tenantId fromQ toQ employeeId st) = Some q"
    unfolding move_members[OF len assms(4,3)] move_field[OF len]
    using old assms(5) by (cases "t = tenantId \<and> e = employeeId") auto
qed

datatype live_op =
    Op_state string agent_state_changed
  | Op_refresh string string string nat
  | Op_move string string string string string

fun live_do :: "live_op \<Rightarrow> live_redis \<Rightarrow> live_redis" where
  "live_do (Op_state nowIso p) st = snd (handle_state_changed no_faults nowIso p st)"
| "live_do (Op_refresh nowIso t e k) st = snd (refresh_scheduled_activity Pipeline_ok nowIso t e k st)"
| "live_do (Op_move nowIso t fromQ toQ e) st = snd (applyReallocation (\<lambda>_. no_faults) nowIso t fromQ toQ [e] st)"

fun live_op_ok :: "nat \<Rightarrow> live_op \<Rightarrow> live_redis \<Rightarrow> bool" where
  \<comment> \<open>tenants are UUIDs; a reallocated agent is still in one of the two queues\<close>
  "live_op_ok n (Op_state nowIso p) st \<longleftrightarrow> length (asc_tenantId p) = n"
| "live_op_ok n (Op_refresh nowIso t e k) st \<longleftrightarrow> length t = n"
| "live_op_ok n (Op_move nowIso t fromQ toQ e) st \<longleftrightarrow> length t = n \<and> fromQ \<noteq> [] \<and> toQ \<noteq> [] \<and>
     field_of t e ''queueId'' st \<in> {Some fromQ, Some toQ}"

inductive live_reachable :: "nat \<Rightarrow> live_redis \<Rightarrow> bool" for n where
  live_empty: "live_reachable n \<lparr>lr_hashes = (\<lambda>_. []), lr_sets = (\<lambda>_. [])\<rparr>"
| live_step: "live_reachable n st \<Longrightarrow> live_op_ok n op st \<Longrightarrow> live_reachable n (live_do op st)"

lemma index_ok_do: "index_ok n st \<Longrightarrow> live_op_ok n op st \<Longrightarrow> index_ok n (live_do op st)"
  by (cases op) (auto simp: index_ok_handle index_ok_refresh applyReallocation_ok index_ok_move)

text \<open>
  The reverse index is exact. In every state reached from an empty Redis by agent events,
  schedule refreshes and reallocations of agents that are in one of the two queues concerned, an agent is
  listed under a queue exactly if its live state names that queue.
\<close>

theorem live_index_exact:
  assumes "live_reachable n st" "length t = n" "q \<noteq> []"
  shows "e \<in> set (listQueueMembers t q st) \<longleftrightarrow> Option.bind (readAgentLiveState t e st) al_queueId = Some q"
proof -
  have "index_ok n st"
    using assms(1)
  proof (induction rule: live_reachable.induct)
    case live_empty
    show ?case by (simp add: index_ok_def listQueueMembers_def field_of_def)
  qed (rule index_ok_do)
  then have "e \<in> set (listQueueMembers t q st) \<longleftrightarrow> field_of t e ''queueId'' st = Some q"
    using assms(2,3) by (simp add: index_ok_def)
  then show ?thesis by (simp add: previous_queue[unfolded readPreviousQueueId_def, simplified])
qed

definition demo_payload :: "string option \<Rightarrow> agent_state_changed" where
  "demo_payload q = \<lparr>asc_tenantId = ''t'', asc_employeeId = ''e'', asc_sourceEventId = ''s'', asc_currentActivity = ''ready'',
     asc_activityStartedAt = ''08:00'', asc_siteId = None, asc_queueId = q, asc_receivedAt = 0\<rparr>"

definition empty_redis :: live_redis where
  "empty_redis = \<lparr>lr_hashes = (\<lambda>_. []), lr_sets = (\<lambda>_. [])\<rparr>"

definition demo_live :: live_redis where
  "demo_live = live_do (Op_move ''08:02'' ''t'' ''q1'' ''q2'' ''e'') (live_do (Op_state ''08:01'' (demo_payload (Some ''q1''))) empty_redis)"

lemmas live_eval = handle_state_changed_def no_faults_def readPreviousQueueId_def readAgentLiveState_def writeAgentLiveState_def
  writeHash_def hset_def hdel_def Let_def state_fields_def updateQueueMembership_def sadd_def srem_def js_add_def
  agentLiveStateKey_def queueAgentsKey_def demo_payload_def empty_redis_def listQueueMembers_def

theorem live_index_exact_witness:
  "Option.bind (readAgentLiveState ''t'' ''e'' demo_live) al_queueId = Some ''q2'' \<and>
   ''e'' \<in> set (listQueueMembers ''t'' ''q2'' demo_live) \<and> ''e'' \<notin> set (listQueueMembers ''t'' ''q1'' demo_live)"
proof -
  have "live_reachable 1 (live_do (Op_state ''08:01'' (demo_payload (Some ''q1''))) empty_redis)"
    unfolding empty_redis_def by (rule live_step[OF live_empty]) (simp add: demo_payload_def)
  then have reach: "live_reachable 1 demo_live"
    unfolding demo_live_def by (rule live_step) (simp add: live_eval field_of_def)
  have q: "Option.bind (readAgentLiveState ''t'' ''e'' demo_live) al_queueId = Some ''q2''"
    unfolding demo_live_def by (simp add: live_eval)
  show ?thesis using live_index_exact[OF reach, of "''t''" "''q2''" "''e''"] live_index_exact[OF reach, of "''t''" "''q1''" "''e''"] q by simp
qed

section \<open>Independent writers\<close>

definition same_view :: "nat \<Rightarrow> live_redis \<Rightarrow> live_redis \<Rightarrow> bool" where
  \<comment> \<open>two stores that agree on every live-state field but the time of the last write, and on every queue\<close>
  "same_view n st st' \<longleftrightarrow> (\<forall>t e f q. length t = n \<longrightarrow>
     (f \<noteq> ''lastUpdatedAt'' \<longrightarrow> field_of t e f st = field_of t e f st') \<and>
     set (listQueueMembers t q st) = set (listQueueMembers t q st'))"

lemma refresh_members: "listQueueMembers t q (snd (refresh_scheduled_activity fault nowIso t' e k st)) = listQueueMembers t q st"
  by (simp add: refresh_scheduled_activity_def members_write)

text \<open>
  The event consumer and the schedule refresh never overwrite each other: in whichever order
  their writes reach Redis, for the same agent or different ones, all fields except the time of the last
  write and all queues end up the same. A redelivered event that had been applied completely changes
  nothing either.
\<close>

theorem live_writers_commute:
  assumes "length (asc_tenantId p) = n" "length tenantId = n"
  shows "same_view n
      (snd (refresh_scheduled_activity Pipeline_ok t1 tenantId employeeId k (snd (handle_state_changed no_faults t2 p st))))
      (snd (handle_state_changed no_faults t3 p (snd (refresh_scheduled_activity Pipeline_ok t4 tenantId employeeId k st)))) \<and>
    same_view n
      (snd (handle_state_changed no_faults t5 p (snd (handle_state_changed no_faults t6 p st))))
      (snd (handle_state_changed no_faults t6 p st))"
proof
  show "same_view n
      (snd (refresh_scheduled_activity Pipeline_ok t1 tenantId employeeId k (snd (handle_state_changed no_faults t2 p st))))
      (snd (handle_state_changed no_faults t3 p (snd (refresh_scheduled_activity Pipeline_ok t4 tenantId employeeId k st))))"
    unfolding same_view_def
  proof (intro allI impI conjI)
    fix t e f q :: string
    assume t: "length t = n"
    have len: "length t = length tenantId" "length t = length (asc_tenantId p)" "length (asc_tenantId p) = length tenantId"
      using t assms by simp_all
    show "set (listQueueMembers t q (snd (refresh_scheduled_activity Pipeline_ok t1 tenantId employeeId k (snd (handle_state_changed no_faults t2 p st))))) =
      set (listQueueMembers t q (snd (handle_state_changed no_faults t3 p (snd (refresh_scheduled_activity Pipeline_ok t4 tenantId employeeId k st)))))"
      unfolding refresh_members handle_members[OF len(2)] by (simp add: refresh_field[OF len(3)])
    assume "f \<noteq> ''lastUpdatedAt''"
    then show "field_of t e f (snd (refresh_scheduled_activity Pipeline_ok t1 tenantId employeeId k (snd (handle_state_changed no_faults t2 p st)))) =
      field_of t e f (snd (handle_state_changed no_faults t3 p (snd (refresh_scheduled_activity Pipeline_ok t4 tenantId employeeId k st))))"
      unfolding refresh_field[OF len(1)] handle_field[OF len(2)] by (auto simp: state_fields_def)
  qed
  show "same_view n
      (snd (handle_state_changed no_faults t5 p (snd (handle_state_changed no_faults t6 p st))))
      (snd (handle_state_changed no_faults t6 p st))"
    unfolding same_view_def
  proof (intro allI impI conjI)
    fix t e f q :: string
    assume t: "length t = n"
    have len: "length t = length (asc_tenantId p)" using t assms by simp
    have "field_of (asc_tenantId p) (asc_employeeId p) ''queueId'' (snd (handle_state_changed no_faults t6 p st)) = asc_queueId p"
      unfolding handle_field[OF refl] by (simp add: state_fields_def)
    then show "set (listQueueMembers t q (snd (handle_state_changed no_faults t5 p (snd (handle_state_changed no_faults t6 p st))))) =
      set (listQueueMembers t q (snd (handle_state_changed no_faults t6 p st)))"
      unfolding handle_members[OF len, of q t5] by simp
    assume "f \<noteq> ''lastUpdatedAt''"
    then show "field_of t e f (snd (handle_state_changed no_faults t5 p (snd (handle_state_changed no_faults t6 p st)))) =
      field_of t e f (snd (handle_state_changed no_faults t6 p st))"
      unfolding handle_field[OF len, of e f t5] handle_field[OF len, of e f t6] by (simp add: state_fields_def)
  qed
qed

theorem live_writers_commute_witness:
  "same_view 1
     (snd (refresh_scheduled_activity Pipeline_ok ''08:02'' ''t'' ''e'' 1 (snd (handle_state_changed no_faults ''08:01'' (demo_payload (Some ''q1'')) empty_redis))))
     (snd (handle_state_changed no_faults ''08:02'' (demo_payload (Some ''q1'')) (snd (refresh_scheduled_activity Pipeline_ok ''08:01'' ''t'' ''e'' 1 empty_redis))))"
  using live_writers_commute[of "demo_payload (Some ''q1'')" 1 "''t''" "''08:02''" "''e''" 1 "''08:01''" empty_redis "''08:02''" "''08:01''"]
  by (simp add: demo_payload_def)

section \<open>When the index goes stale\<close>

text \<open>
  A redelivered event does not repair the index. The consumer reads the previous queue from
  the live state it is about to overwrite; when it stops after the write of the new queue and before the
  update of the index (the pipeline breaks after its \<open>HSET\<close>), the message is not acknowledged, but its
  redelivery finds the new queue as the previous one and skips the update: the agent stays listed under
  the old queue and is missing from the new one.
\<close>

theorem redelivery_leaves_index_stale:
  assumes "field_of (asc_tenantId p) (asc_employeeId p) ''queueId'' st = Some q1" "asc_queueId p = Some q2"
    and "asc_employeeId p \<in> set (listQueueMembers (asc_tenantId p) q1 st)"
    and "asc_employeeId p \<notin> set (listQueueMembers (asc_tenantId p) q2 st)"
    and "handle_state_changed (no_faults\<lparr>cf_write := Hset_only\<rparr>) t1 p st = (acked, st1)"
    and "handle_state_changed no_faults t2 p st1 = (acked2, st2)"
  shows "\<not> acked \<and> acked2 \<and> field_of (asc_tenantId p) (asc_employeeId p) ''queueId'' st2 = Some q2 \<and>
    asc_employeeId p \<in> set (listQueueMembers (asc_tenantId p) q1 st2) \<and>
    asc_employeeId p \<notin> set (listQueueMembers (asc_tenantId p) q2 st2)"
proof -
  let ?fs = "state_fields p @ [(''lastUpdatedAt'', Some t1)]"
  have st1: "acked = False" "lr_sets st1 = lr_sets st"
    "lr_hashes st1 (agentLiveStateKey (asc_tenantId p) (asc_employeeId p)) =
       hset ?fs (lr_hashes st (agentLiveStateKey (asc_tenantId p) (asc_employeeId p)))"
    using assms(5) by (auto simp: handle_state_changed_def no_faults_def writeAgentLiveState_def writeHash_def Let_def)
  have prev: "field_of (asc_tenantId p) (asc_employeeId p) ''queueId'' st1 = Some q2"
    unfolding field_of_def st1(3) map_of_hset[OF state_fields_distinct] using assms(2) by (simp add: state_fields_def)
  have "acked2" "st2 = snd (handle_state_changed no_faults t2 p st1)" using assms(6) by (auto simp: handle_ok)
  moreover have "set (listQueueMembers (asc_tenantId p) q st2) = set (listQueueMembers (asc_tenantId p) q st1)" for q
    unfolding calculation(2) handle_members[OF refl] Let_def prev assms(2) by simp
  moreover have "field_of (asc_tenantId p) (asc_employeeId p) ''queueId'' st2 = Some q2"
    unfolding calculation(2) handle_field[OF refl] using assms(2) by (simp add: state_fields_def)
  ultimately show ?thesis using st1(1,2) assms(3,4) by (simp add: listQueueMembers_def)
qed

theorem redelivery_leaves_index_stale_witness:
  defines "st \<equiv> snd (handle_state_changed no_faults ''08:00'' (demo_payload (Some ''q1'')) empty_redis)"
  defines "st1 \<equiv> snd (handle_state_changed (no_faults\<lparr>cf_write := Hset_only\<rparr>) ''08:01'' (demo_payload (Some ''q2'')) st)"
  shows "''e'' \<in> set (listQueueMembers ''t'' ''q1'' (snd (handle_state_changed no_faults ''08:02'' (demo_payload (Some ''q2'')) st1)))"
proof -
  have st: "field_of ''t'' ''e'' ''queueId'' st = Some ''q1''" "''e'' \<in> set (listQueueMembers ''t'' ''q1'' st)"
    "''e'' \<notin> set (listQueueMembers ''t'' ''q2'' st)"
    unfolding st_def by (simp_all add: live_eval field_of_def)
  have "asc_tenantId (demo_payload (Some ''q2'')) = ''t''" "asc_employeeId (demo_payload (Some ''q2'')) = ''e''"
    "asc_queueId (demo_payload (Some ''q2'')) = Some ''q2''" by (simp_all add: demo_payload_def)
  then show ?thesis
    using redelivery_leaves_index_stale[of "demo_payload (Some ''q2'')" st "''q1''" "''q2''" "''08:01''" _ st1 "''08:02''"] st
    unfolding st1_def by (metis prod.collapse)
qed

text \<open>
  A reallocation removes the agent from the queue the suggestion named, not from the one it is in: an
  agent that has moved on since the suggestion ends up listed under two queues.
\<close>

theorem stale_reallocation_lists_twice:
  assumes "index_ok n st" "length tenantId = n" "fromQ \<noteq> []" "toQ \<noteq> []" "q \<noteq> []" "q \<noteq> fromQ" "q \<noteq> toQ" "fromQ \<noteq> toQ"
    and "field_of tenantId e ''queueId'' st = Some q"
    and "applyReallocation (\<lambda>_. no_faults) nowIso tenantId fromQ toQ [e] st = (True, st')"
  shows "e \<in> set (listQueueMembers tenantId q st') \<and> e \<in> set (listQueueMembers tenantId toQ st') \<and>
    field_of tenantId e ''queueId'' st' = Some toQ"
proof -
  have st': "st' = move_agent nowIso tenantId fromQ toQ e st" using assms(10) by (simp add: applyReallocation_ok)
  have "e \<in> set (listQueueMembers tenantId q st)" using assms by (simp add: index_ok_def)
  then show ?thesis unfolding st' using assms(3-8) by (simp add: move_members move_field)
qed

end
