(* ===== verification/Adherence_Events.thy ===== *)
theory Adherence_Events
  imports Intraday_Live_State
begin

text \<open>
  The adherence record of the intraday service: the calculator that consumes the agent events
  (\<open>adherence/adherence-calculator.consumer.ts\<close>, \<open>adherence-rule.ts\<close>), the workflow of the exceptions it
  opens (\<open>adherence-exception.service.ts\<close>) and the hourly and daily roll-ups
  (\<open>adherence-rollup-scheduler.service.ts\<close>). Times are milliseconds since the epoch. The most recent row
  is the one with the greatest time, the later inserted one on a tie, where SQL leaves the choice open.
\<close>

section \<open>Calculator\<close>

record adherence_event =
  av_id :: nat
  av_tenantId :: string
  av_employeeId :: string
  av_fromActivity :: "string option"
  av_toActivity :: string
  av_scheduledActivity :: "string option"
  av_deviationSeconds :: int
  av_timestamp :: int

datatype exception_status = Exception_open | Exception_acknowledged | Exception_resolved

record adherence_exception =
  ax_id :: nat
  ax_tenantId :: string
  ax_employeeId :: string
  ax_activity :: string
  ax_scheduledActivity :: "string option"
  ax_startedAt :: int
  ax_endedAt :: int
  ax_deviationSeconds :: int
  ax_status :: exception_status
  ax_acknowledgedBy :: "string option"
  ax_acknowledgedAt :: "int option"
  ax_resolutionNotes :: "string option"
  ax_resolvedAt :: "int option"
  ax_createdAt :: int

record adherence_db =
  ad_events :: "adherence_event list"
  ad_exceptions :: "adherence_exception list"
  ad_next :: nat \<comment> \<open>the next drawn identifier\<close>

definition isAdherent :: "string option \<Rightarrow> bool" where
  "isAdherent scheduledActivity \<longleftrightarrow> scheduledActivity = Some ON_SHIFT_ACTIVITY"

definition computeDeviationSeconds :: "adherence_event option \<Rightarrow> int \<Rightarrow> int" where
  "computeDeviationSeconds previousEvent ts =
     (case previousEvent of
        None \<Rightarrow> 0
      | Some prev \<Rightarrow> if isAdherent (av_scheduledActivity prev) then 0 else max 0 ((ts - av_timestamp prev) div 1000))"

definition latest_event :: "string \<Rightarrow> string \<Rightarrow> adherence_event list \<Rightarrow> adherence_event option" where
  "latest_event tenantId employeeId rows =
     foldl (\<lambda>best r. if av_tenantId r = tenantId \<and> av_employeeId r = employeeId \<and>
                         (case best of None \<Rightarrow> True | Some b \<Rightarrow> av_timestamp b \<le> av_timestamp r)
                      then Some r else best) None rows"

definition new_adherence_event :: "nat \<Rightarrow> agent_state_changed \<Rightarrow> string option \<Rightarrow> adherence_event option \<Rightarrow> adherence_event" where
  "new_adherence_event i p scheduledActivity previousEvent =
     \<lparr>av_id = i, av_tenantId = asc_tenantId p, av_employeeId = asc_employeeId p,
      av_fromActivity = map_option av_toActivity previousEvent, av_toActivity = asc_currentActivity p,
      av_scheduledActivity = scheduledActivity,
      av_deviationSeconds = computeDeviationSeconds previousEvent (int (asc_receivedAt p)),
      av_timestamp = int (asc_receivedAt p)\<rparr>"

definition new_adherence_exception :: "nat \<Rightarrow> agent_state_changed \<Rightarrow> adherence_event \<Rightarrow> adherence_event \<Rightarrow> adherence_exception" where
  "new_adherence_exception i p prev event =
     \<lparr>ax_id = i, ax_tenantId = asc_tenantId p, ax_employeeId = asc_employeeId p, ax_activity = av_toActivity prev,
      ax_scheduledActivity = av_scheduledActivity prev, ax_startedAt = av_timestamp prev, ax_endedAt = int (asc_receivedAt p),
      ax_deviationSeconds = av_deviationSeconds event, ax_status = Exception_open, ax_acknowledgedBy = None,
      ax_acknowledgedAt = None, ax_resolutionNotes = None, ax_resolvedAt = None, ax_createdAt = int (asc_receivedAt p)\<rparr>"

definition calculate_adherence :: "live_redis \<Rightarrow> agent_state_changed \<Rightarrow> adherence_db \<Rightarrow> adherence_db" where
  \<comment> \<open>\<open>handlePayload\<close>: one transaction\<close>
  "calculate_adherence redis p db =
     (let previousEvent = latest_event (asc_tenantId p) (asc_employeeId p) (ad_events db);
          scheduledActivity = Option.bind (readAgentLiveState (asc_tenantId p) (asc_employeeId p) redis) al_scheduledActivity;
          event = new_adherence_event (ad_next db) p scheduledActivity previousEvent;
          db1 = db\<lparr>ad_events := ad_events db @ [event], ad_next := ad_next db + 1\<rparr>
      in case previousEvent of
           Some prev \<Rightarrow>
             if av_deviationSeconds event > 0
             then db1\<lparr>ad_exceptions := ad_exceptions db1 @ [new_adherence_exception (ad_next db1) p prev event], ad_next := ad_next db1 + 1\<rparr>
             else db1
         | None \<Rightarrow> db1)"

section \<open>Exception workflow\<close>

datatype exception_error = Exception_not_found | Exception_already_resolved

definition acknowledge_exception ::
  "int \<Rightarrow> string \<Rightarrow> nat \<Rightarrow> string \<Rightarrow> adherence_db \<Rightarrow> (exception_error + adherence_exception) \<times> adherence_db" where
  "acknowledge_exception now tenantId i actorId db =
     (case find_where (\<lambda>x. ax_tenantId x = tenantId \<and> ax_id x = i) (ad_exceptions db) of
        None \<Rightarrow> (Inl Exception_not_found, db)
      | Some x \<Rightarrow>
          if ax_status x = Exception_resolved then (Inl Exception_already_resolved, db)
          else let x' = x\<lparr>ax_status := Exception_acknowledged, ax_acknowledgedBy := Some actorId, ax_acknowledgedAt := Some now\<rparr>
               in (Inr x', db\<lparr>ad_exceptions := update_where (\<lambda>r. ax_id r = ax_id x) (\<lambda>_. x') (ad_exceptions db)\<rparr>))"

definition resolve_exception ::
  "int \<Rightarrow> string \<Rightarrow> nat \<Rightarrow> string \<Rightarrow> adherence_db \<Rightarrow> (exception_error + adherence_exception) \<times> adherence_db" where
  "resolve_exception now tenantId i resolutionNotes db =
     (case find_where (\<lambda>x. ax_tenantId x = tenantId \<and> ax_id x = i) (ad_exceptions db) of
        None \<Rightarrow> (Inl Exception_not_found, db)
      | Some x \<Rightarrow>
          if ax_status x = Exception_resolved then (Inl Exception_already_resolved, db)
          else let x' = x\<lparr>ax_status := Exception_resolved, ax_resolutionNotes := Some resolutionNotes, ax_resolvedAt := Some now\<rparr>
               in (Inr x', db\<lparr>ad_exceptions := update_where (\<lambda>r. ax_id r = ax_id x) (\<lambda>_. x') (ad_exceptions db)\<rparr>))"

section \<open>Roll-ups\<close>

record rollup_row =
  ru_total_events :: nat
  ru_non_adherent_events :: nat
  ru_total_deviation_seconds :: int

type_synonym rollup_table = "string \<times> string \<times> int \<Rightarrow> rollup_row option" \<comment> \<open>tenant, employee, start of the bucket\<close>

definition rollup_of :: "adherence_event list \<Rightarrow> rollup_row" where
  "rollup_of es = \<lparr>ru_total_events = length es,
     ru_non_adherent_events = length (filter (\<lambda>v. av_scheduledActivity v \<noteq> Some ON_SHIFT_ACTIVITY) es),
     ru_total_deviation_seconds = sum_list (map av_deviationSeconds es)\<rparr>"

definition bucket_start :: "int \<Rightarrow> int \<Rightarrow> int" where
  \<comment> \<open>\<open>date_trunc\<close> to a bucket of the given width\<close>
  "bucket_start width ts = ts div width * width"

definition bucket_events :: "int \<Rightarrow> string \<times> string \<times> int \<Rightarrow> adherence_event list \<Rightarrow> adherence_event list" where
  "bucket_events width key es =
     filter (\<lambda>v. (av_tenantId v, av_employeeId v, bucket_start width (av_timestamp v)) = key) es"

definition rollup_upsert :: "int \<Rightarrow> int \<Rightarrow> adherence_event list \<Rightarrow> rollup_table \<Rightarrow> rollup_table" where
  \<comment> \<open>\<open>INSERT ... SELECT ... WHERE timestamp >= since GROUP BY ... ON CONFLICT DO UPDATE\<close>\<close>
  "rollup_upsert width since es table =
     (\<lambda>key. let group = bucket_events width key (filter (\<lambda>v. av_timestamp v \<ge> since) es)
            in if group = [] then table key else Some (rollup_of group))"

definition HOUR_MS :: int where
  "HOUR_MS = 60 * 60 * 1000"

definition DAY_MS :: int where
  "DAY_MS = 24 * 60 * 60 * 1000"

record rollups =
  ro_hourly :: rollup_table
  ro_daily :: rollup_table

datatype rollup_fault = Rollup_ok | Hourly_fails | Daily_fails

definition rollup_tick :: "rollup_fault \<Rightarrow> int \<Rightarrow> adherence_event list \<Rightarrow> rollups \<Rightarrow> rollups" where
  "rollup_tick fault now es ro =
     (if fault = Hourly_fails then ro
      else let ro1 = ro\<lparr>ro_hourly := rollup_upsert HOUR_MS (now - 2 * HOUR_MS) es (ro_hourly ro)\<rparr>
           in if fault = Daily_fails then ro1
              else ro1\<lparr>ro_daily := rollup_upsert DAY_MS (now - 2 * DAY_MS) es (ro_daily ro1)\<rparr>)"

section \<open>Exceptions are the non-adherent segments\<close>

type_synonym observation = "int \<times> string \<times> string option" \<comment> \<open>time, activity, scheduled activity\<close>

type_synonym segment = "int \<times> int \<times> string \<times> string option \<times> int" \<comment> \<open>start, end, activity, scheduled activity, seconds\<close>

definition segment :: "observation \<Rightarrow> observation \<Rightarrow> segment list" where
  "segment a b =
     (case (a, b) of ((t1, act, sched), (t2, _, _)) \<Rightarrow>
        if \<not> isAdherent sched \<and> (t2 - t1) div 1000 > 0 then [(t1, t2, act, sched, (t2 - t1) div 1000)] else [])"

fun segments :: "observation list \<Rightarrow> segment list" where
  \<comment> \<open>reference: the completed stretches spent off schedule, for at least one second\<close>
  "segments (a # b # rest) = segment a b @ segments (b # rest)"
| "segments _ = []"

definition observation_of :: "live_redis \<times> agent_state_changed \<Rightarrow> observation" where
  "observation_of rp = (int (asc_receivedAt (snd rp)), asc_currentActivity (snd rp),
     Option.bind (readAgentLiveState (asc_tenantId (snd rp)) (asc_employeeId (snd rp)) (fst rp)) al_scheduledActivity)"

definition of_agent :: "string \<Rightarrow> string \<Rightarrow> live_redis \<times> agent_state_changed \<Rightarrow> bool" where
  "of_agent t e rp \<longleftrightarrow> asc_tenantId (snd rp) = t \<and> asc_employeeId (snd rp) = e"

definition exceptions_of :: "string \<Rightarrow> string \<Rightarrow> adherence_db \<Rightarrow> segment list" where
  "exceptions_of t e db = map (\<lambda>x. (ax_startedAt x, ax_endedAt x, ax_activity x, ax_scheduledActivity x, ax_deviationSeconds x))
     (filter (\<lambda>x. ax_tenantId x = t \<and> ax_employeeId x = e) (ad_exceptions db))"

definition events_view :: "string \<Rightarrow> string \<Rightarrow> adherence_db \<Rightarrow> observation list" where
  "events_view t e db = map (\<lambda>v. (av_timestamp v, av_toActivity v, av_scheduledActivity v))
     (filter (\<lambda>v. av_tenantId v = t \<and> av_employeeId v = e) (ad_events db))"

definition empty_adherence :: adherence_db where
  "empty_adherence = \<lparr>ad_events = [], ad_exceptions = [], ad_next = 0\<rparr>"

definition adherence_run :: "(live_redis \<times> agent_state_changed) list \<Rightarrow> adherence_db" where
  \<comment> \<open>the consumer handles one message after the other\<close>
  "adherence_run msgs = foldl (\<lambda>db (redis, p). calculate_adherence redis p db) empty_adherence msgs"

lemma segments_snoc: "segments (xs @ [b]) = segments xs @ (if xs = [] then [] else segment (last xs) b)"
  by (induction xs rule: segments.induct) simp_all

lemma latest_event_last:
  assumes "sorted (map av_timestamp (filter (\<lambda>v. av_tenantId v = t \<and> av_employeeId v = e) rows))"
  shows "latest_event t e rows =
    (let mine = filter (\<lambda>v. av_tenantId v = t \<and> av_employeeId v = e) rows in if mine = [] then None else Some (last mine))"
  using assms
proof (induction rows rule: rev_induct)
  case (snoc r rows)
  let ?mine = "filter (\<lambda>v. av_tenantId v = t \<and> av_employeeId v = e) rows"
  have IH: "latest_event t e rows = (if ?mine = [] then None else Some (last ?mine))"
    using snoc by (simp add: Let_def sorted_append split: if_splits)
  have step: "latest_event t e (rows @ [r]) =
      (if av_tenantId r = t \<and> av_employeeId r = e \<and> (case latest_event t e rows of None \<Rightarrow> True | Some b \<Rightarrow> av_timestamp b \<le> av_timestamp r)
       then Some r else latest_event t e rows)"
    by (simp add: latest_event_def)
  show ?case
  proof (cases "av_tenantId r = t \<and> av_employeeId r = e")
    case True
    have "?mine \<noteq> [] \<Longrightarrow> av_timestamp (last ?mine) \<le> av_timestamp r"
      using snoc.prems True last_in_set[of ?mine] by (simp add: sorted_append)
    with True step IH show ?thesis by (simp add: Let_def)
  next
    case False
    then have "filter (\<lambda>v. av_tenantId v = t \<and> av_employeeId v = e) (rows @ [r]) = ?mine" by auto
    then show ?thesis using False step IH by (simp only: Let_def) auto
  qed
qed (simp add: latest_event_def)

lemma calculate_views:
  assumes "sorted (map fst (events_view t e db))"
  shows "events_view t e (calculate_adherence redis p db) = events_view t e db @ (if of_agent t e (redis, p) then [observation_of (redis, p)] else [])"
    and "exceptions_of t e (calculate_adherence redis p db) = exceptions_of t e db @
      (if of_agent t e (redis, p) \<and> events_view t e db \<noteq> [] then segment (last (events_view t e db)) (observation_of (redis, p)) else [])"
proof -
  let ?sched = "Option.bind (readAgentLiveState (asc_tenantId p) (asc_employeeId p) redis) al_scheduledActivity"
  let ?prev = "latest_event (asc_tenantId p) (asc_employeeId p) (ad_events db)"
  show "events_view t e (calculate_adherence redis p db) = events_view t e db @ (if of_agent t e (redis, p) then [observation_of (redis, p)] else [])"
    by (auto simp: calculate_adherence_def events_view_def Let_def new_adherence_event_def of_agent_def observation_of_def split: option.split)
  show "exceptions_of t e (calculate_adherence redis p db) = exceptions_of t e db @
      (if of_agent t e (redis, p) \<and> events_view t e db \<noteq> [] then segment (last (events_view t e db)) (observation_of (redis, p)) else [])"
  proof (cases "of_agent t e (redis, p)")
    case False
    then show ?thesis
      by (auto simp: calculate_adherence_def exceptions_of_def Let_def new_adherence_exception_def of_agent_def split: option.split)
  next
    case True
    let ?mine = "filter (\<lambda>v. av_tenantId v = t \<and> av_employeeId v = e) (ad_events db)"
    have te: "asc_tenantId p = t" "asc_employeeId p = e" using True by (simp_all add: of_agent_def)
    have prev: "?prev = (if ?mine = [] then None else Some (last ?mine))"
      using latest_event_last[of t e "ad_events db"] assms by (simp add: te events_view_def comp_def Let_def)
    show ?thesis
    proof (cases "?mine = []")
      case True
      then show ?thesis using prev by (simp add: calculate_adherence_def exceptions_of_def events_view_def Let_def)
    next
      case False
      have last: "last (events_view t e db) = (av_timestamp (last ?mine), av_toActivity (last ?mine), av_scheduledActivity (last ?mine))"
        using False by (simp add: events_view_def last_map)
      show ?thesis
        using False prev True te last
        by (auto simp: calculate_adherence_def exceptions_of_def events_view_def Let_def new_adherence_exception_def new_adherence_event_def
            computeDeviationSeconds_def segment_def observation_of_def max_def)
    qed
  qed
qed

lemma adherence_run_views:
  assumes "sorted (map fst (map observation_of (filter (of_agent t e) msgs)))"
  shows "events_view t e (adherence_run msgs) = map observation_of (filter (of_agent t e) msgs) \<and>
    exceptions_of t e (adherence_run msgs) = segments (map observation_of (filter (of_agent t e) msgs))"
  using assms
proof (induction msgs rule: rev_induct)
  case Nil
  show ?case by (simp add: adherence_run_def empty_adherence_def events_view_def exceptions_of_def)
next
  case (snoc m msgs)
  obtain redis p where m: "m = (redis, p)" by (cases m)
  have sorted: "sorted (map fst (map observation_of (filter (of_agent t e) msgs)))"
    using snoc.prems by (simp add: sorted_append split: if_splits)
  note IH = snoc.IH[OF sorted]
  have run: "adherence_run (msgs @ [m]) = calculate_adherence redis p (adherence_run msgs)" by (simp add: adherence_run_def m)
  have "sorted (map fst (events_view t e (adherence_run msgs)))" using IH sorted by simp
  from calculate_views[OF this, of redis p] IH show ?case
    unfolding run by (simp add: m segments_snoc)
qed

text \<open>
  Property C38. The exceptions of an agent are exactly the stretches it spent off schedule. When the
  messages of an agent are handled in the order of their times, whatever the messages of other agents and
  tenants in between, the exceptions opened for it are, in order, the completed segments of at least one
  second during which it was not scheduled to be on shift, each with its activity, its bounds and its
  length in whole seconds.
\<close>

theorem exceptions_are_off_schedule_segments:
  assumes "sorted (map (\<lambda>m. asc_receivedAt (snd m)) (filter (of_agent t e) msgs))"
  shows "exceptions_of t e (adherence_run msgs) = segments (map observation_of (filter (of_agent t e) msgs))"
proof -
  have "map fst (map observation_of (filter (of_agent t e) msgs)) = map int (map (\<lambda>m. asc_receivedAt (snd m)) (filter (of_agent t e) msgs))"
    by (simp add: observation_of_def comp_def)
  then have "sorted (map fst (map observation_of (filter (of_agent t e) msgs)))"
    using assms by (simp add: sorted_map comp_def observation_of_def del: map_map)
  then show ?thesis using adherence_run_views by blast
qed

definition demo_message :: "nat \<Rightarrow> string \<Rightarrow> live_redis \<times> agent_state_changed" where
  "demo_message now activity = (empty_redis, (demo_payload None)\<lparr>asc_receivedAt := now, asc_currentActivity := activity\<rparr>)"

theorem exceptions_are_off_schedule_segments_witness:
  "exceptions_of ''t'' ''e'' (adherence_run [demo_message 1000 ''ready'', demo_message 4500 ''busy'', demo_message 4600 ''ready'']) =
     [(1000, 4500, ''ready'', None, 3)]"
proof -
  let ?msgs = "[demo_message 1000 ''ready'', demo_message 4500 ''busy'', demo_message 4600 ''ready'']"
  have f: "filter (of_agent ''t'' ''e'') ?msgs = ?msgs" by (simp add: of_agent_def demo_message_def demo_payload_def)
  have "segments (map observation_of ?msgs) = [(1000, 4500, ''ready'', None, 3)]"
    by (simp add: demo_message_def demo_payload_def observation_of_def segment_def isAdherent_def readAgentLiveState_def empty_redis_def Let_def)
  moreover have "sorted (map (\<lambda>m. asc_receivedAt (snd m)) (filter (of_agent ''t'' ''e'') ?msgs))"
    unfolding f by (simp add: demo_message_def)
  ultimately show ?thesis using exceptions_are_off_schedule_segments[of "''t''" "''e''" ?msgs] unfolding f by simp
qed

text \<open>
  A message that is delivered again after its transaction committed is not recognised: it adds a second
  event whose previous activity is its own and whose deviation is zero.
\<close>

theorem redelivered_event_is_recorded_again:
  assumes "calculate_adherence redis p db = db1" "calculate_adherence redis' p db1 = db2"
    and "sorted (map fst (events_view (asc_tenantId p) (asc_employeeId p) db))"
    and "\<And>v. v \<in> set (ad_events db) \<Longrightarrow> av_tenantId v = asc_tenantId p \<Longrightarrow> av_employeeId v = asc_employeeId p \<Longrightarrow> av_timestamp v \<le> int (asc_receivedAt p)"
  shows "\<exists>v. ad_events db2 = ad_events db1 @ [v] \<and> av_fromActivity v = Some (asc_currentActivity p) \<and>
    av_toActivity v = asc_currentActivity p \<and> av_deviationSeconds v = 0"
proof -
  let ?t = "asc_tenantId p" and ?e = "asc_employeeId p"
  obtain v where v: "ad_events db1 = ad_events db @ [v]" "av_tenantId v = ?t" "av_employeeId v = ?e" "av_timestamp v = int (asc_receivedAt p)"
    "av_toActivity v = asc_currentActivity p"
    using assms(1) by (auto simp: calculate_adherence_def Let_def new_adherence_event_def split: option.splits if_splits)
  have "sorted (map av_timestamp (filter (\<lambda>v. av_tenantId v = ?t \<and> av_employeeId v = ?e) (ad_events db1)))"
    using assms(3,4) v by (auto simp: events_view_def comp_def sorted_append)
  then have "latest_event ?t ?e (ad_events db1) = Some v" using v by (simp add: latest_event_last Let_def)
  then show ?thesis
    using assms(2) v by (auto simp: calculate_adherence_def Let_def new_adherence_event_def computeDeviationSeconds_def)
qed

section \<open>Resolved exceptions stay resolved\<close>

datatype exception_op = Acknowledge int string nat string | Resolve int string nat string

fun exception_do :: "exception_op \<Rightarrow> adherence_db \<Rightarrow> adherence_db" where
  "exception_do (Acknowledge now t i actor) db = snd (acknowledge_exception now t i actor db)"
| "exception_do (Resolve now t i reason) db = snd (resolve_exception now t i reason db)"

lemma exception_do_keeps_resolved:
  assumes "x \<in> set (ad_exceptions db)" "ax_status x = Exception_resolved" "distinct (map ax_id (ad_exceptions db))"
  shows "x \<in> set (ad_exceptions (exception_do op db)) \<and> map ax_id (ad_exceptions (exception_do op db)) = map ax_id (ad_exceptions db)"
proof -
  have keep: "x \<in> set (update_where (\<lambda>r. ax_id r = ax_id y) (\<lambda>_. y') (ad_exceptions db)) \<and>
      map ax_id (update_where (\<lambda>r. ax_id r = ax_id y) (\<lambda>_. y') (ad_exceptions db)) = map ax_id (ad_exceptions db)"
    if y: "y \<in> set (ad_exceptions db)" "ax_status y \<noteq> Exception_resolved" "ax_id y' = ax_id y" for y y'
  proof -
    have "ax_id x \<noteq> ax_id y" using y assms by (metis distinct_map inj_onD)
    then have "x \<in> set (update_where (\<lambda>r. ax_id r = ax_id y) (\<lambda>_. y') (ad_exceptions db))"
      using update_where_mem[OF assms(1), of "\<lambda>r. ax_id r = ax_id y" "\<lambda>_. y'"] by simp
    then show ?thesis using y(3) by (auto simp: update_where_def)
  qed
  show ?thesis
  proof (cases op)
    case (Acknowledge now t i actor)
    then show ?thesis
      using assms(1) keep by (auto simp: acknowledge_exception_def Let_def dest!: find_where_SomeD split: option.split)
  next
    case (Resolve now t i reason)
    then show ?thesis
      using assms(1) keep by (auto simp: resolve_exception_def Let_def dest!: find_where_SomeD split: option.split)
  qed
qed

text \<open>Whatever supervisors do afterwards, in whichever order, a resolved exception keeps its row unchanged.\<close>

theorem resolved_exception_is_final:
  assumes "x \<in> set (ad_exceptions db)" "ax_status x = Exception_resolved" "distinct (map ax_id (ad_exceptions db))"
  shows "x \<in> set (ad_exceptions (fold exception_do ops db))"
  using assms
proof (induction ops arbitrary: db)
  case (Cons op ops)
  then show ?case using exception_do_keeps_resolved[OF Cons.prems, of op] by simp
qed simp

section \<open>Roll-ups\<close>

lemma upsert_covered:
  \<comment> \<open>a bucket that lies in the window is aggregated completely\<close>
  assumes "since \<le> b" "width > 0"
  shows "bucket_events width (t, e, b) (filter (\<lambda>v. av_timestamp v \<ge> since) es) = bucket_events width (t, e, b) es"
proof -
  have "bucket_start width ts \<le> ts" for ts
  proof -
    have "ts mod width \<ge> 0" using assms(2) by (rule pos_mod_sign)
    then show ?thesis using div_mult_mod_eq[of ts width] unfolding bucket_start_def by linarith
  qed
  then have "(av_tenantId v, av_employeeId v, bucket_start width (av_timestamp v)) = (t, e, b) \<Longrightarrow> since \<le> av_timestamp v" for v
    using assms(1) by (smt (verit) prod.inject)
  then show ?thesis by (auto simp: bucket_events_def intro!: filter_cong)
qed

lemma tick_daily:
  "ro_daily (rollup_tick Rollup_ok now es ro) = rollup_upsert DAY_MS (now - 2 * DAY_MS) es (ro_daily ro)"
  by (simp add: rollup_tick_def Let_def)

text \<open>
  The daily roll-up forgets most of each day. A tick covers the days that begin within the
  last 48 hours completely, but it also recomputes the day before them from the events that still lie in
  the window and overwrites the complete row with that part. The last tick that reaches a day \<open>d\<close>, at
  23:00 two days later (plus the delay of the timer), thus leaves a row that counts only the events of its last hour (if it has any),
  and no later tick touches the row again.
\<close>

theorem daily_rollup_truncated:
  fixes d delay :: int and t e :: string and es :: "adherence_event list"
  defines "b \<equiv> d * DAY_MS" and "last_tick \<equiv> d * DAY_MS + 2 * DAY_MS + 23 * HOUR_MS + delay"
  defines "late \<equiv> filter (\<lambda>v. av_timestamp v \<ge> b + 23 * HOUR_MS + delay) (bucket_events DAY_MS (t, e, b) es)"
  assumes "late \<noteq> []" "\<And>n. n \<in> set later \<Longrightarrow> n \<ge> d * DAY_MS + 3 * DAY_MS"
  shows "ro_daily (rollup_tick Rollup_ok (b + DAY_MS) es ro) (t, e, b) = Some (rollup_of (bucket_events DAY_MS (t, e, b) es)) \<and>
    ro_daily (fold (\<lambda>n. rollup_tick Rollup_ok n es) later (rollup_tick Rollup_ok last_tick es ro)) (t, e, b) = Some (rollup_of late)"
proof
  have pos: "DAY_MS > 0" "HOUR_MS > 0" by (simp_all add: DAY_MS_def HOUR_MS_def)
  have all: "bucket_events DAY_MS (t, e, b) es \<noteq> []" using assms(4) by (auto simp: late_def)
  have "bucket_events DAY_MS (t, e, b) (filter (\<lambda>v. av_timestamp v \<ge> b + DAY_MS - 2 * DAY_MS) es) = bucket_events DAY_MS (t, e, b) es"
    using pos by (intro upsert_covered) auto
  with all show "ro_daily (rollup_tick Rollup_ok (b + DAY_MS) es ro) (t, e, b) = Some (rollup_of (bucket_events DAY_MS (t, e, b) es))"
    by (simp add: tick_daily rollup_upsert_def Let_def)
  have "bucket_events DAY_MS (t, e, b) (filter (\<lambda>v. av_timestamp v \<ge> last_tick - 2 * DAY_MS) es) = late"
    unfolding late_def bucket_events_def last_tick_def b_def by (simp add: conj_commute add.assoc)
  with assms(4) have row: "ro_daily (rollup_tick Rollup_ok last_tick es ro) (t, e, b) = Some (rollup_of late)"
    by (simp add: tick_daily rollup_upsert_def Let_def)
  have untouched: "ro_daily (rollup_tick Rollup_ok n es ro') (t, e, b) = ro_daily ro' (t, e, b)" if "n \<ge> d * DAY_MS + 3 * DAY_MS" for n ro'
  proof -
    have "av_timestamp v < n - 2 * DAY_MS" if "bucket_start DAY_MS (av_timestamp v) = b" for v
    proof -
      have "av_timestamp v div DAY_MS = d" using that pos(1) by (simp add: bucket_start_def b_def)
      then have "av_timestamp v = d * DAY_MS + av_timestamp v mod DAY_MS" using div_mult_mod_eq[of "av_timestamp v" DAY_MS] by simp
      moreover have "av_timestamp v mod DAY_MS < DAY_MS" using pos(1) by (rule pos_mod_bound)
      ultimately show ?thesis using \<open>n \<ge> d * DAY_MS + 3 * DAY_MS\<close> by linarith
    qed
    then have "bucket_events DAY_MS (t, e, b) (filter (\<lambda>v. av_timestamp v \<ge> n - 2 * DAY_MS) es) = []"
      by (force simp: bucket_events_def filter_empty_conv)
    then show ?thesis by (simp add: tick_daily rollup_upsert_def)
  qed
  show "ro_daily (fold (\<lambda>n. rollup_tick Rollup_ok n es) later (rollup_tick Rollup_ok last_tick es ro)) (t, e, b) = Some (rollup_of late)"
    using assms(5) row
  proof (induction later rule: rev_induct)
    case (snoc n later)
    then show ?case by (simp add: untouched)
  qed simp
qed

definition demo_adherence_event :: "nat \<Rightarrow> int \<Rightarrow> adherence_event" where
  "demo_adherence_event i ts = \<lparr>av_id = i, av_tenantId = ''t'', av_employeeId = ''e'', av_fromActivity = None, av_toActivity = ''ready'',
     av_scheduledActivity = None, av_deviationSeconds = 60, av_timestamp = ts\<rparr>"

theorem daily_rollup_truncated_witness:
  defines "es \<equiv> [demo_adherence_event 0 (9 * HOUR_MS), demo_adherence_event 1 (14 * HOUR_MS), demo_adherence_event 2 (23 * HOUR_MS + 60000)]"
    and "ro \<equiv> \<lparr>ro_hourly = (\<lambda>_. None), ro_daily = (\<lambda>_. None)\<rparr>"
  shows "map_option ru_total_events (ro_daily (rollup_tick Rollup_ok DAY_MS es ro) (''t'', ''e'', 0)) = Some 3 \<and>
    map_option ru_total_events (ro_daily (fold (\<lambda>n. rollup_tick Rollup_ok n es) [3 * DAY_MS]
      (rollup_tick Rollup_ok (2 * DAY_MS + 23 * HOUR_MS + 50) es ro)) (''t'', ''e'', 0)) = Some 1"
proof -
  let ?all = "bucket_events DAY_MS (''t'', ''e'', 0) es"
  let ?late = "filter (\<lambda>v. av_timestamp v \<ge> 23 * HOUR_MS + 50) ?all"
  have all: "?all = es" and late: "?late = [demo_adherence_event 2 (23 * HOUR_MS + 60000)]"
    unfolding es_def by (simp_all add: bucket_events_def demo_adherence_event_def bucket_start_def HOUR_MS_def DAY_MS_def)
  have "ro_daily (rollup_tick Rollup_ok DAY_MS es ro) (''t'', ''e'', 0) = Some (rollup_of ?all) \<and>
    ro_daily (fold (\<lambda>n. rollup_tick Rollup_ok n es) [3 * DAY_MS] (rollup_tick Rollup_ok (2 * DAY_MS + 23 * HOUR_MS + 50) es ro)) (''t'', ''e'', 0) =
      Some (rollup_of ?late)"
    using daily_rollup_truncated[of 0 50 "''t''" "''e''" es "[3 * DAY_MS]" ro] late by simp
  moreover have "ru_total_events (rollup_of ?all) = 3" "ru_total_events (rollup_of ?late) = 1"
    unfolding late unfolding all by (simp_all add: rollup_of_def es_def)
  ultimately show ?thesis by simp
qed

end
