(* ===== verification/Intraday_Alerts.thy ===== *)
theory Intraday_Alerts
  imports WFM_Prelude
begin

text \<open>
  Alerts of the intraday service (\<open>intraday-service/src/alerting\<close>): the detector, the pipeline with
  deduplication and suppression, acknowledgement, automatic resolution and escalation. The numbers of a
  queue are of any linearly ordered type with the floating-point operations as parameters, so nothing
  rests on exact arithmetic. The messages published on the subscription channel are kept in order.
\<close>

section \<open>Data\<close>

datatype alert_severity = Warning | Critical

datatype alert_status = Alert_open | Alert_acknowledged | Alert_suppressed | Alert_resolved

record alert =
  at_id :: nat
  at_tenantId :: string
  at_alertType :: string
  at_severity :: alert_severity
  at_orgUnitId :: "string option"
  at_queueId :: "string option"
  at_status :: alert_status
  at_dedupGroupId :: nat
  at_createdAt :: int
  at_lastTriggeredAt :: int
  at_escalatedAt :: "int option"
  at_acknowledgedBy :: "string option"
  at_acknowledgedAt :: "int option"
  at_resolvedAt :: "int option"

record suppression_rule =
  sr_alertType :: string
  sr_queueId :: "string option"
  sr_startHourUtc :: nat
  sr_endHourUtc :: nat

record alert_policy =
  ap_dedupWindowMinutes :: int
  ap_suppressionAckWindowMinutes :: int
  ap_escalationThresholdMinutes :: int
  ap_suppressionRules :: "suppression_rule list"

record alert_candidate =
  cd_tenantId :: string
  cd_alertType :: string
  cd_queueId :: "string option"
  cd_severity :: alert_severity

record alert_db =
  db_alerts :: "alert list"
  db_policies :: "string \<Rightarrow> alert_policy option"
  db_published :: "alert list" \<comment> \<open>payloads of \<open>alertRaised\<close>\<close>
  db_next :: nat \<comment> \<open>the next drawn identifier\<close>

section \<open>Policy\<close>

definition DEFAULT_ALERT_POLICY :: alert_policy where
  "DEFAULT_ALERT_POLICY = \<lparr>ap_dedupWindowMinutes = 5, ap_suppressionAckWindowMinutes = 15,
     ap_escalationThresholdMinutes = 15, ap_suppressionRules = []\<rparr>"

definition getPolicy :: "alert_db \<Rightarrow> string \<Rightarrow> alert_policy" where
  "getPolicy db tenantId = the_default (db_policies db tenantId) DEFAULT_ALERT_POLICY"

definition isHourWithinWindow :: "nat \<Rightarrow> nat \<Rightarrow> nat \<Rightarrow> bool" where
  "isHourWithinWindow hour startHourUtc endHourUtc =
     (if startHourUtc \<le> endHourUtc then hour \<ge> startHourUtc \<and> hour < endHourUtc
      else hour \<ge> startHourUtc \<or> hour < endHourUtc)"

definition getUTCHours :: "int \<Rightarrow> nat" where
  "getUTCHours now = nat (now div 3600000 mod 24)"

definition matchesSuppressionRule :: "suppression_rule list \<Rightarrow> string \<Rightarrow> string option \<Rightarrow> int \<Rightarrow> bool" where
  "matchesSuppressionRule rules alertType queueId now =
     list_ex (\<lambda>rule. sr_alertType rule = alertType \<and> \<not> (sr_queueId rule \<noteq> None \<and> sr_queueId rule \<noteq> queueId) \<and>
                     isHourWithinWindow (getUTCHours now) (sr_startHourUtc rule) (sr_endHourUtc rule)) rules"

section \<open>Pipeline\<close>

definition withinMinutes :: "int \<Rightarrow> int \<Rightarrow> int \<Rightarrow> bool" where
  "withinMinutes from to minutes \<longleftrightarrow> to - from < minutes * 60000"

definition same_cause :: "string \<Rightarrow> string option \<Rightarrow> string \<Rightarrow> alert \<Rightarrow> bool" where
  "same_cause tenantId queueId alertType a \<longleftrightarrow> at_tenantId a = tenantId \<and> at_queueId a = queueId \<and> at_alertType a = alertType"

definition most_recent :: "(alert \<Rightarrow> bool) \<Rightarrow> alert list \<Rightarrow> alert option" where
  \<comment> \<open>\<open>findOne\<close> with \<open>order: \{ createdAt: 'DESC' \}\<close>; on a tie the later inserted row, where SQL leaves the choice open\<close>
  "most_recent P rows =
     foldl (\<lambda>best r. if P r \<and> (case best of None \<Rightarrow> True | Some b \<Rightarrow> at_createdAt b \<le> at_createdAt r) then Some r else best) None rows"

definition save_alert :: "alert \<Rightarrow> alert_db \<Rightarrow> alert_db" where
  "save_alert a db = db\<lparr>db_alerts := update_where (\<lambda>r. at_id r = at_id a) (\<lambda>_. a) (db_alerts db)\<rparr>"

definition publishAlertRaised :: "alert \<Rightarrow> alert_db \<Rightarrow> alert_db" where
  "publishAlertRaised a db = db\<lparr>db_published := db_published db @ [a]\<rparr>"

definition recently_acknowledged :: "int \<Rightarrow> alert_policy \<Rightarrow> alert option \<Rightarrow> bool" where
  "recently_acknowledged now policy mostRecent =
     (case mostRecent of
        None \<Rightarrow> False
      | Some m \<Rightarrow> at_status m = Alert_acknowledged \<and>
          (case at_acknowledgedAt m of None \<Rightarrow> False | Some t \<Rightarrow> withinMinutes t now (ap_suppressionAckWindowMinutes policy)))"

definition new_alert :: "int \<Rightarrow> nat \<Rightarrow> alert_candidate \<Rightarrow> alert option \<Rightarrow> bool \<Rightarrow> alert" where
  "new_alert now i c mostRecent suppressed =
     \<lparr>at_id = i, at_tenantId = cd_tenantId c, at_alertType = cd_alertType c, at_severity = cd_severity c, at_orgUnitId = None,
      at_queueId = cd_queueId c, at_status = (if suppressed then Alert_suppressed else Alert_open),
      at_dedupGroupId = (case mostRecent of Some m \<Rightarrow> at_dedupGroupId m | None \<Rightarrow> i + 1), at_createdAt = now,
      at_lastTriggeredAt = now, at_escalatedAt = None, at_acknowledgedBy = None, at_acknowledgedAt = None, at_resolvedAt = None\<rparr>"

definition raiseAlert :: "int \<Rightarrow> alert_candidate \<Rightarrow> alert_db \<Rightarrow> alert_db" where
  "raiseAlert now c db =
     (let policy = getPolicy db (cd_tenantId c);
          mostRecent = most_recent (\<lambda>a. same_cause (cd_tenantId c) (cd_queueId c) (cd_alertType c) a \<and> at_status a \<noteq> Alert_resolved) (db_alerts db);
          insert = (let suppressed = recently_acknowledged now policy mostRecent \<or>
                          matchesSuppressionRule (ap_suppressionRules policy) (cd_alertType c) (cd_queueId c) now;
                        a = new_alert now (db_next db) c mostRecent suppressed;
                        db1 = db\<lparr>db_alerts := db_alerts db @ [a], db_next := db_next db + 2\<rparr>
                    in if at_status a = Alert_open then publishAlertRaised a db1 else db1)
      in case mostRecent of
           None \<Rightarrow> insert
         | Some m \<Rightarrow> if withinMinutes (at_createdAt m) now (ap_dedupWindowMinutes policy)
                      then save_alert (m\<lparr>at_lastTriggeredAt := now\<rparr>) db else insert)"

definition resolveAlert :: "int \<Rightarrow> string \<Rightarrow> string option \<Rightarrow> string \<Rightarrow> alert_db \<Rightarrow> alert_db" where
  "resolveAlert now tenantId queueId alertType db =
     (case most_recent (\<lambda>a. same_cause tenantId queueId alertType a \<and>
               at_status a \<in> {Alert_open, Alert_acknowledged, Alert_suppressed}) (db_alerts db) of
        None \<Rightarrow> db
      | Some m \<Rightarrow> save_alert (m\<lparr>at_status := Alert_resolved, at_resolvedAt := Some now\<rparr>) db)"

definition acknowledge_alert :: "int \<Rightarrow> string \<Rightarrow> nat \<Rightarrow> string \<Rightarrow> alert_db \<Rightarrow> alert option \<times> alert_db" where
  \<comment> \<open>\<open>None\<close> is \<open>AlertNotFoundError\<close>\<close>
  "acknowledge_alert now tenantId alertId actorId db =
     (case find_where (\<lambda>a. at_tenantId a = tenantId \<and> at_id a = alertId) (db_alerts db) of
        None \<Rightarrow> (None, db)
      | Some a \<Rightarrow> let a' = a\<lparr>at_status := Alert_acknowledged, at_acknowledgedBy := Some actorId, at_acknowledgedAt := Some now\<rparr>
                   in (Some a', save_alert a' db))"

definition listActiveAlerts :: "string \<Rightarrow> alert_db \<Rightarrow> alert list" where
  "listActiveAlerts tenantId db =
     js_sort (\<lambda>a b. at_createdAt a \<ge> at_createdAt b)
       (filter (\<lambda>a. at_tenantId a = tenantId \<and> at_status a \<in> {Alert_open, Alert_acknowledged}) (db_alerts db))"

section \<open>Detector\<close>

record 'n float_ops =
  f_sub :: "'n \<Rightarrow> 'n \<Rightarrow> 'n"
  f_div :: "'n \<Rightarrow> 'n \<Rightarrow> 'n"
  f_criticalDeficit :: 'n \<comment> \<open>\<open>CRITICAL_DEFICIT_RATIO\<close>\<close>
  f_surplusThreshold :: 'n \<comment> \<open>\<open>SURPLUS_THRESHOLD\<close>\<close>

record 'n queue_live_state =
  ql_currentVolume :: 'n
  ql_agentsAvailable :: int
  ql_agentsOnCall :: int
  ql_forecastedVolume :: "'n option"
  ql_serviceLevelCurrent :: "'n option"
  ql_serviceLevelTarget :: "'n option"

definition SERVICE_LEVEL_BREACH_ALERT_TYPE :: string where
  "SERVICE_LEVEL_BREACH_ALERT_TYPE = ''service_level_breach''"

definition computeSeverity :: "('n :: linorder) float_ops \<Rightarrow> 'n \<Rightarrow> 'n \<Rightarrow> alert_severity" where
  "computeSeverity fl current target =
     (if f_div fl (f_sub fl target current) target > f_criticalDeficit fl then Critical else Warning)"

definition alert_evaluateQueueMetrics ::
  "('n :: linorder) float_ops \<Rightarrow> int \<Rightarrow> string \<Rightarrow> string \<Rightarrow> 'n queue_live_state \<Rightarrow> alert_db \<Rightarrow> alert_db" where
  "alert_evaluateQueueMetrics fl now tenantId queueId r db =
     (case (ql_serviceLevelCurrent r, ql_serviceLevelTarget r) of
        (Some current, Some target) \<Rightarrow>
          if current < target
          then raiseAlert now \<lparr>cd_tenantId = tenantId, cd_alertType = SERVICE_LEVEL_BREACH_ALERT_TYPE, cd_queueId = Some queueId,
                               cd_severity = computeSeverity fl current target\<rparr> db
          else resolveAlert now tenantId (Some queueId) SERVICE_LEVEL_BREACH_ALERT_TYPE db
      | _ \<Rightarrow> db)"

section \<open>Escalation\<close>

definition escalation_candidates :: "int \<Rightarrow> alert_db \<Rightarrow> alert list" where
  "escalation_candidates now db =
     filter (\<lambda>a. at_status a = Alert_open \<and> at_severity a = Warning \<and>
                 at_createdAt a < now - (case db_policies db (at_tenantId a) of None \<Rightarrow> 15 | Some p \<Rightarrow> ap_escalationThresholdMinutes p) * 60000)
       (db_alerts db)"

definition escalate_row :: "int \<Rightarrow> alert \<Rightarrow> alert_db \<Rightarrow> alert_db" where
  \<comment> \<open>\<open>row\<close> is as selected, the update goes by the identifier\<close>
  "escalate_row now row db =
     publishAlertRaised (row\<lparr>at_severity := Critical, at_status := Alert_open, at_escalatedAt := Some now, at_acknowledgedBy := None,
                            at_acknowledgedAt := None, at_resolvedAt := None\<rparr>)
       (db\<lparr>db_alerts := update_where (\<lambda>r. at_id r = at_id row) (\<lambda>r. r\<lparr>at_severity := Critical, at_escalatedAt := Some now\<rparr>) (db_alerts db)\<rparr>)"

definition escalateStaleAlerts :: "int \<Rightarrow> alert_db \<Rightarrow> alert_db" where
  "escalateStaleAlerts now db = fold (escalate_row now) (escalation_candidates now db) db"

section \<open>Most recent row\<close>

lemma most_recent_snoc:
  "most_recent P (rows @ [r]) =
     (if P r \<and> (case most_recent P rows of None \<Rightarrow> True | Some b \<Rightarrow> at_createdAt b \<le> at_createdAt r) then Some r else most_recent P rows)"
  by (simp add: most_recent_def)

lemma most_recent_spec:
  "(most_recent P rows = None \<longrightarrow> (\<forall>r\<in>set rows. \<not> P r)) \<and>
   (\<forall>m. most_recent P rows = Some m \<longrightarrow> m \<in> set rows \<and> P m \<and> (\<forall>r\<in>set rows. P r \<longrightarrow> at_createdAt r \<le> at_createdAt m))"
proof (induction rows rule: rev_induct)
  case (snoc r rows)
  show ?case
  proof (cases "most_recent P rows")
    case None
    with snoc show ?thesis by (auto simp: most_recent_snoc)
  next
    case (Some m)
    then have m: "m \<in> set rows" "P m" "\<And>x. x \<in> set rows \<Longrightarrow> P x \<Longrightarrow> at_createdAt x \<le> at_createdAt m"
      using snoc.IH by blast+
    show ?thesis
    proof (cases "P r \<and> at_createdAt m \<le> at_createdAt r")
      case True
      then have "most_recent P (rows @ [r]) = Some r" using Some by (simp add: most_recent_snoc)
      with True m(3) show ?thesis by (auto intro: order_trans)
    next
      case False
      then have "most_recent P (rows @ [r]) = Some m" using Some by (auto simp: most_recent_snoc)
      with False m show ?thesis by auto
    qed
  qed
qed (simp add: most_recent_def)

lemma most_recent_None: "most_recent P rows = None \<Longrightarrow> r \<in> set rows \<Longrightarrow> \<not> P r"
  using most_recent_spec by blast

lemma most_recent_Some:
  assumes "most_recent P rows = Some m"
  shows "m \<in> set rows" "P m" "r \<in> set rows \<Longrightarrow> P r \<Longrightarrow> at_createdAt r \<le> at_createdAt m"
  using assms most_recent_spec by blast+

section \<open>Spacing of alerts\<close>

definition live_alert :: "alert \<Rightarrow> bool" where
  "live_alert a \<longleftrightarrow> at_status a \<noteq> Alert_resolved"

definition cause :: "alert \<Rightarrow> string \<times> string option \<times> string" where
  "cause a = (at_tenantId a, at_queueId a, at_alertType a)"

definition alerts_apart :: "alert_db \<Rightarrow> alert \<Rightarrow> alert \<Rightarrow> bool" where
  "alerts_apart db a b \<longleftrightarrow> \<bar>at_createdAt a - at_createdAt b\<bar> \<ge> ap_dedupWindowMinutes (getPolicy db (at_tenantId a)) * 60000"

definition alert_inv :: "int \<Rightarrow> alert_db \<Rightarrow> bool" where
  "alert_inv now db \<longleftrightarrow>
     distinct (map at_id (db_alerts db)) \<and> (\<forall>a\<in>set (db_alerts db). at_id a < db_next db \<and> at_createdAt a \<le> now) \<and>
     (\<forall>a\<in>set (db_alerts db). \<forall>b\<in>set (db_alerts db).
        cause a = cause b \<longrightarrow> live_alert a \<longrightarrow> live_alert b \<longrightarrow> at_id a \<noteq> at_id b \<longrightarrow> alerts_apart db a b)"

lemma same_cause_iff: "same_cause t q ty a \<longleftrightarrow> cause a = (t, q, ty)"
  by (auto simp: same_cause_def cause_def)

lemma alert_inv_map:
  assumes inv: "alert_inv now db" and alerts: "db_alerts db' = map f (db_alerts db)"
    and frame: "db_policies db' = db_policies db" "db_next db' = db_next db"
    and f: "\<And>a. a \<in> set (db_alerts db) \<Longrightarrow> at_id (f a) = at_id a \<and> cause (f a) = cause a \<and> at_createdAt (f a) = at_createdAt a \<and> (live_alert (f a) \<longrightarrow> live_alert a)"
  shows "alert_inv now db'"
proof -
  have "map at_id (map f (db_alerts db)) = map at_id (db_alerts db)" using f by simp
  then have "distinct (map at_id (map f (db_alerts db)))" using inv by (simp only: alert_inv_def)
  moreover have "alerts_apart db' (f a) (f b) \<longleftrightarrow> alerts_apart db a b" if "a \<in> set (db_alerts db)" "b \<in> set (db_alerts db)" for a b
    using f[OF that(1)] f[OF that(2)] frame by (simp add: alerts_apart_def getPolicy_def cause_def)
  ultimately show ?thesis using inv f unfolding alert_inv_def alerts frame(2) by (simp add: comp_def)
qed

lemma update_where_map: "update_where P f rows = map (\<lambda>r. if P r then f r else r) rows"
  by (simp add: update_where_def)

lemma alert_inv_save:
  assumes inv: "alert_inv now db" and m: "m \<in> set (db_alerts db)"
    and m': "at_id m' = at_id m" "cause m' = cause m" "at_createdAt m' = at_createdAt m" "live_alert m' \<longrightarrow> live_alert m"
  shows "alert_inv now (save_alert m' db)"
proof (rule alert_inv_map[OF inv])
  show "db_alerts (save_alert m' db) = map (\<lambda>r. if at_id r = at_id m' then m' else r) (db_alerts db)"
    by (simp add: save_alert_def update_where_map)
  fix a
  assume a: "a \<in> set (db_alerts db)"
  have "a = m" if "at_id a = at_id m'"
    using that a m m'(1) inv by (simp add: alert_inv_def distinct_map inj_on_def)
  then show "at_id (if at_id a = at_id m' then m' else a) = at_id a \<and> cause (if at_id a = at_id m' then m' else a) = cause a \<and>
      at_createdAt (if at_id a = at_id m' then m' else a) = at_createdAt a \<and> (live_alert (if at_id a = at_id m' then m' else a) \<longrightarrow> live_alert a)"
    using m' by auto
qed (simp_all add: save_alert_def)

lemma alert_inv_insert:
  assumes inv: "alert_inv now db" and a: "at_id a = db_next db" "at_createdAt a = now"
    and gap: "\<And>b. b \<in> set (db_alerts db) \<Longrightarrow> cause b = cause a \<Longrightarrow> live_alert b \<Longrightarrow>
       now - at_createdAt b \<ge> ap_dedupWindowMinutes (getPolicy db (at_tenantId a)) * 60000"
    and db': "db_alerts db' = db_alerts db @ [a]" "db_policies db' = db_policies db" "db_next db' = db_next db + 2"
  shows "alert_inv now db'"
proof -
  have pol: "getPolicy db' = getPolicy db" using db'(2) by (simp add: getPolicy_def fun_eq_iff)
  have "alerts_apart db' a b \<and> alerts_apart db' b a" if "b \<in> set (db_alerts db)" "cause b = cause a" "live_alert b" for b
    using gap[OF that] that(2) a(2) by (auto simp: alerts_apart_def pol cause_def)
  moreover have "alerts_apart db' b c \<longleftrightarrow> alerts_apart db b c" for b c by (simp add: alerts_apart_def pol)
  moreover have "at_id b < db_next db" if "b \<in> set (db_alerts db)" for b using inv that by (simp add: alert_inv_def)
  ultimately show ?thesis using inv a unfolding alert_inv_def db'(1,3) by (fastforce simp: less_Suc_eq)
qed

lemma alert_inv_raise:
  assumes inv: "alert_inv now db"
  shows "alert_inv now (raiseAlert now c db)"
proof -
  let ?P = "\<lambda>a. same_cause (cd_tenantId c) (cd_queueId c) (cd_alertType c) a \<and> at_status a \<noteq> Alert_resolved"
  let ?m = "most_recent ?P (db_alerts db)"
  let ?W = "ap_dedupWindowMinutes (getPolicy db (cd_tenantId c))"
  show ?thesis
  proof (cases "\<exists>m. ?m = Some m \<and> withinMinutes (at_createdAt m) now ?W")
    case True
    then obtain m where m: "?m = Some m" "withinMinutes (at_createdAt m) now ?W" by blast
    then have "raiseAlert now c db = save_alert (m\<lparr>at_lastTriggeredAt := now\<rparr>) db" by (simp add: raiseAlert_def Let_def)
    then show ?thesis
      using most_recent_Some(1)[OF m(1)] by (auto intro!: alert_inv_save[OF inv] simp: cause_def live_alert_def)
  next
    case False
    let ?supp = "recently_acknowledged now (getPolicy db (cd_tenantId c)) ?m \<or>
      matchesSuppressionRule (ap_suppressionRules (getPolicy db (cd_tenantId c))) (cd_alertType c) (cd_queueId c) now"
    let ?a = "new_alert now (db_next db) c ?m ?supp"
    have r: "db_alerts (raiseAlert now c db) = db_alerts db @ [?a]" "db_policies (raiseAlert now c db) = db_policies db"
      "db_next (raiseAlert now c db) = db_next db + 2"
      using False by (cases ?m; auto simp: raiseAlert_def Let_def publishAlertRaised_def)+
    have cause: "cause ?a = (cd_tenantId c, cd_queueId c, cd_alertType c)" by (simp add: new_alert_def cause_def)
    show ?thesis
    proof (rule alert_inv_insert[OF inv _ _ _ r])
      fix b
      assume b: "b \<in> set (db_alerts db)" "cause b = cause ?a" "live_alert b"
      then have P: "?P b" using cause by (simp add: same_cause_iff live_alert_def)
      then obtain m where m: "?m = Some m" using most_recent_None[of ?P "db_alerts db" b] b(1) by (cases ?m) auto
      then have "at_createdAt b \<le> at_createdAt m" using most_recent_Some(3)[OF m b(1)] P by simp
      moreover have "now - at_createdAt m \<ge> ?W * 60000" using False m by (auto simp: withinMinutes_def)
      ultimately show "now - at_createdAt b \<ge> ap_dedupWindowMinutes (getPolicy db (at_tenantId ?a)) * 60000"
        by (simp add: new_alert_def)
    qed (simp_all add: new_alert_def)
  qed
qed

lemma alert_inv_resolve: "alert_inv now db \<Longrightarrow> alert_inv now (resolveAlert now t q ty db)"
  by (auto simp: resolveAlert_def cause_def live_alert_def intro!: alert_inv_save dest: most_recent_Some split: option.split)

lemma alert_inv_escalate: "alert_inv now db \<Longrightarrow> alert_inv now (escalateStaleAlerts now' db)"
proof -
  have "alert_inv now (fold (escalate_row now') rows db)" if "alert_inv now db" for rows db
    using that
  proof (induction rows arbitrary: db)
    case (Cons row rows)
    have "alert_inv now (escalate_row now' row db)"
      by (rule alert_inv_map[OF Cons.prems, where f = "\<lambda>r. if at_id r = at_id row then r\<lparr>at_severity := Critical, at_escalatedAt := Some now'\<rparr> else r"])
        (auto simp: escalate_row_def publishAlertRaised_def update_where_map cause_def live_alert_def)
    with Cons.IH show ?case by simp
  qed simp
  then show "alert_inv now db \<Longrightarrow> alert_inv now (escalateStaleAlerts now' db)" by (simp add: escalateStaleAlerts_def)
qed

lemma alert_inv_ack:
  assumes "alert_inv now db" "\<And>a. a \<in> set (db_alerts db) \<Longrightarrow> at_id a = i \<Longrightarrow> live_alert a"
  shows "alert_inv now (snd (acknowledge_alert now t i actor db))"
  using assms
  by (auto simp: acknowledge_alert_def Let_def cause_def intro!: alert_inv_save[OF assms(1)] dest!: find_where_SomeD split: option.split)

inductive alert_reachable :: "(string \<Rightarrow> alert_policy option) \<Rightarrow> int \<Rightarrow> alert_db \<Rightarrow> bool" for pol where
  alert_start: "alert_reachable pol t \<lparr>db_alerts = [], db_policies = pol, db_published = [], db_next = 0\<rparr>"
| alert_time: "alert_reachable pol t db \<Longrightarrow> t \<le> t' \<Longrightarrow> alert_reachable pol t' db"
| alert_raise: "alert_reachable pol t db \<Longrightarrow> alert_reachable pol t (raiseAlert t c db)"
| alert_resolve: "alert_reachable pol t db \<Longrightarrow> alert_reachable pol t (resolveAlert t tenant q ty db)"
| alert_escalate: "alert_reachable pol t db \<Longrightarrow> alert_reachable pol t (escalateStaleAlerts t db)"
| alert_ack: "alert_reachable pol t db \<Longrightarrow> (\<And>a. a \<in> set (db_alerts db) \<Longrightarrow> at_id a = i \<Longrightarrow> live_alert a) \<Longrightarrow>
    alert_reachable pol t (snd (acknowledge_alert t tenant i actor db))"

lemma alert_reachable_inv: "alert_reachable pol t db \<Longrightarrow> alert_inv t db"
proof (induction rule: alert_reachable.induct)
  case (alert_time t db t')
  then show ?case by (force simp: alert_inv_def)
qed (auto simp: alert_inv_raise alert_inv_resolve alert_inv_escalate alert_inv_ack, simp add: alert_inv_def)

text \<open>
  Alerts do not flood. In every reachable history of triggers, recoveries, escalations and
  acknowledgements of unresolved alerts, two unresolved alerts of the same root cause (tenant, queue and
  type) were created at least one deduplication window apart.
\<close>

theorem alerts_spaced_by_dedup_window:
  assumes "alert_reachable pol t db" "a \<in> set (db_alerts db)" "b \<in> set (db_alerts db)" "at_id a \<noteq> at_id b"
    and "cause a = cause b" "at_status a \<noteq> Alert_resolved" "at_status b \<noteq> Alert_resolved"
  shows "\<bar>at_createdAt a - at_createdAt b\<bar> \<ge> ap_dedupWindowMinutes (getPolicy db (at_tenantId a)) * 60000"
  using alert_reachable_inv[OF assms(1)] assms(2-) by (auto simp: alert_inv_def live_alert_def alerts_apart_def)

definition demo_candidate :: alert_candidate where
  "demo_candidate = \<lparr>cd_tenantId = ''t'', cd_alertType = ''service_level_breach'', cd_queueId = Some ''q'', cd_severity = Warning\<rparr>"

definition empty_alerts :: alert_db where
  "empty_alerts = \<lparr>db_alerts = [], db_policies = (\<lambda>_. None), db_published = [], db_next = 0\<rparr>"

lemmas alert_eval = raiseAlert_def resolveAlert_def acknowledge_alert_def Let_def most_recent_def same_cause_def getPolicy_def
  DEFAULT_ALERT_POLICY_def withinMinutes_def recently_acknowledged_def matchesSuppressionRule_def new_alert_def publishAlertRaised_def
  save_alert_def update_where_map demo_candidate_def empty_alerts_def

theorem alerts_spaced_by_dedup_window_witness:
  defines "db \<equiv> raiseAlert 300000 demo_candidate (raiseAlert 200000 demo_candidate (raiseAlert 0 demo_candidate empty_alerts))"
  shows "map at_createdAt (db_alerts db) = [0, 300000] \<and> \<bar>at_createdAt (db_alerts db ! 0) - at_createdAt (db_alerts db ! 1)\<bar> \<ge> 5 * 60000"
proof -
  have "alert_reachable (\<lambda>_. None) 300000 db"
    unfolding db_def empty_alerts_def by (intro alert_raise alert_time[where t' = 300000 and t = 200000] alert_time[where t' = 200000 and t = 0] alert_start) simp_all
  note alerts_apart = alerts_spaced_by_dedup_window[OF this]
  have rows: "map at_createdAt (db_alerts db) = [0, 300000]" "at_id (db_alerts db ! 0) \<noteq> at_id (db_alerts db ! 1)"
    "cause (db_alerts db ! 0) = cause (db_alerts db ! 1)" "at_status (db_alerts db ! 0) \<noteq> Alert_resolved"
    "at_status (db_alerts db ! 1) \<noteq> Alert_resolved" "ap_dedupWindowMinutes (getPolicy db (at_tenantId (db_alerts db ! 0))) = 5"
    unfolding db_def by (simp_all add: alert_eval cause_def)
  have "length (db_alerts db) = 2" using arg_cong[OF rows(1), of length] by simp
  then have "db_alerts db ! 0 \<in> set (db_alerts db)" "db_alerts db ! 1 \<in> set (db_alerts db)" by simp_all
  from alerts_apart[OF this rows(2-5)] rows(1,6) show ?thesis by simp
qed

section \<open>Where the pipeline falls short\<close>

lemma find_live_after_resolve:
  assumes "a \<in> set (db_alerts db)" "b \<in> set (db_alerts db)" "at_id a \<noteq> at_id b"
  shows "\<exists>x\<in>set (db_alerts (resolveAlert now t q ty db)). x = a \<or> x = b"
proof (cases "most_recent (\<lambda>a. same_cause t q ty a \<and> at_status a \<in> {Alert_open, Alert_acknowledged, Alert_suppressed}) (db_alerts db)")
  case None
  then show ?thesis using assms(1) by (auto simp: resolveAlert_def)
next
  case (Some m)
  obtain x where x: "x = a \<or> x = b" "at_id x \<noteq> at_id m" "x \<in> set (db_alerts db)" using assms by metis
  have "x \<in> set (db_alerts (resolveAlert now t q ty db))"
    using update_where_mem[OF x(3), of "\<lambda>r. at_id r = at_id m" "\<lambda>_. m\<lparr>at_status := Alert_resolved, at_resolvedAt := Some now\<rparr>"] x(2) Some
    by (simp add: resolveAlert_def save_alert_def)
  with x(1) show ?thesis by blast
qed

text \<open>
  Recovery closes only one alert. When a breach lasts longer than the deduplication window,
  a second alert of the same cause is opened; the recovery of the queue then resolves the most recent of
  them only, so at least one of the two stays active although the queue is back on target.
\<close>

theorem recovery_leaves_older_alert_active:
  assumes "a \<in> set (db_alerts db)" "b \<in> set (db_alerts db)" "at_id a \<noteq> at_id b"
    and "at_tenantId a = tenantId" "at_tenantId b = tenantId" "at_status a = Alert_open" "at_status b = Alert_open"
    and "ql_serviceLevelCurrent r = Some current" "ql_serviceLevelTarget r = Some target" "target \<le> current"
  shows "listActiveAlerts tenantId (alert_evaluateQueueMetrics fl now tenantId queueId r db) \<noteq> []"
proof -
  have "alert_evaluateQueueMetrics fl now tenantId queueId r db = resolveAlert now tenantId (Some queueId) SERVICE_LEVEL_BREACH_ALERT_TYPE db"
    using assms(8-10) by (simp add: alert_evaluateQueueMetrics_def)
  then have "\<exists>x\<in>set (db_alerts (alert_evaluateQueueMetrics fl now tenantId queueId r db)). x = a \<or> x = b"
    using find_live_after_resolve[OF assms(1-3)] by metis
  then show ?thesis using assms(4-7) by (auto simp: listActiveAlerts_def filter_empty_conv)
qed

definition demo_floats :: "int float_ops" where
  "demo_floats = \<lparr>f_sub = (-), f_div = (\<lambda>a b. 100 * a div b), f_criticalDeficit = 20, f_surplusThreshold = 10\<rparr>"

definition demo_metrics :: "int \<Rightarrow> int queue_live_state" where
  "demo_metrics level = \<lparr>ql_currentVolume = 10, ql_agentsAvailable = 1, ql_agentsOnCall = 2, ql_forecastedVolume = None,
     ql_serviceLevelCurrent = Some level, ql_serviceLevelTarget = Some 80\<rparr>"

theorem recovery_leaves_older_alert_active_witness:
  defines "m \<equiv> (\<lambda>now level. alert_evaluateQueueMetrics demo_floats now ''t'' ''q'' (demo_metrics level))"
  shows "listActiveAlerts ''t'' (m 700000 90 (m 360000 70 (m 0 70 empty_alerts))) \<noteq> []"
proof -
  let ?db = "m 360000 70 (m 0 70 empty_alerts)"
  have rows: "length (db_alerts ?db) = 2" "at_id (db_alerts ?db ! 0) \<noteq> at_id (db_alerts ?db ! 1)"
    "at_tenantId (db_alerts ?db ! 0) = ''t''" "at_tenantId (db_alerts ?db ! 1) = ''t''"
    "at_status (db_alerts ?db ! 0) = Alert_open" "at_status (db_alerts ?db ! 1) = Alert_open"
    unfolding m_def by (simp_all add: alert_eval alert_evaluateQueueMetrics_def demo_metrics_def)
  have "db_alerts ?db ! 0 \<in> set (db_alerts ?db)" "db_alerts ?db ! 1 \<in> set (db_alerts ?db)" using rows(1) by simp_all
  from recovery_leaves_older_alert_active[OF this rows(2-6), of "demo_metrics 90" 90 80 demo_floats 700000 "''q''"]
  show ?thesis unfolding m_def by (simp add: demo_metrics_def)
qed

lemma most_recent_snoc_latest:
  assumes "P r" "\<And>x. x \<in> set rows \<Longrightarrow> at_createdAt x \<le> at_createdAt r"
  shows "most_recent P (rows @ [r]) = Some r"
  using assms most_recent_Some(1)[of P rows] by (auto simp: most_recent_snoc split: option.split)

text \<open>
  An acknowledgement is forgotten after the first repetition. While it is recent, the first
  trigger outside the deduplication window is suppressed; but the suppressed row then counts as the most
  recent one, so the next trigger outside the window opens an alert and notifies again although the
  acknowledgement still lies within the suppression window.
\<close>

theorem acknowledgement_forgotten_after_repeat:
  fixes db c t1 t2 ta
  defines "policy \<equiv> getPolicy db (cd_tenantId c)"
  assumes m: "most_recent (\<lambda>a. same_cause (cd_tenantId c) (cd_queueId c) (cd_alertType c) a \<and> at_status a \<noteq> Alert_resolved) (db_alerts db) = Some m"
    and ack: "at_status m = Alert_acknowledged" "at_acknowledgedAt m = Some ta"
    and past: "\<And>x. x \<in> set (db_alerts db) \<Longrightarrow> at_createdAt x \<le> t1"
    and t1: "t1 - at_createdAt m \<ge> ap_dedupWindowMinutes policy * 60000" "withinMinutes ta t1 (ap_suppressionAckWindowMinutes policy)"
    and t2: "t2 - t1 \<ge> ap_dedupWindowMinutes policy * 60000" "withinMinutes ta t2 (ap_suppressionAckWindowMinutes policy)"
    and rules: "ap_suppressionRules policy = []"
  shows "db_published (raiseAlert t1 c db) = db_published db \<and>
    (\<exists>a. db_published (raiseAlert t2 c (raiseAlert t1 c db)) = db_published db @ [a] \<and> at_status a = Alert_open)"
proof -
  let ?P = "\<lambda>a. same_cause (cd_tenantId c) (cd_queueId c) (cd_alertType c) a \<and> at_status a \<noteq> Alert_resolved"
  let ?s = "new_alert t1 (db_next db) c (Some m) True"
  have one: "raiseAlert t1 c db = db\<lparr>db_alerts := db_alerts db @ [?s], db_next := db_next db + 2\<rparr>"
    using m ack t1 by (auto simp: raiseAlert_def Let_def withinMinutes_def policy_def[symmetric] recently_acknowledged_def new_alert_def)
  have "?P ?s" by (simp add: new_alert_def same_cause_def)
  then have s: "most_recent ?P (db_alerts db @ [?s]) = Some ?s"
    using past by (intro most_recent_snoc_latest) (simp_all add: new_alert_def)
  have pol: "getPolicy (raiseAlert t1 c db) (cd_tenantId c) = policy" by (simp add: one getPolicy_def policy_def)
  have sf: "at_createdAt ?s = t1" "at_status ?s = Alert_suppressed" by (simp_all add: new_alert_def)
  have "\<exists>a. db_published (raiseAlert t2 c (raiseAlert t1 c db)) = db_published db @ [a] \<and> at_status a = Alert_open"
    using t2(1) rules sf pol s unfolding raiseAlert_def[of t2] one
    by (simp add: Let_def withinMinutes_def recently_acknowledged_def matchesSuppressionRule_def publishAlertRaised_def)
      (simp add: new_alert_def)
  then show ?thesis using one by simp
qed

theorem acknowledgement_forgotten_after_repeat_witness:
  defines "db \<equiv> snd (acknowledge_alert 60000 ''t'' 0 ''boss'' (raiseAlert 0 demo_candidate empty_alerts))"
  shows "db_published (raiseAlert 300000 demo_candidate db) = db_published db \<and>
    length (db_published (raiseAlert 600000 demo_candidate (raiseAlert 300000 demo_candidate db))) = Suc (length (db_published db))"
proof -
  let ?m = "db_alerts db ! 0"
  have m: "most_recent (\<lambda>a. same_cause (cd_tenantId demo_candidate) (cd_queueId demo_candidate) (cd_alertType demo_candidate) a \<and>
      at_status a \<noteq> Alert_resolved) (db_alerts db) = Some ?m" "at_status ?m = Alert_acknowledged" "at_acknowledgedAt ?m = Some 60000"
    "at_createdAt ?m = 0" "db_alerts db = [?m]" "getPolicy db (cd_tenantId demo_candidate) = DEFAULT_ALERT_POLICY"
    unfolding db_def by (simp_all add: alert_eval)
  have p: "ap_dedupWindowMinutes DEFAULT_ALERT_POLICY = 5" "ap_suppressionAckWindowMinutes DEFAULT_ALERT_POLICY = 15"
    "ap_suppressionRules DEFAULT_ALERT_POLICY = []" by (simp_all add: DEFAULT_ALERT_POLICY_def)
  have past: "at_createdAt x \<le> 300000" if "x \<in> set (db_alerts db)" for x
  proof -
    have "x = ?m" using that by (subst (asm) m(5)) simp
    then show ?thesis by (simp add: m(4))
  qed
  from acknowledgement_forgotten_after_repeat[OF m(1-3) past, of 600000] m(4,6) p
  show ?thesis by (auto simp: withinMinutes_def)
qed

text \<open>An acknowledgement does not look at the status: it puts a resolved alert back among the active ones.\<close>

theorem acknowledge_revives_resolved_alert:
  assumes "a \<in> set (db_alerts db)" "at_tenantId a = tenantId" "at_id a = i" "distinct (map at_id (db_alerts db))"
  shows "\<exists>a'\<in>set (listActiveAlerts tenantId (snd (acknowledge_alert now tenantId i actorId db))). at_id a' = i"
proof -
  have "find_where (\<lambda>a. at_tenantId a = tenantId \<and> at_id a = i) (db_alerts db) = Some a"
    using assms(2,3) by (intro find_where_unique[OF assms(4,1)]) simp_all
  moreover define a' where "a' = a\<lparr>at_status := Alert_acknowledged, at_acknowledgedBy := Some actorId, at_acknowledgedAt := Some now\<rparr>"
  ultimately have "a' \<in> set (db_alerts (snd (acknowledge_alert now tenantId i actorId db)))"
    using update_where_mem[OF assms(1), of "\<lambda>r. at_id r = at_id a'" "\<lambda>_. a'"] by (simp add: acknowledge_alert_def save_alert_def Let_def)
  then have "a' \<in> set (listActiveAlerts tenantId (snd (acknowledge_alert now tenantId i actorId db)))"
    using assms(2) by (simp add: listActiveAlerts_def a'_def)
  moreover have "at_id a' = i" using assms(3) by (simp add: a'_def)
  ultimately show ?thesis by blast
qed

section \<open>Escalation\<close>

lemma escalate_fold_alerts:
  "db_alerts (fold (escalate_row now) rows db) =
     map (\<lambda>a. if at_id a \<in> at_id ` set rows then a\<lparr>at_severity := Critical, at_escalatedAt := Some now\<rparr> else a) (db_alerts db)"
  by (induction rows arbitrary: db) (auto simp: escalate_row_def publishAlertRaised_def update_where_map)

lemma escalate_fold_frame:
  "db_policies (fold (escalate_row now) rows db) = db_policies db"
  "length (db_published (fold (escalate_row now) rows db)) = length (db_published db) + length rows"
  by (induction rows arbitrary: db) (simp_all add: escalate_row_def publishAlertRaised_def)

text \<open>
  Each stale warning is escalated once. A tick turns exactly the open warnings past the
  tenant's threshold critical and notifies once for each of them; another tick at the same time finds
  nothing more to do.
\<close>

theorem escalation_once:
  assumes "distinct (map at_id (db_alerts db))"
  shows "db_alerts (escalateStaleAlerts now db) =
      map (\<lambda>a. if a \<in> set (escalation_candidates now db) then a\<lparr>at_severity := Critical, at_escalatedAt := Some now\<rparr> else a) (db_alerts db) \<and>
    length (db_published (escalateStaleAlerts now db)) = length (db_published db) + length (escalation_candidates now db) \<and>
    escalateStaleAlerts now (escalateStaleAlerts now db) = escalateStaleAlerts now db"
proof -
  have ids: "at_id a \<in> at_id ` set (escalation_candidates now db) \<longleftrightarrow> a \<in> set (escalation_candidates now db)" if "a \<in> set (db_alerts db)" for a
    using that assms by (auto simp: escalation_candidates_def distinct_map inj_on_def)
  have rows: "db_alerts (escalateStaleAlerts now db) =
      map (\<lambda>a. if a \<in> set (escalation_candidates now db) then a\<lparr>at_severity := Critical, at_escalatedAt := Some now\<rparr> else a) (db_alerts db)"
    unfolding escalateStaleAlerts_def escalate_fold_alerts using ids by simp
  have "escalation_candidates now (escalateStaleAlerts now db) = []"
    unfolding escalation_candidates_def[of now "escalateStaleAlerts now db"] rows
    by (auto simp: filter_empty_conv escalation_candidates_def escalateStaleAlerts_def escalate_fold_frame)
  then have "escalateStaleAlerts now (escalateStaleAlerts now db) = escalateStaleAlerts now db"
    by (simp add: escalateStaleAlerts_def[of now "escalateStaleAlerts now db"])
  with rows show ?thesis by (simp add: escalateStaleAlerts_def escalate_fold_frame(2))
qed

theorem escalation_once_witness:
  "length (db_published (escalateStaleAlerts 900001 (raiseAlert 0 demo_candidate empty_alerts))) = 2"
proof -
  let ?db = "raiseAlert 0 demo_candidate empty_alerts"
  have db: "distinct (map at_id (db_alerts ?db))" "length (db_published ?db) = 1" "length (escalation_candidates 900001 ?db) = 1"
    by (simp_all add: alert_eval escalation_candidates_def)
  from escalation_once[OF db(1), of 900001] db(2,3) show ?thesis by simp
qed

end
