(* ===== verification/Reallocation.thy ===== *)
theory Reallocation
  imports Intraday_Live_State Intraday_Alerts
begin

text \<open>
  What the intraday service does with the metrics of a queue
  (\<open>consumers/queue-metrics-updated.consumer.ts\<close>): the alert engine, the reallocation engine
  (\<open>reallocation/reallocation-recommendation.service.ts\<close>) and the staffing offers
  (\<open>staffing-offers/staffing-offer.service.ts\<close>), and the approval of a suggested reallocation
  (\<open>reallocation-approval.service.ts\<close>). A database transaction that throws is rolled back; what it wrote
  to Redis or published stays. The texts of the reasons are left out.
\<close>

section \<open>State\<close>

datatype reallocation_status = Suggested | Approved | Rejected | Auto_executed | Executed

datatype reallocation_trigger = System_recommendation | Supervisor_manual

record 'n reallocation_rationale =
  rt_to :: "'n \<times> 'n" \<comment> \<open>service level and target of the breaching queue\<close>
  rt_from :: "'n \<times> 'n"
  rt_fromAgentsAvailable :: int

record 'n reallocation_action =
  ra_id :: nat
  ra_tenantId :: string
  ra_triggeredBy :: reallocation_trigger
  ra_fromQueueId :: string
  ra_toQueueId :: string
  ra_affectedEmployeeIds :: "string list"
  ra_status :: reallocation_status
  ra_aiRationale :: "'n reallocation_rationale option"
  ra_createdAt :: int
  ra_executedAt :: "int option"

datatype offer_type = Vto | Overtime

record staffing_offer =
  so_id :: nat
  so_tenantId :: string
  so_queueId :: string
  so_offerType :: offer_type
  so_employeeId :: string
  so_createdAt :: int

datatype intraday_message =
    Reallocation_suggested nat
  | Staffing_offer_created nat
  | Queue_live_state_updated string

record 'n intraday =
  iv_redis :: live_redis
  iv_queues :: "string \<times> string \<Rightarrow> 'n queue_live_state option"
  iv_tracked :: "(string \<times> string \<times> int) list" \<comment> \<open>tenant, queue and the expiry of the marker\<close>
  iv_alerts :: alert_db
  iv_actions :: "'n reallocation_action list"
  iv_offers :: "staffing_offer list"
  iv_out :: "intraday_message list"
  iv_next :: nat

record metrics_env =
  me_now :: int
  me_nowIso :: string
  me_nats_up :: bool
  me_autoExecute :: bool
  me_faults :: "string \<Rightarrow> consumer_faults"

definition iv_emit :: "intraday_message \<Rightarrow> 'n intraday \<Rightarrow> 'n intraday" where
  "iv_emit m s = s\<lparr>iv_out := iv_out s @ [m]\<rparr>"

section \<open>Reallocation engine\<close>

definition trackQueueForReallocationScan :: "int \<Rightarrow> string \<Rightarrow> string \<Rightarrow> 'n intraday \<Rightarrow> 'n intraday" where
  \<comment> \<open>\<open>SET key 1 EX 600\<close>\<close>
  "trackQueueForReallocationScan now tenantId queueId s =
     s\<lparr>iv_tracked := filter (\<lambda>(t, q, _). (t, q) \<noteq> (tenantId, queueId)) (iv_tracked s) @ [(tenantId, queueId, now + 600000)]\<rparr>"

definition listTrackedQueues :: "int \<Rightarrow> string \<Rightarrow> 'n intraday \<Rightarrow> string list" where
  "listTrackedQueues now tenantId s = map (\<lambda>(t, q, x). q) (filter (\<lambda>(t, q, expiry). t = tenantId \<and> now < expiry) (iv_tracked s))"

definition donor_surplus :: "('n :: linorder) float_ops \<Rightarrow> string \<Rightarrow> 'n intraday \<Rightarrow> string \<Rightarrow> ('n queue_live_state \<times> 'n) option" where
  \<comment> \<open>the checks of the loop body up to the comparison\<close>
  "donor_surplus fl tenantId s candidateId =
     (case iv_queues s (tenantId, candidateId) of
        None \<Rightarrow> None
      | Some c \<Rightarrow>
          (case (ql_serviceLevelCurrent c, ql_serviceLevelTarget c) of
             (Some current, Some target) \<Rightarrow>
               if ql_agentsAvailable c \<le> 0 then None else Some (c, f_sub fl current target)
           | _ \<Rightarrow> None))"

fun donor_loop ::
  "('n :: linorder) float_ops \<Rightarrow> string \<Rightarrow> string \<Rightarrow> 'n intraday \<Rightarrow> string list \<Rightarrow> (string \<times> 'n queue_live_state) option \<Rightarrow> 'n \<Rightarrow>
   (string \<times> 'n queue_live_state) option" where
  "donor_loop fl tenantId excludeQueueId s [] best bestSurplus = best"
| "donor_loop fl tenantId excludeQueueId s (candidateId # cs) best bestSurplus =
     (if candidateId = excludeQueueId then donor_loop fl tenantId excludeQueueId s cs best bestSurplus
      else case donor_surplus fl tenantId s candidateId of
             None \<Rightarrow> donor_loop fl tenantId excludeQueueId s cs best bestSurplus
           | Some (c, surplus) \<Rightarrow>
               if surplus > bestSurplus
               then donor_loop fl tenantId excludeQueueId s cs (Some (candidateId, c)) surplus
               else donor_loop fl tenantId excludeQueueId s cs best bestSurplus)"

definition findDonorQueue :: "('n :: linorder) float_ops \<Rightarrow> int \<Rightarrow> string \<Rightarrow> string \<Rightarrow> 'n intraday \<Rightarrow> (string \<times> 'n queue_live_state) option" where
  "findDonorQueue fl now tenantId excludeQueueId s =
     donor_loop fl tenantId excludeQueueId s (listTrackedQueues now tenantId s) None (f_surplusThreshold fl)"

definition pending_action :: "string \<Rightarrow> string \<Rightarrow> string \<Rightarrow> 'n reallocation_action \<Rightarrow> bool" where
  "pending_action tenantId fromQueueId toQueueId a \<longleftrightarrow>
     ra_tenantId a = tenantId \<and> ra_fromQueueId a = fromQueueId \<and> ra_toQueueId a = toQueueId \<and> ra_status a \<in> {Suggested, Approved}"

definition new_action ::
  "metrics_env \<Rightarrow> nat \<Rightarrow> string \<Rightarrow> string \<Rightarrow> string \<Rightarrow> string list \<Rightarrow> 'n reallocation_rationale \<Rightarrow> 'n reallocation_action" where
  "new_action env i tenantId fromQueueId toQueueId employees rationale =
     \<lparr>ra_id = i, ra_tenantId = tenantId, ra_triggeredBy = System_recommendation, ra_fromQueueId = fromQueueId,
      ra_toQueueId = toQueueId, ra_affectedEmployeeIds = employees, ra_status = Suggested, ra_aiRationale = Some rationale,
      ra_createdAt = me_now env, ra_executedAt = None\<rparr>"

definition publishSuggested :: "metrics_env \<Rightarrow> nat \<Rightarrow> 'n intraday \<Rightarrow> 'n intraday" where
  "publishSuggested env i s = (if me_nats_up env then iv_emit (Reallocation_suggested i) s else s)"

definition suggest ::
  "metrics_env \<Rightarrow> string \<Rightarrow> string \<Rightarrow> string \<Rightarrow> string list \<Rightarrow> 'n reallocation_rationale \<Rightarrow> 'n intraday \<Rightarrow> bool \<times> 'n intraday" where
  \<comment> \<open>the transaction; false when it threw and was rolled back\<close>
  "suggest env tenantId fromQueueId toQueueId employees rationale s =
     (if \<exists>a\<in>set (iv_actions s). pending_action tenantId fromQueueId toQueueId a then (True, s)
      else let i = iv_next s; a = new_action env i tenantId fromQueueId toQueueId employees rationale;
               s0 = publishSuggested env i (s\<lparr>iv_next := i + 1\<rparr>)
           in if \<not> me_autoExecute env then (True, s0\<lparr>iv_actions := iv_actions s @ [a]\<rparr>)
              else (case applyReallocation (me_faults env) (me_nowIso env) tenantId fromQueueId toQueueId employees (iv_redis s) of
                      (False, r) \<Rightarrow> (False, s0\<lparr>iv_redis := r\<rparr>)
                    | (True, r) \<Rightarrow>
                        (True, s0\<lparr>iv_redis := r,
                                   iv_actions := iv_actions s @ [a\<lparr>ra_status := Auto_executed, ra_executedAt := Some (me_now env)\<rparr>]\<rparr>)))"

definition reallocation_evaluateQueueMetrics ::
  "('n :: linorder) float_ops \<Rightarrow> metrics_env \<Rightarrow> string \<Rightarrow> string \<Rightarrow> 'n queue_live_state \<Rightarrow> 'n intraday \<Rightarrow> bool \<times> 'n intraday" where
  "reallocation_evaluateQueueMetrics fl env tenantId queueId r s =
     (case (ql_serviceLevelCurrent r, ql_serviceLevelTarget r) of
        (Some current, Some target) \<Rightarrow>
          if current \<ge> target then (True, s)
          else (case findDonorQueue fl (me_now env) tenantId queueId s of
                  None \<Rightarrow> (True, s)
                | Some (donorId, donor) \<Rightarrow>
                    let members = listQueueMembers tenantId donorId (iv_redis s)
                    in if members = [] then (True, s)
                       else suggest env tenantId donorId queueId (take 1 members)
                              \<lparr>rt_to = (current, target),
                               rt_from = (the (ql_serviceLevelCurrent donor), the (ql_serviceLevelTarget donor)),
                               rt_fromAgentsAvailable = ql_agentsAvailable donor\<rparr> s)
      | _ \<Rightarrow> (True, s))"

section \<open>Approval\<close>

datatype reallocation_error = Reallocation_not_found | Reallocation_not_suggested | Redis_unavailable

definition approve ::
  "metrics_env \<Rightarrow> string \<Rightarrow> nat \<Rightarrow> 'n intraday \<Rightarrow> (reallocation_error + 'n reallocation_action) \<times> 'n intraday" where
  \<comment> \<open>the row lock makes concurrent approvals of an action follow each other\<close>
  "approve env tenantId reallocationId s =
     (case find_where (\<lambda>a. ra_tenantId a = tenantId \<and> ra_id a = reallocationId) (iv_actions s) of
        None \<Rightarrow> (Inl Reallocation_not_found, s)
      | Some a \<Rightarrow>
          if ra_status a \<noteq> Suggested then (Inl Reallocation_not_suggested, s)
          else (case applyReallocation (me_faults env) (me_nowIso env) tenantId (ra_fromQueueId a) (ra_toQueueId a)
                       (ra_affectedEmployeeIds a) (iv_redis s) of
                  (False, r) \<Rightarrow> (Inl Redis_unavailable, s\<lparr>iv_redis := r\<rparr>)
                | (True, r) \<Rightarrow>
                    let a' = a\<lparr>ra_status := Executed, ra_executedAt := Some (me_now env)\<rparr>
                    in (Inr a', s\<lparr>iv_redis := r, iv_actions := update_where (\<lambda>x. ra_id x = ra_id a) (\<lambda>_. a') (iv_actions s)\<rparr>)))"

section \<open>Staffing offers\<close>

definition offer_one :: "metrics_env \<Rightarrow> string \<Rightarrow> string \<Rightarrow> offer_type \<Rightarrow> string \<Rightarrow> 'n intraday \<Rightarrow> 'n intraday" where
  "offer_one env tenantId queueId offerType employeeId s =
     (if \<exists>o'\<in>set (iv_offers s). so_tenantId o' = tenantId \<and> so_queueId o' = queueId \<and> so_employeeId o' = employeeId \<and> so_offerType o' = offerType
      then s
      else let i = iv_next s;
               offer = \<lparr>so_id = i, so_tenantId = tenantId, so_queueId = queueId, so_offerType = offerType, so_employeeId = employeeId,
                        so_createdAt = me_now env\<rparr>;
               s1 = s\<lparr>iv_offers := iv_offers s @ [offer], iv_next := i + 1\<rparr>
           in if me_nats_up env then iv_emit (Staffing_offer_created i) s1 else s1)"

definition offer_all :: "metrics_env \<Rightarrow> string \<Rightarrow> string \<Rightarrow> offer_type \<Rightarrow> 'n intraday \<Rightarrow> 'n intraday" where
  "offer_all env tenantId queueId offerType s =
     fold (offer_one env tenantId queueId offerType) (listQueueMembers tenantId queueId (iv_redis s)) s"

definition staffing_evaluateQueueMetrics ::
  "('n :: linorder) float_ops \<Rightarrow> metrics_env \<Rightarrow> string \<Rightarrow> string \<Rightarrow> 'n queue_live_state \<Rightarrow> 'n intraday \<Rightarrow> 'n intraday" where
  "staffing_evaluateQueueMetrics fl env tenantId queueId r s =
     (case (ql_serviceLevelCurrent r, ql_serviceLevelTarget r) of
        (Some current, Some target) \<Rightarrow>
          if f_sub fl current target > f_surplusThreshold fl then offer_all env tenantId queueId Vto s
          else if f_sub fl target current > f_surplusThreshold fl then offer_all env tenantId queueId Overtime s
          else s
      | _ \<Rightarrow> s)"

section \<open>The consumer\<close>

definition handle_queue_metrics ::
  "('n :: linorder) float_ops \<Rightarrow> metrics_env \<Rightarrow> string \<Rightarrow> string \<Rightarrow> 'n queue_live_state \<Rightarrow> 'n intraday \<Rightarrow> bool \<times> 'n intraday" where
  \<comment> \<open>\<open>handlePayload\<close>; false is a \<open>nak\<close>\<close>
  "handle_queue_metrics fl env tenantId queueId r s =
     (let s1 = s\<lparr>iv_queues := (iv_queues s)((tenantId, queueId) \<mapsto> r)\<rparr>;
          s2 = trackQueueForReallocationScan (me_now env) tenantId queueId s1;
          s3 = s2\<lparr>iv_alerts := alert_evaluateQueueMetrics fl (me_now env) tenantId queueId r (iv_alerts s2)\<rparr>
      in case reallocation_evaluateQueueMetrics fl env tenantId queueId r s3 of
           (False, s4) \<Rightarrow> (False, s4)
         | (True, s4) \<Rightarrow> (True, iv_emit (Queue_live_state_updated queueId) (staffing_evaluateQueueMetrics fl env tenantId queueId r s4)))"

section \<open>The donor\<close>

definition eligible_donor :: "('n :: linorder) float_ops \<Rightarrow> int \<Rightarrow> string \<Rightarrow> string \<Rightarrow> 'n intraday \<Rightarrow> string \<Rightarrow> 'n queue_live_state \<Rightarrow> 'n \<Rightarrow> bool" where
  \<comment> \<open>a tracked queue other than the breaching one, with free agents and a surplus above the threshold\<close>
  "eligible_donor fl now tenantId excludeQueueId s q c v \<longleftrightarrow>
     q \<in> set (listTrackedQueues now tenantId s) \<and> q \<noteq> excludeQueueId \<and> donor_surplus fl tenantId s q = Some (c, v) \<and> v > f_surplusThreshold fl"

lemma donor_loop_spec:
  fixes fl :: "('n :: linorder) float_ops"
  shows "(donor_loop fl t ex s cs best bs = best \<and> (\<forall>q c v. q \<in> set cs \<longrightarrow> q \<noteq> ex \<longrightarrow> donor_surplus fl t s q = Some (c, v) \<longrightarrow> v \<le> bs)) \<or>
   (\<exists>q c v. donor_loop fl t ex s cs best bs = Some (q, c) \<and> q \<in> set cs \<and> q \<noteq> ex \<and> donor_surplus fl t s q = Some (c, v) \<and> v > bs \<and>
      (\<forall>q' c' v'. q' \<in> set cs \<longrightarrow> q' \<noteq> ex \<longrightarrow> donor_surplus fl t s q' = Some (c', v') \<longrightarrow> v' \<le> v))"
proof (induction cs arbitrary: best bs)
  case (Cons x cs)
  show ?case
  proof (cases "x \<noteq> ex \<and> (\<exists>c v. donor_surplus fl t s x = Some (c, v) \<and> v > bs)")
    case True
    then obtain c v where x: "x \<noteq> ex" "donor_surplus fl t s x = Some (c, v)" "v > bs" by blast
    then have step: "donor_loop fl t ex s (x # cs) best bs = donor_loop fl t ex s cs (Some (x, c)) v" by simp
    from Cons[of "Some (x, c)" v] show ?thesis
    proof (elim disjE exE conjE)
      assume "donor_loop fl t ex s cs (Some (x, c)) v = Some (x, c)"
        "\<forall>q c' v'. q \<in> set cs \<longrightarrow> q \<noteq> ex \<longrightarrow> donor_surplus fl t s q = Some (c', v') \<longrightarrow> v' \<le> v"
      then show ?thesis using x unfolding step by (intro disjI2 exI[of _ x] exI[of _ c] exI[of _ v]) auto
    next
      fix q c' v'
      assume "donor_loop fl t ex s cs (Some (x, c)) v = Some (q, c')" "q \<in> set cs" "q \<noteq> ex" "donor_surplus fl t s q = Some (c', v')" "v < v'"
        "\<forall>q' c'' v''. q' \<in> set cs \<longrightarrow> q' \<noteq> ex \<longrightarrow> donor_surplus fl t s q' = Some (c'', v'') \<longrightarrow> v'' \<le> v'"
      then show ?thesis using x unfolding step by (intro disjI2 exI[of _ q] exI[of _ c'] exI[of _ v']) auto
    qed
  next
    case False
    then have step: "donor_loop fl t ex s (x # cs) best bs = donor_loop fl t ex s cs best bs"
      and le: "\<And>c v. x \<noteq> ex \<Longrightarrow> donor_surplus fl t s x = Some (c, v) \<Longrightarrow> v \<le> bs"
      by (auto split: option.split simp: not_less)
    from Cons[of best bs] show ?thesis
    proof (elim disjE exE conjE)
      assume "donor_loop fl t ex s cs best bs = best"
        "\<forall>q c v. q \<in> set cs \<longrightarrow> q \<noteq> ex \<longrightarrow> donor_surplus fl t s q = Some (c, v) \<longrightarrow> v \<le> bs"
      then show ?thesis using le unfolding step by auto
    next
      fix q c v
      assume "donor_loop fl t ex s cs best bs = Some (q, c)" "q \<in> set cs" "q \<noteq> ex" "donor_surplus fl t s q = Some (c, v)" "bs < v"
        "\<forall>q' c' v'. q' \<in> set cs \<longrightarrow> q' \<noteq> ex \<longrightarrow> donor_surplus fl t s q' = Some (c', v') \<longrightarrow> v' \<le> v"
      then show ?thesis using le unfolding step by (intro disjI2 exI[of _ q] exI[of _ c] exI[of _ v]) (auto intro: order_trans less_imp_le)
    qed
  qed
qed simp

text \<open>
  The donor is the best one. The engine finds a donor exactly if some other tracked queue of
  the tenant has free agents and a surplus above the threshold, and the one it picks has the largest
  surplus of them, whatever the floating-point subtraction does.
\<close>

theorem donor_has_largest_surplus:
  fixes fl :: "('n :: linorder) float_ops"
  shows "case findDonorQueue fl now tenantId ex s of
     None \<Rightarrow> \<not> (\<exists>q c v. eligible_donor fl now tenantId ex s q c v)
   | Some (q, c) \<Rightarrow> \<exists>v. eligible_donor fl now tenantId ex s q c v \<and> (\<forall>q' c' v'. eligible_donor fl now tenantId ex s q' c' v' \<longrightarrow> v' \<le> v)"
proof (cases "findDonorQueue fl now tenantId ex s")
  case None
  then show ?thesis
    using donor_loop_spec[of fl tenantId ex s "listTrackedQueues now tenantId s" None "f_surplusThreshold fl"]
    by (auto simp: findDonorQueue_def eligible_donor_def not_less)
next
  case (Some qc)
  then show ?thesis
    using donor_loop_spec[of fl tenantId ex s "listTrackedQueues now tenantId s" None "f_surplusThreshold fl"]
    by (cases qc) (auto simp: findDonorQueue_def eligible_donor_def)
qed

definition demo_intraday :: "int intraday" where
  "demo_intraday = \<lparr>iv_redis = live_do (Op_state ''08:00'' (demo_payload (Some ''q1''))) empty_redis,
     iv_queues = (\<lambda>k. if k = (''t'', ''q1'') then Some (demo_metrics 95) else if k = (''t'', ''q3'') then Some (demo_metrics 92) else None),
     iv_tracked = [(''t'', ''q3'', 600000), (''t'', ''q1'', 600000)], iv_alerts = empty_alerts, iv_actions = [], iv_offers = [], iv_out = [], iv_next = 0\<rparr>"

definition demo_metrics_env :: "int \<Rightarrow> bool \<Rightarrow> metrics_env" where
  "demo_metrics_env now auto = \<lparr>me_now = now, me_nowIso = ''09:00'', me_nats_up = True, me_autoExecute = auto, me_faults = (\<lambda>_. no_faults)\<rparr>"

theorem donor_has_largest_surplus_witness:
  "\<exists>c. findDonorQueue demo_floats 1000 ''t'' ''q2'' demo_intraday = Some (''q1'', c) \<and>
     (\<exists>v. eligible_donor demo_floats 1000 ''t'' ''q2'' demo_intraday ''q1'' c v)"
proof -
  have "\<exists>c. findDonorQueue demo_floats 1000 ''t'' ''q2'' demo_intraday = Some (''q1'', c)"
    by (simp add: findDonorQueue_def listTrackedQueues_def demo_intraday_def donor_surplus_def demo_metrics_def demo_floats_def)
  then show ?thesis using donor_has_largest_surplus[of demo_floats 1000 "''t''" "''q2''" demo_intraday] by auto
qed

section \<open>Actions and offers\<close>

datatype 'n intraday_op =
    Op_metrics metrics_env string string "'n queue_live_state"
  | Op_approve metrics_env string nat
  | Op_live live_op

fun intraday_do :: "('n :: linorder) float_ops \<Rightarrow> 'n intraday_op \<Rightarrow> 'n intraday \<Rightarrow> 'n intraday" where
  "intraday_do fl (Op_metrics env t q r) s = snd (handle_queue_metrics fl env t q r s)"
| "intraday_do fl (Op_approve env t i) s = snd (approve env t i s)"
| "intraday_do fl (Op_live op) s = s\<lparr>iv_redis := live_do op (iv_redis s)\<rparr>"

definition offer_key :: "staffing_offer \<Rightarrow> string \<times> string \<times> string \<times> offer_type" where
  "offer_key x = (so_tenantId x, so_queueId x, so_employeeId x, so_offerType x)"

definition intraday_inv :: "'n intraday \<Rightarrow> bool" where
  "intraday_inv s \<longleftrightarrow>
     distinct (map ra_id (iv_actions s)) \<and> (\<forall>a\<in>set (iv_actions s). ra_id a < iv_next s) \<and>
     (\<forall>a\<in>set (iv_actions s). \<forall>b\<in>set (iv_actions s).
        ra_status a \<in> {Suggested, Approved} \<longrightarrow> ra_status b \<in> {Suggested, Approved} \<longrightarrow> ra_tenantId a = ra_tenantId b \<longrightarrow>
        ra_fromQueueId a = ra_fromQueueId b \<longrightarrow> ra_toQueueId a = ra_toQueueId b \<longrightarrow> a = b) \<and>
     distinct (map offer_key (iv_offers s))"

definition final_action :: "'n reallocation_action \<Rightarrow> bool" where
  "final_action a \<longleftrightarrow> ra_status a \<in> {Executed, Auto_executed}"

definition keeps_final :: "'n intraday \<Rightarrow> 'n intraday \<Rightarrow> bool" where
  "keeps_final s s' \<longleftrightarrow> intraday_inv s' \<and> (\<forall>a\<in>set (iv_actions s). final_action a \<longrightarrow> a \<in> set (iv_actions s'))"

lemma keeps_final_trans: "keeps_final s s' \<Longrightarrow> keeps_final s' s'' \<Longrightarrow> keeps_final s s''"
  by (simp add: keeps_final_def)

lemma publishSuggested_frame [simp]:
  "iv_actions (publishSuggested env i s) = iv_actions s" "iv_offers (publishSuggested env i s) = iv_offers s"
  "iv_next (publishSuggested env i s) = iv_next s" "iv_redis (publishSuggested env i s) = iv_redis s"
  by (simp_all add: publishSuggested_def iv_emit_def)

lemma suggest_cases:
  fixes s :: "('n :: linorder) intraday" and env t f q es rt
  defines "s' \<equiv> snd (suggest env t f q es rt s)"
  obtains (none) "iv_actions s' = iv_actions s" "iv_next s \<le> iv_next s'" "iv_offers s' = iv_offers s"
  | (new) a where "iv_actions s' = iv_actions s @ [a]" "iv_next s' = Suc (iv_next s)" "iv_offers s' = iv_offers s" "ra_id a = iv_next s"
      "ra_tenantId a = t" "ra_fromQueueId a = f" "ra_toQueueId a = q" "\<not> (\<exists>b\<in>set (iv_actions s). pending_action t f q b)"
proof -
  obtain ok r where appl: "applyReallocation (me_faults env) (me_nowIso env) t f q es (iv_redis s) = (ok, r)" by force
  consider (pending) "\<exists>b\<in>set (iv_actions s). pending_action t f q b"
    | (manual) "\<not> (\<exists>b\<in>set (iv_actions s). pending_action t f q b)" "\<not> me_autoExecute env"
    | (auto) "\<not> (\<exists>b\<in>set (iv_actions s). pending_action t f q b)" "me_autoExecute env" ok
    | (failed) "\<not> (\<exists>b\<in>set (iv_actions s). pending_action t f q b)" "me_autoExecute env" "\<not> ok" by blast
  then show thesis
  proof cases
    case pending
    then have "s' = s" by (simp add: s'_def suggest_def)
    then show thesis using none by simp
  next
    case manual
    then have "s' = (publishSuggested env (iv_next s) (s\<lparr>iv_next := iv_next s + 1\<rparr>))\<lparr>iv_actions := iv_actions s @ [new_action env (iv_next s) t f q es rt]\<rparr>"
      by (simp add: s'_def suggest_def Let_def)
    then show thesis using new[of "new_action env (iv_next s) t f q es rt"] manual(1) by (simp add: new_action_def)
  next
    case auto
    let ?a = "(new_action env (iv_next s) t f q es rt)\<lparr>ra_status := Auto_executed, ra_executedAt := Some (me_now env)\<rparr>"
    have "s' = (publishSuggested env (iv_next s) (s\<lparr>iv_next := iv_next s + 1\<rparr>))\<lparr>iv_redis := r, iv_actions := iv_actions s @ [?a]\<rparr>"
      using auto appl by (simp add: s'_def suggest_def Let_def)
    then show thesis using new[of ?a] auto(1) by (simp add: new_action_def)
  next
    case failed
    then have "s' = (publishSuggested env (iv_next s) (s\<lparr>iv_next := iv_next s + 1\<rparr>))\<lparr>iv_redis := r\<rparr>"
      using appl by (simp add: s'_def suggest_def Let_def)
    then show thesis using none by simp
  qed
qed

lemma suggest_keeps:
  fixes s :: "('n :: linorder) intraday"
  assumes inv: "intraday_inv s"
  shows "keeps_final s (snd (suggest env t f q es rt s))"
proof (cases rule: suggest_cases[where env = env and t = t and f = f and q = q and es = es and rt = rt and s = s])
  case none
  then show ?thesis
    using inv unfolding keeps_final_def intraday_inv_def none by (auto intro: order_less_le_trans)
next
  case (new a)
  have fresh: "ra_id b < iv_next s" if "b \<in> set (iv_actions s)" for b using inv that by (auto simp: intraday_inv_def)
  then have "iv_next s \<notin> ra_id ` set (iv_actions s)" by (metis imageE less_irrefl)
  with fresh show ?thesis
    using inv new(4-8) unfolding keeps_final_def intraday_inv_def new(1-3) pending_action_def by (auto simp: less_SucI)
qed

lemma offer_one_keeps:
  assumes "intraday_inv s"
  shows "keeps_final s (offer_one env t q ty e s) \<and> iv_redis (offer_one env t q ty e s) = iv_redis s"
  using assms unfolding keeps_final_def intraday_inv_def
  by (auto simp: offer_one_def Let_def iv_emit_def offer_key_def)

lemma keeps_final_refl: "intraday_inv s \<Longrightarrow> keeps_final s s"
  by (simp add: keeps_final_def)

lemma offer_fold_keeps: "intraday_inv s \<Longrightarrow> keeps_final s (fold (offer_one env t q ty) es s)"
proof (induction es arbitrary: s)
  case (Cons e es)
  have "keeps_final s (offer_one env t q ty e s)" using offer_one_keeps[OF Cons.prems] by simp
  moreover from this have "keeps_final (offer_one env t q ty e s) (fold (offer_one env t q ty) es (offer_one env t q ty e s))"
    by (intro Cons.IH) (simp add: keeps_final_def)
  ultimately show ?case by (auto intro: keeps_final_trans)
qed (simp add: keeps_final_refl)

lemma keeps_final_frame:
  "intraday_inv s \<Longrightarrow> iv_actions s' = iv_actions s \<Longrightarrow> iv_offers s' = iv_offers s \<Longrightarrow> iv_next s' = iv_next s \<Longrightarrow> keeps_final s s'"
  by (simp add: keeps_final_def intraday_inv_def)

lemma reallocation_keeps:
  assumes "intraday_inv s"
  shows "keeps_final s (snd (reallocation_evaluateQueueMetrics fl env t q r s))"
  using suggest_keeps[OF assms] keeps_final_refl[OF assms]
  by (auto simp: reallocation_evaluateQueueMetrics_def Let_def split: option.split)

lemma staffing_keeps: "intraday_inv s \<Longrightarrow> keeps_final s (staffing_evaluateQueueMetrics fl env t q r s)"
  by (auto simp: staffing_evaluateQueueMetrics_def offer_all_def offer_fold_keeps keeps_final_refl split: option.split)

lemma metrics_keeps:
  assumes inv: "intraday_inv s"
  shows "keeps_final s (snd (handle_queue_metrics fl env t q r s))"
proof -
  define s3 where "s3 = (let s2 = trackQueueForReallocationScan (me_now env) t q (s\<lparr>iv_queues := (iv_queues s)((t, q) \<mapsto> r)\<rparr>)
    in s2\<lparr>iv_alerts := alert_evaluateQueueMetrics fl (me_now env) t q r (iv_alerts s2)\<rparr>)"
  have a: "keeps_final s s3"
    by (rule keeps_final_frame[OF inv]) (simp_all add: s3_def Let_def trackQueueForReallocationScan_def)
  then have inv3: "intraday_inv s3" by (simp add: keeps_final_def)
  obtain ok s4 where e: "reallocation_evaluateQueueMetrics fl env t q r s3 = (ok, s4)" by force
  have b: "keeps_final s3 s4" using reallocation_keeps[OF inv3, of fl env t q r] e by simp
  then have inv4: "intraday_inv s4" by (simp add: keeps_final_def)
  let ?s5 = "staffing_evaluateQueueMetrics fl env t q r s4"
  have c: "keeps_final s4 ?s5" by (rule staffing_keeps[OF inv4])
  have "keeps_final ?s5 (iv_emit (Queue_live_state_updated q) ?s5)"
    using c by (intro keeps_final_frame) (simp_all add: keeps_final_def iv_emit_def)
  moreover have "snd (handle_queue_metrics fl env t q r s) = (if ok then iv_emit (Queue_live_state_updated q) ?s5 else s4)"
    using e by (simp add: handle_queue_metrics_def s3_def Let_def split: bool.split)
  ultimately show ?thesis using a b c keeps_final_trans by (metis (full_types))
qed

lemma approve_keeps:
  assumes inv: "intraday_inv s"
  shows "keeps_final s (snd (approve env t i s))"
proof (cases "find_where (\<lambda>a. ra_tenantId a = t \<and> ra_id a = i) (iv_actions s)")
  case None
  then show ?thesis using inv by (simp add: approve_def keeps_final_refl)
next
  case (Some a)
  then have a: "a \<in> set (iv_actions s)" by (auto dest: find_where_SomeD)
  obtain ok r where appl: "applyReallocation (me_faults env) (me_nowIso env) t (ra_fromQueueId a) (ra_toQueueId a) (ra_affectedEmployeeIds a) (iv_redis s) = (ok, r)"
    by force
  show ?thesis
  proof (cases "ra_status a = Suggested \<and> ok")
    case False
    then have "snd (approve env t i s) = s \<or> snd (approve env t i s) = s\<lparr>iv_redis := r\<rparr>" using Some appl by (auto simp: approve_def)
    then show ?thesis by (elim disjE) (auto intro: keeps_final_frame[OF inv])
  next
    case True
    let ?a' = "a\<lparr>ra_status := Executed, ra_executedAt := Some (me_now env)\<rparr>"
    let ?rows = "update_where (\<lambda>x. ra_id x = ra_id a) (\<lambda>_. ?a') (iv_actions s)"
    have s': "snd (approve env t i s) = s\<lparr>iv_redis := r, iv_actions := ?rows\<rparr>"
      using Some appl True by (simp add: approve_def Let_def)
    have mem: "x \<in> set ?rows \<Longrightarrow> x = ?a' \<or> x \<in> set (iv_actions s)" for x by (auto simp: update_where_def split: if_splits)
    have ids: "map ra_id ?rows = map ra_id (iv_actions s)" by (auto simp: update_where_def)
    have unique: "b = a" if "b \<in> set (iv_actions s)" "ra_id b = ra_id a" for b
      using that a inv by (auto simp: intraday_inv_def distinct_map inj_on_def)
    have fin: "b \<in> set ?rows" if "b \<in> set (iv_actions s)" "final_action b" for b
    proof -
      have "b \<noteq> a" using that(2) True by (auto simp: final_action_def)
      then have "ra_id b \<noteq> ra_id a" using that(1) unique by blast
      then show ?thesis using update_where_mem[OF that(1), of "\<lambda>x. ra_id x = ra_id a" "\<lambda>_. ?a'"] by simp
    qed
    have "intraday_inv (s\<lparr>iv_redis := r, iv_actions := ?rows\<rparr>)"
      unfolding intraday_inv_def
    proof (intro conjI ballI impI)
      show "distinct (map ra_id (iv_actions (s\<lparr>iv_redis := r, iv_actions := ?rows\<rparr>)))" using inv by (simp add: ids intraday_inv_def)
      show "distinct (map offer_key (iv_offers (s\<lparr>iv_redis := r, iv_actions := ?rows\<rparr>)))" using inv by (simp add: intraday_inv_def)
      show "ra_id x < iv_next (s\<lparr>iv_redis := r, iv_actions := ?rows\<rparr>)" if "x \<in> set (iv_actions (s\<lparr>iv_redis := r, iv_actions := ?rows\<rparr>))" for x
        using that mem[of x] inv a by (auto simp: intraday_inv_def)
      show "x = y" if "x \<in> set (iv_actions (s\<lparr>iv_redis := r, iv_actions := ?rows\<rparr>))" "y \<in> set (iv_actions (s\<lparr>iv_redis := r, iv_actions := ?rows\<rparr>))"
        "ra_status x \<in> {Suggested, Approved}" "ra_status y \<in> {Suggested, Approved}" "ra_tenantId x = ra_tenantId y"
        "ra_fromQueueId x = ra_fromQueueId y" "ra_toQueueId x = ra_toQueueId y" for x y
        using that mem[of x] mem[of y] inv by (auto simp: intraday_inv_def)
    qed
    then show ?thesis using fin by (simp add: keeps_final_def s')
  qed
qed

lemma intraday_do_keeps: "intraday_inv s \<Longrightarrow> keeps_final s (intraday_do fl op s)"
  by (cases op) (simp_all add: metrics_keeps approve_keeps keeps_final_frame)

lemma intraday_run_keeps: "intraday_inv s \<Longrightarrow> keeps_final s (fold (intraday_do fl) ops s)"
proof (induction ops arbitrary: s)
  case (Cons op ops)
  have "keeps_final s (intraday_do fl op s)" by (rule intraday_do_keeps[OF Cons.prems])
  moreover from this have "keeps_final (intraday_do fl op s) (fold (intraday_do fl) ops (intraday_do fl op s))"
    by (intro Cons.IH) (simp add: keeps_final_def)
  ultimately show ?case by (auto intro: keeps_final_trans)
qed (simp add: keeps_final_refl)

lemma approve_executed:
  assumes "intraday_inv s" "approve env t i s = (Inr a, s')"
  shows "a \<in> set (iv_actions s') \<and> ra_id a = i \<and> ra_tenantId a = t \<and> ra_status a = Executed \<and> intraday_inv s'"
proof -
  from assms(2) obtain b r where b: "find_where (\<lambda>a. ra_tenantId a = t \<and> ra_id a = i) (iv_actions s) = Some b"
    "a = b\<lparr>ra_status := Executed, ra_executedAt := Some (me_now env)\<rparr>"
    "s' = s\<lparr>iv_redis := r, iv_actions := update_where (\<lambda>x. ra_id x = ra_id b) (\<lambda>_. a) (iv_actions s)\<rparr>"
    by (auto simp: approve_def Let_def split: option.splits if_splits prod.splits bool.splits)
  then have "b \<in> set (iv_actions s)" "ra_tenantId b = t" "ra_id b = i" by (auto dest: find_where_SomeD)
  then show ?thesis
    using b(2,3) update_where_mem[of b "iv_actions s" "\<lambda>x. ra_id x = ra_id b" "\<lambda>_. a"] approve_keeps[OF assms(1), of env t i] assms(2)
    by (simp add: keeps_final_def)
qed

text \<open>
  A reallocation is executed at most once. Once an approval has succeeded, then after any
  further metrics, approvals, agent events and schedule refreshes, with any failures, every other
  approval of the same action is refused as no longer suggested and changes nothing.
\<close>

theorem reallocation_executed_once:
  assumes "intraday_inv s" "approve env t i s = (Inr a, s1)" "s2 = fold (intraday_do fl) ops s1"
  shows "approve env' t i s2 = (Inl Reallocation_not_suggested, s2)"
proof -
  note ex = approve_executed[OF assms(1,2)]
  have keep: "keeps_final s1 s2" using intraday_run_keeps ex assms(3) by blast
  then have a: "a \<in> set (iv_actions s2)" "distinct (map ra_id (iv_actions s2))"
    using ex by (auto simp: keeps_final_def final_action_def intraday_inv_def)
  have "find_where (\<lambda>a. ra_tenantId a = t \<and> ra_id a = i) (iv_actions s2) = Some a"
    using ex by (intro find_where_unique[OF a(2,1)]) simp_all
  then show ?thesis using ex by (simp add: approve_def)
qed

lemma length_le_1I: "distinct xs \<Longrightarrow> (\<And>a b. a \<in> set xs \<Longrightarrow> b \<in> set xs \<Longrightarrow> a = b) \<Longrightarrow> length xs \<le> 1"
proof (rule ccontr)
  assume xs: "distinct xs" and eq: "\<And>a b. a \<in> set xs \<Longrightarrow> b \<in> set xs \<Longrightarrow> a = b" and "\<not> length xs \<le> 1"
  then have "xs ! 0 = xs ! 1" by (intro eq nth_mem) auto
  moreover have "0 < length xs" "1 < length xs" using \<open>\<not> length xs \<le> 1\<close> by linarith+
  ultimately show False using nth_eq_iff_index_eq[OF xs] by (metis zero_neq_one)
qed

text \<open>
  No spam. Whatever arrives in whichever order, with any failures, there is never more than
  one pending reallocation from one queue to another, and nobody is offered the same thing for the same
  queue twice.
\<close>

theorem no_repeated_suggestions_or_offers:
  assumes "iv_actions s0 = []" "iv_offers s0 = []" "s = fold (intraday_do fl) ops s0"
  shows "length (filter (pending_action t f q) (iv_actions s)) \<le> 1 \<and>
    length (filter (\<lambda>x. offer_key x = key) (iv_offers s)) \<le> 1"
proof -
  have "intraday_inv s0" using assms(1,2) by (simp add: intraday_inv_def)
  then have inv: "intraday_inv s" using intraday_run_keeps assms(3) by (auto simp: keeps_final_def)
  have "a = b" if "a \<in> set (filter (pending_action t f q) (iv_actions s))" "b \<in> set (filter (pending_action t f q) (iv_actions s))" for a b
    using that inv by (auto simp: intraday_inv_def pending_action_def)
  moreover have "distinct (filter (pending_action t f q) (iv_actions s))"
    using inv by (auto simp: intraday_inv_def distinct_map)
  ultimately have "length (filter (pending_action t f q) (iv_actions s)) \<le> 1" by (intro length_le_1I)
  moreover have "length (filter (\<lambda>k. k = key) (map offer_key (iv_offers s))) \<le> 1"
    using inv by (intro length_le_1I) (auto simp: intraday_inv_def)
  ultimately show ?thesis by (simp add: filter_map comp_def)
qed

lemmas intraday_eval = handle_queue_metrics_def trackQueueForReallocationScan_def alert_evaluateQueueMetrics_def
  reallocation_evaluateQueueMetrics_def findDonorQueue_def listTrackedQueues_def donor_surplus_def suggest_def new_action_def publishSuggested_def
  staffing_evaluateQueueMetrics_def offer_all_def offer_one_def iv_emit_def demo_intraday_def demo_metrics_env_def demo_metrics_def demo_floats_def
  pending_action_def

definition demo_suggested :: "int intraday" where
  "demo_suggested = intraday_do demo_floats (Op_metrics (demo_metrics_env 1000 False) ''t'' ''q2'' (demo_metrics 75)) demo_intraday"

lemma demo_members: "listQueueMembers ''t'' ''q1'' (iv_redis demo_intraday) = [''e'']" "listQueueMembers ''t'' ''q2'' (iv_redis demo_intraday) = []"
  by (simp_all add: demo_intraday_def live_eval)

lemma demo_suggested_actions: "\<exists>a. iv_actions demo_suggested = [a] \<and> ra_id a = 0 \<and> ra_tenantId a = ''t'' \<and> ra_status a = Suggested \<and>
    ra_fromQueueId a = ''q1'' \<and> ra_toQueueId a = ''q2''" "iv_offers demo_suggested = []" "iv_next demo_suggested = 1"
  using demo_members
  by (simp_all add: demo_suggested_def intraday_eval alert_eval computeSeverity_def listQueueMembers_def)

theorem reallocation_executed_once_witness:
  "\<exists>a s1. approve (demo_metrics_env 2000 False) ''t'' 0 demo_suggested = (Inr a, s1) \<and>
     approve (demo_metrics_env 3000 False) ''t'' 0 s1 = (Inl Reallocation_not_suggested, s1)"
proof -
  obtain a where a: "iv_actions demo_suggested = [a]" "ra_id a = 0" "ra_tenantId a = ''t''" "ra_status a = Suggested"
    using demo_suggested_actions(1) by blast
  then have inv: "intraday_inv demo_suggested" using demo_suggested_actions(2,3) by (simp add: intraday_inv_def)
  have "\<exists>b s1. approve (demo_metrics_env 2000 False) ''t'' 0 demo_suggested = (Inr b, s1)"
    using a by (simp add: approve_def demo_metrics_env_def applyReallocation_ok Let_def)
  then obtain b s1 where b: "approve (demo_metrics_env 2000 False) ''t'' 0 demo_suggested = (Inr b, s1)" by blast
  from reallocation_executed_once[OF inv b, of s1 demo_floats "[]" "demo_metrics_env 3000 False"] b show ?thesis by auto
qed

theorem no_repeated_suggestions_or_offers_witness:
  "length (filter (pending_action ''t'' ''q1'' ''q2'')
     (iv_actions (fold (intraday_do demo_floats)
        [Op_metrics (demo_metrics_env 1000 False) ''t'' ''q2'' (demo_metrics 75), Op_metrics (demo_metrics_env 2000 False) ''t'' ''q2'' (demo_metrics 70)]
        demo_intraday))) \<le> 1"
proof -
  have "iv_actions demo_intraday = []" "iv_offers demo_intraday = []" by (simp_all add: demo_intraday_def)
  from no_repeated_suggestions_or_offers[OF this refl] show ?thesis by blast
qed

section \<open>Automatic execution and the index\<close>

lemma suggest_index:
  assumes idx: "index_ok n (iv_redis s)" and len: "length t = n" and ne: "f \<noteq> []" "q \<noteq> []"
    and up: "me_faults env = (\<lambda>_. no_faults)"
    and es: "\<And>e. e \<in> set es \<Longrightarrow> e \<in> set (listQueueMembers t f (iv_redis s))"
  shows "index_ok n (iv_redis (snd (suggest env t f q es rt s)))"
proof -
  have fold: "index_ok n (fold (move_agent nowIso t f q) es r)"
    if "index_ok n r" "\<And>e. e \<in> set es \<Longrightarrow> field_of t e ''queueId'' r \<in> {Some f, Some q}" for nowIso r es
    using that
  proof (induction es arbitrary: r)
    case (Cons e es)
    have "index_ok n (move_agent nowIso t f q e r)"
      using Cons.prems len ne by (intro index_ok_move) simp_all
    moreover have "field_of t e' ''queueId'' (move_agent nowIso t f q e r) \<in> {Some f, Some q}" if "e' \<in> set es" for e'
      using Cons.prems(2)[of e'] that by (simp add: move_field)
    ultimately show ?case using Cons.IH by simp
  qed simp
  have "field_of t e ''queueId'' (iv_redis s) \<in> {Some f, Some q}" if "e \<in> set es" for e
    using es[OF that] idx len ne(1) by (simp add: index_ok_def)
  then have "index_ok n (fold (move_agent (me_nowIso env) t f q) es (iv_redis s))" by (intro fold idx)
  then show ?thesis using idx by (simp add: suggest_def Let_def up applyReallocation_ok)
qed

lemma donor_tracked: "findDonorQueue fl now t q s = Some (f, c) \<Longrightarrow> f \<in> set (listTrackedQueues now t s)"
  using donor_loop_spec[of fl t q s "listTrackedQueues now t s" None "f_surplusThreshold fl"] by (auto simp: findDonorQueue_def)

lemma offer_fold_redis: "iv_redis (fold (offer_one env t q ty) es s) = iv_redis s"
  by (induction es arbitrary: s) (simp_all add: offer_one_def Let_def iv_emit_def)

lemma staffing_redis: "iv_redis (staffing_evaluateQueueMetrics fl env t q r s) = iv_redis s"
  by (simp add: staffing_evaluateQueueMetrics_def offer_all_def offer_fold_redis split: option.split)

text \<open>
  Automatic execution keeps the index exact. The agent the engine moves is taken from the
  index of the donor queue at that moment, so when Redis works and queue identifiers are not empty, the
  handling of a queue's metrics preserves that an agent is listed under a queue exactly if its live
  state names it, also when the suggestion is executed at once.
\<close>

theorem automatic_execution_keeps_index:
  assumes idx: "index_ok n (iv_redis s)" and len: "length t = n" and q: "q \<noteq> []"
    and tracked: "\<And>t' f x. (t', f, x) \<in> set (iv_tracked s) \<Longrightarrow> f \<noteq> []" and up: "me_faults env = (\<lambda>_. no_faults)"
  shows "index_ok n (iv_redis (snd (handle_queue_metrics fl env t q r s)))"
proof -
  define s3 where "s3 = (let s2 = trackQueueForReallocationScan (me_now env) t q (s\<lparr>iv_queues := (iv_queues s)((t, q) \<mapsto> r)\<rparr>)
    in s2\<lparr>iv_alerts := alert_evaluateQueueMetrics fl (me_now env) t q r (iv_alerts s2)\<rparr>)"
  have s3: "iv_redis s3 = iv_redis s"
    "iv_tracked s3 = filter (\<lambda>(t', q', _). (t', q') \<noteq> (t, q)) (iv_tracked s) @ [(t, q, me_now env + 600000)]"
    by (simp_all add: s3_def Let_def trackQueueForReallocationScan_def)
  have ne: "f \<noteq> []" if "f \<in> set (listTrackedQueues now t s3)" for f now
    using that tracked q by (auto simp: listTrackedQueues_def s3(2) split: if_splits)
  have "index_ok n (iv_redis (snd (reallocation_evaluateQueueMetrics fl env t q r s3)))"
  proof (cases "\<exists>f c es rt. findDonorQueue fl (me_now env) t q s3 = Some (f, c) \<and> es = take 1 (listQueueMembers t f (iv_redis s3)) \<and>
      reallocation_evaluateQueueMetrics fl env t q r s3 = suggest env t f q es rt s3")
    case True
    then obtain f c es rt where d: "findDonorQueue fl (me_now env) t q s3 = Some (f, c)" "es = take 1 (listQueueMembers t f (iv_redis s3))"
      "reallocation_evaluateQueueMetrics fl env t q r s3 = suggest env t f q es rt s3" by blast
    show ?thesis unfolding d(3)
      by (rule suggest_index) (use idx len q up ne[OF donor_tracked[OF d(1)]] s3(1) d(2) in \<open>auto dest: in_set_takeD\<close>)
  next
    case False
    then have "snd (reallocation_evaluateQueueMetrics fl env t q r s3) = s3"
      by (auto simp: reallocation_evaluateQueueMetrics_def Let_def split: option.splits)
    then show ?thesis using idx s3(1) by simp
  qed
  moreover have "iv_redis (snd (handle_queue_metrics fl env t q r s)) = iv_redis (snd (reallocation_evaluateQueueMetrics fl env t q r s3))"
    by (simp add: handle_queue_metrics_def s3_def Let_def staffing_redis iv_emit_def split: prod.split bool.split)
  ultimately show ?thesis by simp
qed

theorem automatic_execution_keeps_index_witness:
  "index_ok 1 (iv_redis (snd (handle_queue_metrics demo_floats (demo_metrics_env 1000 True) ''t'' ''q2'' (demo_metrics 75) demo_intraday)))"
proof (rule automatic_execution_keeps_index)
  have "index_ok 1 empty_redis" by (simp add: index_ok_def empty_redis_def listQueueMembers_def field_of_def)
  then show "index_ok 1 (iv_redis demo_intraday)"
    unfolding demo_intraday_def by (simp add: index_ok_handle demo_payload_def)
qed (auto simp: demo_intraday_def demo_metrics_env_def)

end
