(* ===== verification/Secure_Store.thy ===== *)
theory Secure_Store
  imports WFM_Prelude
begin

text \<open>
  The collection the mobile app keeps in the device's secure store
  (\<open>mobile-app/src/offlineQueue/chunkedSecureStore.ts\<close>): one key per item, an index cut into pages of at
  most 40 identifiers, and a meta record with the order of the pages. The store maps keys to JSON values,
  here to the values themselves. Every operation is a sequence of single-key writes computed from what it
  reads, and the app may be killed between any two of them. The mutex of the class makes the operations
  of one collection follow each other.
\<close>

section \<open>The key-value store\<close>

datatype skey = Meta_key | Page_key nat | Item_key string

datatype 'a sval = Meta_val "nat list" nat | Page_val "string list" | Item_val 'a

type_synonym 'a sstore = "skey \<rightharpoonup> 'a sval"

type_synonym 'a swrite = "skey \<times> 'a sval option" \<comment> \<open>\<open>setItemAsync\<close> or, with \<open>None\<close>, \<open>deleteItemAsync\<close>\<close>

definition do_write :: "'a swrite \<Rightarrow> 'a sstore \<Rightarrow> 'a sstore" where
  "do_write w st = st(fst w := snd w)"

definition do_writes :: "'a swrite list \<Rightarrow> 'a sstore \<Rightarrow> 'a sstore" where
  "do_writes ws st = fold do_write ws st"

definition MAX_IDS_PER_PAGE :: nat where
  "MAX_IDS_PER_PAGE = 40"

section \<open>The collection\<close>

definition readMeta :: "'a sstore \<Rightarrow> nat list \<times> nat" where
  "readMeta st = (case st Meta_key of Some (Meta_val pageIds nextPageSeq) \<Rightarrow> (pageIds, nextPageSeq) | _ \<Rightarrow> ([], 0))"

definition readPage :: "'a sstore \<Rightarrow> nat \<Rightarrow> string list" where
  "readPage st pageId = (case st (Page_key pageId) of Some (Page_val ids) \<Rightarrow> ids | _ \<Rightarrow> [])"

definition readItem :: "'a sstore \<Rightarrow> string \<Rightarrow> 'a option" where
  "readItem st i = (case st (Item_key i) of Some (Item_val x) \<Rightarrow> Some x | _ \<Rightarrow> None)"

definition add_writes :: "('a \<Rightarrow> string) \<Rightarrow> 'a \<Rightarrow> 'a sstore \<Rightarrow> 'a swrite list" where
  "add_writes ident item st =
     (let (pageIds, nextPageSeq) = readMeta st;
          lastIds = (if pageIds = [] then [] else readPage st (last pageIds));
          fresh = (pageIds = [] \<or> length lastIds \<ge> MAX_IDS_PER_PAGE);
          pageId = (if fresh then nextPageSeq else last pageIds);
          ids = (if fresh then [] else lastIds)
      in [(Item_key (ident item), Some (Item_val item)),
          (Page_key pageId, Some (Page_val (ids @ [ident item]))),
          (Meta_key, Some (if fresh then Meta_val (pageIds @ [nextPageSeq]) (nextPageSeq + 1) else Meta_val pageIds nextPageSeq))])"

definition store_add :: "('a \<Rightarrow> string) \<Rightarrow> 'a \<Rightarrow> 'a sstore \<Rightarrow> 'a sstore" where
  "store_add ident item st = do_writes (add_writes ident item st) st"

fun list_loop :: "nat list \<Rightarrow> 'a sstore \<Rightarrow> 'a list \<times> nat list \<times> bool \<times> 'a swrite list" where
  \<comment> \<open>items, surviving pages, whether the meta record changes, writes\<close>
  "list_loop [] st = ([], [], False, [])"
| "list_loop (p # ps) st =
     (let ids = readPage st p; items = List.map_filter (readItem st) ids; surviving = filter (\<lambda>i. readItem st i \<noteq> None) ids
      in if length surviving = length ids
         then (case list_loop ps st of (xs, ns, dirty, ws) \<Rightarrow> (items @ xs, p # ns, dirty, ws))
         else let w = (Page_key p, if surviving \<noteq> [] then Some (Page_val surviving) else None)
              in (case list_loop ps (do_write w st) of (xs, ns, dirty, ws) \<Rightarrow>
                    (items @ xs, (if surviving \<noteq> [] then p # ns else ns), True, w # ws)))"

definition list_run :: "'a sstore \<Rightarrow> 'a list \<times> 'a swrite list" where
  "list_run st =
     (let (pageIds, nextPageSeq) = readMeta st
      in case list_loop pageIds st of (items, nextPageIds, dirty, ws) \<Rightarrow>
           (items, ws @ (if dirty then [(Meta_key, Some (Meta_val nextPageIds nextPageSeq))] else [])))"

definition store_list :: "'a sstore \<Rightarrow> 'a list \<times> 'a sstore" where
  "store_list st = (fst (list_run st), do_writes (snd (list_run st)) st)"

fun remove_loop :: "string \<Rightarrow> nat list \<Rightarrow> 'a sstore \<Rightarrow> nat list \<times> bool \<times> 'a swrite list" where
  "remove_loop i [] st = ([], False, [])"
| "remove_loop i (p # ps) st =
     (let ids = readPage st p
      in if i \<notin> set ids
         then (case remove_loop i ps st of (ns, dirty, ws) \<Rightarrow> (p # ns, dirty, ws))
         else let next = filter (\<lambda>e. e \<noteq> i) ids; w = (Page_key p, if next = [] then None else Some (Page_val next))
              in (case remove_loop i ps (do_write w st) of (ns, dirty, ws) \<Rightarrow> ((if next = [] then ns else p # ns), True, w # ws)))"

definition remove_writes :: "string \<Rightarrow> 'a sstore \<Rightarrow> 'a swrite list" where
  "remove_writes i st =
     (let (pageIds, nextPageSeq) = readMeta st
      in case remove_loop i pageIds st of (remaining, dirty, ws) \<Rightarrow>
           ws @ (if dirty then [(Meta_key, Some (Meta_val remaining nextPageSeq))] else []) @ [(Item_key i, None)])"

definition store_remove :: "string \<Rightarrow> 'a sstore \<Rightarrow> 'a sstore" where
  "store_remove i st = do_writes (remove_writes i st) st"

section \<open>The list it stands for\<close>

definition store_index :: "'a sstore \<Rightarrow> string list" where
  "store_index st = concat (map (readPage st) (fst (readMeta st)))"

definition store_abs :: "'a sstore \<Rightarrow> 'a list" where
  "store_abs st = List.map_filter (readItem st) (store_index st)"

definition store_inv :: "('a \<Rightarrow> string) \<Rightarrow> 'a sstore \<Rightarrow> bool" where
  "store_inv ident st \<longleftrightarrow>
     distinct (fst (readMeta st)) \<and> (\<forall>p\<in>set (fst (readMeta st)). p < snd (readMeta st) \<and> length (readPage st p) \<le> MAX_IDS_PER_PAGE) \<and>
     distinct (store_index st) \<and> (\<forall>i x. readItem st i = Some x \<longrightarrow> ident x = i)"

named_theorems store_simps \<open>reads after a write\<close>

lemma read_write [store_simps]:
  "readMeta (do_write (Page_key p, v) st) = readMeta st" "readMeta (do_write (Item_key i, v) st) = readMeta st"
  "readPage (do_write (Meta_key, v) st) q = readPage st q" "readPage (do_write (Item_key i, v) st) q = readPage st q"
  "readItem (do_write (Meta_key, v) st) j = readItem st j" "readItem (do_write (Page_key p, v) st) j = readItem st j"
  "readMeta (do_write (Meta_key, Some (Meta_val ps n)) st) = (ps, n)"
  "readPage (do_write (Page_key p, Some (Page_val ids)) st) q = (if q = p then ids else readPage st q)"
  "readPage (do_write (Page_key p, None) st) q = (if q = p then [] else readPage st q)"
  "readItem (do_write (Item_key i, Some (Item_val x)) st) j = (if j = i then Some x else readItem st j)"
  "readItem (do_write (Item_key i, None) st) j = (if j = i then None else readItem st j)"
  by (simp_all add: readMeta_def readPage_def readItem_def do_write_def)

lemma map_filter_simps [simp]:
  "List.map_filter f [] = []" "List.map_filter f (x # xs) = (case f x of None \<Rightarrow> [] | Some y \<Rightarrow> [y]) @ List.map_filter f xs"
  "List.map_filter f (xs @ ys) = List.map_filter f xs @ List.map_filter f ys"
  by (simp_all add: map_filter_def split: option.split)

lemma map_filter_cong: "(\<And>x. x \<in> set xs \<Longrightarrow> f x = g x) \<Longrightarrow> List.map_filter f xs = List.map_filter g xs"
  by (induction xs) (auto split: option.split)

lemma map_filter_present: "List.map_filter f (filter (\<lambda>i. f i \<noteq> None) xs) = List.map_filter f xs"
  by (induction xs) (auto split: option.split)

fun all_states :: "('a sstore \<Rightarrow> bool) \<Rightarrow> 'a swrite list \<Rightarrow> 'a sstore \<Rightarrow> bool" where
  \<comment> \<open>the property holds before, between and after the writes\<close>
  "all_states P [] st \<longleftrightarrow> P st"
| "all_states P (w # ws) st \<longleftrightarrow> P st \<and> all_states P ws (do_write w st)"

lemma all_states_take: "all_states P ws st \<longleftrightarrow> (\<forall>k. P (do_writes (take k ws) st))"
proof (induction ws arbitrary: st)
  case (Cons w ws)
  have "(\<forall>k. P (do_writes (take k (w # ws)) st)) \<longleftrightarrow> P st \<and> (\<forall>k. P (do_writes (take k ws) (do_write w st)))"
    by (auto simp: do_writes_def take_Cons split: nat.splits)
  with Cons show ?case by simp
qed (simp add: do_writes_def)

lemma all_states_append: "all_states P (ws @ ws') st \<longleftrightarrow> all_states P ws st \<and> all_states P ws' (do_writes ws st)"
  by (induction ws arbitrary: st) (auto simp: do_writes_def, metis all_states.elims(2))

lemma all_states_last: "all_states P ws st \<Longrightarrow> P (do_writes ws st)"
  using all_states_take[of P ws st] by (metis order_refl take_all)

section \<open>Adding\<close>

definition add_ok :: "('a \<Rightarrow> string) \<Rightarrow> 'a \<Rightarrow> 'a sstore \<Rightarrow> 'a sstore \<Rightarrow> bool" where
  "add_ok ident x st st' \<longleftrightarrow> store_inv ident st' \<and> (store_abs st' = store_abs st \<or> store_abs st' = store_abs st @ [x])"

lemma concat_last_page:
  assumes "ps \<noteq> []" "distinct ps"
  shows "concat (map (\<lambda>q. if q = last ps then f q @ ys else f q) ps) = concat (map f ps) @ ys"
proof -
  obtain qs p where ps: "ps = qs @ [p]" using assms(1) by (metis append_butlast_last_id)
  have "concat (map (\<lambda>q. if q = p then f q @ ys else f q) qs) = concat (map f qs)"
    using assms(2) ps by (intro arg_cong[of _ _ concat] map_cong) auto
  then show ?thesis using ps by simp
qed

lemma add_item_state:
  assumes inv: "store_inv ident st" and fresh: "ident x \<notin> set (store_index st)"
  shows "store_inv ident (do_write (Item_key (ident x), Some (Item_val x)) st)"
    "store_abs (do_write (Item_key (ident x), Some (Item_val x)) st) = store_abs st"
proof -
  let ?s = "do_write (Item_key (ident x), Some (Item_val x)) st"
  have idx: "store_index ?s = store_index st" by (simp add: store_index_def store_simps cong: map_cong)
  show "store_inv ident ?s" using inv by (simp add: store_inv_def idx store_simps)
  show "store_abs ?s = store_abs st"
    unfolding store_abs_def idx by (rule map_filter_cong) (use fresh in \<open>auto simp: store_simps\<close>)
qed

lemma indexed_inv:
  assumes inv: "store_inv ident st" and fresh: "ident x \<notin> set (store_index st)"
    and item: "\<And>j. readItem st' j = (if j = ident x then Some x else readItem st j)"
    and index: "store_index st' = store_index st @ [ident x]"
    and pages: "distinct (fst (readMeta st'))" "\<And>p. p \<in> set (fst (readMeta st')) \<Longrightarrow> p < snd (readMeta st') \<and> length (readPage st' p) \<le> MAX_IDS_PER_PAGE"
  shows "store_inv ident st' \<and> store_abs st' = store_abs st @ [x]"
proof
  show "store_inv ident st'" using inv fresh pages by (auto simp: store_inv_def index item)
  have "List.map_filter (readItem st') (store_index st) = List.map_filter (readItem st) (store_index st)"
    using fresh by (intro map_filter_cong) (auto simp: item)
  then show "store_abs st' = store_abs st @ [x]" by (simp add: store_abs_def index item)
qed

lemma add_states:
  assumes inv: "store_inv ident st" and fresh: "ident x \<notin> set (store_index st)"
  shows "all_states (add_ok ident x st) (add_writes ident x st) st \<and> store_abs (store_add ident x st) = store_abs st @ [x] \<and>
    store_index (store_add ident x st) = store_index st @ [ident x]"
proof -
  obtain ps n where meta: "readMeta st = (ps, n)" by force
  have d: "distinct ps" "\<And>p. p \<in> set ps \<Longrightarrow> p < n \<and> length (readPage st p) \<le> MAX_IDS_PER_PAGE"
    using inv meta by (auto simp: store_inv_def)
  define s1 where "s1 = do_write (Item_key (ident x), Some (Item_val x)) st"
  have r1: "readMeta s1 = (ps, n)" "\<And>q. readPage s1 q = readPage st q" "\<And>j. readItem s1 j = (if j = ident x then Some x else readItem st j)"
    by (simp_all add: s1_def store_simps meta)
  have ok0: "add_ok ident x st st" using inv by (simp add: add_ok_def)
  have ok1: "add_ok ident x st s1" using add_item_state[OF inv fresh] by (simp add: add_ok_def s1_def)
  show ?thesis
  proof (cases "ps = [] \<or> length (readPage st (last ps)) \<ge> MAX_IDS_PER_PAGE")
    case True
    define s2 where "s2 = do_write (Page_key n, Some (Page_val [ident x])) s1"
    define s3 where "s3 = do_write (Meta_key, Some (Meta_val (ps @ [n]) (Suc n))) s2"
    have ws: "add_writes ident x st = [(Item_key (ident x), Some (Item_val x)), (Page_key n, Some (Page_val [ident x])), (Meta_key, Some (Meta_val (ps @ [n]) (Suc n)))]"
      using True meta by (auto simp: add_writes_def Let_def)
    have n: "n \<notin> set ps" using d(2) by blast
    have pages: "concat (map (readPage s2) ps) = concat (map (readPage st) ps)"
      using n by (intro arg_cong[of _ _ concat] map_cong) (auto simp: s2_def store_simps r1)
    have m2: "readMeta s2 = (ps, n)" by (simp add: s2_def store_simps r1)
    have idx2: "store_index s2 = store_index st" using pages by (simp add: store_index_def m2 meta)
    have "store_index s1 = store_index st" by (simp add: store_index_def r1 meta cong: map_cong)
    moreover have "readItem s2 = readItem s1" by (simp add: s2_def store_simps fun_eq_iff)
    ultimately have "store_abs s2 = store_abs s1" by (simp add: store_abs_def idx2)
    moreover have "store_inv ident s2" using inv n meta by (auto simp: store_inv_def idx2 m2) (auto simp: s2_def store_simps r1 split: if_splits)
    ultimately have ok2: "add_ok ident x st s2" using ok1 by (simp add: add_ok_def)
    have idx3: "store_index s3 = store_index st @ [ident x]"
    proof -
      have "readPage s3 q = readPage s2 q" for q by (simp add: s3_def store_simps)
      then have "store_index s3 = concat (map (readPage s2) ps) @ readPage s2 n" by (simp add: store_index_def s3_def store_simps cong: map_cong)
      then show ?thesis using pages by (simp add: store_index_def meta) (simp add: s2_def store_simps)
    qed
    have "store_inv ident s3 \<and> store_abs s3 = store_abs st @ [x]"
    proof (rule indexed_inv[OF inv fresh _ idx3])
      show "readItem s3 j = (if j = ident x then Some x else readItem st j)" for j by (simp add: s3_def s2_def store_simps r1)
      show "distinct (fst (readMeta s3))" using d(1) n by (simp add: s3_def store_simps)
      show "p < snd (readMeta s3) \<and> length (readPage s3 p) \<le> MAX_IDS_PER_PAGE" if "p \<in> set (fst (readMeta s3))" for p
        using that d(2)[of p] by (auto simp: s3_def s2_def store_simps r1 MAX_IDS_PER_PAGE_def)
    qed
    then show ?thesis
      using ok0 ok1 ok2 idx3 unfolding store_add_def ws
      by (simp add: do_writes_def add_ok_def flip: s1_def s2_def s3_def)
  next
    case False
    define s2 where "s2 = do_write (Page_key (last ps), Some (Page_val (readPage st (last ps) @ [ident x]))) s1"
    define s3 where "s3 = do_write (Meta_key, Some (Meta_val ps n)) s2"
    have ws: "add_writes ident x st = [(Item_key (ident x), Some (Item_val x)), (Page_key (last ps), Some (Page_val (readPage st (last ps) @ [ident x]))), (Meta_key, Some (Meta_val ps n))]"
      using False meta by (auto simp: add_writes_def Let_def)
    have page: "readPage s2 q = (if q = last ps then readPage st q @ [ident x] else readPage st q)" for q
      by (simp add: s2_def store_simps r1)
    have idx: "store_index s2 = store_index st @ [ident x]" "store_index s3 = store_index st @ [ident x]"
    proof -
      have "concat (map (readPage s2) ps) = concat (map (readPage st) ps) @ [ident x]"
        using concat_last_page[of ps "readPage st" "[ident x]"] False d(1) page by (simp cong: map_cong)
      moreover have "readPage s3 q = readPage s2 q" "readMeta s2 = (ps, n)" "readMeta s3 = (ps, n)" for q
        by (simp_all add: s3_def s2_def store_simps r1)
      ultimately show "store_index s2 = store_index st @ [ident x]" "store_index s3 = store_index st @ [ident x]"
        by (simp_all add: store_index_def meta cong: map_cong)
    qed
    have pg: "p < n \<and> length (readPage s2 p) \<le> MAX_IDS_PER_PAGE" if "p \<in> set ps" for p
      using that d(2)[of p] False page by auto
    have "store_inv ident s2 \<and> store_abs s2 = store_abs st @ [x]"
      by (rule indexed_inv[OF inv fresh _ idx(1)]) (use d(1) pg in \<open>simp_all add: s2_def store_simps r1\<close>)
    moreover have "store_inv ident s3 \<and> store_abs s3 = store_abs st @ [x]"
      by (rule indexed_inv[OF inv fresh _ idx(2)]) (use d(1) pg in \<open>simp_all add: s3_def s2_def store_simps r1\<close>)
    ultimately show ?thesis
      using ok0 ok1 idx(2) unfolding store_add_def ws
      by (simp add: do_writes_def add_ok_def flip: s1_def s2_def s3_def)
  qed
qed

section \<open>Removing\<close>

definition remove_ok :: "('a \<Rightarrow> string) \<Rightarrow> string \<Rightarrow> 'a sstore \<Rightarrow> 'a sstore \<Rightarrow> bool" where
  "remove_ok ident i st st' \<longleftrightarrow>
     store_inv ident st' \<and> (store_abs st' = store_abs st \<or> store_abs st' = filter (\<lambda>x. ident x \<noteq> i) (store_abs st))"

lemma remove_loop_none: "(\<And>p. p \<in> set ps \<Longrightarrow> i \<notin> set (readPage st p)) \<Longrightarrow> remove_loop i ps st = (ps, False, [])"
  by (induction ps) (simp_all add: Let_def)

lemma remove_loop_one:
  assumes "distinct (ps @ p # qs)" "\<And>q. q \<in> set (ps @ qs) \<Longrightarrow> i \<notin> set (readPage st q)" "i \<in> set (readPage st p)"
  defines "next \<equiv> filter (\<lambda>e. e \<noteq> i) (readPage st p)"
  shows "remove_loop i (ps @ p # qs) st =
    (ps @ (if next = [] then [] else [p]) @ qs, True, [(Page_key p, if next = [] then None else Some (Page_val next))])"
  using assms(1,2)
proof (induction ps)
  case Nil
  let ?w = "(Page_key p, if next = [] then None else Some (Page_val next)) :: 'a swrite"
  have "i \<notin> set (readPage (do_write ?w st) q)" if "q \<in> set qs" for q
    using that Nil by (auto simp: store_simps split: if_splits)
  then have "remove_loop i qs (do_write ?w st) = (qs, False, [])" by (rule remove_loop_none)
  with assms(3) show ?case by (simp add: Let_def flip: next_def)
qed (simp add: Let_def)

lemma map_filter_removed:
  assumes "\<And>j x. f j = Some x \<Longrightarrow> ident x = j"
  shows "List.map_filter f (filter (\<lambda>e. e \<noteq> i) xs) = filter (\<lambda>x. ident x \<noteq> i) (List.map_filter f xs)"
  using assms by (induction xs) (auto split: option.split)

lemma delete_item_ok:
  assumes "store_inv ident s" "i \<notin> set (store_index s)"
  shows "store_inv ident (do_write (Item_key i, None) s)" "store_abs (do_write (Item_key i, None) s) = store_abs s"
proof -
  have idx: "store_index (do_write (Item_key i, None) s) = store_index s" by (simp add: store_index_def store_simps cong: map_cong)
  show "store_inv ident (do_write (Item_key i, None) s)" using assms(1) by (auto simp: store_inv_def idx store_simps split: if_splits)
  show "store_abs (do_write (Item_key i, None) s) = store_abs s"
    unfolding store_abs_def idx by (rule map_filter_cong) (use assms(2) in \<open>auto simp: store_simps\<close>)
qed

lemma unindexed_inv:
  assumes inv: "store_inv ident st" and item: "readItem st' = readItem st" and index: "store_index st' = filter (\<lambda>e. e \<noteq> i) (store_index st)"
    and pages: "distinct (fst (readMeta st'))" "snd (readMeta st') = snd (readMeta st)"
      "\<And>p. p \<in> set (fst (readMeta st')) \<Longrightarrow> p \<in> set (fst (readMeta st)) \<and> length (readPage st' p) \<le> length (readPage st p)"
  shows "store_inv ident st' \<and> store_abs st' = filter (\<lambda>x. ident x \<noteq> i) (store_abs st)"
proof
  show "store_inv ident st'" using inv pages by (fastforce simp: store_inv_def index item)
  show "store_abs st' = filter (\<lambda>x. ident x \<noteq> i) (store_abs st)"
    using inv unfolding store_abs_def index item by (intro map_filter_removed) (auto simp: store_inv_def)
qed

lemma remove_states:
  assumes inv: "store_inv ident st"
  shows "all_states (remove_ok ident i st) (remove_writes i st) st \<and>
    store_abs (store_remove i st) = filter (\<lambda>x. ident x \<noteq> i) (store_abs st) \<and>
    store_index (store_remove i st) = filter (\<lambda>e. e \<noteq> i) (store_index st)"
proof -
  obtain ps n where meta: "readMeta st = (ps, n)" by force
  have d: "distinct ps" "distinct (concat (map (readPage st) ps))" using inv meta by (auto simp: store_inv_def store_index_def)
  have ok0: "remove_ok ident i st st" using inv by (simp add: remove_ok_def)
  show ?thesis
  proof (cases "i \<in> set (store_index st)")
    case False
    have f: "filter (\<lambda>e. e \<noteq> i) (store_index st) = store_index st" using False by (auto simp: filter_id_conv)
    have "filter (\<lambda>x. ident x \<noteq> i) (store_abs st) = store_abs st"
      using map_filter_removed[of "readItem st" ident i "store_index st"] inv by (simp add: f store_abs_def store_inv_def)
    moreover have "remove_loop i ps st = (ps, False, [])"
      using False meta by (intro remove_loop_none) (auto simp: store_index_def)
    then have ws: "remove_writes i st = [(Item_key i, None)]" by (simp add: remove_writes_def meta)
    moreover have "store_index (do_write (Item_key i, None) st) = store_index st" by (simp add: store_index_def store_simps cong: map_cong)
    ultimately show ?thesis
      using ok0 delete_item_ok[OF inv False] f by (simp add: store_remove_def do_writes_def remove_ok_def)
  next
    case True
    then obtain p where p: "p \<in> set ps" "i \<in> set (readPage st p)" using meta by (auto simp: store_index_def)
    then obtain as bs where ps: "ps = as @ p # bs" by (meson split_list)
    have other: "i \<notin> set (readPage st q)" if "q \<in> set (as @ bs)" for q
    proof -
      have "set (readPage st q) \<subseteq> set (concat (map (readPage st) as)) \<union> set (concat (map (readPage st) bs))" using that by auto
      moreover have "i \<notin> set (concat (map (readPage st) as))" "i \<notin> set (concat (map (readPage st) bs))"
        using d(2) p(2) unfolding ps by (auto simp del: set_concat)
      ultimately show ?thesis by blast
    qed
    define nxt where "nxt = filter (\<lambda>e. e \<noteq> i) (readPage st p)"
    define s1 where "s1 = do_write (Page_key p, if nxt = [] then None else Some (Page_val nxt)) st"
    define ps' where "ps' = as @ (if nxt = [] then [] else [p]) @ bs"
    define s2 where "s2 = do_write (Meta_key, Some (Meta_val ps' n)) s1"
    define s3 where "s3 = do_write (Item_key i, None) s2"
    have loop: "remove_loop i ps st = (ps', True, [(Page_key p, if nxt = [] then None else Some (Page_val nxt))])"
      using remove_loop_one[of as p bs i st] d(1) other p(2) by (simp add: ps nxt_def ps'_def)
    then have ws: "remove_writes i st = [(Page_key p, if nxt = [] then None else Some (Page_val nxt)), (Meta_key, Some (Meta_val ps' n)), (Item_key i, None)]"
      by (simp add: remove_writes_def meta)
    have page1: "readPage s1 q = (if q = p then nxt else readPage st q)" for q by (auto simp: s1_def store_simps)
    have page2: "readPage s2 q = readPage s1 q" for q by (simp add: s2_def store_simps)
    have m: "readMeta s1 = (ps, n)" "readMeta s2 = (ps', n)" by (simp_all add: s1_def s2_def store_simps meta)
    have keep: "concat (map (readPage s1) qs) = filter (\<lambda>e. e \<noteq> i) (concat (map (readPage st) qs))" if "set qs \<subseteq> set as \<or> set qs \<subseteq> set bs" for qs
    proof -
      have "readPage s1 q = readPage st q \<and> filter (\<lambda>e. e \<noteq> i) (readPage st q) = readPage st q" if "q \<in> set qs" for q
      proof
        have q: "q \<in> set (as @ bs)" using that \<open>set qs \<subseteq> set as \<or> set qs \<subseteq> set bs\<close> by auto
        then show "readPage s1 q = readPage st q" using d(1) ps by (auto simp: page1)
        show "filter (\<lambda>e. e \<noteq> i) (readPage st q) = readPage st q" using other[OF q] by (auto simp: filter_id_conv)
      qed
      then show ?thesis by (simp add: filter_concat comp_def cong: map_cong)
    qed
    have idx1: "store_index s1 = filter (\<lambda>e. e \<noteq> i) (store_index st)"
      using keep[of as] keep[of bs] by (simp add: store_index_def m meta ps page1 nxt_def)
    have idx2: "store_index s2 = filter (\<lambda>e. e \<noteq> i) (store_index st)"
    proof -
      have "store_index s2 = concat (map (readPage s1) ps')" by (simp add: store_index_def m page2 cong: map_cong)
      also have "\<dots> = concat (map (readPage s1) ps)" by (simp add: ps ps'_def page1)
      finally show ?thesis using idx1 by (simp add: store_index_def m)
    qed
    have items: "readItem s1 = readItem st" "readItem s2 = readItem st" by (simp_all add: s1_def s2_def store_simps fun_eq_iff)
    have "distinct ps'" "set ps' \<subseteq> set ps" using d(1) by (auto simp: ps ps'_def)
    have one: "store_inv ident s1 \<and> store_abs s1 = filter (\<lambda>x. ident x \<noteq> i) (store_abs st)"
      by (rule unindexed_inv[OF inv items(1) idx1]) (use d(1) in \<open>auto simp: m meta page1 nxt_def\<close>)
    have two: "store_inv ident s2 \<and> store_abs s2 = filter (\<lambda>x. ident x \<noteq> i) (store_abs st)"
      by (rule unindexed_inv[OF inv items(2) idx2]) (use \<open>distinct ps'\<close> \<open>set ps' \<subseteq> set ps\<close> in \<open>auto simp: m meta page1 page2 nxt_def\<close>)
    have gone: "i \<notin> set (store_index s2)" by (simp add: idx2)
    have three: "store_inv ident s3" "store_abs s3 = filter (\<lambda>x. ident x \<noteq> i) (store_abs st)"
      using delete_item_ok[OF _ gone, of ident] two by (simp_all add: s3_def)
    have "store_index s3 = store_index s2" by (simp add: store_index_def s3_def store_simps cong: map_cong)
    then show ?thesis
      using ok0 one two three idx2 unfolding store_remove_def ws
      by (simp add: do_writes_def remove_ok_def flip: s1_def s2_def s3_def)
  qed
qed

section \<open>Listing\<close>

definition same_list :: "('a \<Rightarrow> string) \<Rightarrow> 'a sstore \<Rightarrow> 'a sstore \<Rightarrow> bool" where
  "same_list ident st st' \<longleftrightarrow> store_inv ident st' \<and> store_abs st' = store_abs st"

definition pruned :: "'a sstore \<Rightarrow> 'a sstore \<Rightarrow> bool" where
  \<comment> \<open>the store where some pages lost identifiers without an item\<close>
  "pruned st st' \<longleftrightarrow> readMeta st' = readMeta st \<and> readItem st' = readItem st \<and>
     (\<forall>p. readPage st' p = readPage st p \<or> readPage st' p = filter (\<lambda>i. readItem st i \<noteq> None) (readPage st p))"

lemma pruned_refl: "pruned st st"
  by (simp add: pruned_def)

lemma pruned_index:
  assumes "pruned st st'" "distinct (concat (map (readPage st) ps))"
  shows "List.map_filter (readItem st) (concat (map (readPage st') ps)) = List.map_filter (readItem st) (concat (map (readPage st) ps)) \<and>
    distinct (concat (map (readPage st') ps)) \<and> set (concat (map (readPage st') ps)) \<subseteq> set (concat (map (readPage st) ps))"
  using assms(2)
proof (induction ps)
  case (Cons p ps)
  have "readPage st' p = readPage st p \<or> readPage st' p = filter (\<lambda>i. readItem st i \<noteq> None) (readPage st p)"
    using assms(1) by (simp add: pruned_def)
  then have "List.map_filter (readItem st) (readPage st' p) = List.map_filter (readItem st) (readPage st p)" "set (readPage st' p) \<subseteq> set (readPage st p)"
    "distinct (readPage st' p)"
    using map_filter_present[of "readItem st" "readPage st p"] Cons.prems by (auto)
  moreover have "distinct (concat (map (readPage st) ps))" using Cons.prems by simp
  note Cons.IH[OF this]
  ultimately show ?case using Cons.prems by (simp del: set_concat) blast
qed simp

lemma pruned_same_list:
  assumes "store_inv ident st" "pruned st st'"
  shows "same_list ident st st'"
proof -
  have "distinct (concat (map (readPage st) (fst (readMeta st))))" using assms(1) by (simp add: store_inv_def store_index_def)
  note idx = pruned_index[OF assms(2) this]
  have "length (readPage st' p) \<le> length (readPage st p)" for p
    using assms(2) unfolding pruned_def by (metis length_filter_le order_refl)
  then have "length (readPage st' p) \<le> MAX_IDS_PER_PAGE" if "p \<in> set (fst (readMeta st))" for p
    using that assms(1) unfolding store_inv_def by (meson order_trans)
  then show ?thesis
    using idx assms by (auto simp: same_list_def store_inv_def store_abs_def store_index_def pruned_def)
qed

lemma list_loop_spec:
  assumes "pruned base st" "distinct ps" "\<And>p. p \<in> set ps \<Longrightarrow> readPage st p = readPage base p"
    and "list_loop ps st = (items, ns, dirty, ws)"
  shows "items = List.map_filter (readItem base) (concat (map (readPage base) ps)) \<and> all_states (pruned base) ws st \<and>
    ns = filter (\<lambda>p. readPage (do_writes ws st) p \<noteq> [] \<or> readPage base p = []) ps \<and> (\<forall>q. q \<notin> set ps \<longrightarrow> readPage (do_writes ws st) q = readPage st q)"
  using assms
proof (induction ps arbitrary: st items ns dirty ws)
  case Nil
  then show ?case by (auto simp: do_writes_def)
next
  case (Cons p ps)
  have ri: "readItem st = readItem base" using Cons.prems(1) by (simp add: pruned_def)
  have rp: "readPage st p = readPage base p" using Cons.prems(3) by simp
  let ?surv = "filter (\<lambda>i. readItem base i \<noteq> None) (readPage base p)"
  have items: "List.map_filter (readItem st) (readPage st p) = List.map_filter (readItem base) (readPage base p)" by (simp add: ri rp)
  show ?case
  proof (cases "length ?surv = length (readPage base p)")
    case True
    then obtain xs ns' where rest: "list_loop ps st = (xs, ns', dirty, ws)" "items = List.map_filter (readItem base) (readPage base p) @ xs" "ns = p # ns'"
      using Cons.prems(4) items by (auto simp: Let_def ri rp split: prod.splits)
    have IH: "xs = List.map_filter (readItem base) (concat (map (readPage base) ps))" "all_states (pruned base) ws st"
      "ns' = filter (\<lambda>p. readPage (do_writes ws st) p \<noteq> [] \<or> readPage base p = []) ps" "\<forall>q. q \<notin> set ps \<longrightarrow> readPage (do_writes ws st) q = readPage st q"
      using Cons.IH[OF Cons.prems(1) _ _ rest(1)] Cons.prems(2,3) by auto
    then show ?thesis using rest Cons.prems(2) rp by auto
  next
    case False
    define w :: "'a swrite" where "w = (Page_key p, if ?surv \<noteq> [] then Some (Page_val ?surv) else None)"
    obtain xs ns' d' ws' where rest: "list_loop ps (do_write w st) = (xs, ns', d', ws')" by (metis prod_cases4)
    have res: "items = List.map_filter (readItem base) (readPage base p) @ xs" "ns = (if ?surv \<noteq> [] then p # ns' else ns')" "ws = w # ws'"
      using Cons.prems(4) False rest unfolding list_loop.simps Let_def ri rp w_def[symmetric] by simp_all
    have page: "readPage (do_write w st) q = (if q = p then ?surv else readPage st q)" for q by (auto simp: w_def store_simps)
    have pr: "pruned base (do_write w st)"
      using Cons.prems(1) by (auto simp: pruned_def page) (auto simp: w_def store_simps fun_eq_iff)
    have IH: "xs = List.map_filter (readItem base) (concat (map (readPage base) ps))" "all_states (pruned base) ws' (do_write w st)"
      "ns' = filter (\<lambda>p. readPage (do_writes ws' (do_write w st)) p \<noteq> [] \<or> readPage base p = []) ps"
      "\<forall>q. q \<notin> set ps \<longrightarrow> readPage (do_writes ws' (do_write w st)) q = readPage (do_write w st) q"
    proof -
      have "distinct ps" using Cons.prems(2) by simp
      moreover have "readPage (do_write w st) q = readPage base q" if "q \<in> set ps" for q
        using that Cons.prems(2,3) unfolding page by auto
      ultimately show "xs = List.map_filter (readItem base) (concat (map (readPage base) ps))" "all_states (pruned base) ws' (do_write w st)"
        "ns' = filter (\<lambda>p. readPage (do_writes ws' (do_write w st)) p \<noteq> [] \<or> readPage base p = []) ps"
        "\<forall>q. q \<notin> set ps \<longrightarrow> readPage (do_writes ws' (do_write w st)) q = readPage (do_write w st) q"
        using Cons.IH[OF pr _ _ rest] by blast+
    qed
    have ws: "do_writes ws st = do_writes ws' (do_write w st)" by (simp add: res(3) do_writes_def)
    have "readPage (do_writes ws st) p = ?surv" using IH(4) Cons.prems(2) page by (simp add: ws)
    moreover have "readPage base p \<noteq> []" using False by auto
    moreover have "readPage (do_writes ws st) q = readPage st q" if "q \<notin> set (p # ps)" for q using IH(4) that page by (simp add: ws)
    moreover have "all_states (pruned base) ws st" using IH(2) Cons.prems(1) by (simp add: res(3))
    ultimately show ?thesis using res(1,2) IH(1,3) unfolding ws by auto
  qed
qed

lemma list_states:
  assumes inv: "store_inv ident st"
  shows "fst (store_list st) = store_abs st \<and> all_states (same_list ident st) (snd (list_run st)) st"
proof -
  obtain ps n where meta: "readMeta st = (ps, n)" by force
  obtain items ns dirty ws where loop: "list_loop ps st = (items, ns, dirty, ws)" by (metis prod_cases4)
  have d: "distinct ps" using inv meta by (auto simp: store_inv_def)
  note spec = list_loop_spec[OF pruned_refl d _ loop]
  have items: "items = store_abs st" using spec by (simp add: store_abs_def store_index_def meta)
  have states: "all_states (same_list ident st) ws st"
    using spec pruned_same_list[OF inv] by (simp add: all_states_take)
  define s1 where "s1 = do_writes ws st"
  have s1: "pruned st s1" using spec by (simp add: s1_def all_states_last)
  have same1: "same_list ident st s1" by (rule pruned_same_list[OF inv s1])
  define s2 where "s2 = do_write (Meta_key, Some (Meta_val ns n)) s1"
  have r2: "readMeta s2 = (ns, n)" "readPage s2 = readPage s1" "readItem s2 = readItem s1" by (simp_all add: s2_def store_simps fun_eq_iff)
  have ns: "ns = filter (\<lambda>p. readPage s1 p \<noteq> [] \<or> readPage st p = []) ps" using spec by (simp add: s1_def)
  have m1: "readMeta s1 = (ps, n)" using s1 meta by (simp add: pruned_def)
  have empty: "readPage s1 p = []" if "p \<in> set ps" "p \<notin> set ns" for p using that by (simp add: ns)
  have "concat (map (readPage s1) ns) = concat (map (readPage s1) ps)"
    unfolding ns by (induction ps) auto
  then have idx: "store_index s2 = store_index s1" by (simp add: store_index_def r2 m1)
  have "store_inv ident s2" "store_abs s2 = store_abs s1"
    using same1 m1 ns by (auto simp: same_list_def store_inv_def store_abs_def idx r2)
  then have "same_list ident st s2" using same1 by (simp add: same_list_def)
  then show ?thesis
    using items states same1 by (auto simp: store_list_def list_run_def meta loop all_states_append simp flip: s1_def s2_def)
qed

lemma list_index_subset:
  assumes inv: "store_inv ident st"
  shows "set (store_index (snd (store_list st))) \<subseteq> set (store_index st)"
proof -
  obtain ps n where meta: "readMeta st = (ps, n)" by force
  obtain items ns dirty ws where loop: "list_loop ps st = (items, ns, dirty, ws)" by (metis prod_cases4)
  have d: "distinct ps" "distinct (concat (map (readPage st) ps))" using inv meta by (auto simp: store_inv_def store_index_def)
  note spec = list_loop_spec[OF pruned_refl d(1) _ loop]
  have pr: "pruned st (do_writes ws st)" using spec by (simp add: all_states_last)
  then have sub: "set (concat (map (readPage (do_writes ws st)) ps)) \<subseteq> set (concat (map (readPage st) ps))"
    using pruned_index[OF _ d(2)] by blast
  have "set ns \<subseteq> set ps" using spec by auto
  moreover have "readMeta (do_writes ws st) = (ps, n)" using pr meta by (simp add: pruned_def)
  ultimately show ?thesis
    using sub by (auto simp: store_list_def list_run_def meta loop store_index_def do_writes_def store_simps)
qed

section \<open>The contract of a collection\<close>

text \<open>What the offline queue and the conflict store rely on: the collection is a list.\<close>

locale item_store =
  fixes abs :: "'s \<Rightarrow> 'a list" and inv :: "'s \<Rightarrow> bool" and index :: "'s \<Rightarrow> string list" and ident :: "'a \<Rightarrow> string"
    and add :: "'a \<Rightarrow> 's \<Rightarrow> 's" and lst :: "'s \<Rightarrow> 'a list \<times> 's" and remove :: "string \<Rightarrow> 's \<Rightarrow> 's"
  assumes add_law: "inv s \<Longrightarrow> ident x \<notin> set (index s) \<Longrightarrow>
      inv (add x s) \<and> abs (add x s) = abs s @ [x] \<and> index (add x s) = index s @ [ident x]"
    and lst_law: "inv s \<Longrightarrow> fst (lst s) = abs s \<and> inv (snd (lst s)) \<and> abs (snd (lst s)) = abs s \<and> set (index (snd (lst s))) \<subseteq> set (index s)"
    and remove_law: "inv s \<Longrightarrow> inv (remove i s) \<and> abs (remove i s) = filter (\<lambda>x. ident x \<noteq> i) (abs s) \<and>
      index (remove i s) = filter (\<lambda>e. e \<noteq> i) (index s)"
begin

lemma remove_all:
  "inv s \<Longrightarrow> inv (fold remove is s) \<and> abs (fold remove is s) = filter (\<lambda>x. ident x \<notin> set is) (abs s) \<and>
     index (fold remove is s) = filter (\<lambda>e. e \<notin> set is) (index s)"
proof (induction "is" arbitrary: s)
  case (Cons i "is")
  have "inv (remove i s)" using remove_law[OF Cons.prems] by blast
  from Cons.IH[OF this] remove_law[OF Cons.prems, of i] show ?case by (auto intro: filter_cong)
qed simp

lemma add_all:
  "inv s \<Longrightarrow> distinct (map ident xs) \<Longrightarrow> set (map ident xs) \<inter> set (index s) = {} \<Longrightarrow>
     inv (fold add xs s) \<and> abs (fold add xs s) = abs s @ xs \<and> index (fold add xs s) = index s @ map ident xs"
proof (induction xs arbitrary: s)
  case (Cons x xs)
  have a: "inv (add x s) \<and> abs (add x s) = abs s @ [x] \<and> index (add x s) = index s @ [ident x]"
    using Cons.prems by (intro add_law) auto
  with Cons.IH[of "add x s"] Cons.prems show ?case by auto
qed simp

end

lemma store_item_laws:
  assumes "store_inv ident s"
  shows "ident x \<notin> set (store_index s) \<Longrightarrow>
      store_inv ident (store_add ident x s) \<and> store_abs (store_add ident x s) = store_abs s @ [x] \<and> store_index (store_add ident x s) = store_index s @ [ident x]"
    and "fst (store_list s) = store_abs s \<and> store_inv ident (snd (store_list s)) \<and> store_abs (snd (store_list s)) = store_abs s \<and>
      set (store_index (snd (store_list s))) \<subseteq> set (store_index s)"
    and "store_inv ident (store_remove i s) \<and> store_abs (store_remove i s) = filter (\<lambda>x. ident x \<noteq> i) (store_abs s) \<and>
      store_index (store_remove i s) = filter (\<lambda>e. e \<noteq> i) (store_index s)"
proof -
  show "store_inv ident (store_add ident x s) \<and> store_abs (store_add ident x s) = store_abs s @ [x] \<and> store_index (store_add ident x s) = store_index s @ [ident x]"
    if "ident x \<notin> set (store_index s)"
  proof -
    have "add_ok ident x s (store_add ident x s)"
      unfolding store_add_def by (rule all_states_last) (use add_states[OF assms that] in blast)
    moreover have "store_abs (store_add ident x s) = store_abs s @ [x] \<and> store_index (store_add ident x s) = store_index s @ [ident x]"
      using add_states[OF assms that] by (simp add: store_add_def)
    ultimately show ?thesis by (simp add: add_ok_def)
  qed
  show "fst (store_list s) = store_abs s \<and> store_inv ident (snd (store_list s)) \<and> store_abs (snd (store_list s)) = store_abs s \<and>
      set (store_index (snd (store_list s))) \<subseteq> set (store_index s)"
  proof -
    have "same_list ident s (snd (store_list s))"
      unfolding store_list_def snd_conv by (rule all_states_last) (use list_states[OF assms] in blast)
    then show ?thesis using list_states[OF assms] list_index_subset[OF assms] by (simp add: same_list_def)
  qed
  show "store_inv ident (store_remove i s) \<and> store_abs (store_remove i s) = filter (\<lambda>x. ident x \<noteq> i) (store_abs s) \<and>
      store_index (store_remove i s) = filter (\<lambda>e. e \<noteq> i) (store_index s)"
  proof -
    have "remove_ok ident i s (store_remove i s)"
      unfolding store_remove_def by (rule all_states_last) (use remove_states[OF assms, of i] in blast)
    moreover have "store_abs (store_remove i s) = filter (\<lambda>x. ident x \<noteq> i) (store_abs s) \<and>
        store_index (store_remove i s) = filter (\<lambda>e. e \<noteq> i) (store_index s)"
      using remove_states[OF assms, of i] by (simp add: store_remove_def)
    ultimately show ?thesis by (simp add: remove_ok_def)
  qed
qed

interpretation secure: item_store store_abs "store_inv ident" store_index ident "store_add ident" store_list store_remove for ident
  by unfold_locales (rule store_item_laws; assumption)+

text \<open>
  Property C10. The paged collection is a list, and a kill of the app cannot corrupt it. Adding an item
  with a new identifier appends it, listing returns the items in the order they were added and changes
  nothing, removing deletes exactly the item with that identifier, and no page ever exceeds 40
  identifiers. Between any two of the single-key writes of an operation the collection is well formed
  and stands for the list before the operation or the list after it.
\<close>

theorem secure_store_refines_list:
  assumes "store_inv ident st"
  shows "(ident x \<notin> set (store_index st) \<longrightarrow> store_abs (store_add ident x st) = store_abs st @ [x]) \<and>
    fst (store_list st) = store_abs st \<and> store_abs (snd (store_list st)) = store_abs st \<and>
    store_abs (store_remove i st) = filter (\<lambda>y. ident y \<noteq> i) (store_abs st) \<and>
    (ident x \<notin> set (store_index st) \<longrightarrow> (\<forall>k. let st' = do_writes (take k (add_writes ident x st)) st
       in store_inv ident st' \<and> store_abs st' \<in> {store_abs st, store_abs st @ [x]})) \<and>
    (\<forall>k. let st' = do_writes (take k (snd (list_run st))) st in store_inv ident st' \<and> store_abs st' = store_abs st) \<and>
    (\<forall>k. let st' = do_writes (take k (remove_writes i st)) st
       in store_inv ident st' \<and> store_abs st' \<in> {store_abs st, filter (\<lambda>y. ident y \<noteq> i) (store_abs st)})"
  using secure.add_law[OF assms, of x] secure.lst_law[OF assms] secure.remove_law[OF assms, of i]
    add_states[OF assms, of x] list_states[OF assms] remove_states[OF assms, of i]
  by (simp add: all_states_take add_ok_def same_list_def remove_ok_def Let_def)

theorem secure_store_refines_list_witness:
  "fst (store_list (store_remove ''a'' (store_add id ''b'' (store_add id ''a'' Map.empty)))) = [''b'']"
proof -
  have inv0: "store_inv id Map.empty" by (simp add: store_inv_def readMeta_def readItem_def store_index_def)
  have idx0: "store_index (Map.empty :: string sstore) = []" "store_abs (Map.empty :: string sstore) = []" by (simp_all add: store_index_def store_abs_def readMeta_def)
  let ?s1 = "store_add id ''a'' Map.empty" and ?s2 = "store_add id ''b'' (store_add id ''a'' Map.empty)"
  note spec = secure_store_refines_list[where ident = id and i = "''a''"]
  have a1: "store_abs ?s1 = [''a'']" using spec[OF inv0, of "''a''", THEN conjunct1] idx0 by simp
  have l1: "store_inv id ?s1" "store_index ?s1 = [''a'']" using secure.add_law[OF inv0, of "''a''"] idx0 by simp_all
  have a2: "store_abs ?s2 = [''a'', ''b'']" using spec[OF l1(1), of "''b''", THEN conjunct1] l1(2) a1 by simp
  have inv2: "store_inv id ?s2" using secure.add_law[OF l1(1), of "''b''"] l1(2) by simp
  have r: "store_abs (store_remove ''a'' ?s2) = [''b'']" using spec[OF inv2, THEN conjunct2, THEN conjunct2, THEN conjunct2, THEN conjunct1] a2 by simp
  have "store_inv id (store_remove ''a'' ?s2)" using secure.remove_law[OF inv2] by blast
  from spec[OF this, THEN conjunct2, THEN conjunct1] r show ?thesis by simp
qed

section \<open>Adding an identifier again\<close>

lemma add_index:
  assumes "distinct (fst (readMeta st))" "\<And>p. p \<in> set (fst (readMeta st)) \<Longrightarrow> p < snd (readMeta st)"
  shows "store_index (store_add ident x st) = store_index st @ [ident x]" "readItem (store_add ident x st) (ident x) = Some x"
proof -
  obtain ps n where meta: "readMeta st = (ps, n)" by force
  let ?fresh = "ps = [] \<or> length (readPage st (last ps)) \<ge> MAX_IDS_PER_PAGE"
  have pages: "concat (map (\<lambda>q. if q = last ps then readPage st q @ [ident x] else readPage st q) ps) = store_index st @ [ident x]" if "ps \<noteq> []"
    using concat_last_page[OF that, of "readPage st" "[ident x]"] assms(1) meta by (simp add: store_index_def)
  have old: "concat (map (\<lambda>q. if q = n then [ident x] else readPage st q) ps) = store_index st"
  proof -
    have "n \<notin> set ps" using assms(2)[of n] meta by auto
    then show ?thesis by (auto simp: store_index_def meta intro!: arg_cong[of _ _ concat])
  qed
  show "store_index (store_add ident x st) = store_index st @ [ident x]"
    using pages old meta
    by (cases ?fresh) (auto simp: store_add_def add_writes_def Let_def do_writes_def store_index_def store_simps cong: map_cong if_cong)
  show "readItem (store_add ident x st) (ident x) = Some x"
    using meta by (auto simp: store_add_def add_writes_def Let_def do_writes_def store_simps)
qed

lemma add_again_lists_twice:
  assumes "store_inv ident st" "ident x \<in> set (store_index st)"
  shows "\<exists>as bs. store_abs (store_add ident x st) = as @ x # bs @ [x]"
proof -
  have m: "distinct (fst (readMeta st))" "\<And>p. p \<in> set (fst (readMeta st)) \<Longrightarrow> p < snd (readMeta st)" using assms(1) by (auto simp: store_inv_def)
  obtain us vs where "store_index st = us @ ident x # vs" using assms(2) by (meson split_list)
  then show ?thesis by (auto simp: store_abs_def add_index[OF m])
qed

end
