(* ===== verification/Attendance_Ingestion.thy ===== *)
theory Attendance_Ingestion
  imports WFM_Prelude
begin

text \<open>
  The clock-event ingestion of \<open>attendance-leave-service/src/attendance\<close>: detection of attendance
  exceptions against the shift schedule, and the ingestion that writes the attendance record and its
  idempotency ledger row in one transaction. The answer of the scheduling service is a parameter
  (\<open>None\<close> when the call fails). Times are in milliseconds, grace periods in whole minutes, and an
  identifier drawn by \<open>randomUUID\<close> is an argument.
\<close>

section \<open>Data\<close>

datatype attendance_source = Src_badge | Src_biometric | Src_manual | Src_mobile_app

datatype attendance_exception_type =
  Att_late | Att_early_leave | Att_no_show | Att_unscheduled_work | Att_geofence_violation

datatype clock_event_type = Clock_in | Clock_out

record clock_event =
  ce_sourceEventId :: string
  ce_employeeId :: string
  ce_eventType :: clock_event_type
  ce_occurredAt :: int
  ce_source :: attendance_source
  ce_geofenceVerified :: "bool option"

record attendance_record =
  ar_id :: string
  ar_tenantId :: string
  ar_employeeId :: string
  ar_clockInAt :: int
  ar_clockOutAt :: "int option"
  ar_source :: attendance_source
  ar_scheduledShiftId :: "string option"
  ar_exceptionType :: "attendance_exception_type option"
  ar_exceptionMinutes :: "int option"
  ar_geofenceVerified :: "bool option"

record attendance_ledger_row =
  al_id :: string
  al_tenantId :: string
  al_source :: attendance_source
  al_sourceEventId :: string
  al_eventType :: clock_event_type
  al_attendanceRecordId :: string
  al_receivedAt :: int

record attendance_db =
  ad_records :: "attendance_record list"
  ad_ledger :: "attendance_ledger_row list"

datatype attendance_error =
    Att_upstream_unavailable
  | No_open_attendance_record string
  | Attendance_record_conflict string
  | Att_unique_violation
  | Att_check_violation
  | Att_entity_not_found

datatype attendance_outcome = Att_accepted string | Att_duplicate string

record employee_shift =
  es_id :: string
  es_shiftStart :: int
  es_shiftEnd :: int

type_synonym att_schedule_client = "string \<Rightarrow> string \<Rightarrow> int \<Rightarrow> int \<Rightarrow> employee_shift list option"

record attendance_config =
  ac_lateGraceMinutes :: int
  ac_earlyLeaveGraceMinutes :: int

section \<open>Exception detection\<close>

definition MINUTES :: int where
  "MINUTES = 60000"

definition round_minutes :: "int \<Rightarrow> int" where
  \<comment> \<open>\<open>Math.round(ms / MINUTES)\<close>: the nearest integer, a half rounded up\<close>
  "round_minutes ms = (2 * ms + MINUTES) div (2 * MINUTES)"

definition shift_covers :: "int \<Rightarrow> int \<Rightarrow> employee_shift \<Rightarrow> bool" where
  "shift_covers occurredAt graceMs a \<longleftrightarrow> es_shiftStart a - graceMs \<le> occurredAt \<and> occurredAt \<le> es_shiftEnd a + graceMs"

definition nearer :: "int \<Rightarrow> employee_shift \<Rightarrow> employee_shift \<Rightarrow> bool" where
  "nearer occurredAt a b \<longleftrightarrow> \<bar>es_shiftStart a - occurredAt\<bar> \<le> \<bar>es_shiftStart b - occurredAt\<bar>"

definition findCoveringShift :: "employee_shift list \<Rightarrow> int \<Rightarrow> int \<Rightarrow> employee_shift option" where
  "findCoveringShift assignments occurredAt graceMinutes =
     (let candidates = filter (shift_covers occurredAt (graceMinutes * MINUTES)) assignments
      in case js_sort (nearer occurredAt) candidates of [] \<Rightarrow> None | c # _ \<Rightarrow> Some c)"

definition detectForClockIn ::
  "att_schedule_client \<Rightarrow> attendance_config \<Rightarrow> string \<Rightarrow> string \<Rightarrow> int \<Rightarrow>
   (string option \<times> attendance_exception_type option \<times> int option) option" where
  \<comment> \<open>scheduled shift, exception type and minutes\<close>
  "detectForClockIn getShiftAssignments cfg tenantId employeeId occurredAt =
     (case getShiftAssignments tenantId employeeId (occurredAt - 12 * 60 * MINUTES) (occurredAt + 12 * 60 * MINUTES) of
        None \<Rightarrow> None
      | Some assignments \<Rightarrow>
          (case findCoveringShift assignments occurredAt (ac_lateGraceMinutes cfg) of
             None \<Rightarrow> Some (None, Some Att_unscheduled_work, None)
           | Some shift \<Rightarrow>
               let lateMinutes = round_minutes (occurredAt - es_shiftStart shift)
               in if lateMinutes > ac_lateGraceMinutes cfg
                  then Some (Some (es_id shift), Some Att_late, Some lateMinutes)
                  else Some (Some (es_id shift), None, None)))"

definition detectForClockOut ::
  "att_schedule_client \<Rightarrow> attendance_config \<Rightarrow> string \<Rightarrow> string \<Rightarrow> attendance_record \<Rightarrow> int \<Rightarrow>
   (attendance_exception_type option \<times> int option) option" where
  "detectForClockOut getShiftAssignments cfg tenantId employeeId openRecord occurredAt =
     (if \<not> truthy_str (ar_scheduledShiftId openRecord) \<or> ar_exceptionType openRecord \<noteq> None then Some (None, None)
      else case getShiftAssignments tenantId employeeId (ar_clockInAt openRecord - 60 * MINUTES) (occurredAt + 60 * MINUTES) of
        None \<Rightarrow> None
      | Some assignments \<Rightarrow>
          (case find_where (\<lambda>a. Some (es_id a) = ar_scheduledShiftId openRecord) assignments of
             None \<Rightarrow> Some (None, None)
           | Some shift \<Rightarrow>
               let earlyMinutes = round_minutes (es_shiftEnd shift - occurredAt)
               in if earlyMinutes > ac_earlyLeaveGraceMinutes cfg then Some (Some Att_early_leave, Some earlyMinutes)
                  else Some (None, None)))"

section \<open>Ingestion\<close>

datatype attendance_write =
    Insert_record attendance_record
  | Close_record string int "attendance_exception_type option" "int option" "bool option"

definition findOpenRecord :: "string \<Rightarrow> string \<Rightarrow> attendance_db \<Rightarrow> attendance_record option" where
  "findOpenRecord tenantId employeeId db =
     (case js_sort (\<lambda>a b. ar_clockInAt b \<le> ar_clockInAt a)
             (filter (\<lambda>r. ar_tenantId r = tenantId \<and> ar_employeeId r = employeeId \<and> ar_clockOutAt r = None) (ad_records db)) of
        [] \<Rightarrow> None
      | r # _ \<Rightarrow> Some r)"

definition ingest_plan ::
  "att_schedule_client \<Rightarrow> attendance_config \<Rightarrow> string \<Rightarrow> string \<Rightarrow> clock_event \<Rightarrow> attendance_db \<Rightarrow> attendance_error + attendance_write" where
  \<comment> \<open>what \<open>ingest\<close> decides before its transaction; \<open>recordId\<close> is the drawn \<open>randomUUID\<close> of a clock-in\<close>
  "ingest_plan getShiftAssignments cfg recordId tenantId ev db =
     (let occurredAt = ce_occurredAt ev; outside = (ce_geofenceVerified ev = Some False)
      in case ce_eventType ev of
           Clock_in \<Rightarrow>
             (case detectForClockIn getShiftAssignments cfg tenantId (ce_employeeId ev) occurredAt of
                None \<Rightarrow> Inl Att_upstream_unavailable
              | Some (shiftId, exc, mins) \<Rightarrow>
                  Inr (Insert_record
                    \<lparr>ar_id = recordId, ar_tenantId = tenantId, ar_employeeId = ce_employeeId ev,
                     ar_clockInAt = occurredAt, ar_clockOutAt = None, ar_source = ce_source ev,
                     ar_scheduledShiftId = shiftId,
                     ar_exceptionType = (if outside \<and> exc = None then Some Att_geofence_violation else exc),
                     ar_exceptionMinutes = mins, ar_geofenceVerified = ce_geofenceVerified ev\<rparr>))
         | Clock_out \<Rightarrow>
             (case findOpenRecord tenantId (ce_employeeId ev) db of
                None \<Rightarrow> Inl (No_open_attendance_record (ce_employeeId ev))
              | Some openRecord \<Rightarrow>
                  (case detectForClockOut getShiftAssignments cfg tenantId (ce_employeeId ev) openRecord occurredAt of
                     None \<Rightarrow> Inl Att_upstream_unavailable
                   | Some (exc, mins) \<Rightarrow>
                       let exc' = (if outside \<and> exc = None \<and> ar_exceptionType openRecord = None
                                   then Some Att_geofence_violation else exc)
                       in Inr (Close_record (ar_id openRecord) occurredAt
                            (nullish_or exc' (ar_exceptionType openRecord))
                            (nullish_or mins (ar_exceptionMinutes openRecord))
                            (nullish_or (ce_geofenceVerified ev) (ar_geofenceVerified openRecord))))))"

definition write_attendance_record :: "string \<Rightarrow> attendance_write \<Rightarrow> attendance_db \<Rightarrow> attendance_error + string \<times> attendance_db" where
  \<comment> \<open>the callback of \<open>commit\<close>; row-level security confines the update to the tenant's rows, and the table
    checks \<open>clock_out_at >= clock_in_at\<close>\<close>
  "write_attendance_record tenantId w db =
     (case w of
        Insert_record r \<Rightarrow>
          if ar_id r \<in> ar_id ` set (ad_records db) then Inl Att_unique_violation
          else Inr (ar_id r, db\<lparr>ad_records := ad_records db @ [r]\<rparr>)
      | Close_record rid outAt exc mins geo \<Rightarrow>
          let hit = (\<lambda>r. ar_id r = rid \<and> ar_tenantId r = tenantId \<and> ar_clockOutAt r = None)
          in if \<not> list_ex hit (ad_records db) then Inl (Attendance_record_conflict rid)
             else if list_ex (\<lambda>r. hit r \<and> outAt < ar_clockInAt r) (ad_records db) then Inl Att_check_violation
             else Inr (rid, db\<lparr>ad_records := update_where hit
                (\<lambda>r. r\<lparr>ar_clockOutAt := Some outAt, ar_exceptionType := exc, ar_exceptionMinutes := mins,
                        ar_geofenceVerified := geo\<rparr>) (ad_records db)\<rparr>))"

definition ledger_key :: "attendance_ledger_row \<Rightarrow> string \<times> attendance_source \<times> string" where
  \<comment> \<open>the columns of \<open>attendance_ingestion_event_dedup_key\<close>\<close>
  "ledger_key l = (al_tenantId l, al_source l, al_sourceEventId l)"

definition event_key :: "string \<Rightarrow> clock_event \<Rightarrow> string \<times> attendance_source \<times> string" where
  "event_key tenantId ev = (tenantId, ce_source ev, ce_sourceEventId ev)"

definition commit_txn :: "string \<Rightarrow> clock_event \<Rightarrow> string \<Rightarrow> int \<Rightarrow> attendance_write \<Rightarrow> (attendance_db, attendance_error, string) txn" where
  "commit_txn tenantId ev ledgerId now w db =
     (case write_attendance_record tenantId w db of
        Inl e \<Rightarrow> Inl e
      | Inr (rid, db1) \<Rightarrow>
          if event_key tenantId ev \<in> ledger_key ` set (ad_ledger db1) then Inl Att_unique_violation
          else Inr (rid, db1\<lparr>ad_ledger := ad_ledger db1 @
                 [\<lparr>al_id = ledgerId, al_tenantId = tenantId, al_source = ce_source ev, al_sourceEventId = ce_sourceEventId ev,
                   al_eventType = ce_eventType ev, al_attendanceRecordId = rid, al_receivedAt = now\<rparr>]\<rparr>))"

definition commit :: "string \<Rightarrow> clock_event \<Rightarrow> string \<Rightarrow> int \<Rightarrow> attendance_write \<Rightarrow> (attendance_db, attendance_error, attendance_outcome) svc" where
  "commit tenantId ev ledgerId now w db =
     (case run_txn (commit_txn tenantId ev ledgerId now w) db of
        (Inr rid, db') \<Rightarrow> (Inr (Att_accepted rid), db')
      | (Inl Att_unique_violation, db') \<Rightarrow>
          (case find_where (\<lambda>l. ledger_key l = event_key tenantId ev) (ad_ledger db') of
             None \<Rightarrow> (Inl Att_entity_not_found, db')
           | Some existing \<Rightarrow> (Inr (Att_duplicate (al_attendanceRecordId existing)), db'))
      | (Inl e, db') \<Rightarrow> (Inl e, db'))"

definition attendance_ingest ::
  "att_schedule_client \<Rightarrow> attendance_config \<Rightarrow> string \<Rightarrow> string \<Rightarrow> int \<Rightarrow> string \<Rightarrow> clock_event \<Rightarrow>
   (attendance_db, attendance_error, attendance_outcome) svc" where
  \<comment> \<open>\<open>ingest\<close> with no other request between its reads and its transaction\<close>
  "attendance_ingest getShiftAssignments cfg recordId ledgerId now tenantId ev db =
     (case ingest_plan getShiftAssignments cfg recordId tenantId ev db of
        Inl e \<Rightarrow> (Inl e, db)
      | Inr w \<Rightarrow> commit tenantId ev ledgerId now w db)"

definition attendance_status :: "attendance_error + attendance_outcome \<Rightarrow> nat" where
  \<comment> \<open>HTTP status of the controller and of \<open>DomainErrorFilter\<close>; other exceptions are 500\<close>
  "attendance_status r =
     (case r of
        Inr (Att_accepted _) \<Rightarrow> 202
      | Inr (Att_duplicate _) \<Rightarrow> 200
      | Inl Att_upstream_unavailable \<Rightarrow> 503
      | Inl (No_open_attendance_record _) \<Rightarrow> 409
      | Inl (Attendance_record_conflict _) \<Rightarrow> 409
      | Inl _ \<Rightarrow> 500)"

section \<open>The covering shift\<close>

interpretation nearer_cmp: js_comparator "nearer t" for t
  by unfold_locales (auto simp: nearer_def)

lemma findCoveringShift_spec:
  "(findCoveringShift as t g = None \<longleftrightarrow> (\<forall>a\<in>set as. \<not> shift_covers t (g * MINUTES) a)) \<and>
   (\<forall>c. findCoveringShift as t g = Some c \<longrightarrow>
      c \<in> set as \<and> shift_covers t (g * MINUTES) c \<and>
      (\<forall>a\<in>set as. shift_covers t (g * MINUTES) a \<longrightarrow> \<bar>es_shiftStart c - t\<bar> \<le> \<bar>es_shiftStart a - t\<bar>))"
proof -
  let ?cs = "filter (shift_covers t (g * MINUTES)) as"
  show ?thesis
  proof (cases "js_sort (nearer t) ?cs")
    case Nil
    then show ?thesis by (auto simp: findCoveringShift_def filter_empty_conv)
  next
    case (Cons c rest)
    have "set (js_sort (nearer t) ?cs) = set ?cs" by simp
    then have c: "c \<in> set ?cs" using Cons by (metis list.set_intros(1))
    have "nearer t c a" if "a \<in> set ?cs" for a using nearer_cmp.js_sort_head_least[OF that, of t] Cons by simp
    with c Cons show ?thesis by (auto simp: findCoveringShift_def nearer_def)
  qed
qed

lemma round_minutes_gt: "round_minutes d > g \<longleftrightarrow> 2 * d \<ge> (2 * g + 1) * MINUTES"
proof -
  define n where "n = 2 * d + MINUTES"
  have "120000 * (n div 120000) \<le> n" "n < 120000 * (n div 120000) + 120000"
    using mult_div_mod_eq[of 120000 n] pos_mod_bound[of 120000 n] pos_mod_sign[of 120000 n] by linarith+
  then show ?thesis unfolding round_minutes_def n_def MINUTES_def by (auto simp: algebra_simps)
qed

section \<open>Concurrent requests\<close>

text \<open>
  A request reads and decides (\<open>att_begin\<close>), then runs its transaction (\<open>att_commit\<close>) on whatever the
  tables hold by then. A drawn record identifier is new.
\<close>

type_synonym attendance_sys = "attendance_db \<times> (string \<times> clock_event \<times> attendance_write) list"

definition pending_ids :: "(string \<times> clock_event \<times> attendance_write) list \<Rightarrow> string list" where
  "pending_ids ps = concat (map (\<lambda>(t, ev, w). case w of Insert_record r \<Rightarrow> [ar_id r] | _ \<Rightarrow> []) ps)"

inductive att_step :: "attendance_sys \<Rightarrow> attendance_sys \<Rightarrow> bool" where
  att_begin: "ingest_plan gsa cfg rid t ev db = Inr w \<Longrightarrow> rid \<notin> ar_id ` set (ad_records db) \<Longrightarrow> rid \<notin> set (pending_ids ps) \<Longrightarrow>
     att_step (db, ps) (db, (t, ev, w) # ps)"
| att_commit: "commit t ev lid now w db = (res, db') \<Longrightarrow> att_step (db, us @ (t, ev, w) # vs) (db', us @ vs)"

inductive att_reachable :: "attendance_sys \<Rightarrow> bool" where
  att_init: "att_reachable (\<lparr>ad_records = [], ad_ledger = []\<rparr>, [])"
| att_next: "att_reachable s \<Longrightarrow> att_step s s' \<Longrightarrow> att_reachable s'"

definition ins_rows :: "attendance_db \<Rightarrow> attendance_ledger_row list" where
  "ins_rows db = filter (\<lambda>l. al_eventType l = Clock_in) (ad_ledger db)"

definition out_rows :: "attendance_db \<Rightarrow> attendance_ledger_row list" where
  "out_rows db = filter (\<lambda>l. al_eventType l = Clock_out) (ad_ledger db)"

definition attendance_books :: "attendance_db \<Rightarrow> bool" where
  \<comment> \<open>the ledger and the records agree\<close>
  "attendance_books db \<longleftrightarrow>
     distinct (map ar_id (ad_records db)) \<and> distinct (map ledger_key (ad_ledger db)) \<and>
     map (\<lambda>l. (al_tenantId l, al_attendanceRecordId l)) (ins_rows db) = map (\<lambda>r. (ar_tenantId r, ar_id r)) (ad_records db) \<and>
     distinct (map al_attendanceRecordId (out_rows db)) \<and>
     (\<lambda>l. (al_tenantId l, al_attendanceRecordId l)) ` set (out_rows db) = (\<lambda>r. (ar_tenantId r, ar_id r)) ` {r \<in> set (ad_records db). ar_clockOutAt r \<noteq> None} \<and>
     (\<forall>r\<in>set (ad_records db). \<forall>t. ar_clockOutAt r = Some t \<longrightarrow> ar_clockInAt r \<le> t)"

definition plan_ok :: "string \<times> clock_event \<times> attendance_write \<Rightarrow> bool" where
  "plan_ok p \<longleftrightarrow> (case p of (t, ev, w) \<Rightarrow>
     case w of Insert_record r \<Rightarrow> ce_eventType ev = Clock_in \<and> ar_tenantId r = t \<and> ar_clockOutAt r = None
             | Close_record _ _ _ _ _ \<Rightarrow> ce_eventType ev = Clock_out)"

definition att_inv :: "attendance_sys \<Rightarrow> bool" where
  "att_inv s \<longleftrightarrow> attendance_books (fst s) \<and> list_all plan_ok (snd s) \<and> distinct (pending_ids (snd s)) \<and>
     set (pending_ids (snd s)) \<inter> ar_id ` set (ad_records (fst s)) = {}"

lemma ingest_plan_ok:
  assumes "ingest_plan gsa cfg rid t ev db = Inr w"
  shows "plan_ok (t, ev, w) \<and> (\<forall>r. w = Insert_record r \<longrightarrow> ar_id r = rid)"
  using assms by (auto simp: ingest_plan_def plan_ok_def Let_def split: clock_event_type.splits option.splits prod.splits)

text \<open>A committed transaction keeps the books.\<close>

lemma books_insert:
  assumes "attendance_books db" "write_attendance_record t (Insert_record r) db = Inr (rid, db1)"
    "event_key t ev \<notin> ledger_key ` set (ad_ledger db1)" "ce_eventType ev = Clock_in" "ar_tenantId r = t" "ar_clockOutAt r = None"
  shows "attendance_books (db1\<lparr>ad_ledger := ad_ledger db1 @ [\<lparr>al_id = lid, al_tenantId = t, al_source = ce_source ev,
     al_sourceEventId = ce_sourceEventId ev, al_eventType = ce_eventType ev, al_attendanceRecordId = rid, al_receivedAt = now\<rparr>]\<rparr>)"
proof -
  have db1: "rid = ar_id r" "db1 = db\<lparr>ad_records := ad_records db @ [r]\<rparr>" "ar_id r \<notin> ar_id ` set (ad_records db)"
    using assms(2) by (auto simp: write_attendance_record_def split: if_splits)
  show ?thesis
    using assms(1,3-) db1 by (auto simp: attendance_books_def ins_rows_def out_rows_def ledger_key_def event_key_def image_iff)
qed

lemma books_close:
  assumes books: "attendance_books db" and w: "write_attendance_record t (Close_record i outAt exc mins geo) db = Inr (rid, db1)"
    and key: "event_key t ev \<notin> ledger_key ` set (ad_ledger db1)" and out: "ce_eventType ev = Clock_out"
  shows "attendance_books (db1\<lparr>ad_ledger := ad_ledger db1 @ [\<lparr>al_id = lid, al_tenantId = t, al_source = ce_source ev,
     al_sourceEventId = ce_sourceEventId ev, al_eventType = ce_eventType ev, al_attendanceRecordId = rid, al_receivedAt = now\<rparr>]\<rparr>)"
proof -
  define hit where "hit = (\<lambda>r :: attendance_record. ar_id r = i \<and> ar_tenantId r = t \<and> ar_clockOutAt r = None)"
  define upd where "upd = (\<lambda>r :: attendance_record. r\<lparr>ar_clockOutAt := Some outAt, ar_exceptionType := exc, ar_exceptionMinutes := mins, ar_geofenceVerified := geo\<rparr>)"
  have ex: "list_ex hit (ad_records db)" and chk: "\<not> list_ex (\<lambda>r. hit r \<and> outAt < ar_clockInAt r) (ad_records db)"
    and db1: "rid = i" "db1 = db\<lparr>ad_records := update_where hit upd (ad_records db)\<rparr>"
    using w by (auto simp: write_attendance_record_def Let_def hit_def upd_def split: if_splits)
  obtain r where r: "r \<in> set (ad_records db)" "ar_id r = i" "ar_tenantId r = t" "ar_clockOutAt r = None"
    using ex by (auto simp: list_ex_iff hit_def)
  have only: "hit x \<longleftrightarrow> x = r" if "x \<in> set (ad_records db)" for x
    using books r that by (auto simp: attendance_books_def hit_def distinct_map inj_on_def)
  have ids: "map (\<lambda>r. (ar_tenantId r, ar_id r)) (update_where hit upd (ad_records db)) = map (\<lambda>r. (ar_tenantId r, ar_id r)) (ad_records db)"
    "map ar_id (update_where hit upd (ad_records db)) = map ar_id (ad_records db)"
    by (auto intro!: map_update_where simp: upd_def)
  have fresh: "i \<notin> al_attendanceRecordId ` set (out_rows db)"
  proof
    assume "i \<in> al_attendanceRecordId ` set (out_rows db)"
    then obtain l where "l \<in> set (out_rows db)" "al_attendanceRecordId l = i" by auto
    then have "(al_tenantId l, i) \<in> (\<lambda>r. (ar_tenantId r, ar_id r)) ` {r \<in> set (ad_records db). ar_clockOutAt r \<noteq> None}"
      using books by (fastforce simp: attendance_books_def)
    then obtain x where "x \<in> set (ad_records db)" "ar_id x = i" "ar_clockOutAt x \<noteq> None" by auto
    then show False using books r by (auto simp: attendance_books_def distinct_map inj_on_def)
  qed
  have set: "set (update_where hit upd (ad_records db)) = insert (upd r) (set (ad_records db) - {r})"
    using only r(1) by (auto simp: set_update_where)
  have closed: "(\<lambda>r. (ar_tenantId r, ar_id r)) ` {x \<in> set (update_where hit upd (ad_records db)). ar_clockOutAt x \<noteq> None} =
      insert (t, i) ((\<lambda>r. (ar_tenantId r, ar_id r)) ` {x \<in> set (ad_records db). ar_clockOutAt x \<noteq> None})"
  proof -
    have "{x \<in> insert (upd r) (set (ad_records db) - {r}). ar_clockOutAt x \<noteq> None} = insert (upd r) {x \<in> set (ad_records db). ar_clockOutAt x \<noteq> None}"
      using r(4) by (auto simp: upd_def)
    moreover have "ar_tenantId (upd r) = t" "ar_id (upd r) = i" using r by (simp_all add: upd_def)
    ultimately show ?thesis unfolding set by simp
  qed
  have "outAt \<ge> ar_clockInAt r" using chk r by (auto simp: list_ex_iff hit_def not_less)
  then have order: "\<forall>x\<in>set (update_where hit upd (ad_records db)). \<forall>u. ar_clockOutAt x = Some u \<longrightarrow> ar_clockInAt x \<le> u"
    using books unfolding set by (auto simp: upd_def attendance_books_def)
  from books key fresh order closed ids show ?thesis
    unfolding attendance_books_def db1 ins_rows_def out_rows_def ledger_key_def event_key_def
    by (auto simp: out ledger_key_def)
qed

lemma commit_txn_books:
  assumes "attendance_books db" "plan_ok (t, ev, w)" "commit_txn t ev lid now w db = Inr (rid, db')"
  shows "attendance_books db'"
proof -
  obtain db1 where w: "write_attendance_record t w db = Inr (rid, db1)" "event_key t ev \<notin> ledger_key ` set (ad_ledger db1)"
    and db': "db' = db1\<lparr>ad_ledger := ad_ledger db1 @ [\<lparr>al_id = lid, al_tenantId = t, al_source = ce_source ev,
     al_sourceEventId = ce_sourceEventId ev, al_eventType = ce_eventType ev, al_attendanceRecordId = rid, al_receivedAt = now\<rparr>]\<rparr>"
    using assms(3) by (auto simp: commit_txn_def split: sum.splits if_splits)
  show ?thesis
  proof (cases w)
    case (Insert_record r)
    then show ?thesis unfolding db' using assms(2) w by (intro books_insert[OF assms(1)]) (auto simp: plan_ok_def)
  next
    case (Close_record i outAt exc mins geo)
    then show ?thesis unfolding db' using assms(2) w by (intro books_close[OF assms(1)]) (auto simp: plan_ok_def)
  qed
qed

lemma commit_cases:
  assumes "commit t ev lid now w db = (res, db')"
  obtains "db' = db" "\<And>rid. res \<noteq> Inr (Att_accepted rid)"
  | rid where "commit_txn t ev lid now w db = Inr (rid, db')" "res = Inr (Att_accepted rid)"
proof (cases "commit_txn t ev lid now w db")
  case (Inl e)
  with assms have "db' = db" "\<And>rid. res \<noteq> Inr (Att_accepted rid)" by (cases e; auto simp: commit_def split: option.splits)+
  then show ?thesis by (rule that(1))
next
  case (Inr p)
  obtain rid db2 where p: "p = (rid, db2)" by (cases p)
  have "res = Inr (Att_accepted rid)" "db2 = db'" using assms Inr p by (auto simp: commit_def)
  then show ?thesis using Inr p by (intro that(2)[of rid]; simp)
qed

lemma commit_txn_ids:
  assumes "commit_txn t ev lid now w db = Inr (rid, db')"
  shows "ar_id ` set (ad_records db') = ar_id ` set (ad_records db) \<union> (case w of Insert_record r \<Rightarrow> {ar_id r} | _ \<Rightarrow> {})"
proof (cases w)
  case (Close_record i outAt exc mins geo)
  then obtain hit upd where "ad_records db' = update_where hit upd (ad_records db)" "\<And>r. ar_id (upd r) = ar_id r"
    using assms by (auto simp: commit_txn_def write_attendance_record_def Let_def split: if_splits)
  then have "map ar_id (ad_records db') = map ar_id (ad_records db)" by (simp add: map_update_where)
  then have "set (map ar_id (ad_records db')) = set (map ar_id (ad_records db))" by (rule arg_cong)
  then show ?thesis using Close_record by simp
qed (use assms in \<open>auto simp: commit_txn_def write_attendance_record_def split: if_splits\<close>)

lemma pending_ids_simps [simp]:
  "pending_ids [] = []" "pending_ids ((t, ev, w) # ps) = (case w of Insert_record r \<Rightarrow> [ar_id r] | _ \<Rightarrow> []) @ pending_ids ps"
  "pending_ids (us @ vs) = pending_ids us @ pending_ids vs"
  by (auto simp: pending_ids_def)

lemma att_inv_step: "att_step s s' \<Longrightarrow> att_inv s \<Longrightarrow> att_inv s'"
proof (induction rule: att_step.induct)
  case (att_begin gsa cfg rid t ev db w ps)
  from ingest_plan_ok[OF att_begin.hyps(1)] att_begin show ?case by (cases w) (auto simp: att_inv_def)
next
  case (att_commit t ev lid now w db res db' us vs)
  have inv: "attendance_books db" "plan_ok (t, ev, w)" using att_commit.prems by (simp_all add: att_inv_def)
  from att_commit.hyps show ?case
  proof (cases rule: commit_cases)
    case 1
    then show ?thesis using att_commit.prems by (auto simp: att_inv_def)
  next
    case (2 rid)
    from att_commit.prems commit_txn_ids[OF 2(1)] commit_txn_books[OF inv 2(1)]
    show ?thesis by (cases w) (auto simp: att_inv_def)
  qed
qed

lemma att_inv_reachable: "att_reachable s \<Longrightarrow> att_inv s"
  by (induction rule: att_reachable.induct)
    (simp add: att_inv_def attendance_books_def ins_rows_def out_rows_def, rule att_inv_step)

section \<open>Guarantees\<close>

definition sample_event :: "string \<Rightarrow> clock_event_type \<Rightarrow> int \<Rightarrow> clock_event" where
  "sample_event i ty at0 = \<lparr>ce_sourceEventId = i, ce_employeeId = ''e'', ce_eventType = ty, ce_occurredAt = at0,
     ce_source = Src_mobile_app, ce_geofenceVerified = None\<rparr>"

definition sample_schedule :: att_schedule_client where
  "sample_schedule t e f u = Some []"

definition sample_config :: attendance_config where
  "sample_config = \<lparr>ac_lateGraceMinutes = 10, ac_earlyLeaveGraceMinutes = 10\<rparr>"

definition sample_open :: attendance_db where
  "sample_open = snd (attendance_ingest sample_schedule sample_config ''r1'' ''l1'' 5 ''t'' (sample_event ''i'' Clock_in 5)
     \<lparr>ad_records = [], ad_ledger = []\<rparr>)"

lemmas ingest_unfold = attendance_ingest_def ingest_plan_def commit_def run_txn_def commit_txn_def write_attendance_record_def
  detectForClockIn_def detectForClockOut_def findCoveringShift_def findOpenRecord_def sample_event_def sample_schedule_def
  ledger_key_def event_key_def

lemma sample_open_eq:
  "sample_open = \<lparr>ad_records = [\<lparr>ar_id = ''r1'', ar_tenantId = ''t'', ar_employeeId = ''e'', ar_clockInAt = 5, ar_clockOutAt = None,
       ar_source = Src_mobile_app, ar_scheduledShiftId = None, ar_exceptionType = Some Att_unscheduled_work,
       ar_exceptionMinutes = None, ar_geofenceVerified = None\<rparr>],
     ad_ledger = [\<lparr>al_id = ''l1'', al_tenantId = ''t'', al_source = Src_mobile_app, al_sourceEventId = ''i'', al_eventType = Clock_in,
       al_attendanceRecordId = ''r1'', al_receivedAt = 5\<rparr>]\<rparr>"
  by (simp add: sample_open_def ingest_unfold)

lemma sample_open_books: "attendance_books sample_open"
  by (simp add: sample_open_eq attendance_books_def ins_rows_def out_rows_def)

text \<open>
  Property C3. However clock events are delivered, repeated and interleaved, the attendance records
  and the ingestion ledger agree: no event is in the ledger twice, every attendance record was created by
  exactly one accepted clock-in of its tenant, the closed records are exactly those of the accepted
  clock-outs, no record is closed twice, and none ends before it starts.
\<close>

theorem attendance_books_balance:
  assumes "att_reachable (db, ps)"
  shows "distinct (map ledger_key (ad_ledger db)) \<and> distinct (map ar_id (ad_records db)) \<and>
    map (\<lambda>l. (al_tenantId l, al_attendanceRecordId l)) (filter (\<lambda>l. al_eventType l = Clock_in) (ad_ledger db)) =
      map (\<lambda>r. (ar_tenantId r, ar_id r)) (ad_records db) \<and>
    distinct (map al_attendanceRecordId (filter (\<lambda>l. al_eventType l = Clock_out) (ad_ledger db))) \<and>
    al_attendanceRecordId ` {l \<in> set (ad_ledger db). al_eventType l = Clock_out} =
      ar_id ` {r \<in> set (ad_records db). ar_clockOutAt r \<noteq> None} \<and>
    (\<forall>r\<in>set (ad_records db). \<forall>t. ar_clockOutAt r = Some t \<longrightarrow> ar_clockInAt r \<le> t)"
proof -
  have b: "attendance_books db" using att_inv_reachable[OF assms] by (simp add: att_inv_def)
  then have "snd ` (\<lambda>l. (al_tenantId l, al_attendanceRecordId l)) ` set (out_rows db) =
      snd ` (\<lambda>r. (ar_tenantId r, ar_id r)) ` {r \<in> set (ad_records db). ar_clockOutAt r \<noteq> None}"
    by (simp only: attendance_books_def)
  then have "al_attendanceRecordId ` set (out_rows db) = ar_id ` {r \<in> set (ad_records db). ar_clockOutAt r \<noteq> None}"
    by (simp only: image_image snd_conv)
  with b show ?thesis by (simp add: attendance_books_def ins_rows_def out_rows_def)
qed

theorem attendance_books_balance_witness:
  "ad_ledger sample_open \<noteq> [] \<and> distinct (map ledger_key (ad_ledger sample_open))"
proof -
  let ?e = "sample_event ''i'' Clock_in 5" and ?db0 = "\<lparr>ad_records = [], ad_ledger = []\<rparr>"
  obtain w where w: "ingest_plan sample_schedule sample_config ''r1'' ''t'' ?e ?db0 = Inr w" by (simp add: ingest_unfold)
  have c: "commit ''t'' ?e ''l1'' 5 w ?db0 = (fst (commit ''t'' ?e ''l1'' 5 w ?db0), sample_open)"
    using w by (simp add: sample_open_def attendance_ingest_def)
  have "att_reachable (?db0, [(''t'', ?e, w)])"
    by (rule att_next[OF att_init]) (rule att_begin[OF w]; simp)
  then have "att_reachable (sample_open, [])"
    by (rule att_next) (use att_commit[OF c, of "[]" "[]"] in simp)
  from attendance_books_balance[OF this, THEN conjunct1] show ?thesis by (simp add: sample_open_eq)
qed

lemma clock_in_replay:
  assumes "l \<in> set (ad_ledger db)" "ledger_key l = event_key t ev" "distinct (map ledger_key (ad_ledger db))"
    and "ce_eventType ev = Clock_in" "rid \<notin> ar_id ` set (ad_records db)"
    and "gsa t (ce_employeeId ev) (ce_occurredAt ev - 12 * 60 * MINUTES) (ce_occurredAt ev + 12 * 60 * MINUTES) = Some as"
  shows "attendance_ingest gsa cfg rid lid now t ev db = (Inr (Att_duplicate (al_attendanceRecordId l)), db) \<and>
    attendance_status (fst (attendance_ingest gsa cfg rid lid now t ev db)) = 200"
proof -
  have "detectForClockIn gsa cfg t (ce_employeeId ev) (ce_occurredAt ev) \<noteq> None"
    using assms(6) by (auto simp: detectForClockIn_def Let_def split: option.splits)
  then obtain r where plan: "ingest_plan gsa cfg rid t ev db = Inr (Insert_record r)" "ar_id r = rid"
    using assms(4) by (auto simp: ingest_plan_def Let_def)
  have "event_key t ev \<in> ledger_key ` set (ad_ledger db)" using assms(1,2) by (metis imageI)
  then have "commit_txn t ev lid now (Insert_record r) db = Inl Att_unique_violation"
    using plan(2) assms(5) by (auto simp: commit_txn_def write_attendance_record_def)
  moreover have "find_where (\<lambda>l. ledger_key l = event_key t ev) (ad_ledger db) = Some l"
    by (rule find_where_unique[where k = ledger_key]) (use assms(1-3) in auto)
  ultimately show ?thesis using plan by (simp add: attendance_ingest_def commit_def attendance_status_def)
qed

text \<open>
  A clock-in that was already accepted is recognised whenever it is delivered again: the
  answer names the record of the first delivery, and nothing is written.
\<close>

theorem clock_in_replay_is_duplicate:
  assumes "l \<in> set (ad_ledger db)" "ledger_key l = event_key t ev" "distinct (map ledger_key (ad_ledger db))"
    and "ce_eventType ev = Clock_in" "rid \<notin> ar_id ` set (ad_records db)"
    and "gsa t (ce_employeeId ev) (ce_occurredAt ev - 12 * 60 * MINUTES) (ce_occurredAt ev + 12 * 60 * MINUTES) = Some as"
  shows "attendance_ingest gsa cfg rid lid now t ev db = (Inr (Att_duplicate (al_attendanceRecordId l)), db) \<and>
    attendance_status (fst (attendance_ingest gsa cfg rid lid now t ev db)) = 200"
  using assms by (rule clock_in_replay)

theorem clock_in_replay_is_duplicate_witness:
  "attendance_ingest sample_schedule sample_config ''r2'' ''l2'' 9 ''t'' (sample_event ''i'' Clock_in 5) sample_open =
     (Inr (Att_duplicate ''r1''), sample_open)"
  using clock_in_replay_is_duplicate[of "hd (ad_ledger sample_open)" sample_open "''t''" "sample_event ''i'' Clock_in 5" "''r2''"
      sample_schedule "[]" sample_config "''l2''" 9]
  by (simp add: sample_open_eq ledger_key_def event_key_def sample_event_def sample_schedule_def)

lemma findOpenRecord_Some:
  assumes "findOpenRecord t e db = Some r"
  shows "r \<in> set (ad_records db) \<and> ar_tenantId r = t \<and> ar_employeeId r = e \<and> ar_clockOutAt r = None"
proof -
  let ?open = "filter (\<lambda>r. ar_tenantId r = t \<and> ar_employeeId r = e \<and> ar_clockOutAt r = None) (ad_records db)"
  obtain rs where "js_sort (\<lambda>a b. ar_clockInAt b \<le> ar_clockInAt a) ?open = r # rs"
    using assms by (auto simp: findOpenRecord_def split: list.splits)
  then have "r \<in> set (js_sort (\<lambda>a b. ar_clockInAt b \<le> ar_clockInAt a) ?open)" by simp
  then show ?thesis unfolding set_js_sort by simp
qed

lemma open_after_close:
  assumes "attendance_ingest gsa cfg rid lid now t ev db = (Inr (Att_accepted i), db')" "ce_eventType ev = Clock_out"
    and one: "\<forall>r\<in>set (ad_records db). ar_tenantId r = t \<and> ar_employeeId r = ce_employeeId ev \<and> ar_clockOutAt r = None \<longrightarrow> r = o0"
  shows "findOpenRecord t (ce_employeeId ev) db' = None"
proof -
  obtain w where w: "ingest_plan gsa cfg rid t ev db = Inr w" "commit t ev lid now w db = (Inr (Att_accepted i), db')"
    using assms(1) by (auto simp: attendance_ingest_def split: sum.splits)
  obtain orec where o: "findOpenRecord t (ce_employeeId ev) db = Some orec" and wc: "\<exists>exc mins geo. w = Close_record (ar_id orec) (ce_occurredAt ev) exc mins geo"
    using w(1) assms(2) by (auto simp: ingest_plan_def Let_def split: option.splits prod.splits)
  have orec: "orec = o0" using findOpenRecord_Some[OF o] one by blast
  obtain exc mins geo where wc: "w = Close_record (ar_id o0) (ce_occurredAt ev) exc mins geo" using wc orec by auto
  have tx: "commit_txn t ev lid now w db = Inr (i, db')"
    using w(2) by (cases rule: commit_cases) auto
  define hit where "hit = (\<lambda>r :: attendance_record. ar_id r = ar_id o0 \<and> ar_tenantId r = t \<and> ar_clockOutAt r = None)"
  define upd where "upd = (\<lambda>r :: attendance_record. r\<lparr>ar_clockOutAt := Some (ce_occurredAt ev), ar_exceptionType := exc,
      ar_exceptionMinutes := mins, ar_geofenceVerified := geo\<rparr>)"
  have "ad_records db' = update_where hit upd (ad_records db)"
    using tx unfolding wc commit_txn_def write_attendance_record_def by (auto simp: hit_def upd_def Let_def split: if_splits)
  moreover have "\<not> (ar_tenantId r = t \<and> ar_employeeId r = ce_employeeId ev \<and> ar_clockOutAt r = None)"
    if "r \<in> set (update_where hit upd (ad_records db))" for r
  proof
    assume a: "ar_tenantId r = t \<and> ar_employeeId r = ce_employeeId ev \<and> ar_clockOutAt r = None"
    then have "r \<in> set (ad_records db) \<and> \<not> hit r" using that by (auto simp: set_update_where upd_def)
    moreover from this a one have "r = o0" by blast
    ultimately show False using a by (simp add: hit_def)
  qed
  ultimately have "\<not> (ar_tenantId r = t \<and> ar_employeeId r = ce_employeeId ev \<and> ar_clockOutAt r = None)" if "r \<in> set (ad_records db')" for r
    using that by metis
  then have "filter (\<lambda>r. ar_tenantId r = t \<and> ar_employeeId r = ce_employeeId ev \<and> ar_clockOutAt r = None) (ad_records db') = []"
    by (simp add: filter_empty_conv)
  then show ?thesis by (simp add: findOpenRecord_def)
qed

lemma clock_out_replay:
  assumes "attendance_ingest gsa cfg rid lid now t ev db = (Inr (Att_accepted i), db')" "ce_eventType ev = Clock_out"
    and "\<forall>r\<in>set (ad_records db). ar_tenantId r = t \<and> ar_employeeId r = ce_employeeId ev \<and> ar_clockOutAt r = None \<longrightarrow> r = o0"
  shows "attendance_ingest gsa' cfg' rid' lid' now' t ev db' = (Inl (No_open_attendance_record (ce_employeeId ev)), db') \<and>
    attendance_status (fst (attendance_ingest gsa' cfg' rid' lid' now' t ev db')) = 409"
  using open_after_close[OF assms] assms(2) by (simp add: attendance_ingest_def ingest_plan_def Let_def attendance_status_def)

text \<open>
  The same does not hold for clock-outs. The open record is looked up before the ledger is
  consulted, so once a clock-out has been accepted and the employee has no other open record, its second
  delivery is answered 409 (no open attendance record) and not as a duplicate.
\<close>

theorem clock_out_replay_conflicts:
  assumes "attendance_ingest gsa cfg rid lid now t ev db = (Inr (Att_accepted i), db')" "ce_eventType ev = Clock_out"
    and "\<forall>r\<in>set (ad_records db). ar_tenantId r = t \<and> ar_employeeId r = ce_employeeId ev \<and> ar_clockOutAt r = None \<longrightarrow> r = o0"
  shows "attendance_ingest gsa' cfg' rid' lid' now' t ev db' = (Inl (No_open_attendance_record (ce_employeeId ev)), db') \<and>
    attendance_status (fst (attendance_ingest gsa' cfg' rid' lid' now' t ev db')) = 409"
  by (rule clock_out_replay[OF assms])

theorem clock_out_replay_conflicts_witness:
  "\<exists>db'. attendance_ingest sample_schedule sample_config ''x'' ''l2'' 9 ''t'' (sample_event ''j'' Clock_out 9) sample_open = (Inr (Att_accepted ''r1''), db') \<and>
     fst (attendance_ingest sample_schedule sample_config ''y'' ''l3'' 10 ''t'' (sample_event ''j'' Clock_out 9) db') = Inl (No_open_attendance_record ''e'')"
proof -
  let ?r = "attendance_ingest sample_schedule sample_config ''x'' ''l2'' 9 ''t'' (sample_event ''j'' Clock_out 9) sample_open"
  have "fst ?r = Inr (Att_accepted ''r1'')" by (simp add: sample_open_eq ingest_unfold)
  then have a: "?r = (Inr (Att_accepted ''r1''), snd ?r)" by (metis prod.collapse)
  have one: "\<forall>r\<in>set (ad_records sample_open). ar_tenantId r = ''t'' \<and> ar_employeeId r = ce_employeeId (sample_event ''j'' Clock_out 9) \<and>
      ar_clockOutAt r = None \<longrightarrow> r = hd (ad_records sample_open)" by (simp add: sample_open_eq)
  have ty: "ce_eventType (sample_event ''j'' Clock_out 9) = Clock_out" "ce_employeeId (sample_event ''j'' Clock_out 9) = ''e''"
    by (simp_all add: sample_event_def)
  note b = clock_out_replay_conflicts[OF a ty(1) one, THEN conjunct1, of sample_schedule sample_config "''y''" "''l3''" 10]
  show ?thesis using a b ty(2) by (metis fst_conv)
qed

section \<open>Accepted events\<close>

lemma accepted_in_ledger:
  assumes "attendance_ingest gsa cfg rid lid now t ev db = (Inr (Att_accepted i), db')" "distinct (map ledger_key (ad_ledger db))"
  shows "\<exists>l\<in>set (ad_ledger db'). ledger_key l = event_key t ev \<and> al_attendanceRecordId l = i"
    and "distinct (map ledger_key (ad_ledger db'))"
proof -
  obtain w where w: "commit t ev lid now w db = (Inr (Att_accepted i), db')"
    using assms(1) by (auto simp: attendance_ingest_def split: sum.splits)
  have tx: "commit_txn t ev lid now w db = Inr (i, db')" using w by (cases rule: commit_cases) auto
  then obtain db1 where db1: "write_attendance_record t w db = Inr (i, db1)" "event_key t ev \<notin> ledger_key ` set (ad_ledger db1)"
    "ad_ledger db' = ad_ledger db1 @ [\<lparr>al_id = lid, al_tenantId = t, al_source = ce_source ev, al_sourceEventId = ce_sourceEventId ev,
       al_eventType = ce_eventType ev, al_attendanceRecordId = i, al_receivedAt = now\<rparr>]"
    by (auto simp: commit_txn_def split: sum.splits if_splits)
  have "ad_ledger db1 = ad_ledger db"
    using db1(1) by (auto simp: write_attendance_record_def Let_def split: attendance_write.splits if_splits)
  then show "\<exists>l\<in>set (ad_ledger db'). ledger_key l = event_key t ev \<and> al_attendanceRecordId l = i"
    and "distinct (map ledger_key (ad_ledger db'))"
    using db1(2,3) assms(2) by (auto simp: ledger_key_def event_key_def)
qed

end
