(* ===== verification/Mobile_Sync.thy ===== *)
theory Mobile_Sync
  imports Attendance_Ingestion
begin

text \<open>
  The offline-action endpoint of \<open>mobile-ess-service\<close>: geofence verification (\<open>src/geofence\<close>), the three
  clients that forward an action to the service that owns it (\<open>src/mobile-sync/providers\<close>) and the sync
  service itself (\<open>src/mobile-sync/mobile-sync.service.ts\<close>). The services behind the clients, the gRPC
  lookups and the secrets are parameters; the world they change is threaded through. Every
  \<open>withTenantConnection\<close> is its own transaction, so an action is processed in three steps (look up, admit,
  finish) between which other requests may run.

  \<open>save\<close> of TypeORM looks the primary key up first and updates the row it finds; it inserts only when its
  own lookup finds none. Whether that lookup saw a row that exists is an argument (\<open>seen\<close>).
  Coordinates are real numbers, and the fields the handlers read from a payload are strings.
\<close>

section \<open>Geofence\<close>

record coordinates =
  latitude :: real
  longitude :: real

definition EARTH_RADIUS_METERS :: real where
  "EARTH_RADIUS_METERS = 6371000"

definition toRadians :: "real \<Rightarrow> real" where
  "toRadians degrees = degrees * pi / 180"

definition atan2_nonneg :: "real \<Rightarrow> real \<Rightarrow> real" where
  \<comment> \<open>\<open>Math.atan2\<close> for arguments that are not negative\<close>
  "atan2_nonneg y x = (if x > 0 then arctan (y / x) else if y > 0 then pi / 2 else 0)"

definition haversineDistanceMeters :: "coordinates \<Rightarrow> coordinates \<Rightarrow> real" where
  "haversineDistanceMeters a b =
     (let deltaLat = toRadians (latitude b - latitude a); deltaLon = toRadians (longitude b - longitude a);
          lat1 = toRadians (latitude a); lat2 = toRadians (latitude b);
          h = (sin (deltaLat / 2))\<^sup>2 + cos lat1 * cos lat2 * (sin (deltaLon / 2))\<^sup>2
      in EARTH_RADIUS_METERS * (2 * atan2_nonneg (sqrt h) (sqrt (1 - h))))"

datatype enforcement = Soft | Hard

record geofence_boundary =
  gb_center :: coordinates
  gb_radiusMeters :: real
  gb_enforcement :: enforcement

record geofence_evaluation =
  ge_enabled :: bool
  ge_verified :: "bool option"
  ge_enforcement :: "enforcement option"

datatype policy_response =
    Policy_not_found
  | Policy_unparseable
  | Policy_null \<comment> \<open>a definition that parses to \<open>null\<close>\<close>
  | Policy_definition "real option" "real option" "real option" string
    \<comment> \<open>centre latitude, longitude and radius where they are finite numbers, and the enforcement\<close>

record geofence_clients =
  gc_getEmployeeOrgUnits :: "string \<Rightarrow> string \<Rightarrow> string list option" \<comment> \<open>\<open>None\<close>: unavailable\<close>
  gc_getActivePolicy :: "string \<Rightarrow> string \<Rightarrow> policy_response option"

definition resolveOrgUnit :: "geofence_clients \<Rightarrow> string \<Rightarrow> string \<Rightarrow> string option" where
  "resolveOrgUnit gc tenantId employeeId =
     (case gc_getEmployeeOrgUnits gc tenantId employeeId of
        None \<Rightarrow> None
      | Some [] \<Rightarrow> None
      | Some (u # _) \<Rightarrow> Some u)"

definition resolveBoundary :: "geofence_clients \<Rightarrow> string \<Rightarrow> string \<Rightarrow> unit + geofence_boundary option" where
  \<comment> \<open>\<open>Inl\<close>: the \<open>TypeError\<close> of reading a field of \<open>null\<close>\<close>
  "resolveBoundary gc tenantId orgUnitId =
     (case gc_getActivePolicy gc tenantId orgUnitId of
        None \<Rightarrow> Inr None
      | Some Policy_not_found \<Rightarrow> Inr None
      | Some Policy_unparseable \<Rightarrow> Inr None
      | Some Policy_null \<Rightarrow> Inl ()
      | Some (Policy_definition clat clon radius enf) \<Rightarrow>
          (case (clat, clon, radius) of
             (Some la, Some lo, Some r) \<Rightarrow>
               if r \<le> 0 then Inr None
               else Inr (Some \<lparr>gb_center = \<lparr>latitude = la, longitude = lo\<rparr>, gb_radiusMeters = r,
                               gb_enforcement = (if enf = ''hard'' then Hard else Soft)\<rparr>)
           | _ \<Rightarrow> Inr None))"

definition resolveActiveBoundary :: "geofence_clients \<Rightarrow> string \<Rightarrow> string \<Rightarrow> unit + geofence_boundary option" where
  "resolveActiveBoundary gc tenantId employeeId =
     (let orgUnitId = resolveOrgUnit gc tenantId employeeId
      in if \<not> truthy_str orgUnitId then Inr None else resolveBoundary gc tenantId (the orgUnitId))"

definition getConfigForEmployee :: "geofence_clients \<Rightarrow> string \<Rightarrow> string \<Rightarrow> unit + (bool \<times> real option \<times> enforcement option)" where
  "getConfigForEmployee gc tenantId employeeId =
     (case resolveActiveBoundary gc tenantId employeeId of
        Inl u \<Rightarrow> Inl u
      | Inr None \<Rightarrow> Inr (False, None, None)
      | Inr (Some b) \<Rightarrow> Inr (True, Some (gb_radiusMeters b), Some (gb_enforcement b)))"

definition geofence_evaluate :: "geofence_clients \<Rightarrow> string \<Rightarrow> string \<Rightarrow> coordinates option \<Rightarrow> unit + geofence_evaluation" where
  "geofence_evaluate gc tenantId employeeId location =
     (case resolveActiveBoundary gc tenantId employeeId of
        Inl u \<Rightarrow> Inl u
      | Inr None \<Rightarrow> Inr \<lparr>ge_enabled = False, ge_verified = None, ge_enforcement = None\<rparr>
      | Inr (Some b) \<Rightarrow>
          Inr \<lparr>ge_enabled = True,
               ge_verified = Some (case location of None \<Rightarrow> False
                                   | Some l \<Rightarrow> haversineDistanceMeters l (gb_center b) \<le> gb_radiusMeters b),
               ge_enforcement = Some (gb_enforcement b)\<rparr>)"

section \<open>Forwarding clients\<close>

datatype rest_body = Unreadable_body | Error_code "string option" \<comment> \<open>\<open>error.code\<close> when it is a string\<close>

datatype rest_reply = Rest_unreachable | Rest_reply nat rest_body

datatype gql_reply =
    Gql_unreachable
  | Gql_unreadable nat
  | Gql_reply nat "string option list" "string option"
    \<comment> \<open>status, \<open>extensions.code\<close> of each error, and \<open>data.claimOpenShift.claim.status\<close>\<close>

datatype forward_result =
    Fwd_ok
  | Fwd_conflict string
  | Fwd_failed nat
  | Fwd_throw

definition response_ok :: "nat \<Rightarrow> bool" where
  "response_ok status \<longleftrightarrow> 200 \<le> status \<and> status \<le> 299"

definition clock_forward_result :: "rest_reply \<Rightarrow> forward_result" where
  "clock_forward_result reply =
     (case reply of
        Rest_unreachable \<Rightarrow> Fwd_failed 503
      | Rest_reply status body \<Rightarrow>
          if status = 409
          then Fwd_conflict (case body of Error_code (Some code) \<Rightarrow> code | _ \<Rightarrow> ''ATTENDANCE_CONFLICT'')
          else if \<not> response_ok status then Fwd_failed status
          else if body = Unreadable_body then Fwd_throw \<comment> \<open>\<open>response.json()\<close> rejects\<close>
          else Fwd_ok)"

definition LEAVE_CONFLICT_CODES :: "string list" where
  "LEAVE_CONFLICT_CODES =
     [''INSUFFICIENT_LEAVE_BALANCE'', ''LEAVE_BALANCE_NOT_FOUND'', ''BACKDATED_LEAVE_NOT_SUPPORTED'', ''INVALID_LEAVE_REQUEST'']"

definition leave_submit_result :: "rest_reply \<Rightarrow> forward_result" where
  "leave_submit_result reply =
     (case reply of
        Rest_unreachable \<Rightarrow> Fwd_failed 503
      | Rest_reply status body \<Rightarrow>
          if response_ok status then Fwd_ok
          else case body of
                 Error_code (Some code) \<Rightarrow>
                   if code \<in> set LEAVE_CONFLICT_CODES then Fwd_conflict code else Fwd_failed status
               | _ \<Rightarrow> Fwd_failed status)"

definition CLAIM_CONFLICT_CODES :: "string list" where
  "CLAIM_CONFLICT_CODES = [''POST_ALREADY_BEING_CLAIMED'', ''POST_NOT_OPEN'', ''MARKETPLACE_POST_NOT_FOUND'']"

definition claim_result :: "gql_reply \<Rightarrow> forward_result" where
  "claim_result reply =
     (case reply of
        Gql_unreachable \<Rightarrow> Fwd_failed 503
      | Gql_unreadable status \<Rightarrow> Fwd_failed status
      | Gql_reply status errors claimStatus \<Rightarrow>
          (case errors of
             firstError # _ \<Rightarrow>
               (case firstError of
                  Some code \<Rightarrow> if code \<in> set CLAIM_CONFLICT_CODES then Fwd_conflict code else Fwd_failed status
                | None \<Rightarrow> Fwd_failed status)
           | [] \<Rightarrow> if claimStatus = Some ''rejected'' then Fwd_conflict ''CLAIM_REJECTED'' else Fwd_ok))"

section \<open>Offline actions\<close>

datatype offline_action_type = Act_clock_event | Act_leave_request | Act_marketplace_claim

datatype offline_action_status = Pending_sync | Synced | Sync_failed | Sync_conflict

datatype payload_value = P_text string | P_location coordinates | P_other

type_synonym payload = "string \<rightharpoonup> payload_value"

record sync_action =
  sa_actionId :: string
  sa_employeeId :: string
  sa_actionType :: offline_action_type
  sa_payload :: payload
  sa_createdAtDevice :: int

record offline_action =
  oa_id :: string
  oa_tenantId :: string
  oa_employeeId :: string
  oa_actionType :: offline_action_type
  oa_payload :: payload
  oa_status :: offline_action_status
  oa_createdAtDevice :: int
  oa_receivedAt :: int
  oa_syncedAt :: "int option"
  oa_conflictCode :: "string option"
  oa_geofenceVerified :: "bool option"

record sync_result =
  sr_actionId :: string
  sr_actionType :: offline_action_type
  sr_status :: offline_action_status \<comment> \<open>never \<open>Pending_sync\<close>\<close>
  sr_conflictCode :: "string option"

datatype sync_error = Entity_not_found | Unexpected_error

record 'w sync_env =
  se_now :: int
  se_secret :: "string \<Rightarrow> string option"
  se_geofence :: geofence_clients
  se_attendance :: "string \<Rightarrow> clock_event \<Rightarrow> 'w \<Rightarrow> rest_reply \<times> 'w"
  se_leave :: "string \<Rightarrow> string \<Rightarrow> string \<Rightarrow> string \<Rightarrow> string \<Rightarrow> 'w \<Rightarrow> rest_reply \<times> 'w"
  se_claim :: "string \<Rightarrow> string \<Rightarrow> string \<Rightarrow> 'w \<Rightarrow> gql_reply \<times> 'w"

record 'w sync_state =
  ss_rows :: "offline_action list"
  ss_world :: 'w

definition isTerminal :: "offline_action_status \<Rightarrow> bool" where
  "isTerminal status \<longleftrightarrow> status = Synced \<or> status = Sync_conflict"

definition toResult :: "offline_action \<Rightarrow> sync_result" where
  "toResult row =
     \<lparr>sr_actionId = oa_id row, sr_actionType = oa_actionType row,
      sr_status = (if oa_status row = Sync_conflict then Sync_conflict else if oa_status row = Synced then Synced else Sync_failed),
      sr_conflictCode = (if oa_status row = Sync_conflict then oa_conflictCode row else None)\<rparr>"

definition stripLocation :: "payload \<Rightarrow> payload" where
  "stripLocation p = p(''location'' := None)"

definition rawLocation :: "sync_action \<Rightarrow> coordinates option" where
  \<comment> \<open>a location that is no pair of coordinates is as good as none: its distance is \<open>NaN\<close>\<close>
  "rawLocation a =
     (if sa_actionType a = Act_clock_event
      then (case sa_payload a ''location'' of Some (P_location c) \<Rightarrow> Some c | _ \<Rightarrow> None)
      else None)"

definition new_row :: "int \<Rightarrow> string \<Rightarrow> sync_action \<Rightarrow> offline_action" where
  "new_row now tenantId a =
     \<lparr>oa_id = sa_actionId a, oa_tenantId = tenantId, oa_employeeId = sa_employeeId a, oa_actionType = sa_actionType a,
      oa_payload = stripLocation (sa_payload a), oa_status = Pending_sync, oa_createdAtDevice = sa_createdAtDevice a,
      oa_receivedAt = now, oa_syncedAt = None, oa_conflictCode = None, oa_geofenceVerified = None\<rparr>"

definition find_action :: "string \<Rightarrow> string \<Rightarrow> offline_action list \<Rightarrow> offline_action option" where
  "find_action tenantId i rows = find_where (\<lambda>r. oa_id r = i \<and> oa_tenantId r = tenantId) rows"

definition save_row :: "offline_action \<Rightarrow> offline_action list \<Rightarrow> offline_action list" where
  "save_row row rows = update_where (\<lambda>r. oa_id r = oa_id row \<and> oa_tenantId r = oa_tenantId row) (\<lambda>_. row) rows"

datatype admitted = Answered sync_result | Admitted offline_action

definition admit ::
  "bool \<Rightarrow> int \<Rightarrow> string \<Rightarrow> sync_action \<Rightarrow> offline_action option \<Rightarrow> offline_action list \<Rightarrow> (sync_error + admitted) \<times> offline_action list" where
  \<comment> \<open>\<open>processAction\<close> from the answer of its first lookup up to \<open>processByActionType\<close>\<close>
  "admit seen now tenantId a found rows =
     (case found of
        Some row \<Rightarrow> if isTerminal (oa_status row) then (Inr (Answered (toResult row)), rows) else (Inr (Admitted row), rows)
      | None \<Rightarrow>
          let row = new_row now tenantId a
          in (case find_action tenantId (sa_actionId a) rows of
                Some existing \<Rightarrow>
                  if seen then (Inr (Admitted row), save_row row rows)
                  else \<comment> \<open>unique violation, reload\<close>
                    if isTerminal (oa_status existing) then (Inr (Answered (toResult existing)), rows)
                    else (Inr (Admitted existing), rows)
              | None \<Rightarrow>
                  if sa_actionId a \<in> oa_id ` set rows
                  then (Inl Entity_not_found, rows) \<comment> \<open>the identifier of another tenant's row, hidden from \<open>findOneOrFail\<close>\<close>
                  else (Inr (Admitted row), rows @ [row])))"

definition conflicted :: "offline_action \<Rightarrow> string \<Rightarrow> offline_action" where
  "conflicted row code = row\<lparr>oa_status := Sync_conflict, oa_conflictCode := Some code\<rparr>"

definition settle_row :: "int \<Rightarrow> forward_result \<Rightarrow> offline_action \<Rightarrow> offline_action option" where
  \<comment> \<open>the row each handler saves after its client answered; \<open>None\<close>: the error is thrown on\<close>
  "settle_row now r row =
     (case r of
        Fwd_ok \<Rightarrow> Some (row\<lparr>oa_status := Synced, oa_syncedAt := Some now\<rparr>)
      | Fwd_conflict code \<Rightarrow> Some (conflicted row code)
      | Fwd_failed _ \<Rightarrow> Some (row\<lparr>oa_status := Sync_failed\<rparr>)
      | Fwd_throw \<Rightarrow> None)"

definition payload_text :: "payload \<Rightarrow> string \<Rightarrow> string option" where
  "payload_text p k = (case p k of Some (P_text s) \<Rightarrow> Some s | _ \<Rightarrow> None)"

definition clock_event_of :: "offline_action \<Rightarrow> bool option \<Rightarrow> clock_event" where
  \<comment> \<open>the body the client sends: the action's identifier and the instant captured on the device\<close>
  "clock_event_of row verified =
     \<lparr>ce_sourceEventId = oa_id row, ce_employeeId = oa_employeeId row,
      ce_eventType = (if payload_text (oa_payload row) ''eventType'' = Some ''clock_in'' then Clock_in else Clock_out),
      ce_occurredAt = oa_createdAtDevice row, ce_source = Src_mobile_app, ce_geofenceVerified = verified\<rparr>"

definition processClockEvent :: "'w sync_env \<Rightarrow> offline_action \<Rightarrow> coordinates option \<Rightarrow> 'w \<Rightarrow> offline_action option \<times> 'w" where
  "processClockEvent env row location w =
     (let eventType = payload_text (oa_payload row) ''eventType''
      in if eventType \<noteq> Some ''clock_in'' \<and> eventType \<noteq> Some ''clock_out'' then (Some (row\<lparr>oa_status := Sync_failed\<rparr>), w)
         else case geofence_evaluate (se_geofence env) (oa_tenantId row) (oa_employeeId row) location of
             Inl _ \<Rightarrow> (None, w)
           | Inr g \<Rightarrow>
               if ge_enabled g \<and> ge_enforcement g = Some Hard \<and> ge_verified g = Some False
               then (Some ((conflicted row ''GEOFENCE_VIOLATION'')\<lparr>oa_geofenceVerified := Some False\<rparr>), w)
               else if \<not> truthy_str (se_secret env (oa_tenantId row)) then (settle_row (se_now env) (Fwd_failed 500) row, w)
               else let (reply, w') = se_attendance env (oa_tenantId row) (clock_event_of row (ge_verified g)) w;
                        r = clock_forward_result reply
                    in (settle_row (se_now env) r (if r = Fwd_ok then row\<lparr>oa_geofenceVerified := ge_verified g\<rparr> else row), w'))"

definition processLeaveRequest :: "'w sync_env \<Rightarrow> offline_action \<Rightarrow> 'w \<Rightarrow> offline_action option \<times> 'w" where
  "processLeaveRequest env row w =
     (let typ = payload_text (oa_payload row) ''leaveTypeId''; from = payload_text (oa_payload row) ''dateRangeStart'';
          to = payload_text (oa_payload row) ''dateRangeEnd''
      in if \<not> truthy_str typ \<or> \<not> truthy_str from \<or> \<not> truthy_str to then (Some (row\<lparr>oa_status := Sync_failed\<rparr>), w)
         else let (reply, w') = se_leave env (oa_tenantId row) (oa_employeeId row) (the typ) (the from) (the to) w
              in (settle_row (se_now env) (leave_submit_result reply) row, w'))"

definition processMarketplaceClaim :: "'w sync_env \<Rightarrow> offline_action \<Rightarrow> 'w \<Rightarrow> offline_action option \<times> 'w" where
  "processMarketplaceClaim env row w =
     (let post = payload_text (oa_payload row) ''marketplacePostId''
      in if \<not> truthy_str post then (Some (row\<lparr>oa_status := Sync_failed\<rparr>), w)
         else let (reply, w') = se_claim env (oa_tenantId row) (oa_employeeId row) (the post) w
              in (settle_row (se_now env) (claim_result reply) row, w'))"

definition processByActionType :: "'w sync_env \<Rightarrow> offline_action \<Rightarrow> coordinates option \<Rightarrow> 'w \<Rightarrow> offline_action option \<times> 'w" where
  "processByActionType env row location w =
     (case oa_actionType row of
        Act_clock_event \<Rightarrow> processClockEvent env row location w
      | Act_leave_request \<Rightarrow> processLeaveRequest env row w
      | Act_marketplace_claim \<Rightarrow> processMarketplaceClaim env row w)"

definition finish :: "'w sync_env \<Rightarrow> offline_action \<Rightarrow> coordinates option \<Rightarrow> ('w sync_state, sync_error, sync_result) svc" where
  \<comment> \<open>forward an admitted action and save the row with its verdict\<close>
  "finish env row location st =
     (case processByActionType env row location (ss_world st) of
        (None, w') \<Rightarrow> (Inl Unexpected_error, st\<lparr>ss_world := w'\<rparr>)
      | (Some row', w') \<Rightarrow> (Inr (toResult row'), st\<lparr>ss_rows := save_row row' (ss_rows st), ss_world := w'\<rparr>))"

definition after_lookup ::
  "'w sync_env \<Rightarrow> bool \<Rightarrow> string \<Rightarrow> sync_action \<Rightarrow> offline_action option \<Rightarrow> ('w sync_state, sync_error, sync_result) svc" where
  "after_lookup env seen tenantId a found st =
     (case admit seen (se_now env) tenantId a found (ss_rows st) of
        (Inl e, rows) \<Rightarrow> (Inl e, st\<lparr>ss_rows := rows\<rparr>)
      | (Inr (Answered r), rows) \<Rightarrow> (Inr r, st\<lparr>ss_rows := rows\<rparr>)
      | (Inr (Admitted row), rows) \<Rightarrow> finish env row (rawLocation a) (st\<lparr>ss_rows := rows\<rparr>))"

definition processAction :: "'w sync_env \<Rightarrow> bool \<Rightarrow> string \<Rightarrow> sync_action \<Rightarrow> ('w sync_state, sync_error, sync_result) svc" where
  "processAction env seen tenantId a st = after_lookup env seen tenantId a (find_action tenantId (sa_actionId a) (ss_rows st)) st"

fun syncBatch :: "'w sync_env \<Rightarrow> bool \<Rightarrow> string \<Rightarrow> sync_action list \<Rightarrow> ('w sync_state, sync_error, sync_result list) svc" where
  "syncBatch env seen tenantId [] st = (Inr [], st)"
| "syncBatch env seen tenantId (a # as) st =
     (case processAction env seen tenantId a st of
        (Inl e, st') \<Rightarrow> (Inl e, st')
      | (Inr r, st') \<Rightarrow>
          (case syncBatch env seen tenantId as st' of
             (Inl e, st'') \<Rightarrow> (Inl e, st'')
           | (Inr rs, st'') \<Rightarrow> (Inr (r # rs), st'')))"

definition sync_endpoint ::
  "'w sync_env \<Rightarrow> (string \<Rightarrow> string option option) \<Rightarrow> bool \<Rightarrow> string \<Rightarrow> string option \<Rightarrow> sync_action list \<Rightarrow> 'w sync_state \<Rightarrow>
   (unit + sync_result list) \<times> 'w sync_state" where
  \<comment> \<open>\<open>MobileSyncController.sync\<close>: \<open>getEmployeeIdForUser\<close> of the subject must be every action's employee\<close>
  "sync_endpoint env getEmployeeIdForUser seen tenantId sub actions st =
     (if \<not> truthy_str sub \<or> actions = [] \<or> length actions > 50 then (Inl (), st)
      else case getEmployeeIdForUser (the sub) of
             None \<Rightarrow> (Inl (), st)
           | Some sessionEmployee \<Rightarrow>
               if list_all (\<lambda>a. sessionEmployee = Some (sa_employeeId a)) actions
               then (case syncBatch env seen tenantId actions st of (Inl _, st') \<Rightarrow> (Inl (), st') | (Inr rs, st') \<Rightarrow> (Inr rs, st'))
               else (Inl (), st))"

section \<open>Rows\<close>

definition rows_ok :: "offline_action list \<Rightarrow> bool" where
  "rows_ok rows \<longleftrightarrow> distinct (map oa_id rows) \<and> (\<forall>r\<in>set rows. oa_payload r ''location'' = None)"

lemma settle_row_keeps:
  "settle_row now r row = Some row' \<Longrightarrow>
     oa_id row' = oa_id row \<and> oa_tenantId row' = oa_tenantId row \<and> oa_payload row' = oa_payload row \<and> oa_actionType row' = oa_actionType row"
  by (auto simp: settle_row_def conflicted_def split: forward_result.splits)

lemma process_keeps:
  assumes "processByActionType env row location w = (Some row', w')"
  shows "oa_id row' = oa_id row \<and> oa_tenantId row' = oa_tenantId row \<and> oa_payload row' = oa_payload row \<and> oa_actionType row' = oa_actionType row"
  using assms
  by (auto simp: processByActionType_def processClockEvent_def processLeaveRequest_def processMarketplaceClaim_def conflicted_def Let_def
      dest!: settle_row_keeps split: offline_action_type.splits if_splits sum.splits prod.splits)

lemma map_save_row: "map oa_id (save_row row rows) = map oa_id rows"
  by (auto simp: save_row_def intro: map_update_where)

lemma save_row_ok: "rows_ok rows \<Longrightarrow> oa_payload row ''location'' = None \<Longrightarrow> rows_ok (save_row row rows)"
  by (auto simp: rows_ok_def map_save_row) (auto simp: save_row_def set_update_where)

lemma find_saved:
  "find_action t i rows = Some row \<Longrightarrow> oa_id row' = i \<Longrightarrow> oa_tenantId row' = t \<Longrightarrow> find_action t i (save_row row' rows) = Some row'"
  unfolding find_action_def save_row_def by (induction rows) (auto split: if_splits)

lemma find_actionD: "find_action t i rows = Some row \<Longrightarrow> row \<in> set rows \<and> oa_id row = i \<and> oa_tenantId row = t"
  unfolding find_action_def by (drule find_where_SomeD) simp

lemma new_row_simps [simp]:
  "oa_id (new_row now t a) = sa_actionId a" "oa_tenantId (new_row now t a) = t" "oa_payload (new_row now t a) ''location'' = None"
  "oa_status (new_row now t a) = Pending_sync"
  by (simp_all add: new_row_def stripLocation_def)

lemma admit_cases:
  assumes "admit seen now t a found rows = (r, rows')"
  shows "rows' = rows \<or> rows' = save_row (new_row now t a) rows \<or> (rows' = rows @ [new_row now t a] \<and> sa_actionId a \<notin> oa_id ` set rows)"
  using assms by (auto simp: admit_def Let_def split: option.splits if_splits)

lemma admit_rows_ok:
  assumes "admit seen now t a found rows = (r, rows')" "rows_ok rows"
  shows "rows_ok rows'"
  using admit_cases[OF assms(1)] assms(2) save_row_ok[OF assms(2), of "new_row now t a"] by (auto simp: rows_ok_def)

lemma admit_admitted:
  assumes "admit seen now t a found rows = (Inr (Admitted row), rows')" "rows_ok rows"
    and "\<forall>row0. found = Some row0 \<longrightarrow> oa_payload row0 ''location'' = None"
  shows "oa_payload row ''location'' = None"
  using assms find_actionD by (fastforce simp: admit_def rows_ok_def Let_def split: option.splits if_splits)

section \<open>A sample\<close>

definition sample_action :: "offline_action_type \<Rightarrow> payload \<Rightarrow> sync_action" where
  "sample_action ty p = \<lparr>sa_actionId = ''a'', sa_employeeId = ''e'', sa_actionType = ty, sa_payload = p, sa_createdAtDevice = 5\<rparr>"

definition sample_env :: "(string \<Rightarrow> clock_event \<Rightarrow> 'w \<Rightarrow> rest_reply \<times> 'w) \<Rightarrow> rest_reply \<Rightarrow> gql_reply \<Rightarrow> 'w sync_env" where
  "sample_env att lr cr = \<lparr>se_now = 7, se_secret = (\<lambda>_. Some ''s''),
     se_geofence = \<lparr>gc_getEmployeeOrgUnits = (\<lambda>_ _. None), gc_getActivePolicy = (\<lambda>_ _. None)\<rparr>,
     se_attendance = att, se_leave = (\<lambda>_ _ _ _ _ w. (lr, w)), se_claim = (\<lambda>_ _ _ w. (cr, w))\<rparr>"

definition sample_off :: "'w sync_env" where
  \<comment> \<open>no service can be reached\<close>
  "sample_off = sample_env (\<lambda>_ _ w. (Rest_unreachable, w)) Rest_unreachable Gql_unreachable"

definition sample_granting :: "'w sync_env" where
  \<comment> \<open>the marketplace grants every claim\<close>
  "sample_granting = sample_env (\<lambda>_ _ w. (Rest_unreachable, w)) Rest_unreachable (Gql_reply 200 [] (Some ''approved''))"

definition sample_claim :: sync_action where
  "sample_claim = sample_action Act_marketplace_claim [''marketplacePostId'' \<mapsto> P_text ''p'', ''location'' \<mapsto> P_other]"

definition sample_leave :: sync_action where
  "sample_leave = sample_action Act_leave_request [''leaveTypeId'' \<mapsto> P_text ''l'', ''dateRangeStart'' \<mapsto> P_text ''d'', ''dateRangeEnd'' \<mapsto> P_text ''d'']"

definition sample_clock :: "string \<Rightarrow> sync_action" where
  "sample_clock ty = sample_action Act_clock_event [''eventType'' \<mapsto> P_text ty]"

lemmas sample_unfold = sample_action_def sample_env_def sample_off_def sample_granting_def sample_claim_def sample_leave_def sample_clock_def

lemmas sync_unfold = processAction_def after_lookup_def admit_def finish_def processByActionType_def processMarketplaceClaim_def
  processLeaveRequest_def new_row_def find_action_def save_row_def isTerminal_def settle_row_def claim_result_def leave_submit_result_def
  payload_text_def stripLocation_def toResult_def Let_def

section \<open>Interleaved requests\<close>

datatype sync_flight =
    Looked string sync_action "offline_action option"
  | Going offline_action "coordinates option"

inductive sync_step :: "'w sync_state \<times> sync_flight list \<Rightarrow> 'w sync_state \<times> sync_flight list \<Rightarrow> bool" where
  look: "sync_step (st, fs) (st, Looked t a (find_action t (sa_actionId a) (ss_rows st)) # fs)"
| admitted: "admit seen now t a found (ss_rows st) = (Inr (Admitted row), rows') \<Longrightarrow>
    sync_step (st, us @ Looked t a found # vs) (st\<lparr>ss_rows := rows'\<rparr>, us @ Going row (rawLocation a) # vs)"
| answered: "admit seen now t a found (ss_rows st) = (r, rows') \<Longrightarrow> (\<And>row. r \<noteq> Inr (Admitted row)) \<Longrightarrow>
    sync_step (st, us @ Looked t a found # vs) (st\<lparr>ss_rows := rows'\<rparr>, us @ vs)"
| finished: "finish env row location st = (r, st') \<Longrightarrow> sync_step (st, us @ Going row location # vs) (st', us @ vs)"
| world: "sync_step (st, fs) (st\<lparr>ss_world := w\<rparr>, fs)"

inductive sync_reachable :: "'w sync_state \<times> sync_flight list \<Rightarrow> bool" where
  sync_init: "sync_reachable (\<lparr>ss_rows = [], ss_world = w\<rparr>, [])"
| sync_next: "sync_reachable s \<Longrightarrow> sync_step s s' \<Longrightarrow> sync_reachable s'"

fun flight_ok :: "sync_flight \<Rightarrow> bool" where
  "flight_ok (Looked t a found) = (case found of None \<Rightarrow> True | Some row \<Rightarrow> oa_payload row ''location'' = None)"
| "flight_ok (Going row location) = (oa_payload row ''location'' = None)"

lemma finish_rows_ok:
  assumes "finish env row location st = (r, st')" "rows_ok (ss_rows st)" "oa_payload row ''location'' = None"
  shows "rows_ok (ss_rows st')"
  using assms save_row_ok[OF assms(2)] by (auto simp: finish_def dest!: process_keeps split: prod.splits option.splits)

lemma sync_step_ok:
  "sync_step s s' \<Longrightarrow> rows_ok (ss_rows (fst s)) \<and> list_all flight_ok (snd s) \<Longrightarrow> rows_ok (ss_rows (fst s')) \<and> list_all flight_ok (snd s')"
proof (induction rule: sync_step.induct)
  case (look st fs t a)
  then show ?case using find_actionD by (fastforce simp: rows_ok_def split: option.splits)
next
  case (admitted seen now t a found st row rows' us vs)
  then show ?case using admit_admitted[OF admitted.hyps] admit_rows_ok[OF admitted.hyps] by (auto split: option.splits)
next
  case (answered seen now t a found st r rows' us vs)
  then show ?case using admit_rows_ok[OF answered.hyps(1)] by auto
next
  case (finished env row location st r st' us vs)
  then show ?case using finish_rows_ok[OF finished.hyps] by auto
qed simp

text \<open>
  Property C40. However batches overlap and whatever the services behind them answer, no stored action
  carries a location and no two stored actions share an identifier.
\<close>

theorem location_never_stored:
  assumes "sync_reachable (st, fs)"
  shows "distinct (map oa_id (ss_rows st)) \<and> (\<forall>row\<in>set (ss_rows st). oa_payload row ''location'' = None)"
proof -
  have "rows_ok (ss_rows (fst s)) \<and> list_all flight_ok (snd s)" if "sync_reachable s" for s :: "'a sync_state \<times> sync_flight list"
    using that by (induction rule: sync_reachable.induct) (simp add: rows_ok_def, blast dest: sync_step_ok)
  from this[OF assms] show ?thesis by (simp add: rows_ok_def)
qed

theorem location_never_stored_witness:
  "map (\<lambda>row. oa_payload row ''location'') (snd (admit False 7 ''t'' sample_claim None [])) = [None]"
proof -
  obtain row rows where ad: "admit False 7 ''t'' sample_claim None [] = (Inr (Admitted row), rows)" by (simp add: admit_def find_action_def Let_def)
  have "sync_reachable (\<lparr>ss_rows = [], ss_world = ()\<rparr>, [Looked ''t'' sample_claim None])"
    using sync_next[OF sync_init look, of "()" "''t''" sample_claim] by (simp add: find_action_def)
  from sync_next[OF this, of "(\<lparr>ss_rows = rows, ss_world = ()\<rparr>, [Going row (rawLocation sample_claim)])"]
  have "sync_reachable (\<lparr>ss_rows = rows, ss_world = ()\<rparr>, [Going row (rawLocation sample_claim)])"
    using admitted[of False 7 "''t''" sample_claim None "\<lparr>ss_rows = [], ss_world = ()\<rparr>" row rows "[]" "[]"] ad by simp
  from location_never_stored[OF this] ad show ?thesis by (auto simp: admit_def find_action_def Let_def)
qed

section \<open>Verdicts\<close>

lemma toResult_simps [simp]:
  "sr_actionId (toResult row) = oa_id row" "isTerminal (sr_status (toResult row)) \<longleftrightarrow> isTerminal (oa_status row)"
  by (auto simp: toResult_def isTerminal_def)

lemma processAction_row:
  assumes "processAction env seen t a st = (Inr r, st')"
  shows "\<exists>row. find_action t (sa_actionId a) (ss_rows st') = Some row \<and> toResult row = r"
proof -
  let ?i = "sa_actionId a" and ?n = "new_row (se_now env) t a"
  obtain ad rows where ad: "admit seen (se_now env) t a (find_action t ?i (ss_rows st)) (ss_rows st) = (Inr ad, rows)"
    and rest: "(case ad of Answered x \<Rightarrow> (Inr x, st\<lparr>ss_rows := rows\<rparr>) | Admitted row \<Rightarrow> finish env row (rawLocation a) (st\<lparr>ss_rows := rows\<rparr>)) = (Inr r, st')"
    using assms by (auto simp: processAction_def after_lookup_def split: prod.splits sum.splits admitted.splits)
  have new: "find_action t ?i (rows0 @ [?n]) = Some ?n" if "find_action t ?i rows0 = None" for rows0
    using that by (simp add: find_action_def find_where_append)
  show ?thesis
  proof (cases ad)
    case (Answered x)
    then show ?thesis using ad rest by (auto simp: admit_def Let_def split: option.splits if_splits)
  next
    case (Admitted row)
    have f: "find_action t ?i rows = Some row"
      using ad Admitted new by (auto simp: admit_def Let_def split: option.splits if_splits)
    obtain row' w' where p: "processByActionType env row (rawLocation a) (ss_world st) = (Some row', w')"
      and r: "r = toResult row'" "st' = st\<lparr>ss_rows := save_row row' rows, ss_world := w'\<rparr>"
      using rest Admitted by (auto simp: finish_def split: prod.splits option.splits)
    have "find_action t ?i (save_row row' rows) = Some row'"
      using f process_keeps[OF p] find_actionD[OF f] by (intro find_saved[OF f]) auto
    then show ?thesis using r by simp
  qed
qed

text \<open>
  A verdict is final: once an action was answered \<open>synced\<close> or \<open>conflict\<close>, every later sync of
  the same identifier, with whatever payload, gets the same answer, forwards nothing and writes nothing.
\<close>

theorem sync_verdict_is_final:
  assumes "processAction env seen t a st = (Inr r, st')" "isTerminal (sr_status r)" "sa_actionId b = sa_actionId a"
  shows "processAction env' seen' t b st' = (Inr r, st')"
proof -
  obtain row where "find_action t (sa_actionId a) (ss_rows st') = Some row" "toResult row = r"
    using processAction_row[OF assms(1)] by blast
  then show ?thesis using assms(2,3) by (auto simp: processAction_def after_lookup_def admit_def)
qed

theorem sync_verdict_is_final_witness:
  "\<exists>r st'. processAction sample_granting False ''t'' sample_claim \<lparr>ss_rows = [], ss_world = ()\<rparr> = (Inr r, st') \<and>
     processAction sample_off True ''t'' (sample_clock ''clock_in'') st' = (Inr r, st')"
proof -
  let ?p = "processAction sample_granting False ''t'' sample_claim \<lparr>ss_rows = [], ss_world = ()\<rparr>"
  obtain r st' where p: "?p = (Inr r, st')" "sr_status r = Synced" by (simp add: sync_unfold sample_unfold)
  from sync_verdict_is_final[OF p(1), of "sample_clock ''clock_in''" sample_off True] p show ?thesis
    by (auto simp: isTerminal_def sample_unfold)
qed

text \<open>A batch that is answered is answered action by action, in the order it was sent.\<close>

lemma batch_answers_in_order:
  "syncBatch env seen t as st = (Inr rs, st') \<Longrightarrow> map sr_actionId rs = map sa_actionId as"
proof (induction "as" arbitrary: st rs)
  case (Cons a "as")
  then obtain r st1 rs1 where p: "processAction env seen t a st = (Inr r, st1)" "syncBatch env seen t as st1 = (Inr rs1, st')" "rs = r # rs1"
    by (auto split: prod.splits sum.splits)
  obtain row where "find_action t (sa_actionId a) (ss_rows st1) = Some row" "toResult row = r"
    using processAction_row[OF p(1)] by blast
  then have "sr_actionId r = sa_actionId a" using find_actionD by fastforce
  then show ?case using Cons.IH[OF p(2)] p(3) by simp
qed simp

section \<open>Clock events and the attendance ledger\<close>

definition attendance_code :: "attendance_error + attendance_outcome \<Rightarrow> string option" where
  \<comment> \<open>\<open>error.code\<close> of the body \<open>DomainErrorFilter\<close> writes\<close>
  "attendance_code r =
     (case r of
        Inl Att_upstream_unavailable \<Rightarrow> Some ''UPSTREAM_UNAVAILABLE''
      | Inl (No_open_attendance_record _) \<Rightarrow> Some ''NO_OPEN_ATTENDANCE_RECORD''
      | Inl (Attendance_record_conflict _) \<Rightarrow> Some ''ATTENDANCE_RECORD_CONFLICT''
      | _ \<Rightarrow> None)"

definition attendance_over_http ::
  "att_schedule_client \<Rightarrow> attendance_config \<Rightarrow> bool \<Rightarrow> string \<Rightarrow> string \<Rightarrow> int \<Rightarrow> string \<Rightarrow> clock_event \<Rightarrow> attendance_db \<Rightarrow> rest_reply \<times> attendance_db" where
  \<comment> \<open>the ingestion endpoint behind the network: when the answer is lost, the events it recorded stay recorded\<close>
  "attendance_over_http gsa cfg lost rid lid now t ev db =
     (let (r, db') = attendance_ingest gsa cfg rid lid now t ev db
      in (if lost then Rest_unreachable else Rest_reply (attendance_status r) (Error_code (attendance_code r)), db'))"

definition no_hard_violation :: "geofence_evaluation \<Rightarrow> bool" where
  "no_hard_violation g \<longleftrightarrow> \<not> (ge_enabled g \<and> ge_enforcement g = Some Hard \<and> ge_verified g = Some False)"

lemma process_clock_row:
  assumes "oa_actionType row = Act_clock_event" "payload_text (oa_payload row) ''eventType'' = Some ty" "ty = ''clock_in'' \<or> ty = ''clock_out''"
    and "geofence_evaluate (se_geofence env) (oa_tenantId row) (oa_employeeId row) loc = Inr g" "no_hard_violation g"
    and "truthy_str (se_secret env (oa_tenantId row))"
    and "se_attendance env (oa_tenantId row) (clock_event_of row (ge_verified g)) w = (reply, w')"
  shows "processByActionType env row loc w =
    (settle_row (se_now env) (clock_forward_result reply) (if clock_forward_result reply = Fwd_ok then row\<lparr>oa_geofenceVerified := ge_verified g\<rparr> else row), w')"
  using assms by (auto simp: processByActionType_def processClockEvent_def no_hard_violation_def Let_def)

lemma processAction_pending:
  assumes "find_action t (sa_actionId a) (ss_rows st) = Some row" "\<not> isTerminal (oa_status row)"
    and "processByActionType env row (rawLocation a) (ss_world st) = (Some row', w')"
  shows "processAction env seen t a st = (Inr (toResult row'), st\<lparr>ss_rows := save_row row' (ss_rows st), ss_world := w'\<rparr>)"
  using assms by (simp add: processAction_def after_lookup_def admit_def finish_def)

lemma retried_clock_event:
  assumes found: "find_action t (sa_actionId a) (ss_rows st) = Some row" "\<not> isTerminal (oa_status row)"
    and clock: "oa_actionType row = Act_clock_event" "payload_text (oa_payload row) ''eventType'' = Some ty" "ty = ''clock_in'' \<or> ty = ''clock_out''"
    and geo: "geofence_evaluate gc t (oa_employeeId row) (rawLocation a) = Inr g" "no_hard_violation g"
    and env: "se_geofence env1 = gc" "truthy_str (se_secret env1 t)" "se_attendance env1 = attendance_over_http gsa cfg True rid lid now"
      "se_geofence env2 = gc" "truthy_str (se_secret env2 t)" "se_attendance env2 = attendance_over_http gsa2 cfg2 False rid2 lid2 now2"
    and first: "attendance_ingest gsa cfg rid lid now t (clock_event_of row (ge_verified g)) (ss_world st) = (res, db')"
    and second: "attendance_ingest gsa2 cfg2 rid2 lid2 now2 t (clock_event_of row (ge_verified g)) db' = (res2, db2)"
    and one: "processAction env1 seen t a st = (r1, st1)"
    and fwd: "clock_forward_result (Rest_reply (attendance_status res2) (Error_code (attendance_code res2))) = fr" "fr \<noteq> Fwd_throw"
  shows "r1 = Inr (toResult (row\<lparr>oa_status := Sync_failed\<rparr>)) \<and> ss_world st1 = db' \<and>
    (\<exists>row2 st2. processAction env2 seen t a st1 = (Inr (toResult row2), st2) \<and> ss_world st2 = db2 \<and>
       settle_row (se_now env2) fr (if fr = Fwd_ok then row\<lparr>oa_status := Sync_failed, oa_geofenceVerified := ge_verified g\<rparr>
         else row\<lparr>oa_status := Sync_failed\<rparr>) = Some row2)"
proof -
  have ids: "oa_id row = sa_actionId a" "oa_tenantId row = t" using find_actionD[OF found(1)] by auto
  let ?row1 = "row\<lparr>oa_status := Sync_failed\<rparr>"
  have "processByActionType env1 row (rawLocation a) (ss_world st) = (Some ?row1, db')"
    using process_clock_row[OF clock, of env1 "rawLocation a" g "ss_world st" Rest_unreachable db'] geo env(1-3) first ids
    by (simp add: attendance_over_http_def clock_forward_result_def settle_row_def)
  from processAction_pending[OF found this] one
  have r1: "r1 = Inr (toResult ?row1)" and st1: "st1 = st\<lparr>ss_rows := save_row ?row1 (ss_rows st), ss_world := db'\<rparr>" by simp_all
  have found1: "find_action t (sa_actionId a) (ss_rows st1) = Some ?row1"
    using find_saved[OF found(1), of ?row1] ids by (simp add: st1)
  have ev: "clock_event_of ?row1 (ge_verified g) = clock_event_of row (ge_verified g)" by (simp add: clock_event_of_def)
  obtain row2 where row2: "settle_row (se_now env2) fr (if fr = Fwd_ok then ?row1\<lparr>oa_geofenceVerified := ge_verified g\<rparr> else ?row1) = Some row2"
    using fwd(2) by (cases fr) (auto simp: settle_row_def)
  have "processByActionType env2 ?row1 (rawLocation a) (ss_world st1) = (Some row2, db2)"
    using process_clock_row[of ?row1 ty env2 "rawLocation a" g "ss_world st1" "Rest_reply (attendance_status res2) (Error_code (attendance_code res2))" db2]
      clock geo env(4-6) second ids fwd(1) row2
    by (simp add: attendance_over_http_def ev st1)
  from processAction_pending[OF found1 _ this]
  have "processAction env2 seen t a st1 = (Inr (toResult row2), st1\<lparr>ss_rows := save_row row2 (ss_rows st1), ss_world := db2\<rparr>)"
    by (simp add: isTerminal_def)
  with r1 st1 row2 show ?thesis by auto
qed

definition sample_net :: "bool \<Rightarrow> string \<Rightarrow> string \<Rightarrow> attendance_db sync_env" where
  \<comment> \<open>the attendance service behind a network that does or does not lose its answer\<close>
  "sample_net lost rid lid =
     sample_env (attendance_over_http sample_schedule sample_config lost rid lid 9) Rest_unreachable Gql_unreachable"

lemma sample_clock_row:
  "find_action ''t'' (sa_actionId (sample_clock ty)) [new_row 7 ''t'' (sample_clock ty)] = Some (new_row 7 ''t'' (sample_clock ty))"
  "\<not> isTerminal (oa_status (new_row 7 ''t'' (sample_clock ty)))" "oa_actionType (new_row 7 ''t'' (sample_clock ty)) = Act_clock_event"
  "payload_text (oa_payload (new_row 7 ''t'' (sample_clock ty))) ''eventType'' = Some ty"
  "geofence_evaluate (se_geofence (sample_net True ''r2'' ''l2'')) ''t'' (oa_employeeId (new_row 7 ''t'' (sample_clock ty))) (rawLocation (sample_clock ty)) =
     Inr \<lparr>ge_enabled = False, ge_verified = None, ge_enforcement = None\<rparr>"
  "truthy_str (se_secret (sample_net lost rid lid) ''t'')" "se_geofence (sample_net lost rid lid) = se_geofence (sample_net True ''r2'' ''l2'')"
  "se_attendance (sample_net lost rid lid) = attendance_over_http sample_schedule sample_config lost rid lid 9"
  by (simp_all add: find_action_def isTerminal_def sample_unfold sample_net_def new_row_def payload_text_def stripLocation_def
      geofence_evaluate_def resolveActiveBoundary_def resolveOrgUnit_def)

lemma sample_clock_event:
  "clock_event_of (new_row 7 ''t'' (sample_clock ty)) None = sample_event ''a'' (if ty = ''clock_in'' then Clock_in else Clock_out) 5"
  by (simp add: clock_event_of_def sample_event_def sample_unfold new_row_def payload_text_def stripLocation_def)

text \<open>
  Property C32. A clock-in whose answer was lost is not recorded twice. The first sync reports the
  action failed although the attendance record exists; the retry is recognised by the action's identifier,
  is answered \<open>synced\<close> and leaves the attendance tables as they are.
\<close>

theorem clock_in_retry_is_safe:
  assumes "find_action t (sa_actionId a) (ss_rows st) = Some row" "\<not> isTerminal (oa_status row)"
    and "oa_actionType row = Act_clock_event" "payload_text (oa_payload row) ''eventType'' = Some ''clock_in''"
    and "geofence_evaluate gc t (oa_employeeId row) (rawLocation a) = Inr g" "no_hard_violation g"
    and "se_geofence env1 = gc" "truthy_str (se_secret env1 t)" "se_attendance env1 = attendance_over_http gsa cfg True rid lid now"
    and "se_geofence env2 = gc" "truthy_str (se_secret env2 t)" "se_attendance env2 = attendance_over_http gsa2 cfg2 False rid2 lid2 now2"
    and "attendance_ingest gsa cfg rid lid now t (clock_event_of row (ge_verified g)) (ss_world st) = (Inr (Att_accepted i), db')"
    and "distinct (map ledger_key (ad_ledger (ss_world st)))" "rid2 \<notin> ar_id ` set (ad_records db')" "\<And>x y u v. gsa2 x y u v \<noteq> None"
    and "processAction env1 seen t a st = (r1, st1)"
  shows "ss_world st1 = db' \<and> (\<exists>r2 st2. processAction env2 seen t a st1 = (Inr r2, st2) \<and> sr_status r2 = Synced \<and> ss_world st2 = db')"
proof -
  let ?ev = "clock_event_of row (ge_verified g)"
  obtain l where l: "l \<in> set (ad_ledger db')" "ledger_key l = event_key t ?ev" using accepted_in_ledger(1)[OF assms(13,14)] by blast
  obtain as0 where as0: "gsa2 t (ce_employeeId ?ev) (ce_occurredAt ?ev - 12 * 60 * MINUTES) (ce_occurredAt ?ev + 12 * 60 * MINUTES) = Some as0"
    using assms(16) by blast
  have ty: "ce_eventType ?ev = Clock_in" using assms(4) by (simp add: clock_event_of_def)
  have second: "attendance_ingest gsa2 cfg2 rid2 lid2 now2 t ?ev db' = (Inr (Att_duplicate (al_attendanceRecordId l)), db')"
    using clock_in_replay[of l db' t ?ev rid2 gsa2 as0 cfg2 lid2 now2] l accepted_in_ledger(2)[OF assms(13,14)] ty assms(15) as0 by blast
  have fwd: "clock_forward_result (Rest_reply (attendance_status (Inr (Att_duplicate x))) (Error_code c)) = Fwd_ok" for x c
    by (simp add: clock_forward_result_def attendance_status_def response_ok_def)
  from retried_clock_event[OF assms(1-4) _ assms(5-13) second assms(17) fwd]
  show ?thesis by (auto simp: settle_row_def toResult_def)
qed

theorem clock_in_retry_is_safe_witness:
  "\<exists>r1 st1 r2 st2. processAction (sample_net True ''r2'' ''l2'') False ''t'' (sample_clock ''clock_in'')
       \<lparr>ss_rows = [new_row 7 ''t'' (sample_clock ''clock_in'')], ss_world = sample_open\<rparr> = (r1, st1) \<and>
     processAction (sample_net False ''r3'' ''l3'') False ''t'' (sample_clock ''clock_in'') st1 = (Inr r2, st2) \<and> sr_status r2 = Synced"
proof -
  let ?a = "sample_clock ''clock_in''" and ?g = "\<lparr>ge_enabled = False, ge_verified = None, ge_enforcement = None\<rparr>"
  let ?st = "\<lparr>ss_rows = [new_row 7 ''t'' ?a], ss_world = sample_open\<rparr>"
  let ?in = "attendance_ingest sample_schedule sample_config ''r2'' ''l2'' 9 ''t'' (clock_event_of (new_row 7 ''t'' ?a) (ge_verified ?g)) (ss_world ?st)"
  have acc: "?in = (Inr (Att_accepted ''r2''), snd ?in)" and fresh: "''r3'' \<notin> ar_id ` set (ad_records (snd ?in))"
    by (simp_all add: sample_clock_event sample_open_eq ingest_unfold)
  obtain r1 st1 where one: "processAction (sample_net True ''r2'' ''l2'') False ''t'' ?a ?st = (r1, st1)" by force
  have "ss_world st1 = snd ?in \<and> (\<exists>r2 st2. processAction (sample_net False ''r3'' ''l3'') False ''t'' ?a st1 = (Inr r2, st2) \<and> sr_status r2 = Synced \<and> ss_world st2 = snd ?in)"
    by (rule clock_in_retry_is_safe[OF _ sample_clock_row(2-4) sample_clock_row(5) _ sample_clock_row(7,6,8) sample_clock_row(7,6,8) acc _ fresh _ one])
      (simp_all add: sample_clock_row no_hard_violation_def sample_schedule_def sample_open_eq)
  with one show ?thesis by blast
qed

text \<open>
  Property C39. A clock-out whose answer was lost ends as a conflict. The attendance record is closed, the
  first sync reports the action failed, and the retry, delivered with the same identifier, is refused
  because no record is open any more: the employee is told that the recorded clock-out conflicts.
\<close>

theorem clock_out_retry_is_conflict:
  assumes "find_action t (sa_actionId a) (ss_rows st) = Some row" "\<not> isTerminal (oa_status row)"
    and "oa_actionType row = Act_clock_event" "payload_text (oa_payload row) ''eventType'' = Some ''clock_out''"
    and "geofence_evaluate gc t (oa_employeeId row) (rawLocation a) = Inr g" "no_hard_violation g"
    and "se_geofence env1 = gc" "truthy_str (se_secret env1 t)" "se_attendance env1 = attendance_over_http gsa cfg True rid lid now"
    and "se_geofence env2 = gc" "truthy_str (se_secret env2 t)" "se_attendance env2 = attendance_over_http gsa2 cfg2 False rid2 lid2 now2"
    and "attendance_ingest gsa cfg rid lid now t (clock_event_of row (ge_verified g)) (ss_world st) = (Inr (Att_accepted i), db')"
    and "\<forall>r\<in>set (ad_records (ss_world st)). ar_tenantId r = t \<and> ar_employeeId r = oa_employeeId row \<and> ar_clockOutAt r = None \<longrightarrow> r = o0"
    and "processAction env1 seen t a st = (r1, st1)"
  shows "ss_world st1 = db' \<and> (\<exists>r2 st2. processAction env2 seen t a st1 = (Inr r2, st2) \<and> sr_status r2 = Sync_conflict \<and>
    sr_conflictCode r2 = Some ''NO_OPEN_ATTENDANCE_RECORD'' \<and> ss_world st2 = db')"
proof -
  let ?ev = "clock_event_of row (ge_verified g)"
  have ev: "ce_eventType ?ev = Clock_out" "ce_employeeId ?ev = oa_employeeId row" using assms(4) by (simp_all add: clock_event_of_def)
  have second: "attendance_ingest gsa2 cfg2 rid2 lid2 now2 t ?ev db' = (Inl (No_open_attendance_record (ce_employeeId ?ev)), db')"
    using clock_out_replay[OF assms(13) ev(1), of o0] assms(14) ev(2) by simp
  have fwd: "clock_forward_result (Rest_reply (attendance_status (Inl (No_open_attendance_record e))) (Error_code (attendance_code (Inl (No_open_attendance_record e :: attendance_error))))) =
      Fwd_conflict ''NO_OPEN_ATTENDANCE_RECORD''" for e
    by (simp add: clock_forward_result_def attendance_status_def attendance_code_def)
  from retried_clock_event[OF assms(1-4) _ assms(5-13) second assms(15) fwd]
  show ?thesis by (auto simp: settle_row_def conflicted_def toResult_def)
qed

theorem clock_out_retry_is_conflict_witness:
  "\<exists>r1 st1 r2 st2. processAction (sample_net True ''r2'' ''l2'') False ''t'' (sample_clock ''clock_out'')
       \<lparr>ss_rows = [new_row 7 ''t'' (sample_clock ''clock_out'')], ss_world = sample_open\<rparr> = (r1, st1) \<and>
     processAction (sample_net False ''r3'' ''l3'') False ''t'' (sample_clock ''clock_out'') st1 = (Inr r2, st2) \<and> sr_status r2 = Sync_conflict"
proof -
  let ?a = "sample_clock ''clock_out''" and ?g = "\<lparr>ge_enabled = False, ge_verified = None, ge_enforcement = None\<rparr>"
  let ?st = "\<lparr>ss_rows = [new_row 7 ''t'' ?a], ss_world = sample_open\<rparr>"
  let ?in = "attendance_ingest sample_schedule sample_config ''r2'' ''l2'' 9 ''t'' (clock_event_of (new_row 7 ''t'' ?a) (ge_verified ?g)) (ss_world ?st)"
  have acc: "?in = (Inr (Att_accepted ''r1''), snd ?in)"
    by (simp add: sample_clock_event sample_open_eq ingest_unfold)
  have only: "\<forall>r\<in>set (ad_records (ss_world ?st)). ar_tenantId r = ''t'' \<and> ar_employeeId r = oa_employeeId (new_row 7 ''t'' ?a) \<and> ar_clockOutAt r = None \<longrightarrow>
      r = hd (ad_records sample_open)" by (simp add: sample_open_eq)
  obtain r1 st1 where one: "processAction (sample_net True ''r2'' ''l2'') False ''t'' ?a ?st = (r1, st1)" by force
  have "ss_world st1 = snd ?in \<and> (\<exists>r2 st2. processAction (sample_net False ''r3'' ''l3'') False ''t'' ?a st1 = (Inr r2, st2) \<and> sr_status r2 = Sync_conflict \<and>
      sr_conflictCode r2 = Some ''NO_OPEN_ATTENDANCE_RECORD'' \<and> ss_world st2 = snd ?in)"
    by (rule clock_out_retry_is_conflict[OF _ sample_clock_row(2-4) sample_clock_row(5) _ sample_clock_row(7,6,8) sample_clock_row(7,6,8) acc only one])
      (simp_all add: sample_clock_row no_hard_violation_def)
  with one show ?thesis by blast
qed

section \<open>Answers that are misread\<close>

text \<open>
  Two overlapping syncs of one marketplace claim can turn a granted claim into a reported
  conflict. When both requests admitted the action before either finished, the first forwards it, is
  granted the shift and stores \<open>synced\<close>; the second forwards it again, is refused because the post is taken,
  and overwrites the stored verdict with a conflict.
\<close>

theorem overlapping_syncs_overwrite_verdict:
  assumes "sa_actionType a = Act_marketplace_claim" "payload_text (sa_payload a) ''marketplacePostId'' = Some post" "post \<noteq> []"
    and "sa_actionId a \<notin> oa_id ` set (ss_rows st)"
    and "admit seen1 now1 t a None (ss_rows st) = (Inr (Admitted rowA), rowsA)"
    and "admit seen2 now2 t a None rowsA = (Inr (Admitted rowB), rowsB)"
    and "se_claim env1 t (sa_employeeId a) post (ss_world st) = (Gql_reply 200 [] (Some ''approved''), w1)"
    and "se_claim env2 t (sa_employeeId a) post w1 = (Gql_reply 200 [Some ''POST_NOT_OPEN''] None, w2)"
    and "finish env1 rowA (rawLocation a) (st\<lparr>ss_rows := rowsB\<rparr>) = (r1, st1)" "finish env2 rowB (rawLocation a) st1 = (r2, st2)"
  shows "\<exists>x y row. r1 = Inr x \<and> sr_status x = Synced \<and> r2 = Inr y \<and> sr_status y = Sync_conflict \<and>
    find_action t (sa_actionId a) (ss_rows st2) = Some row \<and> oa_status row = Sync_conflict"
proof -
  have none: "find_action t (sa_actionId a) (ss_rows st) = None"
    using assms(4) by (auto simp: find_action_def find_where_None image_iff)
  have A: "rowA = new_row now1 t a" "rowsA = ss_rows st @ [new_row now1 t a]"
    using assms(4,5) none by (auto simp: admit_def Let_def)
  have fA: "find_action t (sa_actionId a) rowsA = Some rowA" using none by (simp add: A find_action_def find_where_append)
  have B: "find_action t (sa_actionId a) rowsB = Some rowB" "rowB = new_row now1 t a \<or> rowB = new_row now2 t a"
    using assms(6) fA find_saved[OF fA, of "new_row now2 t a"] by (auto simp: admit_def Let_def A(1) split: if_splits)
  have post: "payload_text (oa_payload (new_row n t a)) ''marketplacePostId'' = Some post" for n
    using assms(2) by (simp add: new_row_def stripLocation_def payload_text_def)
  have row: "oa_actionType (new_row n t a) = Act_marketplace_claim" "oa_employeeId (new_row n t a) = sa_employeeId a" for n
    using assms(1) by (simp_all add: new_row_def)
  note unfolds = finish_def processByActionType_def processMarketplaceClaim_def Let_def claim_result_def settle_row_def
  have p1: "processByActionType env1 rowA (rawLocation a) (ss_world st) = (Some (rowA\<lparr>oa_status := Synced, oa_syncedAt := Some (se_now env1)\<rparr>), w1)"
    using assms(3,7) post row by (simp add: A(1) unfolds)
  then have st1: "r1 = Inr (toResult (rowA\<lparr>oa_status := Synced, oa_syncedAt := Some (se_now env1)\<rparr>))"
    "ss_world st1 = w1" "ss_rows st1 = save_row (rowA\<lparr>oa_status := Synced, oa_syncedAt := Some (se_now env1)\<rparr>) rowsB"
    using assms(9) by (auto simp: finish_def)
  have p2: "processByActionType env2 rowB (rawLocation a) w1 = (Some (conflicted rowB ''POST_NOT_OPEN''), w2)"
    using assms(3,8) post row B(2) by (auto simp: unfolds CLAIM_CONFLICT_CODES_def)
  then have st2: "r2 = Inr (toResult (conflicted rowB ''POST_NOT_OPEN''))" "ss_rows st2 = save_row (conflicted rowB ''POST_NOT_OPEN'') (ss_rows st1)"
    using assms(10) st1(2) by (auto simp: finish_def)
  have "find_action t (sa_actionId a) (ss_rows st1) = Some (rowA\<lparr>oa_status := Synced, oa_syncedAt := Some (se_now env1)\<rparr>)"
    unfolding st1(3) by (rule find_saved[OF B(1)]) (simp_all add: A(1))
  then have "find_action t (sa_actionId a) (ss_rows st2) = Some (conflicted rowB ''POST_NOT_OPEN'')"
    unfolding st2(2) by (rule find_saved) (use B(2) in \<open>auto simp: conflicted_def\<close>)
  with st1(1) st2(1) show ?thesis by (simp add: toResult_def conflicted_def)
qed

theorem overlapping_syncs_overwrite_verdict_witness:
  "let row = new_row 7 ''t'' sample_claim;
       st1 = snd (finish sample_granting row None \<lparr>ss_rows = [row], ss_world = ()\<rparr>);
       st2 = snd (finish (sample_off\<lparr>se_claim := \<lambda>_ _ _ w. (Gql_reply 200 [Some ''POST_NOT_OPEN''] None, w)\<rparr>) row None st1)
   in map oa_status (ss_rows st2) = [Sync_conflict]"
proof -
  let ?row = "new_row 7 ''t'' sample_claim" and ?st = "\<lparr>ss_rows = [], ss_world = ()\<rparr>"
  let ?env2 = "sample_off\<lparr>se_claim := \<lambda>_ _ _ w. (Gql_reply 200 [Some ''POST_NOT_OPEN''] None, w)\<rparr> :: unit sync_env"
  have ad1: "admit False 7 ''t'' sample_claim None (ss_rows ?st) = (Inr (Admitted ?row), [?row])" by (simp add: admit_def find_action_def Let_def)
  have ad2: "admit False 7 ''t'' sample_claim None [?row] = (Inr (Admitted ?row), [?row])"
    by (simp add: admit_def find_action_def Let_def isTerminal_def)
  have c1: "se_claim sample_granting ''t'' (sa_employeeId sample_claim) ''p'' (ss_world ?st) = (Gql_reply 200 [] (Some ''approved''), ())"
    and c2: "se_claim ?env2 ''t'' (sa_employeeId sample_claim) ''p'' () = (Gql_reply 200 [Some ''POST_NOT_OPEN''] None, ())"
    by (simp_all add: sample_unfold)
  obtain r1 st1 where f1: "finish sample_granting ?row (rawLocation sample_claim) (?st\<lparr>ss_rows := [?row]\<rparr>) = (r1, st1)" by force
  obtain r2 st2 where f2: "finish ?env2 ?row (rawLocation sample_claim) st1 = (r2, st2)" by force
  have "\<exists>x y row. r1 = Inr x \<and> sr_status x = Synced \<and> r2 = Inr y \<and> sr_status y = Sync_conflict \<and>
      find_action ''t'' (sa_actionId sample_claim) (ss_rows st2) = Some row \<and> oa_status row = Sync_conflict"
    by (rule overlapping_syncs_overwrite_verdict[OF _ _ _ _ ad1 ad2 c1 c2 f1 f2]) (simp_all add: sample_unfold payload_text_def)
  then obtain row where row: "find_action ''t'' (sa_actionId sample_claim) (ss_rows st2) = Some row" "oa_status row = Sync_conflict" by blast
  have len: "length (ss_rows st2) = 1"
    using f1 f2 by (auto simp: finish_def save_row_def split: prod.splits option.splits)
  then obtain z where z: "ss_rows st2 = [z]" by (auto simp: length_Suc_conv)
  then have "map oa_status (ss_rows st2) = [Sync_conflict]" using row by (auto simp: find_action_def split: if_splits)
  moreover have "rawLocation sample_claim = None" by (simp add: rawLocation_def sample_unfold)
  ultimately show ?thesis using f1 f2 by (simp add: Let_def)
qed

text \<open>
  An error page counts as a granted claim. The claim client looks only at \<open>errors\<close> and at a
  rejected claim in the body, so a JSON answer that has neither, whatever its HTTP status, settles the action
  as \<open>synced\<close>: no claim was made and the action is never forwarded again.
\<close>

theorem claim_error_page_counts_as_synced:
  assumes "find_action t (sa_actionId a) (ss_rows st) = Some row" "\<not> isTerminal (oa_status row)" "oa_actionType row = Act_marketplace_claim"
    and "payload_text (oa_payload row) ''marketplacePostId'' = Some post" "post \<noteq> []"
    and "se_claim env t (oa_employeeId row) post (ss_world st) = (Gql_reply status [] None, w')"
  shows "\<exists>r st'. processAction env seen t a st = (Inr r, st') \<and> sr_status r = Synced \<and>
    processAction env' seen' t a st' = (Inr r, st')"
proof -
  let ?row = "row\<lparr>oa_status := Synced, oa_syncedAt := Some (se_now env)\<rparr>"
  have ids: "oa_id row = sa_actionId a" "oa_tenantId row = t" using find_actionD[OF assms(1)] by auto
  have "processByActionType env row (rawLocation a) (ss_world st) = (Some ?row, w')"
    using assms(3-6) ids by (simp add: processByActionType_def processMarketplaceClaim_def claim_result_def settle_row_def)
  from processAction_pending[OF assms(1,2) this]
  have p: "processAction env seen t a st = (Inr (toResult ?row), st\<lparr>ss_rows := save_row ?row (ss_rows st), ss_world := w'\<rparr>)" .
  have "find_action t (sa_actionId a) (save_row ?row (ss_rows st)) = Some ?row" by (rule find_saved[OF assms(1)]) (simp_all add: ids)
  then have "processAction env' seen' t a (st\<lparr>ss_rows := save_row ?row (ss_rows st), ss_world := w'\<rparr>) =
      (Inr (toResult ?row), st\<lparr>ss_rows := save_row ?row (ss_rows st), ss_world := w'\<rparr>)"
    by (simp add: processAction_def after_lookup_def admit_def isTerminal_def)
  with p show ?thesis by (auto simp: toResult_def)
qed

theorem claim_error_page_counts_as_synced_witness:
  "\<exists>r st'. processAction (sample_off\<lparr>se_claim := \<lambda>_ _ _ w. (Gql_reply 502 [] None, w)\<rparr>) False ''t'' sample_claim
       \<lparr>ss_rows = [new_row 7 ''t'' sample_claim], ss_world = ()\<rparr> = (Inr r, st') \<and> sr_status r = Synced"
  using claim_error_page_counts_as_synced[of "''t''" sample_claim "\<lparr>ss_rows = [new_row 7 ''t'' sample_claim], ss_world = ()\<rparr>" "new_row 7 ''t'' sample_claim" "''p''"
      "sample_off\<lparr>se_claim := \<lambda>_ _ _ w. (Gql_reply 502 [] None, w)\<rparr>" 502 "()" False sample_off False]
  by (auto simp: find_action_def isTerminal_def sample_unfold new_row_def payload_text_def stripLocation_def)

lemma leave_overlap_once:
  assumes "find_action t (sa_actionId a) (ss_rows st) = Some row" "\<not> isTerminal (oa_status row)" "oa_actionType row = Act_leave_request"
    and "payload_text (oa_payload row) ''leaveTypeId'' = Some ty" "payload_text (oa_payload row) ''dateRangeStart'' = Some d1"
    and "payload_text (oa_payload row) ''dateRangeEnd'' = Some d2" "ty \<noteq> []" "d1 \<noteq> []" "d2 \<noteq> []"
    and "se_leave env t (oa_employeeId row) ty d1 d2 (ss_world st) = (Rest_reply 409 (Error_code (Some ''LEAVE_REQUEST_OVERLAP'')), w')"
  shows "processAction env seen t a st =
    (Inr (toResult (row\<lparr>oa_status := Sync_failed\<rparr>)), st\<lparr>ss_rows := save_row (row\<lparr>oa_status := Sync_failed\<rparr>) (ss_rows st), ss_world := w'\<rparr>)"
proof (rule processAction_pending[OF assms(1,2)])
  show "processByActionType env row (rawLocation a) (ss_world st) = (Some (row\<lparr>oa_status := Sync_failed\<rparr>), w')"
    using assms(3-) find_actionD[OF assms(1)]
    by (simp add: processByActionType_def processLeaveRequest_def leave_submit_result_def response_ok_def LEAVE_CONFLICT_CODES_def settle_row_def)
qed

text \<open>
  A leave request that overlaps an existing one never settles. The leave service refuses it
  with \<open>LEAVE_REQUEST_OVERLAP\<close>, a code the client does not count as a conflict, so after any number of syncs
  the action is still failed and every sync has submitted it once more.
\<close>

theorem leave_overlap_never_settles:
  assumes "find_action t (sa_actionId a) (ss_rows st) = Some row" "\<not> isTerminal (oa_status row)" "oa_actionType row = Act_leave_request"
    and "payload_text (oa_payload row) ''leaveTypeId'' = Some ty" "payload_text (oa_payload row) ''dateRangeStart'' = Some d1"
    and "payload_text (oa_payload row) ''dateRangeEnd'' = Some d2" "ty \<noteq> []" "d1 \<noteq> []" "d2 \<noteq> []"
    and "\<And>w. se_leave env t (oa_employeeId row) ty d1 d2 w = (Rest_reply 409 (Error_code (Some ''LEAVE_REQUEST_OVERLAP'')), submitted w)"
  shows "let st' = ((\<lambda>s. snd (processAction env seen t a s)) ^^ n) st
    in ss_world st' = (submitted ^^ n) (ss_world st) \<and>
       (\<exists>row'. find_action t (sa_actionId a) (ss_rows st') = Some row' \<and> \<not> isTerminal (oa_status row'))"
proof -
  have "\<exists>row'. find_action t (sa_actionId a) (ss_rows (((\<lambda>s. snd (processAction env seen t a s)) ^^ n) st)) = Some row' \<and>
      \<not> isTerminal (oa_status row') \<and> oa_actionType row' = Act_leave_request \<and> oa_payload row' = oa_payload row \<and> oa_employeeId row' = oa_employeeId row \<and>
      ss_world (((\<lambda>s. snd (processAction env seen t a s)) ^^ n) st) = (submitted ^^ n) (ss_world st)"
  proof (induction n)
    case 0
    then show ?case using assms(1-3) by simp
  next
    case (Suc n)
    let ?st = "((\<lambda>s. snd (processAction env seen t a s)) ^^ n) st"
    obtain row' where row': "find_action t (sa_actionId a) (ss_rows ?st) = Some row'" "\<not> isTerminal (oa_status row')"
      "oa_actionType row' = Act_leave_request" "oa_payload row' = oa_payload row" "oa_employeeId row' = oa_employeeId row"
      "ss_world ?st = (submitted ^^ n) (ss_world st)" using Suc by blast
    have "processAction env seen t a ?st = (Inr (toResult (row'\<lparr>oa_status := Sync_failed\<rparr>)),
        ?st\<lparr>ss_rows := save_row (row'\<lparr>oa_status := Sync_failed\<rparr>) (ss_rows ?st), ss_world := submitted (ss_world ?st)\<rparr>)"
      using leave_overlap_once[OF row'(1-3), of ty d1 d2 env] assms(4-10) row'(4,5) by simp
    moreover have "find_action t (sa_actionId a) (save_row (row'\<lparr>oa_status := Sync_failed\<rparr>) (ss_rows ?st)) = Some (row'\<lparr>oa_status := Sync_failed\<rparr>)"
      by (rule find_saved[OF row'(1)]) (use find_actionD[OF row'(1)] in simp_all)
    ultimately show ?case using row' by (simp add: isTerminal_def)
  qed
  then show ?thesis by (auto simp: Let_def)
qed

theorem leave_overlap_never_settles_witness:
  "let env = sample_off\<lparr>se_leave := \<lambda>_ _ _ _ _ w. (Rest_reply 409 (Error_code (Some ''LEAVE_REQUEST_OVERLAP'')), Suc w)\<rparr>;
       st' = ((\<lambda>s. snd (processAction env False ''t'' sample_leave s)) ^^ 5) \<lparr>ss_rows = [new_row 7 ''t'' sample_leave], ss_world = (0 :: nat)\<rparr>
   in ss_world st' = 5"
proof -
  let ?env = "sample_off\<lparr>se_leave := \<lambda>_ _ _ _ _ w. (Rest_reply 409 (Error_code (Some ''LEAVE_REQUEST_OVERLAP'')), Suc w)\<rparr>"
  let ?row = "new_row 7 ''t'' sample_leave"
  have "let st' = ((\<lambda>s. snd (processAction ?env False ''t'' sample_leave s)) ^^ 5) \<lparr>ss_rows = [?row], ss_world = 0\<rparr>
    in ss_world st' = (Suc ^^ 5) (ss_world \<lparr>ss_rows = [?row], ss_world = 0\<rparr>) \<and>
       (\<exists>row'. find_action ''t'' (sa_actionId sample_leave) (ss_rows st') = Some row' \<and> \<not> isTerminal (oa_status row'))"
    by (rule leave_overlap_never_settles[where row = ?row and ty = "''l''" and ?d1.0 = "''d''" and ?d2.0 = "''d''"])
      (simp_all add: find_action_def isTerminal_def, simp_all add: sample_unfold new_row_def payload_text_def stripLocation_def)
  then show ?thesis by (simp add: Let_def)
qed

lemma syncBatch_append:
  "syncBatch env seen t as st = (Inr rs, st1) \<Longrightarrow> syncBatch env seen t (as @ bs) st =
     (case syncBatch env seen t bs st1 of (Inl e, st') \<Rightarrow> (Inl e, st') | (Inr rs', st') \<Rightarrow> (Inr (rs @ rs'), st'))"
proof (induction "as" arbitrary: st rs)
  case (Cons a "as")
  then obtain r st2 rs1 where p: "processAction env seen t a st = (Inr r, st2)" "syncBatch env seen t as st2 = (Inr rs1, st1)" "rs = r # rs1"
    by (auto split: prod.splits sum.splits)
  then show ?case using Cons.IH[OF p(2)] by (auto split: prod.splits sum.splits)
qed (auto split: prod.splits sum.splits)

text \<open>
  One action can fail a whole batch. An action whose identifier is taken by another tenant's
  row is neither visible nor insertable: the error escapes, the actions before it stay committed without an
  answer, and those after it are not looked at.
\<close>

theorem foreign_identifier_fails_batch:
  assumes "syncBatch env seen t as st = (Inr rs, st1)"
    and "find_action t (sa_actionId b) (ss_rows st1) = None" "sa_actionId b \<in> oa_id ` set (ss_rows st1)"
  shows "syncBatch env seen t (as @ b # bs) st = (Inl Entity_not_found, st1)"
proof -
  have "processAction env seen t b st1 = (Inl Entity_not_found, st1)"
    using assms(2,3) by (simp add: processAction_def after_lookup_def admit_def)
  then show ?thesis using syncBatch_append[OF assms(1), of "b # bs"] by simp
qed

theorem foreign_identifier_fails_batch_witness:
  "fst (syncBatch sample_off False ''t'' [sample_leave, sample_claim\<lparr>sa_actionId := ''b''\<rparr>]
     \<lparr>ss_rows = [(new_row 7 ''u'' sample_claim)\<lparr>oa_id := ''b''\<rparr>], ss_world = ()\<rparr>) = Inl Entity_not_found"
proof -
  let ?other = "(new_row 7 ''u'' sample_claim)\<lparr>oa_id := ''b''\<rparr>"
  obtain rs row where b: "syncBatch sample_off False ''t'' [sample_leave] \<lparr>ss_rows = [?other], ss_world = ()\<rparr> =
      (Inr rs, \<lparr>ss_rows = [?other, row], ss_world = ()\<rparr>)" "oa_id row = ''a''"
    by (simp add: sync_unfold sample_unfold response_ok_def)
  from foreign_identifier_fails_batch[OF b(1), of "sample_claim\<lparr>sa_actionId := ''b''\<rparr>" "[]"] b(2)
  show ?thesis by (simp add: find_action_def)
qed

end
