(* ===== verification/Offline_Queue.thy ===== *)
theory Offline_Queue
  imports Secure_Store Mobile_Sync
begin

text \<open>
  The offline queue of the mobile app (\<open>mobile-app/src/offlineQueue\<close>): the pending actions and the
  unresolved conflicts, each in a collection of the secure store, and the engine that syncs them with
  \<open>mobile-ess-service\<close>. The instant an action was queued is a number; \<open>localeCompare\<close> on the ISO strings the
  app writes orders them like the instants. The connection is a function that answers a batch or fails and
  changes the world behind it; its contract is the locale \<open>sync_server\<close>, which the endpoint of the
  sync service fulfils.
\<close>

section \<open>Data\<close>

record queued_action =
  qa_id :: string
  qa_actionType :: offline_action_type
  qa_payload :: payload
  qa_createdAtDevice :: int

record queued_conflict =
  qc_id :: string
  qc_actionType :: offline_action_type
  qc_code :: string
  qc_detectedAt :: int

record 'w device =
  dv_queue :: "queued_action sstore"
  dv_conflicts :: "queued_conflict sstore"
  dv_lastQueued :: "string option" \<comment> \<open>\<open>LAST_QUEUED_EVENT_TYPE_KEY\<close> in \<open>AsyncStorage\<close>\<close>
  dv_world :: 'w

type_synonym 'w connection = "queued_action list \<Rightarrow> 'w \<Rightarrow> sync_result list option \<times> 'w"

section \<open>Queueing\<close>

definition enqueueAction :: "queued_action \<Rightarrow> 'w device \<Rightarrow> 'w device" where
  "enqueueAction action dv = dv\<lparr>dv_queue := store_add qa_id action (dv_queue dv)\<rparr>"

definition listPendingActions :: "'w device \<Rightarrow> queued_action list \<times> 'w device" where
  "listPendingActions dv = (case store_list (dv_queue dv) of (xs, q) \<Rightarrow> (xs, dv\<lparr>dv_queue := q\<rparr>))"

definition removeAction :: "string \<Rightarrow> 'w device \<Rightarrow> 'w device" where
  "removeAction i dv = dv\<lparr>dv_queue := store_remove i (dv_queue dv)\<rparr>"

definition addConflict :: "queued_conflict \<Rightarrow> 'w device \<Rightarrow> 'w device" where
  "addConflict conflict dv = dv\<lparr>dv_conflicts := store_add qc_id conflict (dv_conflicts dv)\<rparr>"

definition listConflicts :: "'w device \<Rightarrow> queued_conflict list \<times> 'w device" where
  "listConflicts dv = (case store_list (dv_conflicts dv) of (xs, c) \<Rightarrow> (xs, dv\<lparr>dv_conflicts := c\<rparr>))"

definition dismissConflict :: "string \<Rightarrow> 'w device \<Rightarrow> 'w device" where
  "dismissConflict i dv = dv\<lparr>dv_conflicts := store_remove i (dv_conflicts dv)\<rparr>"

definition queueClockEvent :: "string \<Rightarrow> int \<Rightarrow> string \<Rightarrow> coordinates option \<Rightarrow> 'w device \<Rightarrow> 'w device" where
  \<comment> \<open>\<open>uuid\<close> and \<open>now\<close> are the drawn identifier and the clock at the call\<close>
  "queueClockEvent uuid now eventType location dv =
     (enqueueAction \<lparr>qa_id = uuid, qa_actionType = Act_clock_event,
        qa_payload = (case location of None \<Rightarrow> [''eventType'' \<mapsto> P_text eventType]
                      | Some l \<Rightarrow> [''eventType'' \<mapsto> P_text eventType, ''location'' \<mapsto> P_location l]),
        qa_createdAtDevice = now\<rparr> dv)\<lparr>dv_lastQueued := Some eventType\<rparr>"

definition getLastQueuedEventType :: "'w device \<Rightarrow> string option" where
  "getLastQueuedEventType dv =
     (case dv_lastQueued dv of Some v \<Rightarrow> if v = ''clock_in'' \<or> v = ''clock_out'' then Some v else None | None \<Rightarrow> None)"

definition queueLeaveRequest :: "string \<Rightarrow> int \<Rightarrow> string \<Rightarrow> string \<Rightarrow> string \<Rightarrow> 'w device \<Rightarrow> 'w device" where
  "queueLeaveRequest uuid now leaveTypeId dateRangeStart dateRangeEnd =
     enqueueAction \<lparr>qa_id = uuid, qa_actionType = Act_leave_request,
       qa_payload = [''leaveTypeId'' \<mapsto> P_text leaveTypeId, ''dateRangeStart'' \<mapsto> P_text dateRangeStart, ''dateRangeEnd'' \<mapsto> P_text dateRangeEnd],
       qa_createdAtDevice = now\<rparr>"

definition queueMarketplaceClaim :: "string \<Rightarrow> int \<Rightarrow> string \<Rightarrow> 'w device \<Rightarrow> 'w device" where
  "queueMarketplaceClaim uuid now marketplacePostId =
     enqueueAction \<lparr>qa_id = uuid, qa_actionType = Act_marketplace_claim,
       qa_payload = [''marketplacePostId'' \<mapsto> P_text marketplacePostId], qa_createdAtDevice = now\<rparr>"

section \<open>Syncing\<close>

definition MAX_BATCH_SIZE :: nat where
  "MAX_BATCH_SIZE = 50"

function chunk :: "'a list \<Rightarrow> nat \<Rightarrow> 'a list list" where
  \<comment> \<open>the source calls it with \<open>MAX_BATCH_SIZE\<close> only; size 0 would not return\<close>
  "chunk items size0 = (if items = [] \<or> size0 = 0 then [] else take size0 items # chunk (drop size0 items) size0)"
  by auto
termination by (relation "measure (\<lambda>(items, _). length items)") auto

declare chunk.simps [simp del]

definition conflict_of :: "int \<Rightarrow> sync_result \<Rightarrow> queued_conflict" where
  "conflict_of now result =
     \<lparr>qc_id = sr_actionId result, qc_actionType = sr_actionType result,
      qc_code = the_default (sr_conflictCode result) ''CONFLICT'', qc_detectedAt = now\<rparr>"

definition handle_result :: "int \<Rightarrow> sync_result \<Rightarrow> 'w device \<Rightarrow> 'w device" where
  "handle_result now result dv =
     (if sr_status result = Synced then removeAction (sr_actionId result) dv
      else if sr_status result = Sync_conflict
      then removeAction (sr_actionId result) (addConflict (conflict_of now result) dv)
      else dv)"

fun sync_batches :: "int \<Rightarrow> 'w connection \<Rightarrow> queued_action list list \<Rightarrow> 'w device \<Rightarrow> sync_result list \<times> 'w device" where
  \<comment> \<open>the loop over the batches; the answers it handled are returned for the statements below\<close>
  "sync_batches now post [] dv = ([], dv)"
| "sync_batches now post (batch # batches) dv =
     (case post batch (dv_world dv) of
        (None, w) \<Rightarrow> sync_batches now post batches (dv\<lparr>dv_world := w\<rparr>)
      | (Some results, w) \<Rightarrow>
          (case sync_batches now post batches (fold (handle_result now) results (dv\<lparr>dv_world := w\<rparr>)) of
             (handled, dv') \<Rightarrow> (results @ handled, dv')))"

definition older :: "queued_action \<Rightarrow> queued_action \<Rightarrow> bool" where
  "older a b \<longleftrightarrow> qa_createdAtDevice a \<le> qa_createdAtDevice b"

definition syncPendingActions :: "int \<Rightarrow> 'w connection \<Rightarrow> 'w device \<Rightarrow> sync_result list \<times> 'w device" where
  "syncPendingActions now post dv =
     (case listPendingActions dv of (pending, dv1) \<Rightarrow>
        if pending = [] then ([], dv1) else sync_batches now post (chunk (js_sort older pending) MAX_BATCH_SIZE) dv1)"

section \<open>The queue and the conflicts as lists\<close>

definition device_inv :: "'w device \<Rightarrow> bool" where
  "device_inv dv \<longleftrightarrow> store_inv qa_id (dv_queue dv) \<and> store_inv qc_id (dv_conflicts dv) \<and>
     set (store_index (dv_queue dv)) \<inter> set (store_index (dv_conflicts dv)) = {}"

definition queue_of :: "'w device \<Rightarrow> queued_action list" where
  "queue_of dv = store_abs (dv_queue dv)"

definition conflicts_of :: "'w device \<Rightarrow> queued_conflict list" where
  "conflicts_of dv = store_abs (dv_conflicts dv)"

definition settled :: "sync_result list \<Rightarrow> string set" where
  "settled rs = sr_actionId ` {r \<in> set rs. isTerminal (sr_status r)}"

lemma settled_simps [simp]:
  "settled [] = {}" "settled (r # rs) = (if isTerminal (sr_status r) then insert (sr_actionId r) (settled rs) else settled rs)"
  "settled (rs @ rs') = settled rs \<union> settled rs'"
  by (auto simp: settled_def)

lemma settled_subset: "settled rs \<subseteq> sr_actionId ` set rs"
  by (auto simp: settled_def)

lemma concat_chunk: "size0 > 0 \<Longrightarrow> concat (chunk items size0) = items"
  by (induction items size0 rule: chunk.induct) (subst chunk.simps, auto)

lemma chunk_sizes: "b \<in> set (chunk items size0) \<Longrightarrow> b \<noteq> [] \<and> length b \<le> size0"
proof (induction items size0 rule: chunk.induct)
  case (1 items size0)
  then show ?case by (subst (asm) (2) chunk.simps) (auto split: if_splits)
qed

lemma store_abs_ids:
  assumes "store_inv ident st"
  shows "distinct (map ident (store_abs st)) \<and> ident ` set (store_abs st) \<subseteq> set (store_index st)"
proof -
  have ids: "ident x = i" if "readItem st i = Some x" for i x using assms that by (simp add: store_inv_def)
  have m: "map ident (List.map_filter (readItem st) is) = filter (\<lambda>i. readItem st i \<noteq> None) is" for "is"
    by (induction "is") (auto simp: List.map_filter_simps ids split: option.splits)
  have "distinct (store_index st)" using assms by (simp add: store_inv_def)
  then have "distinct (map ident (store_abs st))" by (simp add: store_abs_def m)
  moreover have "ident ` set (store_abs st) = set (map ident (store_abs st))" by simp
  then have "ident ` set (store_abs st) \<subseteq> set (store_index st)" unfolding store_abs_def m by auto
  ultimately show ?thesis by blast
qed

lemma handle_result_spec:
  assumes inv: "device_inv dv" and fresh: "sr_actionId r \<in> set (store_index (dv_queue dv))"
  shows "device_inv (handle_result now r dv) \<and>
    queue_of (handle_result now r dv) = filter (\<lambda>x. qa_id x \<notin> settled [r]) (queue_of dv) \<and>
    set (store_index (dv_queue (handle_result now r dv))) = set (store_index (dv_queue dv)) - settled [r] \<and>
    conflicts_of (handle_result now r dv) = conflicts_of dv @ map (conflict_of now) (filter (\<lambda>r. sr_status r = Sync_conflict) [r]) \<and>
    dv_world (handle_result now r dv) = dv_world dv"
proof -
  let ?i = "sr_actionId r"
  have q: "store_inv qa_id (dv_queue dv)" and c: "store_inv qc_id (dv_conflicts dv)"
    and disj: "set (store_index (dv_queue dv)) \<inter> set (store_index (dv_conflicts dv)) = {}"
    using inv by (simp_all add: device_inv_def)
  note rem = secure.remove_law[OF q, of ?i]
  have add: "store_inv qc_id (store_add qc_id (conflict_of now r) (dv_conflicts dv)) \<and>
      store_abs (store_add qc_id (conflict_of now r) (dv_conflicts dv)) = store_abs (dv_conflicts dv) @ [conflict_of now r] \<and>
      store_index (store_add qc_id (conflict_of now r) (dv_conflicts dv)) = store_index (dv_conflicts dv) @ [?i]"
    using secure.add_law[OF c, of "conflict_of now r"] fresh disj by (auto simp: conflict_of_def)
  consider "sr_status r = Synced" | "sr_status r = Sync_conflict" | "\<not> isTerminal (sr_status r)" by (auto simp: isTerminal_def)
  then show ?thesis
  proof cases
    case 1
    then show ?thesis using rem c disj
      by (auto simp: handle_result_def removeAction_def device_inv_def queue_of_def conflicts_of_def isTerminal_def)
  next
    case 2
    then show ?thesis using rem add disj
      by (auto simp: handle_result_def removeAction_def addConflict_def device_inv_def queue_of_def conflicts_of_def isTerminal_def)
  next
    case 3
    then show ?thesis using inv
      by (auto simp: handle_result_def queue_of_def conflicts_of_def isTerminal_def)
  qed
qed

lemma handle_results_spec:
  assumes "device_inv dv" "distinct (map sr_actionId rs)" "sr_actionId ` set rs \<subseteq> set (store_index (dv_queue dv))"
  shows "device_inv (fold (handle_result now) rs dv) \<and>
    queue_of (fold (handle_result now) rs dv) = filter (\<lambda>x. qa_id x \<notin> settled rs) (queue_of dv) \<and>
    set (store_index (dv_queue (fold (handle_result now) rs dv))) = set (store_index (dv_queue dv)) - settled rs \<and>
    conflicts_of (fold (handle_result now) rs dv) = conflicts_of dv @ map (conflict_of now) (filter (\<lambda>r. sr_status r = Sync_conflict) rs) \<and>
    dv_world (fold (handle_result now) rs dv) = dv_world dv"
  using assms
proof (induction rs arbitrary: dv)
  case (Cons r rs)
  note one = handle_result_spec[of dv r now]
  let ?dv = "handle_result now r dv"
  have h: "device_inv ?dv" "queue_of ?dv = filter (\<lambda>x. qa_id x \<notin> settled [r]) (queue_of dv)"
    "set (store_index (dv_queue ?dv)) = set (store_index (dv_queue dv)) - settled [r]"
    "conflicts_of ?dv = conflicts_of dv @ map (conflict_of now) (filter (\<lambda>r. sr_status r = Sync_conflict) [r])" "dv_world ?dv = dv_world dv"
    using one Cons.prems by auto
  have "sr_actionId ` set rs \<subseteq> set (store_index (dv_queue ?dv))"
    using Cons.prems(2,3) by (auto simp: h(3) image_iff split: if_splits)
  from Cons.IH[OF h(1) _ this] Cons.prems(2) h show ?case by (auto simp: conj_commute intro: filter_cong)
qed simp

section \<open>The contract of the connection\<close>

locale sync_server =
  fixes post :: "'w connection"
  assumes answers_in_order: "post batch w = (Some results, w') \<Longrightarrow> map sr_actionId results = map qa_id batch"
begin

lemma sync_batches_spec:
  assumes "device_inv dv" "distinct (map qa_id (concat batches))" "qa_id ` set (concat batches) \<subseteq> set (store_index (dv_queue dv))"
    and "sync_batches now post batches dv = (handled, dv')"
  shows "device_inv dv' \<and> distinct (map sr_actionId handled) \<and> sr_actionId ` set handled \<subseteq> qa_id ` set (concat batches) \<and>
    queue_of dv' = filter (\<lambda>x. qa_id x \<notin> settled handled) (queue_of dv) \<and>
    conflicts_of dv' = conflicts_of dv @ map (conflict_of now) (filter (\<lambda>r. sr_status r = Sync_conflict) handled)"
  using assms
proof (induction batches arbitrary: dv handled)
  case (Cons batch batches)
  obtain ans w where post: "post batch (dv_world dv) = (ans, w)" by force
  let ?dv = "dv\<lparr>dv_world := w\<rparr>"
  have dv: "device_inv ?dv" "queue_of ?dv = queue_of dv" "conflicts_of ?dv = conflicts_of dv" "dv_queue ?dv = dv_queue dv"
    using Cons.prems(1) by (simp_all add: device_inv_def queue_of_def conflicts_of_def)
  show ?case
  proof (cases ans)
    case None
    then have run: "sync_batches now post batches ?dv = (handled, dv')" using Cons.prems(4) post by simp
    have "distinct (map qa_id (concat batches))" "qa_id ` set (concat batches) \<subseteq> set (store_index (dv_queue ?dv))"
      using Cons.prems(2,3) by (simp, auto)
    from Cons.IH[OF dv(1) this run] show ?thesis by (simp add: dv(2,3)) blast
  next
    case (Some results)
    let ?dv1 = "fold (handle_result now) results ?dv"
    obtain rest where rest: "sync_batches now post batches ?dv1 = (rest, dv')" "handled = results @ rest"
      using Cons.prems(4) post Some by (auto split: prod.splits)
    have ids: "map sr_actionId results = map qa_id batch" using post Some by (auto intro: answers_in_order)
    then have idset: "sr_actionId ` set results = qa_id ` set batch" by (metis list.set_map)
    note h = handle_results_spec[OF dv(1), of results now]
    have h: "device_inv ?dv1" "queue_of ?dv1 = filter (\<lambda>x. qa_id x \<notin> settled results) (queue_of dv)"
      "set (store_index (dv_queue ?dv1)) = set (store_index (dv_queue dv)) - settled results"
      "conflicts_of ?dv1 = conflicts_of dv @ map (conflict_of now) (filter (\<lambda>r. sr_status r = Sync_conflict) results)"
      using h ids idset Cons.prems(2,3) dv by auto
    have apart: "qa_id ` set batch \<inter> qa_id ` set (concat batches) = {}" using Cons.prems(2) by auto
    have "settled results \<subseteq> qa_id ` set batch" using settled_subset[of results] idset by simp
    then have sub: "qa_id ` set (concat batches) \<subseteq> set (store_index (dv_queue ?dv1))"
      unfolding h(3) using Cons.prems(3) apart by (simp add: image_Un) blast
    have IH: "device_inv dv' \<and> distinct (map sr_actionId rest) \<and> sr_actionId ` set rest \<subseteq> qa_id ` set (concat batches) \<and>
      queue_of dv' = filter (\<lambda>x. qa_id x \<notin> settled rest) (queue_of ?dv1) \<and>
      conflicts_of dv' = conflicts_of ?dv1 @ map (conflict_of now) (filter (\<lambda>r. sr_status r = Sync_conflict) rest)"
      by (rule Cons.IH[OF h(1) _ sub rest(1)]) (use Cons.prems(2) in simp)
    have "distinct (map sr_actionId results)" using ids Cons.prems(2) by simp
    moreover have "sr_actionId ` set results \<inter> sr_actionId ` set rest = {}" using IH apart idset by blast
    ultimately have "distinct (map sr_actionId handled)" using IH by (simp add: rest(2))
    moreover have "sr_actionId ` set handled \<subseteq> qa_id ` set (concat (batch # batches))"
    proof -
      have "sr_actionId ` set rest \<subseteq> qa_id ` set (concat batches)" using IH by blast
      then show ?thesis using idset by (simp add: rest(2) image_Un) blast
    qed
    ultimately show ?thesis using IH h(2,4) by (auto simp: rest(2) intro: filter_cong)
  qed
qed simp

lemma sync_conserves:
  assumes "device_inv dv" "syncPendingActions now post dv = (handled, dv')"
  shows "device_inv dv' \<and> distinct (map sr_actionId handled) \<and> sr_actionId ` set handled \<subseteq> qa_id ` set (queue_of dv) \<and>
    queue_of dv' = filter (\<lambda>x. qa_id x \<notin> settled handled) (queue_of dv) \<and>
    conflicts_of dv' = conflicts_of dv @ map (conflict_of now) (filter (\<lambda>r. sr_status r = Sync_conflict) handled)"
proof -
  obtain pending q where l: "store_list (dv_queue dv) = (pending, q)" by force
  let ?dv1 = "dv\<lparr>dv_queue := q\<rparr>"
  have inv: "store_inv qa_id (dv_queue dv)" using assms(1) by (simp add: device_inv_def)
  have lst: "pending = queue_of dv" "queue_of ?dv1 = queue_of dv" "conflicts_of ?dv1 = conflicts_of dv" "device_inv ?dv1"
    using secure.lst_law[OF inv] assms(1) l by (auto simp: queue_of_def conflicts_of_def device_inv_def)
  show ?thesis
  proof (cases "pending = []")
    case True
    then show ?thesis using assms(2) l lst by (auto simp: syncPendingActions_def listPendingActions_def)
  next
    case False
    let ?bs = "chunk (js_sort older pending) MAX_BATCH_SIZE"
    have flat: "concat ?bs = js_sort older pending" by (rule concat_chunk) (simp add: MAX_BATCH_SIZE_def)
    have run: "sync_batches now post ?bs ?dv1 = (handled, dv')"
      using assms(2) l False by (simp add: syncPendingActions_def listPendingActions_def)
    have inv1: "store_inv qa_id (dv_queue ?dv1)" using lst(4) by (simp add: device_inv_def)
    have p: "pending = store_abs (dv_queue ?dv1)" using lst by (simp add: queue_of_def)
    have d: "distinct (map qa_id pending) \<and> qa_id ` set pending \<subseteq> set (store_index (dv_queue ?dv1))"
      unfolding p by (rule store_abs_ids[OF inv1])
    have "mset (map qa_id (js_sort older pending)) = mset (map qa_id pending)" by simp
    then have "distinct (map qa_id (js_sort older pending))" using d by (metis mset_eq_imp_distinct_iff)
    with sync_batches_spec[OF lst(4) _ _ run, unfolded flat] d show ?thesis by (simp add: lst)
  qed
qed

end

section \<open>Syncing with the service\<close>

definition to_sync_action :: "string \<Rightarrow> queued_action \<Rightarrow> sync_action" where
  "to_sync_action employeeId action =
     \<lparr>sa_actionId = qa_id action, sa_employeeId = employeeId, sa_actionType = qa_actionType action,
      sa_payload = qa_payload action, sa_createdAtDevice = qa_createdAtDevice action\<rparr>"

definition mobile_ess_connection ::
  "'w sync_env \<Rightarrow> (string \<Rightarrow> string option option) \<Rightarrow> bool \<Rightarrow> string \<Rightarrow> string option \<Rightarrow> string \<Rightarrow> bool \<Rightarrow> 'w sync_state connection" where
  \<comment> \<open>\<open>apiPost\<close> to the endpoint; an answer can be lost after the service did its work\<close>
  "mobile_ess_connection env users seen tenantId sub employeeId lost batch st =
     (case sync_endpoint env users seen tenantId sub (map (to_sync_action employeeId) batch) st of
        (Inl _, st') \<Rightarrow> (None, st')
      | (Inr results, st') \<Rightarrow> (if lost then None else Some results, st'))"

interpretation mobile_ess: sync_server "mobile_ess_connection env users seen tenantId sub employeeId lost"
  for env users seen tenantId sub employeeId lost
proof unfold_locales
  fix batch w results w'
  assume "mobile_ess_connection env users seen tenantId sub employeeId lost batch w = (Some results, w')"
  then obtain st' where "syncBatch env seen tenantId (map (to_sync_action employeeId) batch) w = (Inr results, st')"
    by (auto simp: mobile_ess_connection_def sync_endpoint_def split: prod.splits sum.splits if_splits option.splits)
  from batch_answers_in_order[OF this] show "map sr_actionId results = map qa_id batch"
    by (simp add: to_sync_action_def comp_def)
qed

lemma connection_batch_bound:
  "set (chunk xs MAX_BATCH_SIZE) \<subseteq> {b. b \<noteq> [] \<and> length b \<le> 50}"
  using chunk_sizes[of _ xs MAX_BATCH_SIZE] by (auto simp: MAX_BATCH_SIZE_def)

definition sample_device :: "unit sync_state device" where
  "sample_device = queueMarketplaceClaim ''a'' 5 ''p''
     \<lparr>dv_queue = Map.empty, dv_conflicts = Map.empty, dv_lastQueued = None, dv_world = \<lparr>ss_rows = [], ss_world = ()\<rparr>\<rparr>"

lemma sample_device_inv: "device_inv sample_device"
proof -
  have q: "store_inv qa_id (Map.empty :: queued_action sstore)" "store_index (Map.empty :: queued_action sstore) = []"
    and c: "store_inv qc_id (Map.empty :: queued_conflict sstore)" "store_index (Map.empty :: queued_conflict sstore) = []"
    by (simp_all add: store_inv_def readMeta_def readItem_def store_index_def)
  show ?thesis
    using secure.add_law[OF q(1)] c q(2)
    by (simp add: sample_device_def queueMarketplaceClaim_def enqueueAction_def device_inv_def)
qed

text \<open>
  Property C7. Syncing the offline queue loses nothing. Whatever the service answers and whether or not
  its answers arrive, every pending action is afterwards still queued, or was answered \<open>synced\<close>, or was
  answered \<open>conflict\<close> and stands in the list of unresolved conflicts; the queue keeps its order, no action
  is answered twice, and the conflicts that were there stay.
\<close>

theorem offline_sync_loses_nothing:
  assumes "device_inv dv"
    and "syncPendingActions now (mobile_ess_connection env users seen tenantId sub employeeId lost) dv = (handled, dv')"
  shows "device_inv dv' \<and> distinct (map sr_actionId handled) \<and>
    (\<forall>x\<in>set (queue_of dv). x \<in> set (queue_of dv') \<or>
       (\<exists>r\<in>set handled. sr_actionId r = qa_id x \<and>
          (sr_status r = Synced \<or> sr_status r = Sync_conflict \<and> conflict_of now r \<in> set (conflicts_of dv')))) \<and>
    queue_of dv' = filter (\<lambda>x. qa_id x \<notin> settled handled) (queue_of dv) \<and>
    conflicts_of dv' = conflicts_of dv @ map (conflict_of now) (filter (\<lambda>r. sr_status r = Sync_conflict) handled)"
  using mobile_ess.sync_conserves[OF assms] by (auto simp: settled_def isTerminal_def)

theorem offline_sync_loses_nothing_witness:
  "\<exists>handled dv'. syncPendingActions 9 (mobile_ess_connection sample_granting (\<lambda>_. Some (Some ''e'')) False ''t'' (Some ''u'') ''e'' False) sample_device = (handled, dv') \<and>
     device_inv dv' \<and> conflicts_of dv' = map (conflict_of 9) (filter (\<lambda>r. sr_status r = Sync_conflict) handled)"
proof -
  let ?post = "mobile_ess_connection sample_granting (\<lambda>_. Some (Some ''e'')) False ''t'' (Some ''u'') ''e'' False"
  obtain handled dv' where run: "syncPendingActions 9 ?post sample_device = (handled, dv')" by force
  have none: "conflicts_of sample_device = []"
    by (simp add: conflicts_of_def sample_device_def queueMarketplaceClaim_def enqueueAction_def store_abs_def store_index_def readMeta_def List.map_filter_simps)
  from offline_sync_loses_nothing[OF sample_device_inv run] run none show ?thesis by auto
qed

section \<open>Overlapping syncs\<close>

text \<open>
  The app starts a sync on mount, on every connectivity event and on every return to the foreground, and
  nothing keeps two of them apart. When two of them received the same conflict, it is listed twice.
\<close>

lemma overlapping_syncs_list_conflict_twice:
  assumes "device_inv dv" "sr_actionId r \<in> set (store_index (dv_queue dv))" "sr_status r = Sync_conflict"
  shows "\<exists>as bs. conflicts_of (handle_result now2 r (handle_result now1 r dv)) = as @ conflict_of now2 r # bs @ [conflict_of now2 r]"
proof -
  let ?c1 = "dv_conflicts (handle_result now1 r dv)"
  have c1: "?c1 = store_add qc_id (conflict_of now1 r) (dv_conflicts dv)"
    using assms(3) by (simp add: handle_result_def removeAction_def addConflict_def)
  have inv: "store_inv qc_id (dv_conflicts dv)" "qc_id (conflict_of now1 r) \<notin> set (store_index (dv_conflicts dv))"
    using assms(1,2) by (auto simp: device_inv_def conflict_of_def)
  have "store_inv qc_id ?c1" "qc_id (conflict_of now2 r) \<in> set (store_index ?c1)"
    using secure.add_law[OF inv] by (simp_all add: c1 conflict_of_def)
  from add_again_lists_twice[OF this] show ?thesis
    using assms(3) by (simp add: handle_result_def[of now2] removeAction_def addConflict_def conflicts_of_def)
qed

end
