(* ===== verification/Utc_Date.thy ===== *)
theory Utc_Date
  imports Iso_Calendar
begin

text \<open>
  From an instant to its UTC calendar day. \<open>utcDateKey\<close> is \<open>date.toISOString().slice(0, 10)\<close>, the
  idiom the services use to bucket instants by day, \<open>getUTCDay\<close> its weekday, \<open>isoWeekStartKey\<close> the
  Monday of its ISO week and \<open>addUTCYears\<close> \<open>setUTCFullYear(getUTCFullYear() + n)\<close>, which turns a
  29 February of a year that has none into 1 March. The calendar date of a day number is computed by
  searching the year and then the month; \<open>dayno_date_of\<close> and \<open>date_of_dayno\<close> show that this inverts
  \<open>dayno\<close> on valid dates. Years outside 0 to 9999, whose string form is longer, do not occur.
\<close>

section \<open>Definitions\<close>

lemma days_before_year_less: "days_before_year y < days_before_year (y + 1)"
  using days_before_year_step[of y] by (simp split: if_splits)

function year_from :: "int \<Rightarrow> int \<Rightarrow> int" where
  "year_from n y = (if days_before_year (y + 1) < n then year_from n (y + 1) else y)"
  by pat_completeness auto
termination
proof (relation "measure (\<lambda>(n, y). nat (n - days_before_year y))")
  fix n y assume "days_before_year (y + 1) < n"
  then show "((n, y + 1), (n, y)) \<in> measure (\<lambda>(n, y). nat (n - days_before_year y))"
    using days_before_year_less[of y] by simp
qed simp

function month_from :: "int \<Rightarrow> int \<Rightarrow> int \<Rightarrow> int" where
  "month_from y r m = (if m < 12 \<and> days_before_month y (m + 1) < r then month_from y r (m + 1) else m)"
  by pat_completeness auto
termination
  by (relation "measure (\<lambda>(y, r, m). nat (12 - m))") auto

declare year_from.simps [simp del] month_from.simps [simp del]

definition date_of :: "int \<Rightarrow> iso_date" where
  \<comment> \<open>the date of a day number; 146097 days make 400 years\<close>
  "date_of n = (let y = year_from n (n * 400 div 146097); r = n - days_before_year y; m = month_from y r 1
     in (y, m, r - days_before_month y m))"

definition day_index :: "millis \<Rightarrow> int" where
  "day_index t = t div 86400000 + 719163"

definition utcDateKey :: "millis \<Rightarrow> iso_date" where
  "utcDateKey t = date_of (day_index t)"

definition getUTCDay :: "millis \<Rightarrow> int" where
  \<comment> \<open>0 is Sunday; 1970-01-01 was a Thursday\<close>
  "getUTCDay t = (t div 86400000 + 4) mod 7"

definition isoDayOfWeek :: "millis \<Rightarrow> int" where
  "isoDayOfWeek t = (if getUTCDay t = 0 then 7 else getUTCDay t)"

definition isoWeekStartKey :: "millis \<Rightarrow> iso_date" where
  "isoWeekStartKey t = date_of (day_index t - (isoDayOfWeek t - 1))"

definition addUTCYears :: "millis \<Rightarrow> int \<Rightarrow> millis" where
  "addUTCYears t k = (case utcDateKey t of (y, m, d) \<Rightarrow>
     (dayno (y + k, m, 1) + (d - 1) - 719163) * 86400000 + t mod 86400000)"

section \<open>The date of a day number\<close>

lemma year_from_correct:
  "days_before_year y < n \<Longrightarrow> days_before_year (year_from n y) < n \<and> n \<le> days_before_year (year_from n y + 1)"
proof (induction n y rule: year_from.induct)
  case (1 n y)
  then show ?case by (cases "days_before_year (y + 1) < n") (simp_all add: year_from.simps[of n y])
qed

lemma year_estimate: "days_before_year (n * 400 div 146097) < n"
proof -
  define a where "a = n * 400 div 146097 - 1"
  define p q r where pqr: "p = a div 4" "q = a div 100" "r = a div 400"
  have "146097 * a + 146097 \<le> n * 400" by (simp add: a_def)
  moreover have "4 * p \<le> a" "a < 100 * q + 100" "400 * r \<le> a" unfolding pqr by presburger+
  ultimately have "365 * a + p - q + r < n" by linarith
  then have "365 * a + a div 4 - a div 100 + a div 400 < n" by (simp only: pqr)
  then show ?thesis by (simp add: days_before_year_def a_def algebra_simps)
qed

lemma month_from_correct:
  assumes "1 \<le> m" "m \<le> 12" "days_before_month y m < r"
  shows "m \<le> month_from y r m \<and> month_from y r m \<le> 12 \<and> days_before_month y (month_from y r m) < r
    \<and> (month_from y r m < 12 \<longrightarrow> r \<le> days_before_month y (month_from y r m + 1))"
  using assms
proof (induction y r m rule: month_from.induct)
  case (1 y r m)
  show ?case
  proof (cases "m < 12 \<and> days_before_month y (m + 1) < r")
    case True
    then have "m + 1 \<le> month_from y r (m + 1) \<and> month_from y r (m + 1) \<le> 12
        \<and> days_before_month y (month_from y r (m + 1)) < r
        \<and> (month_from y r (m + 1) < 12 \<longrightarrow> r \<le> days_before_month y (month_from y r (m + 1) + 1))"
      using 1 by auto
    with True show ?thesis by (simp add: month_from.simps[of y r m])
  next
    case False
    then have "month_from y r m = m" by (subst month_from.simps) auto
    with False "1.prems" show ?thesis by auto
  qed
qed

lemma date_of_correct: "valid_date (date_of n) \<and> dayno (date_of n) = n"
proof -
  define y where "y = year_from n (n * 400 div 146097)"
  define r where "r = n - days_before_year y"
  define m where "m = month_from y r 1"
  have y: "days_before_year y < n" "n \<le> days_before_year (y + 1)"
    using year_from_correct[OF year_estimate] by (simp_all add: y_def)
  then have r: "0 < r" "r \<le> (if leap y then 366 else 365)"
    using days_before_year_step[of y] by (simp_all add: r_def)
  have m: "1 \<le> m" "m \<le> 12" "days_before_month y m < r" "m < 12 \<longrightarrow> r \<le> days_before_month y (m + 1)"
    using month_from_correct[of 1 y r] r by (simp_all add: m_def days_before_month_1)
  have "r - days_before_month y m \<le> month_days y m"
    using m r days_before_month_step[of m y] days_before_month_12[of y] by (cases "m = 12") auto
  moreover have "date_of n = (y, m, r - days_before_month y m)"
    unfolding date_of_def Let_def y_def[symmetric] r_def[symmetric] m_def[symmetric] ..
  ultimately show ?thesis using m by (simp add: valid_date_def dayno_def r_def)
qed

lemma valid_date_of [simp]: "valid_date (date_of n)"
  using date_of_correct by blast

lemma dayno_date_of [simp]: "dayno (date_of n) = n"
  using date_of_correct by blast

lemma dayno_inj: "valid_date a \<Longrightarrow> valid_date b \<Longrightarrow> dayno a = dayno b \<longleftrightarrow> a = b"
  using dayno_strict_mono[of a b] dayno_strict_mono[of b a] by (metis less_irrefl linorder_neqE)

lemma date_of_dayno: "valid_date a \<Longrightarrow> date_of (dayno a) = a"
  using dayno_inj[of "date_of (dayno a)" a] by simp

lemma date_of_eq_iff [simp]: "date_of a = date_of b \<longleftrightarrow> a = b"
  by (metis dayno_date_of)

lemma date_of_less_iff [simp]: "date_of a < date_of b \<longleftrightarrow> a < b"
  using dayno_less_iff[of "date_of a" "date_of b"] by simp

lemma date_of_le_iff [simp]: "date_of a \<le> date_of b \<longleftrightarrow> a \<le> b"
  by (metis date_of_less_iff not_less)

lemma next_day_date_of: "next_day (date_of n) = date_of (n + 1)"
  using dayno_inj[of "next_day (date_of n)" "date_of (n + 1)"] by (simp add: dayno_next_day valid_next_day)

lemma utcDateKey_valid [simp]: "valid_date (utcDateKey t)"
  by (simp add: utcDateKey_def)

text \<open>The day of an instant starts at or before it and ends after it.\<close>

lemma utcDateKey_span: "date_utc (utcDateKey t) \<le> t \<and> t < date_utc (next_day (utcDateKey t))"
proof -
  have "t div 86400000 * 86400000 \<le> t" "t < t div 86400000 * 86400000 + 86400000" by presburger+
  then show ?thesis by (simp add: utcDateKey_def next_day_date_of date_utc_def day_index_def algebra_simps)
qed

lemma day_index_mono: "s \<le> t \<Longrightarrow> day_index s \<le> day_index t"
  by (simp add: day_index_def zdiv_mono1)

lemma utcDateKey_mono: "s \<le> t \<Longrightarrow> utcDateKey s \<le> utcDateKey t"
  by (simp add: utcDateKey_def day_index_mono)

lemma utcDateKey_date_utc: "valid_date a \<Longrightarrow> utcDateKey (date_utc a) = a"
  by (simp add: utcDateKey_def day_index_def date_utc_def date_of_dayno)

section \<open>Weeks and years\<close>

lemma isoDayOfWeek_range: "1 \<le> isoDayOfWeek t \<and> isoDayOfWeek t \<le> 7"
  unfolding isoDayOfWeek_def getUTCDay_def using pos_mod_bound[of 7] pos_mod_sign[of 7]
  by (auto simp: order_le_less)

lemma isoDayOfWeek_mod: "isoDayOfWeek t = (day_index t - 1) mod 7 + 1"
proof -
  define q where "q = t div 86400000"
  define x where "x = (q + 3) mod 7"
  have "(q + 4) mod 7 = (x + 1) mod 7" unfolding x_def mod_add_left_eq by (simp add: ac_simps)
  moreover have "0 \<le> x" "x < 7" by (simp_all add: x_def)
  ultimately have "(if (q + 4) mod 7 = 0 then 7 else (q + 4) mod 7) = (q + 3) mod 7 + 1"
    by (cases "x = 6") (auto simp: x_def)
  also have "(q + 3) mod 7 = (q + 3 + 102737 * 7) mod 7" by (rule mod_mult_self1[symmetric])
  finally have "(if (q + 4) mod 7 = 0 then 7 else (q + 4) mod 7) = (q + 719163 - 1) mod 7 + 1" by simp
  then show ?thesis unfolding isoDayOfWeek_def getUTCDay_def day_index_def q_def .
qed

text \<open>Two instants share an ISO week exactly when their days have the same number of Mondays before them.\<close>

lemma isoWeekStartKey_eq_iff: "isoWeekStartKey s = isoWeekStartKey t \<longleftrightarrow> (day_index s - 1) div 7 = (day_index t - 1) div 7"
proof -
  have "day_index u - (isoDayOfWeek u - 1) = (day_index u - 1) div 7 * 7 + 1" for u
    unfolding isoDayOfWeek_mod using div_mult_mod_eq[of "day_index u - 1" 7] by linarith
  then show ?thesis by (simp add: isoWeekStartKey_def)
qed

lemma dayno_month_start_mono: "1 \<le> m \<Longrightarrow> m \<le> 12 \<Longrightarrow> y \<le> y' \<Longrightarrow> dayno (y, m, 1) \<le> dayno (y', m, 1)"
  using month_days_pos[of y m] month_days_pos[of y' m]
  by (intro dayno_mono) (auto simp: valid_date_def less_eq_prod_def)

lemma addUTCYears_later:
  assumes "0 \<le> k"
  shows "t \<le> addUTCYears t k"
proof -
  obtain y m d where k: "utcDateKey t = (y, m, d)" by (metis prod_cases3)
  have "valid_date (y, m, d)" using utcDateKey_valid[of t] k by simp
  then have m: "1 \<le> m" "m \<le> 12" by (simp_all add: valid_date_def)
  have "dayno (y, m, d) = day_index t" unfolding k[symmetric] by (simp add: utcDateKey_def)
  moreover have "dayno (y, m, 1) + (d - 1) = dayno (y, m, d)" by (simp add: dayno_def)
  moreover have "dayno (y, m, 1) \<le> dayno (y + k, m, 1)" using assms m by (intro dayno_month_start_mono) simp_all
  ultimately have "day_index t \<le> dayno (y + k, m, 1) + (d - 1)" by simp
  then have "(day_index t - 719163) * 86400000 + t mod 86400000 \<le> addUTCYears t k"
    by (simp add: addUTCYears_def k)
  then show ?thesis by (simp add: day_index_def)
qed

end
