(* ===== verification/Schedule_Compliance.thy ===== *)
theory Schedule_Compliance
  imports Utc_Date
begin

text \<open>
  The arithmetic of the labour rules (\<open>evaluate-schedule-compliance.ts\<close>) and the comparison of a policy
  with the legal floor (\<open>validate-policy-against-floor.ts\<close>) of the adherence and compliance service.

  A rule's \<open>definition\<close> is free-form jsonb that the code reads only through \<open>Number(v)\<close>, so a field is
  null, a value that converts to a number, or one that converts to \<open>NaN\<close>; numbers are exact reals,
  the rounding of binary64 is not modelled. A violation message is a constructor per template with the
  values the template interpolates. The theorems compare the code's single passes with declarative
  readings of the rules: rest between every two shifts instead of neighbours after a sort, windows of
  days instead of a running counter, totals per day instead of accumulated maps.
\<close>

section \<open>Rule definitions\<close>

datatype ComplianceRuleType =
    OVERTIME_THRESHOLD | REST_PERIOD_MINIMUM | MAX_CONSECUTIVE_DAYS | BREAK_REQUIREMENT | UNION_RULE

datatype json_field = FNull | FNumber real | FNaN

type_synonym rule_definition = "string \<rightharpoonup> json_field"

definition numberField :: "rule_definition \<Rightarrow> string \<Rightarrow> real option" where
  "numberField d field = (case d field of
      None \<Rightarrow> None
    | Some FNull \<Rightarrow> None
    | Some FNaN \<Rightarrow> None
    | Some (FNumber r) \<Rightarrow> Some r)"

lemma numberField_Some_iff: "numberField d f = Some r \<longleftrightarrow> d f = Some (FNumber r)"
  by (simp add: numberField_def split: option.splits json_field.splits)

section \<open>Violations of a rule\<close>

record SimulatedShift =
  sim_employeeId :: uuid
  sim_start :: millis
  sim_end :: millis

datatype schedule_violation =
    WorkedOnDay iso_date real real
  | WorkedInWeek iso_date real real
  | OnlyRest real millis millis real
  | ConsecutiveDays nat iso_date iso_date real
  | BelowMinimum millis real real
  | AboveMaximum millis real real

definition durationHours :: "SimulatedShift \<Rightarrow> real" where
  "durationHours s = real_of_int (sim_end s - sim_start s) / (60 * 60 * 1000)"

fun map_bump :: "('k \<times> real) list \<Rightarrow> 'k \<Rightarrow> real \<Rightarrow> ('k \<times> real) list" where
  \<comment> \<open>\<open>map.set(key, (map.get(key) ?? 0) + hours)\<close> on a \<open>Map\<close> in insertion order\<close>
  "map_bump [] k h = [(k, 0 + h)]"
| "map_bump ((k', v) # m) k h = (if k' = k then (k', v + h) # m else (k', v) # map_bump m k h)"

definition accumulateHours ::
  "SimulatedShift list \<Rightarrow> (iso_date \<times> real) list \<times> (iso_date \<times> real) list" where
  "accumulateHours shifts = foldl (\<lambda>(hoursByDay, hoursByWeek) shift.
     (map_bump hoursByDay (utcDateKey (sim_start shift)) (durationHours shift),
      map_bump hoursByWeek (isoWeekStartKey (sim_start shift)) (durationHours shift))) ([], []) shifts"

definition by_key :: "(iso_date \<times> real) \<Rightarrow> (iso_date \<times> real) \<Rightarrow> bool" where
  \<comment> \<open>the keys of a \<open>Map\<close> differ, so sorting its entries as strings sorts them by key\<close>
  "by_key a b \<longleftrightarrow> fst a \<le> fst b"

definition overThreshold ::
  "(iso_date \<Rightarrow> real \<Rightarrow> real \<Rightarrow> schedule_violation) \<Rightarrow> real option \<Rightarrow> (iso_date \<times> real) list \<Rightarrow> schedule_violation list" where
  "overThreshold message threshold totals = (case threshold of
      None \<Rightarrow> []
    | Some t \<Rightarrow> map (\<lambda>(key, hours). message key hours t) (filter (\<lambda>(key, hours). t < hours) (js_sort by_key totals)))"

definition checkOvertimeThreshold :: "SimulatedShift list \<Rightarrow> rule_definition \<Rightarrow> schedule_violation list" where
  "checkOvertimeThreshold shifts d =
     (let dailyThresholdHours = numberField d ''dailyThresholdHours'';
          weeklyThresholdHours = numberField d ''weeklyThresholdHours''
      in if dailyThresholdHours = None \<and> weeklyThresholdHours = None then []
      else (case accumulateHours shifts of (hoursByDay, hoursByWeek) \<Rightarrow>
        overThreshold WorkedOnDay dailyThresholdHours hoursByDay
        @ overThreshold WorkedInWeek weeklyThresholdHours hoursByWeek))"

definition by_start :: "SimulatedShift \<Rightarrow> SimulatedShift \<Rightarrow> bool" where
  "by_start a b \<longleftrightarrow> sim_start a \<le> sim_start b"

fun checkGaps :: "real \<Rightarrow> SimulatedShift list \<Rightarrow> schedule_violation list" where
  "checkGaps minRest (a # b # rest) =
     (let gapMs = real_of_int (sim_start b - sim_end a) in
      (if gapMs < minRest * 60 * 60 * 1000
       then [OnlyRest (gapMs / (60 * 60 * 1000)) (sim_end a) (sim_start b) minRest] else [])
      @ checkGaps minRest (b # rest))"
| "checkGaps minRest _ = []"

definition checkRestPeriodMinimum :: "SimulatedShift list \<Rightarrow> rule_definition \<Rightarrow> schedule_violation list" where
  "checkRestPeriodMinimum shifts d = (case numberField d ''minRestHoursBetweenShifts'' of
      None \<Rightarrow> []
    | Some minRest \<Rightarrow> checkGaps minRest (js_sort by_start shifts))"

definition isNextCalendarDay :: "iso_date \<Rightarrow> iso_date \<Rightarrow> bool" where
  "isNextCalendarDay dateKey candidateKey \<longleftrightarrow> next_day dateKey = candidateKey"

record run_state =
  runStart :: "iso_date option"
  runLength :: nat
  run_previous :: "iso_date option"
  run_violations :: "schedule_violation list"

definition closeRun :: "real \<Rightarrow> iso_date \<Rightarrow> run_state \<Rightarrow> run_state" where
  "closeRun cap lastDateInRun st = (case runStart st of
      None \<Rightarrow> st
    | Some start \<Rightarrow> if cap < real (runLength st)
        then st\<lparr>run_violations := run_violations st @ [ConsecutiveDays (runLength st) start lastDateInRun cap]\<rparr>
        else st)"

definition extendRun :: "real \<Rightarrow> run_state \<Rightarrow> iso_date \<Rightarrow> run_state" where
  "extendRun cap st dateKey = (case run_previous st of
      None \<Rightarrow> st\<lparr>runStart := Some dateKey, runLength := 1, run_previous := Some dateKey\<rparr>
    | Some previous \<Rightarrow>
        if isNextCalendarDay previous dateKey
        then st\<lparr>runLength := runLength st + 1, run_previous := Some dateKey\<rparr>
        else (closeRun cap previous st)\<lparr>runStart := Some dateKey, runLength := 1, run_previous := Some dateKey\<rparr>)"

definition scanRuns :: "real \<Rightarrow> iso_date list \<Rightarrow> run_state \<Rightarrow> schedule_violation list" where
  "scanRuns cap dates st = (let st' = foldl (extendRun cap) st dates in
     (case run_previous st' of None \<Rightarrow> run_violations st' | Some previous \<Rightarrow> run_violations (closeRun cap previous st')))"

definition workedDates :: "SimulatedShift list \<Rightarrow> iso_date list" where
  "workedDates shifts = js_sort (\<le>) (js_set (map (\<lambda>s. utcDateKey (sim_start s)) shifts))"

definition checkMaxConsecutiveDays :: "SimulatedShift list \<Rightarrow> rule_definition \<Rightarrow> schedule_violation list" where
  "checkMaxConsecutiveDays shifts d = (case numberField d ''maxConsecutiveWorkingDays'' of
      None \<Rightarrow> []
    | Some cap \<Rightarrow> scanRuns cap (workedDates shifts)
        \<lparr>runStart = None, runLength = 0, run_previous = None, run_violations = []\<rparr>)"

definition checkUnionRule :: "SimulatedShift list \<Rightarrow> rule_definition \<Rightarrow> schedule_violation list" where
  "checkUnionRule shifts d =
     (let minShiftLengthMinutes = numberField d ''minShiftLengthMinutes'';
          maxShiftLengthMinutes = numberField d ''maxShiftLengthMinutes''
      in if minShiftLengthMinutes = None \<and> maxShiftLengthMinutes = None then []
      else concat (map (\<lambda>shift. let lengthMinutes = durationHours shift * 60 in
        (case minShiftLengthMinutes of None \<Rightarrow> [] | Some lo \<Rightarrow>
           if lengthMinutes < lo then [BelowMinimum (sim_start shift) lengthMinutes lo] else [])
        @ (case maxShiftLengthMinutes of None \<Rightarrow> [] | Some hi \<Rightarrow>
           if hi < lengthMinutes then [AboveMaximum (sim_start shift) lengthMinutes hi] else [])) shifts))"

definition findViolations :: "ComplianceRuleType \<Rightarrow> rule_definition \<Rightarrow> SimulatedShift list \<Rightarrow> schedule_violation list" where
  "findViolations ruleType d shifts = (case ruleType of
      OVERTIME_THRESHOLD \<Rightarrow> checkOvertimeThreshold shifts d
    | REST_PERIOD_MINIMUM \<Rightarrow> checkRestPeriodMinimum shifts d
    | MAX_CONSECUTIVE_DAYS \<Rightarrow> checkMaxConsecutiveDays shifts d
    | UNION_RULE \<Rightarrow> checkUnionRule shifts d
    | BREAK_REQUIREMENT \<Rightarrow> [])"

definition isCompliant :: "ComplianceRuleType \<Rightarrow> rule_definition \<Rightarrow> SimulatedShift list \<Rightarrow> bool" where
  "isCompliant ruleType d shifts \<longleftrightarrow> length (findViolations ruleType d shifts) = 0"

section \<open>The floor comparison\<close>

datatype FieldDirection = lower_is_stricter | higher_is_stricter

fun FIELD_DIRECTIONS :: "ComplianceRuleType \<Rightarrow> (string \<times> FieldDirection) list" where
  "FIELD_DIRECTIONS OVERTIME_THRESHOLD =
     [(''dailyThresholdHours'', lower_is_stricter), (''weeklyThresholdHours'', lower_is_stricter),
      (''multiplier'', higher_is_stricter)]"
| "FIELD_DIRECTIONS REST_PERIOD_MINIMUM = [(''minRestHoursBetweenShifts'', higher_is_stricter)]"
| "FIELD_DIRECTIONS MAX_CONSECUTIVE_DAYS = [(''maxConsecutiveWorkingDays'', lower_is_stricter)]"
| "FIELD_DIRECTIONS UNION_RULE =
     [(''minShiftLengthMinutes'', higher_is_stricter), (''maxShiftLengthMinutes'', lower_is_stricter),
      (''mandatoryBreakAfterHours'', lower_is_stricter), (''mandatoryBreakMinutes'', higher_is_stricter)]"
| "FIELD_DIRECTIONS BREAK_REQUIREMENT = []"

datatype floor_violation = MissingField string | NotANumber string | LessProtective string real real

record FloorValidationResult =
  floor_valid :: bool
  floor_violations :: "floor_violation list"

definition checkFloorField ::
  "rule_definition \<Rightarrow> rule_definition \<Rightarrow> string \<times> FieldDirection \<Rightarrow> floor_violation list" where
  "checkFloorField pol flo fd = (case fd of (field, direction) \<Rightarrow>
     (case flo field of
        Some (FNumber floorValue) \<Rightarrow>
          (case pol field of
             Some (FNumber policyValue) \<Rightarrow>
               if (case direction of lower_is_stricter \<Rightarrow> policyValue \<le> floorValue
                                   | higher_is_stricter \<Rightarrow> floorValue \<le> policyValue)
               then [] else [LessProtective field policyValue floorValue]
           | Some FNaN \<Rightarrow> [NotANumber field]
           | _ \<Rightarrow> [MissingField field])
      | _ \<Rightarrow> []))"

definition validatePolicyAgainstFloor ::
  "ComplianceRuleType \<Rightarrow> rule_definition \<Rightarrow> rule_definition \<Rightarrow> FloorValidationResult" where
  "validatePolicyAgainstFloor ruleType policyDefinition floorDefinition =
     (let violations = concat (map (checkFloorField policyDefinition floorDefinition) (FIELD_DIRECTIONS ruleType))
      in \<lparr>floor_valid = (length violations = 0), floor_violations = violations\<rparr>)"

section \<open>Totals per day and per week\<close>

definition hours_where :: "(SimulatedShift \<Rightarrow> bool) \<Rightarrow> SimulatedShift list \<Rightarrow> real" where
  "hours_where P shifts = sum_list (map durationHours (filter P shifts))"

definition hoursBy :: "(SimulatedShift \<Rightarrow> 'k) \<Rightarrow> SimulatedShift list \<Rightarrow> ('k \<times> real) list" where
  "hoursBy key shifts = foldl (\<lambda>m s. map_bump m (key s) (durationHours s)) [] shifts"

lemma accumulateHours_eq:
  "accumulateHours shifts = (hoursBy (\<lambda>s. utcDateKey (sim_start s)) shifts, hoursBy (\<lambda>s. isoWeekStartKey (sim_start s)) shifts)"
proof -
  have "foldl (\<lambda>(d, w) s. (map_bump d (f s) (h s), map_bump w (g s) (h s))) (a, b) xs
     = (foldl (\<lambda>m s. map_bump m (f s) (h s)) a xs, foldl (\<lambda>m s. map_bump m (g s) (h s)) b xs)"
    for f :: "SimulatedShift \<Rightarrow> iso_date" and g :: "SimulatedShift \<Rightarrow> iso_date" and h a b xs
    by (induction xs arbitrary: a b) auto
  then show ?thesis by (simp add: accumulateHours_def hoursBy_def)
qed

lemma map_of_map_bump: "map_of (map_bump m k h) = (map_of m)(k \<mapsto> (case map_of m k of None \<Rightarrow> 0 | Some v \<Rightarrow> v) + h)"
  by (induction m k h rule: map_bump.induct) auto

lemma keys_map_bump: "fst ` set (map_bump m k h) = insert k (fst ` set m)"
  by (induction m k h rule: map_bump.induct) auto

lemma distinct_map_bump: "distinct (map fst m) \<Longrightarrow> distinct (map fst (map_bump m k h))"
  by (induction m k h rule: map_bump.induct) (auto simp: keys_map_bump)

lemma hoursBy_gen:
  "distinct (map fst m) \<Longrightarrow> distinct (map fst (foldl (\<lambda>m s. map_bump m (key s) (durationHours s)) m shifts)) \<and>
   map_of (foldl (\<lambda>m s. map_bump m (key s) (durationHours s)) m shifts) k =
     (if k \<in> key ` set shifts \<or> map_of m k \<noteq> None
      then Some ((case map_of m k of None \<Rightarrow> 0 | Some v \<Rightarrow> v) + hours_where (\<lambda>s. key s = k) shifts) else None)"
proof (induction shifts arbitrary: m)
  case (Cons s shifts)
  show ?case
    using Cons.IH[of "map_bump m (key s) (durationHours s)"] distinct_map_bump[OF Cons.prems]
    by (auto simp: map_of_map_bump hours_where_def split: option.splits)
qed (auto simp: hours_where_def split: option.splits)

lemma distinct_hoursBy: "distinct (map fst (hoursBy key shifts))"
  using hoursBy_gen[of "[]" key shifts undefined] by (simp add: hoursBy_def)

lemma set_hoursBy: "(k, h) \<in> set (hoursBy key shifts) \<longleftrightarrow> k \<in> key ` set shifts \<and> h = hours_where (\<lambda>s. key s = k) shifts"
  using hoursBy_gen[of "[]" key shifts k] map_of_eq_Some_iff[OF distinct_hoursBy, of key shifts k h]
  by (auto simp: hoursBy_def split: if_splits)

interpretation day_keys: js_comparator by_key
  by unfold_locales (auto simp: by_key_def)

interpretation day_order: js_comparator "(\<le>) :: iso_date \<Rightarrow> iso_date \<Rightarrow> bool"
  by unfold_locales auto

interpretation shift_order: js_comparator by_start
  by unfold_locales (auto simp: by_start_def)

lemma ball_hoursBy:
  "(\<forall>p\<in>set (hoursBy key shifts). P (fst p) (snd p)) \<longleftrightarrow>
   (\<forall>s\<in>set shifts. P (key s) (hours_where (\<lambda>s'. key s' = key s) shifts))"
proof -
  have "(\<forall>p\<in>set (hoursBy key shifts). P (fst p) (snd p)) \<longleftrightarrow> (\<forall>k h. (k, h) \<in> set (hoursBy key shifts) \<longrightarrow> P k h)"
    by (metis fst_conv prod.collapse snd_conv)
  then show ?thesis by (auto simp: set_hoursBy)
qed

lemma overThreshold_empty:
  "overThreshold message threshold (hoursBy key shifts) = [] \<longleftrightarrow>
   (\<forall>t. threshold = Some t \<longrightarrow> (\<forall>s\<in>set shifts. hours_where (\<lambda>s'. key s' = key s) shifts \<le> t))"
  using ball_hoursBy[of key shifts "\<lambda>k h. h \<le> the threshold"]
  by (cases threshold) (simp_all add: overThreshold_def filter_empty_conv case_prod_beta not_less)

lemma overtime_compliant_iff:
  "isCompliant OVERTIME_THRESHOLD d shifts \<longleftrightarrow>
   (\<forall>t. numberField d ''dailyThresholdHours'' = Some t \<longrightarrow>
      (\<forall>s\<in>set shifts. hours_where (\<lambda>s'. utcDateKey (sim_start s') = utcDateKey (sim_start s)) shifts \<le> t)) \<and>
   (\<forall>t. numberField d ''weeklyThresholdHours'' = Some t \<longrightarrow>
      (\<forall>s\<in>set shifts. hours_where (\<lambda>s'. isoWeekStartKey (sim_start s') = isoWeekStartKey (sim_start s)) shifts \<le> t))"
  unfolding isCompliant_def findViolations_def checkOvertimeThreshold_def accumulateHours_eq
  by (auto simp: Let_def overThreshold_empty)

lemma sorted_keys_strict: "sorted_wrt (<) (map fst (js_sort by_key (hoursBy key shifts)))"
proof -
  let ?l = "js_sort by_key (hoursBy key shifts)"
  have "sorted (map fst ?l)"
    using day_keys.js_sort_sorted[of "hoursBy key shifts"] by (simp add: sorted_map by_key_def[abs_def])
  moreover have "distinct (map fst ?l)"
  proof -
    have "mset (map fst ?l) = mset (map fst (hoursBy key shifts))" by simp
    then show ?thesis using distinct_hoursBy[of key shifts] mset_eq_imp_distinct_iff by blast
  qed
  ultimately show ?thesis by (simp add: strict_sorted_iff)
qed


text \<open>The days a threshold report lists are the days whose total is over it, in calendar order.\<close>

lemma overThreshold_report:
  "overThreshold message (Some t) (hoursBy key shifts) =
   map (\<lambda>k. message k (hours_where (\<lambda>s. key s = k) shifts) t)
     (sorted_list_of_set {k \<in> key ` set shifts. t < hours_where (\<lambda>s. key s = k) shifts})"
proof -
  define l where "l = filter (\<lambda>p. t < snd p) (js_sort by_key (hoursBy key shifts))"
  have "sorted_wrt (<) (map fst l)"
    using sorted_keys_strict[of key shifts] by (auto simp: l_def sorted_wrt_map intro: sorted_wrt_filter)
  moreover have "set (map fst l) = {k \<in> key ` set shifts. t < hours_where (\<lambda>s. key s = k) shifts}"
  proof -
    have "set l = {p \<in> set (hoursBy key shifts). t < snd p}" by (auto simp: l_def)
    then have "x \<in> set (map fst l) \<longleftrightarrow> (\<exists>h. (x, h) \<in> set (hoursBy key shifts) \<and> t < h)" for x by force
    then show ?thesis by (auto simp: set_hoursBy set_eq_iff)
  qed
  ultimately have "map fst l = sorted_list_of_set {k \<in> key ` set shifts. t < hours_where (\<lambda>s. key s = k) shifts}"
    by (metis sorted_list_of_set.idem_if_sorted_distinct strict_sorted_iff)
  moreover have "snd p = hours_where (\<lambda>s. key s = fst p) shifts" if "p \<in> set l" for p
    using that set_hoursBy[of "fst p" "snd p" key shifts] by (simp add: l_def)
  then have "map (\<lambda>p. message (fst p) (snd p) t) l = map (\<lambda>k. message k (hours_where (\<lambda>s. key s = k) shifts) t) (map fst l)"
    by simp
  ultimately show ?thesis by (simp add: overThreshold_def l_def case_prod_beta')
qed

section \<open>Rest between shifts\<close>

definition rested :: "real \<Rightarrow> SimulatedShift \<Rightarrow> SimulatedShift \<Rightarrow> bool" where
  \<comment> \<open>one of the two shifts ends at least the minimum rest before the other starts\<close>
  "rested m a b \<longleftrightarrow> real_of_int (sim_end a) + m * 3600000 \<le> real_of_int (sim_start b)
     \<or> real_of_int (sim_end b) + m * 3600000 \<le> real_of_int (sim_start a)"

lemma rested_sym: "rested m a b \<longleftrightarrow> rested m b a"
  by (auto simp: rested_def)

lemma sorted_wrt_permute:
  assumes "\<And>x y. P x y \<longleftrightarrow> P y x" "mset xs = mset ys" "sorted_wrt P xs"
  shows "sorted_wrt P ys"
  using assms(2,3)
proof (induction ys arbitrary: xs)
  case (Cons y ys)
  then have "y \<in> set xs" by (metis list.set_intros(1) mset_eq_setD)
  then obtain us vs where xs: "xs = us @ y # vs" by (meson split_list)
  with Cons.prems(1) have m: "mset (us @ vs) = mset ys" by simp
  moreover have "sorted_wrt P (us @ vs)" using Cons.prems(2) by (simp add: xs sorted_wrt_append)
  ultimately have "sorted_wrt P ys" by (rule Cons.IH)
  moreover have "P y z" if "z \<in> set (us @ vs)" for z
    using that Cons.prems(2) assms(1)[of y z] by (auto simp: xs sorted_wrt_append)
  then have "\<forall>z\<in>set ys. P y z" using mset_eq_setD[OF m] by auto
  ultimately show ?case by simp
qed simp

lemma checkGaps_empty:
  assumes "0 \<le> m" "\<forall>s\<in>set xs. sim_start s < sim_end s" "sorted_wrt by_start xs"
  shows "checkGaps m xs = [] \<longleftrightarrow> sorted_wrt (rested m) xs"
  using assms
proof (induction m xs rule: checkGaps.induct)
  case (1 m a b rest)
  have IH: "checkGaps m (b # rest) = [] \<longleftrightarrow> sorted_wrt (rested m) (b # rest)" using 1 by simp
  have ab: "sim_start a \<le> sim_start b" "sim_start a < sim_end a" "sim_start b < sim_end b"
    using "1.prems" by (simp_all add: by_start_def)
  have m: "0 \<le> m * 3600000" using "1.prems" by simp
  show ?case
  proof (cases "real_of_int (sim_start b - sim_end a) < m * 3600000")
    case True
    then have "\<not> rested m a b" using ab m by (auto simp: rested_def)
    with True show ?thesis by (simp add: Let_def)
  next
    case False
    have "rested m a z" if "z \<in> set (b # rest)" for z
    proof -
      have "sim_start b \<le> sim_start z" using that "1.prems"(3) by (auto simp: by_start_def)
      with False show ?thesis by (auto simp: rested_def)
    qed
    with False IH show ?thesis by (simp add: Let_def)
  qed
qed simp_all

lemma rest_compliant_iff:
  assumes "numberField d ''minRestHoursBetweenShifts'' = Some m" "0 \<le> m"
    and "\<forall>s\<in>set shifts. sim_start s < sim_end s"
  shows "isCompliant REST_PERIOD_MINIMUM d shifts \<longleftrightarrow> sorted_wrt (rested m) shifts"
proof -
  let ?l = "js_sort by_start shifts"
  have "isCompliant REST_PERIOD_MINIMUM d shifts \<longleftrightarrow> sorted_wrt (rested m) ?l"
    using checkGaps_empty[of m ?l] shift_order.js_sort_sorted[of shifts] assms
    by (simp add: isCompliant_def findViolations_def checkRestPeriodMinimum_def)
  also have "\<dots> \<longleftrightarrow> sorted_wrt (rested m) shifts"
    using sorted_wrt_permute[OF rested_sym, of ?l shifts m] sorted_wrt_permute[OF rested_sym, of shifts ?l m] by auto
  finally show ?thesis .
qed

section \<open>Runs of worked days\<close>

definition has_run :: "real \<Rightarrow> int set \<Rightarrow> bool" where
  \<comment> \<open>more than \<open>cap\<close> consecutive days of \<open>W\<close>\<close>
  "has_run cap W \<longleftrightarrow> (\<exists>n l. 0 < l \<and> cap < real l \<and> {n..<n + int l} \<subseteq> W)"

lemma has_run_mono: "V \<subseteq> W \<Longrightarrow> c \<le> cap \<Longrightarrow> has_run cap V \<Longrightarrow> has_run c W"
  unfolding has_run_def by (meson le_less_trans order_trans)

lemma has_run_interval:
  assumes "0 < len"
  shows "has_run cap {p - int len + 1..p} \<longleftrightarrow> cap < real len"
proof
  assume "has_run cap {p - int len + 1..p}"
  then obtain n l where l: "0 < l" "cap < real l" "{n..<n + int l} \<subseteq> {p - int len + 1..p}"
    by (auto simp: has_run_def)
  from card_mono[OF _ l(3)] have "l \<le> len" by simp
  with l show "cap < real len" by simp
next
  assume "cap < real len"
  moreover have "{p - int len + 1..<p - int len + 1 + int len} \<subseteq> {p - int len + 1..p}" by auto
  ultimately show "has_run cap {p - int len + 1..p}" using assms unfolding has_run_def by blast
qed

lemma has_run_split:
  assumes "\<forall>a\<in>A. a < g" "\<forall>b\<in>B. g < b"
  shows "has_run cap (A \<union> B) \<longleftrightarrow> has_run cap A \<or> has_run cap B"
proof
  assume "has_run cap (A \<union> B)"
  then obtain n l where l: "0 < l" "cap < real l" "{n..<n + int l} \<subseteq> A \<union> B" by (auto simp: has_run_def)
  show "has_run cap A \<or> has_run cap B"
  proof (cases "g < n")
    case True
    then have "{n..<n + int l} \<subseteq> B" using l(3) assms(1) by force
    with l show ?thesis unfolding has_run_def by blast
  next
    case False
    then have "n + int l \<le> g" using l(3) assms by (metis Un_iff atLeastLessThan_iff linorder_not_less order_less_irrefl subsetD)
    then have "{n..<n + int l} \<subseteq> A" using l(3) assms(2) by force
    with l show ?thesis unfolding has_run_def by blast
  qed
qed (auto intro: has_run_mono)


definition run_at :: "iso_date \<Rightarrow> nat \<Rightarrow> int \<Rightarrow> schedule_violation list \<Rightarrow> run_state" where
  "run_at start len p vs =
     \<lparr>runStart = Some start, runLength = len, run_previous = Some (date_of p), run_violations = vs\<rparr>"

lemma scanRuns_Nil:
  "scanRuns cap [] (run_at start len p vs) =
   vs @ (if cap < real len then [ConsecutiveDays len start (date_of p) cap] else [])"
  by (simp add: scanRuns_def closeRun_def run_at_def)

lemma scanRuns_Cons:
  "scanRuns cap (date_of n # ds) (run_at start len p vs) =
   (if n = p + 1 then scanRuns cap ds (run_at start (len + 1) n vs)
    else scanRuns cap ds (run_at (date_of n) 1 n
      (vs @ (if cap < real len then [ConsecutiveDays len start (date_of p) cap] else []))))"
  by (simp add: scanRuns_def extendRun_def closeRun_def run_at_def isNextCalendarDay_def next_day_date_of)

lemma scanRuns_empty:
  assumes "0 < len" "sorted_wrt (<) (p # ns)"
  shows "scanRuns cap (map date_of ns) (run_at start len p vs) = [] \<longleftrightarrow>
         vs = [] \<and> \<not> has_run cap ({p - int len + 1..p} \<union> set ns)"
  using assms
proof (induction ns arbitrary: start len p vs)
  case Nil
  then show ?case by (simp add: scanRuns_Nil has_run_interval)
next
  case (Cons n ns)
  show ?case
  proof (cases "n = p + 1")
    case True
    have "{p - int len + 1..p} \<union> set (n # ns) = {n - int (len + 1) + 1..n} \<union> set ns" using True by auto
    then show ?thesis using True Cons.IH[of "len + 1" n start vs] Cons.prems by (simp add: scanRuns_Cons)
  next
    case False
    have "\<forall>x\<in>set ns. p + 1 < x" "p + 1 < n" using Cons.prems(2) False by auto
    then have "has_run cap ({p - int len + 1..p} \<union> ({n - int 1 + 1..n} \<union> set ns))
        \<longleftrightarrow> cap < real len \<or> has_run cap ({n - int 1 + 1..n} \<union> set ns)"
      using has_run_split[of "{p - int len + 1..p}" "p + 1" "{n - int 1 + 1..n} \<union> set ns" cap]
        has_run_interval[OF Cons.prems(1), of cap p] by auto
    then show ?thesis using False Cons.IH[of 1 n "date_of n"] Cons.prems(2)
      by (auto simp: scanRuns_Cons insert_commute)
  qed
qed

text \<open>Every reported run is a run of worked days of the reported length.\<close>

lemma scanRuns_sound:
  assumes "0 < len" "sorted_wrt (<) (p # ns)" "start = date_of (p - int len + 1)"
    and "ConsecutiveDays l from_date to_date c \<in> set (scanRuns cap (map date_of ns) (run_at start len p vs))"
  shows "ConsecutiveDays l from_date to_date c \<in> set vs \<or>
    (\<exists>q. to_date = date_of q \<and> from_date = date_of (q - int l + 1) \<and> cap < real l \<and> c = cap
       \<and> {q - int l + 1..q} \<subseteq> {p - int len + 1..p} \<union> set ns)"
  using assms
proof (induction ns arbitrary: start len p vs)
  case Nil
  then show ?case by (auto simp: scanRuns_Nil split: if_splits)
next
  case (Cons n ns)
  show ?case
  proof (cases "n = p + 1")
    case True
    have "{p - int len + 1..p} \<union> set (n # ns) = {n - int (len + 1) + 1..n} \<union> set ns" using True by auto
    then show ?thesis using True Cons.IH[of "len + 1" n start vs] Cons.prems by (simp add: scanRuns_Cons)
  next
    case False
    let ?vs = "vs @ (if cap < real len then [ConsecutiveDays len start (date_of p) cap] else [])"
    have "ConsecutiveDays l from_date to_date c \<in> set ?vs \<or> (\<exists>q. to_date = date_of q
        \<and> from_date = date_of (q - int l + 1) \<and> cap < real l \<and> c = cap
        \<and> {q - int l + 1..q} \<subseteq> {n - int 1 + 1..n} \<union> set ns)"
    proof (rule Cons.IH)
      show "ConsecutiveDays l from_date to_date c \<in> set (scanRuns cap (map date_of ns) (run_at (date_of n) 1 n ?vs))"
        using Cons.prems(4) False by (simp add: scanRuns_Cons)
    qed (use Cons.prems(2) in simp_all)
    then show ?thesis
      using Cons.prems(3) by (auto split: if_splits)
  qed
qed

definition worked_days :: "SimulatedShift list \<Rightarrow> int set" where
  "worked_days shifts = (\<lambda>s. day_index (sim_start s)) ` set shifts"

lemma workedDates_eq: "workedDates shifts = map date_of (sorted_list_of_set (worked_days shifts))"
proof (rule strict_sorted_equal[symmetric])
  have "distinct (workedDates shifts)"
    using mset_js_sort[of "(\<le>)" "js_set (map (\<lambda>s. utcDateKey (sim_start s)) shifts)"] distinct_js_set mset_eq_imp_distinct_iff
    by (metis workedDates_def)
  then show "sorted_wrt (<) (workedDates shifts)"
    using day_order.js_sort_sorted by (simp add: strict_sorted_iff workedDates_def)
  show "sorted_wrt (<) (map date_of (sorted_list_of_set (worked_days shifts)))"
    using strict_sorted_list_of_set[of "worked_days shifts"] by (simp add: sorted_wrt_map)
  show "set (map date_of (sorted_list_of_set (worked_days shifts))) = set (workedDates shifts)"
    by (auto simp: worked_days_def workedDates_def utcDateKey_def)
qed

lemma scan_initial:
  "scanRuns cap (date_of n # ds) \<lparr>runStart = None, runLength = 0, run_previous = None, run_violations = []\<rparr> =
   scanRuns cap ds (run_at (date_of n) 1 n [])"
  by (simp add: scanRuns_def extendRun_def run_at_def)

lemma consecutive_compliant_iff:
  assumes "numberField d ''maxConsecutiveWorkingDays'' = Some cap"
  shows "isCompliant MAX_CONSECUTIVE_DAYS d shifts \<longleftrightarrow> \<not> has_run cap (worked_days shifts)"
proof (cases "sorted_list_of_set (worked_days shifts)")
  case Nil
  then have "worked_days shifts = {}" by (simp add: worked_days_def)
  moreover have "\<not> has_run cap {}" by (auto simp: has_run_def)
  ultimately show ?thesis
    using Nil assms by (simp add: isCompliant_def findViolations_def checkMaxConsecutiveDays_def workedDates_eq scanRuns_def)
next
  case (Cons n ns)
  have "finite (worked_days shifts)" by (simp add: worked_days_def)
  then have W: "worked_days shifts = insert n (set ns)"
    using Cons by (metis list.simps(15) set_sorted_list_of_set)
  have "sorted_wrt (<) (n # ns)" using strict_sorted_list_of_set[of "worked_days shifts"] Cons by simp
  moreover have "workedDates shifts = date_of n # map date_of ns" by (simp add: workedDates_eq Cons)
  ultimately show ?thesis
    using scanRuns_empty[of 1 n ns cap "date_of n" "[]"] assms
    by (simp add: isCompliant_def findViolations_def checkMaxConsecutiveDays_def scan_initial W)
qed


section \<open>Shift lengths\<close>

lemma union_compliant_iff:
  "isCompliant UNION_RULE d shifts \<longleftrightarrow>
   (\<forall>lo. numberField d ''minShiftLengthMinutes'' = Some lo \<longrightarrow> (\<forall>s\<in>set shifts. lo \<le> durationHours s * 60)) \<and>
   (\<forall>hi. numberField d ''maxShiftLengthMinutes'' = Some hi \<longrightarrow> (\<forall>s\<in>set shifts. durationHours s * 60 \<le> hi))"
  unfolding isCompliant_def findViolations_def checkUnionRule_def
  by (cases "numberField d ''minShiftLengthMinutes''"; cases "numberField d ''maxShiftLengthMinutes''")
    (auto simp: Let_def not_less[symmetric])

section \<open>Strictness\<close>

lemma floor_field_valid:
  assumes "floor_valid (validatePolicyAgainstFloor rt pol flo)" "(f, dir) \<in> set (FIELD_DIRECTIONS rt)"
    and "numberField flo f = Some v"
  shows "\<exists>u. numberField pol f = Some u \<and> (case dir of lower_is_stricter \<Rightarrow> u \<le> v | higher_is_stricter \<Rightarrow> v \<le> u)"
proof -
  have "checkFloorField pol flo (f, dir) = []"
    using assms(1,2) by (simp add: validatePolicyAgainstFloor_def Let_def)
  with assms(3) show ?thesis
    by (auto simp: checkFloorField_def numberField_Some_iff split: option.splits json_field.splits if_splits)
qed

lemma numeric_floor_field:
  assumes "floor_valid (validatePolicyAgainstFloor rt pol flo)" "numberField flo f = Some v"
  shows "(f, lower_is_stricter) \<in> set (FIELD_DIRECTIONS rt) \<Longrightarrow> \<exists>u. numberField pol f = Some u \<and> u \<le> v"
    and "(f, higher_is_stricter) \<in> set (FIELD_DIRECTIONS rt) \<Longrightarrow> \<exists>u. numberField pol f = Some u \<and> v \<le> u"
  using floor_field_valid[OF assms(1) _ assms(2)] by force+

lemma rest_gaps_mono: "checkGaps m xs = [] \<Longrightarrow> m' \<le> m \<Longrightarrow> checkGaps m' xs = []"
  by (induction m xs rule: checkGaps.induct) (auto simp: Let_def split: if_splits)

lemma stricter_is_compliant:
  assumes valid: "floor_valid (validatePolicyAgainstFloor rt pol flo)" and comp: "isCompliant rt pol shifts"
  shows "isCompliant rt flo shifts"
proof (cases rt)
  case OVERTIME_THRESHOLD
  note f = numeric_floor_field[OF valid[unfolded OVERTIME_THRESHOLD]]
  show ?thesis
    using comp f(1)[of "''dailyThresholdHours''"] f(1)[of "''weeklyThresholdHours''"]
    unfolding OVERTIME_THRESHOLD overtime_compliant_iff by (force intro: order_trans)
next
  case REST_PERIOD_MINIMUM
  note f = numeric_floor_field[OF valid[unfolded REST_PERIOD_MINIMUM]]
  show ?thesis
    using comp f(2)[of "''minRestHoursBetweenShifts''"] rest_gaps_mono unfolding REST_PERIOD_MINIMUM
    by (force simp: isCompliant_def findViolations_def checkRestPeriodMinimum_def split: option.splits)
next
  case MAX_CONSECUTIVE_DAYS
  note f = numeric_floor_field[OF valid[unfolded MAX_CONSECUTIVE_DAYS]]
  show ?thesis
  proof (cases "numberField flo ''maxConsecutiveWorkingDays''")
    case None
    then show ?thesis by (simp add: MAX_CONSECUTIVE_DAYS isCompliant_def findViolations_def checkMaxConsecutiveDays_def)
  next
    case (Some v)
    then obtain u where "numberField pol ''maxConsecutiveWorkingDays'' = Some u" "u \<le> v" using f(1) by force
    then show ?thesis
      using comp Some consecutive_compliant_iff[of _ _ shifts] has_run_mono[OF order_refl, of u v] MAX_CONSECUTIVE_DAYS by blast
  qed
next
  case BREAK_REQUIREMENT
  then show ?thesis by (simp add: isCompliant_def findViolations_def)
next
  case UNION_RULE
  note f = numeric_floor_field[OF valid[unfolded UNION_RULE]]
  show ?thesis
    using comp f(2)[of "''minShiftLengthMinutes''"] f(1)[of "''maxShiftLengthMinutes''"]
    unfolding UNION_RULE union_compliant_iff by (force intro: order_trans)
qed

section \<open>Properties\<close>

text \<open>
  The floor comparison means what it is for: when \<open>validatePolicyAgainstFloor\<close> accepts a
  policy, every schedule that satisfies the policy's thresholds also satisfies the floor's, for every
  rule type and every list of shifts.
\<close>

theorem accepted_policy_protects:
  assumes "floor_valid (validatePolicyAgainstFloor rt pol flo)" "isCompliant rt pol shifts"
  shows "isCompliant rt flo shifts"
  using assms by (rule stricter_is_compliant)

definition demo_week :: "SimulatedShift list" where
  "demo_week = map (\<lambda>k. \<lparr>sim_employeeId = ''e'', sim_start = k * 86400000 + 32400000, sim_end = k * 86400000 + 61200000\<rparr>)
     [20089, 20087, 20088]"

theorem accepted_policy_protects_witness:
  "floor_valid (validatePolicyAgainstFloor REST_PERIOD_MINIMUM [''minRestHoursBetweenShifts'' \<mapsto> FNumber 12]
     [''minRestHoursBetweenShifts'' \<mapsto> FNumber 11])
   \<and> isCompliant REST_PERIOD_MINIMUM [''minRestHoursBetweenShifts'' \<mapsto> FNumber 12] demo_week
   \<and> isCompliant REST_PERIOD_MINIMUM [''minRestHoursBetweenShifts'' \<mapsto> FNumber 11] demo_week"
proof -
  have a: "floor_valid (validatePolicyAgainstFloor REST_PERIOD_MINIMUM [''minRestHoursBetweenShifts'' \<mapsto> FNumber 12]
     [''minRestHoursBetweenShifts'' \<mapsto> FNumber 11])"
    by (simp add: validatePolicyAgainstFloor_def checkFloorField_def)
  have b: "isCompliant REST_PERIOD_MINIMUM [''minRestHoursBetweenShifts'' \<mapsto> FNumber 12] demo_week"
    by (simp add: isCompliant_def findViolations_def checkRestPeriodMinimum_def numberField_def demo_week_def by_start_def Let_def)
  from a b accepted_policy_protects[OF a b] show ?thesis by blast
qed

text \<open>
  The rest check compares only neighbours after sorting by start; on shifts that end after they
  start and a minimum that is not negative, it accepts exactly the rosters in which every two shifts
  are at least the minimum rest apart, in whatever order they were listed.
\<close>

theorem rest_period_pairwise:
  assumes "numberField d ''minRestHoursBetweenShifts'' = Some m" "0 \<le> m"
    and "\<forall>s\<in>set shifts. sim_start s < sim_end s"
  shows "isCompliant REST_PERIOD_MINIMUM d shifts \<longleftrightarrow>
    (\<forall>i j. i < j \<and> j < length shifts \<longrightarrow> rested m (shifts ! i) (shifts ! j))"
  using rest_compliant_iff[OF assms] by (auto simp: sorted_wrt_iff_nth_less)

theorem rest_period_pairwise_witness:
  "isCompliant REST_PERIOD_MINIMUM [''minRestHoursBetweenShifts'' \<mapsto> FNumber 12] demo_week =
   (\<forall>i j. \<not> (i < j \<and> j < length demo_week \<and> \<not> rested 12 (demo_week ! i) (demo_week ! j)))"
proof -
  have "numberField [''minRestHoursBetweenShifts'' \<mapsto> FNumber 12] ''minRestHoursBetweenShifts'' = Some 12"
    by (simp add: numberField_def)
  moreover have "\<forall>s\<in>set demo_week. sim_start s < sim_end s" by (simp add: demo_week_def)
  ultimately show ?thesis using rest_period_pairwise[of _ 12 demo_week] by auto
qed

text \<open>
  Property C37. The run counter of the consecutive days check agrees with the sliding window the solver uses:
  for a whole cap it accepts exactly when no window of \<open>cap + 1\<close> calendar days has more than \<open>cap\<close> worked days.
\<close>

theorem consecutive_days_sliding_window:
  assumes "numberField d ''maxConsecutiveWorkingDays'' = Some (real cap)"
  shows "isCompliant MAX_CONSECUTIVE_DAYS d shifts \<longleftrightarrow>
    (\<forall>n. card (worked_days shifts \<inter> {n..n + int cap}) \<le> cap)"
proof -
  have fin: "finite (worked_days shifts)" by (simp add: worked_days_def)
  have full: "cap < card (worked_days shifts \<inter> {n..n + int cap}) \<longleftrightarrow> {n..n + int cap} \<subseteq> worked_days shifts" for n
  proof
    assume *: "cap < card (worked_days shifts \<inter> {n..n + int cap})"
    have "worked_days shifts \<inter> {n..n + int cap} = {n..n + int cap}"
      by (rule card_seteq) (use * in auto)
    then show "{n..n + int cap} \<subseteq> worked_days shifts" by blast
  next
    assume "{n..n + int cap} \<subseteq> worked_days shifts"
    then have "worked_days shifts \<inter> {n..n + int cap} = {n..n + int cap}" by blast
    then show "cap < card (worked_days shifts \<inter> {n..n + int cap})" by simp
  qed
  have "has_run (real cap) (worked_days shifts) \<longleftrightarrow> (\<exists>n. {n..n + int cap} \<subseteq> worked_days shifts)"
  proof
    assume "has_run (real cap) (worked_days shifts)"
    then obtain n l where "cap < l" "{n..<n + int l} \<subseteq> worked_days shifts" by (auto simp: has_run_def)
    moreover from \<open>cap < l\<close> have "{n..n + int cap} \<subseteq> {n..<n + int l}" by auto
    ultimately show "\<exists>n. {n..n + int cap} \<subseteq> worked_days shifts" by blast
  next
    assume "\<exists>n. {n..n + int cap} \<subseteq> worked_days shifts"
    then obtain n where "{n..<n + int (Suc cap)} \<subseteq> worked_days shifts" by (metis (no_types) atLeastLessThanPlusOne_atLeastAtMost_int of_nat_Suc add.assoc add.commute)
    then show "has_run (real cap) (worked_days shifts)" unfolding has_run_def by (metis lessI of_nat_less_iff zero_less_Suc)
  qed
  then show ?thesis using consecutive_compliant_iff[OF assms, of shifts] full by (meson not_less)
qed

theorem consecutive_days_sliding_window_witness:
  "isCompliant MAX_CONSECUTIVE_DAYS [''maxConsecutiveWorkingDays'' \<mapsto> FNumber (real 2)] demo_week =
   (\<forall>n. card (worked_days demo_week \<inter> {n..n + int 2}) \<le> 2)"
  by (rule consecutive_days_sliding_window) (simp add: numberField_def)

text \<open>
  The overtime check reports, in calendar order, exactly the UTC days whose shifts add up to more
  than the daily threshold, then the ISO weeks over the weekly one, each with its total.
\<close>

theorem overtime_report_exact:
  assumes "numberField d ''dailyThresholdHours'' = Some dt" "numberField d ''weeklyThresholdHours'' = Some wt"
  shows "findViolations OVERTIME_THRESHOLD d shifts =
    map (\<lambda>day. WorkedOnDay day (hours_where (\<lambda>s. utcDateKey (sim_start s) = day) shifts) dt)
      (sorted_list_of_set {day \<in> (\<lambda>s. utcDateKey (sim_start s)) ` set shifts.
         dt < hours_where (\<lambda>s. utcDateKey (sim_start s) = day) shifts})
    @ map (\<lambda>week. WorkedInWeek week (hours_where (\<lambda>s. isoWeekStartKey (sim_start s) = week) shifts) wt)
      (sorted_list_of_set {week \<in> (\<lambda>s. isoWeekStartKey (sim_start s)) ` set shifts.
         wt < hours_where (\<lambda>s. isoWeekStartKey (sim_start s) = week) shifts})"
  using assms by (simp add: findViolations_def checkOvertimeThreshold_def accumulateHours_eq overThreshold_report)

theorem overtime_report_exact_witness:
  "numberField [''dailyThresholdHours'' \<mapsto> FNumber 8, ''weeklyThresholdHours'' \<mapsto> FNumber 40] ''dailyThresholdHours'' = Some 8
   \<and> findViolations OVERTIME_THRESHOLD [''dailyThresholdHours'' \<mapsto> FNumber 8, ''weeklyThresholdHours'' \<mapsto> FNumber 40] [] = []"
proof -
  have "numberField [''dailyThresholdHours'' \<mapsto> FNumber 8, ''weeklyThresholdHours'' \<mapsto> FNumber 40] ''dailyThresholdHours'' = Some 8"
    "numberField [''dailyThresholdHours'' \<mapsto> FNumber 8, ''weeklyThresholdHours'' \<mapsto> FNumber 40] ''weeklyThresholdHours'' = Some 40"
    by (simp_all add: numberField_def)
  then show ?thesis using overtime_report_exact[of _ 8 40 "[]"] by simp
qed

end
