(* ===== verification/Compliance_Rules.thy ===== *)
theory Compliance_Rules
  imports Schedule_Compliance
begin

text \<open>
  The life of a compliance rule in the adherence and compliance service: \<open>ComplianceRuleService\<close>
  (create, activate, list, look up), \<open>resolveEffectiveRules\<close>, which decides the rule in force at an
  instant, and \<open>RuleChangeImpactPreviewService\<close>, whose preview an activation requires.

  The state is the two tables and the audit events sent. A service call runs in one transaction and
  is one step. Row level security is the predicate \<open>visible\<close>: a tenant reads its own rows and the
  platform defaults, whose \<open>tenantId\<close> is null. The directory and schedule services and the audit
  service are parameters; a remote call that rejects is \<open>None\<close>. Dates are calendar dates, as the
  \<open>date\<close> columns hold them.
\<close>

section \<open>Entities\<close>

datatype ComplianceRuleStatus = PENDING_REVIEW | RULE_ACTIVE | SUPERSEDED | RULE_REJECTED

record ComplianceRule =
  cr_id :: uuid
  cr_tenantId :: "uuid option"
  cr_jurisdiction :: string
  cr_ruleType :: ComplianceRuleType
  cr_definition :: rule_definition
  cr_effectiveFrom :: iso_date
  cr_effectiveTo :: "iso_date option"
  cr_version :: nat
  cr_citation :: string
  cr_status :: ComplianceRuleStatus
  cr_activationDelayUntil :: "millis option"
  cr_createdAt :: millis
  cr_activatedAt :: "millis option"

record RuleChangeImpactPreview =
  pv_id :: uuid
  pv_tenantId :: uuid
  pv_complianceRuleId :: uuid
  pv_simulatedAgainstScheduleIds :: "uuid list"
  pv_wouldBecomeNoncompliantCount :: nat
  pv_affectedEmployeeIds :: "uuid list"
  pv_affectedOrgUnitIds :: "uuid list"
  pv_generatedAt :: millis

record rule_audit =
  aud_tenantId :: uuid
  aud_ruleId :: uuid
  aud_noncompliantCount :: nat
  aud_justificationNote :: string

record compliance_db =
  db_rules :: "ComplianceRule list"
  db_previews :: "RuleChangeImpactPreview list"
  db_audits :: "rule_audit list"

datatype compliance_error =
    ComplianceRuleCitationRequiredError
  | InvalidComplianceRuleEffectiveRangeError
  | ComplianceRuleNotFoundError uuid
  | ComplianceRuleNotOwnedError uuid
  | ComplianceRuleNotPendingReviewError uuid ComplianceRuleStatus
  | ImpactPreviewRequiredError uuid
  | ActivationJustificationRequiredError uuid
  | RemoteUnavailable

definition visible :: "uuid \<Rightarrow> ComplianceRule \<Rightarrow> bool" where
  "visible tenantId r \<longleftrightarrow> cr_tenantId r = Some tenantId \<or> cr_tenantId r = None"

definition is_js_space :: "char \<Rightarrow> bool" where
  "is_js_space c \<longleftrightarrow> c \<in> {CHR '' '', CHR 0x09, CHR 0x0A, CHR 0x0B, CHR 0x0C, CHR 0x0D, CHR 0xA0}"

definition js_trim :: "string \<Rightarrow> string" where
  "js_trim s = rev (dropWhile is_js_space (rev (dropWhile is_js_space s)))"

section \<open>Which rule is in force\<close>

definition inForce :: "millis \<Rightarrow> ComplianceRule \<Rightarrow> bool" where
  "inForce asOf rule \<longleftrightarrow>
     (cr_status rule = RULE_ACTIVE \<or> cr_status rule = SUPERSEDED) \<and>
     cr_effectiveFrom rule \<le> utcDateKey asOf \<and>
     (case cr_effectiveTo rule of None \<Rightarrow> True | Some to_date \<Rightarrow> utcDateKey asOf \<le> to_date) \<and>
     (case cr_activationDelayUntil rule of None \<Rightarrow> True | Some delay \<Rightarrow> delay \<le> asOf)"

definition isMoreSpecific :: "ComplianceRule \<Rightarrow> ComplianceRule \<Rightarrow> bool" where
  "isMoreSpecific candidate current =
     (let candidateIsTenantScoped = (cr_tenantId candidate \<noteq> None);
          currentIsTenantScoped = (cr_tenantId current \<noteq> None)
      in if candidateIsTenantScoped \<noteq> currentIsTenantScoped then candidateIsTenantScoped
         else cr_version current < cr_version candidate)"

fun map_put :: "('k \<times> 'v) list \<Rightarrow> 'k \<Rightarrow> 'v \<Rightarrow> ('k \<times> 'v) list" where
  \<comment> \<open>\<open>Map.set\<close>: a key keeps the position of its first insertion\<close>
  "map_put [] k v = [(k, v)]"
| "map_put ((k', v') # m) k v = (if k' = k then (k, v) # m else (k', v') # map_put m k v)"

definition keepSpecific ::
  "(ComplianceRuleType \<times> ComplianceRule) list \<Rightarrow> ComplianceRule \<Rightarrow> (ComplianceRuleType \<times> ComplianceRule) list" where
  "keepSpecific byRuleType rule = (case map_of byRuleType (cr_ruleType rule) of
      None \<Rightarrow> map_put byRuleType (cr_ruleType rule) rule
    | Some current \<Rightarrow> if isMoreSpecific rule current then map_put byRuleType (cr_ruleType rule) rule else byRuleType)"

definition resolveEffectiveRules :: "ComplianceRule list \<Rightarrow> millis \<Rightarrow> ComplianceRule list" where
  "resolveEffectiveRules rules asOf = map snd (foldl keepSpecific [] (filter (inForce asOf) rules))"

section \<open>ComplianceRuleService\<close>

record CreateComplianceRuleInput =
  in_jurisdiction :: string
  in_ruleType :: ComplianceRuleType
  in_definition :: rule_definition
  in_effectiveFrom :: iso_date
  in_effectiveTo :: "iso_date option"
  in_citation :: string

definition same_scope :: "uuid \<Rightarrow> string \<Rightarrow> ComplianceRuleType \<Rightarrow> ComplianceRule \<Rightarrow> bool" where
  "same_scope tenantId jurisdiction ruleType r \<longleftrightarrow>
     cr_tenantId r = Some tenantId \<and> cr_jurisdiction r = jurisdiction \<and> cr_ruleType r = ruleType"

definition nextVersion :: "uuid \<Rightarrow> string \<Rightarrow> ComplianceRuleType \<Rightarrow> ComplianceRule list \<Rightarrow> nat" where
  \<comment> \<open>\<open>COALESCE(MAX(version), 0) + 1\<close>\<close>
  "nextVersion tenantId jurisdiction ruleType rules =
     foldr max (map cr_version (filter (same_scope tenantId jurisdiction ruleType) rules)) 0 + 1"

definition createRule ::
  "uuid \<Rightarrow> CreateComplianceRuleInput \<Rightarrow> uuid \<Rightarrow> millis \<Rightarrow> (compliance_db, compliance_error, ComplianceRule) svc" where
  "createRule tenantId input newId now s =
     (let citation = js_trim (in_citation input) in
      if length citation = 0 then (Inl ComplianceRuleCitationRequiredError, s)
      else if (case in_effectiveTo input of None \<Rightarrow> False | Some to_date \<Rightarrow> to_date < in_effectiveFrom input)
      then (Inl InvalidComplianceRuleEffectiveRangeError, s)
      else let rule = \<lparr>cr_id = newId, cr_tenantId = Some tenantId, cr_jurisdiction = in_jurisdiction input,
             cr_ruleType = in_ruleType input, cr_definition = in_definition input,
             cr_effectiveFrom = in_effectiveFrom input, cr_effectiveTo = in_effectiveTo input,
             cr_version = nextVersion tenantId (in_jurisdiction input) (in_ruleType input) (db_rules s),
             cr_citation = citation, cr_status = PENDING_REVIEW, cr_activationDelayUntil = None,
             cr_createdAt = now, cr_activatedAt = None\<rparr>
           in (Inr rule, s\<lparr>db_rules := db_rules s @ [rule]\<rparr>))"

definition latestPreview :: "uuid \<Rightarrow> uuid \<Rightarrow> RuleChangeImpactPreview list \<Rightarrow> RuleChangeImpactPreview option" where
  "latestPreview tenantId ruleId previews =
     (case js_sort (\<lambda>a b. pv_generatedAt b \<le> pv_generatedAt a)
        (filter (\<lambda>p. pv_tenantId p = tenantId \<and> pv_complianceRuleId p = ruleId) previews) of
        [] \<Rightarrow> None | p # _ \<Rightarrow> Some p)"

definition supersede_scope :: "uuid \<Rightarrow> ComplianceRule \<Rightarrow> ComplianceRule list \<Rightarrow> ComplianceRule list" where
  "supersede_scope tenantId existing =
     update_where (\<lambda>r. same_scope tenantId (cr_jurisdiction existing) (cr_ruleType existing) r \<and> cr_status r = RULE_ACTIVE)
       (\<lambda>r. r\<lparr>cr_status := SUPERSEDED\<rparr>)"

definition activate_row :: "uuid \<Rightarrow> millis \<Rightarrow> millis option \<Rightarrow> ComplianceRule list \<Rightarrow> ComplianceRule list" where
  "activate_row ruleId now effectiveAt =
     update_where (\<lambda>r. cr_id r = ruleId)
       (\<lambda>r. r\<lparr>cr_status := RULE_ACTIVE, cr_activatedAt := Some now, cr_activationDelayUntil := effectiveAt\<rparr>)"

definition activateTxn ::
  "uuid \<Rightarrow> uuid \<Rightarrow> millis option \<Rightarrow> string option \<Rightarrow> millis \<Rightarrow> (compliance_db, compliance_error, ComplianceRule \<times> nat) txn" where
  "activateTxn tenantId ruleId effectiveAt justificationNote now s =
     (case find_where (\<lambda>r. visible tenantId r \<and> cr_id r = ruleId) (db_rules s) of
        None \<Rightarrow> Inl (ComplianceRuleNotFoundError ruleId)
      | Some existing \<Rightarrow>
          if cr_tenantId existing \<noteq> Some tenantId then Inl (ComplianceRuleNotOwnedError ruleId)
          else if cr_status existing \<noteq> PENDING_REVIEW
          then Inl (ComplianceRuleNotPendingReviewError ruleId (cr_status existing))
          else (case latestPreview tenantId ruleId (db_previews s) of
              None \<Rightarrow> Inl (ImpactPreviewRequiredError ruleId)
            | Some preview \<Rightarrow>
                let flagged = pv_wouldBecomeNoncompliantCount preview in
                if 0 < flagged \<and> \<not> truthy_str (map_option js_trim justificationNote)
                then Inl (ActivationJustificationRequiredError ruleId)
                else let rules = activate_row ruleId now effectiveAt (supersede_scope tenantId existing (db_rules s))
                  in (case find_where (\<lambda>r. visible tenantId r \<and> cr_id r = ruleId) rules of
                        None \<Rightarrow> Inl (ComplianceRuleNotFoundError ruleId)
                      | Some rule \<Rightarrow> Inr ((rule, flagged), s\<lparr>db_rules := rules\<rparr>))))"

definition recordFlaggedActivationAudit :: "bool \<Rightarrow> uuid \<Rightarrow> uuid \<Rightarrow> nat \<Rightarrow> string \<Rightarrow> compliance_db \<Rightarrow> compliance_db" where
  \<comment> \<open>best effort: a failed call is logged and swallowed\<close>
  "recordFlaggedActivationAudit auditUp tenantId ruleId flaggedCount note s =
     (if auditUp then s\<lparr>db_audits := db_audits s @ [\<lparr>aud_tenantId = tenantId, aud_ruleId = ruleId,
        aud_noncompliantCount = flaggedCount, aud_justificationNote = note\<rparr>]\<rparr> else s)"

definition activateRule ::
  "bool \<Rightarrow> uuid \<Rightarrow> uuid \<Rightarrow> millis option \<Rightarrow> string option \<Rightarrow> millis \<Rightarrow> (compliance_db, compliance_error, ComplianceRule) svc" where
  "activateRule auditUp tenantId ruleId effectiveAt justificationNote now s =
     (case run_txn (activateTxn tenantId ruleId effectiveAt justificationNote now) s of
        (Inl e, s') \<Rightarrow> (Inl e, s')
      | (Inr (rule, flagged), s') \<Rightarrow>
          (Inr rule, if 0 < flagged
             then recordFlaggedActivationAudit auditUp tenantId (cr_id rule) flagged (the_default justificationNote []) s'
             else s'))"

definition getOwnedRule :: "uuid \<Rightarrow> uuid \<Rightarrow> compliance_db \<Rightarrow> compliance_error + ComplianceRule" where
  "getOwnedRule tenantId ruleId s =
     (case find_where (\<lambda>r. visible tenantId r \<and> cr_id r = ruleId) (db_rules s) of
        None \<Rightarrow> Inl (ComplianceRuleNotFoundError ruleId)
      | Some existing \<Rightarrow> if cr_tenantId existing \<noteq> Some tenantId then Inl (ComplianceRuleNotOwnedError ruleId) else Inr existing)"

fun ruleType_rank :: "ComplianceRuleType \<Rightarrow> nat" where
  \<comment> \<open>the alphabetical order of the enum's strings\<close>
  "ruleType_rank BREAK_REQUIREMENT = 0"
| "ruleType_rank MAX_CONSECUTIVE_DAYS = 1"
| "ruleType_rank OVERTIME_THRESHOLD = 2"
| "ruleType_rank REST_PERIOD_MINIMUM = 3"
| "ruleType_rank UNION_RULE = 4"

definition list_order :: "ComplianceRule \<Rightarrow> ComplianceRule \<Rightarrow> bool" where
  \<comment> \<open>\<open>ORDER BY rule_type ASC, version DESC\<close>\<close>
  "list_order a b \<longleftrightarrow> ruleType_rank (cr_ruleType a) < ruleType_rank (cr_ruleType b) \<or>
     (ruleType_rank (cr_ruleType a) = ruleType_rank (cr_ruleType b) \<and> cr_version b \<le> cr_version a)"

definition listRules :: "uuid \<Rightarrow> string \<Rightarrow> compliance_db \<Rightarrow> ComplianceRule list" where
  "listRules tenantId jurisdiction s =
     js_sort list_order (filter (\<lambda>r. visible tenantId r \<and> cr_jurisdiction r = jurisdiction) (db_rules s))"

definition findEffectiveRules :: "uuid \<Rightarrow> string \<Rightarrow> millis \<Rightarrow> compliance_db \<Rightarrow> ComplianceRule list" where
  "findEffectiveRules tenantId jurisdiction now s = resolveEffectiveRules (listRules tenantId jurisdiction s) now"

definition getActiveRule :: "uuid \<Rightarrow> string \<Rightarrow> ComplianceRuleType \<Rightarrow> millis \<Rightarrow> compliance_db \<Rightarrow> ComplianceRule option" where
  "getActiveRule tenantId jurisdiction ruleType asOf s =
     (case resolveEffectiveRules (filter (\<lambda>r. cr_ruleType r = ruleType) (listRules tenantId jurisdiction s)) asOf of
        [] \<Rightarrow> None | r # _ \<Rightarrow> Some r)"

section \<open>RuleChangeImpactPreviewService\<close>

record roster_entry =
  re_employeeId :: uuid
  re_orgUnitId :: uuid

record shift_record =
  sr_scheduleId :: uuid
  sr_employeeId :: uuid
  sr_shiftStart :: millis
  sr_shiftEnd :: millis

record compliance_clients =
  getSchedulableRoster :: "uuid \<Rightarrow> uuid \<Rightarrow> roster_entry list option"
  listPublishedShiftAssignments :: "uuid \<Rightarrow> uuid list \<Rightarrow> millis \<Rightarrow> millis \<Rightarrow> shift_record list option"

definition IMPACT_PREVIEW_WINDOW_DAYS :: int where
  "IMPACT_PREVIEW_WINDOW_DAYS = 28"

fun all_rosters :: "(uuid \<Rightarrow> roster_entry list option) \<Rightarrow> uuid list \<Rightarrow> roster_entry list option" where
  \<comment> \<open>\<open>(await Promise.all(ids.map(...))).flat()\<close>: rejects when one call rejects\<close>
  "all_rosters call [] = Some []"
| "all_rosters call (u # us) = (case call u of None \<Rightarrow> None | Some es \<Rightarrow>
     (case all_rosters call us of None \<Rightarrow> None | Some rest \<Rightarrow> Some (es @ rest)))"

definition shift_of_record :: "shift_record \<Rightarrow> SimulatedShift" where
  "shift_of_record r = \<lparr>sim_employeeId = sr_employeeId r, sim_start = sr_shiftStart r, sim_end = sr_shiftEnd r\<rparr>"

definition groupShifts :: "shift_record list \<Rightarrow> (uuid \<times> SimulatedShift list) list" where
  "groupShifts records = foldl (\<lambda>m r. map_put m (sr_employeeId r)
     (the_default (map_of m (sr_employeeId r)) [] @ [shift_of_record r])) [] records"

definition affectedEmployees ::
  "ComplianceRule \<Rightarrow> ComplianceRule option \<Rightarrow> (uuid \<times> SimulatedShift list) list \<Rightarrow> uuid list \<Rightarrow> uuid list" where
  "affectedEmployees rule baseline shiftsByEmployeeId employeeIds =
     filter (\<lambda>employeeId.
       let shifts = the_default (map_of shiftsByEmployeeId employeeId) [];
           wasCompliant = (case baseline of None \<Rightarrow> True | Some b \<Rightarrow> isCompliant (cr_ruleType rule) (cr_definition b) shifts);
           staysCompliant = isCompliant (cr_ruleType rule) (cr_definition rule) shifts
       in wasCompliant \<and> \<not> staysCompliant) employeeIds"

definition generatePreview ::
  "compliance_clients \<Rightarrow> uuid \<Rightarrow> uuid \<Rightarrow> uuid list \<Rightarrow> uuid \<Rightarrow> millis \<Rightarrow> (compliance_db, compliance_error, RuleChangeImpactPreview) svc" where
  "generatePreview cl tenantId ruleId orgUnitIds newId now s =
     (case getOwnedRule tenantId ruleId s of
        Inl e \<Rightarrow> (Inl e, s)
      | Inr rule \<Rightarrow>
          let baseline = getActiveRule tenantId (cr_jurisdiction rule) (cr_ruleType rule) now s in
          (case all_rosters (getSchedulableRoster cl tenantId) orgUnitIds of
             None \<Rightarrow> (Inl RemoteUnavailable, s)
           | Some rosterEntries \<Rightarrow>
               let employeeIds = js_set (map re_employeeId rosterEntries);
                   orgUnitIdByEmployeeId = map_of (rev (map (\<lambda>e. (re_employeeId e, re_orgUnitId e)) rosterEntries));
                   windowStart = now - now mod 86400000;
                   windowEnd = windowStart + IMPACT_PREVIEW_WINDOW_DAYS * 86400000
               in (case listPublishedShiftAssignments cl tenantId employeeIds windowStart windowEnd of
                     None \<Rightarrow> (Inl RemoteUnavailable, s)
                   | Some records \<Rightarrow>
                       let affected = affectedEmployees rule baseline (groupShifts records) employeeIds;
                           preview = \<lparr>pv_id = newId, pv_tenantId = tenantId, pv_complianceRuleId = ruleId,
                             pv_simulatedAgainstScheduleIds = js_set (map sr_scheduleId records),
                             pv_wouldBecomeNoncompliantCount = length affected,
                             pv_affectedEmployeeIds = affected,
                             pv_affectedOrgUnitIds = js_set (List.map_filter orgUnitIdByEmployeeId affected),
                             pv_generatedAt = now\<rparr>
                       in (Inr preview, s\<lparr>db_previews := db_previews s @ [preview]\<rparr>))))"


section \<open>The gRPC surface\<close>

record floor_reply =
  fr_valid :: bool
  fr_violations :: "floor_violation list"
  fr_badJson :: bool
  fr_floorNotFound :: bool

definition grpc_validatePolicyAgainstFloor ::
  "uuid \<Rightarrow> string \<Rightarrow> ComplianceRuleType option \<Rightarrow> rule_definition option \<Rightarrow> millis \<Rightarrow> compliance_db \<Rightarrow> floor_reply" where
  \<comment> \<open>\<open>None\<close> for a rule type outside the vocabulary and for a policy that is not JSON\<close>
  "grpc_validatePolicyAgainstFloor tenantId jurisdiction ruleType policyJson now s = (case ruleType of
      None \<Rightarrow> \<lparr>fr_valid = True, fr_violations = [], fr_badJson = False, fr_floorNotFound = True\<rparr>
    | Some rt \<Rightarrow> (case getActiveRule tenantId jurisdiction rt now s of
        None \<Rightarrow> \<lparr>fr_valid = True, fr_violations = [], fr_badJson = False, fr_floorNotFound = True\<rparr>
      | Some flo \<Rightarrow> (case policyJson of
          None \<Rightarrow> \<lparr>fr_valid = False, fr_violations = [], fr_badJson = True, fr_floorNotFound = False\<rparr>
        | Some pol \<Rightarrow> let result = validatePolicyAgainstFloor rt pol (cr_definition flo) in
            \<lparr>fr_valid = floor_valid result, fr_violations = floor_violations result, fr_badJson = False, fr_floorNotFound = False\<rparr>)))"

section \<open>The most specific rule\<close>

definition spec_key :: "ComplianceRule \<Rightarrow> bool \<times> nat" where
  "spec_key r = (cr_tenantId r \<noteq> None, cr_version r)"

lemma isMoreSpecific_key: "isMoreSpecific r c \<longleftrightarrow> spec_key c < spec_key r"
  by (auto simp: isMoreSpecific_def spec_key_def Let_def less_prod_def)

definition best_of :: "ComplianceRule option \<Rightarrow> ComplianceRule list \<Rightarrow> ComplianceRule option" where
  "best_of = foldl (\<lambda>acc r. case acc of None \<Rightarrow> Some r | Some c \<Rightarrow> if isMoreSpecific r c then Some r else Some c)"

lemma best_of_simps [simp]:
  "best_of acc [] = acc"
  "best_of acc (r # rs) = best_of (case acc of None \<Rightarrow> Some r | Some c \<Rightarrow> if isMoreSpecific r c then Some r else Some c) rs"
  by (simp_all add: best_of_def)

lemma best_of_Some: "\<exists>b. best_of (Some c) rs = Some b \<and> b \<in> set (c # rs) \<and> (\<forall>x\<in>set (c # rs). spec_key x \<le> spec_key b)"
proof (induction rs arbitrary: c)
  case (Cons r rs)
  show ?case
  proof (cases "isMoreSpecific r c")
    case True
    with Cons.IH[of r] show ?thesis by (auto simp: isMoreSpecific_key intro: order_trans less_imp_le)
  next
    case False
    with Cons.IH[of c] show ?thesis by (auto simp: isMoreSpecific_key intro: order_trans)
  qed
qed simp

lemma best_of_None_iff: "best_of None rs = None \<longleftrightarrow> rs = []"
  using best_of_Some by (cases rs) force+

lemma best_of_best:
  assumes "best_of None rs = Some b"
  shows "b \<in> set rs" "x \<in> set rs \<Longrightarrow> spec_key x \<le> spec_key b"
proof -
  obtain c cs where rs: "rs = c # cs" using assms by (cases rs) simp_all
  then obtain b' where b': "best_of (Some c) cs = Some b'" "b' \<in> set rs" "\<forall>x\<in>set rs. spec_key x \<le> spec_key b'"
    using best_of_Some[of c cs] by auto
  moreover have "b' = b" using assms b'(1) rs by simp
  ultimately show "b \<in> set rs" "x \<in> set rs \<Longrightarrow> spec_key x \<le> spec_key b" by auto
qed

lemma resolve_single_type:
  assumes "\<forall>r\<in>set rs. cr_ruleType r = k"
  shows "foldl keepSpecific (case acc of None \<Rightarrow> [] | Some b \<Rightarrow> [(k, b)]) rs
    = (case best_of acc rs of None \<Rightarrow> [] | Some b \<Rightarrow> [(k, b)])"
  using assms
proof (induction rs arbitrary: acc)
  case (Cons r rs)
  then have "cr_ruleType r = k" by simp
  then have "keepSpecific (case acc of None \<Rightarrow> [] | Some b \<Rightarrow> [(k, b)]) r
      = (case (case acc of None \<Rightarrow> Some r | Some c \<Rightarrow> if isMoreSpecific r c then Some r else Some c) of
           None \<Rightarrow> [] | Some b \<Rightarrow> [(k, b)])"
    by (auto simp: keepSpecific_def split: option.splits)
  then show ?case using Cons by simp
qed simp

definition candidates :: "uuid \<Rightarrow> string \<Rightarrow> ComplianceRuleType \<Rightarrow> millis \<Rightarrow> compliance_db \<Rightarrow> ComplianceRule set" where
  "candidates tenantId jurisdiction ruleType asOf s =
     {r \<in> set (db_rules s). visible tenantId r \<and> cr_jurisdiction r = jurisdiction \<and> cr_ruleType r = ruleType \<and> inForce asOf r}"

lemma getActiveRule_best_of:
  "getActiveRule t j k asOf s = best_of None (filter (inForce asOf) (filter (\<lambda>r. cr_ruleType r = k) (listRules t j s)))"
  using resolve_single_type[of "filter (inForce asOf) (filter (\<lambda>r. cr_ruleType r = k) (listRules t j s))" k None]
  by (simp add: getActiveRule_def resolveEffectiveRules_def split: option.splits)

lemma candidates_list:
  "set (filter (inForce asOf) (filter (\<lambda>r. cr_ruleType r = k) (listRules t j s))) = candidates t j k asOf s"
  by (auto simp: candidates_def listRules_def)

lemma getActiveRule_SomeD:
  assumes "getActiveRule t j k asOf s = Some b"
  shows "b \<in> candidates t j k asOf s" "r \<in> candidates t j k asOf s \<Longrightarrow> spec_key r \<le> spec_key b"
  using best_of_best[OF assms[unfolded getActiveRule_best_of]] by (simp_all only: candidates_list)

lemma getActiveRule_None_iff: "getActiveRule t j k asOf s = None \<longleftrightarrow> candidates t j k asOf s = {}"
  unfolding getActiveRule_best_of best_of_None_iff candidates_list[symmetric] by (simp only: set_empty)

definition versions_unique :: "ComplianceRule list \<Rightarrow> bool" where
  \<comment> \<open>the two partial unique indexes on the version of a scope\<close>
  "versions_unique rules \<longleftrightarrow> (\<forall>r\<in>set rules. \<forall>r'\<in>set rules. cr_tenantId r = cr_tenantId r' \<longrightarrow>
     cr_jurisdiction r = cr_jurisdiction r' \<longrightarrow> cr_ruleType r = cr_ruleType r' \<longrightarrow> cr_version r = cr_version r' \<longrightarrow> r = r')"

lemma candidates_key_inj:
  assumes "versions_unique (db_rules s)" "a \<in> candidates t j k asOf s" "b \<in> candidates t j k asOf s" "spec_key a = spec_key b"
  shows "a = b"
proof -
  have "cr_tenantId a = cr_tenantId b" using assms(2-4) by (auto simp: candidates_def visible_def spec_key_def)
  with assms show ?thesis unfolding versions_unique_def candidates_def spec_key_def by fastforce
qed

lemma getActiveRule_eq:
  assumes "versions_unique (db_rules s)" "b \<in> candidates t j k asOf s"
    and "\<And>r. r \<in> candidates t j k asOf s \<Longrightarrow> spec_key r \<le> spec_key b"
  shows "getActiveRule t j k asOf s = Some b"
proof -
  from assms(2) have "getActiveRule t j k asOf s \<noteq> None" by (auto simp: getActiveRule_None_iff)
  then obtain c where c: "getActiveRule t j k asOf s = Some c" by blast
  then have "spec_key b = spec_key c"
    using getActiveRule_SomeD[OF c] assms(2,3) by (metis antisym)
  then show ?thesis using candidates_key_inj[OF assms(1,2) getActiveRule_SomeD(1)[OF c]] c by simp
qed


section \<open>Invariant\<close>

definition live :: "ComplianceRule \<Rightarrow> bool" where
  "live r \<longleftrightarrow> cr_status r = RULE_ACTIVE \<or> cr_status r = SUPERSEDED"

definition one_active :: "ComplianceRule list \<Rightarrow> bool" where
  "one_active rules \<longleftrightarrow> (\<forall>r\<in>set rules. \<forall>r'\<in>set rules. cr_tenantId r \<noteq> None \<longrightarrow> cr_tenantId r = cr_tenantId r' \<longrightarrow>
     cr_jurisdiction r = cr_jurisdiction r' \<longrightarrow> cr_ruleType r = cr_ruleType r' \<longrightarrow>
     cr_status r = RULE_ACTIVE \<longrightarrow> cr_status r' = RULE_ACTIVE \<longrightarrow> r = r')"

definition reviewed :: "compliance_db \<Rightarrow> bool" where
  "reviewed s \<longleftrightarrow> (\<forall>r\<in>set (db_rules s). \<forall>t. cr_tenantId r = Some t \<longrightarrow> live r \<longrightarrow>
     (\<exists>p\<in>set (db_previews s). pv_tenantId p = t \<and> pv_complianceRuleId p = cr_id r))"

definition cited :: "ComplianceRule list \<Rightarrow> bool" where
  "cited rules \<longleftrightarrow> (\<forall>r\<in>set rules. cr_tenantId r \<noteq> None \<longrightarrow> cr_citation r \<noteq> [] \<and>
     (\<forall>to_date. cr_effectiveTo r = Some to_date \<longrightarrow> cr_effectiveFrom r \<le> to_date))"

definition rules_inv :: "compliance_db \<Rightarrow> bool" where
  "rules_inv s \<longleftrightarrow> distinct (map cr_id (db_rules s)) \<and> versions_unique (db_rules s) \<and> one_active (db_rules s)
     \<and> reviewed s \<and> cited (db_rules s)"

lemma nextVersion_greater:
  "r \<in> set rules \<Longrightarrow> same_scope t j k r \<Longrightarrow> cr_version r < nextVersion t j k rules"
proof -
  have "x \<in> set xs \<Longrightarrow> x \<le> foldr max xs 0" for x :: nat and xs by (induction xs) auto
  then show "r \<in> set rules \<Longrightarrow> same_scope t j k r \<Longrightarrow> cr_version r < nextVersion t j k rules"
    by (simp add: nextVersion_def less_Suc_eq_le)
qed

lemma createRule_inv:
  assumes inv: "rules_inv s" and fresh: "newId \<notin> cr_id ` set (db_rules s)"
    and run: "createRule t input newId now s = (res, s')"
  shows "rules_inv s'"
proof (cases res)
  case (Inl e)
  then have "s' = s" using run by (auto simp: createRule_def Let_def split: if_splits option.splits)
  with inv show ?thesis by simp
next
  case (Inr r)
  then have s': "s' = s\<lparr>db_rules := db_rules s @ [r]\<rparr>" and r: "cr_id r = newId" "cr_tenantId r = Some t"
      "cr_status r = PENDING_REVIEW" "cr_citation r \<noteq> []"
      "cr_version r = nextVersion t (cr_jurisdiction r) (cr_ruleType r) (db_rules s)"
      "\<forall>to_date. cr_effectiveTo r = Some to_date \<longrightarrow> cr_effectiveFrom r \<le> to_date"
    using run by (auto simp: createRule_def Let_def split: if_splits option.splits)
  have "cr_version x \<noteq> cr_version r" if "x \<in> set (db_rules s)" "cr_tenantId x = cr_tenantId r"
    "cr_jurisdiction x = cr_jurisdiction r" "cr_ruleType x = cr_ruleType r" for x
    using nextVersion_greater[OF that(1), of t "cr_jurisdiction r" "cr_ruleType r"] that r by (simp add: same_scope_def)
  then have "versions_unique (db_rules s')" using inv unfolding s' rules_inv_def versions_unique_def by (auto; metis)
  moreover have "one_active (db_rules s')" using inv r unfolding s' rules_inv_def one_active_def by auto
  moreover have "reviewed s'" using inv r unfolding s' rules_inv_def reviewed_def by (auto simp: live_def)
  moreover have "cited (db_rules s')" using inv r unfolding s' rules_inv_def cited_def by auto
  moreover have "distinct (map cr_id (db_rules s'))" using inv fresh r unfolding s' rules_inv_def by auto
  ultimately show ?thesis by (simp add: rules_inv_def)
qed

lemma reviewed_more_previews: "reviewed s \<Longrightarrow> reviewed (s\<lparr>db_previews := db_previews s @ ps\<rparr>)"
  unfolding reviewed_def by fastforce

lemma generatePreview_state:
  assumes "generatePreview cl t ruleId us newId now s = (res, s')"
  shows "\<exists>ps. s' = s\<lparr>db_previews := db_previews s @ ps\<rparr> \<and> (\<forall>p\<in>set ps. pv_tenantId p = t \<and> pv_complianceRuleId p = ruleId)"
proof (cases res)
  case (Inl e)
  then have "s' = s" using assms by (auto simp: generatePreview_def Let_def split: sum.splits option.splits)
  then show ?thesis by (intro exI[of _ "[]"]) simp
next
  case (Inr p)
  then have "s' = s\<lparr>db_previews := db_previews s @ [p]\<rparr> \<and> pv_tenantId p = t \<and> pv_complianceRuleId p = ruleId"
    using assms by (auto simp: generatePreview_def Let_def split: sum.splits option.splits)
  then show ?thesis by (intro exI[of _ "[p]"]) simp
qed

lemma generatePreview_inv:
  assumes "rules_inv s" "generatePreview cl t ruleId us newId now s = (res, s')"
  shows "rules_inv s'"
  using generatePreview_state[OF assms(2)] assms(1) reviewed_more_previews by (auto simp: rules_inv_def)

lemma latestPreview_SomeD:
  assumes "latestPreview t ruleId ps = Some p"
  shows "p \<in> set ps \<and> pv_tenantId p = t \<and> pv_complianceRuleId p = ruleId"
proof -
  let ?l = "js_sort (\<lambda>a b. pv_generatedAt b \<le> pv_generatedAt a) (filter (\<lambda>p. pv_tenantId p = t \<and> pv_complianceRuleId p = ruleId) ps)"
  from assms obtain ps' where "?l = p # ps'" by (auto simp: latestPreview_def split: list.splits)
  then have "p \<in> set ?l" by (metis list.set_intros(1))
  then show ?thesis by simp
qed

text \<open>A successful activation, spelt out.\<close>

lemma activateRule_Inr:
  assumes "activateRule up t ruleId at_time note now s = (Inr r, s')"
  obtains old p where "find_where (\<lambda>r. visible t r \<and> cr_id r = ruleId) (db_rules s) = Some old"
    "cr_tenantId old = Some t" "cr_status old = PENDING_REVIEW" "latestPreview t ruleId (db_previews s) = Some p"
    "pv_wouldBecomeNoncompliantCount p = 0 \<or> truthy_str (map_option js_trim note)"
    "db_rules s' = activate_row ruleId now at_time (supersede_scope t old (db_rules s))"
    "db_previews s' = db_previews s"
    "find_where (\<lambda>r. visible t r \<and> cr_id r = ruleId) (db_rules s') = Some r"
  using assms that
  by (auto simp: activateRule_def activateTxn_def run_txn_def Let_def recordFlaggedActivationAudit_def
      split: option.splits if_splits sum.splits)

lemma activateRule_Inl: "activateRule up t ruleId at_time note now s = (Inl e, s') \<Longrightarrow> s' = s"
  by (auto simp: activateRule_def run_txn_def split: sum.splits)

definition activated :: "uuid \<Rightarrow> ComplianceRule \<Rightarrow> uuid \<Rightarrow> millis \<Rightarrow> millis option \<Rightarrow> ComplianceRule \<Rightarrow> ComplianceRule" where
  \<comment> \<open>what the two updates of an activation make of a row\<close>
  "activated t old ruleId now at_time r =
     (if cr_id r = ruleId then r\<lparr>cr_status := RULE_ACTIVE, cr_activatedAt := Some now, cr_activationDelayUntil := at_time\<rparr>
      else if same_scope t (cr_jurisdiction old) (cr_ruleType old) r \<and> cr_status r = RULE_ACTIVE then r\<lparr>cr_status := SUPERSEDED\<rparr>
      else r)"

lemma activated_fields [simp]:
  "cr_id (activated t old i now a r) = cr_id r" "cr_tenantId (activated t old i now a r) = cr_tenantId r"
  "cr_jurisdiction (activated t old i now a r) = cr_jurisdiction r" "cr_ruleType (activated t old i now a r) = cr_ruleType r"
  "cr_version (activated t old i now a r) = cr_version r" "cr_citation (activated t old i now a r) = cr_citation r"
  "cr_effectiveFrom (activated t old i now a r) = cr_effectiveFrom r"
  "cr_effectiveTo (activated t old i now a r) = cr_effectiveTo r"
  "cr_definition (activated t old i now a r) = cr_definition r"
  by (simp_all add: activated_def)

lemma activate_updates:
  "activate_row ruleId now at_time (supersede_scope t old rules) = map (activated t old ruleId now at_time) rules"
  by (induction rules) (auto simp: activate_row_def supersede_scope_def activated_def same_scope_def)

lemma activateRule_inv:
  assumes inv: "rules_inv s" and run: "activateRule up t ruleId at_time note now s = (res, s')"
  shows "rules_inv s'"
proof (cases res)
  case (Inl e)
  then show ?thesis using run inv activateRule_Inl by blast
next
  case (Inr r)
  obtain old p where
    f: "find_where (\<lambda>r. visible t r \<and> cr_id r = ruleId) (db_rules s) = Some old" and old: "cr_tenantId old = Some t"
    and "cr_status old = PENDING_REVIEW" and lp: "latestPreview t ruleId (db_previews s) = Some p"
    and "pv_wouldBecomeNoncompliantCount p = 0 \<or> truthy_str (map_option js_trim note)"
    and db: "db_rules s' = activate_row ruleId now at_time (supersede_scope t old (db_rules s))" "db_previews s' = db_previews s"
    and "find_where (\<lambda>r. visible t r \<and> cr_id r = ruleId) (db_rules s') = Some r"
    by (rule activateRule_Inr[OF run[unfolded Inr]])
  let ?g = "activated t old ruleId now at_time"
  have om: "old \<in> set (db_rules s)" "cr_id old = ruleId" using find_where_SomeD[OF f] by simp_all
  have rules: "db_rules s' = map ?g (db_rules s)" using db by (simp add: activate_updates)
  have uniq: "x = old" if "x \<in> set (db_rules s)" "cr_id x = ruleId" for x
    using inv om that by (auto simp: rules_inv_def distinct_map inj_on_def)
  have only: "cr_id b = ruleId" if "b \<in> set (db_rules s)" "cr_tenantId b = Some t"
      "cr_jurisdiction b = cr_jurisdiction old" "cr_ruleType b = cr_ruleType old" "cr_status (?g b) = RULE_ACTIVE" for b
    using that by (auto simp: activated_def same_scope_def split: if_splits)
  have "versions_unique (db_rules s')" using inv unfolding rules rules_inv_def versions_unique_def by auto
  moreover have "distinct (map cr_id (db_rules s'))" using inv unfolding rules rules_inv_def by (simp add: comp_def)
  moreover have "cited (db_rules s')" using inv unfolding rules rules_inv_def cited_def by auto
  moreover have "one_active (db_rules s')"
    unfolding one_active_def rules
  proof (clarsimp)
    fix x y u
    assume a: "x \<in> set (db_rules s)" "y \<in> set (db_rules s)" "cr_tenantId x = Some u" "cr_tenantId y = Some u"
      "cr_jurisdiction x = cr_jurisdiction y" "cr_ruleType x = cr_ruleType y"
      "cr_status (?g x) = RULE_ACTIVE" "cr_status (?g y) = RULE_ACTIVE"
    show "?g x = ?g y"
    proof (cases "cr_id x = ruleId \<or> cr_id y = ruleId")
      case True
      then have "x = old \<or> y = old" using uniq a(1,2) by blast
      then have "cr_id x = ruleId \<and> cr_id y = ruleId" using only[OF a(1)] only[OF a(2)] a(3-8) old by auto
      then have "x = y" using uniq a(1,2) by blast
      then show ?thesis by simp
    next
      case False
      then have "cr_status x = RULE_ACTIVE" "cr_status y = RULE_ACTIVE" using a by (auto simp: activated_def split: if_splits)
      then have "x = y" using a inv by (auto simp: rules_inv_def one_active_def)
      then show ?thesis by simp
    qed
  qed
  moreover have "reviewed s'"
    unfolding reviewed_def rules db(2)
  proof (clarsimp)
    fix x u assume a: "x \<in> set (db_rules s)" "cr_tenantId x = Some u" "live (?g x)"
    show "\<exists>p\<in>set (db_previews s). pv_tenantId p = u \<and> pv_complianceRuleId p = cr_id x"
    proof (cases "cr_id x = ruleId")
      case True
      then have "u = t" using uniq a old by simp
      then show ?thesis using latestPreview_SomeD[OF lp] True by auto
    next
      case False
      then have "live x" using a(3) by (auto simp: live_def activated_def split: if_splits)
      then show ?thesis using a inv by (auto simp: rules_inv_def reviewed_def)
    qed
  qed
  ultimately show ?thesis by (simp add: rules_inv_def)
qed


section \<open>Reachable states\<close>

definition rules_start :: "compliance_db \<Rightarrow> bool" where
  \<comment> \<open>the seeded platform defaults\<close>
  "rules_start s \<longleftrightarrow> (\<forall>r\<in>set (db_rules s). cr_tenantId r = None) \<and> distinct (map cr_id (db_rules s))
     \<and> versions_unique (db_rules s) \<and> db_previews s = [] \<and> db_audits s = []"

inductive compliance_step :: "compliance_clients \<Rightarrow> compliance_db \<Rightarrow> compliance_db \<Rightarrow> bool" for cl where
  create: "createRule t input newId now s = (res, s') \<Longrightarrow> newId \<notin> cr_id ` set (db_rules s) \<Longrightarrow> compliance_step cl s s'"
| preview: "generatePreview cl t ruleId us newId now s = (res', s') \<Longrightarrow> compliance_step cl s s'"
| activate: "activateRule up t ruleId at_time note now s = (res, s') \<Longrightarrow> compliance_step cl s s'"

inductive compliance_reach :: "compliance_clients \<Rightarrow> compliance_db \<Rightarrow> bool" for cl where
  start: "rules_start s \<Longrightarrow> compliance_reach cl s"
| step: "compliance_reach cl s \<Longrightarrow> compliance_step cl s s' \<Longrightarrow> compliance_reach cl s'"

lemma rules_start_inv: "rules_start s \<Longrightarrow> rules_inv s"
  by (auto simp: rules_start_def rules_inv_def one_active_def reviewed_def cited_def)

lemma compliance_step_inv: "compliance_step cl s s' \<Longrightarrow> rules_inv s \<Longrightarrow> rules_inv s'"
  by (induction rule: compliance_step.induct) (auto intro: createRule_inv generatePreview_inv activateRule_inv)

lemma compliance_reach_inv: "compliance_reach cl s \<Longrightarrow> rules_inv s"
  by (induction rule: compliance_reach.induct) (auto intro: rules_start_inv compliance_step_inv)

text \<open>The state after an activation, row by row.\<close>

lemma activation_rows:
  assumes inv: "rules_inv s" and run: "activateRule up t ruleId at_time note now s = (Inr r, s')"
  obtains old where "old \<in> set (db_rules s)" "cr_id old = ruleId" "cr_tenantId old = Some t" "cr_status old = PENDING_REVIEW"
    "r = activated t old ruleId now at_time old" "db_rules s' = map (activated t old ruleId now at_time) (db_rules s)"
proof -
  obtain old p where
    f: "find_where (\<lambda>r. visible t r \<and> cr_id r = ruleId) (db_rules s) = Some old" and old: "cr_tenantId old = Some t"
      "cr_status old = PENDING_REVIEW" and "latestPreview t ruleId (db_previews s) = Some p"
      "pv_wouldBecomeNoncompliantCount p = 0 \<or> truthy_str (map_option js_trim note)"
    and db: "db_rules s' = activate_row ruleId now at_time (supersede_scope t old (db_rules s))" "db_previews s' = db_previews s"
    and g: "find_where (\<lambda>r. visible t r \<and> cr_id r = ruleId) (db_rules s') = Some r"
    by (rule activateRule_Inr[OF run])
  have om: "old \<in> set (db_rules s)" "cr_id old = ruleId" using find_where_SomeD[OF f] by simp_all
  have rules: "db_rules s' = map (activated t old ruleId now at_time) (db_rules s)" using db by (simp add: activate_updates)
  from find_where_SomeD[OF g] obtain x where "x \<in> set (db_rules s)" "r = activated t old ruleId now at_time x" "cr_id x = ruleId"
    using rules by auto
  moreover from this have "x = old" using inv om by (auto simp: rules_inv_def distinct_map inj_on_def)
  ultimately show thesis using om old rules by (intro that[of old]) simp_all
qed

lemma activated_takes_effect:
  assumes inv: "rules_inv s" and run: "activateRule up t ruleId at_time note now s = (Inr r, s')"
    and force: "inForce asOf r"
    and newest: "\<forall>x\<in>set (db_rules s). same_scope t (cr_jurisdiction r) (cr_ruleType r) x \<longrightarrow> live x \<longrightarrow> cr_version x < cr_version r"
  shows "getActiveRule t (cr_jurisdiction r) (cr_ruleType r) asOf s' = Some r"
proof -
  obtain old where old: "old \<in> set (db_rules s)" "cr_id old = ruleId" "cr_tenantId old = Some t" "cr_status old = PENDING_REVIEW"
    "r = activated t old ruleId now at_time old" "db_rules s' = map (activated t old ruleId now at_time) (db_rules s)"
    by (rule activation_rows[OF inv run])
  have inv': "rules_inv s'" by (rule activateRule_inv[OF inv run])
  have r: "r \<in> candidates t (cr_jurisdiction r) (cr_ruleType r) asOf s'"
    using old force by (auto simp: candidates_def visible_def)
  show ?thesis
  proof (rule getActiveRule_eq)
    show "versions_unique (db_rules s')" using inv' by (simp add: rules_inv_def)
  next
    fix x assume "x \<in> candidates t (cr_jurisdiction r) (cr_ruleType r) asOf s'"
    then obtain y where y: "y \<in> set (db_rules s)" "x = activated t old ruleId now at_time y" "visible t x" "inForce asOf x"
      "cr_jurisdiction y = cr_jurisdiction old" "cr_ruleType y = cr_ruleType old"
      using old by (auto simp: candidates_def)
    show "spec_key x \<le> spec_key r"
    proof (cases "cr_tenantId y = None")
      case True
      then show ?thesis using y(2) old(3,5) by (simp add: spec_key_def less_eq_prod_def)
    next
      case False
      then have t: "cr_tenantId y = Some t" using y(2,3) by (auto simp: visible_def)
      show ?thesis
      proof (cases "cr_id y = ruleId")
        case True
        then have "y = old" using inv old(1,2) y(1) by (auto simp: rules_inv_def distinct_map inj_on_def)
        then show ?thesis using y(2) old(5) by simp
      next
        case False
        then have "live y" using y(2,4) by (auto simp: live_def inForce_def activated_def split: if_splits)
        moreover have "same_scope t (cr_jurisdiction r) (cr_ruleType r) y" using y t old by (simp add: same_scope_def)
        ultimately show ?thesis using newest y(1,2) t old(3,5) by (auto simp: spec_key_def less_eq_prod_def)
      qed
    qed
  qed (rule r)
qed

text \<open>
  The converse is a flaw: versions are numbered when a draft is created, but drafts may be activated in
  any order. A draft that is activated after a later one stays hidden behind the later version, which the
  activation has just superseded but whose window is still open.
\<close>

theorem late_activation_is_hidden:
  assumes inv: "rules_inv s" and run: "activateRule up t ruleId at_time note now s = (Inr r, s')"
    and x: "x \<in> set (db_rules s)" "same_scope t (cr_jurisdiction r) (cr_ruleType r) x" "cr_status x = RULE_ACTIVE"
      "cr_version r < cr_version x" "inForce asOf x"
  shows "getActiveRule t (cr_jurisdiction r) (cr_ruleType r) asOf s' \<noteq> Some r"
proof
  assume b: "getActiveRule t (cr_jurisdiction r) (cr_ruleType r) asOf s' = Some r"
  obtain old where old: "old \<in> set (db_rules s)" "cr_id old = ruleId" "cr_tenantId old = Some t" "cr_status old = PENDING_REVIEW"
    "r = activated t old ruleId now at_time old" "db_rules s' = map (activated t old ruleId now at_time) (db_rules s)"
    by (rule activation_rows[OF inv run])
  have "cr_id x \<noteq> ruleId" using old x inv by (auto simp: rules_inv_def distinct_map inj_on_def)
  then have "inForce asOf (activated t old ruleId now at_time x)" using x(5) by (auto simp: inForce_def activated_def)
  then have "activated t old ruleId now at_time x \<in> candidates t (cr_jurisdiction r) (cr_ruleType r) asOf s'"
    using old(6) x(1,2) by (auto simp: candidates_def visible_def same_scope_def)
  from getActiveRule_SomeD(2)[OF b this] show False
    using x(2,4) old(3,5) by (auto simp: spec_key_def same_scope_def less_eq_prod_def)
qed

section \<open>What a preview counts\<close>

lemma map_of_map_put: "map_of (map_put m k v) = (map_of m)(k \<mapsto> v)"
  by (induction m k v rule: map_put.induct) (auto simp: fun_eq_iff)

lemma groupShifts_gen:
  "the_default (map_of (foldl (\<lambda>m r. map_put m (sr_employeeId r) (the_default (map_of m (sr_employeeId r)) [] @ [shift_of_record r])) m rs) e) []
   = the_default (map_of m e) [] @ map shift_of_record (filter (\<lambda>r. sr_employeeId r = e) rs)"
  by (induction rs arbitrary: m) (auto simp: map_of_map_put)

lemma groupShifts_of: "the_default (map_of (groupShifts records) e) [] = map shift_of_record (filter (\<lambda>r. sr_employeeId r = e) records)"
  using groupShifts_gen[of "[]"] by (simp add: groupShifts_def)

definition newly_noncompliant :: "ComplianceRule \<Rightarrow> ComplianceRule option \<Rightarrow> SimulatedShift list \<Rightarrow> bool" where
  "newly_noncompliant rule baseline shifts \<longleftrightarrow>
     (case baseline of None \<Rightarrow> True | Some b \<Rightarrow> isCompliant (cr_ruleType rule) (cr_definition b) shifts)
     \<and> \<not> isCompliant (cr_ruleType rule) (cr_definition rule) shifts"

lemma affectedEmployees_eq:
  "affectedEmployees rule baseline (groupShifts records) employeeIds =
   filter (\<lambda>e. newly_noncompliant rule baseline (map shift_of_record (filter (\<lambda>r. sr_employeeId r = e) records))) employeeIds"
  by (simp add: affectedEmployees_def newly_noncompliant_def Let_def groupShifts_of)

lemma all_rosters_Some:
  "all_rosters call us = Some es \<Longrightarrow> set es = (\<Union>u\<in>set us. set (the_default (call u) [])) \<and> (\<forall>u\<in>set us. call u \<noteq> None)"
  by (induction us arbitrary: es) (auto split: option.splits)

text \<open>A rule no stricter than the one in force affects nobody.\<close>

lemma relaxed_rule_affects_none:
  assumes "floor_valid (validatePolicyAgainstFloor (cr_ruleType rule) (cr_definition b) (cr_definition rule))"
  shows "\<not> newly_noncompliant rule (Some b) shifts"
  using stricter_is_compliant[OF assms] by (auto simp: newly_noncompliant_def)


section \<open>Properties\<close>

definition demo_rule_input :: "string \<Rightarrow> CreateComplianceRuleInput" where
  "demo_rule_input c = \<lparr>in_jurisdiction = ''US'', in_ruleType = UNION_RULE,
     in_definition = [''maxShiftLengthMinutes'' \<mapsto> FNumber 480], in_effectiveFrom = (1970, 1, 1),
     in_effectiveTo = None, in_citation = c\<rparr>"

definition demo_roster_clients :: compliance_clients where
  "demo_roster_clients = \<lparr>getSchedulableRoster = \<lambda>t u. Some [\<lparr>re_employeeId = ''e1'', re_orgUnitId = u\<rparr>],
     listPublishedShiftAssignments = \<lambda>t es a b. Some [\<lparr>sr_scheduleId = ''s1'', sr_employeeId = ''e1'',
       sr_shiftStart = 0, sr_shiftEnd = 36000000\<rparr>]\<rparr>"

definition no_rules :: compliance_db where
  "no_rules = \<lparr>db_rules = [], db_previews = [], db_audits = []\<rparr>"

definition demo_drafted :: compliance_db where
  "demo_drafted = snd (createRule ''t'' (demo_rule_input ''29 CFR 785'') ''r1'' 1000 no_rules)"

definition demo_previewed :: compliance_db where
  "demo_previewed = snd (generatePreview demo_roster_clients ''t'' ''r1'' [''u1''] ''p1'' 2000 demo_drafted)"

definition demo_activated :: compliance_db where
  "demo_activated = snd (activateRule True ''t'' ''r1'' None (Some ''agreed'') 3000 demo_previewed)"

definition demo_live_rule :: ComplianceRule where
  "demo_live_rule = \<lparr>cr_id = ''r1'', cr_tenantId = Some ''t'', cr_jurisdiction = ''US'', cr_ruleType = UNION_RULE,
     cr_definition = [''maxShiftLengthMinutes'' \<mapsto> FNumber 480], cr_effectiveFrom = (1970, 1, 1), cr_effectiveTo = None,
     cr_version = 1, cr_citation = ''29 CFR 785'', cr_status = RULE_ACTIVE, cr_activationDelayUntil = None,
     cr_createdAt = 1000, cr_activatedAt = Some 3000\<rparr>"

lemma demo_rules_eval:
  "db_rules demo_drafted = [demo_live_rule\<lparr>cr_status := PENDING_REVIEW, cr_activatedAt := None\<rparr>]"
  "db_previews demo_drafted = []" "db_audits demo_drafted = []"
  by (simp_all add: demo_drafted_def createRule_def demo_rule_input_def no_rules_def nextVersion_def demo_live_rule_def
      js_trim_def is_js_space_def Let_def)

definition demo_preview :: RuleChangeImpactPreview where
  "demo_preview = \<lparr>pv_id = ''p1'', pv_tenantId = ''t'', pv_complianceRuleId = ''r1'',
     pv_simulatedAgainstScheduleIds = [''s1''], pv_wouldBecomeNoncompliantCount = 1, pv_affectedEmployeeIds = [''e1''],
     pv_affectedOrgUnitIds = [''u1''], pv_generatedAt = 2000\<rparr>"

lemma demo_preview_run:
  "generatePreview demo_roster_clients ''t'' ''r1'' [''u1''] ''p1'' 2000 demo_drafted
   = (Inr demo_preview, demo_drafted\<lparr>db_previews := [demo_preview]\<rparr>)"
  by (simp add: generatePreview_def getOwnedRule_def demo_rules_eval visible_def demo_live_rule_def demo_preview_def
      getActiveRule_def listRules_def resolveEffectiveRules_def inForce_def demo_roster_clients_def js_set_def js_add_def
      affectedEmployees_eq newly_noncompliant_def shift_of_record_def isCompliant_def findViolations_def checkUnionRule_def
      numberField_def durationHours_def List.map_filter_def Let_def)

lemma demo_preview_eval: "demo_previewed = demo_drafted\<lparr>db_previews := [demo_preview]\<rparr>"
  by (simp add: demo_previewed_def demo_preview_run)

lemma demo_activation_eval:
  "activateRule True ''t'' ''r1'' None (Some ''agreed'') 3000 demo_previewed = (Inr demo_live_rule, demo_activated)"
  "db_rules demo_activated = [demo_live_rule]"
  by (simp_all add: demo_activated_def activateRule_def activateTxn_def demo_preview_eval demo_preview_def demo_rules_eval demo_live_rule_def
      visible_def latestPreview_def js_trim_def is_js_space_def Let_def activate_updates activated_def run_txn_def
      recordFlaggedActivationAudit_def)

lemma demo_reach: "compliance_reach demo_roster_clients demo_drafted" "compliance_reach demo_roster_clients demo_previewed"
  "compliance_reach demo_roster_clients demo_activated"
proof -
  have "compliance_reach demo_roster_clients no_rules"
    by (rule compliance_reach.start) (simp add: rules_start_def no_rules_def versions_unique_def)
  then show 1: "compliance_reach demo_roster_clients demo_drafted"
  proof (rule compliance_reach.step, intro compliance_step.create)
    show "createRule ''t'' (demo_rule_input ''29 CFR 785'') ''r1'' 1000 no_rules
        = (fst (createRule ''t'' (demo_rule_input ''29 CFR 785'') ''r1'' 1000 no_rules), demo_drafted)"
      by (simp add: demo_drafted_def)
  qed (simp add: no_rules_def)
  show 2: "compliance_reach demo_roster_clients demo_previewed"
    by (rule compliance_reach.step[OF 1], rule compliance_step.preview)
      (unfold demo_previewed_def, rule prod.collapse[symmetric])
  show "compliance_reach demo_roster_clients demo_activated"
    by (rule compliance_reach.step[OF 2], rule compliance_step.activate, rule demo_activation_eval(1))
qed




text \<open>
  The lookup the scheduling service relies on is exact: at any instant \<open>getActiveRule\<close> answers
  the one rule in force that is more specific than every other rule in force for the tenant,
  jurisdiction and type (own before platform default, then the later version), and answers nothing
  exactly when no such rule is in force.
\<close>

theorem getActiveRule_most_specific:
  assumes "compliance_reach cl s"
  shows "(getActiveRule t j k asOf s = Some b) =
      (b \<in> candidates t j k asOf s \<and> (\<forall>r\<in>candidates t j k asOf s - {b}. isMoreSpecific b r))
    \<and> (getActiveRule t j k asOf s = None) = (candidates t j k asOf s = {})"
proof -
  have u: "versions_unique (db_rules s)" using compliance_reach_inv[OF assms] by (simp add: rules_inv_def)
  have "getActiveRule t j k asOf s = Some b \<longleftrightarrow>
      b \<in> candidates t j k asOf s \<and> (\<forall>r\<in>candidates t j k asOf s - {b}. isMoreSpecific b r)"
  proof
    assume b: "getActiveRule t j k asOf s = Some b"
    note best = getActiveRule_SomeD[OF b]
    then show "b \<in> candidates t j k asOf s \<and> (\<forall>r\<in>candidates t j k asOf s - {b}. isMoreSpecific b r)"
      using candidates_key_inj[OF u _ best(1)] by (force simp: isMoreSpecific_key order_less_le)
  next
    assume "b \<in> candidates t j k asOf s \<and> (\<forall>r\<in>candidates t j k asOf s - {b}. isMoreSpecific b r)"
    then show "getActiveRule t j k asOf s = Some b"
      by (intro getActiveRule_eq[OF u]) (auto simp: isMoreSpecific_key intro: less_imp_le)
  qed
  then show ?thesis using getActiveRule_None_iff by simp
qed

lemma demo_day: "utcDateKey 5000 = (1970, 1, 1)"
  by code_simp

lemma demo_candidates: "candidates ''t'' ''US'' UNION_RULE 5000 demo_activated = {demo_live_rule}"
  by (auto simp: candidates_def demo_activation_eval demo_live_rule_def visible_def inForce_def demo_day)

theorem getActiveRule_most_specific_witness:
  "getActiveRule ''t'' ''US'' UNION_RULE 5000 demo_activated = Some demo_live_rule"
  using getActiveRule_most_specific[OF demo_reach(3), of "''t''" "''US''" UNION_RULE 5000 demo_live_rule]
  by (simp add: demo_candidates)

text \<open>
  Activating the newest version of a scope takes effect: whenever the activated rule's window
  covers an instant and no rule of the scope that ever went live has a later version, the lookup
  answers that rule from then on.
\<close>

theorem activation_takes_effect:
  assumes "compliance_reach cl s" "activateRule up t ruleId at_time note now s = (Inr r, s')" "inForce asOf r"
    and "\<forall>x\<in>set (db_rules s). same_scope t (cr_jurisdiction r) (cr_ruleType r) x \<longrightarrow> live x \<longrightarrow> cr_version x < cr_version r"
  shows "getActiveRule t (cr_jurisdiction r) (cr_ruleType r) asOf s' = Some r"
  using compliance_reach_inv[OF assms(1)] assms(2-4) by (rule activated_takes_effect)

theorem activation_takes_effect_witness:
  "activateRule True ''t'' ''r1'' None (Some ''agreed'') 3000 demo_previewed = (Inr demo_live_rule, demo_activated)
   \<and> getActiveRule ''t'' ''US'' UNION_RULE 5000 demo_activated = Some demo_live_rule"
proof -
  have "inForce 5000 demo_live_rule" by (simp add: inForce_def demo_live_rule_def demo_day)
  moreover have "\<forall>x\<in>set (db_rules demo_previewed).
      same_scope ''t'' (cr_jurisdiction demo_live_rule) (cr_ruleType demo_live_rule) x \<longrightarrow> live x \<longrightarrow> cr_version x < cr_version demo_live_rule"
    by (simp add: demo_preview_eval demo_rules_eval live_def)
  ultimately have "getActiveRule ''t'' (cr_jurisdiction demo_live_rule) (cr_ruleType demo_live_rule) 5000 demo_activated = Some demo_live_rule"
    by (rule activation_takes_effect[OF demo_reach(2) demo_activation_eval(1)])
  then show ?thesis using demo_activation_eval(1) by (simp add: demo_live_rule_def)
qed

text \<open>
  An impact preview counts exactly the people the rule would newly break: the employees on the
  rosters of the requested org units whose published shifts satisfy the rule in force and violate the proposed one,
  each once.
\<close>

theorem preview_counts_newly_noncompliant:
  assumes "generatePreview cl t ruleId us newId now s = (Inr p, s')"
    and "getOwnedRule t ruleId s = Inr rule" "all_rosters (getSchedulableRoster cl t) us = Some entries"
    and "listPublishedShiftAssignments cl t (js_set (map re_employeeId entries)) (now - now mod 86400000)
           (now - now mod 86400000 + 28 * 86400000) = Some records"
  shows "set (pv_affectedEmployeeIds p) = {e \<in> re_employeeId ` set entries.
      newly_noncompliant rule (getActiveRule t (cr_jurisdiction rule) (cr_ruleType rule) now s)
        (map shift_of_record (filter (\<lambda>r. sr_employeeId r = e) records))}
    \<and> pv_wouldBecomeNoncompliantCount p = card (set (pv_affectedEmployeeIds p))"
proof -
  let ?P = "\<lambda>e. newly_noncompliant rule (getActiveRule t (cr_jurisdiction rule) (cr_ruleType rule) now s)
        (map shift_of_record (filter (\<lambda>r. sr_employeeId r = e) records))"
  have "pv_affectedEmployeeIds p = filter ?P (js_set (map re_employeeId entries))
      \<and> pv_wouldBecomeNoncompliantCount p = length (filter ?P (js_set (map re_employeeId entries)))"
    using assms by (auto simp: generatePreview_def Let_def affectedEmployees_eq IMPACT_PREVIEW_WINDOW_DAYS_def)
  moreover from this have "length (pv_affectedEmployeeIds p) = card (set (pv_affectedEmployeeIds p))"
    by (intro distinct_card[symmetric]) simp
  ultimately show ?thesis by auto
qed

theorem preview_counts_newly_noncompliant_witness:
  "generatePreview demo_roster_clients ''t'' ''r1'' [''u1''] ''p1'' 2000 demo_drafted
     = (Inr demo_preview, demo_drafted\<lparr>db_previews := [demo_preview]\<rparr>)
   \<and> pv_wouldBecomeNoncompliantCount demo_preview = card {''e1''}"
proof -
  have r: "getOwnedRule ''t'' ''r1'' demo_drafted = Inr (demo_live_rule\<lparr>cr_status := PENDING_REVIEW, cr_activatedAt := None\<rparr>)"
    by (simp add: getOwnedRule_def demo_rules_eval visible_def demo_live_rule_def)
  have e: "all_rosters (getSchedulableRoster demo_roster_clients ''t'') [''u1''] = Some [\<lparr>re_employeeId = ''e1'', re_orgUnitId = ''u1''\<rparr>]"
    by (simp add: demo_roster_clients_def)
  have "pv_wouldBecomeNoncompliantCount demo_preview = card (set (pv_affectedEmployeeIds demo_preview))"
    using preview_counts_newly_noncompliant[OF demo_preview_run r e, of "[\<lparr>sr_scheduleId = ''s1'', sr_employeeId = ''e1'',
       sr_shiftStart = 0, sr_shiftEnd = 36000000\<rparr>]"]
    by (simp only: demo_roster_clients_def compliance_clients.simps)
  then show ?thesis by (simp add: demo_preview_run demo_preview_def)
qed

end
