(* ===== verification/Compliance_Reports.thy ===== *)
theory Compliance_Reports
  imports Compliance_Rules "HOL-Library.List_Lexorder" "HOL-Library.Char_ord"
begin

text \<open>
  Compliance reports of the adherence and compliance service: the CSV writer, the report builders,
  \<open>ComplianceReportService\<close> (request, generate, legal hold), \<open>RetentionPolicyService\<close> and the nightly
  \<open>RetentionLifecycleJobService\<close>, which deletes expired reports and their stored files.

  A cell of a report is the value the builder puts there; \<open>cellText\<close>, a parameter, is its \<open>String(value)\<close>.
  The object store is the list of URIs it holds. The calendar, directory, schedule and storage services
  are parameters. The job is modelled statement by statement, so that requests can run between its
  select and its deletes.
\<close>

section \<open>CSV\<close>

definition needs_quotes :: "string \<Rightarrow> bool" where
  "needs_quotes text \<longleftrightarrow> (\<exists>c\<in>set text. c \<in> {CHR 0x22, CHR '','', CHR 0x0D, CHR 0x0A})"

definition double_quotes :: "string \<Rightarrow> string" where
  "double_quotes text = concat (map (\<lambda>c. if c = CHR 0x22 then [c, c] else [c]) text)"

definition csvField :: "string \<Rightarrow> string" where
  "csvField text = (if needs_quotes text then CHR 0x22 # double_quotes text @ [CHR 0x22] else text)"

fun join_with :: "string \<Rightarrow> string list \<Rightarrow> string" where
  "join_with sep [] = []"
| "join_with sep [x] = x"
| "join_with sep (x # y # ys) = x @ sep @ join_with sep (y # ys)"

definition CRLF :: string where
  "CRLF = [CHR 0x0D, CHR 0x0A]"

definition toCsv :: "string list \<Rightarrow> string list list \<Rightarrow> string" where
  "toCsv headers rows =
     (let lines = map (\<lambda>row. join_with '','' (map csvField row)) (headers # rows)
      in join_with CRLF lines @ CRLF)"

text \<open>A reader of RFC 4180 text, against which the writer is checked.\<close>

datatype csv_mode = FieldStart | Unquoted string | Quoted string | QuoteSeen string

fun csv_read :: "csv_mode \<Rightarrow> string list \<Rightarrow> string \<Rightarrow> string list list option" where
  "csv_read FieldStart row [] = (if row = [] then Some [] else None)"
| "csv_read (Unquoted f) row [] = None"
| "csv_read (Quoted f) row [] = None"
| "csv_read (QuoteSeen f) row [] = None"
| "csv_read FieldStart row (c # cs) =
     (if c = CHR 0x22 then csv_read (Quoted []) row cs
      else if c = CHR '','' then csv_read FieldStart (row @ [[]]) cs
      else if c = CHR 0x0D then (case cs of [] \<Rightarrow> None
        | d # ds \<Rightarrow> if d = CHR 0x0A then map_option ((#) (row @ [[]])) (csv_read FieldStart [] ds) else None)
      else csv_read (Unquoted [c]) row cs)"
| "csv_read (Unquoted f) row (c # cs) =
     (if c = CHR '','' then csv_read FieldStart (row @ [f]) cs
      else if c = CHR 0x0D then (case cs of [] \<Rightarrow> None
        | d # ds \<Rightarrow> if d = CHR 0x0A then map_option ((#) (row @ [f])) (csv_read FieldStart [] ds) else None)
      else csv_read (Unquoted (f @ [c])) row cs)"
| "csv_read (Quoted f) row (c # cs) =
     (if c = CHR 0x22 then csv_read (QuoteSeen f) row cs else csv_read (Quoted (f @ [c])) row cs)"
| "csv_read (QuoteSeen f) row (c # cs) =
     (if c = CHR 0x22 then csv_read (Quoted (f @ [c])) row cs
      else if c = CHR '','' then csv_read FieldStart (row @ [f]) cs
      else if c = CHR 0x0D then (case cs of [] \<Rightarrow> None
        | d # ds \<Rightarrow> if d = CHR 0x0A then map_option ((#) (row @ [f])) (csv_read FieldStart [] ds) else None)
      else None)"

definition parseCsv :: "string \<Rightarrow> string list list option" where
  "parseCsv text = csv_read FieldStart [] text"

lemma read_plain:
  "\<not> needs_quotes xs \<Longrightarrow> csv_read (Unquoted f) row (xs @ rest) = csv_read (Unquoted (f @ xs)) row rest"
  by (induction xs arbitrary: f) (auto simp: needs_quotes_def)

lemma read_quoted: "csv_read (Quoted f) row (double_quotes xs @ rest) = csv_read (Quoted (f @ xs)) row rest"
  by (induction xs arbitrary: f) (auto simp: double_quotes_def)

text \<open>A written field is read back whatever ends it.\<close>

lemma read_csvField:
  "csv_read FieldStart row (csvField x @ CHR '','' # rest) = csv_read FieldStart (row @ [x]) rest"
  "csv_read FieldStart row (csvField x @ CRLF @ rest) = map_option ((#) (row @ [x])) (csv_read FieldStart [] rest)"
proof -
  have "csv_read FieldStart row (csvField x @ t) = csv_read (QuoteSeen x) row t" if "needs_quotes x" for t
    using that read_quoted[of "[]" row x "CHR 0x22 # t"] by (simp add: csvField_def)
  moreover have "csv_read FieldStart row (csvField x @ t) = csv_read (Unquoted x) row t" if q: "\<not> needs_quotes x" and ne: "x \<noteq> []" for t
  proof -
    obtain c cs where x: "x = c # cs" using ne by (cases x) auto
    with q show ?thesis using read_plain[of cs "[c]" row t] by (auto simp: csvField_def needs_quotes_def)
  qed
  moreover have "csvField [] = []" by (simp add: csvField_def needs_quotes_def)
  ultimately show "csv_read FieldStart row (csvField x @ CHR '','' # rest) = csv_read FieldStart (row @ [x]) rest"
    "csv_read FieldStart row (csvField x @ CRLF @ rest) = map_option ((#) (row @ [x])) (csv_read FieldStart [] rest)"
    by (cases "needs_quotes x"; cases "x = []"; simp add: CRLF_def)+
qed

lemma read_row:
  "xs \<noteq> [] \<Longrightarrow> csv_read FieldStart row (join_with '','' (map csvField xs) @ CRLF @ rest)
   = map_option ((#) (row @ xs)) (csv_read FieldStart [] rest)"
proof (induction xs arbitrary: row)
  case (Cons x xs)
  note IH = Cons.IH
  show ?case
  proof (cases xs)
    case Nil
    then show ?thesis by (simp add: read_csvField)
  next
    case (Cons y ys)
    with IH[of "row @ [x]"] show ?thesis by (simp add: read_csvField)
  qed
qed simp

lemma read_lines:
  "\<forall>r\<in>set rows. r \<noteq> [] \<Longrightarrow> rows \<noteq> [] \<Longrightarrow>
   csv_read FieldStart [] (join_with CRLF (map (\<lambda>row. join_with '','' (map csvField row)) rows) @ CRLF) = Some rows"
proof (induction rows)
  case (Cons r rows)
  have r: "r \<noteq> []" using Cons.prems by simp
  note IH = Cons.IH Cons.prems
  show ?case
  proof (cases rows)
    case Nil
    then show ?thesis using read_row[OF r, of "[]" "[]"] by simp
  next
    case (Cons r' rs)
    have "csv_read FieldStart [] (join_with CRLF (map (\<lambda>row. join_with '','' (map csvField row)) rows) @ CRLF) = Some rows"
      using IH Cons by simp
    then show ?thesis using read_row[OF r, of "[]"] Cons by simp
  qed
qed simp

section \<open>Stored files\<close>

definition s3_uri :: "string \<Rightarrow> string \<Rightarrow> string" where
  "s3_uri bucket key = ''s3://'' @ bucket @ ''/'' @ key"

definition is_line_end :: "char \<Rightarrow> bool" where
  "is_line_end c \<longleftrightarrow> c = CHR 0x0A \<or> c = CHR 0x0D"

definition parseS3Uri :: "string \<Rightarrow> (string \<times> string) option" where
  \<comment> \<open>the expression \<open>^s3:\/\/([^/]+)\/(.+)$\<close>; \<open>None\<close> is the thrown error\<close>
  "parseS3Uri uri = (if take 5 uri = ''s3://''
     then let rest = drop 5 uri; bucket = takeWhile (\<lambda>c. c \<noteq> CHR ''/'') rest; tail = dropWhile (\<lambda>c. c \<noteq> CHR ''/'') rest
       in if bucket = [] \<or> tail = [] \<or> tl tail = [] \<or> (\<exists>c\<in>set (tl tail). is_line_end c) then None else Some (bucket, tl tail)
     else None)"

lemma parseS3Uri_uri:
  assumes "bucket \<noteq> []" "CHR ''/'' \<notin> set bucket" "key \<noteq> []" "\<forall>c\<in>set key. \<not> is_line_end c"
  shows "parseS3Uri (s3_uri bucket key) = Some (bucket, key)"
proof -
  have a: "\<forall>c\<in>set bucket. c \<noteq> CHR ''/''" using assms(2) by auto
  have "takeWhile (\<lambda>c. c \<noteq> CHR ''/'') (bucket @ CHR ''/'' # key) = bucket"
    using a by (subst takeWhile_append2) auto
  moreover have "dropWhile (\<lambda>c. c \<noteq> CHR ''/'') (bucket @ CHR ''/'' # key) = CHR ''/'' # key"
    using a by (subst dropWhile_append2) auto
  ultimately show ?thesis using assms by (simp add: parseS3Uri_def s3_uri_def Let_def)
qed


section \<open>Reports and retention policies\<close>

datatype ComplianceReportType = ADHERENCE_SUMMARY | OVERTIME_AUDIT | REST_PERIOD_AUDIT | REGULATOR_EXPORT
datatype ComplianceReportStatus = REPORT_PENDING | REPORT_COMPLETED | REPORT_FAILED

record ComplianceReport =
  rp_id :: uuid
  rp_tenantId :: uuid
  rp_reportType :: ComplianceReportType
  rp_dateRangeStart :: iso_date
  rp_dateRangeEnd :: iso_date
  rp_orgUnitScope :: "uuid option"
  rp_status :: ComplianceReportStatus
  rp_generatedAt :: millis
  rp_generatedBy :: uuid
  rp_fileUri :: "string option"
  rp_retentionExpiresAt :: millis
  rp_legalHold :: bool

record RetentionPolicy =
  rt_policyId :: uuid
  rt_policyTenant :: "uuid option"
  rt_jurisdiction :: string
  rt_retentionYears :: int
  rt_appliesToReportTypes :: "ComplianceReportType list"
  rt_createdAt :: millis

record AdherenceScoreRow =
  as_tenantId :: uuid
  as_employeeId :: uuid
  as_periodType :: string
  as_periodStart :: millis
  as_periodEnd :: millis
  as_adherentSeconds :: int
  as_totalScheduledSeconds :: int
  as_adherencePct :: string
  as_majorDeviationCount :: int

record report_db =
  rd_reports :: "ComplianceReport list"
  rd_policies :: "RetentionPolicy list"
  rd_scores :: "AdherenceScoreRow list"
  rd_rules :: compliance_db
  rd_objects :: "string list"

record report_clients = compliance_clients +
  getCountryCode :: "uuid \<Rightarrow> uuid \<Rightarrow> string option" \<comment> \<open>\<open>getWorkingTimeRules(...).countryCode\<close>\<close>

datatype report_error = OrgUnitScopeRequiredError ComplianceReportType | ComplianceReportNotFoundError uuid
  | InvalidRetentionYearsError int | CheckViolation | ReportRemoteUnavailable

section \<open>Building a table\<close>

datatype report_cell = CText string | CNumber int | CInstant millis | CRule ComplianceRuleType
  | CViolation schedule_violation | CEffectiveFrom iso_date

record CsvTable =
  csv_headers :: "string list"
  csv_rows :: "report_cell list list"

definition buildAdherenceSummaryReport :: "AdherenceScoreRow list \<Rightarrow> CsvTable" where
  "buildAdherenceSummaryReport scores = \<lparr>
     csv_headers = [''employeeId'', ''periodType'', ''periodStart'', ''periodEnd'', ''adherentSeconds'',
       ''totalScheduledSeconds'', ''adherencePct'', ''majorDeviationCount''],
     csv_rows = map (\<lambda>s. [CText (as_employeeId s), CText (as_periodType s), CInstant (as_periodStart s),
       CInstant (as_periodEnd s), CNumber (as_adherentSeconds s), CNumber (as_totalScheduledSeconds s),
       CText (as_adherencePct s), CNumber (as_majorDeviationCount s)]) scores\<rparr>"

type_synonym employee_shifts = "uuid \<times> SimulatedShift list"

definition buildViolationAuditReport ::
  "ComplianceRuleType \<Rightarrow> (string \<times> rule_definition) option \<Rightarrow> employee_shifts list \<Rightarrow> CsvTable" where
  "buildViolationAuditReport ruleType rule employeeShifts = \<lparr>
     csv_headers = [''employeeId'', ''ruleType'', ''violation'', ''citation''],
     csv_rows = (case rule of None \<Rightarrow> []
       | Some (citation, d) \<Rightarrow> concat (map (\<lambda>(employeeId, shifts).
           map (\<lambda>v. [CText employeeId, CRule ruleType, CViolation v, CText citation]) (findViolations ruleType d shifts))
           employeeShifts))\<rparr>"

definition export_violation :: "report_cell list \<Rightarrow> report_cell list" where
  "export_violation row = (case row of [employeeId, ruleType, v, citation] \<Rightarrow>
     [CText ''violation'', ruleType, citation, employeeId, v] | _ \<Rightarrow> row)"

definition buildRegulatorExportReport :: "ComplianceRule list \<Rightarrow> CsvTable \<Rightarrow> CsvTable \<Rightarrow> CsvTable" where
  "buildRegulatorExportReport activeRules overtimeAudit restPeriodAudit = \<lparr>
     csv_headers = [''recordType'', ''ruleType'', ''citation'', ''employeeId'', ''detail''],
     csv_rows = map (\<lambda>r. [CText ''active_rule'', CRule (cr_ruleType r), CText (cr_citation r), CText [],
         CEffectiveFrom (cr_effectiveFrom r)]) activeRules
       @ map export_violation (csv_rows overtimeAudit) @ map export_violation (csv_rows restPeriodAudit)\<rparr>"

definition toWindow :: "iso_date \<Rightarrow> iso_date \<Rightarrow> millis \<times> millis" where
  "toWindow dateRangeStart dateRangeEnd = (date_utc dateRangeStart, date_utc dateRangeEnd + 86400000)"

definition fetchEmployeeShifts ::
  "report_clients \<Rightarrow> uuid \<Rightarrow> uuid \<Rightarrow> iso_date \<Rightarrow> iso_date \<Rightarrow> employee_shifts list option" where
  "fetchEmployeeShifts cl tenantId orgUnitId dateRangeStart dateRangeEnd =
     (case getSchedulableRoster cl tenantId orgUnitId of None \<Rightarrow> None
      | Some roster \<Rightarrow>
          let employeeIds = map re_employeeId roster in
          (case toWindow dateRangeStart dateRangeEnd of (windowStart, windowEnd) \<Rightarrow>
             (case listPublishedShiftAssignments cl tenantId employeeIds windowStart windowEnd of None \<Rightarrow> None
              | Some records \<Rightarrow> Some (map (\<lambda>e. (e, the_default (map_of (groupShifts records) e) [])) employeeIds))))"

definition auditAgainstRule ::
  "uuid \<Rightarrow> string \<Rightarrow> ComplianceRuleType \<Rightarrow> iso_date \<Rightarrow> employee_shifts list \<Rightarrow> compliance_db \<Rightarrow> CsvTable" where
  "auditAgainstRule tenantId jurisdiction ruleType asOfDate employeeShifts s =
     buildViolationAuditReport ruleType
       (map_option (\<lambda>r. (cr_citation r, cr_definition r)) (getActiveRule tenantId jurisdiction ruleType (date_utc asOfDate) s))
       employeeShifts"

definition buildAudit :: "report_clients \<Rightarrow> uuid \<Rightarrow> ComplianceReport \<Rightarrow> ComplianceRuleType \<Rightarrow> report_db \<Rightarrow> CsvTable option" where
  "buildAudit cl tenantId report ruleType s =
     (let orgUnitId = the_default (rp_orgUnitScope report) [] in
      (case getCountryCode cl tenantId orgUnitId of None \<Rightarrow> None
       | Some jurisdiction \<Rightarrow>
           map_option (\<lambda>es. auditAgainstRule tenantId jurisdiction ruleType (rp_dateRangeEnd report) es (rd_rules s))
             (fetchEmployeeShifts cl tenantId orgUnitId (rp_dateRangeStart report) (rp_dateRangeEnd report))))"

definition buildRegulatorExport :: "report_clients \<Rightarrow> uuid \<Rightarrow> ComplianceReport \<Rightarrow> millis \<Rightarrow> report_db \<Rightarrow> CsvTable option" where
  "buildRegulatorExport cl tenantId report now s =
     (let orgUnitId = the_default (rp_orgUnitScope report) [] in
      (case getCountryCode cl tenantId orgUnitId of None \<Rightarrow> None
       | Some jurisdiction \<Rightarrow>
           map_option (\<lambda>es. buildRegulatorExportReport (findEffectiveRules tenantId jurisdiction now (rd_rules s))
               (auditAgainstRule tenantId jurisdiction OVERTIME_THRESHOLD (rp_dateRangeEnd report) es (rd_rules s))
               (auditAgainstRule tenantId jurisdiction REST_PERIOD_MINIMUM (rp_dateRangeEnd report) es (rd_rules s)))
             (fetchEmployeeShifts cl tenantId orgUnitId (rp_dateRangeStart report) (rp_dateRangeEnd report))))"

definition score_order :: "AdherenceScoreRow \<Rightarrow> AdherenceScoreRow \<Rightarrow> bool" where
  "score_order a b \<longleftrightarrow> (as_employeeId a, as_periodStart a) \<le> (as_employeeId b, as_periodStart b)"

definition buildAdherenceSummary :: "report_clients \<Rightarrow> uuid \<Rightarrow> ComplianceReport \<Rightarrow> report_db \<Rightarrow> CsvTable option" where
  "buildAdherenceSummary cl tenantId report s =
     (let scope = (if truthy_str (rp_orgUnitScope report)
          then map_option (\<lambda>roster. Some (map re_employeeId roster)) (getSchedulableRoster cl tenantId (the (rp_orgUnitScope report)))
          else Some None)
      in (case scope of None \<Rightarrow> None
          | Some employeeIds \<Rightarrow> (case toWindow (rp_dateRangeStart report) (rp_dateRangeEnd report) of (windowStart, windowEnd) \<Rightarrow>
              Some (buildAdherenceSummaryReport (js_sort score_order (filter (\<lambda>r. as_tenantId r = tenantId
                \<and> windowStart \<le> as_periodStart r \<and> as_periodStart r < windowEnd
                \<and> (case employeeIds of None \<Rightarrow> True | Some ids \<Rightarrow> as_employeeId r \<in> set ids)) (rd_scores s)))))))"

definition buildTable :: "report_clients \<Rightarrow> uuid \<Rightarrow> ComplianceReport \<Rightarrow> millis \<Rightarrow> report_db \<Rightarrow> CsvTable option" where
  "buildTable cl tenantId report now s = (case rp_reportType report of
      ADHERENCE_SUMMARY \<Rightarrow> buildAdherenceSummary cl tenantId report s
    | OVERTIME_AUDIT \<Rightarrow> buildAudit cl tenantId report OVERTIME_THRESHOLD s
    | REST_PERIOD_AUDIT \<Rightarrow> buildAudit cl tenantId report REST_PERIOD_MINIMUM s
    | REGULATOR_EXPORT \<Rightarrow> buildRegulatorExport cl tenantId report now s)"

section \<open>ComplianceReportService\<close>

definition DEFAULT_RETENTION_YEARS :: int where
  "DEFAULT_RETENTION_YEARS = 7"

definition find_policy :: "uuid option \<Rightarrow> string \<Rightarrow> RetentionPolicy list \<Rightarrow> RetentionPolicy option" where
  "find_policy tenant jurisdiction = find_where (\<lambda>p. rt_policyTenant p = tenant \<and> rt_jurisdiction p = jurisdiction)"

definition resolvePolicy :: "uuid \<Rightarrow> string \<Rightarrow> RetentionPolicy list \<Rightarrow> RetentionPolicy option" where
  "resolvePolicy tenantId jurisdiction policies =
     (case find_policy (Some tenantId) jurisdiction policies of
        Some tenantPolicy \<Rightarrow> Some tenantPolicy
      | None \<Rightarrow> find_policy None jurisdiction policies)"

definition resolveRetentionExpiry :: "report_clients \<Rightarrow> uuid \<Rightarrow> uuid option \<Rightarrow> millis \<Rightarrow> report_db \<Rightarrow> millis" where
  "resolveRetentionExpiry cl tenantId orgUnitId generatedAt s =
     (let years = (if truthy_str orgUnitId
          then (case getCountryCode cl tenantId (the orgUnitId) of
                  None \<Rightarrow> DEFAULT_RETENTION_YEARS
                | Some jurisdiction \<Rightarrow> (case resolvePolicy tenantId jurisdiction (rd_policies s) of
                    None \<Rightarrow> DEFAULT_RETENTION_YEARS | Some policy \<Rightarrow> rt_retentionYears policy))
          else DEFAULT_RETENTION_YEARS)
      in addUTCYears generatedAt years)"

record CreateComplianceReportDto =
  dto_reportType :: ComplianceReportType
  dto_dateRangeStart :: iso_date
  dto_dateRangeEnd :: iso_date
  dto_orgUnitScope :: "uuid option"
  dto_generatedBy :: uuid

definition ORG_UNIT_SCOPE_REQUIRED_TYPES :: "ComplianceReportType list" where
  "ORG_UNIT_SCOPE_REQUIRED_TYPES = [OVERTIME_AUDIT, REST_PERIOD_AUDIT, REGULATOR_EXPORT]"

definition requestReport ::
  "report_clients \<Rightarrow> uuid \<Rightarrow> CreateComplianceReportDto \<Rightarrow> uuid \<Rightarrow> millis \<Rightarrow> (report_db, report_error, ComplianceReport) svc" where
  "requestReport cl tenantId input newId now s =
     (if dto_reportType input \<in> set ORG_UNIT_SCOPE_REQUIRED_TYPES \<and> \<not> truthy_str (dto_orgUnitScope input)
      then (Inl (OrgUnitScopeRequiredError (dto_reportType input)), s)
      else let report = \<lparr>rp_id = newId, rp_tenantId = tenantId, rp_reportType = dto_reportType input,
             rp_dateRangeStart = dto_dateRangeStart input, rp_dateRangeEnd = dto_dateRangeEnd input,
             rp_orgUnitScope = dto_orgUnitScope input, rp_status = REPORT_PENDING, rp_generatedAt = now,
             rp_generatedBy = dto_generatedBy input, rp_fileUri = None,
             rp_retentionExpiresAt = resolveRetentionExpiry cl tenantId (dto_orgUnitScope input) now s,
             rp_legalHold = False\<rparr>
        in if dto_dateRangeEnd input < dto_dateRangeStart input then (Inl CheckViolation, s)
           else (Inr report, s\<lparr>rd_reports := rd_reports s @ [report]\<rparr>))"

definition report_key :: "uuid \<Rightarrow> uuid \<Rightarrow> string" where
  "report_key tenantId reportId = ''reports/'' @ tenantId @ ''/'' @ reportId @ ''.csv''"

definition generate ::
  "report_clients \<Rightarrow> string \<Rightarrow> bool \<Rightarrow> uuid \<Rightarrow> uuid \<Rightarrow> millis \<Rightarrow> report_db \<Rightarrow> report_db" where
  "generate cl bucket uploadUp tenantId reportId now s =
     (case find_where (\<lambda>r. rp_tenantId r = tenantId \<and> rp_id r = reportId) (rd_reports s) of
        None \<Rightarrow> s
      | Some report \<Rightarrow>
          let mark = (\<lambda>f. update_where (\<lambda>r. rp_tenantId r = tenantId \<and> rp_id r = reportId) f (rd_reports s)) in
          (case buildTable cl tenantId report now s of
             None \<Rightarrow> s\<lparr>rd_reports := mark (\<lambda>r. r\<lparr>rp_status := REPORT_FAILED\<rparr>)\<rparr>
           | Some table \<Rightarrow>
               if \<not> uploadUp then s\<lparr>rd_reports := mark (\<lambda>r. r\<lparr>rp_status := REPORT_FAILED\<rparr>)\<rparr>
               else let uri = s3_uri bucket (report_key tenantId reportId) in
                 s\<lparr>rd_objects := js_add (rd_objects s) uri,
                   rd_reports := mark (\<lambda>r. r\<lparr>rp_status := REPORT_COMPLETED, rp_fileUri := Some uri\<rparr>)\<rparr>))"

definition getOwnedReport :: "uuid \<Rightarrow> uuid \<Rightarrow> report_db \<Rightarrow> report_error + ComplianceReport" where
  "getOwnedReport tenantId reportId s =
     (case find_where (\<lambda>r. rp_tenantId r = tenantId \<and> rp_id r = reportId) (rd_reports s) of
        None \<Rightarrow> Inl (ComplianceReportNotFoundError reportId)
      | Some report \<Rightarrow> if rp_tenantId report \<noteq> tenantId then Inl (ComplianceReportNotFoundError reportId) else Inr report)"

definition setLegalHold :: "uuid \<Rightarrow> uuid \<Rightarrow> bool \<Rightarrow> (report_db, report_error, ComplianceReport) svc" where
  "setLegalHold tenantId reportId legalHold s = (case getOwnedReport tenantId reportId s of
      Inl e \<Rightarrow> (Inl e, s)
    | Inr report \<Rightarrow> (Inr (report\<lparr>rp_legalHold := legalHold\<rparr>),
        s\<lparr>rd_reports := update_where (\<lambda>r. rp_tenantId r = tenantId \<and> rp_id r = reportId)
            (\<lambda>r. r\<lparr>rp_legalHold := legalHold\<rparr>) (rd_reports s)\<rparr>))"

definition listReports :: "uuid \<Rightarrow> report_db \<Rightarrow> ComplianceReport list" where
  "listReports tenantId s = js_sort (\<lambda>a b. rp_generatedAt b \<le> rp_generatedAt a) (filter (\<lambda>r. rp_tenantId r = tenantId) (rd_reports s))"

section \<open>RetentionPolicyService\<close>

definition DEFAULT_REPORT_TYPES :: "ComplianceReportType list" where
  "DEFAULT_REPORT_TYPES = [ADHERENCE_SUMMARY, OVERTIME_AUDIT, REST_PERIOD_AUDIT, REGULATOR_EXPORT]"

definition listPolicies :: "(string \<Rightarrow> string \<Rightarrow> bool) \<Rightarrow> uuid \<Rightarrow> report_db \<Rightarrow> RetentionPolicy list" where
  \<comment> \<open>\<open>localeLe\<close> is \<open>a.localeCompare(b) <= 0\<close>\<close>
  "listPolicies localeLe tenantId s =
     (let tenantOwned = js_sort (\<lambda>a b. rt_jurisdiction a \<le> rt_jurisdiction b)
            (filter (\<lambda>p. rt_policyTenant p = Some tenantId) (rd_policies s));
          platformDefaults = js_sort (\<lambda>a b. rt_jurisdiction a \<le> rt_jurisdiction b)
            (filter (\<lambda>p. rt_policyTenant p = None) (rd_policies s));
          overridden = map rt_jurisdiction tenantOwned
      in js_sort (\<lambda>a b. localeLe (rt_jurisdiction a) (rt_jurisdiction b))
           (tenantOwned @ filter (\<lambda>p. rt_jurisdiction p \<notin> set overridden) platformDefaults))"

definition setPolicy ::
  "uuid \<Rightarrow> string \<Rightarrow> int \<Rightarrow> ComplianceReportType list option \<Rightarrow> uuid \<Rightarrow> millis \<Rightarrow> (report_db, report_error, RetentionPolicy) svc" where
  "setPolicy tenantId jurisdiction retentionYears appliesTo newId now s =
     (if retentionYears \<le> 0 then (Inl (InvalidRetentionYearsError retentionYears), s)
      else let existing = find_policy (Some tenantId) jurisdiction (rd_policies s);
               types = the_default appliesTo (the_default (map_option rt_appliesToReportTypes existing) DEFAULT_REPORT_TYPES)
        in (case existing of
              Some p \<Rightarrow>
                let updated = p\<lparr>rt_retentionYears := retentionYears, rt_appliesToReportTypes := types\<rparr>
                in (Inr updated, s\<lparr>rd_policies := update_where (\<lambda>q. rt_policyId q = rt_policyId p)
                      (\<lambda>q. q\<lparr>rt_retentionYears := retentionYears, rt_appliesToReportTypes := types\<rparr>) (rd_policies s)\<rparr>)
            | None \<Rightarrow>
                let p = \<lparr>rt_policyId = newId, rt_policyTenant = Some tenantId, rt_jurisdiction = jurisdiction,
                  rt_retentionYears = retentionYears, rt_appliesToReportTypes = types, rt_createdAt = now\<rparr>
                in (Inr p, s\<lparr>rd_policies := rd_policies s @ [p]\<rparr>)))"

section \<open>RetentionLifecycleJobService\<close>

definition expired_unheld :: "millis \<Rightarrow> ComplianceReport \<Rightarrow> bool" where
  "expired_unheld now r \<longleftrightarrow> rp_retentionExpiresAt r < now \<and> \<not> rp_legalHold r"

definition selectExpired :: "nat \<Rightarrow> millis \<Rightarrow> report_db \<Rightarrow> (uuid \<times> string option) list" where
  "selectExpired batchSize now s =
     map (\<lambda>r. (rp_id r, rp_fileUri r)) (take batchSize (filter (expired_unheld now) (rd_reports s)))"

definition deleteObject :: "bool \<Rightarrow> string \<Rightarrow> string list \<Rightarrow> string list option" where
  \<comment> \<open>\<open>None\<close>: the URI does not parse or the call fails; deleting an absent key succeeds\<close>
  "deleteObject storeUp uri objects = (case parseS3Uri uri of
      None \<Rightarrow> None | Some _ \<Rightarrow> if storeUp then Some (delete_where (\<lambda>u. u = uri) objects) else None)"

definition sweepRow :: "bool \<Rightarrow> uuid \<times> string option \<Rightarrow> report_db \<Rightarrow> report_db" where
  "sweepRow storeUp row s = (case row of (rid, file_uri) \<Rightarrow>
     (case (if truthy_str file_uri then deleteObject storeUp (the file_uri) (rd_objects s) else Some (rd_objects s)) of
        None \<Rightarrow> s
      | Some objects \<Rightarrow> s\<lparr>rd_objects := objects, rd_reports := delete_where (\<lambda>r. rp_id r = rid) (rd_reports s)\<rparr>))"

definition sweepExpiredReports :: "nat \<Rightarrow> millis \<Rightarrow> (uuid \<Rightarrow> bool) \<Rightarrow> report_db \<Rightarrow> report_db" where
  \<comment> \<open>\<open>storeUp\<close> tells for which rows the object store answers\<close>
  "sweepExpiredReports batchSize now storeUp s =
     foldl (\<lambda>st row. sweepRow (storeUp (fst row)) row st) s (selectExpired batchSize now s)"

section \<open>Interleaved requests and sweeps\<close>

type_synonym report_system = "report_db \<times> (uuid \<times> string option) list"

datatype report_op =
    RRequest uuid CreateComplianceReportDto uuid millis
  | RGenerate string bool uuid uuid millis
  | RHold uuid uuid bool
  | RPolicy uuid string int "ComplianceReportType list option" uuid millis
  | RSelect nat millis
  | RSweepRow bool

fun report_do :: "report_clients \<Rightarrow> report_op \<Rightarrow> report_system \<Rightarrow> report_system" where
  "report_do cl (RRequest t input newId now) (s, rows) = (snd (requestReport cl t input newId now s), rows)"
| "report_do cl (RGenerate bucket up t rid now) (s, rows) = (generate cl bucket up t rid now s, rows)"
| "report_do cl (RHold t rid h) (s, rows) = (snd (setLegalHold t rid h s), rows)"
| "report_do cl (RPolicy t j y types newId now) (s, rows) = (snd (setPolicy t j y types newId now s), rows)"
| "report_do cl (RSelect batch now) (s, rows) = (s, if rows = [] then selectExpired batch now s else rows)"
| "report_do cl (RSweepRow up) (s, rows) = (case rows of [] \<Rightarrow> (s, []) | row # rest \<Rightarrow> (sweepRow up row s, rest))"

fun op_fresh :: "report_op \<Rightarrow> report_system \<Rightarrow> bool" where
  \<comment> \<open>\<open>randomUUID\<close> never repeats an id in use\<close>
  "op_fresh (RRequest t input newId now) (s, rows) \<longleftrightarrow> newId \<notin> rp_id ` set (rd_reports s) \<and> newId \<notin> fst ` set rows"
| "op_fresh _ _ \<longleftrightarrow> True"

fun lifts_hold :: "uuid \<Rightarrow> report_op \<Rightarrow> bool" where
  "lifts_hold rid (RHold t i h) \<longleftrightarrow> i = rid \<and> \<not> h"
| "lifts_hold rid _ \<longleftrightarrow> False"

fun report_run :: "report_clients \<Rightarrow> report_op list \<Rightarrow> report_system \<Rightarrow> report_system" where
  "report_run cl [] st = st"
| "report_run cl (op # ops) st = report_run cl ops (report_do cl op st)"

fun run_fresh :: "report_clients \<Rightarrow> report_op list \<Rightarrow> report_system \<Rightarrow> bool" where
  "run_fresh cl [] st \<longleftrightarrow> True"
| "run_fresh cl (op # ops) st \<longleftrightarrow> op_fresh op st \<and> run_fresh cl ops (report_do cl op st)"

definition held_safe :: "uuid \<Rightarrow> report_system \<Rightarrow> bool" where
  "held_safe rid st \<longleftrightarrow> distinct (map rp_id (rd_reports (fst st))) \<and> rid \<notin> fst ` set (snd st)
     \<and> (\<exists>r\<in>set (rd_reports (fst st)). rp_id r = rid \<and> rp_legalHold r)"

lemma held_safe_update:
  assumes "held_safe rid (s, rows)" "rd_reports s' = update_where P f (rd_reports s)" "\<And>r. rp_id (f r) = rp_id r"
    and "\<And>r. r \<in> set (rd_reports s) \<Longrightarrow> P r \<Longrightarrow> rp_id r = rid \<Longrightarrow> rp_legalHold r \<Longrightarrow> rp_legalHold (f r)"
  shows "held_safe rid (s', rows)"
proof -
  obtain r where r: "r \<in> set (rd_reports s)" "rp_id r = rid" "rp_legalHold r" using assms(1) by (auto simp: held_safe_def)
  let ?r = "if P r then f r else r"
  have "?r \<in> set (rd_reports s')" unfolding assms(2) using r(1) by (rule update_where_mem)
  moreover have "rp_id ?r = rid" "rp_legalHold ?r" using r assms(3,4) by auto
  moreover have "map rp_id (rd_reports s') = map rp_id (rd_reports s)"
    unfolding assms(2) by (rule map_update_where) (rule assms(3))
  ultimately show ?thesis using assms(1) unfolding held_safe_def by auto
qed

lemma held_safe_same: "held_safe rid (s, rows) \<Longrightarrow> rd_reports s' = rd_reports s \<Longrightarrow> held_safe rid (s', rows)"
  by (simp add: held_safe_def)

lemma sweepRow_reports:
  "rd_reports (sweepRow up row s) = rd_reports s \<or> rd_reports (sweepRow up row s) = delete_where (\<lambda>r. rp_id r = fst row) (rd_reports s)"
  by (auto simp: sweepRow_def split: prod.splits option.splits if_splits)

lemma sweepRow_keeps_held:
  assumes "held_safe rid (s, row # rest)"
  shows "held_safe rid (sweepRow up row s, rest)"
  using sweepRow_reports[of up row s] assms
  by (auto simp: held_safe_def delete_where_def distinct_map_filter)

lemma selectExpired_not_held:
  assumes "held_safe rid (s, [])"
  shows "held_safe rid (s, selectExpired batch now s)"
proof -
  obtain r where r: "r \<in> set (rd_reports s)" "rp_id r = rid" "rp_legalHold r" "distinct (map rp_id (rd_reports s))"
    using assms by (auto simp: held_safe_def)
  have "rid \<notin> fst ` set (selectExpired batch now s)"
  proof
    assume "rid \<in> fst ` set (selectExpired batch now s)"
    then obtain x where "x \<in> set (take batch (filter (expired_unheld now) (rd_reports s)))" "rp_id x = rid"
      by (auto simp: selectExpired_def)
    then have "x \<in> set (rd_reports s)" "\<not> rp_legalHold x" "rp_id x = rp_id r"
      using r(2) by (auto dest: in_set_takeD simp: expired_unheld_def)
    with r show False by (auto simp: distinct_map inj_on_def)
  qed
  with assms show ?thesis by (simp add: held_safe_def)
qed

lemma requestReport_reports:
  "rd_reports (snd (requestReport cl t input newId now s)) = rd_reports s \<or>
   (\<exists>r. rp_id r = newId \<and> rd_reports (snd (requestReport cl t input newId now s)) = rd_reports s @ [r])"
  by (auto simp: requestReport_def Let_def)

lemma generate_reports:
  "\<exists>P f. rd_reports (generate cl bucket up t rid' now s) = update_where P f (rd_reports s)
     \<and> (\<forall>r. rp_id (f r) = rp_id r \<and> rp_legalHold (f r) = rp_legalHold r)"
proof (cases "find_where (\<lambda>r. rp_tenantId r = t \<and> rp_id r = rid') (rd_reports s)")
  case None
  then show ?thesis
    by (intro exI[of _ "\<lambda>_. False"] exI[of _ "\<lambda>r. r"]) (simp add: generate_def update_where_def)
next
  case (Some report)
  show ?thesis
  proof (cases "buildTable cl t report now s")
    case None
    with Some show ?thesis
      by (intro exI[of _ "\<lambda>r. rp_tenantId r = t \<and> rp_id r = rid'"] exI[of _ "\<lambda>r. r\<lparr>rp_status := REPORT_FAILED\<rparr>"])
        (simp add: generate_def Let_def)
  next
    case (Some table)
    with \<open>find_where _ _ = Some report\<close> show ?thesis
      by (intro exI[of _ "\<lambda>r. rp_tenantId r = t \<and> rp_id r = rid'"]
          exI[of _ "if up then (\<lambda>r. r\<lparr>rp_status := REPORT_COMPLETED, rp_fileUri := Some (s3_uri bucket (report_key t rid'))\<rparr>)
            else (\<lambda>r. r\<lparr>rp_status := REPORT_FAILED\<rparr>)"]) (simp add: generate_def Let_def)
  qed
qed

lemma held_safe_step:
  assumes "held_safe rid (s, rows)" "op_fresh op (s, rows)" "\<not> lifts_hold rid op"
  shows "held_safe rid (report_do cl op (s, rows))"
proof (cases op)
  case (RRequest t input newId now)
  then show ?thesis using requestReport_reports[of cl t input newId now s] assms by (auto simp: held_safe_def)
next
  case (RGenerate bucket up t rid' now)
  obtain P f where "rd_reports (generate cl bucket up t rid' now s) = update_where P f (rd_reports s)"
      "\<forall>r. rp_id (f r) = rp_id r \<and> rp_legalHold (f r) = rp_legalHold r"
    using generate_reports by blast
  then show ?thesis using held_safe_update[OF assms(1), of _ P f] by (simp add: RGenerate)
next
  case (RHold t rid' h)
  show ?thesis
  proof (cases "getOwnedReport t rid' s")
    case (Inl e)
    then show ?thesis using assms(1) by (simp add: RHold setLegalHold_def)
  next
    case (Inr report)
    then show ?thesis
      using assms(3) by (simp add: RHold setLegalHold_def)
        (rule held_safe_update[OF assms(1), where P = "\<lambda>r. rp_tenantId r = t \<and> rp_id r = rid'" and f = "\<lambda>r. r\<lparr>rp_legalHold := h\<rparr>"]; auto)
  qed
next
  case (RPolicy t j y types newId now)
  have "rd_reports (snd (setPolicy t j y types newId now s)) = rd_reports s"
    by (simp add: setPolicy_def Let_def split: option.splits)
  then show ?thesis using held_safe_same[OF assms(1)] by (simp add: RPolicy)
next
  case (RSelect batch now)
  then show ?thesis using assms(1) selectExpired_not_held by auto
next
  case (RSweepRow up)
  then show ?thesis using assms(1) sweepRow_keeps_held by (cases rows) simp_all
qed

lemma held_safe_run:
  "held_safe rid st \<Longrightarrow> run_fresh cl ops st \<Longrightarrow> \<forall>op\<in>set ops. \<not> lifts_hold rid op \<Longrightarrow> held_safe rid (report_run cl ops st)"
proof (induction ops arbitrary: st)
  case (Cons op ops)
  obtain s rows where st: "st = (s, rows)" by (cases st)
  have "held_safe rid (report_do cl op st)"
    using Cons.prems held_safe_step[of rid s rows op cl] by (simp add: st)
  then show ?case using Cons by simp
qed simp

section \<open>What a sweep removes\<close>

definition removed :: "(uuid \<Rightarrow> bool) \<Rightarrow> uuid \<times> string option \<Rightarrow> bool" where
  "removed storeUp row \<longleftrightarrow> \<not> truthy_str (snd row) \<or> (parseS3Uri (the (snd row)) \<noteq> None \<and> storeUp (fst row))"

lemma sweepRow_removed:
  "rd_reports (sweepRow (storeUp (fst row)) row s) =
   (if removed storeUp row then delete_where (\<lambda>r. rp_id r = fst row) (rd_reports s) else rd_reports s)"
  by (cases row) (auto simp: sweepRow_def removed_def deleteObject_def split: option.splits)

lemma sweep_rows:
  "rd_reports (foldl (\<lambda>st row. sweepRow (storeUp (fst row)) row st) s rows)
   = filter (\<lambda>r. \<not> (\<exists>row\<in>set rows. fst row = rp_id r \<and> removed storeUp row)) (rd_reports s)"
proof (induction rows arbitrary: s)
  case (Cons row rows)
  have "filter P (rd_reports (sweepRow (storeUp (fst row)) row s))
      = filter (\<lambda>r. P r \<and> \<not> (fst row = rp_id r \<and> removed storeUp row)) (rd_reports s)" for P
    by (auto simp: sweepRow_removed delete_where_def intro: filter_cong)
  then show ?case using Cons.IH by (auto intro: filter_cong)
qed simp

section \<open>Policies\<close>

definition policies_unique :: "RetentionPolicy list \<Rightarrow> bool" where
  "policies_unique ps \<longleftrightarrow> distinct (map (\<lambda>p. (rt_policyTenant p, rt_jurisdiction p)) ps) \<and> distinct (map rt_policyId ps)"

lemma find_policy_iff:
  assumes "policies_unique ps"
  shows "find_policy t j ps = Some p \<longleftrightarrow> p \<in> set ps \<and> rt_policyTenant p = t \<and> rt_jurisdiction p = j"
proof
  assume "p \<in> set ps \<and> rt_policyTenant p = t \<and> rt_jurisdiction p = j"
  then show "find_policy t j ps = Some p"
    unfolding find_policy_def using assms
    by (intro find_where_unique[where k = "\<lambda>p. (rt_policyTenant p, rt_jurisdiction p)"]) (auto simp: policies_unique_def)
qed (auto simp: find_policy_def dest: find_where_SomeD)

lemma find_policy_None: "find_policy t j ps = None \<longleftrightarrow> \<not> (\<exists>p\<in>set ps. rt_policyTenant p = t \<and> rt_jurisdiction p = j)"
  by (auto simp: find_policy_def find_where_None)

lemma set_listPolicies:
  "set (listPolicies le t s) = {p \<in> set (rd_policies s). rt_policyTenant p = Some t \<or>
     (rt_policyTenant p = None \<and> find_policy (Some t) (rt_jurisdiction p) (rd_policies s) = None)}"
  unfolding find_policy_None by (auto simp: listPolicies_def Let_def image_iff)

lemma resolvePolicy_listed:
  assumes "policies_unique (rd_policies s)"
  shows "p \<in> set (listPolicies le t s) \<longleftrightarrow> resolvePolicy t (rt_jurisdiction p) (rd_policies s) = Some p"
proof (cases "find_policy (Some t) (rt_jurisdiction p) (rd_policies s)")
  case None
  moreover from None have "p \<in> set (rd_policies s) \<Longrightarrow> rt_policyTenant p \<noteq> Some t" by (auto simp: find_policy_None)
  ultimately show ?thesis using find_policy_iff[OF assms, of None "rt_jurisdiction p" p]
    unfolding set_listPolicies resolvePolicy_def by auto
next
  case (Some q)
  then show ?thesis using find_policy_iff[OF assms, of "Some t" "rt_jurisdiction p" p]
    unfolding set_listPolicies resolvePolicy_def by auto
qed

lemma setPolicy_resolves:
  assumes u: "policies_unique (rd_policies s)" and run: "setPolicy t j y types newId now s = (Inr p, s')"
  shows "resolvePolicy t j (rd_policies s') = Some p \<and> rt_retentionYears p = y \<and> 0 < y"
proof (cases "find_policy (Some t) j (rd_policies s)")
  case None
  then have "rd_policies s' = rd_policies s @ [p]" "rt_policyTenant p = Some t" "rt_jurisdiction p = j" "rt_retentionYears p = y" "0 < y"
    using run by (auto simp: setPolicy_def Let_def split: if_splits)
  then show ?thesis using None by (simp add: resolvePolicy_def find_policy_def find_where_append)
next
  case (Some q)
  define g :: "RetentionPolicy \<Rightarrow> RetentionPolicy" where "g = (\<lambda>x. x\<lparr>rt_retentionYears := y, rt_appliesToReportTypes := the_default types (rt_appliesToReportTypes q)\<rparr>)"
  have q: "q \<in> set (rd_policies s)" "rt_policyTenant q = Some t" "rt_jurisdiction q = j" using find_policy_iff[OF u] Some by auto
  have *: "rd_policies s' = update_where (\<lambda>x. rt_policyId x = rt_policyId q) g (rd_policies s)" "p = g q" "0 < y"
    using run Some by (auto simp: setPolicy_def Let_def g_def split: if_splits)
  have "map (\<lambda>p. (rt_policyTenant p, rt_jurisdiction p)) (rd_policies s') = map (\<lambda>p. (rt_policyTenant p, rt_jurisdiction p)) (rd_policies s)"
    "map rt_policyId (rd_policies s') = map rt_policyId (rd_policies s)"
    unfolding *(1) by (rule map_update_where, simp add: g_def)+
  then have "policies_unique (rd_policies s')" using u by (simp add: policies_unique_def)
  moreover have "p \<in> set (rd_policies s')" using update_where_mem[OF q(1), of "\<lambda>x. rt_policyId x = rt_policyId q" g] *(1,2) by simp
  moreover have "rt_policyTenant p = Some t" "rt_jurisdiction p = j" "rt_retentionYears p = y" using q *(2) by (simp_all add: g_def)
  ultimately have "find_policy (Some t) j (rd_policies s') = Some p" by (simp add: find_policy_iff)
  then show ?thesis using *(3) \<open>rt_retentionYears p = y\<close> by (simp add: resolvePolicy_def)
qed

section \<open>Properties\<close>

text \<open>
  The CSV a report is stored as can be read back: for any header row and rows that are not empty,
  an RFC 4180 reader recovers exactly the cells, whatever commas, quotes and line breaks they contain.
\<close>

theorem csv_roundtrip:
  assumes "headers \<noteq> []" "\<forall>r\<in>set rows. r \<noteq> []"
  shows "parseCsv (toCsv headers rows) = Some (headers # rows)"
  using read_lines[of "headers # rows"] assms by (simp add: parseCsv_def toCsv_def Let_def)

theorem csv_roundtrip_witness:
  "parseCsv (toCsv [''a'', ''b''] [[''x,y'', [CHR 0x22, CHR 0x0D, CHR 0x0A]], [[], ''z'']])
   = Some [[''a'', ''b''], [''x,y'', [CHR 0x22, CHR 0x0D, CHR 0x0A]], [[], ''z'']]"
  by (rule csv_roundtrip) simp_all


definition demo_report :: "uuid \<Rightarrow> bool \<Rightarrow> ComplianceReport" where
  "demo_report i h = \<lparr>rp_id = i, rp_tenantId = ''t'', rp_reportType = ADHERENCE_SUMMARY, rp_dateRangeStart = (2017, 1, 1),
     rp_dateRangeEnd = (2017, 1, 31), rp_orgUnitScope = None, rp_status = REPORT_FAILED, rp_generatedAt = 0,
     rp_generatedBy = ''u'', rp_fileUri = None, rp_retentionExpiresAt = 100, rp_legalHold = h\<rparr>"

definition demo_archive :: "bool \<Rightarrow> report_db" where
  "demo_archive h = \<lparr>rd_reports = [demo_report ''a'' False, demo_report ''b'' h], rd_policies = [], rd_scores = [],
     rd_rules = no_rules, rd_objects = []\<rparr>"

definition demo_report_clients :: report_clients where
  "demo_report_clients = \<lparr>getSchedulableRoster = \<lambda>t u. Some [], listPublishedShiftAssignments = \<lambda>t es a b. Some [],
     getCountryCode = \<lambda>t u. Some ''US''\<rparr>"


text \<open>
  The hold does not protect a report the job has already picked: \<open>DELETE_REPORT_SQL\<close> deletes by id alone, so a
  hold placed between the select and the delete is lost together with the report.
\<close>

theorem hold_during_sweep_is_lost:
  "rd_reports (fst (report_run demo_report_clients
     [RSelect 100 200, RHold ''t'' ''b'' True, RSweepRow True, RSweepRow True] (demo_archive False, []))) = []"
  "fst (setLegalHold ''t'' ''b'' True (demo_archive False)) = Inr (demo_report ''b'' True)"
  by (simp_all add: demo_archive_def demo_report_def selectExpired_def expired_unheld_def setLegalHold_def getOwnedReport_def
      sweepRow_def delete_where_def)

text \<open>
  A sweep with no request in between removes exactly the first \<open>batchSize\<close> reports that are past their
  expiry and not held, less those whose stored file could not be deleted, which stay for the next run.
\<close>

theorem sweep_removes_exactly:
  assumes "distinct (map rp_id (rd_reports s))"
  shows "set (rd_reports (sweepExpiredReports batchSize now storeUp s)) = {r \<in> set (rd_reports s).
     \<not> (r \<in> set (take batchSize (filter (expired_unheld now) (rd_reports s))) \<and> removed storeUp (rp_id r, rp_fileUri r))}"
proof -
  have inj: "x = r" if "x \<in> set (take batchSize (filter (expired_unheld now) (rd_reports s)))" "r \<in> set (rd_reports s)" "rp_id x = rp_id r" for x r
    using that assms by (auto dest!: in_set_takeD simp: distinct_map inj_on_def)
  have "(\<exists>row\<in>set (selectExpired batchSize now s). fst row = rp_id r \<and> removed storeUp row) \<longleftrightarrow>
     r \<in> set (take batchSize (filter (expired_unheld now) (rd_reports s))) \<and> removed storeUp (rp_id r, rp_fileUri r)"
    if "r \<in> set (rd_reports s)" for r
    using inj[OF _ that] by (auto simp: selectExpired_def)
  then show ?thesis unfolding sweepExpiredReports_def sweep_rows by auto
qed

theorem sweep_removes_exactly_witness:
  "set (rd_reports (sweepExpiredReports 100 200 (\<lambda>_. True) (demo_archive True))) = {demo_report ''b'' True}"
  using sweep_removes_exactly[of "demo_archive True" 100 200 "\<lambda>_. True"]
  by (auto simp: demo_archive_def demo_report_def expired_unheld_def removed_def)

text \<open>
  A retention override is what later reports get: after \<open>setPolicy\<close> every report requested for
  an org unit of the jurisdiction expires that many years after its generation, never before it, and the policy
  listing shows exactly the policies that are applied.
\<close>

theorem retention_override_applies:
  assumes "policies_unique (rd_policies s)" "setPolicy t j y types newId now s = (Inr p, s')"
    and "getCountryCode cl t unit = Some j" "unit \<noteq> []"
  shows "resolveRetentionExpiry cl t (Some unit) at_time s' = addUTCYears at_time y
    \<and> at_time \<le> addUTCYears at_time y \<and> (q \<in> set (listPolicies le t s)) = (resolvePolicy t (rt_jurisdiction q) (rd_policies s) = Some q)"
  using setPolicy_resolves[OF assms(1,2)] resolvePolicy_listed[OF assms(1)] addUTCYears_later[of y at_time] assms(3,4)
  by (simp add: resolveRetentionExpiry_def)

theorem retention_override_applies_witness:
  "resolveRetentionExpiry demo_report_clients ''t'' (Some ''u'') 1000
     (snd (setPolicy ''t'' ''US'' 10 None ''p'' 500 (demo_archive True))) = addUTCYears 1000 10"
proof -
  have "setPolicy ''t'' ''US'' 10 None ''p'' 500 (demo_archive True)
      = (Inr \<lparr>rt_policyId = ''p'', rt_policyTenant = Some ''t'', rt_jurisdiction = ''US'', rt_retentionYears = 10,
           rt_appliesToReportTypes = DEFAULT_REPORT_TYPES, rt_createdAt = 500\<rparr>,
         snd (setPolicy ''t'' ''US'' 10 None ''p'' 500 (demo_archive True)))"
    by (simp add: setPolicy_def demo_archive_def find_policy_def Let_def)
  from retention_override_applies[OF _ this, of demo_report_clients "''u''"] show ?thesis
    by (simp add: demo_archive_def policies_unique_def demo_report_clients_def)
qed

text \<open>
  Generation always settles a report: whatever the remote services and the object store
  do, the report ends completed or failed, completed exactly when its table could be built and stored, and a
  completed report points to a stored object.
\<close>

theorem generation_settles:
  assumes "find_where (\<lambda>r. rp_tenantId r = t \<and> rp_id r = rid) (rd_reports s) = Some report"
    and "ok = (buildTable cl t report now s \<noteq> None \<and> up)"
  shows "find_where (\<lambda>r. rp_tenantId r = t \<and> rp_id r = rid) (rd_reports (generate cl bucket up t rid now s)) =
      Some (if ok then report\<lparr>rp_status := REPORT_COMPLETED, rp_fileUri := Some (s3_uri bucket (report_key t rid))\<rparr>
            else report\<lparr>rp_status := REPORT_FAILED\<rparr>)
    \<and> (ok \<longrightarrow> s3_uri bucket (report_key t rid) \<in> set (rd_objects (generate cl bucket up t rid now s)))"
  using assms by (auto simp: generate_def Let_def find_where_update_same split: option.splits)

theorem generation_settles_witness:
  "find_where (\<lambda>r. rp_tenantId r = ''t'' \<and> rp_id r = ''a'') (rd_reports (generate demo_report_clients ''bkt'' True ''t'' ''a'' 5 (demo_archive True)))
   = Some ((demo_report ''a'' False)\<lparr>rp_status := REPORT_COMPLETED, rp_fileUri := Some (s3_uri ''bkt'' (report_key ''t'' ''a''))\<rparr>)"
proof -
  have f: "find_where (\<lambda>r. rp_tenantId r = ''t'' \<and> rp_id r = ''a'') (rd_reports (demo_archive True)) = Some (demo_report ''a'' False)"
    by (simp add: demo_archive_def demo_report_def)
  have "True = (buildTable demo_report_clients ''t'' (demo_report ''a'' False) 5 (demo_archive True) \<noteq> None \<and> True)"
    by (simp add: buildTable_def demo_report_def buildAdherenceSummary_def toWindow_def)
  from generation_settles[OF f this, of "''bkt''"] show ?thesis by simp
qed

end
