(* ===== verification/Llm_Circuit_Breaker.thy ===== *)
theory Llm_Circuit_Breaker
  imports WFM_Prelude
begin

text \<open>
  The circuit breaker of the AI layer (\<open>llm-circuit-breaker.service.ts\<close>) and the client it gates
  (\<open>provider-routing-llm-client.service.ts\<close>).

  The breaker keeps one circuit per provider. \<open>complete\<close> asks \<open>beforeCall\<close>, calls the provider's SDK
  and reports the outcome; the event loop may run other calls between the two, so the interleaved
  system keeps the calls in flight. The SDK call is a parameter that answers a text or an error with
  an optional HTTP status. The theorems are the state invariant, the cost of an outage, the isolation of
  tenant-specific errors, and two flaws: a trial call that fails with a tenant-specific error closes the
  provider for good, and the self-hosted Ollama servers of different tenants share one circuit.
\<close>

section \<open>LlmCircuitBreakerService\<close>

datatype AiLlmProvider = ANTHROPIC | OPENAI | GEMINI | OLLAMA

datatype CircuitStatus = closed_circuit | open_circuit | half_open

record ProviderCircuitState =
  cb_status :: CircuitStatus
  consecutiveFailures :: nat
  cb_openedAt :: "millis option"
  trialInFlight :: bool

type_synonym circuits = "AiLlmProvider \<rightharpoonup> ProviderCircuitState"

definition FAILURE_THRESHOLD :: nat where
  "FAILURE_THRESHOLD = 5"

definition COOLDOWN_MS :: millis where
  "COOLDOWN_MS = 30000"

definition initial_circuit :: ProviderCircuitState where
  "initial_circuit = \<lparr>cb_status = closed_circuit, consecutiveFailures = 0, cb_openedAt = None, trialInFlight = False\<rparr>"

definition stateFor :: "circuits \<Rightarrow> AiLlmProvider \<Rightarrow> ProviderCircuitState" where
  "stateFor states provider = the_default (states provider) initial_circuit"

definition beforeCall :: "AiLlmProvider \<Rightarrow> millis \<Rightarrow> circuits \<Rightarrow> bool \<times> circuits" where
  \<comment> \<open>the flag is \<open>shortCircuited\<close>\<close>
  "beforeCall provider now states = (let state = stateFor states provider in
     (case cb_status state of
        closed_circuit \<Rightarrow> (False, states(provider \<mapsto> state))
      | open_circuit \<Rightarrow>
          if (case cb_openedAt state of None \<Rightarrow> False | Some openedAt \<Rightarrow> COOLDOWN_MS \<le> now - openedAt)
          then (False, states(provider \<mapsto> state\<lparr>cb_status := half_open, trialInFlight := True\<rparr>))
          else (True, states(provider \<mapsto> state))
      | half_open \<Rightarrow>
          if trialInFlight state then (True, states(provider \<mapsto> state))
          else (False, states(provider \<mapsto> state\<lparr>trialInFlight := True\<rparr>))))"

definition recordSuccess :: "AiLlmProvider \<Rightarrow> circuits \<Rightarrow> circuits" where
  "recordSuccess provider states = states(provider \<mapsto> (stateFor states provider)
     \<lparr>cb_status := closed_circuit, consecutiveFailures := 0, cb_openedAt := None, trialInFlight := False\<rparr>)"

definition recordFailure :: "AiLlmProvider \<Rightarrow> bool \<Rightarrow> millis \<Rightarrow> circuits \<Rightarrow> circuits" where
  "recordFailure provider countable now states = (if \<not> countable then states else
     let state = (stateFor states provider)\<lparr>consecutiveFailures := consecutiveFailures (stateFor states provider) + 1\<rparr> in
     states(provider \<mapsto>
       (if cb_status state = half_open
        then state\<lparr>cb_status := open_circuit, cb_openedAt := Some now, trialInFlight := False\<rparr>
        else if cb_status state = closed_circuit \<and> FAILURE_THRESHOLD \<le> consecutiveFailures state
        then state\<lparr>cb_status := open_circuit, cb_openedAt := Some now\<rparr>
        else state)))"

section \<open>ProviderRoutingLlmClient\<close>

record ResolvedLlmProvider =
  lp_provider :: AiLlmProvider
  lp_model :: string
  lp_apiKey :: "string option"
  lp_baseUrl :: "string option"

record LlmCompletionRequest =
  systemPrompt :: string
  userContent :: string
  maxTokens :: "int option"

record LlmCompletionResult =
  completion_text :: string
  completion_model :: string

datatype sdk_error = SdkError "int option" \<comment> \<open>the HTTP status an SDK error carries, if any\<close>

record sdk_call =
  sdk_system :: string
  sdk_user :: string
  sdk_maxTokens :: "int option"
  sdk_key :: "string option"
  sdk_host :: "string option"
  sdk_model :: string

type_synonym llm_sdk = "AiLlmProvider \<Rightarrow> sdk_call \<Rightarrow> sdk_error + string option"
  \<comment> \<open>an answer without text is \<open>Inr None\<close>\<close>

definition DEFAULT_MAX_TOKENS :: int where
  "DEFAULT_MAX_TOKENS = 1024"

definition TENANT_SPECIFIC_STATUS_CODES :: "int list" where
  "TENANT_SPECIFIC_STATUS_CODES = [400, 401, 403, 404, 422]"

fun extractStatus :: "sdk_error \<Rightarrow> int option" where
  "extractStatus (SdkError status) = status"

definition isCountableFailure :: "sdk_error \<Rightarrow> bool" where
  "isCountableFailure err = (case extractStatus err of
      None \<Rightarrow> True | Some status \<Rightarrow> status \<notin> set TENANT_SPECIFIC_STATUS_CODES)"

definition dispatch :: "llm_sdk \<Rightarrow> ResolvedLlmProvider \<Rightarrow> LlmCompletionRequest \<Rightarrow> sdk_error + LlmCompletionResult" where
  \<comment> \<open>the four \<open>completeWith...\<close> methods: Ollama needs a base URL and takes the key only if there is one,
      the others need a key; a plain \<open>Error\<close> has no status\<close>
  "dispatch sdk provider request =
     (let missing = (if lp_provider provider = OLLAMA then \<not> truthy_str (lp_baseUrl provider) else \<not> truthy_str (lp_apiKey provider));
          call = \<lparr>sdk_system = systemPrompt request, sdk_user = userContent request,
            sdk_maxTokens = (if lp_provider provider = OLLAMA then None else Some (the_default (maxTokens request) DEFAULT_MAX_TOKENS)),
            sdk_key = (if truthy_str (lp_apiKey provider) then lp_apiKey provider else None),
            sdk_host = (if lp_provider provider = OLLAMA then lp_baseUrl provider else None), sdk_model = lp_model provider\<rparr>
      in if missing then Inl (SdkError None)
      else (case sdk (lp_provider provider) call of
          Inl err \<Rightarrow> Inl err
        | Inr None \<Rightarrow> Inl (SdkError None)
        | Inr (Some t) \<Rightarrow> if lp_provider provider \<noteq> ANTHROPIC \<and> t = [] then Inl (SdkError None)
            else Inr \<lparr>completion_text = t, completion_model = lp_model provider\<rparr>))"

datatype llm_error = ShortCircuited AiLlmProvider | CallFailed AiLlmProvider sdk_error

definition settle_call :: "AiLlmProvider \<Rightarrow> sdk_error + LlmCompletionResult \<Rightarrow> millis \<Rightarrow> circuits \<Rightarrow> circuits" where
  "settle_call provider outcome now states = (case outcome of
      Inr _ \<Rightarrow> recordSuccess provider states
    | Inl err \<Rightarrow> recordFailure provider (isCountableFailure err) now states)"

definition complete ::
  "llm_sdk \<Rightarrow> ResolvedLlmProvider \<Rightarrow> LlmCompletionRequest \<Rightarrow> millis \<Rightarrow> millis \<Rightarrow> (circuits, llm_error, LlmCompletionResult) svc" where
  \<comment> \<open>a call that starts at \<open>now\<close> and ends at \<open>later\<close> with no other call in between\<close>
  "complete sdk provider request now later states =
     (case beforeCall (lp_provider provider) now states of
        (True, states') \<Rightarrow> (Inl (ShortCircuited (lp_provider provider)), states')
      | (False, states') \<Rightarrow>
          let outcome = dispatch sdk provider request in
          (case outcome of Inr result \<Rightarrow> Inr result | Inl err \<Rightarrow> Inl (CallFailed (lp_provider provider) err),
           settle_call (lp_provider provider) outcome later states'))"

section \<open>Invariant\<close>

definition circuit_ok :: "ProviderCircuitState \<Rightarrow> bool" where
  "circuit_ok c \<longleftrightarrow> (case cb_status c of
      closed_circuit \<Rightarrow> consecutiveFailures c < FAILURE_THRESHOLD \<and> cb_openedAt c = None \<and> \<not> trialInFlight c
    | open_circuit \<Rightarrow> cb_openedAt c \<noteq> None \<and> \<not> trialInFlight c
    | half_open \<Rightarrow> cb_openedAt c \<noteq> None \<and> trialInFlight c)"

lemma stateFor_upd [simp]: "stateFor (states(p \<mapsto> c)) q = (if q = p then c else stateFor states q)"
  by (simp add: stateFor_def)

lemma stateFor_empty [simp]: "stateFor Map.empty p = initial_circuit"
  by (simp add: stateFor_def)

lemma initial_circuit_ok: "circuit_ok initial_circuit"
  by (simp add: circuit_ok_def initial_circuit_def FAILURE_THRESHOLD_def)

lemma beforeCall_other: "q \<noteq> p \<Longrightarrow> stateFor (snd (beforeCall p now states)) q = stateFor states q"
  by (auto simp: beforeCall_def Let_def split: CircuitStatus.splits if_splits)

lemma beforeCall_ok: "circuit_ok (stateFor states q) \<Longrightarrow> circuit_ok (stateFor (snd (beforeCall p now states)) q)"
  by (cases "q = p") (auto simp: beforeCall_other beforeCall_def Let_def circuit_ok_def split: CircuitStatus.splits option.splits if_splits)

lemma recordSuccess_ok: "circuit_ok (stateFor states q) \<Longrightarrow> circuit_ok (stateFor (recordSuccess p states) q)"
  by (simp add: recordSuccess_def circuit_ok_def FAILURE_THRESHOLD_def)

lemma recordFailure_ok: "circuit_ok (stateFor states q) \<Longrightarrow> circuit_ok (stateFor (recordFailure p countable now states) q)"
  by (auto simp: recordFailure_def Let_def circuit_ok_def split: CircuitStatus.splits)

lemma settle_ok: "circuit_ok (stateFor states q) \<Longrightarrow> circuit_ok (stateFor (settle_call p outcome now states) q)"
  by (simp add: settle_call_def recordSuccess_ok recordFailure_ok split: sum.split)

lemma settle_other: "q \<noteq> p \<Longrightarrow> stateFor (settle_call p outcome now states) q = stateFor states q"
  by (auto simp: settle_call_def recordSuccess_def recordFailure_def Let_def split: sum.split)

section \<open>Calls in flight\<close>

type_synonym llm_system = "circuits \<times> AiLlmProvider multiset"

inductive llm_step :: "llm_system \<Rightarrow> llm_system \<Rightarrow> bool" where
  admitted: "beforeCall p now states = (False, states') \<Longrightarrow> llm_step (states, fl) (states', add_mset p fl)"
| refused: "beforeCall p now states = (True, states') \<Longrightarrow> llm_step (states, fl) (states', fl)"
| finished: "p \<in># fl \<Longrightarrow> llm_step (states, fl) (settle_call p outcome now states, fl - {#p#})"

inductive llm_reach :: "llm_system \<Rightarrow> bool" where
  init: "llm_reach (Map.empty, {#})"
| step: "llm_reach s \<Longrightarrow> llm_step s s' \<Longrightarrow> llm_reach s'"

inductive llm_runs :: "llm_system \<Rightarrow> llm_system \<Rightarrow> bool" where
  refl: "llm_runs s s"
| step: "llm_runs s s' \<Longrightarrow> llm_step s' s'' \<Longrightarrow> llm_runs s s''"

lemma llm_step_ok: "llm_step s s' \<Longrightarrow> circuit_ok (stateFor (fst s) q) \<Longrightarrow> circuit_ok (stateFor (fst s') q)"
  by (induction rule: llm_step.induct) (metis beforeCall_ok fst_conv snd_conv settle_ok)+

lemma llm_reach_ok: "llm_reach s \<Longrightarrow> circuit_ok (stateFor (fst s) q)"
  by (induction rule: llm_reach.induct) (auto simp: initial_circuit_ok intro: llm_step_ok)

text \<open>A half-open circuit with no call in flight is dead: nothing is admitted and nothing changes it.\<close>

definition dead_circuit :: "AiLlmProvider \<Rightarrow> llm_system \<Rightarrow> bool" where
  "dead_circuit p s \<longleftrightarrow> cb_status (stateFor (fst s) p) = half_open \<and> trialInFlight (stateFor (fst s) p) \<and> p \<notin># snd s"

lemma dead_refuses: "dead_circuit p s \<Longrightarrow> fst (beforeCall p now (fst s))"
  by (simp add: dead_circuit_def beforeCall_def Let_def)

lemma dead_step: "llm_step s s' \<Longrightarrow> dead_circuit p s \<Longrightarrow> dead_circuit p s'"
proof (induction rule: llm_step.induct)
  case (admitted q now states states' fl)
  then have "q \<noteq> p" using dead_refuses[of p "(states, fl)" now] by auto
  then show ?case using admitted beforeCall_other[of p q now states] by (simp add: dead_circuit_def)
next
  case (refused q now states states' fl)
  show ?case
  proof (cases "q = p")
    case True
    then show ?thesis using refused by (auto simp: dead_circuit_def beforeCall_def Let_def)
  next
    case False
    then show ?thesis using refused beforeCall_other[of p q now states] by (simp add: dead_circuit_def)
  qed
next
  case (finished q fl states outcome now)
  then have "q \<noteq> p" by (auto simp: dead_circuit_def)
  then show ?case using finished by (auto simp: dead_circuit_def settle_other dest: in_diffD)
qed

lemma dead_forever: "llm_runs s s' \<Longrightarrow> dead_circuit p s \<Longrightarrow> dead_circuit p s'"
  by (induction rule: llm_runs.induct) (auto intro: dead_step)

section \<open>The cost of an outage\<close>

fun attempts :: "AiLlmProvider \<Rightarrow> millis list \<Rightarrow> circuits \<Rightarrow> nat" where
  \<comment> \<open>network calls made for the requests at the given times while every call fails countably\<close>
  "attempts p [] states = 0"
| "attempts p (t # ts) states = (case beforeCall p t states of
      (True, states') \<Rightarrow> attempts p ts states'
    | (False, states') \<Rightarrow> Suc (attempts p ts (recordFailure p True t states')))"

definition outage_budget :: "millis \<Rightarrow> millis \<Rightarrow> ProviderCircuitState \<Rightarrow> int" where
  "outage_budget a b c = (case cb_status c of
      closed_circuit \<Rightarrow> int (FAILURE_THRESHOLD - consecutiveFailures c) + (b - a) div COOLDOWN_MS
    | open_circuit \<Rightarrow> (b - the (cb_openedAt c)) div COOLDOWN_MS
    | half_open \<Rightarrow> 0)"

lemma attempts_bound:
  assumes "circuit_ok (stateFor states p)" "sorted ts" "\<forall>t\<in>set ts. a \<le> t \<and> t \<le> b" "a \<le> b"
    and "cb_status (stateFor states p) = open_circuit \<Longrightarrow> the (cb_openedAt (stateFor states p)) \<le> b"
  shows "int (attempts p ts states) \<le> outage_budget a b (stateFor states p)"
  using assms
proof (induction ts arbitrary: states)
  case Nil
  then show ?case
    by (auto simp: outage_budget_def COOLDOWN_MS_def pos_imp_zdiv_nonneg_iff split: CircuitStatus.splits)
next
  case (Cons t ts)
  define c where "c = stateFor states p"
  have t: "a \<le> t" "t \<le> b" using Cons.prems by auto
  have IH: "int (attempts p ts st) \<le> outage_budget a b (stateFor st p)"
    if "circuit_ok (stateFor st p)" "cb_status (stateFor st p) = open_circuit \<Longrightarrow> the (cb_openedAt (stateFor st p)) \<le> b" for st
    using Cons.IH[OF that(1)] Cons.prems that(2) by auto
  show ?case
  proof (cases "cb_status c")
    case closed_circuit
    let ?st = "recordFailure p True t (states(p \<mapsto> c))"
    have "attempts p (t # ts) states = Suc (attempts p ts ?st)"
      using closed_circuit by (simp add: beforeCall_def c_def Let_def)
    moreover have "int (attempts p ts ?st) \<le> outage_budget a b (stateFor ?st p)"
    proof (rule IH)
      show "circuit_ok (stateFor ?st p)" using Cons.prems(1) by (intro recordFailure_ok) (simp add: c_def)
      show "cb_status (stateFor ?st p) = open_circuit \<Longrightarrow> the (cb_openedAt (stateFor ?st p)) \<le> b"
        using closed_circuit t by (auto simp: recordFailure_def Let_def split: if_splits)
    qed
    moreover have "outage_budget a b (stateFor ?st p) + 1 \<le> outage_budget a b c"
    proof (cases "FAILURE_THRESHOLD \<le> consecutiveFailures c + 1")
      case True
      then have "stateFor ?st p = c\<lparr>consecutiveFailures := consecutiveFailures c + 1, cb_status := open_circuit, cb_openedAt := Some t\<rparr>"
        using closed_circuit by (simp add: recordFailure_def Let_def)
      moreover have "(b - t) div COOLDOWN_MS \<le> (b - a) div COOLDOWN_MS" using t by (intro zdiv_mono1) (simp_all add: COOLDOWN_MS_def)
      moreover have "consecutiveFailures c < FAILURE_THRESHOLD" using Cons.prems(1) closed_circuit by (simp add: circuit_ok_def c_def)
      ultimately show ?thesis using closed_circuit by (simp add: outage_budget_def)
    next
      case False
      then have "stateFor ?st p = c\<lparr>consecutiveFailures := consecutiveFailures c + 1\<rparr>"
        using closed_circuit by (simp add: recordFailure_def Let_def)
      then show ?thesis using closed_circuit False by (simp add: outage_budget_def)
    qed
    ultimately show ?thesis by (simp add: c_def)
  next
    case open_circuit
    then obtain u where u: "cb_openedAt c = Some u" "u \<le> b" using Cons.prems(1,5) by (auto simp: circuit_ok_def c_def)
    show ?thesis
    proof (cases "COOLDOWN_MS \<le> t - u")
      case True
      let ?st = "recordFailure p True t (states(p \<mapsto> c\<lparr>cb_status := half_open, trialInFlight := True\<rparr>))"
      have st: "stateFor ?st p = c\<lparr>consecutiveFailures := consecutiveFailures c + 1, cb_status := open_circuit, cb_openedAt := Some t, trialInFlight := False\<rparr>"
        by (simp add: recordFailure_def Let_def)
      have "attempts p (t # ts) states = Suc (attempts p ts ?st)"
        using open_circuit u True by (simp add: beforeCall_def c_def Let_def)
      moreover have "int (attempts p ts ?st) \<le> outage_budget a b (stateFor ?st p)"
        by (rule IH) (use st t in \<open>simp_all add: circuit_ok_def\<close>)
      moreover have "(b - t) div COOLDOWN_MS + 1 \<le> (b - u) div COOLDOWN_MS"
      proof -
        have "(b - t) div COOLDOWN_MS + 1 = (b - t + COOLDOWN_MS) div COOLDOWN_MS" by (simp add: COOLDOWN_MS_def)
        also have "\<dots> \<le> (b - u) div COOLDOWN_MS" using True by (intro zdiv_mono1) (simp_all add: COOLDOWN_MS_def)
        finally show ?thesis .
      qed
      ultimately show ?thesis using st open_circuit u by (simp add: outage_budget_def c_def)
    next
      case False
      then have "attempts p (t # ts) states = attempts p ts (states(p \<mapsto> c))"
        using open_circuit u by (simp add: beforeCall_def c_def Let_def)
      moreover have "int (attempts p ts (states(p \<mapsto> c))) \<le> outage_budget a b (stateFor (states(p \<mapsto> c)) p)"
        using Cons.prems(1,5) by (intro IH) (simp_all add: c_def)
      ultimately show ?thesis by (simp add: c_def)
    qed
  next
    case half_open
    then have "trialInFlight c" using Cons.prems(1) by (simp add: circuit_ok_def c_def)
    then have "attempts p (t # ts) states = attempts p ts (states(p \<mapsto> c))"
      using half_open by (simp add: beforeCall_def c_def Let_def)
    moreover have "int (attempts p ts (states(p \<mapsto> c))) \<le> outage_budget a b (stateFor (states(p \<mapsto> c)) p)"
      using Cons.prems(1) half_open by (intro IH) (simp_all add: c_def)
    ultimately show ?thesis by (simp add: c_def)
  qed
qed

section \<open>Properties\<close>

text \<open>
  However calls interleave, a call reaches a provider's network only through a closed circuit or, for an
  open one, as the single trial after the cooldown; while that trial is in flight every other call is refused.
\<close>

theorem network_calls_are_gated:
  assumes "llm_reach (states, fl)" "beforeCall p now states = (False, states')"
  shows "(cb_status (stateFor states p) = closed_circuit \<and> stateFor states' p = stateFor states p) \<or>
    (\<exists>openedAt. cb_status (stateFor states p) = open_circuit \<and> cb_openedAt (stateFor states p) = Some openedAt \<and> openedAt + 30000 \<le> now
       \<and> cb_status (stateFor states' p) = half_open \<and> fst (beforeCall p later states'))"
  using llm_reach_ok[OF assms(1), of p] assms(2)
  by (auto simp: beforeCall_def circuit_ok_def COOLDOWN_MS_def Let_def split: CircuitStatus.splits option.splits if_splits)

definition tripped :: circuits where
  "tripped = foldl (\<lambda>st t. recordFailure ANTHROPIC True t (snd (beforeCall ANTHROPIC t st))) Map.empty [0, 1, 2, 3, 4]"

lemma tripped_state:
  "stateFor tripped ANTHROPIC = \<lparr>cb_status = open_circuit, consecutiveFailures = 5, cb_openedAt = Some 4, trialInFlight = False\<rparr>"
  by (simp add: tripped_def recordFailure_def beforeCall_def initial_circuit_def FAILURE_THRESHOLD_def Let_def)

lemma llm_reach_call:
  assumes "llm_reach (states, {#})" "beforeCall p now states = (False, states')"
  shows "llm_reach (settle_call p outcome later states', {#})"
proof -
  have "llm_step (states', {#p#}) (settle_call p outcome later states', {#p#} - {#p#})" by (rule llm_step.finished) simp
  then show ?thesis
    using llm_reach.step[OF llm_reach.step[OF assms(1) llm_step.admitted[OF assms(2)]]] by simp
qed

lemma tripped_reach: "llm_reach (tripped, {#})"
proof -
  have call: "llm_reach (recordFailure ANTHROPIC True t (snd (beforeCall ANTHROPIC t st)), {#})"
    if "llm_reach (st, {#})" "\<not> fst (beforeCall ANTHROPIC t st)" for t st
    using llm_reach_call[OF that(1), of ANTHROPIC t _ "Inl (SdkError (Some 503))" t] that(2)
    by (cases "beforeCall ANTHROPIC t st") (simp add: settle_call_def isCountableFailure_def TENANT_SPECIFIC_STATUS_CODES_def)
  show ?thesis unfolding tripped_def foldl.simps
    by (intro call llm_reach.init)
      (simp_all add: recordFailure_def beforeCall_def initial_circuit_def FAILURE_THRESHOLD_def Let_def)
qed

theorem network_calls_are_gated_witness:
  "fst (beforeCall ANTHROPIC 40001 (snd (beforeCall ANTHROPIC 40000 tripped)))"
proof -
  have "beforeCall ANTHROPIC 40000 tripped = (False, snd (beforeCall ANTHROPIC 40000 tripped))"
    using tripped_state by (simp add: beforeCall_def COOLDOWN_MS_def)
  from network_calls_are_gated[OF tripped_reach this, of 40001] show ?thesis by (simp add: tripped_state)
qed



text \<open>
  A tenant's own mistake never moves the shared circuit: a call through a closed circuit that fails with an
  authentication or bad request status leaves every provider's circuit as it was.
\<close>

theorem tenant_errors_are_isolated:
  assumes "complete sdk provider request now later states = (Inl (CallFailed p err), states')"
    and "extractStatus err = Some status" "status \<in> {400, 401, 403, 404, 422}"
    and "cb_status (stateFor states p) = closed_circuit"
  shows "stateFor states' q = stateFor states q"
proof -
  have p: "p = lp_provider provider" and d: "dispatch sdk provider request = Inl err"
    using assms(1) by (auto simp: complete_def Let_def split: prod.splits bool.splits sum.splits)
  have "beforeCall p now states = (False, states(p \<mapsto> stateFor states p))" using assms(4) by (simp add: beforeCall_def)
  then have "states' = states(p \<mapsto> stateFor states p)"
    using assms(1-3) p d
    by (auto simp: complete_def settle_call_def recordFailure_def isCountableFailure_def TENANT_SPECIFIC_STATUS_CODES_def Let_def)
  then show ?thesis by simp
qed

definition demo_openai :: ResolvedLlmProvider where
  "demo_openai = \<lparr>lp_provider = OPENAI, lp_model = ''m'', lp_apiKey = Some ''bad'', lp_baseUrl = None\<rparr>"

definition demo_request :: LlmCompletionRequest where
  "demo_request = \<lparr>systemPrompt = ''s'', userContent = ''u'', maxTokens = None\<rparr>"

theorem tenant_errors_are_isolated_witness:
  "stateFor (snd (complete (\<lambda>p c. Inl (SdkError (Some 401))) demo_openai demo_request 0 5 Map.empty)) OPENAI = initial_circuit"
proof -
  have "complete (\<lambda>p c. Inl (SdkError (Some 401))) demo_openai demo_request 0 5 Map.empty
      = (Inl (CallFailed OPENAI (SdkError (Some 401))), snd (complete (\<lambda>p c. Inl (SdkError (Some 401))) demo_openai demo_request 0 5 Map.empty))"
    by (simp add: complete_def beforeCall_def initial_circuit_def dispatch_def demo_openai_def Let_def)
  from tenant_errors_are_isolated[OF this, of 401 OPENAI] show ?thesis by (simp add: initial_circuit_def)
qed

text \<open>
  The trial is the exception. A tenant-specific error of the half-open trial is not recorded, so the circuit stays
  half open with its trial marked in flight, and no later call is ever admitted.
\<close>

theorem failed_trial_kills_provider:
  assumes "cb_status (stateFor states p) = open_circuit" "beforeCall p now states = (False, states')" "p \<notin># fl"
    and "\<not> isCountableFailure err" "llm_runs (settle_call p (Inl err) later states', fl) (st, fl')"
  shows "fst (beforeCall p t st)"
proof -
  have "stateFor states' p = (stateFor states p)\<lparr>cb_status := half_open, trialInFlight := True\<rparr>"
    using assms(1,2) by (auto simp: beforeCall_def Let_def split: option.splits if_splits)
  then have "dead_circuit p (settle_call p (Inl err) later states', fl)"
    using assms(3,4) by (simp add: dead_circuit_def settle_call_def recordFailure_def)
  then show ?thesis using dead_forever[OF assms(5), of p] dead_refuses[of p "(st, fl')" t] by simp
qed

lemma failed_trial_is_reachable:
  "cb_status (stateFor tripped ANTHROPIC) = open_circuit" "llm_reach (tripped, {#})"
  "\<not> fst (beforeCall ANTHROPIC 40000 tripped)" "\<not> isCountableFailure (SdkError (Some 401))"
  using tripped_state tripped_reach
  by (simp_all add: beforeCall_def COOLDOWN_MS_def isCountableFailure_def TENANT_SPECIFIC_STATUS_CODES_def)

text \<open>
  Ollama servers belong to tenants, yet all of them share the circuit of the provider name: five requests
  to one tenant's unreachable server stop the calls of a tenant whose own server answers.
\<close>

definition ollama_at :: "string \<Rightarrow> ResolvedLlmProvider" where
  "ollama_at host = \<lparr>lp_provider = OLLAMA, lp_model = ''m'', lp_apiKey = None, lp_baseUrl = Some host\<rparr>"

definition one_host_down :: llm_sdk where
  "one_host_down p c = (if sdk_host c = Some ''down'' then Inl (SdkError None) else Inr (Some ''answer''))"

theorem ollama_outage_is_shared:
  "fst (complete one_host_down (ollama_at ''up'') demo_request 10 11 Map.empty) = Inr \<lparr>completion_text = ''answer'', completion_model = ''m''\<rparr>"
  "fst (complete one_host_down (ollama_at ''up'') demo_request 10 11
     (foldl (\<lambda>st t. snd (complete one_host_down (ollama_at ''down'') demo_request t t st)) Map.empty [0, 1, 2, 3, 4]))
   = Inl (ShortCircuited OLLAMA)"
  by (simp_all add: complete_def beforeCall_def initial_circuit_def dispatch_def ollama_at_def one_host_down_def settle_call_def
      recordSuccess_def recordFailure_def isCountableFailure_def FAILURE_THRESHOLD_def COOLDOWN_MS_def demo_request_def Let_def)

end
