(* ===== verification/Json_Value.thy ===== *)
theory Json_Value
  imports WFM_Prelude
begin

text \<open>
  JSON values as the services hold them in \<open>jsonb\<close> columns and message bodies. An object is the
  association list of its properties in insertion order, so \<open>Object.entries\<close> is the list itself and
  \<open>{ ...a, ...b }\<close> is \<open>json_spread\<close>; numbers are exact reals. \<open>json_get\<close> is property access, whose
  \<open>undefined\<close> is \<open>None\<close>.
\<close>

section \<open>Definitions\<close>

datatype json = JNull | JBool bool | JNum real | JStr string | JArr "json list" | JObj "(string \<times> json) list"

fun json_get :: "json \<Rightarrow> string \<Rightarrow> json option" where
  "json_get (JObj fs) k = map_of fs k"
| "json_get _ k = None"

fun json_set :: "(string \<times> json) list \<Rightarrow> string \<Rightarrow> json \<Rightarrow> (string \<times> json) list" where
  \<comment> \<open>\<open>o[k] = v\<close>: an existing property keeps its place, a new one goes last\<close>
  "json_set [] k v = [(k, v)]"
| "json_set ((k', v') # fs) k v = (if k' = k then (k, v) # fs else (k', v') # json_set fs k v)"

definition json_spread :: "(string \<times> json) list \<Rightarrow> (string \<times> json) list \<Rightarrow> (string \<times> json) list" where
  "json_spread a b = foldl (\<lambda>o' (k, v). json_set o' k v) a b"

section \<open>Reading what was written\<close>

lemma map_of_json_set [simp]: "map_of (json_set fs k v) = (map_of fs)(k \<mapsto> v)"
  by (induction fs k v rule: json_set.induct) auto

lemma keys_json_set [simp]: "fst ` set (json_set fs k v) = insert k (fst ` set fs)"
  by (induction fs k v rule: json_set.induct) auto

lemma distinct_json_set [simp]: "distinct (map fst (json_set fs k v)) \<longleftrightarrow> distinct (map fst fs)"
proof (induction fs k v rule: json_set.induct)
  case (2 k' v' fs k v)
  then show ?case using keys_json_set[of fs k v] by auto
qed simp

lemma set_json_set: "set (json_set fs k v) \<subseteq> insert (k, v) (set fs)"
  by (induction fs k v rule: json_set.induct) auto

lemma json_spread_Nil [simp]: "json_spread a [] = a"
  by (simp add: json_spread_def)

lemma json_spread_Cons [simp]: "json_spread a ((k, v) # b) = json_spread (json_set a k v) b"
  by (simp add: json_spread_def)

text \<open>The later object wins on every property it has.\<close>

lemma map_of_json_spread: "distinct (map fst b) \<Longrightarrow> map_of (json_spread a b) = map_of a ++ map_of b"
proof (induction b arbitrary: a)
  case (Cons p b)
  obtain k v where p: "p = (k, v)" by (cases p)
  have "map_of b k = None" using Cons.prems by (simp add: p map_of_eq_None_iff)
  with Cons show ?case by (intro ext) (simp add: p map_add_def split: option.splits)
qed simp

lemma distinct_json_spread [simp]: "distinct (map fst (json_spread a b)) \<longleftrightarrow> distinct (map fst a)"
proof (induction b arbitrary: a)
  case (Cons p b) then show ?case by (cases p) simp
qed simp

lemma set_json_spread: "set (json_spread a b) \<subseteq> set a \<union> set b"
proof (induction b arbitrary: a)
  case (Cons p b) then show ?case using set_json_set by (cases p) fastforce
qed simp

end
