(* ===== verification/Ai_Governance.thy ===== *)
theory Ai_Governance
  imports Json_Value
begin

text \<open>
  The decisions the AI layer takes before an action may run without a person: the governance policy of
  the tenant (\<open>ai-governance-policy-resolver.service.ts\<close>, \<open>ai-governance-policy.service.ts\<close>), the
  risk thresholds (\<open>risk-threshold-evaluator.service.ts\<close>), the phrases that make a rationale suspicious
  (\<open>rationale-suspicion-detector.ts\<close>) and the confidence of an answer (\<open>confidence-indicator.ts\<close>).

  The five patterns of the detector are terms of a small expression language without repetition, matched
  case-insensitively between word boundaries; \<open>JSON.stringify\<close> is a parameter.
\<close>

section \<open>Governance policies\<close>

datatype AiAutonomyLevel = SUGGEST_ONLY | APPROVE_REQUIRED | AUTO_EXECUTE_LOW_RISK

record AiGovernancePolicy =
  gp_id :: uuid
  gp_tenantId :: uuid
  gp_actionType :: string
  gp_autonomyLevel :: AiAutonomyLevel
  gp_riskThresholdConfig :: json
  gp_updatedAt :: millis
  gp_updatedBy :: "uuid option"

record ResolvedGovernance =
  rg_autonomyLevel :: AiAutonomyLevel
  rg_riskThresholdConfig :: json

definition DEFAULT_ACTION_TYPE :: string where
  "DEFAULT_ACTION_TYPE = ''default''"

definition PLATFORM_DEFAULT_AUTONOMY_LEVEL :: AiAutonomyLevel where
  "PLATFORM_DEFAULT_AUTONOMY_LEVEL = SUGGEST_ONLY"

definition findByActionType :: "uuid \<Rightarrow> string \<Rightarrow> AiGovernancePolicy list \<Rightarrow> AiGovernancePolicy option" where
  "findByActionType tenantId actionType = find_where (\<lambda>p. gp_tenantId p = tenantId \<and> gp_actionType p = actionType)"

definition resolved_of :: "AiGovernancePolicy \<Rightarrow> ResolvedGovernance" where
  "resolved_of p = \<lparr>rg_autonomyLevel = gp_autonomyLevel p, rg_riskThresholdConfig = gp_riskThresholdConfig p\<rparr>"

definition resolve_governance :: "uuid \<Rightarrow> string \<Rightarrow> AiGovernancePolicy list \<Rightarrow> ResolvedGovernance" where
  "resolve_governance tenantId actionType policies = (case findByActionType tenantId actionType policies of
      Some exact \<Rightarrow> resolved_of exact
    | None \<Rightarrow>
        (case (if actionType \<noteq> DEFAULT_ACTION_TYPE then findByActionType tenantId DEFAULT_ACTION_TYPE policies else None) of
           Some fallback \<Rightarrow> resolved_of fallback
         | None \<Rightarrow> \<lparr>rg_autonomyLevel = PLATFORM_DEFAULT_AUTONOMY_LEVEL, rg_riskThresholdConfig = JObj []\<rparr>))"

definition update_governance ::
  "uuid \<Rightarrow> string \<Rightarrow> AiAutonomyLevel \<Rightarrow> json \<Rightarrow> uuid option \<Rightarrow> uuid \<Rightarrow> millis \<Rightarrow> AiGovernancePolicy list \<Rightarrow> AiGovernancePolicy list" where
  "update_governance tenantId actionType level config updatedBy newId now policies =
     (case findByActionType tenantId actionType policies of
        Some existing \<Rightarrow> update_where (\<lambda>p. gp_id p = gp_id existing)
          (\<lambda>p. p\<lparr>gp_autonomyLevel := level, gp_riskThresholdConfig := config, gp_updatedAt := now,
             gp_updatedBy := nullish_or updatedBy (gp_updatedBy existing)\<rparr>) policies
      | None \<Rightarrow> policies @ [\<lparr>gp_id = newId, gp_tenantId = tenantId, gp_actionType = actionType, gp_autonomyLevel = level,
          gp_riskThresholdConfig = config, gp_updatedAt = now, gp_updatedBy = updatedBy\<rparr>])"

lemma resolve_after_update:
  assumes "distinct (map gp_id policies)"
  shows "resolve_governance t a (update_governance t a level config by_user newId now policies)
    = \<lparr>rg_autonomyLevel = level, rg_riskThresholdConfig = config\<rparr>"
proof (cases "findByActionType t a policies")
  case None
  then show ?thesis
    by (simp add: resolve_governance_def update_governance_def findByActionType_def find_where_append resolved_of_def)
next
  case (Some p)
  let ?P = "\<lambda>p. gp_tenantId p = t \<and> gp_actionType p = a"
  let ?f = "\<lambda>q. q\<lparr>gp_autonomyLevel := level, gp_riskThresholdConfig := config, gp_updatedAt := now,
      gp_updatedBy := nullish_or by_user (gp_updatedBy p)\<rparr> :: AiGovernancePolicy"
  have "find_where ?P (update_where (\<lambda>q. gp_id q = gp_id p) ?f ps) = Some (?f p)"
    if "find_where ?P ps = Some p" "distinct (map gp_id ps)" for ps
    using that
  proof (induction ps)
    case (Cons q ps)
    show ?case
    proof (cases "?P q")
      case True
      then show ?thesis using Cons.prems by simp
    next
      case False
      then have f: "find_where ?P ps = Some p" using Cons.prems(1) by (simp split: if_splits)
      then have "p \<in> set ps" by (auto dest: find_where_SomeD)
      then have "gp_id q \<noteq> gp_id p" using Cons.prems(2) by auto
      then show ?thesis using False Cons.IH[OF f] Cons.prems(2) by auto
    qed
  qed simp
  then have "find_where ?P (update_where (\<lambda>q. gp_id q = gp_id p) ?f policies) = Some (?f p)"
    using Some assms by (simp add: findByActionType_def)
  then show ?thesis using Some by (simp add: resolve_governance_def update_governance_def findByActionType_def resolved_of_def)
qed

section \<open>Risk thresholds\<close>

datatype risk_criterion = TooManyEmployees nat real | ConfidenceTooLow "real option" real | NoRecognizedCriterion

record RiskEvaluationContext =
  risk_affectedEmployeeCount :: nat
  risk_confidenceIndicator :: "real option"

definition evaluate_risk :: "json \<Rightarrow> RiskEvaluationContext \<Rightarrow> risk_criterion list" where
  \<comment> \<open>the failed criteria; the evaluation passed when there are none\<close>
  "evaluate_risk config context =
     (let employees = (case json_get config ''maxAffectedEmployees'' of
            Some (JNum m) \<Rightarrow> if m < real (risk_affectedEmployeeCount context)
              then [TooManyEmployees (risk_affectedEmployeeCount context) m] else []
          | _ \<Rightarrow> []);
          confidence = (case json_get config ''minConfidenceIndicator'' of
            Some (JNum m) \<Rightarrow> (case risk_confidenceIndicator context of
                None \<Rightarrow> [ConfidenceTooLow None m]
              | Some c \<Rightarrow> if c < m then [ConfidenceTooLow (Some c) m] else [])
          | _ \<Rightarrow> []);
          recognized = (\<lambda>k. case json_get config k of Some (JNum _) \<Rightarrow> True | _ \<Rightarrow> False)
      in employees @ confidence
         @ (if recognized ''maxAffectedEmployees'' \<or> recognized ''minConfidenceIndicator'' then [] else [NoRecognizedCriterion]))"

section \<open>Suspicious phrases\<close>

datatype rx = Lit string | OneOf string | Opt rx | Sq "rx list" | Alt "rx list"

fun rx_rest :: "rx \<Rightarrow> string \<Rightarrow> string list"
  and sq_rest :: "rx list \<Rightarrow> string \<Rightarrow> string list"
  and alt_rest :: "rx list \<Rightarrow> string \<Rightarrow> string list" where
  \<comment> \<open>what can be left of the text after a match at its start\<close>
  "rx_rest (Lit w) s = (if take (length w) s = w then [drop (length w) s] else [])"
| "rx_rest (OneOf cs) s = (case s of [] \<Rightarrow> [] | c # s' \<Rightarrow> if c \<in> set cs then [s'] else [])"
| "rx_rest (Opt r) s = rx_rest r s @ [s]"
| "rx_rest (Sq rs) s = sq_rest rs s"
| "rx_rest (Alt rs) s = alt_rest rs s"
| "sq_rest [] s = [s]"
| "sq_rest (r # rs) s = concat (map (sq_rest rs) (rx_rest r s))"
| "alt_rest [] s = []"
| "alt_rest (r # rs) s = rx_rest r s @ alt_rest rs s"

definition is_word_char :: "char \<Rightarrow> bool" where
  "is_word_char c \<longleftrightarrow> (CHR ''a'' \<le> c \<and> c \<le> CHR ''z'') \<or> (CHR ''A'' \<le> c \<and> c \<le> CHR ''Z'') \<or> (CHR ''0'' \<le> c \<and> c \<le> CHR ''9'') \<or> c = CHR ''_''"

definition word_boundary :: "string \<Rightarrow> nat \<Rightarrow> bool" where
  "word_boundary s i \<longleftrightarrow> (0 < i \<and> is_word_char (s ! (i - 1))) \<noteq> (i < length s \<and> is_word_char (s ! i))"

definition rx_test :: "rx \<Rightarrow> string \<Rightarrow> bool" where
  \<comment> \<open>\<open>/\b(...)\b/i.test(text)\<close>\<close>
  "rx_test r text = (let s = map lower_char text in
     list_ex (\<lambda>i. word_boundary s i \<and> list_ex (\<lambda>rest. word_boundary s (length s - length rest)) (rx_rest r (drop i s)))
       [0..<length s + 1])"

definition SUSPICIOUS_PHRASE_PATTERNS :: "(string \<times> rx) list" where
  "SUSPICIOUS_PHRASE_PATTERNS =
    [(''claims_prior_approval'', Alt [
        Sq [Lit ''pre'', Opt (Lit ''-''), Lit ''approved''], Lit ''already approved'', Lit ''previously approved'',
        Sq [Lit ''approved by '', Opt (Lit ''the ''), Alt [Lit ''admin'', Lit ''administrator'', Lit ''platform'']]]),
     (''discourages_review'', Alt [
        Sq [Lit ''no '', Opt (Alt [Lit ''further '', Lit ''additional '']), Lit ''review '', Opt (Lit ''is ''),
          Alt [Lit ''needed'', Lit ''required'', Lit ''necessary'']],
        Sq [Lit ''skip '', Opt (Lit ''the ''), Lit ''review''],
        Sq [Lit ''no need to '', Alt [Lit ''check'', Lit ''verify'', Lit ''confirm'']]]),
     (''claims_already_executed'', Alt [
        Sq [Lit ''already '', Alt [Lit ''executed'', Lit ''completed'', Lit ''finalized'', Lit ''done'']],
        Sq [Alt [Lit ''has'', Lit ''have''], Lit '' '', Opt (Lit ''already ''), Lit ''been '',
          Alt [Lit ''executed'', Lit ''completed'', Lit ''finalized'']]]),
     (''urgency_pressure'', Alt [
        Sq [Lit ''urgent'', Opt (Lit ''ly''), Opt (OneOf '',.''), Lit '' '', Alt [Lit ''approve'', Lit ''confirm'', Lit ''act''],
          Lit '' '', Alt [Lit ''now'', Lit ''immediately'']],
        Lit ''act now'', Lit ''immediate action required'']),
     (''instruction_to_system'', Alt [
        Sq [Lit ''set '', Alt [Lit ''autonomy'', Lit ''confidence'']],
        Sq [Lit ''auto'', Opt (OneOf ''_-''), Lit ''execute''],
        Sq [Lit ''ignore '', Alt [Lit ''previous'', Lit ''prior''], Lit '' instructions'']])]"

definition detectSuspiciousRationalePhrases :: "string \<Rightarrow> string list" where
  "detectSuspiciousRationalePhrases text = map fst (filter (\<lambda>(label, r). rx_test r text) SUSPICIOUS_PHRASE_PATTERNS)"

section \<open>Confidence\<close>

definition UNTRUSTED_FREE_TEXT_KEYS :: "string list" where
  "UNTRUSTED_FREE_TEXT_KEYS = [''reason'', ''question'']"

fun stripUntrustedFreeText :: "json \<Rightarrow> json" where
  "stripUntrustedFreeText (JArr vs) = JArr (map stripUntrustedFreeText vs)"
| "stripUntrustedFreeText (JObj fs) =
     JObj (map (\<lambda>(k, v). (k, if k \<in> set UNTRUSTED_FREE_TEXT_KEYS then JNull else stripUntrustedFreeText v)) fs)"
| "stripUntrustedFreeText v = v"

definition is_digit :: "char \<Rightarrow> bool" where
  "is_digit c \<longleftrightarrow> CHR ''0'' \<le> c \<and> c \<le> CHR ''9''"

definition fraction_part :: "string \<Rightarrow> string" where
  "fraction_part s = (case s of c # d # s' \<Rightarrow> if c = CHR ''.'' \<and> is_digit d then c # takeWhile is_digit (d # s') else [] | _ \<Rightarrow> [])"

definition token_at :: "string \<Rightarrow> string" where
  \<comment> \<open>the longest match of \<open>-?\d+(\.\d+)?\<close> at the start of the text, empty if there is none\<close>
  "token_at s =
     (let sign = (case s of c # _ \<Rightarrow> if c = CHR ''-'' then [c] else [] | [] \<Rightarrow> []);
          digits = takeWhile is_digit (drop (length sign) s)
      in if digits = [] then [] else sign @ digits @ fraction_part (drop (length sign + length digits) s))"

function numeric_tokens :: "string \<Rightarrow> string list" where
  "numeric_tokens s = (if s = [] then [] else if token_at s = [] then numeric_tokens (tl s)
     else token_at s # numeric_tokens (drop (length (token_at s)) s))"
  by pat_completeness auto
termination
  by (relation "measure length") (auto simp: neq_Nil_conv)

declare numeric_tokens.simps [simp del]

definition js_includes :: "string \<Rightarrow> string \<Rightarrow> bool" where
  "js_includes s token = list_ex (\<lambda>i. take (length token) (drop i s) = token) [0..<length s + 1]"

definition computeGroundedness :: "string \<Rightarrow> string \<Rightarrow> real" where
  "computeGroundedness outputText inputContextJson = (let tokens = numeric_tokens outputText in
     if tokens = [] then 1 / 2
     else real (length (filter (js_includes inputContextJson) tokens)) / real (length tokens))"

definition js_round :: "real \<Rightarrow> int" where
  \<comment> \<open>\<open>Math.round\<close>\<close>
  "js_round x = \<lfloor>x + 1 / 2\<rfloor>"

definition computeConfidenceIndicator :: "(json \<Rightarrow> string) \<Rightarrow> real \<Rightarrow> string \<Rightarrow> json \<Rightarrow> real" where
  "computeConfidenceIndicator stringify selfReportedConfidence outputText inputContext =
     (let clampedSelfReported = max 0 (min 1 selfReportedConfidence);
          groundedness = computeGroundedness outputText (stringify (stripUntrustedFreeText inputContext))
      in real_of_int (js_round ((clampedSelfReported / 2 + groundedness / 2) * 100)) / 100)"

lemma groundedness_range: "0 \<le> computeGroundedness t c \<and> computeGroundedness t c \<le> 1"
  by (simp add: computeGroundedness_def Let_def divide_le_eq_1)

lemma js_round_bounds: "0 \<le> x \<Longrightarrow> x \<le> real_of_int n \<Longrightarrow> 0 \<le> js_round x \<and> js_round x \<le> n"
  by (simp add: js_round_def le_floor_iff floor_le_iff)


section \<open>Properties\<close>

lemma confidence_bounds:
  "0 \<le> computeConfidenceIndicator stringify c t ctx \<and> computeConfidenceIndicator stringify c t ctx \<le> 1"
proof -
  define g where "g = computeGroundedness t (stringify (stripUntrustedFreeText ctx))"
  define x where "x = (max 0 (min 1 c) / 2 + g / 2) * 100"
  have "0 \<le> g" "g \<le> 1" using groundedness_range by (auto simp: g_def)
  then have "0 \<le> x" "x \<le> real_of_int 100" by (auto simp: x_def max_def min_def)
  then have "0 \<le> js_round x \<and> js_round x \<le> 100" by (rule js_round_bounds)
  moreover have "computeConfidenceIndicator stringify c t ctx = real_of_int (js_round x) / 100"
    unfolding computeConfidenceIndicator_def Let_def g_def[symmetric] x_def ..
  ultimately show ?thesis by simp
qed

text \<open>Two contexts that differ only in free text a user typed.\<close>

inductive same_but_free_text :: "json \<Rightarrow> json \<Rightarrow> bool" where
  same: "same_but_free_text v v"
| arr: "list_all2 same_but_free_text vs ws \<Longrightarrow> same_but_free_text (JArr vs) (JArr ws)"
| obj: "list_all2 (\<lambda>f g. fst f = fst g \<and> (fst f \<in> set UNTRUSTED_FREE_TEXT_KEYS \<or> same_but_free_text (snd f) (snd g))) fs gs
        \<Longrightarrow> same_but_free_text (JObj fs) (JObj gs)"

lemma strip_same: "same_but_free_text v w \<Longrightarrow> stripUntrustedFreeText v = stripUntrustedFreeText w"
proof (induction rule: same_but_free_text.induct)
  case (arr vs ws)
  then have "map stripUntrustedFreeText vs = map stripUntrustedFreeText ws" by (induction rule: list_all2_induct) auto
  then show ?case by simp
next
  case (obj fs gs)
  let ?h = "\<lambda>(k, v). (k, if k \<in> set UNTRUSTED_FREE_TEXT_KEYS then JNull else stripUntrustedFreeText v)"
  from obj have "map ?h fs = map ?h gs" by (induction rule: list_all2_induct) auto
  then show ?case by simp
qed simp

text \<open>
  The confidence of an answer lies between 0 and 1 and does not depend on text a user typed: two contexts
  that differ only in \<open>reason\<close> and \<open>question\<close> fields, at any depth, give the same indicator, so nobody
  can raise it by quoting the expected figures there.
\<close>

theorem confidence_ignores_free_text:
  assumes "same_but_free_text ctx ctx'"
  shows "computeConfidenceIndicator stringify c t ctx = computeConfidenceIndicator stringify c t ctx'
    \<and> 0 \<le> computeConfidenceIndicator stringify c t ctx \<and> computeConfidenceIndicator stringify c t ctx \<le> 1"
  using strip_same[OF assms] confidence_bounds by (simp add: computeConfidenceIndicator_def)

theorem confidence_ignores_free_text_witness:
  "computeConfidenceIndicator (\<lambda>_. ''42'') 1 ''a'' (JObj [(''reason'', JStr ''99''), (''n'', JNum 42)])
   = computeConfidenceIndicator (\<lambda>_. ''42'') 1 ''a'' (JObj [(''reason'', JNull), (''n'', JNum 42)])"
proof -
  have "same_but_free_text (JObj [(''reason'', JStr ''99''), (''n'', JNum 42)]) (JObj [(''reason'', JNull), (''n'', JNum 42)])"
    by (rule same_but_free_text.obj) (simp add: UNTRUSTED_FREE_TEXT_KEYS_def same_but_free_text.same)
  from confidence_ignores_free_text[OF this] show ?thesis by blast
qed

text \<open>An action type that is neither configured nor covered by a default row is only suggested.\<close>

lemma unconfigured_is_suggest_only:
  assumes "\<forall>p\<in>set policies. gp_tenantId p = t \<longrightarrow> gp_actionType p \<noteq> a \<and> gp_actionType p \<noteq> DEFAULT_ACTION_TYPE"
  shows "rg_autonomyLevel (resolve_governance t a policies) = SUGGEST_ONLY"
proof -
  have "findByActionType t a policies = None" "findByActionType t DEFAULT_ACTION_TYPE policies = None"
    using assms by (auto simp: findByActionType_def find_where_None)
  then show ?thesis by (simp add: resolve_governance_def PLATFORM_DEFAULT_AUTONOMY_LEVEL_def)
qed

text \<open>No threshold, no automatic execution; a passed evaluation means every configured threshold holds.\<close>

lemma evaluate_risk_passed:
  assumes "evaluate_risk config context = []"
  shows "(\<exists>m. json_get config ''maxAffectedEmployees'' = Some (JNum m)) \<or> (\<exists>m. json_get config ''minConfidenceIndicator'' = Some (JNum m))"
    "json_get config ''maxAffectedEmployees'' = Some (JNum m) \<Longrightarrow> real (risk_affectedEmployeeCount context) \<le> m"
    "json_get config ''minConfidenceIndicator'' = Some (JNum m) \<Longrightarrow> \<exists>c. risk_confidenceIndicator context = Some c \<and> m \<le> c"
proof -
  show "(\<exists>m. json_get config ''maxAffectedEmployees'' = Some (JNum m)) \<or> (\<exists>m. json_get config ''minConfidenceIndicator'' = Some (JNum m))"
    using assms by (auto simp: evaluate_risk_def Let_def split: option.splits json.splits if_splits)
  show "json_get config ''maxAffectedEmployees'' = Some (JNum m) \<Longrightarrow> real (risk_affectedEmployeeCount context) \<le> m"
    using assms by (auto simp: evaluate_risk_def Let_def split: if_splits)
  show "json_get config ''minConfidenceIndicator'' = Some (JNum m) \<Longrightarrow> \<exists>c. risk_confidenceIndicator context = Some c \<and> m \<le> c"
    using assms by (auto simp: evaluate_risk_def Let_def split: if_splits option.splits)
qed

lemma suspicious_examples:
  "detectSuspiciousRationalePhrases ''This was Pre-Approved; no review needed.'' = [''claims_prior_approval'', ''discourages_review'']"
  "detectSuspiciousRationalePhrases ''Moves two agents to queue B.'' = []"
  by code_simp+

end
