(* ===== verification/Ai_Recommendation.thy ===== *)
theory Ai_Recommendation
  imports Ai_Governance Reallocation
begin

text \<open>
  The life of an AI recommendation (\<open>ai-recommendation.service.ts\<close>): it is created from a
  reallocation rationale, may run at once when governance, risk thresholds and wording allow it, and is
  otherwise decided by a person. The action itself always runs in the owning module.

  The owning module is the interface \<open>reallocation_owner\<close>: an approval succeeds at most once for an
  action. It is interpreted on the intraday service's \<open>approve\<close>. The state keeps, beside the two tables,
  the audit events, the published events and, for the proofs, the list of executions with the
  recommendation each one came from. A decision reads the row in one transaction and saves it in
  another, so it is modelled as a check and a commit; an operation is their composition.
\<close>

section \<open>Entities\<close>

datatype AiInteractionType = FORECAST_EXPLANATION | SCHEDULE_EXPLANATION | REALLOCATION_RATIONALE | NL_QUERY
  | ROOT_CAUSE_ANALYSIS | ANALYTICS_NL_BRIDGE

record AiInteraction =
  ai_id :: uuid
  ai_tenantId :: uuid
  ai_userId :: "uuid option"
  ai_interactionType :: AiInteractionType
  ai_inputContext :: json
  ai_outputText :: "string option"
  ai_outputStructured :: "json option"
  ai_modelUsed :: string
  ai_confidenceIndicator :: "real option"
  ai_degradedMode :: bool
  ai_createdAt :: millis

datatype AiRecommendationSourceModule = SCHEDULING_MODULE | FORECASTING_MODULE | INTRADAY_MODULE
datatype AiRecommendationStatus = REC_SUGGESTED | REC_APPROVED | REC_REJECTED | REC_AUTO_EXECUTED

record AiRecommendation =
  rc_id :: uuid
  rc_tenantId :: uuid
  rc_orgUnitId :: "uuid option"
  rc_recommendationType :: string
  rc_sourceModule :: AiRecommendationSourceModule
  rc_rationaleText :: string
  rc_supportingDataJson :: json
  rc_status :: AiRecommendationStatus
  rc_requiresHumanApproval :: bool
  rc_suspiciousLanguageFlags :: "string list"
  rc_resolvedAutonomyLevel :: AiAutonomyLevel
  rc_decidedBy :: "uuid option"
  rc_decidedAt :: "millis option"
  rc_aiInteractionId :: uuid
  rc_createdAt :: millis

record execution =
  ex_recommendationId :: uuid
  ex_tenantId :: uuid
  ex_actionId :: uuid

record 'w ai_state =
  st_interactions :: "AiInteraction list"
  st_recommendations :: "AiRecommendation list"
  st_policies :: "AiGovernancePolicy list"
  st_audits :: "(uuid \<times> string \<times> uuid) list"
  st_events :: "(string \<times> uuid) list"
  st_executed :: "execution list"
  st_owner :: 'w

record 'w ai_env =
  own_approve :: "uuid \<Rightarrow> uuid \<Rightarrow> 'w \<Rightarrow> bool \<times> 'w"
  env_auditUp :: bool
  env_natsUp :: bool

datatype recommendation_error =
    AiInteractionNotFoundError uuid
  | AiInteractionNotRecommendableError AiInteractionType
  | AiInteractionDegradedError uuid
  | AiRecommendationNotFoundError uuid
  | AiRecommendationNotDecidableError uuid AiRecommendationStatus
  | ReallocationExecutionFailedError
  | NoExecutionPathway

datatype RecommendationDecision = approved | rejected

section \<open>AiRecommendationService\<close>

definition record_audit :: "'w ai_env \<Rightarrow> AiRecommendation \<Rightarrow> string \<Rightarrow> 'w ai_state \<Rightarrow> 'w ai_state" where
  "record_audit env r action s = (if env_auditUp env then s\<lparr>st_audits := st_audits s @ [(rc_tenantId r, action, rc_id r)]\<rparr> else s)"

definition publish_rec :: "'w ai_env \<Rightarrow> string \<Rightarrow> AiRecommendation \<Rightarrow> 'w ai_state \<Rightarrow> 'w ai_state" where
  "publish_rec env subject r s = (if env_natsUp env then s\<lparr>st_events := st_events s @ [(subject, rc_id r)]\<rparr> else s)"

definition save_rec :: "AiRecommendation \<Rightarrow> 'w ai_state \<Rightarrow> 'w ai_state" where
  \<comment> \<open>\<open>manager.save\<close> of a loaded row writes the row back\<close>
  "save_rec r s = s\<lparr>st_recommendations := update_where (\<lambda>x. rc_id x = rc_id r) (\<lambda>_. r) (st_recommendations s)\<rparr>"

definition decided :: "'w ai_env \<Rightarrow> AiRecommendation \<Rightarrow> 'w ai_state \<Rightarrow> 'w ai_state" where
  "decided env r s = publish_rec env ''ai.recommendation.decided'' r (record_audit env r ''ai.recommendation.decided'' (save_rec r s))"

definition json_string :: "json option \<Rightarrow> string" where
  "json_string v = (case v of Some (JStr t) \<Rightarrow> t | _ \<Rightarrow> ''undefined'')"

definition reallocationActionId :: "AiRecommendation \<Rightarrow> uuid" where
  "reallocationActionId r = json_string (json_get (rc_supportingDataJson r) ''reallocationActionId'')"

definition execute_rec ::
  "'w ai_env \<Rightarrow> AiRecommendation \<Rightarrow> uuid option \<Rightarrow> AiRecommendationStatus \<Rightarrow> millis \<Rightarrow> ('w ai_state, recommendation_error, AiRecommendation) svc" where
  "execute_rec env r decidedBy finalStatus now s =
     (if rc_sourceModule r \<noteq> INTRADAY_MODULE then (Inl NoExecutionPathway, s)
      else (case own_approve env (rc_tenantId r) (reallocationActionId r) (st_owner s) of
          (False, w) \<Rightarrow> (Inl ReallocationExecutionFailedError, s\<lparr>st_owner := w\<rparr>)
        | (True, w) \<Rightarrow>
            let r' = r\<lparr>rc_status := finalStatus, rc_decidedBy := decidedBy, rc_decidedAt := Some now\<rparr>;
                s1 = s\<lparr>st_owner := w, st_executed := st_executed s @
                  [\<lparr>ex_recommendationId = rc_id r, ex_tenantId = rc_tenantId r, ex_actionId = reallocationActionId r\<rparr>]\<rparr>
            in (Inr r', decided env r' s1)))"

definition affected_count :: "json \<Rightarrow> nat" where
  "affected_count ctx = (case json_get ctx ''affectedEmployeeIds'' of Some (JArr es) \<Rightarrow> length es | _ \<Rightarrow> 0)"

definition needs_approval :: "ResolvedGovernance \<Rightarrow> AiInteraction \<Rightarrow> string \<Rightarrow> bool" where
  "needs_approval governance interaction outputText \<longleftrightarrow>
     rg_autonomyLevel governance \<noteq> AUTO_EXECUTE_LOW_RISK
     \<or> evaluate_risk (rg_riskThresholdConfig governance)
         \<lparr>risk_affectedEmployeeCount = affected_count (ai_inputContext interaction),
          risk_confidenceIndicator = ai_confidenceIndicator interaction\<rparr> \<noteq> []
     \<or> detectSuspiciousRationalePhrases outputText \<noteq> []"

definition createFromInteraction ::
  "'w ai_env \<Rightarrow> uuid \<Rightarrow> uuid \<Rightarrow> uuid \<Rightarrow> millis \<Rightarrow> ('w ai_state, recommendation_error, AiRecommendation) svc" where
  "createFromInteraction env tenantId aiInteractionId newId now s =
     (case find_where (\<lambda>i. ai_id i = aiInteractionId \<and> ai_tenantId i = tenantId) (st_interactions s) of
        None \<Rightarrow> (Inl (AiInteractionNotFoundError aiInteractionId), s)
      | Some interaction \<Rightarrow>
          if ai_interactionType interaction \<noteq> REALLOCATION_RATIONALE
          then (Inl (AiInteractionNotRecommendableError (ai_interactionType interaction)), s)
          else if ai_degradedMode interaction \<or> \<not> truthy_str (ai_outputText interaction)
          then (Inl (AiInteractionDegradedError aiInteractionId), s)
          else let outputText = the_default (ai_outputText interaction) [];
                   governance = resolve_governance tenantId ''reallocation'' (st_policies s);
                   requiresHumanApproval = needs_approval governance interaction outputText;
                   r = \<lparr>rc_id = newId, rc_tenantId = tenantId, rc_orgUnitId = None, rc_recommendationType = ''reallocation'',
                     rc_sourceModule = INTRADAY_MODULE, rc_rationaleText = outputText,
                     rc_supportingDataJson = ai_inputContext interaction, rc_status = REC_SUGGESTED,
                     rc_requiresHumanApproval = requiresHumanApproval,
                     rc_suspiciousLanguageFlags = detectSuspiciousRationalePhrases outputText,
                     rc_resolvedAutonomyLevel = rg_autonomyLevel governance, rc_decidedBy = None, rc_decidedAt = None,
                     rc_aiInteractionId = aiInteractionId, rc_createdAt = now\<rparr>;
                   s1 = publish_rec env ''ai.recommendation.created'' r
                     (record_audit env r ''ai.recommendation.created'' (s\<lparr>st_recommendations := st_recommendations s @ [r]\<rparr>))
               in if \<not> requiresHumanApproval then execute_rec env r None REC_AUTO_EXECUTED now s1
                  else (Inr r, s1))"

definition decide_check :: "uuid \<Rightarrow> uuid \<Rightarrow> 'w ai_state \<Rightarrow> recommendation_error + AiRecommendation" where
  "decide_check tenantId recommendationId s =
     (case find_where (\<lambda>r. rc_id r = recommendationId \<and> rc_tenantId r = tenantId) (st_recommendations s) of
        None \<Rightarrow> Inl (AiRecommendationNotFoundError recommendationId)
      | Some r \<Rightarrow> if rc_status r \<noteq> REC_SUGGESTED
          then Inl (AiRecommendationNotDecidableError recommendationId (rc_status r)) else Inr r)"

definition decide_commit ::
  "'w ai_env \<Rightarrow> uuid option \<Rightarrow> RecommendationDecision \<Rightarrow> millis \<Rightarrow> AiRecommendation \<Rightarrow> ('w ai_state, recommendation_error, AiRecommendation) svc" where
  "decide_commit env userId decision now r s =
     (case decision of
        rejected \<Rightarrow>
          let r' = r\<lparr>rc_status := REC_REJECTED, rc_decidedBy := userId, rc_decidedAt := Some now\<rparr> in (Inr r', decided env r' s)
      | approved \<Rightarrow>
          if rc_resolvedAutonomyLevel r = SUGGEST_ONLY
          then let r' = r\<lparr>rc_status := REC_APPROVED, rc_decidedBy := userId, rc_decidedAt := Some now\<rparr> in (Inr r', decided env r' s)
          else execute_rec env r userId REC_APPROVED now s)"

definition decideRecommendation ::
  "'w ai_env \<Rightarrow> uuid \<Rightarrow> uuid option \<Rightarrow> uuid \<Rightarrow> RecommendationDecision \<Rightarrow> millis \<Rightarrow> ('w ai_state, recommendation_error, AiRecommendation) svc" where
  "decideRecommendation env tenantId userId recommendationId decision now s =
     (case decide_check tenantId recommendationId s of
        Inl e \<Rightarrow> (Inl e, s)
      | Inr r \<Rightarrow> decide_commit env userId decision now r s)"

definition listPending :: "uuid \<Rightarrow> uuid option \<Rightarrow> 'w ai_state \<Rightarrow> AiRecommendation list" where
  "listPending tenantId orgUnitId s = js_sort (\<lambda>a b. rc_createdAt b \<le> rc_createdAt a)
     (filter (\<lambda>r. rc_tenantId r = tenantId \<and> rc_status r = REC_SUGGESTED
        \<and> (truthy_str orgUnitId \<longrightarrow> rc_orgUnitId r = orgUnitId)) (st_recommendations s))"

record recommendation_filter =
  rf_status :: "AiRecommendationStatus option"
  rf_orgUnitId :: "uuid option"
  rf_sourceModule :: "AiRecommendationSourceModule option"
  rf_limit :: "nat option"
  rf_offset :: "nat option"

definition list_recommendations :: "uuid \<Rightarrow> recommendation_filter \<Rightarrow> 'w ai_state \<Rightarrow> AiRecommendation list" where
  "list_recommendations tenantId f s = take (the_default (rf_limit f) 50) (drop (the_default (rf_offset f) 0)
     (js_sort (\<lambda>a b. rc_createdAt b \<le> rc_createdAt a)
       (filter (\<lambda>r. rc_tenantId r = tenantId
          \<and> (rf_status f \<noteq> None \<longrightarrow> rf_status f = Some (rc_status r))
          \<and> (truthy_str (rf_orgUnitId f) \<longrightarrow> rc_orgUnitId r = rf_orgUnitId f)
          \<and> (rf_sourceModule f \<noteq> None \<longrightarrow> rf_sourceModule f = Some (rc_sourceModule r))) (st_recommendations s))))"

section \<open>The owning module\<close>

locale reallocation_owner =
  fixes approve_call :: "uuid \<Rightarrow> uuid \<Rightarrow> 'w \<Rightarrow> bool \<times> 'w"
    and owner_inv :: "'w \<Rightarrow> bool"
    and owner_step :: "'w \<Rightarrow> 'w \<Rightarrow> bool"
    and has_run :: "'w \<Rightarrow> uuid \<Rightarrow> uuid \<Rightarrow> bool"
  assumes step_inv: "owner_inv w \<Longrightarrow> owner_step w w' \<Longrightarrow> owner_inv w'"
    and step_keeps: "owner_inv w \<Longrightarrow> owner_step w w' \<Longrightarrow> has_run w u j \<Longrightarrow> has_run w' u j"
    and call_inv: "owner_inv w \<Longrightarrow> owner_inv (snd (approve_call t i w))"
    and call_keeps: "owner_inv w \<Longrightarrow> has_run w u j \<Longrightarrow> has_run (snd (approve_call t i w)) u j"
    and call_once: "owner_inv w \<Longrightarrow> fst (approve_call t i w) \<Longrightarrow> \<not> has_run w t i \<and> has_run (snd (approve_call t i w)) t i"

datatype rec_op =
    RecCreate uuid uuid uuid millis
  | RecDecide uuid "uuid option" uuid RecommendationDecision millis
  | RecPolicy uuid string AiAutonomyLevel json "uuid option" uuid millis
  | RecInteraction AiInteraction

fun rec_do :: "'w ai_env \<Rightarrow> rec_op \<Rightarrow> 'w ai_state \<Rightarrow> 'w ai_state" where
  "rec_do env (RecCreate t i newId now) s = snd (createFromInteraction env t i newId now s)"
| "rec_do env (RecDecide t u rid d now) s = snd (decideRecommendation env t u rid d now s)"
| "rec_do env (RecPolicy t a level config by_user newId now) s =
     s\<lparr>st_policies := update_governance t a level config by_user newId now (st_policies s)\<rparr>"
| "rec_do env (RecInteraction i) s = s\<lparr>st_interactions := st_interactions s @ [i]\<rparr>"

fun rec_fresh :: "rec_op \<Rightarrow> 'w ai_state \<Rightarrow> bool" where
  "rec_fresh (RecCreate t i newId now) s \<longleftrightarrow> newId \<notin> rc_id ` set (st_recommendations s) \<and> newId \<notin> ex_recommendationId ` set (st_executed s)"
| "rec_fresh _ s \<longleftrightarrow> True"

text \<open>
  The states the service reaches while the owning module goes on with its own work (the relation \<open>R\<close>).
  Each operation runs with its own environment: the audit service, NATS and the owning module may fail at
  any time.
\<close>

inductive rec_reach :: "('w ai_env \<Rightarrow> bool) \<Rightarrow> ('w \<Rightarrow> bool) \<Rightarrow> ('w \<Rightarrow> 'w \<Rightarrow> bool) \<Rightarrow> 'w ai_state \<Rightarrow> bool" for E I R where
  start: "I (st_owner s) \<Longrightarrow> st_recommendations s = [] \<Longrightarrow> st_executed s = [] \<Longrightarrow> rec_reach E I R s"
| step: "rec_reach E I R s \<Longrightarrow> E env \<Longrightarrow> rec_fresh op s \<Longrightarrow> rec_reach E I R (rec_do env op s)"
| owner: "rec_reach E I R s \<Longrightarrow> R (st_owner s) w \<Longrightarrow> rec_reach E I R (s\<lparr>st_owner := w\<rparr>)"

definition clean_auto :: "AiRecommendation \<Rightarrow> bool" where
  "clean_auto r \<longleftrightarrow> rc_resolvedAutonomyLevel r = AUTO_EXECUTE_LOW_RISK \<and> \<not> rc_requiresHumanApproval r \<and> rc_suspiciousLanguageFlags r = []"

definition rec_ok :: "execution list \<Rightarrow> AiRecommendation \<Rightarrow> bool" where
  "rec_ok done_log r \<longleftrightarrow>
     ((\<exists>e\<in>set done_log. ex_recommendationId e = rc_id r) \<longleftrightarrow>
        rc_status r = REC_AUTO_EXECUTED \<or> rc_status r = REC_APPROVED \<and> rc_resolvedAutonomyLevel r \<noteq> SUGGEST_ONLY)
     \<and> (rc_status r = REC_AUTO_EXECUTED \<longrightarrow> clean_auto r)
     \<and> (\<not> rc_requiresHumanApproval r \<longrightarrow> clean_auto r)"

definition recs_inv :: "'w ai_state \<Rightarrow> bool" where
  "recs_inv s \<longleftrightarrow> distinct (map rc_id (st_recommendations s)) \<and> (\<forall>r\<in>set (st_recommendations s). rec_ok (st_executed s) r)
     \<and> (\<forall>e\<in>set (st_executed s). \<exists>r\<in>set (st_recommendations s). rc_id r = ex_recommendationId e)"

section \<open>Invariant of the tables\<close>

lemma decided_frame [simp]:
  "st_recommendations (decided env r s) = update_where (\<lambda>x. rc_id x = rc_id r) (\<lambda>_. r) (st_recommendations s)"
  "st_executed (decided env r s) = st_executed s" "st_owner (decided env r s) = st_owner s"
  by (simp_all add: decided_def publish_rec_def record_audit_def save_rec_def)

lemma created_frame [simp]:
  "st_recommendations (publish_rec env m r (record_audit env r a s)) = st_recommendations s"
  "st_executed (publish_rec env m r (record_audit env r a s)) = st_executed s"
  "st_owner (publish_rec env m r (record_audit env r a s)) = st_owner s"
  by (simp_all add: publish_rec_def record_audit_def)

lemma recs_inv_replace:
  assumes inv: "recs_inv s" and r: "r \<in> set (st_recommendations s)" "rc_id r' = rc_id r"
    and recs: "st_recommendations s' = update_where (\<lambda>x. rc_id x = rc_id r') (\<lambda>_. r') (st_recommendations s)"
    and ex: "st_executed s' = st_executed s @ es" "\<forall>e\<in>set es. ex_recommendationId e = rc_id r'"
    and ok: "rec_ok (st_executed s') r'"
  shows "recs_inv s'"
proof -
  have ids: "map rc_id (st_recommendations s') = map rc_id (st_recommendations s)"
    unfolding recs update_where_def by simp
  have mem: "x = r' \<or> x \<in> set (st_recommendations s) \<and> rc_id x \<noteq> rc_id r'" if "x \<in> set (st_recommendations s')" for x
    using that unfolding recs by (auto simp: update_where_def split: if_splits)
  have "r' \<in> set (st_recommendations s')" using r unfolding recs update_where_def by force
  have "rec_ok (st_executed s') x" if "x \<in> set (st_recommendations s')" for x
    using mem[OF that]
  proof
    assume x: "x \<in> set (st_recommendations s) \<and> rc_id x \<noteq> rc_id r'"
    then have "(\<exists>e\<in>set (st_executed s'). ex_recommendationId e = rc_id x) \<longleftrightarrow> (\<exists>e\<in>set (st_executed s). ex_recommendationId e = rc_id x)"
      unfolding ex(1) set_append using ex(2) by (metis Un_iff)
    moreover have "rec_ok (st_executed s) x" using x inv by (simp add: recs_inv_def)
    ultimately show ?thesis unfolding rec_ok_def by blast
  qed (simp add: ok)
  moreover have "\<exists>x\<in>set (st_recommendations s'). rc_id x = ex_recommendationId e" if "e \<in> set (st_executed s')" for e
  proof -
    from that ex consider "e \<in> set (st_executed s)" | "ex_recommendationId e = rc_id r'" by auto
    then show ?thesis
    proof cases
      case 1
      then obtain x where "x \<in> set (st_recommendations s)" "rc_id x = ex_recommendationId e" using inv by (auto simp: recs_inv_def)
      then have "rc_id x \<in> set (map rc_id (st_recommendations s'))" unfolding ids by (metis image_eqI set_map)
      then show ?thesis using \<open>rc_id x = ex_recommendationId e\<close> by auto
    next
      case 2
      then show ?thesis using \<open>r' \<in> set (st_recommendations s')\<close> by metis
    qed
  qed
  ultimately show ?thesis using inv ids by (simp add: recs_inv_def)
qed

lemma execute_rec_inv:
  assumes inv: "recs_inv s" and r: "r \<in> set (st_recommendations s)" "rc_status r = REC_SUGGESTED" "rc_resolvedAutonomyLevel r \<noteq> SUGGEST_ONLY"
    and fin: "finalStatus = REC_APPROVED \<or> finalStatus = REC_AUTO_EXECUTED \<and> clean_auto r"
  shows "recs_inv (snd (execute_rec env r u finalStatus now s))"
proof (cases "rc_sourceModule r = INTRADAY_MODULE \<and> fst (own_approve env (rc_tenantId r) (reallocationActionId r) (st_owner s))")
  case False
  then have "st_recommendations (snd (execute_rec env r u finalStatus now s)) = st_recommendations s"
    "st_executed (snd (execute_rec env r u finalStatus now s)) = st_executed s"
    by (auto simp: execute_rec_def split: prod.splits bool.splits)
  with inv show ?thesis by (simp add: recs_inv_def)
next
  case True
  then obtain w where w: "own_approve env (rc_tenantId r) (reallocationActionId r) (st_owner s) = (True, w)" by (metis (full_types) prod.collapse)
  let ?e = "\<lparr>ex_recommendationId = rc_id r, ex_tenantId = rc_tenantId r, ex_actionId = reallocationActionId r\<rparr>"
  let ?r = "r\<lparr>rc_status := finalStatus, rc_decidedBy := u, rc_decidedAt := Some now\<rparr>"
  show ?thesis
  proof (rule recs_inv_replace[OF inv r(1), where r' = ?r and es = "[?e]"])
    show "st_executed (snd (execute_rec env r u finalStatus now s)) = st_executed s @ [?e]"
      using True w by (simp add: execute_rec_def Let_def)
    then show "rec_ok (st_executed (snd (execute_rec env r u finalStatus now s))) ?r"
      using fin r(1,3) inv by (auto simp: rec_ok_def clean_auto_def recs_inv_def)
  qed (use True w in \<open>simp_all add: execute_rec_def Let_def\<close>)
qed

lemma decide_check_Inr:
  "decide_check t rid s = Inr r \<Longrightarrow> r \<in> set (st_recommendations s) \<and> rc_id r = rid \<and> rc_tenantId r = t \<and> rc_status r = REC_SUGGESTED"
  by (auto simp: decide_check_def split: option.splits if_splits dest: find_where_SomeD)

lemma decide_recs_inv:
  assumes inv: "recs_inv s"
  shows "recs_inv (snd (decideRecommendation env t u rid d now s))"
proof (cases "decide_check t rid s")
  case (Inl e)
  then show ?thesis using inv by (simp add: decideRecommendation_def)
next
  case (Inr r)
  note r = decide_check_Inr[OF Inr]
  have ok: "rec_ok (st_executed s) r" using inv r by (simp add: recs_inv_def)
  have save: "recs_inv (decided env (r\<lparr>rc_status := st, rc_decidedBy := u, rc_decidedAt := Some now\<rparr>) s)"
    if "st = REC_REJECTED \<or> st = REC_APPROVED \<and> rc_resolvedAutonomyLevel r = SUGGEST_ONLY" for st
    by (rule recs_inv_replace[OF inv, of r "r\<lparr>rc_status := st, rc_decidedBy := u, rc_decidedAt := Some now\<rparr>" _ "[]"])
      (use r ok that in \<open>auto simp: rec_ok_def clean_auto_def\<close>)
  show ?thesis
  proof (cases d)
    case rejected
    then show ?thesis using Inr save by (simp add: decideRecommendation_def decide_commit_def Let_def)
  next
    case approved
    show ?thesis
    proof (cases "rc_resolvedAutonomyLevel r = SUGGEST_ONLY")
      case True
      then show ?thesis using Inr approved save by (simp add: decideRecommendation_def decide_commit_def Let_def)
    next
      case False
      then show ?thesis using Inr approved execute_rec_inv[OF inv _ _ False, of REC_APPROVED] r
        by (simp add: decideRecommendation_def decide_commit_def)
    qed
  qed
qed

text \<open>What a creation does: nothing, a suggestion, or a suggestion that is executed at once.\<close>

lemma create_cases:
  obtains (nothing) "snd (createFromInteraction env t i newId now s) = s"
  | (row) r s1 where "rc_id r = newId" "rc_tenantId r = t" "rc_status r = REC_SUGGESTED"
      "\<not> rc_requiresHumanApproval r \<Longrightarrow> clean_auto r" "st_recommendations s1 = st_recommendations s @ [r]"
      "st_executed s1 = st_executed s" "st_owner s1 = st_owner s"
      "snd (createFromInteraction env t i newId now s) =
         (if rc_requiresHumanApproval r then s1 else snd (execute_rec env r None REC_AUTO_EXECUTED now s1))"
proof (cases "find_where (\<lambda>x. ai_id x = i \<and> ai_tenantId x = t) (st_interactions s)")
  case None
  then have "snd (createFromInteraction env t i newId now s) = s" by (simp add: createFromInteraction_def)
  then show ?thesis by (rule nothing)
next
  case (Some x)
  let ?text = "the_default (ai_outputText x) []"
  let ?g = "resolve_governance t ''reallocation'' (st_policies s)"
  let ?r = "\<lparr>rc_id = newId, rc_tenantId = t, rc_orgUnitId = None, rc_recommendationType = ''reallocation'',
     rc_sourceModule = INTRADAY_MODULE, rc_rationaleText = ?text, rc_supportingDataJson = ai_inputContext x, rc_status = REC_SUGGESTED,
     rc_requiresHumanApproval = needs_approval ?g x ?text, rc_suspiciousLanguageFlags = detectSuspiciousRationalePhrases ?text,
     rc_resolvedAutonomyLevel = rg_autonomyLevel ?g, rc_decidedBy = None, rc_decidedAt = None,
     rc_aiInteractionId = i, rc_createdAt = now\<rparr>"
  let ?s1 = "publish_rec env ''ai.recommendation.created'' ?r
     (record_audit env ?r ''ai.recommendation.created'' (s\<lparr>st_recommendations := st_recommendations s @ [?r]\<rparr>))"
  show ?thesis
  proof (cases "ai_interactionType x \<noteq> REALLOCATION_RATIONALE \<or> ai_degradedMode x \<or> \<not> truthy_str (ai_outputText x)")
    case True
    then have "snd (createFromInteraction env t i newId now s) = s" using Some by (auto simp: createFromInteraction_def)
    then show ?thesis by (rule nothing)
  next
    case False
    show ?thesis
    proof (rule row[of ?r ?s1])
      show "snd (createFromInteraction env t i newId now s) =
         (if rc_requiresHumanApproval ?r then ?s1 else snd (execute_rec env ?r None REC_AUTO_EXECUTED now ?s1))"
        using False Some by (simp add: createFromInteraction_def Let_def)
      show "\<not> rc_requiresHumanApproval ?r \<Longrightarrow> clean_auto ?r" by (simp add: clean_auto_def needs_approval_def)
    qed simp_all
  qed
qed

lemma create_inv:
  assumes inv: "recs_inv s" and fresh: "rec_fresh (RecCreate t i newId now) s"
  shows "recs_inv (snd (createFromInteraction env t i newId now s))"
proof (rule create_cases[of env t i newId now s])
  assume "snd (createFromInteraction env t i newId now s) = s"
  with inv show ?thesis by simp
next
  fix r s1
  assume r: "rc_id r = newId" "rc_status r = REC_SUGGESTED" "\<not> rc_requiresHumanApproval r \<Longrightarrow> clean_auto r"
    "st_recommendations s1 = st_recommendations s @ [r]" "st_executed s1 = st_executed s"
    "snd (createFromInteraction env t i newId now s) =
       (if rc_requiresHumanApproval r then s1 else snd (execute_rec env r None REC_AUTO_EXECUTED now s1))"
  have "rec_ok (st_executed s) r" using r(1-3) fresh by (force simp: rec_ok_def)
  then have s1: "recs_inv s1" using inv fresh r(1,4,5) by (auto simp: recs_inv_def)
  show ?thesis
  proof (cases "rc_requiresHumanApproval r")
    case True
    then show ?thesis using s1 r(6) by simp
  next
    case False
    then have "clean_auto r" by (rule r(3))
    then have "recs_inv (snd (execute_rec env r None REC_AUTO_EXECUTED now s1))"
      using r(2,4) by (intro execute_rec_inv[OF s1]) (simp_all add: clean_auto_def)
    then show ?thesis using False r(6) by simp
  qed
qed

lemma recs_inv_frame:
  "recs_inv s \<Longrightarrow> st_recommendations s' = st_recommendations s \<Longrightarrow> st_executed s' = st_executed s \<Longrightarrow> recs_inv s'"
  by (simp add: recs_inv_def)

lemma rec_do_inv: "recs_inv s \<Longrightarrow> rec_fresh op s \<Longrightarrow> recs_inv (rec_do env op s)"
  by (cases op) (simp_all add: create_inv decide_recs_inv recs_inv_frame del: rec_fresh.simps)

lemma rec_reach_inv: "rec_reach E I R s \<Longrightarrow> recs_inv s"
proof (induction rule: rec_reach.induct)
  case (step s env op)
  then show ?case by (intro rec_do_inv)
qed (simp_all add: recs_inv_def)

section \<open>An action runs once\<close>

definition owner_log :: "('w \<Rightarrow> bool) \<Rightarrow> ('w \<Rightarrow> uuid \<Rightarrow> uuid \<Rightarrow> bool) \<Rightarrow> 'w ai_state \<Rightarrow> bool" where
  "owner_log I has_run s \<longleftrightarrow> I (st_owner s) \<and> distinct (map (\<lambda>e. (ex_tenantId e, ex_actionId e)) (st_executed s))
     \<and> (\<forall>e\<in>set (st_executed s). has_run (st_owner s) (ex_tenantId e) (ex_actionId e))"

context reallocation_owner
begin

lemma execute_owner:
  assumes "owner_log owner_inv has_run s" "own_approve env = approve_call"
  shows "owner_log owner_inv has_run (snd (execute_rec env r u st now s))"
proof (cases "rc_sourceModule r = INTRADAY_MODULE")
  case False
  then show ?thesis using assms(1) by (simp add: execute_rec_def)
next
  case True
  let ?c = "approve_call (rc_tenantId r) (reallocationActionId r) (st_owner s)"
  have I: "owner_inv (st_owner s)" using assms(1) by (simp add: owner_log_def)
  note keeps = call_keeps[OF I, of _ _ "rc_tenantId r" "reallocationActionId r"]
    and inv = call_inv[OF I, of "rc_tenantId r" "reallocationActionId r"]
  show ?thesis
  proof (cases "fst ?c")
    case False
    then show ?thesis using True assms keeps inv
      by (cases ?c) (auto simp: execute_rec_def owner_log_def)
  next
    case ok: True
    then show ?thesis using True assms keeps inv call_once[OF I ok]
      by (cases ?c) (auto simp: execute_rec_def owner_log_def Let_def)
  qed
qed

lemma owner_log_frame:
  "owner_log owner_inv has_run s \<Longrightarrow> st_executed s' = st_executed s \<Longrightarrow> st_owner s' = st_owner s \<Longrightarrow> owner_log owner_inv has_run s'"
  by (simp add: owner_log_def)

lemma rec_do_owner:
  assumes "owner_log owner_inv has_run s" "own_approve env = approve_call"
  shows "owner_log owner_inv has_run (rec_do env op s)"
proof (cases op)
  case (RecCreate t i newId now)
  show ?thesis
  proof (rule create_cases[of env t i newId now s])
    assume "snd (createFromInteraction env t i newId now s) = s"
    then show ?thesis using assms(1) by (simp add: RecCreate)
  next
    fix r s1
    assume "st_executed s1 = st_executed s" "st_owner s1 = st_owner s"
      and e: "snd (createFromInteraction env t i newId now s) =
         (if rc_requiresHumanApproval r then s1 else snd (execute_rec env r None REC_AUTO_EXECUTED now s1))"
    then have "owner_log owner_inv has_run s1" using owner_log_frame[OF assms(1)] by blast
    then show ?thesis using e execute_owner[OF _ assms(2)] by (simp add: RecCreate)
  qed
next
  case (RecDecide t u rid d now)
  show ?thesis
  proof (cases "decide_check t rid s")
    case (Inl e)
    then show ?thesis using assms(1) by (simp add: RecDecide decideRecommendation_def)
  next
    case (Inr r)
    have "owner_log owner_inv has_run (snd (decide_commit env u d now r s))"
      using execute_owner[OF assms] owner_log_frame[OF assms(1)]
      by (auto simp: decide_commit_def Let_def split: RecommendationDecision.split)
    with Inr show ?thesis by (simp add: RecDecide decideRecommendation_def)
  qed
qed (use owner_log_frame[OF assms(1)] in simp_all)

lemma rec_reach_owner:
  assumes "rec_reach (\<lambda>env. own_approve env = approve_call) owner_inv owner_step s"
  shows "owner_log owner_inv has_run s"
  using assms
proof (induction rule: rec_reach.induct)
  case (start s)
  then show ?case by (simp add: owner_log_def)
next
  case (step s env op)
  then show ?case by (intro rec_do_owner)
next
  case (owner s w)
  then show ?case using step_inv[of "st_owner s" w] step_keeps[of "st_owner s" w] by (simp add: owner_log_def)
qed

end

text \<open>The intraday service is such an owner: it approves an action only while it is suggested.\<close>

definition intraday_approve :: "metrics_env \<Rightarrow> (uuid \<Rightarrow> nat) \<Rightarrow> uuid \<Rightarrow> uuid \<Rightarrow> 'n intraday \<Rightarrow> bool \<times> 'n intraday" where
  \<comment> \<open>\<open>idOf\<close> relates the uuids of the API to the numbers of the model's rows; \<open>response.ok\<close> is no error\<close>
  "intraday_approve env idOf tenantId actionId s =
     (case approve env tenantId (idOf actionId) s of (res, s') \<Rightarrow> (\<not> isl res, s'))"

definition intraday_ran :: "(uuid \<Rightarrow> nat) \<Rightarrow> 'n intraday \<Rightarrow> uuid \<Rightarrow> uuid \<Rightarrow> bool" where
  "intraday_ran idOf s tenantId actionId \<longleftrightarrow>
     (\<exists>a\<in>set (iv_actions s). ra_tenantId a = tenantId \<and> ra_id a = idOf actionId \<and> final_action a)"

lemma approve_success:
  assumes "intraday_inv s" "approve env t i s = (Inr a', s')"
  shows "\<not> (\<exists>a\<in>set (iv_actions s). ra_tenantId a = t \<and> ra_id a = i \<and> final_action a)
    \<and> (\<exists>a\<in>set (iv_actions s'). ra_tenantId a = t \<and> ra_id a = i \<and> final_action a)"
proof -
  obtain a where f: "find_where (\<lambda>a. ra_tenantId a = t \<and> ra_id a = i) (iv_actions s) = Some a" and st: "ra_status a = Suggested"
    and s': "iv_actions s' = update_where (\<lambda>x. ra_id x = ra_id a) (\<lambda>_. a\<lparr>ra_status := Executed, ra_executedAt := Some (me_now env)\<rparr>) (iv_actions s)"
    using assms(2) by (auto simp: approve_def Let_def split: option.splits if_splits prod.splits bool.splits)
  have a: "a \<in> set (iv_actions s)" "ra_tenantId a = t" "ra_id a = i" using find_where_SomeD[OF f] by simp_all
  have "\<not> final_action b" if "b \<in> set (iv_actions s)" "ra_id b = i" for b
  proof -
    have "b = a" using that a assms(1) by (auto simp: intraday_inv_def distinct_map inj_on_def)
    then show ?thesis using st by (simp add: final_action_def)
  qed
  moreover have "a\<lparr>ra_status := Executed, ra_executedAt := Some (me_now env)\<rparr> \<in> set (iv_actions s')"
    unfolding s' using a(1) by (force simp: update_where_def)
  moreover have "final_action (a\<lparr>ra_status := Executed, ra_executedAt := Some (me_now env)\<rparr>)" by (simp add: final_action_def)
  moreover have "ra_tenantId (a\<lparr>ra_status := Executed, ra_executedAt := Some (me_now env)\<rparr>) = t"
    "ra_id (a\<lparr>ra_status := Executed, ra_executedAt := Some (me_now env)\<rparr>) = i" using a by simp_all
  ultimately show ?thesis by blast
qed

definition intraday_step :: "('n :: linorder) float_ops \<Rightarrow> 'n intraday \<Rightarrow> 'n intraday \<Rightarrow> bool" where
  "intraday_step fl w w' \<longleftrightarrow> (\<exists>op. w' = intraday_do fl op w)"

lemma keeps_final_ran: "keeps_final w w' \<Longrightarrow> intraday_ran idOf w u j \<Longrightarrow> intraday_ran idOf w' u j"
  by (auto simp: intraday_ran_def keeps_final_def)

lemma keeps_final_inv: "keeps_final w w' \<Longrightarrow> intraday_inv w'"
  by (simp add: keeps_final_def)

lemma intraday_approve_keeps: "intraday_inv w \<Longrightarrow> keeps_final w (snd (intraday_approve env idOf t i w))"
  using approve_keeps[of w env t "idOf i"] by (cases "approve env t (idOf i) w") (simp add: intraday_approve_def)

lemma intraday_step_keeps: "intraday_inv w \<Longrightarrow> intraday_step fl w w' \<Longrightarrow> keeps_final w w'"
  by (auto simp: intraday_step_def intro: intraday_do_keeps)

interpretation intraday_owner: reallocation_owner "intraday_approve env idOf" intraday_inv "intraday_step fl" "intraday_ran idOf"
  for env idOf fl
proof (unfold_locales, goal_cases)
  case (5 w t i)
  then obtain a' s' where a: "approve env t (idOf i) w = (Inr a', s')"
    by (cases "approve env t (idOf i) w"; cases "fst (approve env t (idOf i) w)") (auto simp: intraday_approve_def)
  from approve_success[OF 5(1) a] a show ?case
    by (auto simp: intraday_ran_def intraday_approve_def)
qed (blast intro: intraday_approve_keeps intraday_step_keeps keeps_final_ran keeps_final_inv)+

section \<open>What runs, and on whose word\<close>


text \<open>
  Property C21. However many recommendations name a reallocation, and however supervisors, thresholds and
  the intraday service interleave, one action of one tenant is executed at most once, and every execution
  the service recorded is an executed action of the intraday service.
\<close>

theorem recommended_action_runs_once:
  assumes "rec_reach (\<lambda>env. own_approve env = intraday_approve ienv idOf) intraday_inv (intraday_step fl) s"
  shows "distinct (map (\<lambda>e. (ex_tenantId e, ex_actionId e)) (st_executed s))
    \<and> (\<forall>e\<in>set (st_executed s). \<exists>a\<in>set (iv_actions (st_owner s)). ra_tenantId a = ex_tenantId e \<and> ra_id a = idOf (ex_actionId e)
         \<and> ra_status a \<in> {Executed, Auto_executed})"
  using intraday_owner.rec_reach_owner[OF assms] by (simp add: owner_log_def intraday_ran_def final_action_def)

lemma resolve_level_row:
  "rg_autonomyLevel (resolve_governance t a ps) \<noteq> SUGGEST_ONLY \<Longrightarrow>
    \<exists>p\<in>set ps. gp_tenantId p = t \<and> gp_actionType p \<in> {a, DEFAULT_ACTION_TYPE} \<and> resolve_governance t a ps = resolved_of p"
  by (auto simp: resolve_governance_def findByActionType_def PLATFORM_DEFAULT_AUTONOMY_LEVEL_def find_where_None
      split: option.splits if_splits dest!: find_where_SomeD)

lemma create_executed:
  assumes "st_executed (snd (createFromInteraction env t i newId now s)) \<noteq> st_executed s"
  shows "\<exists>x\<in>set (st_interactions s). ai_id x = i \<and> ai_tenantId x = t \<and> ai_interactionType x = REALLOCATION_RATIONALE \<and> \<not> ai_degradedMode x
    \<and> truthy_str (ai_outputText x) \<and> \<not> needs_approval (resolve_governance t ''reallocation'' (st_policies s)) x (the_default (ai_outputText x) [])"
  using assms by (auto simp: createFromInteraction_def Let_def split: option.splits if_splits dest!: find_where_SomeD)

text \<open>
  A recommendation runs on creation only if the tenant itself stored an
  auto-execute policy for reallocations (or as its default), that policy names at least one threshold,
  every threshold it names is met by the rationale, a missing confidence counting as not met, and no
  suspicious phrase was found. Without a policy, with an empty or misspelt one, with a rationale that is
  degraded or empty, nothing runs.
\<close>

theorem auto_execution_needs_everything:
  assumes "st_executed (snd (createFromInteraction env t i newId now s)) \<noteq> st_executed s"
  shows "\<exists>x\<in>set (st_interactions s). \<exists>p\<in>set (st_policies s).
    ai_id x = i \<and> ai_tenantId x = t \<and> \<not> ai_degradedMode x \<and> detectSuspiciousRationalePhrases (the_default (ai_outputText x) []) = []
    \<and> gp_tenantId p = t \<and> gp_actionType p \<in> {''reallocation'', ''default''} \<and> gp_autonomyLevel p = AUTO_EXECUTE_LOW_RISK
    \<and> (\<exists>k m. k \<in> {''maxAffectedEmployees'', ''minConfidenceIndicator''} \<and> json_get (gp_riskThresholdConfig p) k = Some (JNum m))
    \<and> (\<forall>m. json_get (gp_riskThresholdConfig p) ''maxAffectedEmployees'' = Some (JNum m) \<longrightarrow> real (affected_count (ai_inputContext x)) \<le> m)
    \<and> (\<forall>m. json_get (gp_riskThresholdConfig p) ''minConfidenceIndicator'' = Some (JNum m) \<longrightarrow>
         (\<exists>c. ai_confidenceIndicator x = Some c \<and> m \<le> c))"
proof -
  let ?g = "resolve_governance t ''reallocation'' (st_policies s)"
  obtain x where x: "x \<in> set (st_interactions s)" "ai_id x = i" "ai_tenantId x = t" "\<not> ai_degradedMode x"
    and ok: "\<not> needs_approval ?g x (the_default (ai_outputText x) [])" using create_executed[OF assms] by blast
  have level: "rg_autonomyLevel ?g = AUTO_EXECUTE_LOW_RISK" using ok by (simp add: needs_approval_def)
  then obtain p where p: "p \<in> set (st_policies s)" "gp_tenantId p = t" "gp_actionType p \<in> {''reallocation'', ''default''}" "?g = resolved_of p"
    using resolve_level_row[of t "''reallocation''" "st_policies s"] unfolding DEFAULT_ACTION_TYPE_def by (metis AiAutonomyLevel.distinct(3))
  let ?c = "\<lparr>risk_affectedEmployeeCount = affected_count (ai_inputContext x), risk_confidenceIndicator = ai_confidenceIndicator x\<rparr>"
  have risk: "evaluate_risk (gp_riskThresholdConfig p) ?c = []" and words: "detectSuspiciousRationalePhrases (the_default (ai_outputText x) []) = []"
    using ok p(4) by (simp_all add: needs_approval_def resolved_of_def)
  have "gp_autonomyLevel p = AUTO_EXECUTE_LOW_RISK" using level p(4) by (simp add: resolved_of_def)
  moreover have "\<exists>k m. k \<in> {''maxAffectedEmployees'', ''minConfidenceIndicator''} \<and> json_get (gp_riskThresholdConfig p) k = Some (JNum m)"
    using evaluate_risk_passed(1)[OF risk] by blast
  moreover have "real (affected_count (ai_inputContext x)) \<le> m" if "json_get (gp_riskThresholdConfig p) ''maxAffectedEmployees'' = Some (JNum m)" for m
    using evaluate_risk_passed(2)[OF risk that] by simp
  moreover have "\<exists>c. ai_confidenceIndicator x = Some c \<and> m \<le> c" if "json_get (gp_riskThresholdConfig p) ''minConfidenceIndicator'' = Some (JNum m)" for m
    using evaluate_risk_passed(3)[OF risk that] by simp
  ultimately show ?thesis using x p(1-3) words by blast
qed

text \<open>
  Two decisions on one recommendation are not serialised: both read the pending row, the approval
  executes the action, and the rejection then saves its stale copy. The action has run and the row, the
  last audit entry and the last event say rejected.
\<close>

lemma concurrent_decisions_conflict:
  assumes check: "decide_check t rid s = Inr r" and level: "rc_resolvedAutonomyLevel r \<noteq> SUGGEST_ONLY"
    and source: "rc_sourceModule r = INTRADAY_MODULE"
    and ok: "fst (own_approve env t (reallocationActionId r) (st_owner s))"
    and s1: "s1 = snd (decide_commit env u approved now r s)" and s2: "s2 = snd (decide_commit env v rejected later r s1)"
  shows "\<exists>x\<in>set (st_recommendations s2). rc_id x = rid \<and> rc_status x = REC_REJECTED"
    and "\<exists>e\<in>set (st_executed s2). ex_recommendationId e = rid"
proof -
  have r: "r \<in> set (st_recommendations s)" "rc_id r = rid" "rc_tenantId r = t" using decide_check_Inr[OF check] by blast+
  let ?a = "r\<lparr>rc_status := REC_APPROVED, rc_decidedBy := u, rc_decidedAt := Some now\<rparr>"
  let ?b = "r\<lparr>rc_status := REC_REJECTED, rc_decidedBy := v, rc_decidedAt := Some later\<rparr>"
  have s1': "st_recommendations s1 = update_where (\<lambda>x. rc_id x = rid) (\<lambda>_. ?a) (st_recommendations s)"
    "\<exists>e\<in>set (st_executed s1). ex_recommendationId e = rid"
    using level source ok r unfolding s1 by (auto simp: decide_commit_def execute_rec_def Let_def split: prod.split bool.split)
  have s2': "st_recommendations s2 = update_where (\<lambda>x. rc_id x = rid) (\<lambda>_. ?b) (st_recommendations s1)" "st_executed s2 = st_executed s1"
    using r unfolding s2 by (simp_all add: decide_commit_def Let_def)
  show "\<exists>e\<in>set (st_executed s2). ex_recommendationId e = rid" using s1'(2) s2'(2) by simp
  have "?a \<in> set (st_recommendations s1)" unfolding s1' using r by (force simp: update_where_def)
  then have "?b \<in> set (st_recommendations s2)" unfolding s2' using r by (force simp: update_where_def)
  then show "\<exists>x\<in>set (st_recommendations s2). rc_id x = rid \<and> rc_status x = REC_REJECTED" using r(2) by (intro bexI[of _ ?b]) simp_all
qed

section \<open>Witnesses\<close>

definition demo_rationale :: AiInteraction where
  "demo_rationale = \<lparr>ai_id = ''i'', ai_tenantId = ''t'', ai_userId = None, ai_interactionType = REALLOCATION_RATIONALE,
     ai_inputContext = JObj [(''reallocationActionId'', JStr ''action''), (''affectedEmployeeIds'', JArr [JStr ''e''])],
     ai_outputText = Some ''Move one agent.'', ai_outputStructured = None, ai_modelUsed = ''m'', ai_confidenceIndicator = Some (9 / 10),
     ai_degradedMode = False, ai_createdAt = 0\<rparr>"

definition demo_auto_policy :: AiGovernancePolicy where
  "demo_auto_policy = \<lparr>gp_id = ''p'', gp_tenantId = ''t'', gp_actionType = ''default'', gp_autonomyLevel = AUTO_EXECUTE_LOW_RISK,
     gp_riskThresholdConfig = JObj [(''maxAffectedEmployees'', JNum 2), (''minConfidenceIndicator'', JNum (1 / 2))],
     gp_updatedAt = 0, gp_updatedBy = None\<rparr>"

definition demo_ai :: "int intraday ai_state" where
  "demo_ai = \<lparr>st_interactions = [demo_rationale], st_recommendations = [], st_policies = [demo_auto_policy], st_audits = [], st_events = [],
     st_executed = [], st_owner = demo_suggested\<rparr>"

definition demo_ai_env :: "int intraday ai_env" where
  "demo_ai_env = \<lparr>own_approve = intraday_approve (demo_metrics_env 2000 False) (\<lambda>_. 0), env_auditUp = False, env_natsUp = True\<rparr>"

lemma demo_ai_facts:
  "intraday_inv demo_suggested" "fst (intraday_approve (demo_metrics_env 2000 False) (\<lambda>_. 0) ''t'' j demo_suggested)"
proof -
  obtain a where a: "iv_actions demo_suggested = [a]" "ra_id a = 0" "ra_tenantId a = ''t''" "ra_status a = Suggested"
    using demo_suggested_actions(1) by blast
  then show "intraday_inv demo_suggested" using demo_suggested_actions(2,3) by (simp add: intraday_inv_def)
  show "fst (intraday_approve (demo_metrics_env 2000 False) (\<lambda>_. 0) ''t'' j demo_suggested)"
    using a by (simp add: intraday_approve_def approve_def demo_metrics_env_def applyReallocation_ok Let_def)
qed

lemma demo_auto_clean:
  "\<not> needs_approval (resolve_governance ''t'' ''reallocation'' [demo_auto_policy]) demo_rationale ''Move one agent.''"
proof -
  have "detectSuspiciousRationalePhrases ''Move one agent.'' = []" by code_simp
  then show ?thesis
    by (simp add: needs_approval_def demo_auto_policy_def demo_rationale_def resolve_governance_def findByActionType_def
        resolved_of_def DEFAULT_ACTION_TYPE_def evaluate_risk_def affected_count_def)
qed

lemma demo_auto_run:
  "map ex_recommendationId (st_executed (rec_do demo_ai_env (RecCreate ''t'' ''i'' ''r'' 5) demo_ai)) = [''r'']"
  "map rc_id (st_recommendations (rec_do demo_ai_env (RecCreate ''t'' ''i'' ''r'' 5) demo_ai)) = [''r'']"
proof -
  have x: "find_where (\<lambda>x. ai_id x = ''i'' \<and> ai_tenantId x = ''t'') (st_interactions demo_ai) = Some demo_rationale"
    "ai_interactionType demo_rationale = REALLOCATION_RATIONALE" "\<not> ai_degradedMode demo_rationale"
    "ai_outputText demo_rationale = Some ''Move one agent.''" "truthy_str (Some ''Move one agent.'')"
    by (simp_all add: demo_ai_def demo_rationale_def truthy_str_def)
  have p: "st_policies demo_ai = [demo_auto_policy]" "st_recommendations demo_ai = []" "st_executed demo_ai = []" "st_owner demo_ai = demo_suggested"
    by (simp_all add: demo_ai_def)
  have e: "own_approve demo_ai_env = intraday_approve (demo_metrics_env 2000 False) (\<lambda>_. 0)" by (simp add: demo_ai_env_def)
  define f where "f = (\<lambda>j. snd (intraday_approve (demo_metrics_env 2000 False) (\<lambda>_. 0) ''t'' j demo_suggested))"
  have f: "intraday_approve (demo_metrics_env 2000 False) (\<lambda>_. 0) ''t'' j demo_suggested = (True, f j)" for j
    using demo_ai_facts(2)[of j] unfolding f_def by (intro prod_eqI) simp_all
  note eval = createFromInteraction_def execute_rec_def x p e f demo_auto_clean the_default_def Let_def
  show "map ex_recommendationId (st_executed (rec_do demo_ai_env (RecCreate ''t'' ''i'' ''r'' 5) demo_ai)) = [''r'']"
    by (simp add: eval)
  show "map rc_id (st_recommendations (rec_do demo_ai_env (RecCreate ''t'' ''i'' ''r'' 5) demo_ai)) = [''r'']"
    by (simp add: eval update_where_def)
qed

lemma demo_ai_reach:
  "rec_reach (\<lambda>env. own_approve env = intraday_approve (demo_metrics_env 2000 False) (\<lambda>_. 0)) intraday_inv (intraday_step demo_floats)
     (rec_do demo_ai_env (RecCreate ''t'' ''i'' ''r'' 5) demo_ai)"
  by (intro rec_reach.step rec_reach.start) (simp_all add: demo_ai_def demo_ai_env_def demo_ai_facts)


theorem recommended_action_runs_once_witness:
  "\<exists>e. st_executed (rec_do demo_ai_env (RecCreate ''t'' ''i'' ''r'' 5) demo_ai) = [e] \<and>
     (\<exists>a\<in>set (iv_actions (st_owner (rec_do demo_ai_env (RecCreate ''t'' ''i'' ''r'' 5) demo_ai))).
        ra_tenantId a = ex_tenantId e \<and> ra_status a \<in> {Executed, Auto_executed})"
proof -
  obtain e where e: "st_executed (rec_do demo_ai_env (RecCreate ''t'' ''i'' ''r'' 5) demo_ai) = [e]"
    using demo_auto_run(1) by (auto simp del: rec_do.simps)
  from recommended_action_runs_once[OF demo_ai_reach] e show ?thesis by (auto simp del: rec_do.simps)
qed

theorem auto_execution_needs_everything_witness:
  "\<exists>x\<in>set (st_interactions demo_ai). \<exists>p\<in>set (st_policies demo_ai). \<not> ai_degradedMode x \<and> gp_autonomyLevel p = AUTO_EXECUTE_LOW_RISK"
proof -
  have "st_executed (snd (createFromInteraction demo_ai_env ''t'' ''i'' ''r'' 5 demo_ai)) \<noteq> st_executed demo_ai"
    using demo_auto_run(1) by (auto simp: demo_ai_def)
  from auto_execution_needs_everything[OF this] show ?thesis by blast
qed

end
