(* ===== verification/Access_Control.thy ===== *)
theory Access_Control
  imports WFM_Prelude
begin

text \<open>
  Who may touch which row in the core service: the attribute-based checks (\<open>abac.service.ts\<close>), the
  employee resolver that filters by them (\<open>employee.resolver.ts\<close>) and the tenant-scoped repository every
  table is reached through (\<open>tenant-scoped.repository.ts\<close>).

  A grant is a row of \<open>user_roles\<close> joined with the permissions of its role; SQL's \<open>=\<close> is false on
  NULL, so a scope matches only when both sides are present. The repository is a group of functions
  over any row type with a tenant column; the locale \<open>tenant_scoped\<close> states what it needs of that column
  and proves isolation once.
\<close>

section \<open>AbacService\<close>

record user_role =
  ur_tenantId :: uuid
  ur_userId :: uuid
  ur_roleId :: uuid
  ur_scopeOrgUnitId :: "uuid option"
  ur_scopeGroupId :: "uuid option"

record role_permission =
  rpm_tenantId :: "uuid option" \<comment> \<open>null for the global roles\<close>
  rpm_roleId :: uuid
  rpm_permissionId :: uuid

record permission =
  pm_id :: uuid
  pm_resource :: string
  pm_action :: string

record group_member =
  egm_tenantId :: uuid
  egm_groupId :: uuid
  egm_employeeId :: uuid

record access_db =
  db_userRoles :: "user_role list"
  db_rolePermissions :: "role_permission list"
  db_permissions :: "permission list"
  db_groupMembers :: "group_member list"

record target_employee =
  emp_id :: uuid
  emp_orgUnitId :: uuid

datatype abac_error = AbacScopeDeniedError string string "uuid option"

definition grant_rows :: "access_db \<Rightarrow> uuid \<Rightarrow> uuid \<Rightarrow> string \<Rightarrow> string \<Rightarrow> user_role list" where
  \<comment> \<open>the join of the four queries, under the row-level security of \<open>role_permissions\<close>\<close>
  "grant_rows db tenantId userId resource action =
     concat (map (\<lambda>ur. concat (map (\<lambda>rp. map (\<lambda>p. ur)
         (filter (\<lambda>p. pm_id p = rpm_permissionId rp \<and> pm_resource p = resource \<and> pm_action p = action) (db_permissions db)))
       (filter (\<lambda>rp. rpm_roleId rp = ur_roleId ur \<and> (rpm_tenantId rp = None \<or> rpm_tenantId rp = Some tenantId)) (db_rolePermissions db))))
     (filter (\<lambda>ur. ur_tenantId ur = tenantId \<and> ur_userId ur = userId) (db_userRoles db)))"

definition sql_eq :: "'a option \<Rightarrow> 'a option \<Rightarrow> bool" where
  \<comment> \<open>\<open>a = b\<close> in a WHERE clause: unknown counts as false\<close>
  "sql_eq a b \<longleftrightarrow> a \<noteq> None \<and> a = b"

definition tenant_wide_grant :: "user_role \<Rightarrow> bool" where
  "tenant_wide_grant ur \<longleftrightarrow> ur_scopeOrgUnitId ur = None \<and> ur_scopeGroupId ur = None"

definition isPermittedForOrgUnit :: "access_db \<Rightarrow> uuid \<Rightarrow> uuid \<Rightarrow> string \<Rightarrow> string \<Rightarrow> uuid option \<Rightarrow> bool" where
  "isPermittedForOrgUnit db tenantId userId resource action targetOrgUnitId =
     (filter (\<lambda>ur. tenant_wide_grant ur \<or> sql_eq (ur_scopeOrgUnitId ur) targetOrgUnitId)
        (grant_rows db tenantId userId resource action) \<noteq> [])"

definition assertPermittedForOrgUnit :: "access_db \<Rightarrow> uuid \<Rightarrow> uuid \<Rightarrow> string \<Rightarrow> string \<Rightarrow> uuid option \<Rightarrow> abac_error + unit" where
  "assertPermittedForOrgUnit db tenantId userId resource action targetOrgUnitId =
     (if isPermittedForOrgUnit db tenantId userId resource action targetOrgUnitId then Inr ()
      else Inl (AbacScopeDeniedError resource action targetOrgUnitId))"

definition isPermittedForGroup :: "access_db \<Rightarrow> uuid \<Rightarrow> uuid \<Rightarrow> string \<Rightarrow> string \<Rightarrow> uuid option \<Rightarrow> bool" where
  "isPermittedForGroup db tenantId userId resource action targetGroupId =
     (filter (\<lambda>ur. tenant_wide_grant ur \<or> sql_eq (ur_scopeGroupId ur) targetGroupId)
        (grant_rows db tenantId userId resource action) \<noteq> [])"

definition assertPermittedForGroup :: "access_db \<Rightarrow> uuid \<Rightarrow> uuid \<Rightarrow> string \<Rightarrow> string \<Rightarrow> uuid option \<Rightarrow> abac_error + unit" where
  "assertPermittedForGroup db tenantId userId resource action targetGroupId =
     (if isPermittedForGroup db tenantId userId resource action targetGroupId then Inr ()
      else Inl (AbacScopeDeniedError resource action targetGroupId))"

definition in_scoped_group :: "access_db \<Rightarrow> user_role \<Rightarrow> uuid \<Rightarrow> bool" where
  "in_scoped_group db ur employeeId \<longleftrightarrow> ur_scopeGroupId ur \<noteq> None
     \<and> list_ex (\<lambda>m. egm_tenantId m = ur_tenantId ur \<and> Some (egm_groupId m) = ur_scopeGroupId ur \<and> egm_employeeId m = employeeId)
         (db_groupMembers db)"

definition isPermittedForEmployee :: "access_db \<Rightarrow> uuid \<Rightarrow> uuid \<Rightarrow> string \<Rightarrow> string \<Rightarrow> target_employee \<Rightarrow> bool" where
  "isPermittedForEmployee db tenantId userId resource action e =
     (filter (\<lambda>ur. tenant_wide_grant ur \<or> sql_eq (ur_scopeOrgUnitId ur) (Some (emp_orgUnitId e)) \<or> in_scoped_group db ur (emp_id e))
        (grant_rows db tenantId userId resource action) \<noteq> [])"

definition assertPermittedForEmployee :: "access_db \<Rightarrow> uuid \<Rightarrow> uuid \<Rightarrow> string \<Rightarrow> string \<Rightarrow> target_employee \<Rightarrow> abac_error + unit" where
  "assertPermittedForEmployee db tenantId userId resource action e =
     (if isPermittedForEmployee db tenantId userId resource action e then Inr ()
      else Inl (AbacScopeDeniedError resource action (Some (emp_id e))))"

record scope_filter =
  sf_tenantWide :: bool
  sf_orgUnitIds :: "uuid list"
  sf_employeeIdsInScopedGroups :: "uuid list"

definition getEmployeeScopeFilter :: "access_db \<Rightarrow> uuid \<Rightarrow> uuid \<Rightarrow> string \<Rightarrow> string \<Rightarrow> scope_filter" where
  "getEmployeeScopeFilter db tenantId userId resource action =
     (let scopeRows = grant_rows db tenantId userId resource action;
          tenantWide = list_ex tenant_wide_grant scopeRows;
          orgUnitIds = js_set (List.map_filter ur_scopeOrgUnitId scopeRows);
          groupIds = js_set (List.map_filter ur_scopeGroupId scopeRows)
      in if tenantWide \<or> length groupIds = 0
         then \<lparr>sf_tenantWide = tenantWide, sf_orgUnitIds = orgUnitIds, sf_employeeIdsInScopedGroups = []\<rparr>
         else \<lparr>sf_tenantWide = tenantWide, sf_orgUnitIds = orgUnitIds, sf_employeeIdsInScopedGroups =
           js_set (map egm_employeeId (filter (\<lambda>m. egm_tenantId m = tenantId \<and> egm_groupId m \<in> set groupIds) (db_groupMembers db)))\<rparr>)"

section \<open>EmployeeResolver\<close>

definition scope_admits :: "scope_filter \<Rightarrow> target_employee \<Rightarrow> bool" where
  "scope_admits scope e \<longleftrightarrow> emp_orgUnitId e \<in> set (sf_orgUnitIds scope) \<or> emp_id e \<in> set (sf_employeeIdsInScopedGroups scope)"

definition employees_query :: "access_db \<Rightarrow> uuid \<Rightarrow> uuid \<Rightarrow> target_employee list \<Rightarrow> target_employee list" where
  \<comment> \<open>\<open>results\<close> is the page \<open>findMany\<close> returned\<close>
  "employees_query db tenantId userId results =
     (let scope = getEmployeeScopeFilter db tenantId userId ''employee'' ''read''
      in if sf_tenantWide scope then results else filter (scope_admits scope) results)"

definition employeesCount :: "access_db \<Rightarrow> uuid \<Rightarrow> uuid \<Rightarrow> target_employee list \<Rightarrow> nat" where
  \<comment> \<open>\<open>matching\<close> are the rows the filter selects: counted for a tenant-wide caller, fetched up to 100000 otherwise\<close>
  "employeesCount db tenantId userId matching =
     (let scope = getEmployeeScopeFilter db tenantId userId ''employee'' ''read''
      in if sf_tenantWide scope then length matching else length (filter (scope_admits scope) (take 100000 matching)))"

definition employee_query :: "access_db \<Rightarrow> uuid \<Rightarrow> uuid \<Rightarrow> target_employee \<Rightarrow> abac_error + target_employee" where
  "employee_query db tenantId userId e = (case assertPermittedForEmployee db tenantId userId ''employee'' ''read'' e of
      Inl err \<Rightarrow> Inl err | Inr _ \<Rightarrow> Inr e)"

section \<open>TenantScopedRepository\<close>

datatype repository_error = TenantMismatchError uuid uuid | UniqueViolation

definition ts_find :: "('a \<Rightarrow> uuid) \<Rightarrow> uuid \<Rightarrow> ('a \<Rightarrow> bool) \<Rightarrow> 'a list \<Rightarrow> 'a list" where
  "ts_find tenantOf tenantId cond rows = filter (\<lambda>r. cond r \<and> tenantOf r = tenantId) rows"

definition ts_findOne :: "('a \<Rightarrow> uuid) \<Rightarrow> uuid \<Rightarrow> ('a \<Rightarrow> bool) \<Rightarrow> 'a list \<Rightarrow> 'a option" where
  "ts_findOne tenantOf tenantId cond rows = find_where (\<lambda>r. cond r \<and> tenantOf r = tenantId) rows"

definition ts_count :: "('a \<Rightarrow> uuid) \<Rightarrow> uuid \<Rightarrow> ('a \<Rightarrow> bool) \<Rightarrow> 'a list \<Rightarrow> nat" where
  "ts_count tenantOf tenantId cond rows = length (ts_find tenantOf tenantId cond rows)"

definition ts_save ::
  "('a \<Rightarrow> uuid) \<Rightarrow> (uuid \<Rightarrow> 'a \<Rightarrow> 'a) \<Rightarrow> ('a \<Rightarrow> uuid) \<Rightarrow> uuid \<Rightarrow> 'a \<Rightarrow> ('a list, repository_error, 'a) svc" where
  \<comment> \<open>the ORM updates a row it can see under its primary key and inserts otherwise; the key is unique across tenants\<close>
  "ts_save tenantOf setTenant idOf tenantId entity rows =
     (if tenantOf entity \<noteq> [] \<and> tenantOf entity \<noteq> tenantId then (Inl (TenantMismatchError tenantId (tenantOf entity)), rows)
      else let e = setTenant tenantId entity in
        if ts_findOne tenantOf tenantId (\<lambda>r. idOf r = idOf e) rows \<noteq> None
        then (Inr e, update_where (\<lambda>r. idOf r = idOf e \<and> tenantOf r = tenantId) (\<lambda>_. e) rows)
        else if idOf e \<in> idOf ` set rows then (Inl UniqueViolation, rows)
        else (Inr e, rows @ [e]))"

definition ts_update ::
  "('a \<Rightarrow> uuid) \<Rightarrow> uuid \<Rightarrow> uuid option \<Rightarrow> ('a \<Rightarrow> bool) \<Rightarrow> ('a \<Rightarrow> 'a) \<Rightarrow> ('a list, repository_error, unit) svc" where
  \<comment> \<open>\<open>newTenant\<close> is \<open>partial.tenantId\<close>; \<open>f\<close> writes the other columns\<close>
  "ts_update tenantOf tenantId newTenant cond f rows =
     (if truthy_str newTenant \<and> newTenant \<noteq> Some tenantId then (Inl (TenantMismatchError tenantId (the newTenant)), rows)
      else (Inr (), update_where (\<lambda>r. cond r \<and> tenantOf r = tenantId) f rows))"

definition ts_delete :: "('a \<Rightarrow> uuid) \<Rightarrow> uuid \<Rightarrow> ('a \<Rightarrow> bool) \<Rightarrow> 'a list \<Rightarrow> 'a list" where
  "ts_delete tenantOf tenantId cond rows = delete_where (\<lambda>r. cond r \<and> tenantOf r = tenantId) rows"

definition foreign_rows :: "('a \<Rightarrow> uuid) \<Rightarrow> uuid \<Rightarrow> 'a list \<Rightarrow> 'a list" where
  "foreign_rows tenantOf tenantId rows = filter (\<lambda>r. tenantOf r \<noteq> tenantId) rows"

locale tenant_scoped =
  fixes tenantOf :: "'a \<Rightarrow> uuid" and setTenant :: "uuid \<Rightarrow> 'a \<Rightarrow> 'a" and idOf :: "'a \<Rightarrow> uuid"
  assumes tenant_set: "tenantOf (setTenant t e) = t" and id_set: "idOf (setTenant t e) = idOf e"
begin

lemma foreign_update:
  "(\<And>r. P r \<Longrightarrow> tenantOf r = t) \<Longrightarrow> (\<And>r. P r \<Longrightarrow> tenantOf (f r) = tenantOf r) \<Longrightarrow>
   foreign_rows tenantOf t (update_where P f rows) = foreign_rows tenantOf t rows"
  by (induction rows) (auto simp: foreign_rows_def)

lemma save_isolated: "foreign_rows tenantOf t (snd (ts_save tenantOf setTenant idOf t e rows)) = foreign_rows tenantOf t rows"
proof -
  have "foreign_rows tenantOf t (update_where (\<lambda>r. idOf r = idOf e \<and> tenantOf r = t) (\<lambda>_. setTenant t e) rows) = foreign_rows tenantOf t rows"
    by (rule foreign_update) (auto simp: tenant_set)
  then show ?thesis by (auto simp: ts_save_def Let_def id_set foreign_rows_def tenant_set)
qed

lemma update_isolated:
  "(\<And>r. tenantOf (f r) = tenantOf r) \<Longrightarrow> foreign_rows tenantOf t (snd (ts_update tenantOf t nt P f rows)) = foreign_rows tenantOf t rows"
  using foreign_update[of "\<lambda>r. P r \<and> tenantOf r = t" t f rows] by (simp add: ts_update_def)

lemma delete_isolated: "foreign_rows tenantOf t (ts_delete tenantOf t P rows) = foreign_rows tenantOf t rows"
  by (induction rows) (auto simp: ts_delete_def delete_where_def foreign_rows_def)

lemma save_stores:
  assumes "ts_save tenantOf setTenant idOf t e rows = (Inr e', rows')"
  shows "tenantOf e' = t \<and> e' \<in> set rows'"
proof -
  have e': "e' = setTenant t e" using assms by (auto simp: ts_save_def Let_def split: if_splits)
  show ?thesis
  proof (cases "ts_findOne tenantOf t (\<lambda>r. idOf r = idOf e) rows")
    case None
    then show ?thesis using assms e' by (auto simp: ts_save_def Let_def id_set tenant_set split: if_splits)
  next
    case (Some r)
    then have "r \<in> set rows" "idOf r = idOf e" "tenantOf r = t" by (auto simp: ts_findOne_def dest: find_where_SomeD)
    then show ?thesis using assms e' Some
      by (force simp: ts_save_def Let_def id_set tenant_set update_where_def split: if_splits)
  qed
qed

end

section \<open>Lists and single records agree\<close>

lemma grant_rows_tenant: "ur \<in> set (grant_rows db t u res act) \<Longrightarrow> ur_tenantId ur = t \<and> ur_userId ur = u"
  by (auto simp: grant_rows_def)

lemma set_map_filter: "set (List.map_filter f xs) = {y. \<exists>x\<in>set xs. f x = Some y}"
  by (induction xs) (auto simp: List.map_filter_simps split: option.splits)

lemma scope_filter_group:
  assumes "\<not> sf_tenantWide (getEmployeeScopeFilter db t u res act)"
  shows "emp_id e \<in> set (sf_employeeIdsInScopedGroups (getEmployeeScopeFilter db t u res act)) \<longleftrightarrow>
    (\<exists>ur\<in>set (grant_rows db t u res act). in_scoped_group db ur (emp_id e))"
proof -
  let ?rows = "grant_rows db t u res act"
  have "in_scoped_group db ur (emp_id e) \<longleftrightarrow>
      (\<exists>m\<in>set (db_groupMembers db). egm_tenantId m = t \<and> ur_scopeGroupId ur = Some (egm_groupId m) \<and> egm_employeeId m = emp_id e)"
    if "ur \<in> set ?rows" for ur
    using grant_rows_tenant[OF that] by (force simp: in_scoped_group_def list_ex_iff)
  moreover have "emp_id e \<in> set (sf_employeeIdsInScopedGroups (getEmployeeScopeFilter db t u res act)) \<longleftrightarrow>
      (\<exists>m\<in>set (db_groupMembers db). egm_tenantId m = t \<and> (\<exists>ur\<in>set ?rows. ur_scopeGroupId ur = Some (egm_groupId m)) \<and> egm_employeeId m = emp_id e)"
  proof (cases "List.map_filter ur_scopeGroupId ?rows = []")
    case True
    then have "ur_scopeGroupId ur \<noteq> Some y" if "ur \<in> set ?rows" for ur y using set_map_filter[of ur_scopeGroupId ?rows] that by auto
    then show ?thesis using assms True by (auto simp: getEmployeeScopeFilter_def Let_def js_set_def)
  next
    case False
    then have "js_set (List.map_filter ur_scopeGroupId ?rows) \<noteq> []" by (metis set_empty set_js_set)
    then show ?thesis using assms by (force simp: getEmployeeScopeFilter_def Let_def set_map_filter image_iff)
  qed
  ultimately show ?thesis by blast
qed

lemma employeesCount_agrees: "length results \<le> 100000 \<Longrightarrow> employeesCount db t u results = length (employees_query db t u results)"
  by (simp add: employeesCount_def employees_query_def Let_def)

text \<open>
  Property C35. A list shows exactly what the single reads allow: the employees a caller sees in any page
  are those of the page that \<open>employee(id)\<close> would give them, whatever mixture of tenant-wide, org-unit and
  group grants they hold.
\<close>

theorem employee_list_agrees_with_record_check:
  "employees_query db t u results = filter (isPermittedForEmployee db t u ''employee'' ''read'') results
   \<and> employees_query db t u results = filter (\<lambda>e. employee_query db t u e = Inr e) results"
proof -
  let ?scope = "getEmployeeScopeFilter db t u ''employee'' ''read''" and ?rows = "grant_rows db t u ''employee'' ''read''"
  have wide: "sf_tenantWide ?scope \<longleftrightarrow> (\<exists>ur\<in>set ?rows. tenant_wide_grant ur)"
    by (simp add: getEmployeeScopeFilter_def Let_def list_ex_iff)
  have units: "set (sf_orgUnitIds ?scope) = {x. \<exists>ur\<in>set ?rows. ur_scopeOrgUnitId ur = Some x}"
    by (simp add: getEmployeeScopeFilter_def Let_def set_map_filter)
  have perm: "isPermittedForEmployee db t u ''employee'' ''read'' e \<longleftrightarrow> sf_tenantWide ?scope \<or> scope_admits ?scope e" for e
  proof (cases "sf_tenantWide ?scope")
    case True
    then show ?thesis using wide by (auto simp: isPermittedForEmployee_def filter_empty_conv)
  next
    case False
    then show ?thesis using wide units scope_filter_group[OF False, of e]
      by (auto simp: isPermittedForEmployee_def filter_empty_conv scope_admits_def sql_eq_def)
  qed
  have "employees_query db t u results = filter (isPermittedForEmployee db t u ''employee'' ''read'') results"
    by (auto simp: employees_query_def Let_def perm cong: filter_cong)
  moreover have "isPermittedForEmployee db t u ''employee'' ''read'' e \<longleftrightarrow> employee_query db t u e = Inr e" for e
    by (simp add: employee_query_def assertPermittedForEmployee_def)
  ultimately show ?thesis by presburger
qed

end
