(* ===== verification/Access_Policies.thy ===== *)
theory Access_Policies
  imports Access_Control Compliance_Rules
begin

text \<open>
  Versioned tenant policies of the core service: the repository (\<open>policies.repository.ts\<close>), the endpoint
  behind the scope check (\<open>policy-management.service.ts\<close>), the employment policies with their gate to the
  legal floor (\<open>employment-policies.service.ts\<close>) and the lookups other services call
  (\<open>policy-grpc.controller.ts\<close>, \<open>system-limits-policy.service.ts\<close>).

  A lineage is the versions with one \<open>policy_group_id\<close>; the constraints of \<open>core.policies\<close> are checked after
  every statement and abort its transaction. The free-form \<open>definition\<close> is read as in the compliance
  service. What the ORM makes of \<open>null\<close> in a \<open>where\<close> object (a condition, or nothing) is the parameter
  \<open>nullMatches\<close>; only \<open>findOpenVersion\<close> depends on it.
\<close>

section \<open>Tables\<close>

datatype PolicyType = OVERTIME_RULE | BREAK_RULE | APPROVAL_CHAIN | DATA_RETENTION | RATE_LIMIT
  | POLICY_OVERTIME_THRESHOLD | POLICY_REST_PERIOD_MINIMUM | POLICY_MAX_CONSECUTIVE_DAYS | POLICY_UNION_RULE
  | SKILL_DECAY_HALF_LIFE | AUTH_METHOD_POLICY | GEOFENCE_BOUNDARY | ACCESS_RESTRICTION_POLICY | SYSTEM_LIMITS
  | MAINTENANCE_MODE

datatype EmploymentPolicyType = EP_OVERTIME_THRESHOLD | EP_REST_PERIOD_MINIMUM | EP_MAX_CONSECUTIVE_DAYS | EP_UNION_RULE

record Policy =
  pl_id :: uuid
  pl_tenantId :: uuid
  pl_policyGroupId :: uuid
  pl_policyType :: PolicyType
  pl_orgUnitId :: "uuid option"
  pl_definition :: rule_definition
  pl_effectiveFrom :: millis
  pl_effectiveTo :: "millis option"
  pl_version :: nat

record policy_changed =
  pc_policyId :: uuid
  pc_policyGroupId :: uuid
  pc_tenantId :: uuid
  pc_policyType :: PolicyType
  pc_orgUnitId :: "uuid option"
  pc_version :: nat
  pc_effectiveFrom :: millis

record policy_db =
  pd_rows :: "Policy list"
  pd_outbox :: "policy_changed list"

datatype policy_error =
    PolicyNotFoundError uuid
  | EmploymentPolicyNotFoundError uuid
  | PolicyScopeDenied "uuid option"
  | PolicyConstraintViolated
  | EmploymentPolicyViolatesComplianceFloorError string
  | ComplianceGrpcClientUnavailableError
  | OrgUnitNotFound uuid
  | PolicyDbUnavailable
  | SystemLimitExceededError string real

definition policies_constraints :: "Policy list \<Rightarrow> bool" where
  \<comment> \<open>primary key, \<open>uq_policies_tenant_group_version\<close>, \<open>uq_policies_one_open_version\<close>, \<open>policies_effective_range\<close>
      and \<open>policies_version_positive\<close>\<close>
  "policies_constraints rows \<longleftrightarrow>
     distinct (map pl_id rows)
     \<and> distinct (map (\<lambda>p. (pl_tenantId p, pl_policyGroupId p, pl_version p)) rows)
     \<and> distinct (map (\<lambda>p. (pl_tenantId p, pl_policyGroupId p)) (filter (\<lambda>p. pl_effectiveTo p = None) rows))
     \<and> list_all (\<lambda>p. (case pl_effectiveTo p of None \<Rightarrow> True | Some e \<Rightarrow> pl_effectiveFrom p < e) \<and> 0 < pl_version p) rows"

section \<open>PoliciesRepository\<close>

record NewPolicyLineageInput =
  li_policyType :: PolicyType
  li_orgUnitId :: "uuid option"
  li_definition :: rule_definition
  li_effectiveFrom :: millis

definition policy_changed_of :: "uuid \<Rightarrow> Policy \<Rightarrow> policy_changed" where
  "policy_changed_of tenantId p = \<lparr>pc_policyId = pl_id p, pc_policyGroupId = pl_policyGroupId p, pc_tenantId = tenantId,
     pc_policyType = pl_policyType p, pc_orgUnitId = pl_orgUnitId p, pc_version = pl_version p, pc_effectiveFrom = pl_effectiveFrom p\<rparr>"

definition publishPolicyChanged :: "uuid \<Rightarrow> Policy \<Rightarrow> policy_db \<Rightarrow> policy_db" where
  "publishPolicyChanged tenantId p s = s\<lparr>pd_outbox := pd_outbox s @ [policy_changed_of tenantId p]\<rparr>"

definition history :: "uuid \<Rightarrow> uuid \<Rightarrow> policy_db \<Rightarrow> Policy list" where
  "history tenantId policyGroupId s = js_sort (\<lambda>a b. pl_version a \<le> pl_version b)
     (ts_find pl_tenantId tenantId (\<lambda>p. pl_policyGroupId p = policyGroupId) (pd_rows s))"

definition policy_in_force :: "millis \<Rightarrow> Policy \<Rightarrow> bool" where
  "policy_in_force asOf p \<longleftrightarrow> pl_effectiveFrom p \<le> asOf \<and> (case pl_effectiveTo p of None \<Rightarrow> True | Some e \<Rightarrow> asOf < e)"

definition findActiveAsOf :: "uuid \<Rightarrow> uuid \<Rightarrow> millis \<Rightarrow> policy_db \<Rightarrow> Policy option" where
  "findActiveAsOf tenantId policyGroupId asOf s =
     find_where (\<lambda>p. pl_tenantId p = tenantId \<and> pl_policyGroupId p = policyGroupId \<and> policy_in_force asOf p) (pd_rows s)"

definition findActiveByType :: "uuid \<Rightarrow> PolicyType \<Rightarrow> millis \<Rightarrow> policy_db \<Rightarrow> Policy option" where
  "findActiveByType tenantId policyType asOf s =
     find_where (\<lambda>p. pl_tenantId p = tenantId \<and> pl_policyType p = policyType \<and> pl_orgUnitId p = None \<and> policy_in_force asOf p) (pd_rows s)"

definition findActiveByTypeAndScope :: "uuid \<Rightarrow> PolicyType \<Rightarrow> uuid option \<Rightarrow> millis \<Rightarrow> policy_db \<Rightarrow> Policy option" where
  "findActiveByTypeAndScope tenantId policyType orgUnitId asOf s =
     find_where (\<lambda>p. pl_tenantId p = tenantId \<and> pl_policyType p = policyType \<and> policy_in_force asOf p
       \<and> pl_orgUnitId p = (if truthy_str orgUnitId then orgUnitId else None)) (pd_rows s)"

definition findOpenVersion :: "bool \<Rightarrow> uuid \<Rightarrow> uuid \<Rightarrow> policy_db \<Rightarrow> Policy option" where
  "findOpenVersion nullMatches tenantId policyGroupId s =
     ts_findOne pl_tenantId tenantId (\<lambda>p. pl_policyGroupId p = policyGroupId \<and> (nullMatches \<longrightarrow> pl_effectiveTo p = None)) (pd_rows s)"

definition write_policies :: "Policy list \<Rightarrow> (policy_db, policy_error, unit) txn" where
  \<comment> \<open>one statement on the table: it fails when the constraints do not hold after it\<close>
  "write_policies rows s = (if policies_constraints rows then Inr ((), s\<lparr>pd_rows := rows\<rparr>) else Inl PolicyConstraintViolated)"

definition createLineage :: "uuid \<Rightarrow> NewPolicyLineageInput \<Rightarrow> uuid \<Rightarrow> (policy_db, policy_error, Policy) txn" where
  "createLineage tenantId input newId s =
     (let p = \<lparr>pl_id = newId, pl_tenantId = tenantId, pl_policyGroupId = newId, pl_policyType = li_policyType input,
        pl_orgUnitId = li_orgUnitId input, pl_definition = li_definition input, pl_effectiveFrom = li_effectiveFrom input,
        pl_effectiveTo = None, pl_version = 1\<rparr>
      in (case write_policies (pd_rows s @ [p]) s of
            Inl e \<Rightarrow> Inl e | Inr (_, s') \<Rightarrow> Inr (p, publishPolicyChanged tenantId p s')))"

definition open_version :: "uuid \<Rightarrow> uuid \<Rightarrow> policy_db \<Rightarrow> Policy option" where
  "open_version tenantId policyGroupId s =
     find_where (\<lambda>p. pl_tenantId p = tenantId \<and> pl_policyGroupId p = policyGroupId \<and> pl_effectiveTo p = None) (pd_rows s)"

definition close_version :: "uuid \<Rightarrow> uuid \<Rightarrow> millis \<Rightarrow> Policy list \<Rightarrow> Policy list" where
  "close_version tenantId policyId effectiveTo =
     update_where (\<lambda>p. pl_id p = policyId \<and> pl_tenantId p = tenantId) (\<lambda>p. p\<lparr>pl_effectiveTo := Some effectiveTo\<rparr>)"

definition supersede :: "uuid \<Rightarrow> uuid \<Rightarrow> NewPolicyLineageInput \<Rightarrow> uuid \<Rightarrow> (policy_db, policy_error, Policy) txn" where
  "supersede tenantId policyGroupId input newId s =
     (case open_version tenantId policyGroupId s of
        None \<Rightarrow> Inl (PolicyNotFoundError policyGroupId)
      | Some current \<Rightarrow>
          (case write_policies (close_version tenantId (pl_id current) (li_effectiveFrom input) (pd_rows s)) s of
             Inl e \<Rightarrow> Inl e
           | Inr (_, s1) \<Rightarrow>
               let p = \<lparr>pl_id = newId, pl_tenantId = tenantId, pl_policyGroupId = policyGroupId, pl_policyType = li_policyType input,
                 pl_orgUnitId = li_orgUnitId input, pl_definition = li_definition input, pl_effectiveFrom = li_effectiveFrom input,
                 pl_effectiveTo = None, pl_version = pl_version current + 1\<rparr>
               in (case write_policies (pd_rows s1 @ [p]) s1 of
                     Inl e \<Rightarrow> Inl e | Inr (_, s2) \<Rightarrow> Inr (p, publishPolicyChanged tenantId p s2))))"

definition deactivate_policy :: "uuid \<Rightarrow> uuid \<Rightarrow> millis \<Rightarrow> (policy_db, policy_error, Policy) txn" where
  "deactivate_policy tenantId policyGroupId now s =
     (case open_version tenantId policyGroupId s of
        None \<Rightarrow> Inl (PolicyNotFoundError policyGroupId)
      | Some current \<Rightarrow>
          (case write_policies (close_version tenantId (pl_id current) now (pd_rows s)) s of
             Inl e \<Rightarrow> Inl e
           | Inr (_, s1) \<Rightarrow> let updated = current\<lparr>pl_effectiveTo := Some now\<rparr>
               in Inr (updated, publishPolicyChanged tenantId updated s1)))"

section \<open>PolicyManagementService\<close>

record CreatePolicyDto =
  cp_policyGroupId :: "uuid option"
  cp_policyType :: PolicyType
  cp_orgUnitId :: "uuid option"
  cp_definition :: rule_definition
  cp_effectiveFrom :: "millis option"

definition createOrVersion ::
  "access_db \<Rightarrow> uuid \<Rightarrow> uuid \<Rightarrow> CreatePolicyDto \<Rightarrow> uuid \<Rightarrow> millis \<Rightarrow> (policy_db, policy_error, Policy) svc" where
  "createOrVersion db tenantId actorUserId input newId now s =
     (case assertPermittedForOrgUnit db tenantId actorUserId ''policy'' ''write'' (cp_orgUnitId input) of
        Inl _ \<Rightarrow> (Inl (PolicyScopeDenied (cp_orgUnitId input)), s)
      | Inr _ \<Rightarrow>
          let lineageInput = \<lparr>li_policyType = cp_policyType input, li_orgUnitId = cp_orgUnitId input,
                li_definition = cp_definition input, li_effectiveFrom = the_default (cp_effectiveFrom input) now\<rparr>
          in if truthy_str (cp_policyGroupId input)
             then run_txn (supersede tenantId (the (cp_policyGroupId input)) lineageInput newId) s
             else run_txn (createLineage tenantId lineageInput newId) s)"

definition deactivate ::
  "bool \<Rightarrow> access_db \<Rightarrow> uuid \<Rightarrow> uuid \<Rightarrow> uuid \<Rightarrow> millis \<Rightarrow> (policy_db, policy_error, Policy) svc" where
  "deactivate nullMatches db tenantId actorUserId policyGroupId now s =
     (case findOpenVersion nullMatches tenantId policyGroupId s of
        None \<Rightarrow> (Inl (PolicyNotFoundError policyGroupId), s)
      | Some current \<Rightarrow>
          (case assertPermittedForOrgUnit db tenantId actorUserId ''policy'' ''write'' (pl_orgUnitId current) of
             Inl _ \<Rightarrow> (Inl (PolicyScopeDenied (pl_orgUnitId current)), s)
           | Inr _ \<Rightarrow> run_txn (deactivate_policy tenantId policyGroupId now) s))"

definition history_or_fail :: "uuid \<Rightarrow> uuid \<Rightarrow> policy_db \<Rightarrow> policy_error + Policy list" where
  "history_or_fail tenantId policyGroupId s = (let versions = history tenantId policyGroupId s in
     if length versions = 0 then Inl (PolicyNotFoundError policyGroupId) else Inr versions)"

definition getOrFail :: "uuid \<Rightarrow> uuid \<Rightarrow> policy_db \<Rightarrow> policy_error + Policy" where
  "getOrFail tenantId policyId s = (case ts_findOne pl_tenantId tenantId (\<lambda>p. pl_id p = policyId) (pd_rows s) of
      None \<Rightarrow> Inl (PolicyNotFoundError policyId) | Some p \<Rightarrow> Inr p)"

definition listActive :: "uuid \<Rightarrow> PolicyType option \<Rightarrow> policy_db \<Rightarrow> Policy list" where
  "listActive tenantId policyType s = ts_find pl_tenantId tenantId
     (\<lambda>p. pl_effectiveTo p = None \<and> (case policyType of None \<Rightarrow> True | Some ty \<Rightarrow> pl_policyType p = ty)) (pd_rows s)"

section \<open>EmploymentPoliciesService\<close>

fun as_PolicyType :: "EmploymentPolicyType \<Rightarrow> PolicyType" where
  "as_PolicyType EP_OVERTIME_THRESHOLD = POLICY_OVERTIME_THRESHOLD"
| "as_PolicyType EP_REST_PERIOD_MINIMUM = POLICY_REST_PERIOD_MINIMUM"
| "as_PolicyType EP_MAX_CONSECUTIVE_DAYS = POLICY_MAX_CONSECUTIVE_DAYS"
| "as_PolicyType EP_UNION_RULE = POLICY_UNION_RULE"

fun as_ruleType :: "EmploymentPolicyType \<Rightarrow> ComplianceRuleType" where
  \<comment> \<open>the same strings on the other side of the call\<close>
  "as_ruleType EP_OVERTIME_THRESHOLD = OVERTIME_THRESHOLD"
| "as_ruleType EP_REST_PERIOD_MINIMUM = REST_PERIOD_MINIMUM"
| "as_ruleType EP_MAX_CONSECUTIVE_DAYS = MAX_CONSECUTIVE_DAYS"
| "as_ruleType EP_UNION_RULE = UNION_RULE"

definition EMPLOYMENT_POLICY_TYPES :: "PolicyType list" where
  "EMPLOYMENT_POLICY_TYPES = [POLICY_OVERTIME_THRESHOLD, POLICY_REST_PERIOD_MINIMUM, POLICY_MAX_CONSECUTIVE_DAYS, POLICY_UNION_RULE]"

definition employment_findForOrgUnit :: "uuid \<Rightarrow> uuid option \<Rightarrow> policy_db \<Rightarrow> Policy list" where
  "employment_findForOrgUnit tenantId orgUnitId s =
     filter (\<lambda>p. pl_effectiveTo p = None)
       (filter (\<lambda>p. pl_tenantId p = tenantId \<and> pl_policyType p \<in> set EMPLOYMENT_POLICY_TYPES
          \<and> pl_orgUnitId p = (if truthy_str orgUnitId then orgUnitId else None)) (pd_rows s))"

definition employment_findActiveAsOf :: "uuid \<Rightarrow> uuid \<Rightarrow> millis \<Rightarrow> policy_db \<Rightarrow> Policy option" where
  "employment_findActiveAsOf tenantId policyGroupId asOf s =
     find_where (\<lambda>p. pl_tenantId p = tenantId \<and> pl_policyGroupId p = policyGroupId \<and> pl_policyType p \<in> set EMPLOYMENT_POLICY_TYPES
       \<and> policy_in_force asOf p) (pd_rows s)"

record CreateEmploymentPolicyInput =
  ce_policyGroupId :: "uuid option"
  ce_policyType :: EmploymentPolicyType
  ce_orgUnitId :: "uuid option"
  ce_jurisdiction :: "string option"
  ce_definition :: rule_definition
  ce_effectiveFrom :: millis

record employment_clients =
  floorCall :: "uuid \<Rightarrow> string \<Rightarrow> ComplianceRuleType option \<Rightarrow> rule_definition option \<Rightarrow> floor_reply option"
  orgUnitCountry :: "uuid \<Rightarrow> string option option" \<comment> \<open>\<open>None\<close>: no such org unit\<close>

definition validateAgainstComplianceFloor ::
  "employment_clients \<Rightarrow> uuid \<Rightarrow> string \<Rightarrow> EmploymentPolicyType \<Rightarrow> rule_definition \<Rightarrow> policy_error + unit" where
  "validateAgainstComplianceFloor cl tenantId jurisdiction policyType d =
     (case floorCall cl tenantId jurisdiction (Some (as_ruleType policyType)) (Some d) of
        None \<Rightarrow> Inl ComplianceGrpcClientUnavailableError
      | Some result \<Rightarrow> if \<not> fr_valid result \<and> \<not> fr_floorNotFound result
          then Inl (EmploymentPolicyViolatesComplianceFloorError jurisdiction) else Inr ())"

definition employment_gate :: "employment_clients \<Rightarrow> uuid \<Rightarrow> CreateEmploymentPolicyInput \<Rightarrow> policy_error + unit" where
  "employment_gate cl tenantId input =
     (case (if truthy_str (ce_orgUnitId input) then orgUnitCountry cl (the (ce_orgUnitId input)) else Some None) of
        None \<Rightarrow> Inl (OrgUnitNotFound (the (ce_orgUnitId input)))
      | Some orgUnitCountryCode \<Rightarrow>
          let jurisdiction = nullish_or (ce_jurisdiction input) orgUnitCountryCode in
          if truthy_str jurisdiction
          then validateAgainstComplianceFloor cl tenantId (the jurisdiction) (ce_policyType input) (ce_definition input)
          else Inr ())"

definition employment_row :: "uuid \<Rightarrow> CreateEmploymentPolicyInput \<Rightarrow> uuid \<Rightarrow> uuid \<Rightarrow> nat \<Rightarrow> Policy" where
  "employment_row tenantId input newId policyGroupId version =
     \<lparr>pl_id = newId, pl_tenantId = tenantId, pl_policyGroupId = policyGroupId, pl_policyType = as_PolicyType (ce_policyType input),
      pl_orgUnitId = ce_orgUnitId input, pl_definition = ce_definition input, pl_effectiveFrom = ce_effectiveFrom input,
      pl_effectiveTo = None, pl_version = version\<rparr>"

definition save_employment :: "bool \<Rightarrow> Policy \<Rightarrow> (policy_db, policy_error, Policy) svc" where
  \<comment> \<open>\<open>dbUp\<close>: the database still answers; the two writes are separate transactions\<close>
  "save_employment dbUp p s = (if \<not> dbUp then (Inl PolicyDbUnavailable, s)
     else (case write_policies (pd_rows s @ [p]) s of Inl e \<Rightarrow> (Inl e, s) | Inr (_, s') \<Rightarrow> (Inr p, s')))"

definition create_employment ::
  "bool \<Rightarrow> bool \<Rightarrow> employment_clients \<Rightarrow> uuid \<Rightarrow> CreateEmploymentPolicyInput \<Rightarrow> uuid \<Rightarrow> (policy_db, policy_error, Policy) svc" where
  "create_employment nullMatches dbUp cl tenantId input newId s =
     (case employment_gate cl tenantId input of
        Inl e \<Rightarrow> (Inl e, s)
      | Inr _ \<Rightarrow>
          if truthy_str (ce_policyGroupId input)
          then let policyGroupId = the (ce_policyGroupId input) in
            (case findOpenVersion nullMatches tenantId policyGroupId s of
               None \<Rightarrow> (Inl (EmploymentPolicyNotFoundError policyGroupId), s)
             | Some openVersion \<Rightarrow>
                 (case write_policies (close_version tenantId (pl_id openVersion) (ce_effectiveFrom input) (pd_rows s)) s of
                    Inl e \<Rightarrow> (Inl e, s)
                  | Inr (_, s1) \<Rightarrow> save_employment dbUp (employment_row tenantId input newId policyGroupId (pl_version openVersion + 1)) s1))
          else save_employment dbUp (employment_row tenantId input newId newId 1) s)"

section \<open>Lookups of other services\<close>

record GetActivePolicyRequest =
  gr_tenantId :: uuid
  gr_policyGroupId :: "uuid option"
  gr_policyType :: "PolicyType option"
  gr_orgUnitId :: "uuid option"
  gr_asOf :: "millis option"

definition getActivePolicy :: "GetActivePolicyRequest \<Rightarrow> millis \<Rightarrow> policy_db \<Rightarrow> Policy option" where
  "getActivePolicy request now s =
     (let asOf = the_default (gr_asOf request) now in
      if truthy_str (gr_policyGroupId request) then findActiveAsOf (gr_tenantId request) (the (gr_policyGroupId request)) asOf s
      else (case gr_policyType request of
              Some ty \<Rightarrow> findActiveByTypeAndScope (gr_tenantId request) ty (gr_orgUnitId request) asOf s
            | None \<Rightarrow> None))"

definition getLimits :: "uuid \<Rightarrow> millis \<Rightarrow> policy_db \<Rightarrow> rule_definition" where
  "getLimits tenantId now s = (case findActiveByType tenantId SYSTEM_LIMITS now s of None \<Rightarrow> Map.empty | Some p \<Rightarrow> pl_definition p)"

definition assertWithinLimit :: "uuid \<Rightarrow> string \<Rightarrow> nat \<Rightarrow> millis \<Rightarrow> policy_db \<Rightarrow> policy_error + unit" where
  "assertWithinLimit tenantId kind currentCount now s =
     (case numberField (getLimits tenantId now s) kind of
        None \<Rightarrow> Inr ()
      | Some limit \<Rightarrow> if limit \<le> real currentCount then Inl (SystemLimitExceededError kind limit) else Inr ())"

section \<open>Lineages\<close>

interpretation policy_table: tenant_scoped pl_tenantId "\<lambda>t p. p\<lparr>pl_tenantId := t\<rparr>" pl_id
  by unfold_locales simp_all

definition same_lineage :: "Policy \<Rightarrow> Policy \<Rightarrow> bool" where
  "same_lineage p q \<longleftrightarrow> pl_tenantId p = pl_tenantId q \<and> pl_policyGroupId p = pl_policyGroupId q"

definition follows :: "Policy \<Rightarrow> Policy \<Rightarrow> bool" where
  \<comment> \<open>a later version starts no earlier than an earlier one ends, the next one exactly then\<close>
  "follows p q \<longleftrightarrow> (\<exists>e. pl_effectiveTo p = Some e \<and> e \<le> pl_effectiveFrom q \<and> (pl_version q = Suc (pl_version p) \<longrightarrow> e = pl_effectiveFrom q))"

definition lineages_ok :: "Policy list \<Rightarrow> bool" where
  "lineages_ok rows \<longleftrightarrow> policies_constraints rows
     \<and> (\<forall>p\<in>set rows. \<forall>q\<in>set rows. same_lineage p q \<longrightarrow> pl_version p < pl_version q \<longrightarrow> follows p q)
     \<and> (\<forall>p\<in>set rows. 1 < pl_version p \<longrightarrow> (\<exists>q\<in>set rows. same_lineage q p \<and> Suc (pl_version q) = pl_version p))"

lemma lineages_okD:
  assumes "lineages_ok rows"
  shows "distinct (map pl_id rows)" "p \<in> set rows \<Longrightarrow> pl_effectiveTo p = Some e \<Longrightarrow> pl_effectiveFrom p < e" "p \<in> set rows \<Longrightarrow> 0 < pl_version p"
    and "p \<in> set rows \<Longrightarrow> q \<in> set rows \<Longrightarrow> same_lineage p q \<Longrightarrow> pl_version p = pl_version q \<Longrightarrow> p = q"
    and "p \<in> set rows \<Longrightarrow> q \<in> set rows \<Longrightarrow> same_lineage p q \<Longrightarrow> pl_version p < pl_version q \<Longrightarrow> follows p q"
proof -
  show "distinct (map pl_id rows)" using assms by (simp add: lineages_ok_def policies_constraints_def)
  show "p \<in> set rows \<Longrightarrow> pl_effectiveTo p = Some e \<Longrightarrow> pl_effectiveFrom p < e" "p \<in> set rows \<Longrightarrow> 0 < pl_version p"
    using assms by (auto simp: lineages_ok_def policies_constraints_def list_all_iff split: option.splits)
  have "inj_on (\<lambda>p. (pl_tenantId p, pl_policyGroupId p, pl_version p)) (set rows)"
    using assms by (simp add: lineages_ok_def policies_constraints_def distinct_map)
  then show "p \<in> set rows \<Longrightarrow> q \<in> set rows \<Longrightarrow> same_lineage p q \<Longrightarrow> pl_version p = pl_version q \<Longrightarrow> p = q"
    by (auto simp: inj_on_def same_lineage_def)
  show "p \<in> set rows \<Longrightarrow> q \<in> set rows \<Longrightarrow> same_lineage p q \<Longrightarrow> pl_version p < pl_version q \<Longrightarrow> follows p q"
    using assms by (simp add: lineages_ok_def)
qed

lemma same_lineage_sym: "same_lineage p q \<Longrightarrow> same_lineage q p"
  by (simp add: same_lineage_def)

lemma same_id_eq: "distinct (map pl_id rows) \<Longrightarrow> p \<in> set rows \<Longrightarrow> q \<in> set rows \<Longrightarrow> pl_id p = pl_id q \<Longrightarrow> p = q"
  by (auto simp: distinct_map inj_on_def)

lemma in_force_unique:
  assumes "lineages_ok rows" "p \<in> set rows" "q \<in> set rows" "same_lineage p q" "policy_in_force asOf p" "policy_in_force asOf q"
  shows "p = q"
proof (rule ccontr)
  assume "p \<noteq> q"
  then have "pl_version p \<noteq> pl_version q" using lineages_okD(4)[OF assms(1-4)] by blast
  then consider "follows p q" | "follows q p"
    using lineages_okD(5)[OF assms(1-4)] lineages_okD(5)[OF assms(1,3,2) same_lineage_sym[OF assms(4)]] by linarith
  then show False using assms(5,6) by cases (auto simp: follows_def policy_in_force_def)
qed

lemma findActive_iff:
  assumes "lineages_ok (pd_rows s)"
  shows "findActiveAsOf t g asOf s = Some p \<longleftrightarrow>
    p \<in> set (pd_rows s) \<and> pl_tenantId p = t \<and> pl_policyGroupId p = g \<and> policy_in_force asOf p"
proof
  assume "findActiveAsOf t g asOf s = Some p"
  then show "p \<in> set (pd_rows s) \<and> pl_tenantId p = t \<and> pl_policyGroupId p = g \<and> policy_in_force asOf p"
    by (auto simp: findActiveAsOf_def dest: find_where_SomeD)
next
  assume p: "p \<in> set (pd_rows s) \<and> pl_tenantId p = t \<and> pl_policyGroupId p = g \<and> policy_in_force asOf p"
  then show "findActiveAsOf t g asOf s = Some p"
    unfolding findActiveAsOf_def using in_force_unique[OF assms, of p _ asOf]
    by (intro find_where_unique[OF lineages_okD(1)[OF assms]]) (auto simp: same_lineage_def)
qed

lemma findActive_None:
  "findActiveAsOf t g asOf s = None \<longleftrightarrow>
    (\<forall>p\<in>set (pd_rows s). pl_tenantId p = t \<longrightarrow> pl_policyGroupId p = g \<longrightarrow> \<not> policy_in_force asOf p)"
  by (auto simp: findActiveAsOf_def find_where_None)

lemma open_versionD:
  "open_version t g s = Some c \<Longrightarrow> c \<in> set (pd_rows s) \<and> pl_tenantId c = t \<and> pl_policyGroupId c = g \<and> pl_effectiveTo c = None"
  by (auto simp: open_version_def dest: find_where_SomeD)

lemma open_is_last:
  assumes "lineages_ok rows" "c \<in> set rows" "pl_effectiveTo c = None" "q \<in> set rows" "same_lineage c q"
  shows "pl_version q \<le> pl_version c"
  using lineages_okD(5)[OF assms(1,2,4,5)] assms(3) by (fastforce simp: follows_def)

lemma set_close_version:
  assumes "distinct (map pl_id rows)" "c \<in> set rows" "pl_tenantId c = t"
  shows "set (close_version t (pl_id c) e rows) = insert (c\<lparr>pl_effectiveTo := Some e\<rparr>) (set rows - {c})"
proof -
  have P: "(pl_id r = pl_id c \<and> pl_tenantId r = t) = (r = c)" if "r \<in> set rows" for r
    using same_id_eq[OF assms(1) that assms(2)] assms(3) by blast
  have "update_where (\<lambda>p. pl_id p = pl_id c \<and> pl_tenantId p = t) f rows = update_where (\<lambda>p. p = c) f rows" for f
    unfolding update_where_def by (rule map_cong) (simp_all add: P)
  then have "set (close_version t (pl_id c) e rows) = (\<lambda>p. if p = c then c\<lparr>pl_effectiveTo := Some e\<rparr> else p) ` set rows"
    by (auto simp: close_version_def update_where_def)
  then show ?thesis using assms(2) by auto
qed

lemma close_ok:
  assumes ok: "lineages_ok rows" and c: "c \<in> set rows" "pl_tenantId c = t" "pl_effectiveTo c = None"
    and con: "policies_constraints (close_version t (pl_id c) e rows)"
  shows "lineages_ok (close_version t (pl_id c) e rows)"
proof -
  let ?c = "c\<lparr>pl_effectiveTo := Some e\<rparr>"
  note set = set_close_version[OF lineages_okD(1)[OF ok] c(1,2), of e]
  have lin: "same_lineage ?c q \<longleftrightarrow> same_lineage c q" "same_lineage q ?c \<longleftrightarrow> same_lineage q c" for q by (simp_all add: same_lineage_def)
  have fol: "follows q ?c \<longleftrightarrow> follows q c" for q by (simp add: follows_def)
  have "follows p q" if "p \<in> set (close_version t (pl_id c) e rows)" "q \<in> set (close_version t (pl_id c) e rows)" "same_lineage p q"
    "pl_version p < pl_version q" for p q
  proof -
    define q0 where "q0 = (if q = ?c then c else q)"
    have q0: "q0 \<in> set rows" "pl_version q0 = pl_version q" "same_lineage p q0" "follows p q0 \<longleftrightarrow> follows p q"
      using that(2,3) c(1) lin fol unfolding set q0_def by auto
    have "p \<noteq> ?c"
    proof
      assume "p = ?c"
      then have "pl_version q0 \<le> pl_version c" using q0(3) lin open_is_last[OF ok c(1,3) q0(1)] by simp
      then show False using that(4) q0(2) \<open>p = ?c\<close> by simp
    qed
    then have "p \<in> set rows" using that(1) unfolding set by simp
    then show ?thesis using lineages_okD(5)[OF ok _ q0(1,3)] q0(2,4) that(4) by simp
  qed
  moreover have "\<exists>q\<in>set (close_version t (pl_id c) e rows). same_lineage q p \<and> Suc (pl_version q) = pl_version p"
    if p: "p \<in> set (close_version t (pl_id c) e rows)" "1 < pl_version p" for p
  proof -
    define p0 where "p0 = (if p = ?c then c else p)"
    have p0: "p0 \<in> set rows" "pl_version p0 = pl_version p" "same_lineage q p0 \<longleftrightarrow> same_lineage q p" for q
      using p(1) c(1) lin unfolding set p0_def by auto
    then obtain q where q: "q \<in> set rows" "same_lineage q p" "Suc (pl_version q) = pl_version p"
      using ok p(2) unfolding lineages_ok_def by (metis (no_types, lifting))
    define q1 where "q1 = (if q = c then ?c else q)"
    have "q1 \<in> set (close_version t (pl_id c) e rows)" "same_lineage q1 p" "Suc (pl_version q1) = pl_version p"
      using q lin unfolding set q1_def by auto
    then show ?thesis by blast
  qed
  ultimately show ?thesis using con by (simp add: lineages_ok_def)
qed

lemma extend_ok:
  assumes ok: "lineages_ok rows" and con: "policies_constraints (rows @ [p])"
    and fol: "\<And>q. q \<in> set rows \<Longrightarrow> same_lineage q p \<Longrightarrow> pl_version q < pl_version p \<and> follows q p"
    and prev: "pl_version p = 1 \<or> (\<exists>q\<in>set rows. same_lineage q p \<and> Suc (pl_version q) = pl_version p)"
  shows "lineages_ok (rows @ [p])"
proof -
  have "follows x y" if "x \<in> set (rows @ [p])" "y \<in> set (rows @ [p])" "same_lineage x y" "pl_version x < pl_version y" for x y
  proof -
    have "x \<noteq> p"
    proof
      assume "x = p"
      then have "y \<in> set rows" using that by auto
      then show False using fol[OF _ same_lineage_sym] that(3,4) \<open>x = p\<close> by force
    qed
    then have x: "x \<in> set rows" using that(1) by simp
    show ?thesis
    proof (cases "y = p")
      case True
      then show ?thesis using fol[OF x] that(3) by simp
    next
      case False
      then have "y \<in> set rows" using that(2) by simp
      then show ?thesis by (rule lineages_okD(5)[OF ok x _ that(3,4)])
    qed
  qed
  moreover have "\<exists>q\<in>set (rows @ [p]). same_lineage q x \<and> Suc (pl_version q) = pl_version x" if "x \<in> set (rows @ [p])" "1 < pl_version x" for x
    using that ok prev unfolding lineages_ok_def by auto
  ultimately show ?thesis using con by (simp add: lineages_ok_def)
qed

text \<open>The step every new version takes: close the open one, append its successor.\<close>

lemma advance_ok:
  assumes ok: "lineages_ok rows" and c: "c \<in> set rows" "pl_tenantId c = t" "pl_effectiveTo c = None"
    and con1: "policies_constraints (close_version t (pl_id c) (pl_effectiveFrom p) rows)"
    and con2: "policies_constraints (close_version t (pl_id c) (pl_effectiveFrom p) rows @ [p])"
    and p: "same_lineage c p" "pl_version p = Suc (pl_version c)"
  shows "lineages_ok (close_version t (pl_id c) (pl_effectiveFrom p) rows @ [p])"
proof -
  let ?e = "pl_effectiveFrom p"
  let ?c = "c\<lparr>pl_effectiveTo := Some ?e\<rparr>" and ?rows = "close_version t (pl_id c) ?e rows"
  note set = set_close_version[OF lineages_okD(1)[OF ok] c(1,2), of ?e]
  have ok1: "lineages_ok ?rows" by (rule close_ok[OF ok c con1])
  have "?c \<in> set ?rows" unfolding set by simp
  then have later: "pl_effectiveFrom c < ?e" using lineages_okD(2)[OF ok1, of ?c ?e] by simp
  show ?thesis
  proof (rule extend_ok[OF ok1 con2])
    fix q assume q: "q \<in> set ?rows" "same_lineage q p"
    show "pl_version q < pl_version p \<and> follows q p"
    proof (cases "q = ?c")
      case True
      then show ?thesis using p(2) by (simp add: follows_def)
    next
      case False
      then have q': "q \<in> set rows" "q \<noteq> c" using q(1) unfolding set by auto
      have lin: "same_lineage q c" "same_lineage c q" using q(2) p(1) by (simp_all add: same_lineage_def)
      have "pl_version q < pl_version c"
        using open_is_last[OF ok c(1,3) q'(1) lin(2)] lineages_okD(4)[OF ok q'(1) c(1) lin(1)] q'(2) by fastforce
      moreover from this have "follows q c" by (rule lineages_okD(5)[OF ok q'(1) c(1) lin(1)])
      ultimately show ?thesis using later p(2) by (auto simp: follows_def)
    qed
  next
    have "same_lineage ?c p" "Suc (pl_version ?c) = pl_version p" using p by (simp_all add: same_lineage_def)
    then show "pl_version p = 1 \<or> (\<exists>q\<in>set ?rows. same_lineage q p \<and> Suc (pl_version q) = pl_version p)"
      using \<open>?c \<in> set ?rows\<close> by blast
  qed
qed

section \<open>Operations keep the lineages\<close>

lemma write_policies_Inr: "write_policies rows s = Inr (u, s') \<longleftrightarrow> policies_constraints rows \<and> s' = s\<lparr>pd_rows := rows\<rparr>"
  by (auto simp: write_policies_def)

lemma publish_rows [simp]: "pd_rows (publishPolicyChanged t p s) = pd_rows s"
  by (simp add: publishPolicyChanged_def)

lemma createLineage_Inr:
  assumes "createLineage t input newId s = Inr (p, s')"
  shows "pd_rows s' = pd_rows s @ [p]" "policies_constraints (pd_rows s @ [p])" "pl_tenantId p = t" "pl_policyGroupId p = newId" "pl_version p = 1"
    "pd_outbox s' = pd_outbox s @ [policy_changed_of t p]"
  using assms by (auto simp: createLineage_def Let_def write_policies_Inr publishPolicyChanged_def split: sum.splits)

lemma supersede_Inr:
  assumes "supersede t g input newId s = Inr (p, s')"
  obtains c where "open_version t g s = Some c" "pl_tenantId p = t" "pl_policyGroupId p = g" "pl_version p = Suc (pl_version c)"
    "pl_effectiveFrom p = li_effectiveFrom input" "pl_effectiveTo p = None" "pl_definition p = li_definition input" "pl_orgUnitId p = li_orgUnitId input"
    "policies_constraints (close_version t (pl_id c) (pl_effectiveFrom p) (pd_rows s))"
    "policies_constraints (close_version t (pl_id c) (pl_effectiveFrom p) (pd_rows s) @ [p])"
    "pd_rows s' = close_version t (pl_id c) (pl_effectiveFrom p) (pd_rows s) @ [p]"
    "pd_outbox s' = pd_outbox s @ [policy_changed_of t p]"
  using assms by (auto simp: supersede_def Let_def write_policies_Inr publishPolicyChanged_def split: sum.splits option.splits)

lemma deactivate_policy_Inr:
  assumes "deactivate_policy t g now s = Inr (p, s')"
  obtains c where "open_version t g s = Some c" "p = c\<lparr>pl_effectiveTo := Some now\<rparr>"
    "policies_constraints (close_version t (pl_id c) now (pd_rows s))" "pd_rows s' = close_version t (pl_id c) now (pd_rows s)"
  using assms by (auto simp: deactivate_policy_def Let_def write_policies_Inr split: sum.splits option.splits)

definition fresh_policy_id :: "uuid \<Rightarrow> policy_db \<Rightarrow> bool" where
  "fresh_policy_id newId s \<longleftrightarrow> newId \<notin> pl_policyGroupId ` set (pd_rows s)"

lemma new_lineage_ok:
  assumes "lineages_ok rows" "policies_constraints (rows @ [p])" "pl_policyGroupId p \<notin> pl_policyGroupId ` set rows" "pl_version p = 1"
  shows "lineages_ok (rows @ [p])"
proof (rule extend_ok[OF assms(1,2)])
  fix q assume "q \<in> set rows" "same_lineage q p"
  then have False using assms(3) by (metis image_eqI same_lineage_def)
  then show "pl_version q < pl_version p \<and> follows q p" ..
qed (simp add: assms(4))

lemma createLineage_ok:
  assumes "lineages_ok (pd_rows s)" "fresh_policy_id newId s" "createLineage t input newId s = Inr (p, s')"
  shows "lineages_ok (pd_rows s')"
  using createLineage_Inr[OF assms(3)] assms(1,2) by (simp add: new_lineage_ok fresh_policy_id_def)

lemma supersede_ok:
  assumes "lineages_ok (pd_rows s)" "supersede t g input newId s = Inr (p, s')"
  shows "lineages_ok (pd_rows s')"
proof (rule supersede_Inr[OF assms(2)])
  fix c assume c: "open_version t g s = Some c" and p: "pl_tenantId p = t" "pl_policyGroupId p = g" "pl_version p = Suc (pl_version c)"
    and con: "policies_constraints (close_version t (pl_id c) (pl_effectiveFrom p) (pd_rows s))"
      "policies_constraints (close_version t (pl_id c) (pl_effectiveFrom p) (pd_rows s) @ [p])"
    and s': "pd_rows s' = close_version t (pl_id c) (pl_effectiveFrom p) (pd_rows s) @ [p]"
  note c' = open_versionD[OF c]
  show ?thesis unfolding s'
    using p c' by (intro advance_ok[OF assms(1) _ _ _ con]) (simp_all add: same_lineage_def)
qed

lemma deactivate_policy_ok:
  assumes "lineages_ok (pd_rows s)" "deactivate_policy t g now s = Inr (p, s')"
  shows "lineages_ok (pd_rows s')"
proof (rule deactivate_policy_Inr[OF assms(2)])
  fix c assume "open_version t g s = Some c" "policies_constraints (close_version t (pl_id c) now (pd_rows s))"
    "pd_rows s' = close_version t (pl_id c) now (pd_rows s)"
  then show ?thesis using close_ok[OF assms(1), of c t now] open_versionD[of t g s c] by simp
qed

definition employment_safe :: "bool \<Rightarrow> uuid \<Rightarrow> CreateEmploymentPolicyInput \<Rightarrow> policy_db \<Rightarrow> bool" where
  \<comment> \<open>the lookup of the open version cannot return a closed one\<close>
  "employment_safe nullMatches t input s \<longleftrightarrow> nullMatches \<or> \<not> truthy_str (ce_policyGroupId input)
     \<or> (\<forall>p\<in>set (pd_rows s). pl_tenantId p = t \<longrightarrow> Some (pl_policyGroupId p) = ce_policyGroupId input \<longrightarrow> pl_effectiveTo p = None)"

lemma save_employment_rows:
  "pd_rows (snd (save_employment up p s)) = pd_rows s
   \<or> pd_rows (snd (save_employment up p s)) = pd_rows s @ [p] \<and> policies_constraints (pd_rows s @ [p])"
  by (simp add: save_employment_def write_policies_def)

lemma findOpenVersion_safe:
  assumes "findOpenVersion nm t g s = Some c" "employment_safe nm t input s" "ce_policyGroupId input = Some g" "g \<noteq> []"
  shows "c \<in> set (pd_rows s)" "pl_tenantId c = t" "pl_policyGroupId c = g" "pl_effectiveTo c = None"
  using find_where_SomeD[OF assms(1)[unfolded findOpenVersion_def ts_findOne_def]] assms(2-4) by (auto simp: employment_safe_def)

lemma create_employment_ok:
  assumes ok: "lineages_ok (pd_rows s)" and fresh: "fresh_policy_id newId s" and safe: "employment_safe nm t input s"
  shows "lineages_ok (pd_rows (snd (create_employment nm up cl t input newId s)))"
proof (cases "employment_gate cl t input")
  case (Inl e)
  then show ?thesis using ok by (simp add: create_employment_def)
next
  case gate: (Inr u)
  show ?thesis
  proof (cases "truthy_str (ce_policyGroupId input)")
    case False
    let ?p = "employment_row t input newId newId 1"
    have "lineages_ok (pd_rows s @ [?p])" if "policies_constraints (pd_rows s @ [?p])"
      using fresh by (intro new_lineage_ok[OF ok that]) (simp_all add: employment_row_def fresh_policy_id_def)
    then show ?thesis using gate False ok save_employment_rows[of up ?p s] by (auto simp: create_employment_def)
  next
    case True
    then obtain g where g: "ce_policyGroupId input = Some g" "g \<noteq> []" by (cases "ce_policyGroupId input") auto
    show ?thesis
    proof (cases "findOpenVersion nm t g s")
      case None
      then show ?thesis using gate g ok by (simp add: create_employment_def)
    next
      case (Some c)
      note c = findOpenVersion_safe[OF Some safe g]
      let ?rows = "close_version t (pl_id c) (ce_effectiveFrom input) (pd_rows s)" and ?p = "employment_row t input newId g (Suc (pl_version c))"
      show ?thesis
      proof (cases "policies_constraints ?rows")
        case False
        then show ?thesis using gate g ok Some by (simp add: create_employment_def write_policies_def)
      next
        case con: True
        have "lineages_ok (?rows @ [?p])" if "policies_constraints (?rows @ [?p])"
          using advance_ok[OF ok c(1,2,4), of ?p] con that c(2,3) by (simp add: employment_row_def same_lineage_def)
        then show ?thesis using gate g Some con close_ok[OF ok c(1,2,4) con] save_employment_rows[of up ?p "s\<lparr>pd_rows := ?rows\<rparr>"]
          by (auto simp: create_employment_def write_policies_def)
      qed
    qed
  qed
qed

datatype policy_op =
    OpPolicy access_db uuid uuid CreatePolicyDto uuid millis
  | OpDeactivate bool access_db uuid uuid uuid millis
  | OpEmployment bool bool employment_clients uuid CreateEmploymentPolicyInput uuid

fun policy_do :: "policy_op \<Rightarrow> policy_db \<Rightarrow> policy_db" where
  "policy_do (OpPolicy db t u input newId now) s = snd (createOrVersion db t u input newId now s)"
| "policy_do (OpDeactivate nm db t u g now) s = snd (deactivate nm db t u g now s)"
| "policy_do (OpEmployment nm up cl t input newId) s = snd (create_employment nm up cl t input newId s)"

fun policy_allowed :: "policy_op \<Rightarrow> policy_db \<Rightarrow> bool" where
  "policy_allowed (OpPolicy db t u input newId now) s \<longleftrightarrow> fresh_policy_id newId s"
| "policy_allowed (OpDeactivate nm db t u g now) s \<longleftrightarrow> True"
| "policy_allowed (OpEmployment nm up cl t input newId) s \<longleftrightarrow> fresh_policy_id newId s \<and> employment_safe nm t input s"

inductive policy_reach :: "policy_db \<Rightarrow> bool" where
  start: "pd_rows s = [] \<Longrightarrow> policy_reach s"
| step: "policy_reach s \<Longrightarrow> policy_allowed op s \<Longrightarrow> policy_reach (policy_do op s)"

definition lineage_input :: "CreatePolicyDto \<Rightarrow> millis \<Rightarrow> NewPolicyLineageInput" where
  "lineage_input input now = \<lparr>li_policyType = cp_policyType input, li_orgUnitId = cp_orgUnitId input,
     li_definition = cp_definition input, li_effectiveFrom = the_default (cp_effectiveFrom input) now\<rparr>"

lemma createOrVersion_cases:
  obtains (failed) e where "createOrVersion db t u input newId now s = (Inl e, s)"
  | (versioned) p s' where "isPermittedForOrgUnit db t u ''policy'' ''write'' (cp_orgUnitId input)" "truthy_str (cp_policyGroupId input)"
      "createOrVersion db t u input newId now s = (Inr p, s')"
      "supersede t (the (cp_policyGroupId input)) (lineage_input input now) newId s = Inr (p, s')"
  | (created) p s' where "isPermittedForOrgUnit db t u ''policy'' ''write'' (cp_orgUnitId input)" "\<not> truthy_str (cp_policyGroupId input)"
      "createOrVersion db t u input newId now s = (Inr p, s')" "createLineage t (lineage_input input now) newId s = Inr (p, s')"
proof (cases "isPermittedForOrgUnit db t u ''policy'' ''write'' (cp_orgUnitId input)")
  case False
  then show ?thesis by (intro failed) (simp add: createOrVersion_def assertPermittedForOrgUnit_def)
next
  case perm: True
  then have eq: "createOrVersion db t u input newId now s = (if truthy_str (cp_policyGroupId input)
      then run_txn (supersede t (the (cp_policyGroupId input)) (lineage_input input now) newId) s
      else run_txn (createLineage t (lineage_input input now) newId) s)"
    by (simp add: createOrVersion_def assertPermittedForOrgUnit_def lineage_input_def)
  show ?thesis
  proof (cases "truthy_str (cp_policyGroupId input)")
    case True
    then show ?thesis using perm eq failed versioned
      by (cases "supersede t (the (cp_policyGroupId input)) (lineage_input input now) newId s") (auto simp: run_txn_def)
  next
    case False
    then show ?thesis using perm eq failed created
      by (cases "createLineage t (lineage_input input now) newId s") (auto simp: run_txn_def)
  qed
qed

lemma policy_do_ok: "lineages_ok (pd_rows s) \<Longrightarrow> policy_allowed op s \<Longrightarrow> lineages_ok (pd_rows (policy_do op s))"
proof (cases op)
  case (OpPolicy db t u input newId now)
  assume ok: "lineages_ok (pd_rows s)" and al: "policy_allowed op s"
  show ?thesis
    by (rule createOrVersion_cases[of db t u input newId now s])
      (use ok al OpPolicy in \<open>auto dest: supersede_ok createLineage_ok\<close>)
next
  case (OpDeactivate nm db t u g now)
  assume ok: "lineages_ok (pd_rows s)"
  then show ?thesis using OpDeactivate
    by (auto simp: deactivate_def run_txn_def dest: deactivate_policy_ok split: option.splits sum.splits)
next
  case (OpEmployment nm up cl t input newId)
  assume "lineages_ok (pd_rows s)" "policy_allowed op s"
  then show ?thesis using OpEmployment by (simp add: create_employment_ok)
qed

lemma policy_reach_ok: "policy_reach s \<Longrightarrow> lineages_ok (pd_rows s)"
proof (induction rule: policy_reach.induct)
  case (start s)
  then show ?case by (simp add: lineages_ok_def policies_constraints_def)
qed (rule policy_do_ok)

section \<open>What a lookup answers\<close>

definition lineage_rows :: "uuid \<Rightarrow> uuid \<Rightarrow> policy_db \<Rightarrow> Policy set" where
  "lineage_rows t g s = {p \<in> set (pd_rows s). pl_tenantId p = t \<and> pl_policyGroupId p = g}"

lemma next_version_exists:
  assumes ok: "lineages_ok rows" and p: "p \<in> set rows"
  shows "q \<in> set rows \<Longrightarrow> same_lineage p q \<Longrightarrow> pl_version p < pl_version q \<Longrightarrow>
    \<exists>x\<in>set rows. same_lineage p x \<and> pl_version x = Suc (pl_version p)"
proof (induction "pl_version q" arbitrary: q rule: less_induct)
  case less
  show ?case
  proof (cases "pl_version q = Suc (pl_version p)")
    case True
    then show ?thesis using less.prems by blast
  next
    case False
    have "1 < pl_version q" using less.prems(3) lineages_okD(3)[OF ok p] by simp
    then obtain x where x: "x \<in> set rows" "same_lineage x q" "Suc (pl_version x) = pl_version q"
      using ok less.prems(1) unfolding lineages_ok_def by blast
    then have "same_lineage p x" "pl_version p < pl_version x" using less.prems(2,3) False by (auto simp: same_lineage_def)
    then show ?thesis using less.hyps[of x] x by simp
  qed
qed

lemma some_version_in_force:
  assumes ok: "lineages_ok (pd_rows s)" and p: "p \<in> lineage_rows t g s" "pl_effectiveFrom p \<le> asOf"
    and q: "q \<in> lineage_rows t g s" "case pl_effectiveTo q of None \<Rightarrow> True | Some e \<Rightarrow> asOf < e"
  shows "\<exists>r\<in>lineage_rows t g s. policy_in_force asOf r"
proof -
  define S where "S = {x \<in> lineage_rows t g s. pl_effectiveFrom x \<le> asOf}"
  have "finite S" "S \<noteq> {}" using p by (auto simp: S_def lineage_rows_def)
  then have "Max (pl_version ` S) \<in> pl_version ` S" by (intro Max_in) simp_all
  then obtain r where "r \<in> S" "pl_version r = Max (pl_version ` S)" by auto
  then have r: "r \<in> S" "\<forall>x\<in>S. pl_version x \<le> pl_version r" using \<open>finite S\<close> by simp_all
  have r': "r \<in> set (pd_rows s)" "q \<in> set (pd_rows s)" "same_lineage r q" "same_lineage q r" "pl_effectiveFrom r \<le> asOf"
    using r(1) q(1) by (auto simp: S_def lineage_rows_def same_lineage_def)
  show ?thesis
  proof (cases "policy_in_force asOf r")
    case True
    then show ?thesis using r(1) by (auto simp: S_def)
  next
    case False
    then obtain e where e: "pl_effectiveTo r = Some e" "e \<le> asOf" using r'(5) by (auto simp: policy_in_force_def split: option.splits)
    have "pl_version r \<noteq> pl_version q" using lineages_okD(4)[OF ok r'(1-3)] e q(2) by auto
    moreover have "\<not> pl_version q < pl_version r"
      using lineages_okD(5)[OF ok r'(2,1,4)] q(2) r'(5) by (auto simp: follows_def)
    ultimately obtain x where x: "x \<in> set (pd_rows s)" "same_lineage r x" "pl_version x = Suc (pl_version r)"
      using next_version_exists[OF ok r'(1-3)] by force
    then have "follows r x" by (intro lineages_okD(5)[OF ok r'(1)]) simp_all
    then have "x \<in> S" using e x r(1) by (auto simp: follows_def S_def lineage_rows_def same_lineage_def)
    then show ?thesis using r(2) x(3) by force
  qed
qed


definition policy_content :: "Policy \<Rightarrow> uuid \<times> nat \<times> PolicyType \<times> uuid option \<times> rule_definition" where
  "policy_content p = (pl_id p, pl_version p, pl_policyType p, pl_orgUnitId p, pl_definition p)"

lemma find_where_map_option:
  "(\<And>x. x \<in> set xs \<Longrightarrow> P' (f x) = P x \<and> k (f x) = k x) \<Longrightarrow> map_option k (find_where P' (map f xs)) = map_option k (find_where P xs)"
  by (induction xs) auto

lemma close_before:
  assumes "asOf < e" "\<And>p. p \<in> set rows \<Longrightarrow> pl_id p = i \<Longrightarrow> pl_effectiveTo p = None"
  shows "map_option policy_content (find_where (\<lambda>p. pl_tenantId p = t' \<and> pl_policyGroupId p = g \<and> policy_in_force asOf p) (close_version t i e rows)) =
    map_option policy_content (find_where (\<lambda>p. pl_tenantId p = t' \<and> pl_policyGroupId p = g \<and> policy_in_force asOf p) rows)"
  unfolding close_version_def update_where_def
  by (rule find_where_map_option) (use assms in \<open>auto simp: policy_content_def policy_in_force_def\<close>)

lemma close_elsewhere:
  assumes "\<And>p. p \<in> set rows \<Longrightarrow> pl_id p = i \<Longrightarrow> pl_tenantId p = t \<Longrightarrow> pl_tenantId p \<noteq> t' \<or> pl_policyGroupId p \<noteq> g'"
  shows "find_where (\<lambda>p. pl_tenantId p = t' \<and> pl_policyGroupId p = g' \<and> P p) (close_version t i e rows) =
    find_where (\<lambda>p. pl_tenantId p = t' \<and> pl_policyGroupId p = g' \<and> P p) rows"
  using assms unfolding close_version_def by (induction rows) auto

text \<open>
  Property C30. A new version changes only the future: after a policy was versioned through the endpoint, the lookup
  as of any earlier instant answers what it answered before, from the new version's start on it answers the new version,
  no other policy of any tenant is affected, and exactly one change event was queued with it.
\<close>

theorem versioning_changes_only_the_future:
  assumes "policy_reach s" "createOrVersion db t u input newId now s = (Inr p, s')" "cp_policyGroupId input = Some g" "g \<noteq> []"
  shows "map_option policy_content (findActiveAsOf t g asOf s') =
      (if asOf < the_default (cp_effectiveFrom input) now then map_option policy_content (findActiveAsOf t g asOf s) else Some (policy_content p))
    \<and> ((t', g') = (t, g) \<or> findActiveAsOf t' g' asOf s' = findActiveAsOf t' g' asOf s)
    \<and> pd_outbox s' = pd_outbox s @ [policy_changed_of t p]"
proof -
  have ok: "lineages_ok (pd_rows s)" by (rule policy_reach_ok[OF assms(1)])
  have sup: "supersede t g (lineage_input input now) newId s = Inr (p, s')"
    by (rule createOrVersion_cases[of db t u input newId now s]) (use assms(2-4) in auto)
  have ok': "lineages_ok (pd_rows s')" by (rule supersede_ok[OF ok sup])
  obtain c where c: "open_version t g s = Some c" "pl_tenantId p = t" "pl_policyGroupId p = g" "pl_effectiveFrom p = li_effectiveFrom (lineage_input input now)"
    "pl_effectiveTo p = None" "pd_rows s' = close_version t (pl_id c) (pl_effectiveFrom p) (pd_rows s) @ [p]"
    "pd_outbox s' = pd_outbox s @ [policy_changed_of t p]" by (rule supersede_Inr[OF sup]) blast
  note c' = open_versionD[OF c(1)]
  have same: "x = c" if "x \<in> set (pd_rows s)" "pl_id x = pl_id c" for x using same_id_eq[OF lineages_okD(1)[OF ok] that(1)] c' that(2) by blast
  have start: "pl_effectiveFrom p = the_default (cp_effectiveFrom input) now" using c(4) by (simp add: lineage_input_def)
  have "map_option policy_content (findActiveAsOf t g asOf s') =
      (if asOf < pl_effectiveFrom p then map_option policy_content (findActiveAsOf t g asOf s) else Some (policy_content p))"
  proof (cases "asOf < pl_effectiveFrom p")
    case True
    then have "\<not> policy_in_force asOf p" by (simp add: policy_in_force_def)
    moreover have "map_option policy_content (find_where (\<lambda>x. pl_tenantId x = t \<and> pl_policyGroupId x = g \<and> policy_in_force asOf x)
        (close_version t (pl_id c) (pl_effectiveFrom p) (pd_rows s))) = map_option policy_content (findActiveAsOf t g asOf s)"
      unfolding findActiveAsOf_def using same c' by (intro close_before[OF True]) blast
    ultimately show ?thesis using True unfolding findActiveAsOf_def c(6) by (auto simp: find_where_append split: option.splits)
  next
    case False
    then have "findActiveAsOf t g asOf s' = Some p" unfolding findActive_iff[OF ok'] using c by (simp add: policy_in_force_def)
    then show ?thesis using False by simp
  qed
  moreover have "findActiveAsOf t' g' asOf s' = findActiveAsOf t' g' asOf s" if "(t', g') \<noteq> (t, g)"
  proof -
    have "find_where (\<lambda>x. pl_tenantId x = t' \<and> pl_policyGroupId x = g' \<and> policy_in_force asOf x)
        (close_version t (pl_id c) (pl_effectiveFrom p) (pd_rows s)) = findActiveAsOf t' g' asOf s"
      unfolding findActiveAsOf_def using same c' that by (intro close_elsewhere) blast
    then show ?thesis using that c(2,3) unfolding findActiveAsOf_def c(6) by (auto simp: find_where_append split: option.splits)
  qed
  ultimately show ?thesis unfolding start[symmetric] using c(7) by (cases "(t', g') = (t, g)") simp_all
qed

section \<open>Tenants and floors\<close>

lemma close_isolated: "foreign_rows pl_tenantId t (close_version t i e rows) = foreign_rows pl_tenantId t rows"
  unfolding close_version_def by (rule policy_table.foreign_update) auto

lemma append_isolated: "pl_tenantId p = t \<Longrightarrow> foreign_rows pl_tenantId t (rows @ [p]) = foreign_rows pl_tenantId t rows"
  by (simp add: foreign_rows_def)

fun op_tenant :: "policy_op \<Rightarrow> uuid" where
  "op_tenant (OpPolicy db t u input newId now) = t"
| "op_tenant (OpDeactivate nm db t u g now) = t"
| "op_tenant (OpEmployment nm up cl t input newId) = t"

lemma save_employment_isolated:
  "pl_tenantId p = t \<Longrightarrow> foreign_rows pl_tenantId t (pd_rows (snd (save_employment up p s))) = foreign_rows pl_tenantId t (pd_rows s)"
  using save_employment_rows[of up p s] append_isolated[of p t "pd_rows s"] by auto

text \<open>
  No policy operation of a tenant, successful or failing halfway, adds, changes or removes a row of another tenant.
\<close>

theorem policy_writes_stay_in_tenant:
  "foreign_rows pl_tenantId (op_tenant op) (pd_rows (policy_do op s)) = foreign_rows pl_tenantId (op_tenant op) (pd_rows s)"
proof (cases op)
  case (OpPolicy db t u input newId now)
  have sup: "foreign_rows pl_tenantId t (pd_rows s') = foreign_rows pl_tenantId t (pd_rows s)" if "supersede t g i newId s = Inr (p, s')" for g i p s'
    by (rule supersede_Inr[OF that]) (simp add: append_isolated close_isolated)
  have cre: "foreign_rows pl_tenantId t (pd_rows s') = foreign_rows pl_tenantId t (pd_rows s)" if "createLineage t i newId s = Inr (p, s')" for i p s'
    using createLineage_Inr[OF that] by (simp add: append_isolated)
  show ?thesis unfolding OpPolicy
    by (rule createOrVersion_cases[of db t u input newId now s]) (auto dest: sup cre)
next
  case (OpDeactivate nm db t u g now)
  have "foreign_rows pl_tenantId t (pd_rows s') = foreign_rows pl_tenantId t (pd_rows s)" if "deactivate_policy t g now s = Inr (p, s')" for p s'
    by (rule deactivate_policy_Inr[OF that]) (simp add: close_isolated)
  then show ?thesis unfolding OpDeactivate by (auto simp: deactivate_def run_txn_def split: option.splits sum.splits)
next
  case (OpEmployment nm up cl t input newId)
  have "pl_tenantId (employment_row t input newId g v) = t" for g v by (simp add: employment_row_def)
  then show ?thesis unfolding OpEmployment
    by (auto simp: create_employment_def write_policies_def Let_def save_employment_isolated close_isolated split: sum.splits option.splits if_splits)
qed

text \<open>
  Property C20. An employment policy never undercuts the law its jurisdiction has on file: when the write succeeds against the
  compliance service and a rule of that type is in force for the jurisdiction at that moment, every
  roster that satisfies the stored policy satisfies the rule.
\<close>

theorem employment_policy_meets_floor:
  assumes "create_employment nm up cl t input newId s = (Inr p, s')"
    and "floorCall cl = (\<lambda>tenant jur rt pol. if reachable then Some (grpc_validatePolicyAgainstFloor tenant jur rt pol now cdb) else None)"
    and "ce_jurisdiction input = Some j" "j \<noteq> []" "getActiveRule t j (as_ruleType (ce_policyType input)) now cdb = Some rule"
    and "isCompliant (as_ruleType (ce_policyType input)) (pl_definition p) shifts"
  shows "isCompliant (as_ruleType (ce_policyType input)) (cr_definition rule) shifts"
proof -
  have gate: "employment_gate cl t input = Inr ()" using assms(1) by (auto simp: create_employment_def split: sum.splits)
  have d: "pl_definition p = ce_definition input"
    using assms(1) by (auto simp: create_employment_def save_employment_def employment_row_def Let_def split: sum.splits option.splits if_splits)
  have "validateAgainstComplianceFloor cl t j (ce_policyType input) (ce_definition input) = Inr ()"
    using gate assms(3,4) by (auto simp: employment_gate_def Let_def split: option.splits if_splits)
  then have "floor_valid (validatePolicyAgainstFloor (as_ruleType (ce_policyType input)) (ce_definition input) (cr_definition rule))"
    using assms(2,5) by (auto simp: validateAgainstComplianceFloor_def grpc_validatePolicyAgainstFloor_def Let_def split: if_splits)
  then show ?thesis using assms(6) unfolding d by (rule stricter_is_compliant)
qed

section \<open>Witnesses\<close>

definition demo_access :: "uuid option \<Rightarrow> access_db" where
  "demo_access unit = \<lparr>db_userRoles = [\<lparr>ur_tenantId = ''t'', ur_userId = ''u'', ur_roleId = ''r'', ur_scopeOrgUnitId = unit, ur_scopeGroupId = None\<rparr>],
     db_rolePermissions = [\<lparr>rpm_tenantId = None, rpm_roleId = ''r'', rpm_permissionId = ''w''\<rparr>],
     db_permissions = [\<lparr>pm_id = ''w'', pm_resource = ''policy'', pm_action = ''write''\<rparr>], db_groupMembers = []\<rparr>"

definition demo_policy_dto :: "uuid option \<Rightarrow> uuid option \<Rightarrow> millis \<Rightarrow> CreatePolicyDto" where
  "demo_policy_dto g unit e = \<lparr>cp_policyGroupId = g, cp_policyType = RATE_LIMIT, cp_orgUnitId = unit, cp_definition = Map.empty, cp_effectiveFrom = Some e\<rparr>"

definition no_policies :: policy_db where
  "no_policies = \<lparr>pd_rows = [], pd_outbox = []\<rparr>"

definition demo_rate_limit :: Policy where
  "demo_rate_limit = \<lparr>pl_id = ''g'', pl_tenantId = ''t'', pl_policyGroupId = ''g'', pl_policyType = RATE_LIMIT, pl_orgUnitId = None,
     pl_definition = Map.empty, pl_effectiveFrom = 10, pl_effectiveTo = None, pl_version = 1\<rparr>"

definition demo_policies :: policy_db where
  "demo_policies = policy_do (OpPolicy (demo_access None) ''t'' ''u'' (demo_policy_dto None None 10) ''g'' 0) no_policies"

lemma demo_access_eval:
  "isPermittedForOrgUnit (demo_access unit) ''t'' ''u'' ''policy'' ''write'' target \<longleftrightarrow> unit = None \<or> unit = target"
  by (auto simp: isPermittedForOrgUnit_def grant_rows_def demo_access_def tenant_wide_grant_def sql_eq_def)

lemmas policy_eval = createOrVersion_def assertPermittedForOrgUnit_def demo_access_eval demo_policy_dto_def createLineage_def supersede_def
  open_version_def close_version_def write_policies_def policies_constraints_def publishPolicyChanged_def run_txn_def Let_def

lemma demo_policies_eval: "pd_rows demo_policies = [demo_rate_limit]" "pd_outbox demo_policies = [policy_changed_of ''t'' demo_rate_limit]"
  by (simp_all add: demo_policies_def policy_eval no_policies_def demo_rate_limit_def)

lemma demo_policies_reach: "policy_reach demo_policies"
  unfolding demo_policies_def
  by (intro policy_reach.step policy_reach.start) (simp_all add: no_policies_def fresh_policy_id_def)


theorem versioning_changes_only_the_future_witness:
  "\<exists>p s'. createOrVersion (demo_access None) ''t'' ''u'' (demo_policy_dto (Some ''g'') None 20) ''h'' 0 demo_policies = (Inr p, s') \<and>
     map_option policy_content (findActiveAsOf ''t'' ''g'' 15 s') = Some (policy_content demo_rate_limit) \<and>
     map_option policy_content (findActiveAsOf ''t'' ''g'' 25 s') = Some (policy_content p)"
proof -
  have "\<exists>p s'. createOrVersion (demo_access None) ''t'' ''u'' (demo_policy_dto (Some ''g'') None 20) ''h'' 0 demo_policies = (Inr p, s')"
    using demo_policies_eval(1) by (auto simp: policy_eval demo_rate_limit_def)
  then obtain p s' where run: "createOrVersion (demo_access None) ''t'' ''u'' (demo_policy_dto (Some ''g'') None 20) ''h'' 0 demo_policies = (Inr p, s')" by blast
  have "findActiveAsOf ''t'' ''g'' 15 demo_policies = Some demo_rate_limit"
    by (simp add: findActiveAsOf_def demo_policies_eval policy_in_force_def) (simp add: demo_rate_limit_def)
  moreover have g: "cp_policyGroupId (demo_policy_dto (Some ''g'') None 20) = Some ''g''" "cp_effectiveFrom (demo_policy_dto (Some ''g'') None 20) = Some 20"
    by (simp_all add: demo_policy_dto_def)
  ultimately show ?thesis
    using versioning_changes_only_the_future[OF demo_policies_reach run g(1), of 15 "''t''" "''g''"]
      versioning_changes_only_the_future[OF demo_policies_reach run g(1), of 25 "''t''" "''g''"] run g(2) by auto
qed

definition demo_employment :: "uuid option \<Rightarrow> string option \<Rightarrow> millis \<Rightarrow> CreateEmploymentPolicyInput" where
  "demo_employment g j e = \<lparr>ce_policyGroupId = g, ce_policyType = EP_UNION_RULE, ce_orgUnitId = None, ce_jurisdiction = j,
     ce_definition = [''maxShiftLengthMinutes'' \<mapsto> FNumber 420], ce_effectiveFrom = e\<rparr>"

definition demo_floor_clients :: employment_clients where
  "demo_floor_clients = \<lparr>floorCall = (\<lambda>tenant jur rt pol. if True then Some (grpc_validatePolicyAgainstFloor tenant jur rt pol 5000 demo_activated) else None),
     orgUnitCountry = (\<lambda>_. None)\<rparr>"

lemma demo_active_floor: "getActiveRule ''t'' ''US'' UNION_RULE 5000 demo_activated = Some demo_live_rule"
proof -
  have "inForce 5000 demo_live_rule" by (simp add: inForce_def demo_live_rule_def demo_day)
  then show ?thesis
    by (simp add: getActiveRule_def listRules_def demo_activation_eval resolveEffectiveRules_def keepSpecific_def visible_def)
      (simp add: demo_live_rule_def)
qed

theorem employment_policy_meets_floor_witness:
  "\<exists>p s'. create_employment True True demo_floor_clients ''t'' (demo_employment None (Some ''US'') 0) ''e1'' no_policies = (Inr p, s') \<and>
     isCompliant UNION_RULE (pl_definition p) [\<lparr>sim_employeeId = ''e'', sim_start = 0, sim_end = 21600000\<rparr>] \<and>
     isCompliant UNION_RULE (cr_definition demo_live_rule) [\<lparr>sim_employeeId = ''e'', sim_start = 0, sim_end = 21600000\<rparr>]"
proof -
  have "floorCall demo_floor_clients ''t'' ''US'' (Some UNION_RULE) (Some [''maxShiftLengthMinutes'' \<mapsto> FNumber 420]) =
      Some \<lparr>fr_valid = True, fr_violations = [], fr_badJson = False, fr_floorNotFound = False\<rparr>"
    by (simp add: demo_floor_clients_def grpc_validatePolicyAgainstFloor_def demo_active_floor validatePolicyAgainstFloor_def
        checkFloorField_def Let_def) (simp add: demo_live_rule_def)
  then have run: "\<exists>p s'. create_employment True True demo_floor_clients ''t'' (demo_employment None (Some ''US'') 0) ''e1'' no_policies = (Inr p, s')
      \<and> pl_definition p = [''maxShiftLengthMinutes'' \<mapsto> FNumber 420]"
    by (simp add: create_employment_def employment_gate_def validateAgainstComplianceFloor_def demo_employment_def save_employment_def
        write_policies_def policies_constraints_def employment_row_def no_policies_def Let_def)
  then obtain p s' where p: "create_employment True True demo_floor_clients ''t'' (demo_employment None (Some ''US'') 0) ''e1'' no_policies = (Inr p, s')"
    "pl_definition p = [''maxShiftLengthMinutes'' \<mapsto> FNumber 420]" by blast
  have ty: "as_ruleType (ce_policyType (demo_employment None (Some ''US'') 0)) = UNION_RULE" by (simp add: demo_employment_def)
  have comp: "isCompliant UNION_RULE (pl_definition p) [\<lparr>sim_employeeId = ''e'', sim_start = 0, sim_end = 21600000\<rparr>]"
    by (simp add: p(2) isCompliant_def findViolations_def checkUnionRule_def numberField_def durationHours_def Let_def)
  have "isCompliant UNION_RULE (cr_definition demo_live_rule) [\<lparr>sim_employeeId = ''e'', sim_start = 0, sim_end = 21600000\<rparr>]"
    using employment_policy_meets_floor[OF p(1), of True 5000 demo_activated "''US''" demo_live_rule
        "[\<lparr>sim_employeeId = ''e'', sim_start = 0, sim_end = 21600000\<rparr>]"] comp demo_active_floor
    unfolding ty by (simp add: demo_floor_clients_def demo_employment_def)
  then show ?thesis using p(1) comp by blast
qed

section \<open>Flaws\<close>

text \<open>
  The endpoint checks the org unit the new version names, not the one of the version it replaces: with a grant for one
  org unit only, a caller ends the tenant-wide policy by \<open>versioning\<close> it into their own unit.
\<close>

lemma scoped_writer_ends_tenant_policy:
  "\<not> isPermittedForOrgUnit (demo_access (Some ''x'')) ''t'' ''u'' ''policy'' ''write'' None"
  "findActiveByType ''t'' RATE_LIMIT 25 demo_policies = Some demo_rate_limit"
  "\<exists>p s'. createOrVersion (demo_access (Some ''x'')) ''t'' ''u'' (demo_policy_dto (Some ''g'') (Some ''x'') 20) ''h'' 0 demo_policies = (Inr p, s')
     \<and> findActiveByType ''t'' RATE_LIMIT 25 s' = None"
proof -
  show "\<not> isPermittedForOrgUnit (demo_access (Some ''x'')) ''t'' ''u'' ''policy'' ''write'' None" by (simp add: demo_access_eval)
  show "findActiveByType ''t'' RATE_LIMIT 25 demo_policies = Some demo_rate_limit"
    by (simp add: findActiveByType_def demo_policies_eval policy_in_force_def) (simp add: demo_rate_limit_def)
  show "\<exists>p s'. createOrVersion (demo_access (Some ''x'')) ''t'' ''u'' (demo_policy_dto (Some ''g'') (Some ''x'') 20) ''h'' 0 demo_policies = (Inr p, s')
     \<and> findActiveByType ''t'' RATE_LIMIT 25 s' = None"
    using demo_policies_eval(1) by (auto simp: policy_eval demo_rate_limit_def findActiveByType_def policy_in_force_def)
qed

text \<open>A policy that has not started yet cannot be taken back: closing it now would end it before its start.\<close>

lemma scheduled_policy_cannot_be_deactivated:
  assumes "lineages_ok (pd_rows s)" "open_version t g s = Some c" "now \<le> pl_effectiveFrom c"
  shows "deactivate_policy t g now s = Inl PolicyConstraintViolated"
proof -
  note c = open_versionD[OF assms(2)]
  have "c\<lparr>pl_effectiveTo := Some now\<rparr> \<in> set (close_version t (pl_id c) now (pd_rows s))"
    using set_close_version[OF lineages_okD(1)[OF assms(1)], of c t now] c by simp
  then have "\<not> policies_constraints (close_version t (pl_id c) now (pd_rows s))"
    using assms(3) by (force simp: policies_constraints_def list_all_iff)
  then show ?thesis using assms(2) by (simp add: deactivate_policy_def write_policies_def)
qed

text \<open>
  With an ORM that drops \<open>null\<close> conditions, the third version of an employment policy may pick the first, closed one:
  its window is stretched over the second version's, and the insert then fails.
\<close>

lemma third_employment_version_corrupts:
  assumes "v1 = employment_row ''t'' (demo_employment None None 0) ''g'' ''g'' 1\<lparr>pl_effectiveTo := Some 100\<rparr>"
    and "v2 = employment_row ''t'' (demo_employment (Some ''g'') None 100) ''h'' ''g'' 2"
  shows "lineages_ok [v1, v2]"
    and "create_employment False True cl ''t'' (demo_employment (Some ''g'') None 200) ''k'' \<lparr>pd_rows = [v1, v2], pd_outbox = []\<rparr> =
      (Inl PolicyConstraintViolated, \<lparr>pd_rows = [v1\<lparr>pl_effectiveTo := Some 200\<rparr>, v2], pd_outbox = []\<rparr>)"
    and "policy_in_force 150 (v1\<lparr>pl_effectiveTo := Some 200\<rparr>) \<and> policy_in_force 150 v2"
proof -
  note ev = assms employment_row_def demo_employment_def
  show "lineages_ok [v1, v2]" by (simp add: ev lineages_ok_def policies_constraints_def same_lineage_def follows_def)
  show "create_employment False True cl ''t'' (demo_employment (Some ''g'') None 200) ''k'' \<lparr>pd_rows = [v1, v2], pd_outbox = []\<rparr> =
      (Inl PolicyConstraintViolated, \<lparr>pd_rows = [v1\<lparr>pl_effectiveTo := Some 200\<rparr>, v2], pd_outbox = []\<rparr>)"
    by (simp add: ev create_employment_def employment_gate_def findOpenVersion_def ts_findOne_def save_employment_def write_policies_def
        close_version_def policies_constraints_def Let_def)
  show "policy_in_force 150 (v1\<lparr>pl_effectiveTo := Some 200\<rparr>) \<and> policy_in_force 150 v2" by (simp add: ev policy_in_force_def)
qed

end
