(* ===== verification/Hub_Model.thy ===== *)
theory Hub_Model
  imports Json_Value Iso_Calendar
begin

text \<open>
  The integration hub's tables and the \<open>SyncJob\<close> lifecycle every synchronisation goes through
  (\<open>sync-jobs.service.ts\<close>): a job is enqueued, marked running, annotated while it is throttled, has its
  counters advanced by a streaming session and is completed exactly through \<open>completeJob\<close>, which also
  announces it on the bus and fans it out to the tenant's webhook subscriptions
  (\<open>webhook-fanout.service.ts\<close>). Identifiers and the clock are arguments; a missing row of
  \<open>findOneByOrFail\<close> is an error value. The bus call and the audit call swallow their failures, so the
  model keeps the requests made.
\<close>

section \<open>Data\<close>

datatype ConnectorType = HRIS | PAYROLL | ACD | CRM | CUSTOM_WEBHOOK | DATABASE
datatype ConnectorStatus = CONN_ACTIVE | CONN_PAUSED | CONN_ERROR | CONN_PENDING_SETUP | CONN_DISABLED
datatype SyncJobStatus = JOB_QUEUED | JOB_RUNNING | JOB_COMPLETED | JOB_FAILED | JOB_PARTIAL_FAILURE | JOB_CANCELLED
datatype SyncType = SYNC_FULL | SYNC_INCREMENTAL | SYNC_STREAMING | SYNC_HISTORICAL

type_synonym json_object = "(string \<times> json) list"

record IntegrationConnector =
  cn_id :: uuid
  cn_tenantId :: uuid
  cn_connectorType :: ConnectorType
  cn_provider :: string
  cn_status :: ConnectorStatus
  cn_config :: json_object
  cn_lastSyncAt :: "millis option"
  cn_lastSyncStatus :: "SyncJobStatus option"

record SyncJob =
  sj_id :: uuid
  sj_tenantId :: uuid
  sj_connectorId :: uuid
  sj_syncType :: SyncType
  sj_status :: SyncJobStatus
  sj_recordsProcessed :: int
  sj_recordsFailed :: int
  sj_recordsConflicted :: "int option"
  sj_errorDetails :: "json_object option"
  sj_startedAt :: millis
  sj_completedAt :: "millis option"
  sj_rateLimitedUntil :: "millis option"
  sj_lastEventAt :: "millis option"
  sj_datasetKey :: "string option"
  sj_range :: "(iso_date \<times> iso_date) option" \<comment> \<open>\<open>rangeStart\<close>, \<open>rangeEnd\<close>\<close>
  sj_recordsFound :: "int option"
  sj_recordsDuplicate :: "int option"

datatype CompletionStatus = DONE_COMPLETED | DONE_FAILED | DONE_PARTIAL_FAILURE
  \<comment> \<open>the three statuses the type of \<open>SyncJobCompletion.status\<close> admits\<close>

record SyncJobCompletion =
  co_status :: CompletionStatus
  co_recordsProcessed :: int
  co_recordsFailed :: int
  co_recordsConflicted :: "int option"
  co_errorDetails :: "json_object option"

datatype HubSubscriptionStatus = HUB_SUB_ACTIVE | HUB_SUB_FAILING | HUB_SUB_DISABLED

record HubSubscription =
  hs_id :: uuid
  hs_tenantId :: uuid
  hs_eventTypes :: "string list"
  hs_status :: HubSubscriptionStatus

record HubDelivery =
  hd_id :: uuid
  hd_tenantId :: uuid
  hd_subscriptionId :: uuid
  hd_eventType :: string
  hd_payload :: SyncJob \<comment> \<open>the job whose fields the payload carries\<close>

record hub_db =
  hub_connectors :: "IntegrationConnector list"
  hub_jobs :: "SyncJob list"
  hub_subscriptions :: "HubSubscription list"
  hub_deliveries :: "HubDelivery list"
  hub_published :: "SyncJob list" \<comment> \<open>messages on \<open>agno.integration_hub.sync_job.completed.v1\<close>\<close>

datatype hub_error =
    ConnectorNotFound uuid
  | EntityNotFound
  | SyncNotSupportedForConnectorType ConnectorType
  | RelayNotSupportedForConnectorType ConnectorType
  | NoActiveRelaySession uuid
  | InvalidHistoricalImportRange
  | HistoricalImportNotFound uuid

definition isBatchConnectorType :: "ConnectorType \<Rightarrow> bool" where
  "isBatchConnectorType t = (t \<in> {HRIS, PAYROLL, CRM})"

definition isStreamingConnectorType :: "ConnectorType \<Rightarrow> bool" where
  "isStreamingConnectorType t = (t = ACD)"

section \<open>The job table\<close>

definition job_key :: "uuid \<Rightarrow> uuid \<Rightarrow> SyncJob \<Rightarrow> bool" where
  "job_key tenantId jobId j = (sj_id j = jobId \<and> sj_tenantId j = tenantId)"

definition update_job :: "uuid \<Rightarrow> uuid \<Rightarrow> (SyncJob \<Rightarrow> SyncJob) \<Rightarrow> 'a hub_db_scheme \<Rightarrow> 'a hub_db_scheme" where
  \<comment> \<open>\<open>manager.update(SyncJob, { id: jobId, tenantId }, ...)\<close>\<close>
  "update_job tenantId jobId f db = db\<lparr>hub_jobs := update_where (job_key tenantId jobId) f (hub_jobs db)\<rparr>"

definition findConnector :: "uuid \<Rightarrow> uuid \<Rightarrow> 'a hub_db_scheme \<Rightarrow> IntegrationConnector option" where
  "findConnector tenantId connectorId db =
     find_where (\<lambda>c. cn_tenantId c = tenantId \<and> cn_id c = connectorId) (hub_connectors db)"

definition new_job :: "uuid \<Rightarrow> uuid \<Rightarrow> uuid \<Rightarrow> SyncType \<Rightarrow> millis \<Rightarrow> SyncJob" where
  "new_job jobId tenantId connectorId syncType now =
     \<lparr>sj_id = jobId, sj_tenantId = tenantId, sj_connectorId = connectorId, sj_syncType = syncType,
      sj_status = JOB_QUEUED, sj_recordsProcessed = 0, sj_recordsFailed = 0, sj_recordsConflicted = None,
      sj_errorDetails = None, sj_startedAt = now, sj_completedAt = None, sj_rateLimitedUntil = None,
      sj_lastEventAt = None, sj_datasetKey = None, sj_range = None, sj_recordsFound = None,
      sj_recordsDuplicate = None\<rparr>"

definition enqueueJob ::
  "uuid \<Rightarrow> millis \<Rightarrow> uuid \<Rightarrow> uuid \<Rightarrow> SyncType \<Rightarrow> 'a hub_db_scheme \<Rightarrow> SyncJob \<times> 'a hub_db_scheme" where
  "enqueueJob jobId now tenantId connectorId syncType db =
     (let j = new_job jobId tenantId connectorId syncType now in (j, db\<lparr>hub_jobs := hub_jobs db @ [j]\<rparr>))"

definition markRunning :: "uuid \<Rightarrow> uuid \<Rightarrow> ('a hub_db_scheme, hub_error, SyncJob) svc" where
  "markRunning tenantId jobId db =
     (let db' = update_job tenantId jobId (sj_status_update (\<lambda>_. JOB_RUNNING)) db
      in case find_where (job_key tenantId jobId) (hub_jobs db') of
           None \<Rightarrow> (Inl EntityNotFound, db)
         | Some j \<Rightarrow> (Inr j, db'))"

definition markRateLimited :: "uuid \<Rightarrow> uuid \<Rightarrow> millis \<Rightarrow> 'a hub_db_scheme \<Rightarrow> 'a hub_db_scheme" where
  "markRateLimited tenantId jobId until = update_job tenantId jobId (sj_rateLimitedUntil_update (\<lambda>_. Some until))"

fun completion_status :: "CompletionStatus \<Rightarrow> SyncJobStatus" where
  "completion_status DONE_COMPLETED = JOB_COMPLETED"
| "completion_status DONE_FAILED = JOB_FAILED"
| "completion_status DONE_PARTIAL_FAILURE = JOB_PARTIAL_FAILURE"

definition complete_row :: "SyncJobCompletion \<Rightarrow> millis \<Rightarrow> SyncJob \<Rightarrow> SyncJob" where
  "complete_row c now j = j\<lparr>sj_status := completion_status (co_status c), sj_recordsProcessed := co_recordsProcessed c,
     sj_recordsFailed := co_recordsFailed c, sj_recordsConflicted := co_recordsConflicted c,
     sj_errorDetails := co_errorDetails c, sj_completedAt := Some now\<rparr>"

definition sync_job_completed :: string where
  "sync_job_completed = ''sync_job.completed''"

definition hubFanOut :: "(nat \<Rightarrow> uuid) \<Rightarrow> uuid \<Rightarrow> string \<Rightarrow> SyncJob \<Rightarrow> 'a hub_db_scheme \<Rightarrow> 'a hub_db_scheme" where
  \<comment> \<open>\<open>WebhookFanoutService.fanOut\<close> with \<open>WebhookDeliveriesService.enqueue\<close>\<close>
  "hubFanOut newId tenantId eventType payload db =
     (let matching = filter (\<lambda>s. hs_tenantId s = tenantId \<and> hs_status s \<noteq> HUB_SUB_DISABLED \<and> eventType \<in> set (hs_eventTypes s))
            (hub_subscriptions db)
      in db\<lparr>hub_deliveries := hub_deliveries db @
           map (\<lambda>(i, s). \<lparr>hd_id = newId i, hd_tenantId = tenantId, hd_subscriptionId = hs_id s, hd_eventType = eventType,
                  hd_payload = payload\<rparr>) (enumerate 0 matching)\<rparr>)"

definition completeJob :: "(nat \<Rightarrow> uuid) \<Rightarrow> millis \<Rightarrow> uuid \<Rightarrow> uuid \<Rightarrow> SyncJobCompletion \<Rightarrow> ('a hub_db_scheme, hub_error, SyncJob) svc" where
  "completeJob newId now tenantId jobId completion db =
     (let db' = update_job tenantId jobId (complete_row completion now) db
      in case find_where (job_key tenantId jobId) (hub_jobs db') of
           None \<Rightarrow> (Inl EntityNotFound, db)
         | Some job \<Rightarrow>
             (Inr job, hubFanOut newId tenantId sync_job_completed job (db'\<lparr>hub_published := hub_published db' @ [job]\<rparr>)))"

definition increment_row :: "int option \<Rightarrow> int option \<Rightarrow> millis \<Rightarrow> SyncJob \<Rightarrow> SyncJob" where
  "increment_row processed failed now j = j\<lparr>sj_recordsProcessed := sj_recordsProcessed j + the_default processed 0,
     sj_recordsFailed := sj_recordsFailed j + the_default failed 0, sj_lastEventAt := Some now\<rparr>"

definition incrementCounts :: "millis \<Rightarrow> uuid \<Rightarrow> uuid \<Rightarrow> int option \<Rightarrow> int option \<Rightarrow> 'a hub_db_scheme \<Rightarrow> 'a hub_db_scheme" where
  \<comment> \<open>an absent or zero delta adds no clause; without a clause there is no update\<close>
  "incrementCounts now tenantId jobId processed failed db =
     (if the_default processed 0 = 0 \<and> the_default failed 0 = 0 then db
      else update_job tenantId jobId (increment_row processed failed now) db)"

definition latest_first :: "SyncJob list \<Rightarrow> SyncJob list" where
  \<comment> \<open>\<open>order: { startedAt: 'DESC' }\<close>\<close>
  "latest_first = js_sort (\<lambda>a b. sj_startedAt b \<le> sj_startedAt a)"

definition findLatestForConnector :: "uuid \<Rightarrow> uuid \<Rightarrow> SyncType option \<Rightarrow> 'a hub_db_scheme \<Rightarrow> SyncJob option" where
  "findLatestForConnector tenantId connectorId syncType db =
     (case latest_first (filter (\<lambda>j. sj_tenantId j = tenantId \<and> sj_connectorId j = connectorId
             \<and> (case syncType of None \<Rightarrow> True | Some t \<Rightarrow> sj_syncType j = t)) (hub_jobs db)) of
        [] \<Rightarrow> None | j # _ \<Rightarrow> Some j)"

definition findHistoryForConnector :: "uuid \<Rightarrow> uuid \<Rightarrow> nat \<Rightarrow> 'a hub_db_scheme \<Rightarrow> SyncJob list" where
  "findHistoryForConnector tenantId connectorId limit db =
     take limit (latest_first (filter (\<lambda>j. sj_tenantId j = tenantId \<and> sj_connectorId j = connectorId) (hub_jobs db)))"

section \<open>What the operations do to the tables\<close>

named_theorems hub_simps \<open>frames and effects of the job operations\<close>

lemma update_job_frame [hub_simps]:
  "hub_connectors (update_job t j f db) = hub_connectors db"
  "hub_subscriptions (update_job t j f db) = hub_subscriptions db"
  "hub_deliveries (update_job t j f db) = hub_deliveries db"
  "hub_published (update_job t j f db) = hub_published db"
  "hub_db.more (update_job t j f db) = hub_db.more db"
  "hub_jobs (update_job t j f db) = update_where (job_key t j) f (hub_jobs db)"
  by (simp_all add: update_job_def)

lemma hubFanOut_frame [hub_simps]:
  "hub_connectors (hubFanOut n t e p db) = hub_connectors db"
  "hub_jobs (hubFanOut n t e p db) = hub_jobs db"
  "hub_published (hubFanOut n t e p db) = hub_published db"
  "hub_subscriptions (hubFanOut n t e p db) = hub_subscriptions db"
  "hub_db.more (hubFanOut n t e p db) = hub_db.more db"
  by (simp_all add: hubFanOut_def Let_def)

text \<open>An update by key that keeps the key leaves the row it is made on, updated, where a lookup finds it.\<close>

lemma find_update_job:
  assumes "\<And>x. sj_id (f x) = sj_id x \<and> sj_tenantId (f x) = sj_tenantId x"
  shows "find_where (job_key t j) (update_where (job_key t j) f rows) = map_option f (find_where (job_key t j) rows)"
  using assms by (induction rows) (auto simp: job_key_def)

lemma find_update_other_job:
  assumes "\<And>x. sj_id (f x) = sj_id x \<and> sj_tenantId (f x) = sj_tenantId x" "j' \<noteq> j"
  shows "find_where (job_key t' j') (update_where (job_key t j) f rows) = find_where (job_key t' j') rows"
  using assms by (induction rows) (auto simp: job_key_def)

lemma markRunning_found:
  "find_where (job_key t j) (hub_jobs db) = Some row \<Longrightarrow>
   markRunning t j db = (Inr (row\<lparr>sj_status := JOB_RUNNING\<rparr>), update_job t j (sj_status_update (\<lambda>_. JOB_RUNNING)) db)"
  by (simp add: markRunning_def find_update_job hub_simps)

lemma completeJob_found:
  "find_where (job_key t j) (hub_jobs db) = Some row \<Longrightarrow>
   completeJob n now t j c db = (Inr (complete_row c now row),
     hubFanOut n t sync_job_completed (complete_row c now row)
       (update_job t j (complete_row c now) db\<lparr>hub_published := hub_published db @ [complete_row c now row]\<rparr>))"
  by (simp add: completeJob_def find_update_job hub_simps complete_row_def)

end
