(* ===== verification/Hub_Rate_Limit.thy ===== *)
theory Hub_Rate_Limit
  imports Hub_Model
begin

text \<open>
  How the integration hub keeps to a provider's limits: the token bucket in front of a synchronisation
  (\<open>rate-limiter.service.ts\<close>) and the retry loop behind a rate-limit response
  (\<open>rate-limit-backoff.ts\<close>). The buckets are a map from the key \<open>tenant:connector\<close>; tokens and the
  refill rate are exact reals, the clock is an argument and may go backwards.
\<close>

section \<open>The token bucket\<close>

record ProviderRateLimitConfig =
  rl_requestsPerWindow :: "int option"
  rl_windowSeconds :: "int option"

record TokenBucket =
  tb_tokens :: real
  tb_capacity :: real
  tb_refillRatePerMs :: real
  tb_lastRefillAtMs :: millis

type_synonym token_buckets = "string \<rightharpoonup> TokenBucket"

datatype RateLimitDecision = Allowed | RetryAfter "int option" \<comment> \<open>milliseconds; \<open>None\<close> is \<open>Infinity\<close>\<close>

definition bucket_key :: "uuid \<Rightarrow> uuid \<Rightarrow> string" where
  "bucket_key tenantId connectorId = tenantId @ '':'' @ connectorId"

definition new_bucket :: "int \<Rightarrow> int \<Rightarrow> millis \<Rightarrow> TokenBucket" where
  "new_bucket capacity windowSeconds now = \<lparr>tb_tokens = real_of_int capacity, tb_capacity = real_of_int capacity,
     tb_refillRatePerMs = real_of_int capacity / (real_of_int windowSeconds * 1000), tb_lastRefillAtMs = now\<rparr>"

definition getOrCreateBucket :: "string \<Rightarrow> int \<Rightarrow> int \<Rightarrow> millis \<Rightarrow> token_buckets \<Rightarrow> TokenBucket" where
  "getOrCreateBucket key capacity windowSeconds now buckets =
     (case buckets key of Some b \<Rightarrow> b | None \<Rightarrow> new_bucket capacity windowSeconds now)"

definition refill :: "millis \<Rightarrow> TokenBucket \<Rightarrow> TokenBucket" where
  "refill now b = (let elapsedMs = now - tb_lastRefillAtMs b
     in if elapsedMs \<le> 0 then b
        else b\<lparr>tb_tokens := min (tb_capacity b) (tb_tokens b + real_of_int elapsedMs * tb_refillRatePerMs b), tb_lastRefillAtMs := now\<rparr>)"

definition take_token :: "TokenBucket \<Rightarrow> RateLimitDecision \<times> TokenBucket" where
  "take_token b = (if 1 \<le> tb_tokens b then (Allowed, b\<lparr>tb_tokens := tb_tokens b - 1\<rparr>)
     else (RetryAfter (if tb_refillRatePerMs b = 0 then None else Some \<lceil>(1 - tb_tokens b) / tb_refillRatePerMs b\<rceil>), b))"

definition tryAcquire ::
  "ProviderRateLimitConfig option \<Rightarrow> millis \<Rightarrow> uuid \<Rightarrow> uuid \<Rightarrow> token_buckets \<Rightarrow> RateLimitDecision \<times> token_buckets" where
  "tryAcquire config now tenantId connectorId buckets =
     (case config of None \<Rightarrow> (Allowed, buckets)
      | Some c \<Rightarrow> (case (rl_requestsPerWindow c, rl_windowSeconds c) of
          (Some capacity, Some windowSeconds) \<Rightarrow>
            let key = bucket_key tenantId connectorId;
                (decision, b) = take_token (refill now (getOrCreateBucket key capacity windowSeconds now buckets))
            in (decision, buckets(key \<mapsto> b))
        | _ \<Rightarrow> (Allowed, buckets)))"

section \<open>Retrying a rate-limited request\<close>

record BackoffStrategy =
  bs_base_ms :: "int option"
  bs_max_retries :: "int option"
  bs_respect_retry_after :: bool

datatype ('e, 'a) attempt_outcome = Result 'a | RateLimited "int option" | Throws 'e

datatype 'e backoff_error = RateLimitExhausted int | AttemptThrew 'e

definition backoff_delay :: "BackoffStrategy \<Rightarrow> nat \<Rightarrow> int option \<Rightarrow> int" where
  "backoff_delay strategy attemptNumber retryAfterMs = (case retryAfterMs of
       Some ms \<Rightarrow> if bs_respect_retry_after strategy then ms else the_default (bs_base_ms strategy) 1000 * 2 ^ attemptNumber
     | None \<Rightarrow> the_default (bs_base_ms strategy) 1000 * 2 ^ attemptNumber)"

function backoff_loop ::
  "BackoffStrategy \<Rightarrow> int \<Rightarrow> (nat \<Rightarrow> ('e, 'a) attempt_outcome) \<Rightarrow> nat \<Rightarrow> ('e backoff_error + 'a) \<times> int list" where
  \<comment> \<open>the result and the delays waited (\<open>onRateLimited\<close> is told of each before the wait)\<close>
  "backoff_loop strategy maxRetries attempt k =
     (if int k \<le> maxRetries
      then case attempt k of
             Result r \<Rightarrow> (Inr r, [])
           | Throws e \<Rightarrow> (Inl (AttemptThrew e), [])
           | RateLimited ra \<Rightarrow>
               if int k = maxRetries then (Inl (RateLimitExhausted maxRetries), [])
               else let (res, delays) = backoff_loop strategy maxRetries attempt (Suc k)
                    in (res, backoff_delay strategy k ra # delays)
      else (Inl (RateLimitExhausted maxRetries), []))"
  by pat_completeness auto
termination
  by (relation "measure (\<lambda>(s, m, a, k). nat (m + 1 - int k))") auto

declare backoff_loop.simps [simp del]

definition withBackoffRetry ::
  "BackoffStrategy \<Rightarrow> (nat \<Rightarrow> ('e, 'a) attempt_outcome) \<Rightarrow> ('e backoff_error + 'a) \<times> int list" where
  "withBackoffRetry strategy attempt = backoff_loop strategy (the_default (bs_max_retries strategy) 3) attempt 0"

section \<open>What the bucket allows\<close>

definition bucket_ok :: "TokenBucket \<Rightarrow> bool" where
  "bucket_ok b \<longleftrightarrow> 0 \<le> tb_tokens b \<and> tb_tokens b \<le> tb_capacity b \<and> 0 \<le> tb_refillRatePerMs b"

definition acquire :: "millis \<Rightarrow> TokenBucket \<Rightarrow> RateLimitDecision \<times> TokenBucket" where
  "acquire now b = take_token (refill now b)"

fun allowed_calls :: "TokenBucket \<Rightarrow> millis list \<Rightarrow> nat" where
  \<comment> \<open>how many of the calls made at the given times the bucket allows\<close>
  "allowed_calls b [] = 0"
| "allowed_calls b (now # ts) = (if fst (acquire now b) = Allowed then 1 else 0) + allowed_calls (snd (acquire now b)) ts"

lemma new_bucket_ok: "0 \<le> capacity \<Longrightarrow> 0 < windowSeconds \<Longrightarrow> bucket_ok (new_bucket capacity windowSeconds now)"
  by (simp add: bucket_ok_def new_bucket_def)

lemma acquire_ok: "bucket_ok b \<Longrightarrow> bucket_ok (snd (acquire now b))"
proof -
  assume b: "bucket_ok b"
  then have "bucket_ok (refill now b)"
    by (auto simp: bucket_ok_def refill_def Let_def)
  then show ?thesis by (auto simp: acquire_def take_token_def bucket_ok_def)
qed

lemma acquire_same: "tb_capacity (snd (acquire now b)) = tb_capacity b" "tb_refillRatePerMs (snd (acquire now b)) = tb_refillRatePerMs b"
  by (simp_all add: acquire_def take_token_def refill_def Let_def)

text \<open>
  The potential of a bucket is its tokens against the time it has accounted for: a call that is allowed
  costs one, time pays the refill rate.
\<close>

lemma acquire_potential:
  assumes "bucket_ok b"
  shows "(if fst (acquire now b) = Allowed then 1 else 0) + tb_tokens (snd (acquire now b)) - tb_refillRatePerMs b * real_of_int (tb_lastRefillAtMs (snd (acquire now b)))
    \<le> tb_tokens b - tb_refillRatePerMs b * real_of_int (tb_lastRefillAtMs b)"
    and "tb_lastRefillAtMs (snd (acquire now b)) = max now (tb_lastRefillAtMs b)"
  using assms by (auto simp: acquire_def take_token_def refill_def Let_def bucket_ok_def algebra_simps min_def max_def)

lemma allowed_calls_bound:
  "bucket_ok b \<Longrightarrow> real (allowed_calls b ts) \<le> tb_tokens b + tb_refillRatePerMs b * real_of_int (Max (set (tb_lastRefillAtMs b # ts)) - tb_lastRefillAtMs b)"
proof (induction ts arbitrary: b)
  case Nil then show ?case by (simp add: bucket_ok_def)
next
  case (Cons now ts)
  define b' where "b' = snd (acquire now b)"
  define m where "m = Max (set (tb_lastRefillAtMs b # now # ts))"
  have "set (tb_lastRefillAtMs b' # ts) = insert (max now (tb_lastRefillAtMs b)) (set ts)"
    using acquire_potential(2)[OF Cons.prems] by (simp add: b'_def)
  then have "Max (set (tb_lastRefillAtMs b' # ts)) = m" unfolding m_def by (cases "ts = []") (auto simp: max.assoc max.left_commute max.commute)
  then have "real (allowed_calls b' ts) \<le> tb_tokens b' + tb_refillRatePerMs b * real_of_int (m - tb_lastRefillAtMs b')"
    using Cons.IH[of b'] acquire_ok[OF Cons.prems] by (simp add: b'_def acquire_same)
  then have "real (allowed_calls b (now # ts)) \<le> tb_tokens b + tb_refillRatePerMs b * real_of_int (m - tb_lastRefillAtMs b)"
    using acquire_potential(1)[OF Cons.prems, of now] by (simp add: b'_def[symmetric] algebra_simps split: if_splits)
  then show ?case by (simp only: m_def)
qed

type_synonym limiter_call = "ProviderRateLimitConfig option \<times> uuid \<times> uuid \<times> millis" \<comment> \<open>the provider's config, tenant, connector, time\<close>

definition limiter_key :: "limiter_call \<Rightarrow> string" where
  "limiter_key call = (case call of (cfg, t, c, now) \<Rightarrow> bucket_key t c)"

definition call_time :: "limiter_call \<Rightarrow> millis" where
  "call_time call = (case call of (cfg, t, c, now) \<Rightarrow> now)"

fun limiter_run :: "token_buckets \<Rightarrow> limiter_call list \<Rightarrow> (limiter_call \<times> RateLimitDecision) list" where
  "limiter_run buckets [] = []"
| "limiter_run buckets ((cfg, t, c, now) # calls) = (case tryAcquire cfg now t c buckets of
     (decision, buckets') \<Rightarrow> ((cfg, t, c, now), decision) # limiter_run buckets' calls)"

definition allowed_for :: "string \<Rightarrow> (limiter_call \<times> RateLimitDecision) list \<Rightarrow> nat" where
  "allowed_for k trace = length (filter (\<lambda>(call, d). limiter_key call = k \<and> d = Allowed) trace)"

definition limit :: "int \<Rightarrow> int \<Rightarrow> ProviderRateLimitConfig option" where
  "limit capacity windowSeconds = Some \<lparr>rl_requestsPerWindow = Some capacity, rl_windowSeconds = Some windowSeconds\<rparr>"

lemma call_simps [simp]: "limiter_key (cfg, t, c, now) = bucket_key t c" "call_time (cfg, t, c, now) = now"
  by (simp_all add: limiter_key_def call_time_def)

lemma allowed_for_simps [simp]:
  "allowed_for k [] = 0"
  "allowed_for k ((call, d) # trace) = (if limiter_key call = k \<and> d = Allowed then 1 else 0) + allowed_for k trace"
  by (simp_all add: allowed_for_def)

lemma tryAcquire_other: "bucket_key t c \<noteq> k \<Longrightarrow> snd (tryAcquire cfg now t c buckets) k = buckets k"
  by (auto simp: tryAcquire_def Let_def split: option.splits prod.splits)

lemma tryAcquire_limit:
  "tryAcquire (limit cap win) now t c buckets =
   (let (d, b) = acquire now (getOrCreateBucket (bucket_key t c) cap win now buckets) in (d, buckets(bucket_key t c \<mapsto> b)))"
  by (simp add: tryAcquire_def limit_def acquire_def Let_def)

definition key_limited :: "string \<Rightarrow> int \<Rightarrow> int \<Rightarrow> limiter_call list \<Rightarrow> bool" where
  \<comment> \<open>every call for the key is made under the same published limit\<close>
  "key_limited k cap win calls = list_all (\<lambda>call. limiter_key call \<noteq> k \<or> fst call = limit cap win) calls"

abbreviation key_times :: "string \<Rightarrow> limiter_call list \<Rightarrow> millis list" where
  "key_times k calls \<equiv> map call_time (filter (\<lambda>call. limiter_key call = k) calls)"

text \<open>Calls for other connectors in between do not matter: the calls of one key see one bucket.\<close>

lemma limiter_run_bucket:
  "key_limited k cap win calls \<Longrightarrow> buckets k = Some b \<Longrightarrow> allowed_for k (limiter_run buckets calls) = allowed_calls b (key_times k calls)"
proof (induction calls arbitrary: buckets b)
  case (Cons call calls)
  obtain cfg t c now where call: "call = (cfg, t, c, now)" by (cases call)
  show ?case
  proof (cases "bucket_key t c = k")
    case True
    then have cfg: "cfg = limit cap win" using Cons.prems(1) by (simp add: key_limited_def call)
    have get: "getOrCreateBucket k cap win now buckets = b" using Cons.prems(2) by (simp add: getOrCreateBucket_def)
    have "allowed_for k (limiter_run (buckets(k \<mapsto> snd (acquire now b))) calls) = allowed_calls (snd (acquire now b)) (key_times k calls)"
      using Cons.prems(1) by (intro Cons.IH) (simp_all add: key_limited_def)
    then show ?thesis
      by (cases "acquire now b") (simp add: call cfg True get tryAcquire_limit)
  next
    case False
    obtain d bs where e: "tryAcquire cfg now t c buckets = (d, bs)" by fastforce
    have "bs k = Some b" using tryAcquire_other[OF False, of cfg now buckets] Cons.prems(2) by (simp add: e)
    then have "allowed_for k (limiter_run bs calls) = allowed_calls b (key_times k calls)"
      using Cons.prems(1) by (intro Cons.IH) (simp_all add: key_limited_def)
    then show ?thesis using False by (simp add: call e)
  qed
qed simp

lemma limiter_run_fresh:
  "key_limited k cap win calls \<Longrightarrow> buckets k = None \<Longrightarrow>
   allowed_for k (limiter_run buckets calls) = (case key_times k calls of [] \<Rightarrow> 0 | t0 # ts \<Rightarrow> allowed_calls (new_bucket cap win t0) (t0 # ts))"
proof (induction calls arbitrary: buckets)
  case (Cons call calls)
  obtain cfg t c now where call: "call = (cfg, t, c, now)" by (cases call)
  show ?case
  proof (cases "bucket_key t c = k")
    case True
    then have cfg: "cfg = limit cap win" using Cons.prems(1) by (simp add: key_limited_def call)
    define b where "b = new_bucket cap win now"
    have get: "getOrCreateBucket k cap win now buckets = b" using Cons.prems(2) by (simp add: getOrCreateBucket_def b_def)
    have "allowed_for k (limiter_run (buckets(k \<mapsto> snd (acquire now b))) calls) = allowed_calls (snd (acquire now b)) (key_times k calls)"
      using Cons.prems(1) by (intro limiter_run_bucket[of k cap win]) (simp_all add: key_limited_def)
    then show ?thesis
      by (cases "acquire now b") (simp add: call cfg True get tryAcquire_limit b_def[symmetric])
  next
    case False
    obtain d bs where e: "tryAcquire cfg now t c buckets = (d, bs)" by fastforce
    have "bs k = None" using tryAcquire_other[OF False, of cfg now buckets] Cons.prems(2) by (simp add: e)
    with Cons.IH[of bs] Cons.prems(1) show ?thesis using False by (simp add: call e key_limited_def)
  qed
qed simp

lemma token_bucket_bound:
  assumes "0 \<le> capacity" "0 < windowSeconds" "buckets k = None" "key_limited k capacity windowSeconds calls"
    and "key_times k calls = t0 # ts"
  shows "real (allowed_for k (limiter_run buckets calls))
    \<le> real_of_int capacity + real_of_int capacity * real_of_int (Max (set (t0 # ts)) - t0) / (1000 * real_of_int windowSeconds)"
proof -
  let ?b = "new_bucket capacity windowSeconds t0"
  have "real (allowed_calls ?b (t0 # ts)) \<le> tb_tokens ?b + tb_refillRatePerMs ?b * real_of_int (Max (set (tb_lastRefillAtMs ?b # t0 # ts)) - tb_lastRefillAtMs ?b)"
    using new_bucket_ok[OF assms(1,2)] by (rule allowed_calls_bound)
  then show ?thesis using limiter_run_fresh[of k capacity windowSeconds calls buckets] assms(3-5) by (simp add: new_bucket_def mult.commute)
qed

text \<open>
  The waiting time the limiter reports is exact: when a synchronisation is refused, one
  made at least that many milliseconds later is allowed, and one made any earlier, with no other call in
  between, is refused again.
\<close>

theorem retry_after_is_exact:
  assumes "bucket_ok b" "1 \<le> tb_capacity b" "tb_lastRefillAtMs b \<le> now" "acquire now b = (RetryAfter (Some ms), b')" "now \<le> now'"
  shows "fst (acquire now' b') = Allowed \<longleftrightarrow> now + ms \<le> now'"
proof -
  define x where "x = tb_tokens (refill now b)"
  define r where "r = tb_refillRatePerMs b"
  have same: "tb_refillRatePerMs (refill now b) = r" "tb_capacity (refill now b) = tb_capacity b" "tb_lastRefillAtMs (refill now b) = now"
    using assms(3) by (simp_all add: refill_def r_def Let_def)
  have x: "x < 1" "r \<noteq> 0" "ms = \<lceil>(1 - x) / r\<rceil>" "b' = refill now b"
    using assms(4) by (auto simp: acquire_def take_token_def same x_def split: if_splits)
  have r: "0 < r" using assms(1) x(2) by (simp add: bucket_ok_def r_def)
  define e where "e = now' - now"
  have "fst (acquire now' b') = Allowed \<longleftrightarrow> 1 \<le> x + real_of_int e * r"
    using assms(2,5) x(1) by (simp add: acquire_def take_token_def refill_def[of now'] x(4) same x_def[symmetric] Let_def e_def min_def)
  also have "\<dots> \<longleftrightarrow> (1 - x) / r \<le> real_of_int e" using r by (simp add: pos_divide_le_eq algebra_simps)
  also have "\<dots> \<longleftrightarrow> ms \<le> e" by (simp add: x(3) ceiling_le_iff)
  finally show ?thesis by (auto simp: e_def)
qed

theorem retry_after_is_exact_witness:
  "fst (acquire 600 \<lparr>tb_tokens = 0, tb_capacity = 2, tb_refillRatePerMs = 1 / 500, tb_lastRefillAtMs = 100\<rparr>) = Allowed \<longleftrightarrow> 100 + 500 \<le> (600::int)"
proof (rule retry_after_is_exact)
  let ?b = "\<lparr>tb_tokens = 0, tb_capacity = 2, tb_refillRatePerMs = 1 / 500, tb_lastRefillAtMs = 100\<rparr>"
  show "acquire 100 ?b = (RetryAfter (Some 500), ?b)" by (simp add: acquire_def take_token_def refill_def)
qed (simp_all add: bucket_ok_def)

section \<open>What the retry loop does\<close>

fun is_limited :: "('e, 'a) attempt_outcome \<Rightarrow> bool" where
  "is_limited (RateLimited _) = True"
| "is_limited _ = False"

lemma backoff_loop_step:
  "backoff_loop s m attempt k = (if int k < m \<and> is_limited (attempt k)
     then (fst (backoff_loop s m attempt (Suc k)),
           backoff_delay s k (case attempt k of RateLimited ra \<Rightarrow> ra) # snd (backoff_loop s m attempt (Suc k)))
     else (if int k \<le> m then case attempt k of Result r \<Rightarrow> Inr r | Throws e \<Rightarrow> Inl (AttemptThrew e)
             | RateLimited ra \<Rightarrow> Inl (RateLimitExhausted m) else Inl (RateLimitExhausted m), []))"
  by (subst backoff_loop.simps) (auto split: attempt_outcome.splits prod.splits)

lemma limited_from_step:
  "is_limited (attempt k) \<Longrightarrow> (\<forall>i. k \<le> i \<and> i < n \<longrightarrow> is_limited (attempt i)) \<longleftrightarrow> (\<forall>i. Suc k \<le> i \<and> i < n \<longrightarrow> is_limited (attempt i))"
  by (metis Suc_leD le_antisym not_less_eq_eq)

lemma backoff_loop_result:
  "fst (backoff_loop s m attempt k) = Inr r \<longleftrightarrow>
   (\<exists>n\<ge>k. int n \<le> m \<and> attempt n = Result r \<and> (\<forall>i. k \<le> i \<and> i < n \<longrightarrow> is_limited (attempt i)))"
proof (induction "nat (m - int k)" arbitrary: k)
  case 0
  then have "n \<ge> k \<and> int n \<le> m \<longleftrightarrow> n = k \<and> int k \<le> m" for n by linarith
  then show ?case using 0 by (auto simp: backoff_loop_step[of s m attempt k] split: attempt_outcome.splits)
next
  case (Suc d)
  then have lt: "int k < m" by linarith
  show ?case
  proof (cases "is_limited (attempt k)")
    case True
    have ne: "n \<ge> k \<and> attempt n = Result r \<longleftrightarrow> n \<ge> Suc k \<and> attempt n = Result r" for n
      using True by (cases "n = k") auto
    have "fst (backoff_loop s m attempt k) = fst (backoff_loop s m attempt (Suc k))"
      using True lt by (simp add: backoff_loop_step[of s m attempt k])
    with Suc(1)[of "Suc k"] Suc(2) show ?thesis
      by (simp add: limited_from_step[of attempt k, OF True]) (use ne in blast)
  next
    case False
    then have "n \<ge> k \<and> (\<forall>i. k \<le> i \<and> i < n \<longrightarrow> is_limited (attempt i)) \<longleftrightarrow> n = k" for n by (metis le_less less_irrefl not_less order_refl)
    then have "(\<exists>n\<ge>k. int n \<le> m \<and> attempt n = Result r \<and> (\<forall>i. k \<le> i \<and> i < n \<longrightarrow> is_limited (attempt i))) \<longleftrightarrow> int k \<le> m \<and> attempt k = Result r"
      by metis
    then show ?thesis using False by (auto simp: backoff_loop_step[of s m attempt k] split: attempt_outcome.splits)
  qed
qed

lemma backoff_loop_exhausted:
  "fst (backoff_loop s m attempt k) = Inl (RateLimitExhausted n) \<longleftrightarrow> n = m \<and> (\<forall>i\<ge>k. int i \<le> m \<longrightarrow> is_limited (attempt i))"
proof (induction "nat (m - int k)" arbitrary: k)
  case 0
  then have "i \<ge> k \<and> int i \<le> m \<longleftrightarrow> i = k \<and> int k \<le> m" for i by linarith
  then show ?case using 0 by (auto simp: backoff_loop_step[of s m attempt k] split: attempt_outcome.splits)
next
  case (Suc d)
  then have lt: "int k < m" by linarith
  show ?case
  proof (cases "is_limited (attempt k)")
    case True
    have "(\<forall>i\<ge>k. int i \<le> m \<longrightarrow> is_limited (attempt i)) \<longleftrightarrow> (\<forall>i\<ge>Suc k. int i \<le> m \<longrightarrow> is_limited (attempt i))"
      using True by (metis Suc_leD le_antisym not_less_eq_eq)
    then show ?thesis using True lt Suc by (simp add: backoff_loop_step[of s m attempt k])
  next
    case False
    then show ?thesis using Suc(2) by (auto simp: backoff_loop_step[of s m attempt k] split: attempt_outcome.splits)
  qed
qed

lemma backoff_loop_waits: "int (length (snd (backoff_loop s m attempt k))) \<le> max 0 (m - int k)"
proof (induction s m attempt k rule: backoff_loop.induct)
  case (1 s m attempt k)
  show ?case
  proof (cases "int k < m \<and> is_limited (attempt k)")
    case True
    then obtain ra where "attempt k = RateLimited ra" by (cases "attempt k") auto
    with True 1[of ra] show ?thesis by (auto simp: backoff_loop.simps[of s m attempt k] split: prod.splits)
  next
    case False
    then have "snd (backoff_loop s m attempt k) = []"
      by (auto simp: backoff_loop.simps[of s m attempt k] split: attempt_outcome.splits)
    then show ?thesis by simp
  qed
qed

text \<open>
  Retrying after rate-limit responses returns the first result, provided every earlier
  attempt was rate-limited and no more than the configured number of retries was needed; it reports
  exhaustion exactly when all permitted attempts were rate-limited, and it waits at most once per retry.
\<close>

theorem backoff_retry_spec:
  assumes "m = the_default (bs_max_retries strategy) 3"
  shows "(fst (withBackoffRetry strategy attempt) = Inr r
      \<longleftrightarrow> (\<exists>n. int n \<le> m \<and> attempt n = Result r \<and> (\<forall>i<n. is_limited (attempt i))))
    \<and> (fst (withBackoffRetry strategy attempt) = Inl (RateLimitExhausted k) \<longleftrightarrow> k = m \<and> (\<forall>i. int i \<le> m \<longrightarrow> is_limited (attempt i)))
    \<and> int (length (snd (withBackoffRetry strategy attempt))) \<le> max 0 m"
  using backoff_loop_waits[of strategy m attempt 0]
  by (simp add: withBackoffRetry_def assms[symmetric] backoff_loop_result backoff_loop_exhausted)

theorem backoff_retry_spec_witness:
  "(fst (withBackoffRetry \<lparr>bs_base_ms = Some 1000, bs_max_retries = Some 2, bs_respect_retry_after = True\<rparr>
       (\<lambda>n. if n = 0 then RateLimited (Some 7) else Result ''page'')) = (Inr ''page'' :: string backoff_error + string))
   \<and> length (snd (withBackoffRetry \<lparr>bs_base_ms = Some 1000, bs_max_retries = Some 2, bs_respect_retry_after = True\<rparr>
       (\<lambda>n. if n = 0 then RateLimited (Some 7) else Result ''page'' :: (string, string) attempt_outcome))) \<le> 2"
proof -
  let ?s = "\<lparr>bs_base_ms = Some 1000, bs_max_retries = Some 2, bs_respect_retry_after = True\<rparr>"
  let ?a = "\<lambda>n::nat. if n = 0 then RateLimited (Some 7) else Result ''page'' :: (string, string) attempt_outcome"
  have "\<exists>n. int n \<le> 2 \<and> ?a n = Result ''page'' \<and> (\<forall>i<n. is_limited (?a i))" by (intro exI[of _ 1]) simp
  then show ?thesis using backoff_retry_spec[of 2 ?s ?a "''page''"] by simp
qed

text \<open>Without a provider's hint the waits double from the base.\<close>

lemma backoff_delays_double:
  assumes "\<not> bs_respect_retry_after s"
  shows "snd (backoff_loop s m attempt k) = map (\<lambda>i. the_default (bs_base_ms s) 1000 * 2 ^ i) [k..<k + length (snd (backoff_loop s m attempt k))]"
  using assms
proof (induction s m attempt k rule: backoff_loop.induct)
  case (1 s m attempt k)
  show ?case
  proof (cases "int k < m \<and> is_limited (attempt k)")
    case True
    then obtain ra where ra: "attempt k = RateLimited ra" by (cases "attempt k") auto
    obtain res ds where e: "backoff_loop s m attempt (Suc k) = (res, ds)" by fastforce
    have "ds = map (\<lambda>i. the_default (bs_base_ms s) 1000 * 2 ^ i) [Suc k..<Suc k + length ds]"
      using True 1(1)[of ra] ra e 1(2) by simp
    moreover have "backoff_delay s k ra = the_default (bs_base_ms s) 1000 * 2 ^ k"
      using 1(2) by (simp add: backoff_delay_def split: option.splits)
    ultimately show ?thesis using True
      by (simp add: backoff_loop.simps[of s m attempt k] ra e upt_rec[of k] del: upt_Suc)
  next
    case False
    then have "snd (backoff_loop s m attempt k) = []"
      by (auto simp: backoff_loop.simps[of s m attempt k] split: attempt_outcome.splits)
    then show ?thesis by simp
  qed
qed

end
