(* ===== verification/Hub_Backfill.thy ===== *)
theory Hub_Backfill
  imports Hub_Model Utc_Date "HOL-Library.List_Lexorder" "HOL-Library.Char_ord"
begin

text \<open>
  Historical imports (\<open>historical-backfill-runner.service.ts\<close>): the date range of a job is cut into
  chunks of seven days, a cron tick processes at most one queued chunk of every due job, a failed chunk
  stops its job until \<open>resume\<close> or \<open>retryChunk\<close> requeues it, and \<open>cancel\<close> withdraws what has not been
  processed. \<open>processChunk\<close> is its two transactions with the provider call between them, \<open>claimChunk\<close>
  and \<open>finishChunk\<close>, so that requests can be interleaved with a running fetch. The provider adapters
  are a parameter (the registry); dates are calendar dates, the strings \<open>YYYY-MM-DD\<close>.
\<close>

section \<open>Data\<close>

datatype HistoricalBackfillChunkStatus = CHUNK_QUEUED | CHUNK_RUNNING | CHUNK_COMPLETED | CHUNK_FAILED | CHUNK_CANCELLED

record HistoricalBackfillChunk =
  bc_id :: uuid
  bc_tenantId :: uuid
  bc_syncJobId :: uuid
  bc_chunkIndex :: nat
  bc_rangeStart :: iso_date
  bc_rangeEnd :: iso_date
  bc_status :: HistoricalBackfillChunkStatus
  bc_checkpointCursor :: "json_object option"
  bc_recordsFound :: int
  bc_recordsProcessed :: int
  bc_recordsFailed :: int
  bc_recordsDuplicate :: int
  bc_errorDetails :: "json_object option"
  bc_startedAt :: "millis option"
  bc_completedAt :: "millis option"

record HistoricalRecord =
  hr_id :: uuid
  hr_tenantId :: uuid
  hr_syncJobId :: uuid
  hr_chunkId :: uuid
  hr_rawData :: json_object
  hr_fetchedAt :: millis

record backfill_db = hub_db +
  hub_chunks :: "HistoricalBackfillChunk list"
  hub_records :: "HistoricalRecord list"
  hub_audit :: "(uuid \<times> string \<times> uuid) list" \<comment> \<open>tenant, action, resource\<close>

record HistoricalChunkOutcome =
  oc_completed :: bool \<comment> \<open>\<open>status === 'completed'\<close>\<close>
  oc_recordsFound :: int
  oc_recordsProcessed :: int
  oc_recordsFailed :: int
  oc_recordsDuplicate :: int
  oc_checkpointCursor :: "json_object option"
  oc_records :: "json_object list option"
  oc_errorDetails :: "json_object option"

type_synonym hist_adapter =
  "IntegrationConnector \<Rightarrow> string \<Rightarrow> iso_date \<Rightarrow> iso_date \<Rightarrow> json_object option \<Rightarrow> string + HistoricalChunkOutcome"
type_synonym hist_registry = "string \<Rightarrow> hist_adapter option"

section \<open>Cutting the range\<close>

definition CHUNK_SIZE_DAYS :: int where
  "CHUNK_SIZE_DAYS = 7"

function chunk_loop :: "int \<Rightarrow> int \<Rightarrow> (iso_date \<times> iso_date) list" where
  \<comment> \<open>the \<open>while (cursor <= end)\<close> of \<open>buildChunkRanges\<close>, on day numbers\<close>
  "chunk_loop cursor stop =
     (if cursor \<le> stop
      then let chunkEnd = min (cursor + CHUNK_SIZE_DAYS - 1) stop
           in (date_of cursor, date_of chunkEnd) # chunk_loop (chunkEnd + 1) stop
      else [])"
  by pat_completeness auto
termination
  by (relation "measure (\<lambda>(cursor, stop). nat (stop + 1 - cursor))") (auto simp: CHUNK_SIZE_DAYS_def)

declare chunk_loop.simps [simp del]

definition buildChunkRanges :: "iso_date \<Rightarrow> iso_date \<Rightarrow> (iso_date \<times> iso_date) list" where
  "buildChunkRanges rangeStart rangeEnd = chunk_loop (dayno rangeStart) (dayno rangeEnd)"

section \<open>Operations\<close>

definition chunk_of :: "uuid \<Rightarrow> uuid \<Rightarrow> HistoricalBackfillChunk \<Rightarrow> bool" where
  "chunk_of tenantId jobId c = (bc_tenantId c = tenantId \<and> bc_syncJobId c = jobId)"

definition chunk_key :: "uuid \<Rightarrow> uuid \<Rightarrow> HistoricalBackfillChunk \<Rightarrow> bool" where
  "chunk_key tenantId chunkId c = (bc_id c = chunkId \<and> bc_tenantId c = tenantId)"

definition update_chunks ::
  "(HistoricalBackfillChunk \<Rightarrow> bool) \<Rightarrow> (HistoricalBackfillChunk \<Rightarrow> HistoricalBackfillChunk) \<Rightarrow> backfill_db \<Rightarrow> backfill_db" where
  "update_chunks P f db = db\<lparr>hub_chunks := update_where P f (hub_chunks db)\<rparr>"

definition audit_request :: "uuid \<Rightarrow> string \<Rightarrow> uuid \<Rightarrow> backfill_db \<Rightarrow> backfill_db" where
  "audit_request tenantId action resourceId db = db\<lparr>hub_audit := hub_audit db @ [(tenantId, action, resourceId)]\<rparr>"

definition findJob :: "uuid \<Rightarrow> uuid \<Rightarrow> backfill_db \<Rightarrow> hub_error + SyncJob" where
  "findJob tenantId jobId db =
     (case find_where (\<lambda>j. job_key tenantId jobId j \<and> sj_syncType j = SYNC_HISTORICAL) (hub_jobs db) of
        None \<Rightarrow> Inl (HistoricalImportNotFound jobId) | Some j \<Rightarrow> Inr j)"

definition failJobUnsupported :: "millis \<Rightarrow> uuid \<Rightarrow> uuid \<Rightarrow> string \<Rightarrow> backfill_db \<Rightarrow> backfill_db" where
  "failJobUnsupported now tenantId jobId provider db =
     update_chunks (\<lambda>c. chunk_of tenantId jobId c \<and> bc_status c = CHUNK_QUEUED) (bc_status_update (\<lambda>_. CHUNK_CANCELLED))
       (update_job tenantId jobId (\<lambda>j. j\<lparr>sj_status := JOB_FAILED, sj_completedAt := Some now,
          sj_errorDetails := Some [(''reason'', JStr ''historical_import_not_supported''), (''provider'', JStr provider),
            (''code'', JStr ''HISTORICAL_IMPORT_NOT_SUPPORTED'')]\<rparr>) db)"

definition new_chunk :: "(nat \<Rightarrow> uuid) \<Rightarrow> uuid \<Rightarrow> uuid \<Rightarrow> nat \<Rightarrow> iso_date \<times> iso_date \<Rightarrow> HistoricalBackfillChunk" where
  "new_chunk newId tenantId jobId index r =
     \<lparr>bc_id = newId index, bc_tenantId = tenantId, bc_syncJobId = jobId, bc_chunkIndex = index,
      bc_rangeStart = fst r, bc_rangeEnd = snd r, bc_status = CHUNK_QUEUED, bc_checkpointCursor = None,
      bc_recordsFound = 0, bc_recordsProcessed = 0, bc_recordsFailed = 0, bc_recordsDuplicate = 0,
      bc_errorDetails = None, bc_startedAt = None, bc_completedAt = None\<rparr>"

definition historical_job :: "uuid \<Rightarrow> millis \<Rightarrow> uuid \<Rightarrow> uuid \<Rightarrow> string \<Rightarrow> iso_date \<Rightarrow> iso_date \<Rightarrow> SyncJob" where
  "historical_job jobId now tenantId connectorId datasetKey rangeStart rangeEnd =
     (new_job jobId tenantId connectorId SYNC_HISTORICAL now)
       \<lparr>sj_recordsFound := Some 0, sj_recordsDuplicate := Some 0, sj_datasetKey := Some datasetKey,
        sj_range := Some (rangeStart, rangeEnd)\<rparr>"

definition startImport ::
  "hist_registry \<Rightarrow> uuid \<Rightarrow> (nat \<Rightarrow> uuid) \<Rightarrow> millis \<Rightarrow> uuid \<Rightarrow> uuid \<Rightarrow> string \<Rightarrow> iso_date \<Rightarrow> iso_date \<Rightarrow>
   (backfill_db, hub_error, SyncJob) svc" where
  "startImport registry jobId newId now tenantId connectorId datasetKey rangeStart rangeEnd db =
     (if rangeEnd < rangeStart then (Inl InvalidHistoricalImportRange, db)
      else case findConnector tenantId connectorId db of
        None \<Rightarrow> (Inl (ConnectorNotFound connectorId), db)
      | Some connector \<Rightarrow>
          let db1 = db\<lparr>hub_jobs := hub_jobs db @ [historical_job jobId now tenantId connectorId datasetKey rangeStart rangeEnd],
                hub_chunks := hub_chunks db @ map (\<lambda>(index, r). new_chunk newId tenantId jobId index r)
                  (enumerate 0 (buildChunkRanges rangeStart rangeEnd))\<rparr>;
              db2 = audit_request tenantId ''historical_import.started'' jobId db1;
              db3 = (if registry (cn_provider connector) = None
                     then failJobUnsupported now tenantId jobId (cn_provider connector) db2 else db2)
          in (findJob tenantId jobId db3, db3))"

definition retryChunk :: "uuid \<Rightarrow> uuid \<Rightarrow> (backfill_db, hub_error, HistoricalBackfillChunk) svc" where
  "retryChunk tenantId chunkId db = (case find_where (chunk_key tenantId chunkId) (hub_chunks db) of
       None \<Rightarrow> (Inl (HistoricalImportNotFound chunkId), db)
     | Some chunk \<Rightarrow>
         let db1 = update_chunks (chunk_key tenantId chunkId) (\<lambda>c. c\<lparr>bc_status := CHUNK_QUEUED, bc_errorDetails := None\<rparr>) db;
             db2 = update_job tenantId (bc_syncJobId chunk) (\<lambda>j. j\<lparr>sj_status := JOB_RUNNING, sj_completedAt := None\<rparr>) db1
         in (Inr (chunk\<lparr>bc_status := CHUNK_QUEUED, bc_errorDetails := None\<rparr>),
             audit_request tenantId ''historical_import.chunk_retried'' chunkId db2))"

definition resumeImport :: "uuid \<Rightarrow> uuid \<Rightarrow> (backfill_db, hub_error, SyncJob) svc" where
  "resumeImport tenantId jobId db = (case findJob tenantId jobId db of
       Inl e \<Rightarrow> (Inl e, db)
     | Inr _ \<Rightarrow>
         let db1 = update_chunks (\<lambda>c. chunk_of tenantId jobId c \<and> bc_status c = CHUNK_FAILED)
               (\<lambda>c. c\<lparr>bc_status := CHUNK_QUEUED, bc_errorDetails := None\<rparr>) db;
             db2 = update_job tenantId jobId (\<lambda>j. j\<lparr>sj_status := JOB_RUNNING, sj_completedAt := None\<rparr>) db1;
             db3 = audit_request tenantId ''historical_import.resumed'' jobId db2
         in (findJob tenantId jobId db3, db3))"

definition cancelImport :: "millis \<Rightarrow> uuid \<Rightarrow> uuid \<Rightarrow> (backfill_db, hub_error, SyncJob) svc" where
  "cancelImport now tenantId jobId db = (case findJob tenantId jobId db of
       Inl e \<Rightarrow> (Inl e, db)
     | Inr _ \<Rightarrow>
         let db1 = update_chunks (\<lambda>c. chunk_of tenantId jobId c \<and> bc_status c = CHUNK_QUEUED) (bc_status_update (\<lambda>_. CHUNK_CANCELLED)) db;
             db2 = update_chunks (\<lambda>c. chunk_of tenantId jobId c \<and> bc_status c = CHUNK_RUNNING) (bc_status_update (\<lambda>_. CHUNK_CANCELLED)) db1;
             db3 = update_job tenantId jobId (\<lambda>j. j\<lparr>sj_status := JOB_CANCELLED, sj_completedAt := Some now\<rparr>) db2;
             db4 = audit_request tenantId ''historical_import.cancelled'' jobId db3
         in (findJob tenantId jobId db4, db4))"

section \<open>The runner\<close>

type_synonym due_chunk = "uuid \<times> uuid \<times> uuid" \<comment> \<open>tenant, job, chunk\<close>

definition due :: "backfill_db \<Rightarrow> HistoricalBackfillChunk \<Rightarrow> bool" where
  "due db c = (bc_status c = CHUNK_QUEUED \<and> (\<exists>j\<in>set (hub_jobs db). sj_id j = bc_syncJobId c
     \<and> sj_syncType j = SYNC_HISTORICAL \<and> sj_status j \<in> {JOB_QUEUED, JOB_RUNNING}))"

function distinct_on :: "('a \<Rightarrow> 'k) \<Rightarrow> 'a list \<Rightarrow> 'a list" where
  \<comment> \<open>\<open>SELECT DISTINCT ON (k)\<close>: the first row of every key\<close>
  "distinct_on k [] = []"
| "distinct_on k (x # xs) = x # distinct_on k (filter (\<lambda>y. k y \<noteq> k x) xs)"
  by pat_completeness auto
termination
  by (relation "measure (\<lambda>(k, xs). length xs)") (auto simp: le_imp_less_Suc)

definition findDueChunks :: "backfill_db \<Rightarrow> due_chunk list" where
  "findDueChunks db = map (\<lambda>c. (bc_tenantId c, bc_syncJobId c, bc_id c))
     (distinct_on bc_syncJobId
       (js_sort (\<lambda>a b. bc_syncJobId a < bc_syncJobId b \<or> bc_syncJobId a = bc_syncJobId b \<and> bc_chunkIndex a \<le> bc_chunkIndex b)
         (filter (due db) (hub_chunks db))))"

datatype chunk_claim = NotClaimed | Claimed SyncJob IntegrationConnector hist_adapter HistoricalBackfillChunk

definition claimChunk :: "hist_registry \<Rightarrow> millis \<Rightarrow> due_chunk \<Rightarrow> (backfill_db, hub_error, chunk_claim) svc" where
  "claimChunk registry now item db = (case item of (tenantId, jobId, chunkId) \<Rightarrow>
     (case findJob tenantId jobId db of
        Inl e \<Rightarrow> (Inl e, db)
      | Inr job \<Rightarrow> (case findConnector tenantId (sj_connectorId job) db of
          None \<Rightarrow> (Inr NotClaimed, db)
        | Some connector \<Rightarrow> (case registry (cn_provider connector) of
            None \<Rightarrow> (Inr NotClaimed, failJobUnsupported now tenantId jobId (cn_provider connector) db)
          | Some adapter \<Rightarrow>
              let db1 = update_chunks (chunk_key tenantId chunkId) (\<lambda>c. c\<lparr>bc_status := CHUNK_RUNNING, bc_startedAt := Some now\<rparr>)
                    (update_job tenantId jobId (sj_status_update (\<lambda>_. JOB_RUNNING)) db)
              in case find_where (chunk_key tenantId chunkId) (hub_chunks db1) of
                   None \<Rightarrow> (Inl EntityNotFound, db)
                 | Some chunk \<Rightarrow> (Inr (Claimed job connector adapter chunk), db1)))))"

definition fetch_outcome :: "hist_adapter \<Rightarrow> IntegrationConnector \<Rightarrow> SyncJob \<Rightarrow> HistoricalBackfillChunk \<Rightarrow> HistoricalChunkOutcome" where
  \<comment> \<open>an adapter that throws is a failed outcome\<close>
  "fetch_outcome adapter connector job chunk =
     (case adapter connector (the_default (sj_datasetKey job) '''') (bc_rangeStart chunk) (bc_rangeEnd chunk) (bc_checkpointCursor chunk) of
        Inr outcome \<Rightarrow> outcome
      | Inl message \<Rightarrow> \<lparr>oc_completed = False, oc_recordsFound = 0, oc_recordsProcessed = 0, oc_recordsFailed = 0,
          oc_recordsDuplicate = 0, oc_checkpointCursor = None, oc_records = None,
          oc_errorDetails = Some [(''reason'', JStr ''adapter_threw''), (''message'', JStr message)]\<rparr>)"

definition chunk_result :: "HistoricalChunkOutcome \<Rightarrow> millis \<Rightarrow> HistoricalBackfillChunk \<Rightarrow> HistoricalBackfillChunk" where
  "chunk_result outcome now c = c\<lparr>bc_status := (if oc_completed outcome then CHUNK_COMPLETED else CHUNK_FAILED),
     bc_recordsFound := oc_recordsFound outcome, bc_recordsProcessed := oc_recordsProcessed outcome,
     bc_recordsFailed := oc_recordsFailed outcome, bc_recordsDuplicate := oc_recordsDuplicate outcome,
     bc_checkpointCursor := oc_checkpointCursor outcome, bc_errorDetails := oc_errorDetails outcome,
     bc_completedAt := Some now\<rparr>"

definition job_result :: "SyncJob \<Rightarrow> HistoricalChunkOutcome \<Rightarrow> nat \<Rightarrow> millis \<Rightarrow> SyncJob \<Rightarrow> SyncJob" where
  \<comment> \<open>\<open>jobUpdate\<close>: the totals are those of the job read before the fetch plus the outcome\<close>
  "job_result job outcome remaining now j =
     (let j' = j\<lparr>sj_recordsFound := Some (the_default (sj_recordsFound job) 0 + oc_recordsFound outcome),
            sj_recordsProcessed := sj_recordsProcessed job + oc_recordsProcessed outcome,
            sj_recordsFailed := sj_recordsFailed job + oc_recordsFailed outcome,
            sj_recordsDuplicate := Some (the_default (sj_recordsDuplicate job) 0 + oc_recordsDuplicate outcome)\<rparr>
      in if \<not> oc_completed outcome
         then j'\<lparr>sj_status := JOB_FAILED, sj_completedAt := Some now, sj_errorDetails := oc_errorDetails outcome\<rparr>
         else if remaining = 0 then j'\<lparr>sj_status := JOB_COMPLETED, sj_completedAt := Some now\<rparr>
         else j')"

definition land_records :: "(nat \<Rightarrow> uuid) \<Rightarrow> millis \<Rightarrow> due_chunk \<Rightarrow> HistoricalChunkOutcome \<Rightarrow> backfill_db \<Rightarrow> backfill_db" where
  "land_records newId now item outcome db = (case item of (tenantId, jobId, chunkId) \<Rightarrow>
     db\<lparr>hub_records := hub_records db @ map (\<lambda>(i, raw). \<lparr>hr_id = newId i, hr_tenantId = tenantId, hr_syncJobId = jobId,
          hr_chunkId = chunkId, hr_rawData = raw, hr_fetchedAt = now\<rparr>) (enumerate 0 (the_default (oc_records outcome) []))\<rparr>)"

definition finishChunk :: "(nat \<Rightarrow> uuid) \<Rightarrow> millis \<Rightarrow> due_chunk \<Rightarrow> SyncJob \<Rightarrow> HistoricalChunkOutcome \<Rightarrow> backfill_db \<Rightarrow> backfill_db" where
  "finishChunk newId now item job outcome db = (case item of (tenantId, jobId, chunkId) \<Rightarrow>
     let db1 = update_chunks (chunk_key tenantId chunkId) (chunk_result outcome now) db;
         remaining = length (filter (\<lambda>c. chunk_of tenantId jobId c \<and> bc_status c = CHUNK_QUEUED) (hub_chunks db1));
         db2 = update_job tenantId jobId (job_result job outcome remaining now) db1
     in land_records newId now item outcome db2)"

definition processChunk :: "hist_registry \<Rightarrow> (nat \<Rightarrow> uuid) \<Rightarrow> millis \<Rightarrow> due_chunk \<Rightarrow> backfill_db \<Rightarrow> backfill_db" where
  \<comment> \<open>an error is logged by the tick and has no effect of its own\<close>
  "processChunk registry newId now item db = (case claimChunk registry now item db of
       (Inr (Claimed job connector adapter chunk), db1) \<Rightarrow>
         finishChunk newId now item job (fetch_outcome adapter connector job chunk) db1
     | (_, db1) \<Rightarrow> db1)"

definition backfillTick :: "hist_registry \<Rightarrow> (nat \<Rightarrow> nat \<Rightarrow> uuid) \<Rightarrow> millis \<Rightarrow> backfill_db \<Rightarrow> backfill_db" where
  "backfillTick registry newId now db =
     foldl (\<lambda>d (i, item). processChunk registry (newId i) now item d) db (enumerate 0 (findDueChunks db))"

section \<open>The chunks cover the range\<close>

definition days_of :: "iso_date \<times> iso_date \<Rightarrow> int list" where
  \<comment> \<open>the day numbers of a range of dates\<close>
  "days_of r = [dayno (fst r)..dayno (snd r)]"

definition tiles :: "(iso_date \<times> iso_date) list \<Rightarrow> iso_date \<Rightarrow> iso_date \<Rightarrow> bool" where
  \<comment> \<open>the ranges, one after the other, are the days from \<open>a\<close> to \<open>b\<close>\<close>
  "tiles rs a b \<longleftrightarrow> concat (map days_of rs) = [dayno a..dayno b]"

lemma chunk_loop_days: "concat (map days_of (chunk_loop c e)) = [c..e]"
proof (induction c e rule: chunk_loop.induct)
  case (1 c e)
  show ?case
  proof (cases "c \<le> e")
    case True
    define d where "d = min (c + CHUNK_SIZE_DAYS - 1) e"
    have "c \<le> d" "d \<le> e" using True by (simp_all add: d_def CHUNK_SIZE_DAYS_def)
    then have "[c..d] @ [d + 1..e] = [c..e]" using upto_split2[of c "d" e] by simp
    moreover have "concat (map days_of (chunk_loop (d + 1) e)) = [d + 1..e]" using 1[OF True d_def] by simp
    moreover have "days_of (date_of c, date_of d) = [c..d]" by (simp add: days_of_def)
    ultimately show ?thesis using True by (simp add: chunk_loop.simps[of c e] d_def Let_def)
  qed (simp add: chunk_loop.simps[of c e])
qed

lemma chunk_loop_sizes:
  "r \<in> set (chunk_loop c e) \<Longrightarrow> valid_date (fst r) \<and> valid_date (snd r) \<and> fst r \<le> snd r \<and> length (days_of r) \<le> 7"
proof (induction c e rule: chunk_loop.induct)
  case (1 c e)
  define d where "d = min (c + CHUNK_SIZE_DAYS - 1) e"
  from "1.prems" have "c \<le> e" "r = (date_of c, date_of d) \<or> r \<in> set (chunk_loop (d + 1) e)"
    by (auto simp: chunk_loop.simps[of c e] d_def Let_def split: if_splits)
  with 1(1)[OF _ d_def] show ?case by (auto simp: d_def CHUNK_SIZE_DAYS_def days_of_def)
qed

lemma length_chunk_loop: "int (length (chunk_loop c e)) = (if c \<le> e then (e - c) div 7 + 1 else 0)"
proof (induction c e rule: chunk_loop.induct)
  case (1 c e)
  show ?case
  proof (cases "c \<le> e")
    case True
    define d where "d = min (c + CHUNK_SIZE_DAYS - 1) e"
    have "int (length (chunk_loop c e)) = 1 + int (length (chunk_loop (d + 1) e))"
      using True by (simp add: chunk_loop.simps[of c e] d_def Let_def)
    also have "\<dots> = 1 + (if d + 1 \<le> e then (e - (d + 1)) div 7 + 1 else 0)" using 1[OF True d_def] by simp
    also have "\<dots> = (e - c) div 7 + 1"
    proof (cases "c + 7 \<le> e")
      case True
      have "(e - c) div 7 = (e - (c + 7)) div 7 + 1" by simp
      with True show ?thesis by (simp add: d_def CHUNK_SIZE_DAYS_def)
    next
      case False
      then have "(e - c) div 7 = 0" using \<open>c \<le> e\<close> by (simp add: div_pos_pos_trivial)
      with False show ?thesis by (simp add: d_def CHUNK_SIZE_DAYS_def)
    qed
    finally show ?thesis using True by simp
  qed (simp add: chunk_loop.simps[of c e])
qed

text \<open>
  Cutting a date range into chunks loses no day and repeats none: the chunks, in order,
  are exactly the days from the first to the last; every chunk is a non-empty range of valid dates of at
  most seven days, and there are as many as the length of the range needs.
\<close>

theorem chunks_tile_the_range:
  assumes "valid_date a" "valid_date b" "a \<le> b"
  shows "concat (map days_of (buildChunkRanges a b)) = [dayno a..dayno b]
    \<and> list_all (\<lambda>r. valid_date (fst r) \<and> valid_date (snd r) \<and> fst r \<le> snd r \<and> length (days_of r) \<le> 7) (buildChunkRanges a b)
    \<and> int (length (buildChunkRanges a b)) = (dayno b - dayno a) div 7 + 1"
proof -
  have "dayno a \<le> dayno b" using assms by (rule dayno_mono)
  then show ?thesis
    using chunk_loop_days chunk_loop_sizes length_chunk_loop[of "dayno a" "dayno b"]
    by (simp add: buildChunkRanges_def list_all_iff)
qed

theorem chunks_tile_the_range_witness:
  "buildChunkRanges (2024, 2, 26) (2024, 3, 12) =
     [((2024, 2, 26), (2024, 3, 3)), ((2024, 3, 4), (2024, 3, 10)), ((2024, 3, 11), (2024, 3, 12))]
   \<and> int (length (buildChunkRanges (2024, 2, 26) (2024, 3, 12))) = 3"
proof -
  have "valid_date (2024, 2, 26)" "valid_date (2024, 3, 12)" "(2024::int, 2::int, 26::int) \<le> (2024, 3, 12)" by code_simp+
  note chunks_tile_the_range[OF this]
  moreover have "(dayno (2024, 3, 12) - dayno (2024, 2, 26)) div 7 + 1 = 3" by code_simp
  moreover have "buildChunkRanges (2024, 2, 26) (2024, 3, 12) =
     [((2024, 2, 26), (2024, 3, 3)), ((2024, 3, 4), (2024, 3, 10)), ((2024, 3, 11), (2024, 3, 12))]" by code_simp
  ultimately show ?thesis by simp
qed

section \<open>Rows keep their identity\<close>

definition chunk_ident :: "HistoricalBackfillChunk \<Rightarrow> uuid \<times> uuid \<times> uuid \<times> nat \<times> iso_date \<times> iso_date" where
  "chunk_ident c = (bc_id c, bc_tenantId c, bc_syncJobId c, bc_chunkIndex c, bc_rangeStart c, bc_rangeEnd c)"

definition job_ident :: "SyncJob \<Rightarrow> uuid \<times> uuid \<times> uuid \<times> SyncType \<times> string option \<times> (iso_date \<times> iso_date) option" where
  "job_ident j = (sj_id j, sj_tenantId j, sj_connectorId j, sj_syncType j, sj_datasetKey j, sj_range j)"

definition same_rows :: "backfill_db \<Rightarrow> backfill_db \<Rightarrow> bool" where
  \<comment> \<open>the same connectors, jobs and chunks, whatever their progress\<close>
  "same_rows db db' \<longleftrightarrow> hub_connectors db' = hub_connectors db
     \<and> map job_ident (hub_jobs db') = map job_ident (hub_jobs db)
     \<and> map chunk_ident (hub_chunks db') = map chunk_ident (hub_chunks db)"

lemma update_job_chunks [simp]:
  "hub_chunks (update_job t j f db) = hub_chunks db" "hub_jobs (update_chunks P g db) = hub_jobs db"
  "hub_connectors (update_chunks P g db) = hub_connectors db"
  by (simp_all add: update_job_def update_chunks_def)

lemma update_chunks_chunks [hub_simps]: "hub_chunks (update_chunks P g db) = update_where P g (hub_chunks db)"
  by (simp add: update_chunks_def)

lemma same_rows_refl [simp]: "same_rows db db"
  by (simp add: same_rows_def)

lemma same_rows_trans: "same_rows a b \<Longrightarrow> same_rows b c \<Longrightarrow> same_rows a c"
  by (simp add: same_rows_def)

lemma map_update_where_ident: "(\<And>x. g (f x) = g x) \<Longrightarrow> map g (update_where P f xs) = map g xs"
  by (induction xs) auto

lemma same_rows_update_job: "(\<And>x. job_ident (f x) = job_ident x) \<Longrightarrow> same_rows db (update_job t j f db)"
  by (simp add: same_rows_def update_job_def map_update_where_ident)

lemma same_rows_update_chunks: "(\<And>x. chunk_ident (f x) = chunk_ident x) \<Longrightarrow> same_rows db (update_chunks P f db)"
  by (simp add: same_rows_def update_chunks_def map_update_where_ident)

lemma ident_results [simp]:
  "job_ident (job_result job out n now j) = job_ident j"
  "chunk_ident (chunk_result out now c) = chunk_ident c"
  by (simp_all add: job_ident_def job_result_def chunk_ident_def chunk_result_def Let_def)

lemma ident_updates [simp]:
  "job_ident (j\<lparr>sj_status := s\<rparr>) = job_ident j" "job_ident (j\<lparr>sj_completedAt := a\<rparr>) = job_ident j"
  "job_ident (j\<lparr>sj_errorDetails := e\<rparr>) = job_ident j"
  "chunk_ident (c\<lparr>bc_status := cs\<rparr>) = chunk_ident c" "chunk_ident (c\<lparr>bc_startedAt := a\<rparr>) = chunk_ident c"
  "chunk_ident (c\<lparr>bc_errorDetails := e\<rparr>) = chunk_ident c"
  by (simp_all add: job_ident_def chunk_ident_def)

lemma same_rows_misc [simp]:
  "same_rows db (audit_request t a r db') \<longleftrightarrow> same_rows db db'"
  "same_rows db (land_records n now item out db') \<longleftrightarrow> same_rows db db'"
  by (simp_all add: same_rows_def audit_request_def land_records_def split: prod.splits)

lemmas same_rows_intros = same_rows_update_job same_rows_update_chunks

lemma same_rows_failJobUnsupported: "same_rows db (failJobUnsupported now t j p db)"
  unfolding failJobUnsupported_def by (rule same_rows_trans[OF same_rows_update_job same_rows_update_chunks]) simp_all

lemma same_rows_retryChunk: "same_rows db (snd (retryChunk t c db))"
  unfolding retryChunk_def
  by (auto simp: Let_def split: option.splits intro!: same_rows_trans[OF same_rows_update_chunks same_rows_update_job])

lemma same_rows_resumeImport: "same_rows db (snd (resumeImport t j db))"
  unfolding resumeImport_def
  by (auto simp: Let_def split: sum.splits intro!: same_rows_trans[OF same_rows_update_chunks same_rows_update_job])

lemma same_rows_cancelImport: "same_rows db (snd (cancelImport now t j db))"
  unfolding cancelImport_def
  by (auto simp: Let_def split: sum.splits
      intro!: same_rows_trans[OF same_rows_update_chunks same_rows_trans[OF same_rows_update_chunks same_rows_update_job]])

lemma same_rows_claimChunk: "same_rows db (snd (claimChunk r now item db))"
  unfolding claimChunk_def
  by (auto simp: Let_def same_rows_failJobUnsupported split: sum.splits option.splits prod.splits
      intro!: same_rows_trans[OF same_rows_update_job same_rows_update_chunks])

lemma same_rows_finishChunk: "same_rows db (finishChunk n now item job out db)"
  unfolding finishChunk_def
  by (auto simp: Let_def split: prod.splits intro!: same_rows_trans[OF same_rows_update_chunks same_rows_update_job])

lemma same_rows_processChunk: "same_rows db (processChunk r n now item db)"
  using same_rows_claimChunk[of db r now item]
  by (auto simp: processChunk_def split: prod.splits sum.splits chunk_claim.splits intro: same_rows_trans[OF _ same_rows_finishChunk])

lemma same_rows_foldl:
  "(\<And>d x. same_rows d (f d x)) \<Longrightarrow> same_rows db (foldl f db xs)"
  by (induction xs arbitrary: db) (auto intro: same_rows_trans)

lemma same_rows_backfillTick: "same_rows db (backfillTick r n now db)"
  unfolding backfillTick_def by (rule same_rows_foldl) (auto simp: same_rows_processChunk split: prod.splits)

section \<open>Jobs do not interfere\<close>

definition only :: "uuid \<Rightarrow> backfill_db \<Rightarrow> backfill_db" where
  \<comment> \<open>the database with the rows of one job alone\<close>
  "only j db = \<lparr>hub_connectors = hub_connectors db, hub_jobs = filter (\<lambda>r. sj_id r = j) (hub_jobs db),
     hub_subscriptions = [], hub_deliveries = [], hub_published = [],
     hub_chunks = filter (\<lambda>c. bc_syncJobId c = j) (hub_chunks db), hub_records = [], hub_audit = []\<rparr>"

definition progress :: "uuid \<Rightarrow> backfill_db \<Rightarrow> SyncJob list \<times> HistoricalBackfillChunk list" where
  "progress j db = (hub_jobs (only j db), hub_chunks (only j db))"

definition item_ok :: "due_chunk \<Rightarrow> backfill_db \<Rightarrow> bool" where
  \<comment> \<open>the chunk an item names belongs to the job it names\<close>
  "item_ok item db = (case item of (t, j, c) \<Rightarrow> \<forall>x\<in>set (hub_chunks db). bc_id x = c \<longrightarrow> bc_syncJobId x = j)"

lemma item_ok_same_rows: "same_rows db db' \<Longrightarrow> item_ok item db' \<longleftrightarrow> item_ok item db"
proof -
  assume s: "same_rows db db'"
  have "item_ok item d \<longleftrightarrow> (case item of (t, j, c) \<Rightarrow> \<forall>x\<in>set (map chunk_ident (hub_chunks d)). fst x = c \<longrightarrow> fst (snd (snd x)) = j)" for d
    by (simp add: item_ok_def chunk_ident_def split: prod.splits)
  with s show ?thesis unfolding same_rows_def by (simp del: set_map)
qed

lemma filter_update_where:
  "(\<And>x. Q (f x) = Q x) \<Longrightarrow> filter Q (update_where P f xs) = update_where P f (filter Q xs)"
  by (induction xs) auto

lemma only_update_job:
  "(\<And>x. job_ident (f x) = job_ident x) \<Longrightarrow> only j (update_job t j' f db) = (if j' = j then update_job t j' f (only j db) else only j db)"
proof -
  assume f: "\<And>x. job_ident (f x) = job_ident x"
  have "j' \<noteq> j \<Longrightarrow> update_where (job_key t j') f (filter (\<lambda>r. sj_id r = j) (hub_jobs db)) = filter (\<lambda>r. sj_id r = j) (hub_jobs db)"
    by (rule update_where_id) (auto simp: job_key_def)
  moreover have "filter (\<lambda>r. sj_id r = j) (update_where (job_key t j') f (hub_jobs db))
      = update_where (job_key t j') f (filter (\<lambda>r. sj_id r = j) (hub_jobs db))"
    using f by (intro filter_update_where) (simp add: job_ident_def)
  ultimately show ?thesis by (simp add: only_def update_job_def)
qed

lemma only_update_chunks:
  "(\<And>x. chunk_ident (f x) = chunk_ident x) \<Longrightarrow> only j (update_chunks P f db) = update_chunks P f (only j db)"
  by (simp add: only_def update_chunks_def filter_update_where chunk_ident_def)

lemma only_update_other_chunks:
  assumes "\<And>x. chunk_ident (f x) = chunk_ident x" "\<And>x. x \<in> set (hub_chunks db) \<Longrightarrow> P x \<Longrightarrow> bc_syncJobId x \<noteq> j"
  shows "only j (update_chunks P f db) = only j db"
proof -
  have "update_where P f (filter (\<lambda>c. bc_syncJobId c = j) (hub_chunks db)) = filter (\<lambda>c. bc_syncJobId c = j) (hub_chunks db)"
    using assms(2) by (intro update_where_id) auto
  then show ?thesis by (simp add: only_update_chunks[OF assms(1)]) (simp add: only_def update_chunks_def)
qed

lemma only_idem [simp]: "only j (only j db) = only j db"
  by (simp add: only_def)

lemma find_only:
  "findJob t j (only j db) = findJob t j db"
  "findConnector t cid (only j db) = findConnector t cid db"
proof -
  have "find_where (\<lambda>r. job_key t j r \<and> sj_syncType r = SYNC_HISTORICAL) (filter (\<lambda>r. sj_id r = j) (hub_jobs db))
      = find_where (\<lambda>r. job_key t j r \<and> sj_syncType r = SYNC_HISTORICAL) (hub_jobs db)"
    by (rule find_where_filter) (simp add: job_key_def)
  then show "findJob t j (only j db) = findJob t j db" by (simp add: findJob_def only_def)
qed (simp add: findConnector_def only_def)

lemma find_chunk_only:
  "item_ok (t, j, c) db \<Longrightarrow> find_where (chunk_key t c) (hub_chunks (only j db)) = find_where (chunk_key t c) (hub_chunks db)"
  unfolding only_def by simp (rule find_where_filter, auto simp: item_ok_def chunk_key_def)

lemma only_failJobUnsupported:
  "only j (failJobUnsupported now t j' p db) = (if j' = j then failJobUnsupported now t j p (only j db) else only j db)"
proof (cases "j' = j")
  case True
  then show ?thesis by (simp add: failJobUnsupported_def only_update_chunks only_update_job)
next
  case False
  then show ?thesis unfolding failJobUnsupported_def
    by (subst only_update_other_chunks) (auto simp: chunk_of_def only_update_job)
qed

lemma claim_only:
  assumes "item_ok (t, j, c) db"
  shows "claimChunk r now (t, j, c) (only j db) = (fst (claimChunk r now (t, j, c) db), only j (snd (claimChunk r now (t, j, c) db)))"
proof -
  define u where "u = update_chunks (chunk_key t c) (\<lambda>c. c\<lparr>bc_status := CHUNK_RUNNING, bc_startedAt := Some now\<rparr>)
    (update_job t j (sj_status_update (\<lambda>_. JOB_RUNNING)) db)"
  have "same_rows db u" unfolding u_def by (rule same_rows_trans[OF same_rows_update_job same_rows_update_chunks]) simp_all
  then have "item_ok (t, j, c) u" using assms by (simp add: item_ok_same_rows)
  moreover have "only j u = update_chunks (chunk_key t c) (\<lambda>c. c\<lparr>bc_status := CHUNK_RUNNING, bc_startedAt := Some now\<rparr>)
      (update_job t j (sj_status_update (\<lambda>_. JOB_RUNNING)) (only j db))"
    by (simp add: u_def only_update_chunks only_update_job)
  ultimately have "update_chunks (chunk_key t c) (\<lambda>c. c\<lparr>bc_status := CHUNK_RUNNING, bc_startedAt := Some now\<rparr>)
      (update_job t j (sj_status_update (\<lambda>_. JOB_RUNNING)) (only j db)) = only j u"
    "find_where (chunk_key t c) (hub_chunks (only j u)) = find_where (chunk_key t c) (hub_chunks u)"
    using find_chunk_only[of t j c u] by simp_all
  then show ?thesis
    by (simp add: claimChunk_def Let_def find_only only_failJobUnsupported u_def[symmetric] split: sum.splits option.splits)
qed

lemma progress_land [simp]: "progress j (land_records n now item out db) = progress j db"
  by (simp add: progress_def only_def land_records_def split: prod.splits)

lemma progress_only [simp]: "progress j (only j db) = progress j db"
  by (simp add: progress_def)

lemma filter_chunk_of_only: "filter (\<lambda>x. chunk_of t j x \<and> P x) (hub_chunks (only j db)) = filter (\<lambda>x. chunk_of t j x \<and> P x) (hub_chunks db)"
  by (auto simp: only_def chunk_of_def intro: filter_cong)

lemma finish_only: "progress j (finishChunk n now (t, j, c) job out (only j db)) = progress j (finishChunk n' now (t, j, c) job out db)"
proof -
  define d where "d = update_chunks (chunk_key t c) (chunk_result out now) db"
  have "update_chunks (chunk_key t c) (chunk_result out now) (only j db) = only j d"
    by (simp add: d_def only_update_chunks)
  then show ?thesis
    by (simp add: finishChunk_def Let_def d_def[symmetric] filter_chunk_of_only)
       (simp add: progress_def only_update_job)
qed

lemma process_own:
  "item_ok (t, j, c) db \<Longrightarrow>
   progress j (processChunk r n now (t, j, c) db) = progress j (processChunk r n' now (t, j, c) (only j db))"
  by (simp add: processChunk_def claim_only finish_only[of j n' now t c _ _ _ n] split: prod.splits sum.splits chunk_claim.splits)

lemma progress_cong: "only j db = only j db' \<Longrightarrow> progress j db = progress j db'"
  by (simp add: progress_def)

lemma claim_other:
  assumes "item_ok (t, j', c) db" "j' \<noteq> j"
  shows "only j (snd (claimChunk r now (t, j', c) db)) = only j db"
proof -
  have "only j (update_chunks (chunk_key t c) (\<lambda>c. c\<lparr>bc_status := CHUNK_RUNNING, bc_startedAt := Some now\<rparr>)
      (update_job t j' (sj_status_update (\<lambda>_. JOB_RUNNING)) db)) = only j (update_job t j' (sj_status_update (\<lambda>_. JOB_RUNNING)) db)"
    using assms by (intro only_update_other_chunks) (auto simp: item_ok_def chunk_key_def)
  with assms(2) show ?thesis
    by (simp add: claimChunk_def Let_def only_failJobUnsupported only_update_job split: sum.splits option.splits)
qed

lemma finish_other:
  assumes "item_ok (t, j', c) db" "j' \<noteq> j"
  shows "progress j (finishChunk n now (t, j', c) job out db) = progress j db"
proof -
  have "only j (update_chunks (chunk_key t c) (chunk_result out now) db) = only j db"
    using assms by (intro only_update_other_chunks) (auto simp: item_ok_def chunk_key_def)
  then show ?thesis using assms(2)
    by (auto simp: finishChunk_def Let_def only_update_job intro!: progress_cong)
qed

lemma process_other:
  assumes "item_ok (t, j', c) db" "j' \<noteq> j"
  shows "progress j (processChunk r n now (t, j', c) db) = progress j db"
proof -
  obtain res d where e: "claimChunk r now (t, j', c) db = (res, d)" by fastforce
  have "item_ok (t, j', c) d" using assms(1) same_rows_claimChunk[of db r now "(t, j', c)"] by (simp add: e item_ok_same_rows)
  moreover have "progress j d = progress j db" using claim_other[OF assms, of r now] by (intro progress_cong) (simp add: e)
  ultimately show ?thesis
    using assms(2) by (simp add: processChunk_def e finish_other split: sum.splits chunk_claim.splits)
qed

lemma set_distinct_on: "set (distinct_on k xs) \<subseteq> set xs"
  by (induction k xs rule: distinct_on.induct) auto

lemma filter_distinct_on: "filter (\<lambda>y. k y = a) (distinct_on k xs) = take 1 (filter (\<lambda>y. k y = a) xs)"
proof (induction k xs rule: distinct_on.induct)
  case (2 k x xs)
  have "filter (\<lambda>y. k y = a) (filter (\<lambda>y. k y \<noteq> k x) xs) = (if k x = a then [] else filter (\<lambda>y. k y = a) xs)"
    by (auto simp: filter_empty_conv intro: filter_cong)
  with 2 show ?case by (auto split: if_splits)
qed simp

lemma distinct_on_distinct: "distinct (map k (distinct_on k xs))"
proof (induction k xs rule: distinct_on.induct)
  case (2 k x xs)
  then show ?case using set_distinct_on[of k "filter (\<lambda>y. k y \<noteq> k x) xs"] by auto
qed simp

lemma distinct_on_one_key: "(\<And>x. x \<in> set xs \<Longrightarrow> k x = a) \<Longrightarrow> distinct_on k xs = take 1 xs"
proof -
  assume all: "\<And>x. x \<in> set xs \<Longrightarrow> k x = a"
  then have "filter (\<lambda>y. k y = a) (distinct_on k xs) = distinct_on k xs" "filter (\<lambda>y. k y = a) xs = xs"
    using set_distinct_on[of k xs] by (auto intro!: filter_True)
  with filter_distinct_on[of k a xs] show ?thesis by simp
qed

definition chunk_order :: "HistoricalBackfillChunk \<Rightarrow> HistoricalBackfillChunk \<Rightarrow> bool" where
  "chunk_order a b = (bc_syncJobId a < bc_syncJobId b \<or> bc_syncJobId a = bc_syncJobId b \<and> bc_chunkIndex a \<le> bc_chunkIndex b)"

interpretation chunk_order: js_comparator chunk_order
  by unfold_locales (auto simp: chunk_order_def)

lemma findDueChunks_order:
  "findDueChunks db = map (\<lambda>c. (bc_tenantId c, bc_syncJobId c, bc_id c))
     (distinct_on bc_syncJobId (js_sort chunk_order (filter (due db) (hub_chunks db))))"
  by (simp add: findDueChunks_def chunk_order_def[abs_def])

lemma due_only: "bc_syncJobId c = j \<Longrightarrow> due (only j db) c \<longleftrightarrow> due db c"
  by (auto simp: due_def only_def)

text \<open>The due item of a job depends on that job's rows alone.\<close>

lemma findDueChunks_only: "filter (\<lambda>item. fst (snd item) = j) (findDueChunks db) = findDueChunks (only j db)"
proof -
  let ?mk = "\<lambda>c. (bc_tenantId c, bc_syncJobId c, bc_id c)"
  have own: "filter (\<lambda>c. bc_syncJobId c = j) (filter (due db) (hub_chunks db)) = filter (due (only j db)) (hub_chunks (only j db))"
    by (auto simp: only_def due_def intro!: filter_cong)
  have "filter (\<lambda>item. fst (snd item) = j) (findDueChunks db)
      = map ?mk (filter (\<lambda>c. bc_syncJobId c = j) (distinct_on bc_syncJobId (js_sort chunk_order (filter (due db) (hub_chunks db)))))"
    by (simp add: findDueChunks_order filter_map o_def)
  also have "\<dots> = map ?mk (take 1 (js_sort chunk_order (filter (due (only j db)) (hub_chunks (only j db)))))"
    by (simp only: filter_distinct_on chunk_order.filter_js_sort own)
  also have "\<dots> = findDueChunks (only j db)"
    unfolding findDueChunks_order by (subst distinct_on_one_key[of _ _ j]) (auto simp: only_def)
  finally show ?thesis .
qed

lemma findDueChunks_jobs: "distinct (map (\<lambda>item. fst (snd item)) (findDueChunks db))"
  using distinct_on_distinct[of bc_syncJobId] by (simp add: findDueChunks_order o_def)

lemma findDueChunks_item_ok: "distinct (map bc_id (hub_chunks db)) \<Longrightarrow> item \<in> set (findDueChunks db) \<Longrightarrow> item_ok item db"
proof -
  assume d: "distinct (map bc_id (hub_chunks db))" "item \<in> set (findDueChunks db)"
  then obtain x where "x \<in> set (hub_chunks db)" "item = (bc_tenantId x, bc_syncJobId x, bc_id x)"
    using set_distinct_on[of bc_syncJobId "js_sort chunk_order (filter (due db) (hub_chunks db))"]
    by (auto simp: findDueChunks_order)
  with d(1) show "item_ok item db" by (auto simp: item_ok_def distinct_map dest: inj_onD)
qed

lemma only_eqI: "progress j d = progress j d' \<Longrightarrow> hub_connectors d = hub_connectors d' \<Longrightarrow> only j d = only j d'"
  by (simp add: progress_def only_def)

lemma fold_other:
  "\<lbrakk>\<forall>item\<in>set xs. item_ok item db \<and> fst (snd item) \<noteq> j\<rbrakk> \<Longrightarrow>
   progress j (foldl (\<lambda>d (i, item). processChunk r (n i) now item d) db (enumerate k xs)) = progress j db"
proof (induction xs arbitrary: db k)
  case (Cons item xs)
  obtain t j' c where item: "item = (t, j', c)" by (cases item)
  have "\<forall>item\<in>set xs. item_ok item (processChunk r (n k) now (t, j', c) db) \<and> fst (snd item) \<noteq> j"
    using Cons.prems item_ok_same_rows[OF same_rows_processChunk] by simp
  from Cons.IH[OF this, of "Suc k"] Cons.prems show ?case by (simp add: item process_other)
qed simp

lemma fold_progress:
  assumes "\<forall>item\<in>set xs. item_ok item db" "distinct (map (\<lambda>item. fst (snd item)) xs)"
  shows "progress j (foldl (\<lambda>d (i, item). processChunk r (n i) now item d) db (enumerate k xs))
    = (case filter (\<lambda>item. fst (snd item) = j) xs of [] \<Rightarrow> progress j db
       | item # _ \<Rightarrow> progress j (processChunk r (n 0) now item (only j db)))"
  using assms
proof (induction xs arbitrary: db k)
  case (Cons item xs)
  obtain t j' c where item: "item = (t, j', c)" by (cases item)
  define d where "d = processChunk r (n k) now item db"
  have same: "same_rows db d" unfolding d_def by (rule same_rows_processChunk)
  have oks: "\<forall>item\<in>set xs. item_ok item d" using Cons.prems(1) item_ok_same_rows[OF same] by simp
  show ?case
  proof (cases "j' = j")
    case True
    have "progress j (foldl (\<lambda>d (i, item). processChunk r (n i) now item d) d (enumerate (Suc k) xs)) = progress j d"
      using Cons.prems(2) oks by (intro fold_other) (force simp: item True)
    moreover have "progress j d = progress j (processChunk r (n 0) now item (only j db))"
      unfolding d_def item True using Cons.prems(1) by (intro process_own) (simp add: item True)
    ultimately show ?thesis by (simp add: d_def item True)
  next
    case False
    have "progress j d = progress j db" unfolding d_def item using Cons.prems(1) False by (intro process_other) (simp_all add: item)
    moreover have "only j d = only j db" using calculation same by (intro only_eqI) (simp_all add: same_rows_def)
    ultimately show ?thesis using Cons.IH[OF oks, of "Suc k"] Cons.prems(2) False by (simp add: d_def item split: list.split)
  qed
qed simp

lemma tick_only:
  assumes "distinct (map bc_id (hub_chunks db))"
  shows "progress j (backfillTick registry newId now db) = progress j (backfillTick registry newId now (only j db))"
proof -
  have d: "distinct (map bc_id (hub_chunks (only j db)))" using assms by (simp add: only_def distinct_map_filter)
  have "progress j (backfillTick registry newId now e) = (case filter (\<lambda>item. fst (snd item) = j) (findDueChunks e) of
      [] \<Rightarrow> progress j e | item # _ \<Rightarrow> progress j (processChunk registry (newId 0) now item (only j e)))"
    if "distinct (map bc_id (hub_chunks e))" for e
    unfolding backfillTick_def using that by (intro fold_progress) (simp_all add: findDueChunks_item_ok findDueChunks_jobs)
  from this[OF assms] this[OF d] show ?thesis by (simp add: findDueChunks_only split: list.split)
qed

text \<open>
  Imports do not interfere: after a tick over the whole table, the job and the chunks of
  any one import are exactly what a tick over that import alone would have left, whatever other tenants'
  imports the tick processed, failed or skipped on the way.
\<close>

theorem imports_do_not_interfere:
  assumes "distinct (map bc_id (hub_chunks db))"
  shows "progress j (backfillTick registry newId now db) = progress j (backfillTick registry newId now (only j db))"
  using assms by (rule tick_only)

section \<open>A started import completes\<close>

definition completes :: "hist_adapter \<Rightarrow> IntegrationConnector \<Rightarrow> bool" where
  \<comment> \<open>every fetch for the connector returns a completed outcome\<close>
  "completes adapter connector \<longleftrightarrow> (\<forall>ds a b cur. \<exists>out. adapter connector ds a b cur = Inr out \<and> oc_completed out)"

definition totals_match :: "SyncJob \<Rightarrow> HistoricalBackfillChunk list \<Rightarrow> bool" where
  "totals_match job cs \<longleftrightarrow> the_default (sj_recordsFound job) 0 = (\<Sum>c\<leftarrow>cs. bc_recordsFound c)
     \<and> sj_recordsProcessed job = (\<Sum>c\<leftarrow>cs. bc_recordsProcessed c)
     \<and> sj_recordsFailed job = (\<Sum>c\<leftarrow>cs. bc_recordsFailed c)
     \<and> the_default (sj_recordsDuplicate job) 0 = (\<Sum>c\<leftarrow>cs. bc_recordsDuplicate c)"

definition untouched :: "HistoricalBackfillChunk \<Rightarrow> bool" where
  "untouched c \<longleftrightarrow> bc_status c = CHUNK_QUEUED \<and> bc_recordsFound c = 0 \<and> bc_recordsProcessed c = 0
     \<and> bc_recordsFailed c = 0 \<and> bc_recordsDuplicate c = 0"

definition importing :: "uuid \<Rightarrow> uuid \<Rightarrow> uuid \<Rightarrow> SyncJob \<Rightarrow> HistoricalBackfillChunk list \<Rightarrow> HistoricalBackfillChunk list \<Rightarrow> bool" where
  \<comment> \<open>the import has completed the chunks \<open>done_cs\<close> and the chunks \<open>todo\<close> are still untouched\<close>
  "importing t j connectorId job done_cs todo \<longleftrightarrow>
     job_key t j job \<and> sj_syncType job = SYNC_HISTORICAL \<and> sj_connectorId job = connectorId
     \<and> (if todo = [] then sj_status job = JOB_COMPLETED else sj_status job \<in> {JOB_QUEUED, JOB_RUNNING})
     \<and> list_all (\<lambda>c. bc_status c = CHUNK_COMPLETED) done_cs \<and> list_all untouched todo
     \<and> list_all (chunk_of t j) (done_cs @ todo) \<and> distinct (map bc_id (done_cs @ todo))
     \<and> sorted_wrt (<) (map bc_chunkIndex (done_cs @ todo)) \<and> totals_match job (done_cs @ todo)"

lemma js_sort_sorted_id: "sorted_wrt le xs \<Longrightarrow> js_sort le xs = xs"
proof (induction xs)
  case (Cons x xs) then show ?case by (cases xs) auto
qed simp

lemma distinct_mid:
  assumes "distinct (map k (as @ x # bs))" "y \<in> set as \<union> set bs"
  shows "k y \<noteq> k x"
proof -
  have "k x \<notin> k ` (set as \<union> set bs)" using assms(1) by auto
  then show ?thesis using imageI[OF assms(2), of k] by metis
qed

lemma update_where_one:
  assumes "distinct (map k (as @ x # bs))"
  shows "update_where (\<lambda>y. k y = k x \<and> P y) f (as @ x # bs) = as @ (if P x then f x else x) # bs"
proof -
  note ne = distinct_mid[OF assms]
  have "update_where (\<lambda>y. k y = k x \<and> P y) f as = as" "update_where (\<lambda>y. k y = k x \<and> P y) f bs = bs"
    by (rule update_where_id, use ne in blast)+
  then show ?thesis by (simp add: update_where_append)
qed

lemma findDue_importing:
  assumes "hub_jobs db = [job]" "hub_chunks db = done_cs @ x # todo" "importing t j cid job done_cs (x # todo)"
  shows "findDueChunks db = [(t, j, bc_id x)]"
proof -
  have d: "\<not> due db c" if "c \<in> set done_cs" for c
    using assms(3) that by (auto simp: due_def importing_def list_all_iff)
  have q: "due db c" if "c \<in> set (x # todo)" for c
    using assms(1,3) that by (auto simp: due_def importing_def list_all_iff untouched_def chunk_of_def job_key_def)
  have "filter (due db) (hub_chunks db) = x # todo"
    using d q by (simp add: assms(2) filter_empty_conv)
  moreover have "sorted_wrt chunk_order (x # todo)"
    using assms(3) by (auto simp: importing_def chunk_order_def sorted_wrt_append sorted_wrt_map list_all_iff chunk_of_def elim!: sorted_wrt_mono_rel[rotated])
  moreover have "distinct_on bc_syncJobId (x # todo) = [x]"
    using distinct_on_one_key[of "x # todo" bc_syncJobId j] assms(3) by (auto simp: importing_def list_all_iff chunk_of_def)
  ultimately have "findDueChunks db = [(bc_tenantId x, bc_syncJobId x, bc_id x)]"
    unfolding findDueChunks_order by (simp only: js_sort_sorted_id list.map)
  with assms(3) show ?thesis by (simp add: importing_def chunk_of_def)
qed

lemma process_importing:
  assumes "hub_jobs db = [job]" "hub_chunks db = done_cs @ x # todo" "importing t j cid job done_cs (x # todo)"
    and "findConnector t cid db = Some connector" "registry (cn_provider connector) = Some adapter" "completes adapter connector"
  obtains job' x' where "importing t j cid job' (done_cs @ [x']) todo"
    "hub_jobs (processChunk registry newId now (t, j, bc_id x) db) = [job']"
    "hub_chunks (processChunk registry newId now (t, j, bc_id x) db) = (done_cs @ [x']) @ todo"
proof -
  define y where "y = x\<lparr>bc_status := CHUNK_RUNNING, bc_startedAt := Some now\<rparr>"
  define out where "out = fetch_outcome adapter connector job y"
  define job1 where "job1 = job\<lparr>sj_status := JOB_RUNNING\<rparr>"
  have out: "oc_completed out"
    using assms(6) unfolding out_def fetch_outcome_def completes_def by (metis sum.case(2))
  have ids: "distinct (map bc_id (done_cs @ x # todo))" and x: "bc_tenantId x = t" "bc_syncJobId x = j"
    and key: "job_key t j job" "sj_syncType job = SYNC_HISTORICAL" "sj_connectorId job = cid"
    using assms(3) by (auto simp: importing_def chunk_of_def)
  have upd: "update_where (chunk_key t (bc_id x)) f (done_cs @ x # todo) = done_cs @ f x # todo" for f
    using update_where_one[OF ids, of "\<lambda>c. bc_tenantId c = t"] x by (simp add: chunk_key_def[abs_def])
  have upd': "update_where (chunk_key t (bc_id x)) f (done_cs @ y # todo) = done_cs @ f y # todo" for f
    using update_where_one[of bc_id done_cs y todo "\<lambda>c. bc_tenantId c = t" f] ids x by (simp add: chunk_key_def[abs_def] y_def)
  have none: "find_where (chunk_key t (bc_id x)) done_cs = None"
    using distinct_mid[OF ids] by (simp add: find_where_None chunk_key_def)
  define db1 where "db1 = update_chunks (chunk_key t (bc_id x)) (\<lambda>c. c\<lparr>bc_status := CHUNK_RUNNING, bc_startedAt := Some now\<rparr>)
    (update_job t j (sj_status_update (\<lambda>_. JOB_RUNNING)) db)"
  have db1: "hub_jobs db1 = [job1]" "hub_chunks db1 = done_cs @ y # todo"
    using key by (simp_all add: db1_def hub_simps assms(1,2) upd y_def job1_def job_key_def)
  have claim: "claimChunk registry now (t, j, bc_id x) db = (Inr (Claimed job connector adapter y), db1)"
    using key assms(4,5) db1(2) none x
    by (simp add: claimChunk_def findJob_def assms(1) Let_def db1_def[symmetric] find_where_append)
       (simp add: y_def chunk_key_def)
  define x' where "x' = chunk_result out now y"
  define job' where "job' = job_result job out (length todo) now job1"
  have rem: "length (filter (\<lambda>c. chunk_of t j c \<and> bc_status c = CHUNK_QUEUED) (done_cs @ x' # todo)) = length todo"
  proof -
    have "filter (\<lambda>c. chunk_of t j c \<and> bc_status c = CHUNK_QUEUED) done_cs = []"
      using assms(3) by (auto simp: importing_def list_all_iff filter_empty_conv)
    moreover have "filter (\<lambda>c. chunk_of t j c \<and> bc_status c = CHUNK_QUEUED) todo = todo"
      using assms(3) by (auto simp: importing_def list_all_iff untouched_def intro!: filter_True)
    ultimately show ?thesis using out by (simp add: x'_def chunk_result_def)
  qed
  have res: "processChunk registry newId now (t, j, bc_id x) db = land_records newId now (t, j, bc_id x) out
      (update_job t j (job_result job out (length todo) now) (update_chunks (chunk_key t (bc_id x)) (chunk_result out now) db1))"
    using rem by (simp add: processChunk_def claim finishChunk_def Let_def out_def[symmetric] hub_simps db1(2) upd' x'_def)
  show thesis
  proof (rule that)
    show "hub_jobs (processChunk registry newId now (t, j, bc_id x) db) = [job']"
      using key by (simp add: res land_records_def hub_simps db1 job'_def job1_def job_key_def)
    show "hub_chunks (processChunk registry newId now (t, j, bc_id x) db) = (done_cs @ [x']) @ todo"
      by (simp add: res land_records_def hub_simps db1 upd' x'_def)
    show "importing t j cid job' (done_cs @ [x']) todo"
      using assms(3) out
      by (auto simp: importing_def job'_def job1_def x'_def y_def job_result_def chunk_result_def Let_def job_key_def chunk_of_def
          totals_match_def untouched_def)
  qed
qed

type_synonym tick_env = "hist_registry \<times> (nat \<Rightarrow> nat \<Rightarrow> uuid) \<times> millis"

definition run_ticks :: "backfill_db \<Rightarrow> tick_env list \<Rightarrow> backfill_db" where
  "run_ticks = foldl (\<lambda>d (registry, newId, now). backfillTick registry newId now d)"

lemma progressI:
  "hub_jobs db = js \<Longrightarrow> hub_chunks db = cs \<Longrightarrow> \<forall>r\<in>set js. sj_id r = j \<Longrightarrow> \<forall>c\<in>set cs. bc_syncJobId c = j \<Longrightarrow>
   progress j db = (js, cs)"
  by (simp add: progress_def only_def)

lemma tick_importing:
  assumes "distinct (map bc_id (hub_chunks db))" "progress j db = ([job], done_cs @ x # todo)"
    and "importing t j cid job done_cs (x # todo)" "findConnector t cid db = Some connector"
    and "registry (cn_provider connector) = Some adapter" "completes adapter connector"
  obtains job' x' where "importing t j cid job' (done_cs @ [x']) todo"
    "progress j (backfillTick registry newId now db) = ([job'], (done_cs @ [x']) @ todo)"
proof -
  have o: "hub_jobs (only j db) = [job]" "hub_chunks (only j db) = done_cs @ x # todo"
    using assms(2) by (simp_all add: progress_def)
  obtain job' x' where p: "importing t j cid job' (done_cs @ [x']) todo"
    "hub_jobs (processChunk registry (newId 0) now (t, j, bc_id x) (only j db)) = [job']"
    "hub_chunks (processChunk registry (newId 0) now (t, j, bc_id x) (only j db)) = (done_cs @ [x']) @ todo"
    by (rule process_importing[where registry = registry and connector = connector, OF o assms(3) _ assms(5,6)])
      (use assms(4) in \<open>simp add: find_only\<close>)
  have "backfillTick registry newId now (only j db) = processChunk registry (newId 0) now (t, j, bc_id x) (only j db)"
    using findDue_importing[OF o assms(3)] by (simp add: backfillTick_def)
  moreover have "sj_id job' = j" "\<forall>c\<in>set ((done_cs @ [x']) @ todo). bc_syncJobId c = j"
    using p(1) by (auto simp: importing_def job_key_def list_all_iff chunk_of_def)
  then have "progress j (processChunk registry (newId 0) now (t, j, bc_id x) (only j db)) = ([job'], (done_cs @ [x']) @ todo)"
    using p(2,3) by (intro progressI) auto
  ultimately have "progress j (backfillTick registry newId now db) = ([job'], (done_cs @ [x']) @ todo)"
    using tick_only[OF assms(1), of j registry newId now] by simp
  with p(1) that show ?thesis by blast
qed

lemma same_rows_ids: "same_rows db db' \<Longrightarrow> map bc_id (hub_chunks db') = map bc_id (hub_chunks db)"
proof -
  assume "same_rows db db'"
  then have "map fst (map chunk_ident (hub_chunks db')) = map fst (map chunk_ident (hub_chunks db))" by (simp add: same_rows_def)
  then show ?thesis by (simp add: o_def chunk_ident_def)
qed

lemma ticks_complete:
  assumes "distinct (map bc_id (hub_chunks db))" "progress j db = ([job], done_cs @ todo)"
    and "importing t j cid job done_cs todo" "findConnector t cid db = Some connector" "length es = length todo"
    and "\<forall>e\<in>set es. \<exists>adapter. fst e (cn_provider connector) = Some adapter \<and> completes adapter connector"
  shows "\<exists>job' cs. progress j (run_ticks db es) = ([job'], cs) \<and> importing t j cid job' cs []"
  using assms
proof (induction todo arbitrary: db job done_cs es)
  case Nil then show ?case by (auto simp: run_ticks_def)
next
  case (Cons x todo)
  obtain r n now es' where es: "es = (r, n, now) # es'" "length es' = length todo"
    using Cons.prems(5) by (cases es) auto
  obtain adapter where a: "r (cn_provider connector) = Some adapter" "completes adapter connector" using Cons.prems(6) by (auto simp: es)
  obtain job' x' where s: "importing t j cid job' (done_cs @ [x']) todo"
    "progress j (backfillTick r n now db) = ([job'], (done_cs @ [x']) @ todo)"
    by (rule tick_importing[where registry = r and connector = connector, OF Cons.prems(1-4) a])
  have same: "same_rows db (backfillTick r n now db)" by (rule same_rows_backfillTick)
  have "\<exists>job' cs. progress j (run_ticks (backfillTick r n now db) es') = ([job'], cs) \<and> importing t j cid job' cs []"
    using Cons.prems(1,4,6) s es(2) same same_rows_ids[OF same]
    by (intro Cons.IH) (simp_all add: es(1) findConnector_def same_rows_def)
  then show ?case by (simp add: run_ticks_def es(1))
qed

lemma ranges_kept:
  assumes "same_rows db db'" "progress j db = (js, cs)" "progress j db' = (js', cs')"
  shows "map (\<lambda>c. (bc_rangeStart c, bc_rangeEnd c)) cs' = map (\<lambda>c. (bc_rangeStart c, bc_rangeEnd c)) cs"
proof -
  have "map chunk_ident (filter (\<lambda>c. bc_syncJobId c = j) xs) = filter (\<lambda>p. fst (snd (snd p)) = j) (map chunk_ident xs)" for xs
    by (simp add: filter_map o_def chunk_ident_def)
  then have "map chunk_ident cs' = map chunk_ident cs" using assms by (auto simp: progress_def only_def same_rows_def)
  then have "map (\<lambda>p. snd (snd (snd (snd p)))) (map chunk_ident cs') = map (\<lambda>p. snd (snd (snd (snd p)))) (map chunk_ident cs)" by simp
  then show ?thesis by (simp add: o_def chunk_ident_def)
qed

lemma same_rows_run_ticks: "same_rows db (run_ticks db es)"
  unfolding run_ticks_def by (rule same_rows_foldl) (auto simp: same_rows_backfillTick split: prod.splits)

definition new_chunks :: "(nat \<Rightarrow> uuid) \<Rightarrow> uuid \<Rightarrow> uuid \<Rightarrow> iso_date \<Rightarrow> iso_date \<Rightarrow> HistoricalBackfillChunk list" where
  "new_chunks newId t j a b = map (\<lambda>(index, r). new_chunk newId t j index r) (enumerate 0 (buildChunkRanges a b))"

lemma new_chunks_props:
  "map (\<lambda>c. (bc_rangeStart c, bc_rangeEnd c)) (new_chunks newId t j a b) = buildChunkRanges a b"
  "map bc_chunkIndex (new_chunks newId t j a b) = [0..<length (buildChunkRanges a b)]"
  "map bc_id (new_chunks newId t j a b) = map newId [0..<length (buildChunkRanges a b)]"
  "c \<in> set (new_chunks newId t j a b) \<Longrightarrow> chunk_of t j c \<and> untouched c"
  by (auto simp: new_chunks_def new_chunk_def enumerate_eq_zip chunk_of_def untouched_def zip_map1[symmetric]
      intro!: nth_equalityI)

definition fresh_ids :: "uuid \<Rightarrow> (nat \<Rightarrow> uuid) \<Rightarrow> backfill_db \<Rightarrow> bool" where
  \<comment> \<open>\<open>randomUUID\<close> gives identifiers no row has\<close>
  "fresh_ids jobId newId db \<longleftrightarrow> inj newId \<and> (\<forall>n. \<forall>c\<in>set (hub_chunks db). bc_id c \<noteq> newId n)
     \<and> (\<forall>r\<in>set (hub_jobs db). sj_id r \<noteq> jobId) \<and> (\<forall>c\<in>set (hub_chunks db). bc_syncJobId c \<noteq> jobId)"

lemma startImport_supported:
  assumes "findConnector t cid db = Some connector" "registry (cn_provider connector) \<noteq> None" "a \<le> b"
  shows "snd (startImport registry jobId newId now t cid ds a b db) =
    audit_request t ''historical_import.started'' jobId
      (db\<lparr>hub_jobs := hub_jobs db @ [historical_job jobId now t cid ds a b], hub_chunks := hub_chunks db @ new_chunks newId t jobId a b\<rparr>)"
  using assms by (auto simp: startImport_def Let_def new_chunks_def)

lemma start_importing:
  assumes "findConnector t cid db = Some connector" "registry (cn_provider connector) \<noteq> None"
    and "valid_date a" "valid_date b" "a \<le> b" "fresh_ids jobId newId db"
  shows "progress jobId (snd (startImport registry jobId newId now t cid ds a b db))
      = ([historical_job jobId now t cid ds a b], new_chunks newId t jobId a b)"
    and "importing t jobId cid (historical_job jobId now t cid ds a b) [] (new_chunks newId t jobId a b)"
proof -
  have "\<forall>c\<in>set (new_chunks newId t jobId a b). bc_syncJobId c = jobId" using new_chunks_props(4) by (auto simp: chunk_of_def)
  then show "progress jobId (snd (startImport registry jobId newId now t cid ds a b db))
      = ([historical_job jobId now t cid ds a b], new_chunks newId t jobId a b)"
    using assms(1,2,5,6)
    by (simp add: startImport_supported progress_def only_def audit_request_def fresh_ids_def historical_job_def new_job_def)
next
  let ?cs = "new_chunks newId t jobId a b"
  have "dayno a \<le> dayno b" using assms(3-5) by (rule dayno_mono)
  then have "buildChunkRanges a b \<noteq> []" using length_chunk_loop[of "dayno a" "dayno b"] by (auto simp: buildChunkRanges_def)
  then have ne: "?cs \<noteq> []" using new_chunks_props(1)[of newId t jobId a b] by auto
  have "sorted_wrt (<) (map bc_chunkIndex ?cs)" by (simp add: new_chunks_props(2))
  moreover have "distinct (map bc_id ?cs)" using assms(6) by (simp add: new_chunks_props(3) distinct_map fresh_ids_def inj_on_def)
  moreover have "totals_match (historical_job jobId now t cid ds a b) ?cs"
  proof -
    have "(\<Sum>c\<leftarrow>?cs. f c) = 0" if "\<And>c. untouched c \<Longrightarrow> f c = (0::int)" for f
    proof -
      have "map f ?cs = map (\<lambda>_. 0) ?cs" using new_chunks_props(4)[of _ newId t jobId a b] that by (intro map_cong) auto
      then show ?thesis by (simp only: sum_list_0)
    qed
    then show ?thesis by (simp add: totals_match_def historical_job_def new_job_def untouched_def)
  qed
  ultimately show "importing t jobId cid (historical_job jobId now t cid ds a b) [] ?cs"
    using ne new_chunks_props(4)[of _ newId t jobId a b]
    by (simp add: importing_def list_all_iff historical_job_def new_job_def job_key_def)
qed


definition demo_hub_connector :: IntegrationConnector where
  "demo_hub_connector = \<lparr>cn_id = ''c1'', cn_tenantId = ''t1'', cn_connectorType = DATABASE, cn_provider = ''Postgres'',
     cn_status = CONN_ACTIVE, cn_config = [], cn_lastSyncAt = None, cn_lastSyncStatus = None\<rparr>"

definition demo_backfill_db :: backfill_db where
  "demo_backfill_db = \<lparr>hub_connectors = [demo_hub_connector], hub_jobs = [], hub_subscriptions = [], hub_deliveries = [],
     hub_published = [], hub_chunks = [], hub_records = [], hub_audit = []\<rparr>"

definition demo_outcome :: HistoricalChunkOutcome where
  "demo_outcome = \<lparr>oc_completed = True, oc_recordsFound = 5, oc_recordsProcessed = 4, oc_recordsFailed = 0, oc_recordsDuplicate = 1,
     oc_checkpointCursor = None, oc_records = None, oc_errorDetails = None\<rparr>"

definition demo_registry :: hist_registry where
  "demo_registry p = (if p = ''Postgres'' then Some (\<lambda>_ _ _ _ _. Inr demo_outcome) else None)"

definition demo_newId :: "nat \<Rightarrow> uuid" where
  "demo_newId n = replicate (Suc n) (CHR ''k'')"

lemma demo_completes: "\<exists>adapter. demo_registry ''Postgres'' = Some adapter \<and> completes adapter demo_hub_connector"
  by (simp add: demo_registry_def completes_def demo_outcome_def)


section \<open>Requests and ticks in any order\<close>

datatype import_op =
    ImpStart hist_registry uuid "nat \<Rightarrow> uuid" millis uuid uuid string iso_date iso_date
  | ImpRetry uuid uuid
  | ImpResume uuid uuid
  | ImpCancel millis uuid uuid
  | ImpTick hist_registry "nat \<Rightarrow> nat \<Rightarrow> uuid" millis
  | ImpClaim hist_registry millis due_chunk \<comment> \<open>the first half of \<open>processChunk\<close>, whenever another tick selected the item\<close>
  | ImpFinish "nat \<Rightarrow> uuid" millis due_chunk SyncJob HistoricalChunkOutcome \<comment> \<open>its second half\<close>

fun import_effect :: "import_op \<Rightarrow> backfill_db \<Rightarrow> backfill_db" where
  "import_effect (ImpStart registry jobId newId now t cid ds a b) db = snd (startImport registry jobId newId now t cid ds a b db)"
| "import_effect (ImpRetry t c) db = snd (retryChunk t c db)"
| "import_effect (ImpResume t j) db = snd (resumeImport t j db)"
| "import_effect (ImpCancel now t j) db = snd (cancelImport now t j db)"
| "import_effect (ImpTick registry newId now) db = backfillTick registry newId now db"
| "import_effect (ImpClaim registry now item) db = snd (claimChunk registry now item db)"
| "import_effect (ImpFinish newId now item job out) db = finishChunk newId now item job out db"

fun import_fresh :: "import_op \<Rightarrow> backfill_db \<Rightarrow> bool" where
  "import_fresh (ImpStart registry jobId newId now t cid ds a b) db \<longleftrightarrow> fresh_ids jobId newId db"
| "import_fresh _ db \<longleftrightarrow> True"

inductive import_path :: "backfill_db \<Rightarrow> import_op list \<Rightarrow> backfill_db \<Rightarrow> bool" where
  path_Nil: "import_path db [] db"
| path_Cons: "import_fresh action db \<Longrightarrow> import_path (import_effect action db) ops db' \<Longrightarrow> import_path db (action # ops) db'"

inductive_cases import_path_ConsE: "import_path db (action # ops) db'"

text \<open>Every step but a start keeps the rows it finds; a start appends the rows of one new import.\<close>

lemma import_effect_rows:
  obtains (same) "same_rows db (import_effect action db)"
  | (started) registry jobId newId now t cid ds a b d where "action = ImpStart registry jobId newId now t cid ds a b"
      "hub_jobs d = hub_jobs db @ [historical_job jobId now t cid ds a b]" "hub_chunks d = hub_chunks db @ new_chunks newId t jobId a b"
      "same_rows d (import_effect action db)" "a \<le> b"
proof (cases action)
  case (ImpStart registry jobId newId now t cid ds a b)
  define d where "d = audit_request t ''historical_import.started'' jobId
    (db\<lparr>hub_jobs := hub_jobs db @ [historical_job jobId now t cid ds a b], hub_chunks := hub_chunks db @ new_chunks newId t jobId a b\<rparr>)"
  have "import_effect action db = db \<or> (a \<le> b \<and> (import_effect action db = d \<or> (\<exists>p. import_effect action db = failJobUnsupported now t jobId p d)))"
    by (auto simp: ImpStart startImport_def Let_def new_chunks_def d_def split: option.splits)
  then show thesis
  proof (elim disjE conjE exE)
    show "import_effect action db = db \<Longrightarrow> thesis" by (rule same) simp
  next
    assume "a \<le> b" "import_effect action db = d"
    then show thesis by (intro started[OF ImpStart, of d]) (simp_all add: d_def audit_request_def)
  next
    fix p assume "a \<le> b" "import_effect action db = failJobUnsupported now t jobId p d"
    then show thesis by (intro started[OF ImpStart, of d]) (simp_all add: same_rows_failJobUnsupported, simp_all add: d_def audit_request_def)
  qed
qed (rule same, simp add: same_rows_retryChunk same_rows_resumeImport same_rows_cancelImport same_rows_backfillTick
    same_rows_claimChunk same_rows_finishChunk)+

definition import_wf :: "backfill_db \<Rightarrow> bool" where
  \<comment> \<open>chunk identifiers are unique, and the chunks of every historical job are those of its range\<close>
  "import_wf db \<longleftrightarrow> distinct (map bc_id (hub_chunks db))
     \<and> (\<forall>r\<in>set (hub_jobs db). \<forall>a b. sj_range r = Some (a, b) \<longrightarrow>
          map (\<lambda>c. (bc_rangeStart c, bc_rangeEnd c)) (filter (\<lambda>c. bc_syncJobId c = sj_id r) (hub_chunks db)) = buildChunkRanges a b)"

lemma import_wf_ident:
  "import_wf db \<longleftrightarrow> distinct (map fst (map chunk_ident (hub_chunks db)))
     \<and> (\<forall>r\<in>set (map job_ident (hub_jobs db)). \<forall>a b. snd (snd (snd (snd (snd r)))) = Some (a, b) \<longrightarrow>
          map (\<lambda>p. snd (snd (snd (snd p)))) (filter (\<lambda>p. fst (snd (snd p)) = fst r) (map chunk_ident (hub_chunks db))) = buildChunkRanges a b)"
  by (simp add: import_wf_def o_def chunk_ident_def job_ident_def filter_map)

lemma import_wf_same_rows: "same_rows db db' \<Longrightarrow> import_wf db' \<longleftrightarrow> import_wf db"
  unfolding import_wf_ident same_rows_def by (simp del: set_map map_map)

lemma import_wf_effect:
  assumes "import_wf db" "import_fresh action db"
  shows "import_wf (import_effect action db)"
proof (cases rule: import_effect_rows[of db action])
  case same
  then show ?thesis using assms(1) by (simp add: import_wf_same_rows)
next
  case (started registry jobId newId now t cid ds a b d)
  have f: "fresh_ids jobId newId db" using assms(2) by (simp add: started(1))
  have own: "filter (\<lambda>c. bc_syncJobId c = jobId) (hub_chunks d) = new_chunks newId t jobId a b"
    using f new_chunks_props(4)[of _ newId t jobId a b] by (auto simp: started(3) fresh_ids_def filter_empty_conv chunk_of_def intro!: filter_True)
  have other: "filter (\<lambda>c. bc_syncJobId c = k) (hub_chunks d) = filter (\<lambda>c. bc_syncJobId c = k) (hub_chunks db)" if "k \<noteq> jobId" for k
    using that new_chunks_props(4)[of _ newId t jobId a b] by (auto simp: started(3) filter_empty_conv chunk_of_def)
  have "import_wf d"
    unfolding import_wf_def
  proof (intro conjI ballI allI impI)
    show "distinct (map bc_id (hub_chunks d))"
      using assms(1) f by (auto simp: started(3) new_chunks_props(3) import_wf_def fresh_ids_def distinct_map inj_on_def)
  next
    fix r a' b' assume r: "r \<in> set (hub_jobs d)" "sj_range r = Some (a', b')"
    show "map (\<lambda>c. (bc_rangeStart c, bc_rangeEnd c)) (filter (\<lambda>c. bc_syncJobId c = sj_id r) (hub_chunks d)) = buildChunkRanges a' b'"
    proof (cases "r \<in> set (hub_jobs db)")
      case True
      then have "sj_id r \<noteq> jobId" using f by (auto simp: fresh_ids_def)
      with True r(2) assms(1) show ?thesis by (simp add: other import_wf_def del: split_paired_All)
    next
      case False
      with r show ?thesis
        by (auto simp: started(2) historical_job_def new_job_def own new_chunks_props(1))
    qed
  qed
  then show ?thesis using started(4) by (simp add: import_wf_same_rows)
qed

lemma import_path_wf: "import_path db ops db' \<Longrightarrow> import_wf db \<Longrightarrow> import_wf db'"
  by (induction rule: import_path.induct) (auto intro: import_wf_effect)


lemma kept_update_chunks: "x \<in> set (hub_chunks db) \<Longrightarrow> \<not> P x \<Longrightarrow> x \<in> set (hub_chunks (update_chunks P f db))"
  using update_where_mem[of x "hub_chunks db" P f] by (simp add: hub_simps)

lemma kept_misc [simp]:
  "hub_chunks (audit_request t a r db) = hub_chunks db" "hub_chunks (land_records n now item out db) = hub_chunks db"
  by (simp_all add: audit_request_def land_records_def split: prod.splits)

lemma kept_failJobUnsupported:
  "x \<in> set (hub_chunks db) \<Longrightarrow> bc_status x \<noteq> CHUNK_QUEUED \<Longrightarrow> x \<in> set (hub_chunks (failJobUnsupported now t j p db))"
  unfolding failJobUnsupported_def by (rule kept_update_chunks) simp_all

lemma kept_processChunk:
  assumes "x \<in> set (hub_chunks db)" "bc_status x \<noteq> CHUNK_QUEUED" "bc_id x \<noteq> c"
  shows "x \<in> set (hub_chunks (processChunk r n now (t, j, c) db))"
proof -
  have claim: "x \<in> set (hub_chunks (snd (claimChunk r now (t, j, c) db)))"
    using assms
    by (auto simp: claimChunk_def Let_def chunk_key_def kept_failJobUnsupported split: sum.splits option.splits intro!: kept_update_chunks)
  then have "x \<in> set (hub_chunks (finishChunk n now (t, j, c) job out (snd (claimChunk r now (t, j, c) db))))" for job out
    using assms(3) by (auto simp: finishChunk_def Let_def chunk_key_def intro!: kept_update_chunks)
  with claim show ?thesis
    by (cases "claimChunk r now (t, j, c) db") (auto simp: processChunk_def split: sum.splits chunk_claim.splits)
qed

lemma due_chunk_queued: "(t, j, c) \<in> set (findDueChunks db) \<Longrightarrow> \<exists>y\<in>set (hub_chunks db). bc_id y = c \<and> bc_status y = CHUNK_QUEUED"
  using set_distinct_on[of bc_syncJobId "js_sort chunk_order (filter (due db) (hub_chunks db))"]
  by (auto simp: findDueChunks_order due_def)

lemma kept_backfillTick:
  assumes "distinct (map bc_id (hub_chunks db))" "x \<in> set (hub_chunks db)" "bc_status x \<noteq> CHUNK_QUEUED"
  shows "x \<in> set (hub_chunks (backfillTick r n now db))"
proof -
  have ne: "snd (snd item) \<noteq> bc_id x" if "item \<in> set (findDueChunks db)" for item
  proof -
    obtain y where "y \<in> set (hub_chunks db)" "bc_id y = snd (snd item)" "bc_status y = CHUNK_QUEUED"
      using due_chunk_queued[of "fst item" "fst (snd item)" "snd (snd item)" db] \<open>item \<in> _\<close> by auto
    with assms show ?thesis by (metis distinct_map inj_onD)
  qed
  have "x \<in> set (hub_chunks d) \<Longrightarrow> \<forall>item\<in>set xs. snd (snd item) \<noteq> bc_id x \<Longrightarrow>
      x \<in> set (hub_chunks (foldl (\<lambda>d (i, item). processChunk r (n i) now item d) d (enumerate k xs)))" for d k xs
  proof (induction xs arbitrary: d k)
    case (Cons item xs)
    then show ?case using assms(3) kept_processChunk[of x d "snd (snd item)" r "n k" now "fst item" "fst (snd item)"] by auto
  qed simp
  then show ?thesis using ne assms(2) by (simp add: backfillTick_def)
qed

fun is_sequential :: "import_op \<Rightarrow> bool" where
  \<comment> \<open>anything but a retry of a chosen chunk, and no fetch left half-done\<close>
  "is_sequential (ImpRetry _ _) = False"
| "is_sequential (ImpClaim _ _ _) = False"
| "is_sequential (ImpFinish _ _ _ _ _) = False"
| "is_sequential _ = True"

lemma kept_effect:
  assumes "distinct (map bc_id (hub_chunks db))" "is_sequential action" "x \<in> set (hub_chunks db)" "bc_status x = CHUNK_COMPLETED"
  shows "x \<in> set (hub_chunks (import_effect action db))"
proof (cases action)
  case (ImpStart registry jobId newId now t cid ds a b)
  then show ?thesis using assms
    by (auto simp: startImport_def Let_def split: option.splits intro!: kept_failJobUnsupported)
next
  case (ImpTick r n now)
  then show ?thesis using kept_backfillTick[OF assms(1,3)] assms(4) by simp
qed (use assms in \<open>auto simp: resumeImport_def cancelImport_def Let_def split: sum.splits intro!: kept_update_chunks\<close>)

text \<open>
  A completed chunk is final: no start, resume, cancellation or tick, in any number and
  order, changes its row again, so its days are not fetched a second time unless a retry of that very
  chunk is asked for.
\<close>

theorem completed_chunks_are_final:
  assumes "import_path db ops db'" "list_all is_sequential ops" "import_wf db" "x \<in> set (hub_chunks db)" "bc_status x = CHUNK_COMPLETED"
  shows "x \<in> set (hub_chunks db')"
  using assms
proof (induction rule: import_path.induct)
  case (path_Cons action db ops db')
  have "x \<in> set (hub_chunks (import_effect action db))"
    using path_Cons.prems by (intro kept_effect) (simp_all add: import_wf_def)
  moreover have "import_wf (import_effect action db)" using path_Cons.prems(2) path_Cons.hyps(1) by (rule import_wf_effect)
  ultimately show ?case using path_Cons by simp
qed simp

text \<open>
  The rule needs the ticks to be sequential: the claim of a selected chunk does not look at its status,
  so an import cancelled while a fetch is running is declared completed when the fetch returns.
\<close>

lemma update_whereE:
  assumes "y \<in> set (update_where P f xs)"
  obtains x where "x \<in> set xs" "P x" "y = f x" | "y \<in> set xs" "\<not> P y"
  using assms by (induction xs) (auto split: if_splits)

lemma cancelled_no_queue:
  assumes "findJob t j db = Inr job" "x \<in> set (hub_chunks (snd (cancelImport now t j db)))" "chunk_of t j x"
  shows "bc_status x \<noteq> CHUNK_QUEUED"
proof -
  let ?cancel = "\<lambda>s. update_where (\<lambda>c. chunk_of t j c \<and> bc_status c = s) (bc_status_update (\<lambda>_. CHUNK_CANCELLED))"
  have "x \<in> set (?cancel CHUNK_RUNNING (?cancel CHUNK_QUEUED (hub_chunks db)))"
    using assms(1,2) by (simp add: cancelImport_def Let_def hub_simps)
  then show ?thesis
  proof (cases rule: update_whereE)
    case 2
    from 2(1) show ?thesis by (cases rule: update_whereE) (use assms(3) in auto)
  qed simp
qed

theorem cancelled_import_completes:
  assumes "findJob t j db = Inr row" "oc_completed out" "r \<in> set (hub_jobs (finishChunk newId now (t, j, c) job out (snd (cancelImport now' t j db))))"
    and "job_key t j r"
  shows "sj_status r = JOB_COMPLETED"
proof -
  define d where "d = update_chunks (chunk_key t c) (chunk_result out now) (snd (cancelImport now' t j db))"
  have "bc_status x \<noteq> CHUNK_QUEUED" if "x \<in> set (hub_chunks d)" "chunk_of t j x" for x
    using that(1) unfolding d_def hub_simps
  proof (cases rule: update_whereE)
    case (1 y) then show ?thesis using assms(2) by (simp add: chunk_result_def)
  next
    case 2 then show ?thesis using cancelled_no_queue[OF assms(1)] that(2) by blast
  qed
  then have none: "filter (\<lambda>c. chunk_of t j c \<and> bc_status c = CHUNK_QUEUED) (hub_chunks d) = []" by (auto simp: filter_empty_conv)
  have "r \<in> set (update_where (job_key t j) (job_result job out 0 now) (hub_jobs d))"
    using assms(3) none unfolding finishChunk_def d_def[symmetric] by (simp add: Let_def land_records_def update_job_frame(6) d_def[symmetric])
  then show ?thesis
  proof (cases rule: update_whereE)
    case (1 y) then show ?thesis using assms(2) by (simp add: job_result_def Let_def)
  qed (use assms(4) in simp)
qed

section \<open>Witnesses\<close>

definition demo_start :: import_op where
  "demo_start = ImpStart demo_registry ''j1'' demo_newId 0 ''t1'' ''c1'' ''calls'' (2024, 2, 26) (2024, 3, 12)"

definition demo_importing :: backfill_db where
  "demo_importing = import_effect (ImpTick demo_registry (\<lambda>_. demo_newId) 60000) (import_effect demo_start demo_backfill_db)"

lemma demo_fresh: "import_fresh demo_start demo_backfill_db"
  by (simp add: demo_start_def fresh_ids_def demo_backfill_db_def demo_newId_def inj_def)

lemma demo_wf: "import_wf demo_backfill_db"
  by (simp add: import_wf_def demo_backfill_db_def)

lemma demo_path: "import_path demo_backfill_db [demo_start, ImpTick demo_registry (\<lambda>_. demo_newId) 60000] demo_importing"
  by (auto simp: demo_importing_def demo_fresh intro!: import_path.intros)

theorem imports_do_not_interfere_witness:
  "progress ''j1'' (backfillTick demo_registry (\<lambda>_. demo_newId) 120000 demo_importing)
   = progress ''j1'' (backfillTick demo_registry (\<lambda>_. demo_newId) 120000 (only ''j1'' demo_importing))"
proof (rule imports_do_not_interfere)
  show "distinct (map bc_id (hub_chunks demo_importing))" using import_path_wf[OF demo_path demo_wf] by (simp add: import_wf_def)
qed


theorem completed_chunks_are_final_witness:
  "hd (hub_chunks demo_importing) \<in> set (hub_chunks (import_effect (ImpCancel 90000 ''t1'' ''j1'') demo_importing))"
proof (rule completed_chunks_are_final)
  show "import_path demo_importing [ImpCancel 90000 ''t1'' ''j1''] (import_effect (ImpCancel 90000 ''t1'' ''j1'') demo_importing)"
    by (intro import_path.intros) simp
  show "import_wf demo_importing" by (rule import_path_wf[OF demo_path demo_wf])
  show "hd (hub_chunks demo_importing) \<in> set (hub_chunks demo_importing)" by code_simp
  show "bc_status (hd (hub_chunks demo_importing)) = CHUNK_COMPLETED" by code_simp
qed simp

end
