(* ===== verification/Hub_Sync.thy ===== *)
theory Hub_Sync
  imports Hub_Rate_Limit Hub_Backfill
begin

text \<open>
  Running a synchronisation: the batch runner with its cron tick and manual trigger
  (\<open>batch-sync-runner.service.ts\<close>) and the streaming relay (\<open>streaming-relay.service.ts\<close>). Provider
  adapters and the table of published rate limits are parameters; a batch adapter answers with the
  delays it reported while throttled and its outcome or the error it threw. Beside the tables the runner
  keeps the token buckets, and a log of the adapter calls made; the relay keeps the sessions it holds and
  a log of those it closed.
\<close>

section \<open>The batch runner\<close>

type_synonym batch_adapter = "IntegrationConnector \<Rightarrow> SyncJob \<Rightarrow> int list \<times> (string + SyncJobCompletion)"

record batch_env =
  se_registry :: "string \<Rightarrow> batch_adapter option"
  se_limits :: "string \<Rightarrow> ProviderRateLimitConfig option"

type_synonym 'a batch_state = "'a hub_db_scheme \<times> token_buckets \<times> (uuid \<times> uuid) list"

definition failed_completion :: "CompletionStatus \<Rightarrow> json_object \<Rightarrow> SyncJobCompletion" where
  "failed_completion status details = \<lparr>co_status = status, co_recordsProcessed = 0, co_recordsFailed = 0,
     co_recordsConflicted = None, co_errorDetails = Some details\<rparr>"

definition throttled_completion :: "string \<Rightarrow> int option \<Rightarrow> SyncJobCompletion" where
  "throttled_completion provider retryAfterMs = failed_completion DONE_PARTIAL_FAILURE
     [(''reason'', JStr ''rate_limited''), (''provider'', JStr provider),
      (''retryAfterMs'', case retryAfterMs of None \<Rightarrow> JNull | Some ms \<Rightarrow> JNum (real_of_int ms))]"

definition no_adapter_completion :: "string \<Rightarrow> SyncJobCompletion" where
  "no_adapter_completion provider = failed_completion DONE_FAILED
     [(''reason'', JStr ''no_adapter_registered''), (''provider'', JStr provider), (''code'', JStr ''NO_BATCH_ADAPTER_REGISTERED'')]"

definition adapter_completion :: "string + SyncJobCompletion \<Rightarrow> SyncJobCompletion" where
  "adapter_completion result = (case result of Inr outcome \<Rightarrow> outcome
     | Inl message \<Rightarrow> failed_completion DONE_FAILED [(''reason'', JStr ''adapter_threw''), (''message'', JStr message)])"

definition runOne ::
  "batch_env \<Rightarrow> uuid \<Rightarrow> (nat \<Rightarrow> uuid) \<Rightarrow> millis \<Rightarrow> IntegrationConnector \<Rightarrow> SyncType \<Rightarrow> ('a batch_state, hub_error, SyncJob) svc" where
  "runOne env jobId newId now connector syncType st = (case st of (db, buckets, calls) \<Rightarrow>
     let t = cn_tenantId connector;
         (job, db1) = enqueueJob jobId now t (cn_id connector) syncType db;
         (decision, buckets') = tryAcquire (se_limits env (cn_provider connector)) now t (cn_id connector) buckets
     in case decision of
          RetryAfter ms \<Rightarrow>
            (case completeJob newId now t jobId (throttled_completion (cn_provider connector) ms) db1 of
               (r, db2) \<Rightarrow> (r, db2, buckets', calls))
        | Allowed \<Rightarrow>
            (case markRunning t jobId db1 of
               (Inl e, db2) \<Rightarrow> (Inl e, db2, buckets', calls)
             | (Inr running, db2) \<Rightarrow>
                 (case se_registry env (cn_provider connector) of
                    None \<Rightarrow> (case completeJob newId now t jobId (no_adapter_completion (cn_provider connector)) db2 of
                               (r, db3) \<Rightarrow> (r, db3, buckets', calls))
                  | Some adapter \<Rightarrow>
                      let (delays, result) = adapter connector running;
                          db3 = foldl (\<lambda>d ms. markRateLimited t jobId (now + ms) d) db2 delays
                      in (case completeJob newId now t jobId (adapter_completion result) db3 of
                            (r, db4) \<Rightarrow> (r, db4, buckets', calls @ [(t, cn_id connector)])))))"

definition triggerManualSync ::
  "batch_env \<Rightarrow> uuid \<Rightarrow> (nat \<Rightarrow> uuid) \<Rightarrow> millis \<Rightarrow> uuid \<Rightarrow> uuid \<Rightarrow> ('a batch_state, hub_error, SyncJob) svc" where
  "triggerManualSync env jobId newId now tenantId connectorId st = (case findConnector tenantId connectorId (fst st) of
       None \<Rightarrow> (Inl (ConnectorNotFound connectorId), st)
     | Some connector \<Rightarrow>
         if \<not> isBatchConnectorType (cn_connectorType connector)
         then (Inl (SyncNotSupportedForConnectorType (cn_connectorType connector)), st)
         else runOne env jobId newId now connector SYNC_INCREMENTAL st)"

definition findDueConnectors :: "'a hub_db_scheme \<Rightarrow> IntegrationConnector list" where
  "findDueConnectors db = filter (\<lambda>c. cn_connectorType c \<in> {HRIS, PAYROLL, CRM} \<and> cn_status c = CONN_ACTIVE
     \<and> \<not> (\<exists>j\<in>set (hub_jobs db). sj_connectorId j = cn_id c \<and> sj_status j = JOB_RUNNING)) (hub_connectors db)"

definition batchTick ::
  "batch_env \<Rightarrow> (nat \<Rightarrow> uuid) \<Rightarrow> (nat \<Rightarrow> nat \<Rightarrow> uuid) \<Rightarrow> millis \<Rightarrow> 'a batch_state \<Rightarrow> 'a batch_state" where
  "batchTick env jobIds newId now st =
     foldl (\<lambda>s (i, c). snd (runOne env (jobIds i) (newId i) now c SYNC_INCREMENTAL s)) st (enumerate 0 (findDueConnectors (fst st)))"

section \<open>The streaming relay\<close>

type_synonym relay_session = nat \<comment> \<open>an opaque handle\<close>

record relay_adapter =
  ra_connect :: "IntegrationConnector \<Rightarrow> string + relay_session"

type_synonym 'a relay_state = "'a hub_db_scheme \<times> (uuid \<rightharpoonup> relay_session) \<times> relay_session list" \<comment> \<open>tables, live sessions, disconnected sessions\<close>

definition relayStart ::
  "(string \<Rightarrow> relay_adapter option) \<Rightarrow> uuid \<Rightarrow> (nat \<Rightarrow> uuid) \<Rightarrow> millis \<Rightarrow> uuid \<Rightarrow> uuid \<Rightarrow> ('a relay_state, hub_error, SyncJob) svc" where
  "relayStart registry jobId newId now tenantId connectorId st = (case st of (db, live, gone) \<Rightarrow>
     (case findConnector tenantId connectorId db of
        None \<Rightarrow> (Inl (ConnectorNotFound connectorId), st)
      | Some connector \<Rightarrow>
          if \<not> isStreamingConnectorType (cn_connectorType connector)
          then (Inl (RelayNotSupportedForConnectorType (cn_connectorType connector)), st)
          else let (job, db1) = enqueueJob jobId now tenantId connectorId SYNC_STREAMING db
            in case registry (cn_provider connector) of
                 None \<Rightarrow> (case completeJob newId now tenantId jobId (failed_completion DONE_FAILED
                     [(''reason'', JStr ''no_adapter_registered''), (''provider'', JStr (cn_provider connector))]) db1 of
                     (r, db2) \<Rightarrow> (r, db2, live, gone))
               | Some adapter \<Rightarrow> (case ra_connect adapter connector of
                   Inl message \<Rightarrow> (case completeJob newId now tenantId jobId (failed_completion DONE_FAILED
                       [(''reason'', JStr ''adapter_connect_threw''), (''message'', JStr message)]) db1 of
                       (r, db2) \<Rightarrow> (r, db2, live, gone))
                 | Inr session \<Rightarrow> (case markRunning tenantId jobId db1 of
                       (r, db2) \<Rightarrow> (r, db2, live(connectorId \<mapsto> session), gone)))))"

definition relayEvent :: "millis \<Rightarrow> uuid \<Rightarrow> uuid \<Rightarrow> bool \<Rightarrow> 'a relay_state \<Rightarrow> 'a relay_state" where
  \<comment> \<open>the callbacks \<open>onEventForwarded\<close> and \<open>onEventFailed\<close> of a session\<close>
  "relayEvent now tenantId jobId forwarded st = (case st of (db, live, gone) \<Rightarrow>
     (if forwarded then incrementCounts now tenantId jobId (Some 1) None db else incrementCounts now tenantId jobId None (Some 1) db,
      live, gone))"

definition relayStop :: "(string \<Rightarrow> relay_adapter option) \<Rightarrow> (nat \<Rightarrow> uuid) \<Rightarrow> millis \<Rightarrow> uuid \<Rightarrow> uuid \<Rightarrow> ('a relay_state, hub_error, SyncJob) svc" where
  \<comment> \<open>a failing \<open>disconnect\<close> is logged and the session dropped all the same\<close>
  "relayStop registry newId now tenantId connectorId st = (case st of (db, live, gone) \<Rightarrow>
     (case findLatestForConnector tenantId connectorId (Some SYNC_STREAMING) db of
        None \<Rightarrow> (Inl (NoActiveRelaySession connectorId), st)
      | Some latest \<Rightarrow>
          if sj_status latest \<noteq> JOB_RUNNING then (Inl (NoActiveRelaySession connectorId), st)
          else let finish = (\<lambda>live' gone'. case completeJob newId now tenantId (sj_id latest)
                      \<lparr>co_status = DONE_COMPLETED, co_recordsProcessed = sj_recordsProcessed latest,
                       co_recordsFailed = sj_recordsFailed latest, co_recordsConflicted = None, co_errorDetails = None\<rparr> db of
                      (r, db') \<Rightarrow> (r, db', live', gone'))
            in case live connectorId of
                 None \<Rightarrow> finish live gone
               | Some session \<Rightarrow>
                   (case findConnector tenantId connectorId db of
                      None \<Rightarrow> (Inl (ConnectorNotFound connectorId), st)
                    | Some connector \<Rightarrow> finish (live(connectorId := None))
                        (if registry (cn_provider connector) = None then gone else gone @ [session]))))"

section \<open>Every run settles its job\<close>

definition job_fresh :: "uuid \<Rightarrow> 'a hub_db_scheme \<Rightarrow> bool" where
  "job_fresh jobId db \<longleftrightarrow> (\<forall>r\<in>set (hub_jobs db). sj_id r \<noteq> jobId)"

definition job_settled :: "uuid \<Rightarrow> millis \<Rightarrow> SyncJob \<Rightarrow> bool" where
  "job_settled jobId now r \<longleftrightarrow> sj_id r = jobId \<and> sj_status r \<in> {JOB_COMPLETED, JOB_FAILED, JOB_PARTIAL_FAILURE} \<and> sj_completedAt r = Some now"

definition last_job :: "SyncJob list \<Rightarrow> SyncJob \<Rightarrow> uuid \<Rightarrow> uuid \<Rightarrow> 'a hub_db_scheme \<Rightarrow> 'a hub_db_scheme \<Rightarrow> bool" where
  \<comment> \<open>the tables are those of \<open>db0\<close> with one more job\<close>
  "last_job js j t jobId db0 db \<longleftrightarrow> hub_jobs db = js @ [j] \<and> (\<forall>r\<in>set js. sj_id r \<noteq> jobId) \<and> job_key t jobId j
     \<and> hub_connectors db = hub_connectors db0 \<and> hub_published db = hub_published db0"

lemma update_where_last:
  "\<forall>r\<in>set js. sj_id r \<noteq> jobId \<Longrightarrow> job_key t jobId j \<Longrightarrow> update_where (job_key t jobId) f (js @ [j]) = js @ [f j]"
  using update_where_id[of js "job_key t jobId" f] by (simp add: update_where_append job_key_def)

lemma find_last: "\<forall>r\<in>set js. sj_id r \<noteq> jobId \<Longrightarrow> job_key t jobId j \<Longrightarrow> find_where (job_key t jobId) (js @ [j]) = Some j"
  by (induction js) (auto simp: job_key_def)

lemma enqueueJob_last:
  assumes "job_fresh jobId db" "enqueueJob jobId now t cid ty db = (job, db1)"
  shows "last_job (hub_jobs db) job t jobId db db1" "job = new_job jobId t cid ty now"
  using assms by (auto simp: enqueueJob_def job_fresh_def last_job_def job_key_def new_job_def Let_def)

lemma last_job_update:
  "last_job js j t jobId db0 db \<Longrightarrow> (\<And>x. job_ident (f x) = job_ident x) \<Longrightarrow> last_job js (f j) t jobId db0 (update_job t jobId f db)"
  by (auto simp: last_job_def hub_simps update_where_last job_key_def job_ident_def)

lemma markRunning_last:
  assumes "last_job js j t jobId db0 db"
  obtains db' where "markRunning t jobId db = (Inr (j\<lparr>sj_status := JOB_RUNNING\<rparr>), db')" "last_job js (j\<lparr>sj_status := JOB_RUNNING\<rparr>) t jobId db0 db'"
proof
  show "markRunning t jobId db = (Inr (j\<lparr>sj_status := JOB_RUNNING\<rparr>), update_job t jobId (sj_status_update (\<lambda>_. JOB_RUNNING)) db)"
    using assms by (intro markRunning_found) (auto simp: last_job_def find_last)
  show "last_job js (j\<lparr>sj_status := JOB_RUNNING\<rparr>) t jobId db0 (update_job t jobId (sj_status_update (\<lambda>_. JOB_RUNNING)) db)"
    using assms by (rule last_job_update) simp
qed

lemma markRateLimited_last:
  "last_job js j t jobId db0 db \<Longrightarrow> \<exists>until. last_job js (j\<lparr>sj_rateLimitedUntil := until\<rparr>) t jobId db0 (foldl (\<lambda>d ms. markRateLimited t jobId (now + ms) d) db delays)"
proof (induction delays arbitrary: db j)
  case Nil
  then show ?case by (auto intro: exI[of _ "sj_rateLimitedUntil j"])
next
  case (Cons ms delays)
  have "last_job js (j\<lparr>sj_rateLimitedUntil := Some (now + ms)\<rparr>) t jobId db0 (markRateLimited t jobId (now + ms) db)"
    unfolding markRateLimited_def using Cons.prems by (rule last_job_update) (simp add: job_ident_def)
  from Cons.IH[OF this] show ?case by simp
qed

lemma completeJob_last:
  assumes "last_job js j t jobId db0 db"
  obtains db' where "completeJob n now t jobId c db = (Inr (complete_row c now j), db')" "hub_jobs db' = js @ [complete_row c now j]"
    "hub_published db' = hub_published db0 @ [complete_row c now j]" "hub_connectors db' = hub_connectors db0"
    "job_settled jobId now (complete_row c now j)"
proof -
  have f: "find_where (job_key t jobId) (hub_jobs db) = Some j" using assms by (auto simp: last_job_def find_last)
  show thesis
    by (rule that[OF completeJob_found[OF f]]) (use assms in \<open>cases "co_status c"; auto simp: last_job_def hub_simps update_where_last job_settled_def complete_row_def job_key_def\<close>)+
qed

lemma runOne_settles:
  assumes "job_fresh jobId db"
  shows "\<exists>row db'. runOne env jobId newId now c ty (db, buckets, calls) =
      (Inr row, db', snd (tryAcquire (se_limits env (cn_provider c)) now (cn_tenantId c) (cn_id c) buckets),
       calls @ (if fst (tryAcquire (se_limits env (cn_provider c)) now (cn_tenantId c) (cn_id c) buckets) = Allowed
                   \<and> se_registry env (cn_provider c) \<noteq> None then [(cn_tenantId c, cn_id c)] else []))
    \<and> job_settled jobId now row \<and> hub_jobs db' = hub_jobs db @ [row] \<and> hub_published db' = hub_published db @ [row]
    \<and> hub_connectors db' = hub_connectors db"
proof -
  let ?t = "cn_tenantId c"
  obtain job db1 where e: "enqueueJob jobId now ?t (cn_id c) ty db = (job, db1)" by fastforce
  obtain decision bs where a: "tryAcquire (se_limits env (cn_provider c)) now ?t (cn_id c) buckets = (decision, bs)" by fastforce
  note l1 = enqueueJob_last(1)[OF assms e]
  show ?thesis
  proof (cases decision)
    case (RetryAfter ms)
    show ?thesis
      by (rule completeJob_last[OF l1, of newId now "throttled_completion (cn_provider c) ms"])
        (use RetryAfter in \<open>auto simp: runOne_def Let_def e a\<close>)
  next
    case Allowed
    obtain db2 where m: "markRunning ?t jobId db1 = (Inr (job\<lparr>sj_status := JOB_RUNNING\<rparr>), db2)"
      and l2: "last_job (hub_jobs db) (job\<lparr>sj_status := JOB_RUNNING\<rparr>) ?t jobId db db2" by (rule markRunning_last[OF l1])
    show ?thesis
    proof (cases "se_registry env (cn_provider c)")
      case None
      show ?thesis
        by (rule completeJob_last[OF l2, of newId now "no_adapter_completion (cn_provider c)"])
          (use Allowed None in \<open>auto simp: runOne_def Let_def e a m\<close>)
    next
      case (Some adapter)
      obtain delays result where r: "adapter c (job\<lparr>sj_status := JOB_RUNNING\<rparr>) = (delays, result)" by fastforce
      obtain until where l3: "last_job (hub_jobs db) (job\<lparr>sj_status := JOB_RUNNING, sj_rateLimitedUntil := until\<rparr>) ?t jobId db
          (foldl (\<lambda>d ms. markRateLimited ?t jobId (now + ms) d) db2 delays)" using markRateLimited_last[OF l2] by auto
      show ?thesis
        by (rule completeJob_last[OF l3, of newId now "adapter_completion result"])
          (use Allowed Some in \<open>auto simp: runOne_def Let_def e a m r\<close>)
    qed
  qed
qed

text \<open>
  Property C27. A synchronisation always settles: whether it is throttled, has no adapter, throws or
  returns, a run leaves exactly one new job row, in a terminal state with its completion time, announces
  exactly that row once, changes no other job, and has called the provider's adapter exactly when the
  rate limiter allowed it and an adapter exists.
\<close>

theorem sync_run_settles:
  assumes "job_fresh jobId db"
  shows "\<exists>row db'. runOne env jobId newId now c ty (db, buckets, calls) =
      (Inr row, db', snd (tryAcquire (se_limits env (cn_provider c)) now (cn_tenantId c) (cn_id c) buckets),
       calls @ (if fst (tryAcquire (se_limits env (cn_provider c)) now (cn_tenantId c) (cn_id c) buckets) = Allowed
                   \<and> se_registry env (cn_provider c) \<noteq> None then [(cn_tenantId c, cn_id c)] else []))
    \<and> job_settled jobId now row \<and> hub_jobs db' = hub_jobs db @ [row] \<and> hub_published db' = hub_published db @ [row]
    \<and> hub_connectors db' = hub_connectors db"
  using assms by (rule runOne_settles)

definition demo_sync_env :: batch_env where
  "demo_sync_env = \<lparr>se_registry = (\<lambda>p. if p = ''Workday'' then Some (\<lambda>_ _. ([500], Inr \<lparr>co_status = DONE_COMPLETED, co_recordsProcessed = 3,
       co_recordsFailed = 0, co_recordsConflicted = Some 0, co_errorDetails = None\<rparr>)) else None),
     se_limits = (\<lambda>p. limit 1 60)\<rparr>"

definition demo_hris :: IntegrationConnector where
  "demo_hris = demo_hub_connector\<lparr>cn_connectorType := HRIS, cn_provider := ''Workday''\<rparr>"

theorem sync_run_settles_witness:
  "\<exists>row db'. runOne demo_sync_env ''s1'' demo_newId 0 demo_hris SYNC_INCREMENTAL (demo_backfill_db, Map.empty, []) =
      (Inr row, db', snd (tryAcquire (limit 1 60) 0 ''t1'' ''c1'' Map.empty), [(''t1'', ''c1'')])
    \<and> job_settled ''s1'' 0 row \<and> hub_jobs db' = [row] \<and> hub_published db' = [row]"
proof -
  have "job_fresh ''s1'' demo_backfill_db" by (simp add: job_fresh_def demo_backfill_db_def)
  moreover have "fst (tryAcquire (limit 1 60) 0 ''t1'' ''c1'' Map.empty) = Allowed"
    by (simp add: tryAcquire_limit getOrCreateBucket_def new_bucket_def acquire_def take_token_def refill_def)
  ultimately show ?thesis
    using sync_run_settles[of "''s1''" demo_backfill_db demo_sync_env demo_newId 0 demo_hris SYNC_INCREMENTAL Map.empty "[]"]
    by (auto simp: demo_sync_env_def demo_hris_def demo_hub_connector_def demo_backfill_db_def)
qed

section \<open>How often a provider is called\<close>

type_synonym sync_run = "uuid \<times> (nat \<Rightarrow> uuid) \<times> millis \<times> IntegrationConnector \<times> SyncType"

definition sync_runs :: "batch_env \<Rightarrow> 'a batch_state \<Rightarrow> sync_run list \<Rightarrow> 'a batch_state" where
  "sync_runs env = foldl (\<lambda>s (jobId, newId, now, c, ty). snd (runOne env jobId newId now c ty s))"

definition run_call :: "batch_env \<Rightarrow> sync_run \<Rightarrow> limiter_call" where
  "run_call env run = (case run of (jobId, newId, now, c, ty) \<Rightarrow> (se_limits env (cn_provider c), cn_tenantId c, cn_id c, now))"

definition calls_for :: "string \<Rightarrow> (uuid \<times> uuid) list \<Rightarrow> nat" where
  "calls_for k calls = length (filter (\<lambda>(t, c). bucket_key t c = k) calls)"

lemma runOne_calls:
  assumes "runOne env jobId newId now c ty (db, buckets, calls) = (r, db', buckets', calls')"
  shows "buckets' = snd (tryAcquire (se_limits env (cn_provider c)) now (cn_tenantId c) (cn_id c) buckets)"
    and "calls' = calls \<or> calls' = calls @ [(cn_tenantId c, cn_id c)]
      \<and> fst (tryAcquire (se_limits env (cn_provider c)) now (cn_tenantId c) (cn_id c) buckets) = Allowed"
  using assms by (auto simp: runOne_def Let_def split: prod.splits RateLimitDecision.splits sum.splits option.splits)

lemma sync_runs_calls:
  "sync_runs env (db, buckets, calls) runs = (db', buckets', calls') \<Longrightarrow>
   calls_for k calls' \<le> calls_for k calls + allowed_for k (limiter_run buckets (map (run_call env) runs))"
proof (induction runs arbitrary: db buckets calls)
  case (Cons run runs)
  obtain jobId newId now c ty where run: "run = (jobId, newId, now, c, ty)" by (cases run)
  obtain r db1 bs1 calls1 where e: "runOne env jobId newId now c ty (db, buckets, calls) = (r, db1, bs1, calls1)"
    by (cases "runOne env jobId newId now c ty (db, buckets, calls)") auto
  obtain d where a: "tryAcquire (se_limits env (cn_provider c)) now (cn_tenantId c) (cn_id c) buckets = (d, bs1)"
    using runOne_calls(1)[OF e] by (metis prod.collapse)
  have "sync_runs env (db1, bs1, calls1) runs = (db', buckets', calls')" using Cons.prems e by (simp add: sync_runs_def run)
  from Cons.IH[OF this] runOne_calls(2)[OF e] show ?case by (auto simp: run run_call_def a calls_for_def)
qed (simp add: sync_runs_def)


definition demo_runs :: "sync_run list" where
  "demo_runs = [(''s1'', demo_newId, 0, demo_hris, SYNC_INCREMENTAL), (''s2'', demo_newId, 1000, demo_hris, SYNC_INCREMENTAL)]"


section \<open>The tick and running jobs\<close>

lemma running_job_not_due:
  "j \<in> set (hub_jobs db) \<Longrightarrow> sj_connectorId j = cn_id c \<Longrightarrow> sj_status j = JOB_RUNNING \<Longrightarrow> c \<notin> set (findDueConnectors db)"
  by (auto simp: findDueConnectors_def)

text \<open>A job without a queued chunk is left alone by every tick of the historical runner.\<close>

lemma idle_import_unchanged:
  assumes "distinct (map bc_id (hub_chunks db))" "\<forall>c\<in>set (hub_chunks db). bc_syncJobId c = j \<longrightarrow> bc_status c \<noteq> CHUNK_QUEUED"
  shows "progress j (run_ticks db es) = progress j db"
  using assms
proof (induction es arbitrary: db)
  case (Cons e es)
  obtain r n now where e: "e = (r, n, now)" by (cases e)
  let ?d = "backfillTick r n now db"
  have "filter (due (only j db)) (hub_chunks (only j db)) = []"
    using Cons.prems(2) by (auto simp: only_def due_def filter_empty_conv)
  then have "findDueChunks (only j db) = []" by (simp add: findDueChunks_order)
  then have p: "progress j ?d = progress j db"
    using tick_only[OF Cons.prems(1), of j r n now] by (simp add: backfillTick_def)
  have "map bc_id (hub_chunks ?d) = map bc_id (hub_chunks db)" by (rule same_rows_ids[OF same_rows_backfillTick])
  moreover have "\<forall>c\<in>set (hub_chunks ?d). bc_syncJobId c = j \<longrightarrow> bc_status c \<noteq> CHUNK_QUEUED"
  proof -
    have "filter (\<lambda>c. bc_syncJobId c = j) (hub_chunks ?d) = filter (\<lambda>c. bc_syncJobId c = j) (hub_chunks db)"
      using p by (simp add: progress_def only_def)
    then have "{c \<in> set (hub_chunks ?d). bc_syncJobId c = j} = {c \<in> set (hub_chunks db). bc_syncJobId c = j}"
      by (metis set_filter)
    then show ?thesis using Cons.prems(2) by blast
  qed
  ultimately show ?case using Cons.IH[of ?d] Cons.prems(1) p by (simp add: run_ticks_def e)
qed (simp add: run_ticks_def)

text \<open>
  Resuming an import that has neither failed nor queued chunks, for instance one already completed,
  therefore starves its connector: the job stays running through every later tick of the historical
  runner, and the batch tick skips a connector that has a running job.
\<close>

theorem resumed_import_starves_connector:
  assumes "distinct (map bc_id (hub_chunks db))" "findJob t j db = Inr job"
    and "\<forall>c\<in>set (hub_chunks db). bc_syncJobId c = j \<longrightarrow> bc_status c \<notin> {CHUNK_QUEUED, CHUNK_FAILED}"
  shows "\<forall>c. cn_id c = sj_connectorId job \<longrightarrow> c \<notin> set (findDueConnectors (run_ticks (snd (resumeImport t j db)) es))"
proof (intro allI impI)
  fix c :: IntegrationConnector assume c: "cn_id c = sj_connectorId job"
  let ?d = "snd (resumeImport t j db)"
  let ?run = "\<lambda>r. r\<lparr>sj_status := JOB_RUNNING, sj_completedAt := None\<rparr>"
  have job: "job \<in> set (hub_jobs db)" "job_key t j job"
    using assms(2) by (auto simp: findJob_def split: option.splits dest: find_where_SomeD)
  have upd: "hub_chunks ?d = hub_chunks db"
  proof -
    have "update_where (\<lambda>c. chunk_of t j c \<and> bc_status c = CHUNK_FAILED) (\<lambda>c. c\<lparr>bc_status := CHUNK_QUEUED, bc_errorDetails := None\<rparr>) (hub_chunks db)
        = hub_chunks db" using assms(3) by (intro update_where_id) (auto simp: chunk_of_def)
    then show ?thesis using assms(2) by (simp add: resumeImport_def Let_def hub_simps)
  qed
  have "?run job \<in> set (hub_jobs ?d)"
    using update_where_mem[OF job(1), of "job_key t j" ?run] job(2) assms(2)
    by (simp add: resumeImport_def Let_def hub_simps audit_request_def)
  then have "?run job \<in> set (fst (progress j ?d))" using job(2) by (simp add: progress_def only_def job_key_def)
  moreover have "progress j (run_ticks ?d es) = progress j ?d"
    using assms(1,3) upd by (intro idle_import_unchanged) auto
  moreover have "set (fst (progress j (run_ticks ?d es))) \<subseteq> set (hub_jobs (run_ticks ?d es))" by (auto simp: progress_def only_def)
  ultimately have "?run job \<in> set (hub_jobs (run_ticks ?d es))" by auto
  from running_job_not_due[OF this] c show "c \<notin> set (findDueConnectors (run_ticks ?d es))" by simp
qed

section \<open>A relay session from start to stop\<close>

definition relay_events :: "uuid \<Rightarrow> uuid \<Rightarrow> 'a relay_state \<Rightarrow> (millis \<times> bool) list \<Rightarrow> 'a relay_state" where
  "relay_events tenantId jobId = foldl (\<lambda>s (now, forwarded). relayEvent now tenantId jobId forwarded s)"

definition counts_to :: "SyncJob \<Rightarrow> int \<Rightarrow> int \<Rightarrow> SyncJob \<Rightarrow> bool" where
  "counts_to j p f j' \<longleftrightarrow> (\<exists>at_ms. j' = j\<lparr>sj_recordsProcessed := sj_recordsProcessed j + p, sj_recordsFailed := sj_recordsFailed j + f, sj_lastEventAt := at_ms\<rparr>)"

lemma relay_events_last:
  assumes "last_job js j t jobId db0 db"
  shows "\<exists>j' db'. relay_events t jobId (db, live, gone) es = (db', live, gone) \<and> last_job js j' t jobId db0 db'
    \<and> counts_to j (int (length (filter snd es))) (int (length (filter (\<lambda>e. \<not> snd e) es))) j'"
  using assms
proof (induction es arbitrary: db j)
  case Nil
  have "counts_to j 0 0 j" by (auto simp: counts_to_def intro: exI[of _ "sj_lastEventAt j"])
  with Nil show ?case by (auto simp: relay_events_def)
next
  case (Cons e es)
  obtain now fwd where e: "e = (now, fwd)" by (cases e)
  define f where "f = (if fwd then increment_row (Some 1) None now else increment_row None (Some 1) now)"
  have "relayEvent now t jobId fwd (db, live, gone) = (update_job t jobId f db, live, gone)"
    by (simp add: relayEvent_def incrementCounts_def f_def)
  moreover have "last_job js (f j) t jobId db0 (update_job t jobId f db)"
    using Cons.prems by (rule last_job_update) (simp add: f_def increment_row_def job_ident_def)
  from Cons.IH[OF this] obtain j' db' where "relay_events t jobId (update_job t jobId f db, live, gone) es = (db', live, gone)"
    "last_job js j' t jobId db0 db'" "counts_to (f j) (int (length (filter snd es))) (int (length (filter (\<lambda>e. \<not> snd e) es))) j'" by blast
  moreover from this(3) have "counts_to j (int (length (filter snd (e # es)))) (int (length (filter (\<lambda>e. \<not> snd e) (e # es)))) j'"
    by (auto simp: counts_to_def f_def increment_row_def e algebra_simps intro!: exI[of _ "sj_lastEventAt j'"])
  ultimately show ?case by (auto simp: relay_events_def e)
qed

interpretation latest_order: js_comparator "\<lambda>a b. sj_startedAt b \<le> sj_startedAt a"
  by unfold_locales auto

text \<open>The latest of several jobs is the one started strictly after all the others.\<close>

lemma latest_first_last:
  assumes "\<forall>r\<in>set rows. sj_startedAt r < sj_startedAt j"
  shows "latest_first (rows @ [j]) = j # latest_first rows"
proof -
  have ins: "insort_by (\<lambda>a b. sj_startedAt b \<le> sj_startedAt a) r (j # xs) = j # insort_by (\<lambda>a b. sj_startedAt b \<le> sj_startedAt a) r xs"
    if "sj_startedAt r < sj_startedAt j" for r xs using that by simp
  show ?thesis using assms unfolding latest_first_def by (induction rows) (simp_all add: ins del: insort_by.simps(2))
qed

lemma findLatest_last:
  assumes "hub_jobs db = js @ [j]" "\<forall>r\<in>set js. sj_tenantId r = t \<and> sj_connectorId r = cid \<and> sj_syncType r = ty \<longrightarrow> sj_startedAt r < sj_startedAt j"
    and "sj_tenantId j = t" "sj_connectorId j = cid" "sj_syncType j = ty"
  shows "findLatestForConnector t cid (Some ty) db = Some j"
proof -
  let ?P = "\<lambda>r. sj_tenantId r = t \<and> sj_connectorId r = cid \<and> sj_syncType r = ty"
  have "latest_first (filter ?P js @ [j]) = j # latest_first (filter ?P js)"
    using assms(2) by (intro latest_first_last) auto
  with assms show ?thesis by (simp add: findLatestForConnector_def)
qed

text \<open>
  A relay session accounts for its events: started on a streaming connector, then told of
  any events, forwarded or failed, and stopped, it leaves its job completed with exactly those counts and
  no conflict count, and the session it opened is closed and no longer held.
\<close>

theorem relay_session_accounts_for_events:
  assumes "job_fresh jobId db" "findConnector t cid db = Some c" "isStreamingConnectorType (cn_connectorType c)"
    and "registry (cn_provider c) = Some adapter" "ra_connect adapter c = Inr session"
    and "\<forall>r\<in>set (hub_jobs db). sj_startedAt r < now"
  shows "\<exists>row db'. relayStop registry newId later t cid
      (relay_events t jobId (snd (relayStart registry jobId newId now t cid (db, live, gone))) es)
      = (Inr row, db', live(cid := None), gone @ [session])
    \<and> hub_jobs db' = hub_jobs db @ [row] \<and> sj_status row = JOB_COMPLETED \<and> sj_recordsConflicted row = None
    \<and> sj_recordsProcessed row = int (length (filter snd es)) \<and> sj_recordsFailed row = int (length (filter (\<lambda>e. \<not> snd e) es))"
proof -
  obtain job db1 where e: "enqueueJob jobId now t cid SYNC_STREAMING db = (job, db1)" by fastforce
  note l1 = enqueueJob_last[OF assms(1) e]
  let ?run = "job\<lparr>sj_status := JOB_RUNNING\<rparr>"
  obtain db2 where m: "markRunning t jobId db1 = (Inr ?run, db2)" and l2: "last_job (hub_jobs db) ?run t jobId db db2"
    by (rule markRunning_last[OF l1(1)])
  have start: "snd (relayStart registry jobId newId now t cid (db, live, gone)) = (db2, live(cid \<mapsto> session), gone)"
    using assms(2-5) by (simp add: relayStart_def e m)
  obtain j db3 where ev: "relay_events t jobId (db2, live(cid \<mapsto> session), gone) es = (db3, live(cid \<mapsto> session), gone)"
    and l3: "last_job (hub_jobs db) j t jobId db db3"
    and cnt: "counts_to ?run (int (length (filter snd es))) (int (length (filter (\<lambda>e. \<not> snd e) es))) j"
    using relay_events_last[OF l2, of "live(cid \<mapsto> session)" gone es] by blast
  have j: "sj_id j = jobId" "sj_tenantId j = t" "sj_connectorId j = cid" "sj_syncType j = SYNC_STREAMING" "sj_startedAt j = now"
    "sj_status j = JOB_RUNNING" "sj_recordsProcessed j = int (length (filter snd es))" "sj_recordsFailed j = int (length (filter (\<lambda>e. \<not> snd e) es))"
    using cnt by (auto simp: counts_to_def l1(2) new_job_def)
  have latest: "findLatestForConnector t cid (Some SYNC_STREAMING) db3 = Some j"
    using l3 assms(6) j by (intro findLatest_last[of db3 "hub_jobs db"]) (auto simp: last_job_def)
  have con: "findConnector t cid db3 = Some c" using assms(2) l3 by (simp add: findConnector_def last_job_def)
  define done_row where "done_row = \<lparr>co_status = DONE_COMPLETED, co_recordsProcessed = sj_recordsProcessed j,
    co_recordsFailed = sj_recordsFailed j, co_recordsConflicted = None, co_errorDetails = None\<rparr>"
  show ?thesis
  proof (rule completeJob_last[OF l3, of newId later done_row])
    fix db' assume cj: "completeJob newId later t jobId done_row db3 = (Inr (complete_row done_row later j), db')"
      "hub_jobs db' = hub_jobs db @ [complete_row done_row later j]"
    have "relayStop registry newId later t cid (db3, live(cid \<mapsto> session), gone)
        = (Inr (complete_row done_row later j), db', live(cid := None), gone @ [session])"
      using assms(4) by (simp add: relayStop_def latest con j(1,6) cj(1) done_row_def[symmetric] Let_def)
    then show ?thesis using cj(2) j(7,8) by (auto simp: start ev complete_row_def done_row_def)
  qed
qed

definition demo_acd :: IntegrationConnector where
  "demo_acd = demo_hub_connector\<lparr>cn_connectorType := ACD, cn_provider := ''Five9''\<rparr>"

definition demo_relay_db :: backfill_db where
  "demo_relay_db = demo_backfill_db\<lparr>hub_connectors := [demo_acd]\<rparr>"

definition demo_relay_registry :: "string \<Rightarrow> relay_adapter option" where
  "demo_relay_registry p = Some \<lparr>ra_connect = (\<lambda>_. Inr 7)\<rparr>"

theorem relay_session_accounts_for_events_witness:
  "\<exists>row db'. relayStop demo_relay_registry demo_newId 900 ''t1'' ''c1''
      (relay_events ''t1'' ''r1'' (snd (relayStart demo_relay_registry ''r1'' demo_newId 100 ''t1'' ''c1'' (demo_relay_db, Map.empty, [])))
        [(200, True), (300, False), (400, True)])
      = (Inr row, db', Map.empty(''c1'' := None), [7])
    \<and> hub_jobs db' = [row] \<and> sj_status row = JOB_COMPLETED \<and> sj_recordsConflicted row = None
    \<and> sj_recordsProcessed row = 2 \<and> sj_recordsFailed row = 1"
proof -
  have "\<exists>row db'. relayStop demo_relay_registry demo_newId 900 ''t1'' ''c1''
      (relay_events ''t1'' ''r1'' (snd (relayStart demo_relay_registry ''r1'' demo_newId 100 ''t1'' ''c1'' (demo_relay_db, Map.empty, [])))
        [(200, True), (300, False), (400, True)])
      = (Inr row, db', Map.empty(''c1'' := None), [] @ [7])
    \<and> hub_jobs db' = hub_jobs demo_relay_db @ [row] \<and> sj_status row = JOB_COMPLETED \<and> sj_recordsConflicted row = None
    \<and> sj_recordsProcessed row = int (length (filter snd [(200::int, True), (300, False), (400, True)]))
    \<and> sj_recordsFailed row = int (length (filter (\<lambda>e. \<not> snd e) [(200::int, True), (300, False), (400, True)]))"
    by (rule relay_session_accounts_for_events[where c = demo_acd and now = 100 and adapter = "\<lparr>ra_connect = (\<lambda>_. Inr 7)\<rparr>"])
      (simp_all add: job_fresh_def demo_relay_db_def demo_backfill_db_def findConnector_def demo_acd_def demo_hub_connector_def
        isStreamingConnectorType_def demo_relay_registry_def)
  then show ?thesis by (simp add: demo_relay_db_def demo_backfill_db_def)
qed

text \<open>
  Nothing stops a second start while a session is live: the second session replaces the first one's
  handle, so stopping closes the second only; the first job stays running and its session is neither
  held nor closed.
\<close>

lemma second_start_orphans_session:
  "(let start = (\<lambda>n jobId now st. snd (relayStart (\<lambda>_. Some \<lparr>ra_connect = (\<lambda>_. Inr n)\<rparr>) jobId demo_newId now ''t1'' ''c1'' st));
        (db, live, gone) = snd (relayStop demo_relay_registry demo_newId 900 ''t1'' ''c1'' (start 8 ''r2'' 200 (start 7 ''r1'' 100 (demo_relay_db, Map.empty, []))))
    in map sj_status (hub_jobs db) = [JOB_RUNNING, JOB_COMPLETED] \<and> live ''c1'' = None \<and> gone = [8])"
  by code_simp

end
