(* ===== verification/Employee_Records.thy ===== *)
theory Employee_Records
  imports Access_Policies Json_Value Platform_Outbox
begin

text \<open>
  The employee master data (\<open>employees.service.ts\<close>, \<open>employees.repository.ts\<close>): creation, update and
  transfer, each a lookup of what it refers to followed by one transaction that writes the row and its
  \<open>EmployeeChanged\<close> event. The constraints of \<open>org.employees\<close> are checked on the table a write would
  leave: row checks first, then the unique indexes, then the foreign keys. The columns of the personal
  profile, which only this service copies, are one map from column to value; weekly hours are the exact
  value of the \<open>numeric(5,2)\<close> column. The version history a trigger keeps is not modelled.
\<close>

section \<open>Data\<close>

datatype EmployeeStatus = EMP_ACTIVE | EMP_ON_LEAVE | EMP_TERMINATED | EMP_PENDING_ONBOARDING
datatype EmploymentType = FULL_TIME | PART_TIME | CONTRACTOR | SEASONAL

record Employee =
  em_tenantId :: uuid
  em_id :: uuid
  em_userId :: "uuid option"
  em_orgUnitId :: uuid
  em_employeeNumber :: string
  em_employmentType :: EmploymentType
  em_contractHoursPerWeek :: real
  em_hireDate :: iso_date
  em_terminationDate :: "iso_date option"
  em_costCenter :: "string option"
  em_managerEmployeeId :: "uuid option"
  em_status :: EmployeeStatus
  em_details :: "string \<rightharpoonup> json"
  em_updatedAt :: millis

datatype EmployeeChangedSubType = EC_created | EC_updated | EC_transferred | EC_terminated | EC_erased

record employee_event =
  ee_employeeId :: uuid
  ee_tenantId :: uuid
  ee_eventType :: EmployeeChangedSubType
  ee_orgUnitId :: uuid
  ee_updatedAt :: millis

record employee_db =
  ed_employees :: "Employee list"
  ed_orgUnits :: "(uuid \<times> uuid) list" \<comment> \<open>tenant, org unit\<close>
  ed_users :: "(uuid \<times> uuid) list" \<comment> \<open>tenant, user\<close>
  ed_outbox :: "employee_event outbox_event list"
  ed_policies :: policy_db

datatype employee_error =
    EmployeeNotFound uuid
  | OrgUnitNotFound uuid
  | UserAlreadyLinked uuid
  | EmployeeLimit policy_error
  | CheckViolation
  | UniqueViolation
  | ForeignKeyViolation

record CreateEmployeeInput =
  ci_userId :: "uuid option"
  ci_orgUnitId :: uuid
  ci_employeeNumber :: string
  ci_employmentType :: EmploymentType
  ci_contractHoursPerWeek :: real
  ci_hireDate :: iso_date
  ci_costCenter :: "string option"
  ci_managerEmployeeId :: "uuid option"
  ci_details :: "string \<rightharpoonup> json"

record UpdateEmployeeInput =
  ui_employmentType :: "EmploymentType option"
  ui_contractHoursPerWeek :: "real option"
  ui_costCenter :: "string option option" \<comment> \<open>\<open>Some None\<close> is an explicit \<open>null\<close>\<close>
  ui_status :: "EmployeeStatus option"
  ui_terminationDate :: "iso_date option"
  ui_userId :: "uuid option option"
  ui_details :: "string \<rightharpoonup> json"

section \<open>The table\<close>

definition row_checks :: "Employee \<Rightarrow> bool" where
  "row_checks e \<longleftrightarrow> em_managerEmployeeId e \<noteq> Some (em_id e)
     \<and> (case em_terminationDate e of None \<Rightarrow> True | Some d \<Rightarrow> em_hireDate e \<le> d)"

definition unique_indexes :: "Employee list \<Rightarrow> bool" where
  "unique_indexes es \<longleftrightarrow> distinct (map (\<lambda>e. (em_tenantId e, em_id e)) es)
     \<and> distinct (map (\<lambda>e. (em_tenantId e, em_employeeNumber e)) es)
     \<and> distinct (map (\<lambda>e. (em_tenantId e, em_userId e)) (filter (\<lambda>e. em_userId e \<noteq> None) es))"

definition employee_row :: "uuid \<Rightarrow> uuid \<Rightarrow> Employee \<Rightarrow> bool" where
  "employee_row tenantId i e \<longleftrightarrow> em_tenantId e = tenantId \<and> em_id e = i"

definition foreign_keys :: "employee_db \<Rightarrow> Employee list \<Rightarrow> bool" where
  "foreign_keys db es \<longleftrightarrow> list_all (\<lambda>e. (em_tenantId e, em_orgUnitId e) \<in> set (ed_orgUnits db)
     \<and> (case em_managerEmployeeId e of None \<Rightarrow> True | Some m \<Rightarrow> list_ex (employee_row (em_tenantId e) m) es)
     \<and> (case em_userId e of None \<Rightarrow> True | Some u \<Rightarrow> (em_tenantId e, u) \<in> set (ed_users db))) es"

definition write_employees :: "Employee list \<Rightarrow> employee_db \<Rightarrow> employee_error + employee_db" where
  "write_employees es db =
     (if \<not> list_all row_checks es then Inl CheckViolation
      else if \<not> unique_indexes es then Inl UniqueViolation
      else if \<not> foreign_keys db es then Inl ForeignKeyViolation
      else Inr (db\<lparr>ed_employees := es\<rparr>))"

definition findEmployee :: "uuid \<Rightarrow> uuid \<Rightarrow> employee_db \<Rightarrow> Employee option" where
  "findEmployee tenantId i db = find_where (employee_row tenantId i) (ed_employees db)"

definition findByEmployeeNumber :: "uuid \<Rightarrow> string \<Rightarrow> employee_db \<Rightarrow> Employee option" where
  "findByEmployeeNumber tenantId number db =
     find_where (\<lambda>e. em_tenantId e = tenantId \<and> em_employeeNumber e = number) (ed_employees db)"

definition employees_of_tenant :: "uuid \<Rightarrow> employee_db \<Rightarrow> nat" where
  "employees_of_tenant tenantId db = length (filter (\<lambda>e. em_tenantId e = tenantId) (ed_employees db))"

definition toFixed2 :: "real \<Rightarrow> real" where
  \<comment> \<open>\<open>x.toFixed(2)\<close>: the nearest hundredth, the larger one of two\<close>
  "toFixed2 x = real_of_int \<lfloor>100 * x + 1 / 2\<rfloor> / 100"

text \<open>
  The columns of the profile. A creation fills every column, an update sets the columns it names; the
  wage is rounded like the hours, and the avatar is only set by its own operation.
\<close>

definition PROFILE_COLUMNS :: "string list" where
  "PROFILE_COLUMNS = [''middleInitial'', ''suffix'', ''birthDate'', ''email'', ''desktopMessagingUsername'', ''homePhone'', ''workPhone'',
     ''cellPhone'', ''homeAddress'', ''isSupervisor'', ''isTeamLead'', ''teamLeadEmployeeId'', ''jobTitle'', ''taxId'', ''wageAmount'', ''rank'']"

definition profile_value :: "string \<Rightarrow> json \<Rightarrow> json" where
  "profile_value column v = (case v of JNum x \<Rightarrow> if column = ''wageAmount'' then JNum (toFixed2 x) else v | _ \<Rightarrow> v)"

definition new_profile :: "(string \<rightharpoonup> json) \<Rightarrow> (string \<rightharpoonup> json)" where
  \<comment> \<open>\<open>input.x ?? null\<close>, and \<open>?? false\<close> for the two flags\<close>
  "new_profile input = (\<lambda>column.
     if column = ''avatarUrl'' then Some JNull
     else if column \<in> set PROFILE_COLUMNS then
       Some (case input column of
           None \<Rightarrow> if column \<in> {''isSupervisor'', ''isTeamLead''} then JBool False else JNull
         | Some JNull \<Rightarrow> if column \<in> {''isSupervisor'', ''isTeamLead''} then JBool False else JNull
         | Some v \<Rightarrow> profile_value column v)
     else None)"

definition changed_profile :: "(string \<rightharpoonup> json) \<Rightarrow> (string \<rightharpoonup> json) \<Rightarrow> (string \<rightharpoonup> json)" where
  "changed_profile old input = (\<lambda>column. case input column of
       Some v \<Rightarrow> if column \<in> set PROFILE_COLUMNS then Some (profile_value column v) else old column
     | None \<Rightarrow> old column)"

section \<open>Operations\<close>

definition buildEmployeeChangedEvent :: "EmployeeChangedSubType \<Rightarrow> Employee \<Rightarrow> employee_event" where
  "buildEmployeeChangedEvent ty e = \<lparr>ee_employeeId = em_id e, ee_tenantId = em_tenantId e, ee_eventType = ty,
     ee_orgUnitId = em_orgUnitId e, ee_updatedAt = em_updatedAt e\<rparr>"

definition EMPLOYEE_CHANGED :: string where
  "EMPLOYEE_CHANGED = ''agno.org.employee.changed.v1''"

definition announce :: "uuid \<Rightarrow> millis \<Rightarrow> uuid \<Rightarrow> EmployeeChangedSubType \<Rightarrow> Employee \<Rightarrow> employee_db \<Rightarrow> employee_db" where
  "announce eventId now tenantId ty e db = db\<lparr>ed_outbox :=
     org_insertWithinTransaction eventId now tenantId EMPLOYEE_CHANGED (buildEmployeeChangedEvent ty e) (ed_outbox db)\<rparr>"

definition createWithOutboxEvent ::
  "uuid \<Rightarrow> millis \<Rightarrow> EmployeeChangedSubType \<Rightarrow> Employee \<Rightarrow> (employee_db, employee_error, Employee) txn" where
  "createWithOutboxEvent eventId now ty e db = (case write_employees (ed_employees db @ [e]) db of
       Inl err \<Rightarrow> Inl err
     | Inr db' \<Rightarrow> Inr (e, announce eventId now (em_tenantId e) ty e db'))"

definition updateWithOutboxEvent ::
  "uuid \<Rightarrow> millis \<Rightarrow> EmployeeChangedSubType \<Rightarrow> uuid \<Rightarrow> uuid \<Rightarrow> (Employee \<Rightarrow> Employee) \<Rightarrow> (employee_db, employee_error, Employee) txn" where
  \<comment> \<open>the caller has looked the row up; \<open>findOneOrFail\<close> reads it back\<close>
  "updateWithOutboxEvent eventId now ty tenantId i partial db =
     (case write_employees (update_where (employee_row tenantId i) (\<lambda>e. (partial e)\<lparr>em_updatedAt := now\<rparr>) (ed_employees db)) db of
        Inl err \<Rightarrow> Inl err
      | Inr db' \<Rightarrow> (case findEmployee tenantId i db' of
          None \<Rightarrow> Inl (EmployeeNotFound i)
        | Some e \<Rightarrow> Inr (e, announce eventId now tenantId ty e db')))"

definition new_employee :: "uuid \<Rightarrow> millis \<Rightarrow> uuid \<Rightarrow> CreateEmployeeInput \<Rightarrow> Employee" where
  "new_employee newId now tenantId input = \<lparr>em_tenantId = tenantId, em_id = newId, em_userId = ci_userId input,
     em_orgUnitId = ci_orgUnitId input, em_employeeNumber = ci_employeeNumber input, em_employmentType = ci_employmentType input,
     em_contractHoursPerWeek = toFixed2 (ci_contractHoursPerWeek input), em_hireDate = ci_hireDate input,
     em_terminationDate = None, em_costCenter = ci_costCenter input, em_managerEmployeeId = ci_managerEmployeeId input,
     em_status = EMP_PENDING_ONBOARDING, em_details = new_profile (ci_details input), em_updatedAt = now\<rparr>"

definition createEmployee ::
  "uuid \<Rightarrow> uuid \<Rightarrow> millis \<Rightarrow> uuid \<Rightarrow> CreateEmployeeInput \<Rightarrow> (employee_db, employee_error, Employee) svc" where
  "createEmployee newId eventId now tenantId input db =
     (case assertWithinLimit tenantId ''maxEmployees'' (employees_of_tenant tenantId db) now (ed_policies db) of
        Inl e \<Rightarrow> (Inl (EmployeeLimit e), db)
      | Inr _ \<Rightarrow>
          if (tenantId, ci_orgUnitId input) \<notin> set (ed_orgUnits db) then (Inl (OrgUnitNotFound (ci_orgUnitId input)), db)
          else if truthy_str (ci_managerEmployeeId input) \<and> findEmployee tenantId (the (ci_managerEmployeeId input)) db = None
          then (Inl (EmployeeNotFound (the (ci_managerEmployeeId input))), db)
          else run_txn (createWithOutboxEvent eventId now EC_created (new_employee newId now tenantId input)) db)"

definition apply_update :: "millis \<Rightarrow> UpdateEmployeeInput \<Rightarrow> Employee \<Rightarrow> Employee" where
  "apply_update now input e = e\<lparr>
     em_employmentType := the_default (ui_employmentType input) (em_employmentType e),
     em_contractHoursPerWeek := (case ui_contractHoursPerWeek input of None \<Rightarrow> em_contractHoursPerWeek e | Some h \<Rightarrow> toFixed2 h),
     em_costCenter := the_default (ui_costCenter input) (em_costCenter e),
     em_status := the_default (ui_status input) (em_status e),
     em_terminationDate := (if ui_status input = Some EMP_TERMINATED
        then Some (the_default (ui_terminationDate input) (utcDateKey now))
        else case ui_terminationDate input of None \<Rightarrow> em_terminationDate e | Some d \<Rightarrow> Some d),
     em_userId := the_default (ui_userId input) (em_userId e),
     em_details := changed_profile (em_details e) (ui_details input)\<rparr>"

definition updateEmployee ::
  "uuid \<Rightarrow> millis \<Rightarrow> uuid \<Rightarrow> uuid \<Rightarrow> UpdateEmployeeInput \<Rightarrow> (employee_db, employee_error, Employee) svc" where
  "updateEmployee eventId now tenantId i input db = (case findEmployee tenantId i db of
       None \<Rightarrow> (Inl (EmployeeNotFound i), db)
     | Some _ \<Rightarrow>
         (case run_txn (updateWithOutboxEvent eventId now (if ui_status input = Some EMP_TERMINATED then EC_terminated else EC_updated)
                 tenantId i (apply_update now input)) db of
            (Inl UniqueViolation, db') \<Rightarrow> (Inl (case ui_userId input of Some (Some u) \<Rightarrow> UserAlreadyLinked u | _ \<Rightarrow> UniqueViolation), db')
          | r \<Rightarrow> r))"

definition transferEmployee ::
  "uuid \<Rightarrow> millis \<Rightarrow> uuid \<Rightarrow> uuid \<Rightarrow> uuid \<Rightarrow> uuid option option \<Rightarrow> (employee_db, employee_error, Employee) svc" where
  "transferEmployee eventId now tenantId i newOrgUnitId newManager db = (case findEmployee tenantId i db of
       None \<Rightarrow> (Inl (EmployeeNotFound i), db)
     | Some _ \<Rightarrow>
         if (tenantId, newOrgUnitId) \<notin> set (ed_orgUnits db) then (Inl (OrgUnitNotFound newOrgUnitId), db)
         else case newManager of
           Some (Some m) \<Rightarrow>
             if m \<noteq> [] \<and> findEmployee tenantId m db = None then (Inl (EmployeeNotFound m), db)
             else run_txn (updateWithOutboxEvent eventId now EC_transferred tenantId i
                    (\<lambda>e. e\<lparr>em_orgUnitId := newOrgUnitId, em_managerEmployeeId := Some m\<rparr>)) db
         | Some None \<Rightarrow> run_txn (updateWithOutboxEvent eventId now EC_transferred tenantId i
                    (\<lambda>e. e\<lparr>em_orgUnitId := newOrgUnitId, em_managerEmployeeId := None\<rparr>)) db
         | None \<Rightarrow> run_txn (updateWithOutboxEvent eventId now EC_transferred tenantId i (\<lambda>e. e\<lparr>em_orgUnitId := newOrgUnitId\<rparr>)) db)"

definition setAvatarUrl :: "millis \<Rightarrow> uuid \<Rightarrow> uuid \<Rightarrow> string \<Rightarrow> (employee_db, employee_error, Employee) svc" where
  \<comment> \<open>a plain update of the row; it records no event\<close>
  "setAvatarUrl now tenantId i avatarUrl db = (case findEmployee tenantId i db of
       None \<Rightarrow> (Inl (EmployeeNotFound i), db)
     | Some _ \<Rightarrow>
         (let db' = db\<lparr>ed_employees := update_where (employee_row tenantId i)
                (\<lambda>e. e\<lparr>em_details := (em_details e)(''avatarUrl'' \<mapsto> JStr avatarUrl), em_updatedAt := now\<rparr>) (ed_employees db)\<rparr>
          in case findEmployee tenantId i db' of None \<Rightarrow> (Inl (EmployeeNotFound i), db') | Some e \<Rightarrow> (Inr e, db')))"

section \<open>Every write is announced\<close>

definition employees_ok :: "employee_db \<Rightarrow> bool" where
  "employees_ok db \<longleftrightarrow> list_all row_checks (ed_employees db) \<and> unique_indexes (ed_employees db) \<and> foreign_keys db (ed_employees db)"

definition announced :: "uuid \<Rightarrow> millis \<Rightarrow> EmployeeChangedSubType \<Rightarrow> Employee \<Rightarrow> employee_db \<Rightarrow> employee_db \<Rightarrow> bool" where
  \<comment> \<open>\<open>db'\<close> has the row and one more event, which describes it\<close>
  "announced eventId now ty row db db' \<longleftrightarrow> row \<in> set (ed_employees db')
     \<and> ed_outbox db' = org_insertWithinTransaction eventId now (em_tenantId row) EMPLOYEE_CHANGED (buildEmployeeChangedEvent ty row) (ed_outbox db)
     \<and> filter (\<lambda>e. \<not> employee_row (em_tenantId row) (em_id row) e) (ed_employees db')
       = filter (\<lambda>e. \<not> employee_row (em_tenantId row) (em_id row) e) (ed_employees db)
     \<and> ed_orgUnits db' = ed_orgUnits db \<and> ed_users db' = ed_users db \<and> ed_policies db' = ed_policies db \<and> employees_ok db'"

lemma write_employees_Inr:
  "write_employees es db = Inr db' \<Longrightarrow> db' = db\<lparr>ed_employees := es\<rparr> \<and> list_all row_checks es \<and> unique_indexes es \<and> foreign_keys db es"
  by (auto simp: write_employees_def split: if_splits)

lemma foreign_keys_cong: "ed_orgUnits db' = ed_orgUnits db \<Longrightarrow> ed_users db' = ed_users db \<Longrightarrow> foreign_keys db' es = foreign_keys db es"
  unfolding foreign_keys_def by (simp only:)

lemma announce_simps [simp]:
  "ed_employees (announce i now t ty e db) = ed_employees db" "ed_orgUnits (announce i now t ty e db) = ed_orgUnits db"
  "ed_users (announce i now t ty e db) = ed_users db" "ed_policies (announce i now t ty e db) = ed_policies db"
  "ed_outbox (announce i now t ty e db) = org_insertWithinTransaction i now t EMPLOYEE_CHANGED (buildEmployeeChangedEvent ty e) (ed_outbox db)"
  by (simp_all add: announce_def)

lemma createWithOutboxEvent_announced:
  assumes "createWithOutboxEvent eventId now ty e db = Inr (row, db')"
  shows "row = e \<and> ed_employees db' = ed_employees db @ [e] \<and> announced eventId now ty row db db'"
proof -
  obtain d where w: "write_employees (ed_employees db @ [e]) db = Inr d" and r: "row = e" "db' = announce eventId now (em_tenantId e) ty e d"
    using assms by (auto simp: createWithOutboxEvent_def split: sum.splits)
  note d = write_employees_Inr[OF w]
  show ?thesis using d r
    by (auto simp: announced_def employees_ok_def employee_row_def foreign_keys_cong[of "announce eventId now (em_tenantId e) ty e (db\<lparr>ed_employees := ed_employees db @ [e]\<rparr>)" db])
qed

lemma updateWithOutboxEvent_announced:
  assumes "updateWithOutboxEvent eventId now ty t i f db = Inr (row, db')"
    and "\<And>e. em_tenantId (f e) = em_tenantId e \<and> em_id (f e) = em_id e"
  shows "announced eventId now ty row db db' \<and> employee_row t i row
    \<and> ed_employees db' = update_where (employee_row t i) (\<lambda>e. (f e)\<lparr>em_updatedAt := now\<rparr>) (ed_employees db)"
proof -
  let ?g = "\<lambda>e. (f e)\<lparr>em_updatedAt := now\<rparr>"
  let ?es = "update_where (employee_row t i) ?g (ed_employees db)"
  obtain d where w: "write_employees ?es db = Inr d" and f: "findEmployee t i d = Some row" and r: "db' = announce eventId now t ty row d"
    using assms(1) by (auto simp: updateWithOutboxEvent_def split: sum.splits option.splits)
  note d = write_employees_Inr[OF w]
  have row: "row \<in> set ?es" "em_tenantId row = t" "em_id row = i"
    using f d find_where_SomeD[of "employee_row t i" ?es row] by (auto simp: findEmployee_def employee_row_def)
  have "filter (\<lambda>e. \<not> employee_row t i e) ?es = filter (\<lambda>e. \<not> employee_row t i e) (ed_employees db)"
  proof -
    have "filter (\<lambda>e. \<not> employee_row t i e) (update_where (employee_row t i) ?g xs) = filter (\<lambda>e. \<not> employee_row t i e) xs" for xs
      using assms(2) by (induction xs) (auto simp: employee_row_def)
    then show ?thesis .
  qed
  moreover have "foreign_keys db' ?es" using d r by (subst foreign_keys_cong[of db' db]) simp_all
  ultimately show ?thesis using d r row by (simp add: announced_def employees_ok_def employee_row_def)
qed

datatype employee_op =
    EmpCreate uuid uuid millis uuid CreateEmployeeInput
  | EmpUpdate uuid millis uuid uuid UpdateEmployeeInput
  | EmpTransfer uuid millis uuid uuid uuid "uuid option option"

fun employee_do :: "employee_op \<Rightarrow> (employee_db, employee_error, Employee) svc" where
  "employee_do (EmpCreate newId eventId now t input) = createEmployee newId eventId now t input"
| "employee_do (EmpUpdate eventId now t i input) = updateEmployee eventId now t i input"
| "employee_do (EmpTransfer eventId now t i u m) = transferEmployee eventId now t i u m"

fun op_event :: "employee_op \<Rightarrow> uuid \<times> millis \<times> EmployeeChangedSubType" where
  \<comment> \<open>the event an operation records: its identifier, time and sub-type\<close>
  "op_event (EmpCreate newId eventId now t input) = (eventId, now, EC_created)"
| "op_event (EmpUpdate eventId now t i input) = (eventId, now, if ui_status input = Some EMP_TERMINATED then EC_terminated else EC_updated)"
| "op_event (EmpTransfer eventId now t i u m) = (eventId, now, EC_transferred)"

lemma apply_update_key [simp]: "em_tenantId (apply_update now input e) = em_tenantId e" "em_id (apply_update now input e) = em_id e"
  by (simp_all add: apply_update_def)

lemma run_txn_cases:
  "run_txn body s = (r, s') \<Longrightarrow> (\<exists>e. r = Inl e \<and> s' = s) \<or> (\<exists>a. r = Inr a \<and> body s = Inr (a, s'))"
  by (auto simp: run_txn_def split: sum.splits)

text \<open>
  Property C9. Employee data and its events agree: a creation, update or transfer either fails and
  leaves everything as it was, or leaves the row it returns in a table that satisfies every constraint,
  changes no other row, and records in the same transaction exactly one event, of the right kind, which
  describes that row.
\<close>

theorem employee_writes_are_announced:
  assumes "employee_do action db = (res, db')"
  shows "(case res of Inl e \<Rightarrow> db' = db
     | Inr row \<Rightarrow> announced (fst (op_event action)) (fst (snd (op_event action))) (snd (snd (op_event action))) row db db')"
proof (cases action)
  case (EmpCreate newId eventId now t input)
  then show ?thesis using assms
    by (auto simp: createEmployee_def split: sum.splits if_splits dest!: run_txn_cases createWithOutboxEvent_announced)
next
  case (EmpUpdate eventId now t i input)
  then show ?thesis using assms
    by (auto simp: updateEmployee_def split: sum.splits option.splits prod.splits employee_error.splits
        dest!: run_txn_cases updateWithOutboxEvent_announced)
next
  case (EmpTransfer eventId now t i u m)
  then show ?thesis using assms
    by (auto simp: transferEmployee_def split: sum.splits option.splits if_splits dest!: run_txn_cases updateWithOutboxEvent_announced)
qed

definition demo_master :: employee_db where
  "demo_master = \<lparr>ed_employees = [], ed_orgUnits = [(''t'', ''ou1''), (''t'', ''ou2'')], ed_users = [], ed_outbox = [], ed_policies = no_policies\<rparr>"

definition demo_hire :: CreateEmployeeInput where
  "demo_hire = \<lparr>ci_userId = None, ci_orgUnitId = ''ou1'', ci_employeeNumber = ''E-1'', ci_employmentType = FULL_TIME,
     ci_contractHoursPerWeek = 38, ci_hireDate = (2026, 3, 1), ci_costCenter = None, ci_managerEmployeeId = None, ci_details = Map.empty\<rparr>"

lemma demo_hire_eval:
  "createEmployee ''e1'' ''ev1'' 7 ''t'' demo_hire demo_master
     = (Inr (new_employee ''e1'' 7 ''t'' demo_hire),
        announce ''ev1'' 7 ''t'' EC_created (new_employee ''e1'' 7 ''t'' demo_hire)
          (demo_master\<lparr>ed_employees := [new_employee ''e1'' 7 ''t'' demo_hire]\<rparr>))"
  by (simp add: createEmployee_def assertWithinLimit_def getLimits_def findActiveByType_def numberField_def find_where_def truthy_str_def demo_master_def no_policies_def demo_hire_def
      run_txn_def createWithOutboxEvent_def write_employees_def row_checks_def unique_indexes_def foreign_keys_def new_employee_def)

theorem employee_writes_are_announced_witness:
  "announced ''ev1'' 7 EC_created (new_employee ''e1'' 7 ''t'' demo_hire) demo_master
     (announce ''ev1'' 7 ''t'' EC_created (new_employee ''e1'' 7 ''t'' demo_hire)
        (demo_master\<lparr>ed_employees := [new_employee ''e1'' 7 ''t'' demo_hire]\<rparr>))"
  using employee_writes_are_announced[of "EmpCreate ''e1'' ''ev1'' 7 ''t'' demo_hire" demo_master] by (simp add: demo_hire_eval)

end
