(* ===== verification/Bulk_Import.thy ===== *)
theory Bulk_Import
  imports Employee_Records
begin

text \<open>
  The bulk import of employees (\<open>bulk-import.service.ts\<close>, \<open>bulk-import-diff.ts\<close>): a dry run classifies
  every record against the master data as a creation, an update with its field changes, or a conflict; a
  committing run, behind a feature flag, classifies again and then applies the records one by one. A
  record is applied in transactions of its own, so a run that fails part-way keeps what it has written.
  The text of an error message is a parameter; identifiers are supplied per record.
\<close>

section \<open>Data\<close>

record BulkImportRecord =
  br_employeeNumber :: string
  br_orgUnitId :: uuid
  br_employmentType :: EmploymentType
  br_contractHoursPerWeek :: real
  br_hireDate :: iso_date
  br_costCenter :: "string option"
  br_managerEmployeeId :: "uuid option"

type_synonym field_change = "string \<times> json \<times> json" \<comment> \<open>field, \<open>old\<close>, \<open>new\<close>\<close>

record DiffReport =
  dr_creates :: "string list"
  dr_updates :: "(string \<times> field_change list) list"
  dr_conflicts :: "(string \<times> string) list"
  dr_committed :: "(nat \<times> nat) option" \<comment> \<open>\<open>created\<close>, \<open>updated\<close>\<close>

datatype BulkImportJobStatus = IMPORT_PENDING | IMPORT_RUNNING | IMPORT_COMPLETED | IMPORT_FAILED

record BulkImportJob =
  bj_id :: uuid
  bj_tenantId :: uuid
  bj_idempotencyKey :: "string option"
  bj_status :: BulkImportJobStatus
  bj_dryRun :: bool
  bj_totalRecords :: nat
  bj_result :: "DiffReport option"
  bj_error :: "string option"

record bulk_db =
  bd_master :: employee_db
  bd_jobs :: "BulkImportJob list"
  bd_flags :: "uuid \<times> string \<rightharpoonup> bool"
  bd_flagDefaults :: "string \<rightharpoonup> bool"
  bd_audit :: "(uuid \<times> uuid \<times> nat \<times> nat \<times> nat \<times> nat) list" \<comment> \<open>tenant, job, records, created, updated, conflicts\<close>

section \<open>The difference of a record\<close>

fun employment_str :: "EmploymentType \<Rightarrow> string" where
  "employment_str FULL_TIME = ''full_time''"
| "employment_str PART_TIME = ''part_time''"
| "employment_str CONTRACTOR = ''contractor''"
| "employment_str SEASONAL = ''seasonal''"

definition json_of_opt :: "string option \<Rightarrow> json" where
  "json_of_opt v = (case v of None \<Rightarrow> JNull | Some s \<Rightarrow> JStr s)"

definition diffEmployeeRecord :: "Employee \<Rightarrow> BulkImportRecord \<Rightarrow> field_change list" where
  "diffEmployeeRecord existing r =
     (if em_orgUnitId existing \<noteq> br_orgUnitId r
      then [(''orgUnitId'', JStr (em_orgUnitId existing), JStr (br_orgUnitId r))] else [])
   @ (if em_employmentType existing \<noteq> br_employmentType r
      then [(''employmentType'', JStr (employment_str (em_employmentType existing)), JStr (employment_str (br_employmentType r)))] else [])
   @ (if em_contractHoursPerWeek existing \<noteq> br_contractHoursPerWeek r
      then [(''contractHoursPerWeek'', JNum (em_contractHoursPerWeek existing), JNum (br_contractHoursPerWeek r))] else [])
   @ (if em_costCenter existing \<noteq> br_costCenter r
      then [(''costCenter'', json_of_opt (em_costCenter existing), json_of_opt (br_costCenter r))] else [])
   @ (if em_managerEmployeeId existing \<noteq> br_managerEmployeeId r
      then [(''managerEmployeeId'', json_of_opt (em_managerEmployeeId existing), json_of_opt (br_managerEmployeeId r))] else [])"

datatype verdict = Conflicting string | Creating | Updating "field_change list" | Unchanged

definition classify :: "uuid \<Rightarrow> employee_db \<Rightarrow> BulkImportRecord \<Rightarrow> verdict" where
  \<comment> \<open>the body of the loop of \<open>buildReport\<close>\<close>
  "classify t db r =
     (if (t, br_orgUnitId r) \<notin> set (ed_orgUnits db) then Conflicting (''orgUnitId '' @ br_orgUnitId r @ '' not found'')
      else if truthy_str (br_managerEmployeeId r) \<and> findEmployee t (the (br_managerEmployeeId r)) db = None
      then Conflicting (''managerEmployeeId '' @ the (br_managerEmployeeId r) @ '' not found'')
      else case findByEmployeeNumber t (br_employeeNumber r) db of
        None \<Rightarrow> Creating
      | Some existing \<Rightarrow> (case diffEmployeeRecord existing r of [] \<Rightarrow> Unchanged | changes \<Rightarrow> Updating changes))"

fun add_verdict :: "DiffReport \<Rightarrow> string \<times> verdict \<Rightarrow> DiffReport" where
  "add_verdict rep (n, Conflicting reason) = rep\<lparr>dr_conflicts := dr_conflicts rep @ [(n, reason)]\<rparr>"
| "add_verdict rep (n, Creating) = rep\<lparr>dr_creates := dr_creates rep @ [n]\<rparr>"
| "add_verdict rep (n, Updating changes) = rep\<lparr>dr_updates := dr_updates rep @ [(n, changes)]\<rparr>"
| "add_verdict rep (n, Unchanged) = rep"

definition buildReport :: "uuid \<Rightarrow> BulkImportRecord list \<Rightarrow> employee_db \<Rightarrow> DiffReport" where
  "buildReport t records db = foldl (\<lambda>rep r. add_verdict rep (br_employeeNumber r, classify t db r))
     \<lparr>dr_creates = [], dr_updates = [], dr_conflicts = [], dr_committed = None\<rparr> records"

section \<open>Committing\<close>

type_synonym record_ids = "uuid \<times> uuid \<times> uuid" \<comment> \<open>new employee, two events\<close>

definition update_of :: "BulkImportRecord \<Rightarrow> UpdateEmployeeInput" where
  "update_of r = \<lparr>ui_employmentType = Some (br_employmentType r), ui_contractHoursPerWeek = Some (br_contractHoursPerWeek r),
     ui_costCenter = Some (br_costCenter r), ui_status = None, ui_terminationDate = None, ui_userId = None, ui_details = Map.empty\<rparr>"

definition create_of :: "BulkImportRecord \<Rightarrow> CreateEmployeeInput" where
  "create_of r = \<lparr>ci_userId = None, ci_orgUnitId = br_orgUnitId r, ci_employeeNumber = br_employeeNumber r,
     ci_employmentType = br_employmentType r, ci_contractHoursPerWeek = br_contractHoursPerWeek r, ci_hireDate = br_hireDate r,
     ci_costCenter = br_costCenter r, ci_managerEmployeeId = br_managerEmployeeId r, ci_details = Map.empty\<rparr>"

definition commit_record ::
  "record_ids \<Rightarrow> millis \<Rightarrow> uuid \<Rightarrow> string list \<Rightarrow> string list \<Rightarrow> BulkImportRecord \<Rightarrow> (employee_db, employee_error, nat \<times> nat) svc" where
  \<comment> \<open>one round of the loop of \<open>commit\<close>: how many employees it created and updated\<close>
  "commit_record ids now t conflictNumbers updateNumbers r db = (case ids of (newId, ev1, ev2) \<Rightarrow>
     if br_employeeNumber r \<in> set conflictNumbers then (Inr (0, 0), db)
     else case findByEmployeeNumber t (br_employeeNumber r) db of
       Some existing \<Rightarrow>
         if br_employeeNumber r \<notin> set updateNumbers then (Inr (0, 0), db)
         else (case (if em_orgUnitId existing \<noteq> br_orgUnitId r \<or> em_managerEmployeeId existing \<noteq> br_managerEmployeeId r
                     then transferEmployee ev1 now t (em_id existing) (br_orgUnitId r) (Some (br_managerEmployeeId r)) db
                     else (Inr existing, db)) of
                 (Inl e, db1) \<Rightarrow> (Inl e, db1)
               | (Inr _, db1) \<Rightarrow> (case updateEmployee ev2 now t (em_id existing) (update_of r) db1 of
                   (Inl e, db2) \<Rightarrow> (Inl e, db2)
                 | (Inr _, db2) \<Rightarrow> (Inr (0, 1), db2)))
     | None \<Rightarrow> (case createEmployee newId ev1 now t (create_of r) db of
         (Inl e, db1) \<Rightarrow> (Inl e, db1)
       | (Inr _, db1) \<Rightarrow> (Inr (1, 0), db1)))"

fun commit_loop ::
  "(nat \<Rightarrow> record_ids) \<Rightarrow> millis \<Rightarrow> uuid \<Rightarrow> string list \<Rightarrow> string list \<Rightarrow> nat \<Rightarrow> BulkImportRecord list \<Rightarrow> (employee_db, employee_error, nat \<times> nat) svc" where
  "commit_loop ids now t cn un k [] db = (Inr (0, 0), db)"
| "commit_loop ids now t cn un k (r # rs) db = (case commit_record (ids k) now t cn un r db of
     (Inl e, db1) \<Rightarrow> (Inl e, db1)
   | (Inr (c, u), db1) \<Rightarrow> (case commit_loop ids now t cn un (Suc k) rs db1 of
       (Inl e, db2) \<Rightarrow> (Inl e, db2)
     | (Inr (c', u'), db2) \<Rightarrow> (Inr (c + c', u + u'), db2)))"

definition commit_records ::
  "(nat \<Rightarrow> record_ids) \<Rightarrow> millis \<Rightarrow> uuid \<Rightarrow> BulkImportRecord list \<Rightarrow> DiffReport \<Rightarrow> (employee_db, employee_error, nat \<times> nat) svc" where
  "commit_records ids now t records report db =
     commit_loop ids now t (map fst (dr_conflicts report)) (map fst (dr_updates report)) 0 records db"

section \<open>The job\<close>

definition BULK_IMPORT_DESTRUCTIVE_FLAG :: string where
  "BULK_IMPORT_DESTRUCTIVE_FLAG = ''bulk_import_destructive''"

definition isEnabled :: "uuid \<Rightarrow> string \<Rightarrow> bulk_db \<Rightarrow> bool" where
  "isEnabled t flagKey db = (case bd_flags db (t, flagKey) of Some enabled \<Rightarrow> enabled | None \<Rightarrow> the_default (bd_flagDefaults db flagKey) False)"

definition update_import_job :: "uuid \<Rightarrow> uuid \<Rightarrow> (BulkImportJob \<Rightarrow> BulkImportJob) \<Rightarrow> bulk_db \<Rightarrow> bulk_db" where
  "update_import_job t jobId f db = db\<lparr>bd_jobs := update_where (\<lambda>j. bj_id j = jobId \<and> bj_tenantId j = t) f (bd_jobs db)\<rparr>"

definition findByIdempotencyKey :: "uuid \<Rightarrow> string option \<Rightarrow> bulk_db \<Rightarrow> BulkImportJob option" where
  "findByIdempotencyKey t key db = find_where (\<lambda>j. bj_tenantId j = t \<and> bj_idempotencyKey j = key) (bd_jobs db)"

definition createImportJob :: "uuid \<Rightarrow> uuid \<Rightarrow> bool \<Rightarrow> nat \<Rightarrow> string option \<Rightarrow> (bulk_db, employee_error, BulkImportJob) svc" where
  \<comment> \<open>the insert, under the unique index on the keys of a tenant that are not null\<close>
  "createImportJob jobId t dryRun totalRecords key db =
     (if key \<noteq> None \<and> findByIdempotencyKey t key db \<noteq> None then (Inl UniqueViolation, db)
      else let job = \<lparr>bj_id = jobId, bj_tenantId = t, bj_idempotencyKey = key, bj_status = IMPORT_PENDING, bj_dryRun = dryRun,
                 bj_totalRecords = totalRecords, bj_result = None, bj_error = None\<rparr>
           in (Inr job, db\<lparr>bd_jobs := bd_jobs db @ [job]\<rparr>))"

definition startBulkImport ::
  "uuid \<Rightarrow> uuid \<Rightarrow> bool option \<Rightarrow> BulkImportRecord list \<Rightarrow> string option \<Rightarrow> (bulk_db, employee_error, BulkImportJob \<times> bool) svc" where
  \<comment> \<open>the job, and whether \<open>processImport\<close> has been spawned for it\<close>
  "startBulkImport jobId t dryRun records key db =
     (case (if truthy_str key then findByIdempotencyKey t key db else None) of
        Some existing \<Rightarrow> (Inr (existing, False), db)
      | None \<Rightarrow> (case createImportJob jobId t (the_default dryRun True) (length records) key db of
          (Inl e, db') \<Rightarrow> (Inl e, db')
        | (Inr job, db') \<Rightarrow> (Inr (job, True), db')))"

definition flag_message :: string where
  "flag_message = ''Destructive bulk import is not enabled for this tenant (feature flag \"bulk_import_destructive\"). Re-run with dryRun: true, or enable the flag first.''"

definition processImport ::
  "(employee_error \<Rightarrow> string) \<Rightarrow> (nat \<Rightarrow> record_ids) \<Rightarrow> millis \<Rightarrow> uuid \<Rightarrow> uuid \<Rightarrow> BulkImportRecord list \<Rightarrow> bool \<Rightarrow> bulk_db \<Rightarrow> bulk_db" where
  "processImport message ids now jobId t records dryRun db =
     (let db1 = update_import_job t jobId (bj_status_update (\<lambda>_. IMPORT_RUNNING)) db;
          report = buildReport t records (bd_master db1);
          completed = (\<lambda>rep j. j\<lparr>bj_status := IMPORT_COMPLETED, bj_result := Some rep\<rparr>);
          failed = (\<lambda>msg j. j\<lparr>bj_status := IMPORT_FAILED, bj_error := Some msg\<rparr>)
      in if dryRun then update_import_job t jobId (completed report) db1
         else if \<not> isEnabled t BULK_IMPORT_DESTRUCTIVE_FLAG db1 then update_import_job t jobId (failed flag_message) db1
         else case commit_records ids now t records report (bd_master db1) of
           (Inl e, m) \<Rightarrow> update_import_job t jobId (failed (message e)) (db1\<lparr>bd_master := m\<rparr>)
         | (Inr (c, u), m) \<Rightarrow>
             (update_import_job t jobId (completed (report\<lparr>dr_committed := Some (c, u)\<rparr>)) (db1\<lparr>bd_master := m\<rparr>))
               \<lparr>bd_audit := bd_audit db1 @ [(t, jobId, length records, c, u, length (dr_conflicts report))]\<rparr>)"

section \<open>What a write touches\<close>

text \<open>
  \<open>import_frame t N I db db'\<close>: between \<open>db\<close> and \<open>db'\<close> only employees of tenant \<open>t\<close> with a number in \<open>N\<close> were
  written, every employee is still there, new ones have an identifier in \<open>I\<close>, and the table is valid.
\<close>

definition import_frame :: "uuid \<Rightarrow> string set \<Rightarrow> uuid set \<Rightarrow> employee_db \<Rightarrow> employee_db \<Rightarrow> bool" where
  "import_frame t N I db db' \<longleftrightarrow> employees_ok db' \<and> ed_orgUnits db' = ed_orgUnits db
     \<and> (\<forall>t' n. t' \<noteq> t \<or> n \<notin> N \<longrightarrow> findByEmployeeNumber t' n db' = findByEmployeeNumber t' n db)
     \<and> (\<forall>t' i. findEmployee t' i db \<noteq> None \<longrightarrow> findEmployee t' i db' \<noteq> None)
     \<and> (\<forall>t' i. findEmployee t' i db' \<noteq> None \<longrightarrow> findEmployee t' i db \<noteq> None \<or> i \<in> I)"

lemma import_frame_refl: "employees_ok db \<Longrightarrow> import_frame t N I db db"
  by (simp add: import_frame_def)

lemma import_frame_trans:
  assumes "import_frame t N I a b" "import_frame t M J b c" "N \<subseteq> K" "M \<subseteq> K" "I \<subseteq> L" "J \<subseteq> L"
  shows "import_frame t K L a c"
proof -
  note a = assms(1)[unfolded import_frame_def] and b = assms(2)[unfolded import_frame_def]
  have "findByEmployeeNumber t' n c = findByEmployeeNumber t' n a" if "t' \<noteq> t \<or> n \<notin> K" for t' n
  proof -
    have "t' \<noteq> t \<or> n \<notin> N" "t' \<noteq> t \<or> n \<notin> M" using that assms(3,4) by auto
    then show ?thesis using a b by simp
  qed
  moreover have "findEmployee t' i a \<noteq> None \<or> i \<in> L" if "findEmployee t' i c \<noteq> None" for t' i
    using a b that assms(5,6) by (meson subsetD)
  ultimately show ?thesis using a b by (simp add: import_frame_def)
qed

lemma import_frame_more: "import_frame t N {} db db' \<Longrightarrow> import_frame t N I db db'"
  using import_frame_trans[of t N "{}" db db' N I db' N I] by (simp add: import_frame_refl import_frame_def)

lemma same_employee:
  assumes "employees_ok db" "findByEmployeeNumber t n db = Some e" "x \<in> set (ed_employees db)" "employee_row t (em_id e) x"
  shows "x = e"
proof -
  have "e \<in> set (ed_employees db)" "em_tenantId e = t"
    using assms(2) by (auto simp: findByEmployeeNumber_def dest: find_where_SomeD)
  moreover have "inj_on (\<lambda>e. (em_tenantId e, em_id e)) (set (ed_employees db))"
    using assms(1) by (simp add: employees_ok_def unique_indexes_def distinct_map)
  ultimately show ?thesis using assms(3,4) by (auto simp: employee_row_def dest: inj_onD)
qed

text \<open>An update by identifier that keeps tenant, identifier and number.\<close>

lemma update_row_frame:
  assumes ok: "employees_ok db" and e: "findByEmployeeNumber t n db = Some e"
    and upd: "updateWithOutboxEvent ev now ty t (em_id e) f db = Inr (row, db')"
    and keys: "\<And>x. em_tenantId (f x) = em_tenantId x \<and> em_id (f x) = em_id x \<and> em_employeeNumber (f x) = em_employeeNumber x"
  shows "import_frame t {n} {} db db' \<and> findByEmployeeNumber t n db' = Some ((f e)\<lparr>em_updatedAt := now\<rparr>)"
proof -
  let ?Q = "employee_row t (em_id e)" and ?g = "\<lambda>x. (f x)\<lparr>em_updatedAt := now\<rparr>"
  have ann: "announced ev now ty row db db'" and es: "ed_employees db' = update_where ?Q ?g (ed_employees db)"
    using updateWithOutboxEvent_announced[OF upd] keys by auto
  have number: "findByEmployeeNumber t' n' db' = map_option (\<lambda>x. if ?Q x then ?g x else x) (findByEmployeeNumber t' n' db)" for t' n'
    unfolding findByEmployeeNumber_def es by (rule find_where_update_where) (simp add: keys)
  have ident: "findEmployee t' i db' = map_option (\<lambda>x. if ?Q x then ?g x else x) (findEmployee t' i db)" for t' i
    unfolding findEmployee_def es by (rule find_where_update_where) (simp add: employee_row_def keys)
  have row: "em_employeeNumber e = n" "em_tenantId e = t" using e by (auto simp: findByEmployeeNumber_def dest: find_where_SomeD)
  have other: "findByEmployeeNumber t' n' db' = findByEmployeeNumber t' n' db" if "t' \<noteq> t \<or> n' \<noteq> n" for t' n'
  proof (cases "findByEmployeeNumber t' n' db")
    case (Some x)
    then have x: "x \<in> set (ed_employees db)" "em_tenantId x = t'" "em_employeeNumber x = n'"
      by (auto simp: findByEmployeeNumber_def dest: find_where_SomeD)
    have "\<not> ?Q x" using same_employee[OF ok e x(1)] x(2,3) row that by auto
    then show ?thesis using Some number[of t' n'] by simp
  qed (use number[of t' n'] in simp)
  have "?Q e" using row by (simp add: employee_row_def)
  then show ?thesis using ann other number[of t n] ident e by (auto simp: import_frame_def announced_def)
qed

lemma create_row_frame:
  assumes "employees_ok db" "createWithOutboxEvent ev now ty e db = Inr (row, db')"
  shows "import_frame (em_tenantId e) {em_employeeNumber e} {em_id e} db db'
    \<and> findByEmployeeNumber (em_tenantId e) (em_employeeNumber e) db' = Some e"
proof -
  have es: "ed_employees db' = ed_employees db @ [e]" and ann: "announced ev now ty row db db'"
    using createWithOutboxEvent_announced[OF assms(2)] by auto
  have "distinct (map (\<lambda>x. (em_tenantId x, em_employeeNumber x)) (ed_employees db @ [e]))"
    using ann es by (simp add: announced_def employees_ok_def unique_indexes_def)
  then have "(em_tenantId e, em_employeeNumber e) \<noteq> (em_tenantId x, em_employeeNumber x)" if "x \<in> set (ed_employees db)" for x
    using that by (auto simp: image_iff)
  then have new: "findByEmployeeNumber (em_tenantId e) (em_employeeNumber e) db = None"
    unfolding findByEmployeeNumber_def find_where_None by (metis prod.inject)
  have number: "findByEmployeeNumber t' n db' = (case findByEmployeeNumber t' n db of None \<Rightarrow>
      if em_tenantId e = t' \<and> em_employeeNumber e = n then Some e else None | Some x \<Rightarrow> Some x)" for t' n
    by (simp add: findByEmployeeNumber_def es find_where_append split: option.split)
  have ident: "findEmployee t' i db' = (case findEmployee t' i db of None \<Rightarrow> if employee_row t' i e then Some e else None | Some x \<Rightarrow> Some x)" for t' i
    by (simp add: findEmployee_def es find_where_append split: option.split)
  show ?thesis unfolding import_frame_def
  proof (intro conjI allI impI)
    show "employees_ok db'" "ed_orgUnits db' = ed_orgUnits db" using ann by (simp_all add: announced_def)
    show "findByEmployeeNumber t' n db' = findByEmployeeNumber t' n db" if "t' \<noteq> em_tenantId e \<or> n \<notin> {em_employeeNumber e}" for t' n
      using that by (auto simp: number split: option.split)
    show "findEmployee t' i db' \<noteq> None" if "findEmployee t' i db \<noteq> None" for t' i using that by (auto simp: ident)
    show "findEmployee t' i db \<noteq> None \<or> i \<in> {em_id e}" if "findEmployee t' i db' \<noteq> None" for t' i
      using that by (auto simp: ident employee_row_def split: option.splits if_splits)
    show "findByEmployeeNumber (em_tenantId e) (em_employeeNumber e) db' = Some e" using new by (simp add: number)
  qed
qed


section \<open>The imported fields\<close>

definition IMPORT_FIELDS :: "string list" where
  "IMPORT_FIELDS = [''orgUnitId'', ''employmentType'', ''contractHoursPerWeek'', ''costCenter'', ''managerEmployeeId'']"

definition field_value :: "string \<Rightarrow> Employee \<Rightarrow> json" where
  "field_value f e =
     (if f = ''orgUnitId'' then JStr (em_orgUnitId e)
      else if f = ''employmentType'' then JStr (employment_str (em_employmentType e))
      else if f = ''contractHoursPerWeek'' then JNum (em_contractHoursPerWeek e)
      else if f = ''costCenter'' then json_of_opt (em_costCenter e)
      else if f = ''managerEmployeeId'' then json_of_opt (em_managerEmployeeId e)
      else JNull)"

definition record_value :: "string \<Rightarrow> BulkImportRecord \<Rightarrow> json" where
  "record_value f r =
     (if f = ''orgUnitId'' then JStr (br_orgUnitId r)
      else if f = ''employmentType'' then JStr (employment_str (br_employmentType r))
      else if f = ''contractHoursPerWeek'' then JNum (br_contractHoursPerWeek r)
      else if f = ''costCenter'' then json_of_opt (br_costCenter r)
      else if f = ''managerEmployeeId'' then json_of_opt (br_managerEmployeeId r)
      else JNull)"

definition stored :: "BulkImportRecord \<Rightarrow> BulkImportRecord" where
  \<comment> \<open>the record with the hours the column keeps\<close>
  "stored r = r\<lparr>br_contractHoursPerWeek := toFixed2 (br_contractHoursPerWeek r)\<rparr>"

lemma json_of_opt_inject [simp]: "json_of_opt a = json_of_opt b \<longleftrightarrow> a = b"
  by (auto simp: json_of_opt_def split: option.splits)

lemma employment_str_inject [simp]: "employment_str a = employment_str b \<longleftrightarrow> a = b"
  by (cases a; cases b) simp_all

lemma diff_lookup:
  "map_of (diffEmployeeRecord e r) f =
     (if f \<in> set IMPORT_FIELDS \<and> field_value f e \<noteq> record_value f r then Some (field_value f e, record_value f r) else None)"
  by (auto simp: diffEmployeeRecord_def IMPORT_FIELDS_def field_value_def record_value_def map_add_def)

lemma diff_empty:
  "diffEmployeeRecord e r = [] \<longleftrightarrow> em_orgUnitId e = br_orgUnitId r \<and> em_employmentType e = br_employmentType r
     \<and> em_contractHoursPerWeek e = br_contractHoursPerWeek r \<and> em_costCenter e = br_costCenter r \<and> em_managerEmployeeId e = br_managerEmployeeId r"
  by (auto simp: diffEmployeeRecord_def)

section \<open>One record\<close>

lemma transferEmployee_cases:
  assumes "transferEmployee ev now t i u (Some m) db = (res, db')"
  obtains (failed) err where "res = Inl err" "db' = db"
  | (moved) row where "res = Inr row"
      "updateWithOutboxEvent ev now EC_transferred t i (\<lambda>e. e\<lparr>em_orgUnitId := u, em_managerEmployeeId := m\<rparr>) db = Inr (row, db')"
  using assms by (auto simp: transferEmployee_def split: option.splits if_splits dest!: run_txn_cases)

lemma updateEmployee_cases:
  assumes "updateEmployee ev now t i (update_of r) db = (res, db')"
  obtains (failed) err where "res = Inl err" "db' = db"
  | (updated) row where "res = Inr row" "updateWithOutboxEvent ev now EC_updated t i (apply_update now (update_of r)) db = Inr (row, db')"
  using assms by (auto simp: updateEmployee_def update_of_def split: option.splits sum.splits prod.splits employee_error.splits dest!: run_txn_cases)

lemma createEmployee_cases:
  assumes "createEmployee newId ev now t input db = (res, db')"
  obtains (failed) err where "res = Inl err" "db' = db"
  | (created) row where "res = Inr row" "createWithOutboxEvent ev now EC_created (new_employee newId now t input) db = Inr (row, db')"
  using assms by (auto simp: createEmployee_def split: sum.splits if_splits dest!: run_txn_cases)

lemma updated_fields:
  "apply_update now (update_of r) e = e\<lparr>em_employmentType := br_employmentType r,
     em_contractHoursPerWeek := toFixed2 (br_contractHoursPerWeek r), em_costCenter := br_costCenter r\<rparr>"
  by (simp add: apply_update_def update_of_def changed_profile_def the_default_def)

definition between :: "Employee \<Rightarrow> BulkImportRecord \<Rightarrow> Employee \<Rightarrow> bool" where
  \<comment> \<open>every imported field of the new row is the old one or the record's\<close>
  "between e r e' \<longleftrightarrow> em_id e' = em_id e \<and> em_employeeNumber e' = em_employeeNumber e
     \<and> (\<forall>f. field_value f e' = field_value f e \<or> field_value f e' = record_value f (stored r))"

lemma move_employee:
  assumes ok: "employees_ok db" and e: "findByEmployeeNumber t n db = Some e"
    and move: "transferEmployee ev1 now t (em_id e) (br_orgUnitId r) (Some (br_managerEmployeeId r)) db = (res, db1)
      \<or> (res = Inr e \<and> db1 = db \<and> em_orgUnitId e = br_orgUnitId r \<and> em_managerEmployeeId e = br_managerEmployeeId r)"
  shows "import_frame t {n} {} db db1 \<and> (\<exists>e1. findByEmployeeNumber t n db1 = Some e1 \<and> between e r e1
    \<and> (\<not> isl res \<longrightarrow> em_orgUnitId e1 = br_orgUnitId r \<and> em_managerEmployeeId e1 = br_managerEmployeeId r))"
proof -
  have same: "import_frame t {n} {} db db \<and> between e r e" using ok by (simp add: import_frame_refl between_def)
  show ?thesis using move
  proof
    assume "transferEmployee ev1 now t (em_id e) (br_orgUnitId r) (Some (br_managerEmployeeId r)) db = (res, db1)"
    then show ?thesis
    proof (cases rule: transferEmployee_cases)
      case failed
      then show ?thesis using e same by simp
    next
      case (moved row)
      have "between e r (e\<lparr>em_orgUnitId := br_orgUnitId r, em_managerEmployeeId := br_managerEmployeeId r, em_updatedAt := now\<rparr>)"
        by (simp add: between_def field_value_def record_value_def stored_def)
      then show ?thesis using update_row_frame[OF ok e moved(2)] moved(1) by auto
    qed
  qed (use e same in simp)
qed


lemma between_trans: "between e r e1 \<Longrightarrow> between e1 r e2 \<Longrightarrow> between e r e2"
  unfolding between_def by metis

lemma between_refl [simp]: "between e r e"
  by (simp add: between_def)

text \<open>The outcome of one round, by the employee it finds.\<close>

lemma commit_record_existing:
  assumes ok: "employees_ok db" and e: "findByEmployeeNumber t (br_employeeNumber r) db = Some e"
    and run: "commit_record ids now t cn un r db = (res, db')"
  shows "import_frame t {br_employeeNumber r} {} db db' \<and> (\<exists>e'. findByEmployeeNumber t (br_employeeNumber r) db' = Some e' \<and> between e r e'
      \<and> (br_employeeNumber r \<in> set un \<and> br_employeeNumber r \<notin> set cn \<and> \<not> isl res \<longrightarrow> diffEmployeeRecord e' (stored r) = [] \<and> res = Inr (0, 1))
      \<and> (br_employeeNumber r \<notin> set un \<or> br_employeeNumber r \<in> set cn \<longrightarrow> db' = db \<and> res = Inr (0, 0)))"
proof (cases "br_employeeNumber r \<in> set un \<and> br_employeeNumber r \<notin> set cn")
  case False
  then have "db' = db" "res = Inr (0, 0)" using run e by (cases ids; auto simp: commit_record_def split: if_splits)+
  then show ?thesis using ok e False by (auto simp: import_frame_refl)
next
  case True
  let ?n = "br_employeeNumber r"
  obtain newId ev1 ev2 where ids: "ids = (newId, ev1, ev2)" by (cases ids)
  define moving where "moving = (if em_orgUnitId e \<noteq> br_orgUnitId r \<or> em_managerEmployeeId e \<noteq> br_managerEmployeeId r
     then transferEmployee ev1 now t (em_id e) (br_orgUnitId r) (Some (br_managerEmployeeId r)) db else (Inr e, db))"
  obtain res1 db1 where m: "moving = (res1, db1)" by (cases moving)
  from move_employee[OF ok e, of ev1 now r res1 db1] m
  obtain e1 where f1: "import_frame t {?n} {} db db1" and e1: "findByEmployeeNumber t ?n db1 = Some e1" and b1: "between e r e1"
    and moved: "\<not> isl res1 \<Longrightarrow> em_orgUnitId e1 = br_orgUnitId r \<and> em_managerEmployeeId e1 = br_managerEmployeeId r"
    by (auto simp: moving_def split: if_splits)
  have run': "(case res1 of Inl err \<Rightarrow> (Inl err, db1) | Inr _ \<Rightarrow> (case updateEmployee ev2 now t (em_id e) (update_of r) db1 of
      (Inl err, db2) \<Rightarrow> (Inl err, db2) | (Inr _, db2) \<Rightarrow> (Inr (0, 1), db2))) = (res, db')"
    using run True e m[unfolded moving_def] by (simp add: commit_record_def ids split: sum.split)
  show ?thesis
  proof (cases res1)
    case (Inl err)
    then show ?thesis using run' f1 e1 b1 True by auto
  next
    case (Inr x)
    obtain res2 db2 where u: "updateEmployee ev2 now t (em_id e) (update_of r) db1 = (res2, db2)" by (cases "updateEmployee ev2 now t (em_id e) (update_of r) db1")
    have ok1: "employees_ok db1" using f1 by (simp add: import_frame_def)
    have id: "em_id e1 = em_id e" using b1 by (simp add: between_def)
    from u show ?thesis
    proof (cases rule: updateEmployee_cases)
      case failed
      then show ?thesis using run' Inr u f1 e1 b1 True by auto
    next
      case (updated row)
      let ?e2 = "(apply_update now (update_of r) e1)\<lparr>em_updatedAt := now\<rparr>"
      have keys: "em_tenantId (apply_update now (update_of r) x) = em_tenantId x \<and> em_id (apply_update now (update_of r) x) = em_id x
        \<and> em_employeeNumber (apply_update now (update_of r) x) = em_employeeNumber x" for x by (simp add: updated_fields)
      have f2: "import_frame t {?n} {} db1 db2" and e2: "findByEmployeeNumber t ?n db2 = Some ?e2"
        using update_row_frame[OF ok1 e1 updated(2)[folded id] keys] by auto
      have "between e1 r ?e2" by (simp add: between_def updated_fields field_value_def record_value_def stored_def)
      then have b2: "between e r ?e2" using b1 between_trans by blast
      have "import_frame t {?n} {} db db2" using f1 f2 by (rule import_frame_trans) simp_all
      moreover have "diffEmployeeRecord ?e2 (stored r) = []" using moved Inr by (simp add: diff_empty updated_fields stored_def)
      ultimately show ?thesis using run' Inr u updated(1) e2 b2 True by auto
    qed
  qed
qed

lemma commit_record_new:
  assumes ok: "employees_ok db" and e: "findByEmployeeNumber t (br_employeeNumber r) db = None"
    and run: "commit_record ids now t cn un r db = (res, db')"
  shows "import_frame t {br_employeeNumber r} {fst ids} db db'
    \<and> (br_employeeNumber r \<notin> set cn \<and> \<not> isl res \<longrightarrow>
        res = Inr (1, 0) \<and> (\<exists>e'. findByEmployeeNumber t (br_employeeNumber r) db' = Some e' \<and> diffEmployeeRecord e' (stored r) = []))
    \<and> (br_employeeNumber r \<in> set cn \<longrightarrow> db' = db \<and> res = Inr (0, 0))"
proof (cases "br_employeeNumber r \<in> set cn")
  case True
  then show ?thesis using run ok by (cases ids) (simp add: commit_record_def import_frame_refl)
next
  case False
  obtain newId ev1 ev2 where ids: "ids = (newId, ev1, ev2)" by (cases ids)
  obtain res1 db1 where c: "createEmployee newId ev1 now t (create_of r) db = (res1, db1)" by (cases "createEmployee newId ev1 now t (create_of r) db")
  have run': "(case res1 of Inl err \<Rightarrow> (Inl err, db1) | Inr _ \<Rightarrow> (Inr (1, 0), db1)) = (res, db')"
    using run False e c by (simp add: commit_record_def ids split: sum.splits)
  from c show ?thesis
  proof (cases rule: createEmployee_cases)
    case failed
    then show ?thesis using run' ok False by (auto simp: import_frame_refl)
  next
    case (created row)
    let ?e = "new_employee newId now t (create_of r)"
    have "em_tenantId ?e = t" "em_employeeNumber ?e = br_employeeNumber r" "em_id ?e = newId" by (simp_all add: new_employee_def create_of_def)
    moreover have "diffEmployeeRecord ?e (stored r) = []" by (simp add: diff_empty new_employee_def create_of_def stored_def)
    ultimately show ?thesis using create_row_frame[OF ok created(2)] run' created(1) False ids by auto
  qed
qed


section \<open>The committing loop\<close>

lemma commit_record_frame:
  assumes "employees_ok db" "commit_record ids now t cn un r db = (res, db')"
  shows "import_frame t {br_employeeNumber r} {fst ids} db db'"
proof (cases "findByEmployeeNumber t (br_employeeNumber r) db")
  case None
  then show ?thesis using commit_record_new[OF assms(1) None assms(2)] by blast
next
  case (Some e)
  then show ?thesis using commit_record_existing[OF assms(1) Some assms(2)] import_frame_more by blast
qed

lemma commit_loop_Cons:
  assumes "commit_loop ids now t cn un k (r # rs) db = (res, db')"
  obtains res1 db1 where "commit_record (ids k) now t cn un r db = (res1, db1)" and "isl res1 \<longrightarrow> res = res1 \<and> db' = db1"
    and "\<not> isl res1 \<longrightarrow> (\<exists>res2. commit_loop ids now t cn un (Suc k) rs db1 = (res2, db') \<and>
       res = (case res2 of Inl e \<Rightarrow> Inl e | Inr (c, u) \<Rightarrow> Inr (fst (projr res1) + c, snd (projr res1) + u)))"
  using assms by (auto split: sum.splits prod.splits)

lemma commit_loop_frame:
  assumes "employees_ok db" "commit_loop ids now t cn un k rs db = (res, db')"
  shows "import_frame t (br_employeeNumber ` set rs) (fst ` range ids) db db'"
  using assms
proof (induction rs arbitrary: k db res)
  case Nil
  then show ?case by (simp add: import_frame_refl)
next
  case (Cons r rs)
  from Cons.prems(2) show ?case
  proof (cases rule: commit_loop_Cons)
    case (1 res1 db1)
    have f: "import_frame t {br_employeeNumber r} {fst (ids k)} db db1" by (rule commit_record_frame[OF Cons.prems(1) 1(1)])
    then have ok: "employees_ok db1" by (simp add: import_frame_def)
    have "import_frame t (br_employeeNumber ` set rs) (fst ` range ids) db1 db'"
      using 1(2,3) Cons.IH[OF ok] import_frame_refl[OF ok] by (cases "isl res1") auto
    then show ?thesis by (rule import_frame_trans[OF f]) auto
  qed
qed

lemma import_frame_other: "import_frame t N I db db' \<Longrightarrow> n \<notin> N \<Longrightarrow> findByEmployeeNumber t n db' = findByEmployeeNumber t n db"
  by (simp add: import_frame_def)

lemma other_number: "distinct (map br_employeeNumber (r # rs)) \<Longrightarrow> x \<in> set rs \<Longrightarrow> br_employeeNumber x \<noteq> br_employeeNumber r"
  by (metis distinct.simps(2) image_eqI list.set_map list.simps(9))

text \<open>Whatever the loop's outcome, a row is between what it was and what its record says.\<close>

lemma commit_loop_between:
  assumes "employees_ok db" "commit_loop ids now t cn un k rs db = (res, db')" "distinct (map br_employeeNumber rs)"
    and "r \<in> set rs" "findByEmployeeNumber t (br_employeeNumber r) db = Some e"
  shows "\<exists>e'. findByEmployeeNumber t (br_employeeNumber r) db' = Some e' \<and> between e r e'"
  using assms
proof (induction rs arbitrary: k db res)
  case (Cons r0 rs)
  from Cons.prems(2) show ?case
  proof (cases rule: commit_loop_Cons)
    case (1 res1 db1)
    have f: "import_frame t {br_employeeNumber r0} {fst (ids k)} db db1" by (rule commit_record_frame[OF Cons.prems(1) 1(1)])
    then have ok: "employees_ok db1" by (simp add: import_frame_def)
    have rest: "import_frame t (br_employeeNumber ` set rs) (fst ` range ids) db1 db'"
      using 1(2,3) commit_loop_frame[OF ok] import_frame_refl[OF ok] by (cases "isl res1") auto
    show ?thesis
    proof (cases "r = r0")
      case True
      have "br_employeeNumber r \<notin> br_employeeNumber ` set rs" using Cons.prems(3) True by simp
      then show ?thesis using commit_record_existing[OF Cons.prems(1) Cons.prems(5)[unfolded True] 1(1)] True import_frame_other[OF rest] by auto
    next
      case False
      then have r: "r \<in> set rs" using Cons.prems(4) by simp
      then have "br_employeeNumber r \<noteq> br_employeeNumber r0" by (rule other_number[OF Cons.prems(3)])
      then have e: "findByEmployeeNumber t (br_employeeNumber r) db1 = Some e" using import_frame_other[OF f] Cons.prems(5) by simp
      show ?thesis
      proof (cases "isl res1")
        case True
        then show ?thesis using 1(2) e by auto
      next
        case False
        then show ?thesis using 1(3) Cons.IH[OF ok _ _ r e] Cons.prems(3) by auto
      qed
    qed
  qed
qed simp

definition creating :: "uuid \<Rightarrow> string list \<Rightarrow> employee_db \<Rightarrow> BulkImportRecord \<Rightarrow> bool" where
  "creating t cn db r \<longleftrightarrow> br_employeeNumber r \<notin> set cn \<and> findByEmployeeNumber t (br_employeeNumber r) db = None"

definition updating :: "uuid \<Rightarrow> string list \<Rightarrow> string list \<Rightarrow> employee_db \<Rightarrow> BulkImportRecord \<Rightarrow> bool" where
  "updating t cn un db r \<longleftrightarrow> br_employeeNumber r \<notin> set cn \<and> br_employeeNumber r \<in> set un
     \<and> findByEmployeeNumber t (br_employeeNumber r) db \<noteq> None"

lemma commit_record_success:
  assumes "employees_ok db" "commit_record ids now t cn un r db = (Inr (c, u), db')"
  shows "c = (if creating t cn db r then 1 else 0) \<and> u = (if updating t cn un db r then 1 else 0)
    \<and> (if creating t cn db r \<or> updating t cn un db r
       then \<exists>e'. findByEmployeeNumber t (br_employeeNumber r) db' = Some e' \<and> diffEmployeeRecord e' (stored r) = []
       else db' = db)"
proof (cases "findByEmployeeNumber t (br_employeeNumber r) db")
  case None
  then show ?thesis using commit_record_new[OF assms(1) None assms(2)] by (cases "br_employeeNumber r \<in> set cn") (auto simp: creating_def updating_def)
next
  case (Some e)
  then show ?thesis using commit_record_existing[OF assms(1) Some assms(2)] by (auto simp: creating_def updating_def)
qed

lemma commit_loop_success:
  assumes "employees_ok db" "commit_loop ids now t cn un k rs db = (Inr (c, u), db')" "distinct (map br_employeeNumber rs)"
  shows "c = length (filter (creating t cn db) rs) \<and> u = length (filter (updating t cn un db) rs)
    \<and> (\<forall>r\<in>set rs. if creating t cn db r \<or> updating t cn un db r
       then \<exists>e'. findByEmployeeNumber t (br_employeeNumber r) db' = Some e' \<and> diffEmployeeRecord e' (stored r) = []
       else findByEmployeeNumber t (br_employeeNumber r) db' = findByEmployeeNumber t (br_employeeNumber r) db)"
  using assms
proof (induction rs arbitrary: k db c u)
  case (Cons r rs)
  from Cons.prems(2) show ?case
  proof (cases rule: commit_loop_Cons)
    case (1 res1 db1)
    from 1(2) obtain c1 u1 where res1: "res1 = Inr (c1, u1)" by (cases res1) auto
    with 1(3) obtain res2 where "commit_loop ids now t cn un (Suc k) rs db1 = (res2, db')"
      "Inr (c, u) = (case res2 of Inl e \<Rightarrow> Inl e | Inr (c, u) \<Rightarrow> Inr (fst (projr res1) + c, snd (projr res1) + u))" by auto
    with res1 obtain c2 u2 where loop: "commit_loop ids now t cn un (Suc k) rs db1 = (Inr (c2, u2), db')"
      and sum: "c = c1 + c2" "u = u1 + u2"
      by (cases res2) auto
    have f: "import_frame t {br_employeeNumber r} {fst (ids k)} db db1" by (rule commit_record_frame[OF Cons.prems(1) 1(1)])
    then have ok: "employees_ok db1" by (simp add: import_frame_def)
    have same: "findByEmployeeNumber t (br_employeeNumber x) db1 = findByEmployeeNumber t (br_employeeNumber x) db" if "x \<in> set rs" for x
      using import_frame_other[OF f] other_number[OF Cons.prems(3) that] by simp
    have kinds: "creating t cn db1 x = creating t cn db x" "updating t cn un db1 x = updating t cn un db x" if "x \<in> set rs" for x
      using same[OF that] by (simp_all add: creating_def updating_def)
    have own: "findByEmployeeNumber t (br_employeeNumber r) db' = findByEmployeeNumber t (br_employeeNumber r) db1"
      using import_frame_other[OF commit_loop_frame[OF ok loop]] Cons.prems(3) by auto
    have IH: "c2 = length (filter (creating t cn db) rs)" "u2 = length (filter (updating t cn un db) rs)"
      and all: "\<And>x. x \<in> set rs \<Longrightarrow> if creating t cn db x \<or> updating t cn un db x
        then \<exists>e'. findByEmployeeNumber t (br_employeeNumber x) db' = Some e' \<and> diffEmployeeRecord e' (stored x) = []
        else findByEmployeeNumber t (br_employeeNumber x) db' = findByEmployeeNumber t (br_employeeNumber x) db"
      using Cons.IH[OF ok loop] Cons.prems(3) kinds same by (auto cong: filter_cong if_cong)
    show ?thesis using commit_record_success[OF Cons.prems(1) 1(1)[unfolded res1]] own IH all sum by auto
  qed
qed simp


section \<open>Reports\<close>

lemma report_fold:
  "foldl (\<lambda>rep r. add_verdict rep (br_employeeNumber r, classify t db r)) rep rs =
     rep\<lparr>dr_creates := dr_creates rep @ concat (map (\<lambda>r. case classify t db r of Creating \<Rightarrow> [br_employeeNumber r] | _ \<Rightarrow> []) rs),
         dr_updates := dr_updates rep @ concat (map (\<lambda>r. case classify t db r of Updating ch \<Rightarrow> [(br_employeeNumber r, ch)] | _ \<Rightarrow> []) rs),
         dr_conflicts := dr_conflicts rep @ concat (map (\<lambda>r. case classify t db r of Conflicting s \<Rightarrow> [(br_employeeNumber r, s)] | _ \<Rightarrow> []) rs)\<rparr>"
  by (induction rs arbitrary: rep) (simp_all split: verdict.split)

lemma report_parts:
  "dr_creates (buildReport t rs db) = concat (map (\<lambda>r. case classify t db r of Creating \<Rightarrow> [br_employeeNumber r] | _ \<Rightarrow> []) rs)"
  "dr_updates (buildReport t rs db) = concat (map (\<lambda>r. case classify t db r of Updating ch \<Rightarrow> [(br_employeeNumber r, ch)] | _ \<Rightarrow> []) rs)"
  "dr_conflicts (buildReport t rs db) = concat (map (\<lambda>r. case classify t db r of Conflicting s \<Rightarrow> [(br_employeeNumber r, s)] | _ \<Rightarrow> []) rs)"
  "dr_committed (buildReport t rs db) = None"
  by (simp_all add: buildReport_def report_fold)

lemma report_update_entry:
  "(n, ch) \<in> set (dr_updates (buildReport t rs db)) \<longleftrightarrow> (\<exists>r\<in>set rs. n = br_employeeNumber r \<and> classify t db r = Updating ch)"
  unfolding report_parts by (induction rs) (auto split: verdict.splits)

lemma report_conflict_entry:
  "(n, s) \<in> set (dr_conflicts (buildReport t rs db)) \<longleftrightarrow> (\<exists>r\<in>set rs. n = br_employeeNumber r \<and> classify t db r = Conflicting s)"
  unfolding report_parts by (induction rs) (auto split: verdict.splits)

lemma report_mem:
  assumes "distinct (map br_employeeNumber rs)" "r \<in> set rs"
  shows "br_employeeNumber r \<in> set (map fst (dr_conflicts (buildReport t rs db))) \<longleftrightarrow> (\<exists>s. classify t db r = Conflicting s)"
    and "br_employeeNumber r \<in> set (map fst (dr_updates (buildReport t rs db))) \<longleftrightarrow> (\<exists>ch. classify t db r = Updating ch)"
proof -
  have same: "r' = r" if "r' \<in> set rs" "br_employeeNumber r = br_employeeNumber r'" for r'
    using assms that by (simp add: distinct_map inj_on_def)
  have fst_mem: "n \<in> set (map fst xs) \<longleftrightarrow> (\<exists>y. (n, y) \<in> set xs)" for n :: string and xs :: "(string \<times> 'b) list" by force
  show "br_employeeNumber r \<in> set (map fst (dr_conflicts (buildReport t rs db))) \<longleftrightarrow> (\<exists>s. classify t db r = Conflicting s)"
    unfolding fst_mem report_conflict_entry using assms(2) same by metis
  show "br_employeeNumber r \<in> set (map fst (dr_updates (buildReport t rs db))) \<longleftrightarrow> (\<exists>ch. classify t db r = Updating ch)"
    unfolding fst_mem report_update_entry using assms(2) same by metis
qed

lemma classify_Creating: "classify t db r = Creating \<Longrightarrow> findByEmployeeNumber t (br_employeeNumber r) db = None"
  by (auto simp: classify_def split: if_splits option.splits list.splits)

lemma classify_Updating:
  "classify t db r = Updating ch \<Longrightarrow> \<exists>e. findByEmployeeNumber t (br_employeeNumber r) db = Some e \<and> ch = diffEmployeeRecord e r \<and> ch \<noteq> []"
  by (auto simp: classify_def split: if_splits option.splits list.splits)

lemma classify_Unchanged:
  "classify t db r = Unchanged \<Longrightarrow> \<exists>e. findByEmployeeNumber t (br_employeeNumber r) db = Some e \<and> diffEmployeeRecord e r = []"
  by (auto simp: classify_def split: if_splits option.splits list.splits)

lemma commit_kinds:
  fixes t db
  assumes "distinct (map br_employeeNumber rs)" "r \<in> set rs"
  defines "rep \<equiv> buildReport t rs db"
  shows "creating t (map fst (dr_conflicts rep)) db r \<longleftrightarrow> classify t db r = Creating"
    and "updating t (map fst (dr_conflicts rep)) (map fst (dr_updates rep)) db r \<longleftrightarrow> (\<exists>ch. classify t db r = Updating ch)"
  unfolding creating_def updating_def rep_def report_mem[OF assms(1,2)]
  using classify_Creating[of t db r] classify_Updating[of t db r] classify_Unchanged[of t db r]
  by (cases "classify t db r"; auto)+

lemma length_concat_if:
  "(\<And>r. r \<in> set rs \<Longrightarrow> length (f r) = (if P r then 1 else 0)) \<Longrightarrow> length (concat (map f rs)) = length (filter P rs)"
  by (induction rs) simp_all

lemma classify_after:
  assumes "import_frame t N I db db'" "\<And>i. br_managerEmployeeId r = Some i \<Longrightarrow> i \<notin> I"
  shows "classify t db' r = (case classify t db r of Conflicting s \<Rightarrow> Conflicting s | _ \<Rightarrow>
     (case findByEmployeeNumber t (br_employeeNumber r) db' of None \<Rightarrow> Creating
      | Some e \<Rightarrow> (case diffEmployeeRecord e r of [] \<Rightarrow> Unchanged | ch \<Rightarrow> Updating ch)))"
proof -
  have org: "ed_orgUnits db' = ed_orgUnits db" using assms(1) by (simp add: import_frame_def)
  have mgr: "findEmployee t (the (br_managerEmployeeId r)) db' = None \<longleftrightarrow> findEmployee t (the (br_managerEmployeeId r)) db = None"
    if "truthy_str (br_managerEmployeeId r)"
    using assms that unfolding import_frame_def by (metis option.sel truthy_str_def option.case_eq_if option.collapse)
  show ?thesis using mgr by (auto simp: classify_def org split: option.split list.split)
qed


text \<open>
  Property C17. A committed import has done its work: if the run succeeds for records with different
  employee numbers, hours of at most two decimals and managers that are not among the identifiers the run
  generates, then it has created and updated exactly as many employees as the report announced, and the
  same records now have nothing left to create or update; only the conflicts of the report remain.
\<close>

theorem import_converges:
  assumes "employees_ok db" "distinct (map br_employeeNumber rs)" "\<And>r. r \<in> set rs \<Longrightarrow> stored r = r"
    and "\<And>r k. r \<in> set rs \<Longrightarrow> br_managerEmployeeId r \<noteq> Some (fst (ids k))"
    and "commit_records ids now t rs (buildReport t rs db) db = (Inr (c, u), db')"
  shows "buildReport t rs db' = (buildReport t rs db)\<lparr>dr_creates := [], dr_updates := []\<rparr>
    \<and> c = length (dr_creates (buildReport t rs db)) \<and> u = length (dr_updates (buildReport t rs db))"
proof -
  let ?rep = "buildReport t rs db"
  let ?cn = "map fst (dr_conflicts ?rep)" and ?un = "map fst (dr_updates ?rep)"
  have run: "commit_loop ids now t ?cn ?un 0 rs db = (Inr (c, u), db')" using assms(5) by (simp add: commit_records_def)
  note kinds = commit_kinds[OF assms(2)] and committed = commit_loop_success[OF assms(1) run assms(2)]
  have after: "classify t db' r = (case classify t db r of Conflicting s \<Rightarrow> Conflicting s | _ \<Rightarrow> Unchanged)" if r: "r \<in> set rs" for r
  proof -
    have new: "classify t db' r = (case classify t db r of Conflicting s \<Rightarrow> Conflicting s | _ \<Rightarrow>
       (case findByEmployeeNumber t (br_employeeNumber r) db' of None \<Rightarrow> Creating
        | Some e \<Rightarrow> (case diffEmployeeRecord e r of [] \<Rightarrow> Unchanged | ch \<Rightarrow> Updating ch)))"
      by (rule classify_after[OF commit_loop_frame[OF assms(1) run]]) (metis assms(4)[OF r] imageE)
    have here: "if classify t db r = Creating \<or> (\<exists>ch. classify t db r = Updating ch)
       then \<exists>e'. findByEmployeeNumber t (br_employeeNumber r) db' = Some e' \<and> diffEmployeeRecord e' r = []
       else findByEmployeeNumber t (br_employeeNumber r) db' = findByEmployeeNumber t (br_employeeNumber r) db"
      using bspec[OF conjunct2[OF conjunct2[OF committed]] r, unfolded kinds[OF r] assms(3)[OF r]] .
    show ?thesis
    proof (cases "classify t db r")
      case Unchanged
      then obtain e where e: "findByEmployeeNumber t (br_employeeNumber r) db = Some e" "diffEmployeeRecord e r = []" using classify_Unchanged by blast
      then have "findByEmployeeNumber t (br_employeeNumber r) db' = Some e" using here Unchanged by simp
      then show ?thesis using new Unchanged e by simp
    qed (use new here in auto)
  qed
  have "c = length (dr_creates ?rep)" "u = length (dr_updates ?rep)"
    using committed kinds by (auto simp: report_parts cong: filter_cong intro!: length_concat_if[symmetric] split: verdict.split)
  moreover have "buildReport t rs db' = ?rep\<lparr>dr_creates := [], dr_updates := []\<rparr>"
    by (rule DiffReport.equality) (use after in \<open>auto simp: report_parts intro!: arg_cong[of _ _ concat] split: verdict.split\<close>)
  ultimately show ?thesis by simp
qed


text \<open>Hours with more than two decimals are stored rounded, so such a record is an update at every run.\<close>

theorem unrounded_hours_never_settle:
  assumes "employees_ok db" "distinct (map br_employeeNumber rs)" "commit_records ids now t rs (buildReport t rs db) db = (Inr (c, u), db')"
    and "r \<in> set rs" "classify t db r = Creating \<or> (\<exists>ch. classify t db r = Updating ch)" "stored r \<noteq> r"
  shows "\<exists>e. findByEmployeeNumber t (br_employeeNumber r) db' = Some e \<and> diffEmployeeRecord e r \<noteq> []"
proof -
  note committed = commit_loop_success[OF assms(1) assms(3)[unfolded commit_records_def] assms(2)]
  obtain e where e: "findByEmployeeNumber t (br_employeeNumber r) db' = Some e" "diffEmployeeRecord e (stored r) = []"
    using bspec[OF conjunct2[OF conjunct2[OF committed]] assms(4), unfolded commit_kinds[OF assms(2,4)]] assms(5) by auto
  have "toFixed2 (br_contractHoursPerWeek r) \<noteq> br_contractHoursPerWeek r" using assms(6) by (auto simp: stored_def)
  then have "em_contractHoursPerWeek e \<noteq> br_contractHoursPerWeek r" using e(2) by (simp add: diff_empty stored_def)
  then show ?thesis using e(1) by (simp add: diff_empty)
qed

lemma toFixed2_int [simp]: "toFixed2 (real_of_int z) = real_of_int z"
proof -
  have "\<lfloor>100 * real_of_int z + 1 / 2\<rfloor> = 100 * z" by (rule floor_unique) simp_all
  then show ?thesis by (simp add: toFixed2_def)
qed

lemma toFixed2_numeral [simp]: "toFixed2 (numeral k) = numeral k"
  using toFixed2_int[of "numeral k"] by simp

definition demo_staff :: "uuid \<Rightarrow> string \<Rightarrow> Employee" where
  "demo_staff u cc = (new_employee ''e1'' 7 ''t'' demo_hire)\<lparr>em_orgUnitId := u, em_costCenter := Some cc\<rparr>"

definition demo_staffed :: employee_db where
  "demo_staffed = demo_master\<lparr>ed_employees := [demo_staff ''ou1'' ''c1'']\<rparr>"

definition demo_record :: "string \<Rightarrow> uuid \<Rightarrow> BulkImportRecord" where
  "demo_record n u = \<lparr>br_employeeNumber = n, br_orgUnitId = u, br_employmentType = PART_TIME, br_contractHoursPerWeek = 20,
     br_hireDate = (2026, 3, 1), br_costCenter = Some ''c2'', br_managerEmployeeId = None\<rparr>"

definition demo_ids :: "nat \<Rightarrow> record_ids" where
  "demo_ids k = (CHR ''n'' # replicate k CHR ''x'', ''v1'', ''v2'')"

lemmas import_eval = commit_records_def commit_record_def buildReport_def classify_def diffEmployeeRecord_def findByEmployeeNumber_def find_where_def
  demo_staffed_def demo_master_def demo_staff_def new_employee_def demo_hire_def demo_record_def demo_ids_def create_of_def update_of_def
  truthy_str_def transferEmployee_def findEmployee_def employee_row_def run_txn_def updateWithOutboxEvent_def write_employees_def update_where_def
  row_checks_def unique_indexes_def foreign_keys_def updateEmployee_def apply_update_def createEmployee_def assertWithinLimit_def getLimits_def
  numberField_def findActiveByType_def no_policies_def createWithOutboxEvent_def announce_def the_default_def

lemma demo_import_runs:
  "\<exists>db'. commit_records demo_ids 9 ''t'' [demo_record ''E-1'' ''ou2'', demo_record ''E-2'' ''ou1'']
     (buildReport ''t'' [demo_record ''E-1'' ''ou2'', demo_record ''E-2'' ''ou1''] demo_staffed) demo_staffed = (Inr (1, 1), db')"
  by (simp add: import_eval)

lemma demo_staffed_ok: "employees_ok demo_staffed"
  by (simp add: employees_ok_def row_checks_def unique_indexes_def foreign_keys_def demo_staffed_def demo_master_def demo_staff_def new_employee_def demo_hire_def)

theorem import_converges_witness:
  "\<exists>db'. commit_records demo_ids 9 ''t'' [demo_record ''E-1'' ''ou2'', demo_record ''E-2'' ''ou1'']
     (buildReport ''t'' [demo_record ''E-1'' ''ou2'', demo_record ''E-2'' ''ou1''] demo_staffed) demo_staffed = (Inr (1, 1), db')
   \<and> dr_creates (buildReport ''t'' [demo_record ''E-1'' ''ou2'', demo_record ''E-2'' ''ou1''] db') = []
   \<and> dr_updates (buildReport ''t'' [demo_record ''E-1'' ''ou2'', demo_record ''E-2'' ''ou1''] db') = []"
proof -
  let ?rs = "[demo_record ''E-1'' ''ou2'', demo_record ''E-2'' ''ou1'']"
  obtain db' where run: "commit_records demo_ids 9 ''t'' ?rs (buildReport ''t'' ?rs demo_staffed) demo_staffed = (Inr (1, 1), db')"
    using demo_import_runs by blast
  have "buildReport ''t'' ?rs db' = (buildReport ''t'' ?rs demo_staffed)\<lparr>dr_creates := [], dr_updates := []\<rparr>"
  proof (rule conjunct1[OF import_converges[OF demo_staffed_ok _ _ _ run]])
    show "distinct (map br_employeeNumber ?rs)" by (simp add: demo_record_def)
    show "stored r = r" if "r \<in> set ?rs" for r using that by (auto simp: demo_record_def stored_def)
    show "br_managerEmployeeId r \<noteq> Some (fst (demo_ids k))" if "r \<in> set ?rs" for r k using that by (auto simp: demo_record_def)
  qed
  then show ?thesis using run by auto
qed

end
