(* ===== verification/Hub_Adapters.thy ===== *)
theory Hub_Adapters
  imports Hub_Sync Bulk_Import
begin

text \<open>
  The four batch adapters of the integration hub (\<open>workday.adapter.ts\<close>, \<open>adp.adapter.ts\<close>,
  \<open>salesforce.adapter.ts\<close>, \<open>sap-successfactors.adapter.ts\<close>). Each checks its configuration and credential,
  fetches the roster with retries, and hands it to the same sequence: map the fields, drop incomplete
  records, dry-run the bulk import of the core service, decide which fields the platform keeps
  (\<open>conflict-detection.ts\<close>), and commit the rest (\<open>bulk-import-client.service.ts\<close>). The provider's HTTP
  server, Vault and the bulk-import endpoint are parameters. A \<open>Retry-After\<close> header is a number of
  seconds; property names that live on JavaScript prototypes do not occur.
\<close>

section \<open>Field mappings\<close>

record FieldMapping =
  fm_sourceField :: string
  fm_targetField :: string
  fm_transformationRule :: "json_object option"

fun split_dots :: "string \<Rightarrow> string list" where
  \<comment> \<open>\<open>path.split('.')\<close>\<close>
  "split_dots [] = [[]]"
| "split_dots (c # cs) = (if c = CHR ''.'' then [] # split_dots cs
     else case split_dots cs of [] \<Rightarrow> [[c]] | w # ws \<Rightarrow> (c # w) # ws)"

fun index_key :: "nat \<Rightarrow> string" where
  "index_key n = (if n < 10 then [char_of (48 + n)] else index_key (n div 10) @ [char_of (48 + n mod 10)])"

fun json_prop :: "json \<Rightarrow> string \<Rightarrow> json option" where
  \<comment> \<open>\<open>key in value\<close> and \<open>value[key]\<close> for an object or an array\<close>
  "json_prop (JObj fs) k = map_of fs k"
| "json_prop (JArr xs) k = (if k = ''length'' then Some (JNum (real (length xs)))
     else map_option snd (find_where (\<lambda>(i, x). index_key i = k) (enumerate 0 xs)))"
| "json_prop _ k = None"

definition getByPath :: "json \<Rightarrow> string \<Rightarrow> json option" where
  "getByPath source path = foldl (\<lambda>value key. case value of None \<Rightarrow> None | Some v \<Rightarrow> json_prop v key) (Some source) (split_dots path)"

definition applyTransform :: "json \<Rightarrow> json_object option \<Rightarrow> json" where
  "applyTransform rawValue rule = (case rule of None \<Rightarrow> rawValue | Some r \<Rightarrow>
     (let byFactor = (case (map_of r ''multiply'', rawValue) of (Some (JNum k), JNum x) \<Rightarrow> JNum (x * k) | _ \<Rightarrow> rawValue);
          byMap = (\<lambda>m. case rawValue of JStr s \<Rightarrow> (case json_prop m s of Some v \<Rightarrow> v | None \<Rightarrow> rawValue) | _ \<Rightarrow> rawValue)
      in case map_of r ''valueMap'' of
           Some (JObj fs) \<Rightarrow> byMap (JObj fs)
         | Some (JArr xs) \<Rightarrow> byMap (JArr xs)
         | _ \<Rightarrow> byFactor))"

definition applyFieldMappings :: "json \<Rightarrow> FieldMapping list \<Rightarrow> json_object" where
  "applyFieldMappings rawRecord mappings = foldl (\<lambda>target mapping.
     case getByPath rawRecord (fm_sourceField mapping) of
       None \<Rightarrow> target
     | Some v \<Rightarrow> json_set target (fm_targetField mapping) (applyTransform v (fm_transformationRule mapping))) [] mappings"

definition REQUIRED_BULK_IMPORT_FIELDS :: "string list" where
  "REQUIRED_BULK_IMPORT_FIELDS = [''employeeNumber'', ''orgUnitId'', ''employmentType'', ''contractHoursPerWeek'', ''hireDate'']"

definition isCompleteBulkImportRecord :: "json_object \<Rightarrow> bool" where
  "isCompleteBulkImportRecord r = list_all (\<lambda>f. map_of r f \<noteq> None \<and> map_of r f \<noteq> Some JNull) REQUIRED_BULK_IMPORT_FIELDS"

section \<open>Field authority\<close>

datatype FieldAuthoritySource = EXTERNAL_SYSTEM | AGNO_WFM
datatype FieldConflictAction = OVERWRITE | FLAG_FOR_REVIEW | REJECT_SYNC

record FieldAuthorityPolicy =
  fp_fieldName :: string
  fp_authoritativeSource :: FieldAuthoritySource
  fp_conflictAction :: FieldConflictAction

record FieldConflict =
  fc_employeeNumber :: string
  fc_fieldName :: string
  fc_agnoValue :: json
  fc_incomingValue :: json
  fc_conflictAction :: FieldConflictAction

record ConflictDetectionResult =
  cd_conflicts :: "FieldConflict list"
  cd_recordsToReject :: "string list" \<comment> \<open>a \<open>Set\<close>\<close>
  cd_fieldReverts :: "string \<rightharpoonup> json_object"

definition agno_policy :: "FieldAuthorityPolicy list \<Rightarrow> string \<Rightarrow> FieldAuthorityPolicy option" where
  \<comment> \<open>\<open>new Map(policies.filter(...).map(...))\<close>: the last one of a field\<close>
  "agno_policy policies = map_of (rev (map (\<lambda>p. (fp_fieldName p, p)) (filter (\<lambda>p. fp_authoritativeSource p = AGNO_WFM) policies)))"

definition detect_change ::
  "FieldAuthorityPolicy list \<Rightarrow> ConflictDetectionResult \<Rightarrow> string \<times> field_change \<Rightarrow> ConflictDetectionResult" where
  \<comment> \<open>the body of the inner loop\<close>
  "detect_change policies st = (\<lambda>(n, f, old, new). case agno_policy policies f of None \<Rightarrow> st | Some p \<Rightarrow>
     (let st1 = st\<lparr>cd_conflicts := cd_conflicts st @ [\<lparr>fc_employeeNumber = n, fc_fieldName = f, fc_agnoValue = old,
            fc_incomingValue = new, fc_conflictAction = fp_conflictAction p\<rparr>]\<rparr>
      in case fp_conflictAction p of
           REJECT_SYNC \<Rightarrow> st1\<lparr>cd_recordsToReject := js_add (cd_recordsToReject st1) n\<rparr>
         | FLAG_FOR_REVIEW \<Rightarrow> st1\<lparr>cd_fieldReverts := (cd_fieldReverts st1)(n \<mapsto> json_set (the_default (cd_fieldReverts st1 n) []) f old)\<rparr>
         | OVERWRITE \<Rightarrow> st1))"

definition change_items :: "(string \<times> field_change list) list \<Rightarrow> (string \<times> field_change) list" where
  "change_items updates = concat (map (\<lambda>(n, changes). map (\<lambda>ch. (n, ch)) changes) updates)"

definition detectFieldAuthorityConflicts :: "DiffReport option \<Rightarrow> FieldAuthorityPolicy list \<Rightarrow> ConflictDetectionResult" where
  "detectFieldAuthorityConflicts result policies =
     foldl (detect_change policies) \<lparr>cd_conflicts = [], cd_recordsToReject = [], cd_fieldReverts = Map.empty\<rparr>
       (change_items (case result of None \<Rightarrow> [] | Some rep \<Rightarrow> dr_updates rep))"

section \<open>The bulk-import client\<close>

datatype client_error = BulkImportClientUnavailable string string | BulkImportJobTimeout uuid

fun awaitCompletion :: "(nat \<Rightarrow> 's \<Rightarrow> (string + BulkImportJob) \<times> 's) \<Rightarrow> uuid \<Rightarrow> nat \<Rightarrow> nat \<Rightarrow> ('s, client_error, BulkImportJob) svc" where
  \<comment> \<open>the attempts left and the attempt made; \<open>getJob\<close> is the request of that attempt\<close>
  "awaitCompletion getJob jobId 0 attempt s = (Inl (BulkImportJobTimeout jobId), s)"
| "awaitCompletion getJob jobId (Suc left) attempt s = (case getJob attempt s of
     (Inl cause, s1) \<Rightarrow> (Inl (BulkImportClientUnavailable ''poll'' cause), s1)
   | (Inr job, s1) \<Rightarrow> if bj_status job = IMPORT_COMPLETED \<or> bj_status job = IMPORT_FAILED then (Inr job, s1)
                    else awaitCompletion getJob jobId left (Suc attempt) s1)"

record 's core_api =
  api_submit :: "uuid \<Rightarrow> bool \<Rightarrow> json_object list \<Rightarrow> 's \<Rightarrow> (string + BulkImportJob) \<times> 's"
  api_getJob :: "uuid \<Rightarrow> uuid \<Rightarrow> nat \<Rightarrow> 's \<Rightarrow> (string + BulkImportJob) \<times> 's"

definition submitAndAwait :: "'s core_api \<Rightarrow> nat \<Rightarrow> uuid \<Rightarrow> bool \<Rightarrow> json_object list \<Rightarrow> ('s, client_error, BulkImportJob) svc" where
  "submitAndAwait api maxPollAttempts t dryRun records s = (case api_submit api t dryRun records s of
     (Inl cause, s1) \<Rightarrow> (Inl (BulkImportClientUnavailable ''submit'' cause), s1)
   | (Inr job, s1) \<Rightarrow> awaitCompletion (api_getJob api t (bj_id job)) (bj_id job) maxPollAttempts 0 s1)"

section \<open>From the roster to the commit\<close>

definition numbered :: "string list \<Rightarrow> json_object \<Rightarrow> bool" where
  \<comment> \<open>\<open>set.has(record.employeeNumber)\<close>\<close>
  "numbered ns r = (case map_of r ''employeeNumber'' of Some (JStr n) \<Rightarrow> n \<in> set ns | _ \<Rightarrow> False)"

definition revert_fields :: "(string \<rightharpoonup> json_object) \<Rightarrow> json_object \<Rightarrow> json_object" where
  "revert_fields reverts r = (case map_of r ''employeeNumber'' of
     Some (JStr n) \<Rightarrow> (case reverts n of Some rv \<Rightarrow> json_spread r rv | None \<Rightarrow> r)
   | _ \<Rightarrow> r)"

definition recordsToCommit :: "ConflictDetectionResult \<Rightarrow> json_object list \<Rightarrow> json_object list" where
  "recordsToCommit det records = map (revert_fields (cd_fieldReverts det)) (filter (\<lambda>r. \<not> numbered (cd_recordsToReject det) r) records)"

fun action_str :: "FieldConflictAction \<Rightarrow> string" where
  "action_str OVERWRITE = ''overwrite''"
| "action_str FLAG_FOR_REVIEW = ''flag_for_review''"
| "action_str REJECT_SYNC = ''reject_sync''"

definition field_conflicts_json :: "FieldConflict list \<Rightarrow> json" where
  "field_conflicts_json cs = JArr (map (\<lambda>c. JObj [(''employeeNumber'', JStr (fc_employeeNumber c)), (''fieldName'', JStr (fc_fieldName c)),
     (''agnoValue'', fc_agnoValue c), (''incomingValue'', fc_incomingValue c), (''conflictAction'', JStr (action_str (fc_conflictAction c)))]) cs)"

definition module_conflicts_json :: "(string \<times> string) list \<Rightarrow> json" where
  "module_conflicts_json cs = JArr (map (\<lambda>(n, reason). JObj [(''employeeNumber'', JStr n), (''reason'', JStr reason)]) cs)"

definition json_nat :: "nat \<Rightarrow> json" where
  "json_nat n = JNum (real n)"

definition roster_outcome :: "CompletionStatus \<Rightarrow> nat \<Rightarrow> nat \<Rightarrow> nat option \<Rightarrow> json_object option \<Rightarrow> SyncJobCompletion" where
  "roster_outcome status processed failed conflicted details = \<lparr>co_status = status, co_recordsProcessed = int processed,
     co_recordsFailed = int failed, co_recordsConflicted = map_option int conflicted, co_errorDetails = details\<rparr>"

definition import_roster ::
  "(uuid \<Rightarrow> bool \<Rightarrow> json_object list \<Rightarrow> ('s, client_error, BulkImportJob) svc) \<Rightarrow> FieldMapping list \<Rightarrow> FieldAuthorityPolicy list \<Rightarrow> uuid \<Rightarrow> json list
    \<Rightarrow> ('s, client_error, SyncJobCompletion) svc" where
  \<comment> \<open>\<open>sync\<close> from the fetched roster on; \<open>await\<close> is \<open>bulkImport.submitAndAwait\<close>\<close>
  "import_roster await mappings policies t raw s =
     (let transformed = map (\<lambda>w. applyFieldMappings w mappings) raw;
          validRecords = filter isCompleteBulkImportRecord transformed;
          incompleteCount = length transformed - length validRecords
      in if validRecords = []
         then (Inr (roster_outcome DONE_FAILED 0 (length transformed) None (Some [(''reason'', JStr ''no_valid_records''),
                 (''totalFetched'', json_nat (length raw)), (''incompleteAfterMapping'', json_nat incompleteCount)])), s)
         else case await t True validRecords s of
           (Inl e, s1) \<Rightarrow> (Inl e, s1)
         | (Inr dryRun, s1) \<Rightarrow>
             if bj_status dryRun = IMPORT_FAILED
             then (Inr (roster_outcome DONE_FAILED 0 (length validRecords + incompleteCount) None (Some [(''reason'', JStr ''dry_run_failed''),
                     (''message'', json_of_opt (bj_error dryRun))])), s1)
             else let moduleConflicts = (case bj_result dryRun of None \<Rightarrow> [] | Some rep \<Rightarrow> dr_conflicts rep);
                      det = detectFieldAuthorityConflicts (bj_result dryRun) policies;
                      toCommit = recordsToCommit det validRecords;
                      conflicted = length (js_set (map fst moduleConflicts @ map fc_employeeNumber (cd_conflicts det)));
                      issues = [(''fieldAuthorityConflicts'', field_conflicts_json (cd_conflicts det)),
                                (''moduleConflicts'', module_conflicts_json moduleConflicts)];
                      incomplete = [(''incompleteAfterMapping'', json_nat incompleteCount)]
                  in if toCommit = []
                     then (Inr (roster_outcome DONE_PARTIAL_FAILURE 0 (length validRecords + incompleteCount) (Some conflicted)
                             (Some ((''reason'', JStr ''all_records_rejected_by_field_authority_policy'') # issues @ incomplete))), s1)
                     else case await t False toCommit s1 of
                       (Inl e, s2) \<Rightarrow> (Inl e, s2)
                     | (Inr commit, s2) \<Rightarrow>
                         if bj_status commit = IMPORT_FAILED
                         then (Inr (roster_outcome DONE_PARTIAL_FAILURE 0 (length validRecords + incompleteCount) (Some conflicted)
                                 (Some ([(''reason'', JStr ''commit_failed''), (''message'', json_of_opt (bj_error commit))] @ issues @ incomplete))), s2)
                         else let (created, updated) = (case bj_result commit of None \<Rightarrow> (0, 0) | Some rep \<Rightarrow> the_default (dr_committed rep) (0, 0));
                                  rejected = cd_recordsToReject det;
                                  hasAnyIssue = (conflicted > 0 \<or> incompleteCount > 0 \<or> rejected \<noteq> [])
                              in (Inr (roster_outcome (if hasAnyIssue then DONE_PARTIAL_FAILURE else DONE_COMPLETED) (created + updated)
                                    (length rejected + incompleteCount) (Some conflicted)
                                    (if hasAnyIssue
                                     then Some ((''reason'', JStr ''partial'') # issues @ (''recordsRejectedByPolicy'', JArr (map JStr rejected)) # incomplete)
                                     else None)), s2))"

section \<open>Fetching the roster\<close>

datatype http_response =
    NoResponse string
  | Response int "int option" "json option" \<comment> \<open>status, \<open>retry-after\<close> in seconds, body (\<open>None\<close>: not JSON)\<close>

definition PAGE_SIZE :: nat where
  "PAGE_SIZE = 100"

definition http_status_message :: "int \<Rightarrow> string" where
  "http_status_message status = ''HTTP '' @ index_key (nat status)"

definition http_attempt :: "(json \<Rightarrow> string + 'a) \<Rightarrow> http_response \<Rightarrow> (string, 'a) attempt_outcome" where
  \<comment> \<open>what an attempt makes of the response; \<open>envelope\<close> reads the body\<close>
  "http_attempt envelope r = (case r of
     NoResponse message \<Rightarrow> Throws message
   | Response status retryAfter body \<Rightarrow>
       if status = 429 then RateLimited (map_option (\<lambda>seconds. seconds * 1000) retryAfter)
       else if \<not> (200 \<le> status \<and> status < 300) then Throws (http_status_message status)
       else case body of None \<Rightarrow> Throws ''invalid JSON''
          | Some b \<Rightarrow> (case envelope b of Inl message \<Rightarrow> Throws message | Inr a \<Rightarrow> Result a))"

definition workday_envelope :: "json \<Rightarrow> string + json list \<times> real option" where
  "workday_envelope body = (case json_get body ''data'' of
     Some (JArr rows) \<Rightarrow> Inr (rows, case json_get body ''total'' of Some (JNum n) \<Rightarrow> Some n | _ \<Rightarrow> None)
   | _ \<Rightarrow> Inl ''response body has no \"data\" array'')"

definition adp_envelope :: "json \<Rightarrow> string + json list" where
  "adp_envelope body = (case json_get body ''workers'' of Some (JArr rows) \<Rightarrow> Inr rows
   | _ \<Rightarrow> Inl ''response body has no \"workers\" array (real ADP HR API v2 envelope shape)'')"

definition sap_envelope :: "json \<Rightarrow> string + json list" where
  "sap_envelope body = (case Option.bind (json_get body ''d'') (\<lambda>d. json_get d ''results'') of Some (JArr rows) \<Rightarrow> Inr rows
   | _ \<Rightarrow> Inl ''response body has no \"d.results\" array (real OData v2 envelope shape)'')"

type_synonym fetched = "(string backoff_error + json list) \<times> int list" \<comment> \<open>the roster, and the delays announced\<close>

partial_function (option) workday_pages :: "(nat \<Rightarrow> nat \<Rightarrow> http_response) \<Rightarrow> BackoffStrategy \<Rightarrow> nat \<Rightarrow> json list \<Rightarrow> int list \<Rightarrow> fetched option" where
  \<comment> \<open>the loop of \<open>fetchWorkers\<close>: \<open>server offset attempt\<close> answers a request\<close>
  "workday_pages server strategy offset workers delays =
     (case withBackoffRetry strategy (\<lambda>k. http_attempt workday_envelope (server offset k)) of
        (Inl e, ds) \<Rightarrow> Some (Inl e, delays @ ds)
      | (Inr (page, totalRows), ds) \<Rightarrow>
          (let workers' = workers @ page; offset' = offset + length page;
               coveredTotal = (case totalRows of None \<Rightarrow> False | Some n \<Rightarrow> n \<le> real offset')
           in if coveredTotal \<or> (totalRows = None \<and> length page < PAGE_SIZE) \<or> page = []
              then Some (Inr workers', delays @ ds)
              else workday_pages server strategy offset' workers' (delays @ ds)))"

partial_function (option) adp_pages :: "(nat \<Rightarrow> nat \<Rightarrow> http_response) \<Rightarrow> BackoffStrategy \<Rightarrow> nat \<Rightarrow> json list \<Rightarrow> int list \<Rightarrow> fetched option" where
  "adp_pages server strategy skip workers delays =
     (case withBackoffRetry strategy (\<lambda>k. http_attempt adp_envelope (server skip k)) of
        (Inl e, ds) \<Rightarrow> Some (Inl e, delays @ ds)
      | (Inr page, ds) \<Rightarrow>
          if length page < PAGE_SIZE then Some (Inr (workers @ page), delays @ ds)
          else adp_pages server strategy (skip + length page) (workers @ page) (delays @ ds))"

definition fetchPersons :: "(nat \<Rightarrow> http_response) \<Rightarrow> BackoffStrategy \<Rightarrow> fetched" where
  "fetchPersons server strategy = withBackoffRetry strategy (\<lambda>k. http_attempt sap_envelope (server k))"


definition json_truthy :: "json option \<Rightarrow> bool" where
  "json_truthy v = (case v of None \<Rightarrow> False | Some JNull \<Rightarrow> False | Some (JBool b) \<Rightarrow> b | Some (JNum x) \<Rightarrow> x \<noteq> 0 | Some (JStr s) \<Rightarrow> s \<noteq> [] | _ \<Rightarrow> True)"

definition breach_code :: "json option \<Rightarrow> json option" where
  \<comment> \<open>\<open>errorCode\<close> of the body or of the first element of an array; a body that is not JSON counts as \<open>null\<close>\<close>
  "breach_code body = (case body of Some (JArr (b # _)) \<Rightarrow> json_get b ''errorCode'' | Some b \<Rightarrow> json_get b ''errorCode'' | None \<Rightarrow> None)"

record breach =
  br_status :: int \<comment> \<open>\<open>on_breach_status ?? 403\<close>\<close>
  br_code :: string \<comment> \<open>\<open>on_breach_code ?? 'REQUEST_LIMIT_EXCEEDED'\<close>\<close>

partial_function (option) soql_pages :: "(string \<Rightarrow> http_response) \<Rightarrow> breach \<Rightarrow> string option \<Rightarrow> json list \<Rightarrow> (string, json list) attempt_outcome option" where
  \<comment> \<open>the \<open>while (path)\<close> of one attempt\<close>
  "soql_pages server br path records =
     (if \<not> truthy_str path then Some (Result records)
      else case server (the path) of
        NoResponse message \<Rightarrow> Some (Throws message)
      | Response status _ body \<Rightarrow>
          if status = br_status br
          then Some (if breach_code body = Some (JStr (br_code br)) then RateLimited None
                     else Throws (http_status_message status @ '': unexpected errorCode \"'' @
                       (case breach_code body of Some (JStr c) \<Rightarrow> c | _ \<Rightarrow> ''undefined'') @ ''\"''))
          else if \<not> (200 \<le> status \<and> status < 300) then Some (Throws (http_status_message status))
          else (case body of None \<Rightarrow> Some (Throws ''invalid JSON'') | Some b \<Rightarrow>
            (let rows = (case json_get b ''records'' of Some (JArr xs) \<Rightarrow> xs | _ \<Rightarrow> []);
                 next = (if json_truthy (json_get b ''done'') then None
                         else case json_get b ''nextRecordsUrl'' of Some (JStr u) \<Rightarrow> Some u | _ \<Rightarrow> None)
             in soql_pages server br next (records @ rows))))"

definition fetchRecords :: "(nat \<Rightarrow> string \<Rightarrow> http_response) \<Rightarrow> breach \<Rightarrow> BackoffStrategy \<Rightarrow> string \<Rightarrow> fetched option" where
  \<comment> \<open>every attempt starts again at the first page; the call returns when the attempts it makes return\<close>
  "fetchRecords server br strategy path =
     (let attempt = (\<lambda>k. soql_pages (server k) br (Some path) []);
          r = withBackoffRetry strategy (\<lambda>k. the (attempt k))
      in if list_all (\<lambda>k. attempt k \<noteq> None) [0..<Suc (length (snd r))] then Some r else None)"

section \<open>The adapters\<close>

datatype sync_error = VaultFailed string | ApiFailed string | ImportFailed client_error

type_synonym vault = "json option \<Rightarrow> string + json_object" \<comment> \<open>\<open>vault.read(config.credentialReference)\<close>\<close>

definition missing :: "string \<Rightarrow> string \<Rightarrow> SyncJobCompletion" where
  "missing reason message = roster_outcome DONE_FAILED 0 0 None (Some [(''reason'', JStr reason), (''message'', JStr message)])"

definition roster_or_stop ::
  "(nat \<Rightarrow> string) \<Rightarrow> fetched \<Rightarrow> (json list \<Rightarrow> ('s, client_error, SyncJobCompletion) svc) \<Rightarrow> ('s, sync_error, SyncJobCompletion) svc" where
  \<comment> \<open>the handler around the fetch, and the rest of \<open>sync\<close>; \<open>message\<close> is the text of \<open>RateLimitExhaustedError\<close>\<close>
  "roster_or_stop message f rest s = (case fst f of
     Inl (RateLimitExhausted n) \<Rightarrow> (Inr (roster_outcome DONE_PARTIAL_FAILURE 0 0 None
         (Some [(''reason'', JStr ''rate_limited_reactive_exhausted''), (''message'', JStr (message (nat n)))])), s)
   | Inl (AttemptThrew e) \<Rightarrow> (Inl (ApiFailed e), s)
   | Inr raw \<Rightarrow> (case rest raw s of (Inl e, s1) \<Rightarrow> (Inl (ImportFailed e), s1) | (Inr c, s1) \<Rightarrow> (Inr c, s1)))"

record 's roster_env =
  re_await :: "uuid \<Rightarrow> bool \<Rightarrow> json_object list \<Rightarrow> ('s, client_error, BulkImportJob) svc"
  re_mappings :: "FieldMapping list" \<comment> \<open>\<open>fieldMappings.findAllForConnector\<close>\<close>
  re_policies :: "FieldAuthorityPolicy list" \<comment> \<open>\<open>fieldAuthorityPolicies.findAllForConnector\<close>\<close>
  re_tenantId :: uuid

definition roster_import :: "'s roster_env \<Rightarrow> json list \<Rightarrow> ('s, client_error, SyncJobCompletion) svc" where
  "roster_import ren = import_roster (re_await ren) (re_mappings ren) (re_policies ren) (re_tenantId ren)"

definition workday_sync ::
  "vault \<Rightarrow> (nat \<Rightarrow> nat \<Rightarrow> http_response) \<Rightarrow> BackoffStrategy \<Rightarrow> (nat \<Rightarrow> string) \<Rightarrow> 's roster_env \<Rightarrow> json_object \<Rightarrow> 's \<Rightarrow> ((sync_error + SyncJobCompletion) \<times> 's) option" where
  "workday_sync vault server strategy message ren config s =
     (if \<not> json_truthy (map_of config ''workdayApiBaseUrl'')
      then Some (Inr (missing ''missing_config'' ''connector.config.workdayApiBaseUrl is not set''), s)
      else case vault (map_of config ''credentialReference'') of
        Inl e \<Rightarrow> Some (Inl (VaultFailed e), s)
      | Inr credential \<Rightarrow>
          let accessToken = map_of credential ''accessToken'';
              bearerToken = (if accessToken = None \<or> accessToken = Some JNull then map_of credential ''apiToken'' else accessToken)
          in if \<not> json_truthy bearerToken
             then Some (Inr (missing ''missing_credential'' ''Vault secret has no accessToken/apiToken field''), s)
             else map_option (\<lambda>f. roster_or_stop message f (roster_import ren) s) (workday_pages server strategy 0 [] []))"

definition adp_sync ::
  "vault \<Rightarrow> (nat \<Rightarrow> nat \<Rightarrow> http_response) \<Rightarrow> BackoffStrategy \<Rightarrow> (nat \<Rightarrow> string) \<Rightarrow> 's roster_env \<Rightarrow> json_object \<Rightarrow> 's \<Rightarrow> ((sync_error + SyncJobCompletion) \<times> 's) option" where
  "adp_sync vault server strategy message ren config s =
     (if \<not> json_truthy (map_of config ''adpApiBaseUrl'')
      then Some (Inr (missing ''missing_config'' ''connector.config.adpApiBaseUrl is not set''), s)
      else case vault (map_of config ''credentialReference'') of
        Inl e \<Rightarrow> Some (Inl (VaultFailed e), s)
      | Inr credential \<Rightarrow>
          if \<not> json_truthy (map_of credential ''accessToken'')
          then Some (Inr (missing ''missing_credential'' ''Vault secret has no accessToken field''), s)
          else if \<not> json_truthy (map_of credential ''clientCertPem'') \<or> \<not> json_truthy (map_of credential ''clientKeyPem'')
          then Some (Inr (missing ''missing_mtls_material''
                 ''ADP requires a mutual-TLS client certificate for every call; Vault secret is missing clientCertPem/clientKeyPem.''), s)
          else map_option (\<lambda>f. roster_or_stop message f (roster_import ren) s) (adp_pages server strategy 0 [] []))"

definition soql_path :: "(string \<Rightarrow> string) \<Rightarrow> json_object \<Rightarrow> string" where
  \<comment> \<open>\<open>encode\<close> is \<open>encodeURIComponent\<close>\<close>
  "soql_path encode config = ''/services/data/'' @ (case map_of config ''salesforceApiVersion'' of Some (JStr v) \<Rightarrow> v | _ \<Rightarrow> ''v59.0'')
     @ ''/query?q='' @ encode (case map_of config ''salesforceQuery'' of Some (JStr q) \<Rightarrow> q | _ \<Rightarrow> [])"

definition salesforce_sync ::
  "vault \<Rightarrow> (nat \<Rightarrow> string \<Rightarrow> http_response) \<Rightarrow> breach \<Rightarrow> (string \<Rightarrow> string) \<Rightarrow> BackoffStrategy \<Rightarrow> (nat \<Rightarrow> string) \<Rightarrow> 's roster_env \<Rightarrow> json_object \<Rightarrow> 's \<Rightarrow> ((sync_error + SyncJobCompletion) \<times> 's) option" where
  "salesforce_sync vault server br encode strategy message ren config s =
     (if \<not> json_truthy (map_of config ''salesforceApiBaseUrl'') \<or> \<not> json_truthy (map_of config ''salesforceQuery'')
      then Some (Inr (missing ''missing_config'' ''connector.config.salesforceApiBaseUrl and connector.config.salesforceQuery are both required''), s)
      else case vault (map_of config ''credentialReference'') of
        Inl e \<Rightarrow> Some (Inl (VaultFailed e), s)
      | Inr credential \<Rightarrow>
          if \<not> json_truthy (map_of credential ''accessToken'')
          then Some (Inr (missing ''missing_credential'' ''Vault secret has no accessToken field''), s)
          else map_option (\<lambda>f. roster_or_stop message f (roster_import ren) s)
                 (fetchRecords server br strategy (soql_path encode config)))"

definition sap_sync ::
  "vault \<Rightarrow> (nat \<Rightarrow> http_response) \<Rightarrow> BackoffStrategy \<Rightarrow> (nat \<Rightarrow> string) \<Rightarrow> 's roster_env \<Rightarrow> json_object \<Rightarrow> ('s, sync_error, SyncJobCompletion) svc" where
  "sap_sync vault server strategy message ren config s =
     (if \<not> json_truthy (map_of config ''sapApiBaseUrl'')
      then (Inr (missing ''missing_config'' ''connector.config.sapApiBaseUrl is not set''), s)
      else case vault (map_of config ''credentialReference'') of
        Inl e \<Rightarrow> (Inl (VaultFailed e), s)
      | Inr credential \<Rightarrow>
          if \<not> json_truthy (map_of credential ''accessToken'')
          then (Inr (missing ''missing_credential'' ''Vault secret has no accessToken field''), s)
          else roster_or_stop message (fetchPersons server strategy) (roster_import ren) s)"


section \<open>The whole roster is fetched\<close>

definition answers :: "BackoffStrategy \<Rightarrow> (nat \<Rightarrow> ('e, 'a) attempt_outcome) \<Rightarrow> 'a \<Rightarrow> bool" where
  \<comment> \<open>within the retries allowed, the first attempt that is not rate-limited returns \<open>a\<close>\<close>
  "answers strategy attempt a \<longleftrightarrow> (\<exists>n. int n \<le> the_default (bs_max_retries strategy) 3 \<and> attempt n = Result a \<and> (\<forall>i<n. is_limited (attempt i)))"

lemma answered: "answers strategy attempt a \<Longrightarrow> \<exists>ds. withBackoffRetry strategy attempt = (Inr a, ds)"
  using backoff_loop_result[of strategy "the_default (bs_max_retries strategy) 3" attempt 0 a]
  by (cases "withBackoffRetry strategy attempt") (auto simp: answers_def withBackoffRetry_def)

lemma take_more: "take n xs @ take m (drop n xs) = take (n + m) xs"
  by (simp add: take_add)

lemma workday_pages_complete:
  assumes "\<And>offset. answers strategy (\<lambda>k. http_attempt workday_envelope (server offset k)) (take (sz offset) (drop offset W), totalRows)"
    and "totalRows = Some (real (length W)) \<and> (\<forall>offset. 0 < sz offset) \<or> totalRows = None \<and> (\<forall>offset. sz offset = PAGE_SIZE)"
    and "offset \<le> length W"
  shows "\<exists>ds. workday_pages server strategy offset (take offset W) delays = Some (Inr W, ds)"
  using assms(3)
proof (induction "length W - offset" arbitrary: offset delays rule: less_induct)
  case less
  define page where "page = take (sz offset) (drop offset W)"
  obtain ds where fetched: "withBackoffRetry strategy (\<lambda>k. http_attempt workday_envelope (server offset k)) = (Inr (page, totalRows), ds)"
    using answered[OF assms(1), of offset] unfolding page_def by blast
  have workers: "take offset W @ page = take (offset + length page) W" by (simp add: page_def take_more min_def)
  let ?next = "offset + length page"
  define stop where "stop \<longleftrightarrow> (case totalRows of None \<Rightarrow> False | Some n \<Rightarrow> n \<le> real ?next) \<or> (totalRows = None \<and> length page < PAGE_SIZE) \<or> page = []"
  have run: "workday_pages server strategy offset (take offset W) delays =
      (if stop then Some (Inr (take ?next W), delays @ ds) else workday_pages server strategy ?next (take ?next W) (delays @ ds))"
    by (subst workday_pages.simps) (simp add: fetched workers stop_def Let_def)
  have le: "?next \<le> length W" using less.prems by (simp add: page_def)
  show ?case
  proof (cases stop)
    case True
    have "sz offset \<noteq> 0" using assms(2) by (metis PAGE_SIZE_def less_numeral_extra(3) zero_neq_numeral)
    then have "length W \<le> ?next" using True assms(2) less.prems by (auto simp: stop_def page_def PAGE_SIZE_def)
    then show ?thesis using run True by simp
  next
    case False
    then have "0 < length page" by (simp add: stop_def)
    then have "length W - ?next < length W - offset" using le by linarith
    from less.hyps[OF this le, of "delays @ ds"] show ?thesis using run False by simp
  qed
qed

lemma adp_pages_complete:
  assumes "\<And>skip. answers strategy (\<lambda>k. http_attempt adp_envelope (server skip k)) (take PAGE_SIZE (drop skip W))" and "skip \<le> length W"
  shows "\<exists>ds. adp_pages server strategy skip (take skip W) delays = Some (Inr W, ds)"
  using assms(2)
proof (induction "length W - skip" arbitrary: skip delays rule: less_induct)
  case less
  let ?page = "take PAGE_SIZE (drop skip W)"
  let ?next = "skip + length ?page"
  obtain ds where page: "withBackoffRetry strategy (\<lambda>k. http_attempt adp_envelope (server skip k)) = (Inr ?page, ds)"
    using answered[OF assms(1)] by blast
  have workers: "take skip W @ ?page = take ?next W" by (simp add: take_more min_def)
  have run: "adp_pages server strategy skip (take skip W) delays =
      (if length ?page < PAGE_SIZE then Some (Inr (take ?next W), delays @ ds) else adp_pages server strategy ?next (take ?next W) (delays @ ds))"
    by (subst adp_pages.simps) (simp add: page workers)
  show ?case
  proof (cases "length ?page < PAGE_SIZE")
    case True
    then have "take ?next W = W" by (simp add: PAGE_SIZE_def)
    then show ?thesis using run True by simp
  next
    case False
    then have "length W - ?next < length W - skip" "?next \<le> length W" using less.prems by (auto simp: PAGE_SIZE_def)
    from less.hyps[OF this, of "delays @ ds"] show ?thesis using run False by simp
  qed
qed


text \<open>
  Property C28. No worker is lost to paging: if the Workday server answers each page within the retries
  allowed, serves successive slices of its roster, and either reports the total (its pages then may have
  any positive size) or sends full pages until the last, then the fetch ends and returns the whole roster
  in order.
\<close>

theorem roster_fetched_completely:
  assumes "\<And>offset. answers strategy (\<lambda>k. http_attempt workday_envelope (server offset k)) (take (sz offset) (drop offset W), totalRows)"
    and "totalRows = Some (real (length W)) \<and> (\<forall>offset. 0 < sz offset) \<or> totalRows = None \<and> (\<forall>offset. sz offset = PAGE_SIZE)"
  shows "\<exists>ds. workday_pages server strategy 0 [] [] = Some (Inr W, ds)"
  using workday_pages_complete[OF assms, of 0 "[]"] by simp

definition demo_roster :: "json list" where
  "demo_roster = map (\<lambda>i. JObj [(''id'', JNum (real i))]) [0..<5]"

definition demo_server :: "nat \<Rightarrow> nat \<Rightarrow> http_response" where
  \<comment> \<open>pages of two rows, with the first request of each page refused once\<close>
  "demo_server offset k = (if k = 0 then Response 429 (Some 1) None
     else Response 200 None (Some (JObj [(''data'', JArr (take 2 (drop offset demo_roster))), (''total'', JNum 5)])))"

theorem roster_fetched_completely_witness:
  "\<exists>ds. workday_pages demo_server \<lparr>bs_base_ms = None, bs_max_retries = None, bs_respect_retry_after = True\<rparr> 0 [] [] = Some (Inr demo_roster, ds)"
proof (rule roster_fetched_completely[where sz = "\<lambda>_. 2" and totalRows = "Some 5"])
  fix offset
  show "answers \<lparr>bs_base_ms = None, bs_max_retries = None, bs_respect_retry_after = True\<rparr>
      (\<lambda>k. http_attempt workday_envelope (demo_server offset k)) (take 2 (drop offset demo_roster), Some 5)"
    unfolding answers_def by (intro exI[of _ 1]) (simp add: the_default_def http_attempt_def demo_server_def workday_envelope_def)
qed (simp add: demo_roster_def)

end
