(* ===== verification/Hub_Import.thy ===== *)
theory Hub_Import
  imports Hub_Adapters
begin

text \<open>
  The batch sync of the integration hub against the bulk import of the core service. The endpoint of
  the core service (\<open>bulk-import.controller.ts\<close> with its validation) is modelled with its background work
  as a list of spawned tasks, so a poll may find a job unfinished and a sync may time out with its commit
  still to come. What the adapters rely on is the locale \<open>bulk_endpoint\<close>; the main result is that a sync
  never changes a field of an existing employee that an authority policy reserves to the platform.
\<close>

section \<open>The endpoint\<close>

record dto_env =
  de_isUuid :: "string \<Rightarrow> bool"
  de_date :: "string \<rightharpoonup> iso_date" \<comment> \<open>the date of an accepted date string\<close>

definition RECORD_KEYS :: "string list" where
  "RECORD_KEYS = [''employeeNumber'', ''orgUnitId'', ''employmentType'', ''contractHoursPerWeek'', ''hireDate'', ''costCenter'', ''managerEmployeeId'']"

definition employment_of :: "string \<Rightarrow> EmploymentType option" where
  "employment_of s = find_where (\<lambda>ty. employment_str ty = s) [FULL_TIME, PART_TIME, CONTRACTOR, SEASONAL]"

definition optional_str :: "(string \<Rightarrow> bool) \<Rightarrow> json option \<Rightarrow> string option option" where
  \<comment> \<open>\<open>@IsOptional()\<close>: absent and \<open>null\<close> pass; the outer \<open>None\<close> is a violation\<close>
  "optional_str ok v = (case v of None \<Rightarrow> Some None | Some JNull \<Rightarrow> Some None
     | Some (JStr s) \<Rightarrow> if ok s then Some (Some s) else None | _ \<Rightarrow> None)"

definition parse_record :: "dto_env \<Rightarrow> json_object \<Rightarrow> BulkImportRecord option" where
  \<comment> \<open>\<open>ValidationPipe\<close> on a \<open>BulkImportRecordDto\<close>; unknown properties are forbidden\<close>
  "parse_record env r =
     (if \<not> list_all (\<lambda>(k, _). k \<in> set RECORD_KEYS) r then None
      else case (map_of r ''employeeNumber'', map_of r ''orgUnitId'', map_of r ''employmentType'', map_of r ''contractHoursPerWeek'', map_of r ''hireDate'') of
        (Some (JStr n), Some (JStr u), Some (JStr ty), Some (JNum h), Some (JStr d)) \<Rightarrow>
          (case (employment_of ty, de_date env d, optional_str (\<lambda>s. length s \<le> 100) (map_of r ''costCenter''),
                 optional_str (de_isUuid env) (map_of r ''managerEmployeeId'')) of
             (Some ty', Some d', Some cc, Some mgr) \<Rightarrow>
               if 1 \<le> length n \<and> length n \<le> 50 \<and> de_isUuid env u \<and> 0 \<le> h \<and> h \<le> 168
               then Some \<lparr>br_employeeNumber = n, br_orgUnitId = u, br_employmentType = ty', br_contractHoursPerWeek = h,
                      br_hireDate = d', br_costCenter = cc, br_managerEmployeeId = mgr\<rparr>
               else None
           | _ \<Rightarrow> None)
      | _ \<Rightarrow> None)"

record core_state =
  cs_db :: bulk_db
  cs_tasks :: "(uuid \<times> uuid \<times> BulkImportRecord list \<times> bool) list" \<comment> \<open>calls of \<open>processImport\<close> still to run\<close>

record core_env =
  ke_dto :: dto_env
  ke_authorised :: bool \<comment> \<open>whether the guards admit the request\<close>
  ke_newJob :: "nat \<Rightarrow> uuid"
  ke_ids :: "uuid \<Rightarrow> nat \<Rightarrow> record_ids"
  ke_now :: "uuid \<Rightarrow> millis"
  ke_message :: "employee_error \<Rightarrow> string"
  ke_delay :: "uuid \<Rightarrow> nat" \<comment> \<open>polls answered before the background work of a job is done\<close>

definition run_task :: "core_env \<Rightarrow> bulk_db \<Rightarrow> uuid \<times> uuid \<times> BulkImportRecord list \<times> bool \<Rightarrow> bulk_db" where
  "run_task env db = (\<lambda>(jobId, t, rs, dryRun). processImport (ke_message env) (ke_ids env jobId) (ke_now env jobId) jobId t rs dryRun db)"

definition run_tasks :: "core_env \<Rightarrow> core_state \<Rightarrow> core_state" where
  "run_tasks env st = st\<lparr>cs_db := foldl (run_task env) (cs_db st) (cs_tasks st), cs_tasks := []\<rparr>"

definition bulkImport :: "core_env \<Rightarrow> uuid \<Rightarrow> bool \<Rightarrow> json_object list \<Rightarrow> core_state \<Rightarrow> (string + BulkImportJob) \<times> core_state" where
  "bulkImport env t dryRun records st =
     (if \<not> ke_authorised env then (Inl ''HTTP 401'', st)
      else case those (map (parse_record (ke_dto env)) records) of
        None \<Rightarrow> (Inl ''HTTP 400'', st)
      | Some rs \<Rightarrow> (case startBulkImport (ke_newJob env (length (bd_jobs (cs_db st)))) t (Some dryRun) rs None (cs_db st) of
          (Inl _, db) \<Rightarrow> (Inl ''HTTP 500'', st\<lparr>cs_db := db\<rparr>)
        | (Inr (job, spawned), db) \<Rightarrow>
            (Inr job, st\<lparr>cs_db := db, cs_tasks := cs_tasks st @ (if spawned then [(bj_id job, t, rs, dryRun)] else [])\<rparr>)))"

definition getJob :: "core_env \<Rightarrow> uuid \<Rightarrow> uuid \<Rightarrow> nat \<Rightarrow> core_state \<Rightarrow> (string + BulkImportJob) \<times> core_state" where
  "getJob env t jobId attempt st =
     (let st1 = (if ke_delay env jobId \<le> attempt then run_tasks env st else st)
      in if \<not> ke_authorised env then (Inl ''HTTP 401'', st1)
         else case find_where (\<lambda>j. bj_id j = jobId \<and> bj_tenantId j = t) (bd_jobs (cs_db st1)) of
           None \<Rightarrow> (Inl ''HTTP 404'', st1)
         | Some job \<Rightarrow> (Inr job, st1))"

definition core_import_api :: "core_env \<Rightarrow> core_state core_api" where
  "core_import_api env = \<lparr>api_submit = bulkImport env, api_getJob = getJob env\<rparr>"

section \<open>What detection finds\<close>

definition acts :: "FieldAuthorityPolicy list \<Rightarrow> FieldConflictAction \<Rightarrow> string \<Rightarrow> bool" where
  "acts policies action f \<longleftrightarrow> map_option fp_conflictAction (agno_policy policies f) = Some action"

lemma detect_change_parts:
  "cd_fieldReverts (detect_change policies st (n, f, old, new)) = (if acts policies FLAG_FOR_REVIEW f
     then (cd_fieldReverts st)(n \<mapsto> json_set (the_default (cd_fieldReverts st n) []) f old) else cd_fieldReverts st)"
  "cd_recordsToReject (detect_change policies st (n, f, old, new)) =
     (if acts policies REJECT_SYNC f then js_add (cd_recordsToReject st) n else cd_recordsToReject st)"
  by (simp_all add: detect_change_def acts_def Let_def split: option.split FieldConflictAction.split)

definition detected :: "FieldAuthorityPolicy list \<Rightarrow> (string \<times> field_change) list \<Rightarrow> ConflictDetectionResult \<Rightarrow> bool" where
  "detected policies items st \<longleftrightarrow>
     (\<forall>n rv. cd_fieldReverts st n = Some rv \<longrightarrow> distinct (map fst rv) \<and> (\<forall>f v. map_of rv f = Some v \<longrightarrow> (\<exists>new. (n, f, v, new) \<in> set items)))
   \<and> (\<forall>n f old new. (n, f, old, new) \<in> set items \<and> acts policies FLAG_FOR_REVIEW f \<longrightarrow> (\<exists>rv v. cd_fieldReverts st n = Some rv \<and> map_of rv f = Some v))
   \<and> (\<forall>n f old new. (n, f, old, new) \<in> set items \<and> acts policies REJECT_SYNC f \<longrightarrow> n \<in> set (cd_recordsToReject st))"

lemma detected_step:
  assumes "detected policies items st"
  shows "detected policies (items @ [(n, f, old, new)]) (detect_change policies st (n, f, old, new))"
proof -
  let ?st = "detect_change policies st (n, f, old, new)"
  note d = assms[unfolded detected_def]
  have "distinct (map fst rv) \<and> (\<forall>g v. map_of rv g = Some v \<longrightarrow> (\<exists>new'. (m, g, v, new') \<in> set (items @ [(n, f, old, new)])))"
    if "cd_fieldReverts ?st m = Some rv" for m rv
  proof (cases "acts policies FLAG_FOR_REVIEW f \<and> m = n")
    case True
    then have rv: "rv = json_set (the_default (cd_fieldReverts st n) []) f old" using that by (simp add: detect_change_parts)
    show ?thesis
    proof (cases "cd_fieldReverts st n")
      case None
      then show ?thesis using True by (auto simp: rv the_default_def)
    next
      case (Some old_rv)
      then have "distinct (map fst old_rv)" "\<And>g v. map_of old_rv g = Some v \<Longrightarrow> \<exists>new. (n, g, v, new) \<in> set items" using d by blast+
      then show ?thesis using True Some by (auto simp: rv the_default_def)
    qed
  next
    case False
    then have rv: "cd_fieldReverts st m = Some rv" using that by (auto simp: detect_change_parts split: if_splits)
    have "distinct (map fst rv)" "\<And>g v. map_of rv g = Some v \<Longrightarrow> \<exists>new'. (m, g, v, new') \<in> set items" using d rv by blast+
    then show ?thesis unfolding set_append by blast
  qed
  moreover have "\<exists>rv v. cd_fieldReverts ?st m = Some rv \<and> map_of rv g = Some v"
    if item: "(m, g, o', n') \<in> set (items @ [(n, f, old, new)])" and flag: "acts policies FLAG_FOR_REVIEW g" for m g o' n'
  proof (cases "(m, g) = (n, f)")
    case True
    then show ?thesis using flag by (simp add: detect_change_parts)
  next
    case False
    then have "(m, g, o', n') \<in> set items" using item by auto
    then obtain rv v where "cd_fieldReverts st m = Some rv" "map_of rv g = Some v" using d flag by blast
    then show ?thesis using False by (auto simp: detect_change_parts the_default_def)
  qed
  moreover have "m \<in> set (cd_recordsToReject ?st)"
    if item: "(m, g, o', n') \<in> set (items @ [(n, f, old, new)])" and rej: "acts policies REJECT_SYNC g" for m g o' n'
  proof (cases "(m, g, o', n') \<in> set items")
    case True
    then have "m \<in> set (cd_recordsToReject st)" using d rej by blast
    then show ?thesis by (simp add: detect_change_parts)
  next
    case False
    then show ?thesis using item rej by (simp add: detect_change_parts)
  qed
  ultimately show ?thesis unfolding detected_def by blast
qed

lemma detected_revert: "detected policies items det \<Longrightarrow> cd_fieldReverts det n = Some rv \<Longrightarrow> map_of rv f = Some v \<Longrightarrow> \<exists>new. (n, f, v, new) \<in> set items"
  unfolding detected_def by blast

lemma detected_flag:
  "detected policies items det \<Longrightarrow> (n, f, old, new) \<in> set items \<Longrightarrow> acts policies FLAG_FOR_REVIEW f \<Longrightarrow> \<exists>rv v. cd_fieldReverts det n = Some rv \<and> map_of rv f = Some v"
  unfolding detected_def by blast

lemma detected_reject:
  "detected policies items det \<Longrightarrow> (n, f, old, new) \<in> set items \<Longrightarrow> acts policies REJECT_SYNC f \<Longrightarrow> n \<in> set (cd_recordsToReject det)"
  unfolding detected_def by blast

lemma detectFieldAuthorityConflicts_detected:
  "detected policies (change_items (dr_updates rep)) (detectFieldAuthorityConflicts (Some rep) policies)"
proof -
  have "detected policies items (foldl (detect_change policies) \<lparr>cd_conflicts = [], cd_recordsToReject = [], cd_fieldReverts = Map.empty\<rparr> items)" for items
  proof (induction items rule: rev_induct)
    case Nil
    then show ?case by (simp add: detected_def)
  next
    case (snoc x items)
    then show ?case using detected_step by (cases x) simp
  qed
  then show ?thesis by (simp add: detectFieldAuthorityConflicts_def)
qed

section \<open>Reverted records\<close>

definition two_decimals :: "employee_db \<Rightarrow> bool" where
  \<comment> \<open>the \<open>numeric(5,2)\<close> column\<close>
  "two_decimals db = list_all (\<lambda>e. toFixed2 (em_contractHoursPerWeek e) = em_contractHoursPerWeek e) (ed_employees db)"

definition reads_fields :: "(json_object \<Rightarrow> BulkImportRecord option) \<Rightarrow> bool" where
  \<comment> \<open>validation hands on the values of the request\<close>
  "reads_fields parse \<longleftrightarrow> (\<forall>j r. parse j = Some r \<longrightarrow> map_of j ''employeeNumber'' = Some (JStr (br_employeeNumber r))
     \<and> (\<forall>f\<in>set IMPORT_FIELDS. record_value f r = the_default (map_of j f) JNull))"

lemma reads_number: "reads_fields parse \<Longrightarrow> parse j = Some r \<Longrightarrow> map_of j ''employeeNumber'' = Some (JStr (br_employeeNumber r))"
  by (simp add: reads_fields_def)

lemma reads_value: "reads_fields parse \<Longrightarrow> parse j = Some r \<Longrightarrow> f \<in> set IMPORT_FIELDS \<Longrightarrow> record_value f r = the_default (map_of j f) JNull"
  by (simp add: reads_fields_def)

lemma those_mem: "those (map f xs) = Some ys \<Longrightarrow> y \<in> set ys \<Longrightarrow> \<exists>x\<in>set xs. f x = Some y"
  by (induction xs arbitrary: ys) (auto split: option.splits)

lemma those_mem': "those (map f xs) = Some ys \<Longrightarrow> x \<in> set xs \<Longrightarrow> \<exists>y\<in>set ys. f x = Some y"
  by (induction xs arbitrary: ys) (auto split: option.splits)

lemma those_eqI: "those (map f xs) = Some ys \<Longrightarrow> (\<And>x y. f x = Some y \<Longrightarrow> g x = h y) \<Longrightarrow> map g xs = map h ys"
  by (induction xs arbitrary: ys) (auto split: option.splits)

text \<open>The records of a roster, each with its own employee number, keep their numbers apart when validated.\<close>

lemma parsed_distinct:
  assumes "reads_fields parse" "those (map parse js) = Some rs" "distinct (map (\<lambda>j. map_of j ''employeeNumber'') js)"
  shows "distinct (map br_employeeNumber rs)"
proof -
  have eq: "map (\<lambda>j. map_of j ''employeeNumber'') js = map (\<lambda>r. Some (JStr (br_employeeNumber r))) rs"
    by (rule those_eqI[OF assms(2)]) (rule reads_number[OF assms(1)])
  have "distinct (map (\<lambda>n. Some (JStr n)) (map br_employeeNumber rs))" using assms(3) unfolding eq by (simp add: comp_def)
  then show ?thesis by (simp only: distinct_map)
qed

lemma stored_value:
  assumes "record_value f r = field_value f e" "toFixed2 (em_contractHoursPerWeek e) = em_contractHoursPerWeek e"
  shows "record_value f (stored r) = field_value f e"
  using assms by (auto simp: record_value_def field_value_def stored_def split: if_splits)

lemma no_field: "f \<notin> set IMPORT_FIELDS \<Longrightarrow> field_value f e = JNull \<and> record_value f r = JNull"
  by (simp add: IMPORT_FIELDS_def field_value_def record_value_def)

lemma in_diff: "(f, old, new) \<in> set (diffEmployeeRecord e r) \<longleftrightarrow>
    f \<in> set IMPORT_FIELDS \<and> old = field_value f e \<and> new = record_value f r \<and> old \<noteq> new"
proof -
  have "distinct (map fst (diffEmployeeRecord e r))" by (simp add: diffEmployeeRecord_def)
  from map_of_eq_Some_iff[OF this, of f "(old, new)"] show ?thesis by (auto simp: diff_lookup split: if_splits)
qed

lemma change_item:
  "(n, f, old, new) \<in> set (change_items (dr_updates (buildReport t rs db))) \<longleftrightarrow>
     (\<exists>r\<in>set rs. \<exists>ch. n = br_employeeNumber r \<and> classify t db r = Updating ch \<and> (f, old, new) \<in> set ch)"
proof -
  have "(n, f, old, new) \<in> set (change_items us) \<longleftrightarrow> (\<exists>ch. (n, ch) \<in> set us \<and> (f, old, new) \<in> set ch)" for us
    by (fastforce simp: change_items_def)
  then show ?thesis by (auto simp: report_update_entry)
qed

lemma commit_loop_skips:
  assumes "employees_ok db" "commit_loop ids now t cn un k rs db = (res, db')" "n \<in> set cn"
  shows "findByEmployeeNumber t n db' = findByEmployeeNumber t n db"
  using assms(1,2)
proof (induction rs arbitrary: k db res)
  case (Cons r rs)
  from Cons.prems(2) show ?case
  proof (cases rule: commit_loop_Cons)
    case (1 res1 db1)
    have f: "import_frame t {br_employeeNumber r} {fst (ids k)} db db1" by (rule commit_record_frame[OF Cons.prems(1) 1(1)])
    then have ok: "employees_ok db1" by (simp add: import_frame_def)
    have "findByEmployeeNumber t n db1 = findByEmployeeNumber t n db"
    proof (cases "br_employeeNumber r = n")
      case True
      then have "db1 = db" using 1(1) assms(3) by (cases "ids k") (simp add: commit_record_def)
      then show ?thesis by simp
    next
      case False
      then show ?thesis using import_frame_other[OF f] by simp
    qed
    then show ?thesis using 1(2,3) Cons.IH[OF ok] by (cases "isl res1") auto
  qed
qed simp


lemma revert_lookup:
  assumes "map_of j ''employeeNumber'' = Some (JStr n)" "detected policies items det"
  shows "map_of (revert_fields (cd_fieldReverts det) j) = map_of j ++ (case cd_fieldReverts det n of None \<Rightarrow> Map.empty | Some rv \<Rightarrow> map_of rv)"
  using assms by (cases "cd_fieldReverts det n") (auto simp: revert_fields_def detected_def intro: map_of_json_spread)

text \<open>
  Where a committed record comes from: a record of the dry run with the same number, each of whose fields
  is its own, without a change that a policy protects, or the value the dry run reported for the employee.
\<close>

lemma committed_origin:
  assumes reads: "reads_fields parse" and dry: "those (map parse js) = Some rs0" and live: "those (map parse (recordsToCommit det js)) = Some rs"
    and D: "detected policies items det" and r: "r \<in> set rs"
    and keys: "\<forall>x\<in>set items. fst (snd x) \<in> set IMPORT_FIELDS"
  shows "\<exists>r0\<in>set rs0. br_employeeNumber r0 = br_employeeNumber r \<and> (\<forall>g\<in>set IMPORT_FIELDS.
     (\<exists>new. (br_employeeNumber r, g, record_value g r, new) \<in> set items)
     \<or> (record_value g r = record_value g r0
        \<and> (acts policies FLAG_FOR_REVIEW g \<or> acts policies REJECT_SYNC g \<longrightarrow> (\<forall>old new. (br_employeeNumber r, g, old, new) \<notin> set items))))"
proof -
  obtain j where j: "j \<in> set js" "\<not> numbered (cd_recordsToReject det) j" and r': "parse (revert_fields (cd_fieldReverts det) j) = Some r"
    using those_mem[OF live r] by (auto simp: recordsToCommit_def)
  obtain r0 where r0: "r0 \<in> set rs0" "parse j = Some r0" using those_mem'[OF dry j(1)] by blast
  let ?n = "br_employeeNumber r0"
  have num: "map_of j ''employeeNumber'' = Some (JStr ?n)" by (rule reads_number[OF reads r0(2)])
  note lookup = revert_lookup[OF num D]
  have own: "map_of (revert_fields (cd_fieldReverts det) j) g = map_of j g \<or>
      (\<exists>v new. map_of (revert_fields (cd_fieldReverts det) j) g = Some v \<and> (?n, g, v, new) \<in> set items)" for g
    using detected_revert[OF D, of ?n] lookup by (cases "cd_fieldReverts det ?n") (auto simp: map_add_def split: option.split)
  have "''employeeNumber'' \<notin> set IMPORT_FIELDS" by (simp add: IMPORT_FIELDS_def)
  then have "map_of (revert_fields (cd_fieldReverts det) j) ''employeeNumber'' = Some (JStr ?n)" using own[of "''employeeNumber''"] keys num by fastforce
  then have n: "br_employeeNumber r = ?n" using reads_number[OF reads r'] by simp
  have "(\<exists>new. (?n, g, record_value g r, new) \<in> set items)
     \<or> (record_value g r = record_value g r0
        \<and> (acts policies FLAG_FOR_REVIEW g \<or> acts policies REJECT_SYNC g \<longrightarrow> (\<forall>old new. (?n, g, old, new) \<notin> set items)))"
    if g: "g \<in> set IMPORT_FIELDS" for g
  proof (cases "\<exists>v new. map_of (revert_fields (cd_fieldReverts det) j) g = Some v \<and> (?n, g, v, new) \<in> set items")
    case True
    then show ?thesis using reads_value[OF reads r' g] by (auto simp: the_default_def)
  next
    case False
    then have "record_value g r = record_value g r0" using own[of g] reads_value[OF reads r' g] reads_value[OF reads r0(2) g] by auto
    moreover have "(?n, g, old, new) \<notin> set items" if act: "acts policies FLAG_FOR_REVIEW g \<or> acts policies REJECT_SYNC g" for old new
    proof
      assume it: "(?n, g, old, new) \<in> set items"
      have "\<not> acts policies REJECT_SYNC g" using detected_reject[OF D it] j(2) num by (auto simp: numbered_def)
      then obtain rv v where rv: "cd_fieldReverts det ?n = Some rv" "map_of rv g = Some v" using detected_flag[OF D it] act by blast
      then have "map_of (revert_fields (cd_fieldReverts det) j) g = Some v" using lookup by simp
      then show False using False detected_revert[OF D rv] by blast
    qed
    ultimately show ?thesis by blast
  qed
  then show ?thesis by (intro bexI[OF _ r0(1)]) (simp add: n)
qed

text \<open>
  A record that is committed agrees, on a field reserved to the platform, with the employee it is for,
  unless it is a conflict and skipped.
\<close>

lemma committed_record_keeps_field:
  assumes "reads_fields parse" "those (map parse js) = Some rs0" "those (map parse (recordsToCommit det js)) = Some rs"
    and det: "det = detectFieldAuthorityConflicts (Some (buildReport t rs0 db)) policies"
    and apart: "distinct (map br_employeeNumber rs0)"
    and policy: "acts policies FLAG_FOR_REVIEW f \<or> acts policies REJECT_SYNC f"
    and r: "r \<in> set rs" and e: "findByEmployeeNumber t (br_employeeNumber r) db = Some e"
  shows "record_value f r = field_value f e \<or> (\<exists>s. classify t db r = Conflicting s)"
proof -
  let ?items = "change_items (dr_updates (buildReport t rs0 db))" and ?n = "br_employeeNumber r"
  have "g \<in> set IMPORT_FIELDS" if "(n, g, old, new) \<in> set ?items" for n g old new
    using that classify_Updating in_diff unfolding change_item by blast
  then have keys: "\<forall>x\<in>set ?items. fst (snd x) \<in> set IMPORT_FIELDS" by auto
  obtain r0 where r0: "r0 \<in> set rs0" "br_employeeNumber r0 = ?n" and fields: "\<And>g. g \<in> set IMPORT_FIELDS \<Longrightarrow>
     (\<exists>new. (?n, g, record_value g r, new) \<in> set ?items) \<or> (record_value g r = record_value g r0
        \<and> (acts policies FLAG_FOR_REVIEW g \<or> acts policies REJECT_SYNC g \<longrightarrow> (\<forall>old new. (?n, g, old, new) \<notin> set ?items)))"
    using committed_origin[OF assms(1-3) detectFieldAuthorityConflicts_detected[of policies "buildReport t rs0 db", folded det] r keys] by blast
  have item: "(?n, g, old, new) \<in> set ?items \<longleftrightarrow> (\<exists>ch. classify t db r0 = Updating ch \<and> (g, old, new) \<in> set ch)" for g old new
  proof -
    have same: "r1 = r0" if "r1 \<in> set rs0" "?n = br_employeeNumber r1" for r1
      using apart that r0 by (metis distinct_map inj_onD)
    show ?thesis unfolding change_item using same r0 by metis
  qed
  show ?thesis
  proof (cases "classify t db r0")
    case (Conflicting s)
    then have "record_value g r = record_value g r0" if "g \<in> set IMPORT_FIELDS" for g using fields[OF that] item by simp
    from this[of "''orgUnitId''"] this[of "''managerEmployeeId''"]
    have "br_orgUnitId r = br_orgUnitId r0" "br_managerEmployeeId r = br_managerEmployeeId r0" by (simp_all add: IMPORT_FIELDS_def record_value_def)
    then show ?thesis using Conflicting by (auto simp: classify_def split: if_splits option.splits list.splits)
  next
    case Creating
    then show ?thesis using e r0(2) classify_Creating by fastforce
  next
    case Unchanged
    then have "diffEmployeeRecord e r0 = []" using classify_Unchanged e r0(2) by fastforce
    then have "f \<in> set IMPORT_FIELDS \<Longrightarrow> record_value f r0 = field_value f e" using in_diff[of f "field_value f e" "record_value f r0" e r0] by auto
    then show ?thesis using fields[of f] item Unchanged no_field by (cases "f \<in> set IMPORT_FIELDS") auto
  next
    case (Updating ch)
    then have ch: "ch = diffEmployeeRecord e r0" using classify_Updating e r0(2) by fastforce
    show ?thesis using fields[of f] item[of f] Updating policy no_field[of f] unfolding ch in_diff
      by (cases "f \<in> set IMPORT_FIELDS") (auto simp: in_diff)
  qed
qed

lemma committed_fields_survive:
  assumes "reads_fields parse" and dry: "those (map parse js) = Some rs0" and live: "those (map parse (recordsToCommit det js)) = Some rs"
    and "det = detectFieldAuthorityConflicts (Some (buildReport t rs0 db)) policies"
    and apart: "distinct (map (\<lambda>j. map_of j ''employeeNumber'') js)"
    and policy: "acts policies FLAG_FOR_REVIEW f \<or> acts policies REJECT_SYNC f"
    and ok: "employees_ok db" "two_decimals db" and e: "findByEmployeeNumber t n db = Some e"
    and run: "commit_records ids now t rs (buildReport t rs db) db = (res, db')"
    and rs: "distinct (map br_employeeNumber rs)"
  shows "\<exists>e'. findByEmployeeNumber t n db' = Some e' \<and> em_id e' = em_id e \<and> field_value f e' = field_value f e"
proof -
  note loop = run[unfolded commit_records_def]
  have rs0: "distinct (map br_employeeNumber rs0)" by (rule parsed_distinct[OF assms(1) dry apart])
  have hours: "toFixed2 (em_contractHoursPerWeek e) = em_contractHoursPerWeek e"
    using ok(2) e by (auto simp: two_decimals_def list_all_iff findByEmployeeNumber_def dest: find_where_SomeD)
  show ?thesis
  proof (cases "n \<in> br_employeeNumber ` set rs")
    case False
    then show ?thesis using import_frame_other[OF commit_loop_frame[OF ok(1) loop]] e by simp
  next
    case True
    then obtain r where r: "r \<in> set rs" "n = br_employeeNumber r" by blast
    from committed_record_keeps_field[OF assms(1) dry live assms(4) rs0 policy r(1) e[unfolded r(2)]] show ?thesis
    proof
      assume "record_value f r = field_value f e"
      then have "record_value f (stored r) = field_value f e" using stored_value hours by blast
      then show ?thesis using commit_loop_between[OF ok(1) loop rs r(1) e[unfolded r(2)]] r(2) by (auto simp: between_def)
    next
      assume "\<exists>s. classify t db r = Conflicting s"
      then have "n \<in> set (map fst (dr_conflicts (buildReport t rs db)))" using report_mem(1)[OF rs r(1)] r(2) by simp
      then show ?thesis using commit_loop_skips[OF ok(1) loop] e by simp
    qed
  qed
qed

lemma revert_keeps_number:
  "map_of (revert_fields (cd_fieldReverts (detectFieldAuthorityConflicts (Some (buildReport t rs0 db)) policies)) j) ''employeeNumber'' = map_of j ''employeeNumber''"
proof (cases "map_of j ''employeeNumber''")
  case (Some v)
  show ?thesis
  proof (cases v)
    case (JStr n)
    let ?det = "detectFieldAuthorityConflicts (Some (buildReport t rs0 db)) policies"
    have D: "detected policies (change_items (dr_updates (buildReport t rs0 db))) ?det" by (rule detectFieldAuthorityConflicts_detected)
    have "map_of rv ''employeeNumber'' = None" if rv: "cd_fieldReverts ?det n = Some rv" for rv
    proof (rule ccontr)
      assume "map_of rv ''employeeNumber'' \<noteq> None"
      then obtain v' new where "(n, ''employeeNumber'', v', new) \<in> set (change_items (dr_updates (buildReport t rs0 db)))"
        using detected_revert[OF D rv] by blast
      then obtain r ch where "classify t db r = Updating ch" "(''employeeNumber'', v', new) \<in> set ch" using change_item by blast
      then obtain e where "(''employeeNumber'', v', new) \<in> set (diffEmployeeRecord e r)" using classify_Updating by blast
      then show False unfolding in_diff by (simp add: IMPORT_FIELDS_def)
    qed
    then show ?thesis using revert_lookup[OF _ D, of j n] Some JStr by (cases "cd_fieldReverts ?det n") (simp_all add: map_add_def)
  qed (simp_all add: Some revert_fields_def)
qed (simp add: revert_fields_def)

lemma recordsToCommit_apart:
  assumes "det = detectFieldAuthorityConflicts (Some (buildReport t rs0 db)) policies" "distinct (map (\<lambda>j. map_of j ''employeeNumber'') js)"
  shows "distinct (map (\<lambda>j. map_of j ''employeeNumber'') (recordsToCommit det js))"
proof -
  have "map (\<lambda>j. map_of j ''employeeNumber'') (recordsToCommit det js) =
      map (\<lambda>j. map_of j ''employeeNumber'') (filter (\<lambda>r. \<not> numbered (cd_recordsToReject det) r) js)"
    by (simp add: recordsToCommit_def assms(1) comp_def revert_keeps_number)
  then show ?thesis using assms(2) by (simp add: distinct_map_filter)
qed

section \<open>The contract of the endpoint\<close>

definition valid_records :: "FieldMapping list \<Rightarrow> json list \<Rightarrow> json_object list" where
  "valid_records mappings raw = filter isCompleteBulkImportRecord (map (\<lambda>w. applyFieldMappings w mappings) raw)"

locale bulk_endpoint =
  fixes await :: "uuid \<Rightarrow> bool \<Rightarrow> json_object list \<Rightarrow> ('s, client_error, BulkImportJob) svc"
    and quiet :: "'s \<Rightarrow> bool" and master :: "'s \<Rightarrow> employee_db"
    and parse :: "json_object \<Rightarrow> BulkImportRecord option"
  assumes reads: "reads_fields parse"
    and dry_master: "quiet s \<Longrightarrow> await t True js s = (res, s') \<Longrightarrow> master s' = master s"
    and dry_report: "quiet s \<Longrightarrow> await t True js s = (Inr job, s') \<Longrightarrow> bj_status job \<noteq> IMPORT_FAILED \<Longrightarrow>
      quiet s' \<and> (\<exists>rs. those (map parse js) = Some rs \<and> bj_result job = Some (buildReport t rs (master s)))"
    and live: "quiet s \<Longrightarrow> await t False js s = (res, s') \<Longrightarrow> master s' = master s \<or>
      (\<exists>rs ids now r. those (map parse js) = Some rs \<and> commit_records ids now t rs (buildReport t rs (master s)) (master s) = (r, master s'))"
begin

text \<open>A sync writes nothing, or commits the reverted records of the dry run it made on the same data.\<close>

lemma import_roster_writes:
  assumes q: "quiet s" and run: "import_roster await mappings policies t raw s = (res, s')" and changed: "master s' \<noteq> master s"
  shows "\<exists>rs0 rs ids now r. those (map parse (valid_records mappings raw)) = Some rs0
    \<and> those (map parse (recordsToCommit (detectFieldAuthorityConflicts (Some (buildReport t rs0 (master s))) policies) (valid_records mappings raw))) = Some rs
    \<and> commit_records ids now t rs (buildReport t rs (master s)) (master s) = (r, master s')"
proof -
  let ?js = "valid_records mappings raw"
  obtain d1 s1 where dry: "await t True ?js s = (d1, s1)" by (cases "await t True ?js s")
  have m1: "master s1 = master s" by (rule dry_master[OF q dry])
  show ?thesis
  proof (cases d1)
    case (Inl err)
    then have "s' = s1 \<or> s' = s" using run dry by (auto simp: import_roster_def Let_def valid_records_def[symmetric] split: if_splits)
    then show ?thesis using changed m1 by auto
  next
    case (Inr job)
    let ?det = "detectFieldAuthorityConflicts (bj_result job) policies"
    obtain d2 s2 where commit: "await t False (recordsToCommit ?det ?js) s1 = (d2, s2)" by (cases "await t False (recordsToCommit ?det ?js) s1")
    have "s' \<in> {s, s1} \<or> (bj_status job \<noteq> IMPORT_FAILED \<and> s' = s2)"
      using run dry Inr commit by (auto simp: import_roster_def Let_def valid_records_def[symmetric] split: if_splits sum.splits prod.splits)
    then have ok: "bj_status job \<noteq> IMPORT_FAILED" and s': "s' = s2" using changed m1 by auto
    from dry_report[OF q dry[unfolded Inr] ok] obtain rs0 where q1: "quiet s1" and rs0: "those (map parse ?js) = Some rs0"
      and rep: "bj_result job = Some (buildReport t rs0 (master s))" by blast
    from live[OF q1 commit] show ?thesis using changed m1 s' rs0 rep by auto
  qed
qed

lemma authoritative_fields_survive:
  assumes q: "quiet s" and run: "import_roster await mappings policies t raw s = (res, s')"
    and ok: "employees_ok (master s)" "two_decimals (master s)"
    and apart: "distinct (map (\<lambda>j. map_of j ''employeeNumber'') (valid_records mappings raw))"
    and policy: "acts policies FLAG_FOR_REVIEW f \<or> acts policies REJECT_SYNC f"
    and e: "findByEmployeeNumber t n (master s) = Some e"
  shows "\<exists>e'. findByEmployeeNumber t n (master s') = Some e' \<and> em_id e' = em_id e \<and> field_value f e' = field_value f e"
proof (cases "master s' = master s")
  case True
  then show ?thesis using e by simp
next
  case False
  from import_roster_writes[OF q run False] obtain rs0 rs ids now r where
    w: "those (map parse (valid_records mappings raw)) = Some rs0"
      "those (map parse (recordsToCommit (detectFieldAuthorityConflicts (Some (buildReport t rs0 (master s))) policies) (valid_records mappings raw))) = Some rs"
      "commit_records ids now t rs (buildReport t rs (master s)) (master s) = (r, master s')" by blast
  have "distinct (map br_employeeNumber rs)" by (rule parsed_distinct[OF reads w(2) recordsToCommit_apart[OF refl apart]])
  then show ?thesis using committed_fields_survive[OF reads w(1,2) refl apart policy ok e w(3)] by blast
qed

text \<open>No employee outside the roster, and none of another tenant, is written.\<close>

lemma roster_writes_only_its_employees:
  assumes q: "quiet s" and run: "import_roster await mappings policies t raw s = (res, s')" and ok: "employees_ok (master s)"
    and other: "t' \<noteq> t \<or> Some (JStr n) \<notin> (\<lambda>j. map_of j ''employeeNumber'') ` set (valid_records mappings raw)"
  shows "findByEmployeeNumber t' n (master s') = findByEmployeeNumber t' n (master s)"
proof (cases "master s' = master s")
  case False
  from import_roster_writes[OF q run False] obtain rs0 rs ids now r where
    w: "those (map parse (recordsToCommit (detectFieldAuthorityConflicts (Some (buildReport t rs0 (master s))) policies) (valid_records mappings raw))) = Some rs"
      "commit_records ids now t rs (buildReport t rs (master s)) (master s) = (r, master s')" by blast
  have "Some (JStr (br_employeeNumber r)) \<in> (\<lambda>j. map_of j ''employeeNumber'') ` set (valid_records mappings raw)" if r: "r \<in> set rs" for r
  proof -
    let ?rv = "cd_fieldReverts (detectFieldAuthorityConflicts (Some (buildReport t rs0 (master s))) policies)"
    obtain j where j: "j \<in> set (valid_records mappings raw)" "parse (revert_fields ?rv j) = Some r"
      using those_mem[OF w(1) r] by (auto simp: recordsToCommit_def)
    have "map_of j ''employeeNumber'' = Some (JStr (br_employeeNumber r))" using reads_number[OF reads j(2)] unfolding revert_keeps_number .
    then show ?thesis using j(1) by (metis (no_types, lifting) imageI)
  qed
  then have "t' \<noteq> t \<or> n \<notin> br_employeeNumber ` set rs" using other by blast
  then show ?thesis using commit_loop_frame[OF ok w(2)[unfolded commit_records_def]] by (simp add: import_frame_def)
qed simp

end


section \<open>The core service fulfils it\<close>

lemma employment_of_Some: "employment_of s = Some ty \<Longrightarrow> employment_str ty = s"
  unfolding employment_of_def by (drule find_where_SomeD) simp

lemma optional_str_value: "optional_str ok v = Some x \<Longrightarrow> json_of_opt x = the_default v JNull"
  by (auto simp: optional_str_def json_of_opt_def the_default_def split: option.splits json.splits if_splits)

lemma parse_record_reads: "reads_fields (parse_record env)"
  unfolding reads_fields_def
proof (intro allI impI)
  fix j r
  assume p: "parse_record env j = Some r"
  obtain n u ty h d ty' d' cc mgr where v: "map_of j ''employeeNumber'' = Some (JStr n)" "map_of j ''orgUnitId'' = Some (JStr u)"
      "map_of j ''employmentType'' = Some (JStr ty)" "map_of j ''contractHoursPerWeek'' = Some (JNum h)" "employment_of ty = Some ty'"
      "optional_str (\<lambda>s. length s \<le> 100) (map_of j ''costCenter'') = Some cc"
      "optional_str (de_isUuid env) (map_of j ''managerEmployeeId'') = Some mgr"
    and r: "r = \<lparr>br_employeeNumber = n, br_orgUnitId = u, br_employmentType = ty', br_contractHoursPerWeek = h,
       br_hireDate = d', br_costCenter = cc, br_managerEmployeeId = mgr\<rparr>"
    using p by (auto simp: parse_record_def split: if_splits option.splits json.splits)
  note [simp] = employment_of_Some[OF v(5)] optional_str_value[OF v(6)] optional_str_value[OF v(7)]
  show "map_of j ''employeeNumber'' = Some (JStr (br_employeeNumber r)) \<and> (\<forall>f\<in>set IMPORT_FIELDS. record_value f r = the_default (map_of j f) JNull)"
    using v(1-4) by (simp add: r IMPORT_FIELDS_def record_value_def the_default_def)
qed

lemma update_import_job_frame [simp]:
  "bd_master (update_import_job t i f db) = bd_master db" "bd_flags (update_import_job t i f db) = bd_flags db"
  "bd_flagDefaults (update_import_job t i f db) = bd_flagDefaults db"
  "bd_jobs (update_import_job t i f db) = update_where (\<lambda>j. bj_id j = i \<and> bj_tenantId j = t) f (bd_jobs db)"
  by (simp_all add: update_import_job_def)

lemma dry_run_master: "bd_master (processImport msg ids now i t rs True db) = bd_master db"
  by (simp add: processImport_def Let_def)

lemma live_run_master:
  "bd_master (processImport msg ids now i t rs False db) = bd_master db \<or>
   (\<exists>r. commit_records ids now t rs (buildReport t rs (bd_master db)) (bd_master db) = (r, bd_master (processImport msg ids now i t rs False db)))"
  by (auto simp: processImport_def Let_def split: sum.split prod.split)

lemma dry_run_job:
  assumes "find_where (\<lambda>j. bj_id j = i \<and> bj_tenantId j = t) (bd_jobs (processImport msg ids now i t rs True db)) = Some job"
  shows "bj_result job = Some (buildReport t rs (bd_master db))"
proof -
  let ?P = "\<lambda>j. bj_id j = i \<and> bj_tenantId j = t" and ?f = "\<lambda>j. j\<lparr>bj_status := IMPORT_COMPLETED, bj_result := Some (buildReport t rs (bd_master db))\<rparr>"
  have "find_where ?P (update_where ?P ?f rows) = map_option ?f (find_where ?P rows)" for rows by (rule find_where_update_same) simp
  from this[of "update_where ?P (bj_status_update (\<lambda>_. IMPORT_RUNNING)) (bd_jobs db)"] show ?thesis
    using assms by (auto simp add: processImport_def Let_def simp del: map_option_eq_Some)
qed

lemma update_job_ids: "(\<And>j. bj_id (f j) = bj_id j) \<Longrightarrow> map bj_id (update_where P f rows) = map bj_id rows"
  by (rule map_update_where)

lemma processImport_ids: "map bj_id (bd_jobs (processImport msg ids now i t rs dry db)) = map bj_id (bd_jobs db)"
  by (simp add: processImport_def Let_def update_job_ids split: sum.split prod.split)

definition core_quiet :: "core_env \<Rightarrow> core_state \<Rightarrow> bool" where
  \<comment> \<open>no work is outstanding, and new job identifiers are new\<close>
  "core_quiet env st \<longleftrightarrow> cs_tasks st = [] \<and> inj (ke_newJob env)
     \<and> map bj_id (bd_jobs (cs_db st)) = map (ke_newJob env) [0..<length (bd_jobs (cs_db st))]"

definition core_master :: "core_env \<Rightarrow> core_state \<Rightarrow> employee_db" where
  \<comment> \<open>the employees once the outstanding work is done\<close>
  "core_master env st = bd_master (cs_db (run_tasks env st))"

lemma run_tasks_idem [simp]: "run_tasks env (run_tasks env st) = run_tasks env st"
  by (simp add: run_tasks_def)

lemma run_tasks_quiet: "cs_tasks st = [] \<Longrightarrow> run_tasks env st = st"
  by (simp add: run_tasks_def)

lemma awaitCompletion_core:
  assumes "awaitCompletion (getJob env t i) i left k st = (res, st')" "st = st0 \<or> st = run_tasks env st0"
  shows "(st' = st0 \<or> st' = run_tasks env st0) \<and> (\<forall>job. res = Inr job \<longrightarrow>
    find_where (\<lambda>j. bj_id j = i \<and> bj_tenantId j = t) (bd_jobs (cs_db st')) = Some job \<and> (bj_status job = IMPORT_COMPLETED \<or> bj_status job = IMPORT_FAILED))"
  using assms
proof (induction left arbitrary: k st)
  case (Suc left)
  obtain r st1 where g: "getJob env t i k st = (r, st1)" by (cases "getJob env t i k st")
  have st1: "st1 = st0 \<or> st1 = run_tasks env st0" using g Suc.prems(2) by (auto simp: getJob_def Let_def split: if_splits option.splits)
  show ?case
  proof (cases r)
    case (Inl e)
    then show ?thesis using Suc.prems(1) g st1 by auto
  next
    case (Inr job)
    then have job: "find_where (\<lambda>j. bj_id j = i \<and> bj_tenantId j = t) (bd_jobs (cs_db st1)) = Some job"
      using g by (auto simp: getJob_def Let_def split: if_splits option.splits)
    show ?thesis
    proof (cases "bj_status job = IMPORT_COMPLETED \<or> bj_status job = IMPORT_FAILED")
      case True
      then show ?thesis using Suc.prems(1) g Inr job st1 by auto
    next
      case False
      then show ?thesis using Suc.IH[OF _ st1] Suc.prems(1) g Inr by auto
    qed
  qed
qed auto

text \<open>A submission by which the state changes leaves one task, for a job that is pending.\<close>

lemma bulkImport_cases:
  assumes "core_quiet env st" "bulkImport env t dry js st = (res, st1)"
  obtains (refused) e where "res = Inl e" "st1 = st"
  | (accepted) rs job where "res = Inr job" "those (map (parse_record (ke_dto env)) js) = Some rs" "bj_status job = IMPORT_PENDING"
      "find_where (\<lambda>j. bj_id j = bj_id job \<and> bj_tenantId j = t) (bd_jobs (cs_db st1)) = Some job"
      "bd_master (cs_db st1) = bd_master (cs_db st)" "cs_tasks st1 = [(bj_id job, t, rs, dry)]"
      "core_quiet env (st1\<lparr>cs_tasks := []\<rparr>)"
proof -
  let ?n = "length (bd_jobs (cs_db st))"
  have q: "cs_tasks st = []" "inj (ke_newJob env)" "map bj_id (bd_jobs (cs_db st)) = map (ke_newJob env) [0..<?n]"
    using assms(1) by (simp_all add: core_quiet_def)
  have "ke_newJob env ?n \<notin> set (map bj_id (bd_jobs (cs_db st)))" unfolding q(3) using q(2) by (auto dest: injD)
  then have fresh: "find_where (\<lambda>j. bj_id j = ke_newJob env ?n \<and> bj_tenantId j = t) (bd_jobs (cs_db st)) = None"
    unfolding find_where_None set_map by (metis imageI)
  show ?thesis
  proof (cases "ke_authorised env \<and> those (map (parse_record (ke_dto env)) js) \<noteq> None")
    case False
    then show ?thesis using assms(2) refused by (auto simp: bulkImport_def split: if_splits)
  next
    case True
    then obtain rs where rs: "those (map (parse_record (ke_dto env)) js) = Some rs" by blast
    define job where "job = \<lparr>bj_id = ke_newJob env ?n, bj_tenantId = t, bj_idempotencyKey = None, bj_status = IMPORT_PENDING,
        bj_dryRun = dry, bj_totalRecords = length rs, bj_result = None, bj_error = None\<rparr>"
    have run: "res = Inr job" "st1 = st\<lparr>cs_db := (cs_db st)\<lparr>bd_jobs := bd_jobs (cs_db st) @ [job]\<rparr>, cs_tasks := [(bj_id job, t, rs, dry)]\<rparr>"
      using assms(2) True rs q(1)
      by (simp_all add: bulkImport_def startBulkImport_def createImportJob_def truthy_str_def job_def the_default_def Let_def)
    show ?thesis
    proof (rule accepted[OF run(1) rs])
      show "find_where (\<lambda>j. bj_id j = bj_id job \<and> bj_tenantId j = t) (bd_jobs (cs_db st1)) = Some job"
        using fresh by (simp add: run(2) job_def find_where_append)
      show "core_quiet env (st1\<lparr>cs_tasks := []\<rparr>)" using q by (simp add: core_quiet_def run(2) job_def)
    qed (simp_all add: run(2) job_def)
  qed
qed


lemma submitAndAwait_core:
  assumes q: "core_quiet env st" and run: "submitAndAwait (core_import_api env) attempts t dry js st = (res, st')"
  obtains (refused) e where "res = Inl e" "st' = st"
  | (accepted) rs i st1 where "those (map (parse_record (ke_dto env)) js) = Some rs" "bd_master (cs_db st1) = bd_master (cs_db st)"
      "cs_tasks st1 = [(i, t, rs, dry)]" "core_quiet env (st1\<lparr>cs_tasks := []\<rparr>)" "st' = st1 \<or> st' = run_tasks env st1"
      "\<And>job. res = Inr job \<Longrightarrow> st' = run_tasks env st1 \<and> find_where (\<lambda>j. bj_id j = i \<and> bj_tenantId j = t) (bd_jobs (cs_db st')) = Some job"
proof -
  obtain r1 st1 where sub: "bulkImport env t dry js st = (r1, st1)" by (cases "bulkImport env t dry js st")
  from q sub show ?thesis
  proof (cases rule: bulkImport_cases)
    case (refused e)
    then show ?thesis using run sub that(1) by (auto simp: submitAndAwait_def core_import_api_def)
  next
    case (accepted rs job)
    have loop: "awaitCompletion (getJob env t (bj_id job)) (bj_id job) attempts 0 st1 = (res, st')"
      using run sub accepted(1) by (simp add: submitAndAwait_def core_import_api_def)
    note w = awaitCompletion_core[OF loop, of st1]
    have "st' = run_tasks env st1 \<and> find_where (\<lambda>j. bj_id j = bj_id job \<and> bj_tenantId j = t) (bd_jobs (cs_db st')) = Some job'" if "res = Inr job'" for job'
      using w accepted(3,4) that by auto
    then show ?thesis using that(2) accepted(2,5,6,7) w by blast
  qed
qed

lemma core_master_cases:
  assumes "cs_tasks st1 = [(i, t, rs, dry)]" "st' = st1 \<or> st' = run_tasks env st1"
  shows "core_master env st' = bd_master (processImport (ke_message env) (ke_ids env i) (ke_now env i) i t rs dry (cs_db st1))"
proof -
  have "core_master env st1 = bd_master (processImport (ke_message env) (ke_ids env i) (ke_now env i) i t rs dry (cs_db st1))"
    using assms(1) by (simp add: core_master_def run_tasks_def run_task_def)
  then show ?thesis using assms(2) by (auto simp: core_master_def)
qed

lemma core_master_quiet: "core_quiet env st \<Longrightarrow> core_master env st = bd_master (cs_db st)"
  by (simp add: core_master_def core_quiet_def run_tasks_quiet)

lemma core_quiet_run:
  assumes "cs_tasks st1 = [(i, t, rs, dry)]" "core_quiet env (st1\<lparr>cs_tasks := []\<rparr>)"
  shows "core_quiet env (run_tasks env st1)"
proof -
  let ?db = "processImport (ke_message env) (ke_ids env i) (ke_now env i) i t rs dry (cs_db st1)"
  have ids: "map bj_id (bd_jobs ?db) = map bj_id (bd_jobs (cs_db st1))" by (rule processImport_ids)
  then have "length (bd_jobs ?db) = length (bd_jobs (cs_db st1))" by (metis length_map)
  then show ?thesis using assms ids by (simp add: core_quiet_def run_tasks_def run_task_def)
qed

interpretation core: bulk_endpoint "submitAndAwait (core_import_api env) attempts" "core_quiet env" "core_master env" "parse_record (ke_dto env)" for env attempts
proof
  show "reads_fields (parse_record (ke_dto env))" by (rule parse_record_reads)
next
  fix s t js res s'
  assume q: "core_quiet env s" and run: "submitAndAwait (core_import_api env) attempts t True js s = (res, s')"
  from q run show "core_master env s' = core_master env s"
  proof (cases rule: submitAndAwait_core)
    case (accepted rs i st1)
    then show ?thesis using core_master_cases[OF accepted(3,5)] core_master_quiet[OF q] by (simp add: dry_run_master)
  qed simp
next
  fix s t js job s'
  assume q: "core_quiet env s" and run: "submitAndAwait (core_import_api env) attempts t True js s = (Inr job, s')"
  from q run show "core_quiet env s' \<and> (\<exists>rs. those (map (parse_record (ke_dto env)) js) = Some rs \<and> bj_result job = Some (buildReport t rs (core_master env s)))"
  proof (cases rule: submitAndAwait_core)
    case (accepted rs i st1)
    have s': "s' = run_tasks env st1" and f: "find_where (\<lambda>j. bj_id j = i \<and> bj_tenantId j = t) (bd_jobs (cs_db s')) = Some job" using accepted(6) by blast+
    have "bj_result job = Some (buildReport t rs (bd_master (cs_db st1)))"
      by (rule dry_run_job) (use f s' accepted(3) in \<open>auto simp: run_tasks_def run_task_def\<close>)
    then show ?thesis using accepted core_quiet_run[OF accepted(3,4)] s' core_master_quiet[OF q] by simp
  qed simp
next
  fix s t js res s'
  assume q: "core_quiet env s" and run: "submitAndAwait (core_import_api env) attempts t False js s = (res, s')"
  from q run show "core_master env s' = core_master env s \<or> (\<exists>rs ids now r. those (map (parse_record (ke_dto env)) js) = Some rs
      \<and> commit_records ids now t rs (buildReport t rs (core_master env s)) (core_master env s) = (r, core_master env s'))"
  proof (cases rule: submitAndAwait_core)
    case (accepted rs i st1)
    then show ?thesis using core_master_cases[OF accepted(3,5)] core_master_quiet[OF q]
        live_run_master[of "ke_message env" "ke_ids env i" "ke_now env i" i t rs "cs_db st1"] by auto
  qed simp
qed

section \<open>Fields the platform owns\<close>

definition sync_roster ::
  "core_env \<Rightarrow> nat \<Rightarrow> FieldMapping list \<Rightarrow> FieldAuthorityPolicy list \<Rightarrow> uuid \<Rightarrow> json list \<Rightarrow> (core_state, client_error, SyncJobCompletion) svc" where
  "sync_roster env attempts = import_roster (submitAndAwait (core_import_api env) attempts)"

text \<open>
  Property C8. Field authority holds end to end: when the roster fetched from a provider names each
  employee at most once and nobody else writes in between, a sync leaves every field that a policy of the
  connector reserves to the platform (with the action to flag or to reject) as it was, for every existing
  employee. This covers a commit that fails part-way, a refused request and a sync that gave up polling
  while the import was still running; fields without such a policy may change.
\<close>

theorem authoritative_fields_survive_sync:
  assumes "core_quiet env st" "sync_roster env attempts mappings policies t raw st = (res, st')"
    and "employees_ok (core_master env st)" "two_decimals (core_master env st)"
    and "distinct (map (\<lambda>j. map_of j ''employeeNumber'') (valid_records mappings raw))"
    and "agno_policy policies f = Some p" "fp_conflictAction p \<noteq> OVERWRITE"
    and "findByEmployeeNumber t n (core_master env st) = Some e"
  shows "\<exists>e'. findByEmployeeNumber t n (core_master env st') = Some e' \<and> em_id e' = em_id e \<and> field_value f e' = field_value f e"
proof -
  have "acts policies FLAG_FOR_REVIEW f \<or> acts policies REJECT_SYNC f" using assms(6,7) by (cases "fp_conflictAction p") (simp_all add: acts_def)
  from core.authoritative_fields_survive[OF assms(1) assms(2)[unfolded sync_roster_def] assms(3-5) this assms(8)] show ?thesis .
qed


definition demo_core :: core_env where
  "demo_core = \<lparr>ke_dto = \<lparr>de_isUuid = (\<lambda>_. True), de_date = (\<lambda>_. Some (2026, 3, 1))\<rparr>, ke_authorised = True,
     ke_newJob = (\<lambda>k. replicate k CHR ''j''), ke_ids = (\<lambda>_. demo_ids), ke_now = (\<lambda>_. 9), ke_message = (\<lambda>_. ''failed''), ke_delay = (\<lambda>_. 1)\<rparr>"

definition demo_core_state :: core_state where
  "demo_core_state = \<lparr>cs_db = \<lparr>bd_master = demo_staffed, bd_jobs = [], bd_flags = Map.empty, bd_flagDefaults = (\<lambda>_. Some True), bd_audit = []\<rparr>, cs_tasks = []\<rparr>"

definition demo_worker :: json where
  "demo_worker = JObj [(''employeeNumber'', JStr ''E-1''), (''orgUnitId'', JStr ''ou2''), (''employmentType'', JStr ''part_time''),
     (''contractHoursPerWeek'', JNum 20), (''hireDate'', JStr ''2026-03-01''), (''costCenter'', JStr ''c2'')]"

definition demo_mappings :: "FieldMapping list" where
  "demo_mappings = map (\<lambda>f. \<lparr>fm_sourceField = f, fm_targetField = f, fm_transformationRule = None\<rparr>) (butlast RECORD_KEYS)"

definition demo_authority :: "FieldAuthorityPolicy list" where
  "demo_authority = [\<lparr>fp_fieldName = ''costCenter'', fp_authoritativeSource = AGNO_WFM, fp_conflictAction = FLAG_FOR_REVIEW\<rparr>]"

theorem authoritative_fields_survive_sync_witness:
  "\<exists>e'. findByEmployeeNumber ''t'' ''E-1'' (core_master demo_core (snd (sync_roster demo_core 40 demo_mappings demo_authority ''t'' [demo_worker] demo_core_state)))
      = Some e' \<and> em_id e' = ''e1'' \<and> field_value ''costCenter'' e' = JStr ''c1''"
proof -
  have q: "core_quiet demo_core demo_core_state" by (auto simp: core_quiet_def demo_core_def demo_core_state_def inj_def)
  have m: "core_master demo_core demo_core_state = demo_staffed" using core_master_quiet[OF q] by (simp add: demo_core_state_def)
  have ok: "two_decimals demo_staffed" by (simp add: two_decimals_def demo_staffed_def demo_staff_def demo_master_def new_employee_def demo_hire_def)
  have e: "findByEmployeeNumber ''t'' ''E-1'' demo_staffed = Some (demo_staff ''ou1'' ''c1'')"
    by (simp add: findByEmployeeNumber_def demo_staffed_def demo_staff_def demo_master_def new_employee_def demo_hire_def)
  have d: "distinct (map (\<lambda>j. map_of j ''employeeNumber'') (valid_records demo_mappings [demo_worker]))" by (simp add: valid_records_def)
  have p: "agno_policy demo_authority ''costCenter'' = Some (hd demo_authority)" by (simp add: agno_policy_def demo_authority_def)
  have a: "fp_conflictAction (hd demo_authority) \<noteq> OVERWRITE" by (simp add: demo_authority_def)
  note keep = authoritative_fields_survive_sync[OF q surjective_pairing demo_staffed_ok[folded m] ok[folded m] d p a e[folded m], of 40]
  show ?thesis using keep by (simp add: demo_staff_def new_employee_def demo_hire_def field_value_def json_of_opt_def)
qed

text \<open>A request without a token is refused before anything is read: no batch sync of the hub gets through the guards.\<close>

theorem unauthorised_sync_is_refused:
  assumes "\<not> ke_authorised env" "valid_records mappings raw \<noteq> []"
  shows "sync_roster env attempts mappings policies t raw st = (Inl (BulkImportClientUnavailable ''submit'' ''HTTP 401''), st)"
  using assms by (simp add: sync_roster_def import_roster_def valid_records_def submitAndAwait_def core_import_api_def bulkImport_def Let_def)

end
