(* ===== verification/Access_Tokens.thy ===== *)
theory Access_Tokens
  imports Access_Control
begin

text \<open>
  Access tokens of the core service: the signing keys and their rotation (\<open>signing-key.service.ts\<close> over
  \<open>signing-keys.repository.ts\<close>), issuing and verifying a token (\<open>token.service.ts\<close>), the blacklist of revoked
  tokens (\<open>token-revocation.service.ts\<close>) and the guards that admit a request (\<open>access-token.guard.ts\<close>,
  \<open>scim-auth.guard.ts\<close>, \<open>permissions.guard.ts\<close>, \<open>ValidateToken\<close> of \<open>identity-grpc.controller.ts\<close>).

  The JOSE package is the parameter \<open>jose\<close>: signing with a private key, the \<open>kid\<close> of a token's protected
  header, and the payload of a token whose signature a public key verifies. What the code relies on is
  \<open>jose_documented\<close>. Random identifiers and generated key pairs are arguments; \<open>up\<close> tells whether Redis
  answers, as in the refresh token theory.
\<close>

section \<open>Signing keys\<close>

datatype SigningKeyStatus = KEY_ACTIVE | KEY_RETIRED

record SigningKey =
  sk_kid :: string
  sk_algorithm :: string
  sk_publicKeyPem :: string
  sk_privateKeyPem :: string
  sk_status :: SigningKeyStatus
  sk_createdAt :: millis
  sk_retiredAt :: "millis option"

datatype signing_error = SingleActiveViolation | NoActiveSigningKey

definition findActiveKey :: "SigningKey list \<Rightarrow> SigningKey option" where
  "findActiveKey keys = find_where (\<lambda>k. sk_status k = KEY_ACTIVE) keys"

definition findByKid :: "string \<Rightarrow> SigningKey list \<Rightarrow> SigningKey option" where
  "findByKid kid keys = find_where (\<lambda>k. sk_kid k = kid) keys"

definition findVerifiable :: "millis \<Rightarrow> SigningKey list \<Rightarrow> SigningKey list" where
  "findVerifiable retiredSinceAfter keys =
     (case findActiveKey keys of None \<Rightarrow> [] | Some k \<Rightarrow> [k]) @
     filter (\<lambda>k. sk_status k = KEY_RETIRED \<and> (case sk_retiredAt k of None \<Rightarrow> False | Some r \<Rightarrow> retiredSinceAfter < r)) keys"

definition save_key :: "SigningKey \<Rightarrow> (SigningKey list, signing_error, SigningKey) txn" where
  \<comment> \<open>the primary key decides between update and insert; \<open>uq_signing_keys_single_active\<close> is checked after it\<close>
  "save_key key keys =
     (let rows = (if sk_kid key \<in> sk_kid ` set keys then update_where (\<lambda>k. sk_kid k = sk_kid key) (\<lambda>_. key) keys else keys @ [key])
      in if length (filter (\<lambda>k. sk_status k = KEY_ACTIVE) rows) > 1 then Inl SingleActiveViolation else Inr (key, rows))"

definition rotate_key :: "millis \<Rightarrow> SigningKey \<Rightarrow> (SigningKey list, signing_error, SigningKey) txn" where
  "rotate_key now newKey keys =
     save_key newKey (update_where (\<lambda>k. sk_status k = KEY_ACTIVE) (\<lambda>k. k\<lparr>sk_status := KEY_RETIRED, sk_retiredAt := Some now\<rparr>) keys)"

definition RETIRED_KEY_GRACE_PERIOD_MS :: int where
  "RETIRED_KEY_GRACE_PERIOD_MS = 30 * 60 * 1000"

definition buildKey :: "string \<Rightarrow> string \<Rightarrow> string \<Rightarrow> millis \<Rightarrow> SigningKey" where
  "buildKey kid publicKey privateKey now =
     \<lparr>sk_kid = kid, sk_algorithm = ''RS256'', sk_publicKeyPem = publicKey, sk_privateKeyPem = privateKey,
      sk_status = KEY_ACTIVE, sk_createdAt = now, sk_retiredAt = None\<rparr>"

definition bootstrap_key :: "SigningKey \<Rightarrow> (SigningKey list, signing_error, unit) svc" where
  "bootstrap_key key keys =
     (case findActiveKey keys of
        Some _ \<Rightarrow> (Inr (), keys)
      | None \<Rightarrow> (case save_key key keys of Inl e \<Rightarrow> (Inl e, keys) | Inr (_, keys') \<Rightarrow> (Inr (), keys')))"

definition getActiveSigningMaterial :: "SigningKey list \<Rightarrow> signing_error + string \<times> string \<times> string" where
  "getActiveSigningMaterial keys =
     (case findActiveKey keys of
        None \<Rightarrow> Inl NoActiveSigningKey
      | Some k \<Rightarrow> Inr (sk_kid k, sk_algorithm k, sk_privateKeyPem k))"

definition resolveVerificationKey :: "millis \<Rightarrow> string \<Rightarrow> SigningKey list \<Rightarrow> SigningKey option" where
  "resolveVerificationKey now kid keys =
     (case findByKid kid keys of
        None \<Rightarrow> None
      | Some key \<Rightarrow>
          let isActive = (sk_status key = KEY_ACTIVE);
              isRecentlyRetired = (sk_status key = KEY_RETIRED \<and>
                (case sk_retiredAt key of None \<Rightarrow> False | Some r \<Rightarrow> now - r < RETIRED_KEY_GRACE_PERIOD_MS))
          in if \<not> isActive \<and> \<not> isRecentlyRetired then None else Some key)"

definition getJwks :: "millis \<Rightarrow> SigningKey list \<Rightarrow> (string \<times> string \<times> string) list" where
  \<comment> \<open>\<open>kid\<close>, \<open>alg\<close> and the exported public key\<close>
  "getJwks now keys =
     map (\<lambda>k. (sk_kid k, sk_algorithm k, sk_publicKeyPem k)) (findVerifiable (now - RETIRED_KEY_GRACE_PERIOD_MS) keys)"

section \<open>Issuing and verifying\<close>

record AccessTokenClaims =
  ac_iss :: string
  ac_sub :: string
  ac_aud :: string
  ac_tenant_id :: uuid
  ac_org_unit_id :: "uuid option"
  ac_roles :: "string list"
  ac_permissions :: "string list"
  ac_amr :: "string list"
  ac_auth_time :: int
  ac_jti :: uuid
  ac_exp :: int
  ac_iat :: int

record IdTokenClaims =
  ic_sub :: string
  ic_tenant_id :: uuid
  ic_auth_time :: int
  ic_amr :: "string list"
  ic_nonce :: "string option"
  ic_iss :: string
  ic_aud :: string
  ic_iat :: int
  ic_exp :: int

record IssueAccessTokenInput =
  ia_userId :: string
  ia_tenantId :: uuid
  ia_orgUnitId :: "uuid option"
  ia_roles :: "string list"
  ia_permissions :: "string list"
  ia_amr :: "string list"
  ia_authTime :: millis
  ia_ttlSeconds :: "int option"

record IssueIdTokenInput =
  ii_id_userId :: uuid
  ii_id_tenantId :: uuid
  ii_id_clientId :: string
  ii_id_amr :: "string list"
  ii_id_authTime :: millis
  ii_id_nonce :: "string option"

record jose_lib =
  jl_sign :: "string \<Rightarrow> string \<Rightarrow> string \<Rightarrow> AccessTokenClaims \<Rightarrow> string" \<comment> \<open>private key, algorithm, \<open>kid\<close>\<close>
  jl_signId :: "string \<Rightarrow> string \<Rightarrow> string \<Rightarrow> IdTokenClaims \<Rightarrow> string"
  jl_kid :: "string \<Rightarrow> string option option" \<comment> \<open>\<open>None\<close> for a string that is not a JWS\<close>
  jl_open :: "string \<Rightarrow> string \<Rightarrow> string \<Rightarrow> AccessTokenClaims option" \<comment> \<open>public key, algorithm, token\<close>

record token_config =
  tc_issuer :: string
  tc_audience :: string

definition ACCESS_TOKEN_TTL_SECONDS :: int where
  "ACCESS_TOKEN_TTL_SECONDS = 720"

definition ID_TOKEN_TTL_SECONDS :: int where
  "ID_TOKEN_TTL_SECONDS = 720"

definition access_claims :: "token_config \<Rightarrow> millis \<Rightarrow> uuid \<Rightarrow> IssueAccessTokenInput \<Rightarrow> AccessTokenClaims" where
  "access_claims cfg now jti inp =
     \<lparr>ac_iss = tc_issuer cfg, ac_sub = ia_userId inp, ac_aud = tc_audience cfg, ac_tenant_id = ia_tenantId inp,
      ac_org_unit_id = ia_orgUnitId inp, ac_roles = ia_roles inp, ac_permissions = ia_permissions inp, ac_amr = ia_amr inp,
      ac_auth_time = ia_authTime inp div 1000, ac_jti = jti,
      ac_exp = now div 1000 + the_default (ia_ttlSeconds inp) ACCESS_TOKEN_TTL_SECONDS, ac_iat = now div 1000\<rparr>"

definition issueAccessToken ::
  "jose_lib \<Rightarrow> token_config \<Rightarrow> millis \<Rightarrow> uuid \<Rightarrow> IssueAccessTokenInput \<Rightarrow> SigningKey list \<Rightarrow> signing_error + string \<times> AccessTokenClaims" where
  "issueAccessToken jose cfg now jti inp keys =
     (case getActiveSigningMaterial keys of
        Inl e \<Rightarrow> Inl e
      | Inr (kid, alg, privateKey) \<Rightarrow>
          (let claims = access_claims cfg now jti inp in Inr (jl_sign jose privateKey alg kid claims, claims)))"

definition issueIdToken ::
  "jose_lib \<Rightarrow> token_config \<Rightarrow> millis \<Rightarrow> IssueIdTokenInput \<Rightarrow> SigningKey list \<Rightarrow> signing_error + string" where
  "issueIdToken jose cfg now inp keys =
     (case getActiveSigningMaterial keys of
        Inl e \<Rightarrow> Inl e
      | Inr (kid, alg, privateKey) \<Rightarrow> Inr (jl_signId jose privateKey alg kid
          \<lparr>ic_sub = ii_id_userId inp, ic_tenant_id = ii_id_tenantId inp, ic_auth_time = ii_id_authTime inp div 1000,
           ic_amr = ii_id_amr inp, ic_nonce = (if truthy_str (ii_id_nonce inp) then ii_id_nonce inp else None),
           ic_iss = tc_issuer cfg, ic_aud = ii_id_clientId inp, ic_iat = now div 1000,
           ic_exp = now div 1000 + ID_TOKEN_TTL_SECONDS\<rparr>))"

datatype verify_error = MissingKid | UnknownSigningKey string | InvalidOrExpired

definition verifyAccessToken ::
  "jose_lib \<Rightarrow> token_config \<Rightarrow> millis \<Rightarrow> string \<Rightarrow> SigningKey list \<Rightarrow> verify_error + AccessTokenClaims" where
  \<comment> \<open>\<open>jwtVerify\<close>: the key by the protected header, the signature, then \<open>iss\<close>, \<open>aud\<close> and \<open>exp\<close> in whole seconds\<close>
  "verifyAccessToken jose cfg now token keys =
     (case jl_kid jose token of
        None \<Rightarrow> Inl InvalidOrExpired
      | Some kid \<Rightarrow>
          if \<not> truthy_str kid then Inl MissingKid
          else case resolveVerificationKey now (the kid) keys of
            None \<Rightarrow> Inl (UnknownSigningKey (the kid))
          | Some key \<Rightarrow>
              (case jl_open jose (sk_publicKeyPem key) (sk_algorithm key) token of
                 None \<Rightarrow> Inl InvalidOrExpired
               | Some claims \<Rightarrow>
                   if ac_iss claims = tc_issuer cfg \<and> ac_aud claims = tc_audience cfg \<and> now div 1000 < ac_exp claims
                   then Inr claims else Inl InvalidOrExpired))"

definition jose_documented :: "jose_lib \<Rightarrow> (string \<Rightarrow> string \<Rightarrow> bool) \<Rightarrow> bool" where
  \<comment> \<open>a signed token carries its \<open>kid\<close>, and the public half of the key pair that signed it opens it\<close>
  "jose_documented jose keyPair \<longleftrightarrow>
     (\<forall>priv alg kid c. jl_kid jose (jl_sign jose priv alg kid c) = Some (Some kid)) \<and>
     (\<forall>priv pub alg kid c. keyPair priv pub \<longrightarrow> jl_open jose pub alg (jl_sign jose priv alg kid c) = Some c)"

section \<open>Revocation\<close>

type_synonym revoked_jtis = "(uuid \<times> millis) list" \<comment> \<open>Redis: token identifier, expiry of the entry\<close>

definition revoke_jti :: "bool \<Rightarrow> millis \<Rightarrow> uuid \<Rightarrow> millis \<Rightarrow> revoked_jtis \<Rightarrow> revoked_jtis" where
  "revoke_jti up now jti expiresAt revoked =
     (let ttlSeconds = max 1 (- ((now - expiresAt) div 1000))
      in if up then (jti, now + ttlSeconds * 1000) # delete_where (\<lambda>e. fst e = jti) revoked else revoked)"

definition isRevoked :: "bool \<Rightarrow> millis \<Rightarrow> uuid \<Rightarrow> revoked_jtis \<Rightarrow> bool" where
  "isRevoked up now jti revoked = (up \<and> list_ex (\<lambda>e. fst e = jti \<and> now < snd e) revoked)"

section \<open>Guards\<close>

datatype guard_error = MissingBearer | InvalidAccessToken | WrongTokenKind | TokenRevoked | GuardOrder
  | MissingPermissions "string list"

definition bearer_claims ::
  "jose_lib \<Rightarrow> token_config \<Rightarrow> millis \<Rightarrow> string option \<Rightarrow> SigningKey list \<Rightarrow> guard_error + AccessTokenClaims" where
  "bearer_claims jose cfg now header keys =
     (case header of
        None \<Rightarrow> Inl MissingBearer
      | Some h \<Rightarrow>
          if \<not> starts_with ''Bearer '' h then Inl MissingBearer
          else (case verifyAccessToken jose cfg now (drop 7 h) keys of
                  Inl _ \<Rightarrow> Inl InvalidAccessToken
                | Inr claims \<Rightarrow> Inr claims))"

definition accessTokenGuard ::
  "jose_lib \<Rightarrow> token_config \<Rightarrow> bool \<Rightarrow> millis \<Rightarrow> string option \<Rightarrow> SigningKey list \<Rightarrow> revoked_jtis \<Rightarrow> guard_error + AccessTokenClaims" where
  "accessTokenGuard jose cfg up now header keys revoked =
     (case bearer_claims jose cfg now header keys of
        Inl e \<Rightarrow> Inl e
      | Inr claims \<Rightarrow>
          if starts_with ''client:'' (ac_sub claims) then Inl WrongTokenKind
          else if isRevoked up now (ac_jti claims) revoked then Inl TokenRevoked
          else Inr claims)"

definition scimAuthGuard ::
  "jose_lib \<Rightarrow> token_config \<Rightarrow> bool \<Rightarrow> millis \<Rightarrow> string option \<Rightarrow> SigningKey list \<Rightarrow> revoked_jtis \<Rightarrow> guard_error + AccessTokenClaims" where
  "scimAuthGuard jose cfg up now header keys revoked =
     (case bearer_claims jose cfg now header keys of
        Inl e \<Rightarrow> Inl e
      | Inr claims \<Rightarrow>
          if \<not> starts_with ''client:'' (ac_sub claims) then Inl WrongTokenKind
          else if isRevoked up now (ac_jti claims) revoked then Inl TokenRevoked
          else Inr claims)"

definition permissionsGuard :: "string list option \<Rightarrow> AccessTokenClaims option \<Rightarrow> guard_error + bool" where
  "permissionsGuard required tokenClaims =
     (if the_default required [] = [] then Inr True
      else case tokenClaims of
        None \<Rightarrow> Inl GuardOrder
      | Some claims \<Rightarrow>
          (let missing = filter (\<lambda>p. p \<notin> set (ac_permissions claims)) (the_default required [])
           in if missing \<noteq> [] then Inl (MissingPermissions missing) else Inr True))"

definition validateToken ::
  "jose_lib \<Rightarrow> token_config \<Rightarrow> bool \<Rightarrow> millis \<Rightarrow> string \<Rightarrow> SigningKey list \<Rightarrow> revoked_jtis \<Rightarrow> string + AccessTokenClaims" where
  "validateToken jose cfg up now accessToken keys revoked =
     (case verifyAccessToken jose cfg now accessToken keys of
        Inl _ \<Rightarrow> Inl ''OAUTH_INVALID_GRANT''
      | Inr claims \<Rightarrow> if isRevoked up now (ac_jti claims) revoked then Inl ''TOKEN_REVOKED'' else Inr claims)"

section \<open>Rotations\<close>

definition key_table_ok :: "SigningKey list \<Rightarrow> bool" where
  "key_table_ok keys \<longleftrightarrow> distinct (map sk_kid keys) \<and> length (filter (\<lambda>k. sk_status k = KEY_ACTIVE) keys) \<le> 1"

definition rotate_keys :: "(millis \<times> SigningKey) list \<Rightarrow> SigningKey list \<Rightarrow> SigningKey list" where
  \<comment> \<open>rotations at the given times, in order; a failed transaction changes nothing\<close>
  "rotate_keys rs keys = foldl (\<lambda>keys (now, key). case rotate_key now key keys of Inl _ \<Rightarrow> keys | Inr (_, keys') \<Rightarrow> keys') keys rs"

definition fresh_keys :: "(millis \<times> SigningKey) list \<Rightarrow> SigningKey list \<Rightarrow> bool" where
  "fresh_keys rs keys \<longleftrightarrow> distinct (map (\<lambda>r. sk_kid (snd r)) rs @ map sk_kid keys)"

definition retired :: "millis \<Rightarrow> SigningKey \<Rightarrow> SigningKey" where
  "retired now k = (if sk_status k = KEY_ACTIVE then k\<lparr>sk_status := KEY_RETIRED, sk_retiredAt := Some now\<rparr> else k)"

lemma retired_kid [simp]: "sk_kid (retired now k) = sk_kid k"
  by (simp add: retired_def)

lemma retired_inactive [simp]: "sk_status (retired now k) \<noteq> KEY_ACTIVE"
  by (simp add: retired_def)

lemma retire_active:
  "update_where (\<lambda>k. sk_status k = KEY_ACTIVE) (\<lambda>k. k\<lparr>sk_status := KEY_RETIRED, sk_retiredAt := Some now\<rparr>) keys = map (retired now) keys"
  by (induction keys) (auto simp: retired_def)

lemma rotate_key_fresh:
  assumes "sk_kid key \<notin> sk_kid ` set keys"
  shows "rotate_key now key keys = Inr (key, map (retired now) keys @ [key])"
proof -
  have "filter (\<lambda>k. sk_status k = KEY_ACTIVE) (map (retired now) keys) = []" by (simp add: filter_empty_conv)
  then show ?thesis using assms unfolding rotate_key_def save_key_def retire_active by (simp add: image_image Let_def)
qed

lemma rotate_key_ok:
  assumes "key_table_ok keys" "rotate_key now key keys = Inr (key', keys')" "sk_kid key \<notin> sk_kid ` set keys"
  shows "key_table_ok keys'"
proof -
  have "filter (\<lambda>k. sk_status k = KEY_ACTIVE) (map (retired now) keys) = []" by (simp add: filter_empty_conv)
  moreover have "keys' = map (retired now) keys @ [key]" using assms(2) rotate_key_fresh[OF assms(3), of now] by auto
  ultimately show ?thesis using assms(1,3) by (simp add: key_table_ok_def comp_def)
qed

lemma findByKid_retired: "findByKid kid (map (retired now) keys @ [key]) =
    (case findByKid kid keys of Some k \<Rightarrow> Some (retired now k) | None \<Rightarrow> if sk_kid key = kid then Some key else None)"
  by (induction keys) (simp_all add: findByKid_def)

text \<open>A key that is in the table keeps its row; its retirement is the first rotation after it was active.\<close>

lemma findByKid_inactive:
  assumes "findByKid kid keys = Some k" "sk_status k \<noteq> KEY_ACTIVE" "fresh_keys rs keys"
  shows "findByKid kid (rotate_keys rs keys) = Some k"
  using assms
proof (induction rs arbitrary: keys)
  case (Cons r rs)
  obtain now key where r: "r = (now, key)" by (cases r)
  have fr: "sk_kid key \<notin> sk_kid ` set keys" using Cons.prems(3) by (auto simp: fresh_keys_def r)
  have "fresh_keys rs (map (retired now) keys @ [key])" using Cons.prems(3) by (auto simp: fresh_keys_def r comp_def)
  moreover have "findByKid kid (map (retired now) keys @ [key]) = Some k"
    using Cons.prems(1,2) by (simp add: findByKid_retired retired_def)
  ultimately show ?case using Cons.IH[of "map (retired now) keys @ [key]"] Cons.prems(2) rotate_key_fresh[OF fr, of now]
    by (simp add: rotate_keys_def r)
qed (simp add: rotate_keys_def)

lemma findByKid_rotations:
  assumes "findByKid kid keys = Some k" "fresh_keys rs keys"
  shows "findByKid kid (rotate_keys rs keys) = Some (case rs of [] \<Rightarrow> k | (now, _) # _ \<Rightarrow> retired now k)"
proof (cases rs)
  case (Cons r rs')
  obtain now key where r: "r = (now, key)" by (cases r)
  let ?keys = "map (retired now) keys @ [key]"
  have fr: "sk_kid key \<notin> sk_kid ` set keys" using assms(2) by (auto simp: fresh_keys_def Cons r)
  have "fresh_keys rs' ?keys" using assms(2) by (auto simp: fresh_keys_def Cons r comp_def)
  moreover have "findByKid kid ?keys = Some (retired now k)" using assms(1) by (simp add: findByKid_retired)
  ultimately have "findByKid kid (rotate_keys rs' ?keys) = Some (retired now k)" by (intro findByKid_inactive) simp_all
  then show ?thesis using rotate_key_fresh[OF fr, of now] by (simp add: rotate_keys_def Cons r)
qed (use assms in \<open>simp add: rotate_keys_def\<close>)

text \<open>The key set the discovery document advertises is exactly the set of keys that verify.\<close>

lemma jwks_are_the_verifying_keys:
  assumes "key_table_ok keys"
  shows "kid \<in> fst ` set (getJwks now keys) \<longleftrightarrow> resolveVerificationKey now kid keys \<noteq> None"
proof -
  have uniq: "findByKid (sk_kid k) keys = Some k" if "k \<in> set keys" for k
    unfolding findByKid_def using assms that by (intro find_where_unique[where k = sk_kid]) (auto simp: key_table_ok_def)
  have act: "findActiveKey keys = Some k" if k: "k \<in> set keys" "sk_status k = KEY_ACTIVE" for k
  proof (cases "findActiveKey keys")
    case None then show ?thesis using k by (auto simp: findActiveKey_def find_where_None)
  next
    case (Some k')
    then have "k' \<in> set keys" "sk_status k' = KEY_ACTIVE" by (auto simp: findActiveKey_def dest: find_where_SomeD)
    then have "k' = k" using k assms filter_length_le_1D[of "\<lambda>k. sk_status k = KEY_ACTIVE" keys k' k] by (auto simp: key_table_ok_def)
    with Some show ?thesis by simp
  qed
  let ?good = "\<lambda>k. sk_status k = KEY_ACTIVE \<or> (sk_status k = KEY_RETIRED \<and>
    (case sk_retiredAt k of None \<Rightarrow> False | Some r \<Rightarrow> now - r < RETIRED_KEY_GRACE_PERIOD_MS))"
  have cut: "(now - RETIRED_KEY_GRACE_PERIOD_MS < r) = (now - r < RETIRED_KEY_GRACE_PERIOD_MS)" for r by auto
  have active: "set (case findActiveKey keys of None \<Rightarrow> [] | Some k \<Rightarrow> [k]) = {k \<in> set keys. sk_status k = KEY_ACTIVE}"
  proof (cases "findActiveKey keys")
    case (Some k)
    then have "k \<in> set keys \<and> sk_status k = KEY_ACTIVE" by (auto simp: findActiveKey_def dest: find_where_SomeD)
    moreover have "k' = k" if "k' \<in> set keys" "sk_status k' = KEY_ACTIVE" for k' using act[OF that] Some by simp
    ultimately show ?thesis unfolding Some by auto
  qed (auto dest: act)
  have "set (findVerifiable (now - RETIRED_KEY_GRACE_PERIOD_MS) keys) = {k \<in> set keys. ?good k}"
    unfolding findVerifiable_def set_append active cut by auto
  then have jwks: "kid \<in> fst ` set (getJwks now keys) \<longleftrightarrow> (\<exists>k\<in>set keys. ?good k \<and> sk_kid k = kid)"
    by (auto simp: getJwks_def image_image)
  show ?thesis
  proof (cases "findByKid kid keys")
    case None
    then have "\<forall>k\<in>set keys. sk_kid k \<noteq> kid" by (simp add: findByKid_def find_where_None)
    with None show ?thesis unfolding jwks resolveVerificationKey_def by auto
  next
    case (Some k)
    then have k: "k \<in> set keys" "sk_kid k = kid" by (auto simp: findByKid_def dest: find_where_SomeD)
    have "(\<exists>k\<in>set keys. ?good k \<and> sk_kid k = kid) \<longleftrightarrow> ?good k" using uniq k Some by (metis option.inject)
    then show ?thesis unfolding jwks by (auto simp: resolveVerificationKey_def Some Let_def)
  qed
qed

section \<open>Guarantees\<close>

lemma issueAccessTokenD:
  assumes "issueAccessToken jose cfg now jti inp keys = Inr (token, claims)" "key_table_ok keys"
  obtains k where "k \<in> set keys" "findByKid (sk_kid k) keys = Some k" "sk_status k = KEY_ACTIVE"
    "claims = access_claims cfg now jti inp" "token = jl_sign jose (sk_privateKeyPem k) (sk_algorithm k) (sk_kid k) claims"
proof -
  obtain k where k: "findActiveKey keys = Some k" "claims = access_claims cfg now jti inp"
      "token = jl_sign jose (sk_privateKeyPem k) (sk_algorithm k) (sk_kid k) claims"
    using assms(1) by (auto simp: issueAccessToken_def getActiveSigningMaterial_def Let_def split: option.splits)
  then have "k \<in> set keys" "sk_status k = KEY_ACTIVE" by (auto simp: findActiveKey_def dest: find_where_SomeD)
  moreover from this have "findByKid (sk_kid k) keys = Some k"
    unfolding findByKid_def using assms(2) by (intro find_where_unique[where k = sk_kid]) (auto simp: key_table_ok_def)
  ultimately show thesis using k that by blast
qed

text \<open>
  Property C16. A token the service issued verifies, with exactly the claims it was issued with, up to its
  expiry and, if signing keys were rotated meanwhile, for thirty minutes after the first rotation;
  outside this window it is refused, however many rotations follow.
\<close>

theorem issued_token_verifies:
  assumes "jose_documented jose keyPair" "key_table_ok keys" "\<forall>k\<in>set keys. sk_kid k \<noteq> [] \<and> keyPair (sk_privateKeyPem k) (sk_publicKeyPem k)"
    and "fresh_keys rs keys" "issueAccessToken jose cfg now jti inp keys = Inr (token, claims)"
  shows "verifyAccessToken jose cfg later token (rotate_keys rs keys) =
     (if (case rs of [] \<Rightarrow> False | (rotatedAt, _) # _ \<Rightarrow> 30 * 60 * 1000 \<le> later - rotatedAt)
      then Inl (UnknownSigningKey (the (the (jl_kid jose token))))
      else if later div 1000 < now div 1000 + the_default (ia_ttlSeconds inp) 720 then Inr claims
      else Inl InvalidOrExpired)"
proof -
  obtain k where k: "k \<in> set keys" "findByKid (sk_kid k) keys = Some k" "sk_status k = KEY_ACTIVE"
    "claims = access_claims cfg now jti inp" "token = jl_sign jose (sk_privateKeyPem k) (sk_algorithm k) (sk_kid k) claims"
    using issueAccessTokenD[OF assms(5,2)] .
  have kid: "jl_kid jose token = Some (Some (sk_kid k))" "sk_kid k \<noteq> []" using assms(1,3) k(1,5) by (simp_all add: jose_documented_def)
  have opens: "jl_open jose (sk_publicKeyPem k) (sk_algorithm k) token = Some claims" using assms(1,3) k(1,5) by (simp add: jose_documented_def)
  have row: "resolveVerificationKey later (sk_kid k) (rotate_keys rs keys) =
      (case rs of [] \<Rightarrow> Some k | (t, _) # _ \<Rightarrow> if later - t < 30 * 60 * 1000 then Some (retired t k) else None)"
    using k(3) unfolding resolveVerificationKey_def findByKid_rotations[OF k(2) assms(4)]
    by (auto simp: retired_def RETIRED_KEY_GRACE_PERIOD_MS_def split: list.splits)
  have same: "sk_publicKeyPem (retired t k) = sk_publicKeyPem k" "sk_algorithm (retired t k) = sk_algorithm k" for t
    by (simp_all add: retired_def)
  have cl: "ac_iss claims = tc_issuer cfg" "ac_aud claims = tc_audience cfg" "ac_exp claims = now div 1000 + the_default (ia_ttlSeconds inp) 720"
    by (simp_all add: k(4) access_claims_def ACCESS_TOKEN_TTL_SECONDS_def)
  show ?thesis
    by (auto simp: verifyAccessToken_def kid row opens same cl split: list.splits)
qed

subsection \<open>A concrete library\<close>

text \<open>
  Tokens that spell out the key, the \<open>kid\<close> and the claims as escaped fields; the two halves of a key pair are
  equal. It has the documented behaviour, so the guarantees can be applied.
\<close>

definition esc :: "string \<Rightarrow> string" where
  "esc s = concat (map (\<lambda>c. [CHR ''c'', c]) s) @ ''e''"

fun unesc :: "string \<Rightarrow> string \<times> string" where
  "unesc (m # c # r) = (if m = CHR ''c'' then apfst (Cons c) (unesc r) else ([], c # r))"
| "unesc _ = ([], [])"

definition esc_list :: "string list \<Rightarrow> string" where
  "esc_list xs = esc (replicate (length xs) CHR ''x'') @ concat (map esc xs)"

primrec unesc_n :: "nat \<Rightarrow> string \<Rightarrow> string list \<times> string" where
  "unesc_n 0 r = ([], r)"
| "unesc_n (Suc n) r = (case unesc r of (x, r1) \<Rightarrow> apfst (Cons x) (unesc_n n r1))"

definition unesc_list :: "string \<Rightarrow> string list \<times> string" where
  "unesc_list r = (case unesc r of (n, r1) \<Rightarrow> unesc_n (length n) r1)"

definition esc_int :: "int \<Rightarrow> string" where
  "esc_int i = esc ((if i < 0 then CHR ''-'' else CHR ''+'') # replicate (nat \<bar>i\<bar>) CHR ''x'')"

definition unesc_int :: "string \<Rightarrow> int \<times> string" where
  "unesc_int r = (case unesc r of (x, r1) \<Rightarrow> ((if take 1 x = ''-'' then - 1 else 1) * int (length (tl x)), r1))"

lemma unesc_esc [simp]: "unesc (esc s @ r) = (s, r)"
proof (induction s)
  case Nil then show ?case by (cases r) (simp_all add: esc_def)
next
  case (Cons c s) then show ?case by (simp add: esc_def)
qed

lemma unesc_n_esc [simp]: "unesc_n (length xs) (concat (map esc xs) @ r) = (xs, r)"
  by (induction xs) simp_all

lemma unesc_list_esc [simp]: "unesc_list (esc_list xs @ r) = (xs, r)"
  by (simp add: unesc_list_def esc_list_def)

lemma unesc_int_esc [simp]: "unesc_int (esc_int i @ r) = (i, r)"
  by (simp add: unesc_int_def esc_int_def)

definition claims_fields :: "AccessTokenClaims \<Rightarrow> string list" where
  "claims_fields c = [ac_iss c, ac_sub c, ac_aud c, ac_tenant_id c, ac_jti c]"

definition write_claims :: "AccessTokenClaims \<Rightarrow> string" where
  "write_claims c = esc_list (claims_fields c) @ esc_list (case ac_org_unit_id c of None \<Rightarrow> [] | Some u \<Rightarrow> [u]) @
     esc_list (ac_roles c) @ esc_list (ac_permissions c) @ esc_list (ac_amr c) @
     esc_int (ac_auth_time c) @ esc_int (ac_exp c) @ esc_int (ac_iat c)"

definition read_claims :: "string \<Rightarrow> AccessTokenClaims" where
  "read_claims r0 = (case unesc_list r0 of (f, r1) \<Rightarrow> case unesc_list r1 of (ou, r2) \<Rightarrow> case unesc_list r2 of (ro, r3) \<Rightarrow>
     case unesc_list r3 of (pe, r4) \<Rightarrow> case unesc_list r4 of (am, r5) \<Rightarrow> case unesc_int r5 of (au, r6) \<Rightarrow>
     case unesc_int r6 of (ex, r7) \<Rightarrow> case unesc_int r7 of (ia, _) \<Rightarrow>
     \<lparr>ac_iss = f ! 0, ac_sub = f ! 1, ac_aud = f ! 2, ac_tenant_id = f ! 3, ac_org_unit_id = (case ou of [] \<Rightarrow> None | u # _ \<Rightarrow> Some u),
      ac_roles = ro, ac_permissions = pe, ac_amr = am, ac_auth_time = au, ac_jti = f ! 4, ac_exp = ex, ac_iat = ia\<rparr>)"

lemma read_write_claims [simp]: "read_claims (write_claims c) = c"
proof -
  have last: "unesc_int (esc_int i) = (i, [])" for i using unesc_int_esc[of i "[]"] by simp
  show ?thesis by (cases c) (simp add: read_claims_def write_claims_def claims_fields_def last split: option.split)
qed

definition demo_jose :: jose_lib where
  "demo_jose = \<lparr>jl_sign = (\<lambda>priv alg kid c. esc kid @ esc priv @ write_claims c),
     jl_signId = (\<lambda>priv alg kid c. esc kid @ esc priv), jl_kid = (\<lambda>t. Some (Some (fst (unesc t)))),
     jl_open = (\<lambda>pub alg t. case unesc (snd (unesc t)) of (k, r) \<Rightarrow> if k = pub then Some (read_claims r) else None)\<rparr>"

lemma demo_jose_documented: "jose_documented demo_jose (=)"
  by (simp add: jose_documented_def demo_jose_def)

definition demo_key :: "string \<Rightarrow> SigningKey" where
  "demo_key kid = buildKey kid (''pem'' @ kid) (''pem'' @ kid) 0"

definition demo_issuer :: token_config where
  "demo_issuer = \<lparr>tc_issuer = ''iss'', tc_audience = ''api''\<rparr>"

definition demo_user_token :: IssueAccessTokenInput where
  \<comment> \<open>a login of a tenant with the default session timeout of sixty minutes\<close>
  "demo_user_token = \<lparr>ia_userId = ''u1'', ia_tenantId = ''t1'', ia_orgUnitId = None, ia_roles = [''agent''],
     ia_permissions = [''leave:read''], ia_amr = [''pwd''], ia_authTime = 0, ia_ttlSeconds = Some 3600\<rparr>"

definition demo_token :: string where
  "demo_token = jl_sign demo_jose ''pemk1'' ''RS256'' ''k1'' (access_claims demo_issuer 0 ''j1'' demo_user_token)"

lemma demo_token_issued:
  "issueAccessToken demo_jose demo_issuer 0 ''j1'' demo_user_token [demo_key ''k1''] = Inr (demo_token, access_claims demo_issuer 0 ''j1'' demo_user_token)"
  by (simp add: issueAccessToken_def getActiveSigningMaterial_def findActiveKey_def demo_key_def buildKey_def demo_token_def Let_def)

theorem issued_token_verifies_witness:
  "verifyAccessToken demo_jose demo_issuer 1800000 demo_token (rotate_keys [(60000, demo_key ''k2'')] [demo_key ''k1'']) =
     Inr (access_claims demo_issuer 0 ''j1'' demo_user_token)"
proof -
  have ok: "key_table_ok [demo_key ''k1'']" by (simp add: key_table_ok_def)
  have keys: "\<forall>k\<in>set [demo_key ''k1'']. sk_kid k \<noteq> [] \<and> sk_privateKeyPem k = sk_publicKeyPem k" by (simp add: demo_key_def buildKey_def)
  have fr: "fresh_keys [(60000, demo_key ''k2'')] [demo_key ''k1'']" by (simp add: fresh_keys_def demo_key_def buildKey_def)
  show ?thesis
    using issued_token_verifies[OF demo_jose_documented ok keys fr demo_token_issued, of 1800000] by (simp add: demo_user_token_def)
qed

text \<open>
  The grace window is shorter than a session: with the default timeout of sixty minutes a token whose key
  was rotated a minute after the login is refused from the thirty-first minute on, although it says it is
  valid for an hour.
\<close>

theorem rotation_ends_live_sessions:
  "verifyAccessToken demo_jose demo_issuer 1860000 demo_token (rotate_keys [(60000, demo_key ''k2'')] [demo_key ''k1'']) =
     Inl (UnknownSigningKey ''k1'') \<and> ac_exp (access_claims demo_issuer 0 ''j1'' demo_user_token) = 3600"
proof -
  have rot: "rotate_keys [(60000, demo_key ''k2'')] [demo_key ''k1''] = [retired 60000 (demo_key ''k1''), demo_key ''k2'']"
    by (simp add: rotate_keys_def rotate_key_fresh demo_key_def buildKey_def)
  have kid: "jl_kid demo_jose demo_token = Some (Some ''k1'')" by (simp add: demo_token_def demo_jose_def)
  show ?thesis
    unfolding rot verifyAccessToken_def kid
    by (simp add: resolveVerificationKey_def findByKid_def retired_def demo_key_def buildKey_def RETIRED_KEY_GRACE_PERIOD_MS_def
      access_claims_def demo_user_token_def)
qed

subsection \<open>Revocation\<close>

definition revocations :: "(millis \<times> uuid \<times> millis) list \<Rightarrow> revoked_jtis \<Rightarrow> revoked_jtis" where
  \<comment> \<open>revocations of tokens with the given expiries, in order, while Redis answers\<close>
  "revocations rs revoked = foldl (\<lambda>r (now, jti, expiresAt). revoke_jti True now jti expiresAt r) revoked rs"

lemma revoke_entry:
  "expiresAt \<le> now + max 1 (- ((now - expiresAt) div 1000)) * 1000" for now expiresAt :: int
proof -
  define q where "q = (now - expiresAt) div 1000"
  have "q * 1000 + (now - expiresAt) mod 1000 = now - expiresAt" unfolding q_def by (rule div_mult_mod_eq)
  moreover have "0 \<le> (now - expiresAt) mod 1000" by simp
  ultimately have "expiresAt \<le> now + - q * 1000" by linarith
  also have "\<dots> \<le> now + max 1 (- q) * 1000" by simp
  finally show ?thesis unfolding q_def .
qed

lemma blacklisted_stays:
  assumes "\<exists>e\<in>set revoked. fst e = jti \<and> expiresAt \<le> snd e" "\<forall>(now, j, ex)\<in>set rs. j = jti \<longrightarrow> ex = expiresAt"
  shows "\<exists>e\<in>set (revocations rs revoked). fst e = jti \<and> expiresAt \<le> snd e"
  using assms
proof (induction rs arbitrary: revoked)
  case (Cons r rs)
  obtain now j ex where r: "r = (now, j, ex)" by (cases r)
  have "\<exists>e\<in>set (revoke_jti True now j ex revoked). fst e = jti \<and> expiresAt \<le> snd e"
  proof (cases "j = jti")
    case True
    then have "ex = expiresAt" using Cons.prems(2) by (simp add: r)
    then show ?thesis using True revoke_entry[of ex now] by (simp add: revoke_jti_def Let_def)
  next
    case False
    then show ?thesis using Cons.prems(1) by (auto simp: revoke_jti_def Let_def set_delete_where)
  qed
  then show ?case using Cons.IH[of "revoke_jti True now j ex revoked"] Cons.prems(2) by (simp add: revocations_def r)
qed (simp add: revocations_def)



text \<open>
  The blacklist has no second source: when Redis does not answer, a revoked token is admitted.
\<close>

lemma revoked_token_admitted_without_redis:
  "verifyAccessToken jose cfg now token keys = Inr claims \<Longrightarrow> validateToken jose cfg False now token keys revoked = Inr claims"
  by (simp add: validateToken_def isRevoked_def)

end
