(* ===== verification/Password_Login.thy ===== *)
theory Password_Login
  imports Access_Control
begin

text \<open>
  Logging in with a password: \<open>password-auth.service.ts\<close> over the users, credentials and tenant settings,
  with the policies that gate a login before any credential is looked at (\<open>auth-method-policy.service.ts\<close>,
  \<open>access-restriction-policy.service.ts\<close>).

  The bcrypt package is a parameter: \<open>compare password hash\<close>, and \<open>bhash\<close> for a hash with a fresh salt. An
  attempt is a read of user and credential followed by one write, \<open>login_check\<close> and \<open>login_record\<close>;
  \<open>authenticate\<close> is their composition, and two requests may interleave between them. The records have the
  columns these services read or write.
\<close>

section \<open>Tables\<close>

datatype UserStatus = USER_ACTIVE | USER_INVITED | USER_DISABLED

record User =
  us_id :: uuid
  us_tenantId :: uuid
  us_externalIdpId :: "string option"
  us_email :: string
  us_status :: UserStatus
  us_username :: "string option"

record UserCredential =
  uc_userId :: uuid
  uc_tenantId :: uuid
  uc_passwordHash :: string
  uc_passwordAlgorithm :: string
  uc_passwordUpdatedAt :: millis
  uc_failedLoginAttempts :: nat
  uc_lockedUntil :: "millis option"
  uc_lastLoginAt :: "millis option"

record TenantSettings =
  ts_tenantId :: uuid
  ts_passwordMinLength :: nat
  ts_passwordRequireUppercase :: bool
  ts_passwordRequireNumber :: bool
  ts_passwordRequireSymbol :: bool
  ts_sessionTimeoutMinutes :: int

record AuthMethodPolicyDefinition =
  am_requiredMethods :: "string list option"
  am_allowedMethods :: "string list option"

record AccessRestrictionPolicyDefinition =
  ar_ipAllowlist :: "string list option"
  ar_allowedEmailDomains :: "string list option"

datatype login_policy_definition = AuthMethodDef AuthMethodPolicyDefinition | AccessRestrictionDef AccessRestrictionPolicyDefinition

record login_policy =
  lp_tenantId :: uuid
  lp_orgUnitId :: "uuid option"
  lp_definition :: login_policy_definition
  lp_effectiveFrom :: millis
  lp_effectiveTo :: "millis option"

record login_db =
  ld_users :: "User list"
  ld_credentials :: "UserCredential list"
  ld_settings :: "TenantSettings list"
  ld_policies :: "login_policy list"

datatype password_rule = MinLength nat | RequireUppercase | RequireNumber | RequireSymbol

datatype login_error = InvalidCredentials | AccountLocked millis | MethodNotPermitted string | MethodRequired "string list" string
  | NetworkNotPermitted string | EmailDomainNotPermitted "string option" | WeakPassword "password_rule list"
  | LoginRepositoryError repository_error

section \<open>Repositories\<close>

definition findByUsername :: "uuid \<Rightarrow> string \<Rightarrow> login_db \<Rightarrow> User option" where
  "findByUsername tenantId username s = find_where (\<lambda>u. us_tenantId u = tenantId \<and>
     (case us_username u of None \<Rightarrow> False | Some n \<Rightarrow> toLowerCase n = toLowerCase username)) (ld_users s)"

definition findByEmail :: "uuid \<Rightarrow> string \<Rightarrow> login_db \<Rightarrow> User option" where
  "findByEmail tenantId email s = ts_findOne us_tenantId tenantId (\<lambda>u. us_email u = toLowerCase email) (ld_users s)"

definition findByUserId :: "uuid \<Rightarrow> uuid \<Rightarrow> login_db \<Rightarrow> UserCredential option" where
  "findByUserId tenantId userId s = ts_findOne uc_tenantId tenantId (\<lambda>c. uc_userId c = userId) (ld_credentials s)"

definition update_credential :: "uuid \<Rightarrow> uuid \<Rightarrow> (UserCredential \<Rightarrow> UserCredential) \<Rightarrow> login_db \<Rightarrow> login_db" where
  "update_credential tenantId userId f s =
     s\<lparr>ld_credentials := snd (ts_update uc_tenantId tenantId None (\<lambda>c. uc_userId c = userId) f (ld_credentials s))\<rparr>"

definition default_settings :: "uuid \<Rightarrow> TenantSettings" where
  "default_settings tenantId = \<lparr>ts_tenantId = tenantId, ts_passwordMinLength = 12, ts_passwordRequireUppercase = True,
     ts_passwordRequireNumber = True, ts_passwordRequireSymbol = False, ts_sessionTimeoutMinutes = 60\<rparr>"

definition getOrCreateSettings :: "uuid \<Rightarrow> login_db \<Rightarrow> TenantSettings \<times> login_db" where
  "getOrCreateSettings tenantId s =
     (case ts_findOne ts_tenantId tenantId (\<lambda>_. True) (ld_settings s) of
        Some existing \<Rightarrow> (existing, s)
      | None \<Rightarrow> (default_settings tenantId, s\<lparr>ld_settings := ld_settings s @ [default_settings tenantId]\<rparr>))"

definition activeLoginPolicies :: "uuid \<Rightarrow> millis \<Rightarrow> login_db \<Rightarrow> login_policy_definition list" where
  \<comment> \<open>tenant-wide versions in force; \<open>findActiveByType\<close> takes the first one of its type\<close>
  "activeLoginPolicies tenantId asOf s = map lp_definition (filter (\<lambda>p. lp_tenantId p = tenantId \<and> lp_orgUnitId p = None \<and>
     lp_effectiveFrom p \<le> asOf \<and> (case lp_effectiveTo p of None \<Rightarrow> True | Some e \<Rightarrow> asOf < e)) (ld_policies s))"

section \<open>Policies\<close>

definition DEFAULT_ALLOWED :: "string list" where
  "DEFAULT_ALLOWED = [''pwd'', ''webauthn'']"

definition getAuthMethodPolicy :: "uuid \<Rightarrow> millis \<Rightarrow> login_db \<Rightarrow> string list \<times> string list" where
  "getAuthMethodPolicy tenantId now s =
     (case List.map_filter (\<lambda>d. case d of AuthMethodDef a \<Rightarrow> Some a | _ \<Rightarrow> None) (activeLoginPolicies tenantId now s) of
        [] \<Rightarrow> ([], DEFAULT_ALLOWED)
      | a # _ \<Rightarrow> (the_default (am_requiredMethods a) [], the_default (am_allowedMethods a) DEFAULT_ALLOWED))"

definition assertMethodPermitted :: "uuid \<Rightarrow> millis \<Rightarrow> string \<Rightarrow> login_db \<Rightarrow> login_error + unit" where
  "assertMethodPermitted tenantId now meth s =
     (case getAuthMethodPolicy tenantId now s of
        (requiredMethods, allowedMethods) \<Rightarrow>
          if meth \<notin> set allowedMethods then Inl (MethodNotPermitted meth)
          else if requiredMethods \<noteq> [] \<and> meth \<notin> set requiredMethods then Inl (MethodRequired requiredMethods meth)
          else Inr ())"

definition getAccessRestriction :: "uuid \<Rightarrow> millis \<Rightarrow> login_db \<Rightarrow> AccessRestrictionPolicyDefinition" where
  "getAccessRestriction tenantId now s =
     (case List.map_filter (\<lambda>d. case d of AccessRestrictionDef a \<Rightarrow> Some a | _ \<Rightarrow> None) (activeLoginPolicies tenantId now s) of
        [] \<Rightarrow> \<lparr>ar_ipAllowlist = None, ar_allowedEmailDomains = None\<rparr>
      | a # _ \<Rightarrow> a)"

definition matchesIp :: "string \<Rightarrow> string \<Rightarrow> bool" where
  "matchesIp ip entry = (if entry \<noteq> [] \<and> last entry = CHR ''.'' then starts_with entry ip else ip = entry)"

definition email_domain :: "string \<Rightarrow> string option" where
  \<comment> \<open>\<open>email.split('@')[1]\<close>\<close>
  "email_domain email = (if CHR ''@'' \<in> set email
     then Some (takeWhile (\<lambda>c. c \<noteq> CHR ''@'') (tl (dropWhile (\<lambda>c. c \<noteq> CHR ''@'') email))) else None)"

definition assertLoginPermitted :: "uuid \<Rightarrow> millis \<Rightarrow> string option \<Rightarrow> string \<Rightarrow> login_db \<Rightarrow> login_error + unit" where
  "assertLoginPermitted tenantId now ipOpt email s =
     (let p = getAccessRestriction tenantId now s;
          ip = the_default ipOpt [];
          ipAllowlist = the_default (ar_ipAllowlist p) [];
          allowedEmailDomains = the_default (ar_allowedEmailDomains p) [];
          domain = map_option toLowerCase (email_domain email)
      in if ipAllowlist \<noteq> [] \<and> \<not> list_ex (matchesIp ip) ipAllowlist then Inl (NetworkNotPermitted ip)
         else if allowedEmailDomains \<noteq> [] \<and> \<not> (truthy_str domain \<and> list_ex (\<lambda>d. Some (toLowerCase d) = domain) allowedEmailDomains)
         then Inl (EmailDomainNotPermitted domain)
         else Inr ())"

section \<open>Authentication\<close>

definition MAX_FAILED_ATTEMPTS :: nat where
  "MAX_FAILED_ATTEMPTS = 5"

definition LOCKOUT_DURATION_MS :: int where
  "LOCKOUT_DURATION_MS = 15 * 60 * 1000"

definition resolve_login :: "uuid \<Rightarrow> string \<Rightarrow> login_db \<Rightarrow> User option" where
  "resolve_login tenantId identifier s = nullish_or (findByUsername tenantId identifier s) (findByEmail tenantId identifier s)"

definition login_check ::
  "(string \<Rightarrow> string \<Rightarrow> bool) \<Rightarrow> uuid \<Rightarrow> millis \<Rightarrow> string \<Rightarrow> string \<Rightarrow> login_db \<Rightarrow> login_error + User \<times> UserCredential \<times> bool" where
  \<comment> \<open>everything up to and including the comparison of the hash; the last component is its result\<close>
  "login_check compare tenantId now identifier password s =
     (case resolve_login tenantId identifier s of
        None \<Rightarrow> Inl InvalidCredentials
      | Some user \<Rightarrow>
          if us_status user \<noteq> USER_ACTIVE then Inl InvalidCredentials
          else case findByUserId tenantId (us_id user) s of
            None \<Rightarrow> Inl InvalidCredentials
          | Some credential \<Rightarrow>
              (case uc_lockedUntil credential of
                 Some l \<Rightarrow> if now < l then Inl (AccountLocked l)
                           else Inr (user, credential, compare password (uc_passwordHash credential))
               | None \<Rightarrow> Inr (user, credential, compare password (uc_passwordHash credential))))"

definition login_record :: "uuid \<Rightarrow> millis \<Rightarrow> User \<times> UserCredential \<times> bool \<Rightarrow> (login_db, login_error, User) svc" where
  "login_record tenantId now chk s =
     (case chk of (user, credential, valid) \<Rightarrow>
        if \<not> valid then
          (let attempts = uc_failedLoginAttempts credential + 1;
               lockedUntil = (if attempts \<ge> MAX_FAILED_ATTEMPTS then Some (now + LOCKOUT_DURATION_MS) else None);
               s' = update_credential tenantId (us_id user)
                      (\<lambda>c. c\<lparr>uc_failedLoginAttempts := (if lockedUntil \<noteq> None then 0 else attempts), uc_lockedUntil := lockedUntil\<rparr>) s
           in (Inl (case lockedUntil of Some l \<Rightarrow> AccountLocked l | None \<Rightarrow> InvalidCredentials), s'))
        else (Inr user, update_credential tenantId (us_id user)
               (\<lambda>c. c\<lparr>uc_failedLoginAttempts := 0, uc_lockedUntil := None, uc_lastLoginAt := Some now\<rparr>) s))"

definition authenticate ::
  "(string \<Rightarrow> string \<Rightarrow> bool) \<Rightarrow> uuid \<Rightarrow> millis \<Rightarrow> string \<Rightarrow> string \<Rightarrow> (login_db, login_error, User) svc" where
  "authenticate compare tenantId now identifier password s =
     (case login_check compare tenantId now identifier password s of
        Inl e \<Rightarrow> (Inl e, s)
      | Inr chk \<Rightarrow> login_record tenantId now chk s)"

section \<open>Setting a password\<close>

definition is_upper :: "char \<Rightarrow> bool" where
  "is_upper c \<longleftrightarrow> CHR ''A'' \<le> c \<and> c \<le> CHR ''Z''"

definition is_lower :: "char \<Rightarrow> bool" where
  "is_lower c \<longleftrightarrow> CHR ''a'' \<le> c \<and> c \<le> CHR ''z''"

definition is_digit_char :: "char \<Rightarrow> bool" where
  "is_digit_char c \<longleftrightarrow> CHR ''0'' \<le> c \<and> c \<le> CHR ''9''"

definition unmetRules :: "TenantSettings \<Rightarrow> string \<Rightarrow> password_rule list" where
  "unmetRules policy pw =
     (if length pw < ts_passwordMinLength policy then [MinLength (ts_passwordMinLength policy)] else []) @
     (if ts_passwordRequireUppercase policy \<and> \<not> list_ex is_upper pw then [RequireUppercase] else []) @
     (if ts_passwordRequireNumber policy \<and> \<not> list_ex is_digit_char pw then [RequireNumber] else []) @
     (if ts_passwordRequireSymbol policy \<and> \<not> list_ex (\<lambda>c. \<not> (is_upper c \<or> is_lower c \<or> is_digit_char c)) pw then [RequireSymbol] else [])"

definition setPassword ::
  "(string \<Rightarrow> string) \<Rightarrow> millis \<Rightarrow> uuid \<Rightarrow> uuid \<Rightarrow> string \<Rightarrow> (login_db, login_error, unit) svc" where
  \<comment> \<open>the bound tenant is the argument \<open>tenantId\<close> at every call site\<close>
  "setPassword bhash now userId tenantId plaintextPassword s =
     (case getOrCreateSettings tenantId s of (policy, s1) \<Rightarrow>
        if unmetRules policy plaintextPassword \<noteq> [] then (Inl (WeakPassword (unmetRules policy plaintextPassword)), s1)
        else let passwordHash = bhash plaintextPassword in
          case findByUserId tenantId userId s1 of
            Some _ \<Rightarrow> (Inr (), update_credential tenantId userId
              (\<lambda>c. c\<lparr>uc_passwordHash := passwordHash, uc_passwordUpdatedAt := now, uc_failedLoginAttempts := 0, uc_lockedUntil := None\<rparr>) s1)
          | None \<Rightarrow>
              (case ts_save uc_tenantId (\<lambda>t c. c\<lparr>uc_tenantId := t\<rparr>) uc_userId tenantId
                      \<lparr>uc_userId = userId, uc_tenantId = tenantId, uc_passwordHash = passwordHash, uc_passwordAlgorithm = ''bcrypt'',
                       uc_passwordUpdatedAt = now, uc_failedLoginAttempts = 0, uc_lockedUntil = None, uc_lastLoginAt = None\<rparr>
                      (ld_credentials s1) of
                 (Inl e, _) \<Rightarrow> (Inl (LoginRepositoryError e), s1)
               | (Inr _, rows) \<Rightarrow> (Inr (), s1\<lparr>ld_credentials := rows\<rparr>)))"

section \<open>Interpretation of the tenant-scoped repository\<close>

interpretation credential_table: tenant_scoped uc_tenantId "\<lambda>t c. c\<lparr>uc_tenantId := t\<rparr>" uc_userId
  by unfold_locales simp_all

section \<open>Attempts\<close>

definition keeps_key :: "(UserCredential \<Rightarrow> UserCredential) \<Rightarrow> bool" where
  "keeps_key f \<longleftrightarrow> (\<forall>c. uc_userId (f c) = uc_userId c \<and> uc_tenantId (f c) = uc_tenantId c)"

lemma findByUserId_update:
  assumes "keeps_key f"
  shows "findByUserId t u (update_credential t v f s) = (if u = v then map_option f (findByUserId t u s) else findByUserId t u s)"
proof -
  have "findByUserId t u (update_credential t v f s) =
      map_option (\<lambda>c. if uc_userId c = v \<and> uc_tenantId c = t then f c else c) (findByUserId t u s)"
    unfolding findByUserId_def update_credential_def ts_findOne_def ts_update_def
    using assms by (simp add: find_where_update_where keeps_key_def)
  moreover have "uc_userId c = u \<and> uc_tenantId c = t" if "findByUserId t u s = Some c" for c
    using that by (auto simp: findByUserId_def ts_findOne_def dest: find_where_SomeD)
  ultimately show ?thesis by (cases "findByUserId t u s") auto
qed

lemma update_credential_frame [simp]:
  "ld_users (update_credential t u f s) = ld_users s" "ld_settings (update_credential t u f s) = ld_settings s"
  "ld_policies (update_credential t u f s) = ld_policies s"
  by (simp_all add: update_credential_def)

lemma login_checkD:
  assumes "login_check compare t now i p s = Inr (user, c, v)"
  shows "resolve_login t i s = Some user \<and> us_status user = USER_ACTIVE \<and> findByUserId t (us_id user) s = Some c \<and>
    v = compare p (uc_passwordHash c) \<and> (\<forall>l. uc_lockedUntil c = Some l \<longrightarrow> l \<le> now)"
  using assms by (auto simp: login_check_def split: option.splits if_splits)

definition wrong_guess :: "(string \<Rightarrow> string \<Rightarrow> bool) \<Rightarrow> uuid \<Rightarrow> uuid \<Rightarrow> millis \<times> string \<times> string \<Rightarrow> login_db \<Rightarrow> bool" where
  \<comment> \<open>the attempt reached the hash of user \<open>u\<close> and failed there\<close>
  "wrong_guess compare t u a s = (case a of (now, i, p) \<Rightarrow>
     case login_check compare t now i p s of Inl _ \<Rightarrow> False | Inr (user, _, v) \<Rightarrow> us_id user = u \<and> \<not> v)"

definition good_login :: "(string \<Rightarrow> string \<Rightarrow> bool) \<Rightarrow> uuid \<Rightarrow> uuid \<Rightarrow> millis \<times> string \<times> string \<Rightarrow> login_db \<Rightarrow> bool" where
  "good_login compare t u a s = (case a of (now, i, p) \<Rightarrow>
     case fst (authenticate compare t now i p s) of Inl _ \<Rightarrow> False | Inr user \<Rightarrow> us_id user = u)"

definition attempt_login :: "(string \<Rightarrow> string \<Rightarrow> bool) \<Rightarrow> uuid \<Rightarrow> millis \<times> string \<times> string \<Rightarrow> login_db \<Rightarrow> login_db" where
  "attempt_login compare t a s = (case a of (now, i, p) \<Rightarrow> snd (authenticate compare t now i p s))"

fun count_attempts ::
  "(millis \<times> string \<times> string \<Rightarrow> login_db \<Rightarrow> bool) \<Rightarrow> (string \<Rightarrow> string \<Rightarrow> bool) \<Rightarrow> uuid \<Rightarrow> (millis \<times> string \<times> string) list \<Rightarrow> login_db \<Rightarrow> nat" where
  "count_attempts P compare t [] s = 0"
| "count_attempts P compare t (a # rest) s = (if P a s then 1 else 0) + count_attempts P compare t rest (attempt_login compare t a s)"

definition guesses_left :: "millis \<Rightarrow> UserCredential \<Rightarrow> nat" where
  \<comment> \<open>wrong guesses the credential still admits before the time \<open>until\<close>\<close>
  "guesses_left until c = (case uc_lockedUntil c of
     Some l \<Rightarrow> if until \<le> l then 0 else MAX_FAILED_ATTEMPTS - min 4 (uc_failedLoginAttempts c)
   | None \<Rightarrow> MAX_FAILED_ATTEMPTS - min 4 (uc_failedLoginAttempts c))"

definition budget :: "millis \<Rightarrow> uuid \<Rightarrow> uuid \<Rightarrow> login_db \<Rightarrow> nat" where
  "budget until t u s = (case findByUserId t u s of None \<Rightarrow> 0 | Some c \<Rightarrow> guesses_left until c)"

lemma guesses_left_le: "guesses_left until c \<le> 5"
  by (auto simp: guesses_left_def MAX_FAILED_ATTEMPTS_def split: option.split)

lemma budget_step:
  assumes "t0 \<le> now" "now < t0 + LOCKOUT_DURATION_MS"
  shows "budget (t0 + LOCKOUT_DURATION_MS) t u (attempt_login compare t (now, i, p) s) +
      (if wrong_guess compare t u (now, i, p) s then 1 else 0)
    \<le> budget (t0 + LOCKOUT_DURATION_MS) t u s + 5 * (if good_login compare t u (now, i, p) s then 1 else 0)"
proof (cases "login_check compare t now i p s")
  case (Inl e)
  then show ?thesis by (simp add: attempt_login_def wrong_guess_def authenticate_def)
next
  case (Inr chk)
  obtain user c v where chk: "chk = (user, c, v)" by (cases chk)
  have d: "findByUserId t (us_id user) s = Some c" "\<And>l. uc_lockedUntil c = Some l \<Longrightarrow> l \<le> now"
    using login_checkD[OF Inr[unfolded chk]] by auto
  have run: "authenticate compare t now i p s = login_record t now (user, c, v) s" by (simp add: authenticate_def Inr chk)
  show ?thesis
  proof (cases "us_id user = u")
    case False
    then have "budget (t0 + LOCKOUT_DURATION_MS) t u (attempt_login compare t (now, i, p) s) = budget (t0 + LOCKOUT_DURATION_MS) t u s"
      by (simp add: attempt_login_def run login_record_def budget_def Let_def findByUserId_update keeps_key_def)
    then show ?thesis using False by (simp add: wrong_guess_def Inr chk)
  next
    case True
    note d = d[unfolded True]
    let ?c = "\<lambda>c. c\<lparr>uc_failedLoginAttempts := 0, uc_lockedUntil := None, uc_lastLoginAt := Some now\<rparr>"
    show ?thesis
    proof (cases v)
      case good: True
      then have "good_login compare t u (now, i, p) s" using True by (simp add: good_login_def run login_record_def)
      moreover have "budget (t0 + LOCKOUT_DURATION_MS) t u (attempt_login compare t (now, i, p) s) \<le> 5"
        by (auto simp: budget_def guesses_left_le split: option.split)
      moreover have "\<not> wrong_guess compare t u (now, i, p) s" using good by (simp add: wrong_guess_def Inr chk)
      ultimately show ?thesis by simp
    next
      case bad: False
      have "findByUserId t u (attempt_login compare t (now, i, p) s) = Some (c\<lparr>
          uc_failedLoginAttempts := (if uc_failedLoginAttempts c + 1 \<ge> 5 then 0 else uc_failedLoginAttempts c + 1),
          uc_lockedUntil := (if uc_failedLoginAttempts c + 1 \<ge> 5 then Some (now + LOCKOUT_DURATION_MS) else None)\<rparr>)"
        using True bad d(1) by (auto simp: attempt_login_def run login_record_def Let_def findByUserId_update keeps_key_def MAX_FAILED_ATTEMPTS_def)
      then show ?thesis
        using assms d bad True
        by (auto simp: budget_def guesses_left_def MAX_FAILED_ATTEMPTS_def wrong_guess_def Inr chk split: option.splits)
    qed
  qed
qed

lemma guesses_within_budget:
  assumes "\<forall>(now, _, _)\<in>set attempts. t0 \<le> now \<and> now < t0 + LOCKOUT_DURATION_MS"
  shows "count_attempts (wrong_guess compare t u) compare t attempts s
    \<le> budget (t0 + LOCKOUT_DURATION_MS) t u s + 5 * count_attempts (good_login compare t u) compare t attempts s"
  using assms
proof (induction attempts arbitrary: s)
  case (Cons a rest)
  obtain now i p where a: "a = (now, i, p)" by (cases a)
  have "t0 \<le> now" "now < t0 + LOCKOUT_DURATION_MS" using Cons.prems by (simp_all add: a)
  from budget_step[OF this, of t u compare i p s] Cons.IH[of "attempt_login compare t a s"] Cons.prems
  show ?case by (simp add: a)
qed simp

section \<open>Guarantees\<close>


definition demo_login_db :: login_db where
  "demo_login_db = \<lparr>ld_users = [\<lparr>us_id = ''u1'', us_tenantId = ''t1'', us_externalIdpId = None, us_email = ''ann@x.org'', us_status = USER_ACTIVE, us_username = Some ''Ann''\<rparr>],
     ld_credentials = [\<lparr>uc_userId = ''u1'', uc_tenantId = ''t1'', uc_passwordHash = ''hpw'', uc_passwordAlgorithm = ''bcrypt'',
       uc_passwordUpdatedAt = 0, uc_failedLoginAttempts = 0, uc_lockedUntil = None, uc_lastLoginAt = None\<rparr>],
     ld_settings = [], ld_policies = []\<rparr>"

definition demo_compare :: "string \<Rightarrow> string \<Rightarrow> bool" where
  "demo_compare p h \<longleftrightarrow> h = CHR ''h'' # p"

definition demo_guesses :: "(millis \<times> string \<times> string) list" where
  "demo_guesses = replicate 4 (1000, ''ann'', ''x'') @ [(2000, ''ANN'', ''pw'')] @ replicate 7 (3000, ''Ann@X.org'', ''y'')"


text \<open>
  The bound needs the attempts one after the other. Requests that all read the credential before any of them
  writes are counted once: twenty wrong guesses in parallel leave one failed attempt and no lock.
\<close>

theorem parallel_guesses_counted_once:
  "let chk = projr (login_check demo_compare ''t1'' 0 ''ann'' ''x'' demo_login_db);
       s = foldl (\<lambda>s _. snd (login_record ''t1'' 0 chk s)) demo_login_db [0..<20]
   in map (\<lambda>c. (uc_failedLoginAttempts c, uc_lockedUntil c)) (ld_credentials s) = [(1, None)]"
  by code_simp

text \<open>A password that was set logs its user in, whatever failures and locks were recorded before.\<close>

lemma findByUserId_settings [simp]: "findByUserId t u (s\<lparr>ld_settings := x\<rparr>) = findByUserId t u s"
  by (simp add: findByUserId_def)

lemma set_password_logs_in:
  assumes "setPassword bhash now u t p s = (Inr (), s')" "compare p (bhash p)"
    and "resolve_login t i s = Some user" "us_id user = u" "us_status user = USER_ACTIVE"
  shows "fst (authenticate compare t later i p s') = Inr user"
proof -
  obtain policy s1 where g: "getOrCreateSettings t s = (policy, s1)" by (cases "getOrCreateSettings t s")
  then have s1: "ld_users s1 = ld_users s" "findByUserId t u s1 = findByUserId t u s"
    by (auto simp: getOrCreateSettings_def split: option.splits)
  have "\<exists>c. findByUserId t u s' = Some c \<and> uc_passwordHash c = bhash p \<and> uc_lockedUntil c = None \<and> ld_users s' = ld_users s"
  proof (cases "findByUserId t u s1")
    case (Some c)
    then have "s' = update_credential t u
        (\<lambda>c. c\<lparr>uc_passwordHash := bhash p, uc_passwordUpdatedAt := now, uc_failedLoginAttempts := 0, uc_lockedUntil := None\<rparr>) s1"
      using assms(1) by (auto simp: setPassword_def g Let_def split: if_splits)
    then show ?thesis by (simp add: findByUserId_update keeps_key_def Some s1(1))
  next
    case None
    then have "ts_findOne uc_tenantId t (\<lambda>c. uc_userId c = u) (ld_credentials s1) = None" by (simp add: findByUserId_def)
    with None assms(1) show ?thesis
      by (auto simp: setPassword_def g Let_def ts_save_def findByUserId_def ts_findOne_def find_where_append s1(1) split: if_splits)
  qed
  then obtain c where c: "findByUserId t u s' = Some c" "uc_passwordHash c = bhash p" "uc_lockedUntil c = None" "ld_users s' = ld_users s" by blast
  have "resolve_login t i s' = Some user" using assms(3) c(4) by (simp add: resolve_login_def findByUsername_def findByEmail_def)
  then show ?thesis
    using assms(2,4,5) c by (simp add: authenticate_def login_check_def login_record_def)
qed

text \<open>
  A tenant that restricts logins to mail domains refuses every passkey login and every login by user name:
  the check sees the identifier of the request, which has no domain there.
\<close>

lemma domain_restriction_needs_an_address:
  assumes "ar_allowedEmailDomains (getAccessRestriction t now s) = Some (d # ds)" "CHR ''@'' \<notin> set identifier"
  shows "isl (assertLoginPermitted t now ip identifier s)"
  using assms by (simp add: assertLoginPermitted_def Let_def email_domain_def)

end
