(* ===== verification/OAuth_Server.thy ===== *)
theory OAuth_Server
  imports Access_Tokens Password_Login Refresh_Token Json_Value
begin

text \<open>
  The OAuth 2.1 endpoints of the core service: \<open>oauth.controller.ts\<close> (authorize, token with its three grants,
  revoke, introspect, register) over the client authentication (\<open>oauth-client-auth.service.ts\<close>), PKCE
  (\<open>pkce.service.ts\<close>), authorization codes (\<open>authorization-code.service.ts\<close>,
  \<open>authorization-codes.repository.ts\<close>), passkey sessions (\<open>webauthn-session.service.ts\<close>), the user context
  (\<open>user-context-resolver.service.ts\<close>, \<open>user-context-cache.service.ts\<close>) and the single sign-on endpoints
  (\<open>sso.controller.ts\<close>, \<open>sso-login.service.ts\<close>), on top of the theories of passwords, access tokens and refresh
  tokens.

  \<open>oauth_lib\<close> holds what is not the repository's: SHA-256 in its two encodings, bcrypt, JOSE, Base64, the URI
  decoder, the configuration. \<open>rq\<close> holds what one request draws: the time, the random values, and for every
  call to Redis whether it answers. An identity provider's verdict is the argument \<open>federate\<close>.
\<close>

section \<open>Tables\<close>

datatype OAuthClientType = CONFIDENTIAL | PUBLIC

datatype OAuthGrantType = AUTHORIZATION_CODE | REFRESH_TOKEN | CLIENT_CREDENTIALS

datatype TokenEndpointAuthMethod = CLIENT_SECRET_BASIC | CLIENT_SECRET_POST | AUTH_METHOD_NONE

record OAuthClient =
  oc_id :: uuid
  oc_tenantId :: uuid
  oc_clientId :: string
  oc_clientSecretHash :: "string option"
  oc_clientType :: OAuthClientType
  oc_name :: string
  oc_allowedGrantTypes :: "OAuthGrantType list"
  oc_redirectUris :: "string list"
  oc_tokenEndpointAuthMethod :: TokenEndpointAuthMethod
  oc_isActive :: bool
  oc_createdAt :: millis

record AuthorizationCode =
  az_codeHash :: string
  az_tenantId :: uuid
  az_clientId :: uuid
  az_userId :: uuid
  az_redirectUri :: string
  az_codeChallenge :: string
  az_codeChallengeMethod :: string
  az_scope :: string
  az_nonce :: "string option"
  az_authTime :: millis
  az_amr :: "string list"
  az_expiresAt :: millis
  az_consumedAt :: "millis option"

record role_row =
  rl_id :: uuid
  rl_tenantId :: "uuid option"
  rl_name :: string

record ResolvedUserContext =
  cx_roles :: "string list"
  cx_permissions :: "string list"
  cx_orgUnitId :: "uuid option"

datatype IdentityProviderProtocol = SAML | OIDC

record TenantIdentityProvider =
  ip_id :: uuid
  ip_tenantId :: uuid
  ip_protocol :: IdentityProviderProtocol
  ip_isActive :: bool

record PendingSsoRequest =
  pn_tenantId :: uuid
  pn_providerId :: uuid
  pn_clientId :: uuid
  pn_redirectUri :: string
  pn_codeChallenge :: string
  pn_scope :: string
  pn_originalState :: "string option"
  pn_nonce :: "string option"

datatype AuditActorType = ACTOR_USER | ACTOR_SYSTEM | ACTOR_AI_AGENT

record oauth_audit =
  ae_tenantId :: uuid
  ae_actorId :: "uuid option"
  ae_actorType :: AuditActorType
  ae_action :: string
  ae_resourceType :: string
  ae_resourceId :: uuid
  ae_afterState :: "(string \<times> json) list"

type_synonym 'v kv = "(string \<times> 'v \<times> millis) list" \<comment> \<open>Redis: key, value, expiry\<close>

record oauth_db =
  od_clients :: "OAuthClient list"
  od_codes :: "AuthorizationCode list"
  od_keys :: "SigningKey list"
  od_login :: login_db
  od_refresh :: rt_state
  od_access :: access_db
  od_roles :: "role_row list"
  od_providers :: "TenantIdentityProvider list"
  od_sessions :: "(uuid \<times> uuid) kv" \<comment> \<open>verified passkey sessions: tenant and user\<close>
  od_pending :: "PendingSsoRequest kv"
  od_contexts :: "ResolvedUserContext kv"
  od_revoked :: revoked_jtis
  od_audit :: "oauth_audit list"

record oauth_lib =
  lb_sha256 :: "string \<Rightarrow> string" \<comment> \<open>hexadecimal\<close>
  lb_challenge :: "string \<Rightarrow> string" \<comment> \<open>SHA-256 as Base64url\<close>
  lb_compare :: "string \<Rightarrow> string \<Rightarrow> bool"
  lb_bhash :: "string \<Rightarrow> string"
  lb_jose :: jose_lib
  lb_cfg :: token_config
  lb_base64 :: "string \<Rightarrow> string"
  lb_decodeURI :: "string \<Rightarrow> string option" \<comment> \<open>\<open>None\<close> for a \<open>URIError\<close>\<close>
  lb_registrationToken :: "string option"
  lb_hooks :: bool \<comment> \<open>whether the ORM runs an entity's hooks on a plain object\<close>

record request_ctx =
  rq_now :: millis
  rq_up :: "nat \<Rightarrow> bool"
  rq_code :: string
  rq_jti :: uuid
  rq_raw :: string
  rq_id :: uuid
  rq_family :: uuid

datatype oauth_error = InvalidRequest string | InvalidClient string | UnauthorizedClient string | InvalidGrantError string
  | RefreshError rt_error | LoginError login_error | SigningError signing_error | RepositoryError repository_error
  | Unauthorized string | URIError | SsoRequestExpired | IdentityProviderNotFound uuid | FederationFailed string
  | ClientUniqueViolation

section \<open>Redis\<close>

definition kv_get :: "bool \<Rightarrow> millis \<Rightarrow> string \<Rightarrow> 'v kv \<Rightarrow> 'v option" where
  "kv_get up now k st = (if up then map_option (\<lambda>e. fst (snd e)) (find_where (\<lambda>e. fst e = k \<and> now < snd (snd e)) st) else None)"

definition kv_set :: "bool \<Rightarrow> millis \<Rightarrow> string \<Rightarrow> 'v \<Rightarrow> int \<Rightarrow> 'v kv \<Rightarrow> 'v kv" where
  "kv_set up now k v ttlSeconds st = (if up then (k, v, now + ttlSeconds * 1000) # delete_where (\<lambda>e. fst e = k) st else st)"

definition kv_del :: "bool \<Rightarrow> string \<Rightarrow> 'v kv \<Rightarrow> 'v kv" where
  "kv_del up k st = (if up then delete_where (\<lambda>e. fst e = k) st else st)"

section \<open>Clients\<close>

definition findByClientId :: "string \<Rightarrow> oauth_db \<Rightarrow> OAuthClient option" where
  "findByClientId clientId s = find_where (\<lambda>c. oc_clientId c = clientId) (od_clients s)"

definition authenticateClient :: "oauth_lib \<Rightarrow> string \<Rightarrow> string option \<Rightarrow> oauth_db \<Rightarrow> oauth_error + OAuthClient" where
  "authenticateClient lib clientId clientSecret s =
     (case findByClientId clientId s of
        None \<Rightarrow> Inl (InvalidClient ''Client authentication failed.'')
      | Some client \<Rightarrow>
          if \<not> oc_isActive client then Inl (InvalidClient ''Client authentication failed.'')
          else if oc_clientType client = CONFIDENTIAL then
            (if \<not> truthy_str clientSecret \<or> \<not> truthy_str (oc_clientSecretHash client)
             then Inl (InvalidClient ''Confidential clients must present a client_secret.'')
             else if \<not> lb_compare lib (the clientSecret) (the (oc_clientSecretHash client))
             then Inl (InvalidClient ''Client authentication failed.'')
             else Inr client)
          else Inr client)"

definition resolveActiveClient :: "string \<Rightarrow> oauth_db \<Rightarrow> oauth_error + OAuthClient" where
  "resolveActiveClient clientId s =
     (case findByClientId clientId s of
        None \<Rightarrow> Inl (InvalidClient ''Client authentication failed.'')
      | Some client \<Rightarrow> if oc_isActive client then Inr client else Inl (InvalidClient ''Client authentication failed.''))"

definition grantTypeAllowed :: "OAuthClient \<Rightarrow> OAuthGrantType \<Rightarrow> bool" where
  "grantTypeAllowed client g \<longleftrightarrow> g \<in> set (oc_allowedGrantTypes client)"

definition redirectUriRegistered :: "OAuthClient \<Rightarrow> string \<Rightarrow> bool" where
  "redirectUriRegistered client uri \<longleftrightarrow> uri \<in> set (oc_redirectUris client)"

definition extractClientCredentials ::
  "oauth_lib \<Rightarrow> string option \<Rightarrow> string option \<Rightarrow> string option \<Rightarrow> oauth_error + string \<times> string option" where
  "extractClientCredentials lib client_id client_secret header =
     (case header of
        Some h \<Rightarrow>
          if starts_with ''Basic '' h then
            (let decoded = lb_base64 lib (drop 6 h) in
             if CHR '':'' \<notin> set decoded then Inl (InvalidRequest ''Malformed Basic authorization header.'')
             else let name = takeWhile (\<lambda>c. c \<noteq> CHR '':'') decoded; rest = tl (dropWhile (\<lambda>c. c \<noteq> CHR '':'') decoded) in
               case (lb_decodeURI lib name, lb_decodeURI lib rest) of
                 (Some i, Some sec) \<Rightarrow> Inr (i, Some sec)
               | _ \<Rightarrow> Inl URIError)
          else Inr (the_default client_id [], client_secret)
      | None \<Rightarrow> Inr (the_default client_id [], client_secret))"

section \<open>PKCE\<close>

definition verifier_char :: "char \<Rightarrow> bool" where
  "verifier_char c \<longleftrightarrow> is_upper c \<or> is_lower c \<or> is_digit_char c \<or> c \<in> {CHR ''-'', CHR ''.'', CHR ''_'', CHR ''~''}"

definition validVerifierFormat :: "string \<Rightarrow> bool" where
  "validVerifierFormat v \<longleftrightarrow> 43 \<le> length v \<and> length v \<le> 128 \<and> list_all verifier_char v"

definition pkce_verify :: "oauth_lib \<Rightarrow> string \<Rightarrow> string \<Rightarrow> oauth_error + unit" where
  "pkce_verify lib codeVerifier storedChallenge =
     (if \<not> validVerifierFormat codeVerifier
      then Inl (InvalidRequest ''code_verifier must be 43-128 characters from [A-Za-z0-9-._~] (RFC 7636 4.1).'')
      else if lb_challenge lib codeVerifier \<noteq> storedChallenge
      then Inl (InvalidGrantError ''PKCE verification failed: code_verifier does not match code_challenge.'')
      else Inr ())"

section \<open>Authorization codes\<close>

definition CODE_TTL_SECONDS :: int where
  "CODE_TTL_SECONDS = 60"

record IssueAuthorizationCodeInput =
  cd_in_tenantId :: uuid
  cd_in_clientId :: uuid
  cd_in_userId :: uuid
  cd_in_redirectUri :: string
  cd_in_codeChallenge :: string
  cd_in_scope :: string
  cd_in_nonce :: "string option"
  cd_in_authTime :: millis
  cd_in_amr :: "string list"

definition code_row :: "oauth_lib \<Rightarrow> request_ctx \<Rightarrow> IssueAuthorizationCodeInput \<Rightarrow> AuthorizationCode" where
  "code_row lib rq inp = \<lparr>az_codeHash = lb_sha256 lib (rq_code rq), az_tenantId = cd_in_tenantId inp, az_clientId = cd_in_clientId inp,
     az_userId = cd_in_userId inp, az_redirectUri = cd_in_redirectUri inp, az_codeChallenge = cd_in_codeChallenge inp,
     az_codeChallengeMethod = ''S256'', az_scope = cd_in_scope inp, az_nonce = cd_in_nonce inp, az_authTime = cd_in_authTime inp,
     az_amr = cd_in_amr inp, az_expiresAt = rq_now rq + CODE_TTL_SECONDS * 1000, az_consumedAt = None\<rparr>"

definition issueCode :: "oauth_lib \<Rightarrow> request_ctx \<Rightarrow> uuid \<Rightarrow> IssueAuthorizationCodeInput \<Rightarrow> (oauth_db, oauth_error, string) svc" where
  "issueCode lib rq tenantId inp s =
     (case ts_save az_tenantId (\<lambda>t c. c\<lparr>az_tenantId := t\<rparr>) az_codeHash tenantId (code_row lib rq inp) (od_codes s) of
        (Inl e, _) \<Rightarrow> (Inl (RepositoryError e), s)
      | (Inr _, rows) \<Rightarrow> (Inr (rq_code rq), s\<lparr>od_codes := rows\<rparr>))"

definition repo_consume :: "uuid \<Rightarrow> millis \<Rightarrow> string \<Rightarrow> AuthorizationCode list \<Rightarrow> AuthorizationCode option \<times> AuthorizationCode list" where
  "repo_consume tenantId now codeHash codes =
     (let hit = (\<lambda>c. az_codeHash c = codeHash \<and> az_tenantId c = tenantId \<and> az_consumedAt c = None \<and> now < az_expiresAt c);
          rows = update_where hit (\<lambda>c. c\<lparr>az_consumedAt := Some now\<rparr>) codes
      in if filter hit codes = [] then (None, rows)
         else (find_where (\<lambda>c. az_codeHash c = codeHash \<and> az_tenantId c = tenantId) rows, rows))"

definition consumeCode ::
  "oauth_lib \<Rightarrow> request_ctx \<Rightarrow> uuid \<Rightarrow> string \<Rightarrow> uuid \<Rightarrow> string \<Rightarrow> (oauth_db, oauth_error, AuthorizationCode) svc" where
  \<comment> \<open>the code is consumed before it is compared with the client and the redirect URI\<close>
  "consumeCode lib rq tenantId code clientId redirectUri s =
     (case repo_consume tenantId (rq_now rq) (lb_sha256 lib code) (od_codes s) of (found, rows) \<Rightarrow>
        (let s1 = s\<lparr>od_codes := rows\<rparr> in
         case found of
           None \<Rightarrow> (Inl (InvalidGrantError ''Authorization code is invalid, expired, or already used.''), s1)
         | Some rec \<Rightarrow>
             if az_clientId rec \<noteq> clientId then (Inl (InvalidGrantError ''Authorization code was not issued to this client.''), s1)
             else if az_redirectUri rec \<noteq> redirectUri
             then (Inl (InvalidGrantError ''redirect_uri does not match the one used to obtain this code.''), s1)
             else (Inr rec, s1)))"

section \<open>Passkey sessions\<close>

definition consumeSession :: "request_ctx \<Rightarrow> string \<Rightarrow> oauth_db \<Rightarrow> (uuid \<times> uuid) option \<times> oauth_db" where
  "consumeSession rq token s =
     (case kv_get (rq_up rq 0) (rq_now rq) token (od_sessions s) of
        None \<Rightarrow> (None, s)
      | Some v \<Rightarrow> (Some v, s\<lparr>od_sessions := kv_del (rq_up rq 1) token (od_sessions s)\<rparr>))"

definition issueSession :: "request_ctx \<Rightarrow> uuid \<Rightarrow> uuid \<Rightarrow> oauth_db \<Rightarrow> string \<times> oauth_db" where
  "issueSession rq tenantId userId s =
     (rq_raw rq, s\<lparr>od_sessions := kv_set (rq_up rq 0) (rq_now rq) (rq_raw rq) (tenantId, userId) 300 (od_sessions s)\<rparr>)"

section \<open>User context\<close>

definition resolveContext :: "uuid \<Rightarrow> uuid \<Rightarrow> oauth_db \<Rightarrow> ResolvedUserContext" where
  "resolveContext tenantId userId s =
     (let roleRows = filter (\<lambda>r. ur_tenantId r = tenantId \<and> ur_userId r = userId) (db_userRoles (od_access s));
          roleIds = js_set (map ur_roleId roleRows);
          names = map rl_name (filter (\<lambda>r. rl_id r \<in> set roleIds \<and> (rl_tenantId r = Some tenantId \<or> rl_tenantId r = None)) (od_roles s));
          grants = filter (\<lambda>g. rpm_roleId g \<in> set roleIds \<and> (rpm_tenantId g = Some tenantId \<or> rpm_tenantId g = None))
                     (db_rolePermissions (od_access s));
          perms = js_set (concat (map (\<lambda>g. map (\<lambda>p. (pm_resource p, pm_action p))
                     (filter (\<lambda>p. pm_id p = rpm_permissionId g) (db_permissions (od_access s)))) grants));
          scopes = js_set (map ur_scopeOrgUnitId roleRows)
      in if roleIds = [] then \<lparr>cx_roles = [], cx_permissions = [], cx_orgUnitId = None\<rparr>
         else \<lparr>cx_roles = names, cx_permissions = map (\<lambda>(r, a). r @ '':'' @ a) perms,
               cx_orgUnitId = (if length scopes = 1 then ur_scopeOrgUnitId (hd roleRows) else None)\<rparr>)"

definition getContext :: "(nat \<Rightarrow> bool) \<Rightarrow> millis \<Rightarrow> uuid \<Rightarrow> uuid \<Rightarrow> oauth_db \<Rightarrow> ResolvedUserContext \<times> oauth_db" where
  "getContext up now tenantId userId s =
     (let key = tenantId @ '':'' @ userId in
      case kv_get (up 0) now key (od_contexts s) of
        Some c \<Rightarrow> (c, s)
      | None \<Rightarrow> (let c = resolveContext tenantId userId s
                 in (c, s\<lparr>od_contexts := kv_set (up 1) now key c 60 (od_contexts s)\<rparr>)))"

definition invalidateContext :: "bool \<Rightarrow> uuid \<Rightarrow> uuid \<Rightarrow> oauth_db \<Rightarrow> oauth_db" where
  "invalidateContext up tenantId userId s = s\<lparr>od_contexts := kv_del up (tenantId @ '':'' @ userId) (od_contexts s)\<rparr>"

definition sessionTtlSeconds :: "uuid \<Rightarrow> oauth_db \<Rightarrow> int \<times> oauth_db" where
  "sessionTtlSeconds tenantId s =
     (case getOrCreateSettings tenantId (od_login s) of (st, l) \<Rightarrow> (ts_sessionTimeoutMinutes st * 60, s\<lparr>od_login := l\<rparr>))"

definition enqueueAudit :: "oauth_audit \<Rightarrow> oauth_db \<Rightarrow> oauth_db" where
  \<comment> \<open>the endpoints here act for users and clients; the check on agents does not concern them\<close>
  "enqueueAudit e s = s\<lparr>od_audit := od_audit s @ [e]\<rparr>"

section \<open>POST /oauth/authorize\<close>

record AuthorizeRequest =
  ad_client_id :: string
  ad_redirect_uri :: string
  ad_scope :: "string option"
  ad_state :: "string option"
  ad_code_challenge :: string
  ad_code_challenge_method :: string
  ad_nonce :: "string option"
  ad_username :: "string option"
  ad_password :: "string option"
  ad_webauthn_session_token :: "string option"

definition login_user ::
  "oauth_lib \<Rightarrow> request_ctx \<Rightarrow> uuid \<Rightarrow> AuthorizeRequest \<Rightarrow> (oauth_db, oauth_error, uuid \<times> string list) svc" where
  \<comment> \<open>the two credential shapes; the result is the user and the \<open>amr\<close>\<close>
  "login_user lib rq tenantId dto s =
     (if truthy_str (ad_webauthn_session_token dto) then
        (case assertMethodPermitted tenantId (rq_now rq) ''webauthn'' (od_login s) of
           Inl e \<Rightarrow> (Inl (LoginError e), s)
         | Inr _ \<Rightarrow>
             (case consumeSession rq (the (ad_webauthn_session_token dto)) s of
                (None, s1) \<Rightarrow> (Inl (InvalidRequest ''webauthn_session_token is invalid, expired, or already used.''), s1)
              | (Some (t, u), s1) \<Rightarrow>
                  if t \<noteq> tenantId then (Inl (InvalidRequest ''webauthn_session_token is invalid, expired, or already used.''), s1)
                  else (Inr (u, [''webauthn'']), s1)))
      else
        (case assertMethodPermitted tenantId (rq_now rq) ''pwd'' (od_login s) of
           Inl e \<Rightarrow> (Inl (LoginError e), s)
         | Inr _ \<Rightarrow>
             if \<not> truthy_str (ad_username dto) \<or> \<not> truthy_str (ad_password dto)
             then (Inl (InvalidRequest ''Both username and password are required.''), s)
             else (case authenticate (lb_compare lib) tenantId (rq_now rq) (the (ad_username dto)) (the (ad_password dto)) (od_login s) of
                     (Inl e, l) \<Rightarrow> (Inl (LoginError e), s\<lparr>od_login := l\<rparr>)
                   | (Inr user, l) \<Rightarrow> (Inr (us_id user, [''pwd'']), s\<lparr>od_login := l\<rparr>))))"

definition code_input :: "OAuthClient \<Rightarrow> uuid \<Rightarrow> string list \<Rightarrow> millis \<Rightarrow> AuthorizeRequest \<Rightarrow> IssueAuthorizationCodeInput" where
  "code_input client userId amr authTime dto = \<lparr>cd_in_tenantId = oc_tenantId client, cd_in_clientId = oc_id client, cd_in_userId = userId,
     cd_in_redirectUri = ad_redirect_uri dto, cd_in_codeChallenge = ad_code_challenge dto, cd_in_scope = the_default (ad_scope dto) [],
     cd_in_nonce = ad_nonce dto, cd_in_authTime = authTime, cd_in_amr = amr\<rparr>"

definition authorize ::
  "oauth_lib \<Rightarrow> request_ctx \<Rightarrow> string option \<Rightarrow> AuthorizeRequest \<Rightarrow> (oauth_db, oauth_error, string \<times> string option) svc" where
  "authorize lib rq ip dto s =
     (case resolveActiveClient (ad_client_id dto) s of
        Inl e \<Rightarrow> (Inl e, s)
      | Inr client \<Rightarrow>
          if \<not> grantTypeAllowed client AUTHORIZATION_CODE then (Inl (UnauthorizedClient (oc_clientId client)), s)
          else if \<not> redirectUriRegistered client (ad_redirect_uri dto)
          then (Inl (InvalidRequest ''redirect_uri does not match any URI registered for this client.''), s)
          else if ad_code_challenge_method dto \<noteq> ''S256'' then (Inl (InvalidRequest ''code_challenge_method must be S256''), s)
          else if truthy_str (ad_webauthn_session_token dto) = (truthy_str (ad_username dto) \<or> truthy_str (ad_password dto))
          then (Inl (InvalidRequest ''Provide exactly one of (username and password) or webauthn_session_token.''), s)
          else
            (case assertLoginPermitted (oc_tenantId client) (rq_now rq) ip (the_default (ad_username dto) []) (od_login s) of
               Inl e \<Rightarrow> (Inl (LoginError e), s)
             | Inr _ \<Rightarrow>
                 (case login_user lib rq (oc_tenantId client) dto s of
                    (Inl e, s1) \<Rightarrow> (Inl e, s1)
                  | (Inr (userId, amr), s1) \<Rightarrow>
                      (case issueCode lib rq (oc_tenantId client) (code_input client userId amr (rq_now rq) dto) s1 of
                         (Inl e, s2) \<Rightarrow> (Inl e, s2)
                       | (Inr code, s2) \<Rightarrow> (Inr (code, ad_state dto), s2)))))"

section \<open>POST /oauth/token\<close>

record TokenRequest =
  td_grant_type :: OAuthGrantType
  td_code :: "string option"
  td_redirect_uri :: "string option"
  td_code_verifier :: "string option"
  td_refresh_token :: "string option"
  td_client_id :: "string option"
  td_client_secret :: "string option"
  td_scope :: "string option"

record token_response =
  tr_access_token :: string
  tr_expires_in :: int
  tr_refresh_token :: "string option"
  tr_refresh_token_expires_in :: "int option"
  tr_scope :: string
  tr_id_token :: "string option"

fun split_words :: "string \<Rightarrow> string list" where
  \<comment> \<open>\<open>scope.split(' ')\<close>\<close>
  "split_words [] = [[]]"
| "split_words (c # cs) = (if c = CHR '' '' then [] # split_words cs else (case split_words cs of w # ws \<Rightarrow> (c # w) # ws | [] \<Rightarrow> [[c]]))"

definition user_token_input :: "OAuthClient \<Rightarrow> uuid \<Rightarrow> string list \<Rightarrow> millis \<Rightarrow> ResolvedUserContext \<Rightarrow> int \<Rightarrow> IssueAccessTokenInput" where
  "user_token_input client userId amr authTime cx ttl = \<lparr>ia_userId = userId, ia_tenantId = oc_tenantId client,
     ia_orgUnitId = cx_orgUnitId cx, ia_roles = cx_roles cx, ia_permissions = cx_permissions cx, ia_amr = amr, ia_authTime = authTime,
     ia_ttlSeconds = Some ttl\<rparr>"

definition user_access_token ::
  "oauth_lib \<Rightarrow> request_ctx \<Rightarrow> (nat \<Rightarrow> bool) \<Rightarrow> OAuthClient \<Rightarrow> uuid \<Rightarrow> string list \<Rightarrow> millis \<Rightarrow>
   (oauth_db, oauth_error, string \<times> AccessTokenClaims \<times> int) svc" where
  \<comment> \<open>the user context, the session timeout and the access token, the part the two user grants share\<close>
  "user_access_token lib rq up client userId amr authTime s =
     (case getContext up (rq_now rq) (oc_tenantId client) userId s of (cx, s1) \<Rightarrow>
      case sessionTtlSeconds (oc_tenantId client) s1 of (ttl, s2) \<Rightarrow>
      case issueAccessToken (lb_jose lib) (lb_cfg lib) (rq_now rq) (rq_jti rq) (user_token_input client userId amr authTime cx ttl) (od_keys s2) of
        Inl e \<Rightarrow> (Inl (SigningError e), s2)
      | Inr (token, claims) \<Rightarrow> (Inr (token, claims, ttl), s2))"

definition issue_audit :: "OAuthClient \<Rightarrow> AuthorizationCode \<Rightarrow> oauth_audit" where
  "issue_audit client rec = \<lparr>ae_tenantId = oc_tenantId client, ae_actorId = Some (az_userId rec), ae_actorType = ACTOR_USER,
     ae_action = ''oauth_token.issued'', ae_resourceType = ''user'', ae_resourceId = az_userId rec,
     ae_afterState = [(''grant_type'', JStr ''authorization_code''), (''client_id'', JStr (oc_clientId client)),
       (''scope'', JStr (az_scope rec)), (''amr'', JArr (map JStr (az_amr rec)))]\<rparr>"

definition handleAuthorizationCodeGrant ::
  "oauth_lib \<Rightarrow> request_ctx \<Rightarrow> TokenRequest \<Rightarrow> string \<times> string option \<Rightarrow> (oauth_db, oauth_error, token_response) svc" where
  "handleAuthorizationCodeGrant lib rq dto creds s =
     (if \<not> truthy_str (td_code dto) \<or> \<not> truthy_str (td_redirect_uri dto) \<or> \<not> truthy_str (td_code_verifier dto) \<or> fst creds = []
      then (Inl (InvalidRequest ''code, redirect_uri, code_verifier, and client_id are required.''), s)
      else case authenticateClient lib (fst creds) (snd creds) s of
        Inl e \<Rightarrow> (Inl e, s)
      | Inr client \<Rightarrow>
          if \<not> grantTypeAllowed client AUTHORIZATION_CODE then (Inl (UnauthorizedClient (oc_clientId client)), s)
          else (case consumeCode lib rq (oc_tenantId client) (the (td_code dto)) (oc_id client) (the (td_redirect_uri dto)) s of
            (Inl e, s1) \<Rightarrow> (Inl e, s1)
          | (Inr rec, s1) \<Rightarrow>
              (case pkce_verify lib (the (td_code_verifier dto)) (az_codeChallenge rec) of
                 Inl e \<Rightarrow> (Inl e, s1)
               | Inr _ \<Rightarrow>
                   (case user_access_token lib rq (rq_up rq) client (az_userId rec) (az_amr rec) (az_authTime rec) s1 of
                      (Inl e, s2) \<Rightarrow> (Inl e, s2)
                    | (Inr (accessToken, _, ttl), s2) \<Rightarrow>
                        (case issue (lb_sha256 lib) (rq_up rq 2) (rq_now rq) (oc_tenantId client) (rq_raw rq) (rq_id rq) (rq_family rq)
                                \<lparr>ii_tenantId = oc_tenantId client, ii_userId = az_userId rec, ii_clientId = oc_id client,
                                 ii_amr = az_amr rec, ii_authTime = az_authTime rec, ii_scope = az_scope rec\<rparr> (od_refresh s2) of
                           (Inl e, r) \<Rightarrow> (Inl (RefreshError e), s2\<lparr>od_refresh := r\<rparr>)
                         | (Inr (refreshToken, _), r) \<Rightarrow>
                             (let s3 = s2\<lparr>od_refresh := r\<rparr>;
                                  idToken = (if ''openid'' \<in> set (split_words (az_scope rec))
                                    then Some (issueIdToken (lb_jose lib) (lb_cfg lib) (rq_now rq)
                                      \<lparr>ii_id_userId = az_userId rec, ii_id_tenantId = oc_tenantId client, ii_id_clientId = oc_clientId client,
                                       ii_id_amr = az_amr rec, ii_id_authTime = az_authTime rec, ii_id_nonce = az_nonce rec\<rparr> (od_keys s3))
                                    else None)
                              in case idToken of
                                   Some (Inl e) \<Rightarrow> (Inl (SigningError e), s3)
                                 | _ \<Rightarrow> (Inr \<lparr>tr_access_token = accessToken, tr_expires_in = ttl, tr_refresh_token = Some refreshToken,
                                      tr_refresh_token_expires_in = None, tr_scope = az_scope rec,
                                      tr_id_token = map_option projr idToken\<rparr>, enqueueAudit (issue_audit client rec) s3)))))))"

definition handleRefreshTokenGrant ::
  "oauth_lib \<Rightarrow> request_ctx \<Rightarrow> TokenRequest \<Rightarrow> string \<times> string option \<Rightarrow> (oauth_db, oauth_error, token_response) svc" where
  \<comment> \<open>the token is rotated before its client is compared with the caller\<close>
  "handleRefreshTokenGrant lib rq dto creds s =
     (if \<not> truthy_str (td_refresh_token dto) \<or> fst creds = []
      then (Inl (InvalidRequest ''refresh_token and client_id are required.''), s)
      else case authenticateClient lib (fst creds) (snd creds) s of
        Inl e \<Rightarrow> (Inl e, s)
      | Inr client \<Rightarrow>
          if \<not> grantTypeAllowed client REFRESH_TOKEN then (Inl (UnauthorizedClient (oc_clientId client)), s)
          else (case rotate (lb_sha256 lib) (rq_up rq) (rq_now rq) (oc_tenantId client) (rq_raw rq) (rq_id rq)
                       (the (td_refresh_token dto)) (od_refresh s) of
            (Inl e, r) \<Rightarrow> (Inl (RefreshError e), s\<lparr>od_refresh := r\<rparr>)
          | (Inr (rawToken, rec), r) \<Rightarrow>
              (let s1 = s\<lparr>od_refresh := r\<rparr> in
               if rt_clientId rec \<noteq> oc_id client then (Inl (UnauthorizedClient ''Refresh token was not issued to this client.''), s1)
               else case user_access_token lib rq (\<lambda>n. rq_up rq (n + 3)) client (rt_userId rec) (rt_amr rec) (rt_authTime rec) s1 of
                 (Inl e, s2) \<Rightarrow> (Inl e, s2)
               | (Inr (accessToken, _, ttl), s2) \<Rightarrow>
                   (Inr \<lparr>tr_access_token = accessToken, tr_expires_in = ttl, tr_refresh_token = Some rawToken,
                      tr_refresh_token_expires_in = Some (REFRESH_TOKEN_TTL_DAYS * 24 * 60 * 60), tr_scope = rt_scope rec, tr_id_token = None\<rparr>,
                    enqueueAudit \<lparr>ae_tenantId = oc_tenantId client, ae_actorId = Some (rt_userId rec), ae_actorType = ACTOR_USER,
                      ae_action = ''oauth_token.refreshed'', ae_resourceType = ''user'', ae_resourceId = rt_userId rec,
                      ae_afterState = [(''grant_type'', JStr ''refresh_token''), (''client_id'', JStr (oc_clientId client)),
                        (''scope'', JStr (rt_scope rec))]\<rparr> s2))))"

definition handleClientCredentialsGrant ::
  "oauth_lib \<Rightarrow> request_ctx \<Rightarrow> TokenRequest \<Rightarrow> string \<times> string option \<Rightarrow> (oauth_db, oauth_error, token_response) svc" where
  "handleClientCredentialsGrant lib rq dto creds s =
     (if fst creds = [] \<or> \<not> truthy_str (snd creds) then (Inl (InvalidClient ''client_credentials requires a confidential client.''), s)
      else case authenticateClient lib (fst creds) (snd creds) s of
        Inl e \<Rightarrow> (Inl e, s)
      | Inr client \<Rightarrow>
          if oc_clientType client \<noteq> CONFIDENTIAL then (Inl (UnauthorizedClient ''Public clients may not use the client_credentials grant.''), s)
          else if \<not> grantTypeAllowed client CLIENT_CREDENTIALS then (Inl (UnauthorizedClient (oc_clientId client)), s)
          else (case issueAccessToken (lb_jose lib) (lb_cfg lib) (rq_now rq) (rq_jti rq)
                       \<lparr>ia_userId = ''client:'' @ oc_id client, ia_tenantId = oc_tenantId client, ia_orgUnitId = None, ia_roles = [],
                        ia_permissions = [], ia_amr = [''client_credentials''], ia_authTime = rq_now rq, ia_ttlSeconds = None\<rparr> (od_keys s) of
            Inl e \<Rightarrow> (Inl (SigningError e), s)
          | Inr (accessToken, _) \<Rightarrow>
              (Inr \<lparr>tr_access_token = accessToken, tr_expires_in = ACCESS_TOKEN_TTL_SECONDS, tr_refresh_token = None,
                 tr_refresh_token_expires_in = None, tr_scope = the_default (td_scope dto) [], tr_id_token = None\<rparr>,
               enqueueAudit \<lparr>ae_tenantId = oc_tenantId client, ae_actorId = Some (oc_id client), ae_actorType = ACTOR_SYSTEM,
                 ae_action = ''oauth_token.issued'', ae_resourceType = ''oauth_client'', ae_resourceId = oc_id client,
                 ae_afterState = [(''grant_type'', JStr ''client_credentials''), (''client_id'', JStr (oc_clientId client)),
                   (''scope'', JStr (the_default (td_scope dto) []))]\<rparr> s)))"

definition token_endpoint ::
  "oauth_lib \<Rightarrow> request_ctx \<Rightarrow> string option \<Rightarrow> TokenRequest \<Rightarrow> (oauth_db, oauth_error, token_response) svc" where
  \<comment> \<open>validation of the request admits no other \<open>grant_type\<close>\<close>
  "token_endpoint lib rq header dto s =
     (case extractClientCredentials lib (td_client_id dto) (td_client_secret dto) header of
        Inl e \<Rightarrow> (Inl e, s)
      | Inr creds \<Rightarrow> (case td_grant_type dto of
            AUTHORIZATION_CODE \<Rightarrow> handleAuthorizationCodeGrant lib rq dto creds s
          | REFRESH_TOKEN \<Rightarrow> handleRefreshTokenGrant lib rq dto creds s
          | CLIENT_CREDENTIALS \<Rightarrow> handleClientCredentialsGrant lib rq dto creds s))"

section \<open>POST /oauth/revoke, /oauth/introspect, /oauth/register\<close>

record RevokeRequest =
  rv_token :: string
  rv_token_type_hint :: "string option"
  rv_client_id :: "string option"
  rv_client_secret :: "string option"

definition calling_client :: "oauth_lib \<Rightarrow> RevokeRequest \<Rightarrow> string option \<Rightarrow> oauth_db \<Rightarrow> oauth_error + OAuthClient" where
  "calling_client lib dto header s =
     (case extractClientCredentials lib (rv_client_id dto) (rv_client_secret dto) header of
        Inl e \<Rightarrow> Inl e
      | Inr creds \<Rightarrow> if fst creds = [] then Inl (InvalidRequest ''client_id is required.'')
                     else authenticateClient lib (fst creds) (snd creds) s)"

definition revoke_endpoint :: "oauth_lib \<Rightarrow> request_ctx \<Rightarrow> string option \<Rightarrow> RevokeRequest \<Rightarrow> (oauth_db, oauth_error, unit) svc" where
  "revoke_endpoint lib rq header dto s =
     (case calling_client lib dto header s of
        Inl e \<Rightarrow> (Inl e, s)
      | Inr client \<Rightarrow>
          (let s1 = (if rv_token_type_hint dto \<noteq> Some ''access_token''
                     then s\<lparr>od_refresh := revokeByRawToken (lb_sha256 lib) (rq_up rq) (rq_now rq) (oc_tenantId client) (rv_token dto)
                              ''client_requested_revocation'' (od_refresh s)\<rparr>
                     else s);
               s2 = (case verifyAccessToken (lb_jose lib) (lb_cfg lib) (rq_now rq) (rv_token dto) (od_keys s1) of
                       Inl _ \<Rightarrow> s1
                     | Inr claims \<Rightarrow> s1\<lparr>od_revoked := revoke_jti (rq_up rq 2) (rq_now rq) (ac_jti claims) (ac_exp claims * 1000) (od_revoked s1)\<rparr>)
           in (Inr (), enqueueAudit \<lparr>ae_tenantId = oc_tenantId client, ae_actorId = Some (oc_id client), ae_actorType = ACTOR_SYSTEM,
                 ae_action = ''oauth_token.revoked'', ae_resourceType = ''oauth_client'', ae_resourceId = oc_id client,
                 ae_afterState = [(''client_id'', JStr (oc_clientId client)),
                   (''token_type_hint'', case rv_token_type_hint dto of None \<Rightarrow> JNull | Some h \<Rightarrow> JStr h)]\<rparr> s2)))"

datatype introspection = Inactive | ActiveAccess AccessTokenClaims string | ActiveRefresh refresh_token string

definition introspect_endpoint ::
  "oauth_lib \<Rightarrow> request_ctx \<Rightarrow> string option \<Rightarrow> RevokeRequest \<Rightarrow> oauth_db \<Rightarrow> oauth_error + introspection" where
  \<comment> \<open>reads only; an active answer carries the \<open>client_id\<close> of the caller\<close>
  "introspect_endpoint lib rq header dto s =
     (case calling_client lib dto header s of
        Inl e \<Rightarrow> Inl e
      | Inr client \<Rightarrow>
          (let refresh = (case peekActive (lb_sha256 lib) (rq_up rq 1) (rq_now rq) (oc_tenantId client) (rv_token dto) (od_refresh s) of
                            None \<Rightarrow> Inactive
                          | Some rec \<Rightarrow> ActiveRefresh rec (oc_clientId client))
           in if rv_token_type_hint dto \<noteq> Some ''refresh_token''
              then (case verifyAccessToken (lb_jose lib) (lb_cfg lib) (rq_now rq) (rv_token dto) (od_keys s) of
                      Inl _ \<Rightarrow> Inr refresh
                    | Inr claims \<Rightarrow> if isRevoked (rq_up rq 0) (rq_now rq) (ac_jti claims) (od_revoked s) then Inr refresh
                                    else Inr (ActiveAccess claims (oc_clientId client)))
              else Inr refresh))"

record RegisterClientRequest =
  rg_client_name :: string
  rg_redirect_uris :: "string list"
  rg_grant_types :: "OAuthGrantType list"
  rg_token_endpoint_auth_method :: TokenEndpointAuthMethod

definition secretMatchesType :: "OAuthClient \<Rightarrow> bool" where
  "secretMatchesType c \<longleftrightarrow> (oc_clientType c = PUBLIC) = (oc_clientSecretHash c = None)"

definition createClient :: "OAuthClient \<Rightarrow> (oauth_db, oauth_error, OAuthClient) svc" where
  \<comment> \<open>the entity's own check, then \<open>uq_oauth_clients_client_id\<close>\<close>
  "createClient c s =
     (if \<not> secretMatchesType c then (Inl (InvalidClient (if oc_clientType c = PUBLIC then ''Public clients must not have a client secret.''
         else ''Confidential clients must have a client secret.'')), s)
      else if oc_clientId c \<in> oc_clientId ` set (od_clients s) then (Inl ClientUniqueViolation, s)
      else (Inr c, s\<lparr>od_clients := od_clients s @ [c]\<rparr>))"

definition deactivateClient :: "uuid \<Rightarrow> uuid \<Rightarrow> (oauth_db, oauth_error, OAuthClient) svc" where
  "deactivateClient tenantId i s =
     (case find_where (\<lambda>c. oc_id c = i \<and> oc_tenantId c = tenantId) (od_clients s) of
        None \<Rightarrow> (Inl (InvalidClient ''OAuth client not found for this tenant.''), s)
      | Some c \<Rightarrow> (Inr (c\<lparr>oc_isActive := False\<rparr>),
          s\<lparr>od_clients := update_where (\<lambda>r. oc_id r = i \<and> oc_tenantId r = tenantId) (\<lambda>r. r\<lparr>oc_isActive := False\<rparr>) (od_clients s)\<rparr>))"

definition grant_name :: "OAuthGrantType \<Rightarrow> string" where
  "grant_name g = (case g of AUTHORIZATION_CODE \<Rightarrow> ''authorization_code'' | REFRESH_TOKEN \<Rightarrow> ''refresh_token''
     | CLIENT_CREDENTIALS \<Rightarrow> ''client_credentials'')"

definition register_endpoint ::
  "oauth_lib \<Rightarrow> request_ctx \<Rightarrow> RegisterClientRequest \<Rightarrow> string option \<Rightarrow> string option \<Rightarrow> (oauth_db, oauth_error, OAuthClient \<times> string option) svc" where
  \<comment> \<open>the draws are \<open>rq_id\<close> for the row, \<open>rq_family\<close> for the \<open>client_id\<close> and \<open>rq_raw\<close> for the secret\<close>
  "register_endpoint lib rq dto registrationToken tenantIdHeader s =
     (if \<not> truthy_str (lb_registrationToken lib) \<or> registrationToken \<noteq> lb_registrationToken lib
      then (Inl (Unauthorized ''Invalid or missing X-Registration-Token.''), s)
      else if \<not> truthy_str tenantIdHeader
      then (Inl (InvalidRequest ''X-Tenant-Id header is required to register a client for a tenant.''), s)
      else
        (let tenantId = the tenantIdHeader;
             isPublic = (rg_token_endpoint_auth_method dto = AUTH_METHOD_NONE);
             secret = (if isPublic then None else Some (rq_raw rq))
         in case createClient \<lparr>oc_id = rq_id rq, oc_tenantId = tenantId, oc_clientId = rq_family rq,
                   oc_clientSecretHash = map_option (lb_bhash lib) secret, oc_clientType = (if isPublic then PUBLIC else CONFIDENTIAL),
                   oc_name = rg_client_name dto, oc_allowedGrantTypes = rg_grant_types dto, oc_redirectUris = rg_redirect_uris dto,
                   oc_tokenEndpointAuthMethod = rg_token_endpoint_auth_method dto, oc_isActive = True, oc_createdAt = rq_now rq\<rparr> s of
              (Inl e, s1) \<Rightarrow> (Inl e, s1)
            | (Inr c, s1) \<Rightarrow> (Inr (c, secret), enqueueAudit \<lparr>ae_tenantId = tenantId, ae_actorId = None, ae_actorType = ACTOR_SYSTEM,
                ae_action = ''oauth_client.registered'', ae_resourceType = ''oauth_client'', ae_resourceId = oc_id c,
                ae_afterState = [(''client_id'', JStr (oc_clientId c)), (''name'', JStr (oc_name c)),
                  (''grant_types'', JArr (map (\<lambda>g. JStr (grant_name g)) (oc_allowedGrantTypes c))),
                  (''client_type'', JStr (case oc_clientType c of PUBLIC \<Rightarrow> ''public'' | CONFIDENTIAL \<Rightarrow> ''confidential''))]\<rparr> s1)))"

section \<open>Single sign-on\<close>

record SsoLoginQuery =
  sq_client_id :: string
  sq_redirect_uri :: string
  sq_code_challenge :: string
  sq_code_challenge_method :: string
  sq_scope :: "string option"
  sq_state :: "string option"
  sq_nonce :: "string option"

datatype federation = Identity string "string option" | Refused string | Crashed string
  \<comment> \<open>subject and mail address; a domain error, which is reported to the client; any other error\<close>

datatype sso_redirect = RedirectCode string string "string option" | RedirectError string string "string option"

definition sso_login ::
  "request_ctx \<Rightarrow> uuid \<Rightarrow> SsoLoginQuery \<Rightarrow> (oauth_db, oauth_error, string) svc" where
  \<comment> \<open>up to the redirect to the identity provider; the result is the id of the pending request\<close>
  "sso_login rq tenantIdpId query s =
     (case find_where (\<lambda>p. ip_id p = tenantIdpId) (od_providers s) of
        None \<Rightarrow> (Inl (IdentityProviderNotFound tenantIdpId), s)
      | Some provider \<Rightarrow>
          if \<not> ip_isActive provider then (Inl (IdentityProviderNotFound tenantIdpId), s)
          else case resolveActiveClient (sq_client_id query) s of
            Inl e \<Rightarrow> (Inl e, s)
          | Inr client \<Rightarrow>
              if \<not> grantTypeAllowed client AUTHORIZATION_CODE then (Inl (UnauthorizedClient (oc_clientId client)), s)
              else if \<not> redirectUriRegistered client (sq_redirect_uri query)
              then (Inl (InvalidRequest ''redirect_uri does not match any URI registered for this client.''), s)
              else if sq_code_challenge_method query \<noteq> ''S256'' then (Inl (InvalidRequest ''code_challenge_method must be S256''), s)
              else (Inr (rq_raw rq), s\<lparr>od_pending := kv_set (rq_up rq 0) (rq_now rq) (rq_raw rq)
                     \<lparr>pn_tenantId = ip_tenantId provider, pn_providerId = ip_id provider, pn_clientId = oc_id client,
                      pn_redirectUri = sq_redirect_uri query, pn_codeChallenge = sq_code_challenge query,
                      pn_scope = the_default (sq_scope query) [], pn_originalState = sq_state query, pn_nonce = sq_nonce query\<rparr> 600 (od_pending s)\<rparr>))"

definition consumePendingRequest :: "request_ctx \<Rightarrow> string \<Rightarrow> oauth_db \<Rightarrow> PendingSsoRequest option \<times> oauth_db" where
  "consumePendingRequest rq requestId s =
     (case kv_get (rq_up rq 0) (rq_now rq) requestId (od_pending s) of
        None \<Rightarrow> (None, s)
      | Some p \<Rightarrow> (Some p, s\<lparr>od_pending := kv_del (rq_up rq 1) requestId (od_pending s)\<rparr>))"

definition findOrProvisionUser :: "oauth_lib \<Rightarrow> request_ctx \<Rightarrow> uuid \<Rightarrow> string \<Rightarrow> string \<Rightarrow> login_db \<Rightarrow> (User \<times> bool) \<times> login_db" where
  "findOrProvisionUser lib rq tenantId subject email l =
     (case ts_find us_tenantId tenantId (\<lambda>u. us_externalIdpId u = Some subject) (ld_users l) of
        u # _ \<Rightarrow> ((u, False), l)
      | [] \<Rightarrow>
          (case findByEmail tenantId email l of
             Some u \<Rightarrow> ((u, False), l\<lparr>ld_users := snd (ts_update us_tenantId tenantId None (\<lambda>r. us_id r = us_id u)
                          (\<lambda>r. r\<lparr>us_externalIdpId := Some subject\<rparr>) (ld_users l))\<rparr>)
           | None \<Rightarrow>
               (let u = \<lparr>us_id = rq_id rq, us_tenantId = tenantId, us_externalIdpId = Some subject,
                         us_email = (if lb_hooks lib then toLowerCase email else email), us_status = USER_ACTIVE, us_username = None\<rparr>
                in ((u, True), l\<lparr>ld_users := ld_users l @ [u]\<rparr>))))"

definition protocol_name :: "IdentityProviderProtocol \<Rightarrow> string" where
  "protocol_name p = (case p of SAML \<Rightarrow> ''saml'' | OIDC \<Rightarrow> ''oidc'')"

definition sso_code_input :: "PendingSsoRequest \<Rightarrow> uuid \<Rightarrow> string list \<Rightarrow> millis \<Rightarrow> IssueAuthorizationCodeInput" where
  "sso_code_input pending userId amr authTime = \<lparr>cd_in_tenantId = pn_tenantId pending, cd_in_clientId = pn_clientId pending, cd_in_userId = userId,
     cd_in_redirectUri = pn_redirectUri pending, cd_in_codeChallenge = pn_codeChallenge pending, cd_in_scope = pn_scope pending,
     cd_in_nonce = pn_nonce pending, cd_in_authTime = authTime, cd_in_amr = amr\<rparr>"

definition dispatchCallback ::
  "oauth_lib \<Rightarrow> request_ctx \<Rightarrow> (TenantIdentityProvider \<Rightarrow> PendingSsoRequest \<Rightarrow> federation) \<Rightarrow> string option \<Rightarrow>
   (oauth_db, oauth_error, sso_redirect) svc" where
  "dispatchCallback lib rq federate requestId s =
     (if \<not> truthy_str requestId then (Inl SsoRequestExpired, s)
      else case consumePendingRequest rq (the requestId) s of
        (None, s1) \<Rightarrow> (Inl SsoRequestExpired, s1)
      | (Some pending, s1) \<Rightarrow>
          (case find_where (\<lambda>p. ip_id p = pn_providerId pending \<and> ip_tenantId p = pn_tenantId pending) (od_providers s1) of
             None \<Rightarrow> (Inl (IdentityProviderNotFound (pn_providerId pending)), s1)
           | Some provider \<Rightarrow>
               (case federate provider pending of
                  Crashed msg \<Rightarrow> (Inl (FederationFailed msg), s1)
                | Refused msg \<Rightarrow> (Inr (RedirectError (pn_redirectUri pending) msg (pn_originalState pending)), s1)
                | Identity subject email \<Rightarrow>
                    if \<not> truthy_str email
                    then (Inr (RedirectError (pn_redirectUri pending) ''identity provider did not return an email attribute''
                                (pn_originalState pending)), s1)
                    else
                      (case findOrProvisionUser lib rq (pn_tenantId pending) subject (the email) (od_login s1) of
                         ((user, provisioned), l) \<Rightarrow>
                           (case issueCode lib rq (pn_tenantId pending)
                                   (sso_code_input pending (us_id user) [protocol_name (ip_protocol provider)] (rq_now rq)) (s1\<lparr>od_login := l\<rparr>) of
                              (Inl e, s2) \<Rightarrow> (Inl e, s2)
                            | (Inr code, s2) \<Rightarrow>
                                (Inr (RedirectCode (pn_redirectUri pending) code (pn_originalState pending)),
                                 enqueueAudit \<lparr>ae_tenantId = pn_tenantId pending, ae_actorId = Some (us_id user), ae_actorType = ACTOR_USER,
                                   ae_action = ''sso_login.succeeded'', ae_resourceType = ''user'', ae_resourceId = us_id user,
                                   ae_afterState = [(''tenant_identity_provider_id'', JStr (ip_id provider)),
                                     (''protocol'', JStr (protocol_name (ip_protocol provider))), (''provisioned'', JBool provisioned)]\<rparr> s2))))))"

definition dispatchFailure :: "request_ctx \<Rightarrow> string option \<Rightarrow> string \<Rightarrow> (oauth_db, oauth_error, sso_redirect) svc" where
  \<comment> \<open>the provider reported an error instead of an identity\<close>
  "dispatchFailure rq requestId error s =
     (if \<not> truthy_str requestId then (Inl (FederationFailed error), s)
      else case consumePendingRequest rq (the requestId) s of
        (None, s1) \<Rightarrow> (Inl (FederationFailed error), s1)
      | (Some pending, s1) \<Rightarrow> (Inr (RedirectError (pn_redirectUri pending) error (pn_originalState pending)), s1))"

end
