(* ===== verification/OAuth_Guarantees.thy ===== *)
theory OAuth_Guarantees
  imports OAuth_Server
begin

text \<open>
  What the OAuth endpoints guarantee over whole histories. A history is the sequence of requests the server
  has handled, each with the state it met, interleaved with arbitrary changes of everything but the codes and
  refresh tokens (users, passwords, clients, roles, keys, sessions, evictions from the cache). Tokens for
  users are traced back to the login they come from; codes are spent once.
\<close>

section \<open>Histories\<close>

datatype oauth_op =
    OpAuthorize request_ctx "string option" AuthorizeRequest
  | OpToken request_ctx "string option" TokenRequest
  | OpRevoke request_ctx "string option" RevokeRequest
  | OpRegister request_ctx RegisterClientRequest "string option" "string option"
  | OpSsoLogin request_ctx uuid SsoLoginQuery
  | OpSsoCallback request_ctx "TenantIdentityProvider \<Rightarrow> PendingSsoRequest \<Rightarrow> federation" "string option"
  | OpSsoFailure request_ctx "string option" string
  | OpRevokeAll "nat \<Rightarrow> bool" millis uuid uuid string
  | OpElsewhere oauth_db "string \<times> refresh_token \<times> millis \<Rightarrow> bool"

fun oauth_do :: "oauth_lib \<Rightarrow> oauth_op \<Rightarrow> oauth_db \<Rightarrow> token_response option \<times> oauth_db" where
  \<comment> \<open>the answer, where it carries tokens, and the state after the request\<close>
  "oauth_do lib (OpAuthorize rq ip dto) s = (None, snd (authorize lib rq ip dto s))"
| "oauth_do lib (OpToken rq header dto) s =
     (case token_endpoint lib rq header dto s of (Inl _, s') \<Rightarrow> (None, s') | (Inr r, s') \<Rightarrow> (Some r, s'))"
| "oauth_do lib (OpRevoke rq header dto) s = (None, snd (revoke_endpoint lib rq header dto s))"
| "oauth_do lib (OpRegister rq dto tok tenant) s = (None, snd (register_endpoint lib rq dto tok tenant s))"
| "oauth_do lib (OpSsoLogin rq idp q) s = (None, snd (sso_login rq idp q s))"
| "oauth_do lib (OpSsoCallback rq federate req) s = (None, snd (dispatchCallback lib rq federate req s))"
| "oauth_do lib (OpSsoFailure rq req e) s = (None, snd (dispatchFailure rq req e s))"
| "oauth_do lib (OpRevokeAll up now t u reason) s = (None, s\<lparr>od_refresh := revokeAllSessionsForUser up now t u reason (od_refresh s)\<rparr>)"
| "oauth_do lib (OpElsewhere e keep) s =
     (None, e\<lparr>od_codes := od_codes s, od_refresh := (od_refresh s)\<lparr>rt_cache := filter keep (rt_cache (od_refresh s))\<rparr>\<rparr>)"

fun fresh_code :: "oauth_lib \<Rightarrow> oauth_op \<Rightarrow> oauth_db \<Rightarrow> bool" where
  \<comment> \<open>a code drawn at random differs from all before it, also under the hash\<close>
  "fresh_code lib (OpAuthorize rq ip dto) s = (lb_sha256 lib (rq_code rq) \<notin> az_codeHash ` set (od_codes s))"
| "fresh_code lib (OpSsoCallback rq federate req) s = (lb_sha256 lib (rq_code rq) \<notin> az_codeHash ` set (od_codes s))"
| "fresh_code lib _ s = True"

inductive oauth_run :: "oauth_lib \<Rightarrow> (oauth_op \<times> oauth_db \<times> token_response option) list \<Rightarrow> oauth_db \<Rightarrow> bool" for lib where
  run_start: "od_codes s = [] \<Longrightarrow> tokens (od_refresh s) = [] \<Longrightarrow> rt_cache (od_refresh s) = [] \<Longrightarrow> oauth_run lib [] s"
| run_step: "oauth_run lib hist s \<Longrightarrow> fresh_code lib op s \<Longrightarrow> oauth_do lib op s = (r, s') \<Longrightarrow> oauth_run lib (hist @ [(op, s, r)]) s'"

fun issued_by :: "oauth_lib \<Rightarrow> oauth_op \<Rightarrow> oauth_db \<Rightarrow> AuthorizationCode \<Rightarrow> bool" where
  \<comment> \<open>the request logged the user of the code in: by password or passkey, or through an identity provider\<close>
  "issued_by lib (OpAuthorize rq ip dto) s row =
     (\<exists>client userId amr s1. resolveActiveClient (ad_client_id dto) s = Inr client \<and> redirectUriRegistered client (ad_redirect_uri dto) \<and>
        login_user lib rq (oc_tenantId client) dto s = (Inr (userId, amr), s1) \<and>
        row = code_row lib rq (code_input client userId amr (rq_now rq) dto))"
| "issued_by lib (OpSsoCallback rq federate req) s row =
     (\<exists>pending provider subject email user provisioned l s1. consumePendingRequest rq (the req) s = (Some pending, s1) \<and>
        provider \<in> set (od_providers s) \<and> ip_tenantId provider = pn_tenantId pending \<and> federate provider pending = Identity subject (Some email) \<and>
        findOrProvisionUser lib rq (pn_tenantId pending) subject email (od_login s1) = ((user, provisioned), l) \<and>
        row = code_row lib rq (sso_code_input pending (us_id user) [protocol_name (ip_protocol provider)] (rq_now rq)))"
| "issued_by lib _ s row = False"

definition in_history :: "oauth_lib \<Rightarrow> (oauth_op \<times> oauth_db \<times> token_response option) list \<Rightarrow> AuthorizationCode \<Rightarrow> bool" where
  "in_history lib hist row \<longleftrightarrow> (\<exists>(op, s, r)\<in>set hist. issued_by lib op s row)"

fun exchanged :: "oauth_lib \<Rightarrow> oauth_op \<times> oauth_db \<times> token_response option \<Rightarrow> string option" where
  \<comment> \<open>the hash of the code a successful exchange was paid with\<close>
  "exchanged lib (OpToken rq header dto, s, Some r) =
     (if td_grant_type dto = AUTHORIZATION_CODE then Some (lb_sha256 lib (the (td_code dto))) else None)"
| "exchanged lib _ = None"

definition session_of :: "AuthorizationCode \<Rightarrow> refresh_token \<Rightarrow> bool" where
  \<comment> \<open>the token continues the session the code opened\<close>
  "session_of row r \<longleftrightarrow> rt_tenantId r = az_tenantId row \<and> rt_userId r = az_userId row \<and> rt_clientId r = az_clientId row \<and>
     rt_amr r = az_amr row \<and> rt_authTime r = az_authTime row \<and> rt_scope r = az_scope row"

definition refresh_records :: "rt_state \<Rightarrow> refresh_token set" where
  "refresh_records s = set (tokens s) \<union> (\<lambda>e. fst (snd e)) ` set (rt_cache s)"

definition spent :: "string \<Rightarrow> AuthorizationCode list \<Rightarrow> bool" where
  "spent h codes \<longleftrightarrow> (\<exists>c\<in>set codes. az_codeHash c = h \<and> az_consumedAt c \<noteq> None)"

definition oauth_inv :: "oauth_lib \<Rightarrow> (oauth_op \<times> oauth_db \<times> token_response option) list \<Rightarrow> oauth_db \<Rightarrow> bool" where
  "oauth_inv lib hist s \<longleftrightarrow> distinct (map az_codeHash (od_codes s)) \<and>
     (\<forall>c\<in>set (od_codes s). in_history lib hist (c\<lparr>az_consumedAt := None\<rparr>)) \<and>
     (\<forall>e\<in>set hist. \<forall>h. exchanged lib e = Some h \<longrightarrow> spent h (od_codes s)) \<and>
     (\<forall>r\<in>refresh_records (od_refresh s). \<exists>row. in_history lib hist row \<and> session_of row r)"

lemma in_history_mono: "in_history lib hist row \<Longrightarrow> in_history lib (hist @ [e]) row"
  by (auto simp: in_history_def)

section \<open>Refresh tokens keep their session\<close>

lemma rt_lookup_records: "rt_lookup up t h now s = Some r \<Longrightarrow> r \<in> refresh_records s"
  by (auto simp: rt_lookup_def rt_redis_get_def findByTokenHash_def refresh_records_def split: option.splits if_splits dest!: find_where_SomeD)
    force

lemma records_del: "refresh_records (rt_redis_del up h s) \<subseteq> refresh_records s"
  by (auto simp: refresh_records_def rt_redis_del_def set_delete_where)

lemma records_put: "refresh_records (rt_cache_put up rec h now s) \<subseteq> insert rec (refresh_records s)"
  by (auto simp: refresh_records_def rt_cache_put_def rt_redis_set_def set_delete_where)

definition same_login :: "refresh_token \<Rightarrow> refresh_token \<Rightarrow> bool" where
  "same_login r r' \<longleftrightarrow> rt_tenantId r' = rt_tenantId r \<and> rt_userId r' = rt_userId r \<and> rt_clientId r' = rt_clientId r \<and>
     rt_amr r' = rt_amr r \<and> rt_authTime r' = rt_authTime r \<and> rt_scope r' = rt_scope r"

lemma same_login_refl [simp]: "same_login r r"
  by (simp add: same_login_def)

lemma same_login_trans: "same_login a b \<Longrightarrow> same_login b c \<Longrightarrow> same_login a c"
  by (simp add: same_login_def)

lemma session_of_same_login: "session_of row r \<Longrightarrow> same_login r r' \<Longrightarrow> session_of row r'"
  by (simp add: session_of_def same_login_def)

definition keeps_session :: "rt_state \<Rightarrow> rt_state \<Rightarrow> bool" where
  \<comment> \<open>every record of the second state continues the session of a record of the first\<close>
  "keeps_session s s' \<longleftrightarrow> (\<forall>r'\<in>refresh_records s'. \<exists>r\<in>refresh_records s. same_login r r')"

lemma keeps_session_subset: "refresh_records s' \<subseteq> refresh_records s \<Longrightarrow> keeps_session s s'"
  unfolding keeps_session_def by (blast intro: same_login_refl)

lemma keeps_session_insert:
  "refresh_records s' \<subseteq> insert x (refresh_records s) \<Longrightarrow> cur \<in> refresh_records s \<Longrightarrow> same_login cur x \<Longrightarrow> keeps_session s s'"
  unfolding keeps_session_def by (blast intro: same_login_refl)

lemma keeps_session_trans: "keeps_session s s' \<Longrightarrow> keeps_session s' s'' \<Longrightarrow> keeps_session s s''"
  unfolding keeps_session_def by (meson same_login_trans)

lemma keeps_session_update:
  assumes "\<And>r. same_login r (f r)"
  shows "keeps_session s (s\<lparr>tokens := update_where P f (tokens s)\<rparr>)"
proof -
  have "\<exists>r\<in>refresh_records s. same_login r r'" if "r' \<in> set (update_where P f (tokens s))" for r'
  proof -
    obtain r where "r \<in> set (tokens s)" "r' = (if P r then f r else r)" using \<open>r' \<in> _\<close> by (auto simp: set_update_where)
    with assms show ?thesis by (intro bexI[of _ r]) (auto simp: refresh_records_def)
  qed
  moreover have "\<exists>r\<in>refresh_records s. same_login r r'" if "r' \<in> (\<lambda>e. fst (snd e)) ` set (rt_cache s)" for r'
    using that by (intro bexI[of _ r']) (simp_all add: refresh_records_def)
  ultimately show ?thesis
    unfolding keeps_session_def refresh_records_def[of "s\<lparr>tokens := update_where P f (tokens s)\<rparr>"] by (simp add: ball_Un del: image_iff)
qed

lemma revokeFamily_keeps: "keeps_session s (revokeFamily t now fam reason s)"
  unfolding revokeFamily_def by (rule keeps_session_update) (simp add: same_login_def)

lemma repo_rotate_keeps:
  assumes "repo_rotate t i next s = (x, s')" "cur \<in> refresh_records s" "same_login cur next"
  shows "keeps_session s s'"
proof -
  let ?ins = "next\<lparr>rt_status := RT_ACTIVE, rt_replacedById := None, rt_revokedAt := None, rt_revokedReason := None\<rparr>"
  let ?f = "\<lambda>r. r\<lparr>rt_status := RT_ROTATED, rt_replacedById := Some (rt_id ?ins)\<rparr>"
  have ins: "same_login cur ?ins" using assms(3) by (simp add: same_login_def)
  have "keeps_session s (s\<lparr>tokens := tokens s @ [?ins]\<rparr>)"
    by (rule keeps_session_insert[OF _ assms(2) ins]) (auto simp: refresh_records_def)
  moreover have "keeps_session (s\<lparr>tokens := tokens s @ [?ins]\<rparr>) s'"
    using keeps_session_update[of ?f "s\<lparr>tokens := tokens s @ [?ins]\<rparr>"] assms(1)
    by (auto simp: repo_rotate_def Let_def same_login_def split: if_splits)
  ultimately show ?thesis by (rule keeps_session_trans)
qed

lemma rotate_result:
  assumes "rotate hash up now t raw newId presented s = (x, s')"
  shows "keeps_session s s' \<and> (\<forall>raw' rec. x = Inr (raw', rec) \<longrightarrow> (\<exists>r\<in>refresh_records s. same_login r rec))"
proof (cases "rt_lookup (up 0) t (hash presented) now s")
  case None
  then show ?thesis using assms by (auto simp: rotate_def Let_def intro: keeps_session_subset)
next
  case (Some cur)
  note cur = rt_lookup_records[OF Some]
  show ?thesis
  proof (cases "rt_tenantId cur \<noteq> t \<or> rt_expiresAt cur < now \<or> rt_status cur \<noteq> RT_ACTIVE")
    case True
    have "keeps_session s (rt_redis_del (up 1) (hash presented) (revokeFamily t now (rt_familyId cur) ''reuse_detected'' s))"
      by (rule keeps_session_trans[OF revokeFamily_keeps keeps_session_subset[OF records_del]])
    with True show ?thesis using assms Some by (auto simp: rotate_def Let_def intro: keeps_session_subset split: if_splits)
  next
    case False
    obtain y s1 where rr: "repo_rotate t (rt_id cur) (next_generation newId (hash raw) now cur) s = (y, s1)" by fastforce
    have k1: "keeps_session s s1"
      by (rule repo_rotate_keeps[OF rr cur]) (simp add: same_login_def next_generation_def)
    have k2: "keeps_session s (rt_redis_del (up 1) (hash presented) s1)"
      by (rule keeps_session_trans[OF k1 keeps_session_subset[OF records_del]])
    show ?thesis
    proof (cases y)
      case None
      then have "x = Inl RefreshTokenReused"
          "s' = revokeFamily t now (rt_familyId cur) ''concurrent_rotation_conflict'' (rt_redis_del (up 1) (hash presented) s1)"
        using assms Some False rr by (auto simp: rotate_def Let_def)
      then show ?thesis using keeps_session_trans[OF k2 revokeFamily_keeps] by simp
    next
      case y: (Some rec)
      then have x: "x = Inr (raw, rec)" and s': "s' = rt_cache_put (up 2) rec (hash raw) now (rt_redis_del (up 1) (hash presented) s1)"
        using assms Some False rr by (auto simp: rotate_def Let_def)
      have rec: "same_login cur rec"
        using rr y by (auto simp: repo_rotate_def Let_def same_login_def next_generation_def split: if_splits)
      have "refresh_records s' \<subseteq> insert rec (refresh_records (rt_redis_del (up 1) (hash presented) s1))"
        unfolding s' by (rule records_put)
      then have "\<exists>r\<in>refresh_records s. same_login r r'" if "r' \<in> refresh_records s'" for r'
        using that k2 rec cur unfolding keeps_session_def by auto
      then have "keeps_session s s'" by (simp add: keeps_session_def)
      with x rec cur show ?thesis by blast
    qed
  qed
qed

lemma revokeByRawToken_keeps: "keeps_session s (revokeByRawToken hash up now t raw reason s)"
  unfolding revokeByRawToken_def
  by (auto split: option.split intro: keeps_session_subset keeps_session_trans[OF revokeFamily_keeps keeps_session_subset[OF records_del]])

lemma revokeAll_keeps: "keeps_session s (revokeAllSessionsForUser up now t u reason s)"
proof -
  have del: "keeps_session s0 (foldl (\<lambda>s (i, h). rt_redis_del (up i) h s) s0 xs)" for s0 xs
  proof (induction xs arbitrary: s0)
    case (Cons x xs)
    then show ?case by (cases x) (auto intro: keeps_session_trans[OF keeps_session_subset[OF records_del]])
  qed (simp add: keeps_session_subset)
  let ?s1 = "snd (revokeAllForUser t now u reason s)"
  have "keeps_session s ?s1"
    unfolding revokeAllForUser_def Let_def snd_conv by (rule keeps_session_update) (simp add: same_login_def)
  from keeps_session_trans[OF this del] show ?thesis
    by (simp add: revokeAllSessionsForUser_def split_beta)
qed

lemma issue_records:
  assumes "issue hash up now t raw newId fam inp s = (x, s')" "ii_tenantId inp = t"
  shows "refresh_records s' \<subseteq> refresh_records s \<union> {r. rt_tenantId r = t \<and> rt_userId r = ii_userId inp \<and> rt_clientId r = ii_clientId inp \<and>
     rt_amr r = ii_amr inp \<and> rt_authTime r = ii_authTime inp \<and> rt_scope r = ii_scope inp}"
proof -
  define row where "row = \<lparr>rt_id = newId, rt_tenantId = t, rt_familyId = fam, rt_generation = 1,
              rt_userId = ii_userId inp, rt_clientId = ii_clientId inp, rt_tokenHash = hash raw,
              rt_status = RT_ACTIVE, rt_amr = ii_amr inp, rt_authTime = ii_authTime inp, rt_scope = ii_scope inp,
              rt_replacedById = None, rt_revokedAt = None, rt_revokedReason = None,
              rt_expiresAt = expiryFromNow now, rt_createdAt = now\<rparr>"
  have "s' = rt_cache_put up row (hash raw) now (s\<lparr>tokens := tokens s @ [row]\<rparr>)"
    using assms by (simp add: issue_def createFamily_ok Let_def row_def)
  then have "refresh_records s' \<subseteq> insert row (refresh_records (s\<lparr>tokens := tokens s @ [row]\<rparr>))" using records_put by simp
  also have "\<dots> \<subseteq> insert row (refresh_records s)" by (auto simp: refresh_records_def)
  finally show ?thesis by (auto simp: row_def)
qed

section \<open>What each request does to the codes\<close>

lemma getContext_frame [simp]:
  "od_codes (snd (getContext up now t u s)) = od_codes s" "od_refresh (snd (getContext up now t u s)) = od_refresh s"
  "od_keys (snd (getContext up now t u s)) = od_keys s"
  by (simp_all add: getContext_def Let_def split: option.split)

lemma sessionTtl_frame [simp]:
  "od_codes (snd (sessionTtlSeconds t s)) = od_codes s" "od_refresh (snd (sessionTtlSeconds t s)) = od_refresh s"
  "od_keys (snd (sessionTtlSeconds t s)) = od_keys s"
  by (simp_all add: sessionTtlSeconds_def split: prod.split)

lemma enqueueAudit_frame [simp]:
  "od_codes (enqueueAudit e s) = od_codes s" "od_refresh (enqueueAudit e s) = od_refresh s" "od_keys (enqueueAudit e s) = od_keys s"
  by (simp_all add: enqueueAudit_def)

lemma user_access_token_frame:
  assumes "user_access_token lib rq up client u amr at' s = (x, s')"
  shows "od_codes s' = od_codes s \<and> od_refresh s' = od_refresh s \<and> od_keys s' = od_keys s"
proof -
  obtain cx s1 ttl s2 where c: "getContext up (rq_now rq) (oc_tenantId client) u s = (cx, s1)" "sessionTtlSeconds (oc_tenantId client) s1 = (ttl, s2)"
    by fastforce
  have "od_codes s2 = od_codes s" "od_refresh s2 = od_refresh s" "od_keys s2 = od_keys s"
    using c getContext_frame[of up "rq_now rq" "oc_tenantId client" u s] sessionTtl_frame[of "oc_tenantId client" s1] by simp_all
  with assms c show ?thesis by (auto simp: user_access_token_def split: sum.splits)
qed

lemma user_access_tokenD:
  assumes "user_access_token lib rq up client u amr at' s = (Inr (token, claims, ttl), s')"
  obtains cx where "issueAccessToken (lb_jose lib) (lb_cfg lib) (rq_now rq) (rq_jti rq) (user_token_input client u amr at' cx ttl) (od_keys s) = Inr (token, claims)"
proof -
  obtain cx s1 ttl' s2 where c: "getContext up (rq_now rq) (oc_tenantId client) u s = (cx, s1)" "sessionTtlSeconds (oc_tenantId client) s1 = (ttl', s2)"
    by fastforce
  have "od_keys s2 = od_keys s"
    using c getContext_frame(3)[of up "rq_now rq" "oc_tenantId client" u s] sessionTtl_frame(3)[of "oc_tenantId client" s1] by simp
  with assms c show thesis using that by (auto simp: user_access_token_def split: sum.splits)
qed

lemma login_user_frame:
  assumes "login_user lib rq t dto s = (x, s1)"
  shows "od_codes s1 = od_codes s \<and> od_refresh s1 = od_refresh s"
  using assms by (auto simp: login_user_def consumeSession_def split: if_splits sum.splits option.splits prod.splits)

lemma issueCode_fresh:
  assumes "cd_in_tenantId inp = t" "lb_sha256 lib (rq_code rq) \<notin> az_codeHash ` set (od_codes s)"
  shows "issueCode lib rq t inp s = (Inr (rq_code rq), s\<lparr>od_codes := od_codes s @ [code_row lib rq inp]\<rparr>)"
proof -
  have f: "az_codeHash (code_row lib rq inp) = lb_sha256 lib (rq_code rq)" "az_tenantId (code_row lib rq inp) = t"
      "(code_row lib rq inp)\<lparr>az_tenantId := t\<rparr> = code_row lib rq inp"
    using assms(1) by (simp_all add: code_row_def)
  have "ts_findOne az_tenantId t (\<lambda>r. az_codeHash r = lb_sha256 lib (rq_code rq)) (od_codes s) = None"
    using assms(2) unfolding ts_findOne_def find_where_None by (metis image_eqI)
  then show ?thesis using assms(2) by (simp add: issueCode_def ts_save_def f Let_def)
qed

definition issues_code :: "oauth_lib \<Rightarrow> oauth_op \<Rightarrow> oauth_db \<Rightarrow> oauth_db \<Rightarrow> bool" where
  \<comment> \<open>a login: no refresh token is touched, and the table of codes stays or gains the code of this login\<close>
  "issues_code lib op s s' \<longleftrightarrow> od_refresh s' = od_refresh s \<and>
     (od_codes s' = od_codes s \<or> (\<exists>row. od_codes s' = od_codes s @ [row] \<and> issued_by lib op s row))"

lemma issues_code_same: "od_refresh s' = od_refresh s \<Longrightarrow> od_codes s' = od_codes s \<Longrightarrow> issues_code lib op s s'"
  by (simp add: issues_code_def)

lemma issues_code_row:
  "issued_by lib op s row \<Longrightarrow> od_codes s' = od_codes s @ [row] \<Longrightarrow> od_refresh s' = od_refresh s \<Longrightarrow> issues_code lib op s s'"
  by (auto simp: issues_code_def simp del: issued_by.simps)

lemma authorize_effect:
  assumes "authorize lib rq ip dto s = (x, s')" "fresh_code lib (OpAuthorize rq ip dto) s"
  shows "issues_code lib (OpAuthorize rq ip dto) s s'"
proof (cases "resolveActiveClient (ad_client_id dto) s")
  case (Inl e)
  then show ?thesis using assms(1) by (simp add: authorize_def issues_code_same)
next
  case (Inr client)
  obtain y s1 where l: "login_user lib rq (oc_tenantId client) dto s = (y, s1)" by fastforce
  note fr = login_user_frame[OF l]
  show ?thesis
  proof (cases y)
    case Inl': (Inl e)
    then show ?thesis using assms(1) Inr l fr by (auto simp: authorize_def issues_code_def split: if_splits sum.splits)
  next
    case Inr': (Inr p)
    obtain u amr where p: "p = (u, amr)" by (cases p)
    let ?inp = "code_input client u amr (rq_now rq) dto"
    have i: "issueCode lib rq (oc_tenantId client) ?inp s1 = (Inr (rq_code rq), s1\<lparr>od_codes := od_codes s1 @ [code_row lib rq ?inp]\<rparr>)"
      by (rule issueCode_fresh) (use assms(2) fr in \<open>simp_all add: code_input_def\<close>)
    have "redirectUriRegistered client (ad_redirect_uri dto) \<Longrightarrow> issued_by lib (OpAuthorize rq ip dto) s (code_row lib rq ?inp)"
      using Inr l Inr' p by auto
    then show ?thesis using assms(1) Inr l Inr' p i fr
      by (auto simp: authorize_def issues_code_def split: if_splits sum.splits)
  qed
qed

lemma consumePending_frame:
  assumes "consumePendingRequest rq i s = (x, s1)"
  shows "od_codes s1 = od_codes s" "od_refresh s1 = od_refresh s" "od_providers s1 = od_providers s"
  using assms by (auto simp: consumePendingRequest_def split: option.splits)

lemma sso_callback_effect:
  assumes "dispatchCallback lib rq federate req s = (x, s')" "fresh_code lib (OpSsoCallback rq federate req) s"
  shows "issues_code lib (OpSsoCallback rq federate req) s s'"
proof (cases "truthy_str req")
  case False
  then show ?thesis using assms(1) by (simp add: dispatchCallback_def issues_code_same)
next
  case True
  obtain y s1 where c: "consumePendingRequest rq (the req) s = (y, s1)" by fastforce
  note fr = consumePending_frame[OF c]
  show ?thesis
  proof (cases y)
    case None
    then show ?thesis using assms(1) True c fr by (simp add: dispatchCallback_def issues_code_same)
  next
    case (Some pending)
    let ?P = "\<lambda>p. ip_id p = pn_providerId pending \<and> ip_tenantId p = pn_tenantId pending"
    show ?thesis
    proof (cases "find_where ?P (od_providers s1)")
      case None
      then show ?thesis using assms(1) True c Some fr by (simp add: dispatchCallback_def issues_code_same)
    next
      case prov: (Some provider)
      then have pr: "provider \<in> set (od_providers s)" "ip_tenantId provider = pn_tenantId pending"
        using find_where_SomeD[OF prov] fr(3) by simp_all
      note run = assms(1)[unfolded dispatchCallback_def] True c Some prov
      show ?thesis
      proof (cases "federate provider pending")
        case (Identity subject email)
        show ?thesis
        proof (cases "truthy_str email")
          case False
          then show ?thesis using run Identity fr by (auto simp: issues_code_same)
        next
          case email: True
          then obtain em where em: "email = Some em" by (cases email) auto
          obtain user pv l where f: "findOrProvisionUser lib rq (pn_tenantId pending) subject em (od_login s1) = ((user, pv), l)"
            by (metis surj_pair)
          let ?inp = "sso_code_input pending (us_id user) [protocol_name (ip_protocol provider)] (rq_now rq)"
          have i: "issueCode lib rq (pn_tenantId pending) ?inp (s1\<lparr>od_login := l\<rparr>) =
              (Inr (rq_code rq), s1\<lparr>od_login := l, od_codes := od_codes s1 @ [code_row lib rq ?inp]\<rparr>)"
            using issueCode_fresh[of ?inp "pn_tenantId pending" lib rq "s1\<lparr>od_login := l\<rparr>"] assms(2) fr by (simp add: sso_code_input_def)
          have "issued_by lib (OpSsoCallback rq federate req) s (code_row lib rq ?inp)"
            using c Some pr Identity em f by auto
          then show ?thesis by (rule issues_code_row) (use run Identity email em f i fr in \<open>auto simp: enqueueAudit_def\<close>)
        qed
      qed (use run fr in \<open>auto simp: issues_code_same\<close>)
    qed
  qed
qed

subsection \<open>Exchanging a code\<close>

lemma repo_consume_rows:
  assumes "repo_consume t now h codes = (f, rows)"
  shows "map az_codeHash rows = map az_codeHash codes"
    and "c' \<in> set rows \<Longrightarrow> \<exists>c\<in>set codes. c'\<lparr>az_consumedAt := None\<rparr> = c\<lparr>az_consumedAt := None\<rparr>"
    and "spent h' codes \<Longrightarrow> spent h' rows"
proof -
  let ?hit = "\<lambda>c. az_codeHash c = h \<and> az_tenantId c = t \<and> az_consumedAt c = None \<and> now < az_expiresAt c"
  have rows: "rows = update_where ?hit (\<lambda>c. c\<lparr>az_consumedAt := Some now\<rparr>) codes"
    using assms by (auto simp: repo_consume_def Let_def split: if_splits)
  show "map az_codeHash rows = map az_codeHash codes" unfolding rows by (rule map_update_where) simp
  show "\<exists>c\<in>set codes. c'\<lparr>az_consumedAt := None\<rparr> = c\<lparr>az_consumedAt := None\<rparr>" if "c' \<in> set rows"
    using that unfolding rows set_update_where by force
  show "spent h' rows" if sp: "spent h' codes"
  proof -
    obtain c where c: "c \<in> set codes" "az_codeHash c = h'" "az_consumedAt c \<noteq> None" using sp unfolding spent_def by blast
    have "c \<in> set rows" unfolding rows using update_where_mem[OF c(1), of ?hit "\<lambda>c. c\<lparr>az_consumedAt := Some now\<rparr>"] c(3) by simp
    then show ?thesis using c by (auto simp: spent_def)
  qed
qed

lemma repo_consumeD:
  assumes "repo_consume t now h codes = (Some rec, rows)" "distinct (map az_codeHash codes)"
  obtains c where "c \<in> set codes" "rec = c\<lparr>az_consumedAt := Some now\<rparr>" "rec \<in> set rows" "az_codeHash c = h" "az_tenantId c = t"
    "az_consumedAt c = None" "now < az_expiresAt c"
proof -
  let ?hit = "\<lambda>c. az_codeHash c = h \<and> az_tenantId c = t \<and> az_consumedAt c = None \<and> now < az_expiresAt c"
  have rows: "rows = update_where ?hit (\<lambda>c. c\<lparr>az_consumedAt := Some now\<rparr>) codes"
    and rec: "find_where (\<lambda>c. az_codeHash c = h \<and> az_tenantId c = t) rows = Some rec" and "filter ?hit codes \<noteq> []"
    using assms(1) by (auto simp: repo_consume_def Let_def split: if_splits)
  then obtain c where c: "c \<in> set codes" "?hit c" by (auto simp: filter_empty_conv)
  have in_rows: "c\<lparr>az_consumedAt := Some now\<rparr> \<in> set rows"
    unfolding rows using update_where_mem[OF c(1), of ?hit "\<lambda>c. c\<lparr>az_consumedAt := Some now\<rparr>"] c(2) by simp
  have "map az_codeHash rows = map az_codeHash codes" using repo_consume_rows(1)[OF assms(1)] .
  then have "find_where (\<lambda>c. az_codeHash c = h \<and> az_tenantId c = t) rows = Some (c\<lparr>az_consumedAt := Some now\<rparr>)"
    using in_rows c assms(2) by (intro find_where_unique[where k = az_codeHash]) simp_all
  with rec have "rec = c\<lparr>az_consumedAt := Some now\<rparr>" by simp
  with c in_rows show thesis using that[of c] by simp
qed

lemma pkce_verify_Inr: "pkce_verify lib v ch = Inr u \<longleftrightarrow> validVerifierFormat v \<and> lb_challenge lib v = ch"
  by (simp add: pkce_verify_def)

definition family_input :: "OAuthClient \<Rightarrow> AuthorizationCode \<Rightarrow> issue_input" where
  "family_input client rec = \<lparr>ii_tenantId = oc_tenantId client, ii_userId = az_userId rec, ii_clientId = oc_id client,
     ii_amr = az_amr rec, ii_authTime = az_authTime rec, ii_scope = az_scope rec\<rparr>"

text \<open>A code request either fails before the table is touched, or fails after the code is consumed, or opens a family.\<close>

lemma code_grant_cases:
  assumes "handleAuthorizationCodeGrant lib rq dto creds s = (x, s')"
  obtains (early) "isl x" "s' = s"
  | (consumed) client f where "authenticateClient lib (fst creds) (snd creds) s = Inr client" "isl x" "od_refresh s' = od_refresh s"
      "repo_consume (oc_tenantId client) (rq_now rq) (lb_sha256 lib (the (td_code dto))) (od_codes s) = (f, od_codes s')"
  | (opened) client rec accessToken claims ttl s1 s2 y where "authenticateClient lib (fst creds) (snd creds) s = Inr client"
      "repo_consume (oc_tenantId client) (rq_now rq) (lb_sha256 lib (the (td_code dto))) (od_codes s) = (Some rec, od_codes s')"
      "az_clientId rec = oc_id client" "az_redirectUri rec = the (td_redirect_uri dto)"
      "validVerifierFormat (the (td_code_verifier dto))" "lb_challenge lib (the (td_code_verifier dto)) = az_codeChallenge rec"
      "user_access_token lib rq (rq_up rq) client (az_userId rec) (az_amr rec) (az_authTime rec) s1 = (Inr (accessToken, claims, ttl), s2)"
      "od_keys s1 = od_keys s"
      "issue (lb_sha256 lib) (rq_up rq 2) (rq_now rq) (oc_tenantId client) (rq_raw rq) (rq_id rq) (rq_family rq) (family_input client rec)
         (od_refresh s) = (y, od_refresh s')"
      "\<And>r. x = Inr r \<Longrightarrow> tr_access_token r = accessToken \<and> tr_scope r = az_scope rec"
proof (cases "\<exists>client. authenticateClient lib (fst creds) (snd creds) s = Inr client \<and> grantTypeAllowed client AUTHORIZATION_CODE \<and>
    truthy_str (td_code dto) \<and> truthy_str (td_redirect_uri dto) \<and> truthy_str (td_code_verifier dto) \<and> fst creds \<noteq> []")
  case False
  then have "isl x \<and> s' = s" using assms by (auto simp: handleAuthorizationCodeGrant_def split: if_splits sum.splits)
  with early show thesis by simp
next
  case True
  then obtain client where cl: "authenticateClient lib (fst creds) (snd creds) s = Inr client" "grantTypeAllowed client AUTHORIZATION_CODE"
      "truthy_str (td_code dto)" "truthy_str (td_redirect_uri dto)" "truthy_str (td_code_verifier dto)" "fst creds \<noteq> []" by blast
  note run = assms[unfolded handleAuthorizationCodeGrant_def, simplified cl, simplified]
  obtain f rows where rc: "repo_consume (oc_tenantId client) (rq_now rq) (lb_sha256 lib (the (td_code dto))) (od_codes s) = (f, rows)" by fastforce
  let ?s1 = "s\<lparr>od_codes := rows\<rparr>"
  show thesis
  proof (cases "\<exists>rec. f = Some rec \<and> az_clientId rec = oc_id client \<and> az_redirectUri rec = the (td_redirect_uri dto) \<and>
      pkce_verify lib (the (td_code_verifier dto)) (az_codeChallenge rec) = Inr ()")
    case False
    then have "isl x \<and> s' = ?s1" using run rc cl(2)
      by (auto simp: consumeCode_def Let_def split: option.splits if_splits sum.splits)
    with consumed[OF cl(1)] rc show thesis by simp
  next
    case True
    then obtain rec where rec: "f = Some rec" "az_clientId rec = oc_id client" "az_redirectUri rec = the (td_redirect_uri dto)"
        "pkce_verify lib (the (td_code_verifier dto)) (az_codeChallenge rec) = Inr ()" by blast
    have cc: "consumeCode lib rq (oc_tenantId client) (the (td_code dto)) (oc_id client) (the (td_redirect_uri dto)) s = (Inr rec, ?s1)"
      using rc rec by (simp add: consumeCode_def Let_def)
    obtain z s2 where ua: "user_access_token lib rq (rq_up rq) client (az_userId rec) (az_amr rec) (az_authTime rec) ?s1 = (z, s2)" by fastforce
    have fr: "od_codes s2 = rows" "od_refresh s2 = od_refresh s" "od_keys s2 = od_keys s" using user_access_token_frame[OF ua] by simp_all
    show thesis
    proof (cases z)
      case (Inl e)
      then have "isl x" "s' = s2" using run cl(2) cc rec(4) ua by auto
      with consumed[OF cl(1), of f] rc fr show thesis by simp
    next
      case (Inr p)
      obtain tok claims ttl where p: "p = (tok, claims, ttl)" by (cases p)
      obtain y r where iss: "issue (lb_sha256 lib) (rq_up rq 2) (rq_now rq) (oc_tenantId client) (rq_raw rq) (rq_id rq) (rq_family rq)
          (family_input client rec) (od_refresh s) = (y, r)" by fastforce
      have out: "od_codes s' = rows" "od_refresh s' = r" "\<And>q. x = Inr q \<Longrightarrow> tr_access_token q = tok \<and> tr_scope q = az_scope rec"
        using run cl(2) cc rec(4) ua Inr p fr iss[unfolded family_input_def]
        by (auto simp: Let_def split: sum.splits option.splits if_splits)
      show thesis
        by (rule opened[OF cl(1) rc[unfolded rec(1) out(1)[symmetric]] rec(2,3) _ _ ua[unfolded Inr p] _ iss[unfolded out(2)[symmetric]] out(3)])
          (use rec(4) in \<open>simp_all add: pkce_verify_Inr\<close>)
    qed
  qed
qed

subsection \<open>The other grants and requests\<close>

lemma refresh_grant_cases:
  assumes "handleRefreshTokenGrant lib rq dto creds s = (x, s')"
  obtains (early) "isl x" "s' = s"
  | (rotated) client y where "authenticateClient lib (fst creds) (snd creds) s = Inr client" "od_codes s' = od_codes s"
      "rotate (lb_sha256 lib) (rq_up rq) (rq_now rq) (oc_tenantId client) (rq_raw rq) (rq_id rq) (the (td_refresh_token dto)) (od_refresh s)
         = (y, od_refresh s')"
      "\<And>r. x = Inr r \<Longrightarrow> \<exists>raw rec cx claims. y = Inr (raw, rec) \<and> rt_clientId rec = oc_id client \<and> tr_scope r = rt_scope rec \<and>
         issueAccessToken (lb_jose lib) (lb_cfg lib) (rq_now rq) (rq_jti rq)
           (user_token_input client (rt_userId rec) (rt_amr rec) (rt_authTime rec) cx (tr_expires_in r)) (od_keys s) = Inr (tr_access_token r, claims)"
proof (cases "\<exists>client. authenticateClient lib (fst creds) (snd creds) s = Inr client \<and> grantTypeAllowed client REFRESH_TOKEN \<and>
    truthy_str (td_refresh_token dto) \<and> fst creds \<noteq> []")
  case False
  then have "isl x \<and> s' = s" using assms by (auto simp: handleRefreshTokenGrant_def split: if_splits sum.splits)
  with early show thesis by simp
next
  case True
  then obtain client where cl: "authenticateClient lib (fst creds) (snd creds) s = Inr client" "grantTypeAllowed client REFRESH_TOKEN"
      "truthy_str (td_refresh_token dto)" "fst creds \<noteq> []" by blast
  obtain y r where ro: "rotate (lb_sha256 lib) (rq_up rq) (rq_now rq) (oc_tenantId client) (rq_raw rq) (rq_id rq)
      (the (td_refresh_token dto)) (od_refresh s) = (y, r)" by fastforce
  note run = assms[unfolded handleRefreshTokenGrant_def, simplified cl, simplified] cl(2) ro
  show thesis
  proof (cases "\<exists>raw rec. y = Inr (raw, rec) \<and> rt_clientId rec = oc_id client")
    case False
    then have "isl x \<and> s' = s\<lparr>od_refresh := r\<rparr>" using run by (auto simp: Let_def split: sum.splits if_splits)
    then have "isl x" "od_codes s' = od_codes s" "od_refresh s' = r" by simp_all
    then show thesis by (intro rotated[OF cl(1), of y]) (use ro in auto)
  next
    case True
    then obtain raw rec where y: "y = Inr (raw, rec)" "rt_clientId rec = oc_id client" by blast
    obtain z s2 where ua: "user_access_token lib rq (\<lambda>n. rq_up rq (n + 3)) client (rt_userId rec) (rt_amr rec) (rt_authTime rec)
        (s\<lparr>od_refresh := r\<rparr>) = (z, s2)" by fastforce
    note fr = user_access_token_frame[OF ua]
    have out: "od_codes s' = od_codes s" "od_refresh s' = r" using run y ua fr by (auto simp: Let_def split: sum.splits prod.splits)
    show thesis
    proof (rule rotated[OF cl(1) out(1) ro[unfolded out(2)[symmetric]]])
      fix q assume "x = Inr q"
      then obtain claims where z: "z = Inr (tr_access_token q, claims, tr_expires_in q)" "tr_scope q = rt_scope rec"
        using run y ua by (auto simp: Let_def split: sum.splits prod.splits)
      show "\<exists>raw rec cx claims. y = Inr (raw, rec) \<and> rt_clientId rec = oc_id client \<and> tr_scope q = rt_scope rec \<and>
         issueAccessToken (lb_jose lib) (lb_cfg lib) (rq_now rq) (rq_jti rq)
           (user_token_input client (rt_userId rec) (rt_amr rec) (rt_authTime rec) cx (tr_expires_in q)) (od_keys s) = Inr (tr_access_token q, claims)"
        using user_access_tokenD[OF ua[unfolded z(1)]] y z(2) by fastforce
    qed
  qed
qed

lemma client_credentials_frame:
  assumes "handleClientCredentialsGrant lib rq dto creds s = (x, s')"
  shows "od_codes s' = od_codes s \<and> od_refresh s' = od_refresh s"
  using assms by (auto simp: handleClientCredentialsGrant_def split: if_splits sum.splits)

definition neutral :: "oauth_db \<Rightarrow> oauth_db \<Rightarrow> bool" where
  "neutral s s' \<longleftrightarrow> od_codes s' = od_codes s \<and> keeps_session (od_refresh s) (od_refresh s')"

lemma neutral_same: "od_codes s' = od_codes s \<Longrightarrow> od_refresh s' = od_refresh s \<Longrightarrow> neutral s s'"
  by (simp add: neutral_def keeps_session_subset)

lemma revoke_neutral: "neutral s (snd (revoke_endpoint lib rq header dto s))"
  by (auto simp: revoke_endpoint_def Let_def neutral_def revokeByRawToken_keeps keeps_session_subset split: sum.split)

lemma register_neutral: "neutral s (snd (register_endpoint lib rq dto tok tenant s))"
  by (rule neutral_same) (auto simp: register_endpoint_def createClient_def Let_def)

lemma sso_login_neutral: "neutral s (snd (sso_login rq idp q s))"
  by (rule neutral_same) (auto simp: sso_login_def split: option.split sum.split)

lemma sso_failure_neutral: "neutral s (snd (dispatchFailure rq req e s))"
  by (rule neutral_same) (auto simp: dispatchFailure_def consumePendingRequest_def split: option.split)

section \<open>The invariant\<close>

lemma oauth_inv_neutral:
  assumes "oauth_inv lib hist s" "neutral s s'" "exchanged lib (op, s, r) = None"
  shows "oauth_inv lib (hist @ [(op, s, r)]) s'"
  unfolding oauth_inv_def
proof (intro conjI ballI)
  fix r' assume "r' \<in> refresh_records (od_refresh s')"
  then obtain q where "q \<in> refresh_records (od_refresh s)" "same_login q r'" using assms(2) by (auto simp: neutral_def keeps_session_def)
  then show "\<exists>row. in_history lib (hist @ [(op, s, r)]) row \<and> session_of row r'"
    using assms(1) unfolding oauth_inv_def by (meson in_history_mono session_of_same_login)
qed (use assms in \<open>auto simp: oauth_inv_def neutral_def intro: in_history_mono\<close>)

lemma oauth_inv_login:
  assumes "oauth_inv lib hist s" "issues_code lib op s s'" "exchanged lib (op, s, r) = None"
    and "\<And>row. issued_by lib op s row \<Longrightarrow> az_codeHash row \<notin> az_codeHash ` set (od_codes s) \<and> az_consumedAt row = None"
  shows "oauth_inv lib (hist @ [(op, s, r)]) s'"
proof (cases "od_codes s' = od_codes s")
  case True
  then have "neutral s s'" using assms(2) by (simp add: issues_code_def neutral_same)
  then show ?thesis by (rule oauth_inv_neutral[OF assms(1) _ assms(3)])
next
  case False
  then obtain row where row: "od_codes s' = od_codes s @ [row]" "issued_by lib op s row" "od_refresh s' = od_refresh s"
    using assms(2) by (auto simp: issues_code_def)
  let ?hist = "hist @ [(op, s, r)]"
  have "row\<lparr>az_consumedAt := None\<rparr> = row" using assms(4)[OF row(2)] by (cases row) simp
  then have new: "in_history lib ?hist (row\<lparr>az_consumedAt := None\<rparr>)"
    using row(2) by (simp add: in_history_def del: issued_by.simps)
  have "spent h (od_codes s) \<Longrightarrow> spent h (od_codes s')" for h by (auto simp: spent_def row(1))
  moreover have "\<forall>c\<in>set (od_codes s). in_history lib ?hist (c\<lparr>az_consumedAt := None\<rparr>)"
    using assms(1) by (auto simp: oauth_inv_def intro: in_history_mono)
  moreover have "\<forall>q\<in>refresh_records (od_refresh s). \<exists>row. in_history lib ?hist row \<and> session_of row q"
    using assms(1) unfolding oauth_inv_def by (meson in_history_mono)
  ultimately show ?thesis
    using assms(1,3) assms(4)[OF row(2)] new row(3) unfolding oauth_inv_def row(1) by auto
qed

lemma code_grant_inv:
  assumes inv: "oauth_inv lib hist s" and run: "handleAuthorizationCodeGrant lib rq dto creds s = (x, s')"
    and op: "op = OpToken rq header dto" "td_grant_type dto = AUTHORIZATION_CODE" "r = (case x of Inl _ \<Rightarrow> None | Inr q \<Rightarrow> Some q)"
  shows "oauth_inv lib (hist @ [(op, s, r)]) s'"
  using run
proof (cases rule: code_grant_cases)
  case early
  then show ?thesis using op by (intro oauth_inv_neutral[OF inv]) (auto simp: neutral_same split: sum.splits)
next
  case (consumed client f)
  note rows = repo_consume_rows[OF consumed(4)]
  have "\<forall>c\<in>set (od_codes s'). in_history lib (hist @ [(op, s, r)]) (c\<lparr>az_consumedAt := None\<rparr>)"
    using rows(2) inv unfolding oauth_inv_def by (metis in_history_mono)
  moreover have "\<forall>q\<in>refresh_records (od_refresh s). \<exists>row. in_history lib (hist @ [(op, s, r)]) row \<and> session_of row q"
    using inv unfolding oauth_inv_def by (meson in_history_mono)
  moreover have "r = None" using consumed(2) op(3) by (auto split: sum.splits)
  ultimately show ?thesis using inv rows(1,3) consumed(3) op(1) unfolding oauth_inv_def by auto
next
  case (opened client rec accessToken claims ttl s1 s2 y)
  note rows = repo_consume_rows[OF opened(2)]
  have dist: "distinct (map az_codeHash (od_codes s))" using inv by (simp add: oauth_inv_def)
  obtain c where c: "c \<in> set (od_codes s)" "rec = c\<lparr>az_consumedAt := Some (rq_now rq)\<rparr>" "rec \<in> set (od_codes s')"
      "az_codeHash c = lb_sha256 lib (the (td_code dto))" "az_tenantId c = oc_tenantId client"
    using repo_consumeD[OF opened(2) dist] .
  let ?hist = "hist @ [(op, s, r)]"
  have hist: "\<forall>c\<in>set (od_codes s'). in_history lib ?hist (c\<lparr>az_consumedAt := None\<rparr>)"
    using rows(2) inv unfolding oauth_inv_def by (metis in_history_mono)
  have sp: "spent (lb_sha256 lib (the (td_code dto))) (od_codes s')"
    unfolding spent_def using c by (intro bexI[OF _ c(3)]) simp
  have "session_of (rec\<lparr>az_consumedAt := None\<rparr>) q" if "q \<in> refresh_records (od_refresh s') - refresh_records (od_refresh s)" for q
    using issue_records[OF opened(9)] that c(2,5) opened(3) by (auto simp: family_input_def session_of_def)
  then have "\<forall>q\<in>refresh_records (od_refresh s'). \<exists>row. in_history lib ?hist row \<and> session_of row q"
    using hist c(3) inv unfolding oauth_inv_def by (metis DiffI in_history_mono)
  moreover have "\<forall>e\<in>set ?hist. \<forall>h. exchanged lib e = Some h \<longrightarrow> spent h (od_codes s')"
    using inv rows(3) sp op unfolding oauth_inv_def by (auto split: sum.splits)
  ultimately show ?thesis using hist rows(1) dist unfolding oauth_inv_def by simp
qed

lemma refresh_grant_neutral:
  assumes "handleRefreshTokenGrant lib rq dto creds s = (x, s')"
  shows "neutral s s'"
  using assms
proof (cases rule: refresh_grant_cases)
  case (rotated client y)
  then show ?thesis using rotate_result[OF rotated(3)] by (simp add: neutral_def)
qed (simp add: neutral_same)

lemma token_inv:
  assumes "oauth_inv lib hist s" "oauth_do lib (OpToken rq header dto) s = (r, s')"
  shows "oauth_inv lib (hist @ [(OpToken rq header dto, s, r)]) s'"
proof -
  obtain x where x: "token_endpoint lib rq header dto s = (x, s')" "r = (case x of Inl _ \<Rightarrow> None | Inr q \<Rightarrow> Some q)"
    using assms(2) by (auto split: prod.splits sum.splits)
  show ?thesis
  proof (cases "extractClientCredentials lib (td_client_id dto) (td_client_secret dto) header")
    case (Inl e)
    then show ?thesis using x by (intro oauth_inv_neutral[OF assms(1)]) (auto simp: token_endpoint_def neutral_same)
  next
    case (Inr creds)
    show ?thesis
    proof (cases "td_grant_type dto")
      case AUTHORIZATION_CODE
      then show ?thesis using code_grant_inv[OF assms(1) _ refl AUTHORIZATION_CODE x(2)] x(1) Inr by (simp add: token_endpoint_def)
    next
      case REFRESH_TOKEN
      then show ?thesis using x Inr refresh_grant_neutral[of lib rq dto creds s x s']
        by (intro oauth_inv_neutral[OF assms(1)]) (auto simp: token_endpoint_def split: sum.splits)
    next
      case CLIENT_CREDENTIALS
      then show ?thesis using x Inr client_credentials_frame[of lib rq dto creds s x s']
        by (intro oauth_inv_neutral[OF assms(1)]) (auto simp: token_endpoint_def neutral_same split: sum.splits)
    qed
  qed
qed

lemma elsewhere_neutral: "neutral s (snd (oauth_do lib (OpElsewhere e keep) s))"
  by (simp add: neutral_def, rule keeps_session_subset) (auto simp: refresh_records_def)

lemma oauth_run_inv: "oauth_run lib hist s \<Longrightarrow> oauth_inv lib hist s"
proof (induction rule: oauth_run.induct)
  case (run_start s)
  then show ?case by (simp add: oauth_inv_def refresh_records_def)
next
  case (run_step hist s op r s')
  note s' = run_step.hyps(3)
  show ?case
  proof (cases op)
    case (OpAuthorize rq ip dto)
    have "issues_code lib op s s'"
      using authorize_effect[of lib rq ip dto s "fst (authorize lib rq ip dto s)" s'] run_step.hyps(2) s' by (auto simp: OpAuthorize)
    then show ?thesis using run_step.hyps(2) OpAuthorize
      by (intro oauth_inv_login[OF run_step.IH]) (auto simp: code_row_def)
  next
    case (OpSsoCallback rq federate req)
    have "issues_code lib op s s'"
      using sso_callback_effect[of lib rq federate req s "fst (dispatchCallback lib rq federate req s)" s'] run_step.hyps(2) s'
      by (auto simp: OpSsoCallback)
    then show ?thesis using run_step.hyps(2) OpSsoCallback
      by (intro oauth_inv_login[OF run_step.IH]) (auto simp: code_row_def)
  next
    case (OpToken rq header dto)
    then show ?thesis using token_inv[OF run_step.IH] s' by simp
  next
    case (OpRevokeAll up now t u reason)
    then show ?thesis using s' by (intro oauth_inv_neutral[OF run_step.IH]) (auto simp: neutral_def revokeAll_keeps)
  next
    case (OpElsewhere e keep)
    then show ?thesis using s' elsewhere_neutral[of s lib e keep] by (intro oauth_inv_neutral[OF run_step.IH]) auto
  qed (use s' revoke_neutral register_neutral sso_login_neutral sso_failure_neutral in
      \<open>(intro oauth_inv_neutral[OF run_step.IH]; force)+\<close>)
qed

section \<open>Guarantees\<close>

definition caller :: "oauth_lib \<Rightarrow> string option \<Rightarrow> TokenRequest \<Rightarrow> oauth_db \<Rightarrow> OAuthClient \<Rightarrow> bool" where
  \<comment> \<open>the client that authenticated with the request\<close>
  "caller lib header dto s client \<longleftrightarrow> (\<exists>creds. extractClientCredentials lib (td_client_id dto) (td_client_secret dto) header = Inr creds \<and>
     authenticateClient lib (fst creds) (snd creds) s = Inr client)"

definition token_of_session ::
  "oauth_lib \<Rightarrow> request_ctx \<Rightarrow> OAuthClient \<Rightarrow> AuthorizationCode \<Rightarrow> token_response \<Rightarrow> oauth_db \<Rightarrow> bool" where
  \<comment> \<open>the access token was signed for the user, the time and the method of the login behind the code\<close>
  "token_of_session lib rq client row r s \<longleftrightarrow> tr_scope r = az_scope row \<and>
     (\<exists>cx ttl claims. issueAccessToken (lb_jose lib) (lb_cfg lib) (rq_now rq) (rq_jti rq)
        (user_token_input client (az_userId row) (az_amr row) (az_authTime row) cx ttl) (od_keys s) = Inr (tr_access_token r, claims))"

text \<open>
  Property C5. An authorization code yields tokens once, and only to whom it was issued: if the exchange
  succeeds, an earlier request of the history logged the user in and issued this code less than a minute ago, to
  the client and tenant that now authenticate, for this redirect URI and for the challenge of the presented
  verifier; the tokens are for that user, login time, method and scope; and no earlier request of the history
  exchanged the code.
\<close>

theorem code_exchange_is_authorised:
  assumes "oauth_run lib hist s" "token_endpoint lib rq header dto s = (Inr r, s')" "td_grant_type dto = AUTHORIZATION_CODE"
  shows "\<exists>op s0 r0 row client. (op, s0, r0) \<in> set hist \<and> issued_by lib op s0 row \<and> az_codeHash row = lb_sha256 lib (the (td_code dto)) \<and>
     caller lib header dto s client \<and> az_clientId row = oc_id client \<and> az_tenantId row = oc_tenantId client \<and>
     az_redirectUri row = the (td_redirect_uri dto) \<and> az_codeChallenge row = lb_challenge lib (the (td_code_verifier dto)) \<and>
     rq_now rq < az_expiresAt row \<and> token_of_session lib rq client row r s \<and>
     (\<forall>e\<in>set hist. exchanged lib e \<noteq> Some (lb_sha256 lib (the (td_code dto))))"
proof -
  have inv: "oauth_inv lib hist s" by (rule oauth_run_inv[OF assms(1)])
  then have dist: "distinct (map az_codeHash (od_codes s))" by (simp add: oauth_inv_def)
  obtain creds where creds: "extractClientCredentials lib (td_client_id dto) (td_client_secret dto) header = Inr creds"
      "handleAuthorizationCodeGrant lib rq dto creds s = (Inr r, s')"
    using assms(2,3) by (auto simp: token_endpoint_def split: sum.splits)
  from creds(2) show ?thesis
  proof (cases rule: code_grant_cases)
    case (opened client rec accessToken claims ttl s1 s2 y)
    obtain c where c: "c \<in> set (od_codes s)" "rec = c\<lparr>az_consumedAt := Some (rq_now rq)\<rparr>"
        "az_codeHash c = lb_sha256 lib (the (td_code dto))" "az_tenantId c = oc_tenantId client" "az_consumedAt c = None" "rq_now rq < az_expiresAt c"
      using repo_consumeD[OF opened(2) dist] by metis
    let ?row = "c\<lparr>az_consumedAt := None\<rparr>"
    obtain op s0 r0 where ev: "(op, s0, r0) \<in> set hist" "issued_by lib op s0 ?row"
      using inv c(1) unfolding oauth_inv_def in_history_def by fastforce
    obtain cx where "issueAccessToken (lb_jose lib) (lb_cfg lib) (rq_now rq) (rq_jti rq)
        (user_token_input client (az_userId rec) (az_amr rec) (az_authTime rec) cx ttl) (od_keys s1) = Inr (accessToken, claims)"
      using user_access_tokenD[OF opened(7)] .
    then have tok: "token_of_session lib rq client ?row r s"
      using opened(8,10) c(2) by (auto simp: token_of_session_def)
    have "\<not> spent (lb_sha256 lib (the (td_code dto))) (od_codes s)"
    proof
      assume "spent (lb_sha256 lib (the (td_code dto))) (od_codes s)"
      then obtain d where "d \<in> set (od_codes s)" "az_codeHash d = az_codeHash c" "az_consumedAt d \<noteq> None" using c(3) by (auto simp: spent_def)
      then show False using dist c(1,5) by (metis distinct_map inj_onD)
    qed
    then have once: "\<forall>e\<in>set hist. exchanged lib e \<noteq> Some (lb_sha256 lib (the (td_code dto)))" using inv by (auto simp: oauth_inv_def)
    show ?thesis
      by (rule exI[of _ op], rule exI[of _ s0], rule exI[of _ r0], rule exI[of _ ?row], rule exI[of _ client])
        (use ev tok once creds(1) opened(1,3,4,6) c in \<open>auto simp: caller_def simp del: issued_by.simps\<close>)
  qed simp_all
qed

text \<open>
  Property C6. A session cannot change hands: the tokens a refresh grant hands out are for the user, login time,
  method and scope of a login of the history, whose code was issued to the same client and tenant that now
  authenticate, however often the session was refreshed and whatever the cache held.
\<close>

theorem refreshed_token_keeps_session:
  assumes "oauth_run lib hist s" "token_endpoint lib rq header dto s = (Inr r, s')" "td_grant_type dto = REFRESH_TOKEN"
  shows "\<exists>op s0 r0 row client. (op, s0, r0) \<in> set hist \<and> issued_by lib op s0 row \<and> caller lib header dto s client \<and>
     az_clientId row = oc_id client \<and> az_tenantId row = oc_tenantId client \<and> token_of_session lib rq client row r s"
proof -
  have inv: "oauth_inv lib hist s" by (rule oauth_run_inv[OF assms(1)])
  obtain creds where creds: "extractClientCredentials lib (td_client_id dto) (td_client_secret dto) header = Inr creds"
      "handleRefreshTokenGrant lib rq dto creds s = (Inr r, s')"
    using assms(2,3) by (auto simp: token_endpoint_def split: sum.splits)
  from creds(2) show ?thesis
  proof (cases rule: refresh_grant_cases)
    case (rotated client y)
    obtain raw rec cx claims where y: "y = Inr (raw, rec)" "rt_clientId rec = oc_id client" "tr_scope r = rt_scope rec"
        "issueAccessToken (lb_jose lib) (lb_cfg lib) (rq_now rq) (rq_jti rq)
           (user_token_input client (rt_userId rec) (rt_amr rec) (rt_authTime rec) cx (tr_expires_in r)) (od_keys s) = Inr (tr_access_token r, claims)"
      using rotated(4)[OF refl] by blast
    obtain q where q: "q \<in> refresh_records (od_refresh s)" "same_login q rec" using rotate_result[OF rotated(3)] y(1) by blast
    obtain row where row: "in_history lib hist row" "session_of row rec"
      using inv q unfolding oauth_inv_def by (meson session_of_same_login)
    obtain op s0 r0 where ev: "(op, s0, r0) \<in> set hist" "issued_by lib op s0 row" using row(1) unfolding in_history_def by fastforce
    have tenant: "rt_tenantId rec = oc_tenantId client"
      using rotated(3) y(1) by (auto simp: rotate_def Let_def repo_rotate_def next_generation_def split: option.splits if_splits prod.splits)
    have "token_of_session lib rq client row r s" using y(3,4) row(2) by (auto simp: token_of_session_def session_of_def)
    then show ?thesis using ev creds(1) rotated(1) row(2) y(2) tenant unfolding caller_def session_of_def by metis
  qed simp_all
qed

section \<open>A history\<close>

text \<open>
  One tenant with two public clients, one user with a password and one identity provider. The user logs in through the
  first client at time 1000, the code is exchanged a second later and the session refreshed another second later.
\<close>

definition demo_lib :: oauth_lib where
  "demo_lib = \<lparr>lb_sha256 = (\<lambda>x. CHR ''h'' # x), lb_challenge = (\<lambda>v. take 3 v), lb_compare = demo_compare, lb_bhash = (\<lambda>p. CHR ''h'' # p),
     lb_jose = \<lparr>jl_sign = (\<lambda>priv alg kid c. kid @ ac_sub c), jl_signId = (\<lambda>priv alg kid c. kid), jl_kid = (\<lambda>_. None), jl_open = (\<lambda>_ _ _. None)\<rparr>,
     lb_cfg = demo_issuer, lb_base64 = (\<lambda>x. x), lb_decodeURI = Some, lb_registrationToken = None, lb_hooks = True\<rparr>"

definition demo_client :: "string \<Rightarrow> OAuthClient" where
  "demo_client i = \<lparr>oc_id = i, oc_tenantId = ''t1'', oc_clientId = i, oc_clientSecretHash = None, oc_clientType = PUBLIC, oc_name = i,
     oc_allowedGrantTypes = [AUTHORIZATION_CODE, REFRESH_TOKEN], oc_redirectUris = [''https://app''], oc_tokenEndpointAuthMethod = AUTH_METHOD_NONE,
     oc_isActive = True, oc_createdAt = 0\<rparr>"

definition demo_auth_db :: "UserStatus \<Rightarrow> oauth_db" where
  "demo_auth_db st = \<lparr>od_clients = [demo_client ''web'', demo_client ''kiosk''], od_codes = [], od_keys = [demo_key ''k1''],
     od_login = demo_login_db\<lparr>ld_users := map (\<lambda>u. u\<lparr>us_status := st, us_externalIdpId := Some ''ann-idp''\<rparr>) (ld_users demo_login_db)\<rparr>,
     od_refresh = \<lparr>tokens = [], rt_cache = []\<rparr>, od_access = \<lparr>db_userRoles = [], db_rolePermissions = [], db_permissions = [], db_groupMembers = []\<rparr>,
     od_roles = [], od_providers = [\<lparr>ip_id = ''idp'', ip_tenantId = ''t1'', ip_protocol = OIDC, ip_isActive = True\<rparr>],
     od_sessions = [], od_pending = [], od_contexts = [], od_revoked = [], od_audit = []\<rparr>"

definition demo_rq :: "millis \<Rightarrow> string \<Rightarrow> request_ctx" where
  "demo_rq now n = \<lparr>rq_now = now, rq_up = (\<lambda>_. True), rq_code = ''code'' @ n, rq_jti = ''j'' @ n, rq_raw = ''raw'' @ n, rq_id = ''i'' @ n,
     rq_family = ''f'' @ n\<rparr>"

definition demo_verifier :: string where
  "demo_verifier = replicate 43 CHR ''v''"

definition demo_authorize :: oauth_op where
  "demo_authorize = OpAuthorize (demo_rq 1000 ''1'') None \<lparr>ad_client_id = ''web'', ad_redirect_uri = ''https://app'', ad_scope = Some ''openid'',
     ad_state = None, ad_code_challenge = ''vvv'', ad_code_challenge_method = ''S256'', ad_nonce = None, ad_username = Some ''ann'',
     ad_password = Some ''pw'', ad_webauthn_session_token = None\<rparr>"

definition demo_token_request :: "OAuthGrantType \<Rightarrow> string \<Rightarrow> string \<Rightarrow> TokenRequest" where
  "demo_token_request g client tok = \<lparr>td_grant_type = g, td_code = Some tok, td_redirect_uri = Some ''https://app'', td_code_verifier = Some demo_verifier,
     td_refresh_token = Some tok, td_client_id = Some client, td_client_secret = None, td_scope = None\<rparr>"

definition demo_after_login :: oauth_db where
  "demo_after_login = snd (oauth_do demo_lib demo_authorize (demo_auth_db USER_ACTIVE))"

definition demo_exchange :: oauth_op where
  "demo_exchange = OpToken (demo_rq 2000 ''2'') None (demo_token_request AUTHORIZATION_CODE ''web'' ''code1'')"

definition demo_after_exchange :: oauth_db where
  "demo_after_exchange = snd (oauth_do demo_lib demo_exchange demo_after_login)"

lemma demo_login_run:
  "oauth_run demo_lib [(demo_authorize, demo_auth_db USER_ACTIVE, None)] demo_after_login"
proof -
  have "oauth_run demo_lib ([] @ [(demo_authorize, demo_auth_db USER_ACTIVE, fst (oauth_do demo_lib demo_authorize (demo_auth_db USER_ACTIVE)))]) demo_after_login"
    unfolding demo_after_login_def
    by (rule run_step[OF run_start]) (simp_all add: demo_auth_db_def demo_authorize_def)
  then show ?thesis by (simp add: demo_authorize_def)
qed

lemma demo_exchange_run:
  "oauth_run demo_lib [(demo_authorize, demo_auth_db USER_ACTIVE, None), (demo_exchange, demo_after_login, fst (oauth_do demo_lib demo_exchange demo_after_login))]
     demo_after_exchange"
proof -
  have "oauth_run demo_lib ([(demo_authorize, demo_auth_db USER_ACTIVE, None)] @
      [(demo_exchange, demo_after_login, fst (oauth_do demo_lib demo_exchange demo_after_login))]) demo_after_exchange"
    unfolding demo_after_exchange_def by (rule run_step[OF demo_login_run]) (simp_all add: demo_exchange_def)
  then show ?thesis by simp
qed

theorem code_exchange_is_authorised_witness:
  "\<exists>r row. fst (token_endpoint demo_lib (demo_rq 2000 ''2'') None (demo_token_request AUTHORIZATION_CODE ''web'' ''code1'') demo_after_login) = Inr r \<and>
     tr_access_token r = ''k1u1'' \<and> issued_by demo_lib demo_authorize (demo_auth_db USER_ACTIVE) row \<and> 2000 < az_expiresAt row"
proof -
  let ?run = "token_endpoint demo_lib (demo_rq 2000 ''2'') None (demo_token_request AUTHORIZATION_CODE ''web'' ''code1'') demo_after_login"
  have "map_sum (\<lambda>_. ()) tr_access_token (fst ?run) = Inr ''k1u1''" by code_simp
  then obtain r where r: "fst ?run = Inr r" "tr_access_token r = ''k1u1''" by (cases "fst ?run") auto
  then have run: "?run = (Inr r, snd ?run)" by (simp add: prod_eq_iff)
  have g: "td_grant_type (demo_token_request AUTHORIZATION_CODE ''web'' ''code1'') = AUTHORIZATION_CODE" by (simp add: demo_token_request_def)
  from code_exchange_is_authorised[OF demo_login_run run g]
  obtain row where "issued_by demo_lib demo_authorize (demo_auth_db USER_ACTIVE) row" "2000 < az_expiresAt row"
    by (auto simp: demo_rq_def simp del: issued_by.simps)
  with r show ?thesis by blast
qed

theorem refreshed_token_keeps_session_witness:
  "\<exists>r op s0 r0 row. fst (token_endpoint demo_lib (demo_rq 3000 ''3'') None (demo_token_request REFRESH_TOKEN ''web'' ''raw2'') demo_after_exchange) = Inr r \<and>
     tr_access_token r = ''k1u1'' \<and> issued_by demo_lib op s0 row \<and> az_clientId row = ''web''"
proof -
  let ?run = "token_endpoint demo_lib (demo_rq 3000 ''3'') None (demo_token_request REFRESH_TOKEN ''web'' ''raw2'') demo_after_exchange"
  have "map_sum (\<lambda>_. ()) tr_access_token (fst ?run) = Inr ''k1u1''" by code_simp
  then obtain r where r: "fst ?run = Inr r" "tr_access_token r = ''k1u1''" by (cases "fst ?run") auto
  then have run: "?run = (Inr r, snd ?run)" by (simp add: prod_eq_iff)
  have g: "td_grant_type (demo_token_request REFRESH_TOKEN ''web'' ''raw2'') = REFRESH_TOKEN" by (simp add: demo_token_request_def)
  have cl: "map oc_id (filter (\<lambda>c. oc_clientId c = ''web'') (od_clients demo_after_exchange)) = [''web'']" by code_simp
  have web: "oc_id client = ''web''" if "caller demo_lib None (demo_token_request REFRESH_TOKEN ''web'' ''raw2'') demo_after_exchange client" for client
  proof -
    have "client \<in> set (filter (\<lambda>c. oc_clientId c = ''web'') (od_clients demo_after_exchange))"
      using that by (auto simp: caller_def extractClientCredentials_def demo_token_request_def authenticateClient_def findByClientId_def
          split: option.splits if_splits dest: find_where_SomeD)
    then have "oc_id client \<in> set (map oc_id (filter (\<lambda>c. oc_clientId c = ''web'') (od_clients demo_after_exchange)))" by auto
    then show ?thesis unfolding cl by simp
  qed
  from refreshed_token_keeps_session[OF demo_exchange_run run g]
  obtain op s0 r0 row client where "issued_by demo_lib op s0 row" "caller demo_lib None (demo_token_request REFRESH_TOKEN ''web'' ''raw2'') demo_after_exchange client"
      "az_clientId row = oc_id client" by blast
  with r web show ?thesis by metis
qed

section \<open>Limits of the guarantees\<close>

text \<open>
  Another client of the tenant that presents a refresh token gets nothing, but the token is rotated first: the client it
  belongs to is then treated as a thief, and the whole session is revoked.
\<close>

theorem foreign_client_ends_session:
  "let (x, s1) = token_endpoint demo_lib (demo_rq 3000 ''3'') None (demo_token_request REFRESH_TOKEN ''kiosk'' ''raw2'') demo_after_exchange;
       (y, s2) = token_endpoint demo_lib (demo_rq 4000 ''4'') None (demo_token_request REFRESH_TOKEN ''web'' ''raw2'') s1
   in map_sum id (\<lambda>_. ()) x = Inl (UnauthorizedClient ''Refresh token was not issued to this client.'') \<and>
      map_sum id (\<lambda>_. ()) y = Inl (RefreshError RefreshTokenReused) \<and> map rt_status (tokens (od_refresh s2)) = [RT_REVOKED, RT_REVOKED]"
  by code_simp

text \<open>A second use of a code is refused, but the tokens of the first use stay valid.\<close>

theorem code_replay_keeps_tokens:
  "let (x, s1) = token_endpoint demo_lib (demo_rq 3000 ''3'') None (demo_token_request AUTHORIZATION_CODE ''kiosk'' ''code1'') demo_after_exchange
   in map_sum id (\<lambda>_. ()) x = Inl (InvalidGrantError ''Authorization code is invalid, expired, or already used.'') \<and>
      map rt_status (tokens (od_refresh s1)) = [RT_ACTIVE]"
  by code_simp

text \<open>A disabled user cannot log in with the password, but through the identity provider.\<close>

definition demo_sso_query :: SsoLoginQuery where
  "demo_sso_query = \<lparr>sq_client_id = ''web'', sq_redirect_uri = ''https://app'', sq_code_challenge = ''vvv'', sq_code_challenge_method = ''S256'',
     sq_scope = None, sq_state = None, sq_nonce = None\<rparr>"

theorem disabled_user_logs_in_by_sso:
  "let s0 = demo_auth_db USER_DISABLED;
       s1 = snd (sso_login (demo_rq 1000 ''1'') ''idp'' demo_sso_query s0);
       s2 = snd (dispatchCallback demo_lib (demo_rq 2000 ''2'') (\<lambda>_ _. Identity ''ann-idp'' (Some ''ann@x.org'')) (Some ''raw1'') s1)
   in isl (fst (authenticate demo_compare ''t1'' 1000 ''ann'' ''pw'' (od_login s0))) \<and>
      map_sum (\<lambda>_. ()) tr_access_token (fst (token_endpoint demo_lib (demo_rq 3000 ''3'') None (demo_token_request AUTHORIZATION_CODE ''web'' ''code2'') s2))
        = Inr ''k1u1''"
  by code_simp

text \<open>Any authenticated client revokes any access token it presents, also one of another tenant.\<close>

lemma revocation_ignores_the_owner:
  assumes "calling_client lib dto header s = Inr client" "verifyAccessToken (lb_jose lib) (lb_cfg lib) (rq_now rq) (rv_token dto) (od_keys s) = Inr claims"
    and "rq_up rq 2" "ac_tenant_id claims \<noteq> oc_tenantId client"
  shows "isRevoked True (rq_now rq) (ac_jti claims) (od_revoked (snd (revoke_endpoint lib rq header dto s)))"
  using assms by (simp add: revoke_endpoint_def Let_def enqueueAudit_def revoke_jti_def isRevoked_def)

text \<open>A passkey session whose deletion Redis does not carry out can be used again.\<close>

lemma passkey_session_survives_failed_delete:
  assumes "consumeSession rq token s = (Some v, s1)" "\<not> rq_up rq 1"
  shows "consumeSession rq token s1 = (Some v, s1)"
  using assms by (auto simp: consumeSession_def kv_del_def split: option.splits)

end
