(* ===== verification/Spec2Isabelle.thy ===== *)
theory Spec2Isabelle
  imports Swap_System Claim_Guarantees Bid_Guarantees Webhook_Delivery Refresh_Token Leave_Guarantees
    Acd_Collector Adherence_Events Reallocation Offline_Queue
    Compliance_Reports Llm_Circuit_Breaker Ai_Recommendation Access_Policies
    Hub_Import OAuth_Guarantees
begin

text \<open>
  A verification development of the WFM platform: a workforce management system of a core service
  (\<open>src/src\<close>), several TypeScript services beside it and two Python services for scheduling and
  forecasting. The parts share no database schema. Each keeps its own tables in Postgres, calls its
  peers over gRPC or REST, and announces what happened through an outbox table that a timer drains
  to NATS. The development covers the subsystems whose correctness rests on how concurrent
  requests, timers, devices and failing peers interleave.

  \<^bold>\<open>Shared\<close>. \<open>WFM_Prelude\<close>: tables as lists of rows with the queries TypeORM issues on them,
  transactions (\<open>run_txn\<close>: a body that throws leaves no trace), JavaScript sets and the stable
  \<open>Array.prototype.sort\<close> with its comparator contract (locale \<open>js_comparator\<close>). \<open>Iso_Calendar\<close>:
  dates, \<open>Date.UTC\<close>, and that comparing date strings agrees with counting days. \<open>Leased_Outbox\<close>: the
  contract of a leased work queue (claiming a batch with \<open>FOR UPDATE SKIP LOCKED\<close> and a lease),
  interpreted by the marketplace outbox, the two platform outboxes and the webhook deliveries.

  \<^bold>\<open>Shift marketplace\<close> (\<open>src/shift-marketplace-service\<close>). \<open>Marketplace_Model\<close> holds rows, errors and
  the shared state, with the partial unique index that admits one live claim per post;
  \<open>Marketplace_Lock\<close> the Redis contention lock; \<open>Claim_Rate_Limiter\<close> the limiter of failed
  attempts; \<open>Marketplace_Engagement\<close> points, streaks and badges; \<open>Marketplace_Outbox\<close> the outbox;
  \<open>Guardrail_Validation\<close> the eligibility check over the scheduling service (a parameter that may not
  answer). \<open>Claim_Open_Shift\<close> is the claim request of \<open>claim-open-shift.service.ts\<close> as the sequence
  of its transactions, \<open>Bid_Ranking\<close> and \<open>Bid_Service\<close> the bidding path, \<open>Swap_Request\<close> the swap
  path and \<open>Approve_Action\<close> the supervisor's decisions. \<open>Marketplace_System\<close> and \<open>Swap_System\<close> are
  step relations in which the transactions of any number of requests interleave: every transaction
  is one step, and the supervisor's read and write are one step there; what happens when two of them
  race is treated by separate properties. \<open>Claim_Guarantees\<close> and \<open>Bid_Guarantees\<close> hold the
  properties of one request, this theory those of the interleavings: a post has one winner, events
  match claims, a swap is executed once, and three ways in which racing decisions go wrong.

  \<^bold>\<open>Platform events\<close> (\<open>src/src/modules/eventing\<close>, \<open>core-eventing\<close>, \<open>webhook\<close>). \<open>Platform_Outbox\<close>
  models recording, polling, retrying and dead-lettering; \<open>Webhook_Delivery\<close> the core outbox with its
  fan-out and the signed delivery attempts. Shown: a drain accounts for every event of its batch, a
  poison event ends as a dead letter, a failed event waits for its lease, deliveries are bounded, and
  fan-out happens for exactly the accepted events. The bus, the HTTP endpoints and the HMAC are
  parameters; the database calls of a tick succeed.

  \<^bold>\<open>Refresh tokens\<close> (\<open>src/src/modules/auth\<close>). \<open>Refresh_Token\<close> models issue, rotation, introspection
  and revocation over the table and a Redis cache that may be down at every call and may be stale.
  Shown: at most one active token per family, what a rotation does, that a replay revokes the family
  whatever the cache says, and that introspection may still call a revoked token active.

  \<^bold>\<open>Logins\<close> (\<open>src/src/modules/auth\<close>, \<open>sso\<close>). \<open>Access_Tokens\<close> models the signing keys with their rotation, issuing and
  verifying access tokens, the blacklist and the guards; \<open>Password_Login\<close> the password login with its lockout, the policies
  that gate a login, and setting a password; \<open>OAuth_Server\<close> the endpoints on top of both and of \<open>Refresh_Token\<close>: authorize,
  token with its three grants, revoke, introspect, register, and single sign-on. \<open>OAuth_Guarantees\<close> states histories of
  requests (relation \<open>oauth_run\<close>) and shows that a code is exchanged at most once and only by the client, redirect URI
  and verifier of the login that issued it, and that refreshed tokens stay with the user and client of that login.
  Also shown: how long an issued token verifies when keys rotate, that a revoked token stays refused, how many wrong
  passwords fifteen minutes admit, and where these guarantees end (parallel guesses, Redis outages, a rotation before
  the client is checked, a disabled user behind an identity provider). SHA-256, bcrypt, JOSE and the identity providers
  are parameters.

  \<^bold>\<open>Leave\<close> (\<open>src/attendance-leave-service/src/leave\<close>). \<open>Leave_Model\<close> holds rows and table constraints,
  \<open>Leave_Request\<close> submission and provisioning, \<open>Leave_Decision\<close> decisions and the carryover and
  accrual jobs, \<open>Leave_Ledger\<close> the invariant and the contract of a job (locale \<open>balance_job\<close>,
  interpreted by the three jobs), \<open>Leave_Guarantees\<close> reachability and properties: the balances book
  exactly what the requests say, pending requests stay decidable, decisions are final, backdated
  leave needs a dedicated permission, submissions fail closed, the jobs run once a day. Balances are
  provisioned with periods that do not overlap; \<open>overlapping_periods_misbook\<close> shows what happens
  otherwise.

  \<^bold>\<open>Agent events\<close> (\<open>src/acd-onprem-collector\<close>, \<open>src/intraday-service\<close>). An on-premise collector reads
  CSTA frames from a telephone system and forwards agent events. \<open>Csta_Frame\<close> models the framing
  (\<open>partial_function\<close>: the reader may not return), \<open>Backpressure_Queue\<close> the forwarding queue as the steps
  between its awaits, \<open>Activity_Ingestion\<close> the ingestion endpoint with credentials, signature guard and
  idempotency lock, \<open>Acd_Collector\<close> the collector as their composition. Shown: the stream of frames is
  read back whatever the chunk boundaries, when the reader returns, the queue is bounded, first in first
  out and drains, every event frame is offered once, retries are ingested once; and how an outage of
  Vault, a restart or the bootstrap lose events. \<open>Intraday_Live_State\<close> models the agents' live state in
  Redis and the reverse index of the queues with their three writers, \<open>Adherence_Events\<close> the adherence
  calculation, its exceptions and roll-ups, \<open>Intraday_Alerts\<close> the alert pipeline, \<open>Reallocation\<close> the donor
  search, suggestions, approvals and staffing offers with the metrics consumer that calls them. Shown: the
  index is exact and its writers commute while Redis answers, exceptions are exactly the segments off
  schedule, alerts of one cause are spaced, the donor is the best one, a reallocation is executed once;
  and where these fail (redelivery, stale suggestions, truncated roll-ups, older alerts that stay).

  \<^bold>\<open>Offline actions\<close> (\<open>src/mobile-app/src/offlineQueue\<close>, \<open>src/mobile-ess-service\<close>,
  \<open>src/attendance-leave-service/src/attendance\<close>). \<open>Secure_Store\<close> models the paged collection of the device
  down to its single-key writes, and shows that it refines a list and survives being killed between any
  two writes; its contract is the locale \<open>item_store\<close>. \<open>Offline_Queue\<close> is the queue, the conflict list and
  the sync engine on top of it; the connection's contract is the locale \<open>sync_server\<close>, interpreted by the
  endpoint of \<open>Mobile_Sync\<close>, which models geofencing, the three forwarding clients and the sync service in
  steps between which other requests run. \<open>Attendance_Ingestion\<close> is the service that clock events reach:
  exception detection and the ledger. Shown: syncing loses no action, verdicts are final, no location is
  stored, records and ledger agree under every interleaving, a repeated clock-in is recorded once; and
  that a repeated clock-out becomes a conflict, an error page a granted claim, an overlapping leave
  request an endless retry, and two overlapping syncs overwrite each other's verdict.

  \<^bold>\<open>Labour rules\<close> (\<open>src/adherence-compliance-service\<close>). \<open>Utc_Date\<close> turns instants into calendar days and ISO weeks;
  \<open>Schedule_Compliance\<close> models the evaluation of the labour rules on shifts and the comparison of a policy with
  the legal floor; \<open>Compliance_Rules\<close> drafts, impact previews, activation and the lookup of the rule in force;
  \<open>Compliance_Reports\<close> the reports with their CSV, legal holds and the retention sweep. Shown: the single
  passes over sorted shifts mean what the rules say (rest between every two shifts, sliding windows of days, totals
  per day and week), an accepted policy never permits what the floor forbids, active rules were previewed and are
  unique in their scope, the lookup finds the most specific rule, the CSV can be read back, held reports survive
  every sweep that starts after the hold; and that an older draft activated late stays hidden and a hold placed
  during a sweep is lost.

  \<^bold>\<open>AI layer\<close> (\<open>src/ai-layer-service\<close>). \<open>Llm_Circuit_Breaker\<close> models the circuit per provider and the routing client,
  with calls in flight; \<open>Ai_Governance\<close> the autonomy policy, the risk thresholds, the phrase detector (a small
  expression language for its patterns) and the confidence of an answer; \<open>Ai_Recommendation\<close> the life of a
  recommendation. The module that owns an action is the locale \<open>reallocation_owner\<close>, interpreted by the intraday
  service's \<open>approve\<close>, and the owner may go on with its own work between any two steps. Shown: the cost of an
  outage is bounded, tenant errors stay with their tenant, nothing runs without the permission the tenant gave, and an action
  runs once; and that a failed trial can close a provider for good, one tenant's server can close Ollama for all,
  and two overlapping decisions can leave an executed action rejected.

  \<^bold>\<open>Access\<close> (\<open>src/src/modules/policy\<close>, \<open>src/src/common/tenant\<close>). \<open>Access_Control\<close> models the scope checks on org
  units, groups and employees, the employee queries and the tenant-scoped repository (locale \<open>tenant_scoped\<close>,
  interpreted by the policy table); \<open>Access_Policies\<close> the versioned policies with the table's constraints, and the
  employment policies, whose gate is composed with the floor check of \<open>Compliance_Rules\<close>. Shown: lists and single
  reads agree, the versions of a policy partition its life and change only the future, no write leaves its tenant, an
  employment policy never undercuts the rule in force; and that a scoped writer can end a tenant-wide policy, a
  scheduled policy cannot be withdrawn, and a third employment version can corrupt the second.

  \<^bold>\<open>Employees\<close> (\<open>src/src/modules/employee\<close>, \<open>bulk-import\<close>). \<open>Employee_Records\<close> models creation, update and transfer
  with the constraints of the table and the event each writes in its transaction; \<open>Bulk_Import\<close> the report, the
  committing loop, in which every record has transactions of its own, and the job with its idempotency key. Shown:
  every write of an employee is announced exactly once and leaves a valid table; a committed import has nothing left
  to do, and what it counts is what the report announced; and that hours with more than two decimals never settle.

  \<^bold>\<open>Integration hub\<close> (\<open>src/integration-hub-service/src\<close>). \<open>Json_Value\<close> holds JSON values; \<open>Hub_Model\<close> the tables and the
  life of a \<open>SyncJob\<close> (\<open>sync-jobs.service.ts\<close>), \<open>Hub_Backfill\<close> historical imports in chunks
  (\<open>historical-backfill-runner.service.ts\<close>), each chunk claimed and finished in separate steps, \<open>Hub_Rate_Limit\<close> the
  token buckets and the retry loop, \<open>Hub_Sync\<close> the batch runner and the streaming relay. \<open>Hub_Adapters\<close> models the
  four vendor adapters: paging, field mappings, the conflict detection against field-authority policies and the
  sequence of dry run and commit. What they rely on is the locale \<open>bulk_endpoint\<close>; \<open>Hub_Import\<close> interprets it with the
  endpoint of the core service, its validation and its background work around \<open>Bulk_Import\<close>. Shown: the chunks of an
  import cover each day once and stay so, an import completes in as many ticks as it has chunks and does not disturb
  others, every run settles its job, the syncs that reach a provider are bounded, a relay session accounts for its
  events, the roster is fetched completely, and a sync never changes a field of an employee that a policy reserves to
  the platform; and that a cancelled import can complete, a resumed one can starve its connector, a second start
  orphans a session, and no sync passes the guards of the endpoint.

  \<^bold>\<open>Conventions\<close>. A record is a row or an object of the source with its field names (prefixed to
  keep them apart), a datatype an enumeration, an error a value of the error type; a handler is a
  function from the state to its outcome and the state it leaves. Instants are integers
  (milliseconds), days of leave are hundredths. Clock readings, fresh identifiers, availability of
  Redis, NATS and remote services, and the choice an unordered query makes are arguments. Loops run
  over lists or have a measure, and no fuel is used; the loops that may not end, those of the frame reader and of
  the paging adapters, are \<open>partial_function\<close>s, and that they return is proved where it is claimed. Rows whose primary key is a fresh random identifier are assumed not to collide with
  existing ones where a statement needs it, as a hypothesis. Floating-point operations are parameters,
  except for the geofence, the labour rules, the thresholds of the AI layer, contract hours and token buckets, which are
  over the real numbers.
  Metrics are modelled where a handler's
  branches count them.

  \<^bold>\<open>Not modelled\<close>: analytics (SQL generation), connector configuration and the socket protocols of the relay adapters, the
  explanations and questions of the AI layer (prompt assembly), the adherence score jobs, org units, skills, work rules
  and calendars, the Python services, screens, most controllers, read-only queries, migrations other than
  the constraints named above, logging and tracing. The next parts in line are connector configuration, absence
  patterns, adherence scores, erasure requests and the passkey ceremonies.
\<close>

section \<open>The competition for a post\<close>

lemma post_events_one_claim:
  assumes inv: "db_inv s" and e: "e \<in> set (claim_events s)" "e' \<in> set (claim_events s)" "ca_postId e = ca_postId e'"
  shows "ca_claimId e = ca_claimId e'"
proof -
  have appr: "\<exists>c\<in>set (claims s). describes x c \<and> claim_status c = APPROVED" if x: "x \<in> set (claim_events s)" for x
  proof -
    obtain c where c: "c \<in> set (claims s)" "describes x c" using db_invD(3)[OF inv] x by (auto simp: events_ok_def)
    have "x \<in> set (events_of (claim_id c) s)" using x c(2) by (simp add: events_of_def describes_def)
    then have "length (events_of (claim_id c) s) \<noteq> 0" by auto
    then have "claim_status c = APPROVED" using db_invD(3)[OF inv] c(1) by (auto simp: events_ok_def split: if_splits)
    with c show ?thesis by blast
  qed
  from appr[OF e(1)] appr[OF e(2)] obtain c d where "c \<in> set (claims s)" "d \<in> set (claims s)"
    "describes e c" "describes e' d" "claim_status c = APPROVED" "claim_status d = APPROVED" by blast
  with one_liveD[OF db_invD(2)[OF inv]] e(3) show ?thesis by (auto simp: describes_def live_claim_def)
qed

lemma post_events_le_1:
  assumes inv: "db_inv s"
  shows "length (filter (\<lambda>e. ca_postId e = p) (claim_events s)) \<le> 1"
proof (cases "filter (\<lambda>e. ca_postId e = p) (claim_events s)")
  case (Cons e es)
  then have e: "e \<in> set (claim_events s)" "ca_postId e = p" by (auto dest: filter_eq_ConsD)
  obtain c where c: "c \<in> set (claims s)" "describes e c" using db_invD(3)[OF inv] e(1) by (auto simp: events_ok_def)
  have "ca_claimId x = claim_id c" if "x \<in> set (claim_events s)" "ca_postId x = p" for x
    using post_events_one_claim[OF inv that(1) e(1)] that(2) e(2) c(2) by (simp add: describes_def)
  then have "length (filter (\<lambda>e. ca_postId e = p) (claim_events s)) \<le> length (events_of (claim_id c) s)"
    unfolding events_of_def by (intro length_filter_mono)
  also have "\<dots> \<le> 1" using db_invD(3)[OF inv] c(1) by (auto simp: events_ok_def)
  finally show ?thesis .
qed simp

text \<open>A run in which employee e1 claims the open shift of the example and is approved at once.\<close>

definition demo_claim :: "claim_status \<Rightarrow> validation_result option \<Rightarrow> claim" where
  "demo_claim st vr = \<lparr>claim_id = ''c1'', claim_tenantId = ''t1'', claim_marketplacePostId = ''p1'',
     claim_claimantEmployeeId = ''e1'', claim_status = st, claim_source = SRC_OPEN_SHIFT_CLAIM,
     claim_validationResult = vr, claim_claimedAt = 5, claim_decisionReason = None\<rparr>"

definition demo_won :: mp_state where
  "demo_won = recordClaimApproved ''o1'' 6 ''t1'' ''c1'' ''p1'' ''sa1'' ''e1'' None SRC_OPEN_SHIFT_CLAIM
     (empty_state\<lparr>posts := [demo_post\<lparr>post_status := CLAIMED\<rparr>],
        claims := [demo_claim APPROVED (Some (VR_Violations True []))]\<rparr>)"

lemma demo_reachable: "mp_reachable \<lparr>sys_db = demo_won, sys_flight = []\<rparr>"
proof -
  let ?p = "demo_post" and ?s = "\<lambda>cs. empty_state\<lparr>posts := [demo_post], claims := cs\<rparr>"
  let ?c = "demo_claim PENDING_VALIDATION None"
  note unf = demo_post_def empty_state_def demo_claim_def
  have "mp_step \<lparr>sys_db = empty_state, sys_flight = []\<rparr> \<lparr>sys_db = ?s [], sys_flight = []\<rparr>"
    using mp_step.post_created[of ?p "\<lparr>sys_db = empty_state, sys_flight = []\<rparr>"] by (simp add: unf)
  moreover have "mp_step \<lparr>sys_db = ?s [], sys_flight = []\<rparr> \<lparr>sys_db = ?s [], sys_flight = [ClaimRead ''t1'' ?p ''e1'']\<rparr>"
    using mp_step.claim_read[of "''t1''" "''p1''" "\<lparr>sys_db = ?s [], sys_flight = []\<rparr>" ?p "''e1''"]
    by (simp add: unf claim_read_post_def is_post_def)
  moreover have "mp_step \<lparr>sys_db = ?s [], sys_flight = [ClaimRead ''t1'' ?p ''e1'']\<rparr>
      \<lparr>sys_db = ?s [?c], sys_flight = [ClaimPending ''t1'' ''p1'' ''c1'']\<rparr>"
    using mp_step.claim_insert[of "''t1''" ?p "''e1''" "\<lparr>sys_db = ?s [], sys_flight = [ClaimRead ''t1'' ?p ''e1'']\<rparr>"
        "''c1''" 5 ?c "?s [?c]"]
    by (simp add: unf fresh_claim_id_def claim_insert_pending_def insert_claim_def Let_def)
  moreover have "mp_step \<lparr>sys_db = ?s [?c], sys_flight = [ClaimPending ''t1'' ''p1'' ''c1'']\<rparr>
      \<lparr>sys_db = demo_won, sys_flight = []\<rparr>"
    using mp_step.claim_decide[of "''t1''" "''p1''" "''c1''" "\<lparr>sys_db = ?s [?c], sys_flight = [ClaimPending ''t1'' ''p1'' ''c1'']\<rparr>"
        True "''o1''" 6 "\<lparr>shiftAssignmentFound = True, eligible = True, violations = []\<rparr>"
        "(?p\<lparr>post_status := CLAIMED\<rparr>, demo_claim APPROVED (Some (VR_Violations True [])))" demo_won]
    by (simp add: unf demo_won_def claim_finalize_txn_def is_claim_def is_post_def claim_post_if_open_def set_claim_def Let_def)
  ultimately show ?thesis by (meson mp_reachable.intros)
qed





section \<open>Swaps under interleaving\<close>

text \<open>A run in which e1 offers a shift, e2 accepts and the policy approves at once.\<close>

definition demo_swap_input :: propose_input where
  "demo_swap_input = \<lparr>ps_tenantId = ''t1'', ps_initiatorEmployeeId = ''e1'', ps_initiatorShiftId = ''sh1'',
     ps_initiatorOrgUnitId = ''ou1'', ps_targetEmployeeId = None, ps_targetShiftId = None, ps_targetOrgUnitId = None\<rparr>"

definition demo_respond_input :: respond_input where
  "demo_respond_input = \<lparr>rs_tenantId = ''t1'', rs_swapRequestId = ''s1'', rs_respondingEmployeeId = ''e2'',
     rs_accept = True, rs_offeredShiftId = Some ''sh2'', rs_offeredOrgUnitId = Some ''ou1''\<rparr>"

definition demo_swap :: "swap_status \<Rightarrow> validation_result option \<Rightarrow> uuid option \<Rightarrow> swap" where
  "demo_swap st vr target = \<lparr>swap_id = ''s1'', swap_tenantId = ''t1'', swap_initiatorEmployeeId = ''e1'',
     swap_initiatorShiftId = ''sh1'', swap_initiatorOrgUnitId = ''ou1'', swap_targetEmployeeId = target,
     swap_targetShiftId = (if target = None then None else Some ''sh2''),
     swap_targetOrgUnitId = (if target = None then None else Some ''ou1''), swap_status = st,
     swap_requiresSupervisorApproval = True, swap_validationResult = vr, swap_createdAt = 3, swap_decisionReason = None\<rparr>"

definition demo_ok :: eligibility_outcome where
  "demo_ok = \<lparr>shiftAssignmentFound = True, eligible = True, violations = []\<rparr>"

definition demo_swapped :: mp_state where
  "demo_swapped = recordSwapExecuted ''o1'' 6 ''t1'' ''s1'' ''e1'' ''sh1'' ''e2'' ''sh2'' None
     (empty_state\<lparr>swaps := [demo_swap SW_ACCEPTED (Some (VR_Swap True [] [])) (Some ''e2'')]\<rparr>)"

lemma demo_swap_reachable: "swap_reachable (demo_swapped, [])"
proof -
  let ?s = "\<lambda>w. empty_state\<lparr>swaps := [w]\<rparr>"
  let ?w0 = "demo_swap SW_PENDING None None" and ?w1 = "demo_swap SW_PENDING None (Some ''e2'')"
  note unf = demo_swap_def empty_state_def demo_swap_input_def demo_respond_input_def demo_ok_def
  have "swap_step (empty_state, []) (?s ?w0, [])"
    using swap_step.sw_propose[of "''s1''" empty_state 3 demo_swap_input ?w0 "?s ?w0" "[]"]
    by (simp add: unf proposeSwap_def withTenantConnection_def run_txn_def Let_def)
  moreover have "swap_step (?s ?w0, []) (?s ?w1, [(''t1'', ''s1'', ''e2'')])"
    using swap_step.sw_resolve[of demo_respond_input "''t1''" "?s ?w0" ?w1 "?s ?w1" "[]"]
    by (simp add: unf resolve_txn_def is_swap_def Let_def)
  moreover have "swap_step (?s ?w1, [(''t1'', ''s1'', ''e2'')]) (demo_swapped, [])"
    using swap_step.sw_decide[of "''t1''" "''s1''" "''e2''" "[(''t1'', ''s1'', ''e2'')]" True "''o1''" 6 demo_ok demo_ok "?s ?w1"
        "demo_swap SW_ACCEPTED (Some (VR_Swap True [] [])) (Some ''e2'')" demo_swapped]
    by (simp add: unf demo_swapped_def decide_txn_def is_swap_def swap_verdict_def Let_def)
  ultimately show ?thesis by (meson swap_reachable.intros)
qed



section \<open>Decisions that race\<close>

text \<open>
  Supervisor decisions read a claim and then save it without a guard on the status they read. Two
  approvals that both read the claim while it was pending approval both commit, and the shift's
  approval is announced twice.
\<close>

theorem double_approval_announced_twice:
  assumes "approve_claim_read t cid s = Inr c"
    and "approve_claim_write o1 n1 ap1 t c s = Inr (r1, s1)"
    and "approve_claim_write o2 n2 ap2 t c s1 = Inr (r2, s2)"
  shows "length (events_of cid s2) = length (events_of cid s) + 2"
proof -
  have id: "claim_id c = cid" using approve_claim_readD[OF assms(1)] by (simp add: is_claim_def)
  have step: "length (events_of cid s') = length (events_of cid s0) + 1"
    if "approve_claim_write o' n' ap' t c s0 = Inr (r', s')" for o' n' ap' s0 r' s'
    using that id by (auto simp: approve_claim_write_def events_of_def Let_def split: option.splits)
  show ?thesis using step[OF assms(2)] step[OF assms(3)] by simp
qed

definition demo_bid_claim :: claim where
  "demo_bid_claim = bid_claim_row ''c1'' 5 ''t1'' ''p1'' ''e1'' False"

definition demo_waiting :: mp_state where
  "demo_waiting = empty_state\<lparr>posts := [demo_post\<lparr>post_status := CLAIMED\<rparr>], claims := [demo_bid_claim]\<rparr>"

theorem double_approval_announced_twice_witness:
  "\<exists>s1 s2 r1 r2. approve_claim_write ''o1'' 1 ''m1'' ''t1'' demo_bid_claim demo_waiting = Inr (r1, s1) \<and>
     approve_claim_write ''o2'' 2 ''m2'' ''t1'' demo_bid_claim s1 = Inr (r2, s2) \<and>
     length (events_of ''c1'' s2) = 2"
proof -
  let ?c = "demo_bid_claim"
  obtain s1 r1 where a: "approve_claim_write ''o1'' 1 ''m1'' ''t1'' ?c demo_waiting = Inr (r1, s1)"
    by (auto simp: approve_claim_write_def demo_waiting_def demo_bid_claim_def bid_claim_row_def demo_post_def is_post_def Let_def)
  obtain s2 r2 where b: "approve_claim_write ''o2'' 2 ''m2'' ''t1'' ?c s1 = Inr (r2, s2)"
    using a by (auto simp: approve_claim_write_def demo_waiting_def demo_bid_claim_def bid_claim_row_def demo_post_def is_post_def Let_def
        recordClaimApproved_def mp_insertWithinTransaction_def)
  have "approve_claim_read ''t1'' ''c1'' demo_waiting = Inr ?c"
    by (simp add: approve_claim_read_def demo_waiting_def demo_bid_claim_def bid_claim_row_def is_claim_def)
  from double_approval_announced_twice[OF this a b] have "length (events_of ''c1'' s2) = 2"
    by (simp add: demo_waiting_def events_of_def claim_events_def empty_state_def)
  with a b show ?thesis by blast
qed

text \<open>
  A guardrail failure of one response rejects the swap whatever its status is by then: a swap that
  another response has already executed ends up rejected although its execution stays announced.
\<close>

theorem late_failure_rejects_executed_swap:
  assumes "w \<in> set (swaps s)" "is_swap t sid w" "swap_status w = SW_ACCEPTED" "executions sid s = [e]"
  shows "\<exists>s'. swap_fail_txn sid t s = Inr ((), s') \<and> executions sid s' = [e] \<and>
           (\<exists>w'\<in>set (swaps s'). is_swap t sid w' \<and> swap_status w' = SW_REJECTED)"
proof -
  obtain v where "find_where (is_swap t sid) (swaps s) = Some v"
    using assms(1,2) by (cases "find_where (is_swap t sid) (swaps s)") (auto simp: find_where_None)
  moreover have "is_swap t sid (w\<lparr>swap_status := SW_REJECTED, swap_validationResult := Some r\<rparr>)" for r
    using assms(2) by (simp add: is_swap_def)
  ultimately show ?thesis
    using assms update_where_mem[OF assms(1), of "is_swap t sid"
        "\<lambda>w. w\<lparr>swap_status := SW_REJECTED, swap_validationResult := Some (VR_Reason False ''guardrail_validation_unavailable'')\<rparr>"]
    by (auto simp: swap_fail_txn_def executions_def intro: rev_bexI)
qed

theorem late_failure_rejects_executed_swap_witness:
  "\<exists>s'. swap_fail_txn ''s1'' ''t1'' demo_swapped = Inr ((), s') \<and> length (executions ''s1'' s') = 1 \<and>
     (\<exists>w'\<in>set (swaps s'). is_swap ''t1'' ''s1'' w' \<and> swap_status w' = SW_REJECTED)"
proof -
  have ex: "executions ''s1'' demo_swapped = [SwapExecutedEvent ''s1'' ''e1'' ''sh1'' ''e2'' ''sh2'' None 6]"
    by (simp add: demo_swapped_def executions_def swap_events_def empty_state_def recordSwapExecuted_def mp_insertWithinTransaction_def)
  have "demo_swap SW_ACCEPTED (Some (VR_Swap True [] [])) (Some ''e2'') \<in> set (swaps demo_swapped)"
    by (simp add: demo_swapped_def recordSwapExecuted_def mp_insertWithinTransaction_def)
  from late_failure_rejects_executed_swap[OF this _ _ ex, of "''t1''"] show ?thesis
    by (auto simp: is_swap_def demo_swap_def)
qed

text \<open>
  A supervisor's rejection withdraws the claim but leaves its post taken: after it no employee can
  claim that shift again through the marketplace, because the post is not open.
\<close>

theorem rejection_keeps_post_taken:
  assumes "mp_reachable g" "rejectClaim t cid reason (sys_db g) = (Inr c, s')"
  shows "claim_status c = REJECTED \<and> claim_decisionReason c = Some reason \<and> posts s' = posts (sys_db g) \<and>
         isl (claim_read_post t (claim_marketplacePostId c) s')"
proof -
  have inv: "db_inv (sys_db g)" using mp_reachable_inv[OF assms(1)] by (simp add: sys_inv_def)
  obtain d where rd: "approve_claim_read t cid (sys_db g) = Inr d" and w: "(c, s') = reject_claim_write reason t d (sys_db g)"
    using assms(2) by (auto simp: rejectClaim_def withTenantConnection_def run_txn_def reject_claim_txn_def split: sum.splits)
  note d = approve_claim_readD[OF rd]
  have c: "c = d\<lparr>claim_status := REJECTED, claim_decisionReason := Some reason\<rparr>" and ps: "posts s' = posts (sys_db g)"
    using w by (simp_all add: reject_claim_write_def)
  obtain p where p: "p \<in> set (posts (sys_db g))" "post_id p = claim_marketplacePostId d" "post_status p = CLAIMED"
    using db_invD(4)[OF inv] d by (auto simp: slots_ok_def granted_def slot_taken_def)
  have "post_status q \<noteq> OPEN" if "find_where (is_post t (claim_marketplacePostId d)) (posts (sys_db g)) = Some q" for q
    using find_where_SomeD[OF that] p post_by_id[OF db_invD(1)[OF inv], of q p] by (auto simp: is_post_def)
  then show ?thesis by (auto simp: c ps claim_read_post_def split: option.splits)
qed

lemma demo_waiting_reachable: "mp_reachable \<lparr>sys_db = demo_waiting, sys_flight = []\<rparr>"
proof -
  let ?s = "\<lambda>ps cs. empty_state\<lparr>posts := ps, claims := cs\<rparr>" and ?e = "demo_post"
  note unf = demo_post_def empty_state_def demo_claim_def
  have "mp_step \<lparr>sys_db = empty_state, sys_flight = []\<rparr> \<lparr>sys_db = ?s [?e] [], sys_flight = []\<rparr>"
    using mp_step.post_created[of ?e "\<lparr>sys_db = empty_state, sys_flight = []\<rparr>"] by (simp add: unf)
  moreover have "mp_step \<lparr>sys_db = ?s [?e] [], sys_flight = []\<rparr> \<lparr>sys_db = ?s [?e] [], sys_flight = [BidChecked ''t1'' ?e ''e1'']\<rparr>"
    using mp_step.bid_checked[of "''t1''" "''p1''" "\<lparr>sys_db = ?s [?e] [], sys_flight = []\<rparr>" ?e "''e1''"]
    by (simp add: unf is_post_def)
  moreover have "mp_step \<lparr>sys_db = ?s [?e] [], sys_flight = [BidChecked ''t1'' ?e ''e1'']\<rparr>
      \<lparr>sys_db = demo_waiting, sys_flight = []\<rparr>"
    using mp_step.bid_convert[of "''t1''" ?e "''e1''" "\<lparr>sys_db = ?s [?e] [], sys_flight = [BidChecked ''t1'' ?e ''e1'']\<rparr>"
        "''c1''" False "''o1''" 5 "Some demo_bid_claim" demo_waiting]
    by (simp add: unf demo_waiting_def demo_bid_claim_def fresh_claim_id_def convert_txn_def bid_claim_row_def insert_claim_def
        claim_post_if_open_def is_post_def Let_def)
  ultimately show ?thesis by (meson mp_reachable.intros)
qed

theorem rejection_keeps_post_taken_witness:
  "\<exists>c s'. rejectClaim ''t1'' ''c1'' ''no'' demo_waiting = (Inr c, s') \<and> isl (claim_read_post ''t1'' ''p1'' s')"
proof -
  obtain c s' where r: "rejectClaim ''t1'' ''c1'' ''no'' demo_waiting = (Inr c, s')" and c: "claim_marketplacePostId c = ''p1''"
    by (auto simp: rejectClaim_def withTenantConnection_def run_txn_def reject_claim_txn_def approve_claim_read_def
        reject_claim_write_def demo_waiting_def demo_bid_claim_def bid_claim_row_def is_claim_def)
  have "rejectClaim ''t1'' ''c1'' ''no'' (sys_db \<lparr>sys_db = demo_waiting, sys_flight = []\<rparr>) = (Inr c, s')" using r by simp
  from rejection_keeps_post_taken[OF demo_waiting_reachable this] r c show ?thesis by auto
qed

end
